(* ===== verification/DxePrelude.thy ===== *)
theory DxePrelude
  imports Main "HOL-Library.Word" "HOL-Library.Monad_Syntax"
begin

section \<open>Prelude: machine integers, status codes, calls that may not return\<close>

text \<open>
  Types and lemmas shared by every component theory.

  \<^item> \<open>uintn\<close>, \<open>uint32\<close>, \<open>uint64\<close>: the fixed-width integers of the firmware (an X64 build, so
    \<open>UINTN\<close> has 64 bits).
  \<^item> \<open>EFI_STATUS\<close>: the status codes of \<^verbatim>\<open>MdePkg/Include/Uefi/UefiBaseType.h\<close> the modelled code
    returns; \<open>EFI_ERROR\<close> tells the error codes from the success code.
  \<^item> A C call is a value of an option type: \<open>Some r\<close> is a call that returns \<open>r\<close>, and \<open>None\<close> is a
    call that does not return, because an \<open>ASSERT\<close> fired (\<open>DebugAssert\<close> ends in
    \<open>CpuDeadLoop\<close>), because a pointer that is not mapped was followed, or because a loop never
    ends. A theorem that the code returns is a theorem that the value is \<open>Some\<close>.
  \<^item> The collection \<open>efi_simps\<close> gathers the unfolding facts the component proofs share.
\<close>

type_synonym uint8 = "8 word"
type_synonym uint32 = "32 word"
type_synonym uint64 = "64 word"
type_synonym uintn = "64 word"
type_synonym EFI_GUID = "128 word"

named_theorems efi_simps \<open>unfolding facts of the modelled C idioms\<close>

datatype EFI_STATUS =
    EFI_SUCCESS
  | EFI_INVALID_PARAMETER
  | EFI_UNSUPPORTED
  | EFI_NOT_READY
  | EFI_OUT_OF_RESOURCES
  | EFI_NOT_FOUND
  | EFI_ACCESS_DENIED
  | EFI_ALREADY_STARTED
  | EFI_BUFFER_TOO_SMALL
  | EFI_BAD_BUFFER_SIZE
  | EFI_PROTOCOL_ERROR
  | EFI_SECURITY_VIOLATION
  | EFI_NO_MAPPING

definition EFI_ERROR :: "EFI_STATUS \<Rightarrow> bool" where
  "EFI_ERROR st \<longleftrightarrow> st \<noteq> EFI_SUCCESS"

lemma EFI_ERROR_simps [simp]:
  "\<not> EFI_ERROR EFI_SUCCESS"
  "EFI_ERROR EFI_INVALID_PARAMETER"
  "EFI_ERROR EFI_UNSUPPORTED"
  "EFI_ERROR EFI_NOT_READY"
  "EFI_ERROR EFI_OUT_OF_RESOURCES"
  "EFI_ERROR EFI_NOT_FOUND"
  "EFI_ERROR EFI_ACCESS_DENIED"
  "EFI_ERROR EFI_ALREADY_STARTED"
  "EFI_ERROR EFI_BUFFER_TOO_SMALL"
  "EFI_ERROR EFI_BAD_BUFFER_SIZE"
  "EFI_ERROR EFI_PROTOCOL_ERROR"
  "EFI_ERROR EFI_SECURITY_VIOLATION"
  "EFI_ERROR EFI_NO_MAPPING"
  by (simp_all add: EFI_ERROR_def)

text \<open>
  \<open>ASSERT\<close> of \<^verbatim>\<open>MdePkg/Include/Library/DebugLib.h\<close>: the expression is evaluated only when
  assertions are enabled, and a false expression does not return.
\<close>

definition ASSERT :: "bool \<Rightarrow> bool option \<Rightarrow> unit option" where
  "ASSERT enabled e = (if enabled then (case e of Some True \<Rightarrow> Some () | _ \<Rightarrow> None) else Some ())"

lemma ASSERT_simps [simp]:
  "ASSERT False e = Some ()"
  "ASSERT en (Some True) = Some ()"
  "ASSERT True (Some False) = None"
  "ASSERT True None = None"
  by (simp_all add: ASSERT_def)

lemma ASSERT_Some_iff:
  "ASSERT en e = Some u \<longleftrightarrow> (en \<longrightarrow> e = Some True)"
  by (auto simp: ASSERT_def split: option.splits bool.splits)

lemma ASSERT_ok: "(en \<Longrightarrow> e = Some True) \<Longrightarrow> ASSERT en e = Some ()"
  by (simp add: ASSERT_Some_iff)

text \<open>The state of a lock (\<^verbatim>\<open>MdePkg/Include/Library/UefiLib.h\<close>).\<close>

datatype EFI_LOCK_STATE = EfiLockUninitialized | EfiLockReleased | EfiLockAcquired

text \<open>
  A C \<open>while\<close> loop whose body may not return. Not returning, of the body or of the loop, is \<open>None\<close>.
  The first rule is for a loop that has returned; the second shows that it returns.
\<close>

partial_function (option) while_opt :: "('s \<Rightarrow> bool) \<Rightarrow> ('s \<Rightarrow> 's option) \<Rightarrow> 's \<Rightarrow> 's option" where
  "while_opt c b s = (if c s then Option.bind (b s) (while_opt c b) else Some s)"

declare while_opt.simps [code]

lemma while_opt_stop: "\<not> c s \<Longrightarrow> while_opt c b s = Some s"
  by (subst while_opt.simps) simp

lemma while_opt_rule:
  assumes run: "while_opt c b s = Some u" and init: "I s"
    and step: "\<And>s v. I s \<Longrightarrow> c s \<Longrightarrow> b s = Some v \<Longrightarrow> I v"
  shows "I u \<and> \<not> c u"
proof -
  have "c = c \<longrightarrow> b = b \<longrightarrow> I s \<longrightarrow> I u \<and> \<not> c u"
    by (rule while_opt.raw_induct [where P = "\<lambda>c' b' s u.
          c' = c \<longrightarrow> b' = b \<longrightarrow> I s \<longrightarrow> I u \<and> \<not> c u", OF _ run])
      (auto simp: bind_eq_Some_conv split: if_splits dest: step)
  with init show ?thesis by simp
qed

lemma while_opt_total:
  fixes m :: "'s \<Rightarrow> nat"
  assumes step: "\<And>s. I s \<Longrightarrow> c s \<Longrightarrow> \<exists>v. b s = Some v \<and> I v \<and> m v < m s" and init: "I s"
  shows "\<exists>u. while_opt c b s = Some u \<and> I u \<and> \<not> c u"
  using init
proof (induction "m s" arbitrary: s rule: less_induct)
  case less
  show ?case
  proof (cases "c s")
    case True
    from step [OF less.prems True] obtain v where v: "b s = Some v" "I v" "m v < m s" by blast
    from less.hyps [OF v(3,2)] obtain u where "while_opt c b v = Some u \<and> I u \<and> \<not> c u" by blast
    with v True show ?thesis by (subst while_opt.simps) simp
  next
    case False
    with less.prems show ?thesis by (subst while_opt.simps) simp
  qed
qed

text \<open>Invariants of step systems, shared by the components that are state machines.\<close>

locale step_system =
  fixes init :: "'s \<Rightarrow> bool"
    and step :: "'s \<Rightarrow> 's \<Rightarrow> bool"
    and inv :: "'s \<Rightarrow> bool"
  assumes inv_init: "init s \<Longrightarrow> inv s"
    and inv_step: "inv s \<Longrightarrow> step s t \<Longrightarrow> inv t"
begin

lemma inv_steps:
  assumes "step\<^sup>*\<^sup>* s t" "inv s"
  shows "inv t"
  using assms by (induction rule: rtranclp_induct) (auto intro: inv_step)

lemma inv_reachable: "init s \<Longrightarrow> step\<^sup>*\<^sup>* s t \<Longrightarrow> inv t"
  by (blast intro: inv_steps inv_init)

end

end
