(* ===== verification/LinkedList.thy ===== *)
theory LinkedList
  imports DxePrelude
begin

section \<open>Doubly linked lists of BaseLib\<close>

text \<open>
  Model of \<^verbatim>\<open>MdePkg/Library/BaseLib/LinkedList.c\<close> over an explicit store: a pointer is a
  number (\<open>0\<close> is \<open>NULL\<close>), the store maps a pointer to the \<open>LIST_ENTRY\<close> there, and every read and
  write of a link is one store access in the order of the source. The abstract value of a list
  is the HOL list of its nodes; \<open>is_list\<close> relates the two.
\<close>

subsection \<open>Store\<close>

type_synonym ptr = nat

abbreviation NULL :: ptr where
  "NULL \<equiv> 0"

record LIST_ENTRY =
  ForwardLink :: ptr
  BackLink :: ptr

type_synonym heap = "ptr \<rightharpoonup> LIST_ENTRY"

text \<open>The platform configuration the code reads.\<close>

record PCD =
  DebugAssertEnabled :: bool
  PcdVerifyNodeInList :: bool
  PcdMaximumLinkedListLength :: nat

definition fwd :: "heap \<Rightarrow> ptr \<Rightarrow> ptr option" where
  "fwd h p = (if p = NULL then None else map_option ForwardLink (h p))"

definition bwd :: "heap \<Rightarrow> ptr \<Rightarrow> ptr option" where
  "bwd h p = (if p = NULL then None else map_option BackLink (h p))"

definition set_fwd :: "heap \<Rightarrow> ptr \<Rightarrow> ptr \<Rightarrow> heap option" where
  "set_fwd h p v =
     (if p = NULL then None
      else case h p of None \<Rightarrow> None | Some e \<Rightarrow> Some (h(p \<mapsto> e\<lparr>ForwardLink := v\<rparr>)))"

definition set_bwd :: "heap \<Rightarrow> ptr \<Rightarrow> ptr \<Rightarrow> heap option" where
  "set_bwd h p v =
     (if p = NULL then None
      else case h p of None \<Rightarrow> None | Some e \<Rightarrow> Some (h(p \<mapsto> e\<lparr>BackLink := v\<rparr>)))"

subsection \<open>Operations\<close>

text \<open>
  The two \<open>do ... while\<close> loops of \<open>InternalBaseLibIsNodeInList\<close>. The first ends with an early
  return (\<open>Inl\<close>) or with the values of \<open>Ptr\<close> and \<open>Count\<close> (\<open>Inr\<close>). On a store that is not a ring
  through \<open>List\<close> they may run forever, hence \<open>partial_function\<close>.
\<close>

partial_function (option) find_node_loop ::
    "PCD \<Rightarrow> heap \<Rightarrow> ptr \<Rightarrow> ptr \<Rightarrow> ptr \<Rightarrow> nat \<Rightarrow> (bool + ptr \<times> nat) option" where
  "find_node_loop cfg h List Node Ptr Count =
     Option.bind (fwd h Ptr) (\<lambda>Ptr.
       if PcdMaximumLinkedListLength cfg > 0 then
         Option.bind (ASSERT (DebugAssertEnabled cfg)
             (Some (Count + 1 < PcdMaximumLinkedListLength cfg))) (\<lambda>_.
           if Count + 1 \<ge> PcdMaximumLinkedListLength cfg then Some (Inl (Ptr = Node))
           else if Ptr \<noteq> List \<and> Ptr \<noteq> Node
           then find_node_loop cfg h List Node Ptr (Count + 1)
           else Some (Inr (Ptr, Count + 1)))
       else if Ptr \<noteq> List \<and> Ptr \<noteq> Node then find_node_loop cfg h List Node Ptr Count
       else Some (Inr (Ptr, Count)))"

partial_function (option) count_nodes_loop ::
    "PCD \<Rightarrow> heap \<Rightarrow> ptr \<Rightarrow> ptr \<Rightarrow> nat \<Rightarrow> nat option" where
  "count_nodes_loop cfg h List Ptr Count =
     Option.bind (fwd h Ptr) (\<lambda>Ptr.
       if Ptr \<noteq> List \<and> Count + 1 < PcdMaximumLinkedListLength cfg
       then count_nodes_loop cfg h List Ptr (Count + 1)
       else Some (Count + 1))"

definition InternalBaseLibIsNodeInList ::
    "PCD \<Rightarrow> heap \<Rightarrow> ptr \<Rightarrow> ptr \<Rightarrow> bool \<Rightarrow> bool option" where
  "InternalBaseLibIsNodeInList cfg h List Node VerifyNodeInList = do {
     ASSERT (DebugAssertEnabled cfg) (Some (List \<noteq> NULL));
     ASSERT (DebugAssertEnabled cfg) (map_option (\<lambda>f. f \<noteq> NULL) (fwd h List));
     ASSERT (DebugAssertEnabled cfg) (map_option (\<lambda>b. b \<noteq> NULL) (bwd h List));
     ASSERT (DebugAssertEnabled cfg) (Some (Node \<noteq> NULL));
     r \<leftarrow> (if PcdVerifyNodeInList cfg \<and> VerifyNodeInList
           then do {
             r \<leftarrow> find_node_loop cfg h List Node List 0;
             (case r of
                Inl b \<Rightarrow> Some (Inl b)
              | Inr (Ptr, Count) \<Rightarrow>
                  if Ptr \<noteq> Node then Some (Inl False) else Some (Inr (Ptr, Count)))
           }
           else Some (Inr (List, 0)));
     (case r of
        Inl b \<Rightarrow> Some b
      | Inr (Ptr, Count) \<Rightarrow>
          if PcdMaximumLinkedListLength cfg > 0 then do {
            Count' \<leftarrow> count_nodes_loop cfg h List Ptr Count;
            ASSERT (DebugAssertEnabled cfg) (Some (Count' < PcdMaximumLinkedListLength cfg));
            Some True
          }
          else Some True)
   }"

definition InitializeListHead :: "PCD \<Rightarrow> heap \<Rightarrow> ptr \<Rightarrow> (ptr \<times> heap) option" where
  "InitializeListHead cfg h ListHead = do {
     ASSERT (DebugAssertEnabled cfg) (Some (ListHead \<noteq> NULL));
     h \<leftarrow> set_fwd h ListHead ListHead;
     h \<leftarrow> set_bwd h ListHead ListHead;
     Some (ListHead, h)
   }"

definition InsertHeadList :: "PCD \<Rightarrow> heap \<Rightarrow> ptr \<Rightarrow> ptr \<Rightarrow> (ptr \<times> heap) option" where
  "InsertHeadList cfg h ListHead Entry = do {
     ASSERT (DebugAssertEnabled cfg) (InternalBaseLibIsNodeInList cfg h ListHead Entry False);
     f \<leftarrow> fwd h ListHead;
     h \<leftarrow> set_fwd h Entry f;
     h \<leftarrow> set_bwd h Entry ListHead;
     f \<leftarrow> fwd h Entry;
     h \<leftarrow> set_bwd h f Entry;
     h \<leftarrow> set_fwd h ListHead Entry;
     Some (ListHead, h)
   }"

definition InsertTailList :: "PCD \<Rightarrow> heap \<Rightarrow> ptr \<Rightarrow> ptr \<Rightarrow> (ptr \<times> heap) option" where
  "InsertTailList cfg h ListHead Entry = do {
     ASSERT (DebugAssertEnabled cfg) (InternalBaseLibIsNodeInList cfg h ListHead Entry False);
     h \<leftarrow> set_fwd h Entry ListHead;
     b \<leftarrow> bwd h ListHead;
     h \<leftarrow> set_bwd h Entry b;
     b \<leftarrow> bwd h Entry;
     h \<leftarrow> set_fwd h b Entry;
     h \<leftarrow> set_bwd h ListHead Entry;
     Some (ListHead, h)
   }"

definition GetFirstNode :: "PCD \<Rightarrow> heap \<Rightarrow> ptr \<Rightarrow> ptr option" where
  "GetFirstNode cfg h List = do {
     ASSERT (DebugAssertEnabled cfg) (InternalBaseLibIsNodeInList cfg h List List False);
     fwd h List
   }"

definition GetNextNode :: "PCD \<Rightarrow> heap \<Rightarrow> ptr \<Rightarrow> ptr \<Rightarrow> ptr option" where
  "GetNextNode cfg h List Node = do {
     ASSERT (DebugAssertEnabled cfg) (InternalBaseLibIsNodeInList cfg h List Node True);
     fwd h Node
   }"

definition GetPreviousNode :: "PCD \<Rightarrow> heap \<Rightarrow> ptr \<Rightarrow> ptr \<Rightarrow> ptr option" where
  "GetPreviousNode cfg h List Node = do {
     ASSERT (DebugAssertEnabled cfg) (InternalBaseLibIsNodeInList cfg h List Node True);
     bwd h Node
   }"

definition IsListEmpty :: "PCD \<Rightarrow> heap \<Rightarrow> ptr \<Rightarrow> bool option" where
  "IsListEmpty cfg h ListHead = do {
     ASSERT (DebugAssertEnabled cfg) (InternalBaseLibIsNodeInList cfg h ListHead ListHead False);
     f \<leftarrow> fwd h ListHead;
     Some (f = ListHead)
   }"

definition IsNull :: "PCD \<Rightarrow> heap \<Rightarrow> ptr \<Rightarrow> ptr \<Rightarrow> bool option" where
  "IsNull cfg h List Node = do {
     ASSERT (DebugAssertEnabled cfg) (InternalBaseLibIsNodeInList cfg h List Node True);
     Some (Node = List)
   }"

definition IsNodeAtEnd :: "PCD \<Rightarrow> heap \<Rightarrow> ptr \<Rightarrow> ptr \<Rightarrow> bool option" where
  "IsNodeAtEnd cfg h List Node = do {
     ASSERT (DebugAssertEnabled cfg) (InternalBaseLibIsNodeInList cfg h List Node True);
     n \<leftarrow> IsNull cfg h List Node;
     if n then Some False
     else do { b \<leftarrow> bwd h List; Some (b = Node) }
   }"

definition RemoveEntryList :: "PCD \<Rightarrow> heap \<Rightarrow> ptr \<Rightarrow> (ptr \<times> heap) option" where
  "RemoveEntryList cfg h Entry = do {
     ASSERT (DebugAssertEnabled cfg) (map_option Not (IsListEmpty cfg h Entry));
     f \<leftarrow> fwd h Entry;
     b \<leftarrow> bwd h Entry;
     h \<leftarrow> set_bwd h f b;
     b \<leftarrow> bwd h Entry;
     f \<leftarrow> fwd h Entry;
     h \<leftarrow> set_fwd h b f;
     f \<leftarrow> fwd h Entry;
     Some (f, h)
   }"

definition SwapListEntries :: "PCD \<Rightarrow> heap \<Rightarrow> ptr \<Rightarrow> ptr \<Rightarrow> (ptr \<times> heap) option" where
  "SwapListEntries cfg h FirstEntry SecondEntry =
     (if FirstEntry = SecondEntry then Some (SecondEntry, h)
      else do {
        ASSERT (DebugAssertEnabled cfg)
          (InternalBaseLibIsNodeInList cfg h FirstEntry SecondEntry True);
        (Ptr, h) \<leftarrow> RemoveEntryList cfg h FirstEntry;
        b \<leftarrow> bwd h Ptr;
        if b = SecondEntry then InsertTailList cfg h SecondEntry FirstEntry
        else do {
          (r, h) \<leftarrow> InsertHeadList cfg h SecondEntry FirstEntry;
          if Ptr = r then Some (Ptr, h)
          else do {
            (_, h) \<leftarrow> RemoveEntryList cfg h SecondEntry;
            (_, h) \<leftarrow> InsertTailList cfg h Ptr SecondEntry;
            Some (SecondEntry, h)
          }
        }
      })"

subsection \<open>Reading the store after a write\<close>

lemma fwd_Some_mapped: "fwd h p = Some v \<Longrightarrow> p \<noteq> NULL \<and> p \<in> dom h"
  by (auto simp: fwd_def split: if_splits)

lemma bwd_Some_mapped: "bwd h p = Some v \<Longrightarrow> p \<noteq> NULL \<and> p \<in> dom h"
  by (auto simp: bwd_def split: if_splits)

text \<open>The store after a write, where the write is possible.\<close>

definition upd_fwd :: "heap \<Rightarrow> ptr \<Rightarrow> ptr \<Rightarrow> heap" where
  "upd_fwd h p v = h(p := map_option (ForwardLink_update (\<lambda>_. v)) (h p))"

definition upd_bwd :: "heap \<Rightarrow> ptr \<Rightarrow> ptr \<Rightarrow> heap" where
  "upd_bwd h p v = h(p := map_option (BackLink_update (\<lambda>_. v)) (h p))"

definition mapped :: "heap \<Rightarrow> ptr \<Rightarrow> bool" where
  "mapped h p \<longleftrightarrow> p \<noteq> NULL \<and> p \<in> dom h"

lemma set_fwd_mapped: "mapped h p \<Longrightarrow> set_fwd h p v = Some (upd_fwd h p v)"
  by (auto simp: set_fwd_def upd_fwd_def mapped_def split: option.splits)

lemma set_bwd_mapped: "mapped h p \<Longrightarrow> set_bwd h p v = Some (upd_bwd h p v)"
  by (auto simp: set_bwd_def upd_bwd_def mapped_def split: option.splits)

lemma mapped_upd [simp]:
  "mapped (upd_fwd h p v) q = mapped h q"
  "mapped (upd_bwd h p v) q = mapped h q"
  by (auto simp: mapped_def upd_fwd_def upd_bwd_def dom_def)

lemma fwd_upd_bwd [simp]: "fwd (upd_bwd h p v) = fwd h"
  by (rule ext) (simp add: fwd_def upd_bwd_def option.map_comp o_def)

lemma bwd_upd_fwd [simp]: "bwd (upd_fwd h p v) = bwd h"
  by (rule ext) (simp add: bwd_def upd_fwd_def option.map_comp o_def)

lemma fwd_upd_fwd [simp]: "mapped h p \<Longrightarrow> fwd (upd_fwd h p v) = (fwd h)(p \<mapsto> v)"
  by (rule ext) (auto simp: fwd_def upd_fwd_def mapped_def)

lemma bwd_upd_bwd [simp]: "mapped h p \<Longrightarrow> bwd (upd_bwd h p v) = (bwd h)(p \<mapsto> v)"
  by (rule ext) (auto simp: bwd_def upd_bwd_def mapped_def)

lemma upd_other [simp]:
  "q \<noteq> p \<Longrightarrow> upd_fwd h p v q = h q"
  "q \<noteq> p \<Longrightarrow> upd_bwd h p v q = h q"
  by (simp_all add: upd_fwd_def upd_bwd_def)

lemma dom_upd [simp]:
  "dom (upd_fwd h p v) = dom h"
  "dom (upd_bwd h p v) = dom h"
  by (auto simp: upd_fwd_def upd_bwd_def dom_def)

subsection \<open>The abstract value of a list\<close>

text \<open>
  \<open>seg F B a xs b\<close>: following \<open>F\<close> from \<open>a\<close> visits \<open>xs\<close> and then \<open>b\<close>, and \<open>B\<close> leads back. A list
  with head \<open>head\<close> and nodes \<open>xs\<close> is a segment from the head to itself.
\<close>

primrec seg :: "(ptr \<rightharpoonup> ptr) \<Rightarrow> (ptr \<rightharpoonup> ptr) \<Rightarrow> ptr \<Rightarrow> ptr list \<Rightarrow> ptr \<Rightarrow> bool" where
  "seg F B a [] b \<longleftrightarrow> F a = Some b \<and> B b = Some a"
| "seg F B a (x # xs) b \<longleftrightarrow> F a = Some x \<and> B x = Some a \<and> seg F B x xs b"

definition is_list :: "heap \<Rightarrow> ptr \<Rightarrow> ptr list \<Rightarrow> bool" where
  "is_list h head xs \<longleftrightarrow> distinct (head # xs) \<and> seg (fwd h) (bwd h) head xs head"

lemma seg_append [simp]:
  "seg F B a (xs @ y # ys) b \<longleftrightarrow> seg F B a xs y \<and> seg F B y ys b"
  by (induction xs arbitrary: a) auto

lemma seg_fwd_cong:
  "(\<And>p. p \<in> insert a (set xs) \<Longrightarrow> F' p = F p) \<Longrightarrow>
   (\<And>p. p \<in> insert b (set xs) \<Longrightarrow> B' p = B p) \<Longrightarrow> seg F' B' a xs b = seg F B a xs b"
  by (induction xs arbitrary: a) auto

lemma seg_upd_F: "p \<noteq> a \<Longrightarrow> p \<notin> set xs \<Longrightarrow> seg (F(p := v)) B a xs b = seg F B a xs b"
  by (rule seg_fwd_cong) auto

lemma seg_upd_B: "p \<noteq> b \<Longrightarrow> p \<notin> set xs \<Longrightarrow> seg F (B(p := v)) a xs b = seg F B a xs b"
  by (rule seg_fwd_cong) auto

lemma seg_mapped:
  "seg (fwd h) (bwd h) a xs b \<Longrightarrow> p \<in> insert a (insert b (set xs)) \<Longrightarrow> mapped h p"
  by (induction xs arbitrary: a)
    (auto simp: mapped_def dest: fwd_Some_mapped bwd_Some_mapped)

lemma is_list_mapped: "is_list h head xs \<Longrightarrow> p \<in> set (head # xs) \<Longrightarrow> mapped h p"
  by (auto simp: is_list_def dest: seg_mapped)

lemma mapped_not_NULL: "mapped h p \<Longrightarrow> p \<noteq> NULL"
  by (simp add: mapped_def)

text \<open>Every node of a ring can serve as its head.\<close>

lemma is_list_rotate: "is_list h head (xs @ y # ys) \<longleftrightarrow> is_list h y (ys @ head # xs)"
  by (auto simp: is_list_def)

lemma is_list_fwd_last: "is_list h head xs \<Longrightarrow> fwd h (last (head # xs)) = Some head"
proof (cases xs rule: rev_cases)
  case Nil
  then show "is_list h head xs \<Longrightarrow> ?thesis" by (simp add: is_list_def)
next
  case (snoc ys y)
  then show "is_list h head xs \<Longrightarrow> ?thesis" by (simp add: is_list_def)
qed

text \<open>The abstract value is determined by the store.\<close>

lemma seg_unique:
  "seg F B a xs c \<Longrightarrow> seg F B a ys c \<Longrightarrow> c \<notin> set xs \<Longrightarrow> c \<notin> set ys \<Longrightarrow> xs = ys"
proof (induction xs arbitrary: a ys)
  case Nil
  then show ?case by (cases ys) auto
next
  case (Cons x xs)
  then show ?case by (cases ys) auto
qed

lemma is_list_unique: "is_list h head xs \<Longrightarrow> is_list h head ys \<Longrightarrow> xs = ys"
  by (auto simp: is_list_def intro: seg_unique)

text \<open>A list is untouched by changes to other nodes.\<close>

lemma is_list_frame:
  assumes "is_list h head xs" "\<And>p. p \<in> set (head # xs) \<Longrightarrow> h' p = h p"
  shows "is_list h' head xs"
  using assms seg_fwd_cong [of head xs "fwd h'" "fwd h" head "bwd h'" "bwd h"]
  by (auto simp: is_list_def fwd_def bwd_def)

subsection \<open>The membership and length check\<close>

lemma count_nodes_loop_seg:
  assumes "seg (fwd h) B a xs head" "head \<notin> set xs"
    and "Count + length xs + 1 < PcdMaximumLinkedListLength cfg"
  shows "count_nodes_loop cfg h head a Count = Some (Count + length xs + 1)"
  using assms
proof (induction xs arbitrary: a Count)
  case Nil
  then show ?case by (subst count_nodes_loop.simps) simp
next
  case (Cons x xs)
  then show ?case by (subst count_nodes_loop.simps) auto
qed

text \<open>
  \<open>fits\<close>: a ring of \<open>n\<close> nodes passes the length assertion. The code counts the nodes from the
  head round to the head.
\<close>

definition fits :: "PCD \<Rightarrow> nat \<Rightarrow> bool" where
  "fits cfg n \<longleftrightarrow> PcdMaximumLinkedListLength cfg = 0 \<or> n < PcdMaximumLinkedListLength cfg"

lemma IsNodeInList_noverify:
  assumes "is_list h head xs" "Node \<noteq> NULL" "fits cfg (Suc (length xs))"
  shows "InternalBaseLibIsNodeInList cfg h head Node False = Some True"
proof -
  have h0: "head \<noteq> NULL" using assms(1) is_list_mapped mapped_not_NULL by force
  obtain f b where fb: "fwd h head = Some f" "bwd h head = Some b" "f \<noteq> NULL" "b \<noteq> NULL"
  proof -
    have "mapped h head" using assms(1) by (simp add: is_list_mapped)
    then obtain f b where "fwd h head = Some f" "bwd h head = Some b"
      by (auto simp: mapped_def fwd_def bwd_def)
    moreover have "f \<in> set (head # xs)"
      using assms(1) \<open>fwd h head = Some f\<close> by (cases xs) (auto simp: is_list_def)
    moreover have "b \<in> set (head # xs)"
      using assms(1) \<open>bwd h head = Some b\<close>
      by (cases xs rule: rev_cases) (auto simp: is_list_def)
    ultimately show ?thesis
      using that assms(1) is_list_mapped mapped_not_NULL by metis
  qed
  have cnt: "PcdMaximumLinkedListLength cfg > 0 \<Longrightarrow>
      count_nodes_loop cfg h head head 0 = Some (Suc (length xs))"
    using count_nodes_loop_seg [of h "bwd h" head xs head 0 cfg] assms
    by (auto simp: is_list_def fits_def)
  show ?thesis
    using h0 fb assms(2,3) cnt
    by (auto simp: InternalBaseLibIsNodeInList_def fits_def)
qed

lemma find_node_loop_seg:
  assumes "seg (fwd h) B a us c" "c = List \<or> c = Node" "List \<notin> set us" "Node \<notin> set us"
    and "fits cfg (Count + length us + 1)"
  shows "find_node_loop cfg h List Node a Count =
    Some (Inr (c, if PcdMaximumLinkedListLength cfg > 0 then Count + length us + 1 else Count))"
  using assms
proof (induction us arbitrary: a Count)
  case Nil
  then show ?case by (subst find_node_loop.simps) (auto simp: fits_def)
next
  case (Cons x us)
  then show ?case by (subst find_node_loop.simps) (auto simp: fits_def)
qed

text \<open>The three results of the check: a node of the list, a foreign node, the head itself.\<close>

lemma is_list_ends:
  assumes "is_list h head xs"
  shows "fwd h head = Some (hd (xs @ [head]))" "bwd h head = Some (last (head # xs))"
proof -
  show "fwd h head = Some (hd (xs @ [head]))" using assms by (cases xs) (auto simp: is_list_def)
  show "bwd h head = Some (last (head # xs))"
    using assms by (cases xs rule: rev_cases) (auto simp: is_list_def)
qed

lemma is_list_ends_not_NULL:
  assumes "is_list h head xs"
  shows "hd (xs @ [head]) \<noteq> NULL" "last (head # xs) \<noteq> NULL" "head \<noteq> NULL"
proof -
  have "hd (xs @ [head]) \<in> set (head # xs)" by (cases xs) auto
  then show "hd (xs @ [head]) \<noteq> NULL" using assms is_list_mapped mapped_not_NULL by blast
  show "last (head # xs) \<noteq> NULL" using assms is_list_mapped mapped_not_NULL last_in_set by blast
  show "head \<noteq> NULL" using assms is_list_mapped mapped_not_NULL by force
qed

lemma IsNodeInList_verify_node:
  assumes L: "is_list h head (us @ Node # vs)" and v: "PcdVerifyNodeInList cfg"
    and room: "fits cfg (Suc (length (us @ Node # vs)))"
  shows "InternalBaseLibIsNodeInList cfg h head Node True = Some True"
proof -
  have N: "Node \<noteq> NULL" using L is_list_mapped mapped_not_NULL by force
  from L have s: "seg (fwd h) (bwd h) head us Node" "seg (fwd h) (bwd h) Node vs head"
    and d: "head \<notin> set us" "Node \<notin> set us" "head \<notin> set vs" by (auto simp: is_list_def)
  have f: "find_node_loop cfg h head Node head 0 = Some (Inr (Node,
      if PcdMaximumLinkedListLength cfg > 0 then length us + 1 else 0))"
    using find_node_loop_seg [OF s(1), of head Node cfg 0] d room by (auto simp: fits_def)
  have c: "PcdMaximumLinkedListLength cfg > 0 \<Longrightarrow>
      count_nodes_loop cfg h head Node (Suc (length us)) = Some (length us + length vs + 2)"
    using count_nodes_loop_seg [OF s(2), of "Suc (length us)" cfg] d room by (auto simp: fits_def)
  show ?thesis
    using N v f c room is_list_ends [OF L] is_list_ends_not_NULL [OF L]
    by (auto simp: InternalBaseLibIsNodeInList_def fits_def)
qed

lemma IsNodeInList_verify_foreign:
  assumes L: "is_list h head xs" and v: "PcdVerifyNodeInList cfg"
    and N: "Node \<noteq> NULL" "Node \<notin> set (head # xs)" and room: "fits cfg (Suc (length xs))"
  shows "InternalBaseLibIsNodeInList cfg h head Node True = Some False"
proof -
  from L have s: "seg (fwd h) (bwd h) head xs head" and d: "head \<notin> set xs"
    by (auto simp: is_list_def)
  have f: "find_node_loop cfg h head Node head 0 = Some (Inr (head,
      if PcdMaximumLinkedListLength cfg > 0 then length xs + 1 else 0))"
    using find_node_loop_seg [OF s, of head Node cfg 0] d N room by (auto simp: fits_def)
  show ?thesis
    using N v f is_list_ends [OF L] is_list_ends_not_NULL [OF L]
    by (auto simp: InternalBaseLibIsNodeInList_def)
qed

lemma count_nodes_loop_stops:
  assumes "seg (fwd h) B a xs head" "head \<notin> set xs" "Count < PcdMaximumLinkedListLength cfg"
    and "PcdMaximumLinkedListLength cfg \<le> Count + length xs + 1"
  shows "count_nodes_loop cfg h head a Count = Some (PcdMaximumLinkedListLength cfg)"
  using assms
proof (induction xs arbitrary: a Count)
  case Nil
  then show ?case by (subst count_nodes_loop.simps) auto
next
  case (Cons x xs)
  show ?case
  proof (cases "Suc Count < PcdMaximumLinkedListLength cfg")
    case True
    with Cons show ?thesis by (subst count_nodes_loop.simps) auto
  next
    case False
    with Cons.prems show ?thesis by (subst count_nodes_loop.simps) auto
  qed
qed

text \<open>When \<open>Node\<close> is the head, both loops go round the ring and the nodes are counted twice.\<close>

lemma IsNodeInList_verify_head:
  assumes L: "is_list h head xs" and v: "PcdVerifyNodeInList cfg" and en: "DebugAssertEnabled cfg"
    and room: "fits cfg (Suc (length xs))"
  shows "InternalBaseLibIsNodeInList cfg h head head True =
    (if fits cfg (2 * Suc (length xs)) then Some True else None)"
proof -
  from L have s: "seg (fwd h) (bwd h) head xs head" and d: "head \<notin> set xs"
    by (auto simp: is_list_def)
  have f: "find_node_loop cfg h head head head 0 = Some (Inr (head,
      if PcdMaximumLinkedListLength cfg > 0 then length xs + 1 else 0))"
    using find_node_loop_seg [OF s, of head head cfg 0] d room by (auto simp: fits_def)
  have c: "PcdMaximumLinkedListLength cfg > 0 \<Longrightarrow>
      count_nodes_loop cfg h head head (Suc (length xs)) =
        Some (if fits cfg (2 * Suc (length xs)) then 2 * Suc (length xs)
              else PcdMaximumLinkedListLength cfg)"
    using count_nodes_loop_seg [OF s, of "Suc (length xs)" cfg]
      count_nodes_loop_stops [OF s, of "Suc (length xs)" cfg] d room
    by (auto simp: fits_def)
  show ?thesis
    using v en f c is_list_ends [OF L] is_list_ends_not_NULL [OF L]
    by (auto simp: InternalBaseLibIsNodeInList_def fits_def)
qed

subsection \<open>The operations on the abstract value\<close>

lemma IsListEmpty_list:
  assumes "is_list h head xs" "fits cfg (Suc (length xs))"
  shows "IsListEmpty cfg h head = Some (xs = [])"
  using assms is_list_ends [OF assms(1)] IsNodeInList_noverify [OF assms(1) _ assms(2), of head]
    is_list_ends_not_NULL [OF assms(1)]
  by (cases xs) (auto simp: IsListEmpty_def is_list_def)

lemma GetFirstNode_list:
  assumes "is_list h head xs" "fits cfg (Suc (length xs))"
  shows "GetFirstNode cfg h head = Some (hd (xs @ [head]))"
  using is_list_ends [OF assms(1)] IsNodeInList_noverify [OF assms(1) _ assms(2), of head]
    is_list_ends_not_NULL [OF assms(1)]
  by (auto simp: GetFirstNode_def)

lemma InsertHeadList_list:
  assumes L: "is_list h head xs" and E: "mapped h Entry" "Entry \<notin> set (head # xs)"
    and room: "fits cfg (Suc (length xs))"
  shows "\<exists>h'. InsertHeadList cfg h head Entry = Some (head, h') \<and> is_list h' head (Entry # xs) \<and>
    dom h' = dom h \<and> (\<forall>p. p \<notin> set (Entry # head # xs) \<longrightarrow> h' p = h p)"
proof -
  define f where "f = hd (xs @ [head])"
  have m: "mapped h head" "mapped h f" "fwd h head = Some f"
    using L is_list_ends [OF L] is_list_mapped [OF L, of f] is_list_mapped [OF L, of head]
    by (cases xs; simp add: f_def)+
  have chk: "InternalBaseLibIsNodeInList cfg h head Entry False = Some True"
    using IsNodeInList_noverify [OF L mapped_not_NULL [OF E(1)] room] .
  have f: "f \<noteq> Entry" "f \<in> set (head # xs)" using E(2) by (cases xs; auto simp: f_def)+
  let ?h = "upd_fwd (upd_bwd (upd_bwd (upd_fwd h Entry f) Entry head) f Entry) head Entry"
  have run: "InsertHeadList cfg h head Entry = Some (head, ?h)"
    using m E chk by (simp add: InsertHeadList_def set_fwd_mapped set_bwd_mapped)
  have "is_list ?h head (Entry # xs)"
    using L E m f by (cases xs) (auto simp: is_list_def f_def seg_upd_F seg_upd_B)
  moreover have "?h p = h p" if "p \<notin> set (Entry # head # xs)" for p
    using f(2) that by (metis list.set_intros upd_other)
  ultimately show ?thesis using run by auto
qed

lemma InsertTailList_list:
  assumes L: "is_list h head xs" and E: "mapped h Entry" "Entry \<notin> set (head # xs)"
    and room: "fits cfg (Suc (length xs))"
  shows "\<exists>h'. InsertTailList cfg h head Entry = Some (head, h') \<and> is_list h' head (xs @ [Entry]) \<and>
    dom h' = dom h \<and> (\<forall>p. p \<notin> set (Entry # head # xs) \<longrightarrow> h' p = h p)"
proof -
  define b where "b = last (head # xs)"
  have b: "b \<noteq> Entry" "b \<in> set (head # xs)"
    using E(2) last_in_set [of "head # xs"] by (auto simp: b_def simp del: last.simps)
  have m: "mapped h head" "mapped h b" "bwd h head = Some b"
    using is_list_ends [OF L] is_list_mapped [OF L b(2)] is_list_mapped [OF L, of head]
    by (simp_all add: b_def)
  have chk: "InternalBaseLibIsNodeInList cfg h head Entry False = Some True"
    using IsNodeInList_noverify [OF L mapped_not_NULL [OF E(1)] room] .
  let ?h = "upd_bwd (upd_fwd (upd_bwd (upd_fwd h Entry head) Entry b) b Entry) head Entry"
  have run: "InsertTailList cfg h head Entry = Some (head, ?h)"
    using m E chk by (simp add: InsertTailList_def set_fwd_mapped set_bwd_mapped)
  have "is_list ?h head (xs @ [Entry])"
    using L E m b
    by (cases xs rule: rev_cases) (auto simp: is_list_def b_def seg_upd_F seg_upd_B)
  moreover have "?h p = h p" if "p \<notin> set (Entry # head # xs)" for p
    using b(2) that by (metis list.set_intros upd_other)
  ultimately show ?thesis using run by auto
qed

lemma RemoveEntryList_list:
  assumes L: "is_list h head (us @ Entry # vs)"
    and room: "fits cfg (Suc (length (us @ Entry # vs)))"
  shows "\<exists>h'. RemoveEntryList cfg h Entry = Some (hd (vs @ [head]), h') \<and> is_list h' head (us @ vs) \<and>
    dom h' = dom h \<and> (\<forall>p. p \<notin> set (head # us @ vs) \<longrightarrow> h' p = h p)"
proof -
  define b where "b = last (head # us)"
  define f where "f = hd (vs @ [head])"
  have R: "is_list h Entry (vs @ head # us)" using L is_list_rotate by blast
  have f_hd: "hd ((vs @ head # us) @ [Entry]) = f" by (cases vs) (simp_all add: f_def)
  have b: "b \<noteq> Entry" "b \<in> set (head # us)"
    using L last_in_set [of "head # us"] by (auto simp: b_def is_list_def simp del: last.simps)
  have f: "f \<noteq> Entry" "f \<in> set (head # vs)" using L by (cases vs; auto simp: f_def is_list_def)+
  have m: "mapped h Entry" "mapped h b" "mapped h f" "fwd h Entry = Some f" "bwd h Entry = Some b"
    using is_list_ends [OF R] is_list_mapped [OF L, of b] is_list_mapped [OF L, of f] b f
      is_list_mapped [OF L, of Entry] f_hd
    by (auto simp: b_def)
  have emp: "IsListEmpty cfg h Entry = Some False"
    using IsListEmpty_list [OF R] room by (simp add: add_ac)
  let ?h = "upd_fwd (upd_bwd h f b) b f"
  have run: "RemoveEntryList cfg h Entry = Some (f, ?h)"
    using m b f emp by (simp add: RemoveEntryList_def set_fwd_mapped set_bwd_mapped)
  have "is_list ?h head (us @ vs)"
    using L m b f
    by (cases us rule: rev_cases; cases vs)
      (auto simp: is_list_def b_def f_def seg_upd_F seg_upd_B)
  moreover have "?h p = h p" if "p \<notin> set (head # us @ vs)" for p
  proof -
    have "p \<noteq> b" "p \<noteq> f" using b(2) f(2) that by auto
    then show ?thesis by simp
  qed
  ultimately show ?thesis using run by (auto simp: f_def)
qed

text \<open>Inserting relative to a node in the middle of the ring.\<close>

lemma is_list_fits_mono: "fits cfg n \<Longrightarrow> m \<le> n \<Longrightarrow> fits cfg m"
  by (auto simp: fits_def)

lemma InsertTailList_before:
  assumes L: "is_list h head (us @ p # vs)" and E: "mapped h Entry" "Entry \<notin> set (head # us @ p # vs)"
    and room: "fits cfg (Suc (length (us @ p # vs)))"
  shows "\<exists>h'. InsertTailList cfg h p Entry = Some (p, h') \<and> is_list h' head (us @ Entry # p # vs) \<and>
    dom h' = dom h \<and> (\<forall>q. q \<notin> set (Entry # head # us @ p # vs) \<longrightarrow> h' q = h q)"
proof -
  have R: "is_list h p (vs @ head # us)" using L is_list_rotate by blast
  obtain h' where h': "InsertTailList cfg h p Entry = Some (p, h')"
      "is_list h' p (vs @ head # (us @ [Entry]))" "dom h' = dom h"
      "\<forall>q. q \<notin> set (Entry # p # vs @ head # us) \<longrightarrow> h' q = h q"
    using InsertTailList_list [OF R E(1), of cfg] E(2) room by (auto simp: add_ac)
  from h'(2) have "is_list h' head ((us @ [Entry]) @ p # vs)" using is_list_rotate by blast
  with h' show ?thesis by auto
qed

lemma InsertHeadList_after:
  assumes L: "is_list h head (us @ p # vs)" and E: "mapped h Entry" "Entry \<notin> set (head # us @ p # vs)"
    and room: "fits cfg (Suc (length (us @ p # vs)))"
  shows "\<exists>h'. InsertHeadList cfg h p Entry = Some (p, h') \<and> is_list h' head (us @ p # Entry # vs) \<and>
    dom h' = dom h \<and> (\<forall>q. q \<notin> set (Entry # head # us @ p # vs) \<longrightarrow> h' q = h q)"
proof -
  have R: "is_list h p (vs @ head # us)" using L is_list_rotate by blast
  obtain h' where h': "InsertHeadList cfg h p Entry = Some (p, h')"
      "is_list h' p ((Entry # vs) @ head # us)" "dom h' = dom h"
      "\<forall>q. q \<notin> set (Entry # p # vs @ head # us) \<longrightarrow> h' q = h q"
    using InsertHeadList_list [OF R E(1), of cfg] E(2) room by (auto simp: add_ac)
  from h'(2) have "is_list h' head (us @ p # Entry # vs)" using is_list_rotate by blast
  with h' show ?thesis by auto
qed

text \<open>Inserting before the node or head that follows the first part of the list.\<close>

lemma InsertTailList_at:
  assumes L: "is_list h head (us @ vs)" and E: "mapped h Entry" "Entry \<notin> set (head # us @ vs)"
    and room: "fits cfg (Suc (length (us @ vs)))"
  shows "\<exists>h'. InsertTailList cfg h (hd (vs @ [head])) Entry = Some (hd (vs @ [head]), h') \<and>
    is_list h' head (us @ Entry # vs) \<and> dom h' = dom h \<and>
    (\<forall>q. q \<notin> set (Entry # head # us @ vs) \<longrightarrow> h' q = h q)"
proof (cases vs)
  case Nil
  with InsertTailList_list [of h head us Entry cfg] assms show ?thesis by simp
next
  case (Cons p ws)
  with InsertTailList_before [of h head us p ws Entry cfg] assms show ?thesis by simp
qed

lemma bwd_at:
  assumes "is_list h head (us @ vs)"
  shows "bwd h (hd (vs @ [head])) = Some (last (head # us))"
proof (cases vs)
  case Nil
  with is_list_ends(2) [OF assms] show ?thesis by simp
next
  case (Cons p ws)
  with assms have "is_list h p (ws @ head # us)" using is_list_rotate by blast
  from is_list_ends(2) [OF this] Cons show ?thesis by simp
qed

lemma is_list_split_mem:
  "is_list h head (us @ x # vs) \<Longrightarrow> x \<notin> set (head # us @ vs)"
  by (auto simp: is_list_def)

text \<open>\<open>swap a b xs\<close>: the abstract list with the two nodes exchanged.\<close>

definition swap :: "ptr \<Rightarrow> ptr \<Rightarrow> ptr list \<Rightarrow> ptr list" where
  "swap a b xs = map (\<lambda>x. if x = a then b else if x = b then a else x) xs"

lemma swap_notin: "a \<notin> set xs \<Longrightarrow> b \<notin> set xs \<Longrightarrow> swap a b xs = xs"
  by (auto simp: swap_def intro!: map_idI)

lemma swap_append [simp]: "swap a b (xs @ ys) = swap a b xs @ swap a b ys"
  by (simp add: swap_def)

lemma swap_Cons: "swap a b (x # xs) = (if x = a then b else if x = b then a else x) # swap a b xs"
  by (simp add: swap_def)

lemma SwapListEntries_first_before:
  assumes L: "is_list h head (us @ F # ms @ S # vs)"
    and room: "fits cfg (Suc (length (us @ F # ms @ S # vs)))"
    and chk: "InternalBaseLibIsNodeInList cfg h F S True = Some True"
  shows "\<exists>h'. SwapListEntries cfg h F S = Some (S, h') \<and> is_list h' head (us @ S # ms @ F # vs)"
proof -
  have FS: "F \<noteq> S" "S \<notin> set (head # us)" "F \<notin> set (head # us @ ms @ S # vs)"
    "S \<notin> set (head # us @ ms @ F # vs)" using L by (auto simp: is_list_def)
  have mF: "mapped h F" and mS: "mapped h S" using is_list_mapped [OF L] by auto
  obtain h1 where h1: "RemoveEntryList cfg h F = Some (hd ((ms @ S # vs) @ [head]), h1)"
      "is_list h1 head (us @ ms @ S # vs)" "dom h1 = dom h"
    using RemoveEntryList_list [OF L room] by auto
  define P where "P = hd ((ms @ S # vs) @ [head])"
  have b: "bwd h1 P = Some (last (head # us))" using bwd_at [OF h1(2)] by (simp add: P_def)
  have "last (head # us) \<noteq> S" using FS(2) last_in_set [of "head # us"] by fastforce
  have m1: "mapped h1 F" "mapped h1 S" using mF mS h1(3) by (auto simp: mapped_def)
  obtain h2 where h2: "InsertHeadList cfg h1 S F = Some (S, h2)"
      "is_list h2 head ((us @ ms) @ S # F # vs)" "dom h2 = dom h1"
    using InsertHeadList_after [of h1 head "us @ ms" S vs F cfg] h1 m1(1) FS
      is_list_fits_mono [OF room, of "Suc (length ((us @ ms) @ S # vs))"] by auto
  show ?thesis
  proof (cases ms)
    case Nil
    then have "P = S" by (simp add: P_def)
    then show ?thesis
      using Nil FS chk h1 h2 b \<open>last (head # us) \<noteq> S\<close>
      by (auto simp: SwapListEntries_def P_def)
  next
    case (Cons m ms')
    then have P: "P = m" "m \<noteq> S" using L by (auto simp: P_def is_list_def)
    obtain r h3 where h3: "RemoveEntryList cfg h2 S = Some (r, h3)"
        "is_list h3 head (us @ m # ms' @ F # vs)" "dom h3 = dom h2"
      using RemoveEntryList_list [OF h2(2), of cfg] Cons
        is_list_fits_mono [OF room, of "Suc (length ((us @ ms) @ S # F # vs))"] by auto
    have m3: "mapped h3 S" using m1 h2 h3 by (auto simp: mapped_def)
    obtain h4 where h4: "InsertTailList cfg h3 m S = Some (m, h4)"
        "is_list h4 head (us @ S # m # ms' @ F # vs)"
      using InsertTailList_before [OF h3(2) m3, of cfg] FS Cons
        is_list_fits_mono [OF room, of "Suc (length (us @ m # ms' @ F # vs))"] by auto
    show ?thesis
      using FS chk h1 h2 h3 h4 b P Cons \<open>last (head # us) \<noteq> S\<close>
      by (auto simp: SwapListEntries_def P_def)
  qed
qed

lemma SwapListEntries_second_before:
  assumes L: "is_list h head (us @ S # ms @ F # vs)"
    and room: "fits cfg (Suc (length (us @ S # ms @ F # vs)))"
    and chk: "InternalBaseLibIsNodeInList cfg h F S True = Some True"
  shows "\<exists>h'. SwapListEntries cfg h F S = Some (S, h') \<and> is_list h' head (us @ F # ms @ S # vs)"
proof -
  have L': "is_list h head ((us @ S # ms) @ F # vs)" using L by simp
  have FS: "F \<noteq> S" "F \<notin> set (head # us @ S # ms @ vs)" "S \<notin> set (head # us @ ms @ F # vs)"
    using L by (auto simp: is_list_def)
  have mF: "mapped h F" and mS: "mapped h S" using is_list_mapped [OF L] by auto
  obtain h1 where h1: "RemoveEntryList cfg h F = Some (hd (vs @ [head]), h1)"
      "is_list h1 head ((us @ S # ms) @ vs)" "dom h1 = dom h"
    using RemoveEntryList_list [OF L', of cfg] room by auto
  define P where "P = hd (vs @ [head])"
  have b: "bwd h1 P = Some (last (S # ms))" using bwd_at [OF h1(2)] by (simp add: P_def)
  have m1: "mapped h1 F" "mapped h1 S" using mF mS h1(3) by (auto simp: mapped_def)
  have l1: "is_list h1 head (us @ S # ms @ vs)" using h1(2) by simp
  have r1: "fits cfg (Suc (length (us @ S # ms @ vs)))"
    by (rule is_list_fits_mono [OF room]) simp
  show ?thesis
  proof (cases ms)
    case Nil
    obtain h2 where "InsertTailList cfg h1 S F = Some (S, h2)" "is_list h2 head (us @ F # S # ms @ vs)"
      using InsertTailList_before [OF l1 m1(1) _ r1] FS by auto
    with Nil b h1 FS chk show ?thesis by (auto simp: SwapListEntries_def P_def)
  next
    case (Cons m ms')
    then have bS: "last (S # ms) \<noteq> S" using FS by (metis UnCI last.simps last_in_set
        list.distinct(1) list.set_intros(2) set_append)
    have P: "P \<noteq> S" using FS by (cases vs) (auto simp: P_def)
    obtain h2 where h2: "InsertHeadList cfg h1 S F = Some (S, h2)"
        "is_list h2 head (us @ S # F # ms @ vs)" "dom h2 = dom h1"
      using InsertHeadList_after [OF l1 m1(1) _ r1] FS by auto
    obtain r h3 where h3: "RemoveEntryList cfg h2 S = Some (r, h3)"
        "is_list h3 head ((us @ F # ms) @ vs)" "dom h3 = dom h2"
      using RemoveEntryList_list [OF h2(2), of cfg]
        is_list_fits_mono [OF room, of "Suc (length (us @ S # F # ms @ vs))"] by auto
    have m3: "mapped h3 S" using m1 h2 h3 by (auto simp: mapped_def)
    obtain h4 where h4: "InsertTailList cfg h3 P S = Some (P, h4)"
        "is_list h4 head ((us @ F # ms) @ S # vs)"
      using InsertTailList_at [OF h3(2) m3, of cfg] FS
        is_list_fits_mono [OF room, of "Suc (length ((us @ F # ms) @ vs))"]
      by (auto simp: P_def)
    show ?thesis
      using FS chk h1 h2 h3 h4 b P bS by (auto simp: SwapListEntries_def P_def)
  qed
qed

lemma IsNodeInList_node:
  assumes L: "is_list h head xs" and N: "Node \<in> set xs" and room: "fits cfg (Suc (length xs))"
  shows "InternalBaseLibIsNodeInList cfg h head Node True = Some True"
proof (cases "PcdVerifyNodeInList cfg")
  case True
  obtain us vs where xs: "xs = us @ Node # vs" using N by (meson split_list)
  show ?thesis using IsNodeInList_verify_node [OF L [unfolded xs] True] room xs by simp
next
  case False
  have "Node \<noteq> NULL" using L N is_list_mapped mapped_not_NULL by force
  then have "InternalBaseLibIsNodeInList cfg h head Node False = Some True"
    using IsNodeInList_noverify [OF L _ room] by blast
  with False show ?thesis by (simp add: InternalBaseLibIsNodeInList_def)
qed

lemma SwapListEntries_list:
  assumes L: "is_list h head xs" and F: "F \<in> set xs" and S: "S \<in> set xs"
    and room: "fits cfg (Suc (length xs))"
  shows "\<exists>h'. SwapListEntries cfg h F S = Some (S, h') \<and> is_list h' head (swap F S xs)"
proof (cases "F = S")
  case True
  have "swap S S xs = xs" by (auto simp: swap_def intro!: map_idI)
  with True L show ?thesis by (simp add: SwapListEntries_def)
next
  case False
  have chk: "InternalBaseLibIsNodeInList cfg h F S True = Some True"
  proof -
    obtain us vs where xs: "xs = us @ F # vs" using F by (auto dest: split_list)
    then have R: "is_list h F (vs @ head # us)" using L is_list_rotate by blast
    have "S \<in> set (vs @ head # us)" using S False xs by auto
    then show ?thesis using IsNodeInList_node [OF R, of S cfg] room xs by (simp add: add_ac)
  qed
  from F S False consider us ms vs where "xs = us @ F # ms @ S # vs"
    | us ms vs where "xs = us @ S # ms @ F # vs"
    by (metis append_Cons append_assoc in_set_conv_decomp set_ConsD Un_iff set_append)
  then show ?thesis
  proof cases
    case 1
    have "swap F S xs = us @ S # ms @ F # vs"
      using L 1 by (auto simp: is_list_def swap_Cons swap_notin)
    with SwapListEntries_first_before [of h head us F ms S vs cfg] L room chk 1 show ?thesis by auto
  next
    case 2
    have "swap F S xs = us @ F # ms @ S # vs"
      using L 2 by (auto simp: is_list_def swap_Cons swap_notin)
    with SwapListEntries_second_before [of h head us S ms F vs cfg] L room chk 2 show ?thesis by auto
  qed
qed

text \<open>Traversal: the successor and predecessor of a node, and the two end tests.\<close>

lemma GetNextNode_list:
  assumes "is_list h head (us @ N # vs)" "fits cfg (Suc (length (us @ N # vs)))"
  shows "GetNextNode cfg h head N = Some (hd (vs @ [head]))"
proof -
  have "fwd h N = Some (hd (vs @ [head]))" using assms(1) by (cases vs) (auto simp: is_list_def)
  then show ?thesis using IsNodeInList_node [OF assms(1) _ assms(2), of N]
    by (simp add: GetNextNode_def)
qed

lemma GetPreviousNode_list:
  assumes "is_list h head (us @ N # vs)" "fits cfg (Suc (length (us @ N # vs)))"
  shows "GetPreviousNode cfg h head N = Some (last (head # us))"
  using IsNodeInList_node [OF assms(1) _ assms(2), of N] bwd_at [OF assms(1)]
  by (simp add: GetPreviousNode_def)

lemma IsNull_node:
  assumes "is_list h head xs" "N \<in> set xs" "fits cfg (Suc (length xs))"
  shows "IsNull cfg h head N = Some False"
  using IsNodeInList_node [OF assms] assms by (auto simp: IsNull_def is_list_def)

lemma IsNodeAtEnd_node:
  assumes "is_list h head xs" "N \<in> set xs" "fits cfg (Suc (length xs))"
  shows "IsNodeAtEnd cfg h head N = Some (N = last xs)"
proof -
  have "xs \<noteq> []" using assms(2) by auto
  then show ?thesis
    using IsNodeInList_node [OF assms] IsNull_node [OF assms] is_list_ends [OF assms(1)]
    by (auto simp: IsNodeAtEnd_def)
qed

subsection \<open>The interface the clients use\<close>

text \<open>
  What the rest of the firmware relies on: a store, lists with an abstract value, insertion at
  either end, removal of any node, and the first node. \<open>node s n\<close> says that \<open>n\<close> is memory the store
  holds, \<open>room s n\<close> that a ring of \<open>n\<close> entries is acceptable.
\<close>

locale list_store =
  fixes rep :: "'s \<Rightarrow> 'p \<Rightarrow> 'p list \<Rightarrow> bool"
    and node :: "'s \<Rightarrow> 'p \<Rightarrow> bool"
    and room :: "nat \<Rightarrow> bool"
    and ins_tail :: "'s \<Rightarrow> 'p \<Rightarrow> 'p \<Rightarrow> ('p \<times> 's) option"
    and del :: "'s \<Rightarrow> 'p \<Rightarrow> ('p \<times> 's) option"
    and is_empty :: "'s \<Rightarrow> 'p \<Rightarrow> bool option"
    and first :: "'s \<Rightarrow> 'p \<Rightarrow> 'p option"
  assumes rep_distinct: "rep s l xs \<Longrightarrow> distinct (l # xs)"
    and rep_unique: "rep s l xs \<Longrightarrow> rep s l ys \<Longrightarrow> xs = ys"
    and room_mono: "room n \<Longrightarrow> m \<le> n \<Longrightarrow> room m"
    and ins_tail_rep: "rep s l xs \<Longrightarrow> node s e \<Longrightarrow> e \<notin> set (l # xs) \<Longrightarrow> room (Suc (length xs)) \<Longrightarrow>
      \<exists>t. ins_tail s l e = Some (l, t) \<and> rep t l (xs @ [e]) \<and> (\<forall>n. node t n = node s n)"
    and del_rep: "rep s l (us @ e # vs) \<Longrightarrow> room (Suc (length (us @ e # vs))) \<Longrightarrow>
      \<exists>r t. del s e = Some (r, t) \<and> rep t l (us @ vs) \<and> (\<forall>n. node t n = node s n)"
    and is_empty_rep: "rep s l xs \<Longrightarrow> room (Suc (length xs)) \<Longrightarrow> is_empty s l = Some (xs = [])"
    and first_rep: "rep s l (x # xs) \<Longrightarrow> room (Suc (length (x # xs))) \<Longrightarrow> first s l = Some x"
begin

text \<open>Appending a sequence of nodes one by one, as the queues of the firmware are filled.\<close>

primrec ins_all :: "'s \<Rightarrow> 'p \<Rightarrow> 'p list \<Rightarrow> 's option" where
  "ins_all s l [] = Some s"
| "ins_all s l (e # es) = Option.bind (ins_tail s l e) (\<lambda>(_, t). ins_all t l es)"

lemma ins_all_rep:
  assumes "rep s l xs" "distinct (l # xs @ es)" "\<forall>e \<in> set es. node s e"
    and "room (length xs + length es)"
  shows "\<exists>t. ins_all s l es = Some t \<and> rep t l (xs @ es) \<and> (\<forall>n. node t n = node s n)"
  using assms
proof (induction es arbitrary: s xs)
  case Nil
  then show ?case by auto
next
  case (Cons e es)
  obtain t where t: "ins_tail s l e = Some (l, t)" "rep t l (xs @ [e])" "\<forall>n. node t n = node s n"
    using ins_tail_rep [OF Cons.prems(1), of e] Cons.prems(2,3)
      room_mono [OF Cons.prems(4), of "Suc (length xs)"] by auto
  have "\<exists>u. ins_all t l es = Some u \<and> rep u l ((xs @ [e]) @ es) \<and> (\<forall>n. node u n = node t n)"
    by (rule Cons.IH [OF t(2)]) (use Cons.prems t in auto)
  with t show ?case by auto
qed

text \<open>
  Emptying a list from the front: test for emptiness, take the first node, remove it. \<open>drain\<close>
  returns the nodes in the order they were taken and the final store.
\<close>

primrec drain :: "nat \<Rightarrow> 's \<Rightarrow> 'p \<Rightarrow> ('p list \<times> 's) option" where
  "drain 0 s l = None"
| "drain (Suc n) s l =
     Option.bind (is_empty s l) (\<lambda>b. if b then Some ([], s) else
       Option.bind (first s l) (\<lambda>e. Option.bind (del s e) (\<lambda>(_, t).
         map_option (\<lambda>(es, u). (e # es, u)) (drain n t l))))"

lemma drain_rep:
  assumes "rep s l xs" "room (Suc (length xs))" "length xs < n"
  shows "\<exists>t. drain n s l = Some (xs, t) \<and> rep t l []"
  using assms
proof (induction n arbitrary: s xs)
  case 0
  then show ?case by simp
next
  case (Suc n)
  show ?case
  proof (cases xs)
    case Nil
    with Suc.prems is_empty_rep [OF Suc.prems(1,2)] show ?thesis by auto
  next
    case (Cons x ys)
    obtain r t where t: "del s x = Some (r, t)" "rep t l ys"
      using del_rep [of s l "[]" x ys] Suc.prems Cons by auto
    have "\<exists>u. drain n t l = Some (ys, u) \<and> rep u l []"
      by (rule Suc.IH [OF t(2)]) (use Suc.prems Cons room_mono [OF Suc.prems(2)] in auto)
    with t Cons is_empty_rep [OF Suc.prems(1,2)] first_rep [of s l x ys] Suc.prems
    show ?thesis by auto
  qed
qed

text \<open>First in, first out: what is appended to an empty list comes out in the same order.\<close>

lemma fifo:
  assumes "rep s l []" "distinct (l # es)" "\<forall>e \<in> set es. node s e" "room (Suc (length es))"
  shows "\<exists>t u. ins_all s l es = Some t \<and> drain (Suc (length es)) t l = Some (es, u) \<and> rep u l []"
proof -
  have "room (length [] + length es)" using assms(4) room_mono by fastforce
  then obtain t where t: "ins_all s l es = Some t" "rep t l es"
    using ins_all_rep [OF assms(1), of es] assms(2,3) by auto
  with drain_rep [OF t(2) assms(4), of "Suc (length es)"] show ?thesis by auto
qed

end

interpretation dll: list_store is_list mapped "fits cfg" "InsertTailList cfg"
  "RemoveEntryList cfg" "IsListEmpty cfg" "GetFirstNode cfg" for cfg
proof (unfold_locales, goal_cases)
  case (1 s l xs)
  then show ?case by (simp add: is_list_def)
next
  case (2 s l xs ys)
  then show ?case by (rule is_list_unique)
next
  case (3 n m)
  then show ?case by (rule is_list_fits_mono)
next
  case (4 s l xs e)
  from InsertTailList_list [OF this] show ?case by (auto simp: mapped_def)
next
  case (5 s l us e vs)
  from RemoveEntryList_list [OF this] show ?case by (auto simp: mapped_def)
next
  case (6 s l xs)
  then show ?case by (rule IsListEmpty_list)
next
  case (7 s l x xs)
  from GetFirstNode_list [OF this] show ?case by simp
qed

subsection \<open>Properties\<close>

text \<open>C38. On a store that holds the list \<open>xs\<close> at \<open>head\<close>, and an entry of that store that is not part of
  it, \<open>InsertTailList\<close> returns the head, the list is then \<open>xs\<close> followed by the entry, and every
  other list of the store that shares no node with them keeps its value.\<close>

theorem InsertTailList_refines:
  assumes "is_list h head xs" "mapped h Entry" "Entry \<notin> set (head # xs)"
    and "fits cfg (Suc (length xs))"
  shows "\<exists>h'. InsertTailList cfg h head Entry = Some (head, h') \<and> is_list h' head (xs @ [Entry]) \<and>
    (\<forall>l ys. is_list h l ys \<and> set (l # ys) \<inter> set (Entry # head # xs) = {} \<longrightarrow> is_list h' l ys)"
proof -
  obtain h' where h': "InsertTailList cfg h head Entry = Some (head, h')"
      "is_list h' head (xs @ [Entry])" "\<forall>p. p \<notin> set (Entry # head # xs) \<longrightarrow> h' p = h p"
    using InsertTailList_list [OF assms] by blast
  have "is_list h' l ys" if "is_list h l ys" "set (l # ys) \<inter> set (Entry # head # xs) = {}" for l ys
    by (rule is_list_frame [OF that(1)]) (use h'(3) that(2) in blast)
  with h' show ?thesis by blast
qed

text \<open>An example store: the empty list at 1, the list of 3 and 4 at 2, and a free entry 5.\<close>

definition example_heap :: heap where
  "example_heap = [1 \<mapsto> \<lparr>ForwardLink = 1, BackLink = 1\<rparr>, 2 \<mapsto> \<lparr>ForwardLink = 3, BackLink = 4\<rparr>,
     3 \<mapsto> \<lparr>ForwardLink = 4, BackLink = 2\<rparr>, 4 \<mapsto> \<lparr>ForwardLink = 2, BackLink = 3\<rparr>,
     5 \<mapsto> \<lparr>ForwardLink = 0, BackLink = 0\<rparr>]"

definition example_cfg :: PCD where
  "example_cfg = \<lparr>DebugAssertEnabled = True, PcdVerifyNodeInList = True,
     PcdMaximumLinkedListLength = 5\<rparr>"

lemma example_heap_facts:
  "is_list example_heap 2 [3, 4]" "is_list example_heap 1 []"
  "mapped example_heap 5" "mapped example_heap 3"
  by (simp_all add: is_list_def example_heap_def fwd_def bwd_def mapped_def)

theorem InsertTailList_refines_witness:
  "\<exists>h'. InsertTailList example_cfg example_heap 2 5 = Some (2, h') \<and> is_list h' 2 [3, 4, 5] \<and>
     is_list h' 1 []"
proof -
  obtain h' where "InsertTailList example_cfg example_heap 2 5 = Some (2, h')"
      "is_list h' 2 ([3, 4] @ [5])"
      "\<forall>l ys. is_list example_heap l ys \<and> set (l # ys) \<inter> set [5, 2, 3, 4] = {} \<longrightarrow> is_list h' l ys"
    using InsertTailList_refines [OF example_heap_facts(1) example_heap_facts(3), of example_cfg]
    by (auto simp: example_cfg_def fits_def)
  with example_heap_facts(2) show ?thesis by auto
qed

text \<open>\<open>InsertHeadList\<close> under the same conditions puts the entry in front of the list and leaves the
  other lists of the store alone.\<close>

theorem InsertHeadList_refines:
  assumes "is_list h head xs" "mapped h Entry" "Entry \<notin> set (head # xs)"
    and "fits cfg (Suc (length xs))"
  shows "\<exists>h'. InsertHeadList cfg h head Entry = Some (head, h') \<and> is_list h' head (Entry # xs) \<and>
    (\<forall>l ys. is_list h l ys \<and> set (l # ys) \<inter> set (Entry # head # xs) = {} \<longrightarrow> is_list h' l ys)"
proof -
  obtain h' where h': "InsertHeadList cfg h head Entry = Some (head, h')"
      "is_list h' head (Entry # xs)" "\<forall>p. p \<notin> set (Entry # head # xs) \<longrightarrow> h' p = h p"
    using InsertHeadList_list [OF assms] by blast
  have "is_list h' l ys" if "is_list h l ys" "set (l # ys) \<inter> set (Entry # head # xs) = {}" for l ys
    by (rule is_list_frame [OF that(1)]) (use h'(3) that(2) in blast)
  with h' show ?thesis by blast
qed

theorem InsertHeadList_refines_witness:
  "\<exists>h'. InsertHeadList example_cfg example_heap 2 5 = Some (2, h') \<and> is_list h' 2 [5, 3, 4]"
  using InsertHeadList_refines [OF example_heap_facts(1) example_heap_facts(3), of example_cfg]
  by (auto simp: example_cfg_def fits_def)

text \<open>C39. \<open>RemoveEntryList\<close> on a node of a list returns the node that followed it (the head when it was
  the last one), the list is then the old one without that node, and the other lists are kept.\<close>

theorem RemoveEntryList_refines:
  assumes "is_list h head (us @ Entry # vs)" "fits cfg (Suc (length (us @ Entry # vs)))"
  shows "\<exists>h'. RemoveEntryList cfg h Entry = Some (hd (vs @ [head]), h') \<and> is_list h' head (us @ vs) \<and>
    (\<forall>l ys. is_list h l ys \<and> set (l # ys) \<inter> set (head # us @ vs) = {} \<longrightarrow> is_list h' l ys)"
proof -
  obtain h' where h': "RemoveEntryList cfg h Entry = Some (hd (vs @ [head]), h')"
      "is_list h' head (us @ vs)" "\<forall>p. p \<notin> set (head # us @ vs) \<longrightarrow> h' p = h p"
    using RemoveEntryList_list [OF assms] by blast
  have "is_list h' l ys" if "is_list h l ys" "set (l # ys) \<inter> set (head # us @ vs) = {}" for l ys
    by (rule is_list_frame [OF that(1)]) (use h'(3) that(2) in blast)
  with h' show ?thesis by blast
qed

theorem RemoveEntryList_refines_witness:
  "\<exists>h'. RemoveEntryList example_cfg example_heap 3 = Some (4, h') \<and> is_list h' 2 [4]"
  using RemoveEntryList_refines [of example_heap 2 "[]" 3 "[4]" example_cfg] example_heap_facts(1)
  by (auto simp: example_cfg_def fits_def)

text \<open>\<open>SwapListEntries\<close> on two nodes of a list, adjacent or not and in either order, returns the
  second one and exchanges the places of the two in the list.\<close>

theorem SwapListEntries_refines:
  assumes "is_list h head xs" "FirstEntry \<in> set xs" "SecondEntry \<in> set xs"
    and "fits cfg (Suc (length xs))"
  shows "\<exists>h'. SwapListEntries cfg h FirstEntry SecondEntry = Some (SecondEntry, h') \<and>
    is_list h' head (swap FirstEntry SecondEntry xs)"
  using SwapListEntries_list [OF assms] .

theorem SwapListEntries_refines_witness:
  "\<exists>h'. SwapListEntries example_cfg example_heap 4 3 = Some (3, h') \<and> is_list h' 2 [4, 3]"
  using SwapListEntries_refines [OF example_heap_facts(1), of 4 3 example_cfg]
  by (auto simp: example_cfg_def fits_def swap_def)

text \<open>A list used as a queue (\<open>InsertTailList\<close> to add; \<open>IsListEmpty\<close>, \<open>GetFirstNode\<close> and
  \<open>RemoveEntryList\<close> to take) is first in, first out: filling an empty list and emptying it again
  returns, and gives the entries in the order they were added.\<close>

theorem linked_list_fifo:
  assumes "is_list h head []" "distinct (head # es)" "\<forall>e \<in> set es. mapped h e"
    and "fits cfg (Suc (length es))"
  shows "\<exists>t u. dll.ins_all cfg h head es = Some t \<and>
    dll.drain cfg (Suc (length es)) t head = Some (es, u) \<and> is_list u head []"
  using dll.fifo [OF assms] .

theorem linked_list_fifo_witness:
  "\<exists>t u. dll.ins_all example_cfg example_heap 1 [5, 3] = Some t \<and>
    dll.drain example_cfg 3 t 1 = Some ([5, 3], u) \<and> is_list u 1 []"
  using linked_list_fifo [OF example_heap_facts(2), of "[5, 3]" example_cfg] example_heap_facts(3,4)
  by (auto simp: example_cfg_def fits_def numeral_3_eq_3)

text \<open>With \<open>PcdVerifyNodeInList\<close> and assertions enabled, the membership check of the head node
  itself counts the ring twice: \<open>IsNull (List, List)\<close>, the test that ends every traversal, fails its
  length assertion on a list that is shorter than \<open>PcdMaximumLinkedListLength\<close> as soon as twice its
  length reaches that bound, and returns \<open>TRUE\<close> otherwise.\<close>

theorem IsNull_head_counts_twice:
  assumes "is_list h head xs" "PcdVerifyNodeInList cfg" "DebugAssertEnabled cfg"
    and "Suc (length xs) < PcdMaximumLinkedListLength cfg"
  shows "IsNull cfg h head head =
    (if 2 * Suc (length xs) < PcdMaximumLinkedListLength cfg then Some True else None)"
  using IsNodeInList_verify_head [OF assms(1-3)] assms(3,4)
  by (auto simp: IsNull_def fits_def)

theorem IsNull_head_counts_twice_witness:
  "IsNull example_cfg example_heap 2 2 = None \<and> IsNull example_cfg example_heap 1 1 = Some True"
  using IsNull_head_counts_twice [OF example_heap_facts(1), of example_cfg]
    IsNull_head_counts_twice [OF example_heap_facts(2), of example_cfg]
  by (auto simp: example_cfg_def)

end
