(* ===== verification/HighBit.thy ===== *)
theory HighBit
  imports DxePrelude
begin

unbundle bit_operations_syntax

section \<open>Bit scans of BaseLib\<close>

text \<open>
  Model of \<^verbatim>\<open>HighBitSet32.c\<close> and \<^verbatim>\<open>HighBitSet64.c\<close> under \<^verbatim>\<open>MdePkg/Library/BaseLib\<close>, with the
  loop on the shifted 32-bit operand of the source, and the statement that they find the highest set
  bit. \<open>CoreRestoreTpl\<close> picks the next priority level to
  dispatch with \<open>HighBitSet64\<close>.
\<close>

subsection \<open>Operations\<close>

text \<open>The position of the lowest set bit bounds how often a nonzero operand can be shifted left.\<close>

definition low_pos :: "'a::len word \<Rightarrow> nat" where
  "low_pos w = (if w = 0 then LENGTH('a) else (LEAST k. bit w k))"

lemma low_pos_bit: "w \<noteq> 0 \<Longrightarrow> bit w (low_pos w)"
  by (auto simp: low_pos_def bit_eq_iff intro: LeastI)

lemma low_pos_least: "bit w k \<Longrightarrow> low_pos w \<le> k"
  by (auto simp: low_pos_def intro: Least_le)

lemma low_pos_less: "w \<noteq> 0 \<Longrightarrow> low_pos (w :: 'a::len word) < LENGTH('a)"
  using low_pos_bit bit_imp_le_length by blast

lemma sint_pos_iff: "0 < sint (w :: 'a::len word) \<longleftrightarrow> w \<noteq> 0 \<and> \<not> bit w (LENGTH('a) - 1)"
proof -
  have "0 \<le> sint w \<longleftrightarrow> \<not> bit w (LENGTH('a) - 1)"
    using bit_last_iff [of w] by (simp add: linorder_not_less)
  moreover have "sint w = 0 \<longleftrightarrow> w = 0" using signed_word_eqI [of w 0] by auto
  ultimately show ?thesis by linarith
qed

lemma bit_shl1: "bit (w * 2 :: uint32) k \<longleftrightarrow> 0 < k \<and> k < 32 \<and> bit w (k - 1)"
proof -
  have "w * 2 = push_bit 1 w" by simp
  then show ?thesis by (simp only: bit_push_bit_iff) (auto simp: bit_imp_le_length)
qed

lemma low_pos_shift:
  assumes "0 < sint (w :: uint32)"
  shows "low_pos w < low_pos (push_bit 1 w)" "low_pos w < 31"
proof -
  from assms have nz: "w \<noteq> 0" and top: "\<not> bit w 31" by (auto simp: sint_pos_iff)
  have lo: "low_pos w < 32" using low_pos_less [OF nz] by simp
  have "low_pos w \<noteq> 31" using low_pos_bit [OF nz] top by metis
  with lo show k: "low_pos w < 31" by simp
  show "low_pos w < low_pos (push_bit 1 w)"
  proof (cases "push_bit 1 w = 0")
    case True
    then show ?thesis using k by (simp add: low_pos_def)
  next
    case False
    have "bit (push_bit 1 w) (low_pos (push_bit 1 w))" by (rule low_pos_bit [OF False])
    then have "1 \<le> low_pos (push_bit 1 w)" "bit w (low_pos (push_bit 1 w) - 1)"
      by (auto simp: bit_shl1)
    with low_pos_least [of w "low_pos (push_bit 1 w) - 1"] show ?thesis by linarith
  qed
qed

function HighBitSet32_loop :: "int \<Rightarrow> uint32 \<Rightarrow> int" where
  "HighBitSet32_loop BitIndex Operand =
     (if sint Operand > 0 then HighBitSet32_loop (BitIndex - 1) (push_bit 1 Operand)
      else BitIndex)"
  by pat_completeness auto
termination
proof (relation "measure (\<lambda>(i, w). 32 - low_pos w)", goal_cases)
  case 1
  show ?case by simp
next
  case (2 i w)
  from low_pos_shift [OF this] show ?case by simp
qed

declare HighBitSet32_loop.simps [simp del]

definition HighBitSet32 :: "uint32 \<Rightarrow> int" where
  "HighBitSet32 Operand = (if Operand = 0 then -1 else HighBitSet32_loop 31 Operand)"

text \<open>\<open>UINTN\<close> has 64 bits in the modelled build, so the second branch of the source's last test is taken.\<close>

definition HighBitSet64 :: "uint64 \<Rightarrow> int" where
  "HighBitSet64 Operand =
     (if Operand = ucast (ucast Operand :: uint32) then HighBitSet32 (ucast Operand)
      else HighBitSet32 (ucast (drop_bit 32 Operand)) + 32)"

subsection \<open>Properties\<close>

lemma HighBitSet32_loop_high:
  assumes "w \<noteq> 0" "bit w k" "\<forall>j > k. \<not> bit w j"
  shows "HighBitSet32_loop i w = i - 31 + int k"
  using assms
proof (induction i w arbitrary: k rule: HighBitSet32_loop.induct)
  case (1 i w)
  have k: "k < 32" using "1.prems"(2) bit_imp_le_length by fastforce
  show ?case
  proof (cases "0 < sint w")
    case True
    then have "\<not> bit w 31" by (simp add: sint_pos_iff)
    with "1.prems"(2) have "k \<noteq> 31" by metis
    with k have k31: "k < 31" by simp
    have b: "bit (push_bit 1 w) (Suc k)" "\<forall>j > Suc k. \<not> bit (push_bit 1 w) j"
      using "1.prems"(2,3) k31 by (auto simp: bit_shl1)
    have "push_bit 1 w \<noteq> 0"
    proof
      assume "push_bit 1 w = 0"
      with b(1) have "bit (0 :: uint32) (Suc k)" by metis
      then show False by simp
    qed
    from "1.IH" [OF True this b] show ?thesis
      using True by (simp add: HighBitSet32_loop.simps [of i w])
  next
    case False
    then have "bit w 31" using "1.prems"(1) by (simp add: sint_pos_iff)
    with "1.prems"(3) have "\<not> k < 31" by blast
    with k have "k = 31" by simp
    with False show ?thesis by (simp add: HighBitSet32_loop.simps [of i w])
  qed
qed

lemma highest_bit:
  fixes w :: "'a::len word"
  assumes "w \<noteq> 0"
  obtains k where "bit w k" "\<forall>j > k. \<not> bit w j"
proof -
  have fin: "finite {k. bit w k}"
    by (rule finite_subset [of _ "{..<LENGTH('a)}"]) (auto dest: bit_imp_le_length)
  have "{k. bit w k} \<noteq> {}" using low_pos_bit [OF assms] by blast
  then have "bit w (Max {k. bit w k})" using Max_in [OF fin] by blast
  moreover have "\<not> bit w j" if "Max {k. bit w k} < j" for j
  proof
    assume "bit w j"
    then have "j \<le> Max {k. bit w k}" using fin by (intro Max_ge) auto
    with that show False by simp
  qed
  ultimately show ?thesis using that by blast
qed

lemma HighBitSet32_bit:
  assumes "bit w k" "\<forall>j > k. \<not> bit w j"
  shows "HighBitSet32 w = int k"
proof -
  have "w \<noteq> 0" using assms(1) by (metis bit_0_eq bot_apply bot_bool_def)
  with HighBitSet32_loop_high [OF this assms] show ?thesis by (simp add: HighBitSet32_def)
qed

lemma HighBitSet64_bit:
  assumes k: "bit w k" and top: "\<forall>j > k. \<not> bit w j"
  shows "HighBitSet64 w = int k"
proof -
  have k64: "k < 64" using k bit_imp_le_length by fastforce
  have lo: "w = ucast (ucast w :: uint32) \<longleftrightarrow> (\<forall>j. bit w j \<longrightarrow> j < 32)"
  proof
    assume eq: "w = ucast (ucast w :: uint32)"
    show "\<forall>j. bit w j \<longrightarrow> j < 32"
    proof (intro allI impI)
      fix j assume "bit w j"
      with eq have "bit (ucast (ucast w :: uint32) :: uint64) j" by metis
      then show "j < 32" by (auto simp: bit_unsigned_iff dest: bit_imp_le_length)
    qed
  next
    assume small: "\<forall>j. bit w j \<longrightarrow> j < 32"
    show "w = ucast (ucast w :: uint32)"
      by (rule bit_word_eqI) (use small in \<open>simp add: bit_unsigned_iff, blast\<close>)
  qed
  show ?thesis
  proof (cases "k < 32")
    case True
    have "w = ucast (ucast w :: uint32)"
      unfolding lo using top True by (metis linorder_not_less order_less_le_trans)
    moreover have "HighBitSet32 (ucast w) = int k"
      by (rule HighBitSet32_bit) (use k top True in \<open>auto simp: bit_unsigned_iff\<close>)
    ultimately show ?thesis unfolding HighBitSet64_def by (metis (full_types))
  next
    case False
    with k have "w \<noteq> ucast (ucast w :: uint32)" unfolding lo by blast
    moreover have "HighBitSet32 (ucast (drop_bit 32 w)) = int (k - 32)"
      by (rule HighBitSet32_bit) (use k top False k64 in \<open>auto simp: bit_unsigned_iff bit_drop_bit_eq\<close>)
    ultimately have "HighBitSet64 w = int (k - 32) + 32" unfolding HighBitSet64_def by (metis (full_types))
    with False show ?thesis by simp
  qed
qed

text \<open>C40. \<open>HighBitSet64\<close> returns -1 for a zero operand, and otherwise the position of the highest
  set bit.\<close>

theorem HighBitSet64_highest:
  "HighBitSet64 w = (if w = 0 then -1 else int (Max {k. bit w k}))"
proof (cases "w = 0")
  case True
  then show ?thesis by (simp add: HighBitSet64_def HighBitSet32_def)
next
  case False
  then obtain k where k: "bit w k" "\<forall>j > k. \<not> bit w j" by (rule highest_bit)
  have "Max {k. bit w k} = k"
  proof (rule Max_eqI)
    show "finite {k. bit w k}"
      by (rule finite_subset [of _ "{..<64}"]) (auto dest: bit_imp_le_length)
  qed (use k in \<open>auto simp: not_less [symmetric]\<close>)
  with False HighBitSet64_bit [OF k] show ?thesis by simp
qed

end
