(* ===== verification/EventTpl.thy ===== *)
theory EventTpl
  imports HighBit
begin

unbundle bit_operations_syntax

section \<open>Events, timers and task priority levels of the DXE core\<close>

text \<open>
  Model of \<^verbatim>\<open>MdeModulePkg/Core/Dxe\<close>: \<^verbatim>\<open>Event/Event.c\<close>, \<^verbatim>\<open>Event/Timer.c\<close>, \<^verbatim>\<open>Event/Tpl.c\<close>, the locks of
  \<^verbatim>\<open>Library/Library.c\<close>, and the release of protocol notifications of \<^verbatim>\<open>Hand/Handle.c\<close> that
  \<open>CoreCloseEvent\<close> calls.

  The global variables are the fields of two records: \<open>event_db\<close> (queues, timers, events) and
  \<open>dxe\<close> (priority level, interrupt flag, locks, the event database and, as \<open>Ctx\<close>, the rest of the
  system). Lists of events are HOL lists of event pointers; that a link field is not NULL is
  modelled as membership in the list, which is what the code keeps (links are zeroed when the event
  is allocated and when it is taken out of a list).

  Releasing a lock lowers the priority level, and that runs the notification functions of the
  events that became due, which call the same services again. The services therefore take the
  function that restores a priority level as the argument \<open>R\<close>, and \<open>CoreRestoreTpl\<close> ties the knot
  with a fuel argument. Notification functions of drivers are an argument (\<open>NC\<close>) of
  \<open>CoreRestoreTpl\<close>; they in turn receive the restore function, so that they can be any program
  built from the services.

  The result of the pool allocator is an argument of the operation that allocates.
\<close>

subsection \<open>Data\<close>

type_synonym eid = nat
type_synonym EFI_TPL = nat

abbreviation "TPL_APPLICATION \<equiv> 4 :: EFI_TPL"
abbreviation "TPL_CALLBACK \<equiv> 8 :: EFI_TPL"
abbreviation "TPL_NOTIFY \<equiv> 16 :: EFI_TPL"
abbreviation "TPL_HIGH_LEVEL \<equiv> 31 :: EFI_TPL"

definition VALID_TPL :: "EFI_TPL \<Rightarrow> bool" where
  "VALID_TPL a \<longleftrightarrow> a \<le> TPL_HIGH_LEVEL"

abbreviation "EVT_TIMER \<equiv> 0x80000000 :: uint32"
abbreviation "EVT_RUNTIME \<equiv> 0x40000000 :: uint32"
abbreviation "EVT_NOTIFY_WAIT \<equiv> 0x00000100 :: uint32"
abbreviation "EVT_NOTIFY_SIGNAL \<equiv> 0x00000200 :: uint32"
abbreviation "EVT_SIGNAL_EXIT_BOOT_SERVICES \<equiv> 0x00000201 :: uint32"
abbreviation "EVT_SIGNAL_VIRTUAL_ADDRESS_CHANGE \<equiv> 0x60000202 :: uint32"

definition gEfiEventExitBootServicesGuid :: EFI_GUID where
  "gEfiEventExitBootServicesGuid = 0x27ABF055B1B84C268048748F37BAA2DF"

definition gEfiEventVirtualAddressChangeGuid :: EFI_GUID where
  "gEfiEventVirtualAddressChangeGuid = 0x13FA7698C83149C787EA8F43FCC25196"

definition EVENT_SIGNATURE :: uintn where
  "EVENT_SIGNATURE = 0x746E7665"

text \<open>A notification function: the timer check of the core itself, or one of a driver.\<close>

datatype EFI_EVENT_NOTIFY = CoreCheckTimers_fn | Driver_fn nat

record IEVENT =
  Signature :: uintn
  Type :: uint32
  SignalCount :: uint32
  NotifyTpl :: EFI_TPL
  NotifyFunction :: "EFI_EVENT_NOTIFY option"
  NotifyContext :: nat
  EventGroup :: EFI_GUID
  ExFlag :: bool
  TriggerTime :: uint64
  Period :: uint64

record EFI_LOCK =
  Tpl :: EFI_TPL
  OwnerTpl :: EFI_TPL
  Lock :: EFI_LOCK_STATE

datatype LOCK_NAME = gEventQueueLock | mEfiTimerLock | mEfiSystemTimeLock | gProtocolDatabaseLock

record event_db =
  gEventQueue :: "EFI_TPL \<Rightarrow> eid list"
  gEventPending :: uintn
  gEventSignalQueue :: "eid list"
  gRuntimeEventHead :: "eid list"
  mEfiTimerList :: "eid list"
  mEfiCheckTimerEvent :: eid
  mEfiSystemTime :: uint64
  Events :: "eid \<rightharpoonup> IEVENT"

record 'u dxe =
  gEfiCurrentTpl :: EFI_TPL
  InterruptsEnabled :: bool
  Locks :: "LOCK_NAME \<Rightarrow> EFI_LOCK"
  Db :: event_db
  Ctx :: 'u

text \<open>
  What the code finds in the platform: whether assertions are enabled, whether the CPU
  architectural protocol is there (\<open>gCpu\<close>), and the answer of \<open>gSmmBase2->InSmm\<close> if that protocol
  is there.
\<close>

record platform =
  Asserts :: bool
  gCpu :: bool
  gSmmBase2 :: "(EFI_STATUS \<times> bool) option"

type_synonym 'u restore = "EFI_TPL \<Rightarrow> 'u dxe \<Rightarrow> 'u dxe option"

text \<open>The event behind a pointer: following a pointer that holds no event does not return.\<close>

definition ievent :: "'u dxe \<Rightarrow> eid \<Rightarrow> IEVENT option" where
  "ievent s e = (if e = 0 then None else Events (Db s) e)"

definition upd_event :: "eid \<Rightarrow> (IEVENT \<Rightarrow> IEVENT) \<Rightarrow> event_db \<Rightarrow> event_db" where
  "upd_event e f d = d\<lparr>Events := (Events d)(e := map_option f (Events d e))\<rparr>"

definition upd_db :: "(event_db \<Rightarrow> event_db) \<Rightarrow> 'u dxe \<Rightarrow> 'u dxe" where
  "upd_db f s = s\<lparr>Db := f (Db s)\<rparr>"

subsection \<open>Task priority levels and locks\<close>

definition CoreSetInterruptState :: "platform \<Rightarrow> bool \<Rightarrow> 'u dxe \<Rightarrow> 'u dxe" where
  "CoreSetInterruptState P Enable s =
     (if \<not> gCpu P then s
      else if \<not> Enable then s\<lparr>InterruptsEnabled := False\<rparr>
      else case gSmmBase2 P of
        None \<Rightarrow> s\<lparr>InterruptsEnabled := True\<rparr>
      | Some (Status, InSmm) \<Rightarrow>
          if \<not> EFI_ERROR Status \<and> \<not> InSmm then s\<lparr>InterruptsEnabled := True\<rparr> else s)"

definition CoreRaiseTpl :: "platform \<Rightarrow> EFI_TPL \<Rightarrow> 'u dxe \<Rightarrow> (EFI_TPL \<times> 'u dxe) option" where
  "CoreRaiseTpl P NewTpl s = do {
     let OldTpl = gEfiCurrentTpl s;
     ASSERT (Asserts P) (Some (OldTpl \<le> NewTpl));
     ASSERT (Asserts P) (Some (VALID_TPL NewTpl));
     let s = (if NewTpl \<ge> TPL_HIGH_LEVEL \<and> OldTpl < TPL_HIGH_LEVEL
              then CoreSetInterruptState P False s else s);
     Some (OldTpl, s\<lparr>gEfiCurrentTpl := NewTpl\<rparr>)
   }"

definition CoreAcquireLockOrFail ::
    "platform \<Rightarrow> LOCK_NAME \<Rightarrow> 'u dxe \<Rightarrow> (EFI_STATUS \<times> 'u dxe) option" where
  "CoreAcquireLockOrFail P l s = do {
     ASSERT (Asserts P) (Some (Lock (Locks s l) \<noteq> EfiLockUninitialized));
     if Lock (Locks s l) = EfiLockAcquired then Some (EFI_ACCESS_DENIED, s)
     else do {
       (OldTpl, s) \<leftarrow> CoreRaiseTpl P (Tpl (Locks s l)) s;
       Some (EFI_SUCCESS, s\<lparr>Locks := (Locks s)(l := (Locks s l)
         \<lparr>OwnerTpl := OldTpl, Lock := EfiLockAcquired\<rparr>)\<rparr>)
     }
   }"

definition CoreAcquireLock :: "platform \<Rightarrow> LOCK_NAME \<Rightarrow> 'u dxe \<Rightarrow> 'u dxe option" where
  "CoreAcquireLock P l s = do {
     ASSERT (Asserts P) (Some (Lock (Locks s l) = EfiLockReleased));
     (OldTpl, s) \<leftarrow> CoreRaiseTpl P (Tpl (Locks s l)) s;
     Some (s\<lparr>Locks := (Locks s)(l := (Locks s l)
       \<lparr>OwnerTpl := OldTpl, Lock := EfiLockAcquired\<rparr>)\<rparr>)
   }"

definition CoreReleaseLock :: "platform \<Rightarrow> 'u restore \<Rightarrow> LOCK_NAME \<Rightarrow> 'u dxe \<Rightarrow> 'u dxe option" where
  "CoreReleaseLock P R l s = do {
     ASSERT (Asserts P) (Some (Lock (Locks s l) = EfiLockAcquired));
     let Tpl = OwnerTpl (Locks s l);
     R Tpl (s\<lparr>Locks := (Locks s)(l := (Locks s l)\<lparr>Lock := EfiLockReleased\<rparr>)\<rparr>)
   }"

abbreviation ASSERT_LOCKED :: "platform \<Rightarrow> LOCK_NAME \<Rightarrow> 'u dxe \<Rightarrow> unit option" where
  "ASSERT_LOCKED P l s \<equiv> ASSERT (Asserts P) (Some (Lock (Locks s l) = EfiLockAcquired))"

definition CoreAcquireEventLock :: "platform \<Rightarrow> 'u dxe \<Rightarrow> 'u dxe option" where
  "CoreAcquireEventLock P s = CoreAcquireLock P gEventQueueLock s"

definition CoreReleaseEventLock :: "platform \<Rightarrow> 'u restore \<Rightarrow> 'u dxe \<Rightarrow> 'u dxe option" where
  "CoreReleaseEventLock P R s = CoreReleaseLock P R gEventQueueLock s"

subsection \<open>Queueing notifications\<close>

text \<open>
  The shifts are those of the source: \<open>1 << n\<close> and \<open>-2 << n\<close> are 32-bit \<open>int\<close> expressions that are
  sign-extended when they meet the 64-bit mask.
\<close>

definition pending_bit :: "EFI_TPL \<Rightarrow> uintn" where
  "pending_bit n = scast (push_bit n (1 :: uint32))"

definition restore_mask :: "EFI_TPL \<Rightarrow> uintn" where
  "restore_mask n = scast (push_bit n (-2 :: uint32))"

definition unqueue :: "eid \<Rightarrow> event_db \<Rightarrow> event_db" where
  "unqueue e d = d\<lparr>gEventQueue := (\<lambda>p. removeAll e (gEventQueue d p))\<rparr>"

definition enqueue :: "EFI_TPL \<Rightarrow> eid \<Rightarrow> event_db \<Rightarrow> event_db" where
  "enqueue p e d = d\<lparr>gEventQueue := (gEventQueue d)(p := gEventQueue d p @ [e]),
     gEventPending := gEventPending d OR pending_bit p\<rparr>"

definition CoreNotifyEvent :: "platform \<Rightarrow> eid \<Rightarrow> 'u dxe \<Rightarrow> 'u dxe option" where
  "CoreNotifyEvent P e s = do {
     ASSERT_LOCKED P gEventQueueLock s;
     ev \<leftarrow> ievent s e;
     Some (upd_db (\<lambda>d. enqueue (NotifyTpl ev) e (unqueue e d)) s)
   }"

primrec notify_signal_loop :: "platform \<Rightarrow> EFI_GUID \<Rightarrow> eid list \<Rightarrow> 'u dxe \<Rightarrow> 'u dxe option" where
  "notify_signal_loop P g [] s = Some s"
| "notify_signal_loop P g (e # es) s = do {
     ev \<leftarrow> ievent s e;
     s \<leftarrow> (if EventGroup ev = g then CoreNotifyEvent P e s else Some s);
     notify_signal_loop P g es s
   }"

definition CoreNotifySignalList :: "platform \<Rightarrow> 'u restore \<Rightarrow> EFI_GUID \<Rightarrow> 'u dxe \<Rightarrow> 'u dxe option" where
  "CoreNotifySignalList P R g s = do {
     s \<leftarrow> CoreAcquireEventLock P s;
     s \<leftarrow> notify_signal_loop P g (gEventSignalQueue (Db s)) s;
     CoreReleaseEventLock P R s
   }"

subsection \<open>Creating, signalling, checking events\<close>

definition mEventTable :: "uint32 list" where
  "mEventTable = [EVT_TIMER OR EVT_NOTIFY_SIGNAL, EVT_TIMER, EVT_NOTIFY_WAIT, EVT_NOTIFY_SIGNAL,
     EVT_SIGNAL_EXIT_BOOT_SERVICES, EVT_SIGNAL_VIRTUAL_ADDRESS_CHANGE, 0x00000000,
     EVT_TIMER OR EVT_NOTIFY_WAIT]"

definition zero_event :: IEVENT where
  "zero_event = \<lparr>Signature = 0, Type = 0, SignalCount = 0, NotifyTpl = 0, NotifyFunction = None,
     NotifyContext = 0, EventGroup = 0, ExFlag = False, TriggerTime = 0, Period = 0\<rparr>"

text \<open>The end of \<open>CoreCreateEventEx\<close>: storing the new event and linking it into the lists.\<close>

definition install_event ::
    "platform \<Rightarrow> 'u restore \<Rightarrow> eid \<Rightarrow> IEVENT \<Rightarrow> 'u dxe \<Rightarrow> (EFI_STATUS \<times> eid option \<times> 'u dxe) option" where
  "install_event P R pool ev s = do {
     let s = upd_db (\<lambda>d. d\<lparr>Events := (Events d)(pool \<mapsto> ev)\<rparr>) s;
     let s = (if Type ev AND EVT_RUNTIME \<noteq> 0
       then upd_db (\<lambda>d. d\<lparr>gRuntimeEventHead := gRuntimeEventHead d @ [pool]\<rparr>) s else s);
     s \<leftarrow> CoreAcquireEventLock P s;
     let s = (if Type ev AND EVT_NOTIFY_SIGNAL \<noteq> 0
       then upd_db (\<lambda>d. d\<lparr>gEventSignalQueue := pool # gEventSignalQueue d\<rparr>) s else s);
     s \<leftarrow> CoreReleaseEventLock P R s;
     Some (EFI_SUCCESS, Some pool, s)
   }"

text \<open>
  The checks of \<open>CoreCreateEventEx\<close> on its parameters, and the event structure it fills in: an
  error status or the new event.
\<close>

definition new_event ::
    "uint32 \<Rightarrow> EFI_TPL \<Rightarrow> EFI_EVENT_NOTIFY option \<Rightarrow> nat \<Rightarrow> EFI_GUID option \<Rightarrow> EFI_STATUS + IEVENT" where
  "new_event EType NTpl NFunction NContext Group =
     (if EType \<notin> set mEventTable then Inl EFI_INVALID_PARAMETER
      else if Group \<noteq> None \<and>
          (EType = EVT_SIGNAL_EXIT_BOOT_SERVICES \<or> EType = EVT_SIGNAL_VIRTUAL_ADDRESS_CHANGE)
      then Inl EFI_INVALID_PARAMETER
      else
        let (EType, Group) =
          (case Group of
             Some g \<Rightarrow>
               (if g = gEfiEventExitBootServicesGuid then EVT_SIGNAL_EXIT_BOOT_SERVICES
                else if g = gEfiEventVirtualAddressChangeGuid
                then EVT_SIGNAL_VIRTUAL_ADDRESS_CHANGE else EType, Some g)
           | None \<Rightarrow>
               (EType,
                if EType = EVT_SIGNAL_EXIT_BOOT_SERVICES then Some gEfiEventExitBootServicesGuid
                else if EType = EVT_SIGNAL_VIRTUAL_ADDRESS_CHANGE
                then Some gEfiEventVirtualAddressChangeGuid else None));
          notify = EType AND (EVT_NOTIFY_WAIT OR EVT_NOTIFY_SIGNAL) \<noteq> 0
        in
          if notify \<and> (NFunction = None \<or> NTpl \<le> TPL_APPLICATION \<or> NTpl \<ge> TPL_HIGH_LEVEL)
          then Inl EFI_INVALID_PARAMETER
          else Inr (zero_event\<lparr>Signature := EVENT_SIGNATURE, Type := EType,
            NotifyTpl := if notify then NTpl else 0,
            NotifyFunction := if notify then NFunction else None,
            NotifyContext := if notify then NContext else 0,
            EventGroup := (case Group of Some g \<Rightarrow> g | None \<Rightarrow> 0), ExFlag := Group \<noteq> None\<rparr>))"

text \<open>
  \<open>EventPtr\<close> says whether the out parameter is not NULL, \<open>pool\<close> is what \<open>AllocateZeroPool\<close> or
  \<open>AllocateRuntimeZeroPool\<close> returns (0 for NULL); the result carries the value stored through the
  out parameter.
\<close>

definition CoreCreateEventEx ::
    "platform \<Rightarrow> 'u restore \<Rightarrow> eid \<Rightarrow> uint32 \<Rightarrow> EFI_TPL \<Rightarrow> EFI_EVENT_NOTIFY option \<Rightarrow> nat \<Rightarrow>
     EFI_GUID option \<Rightarrow> bool \<Rightarrow> 'u dxe \<Rightarrow> (EFI_STATUS \<times> eid option \<times> 'u dxe) option" where
  "CoreCreateEventEx P R pool EType NTpl NFunction NContext Group EventPtr s =
     (if \<not> EventPtr then Some (EFI_INVALID_PARAMETER, None, s)
      else case new_event EType NTpl NFunction NContext Group of
        Inl Status \<Rightarrow> Some (Status, None, s)
      | Inr ev \<Rightarrow>
          if pool = 0 then Some (EFI_OUT_OF_RESOURCES, None, s) else install_event P R pool ev s)"

definition CoreCreateEvent ::
    "platform \<Rightarrow> 'u restore \<Rightarrow> eid \<Rightarrow> uint32 \<Rightarrow> EFI_TPL \<Rightarrow> EFI_EVENT_NOTIFY option \<Rightarrow> nat \<Rightarrow>
     bool \<Rightarrow> 'u dxe \<Rightarrow> (EFI_STATUS \<times> eid option \<times> 'u dxe) option" where
  "CoreCreateEvent P R pool EType NTpl NFunction NContext EventPtr s =
     CoreCreateEventEx P R pool EType NTpl NFunction NContext None EventPtr s"

text \<open>What \<open>CoreSignalEvent\<close> does between taking and releasing the event lock.\<close>

definition signal_section ::
    "platform \<Rightarrow> 'u restore \<Rightarrow> eid \<Rightarrow> IEVENT \<Rightarrow> 'u dxe \<Rightarrow> 'u dxe option" where
  "signal_section P R e ev s =
     (if SignalCount ev = 0 then
        let s = upd_db (upd_event e (SignalCount_update (\<lambda>c. c + 1))) s in
        if Type ev AND EVT_NOTIFY_SIGNAL \<noteq> 0 then
          if ExFlag ev then do {
            s \<leftarrow> CoreReleaseEventLock P R s;
            ev \<leftarrow> ievent s e;
            s \<leftarrow> CoreNotifySignalList P R (EventGroup ev) s;
            CoreAcquireEventLock P s
          }
          else CoreNotifyEvent P e s
        else Some s
      else Some s)"

definition CoreSignalEvent ::
    "platform \<Rightarrow> 'u restore \<Rightarrow> eid \<Rightarrow> 'u dxe \<Rightarrow> (EFI_STATUS \<times> 'u dxe) option" where
  "CoreSignalEvent P R UserEvent s =
     (if UserEvent = 0 then Some (EFI_INVALID_PARAMETER, s)
      else do {
        ev \<leftarrow> ievent s UserEvent;
        if Signature ev \<noteq> EVENT_SIGNATURE then Some (EFI_INVALID_PARAMETER, s)
        else do {
          s \<leftarrow> CoreAcquireEventLock P s;
          s \<leftarrow> signal_section P R UserEvent ev s;
          s \<leftarrow> CoreReleaseEventLock P R s;
          Some (EFI_SUCCESS, s)
        }
      })"

text \<open>The two steps of \<open>CoreCheckEvent\<close>: queue the wait notification, and take the signaled state.\<close>

definition queue_wait_notify ::
    "platform \<Rightarrow> 'u restore \<Rightarrow> eid \<Rightarrow> IEVENT \<Rightarrow> 'u dxe \<Rightarrow> 'u dxe option" where
  "queue_wait_notify P R e ev s =
     (if SignalCount ev = 0 \<and> Type ev AND EVT_NOTIFY_WAIT \<noteq> 0 then do {
        s \<leftarrow> CoreAcquireEventLock P s;
        ev \<leftarrow> ievent s e;
        s \<leftarrow> (if SignalCount ev = 0 then CoreNotifyEvent P e s else Some s);
        CoreReleaseEventLock P R s
      } else Some s)"

definition take_signal ::
    "platform \<Rightarrow> 'u restore \<Rightarrow> eid \<Rightarrow> 'u dxe \<Rightarrow> (EFI_STATUS \<times> 'u dxe) option" where
  "take_signal P R e s = do {
     ev \<leftarrow> ievent s e;
     if SignalCount ev \<noteq> 0 then do {
       s \<leftarrow> CoreAcquireEventLock P s;
       ev \<leftarrow> ievent s e;
       let (Status, s) = (if SignalCount ev \<noteq> 0
         then (EFI_SUCCESS, upd_db (upd_event e (SignalCount_update (\<lambda>_. 0))) s)
         else (EFI_NOT_READY, s));
       s \<leftarrow> CoreReleaseEventLock P R s;
       Some (Status, s)
     }
     else Some (EFI_NOT_READY, s)
   }"

definition CoreCheckEvent ::
    "platform \<Rightarrow> 'u restore \<Rightarrow> eid \<Rightarrow> 'u dxe \<Rightarrow> (EFI_STATUS \<times> 'u dxe) option" where
  "CoreCheckEvent P R UserEvent s =
     (if UserEvent = 0 then Some (EFI_INVALID_PARAMETER, s)
      else do {
        ev \<leftarrow> ievent s UserEvent;
        if Signature ev \<noteq> EVENT_SIGNATURE then Some (EFI_INVALID_PARAMETER, s)
        else if Type ev AND EVT_NOTIFY_SIGNAL \<noteq> 0 then Some (EFI_INVALID_PARAMETER, s)
        else do {
          s \<leftarrow> queue_wait_notify P R UserEvent ev s;
          take_signal P R UserEvent s
        }
      })"

text \<open>The two nested loops of \<open>CoreWaitForEvent\<close>, as one loop over the index.\<close>

partial_function (option) wait_loop ::
    "platform \<Rightarrow> 'u restore \<Rightarrow> eid list \<Rightarrow> nat \<Rightarrow> 'u dxe \<Rightarrow> (EFI_STATUS \<times> nat \<times> 'u dxe) option" where
  "wait_loop P R UserEvents Index s =
     (if Index < length UserEvents then
        Option.bind (CoreCheckEvent P R (UserEvents ! Index) s) (\<lambda>(Status, s).
          if Status \<noteq> EFI_NOT_READY then Some (Status, Index, s)
          else wait_loop P R UserEvents (Index + 1) s)
      else wait_loop P R UserEvents 0 s)"

definition CoreWaitForEvent ::
    "platform \<Rightarrow> 'u restore \<Rightarrow> eid list \<Rightarrow> 'u dxe \<Rightarrow> (EFI_STATUS \<times> nat option \<times> 'u dxe) option" where
  "CoreWaitForEvent P R UserEvents s =
     (if gEfiCurrentTpl s \<noteq> TPL_APPLICATION then Some (EFI_UNSUPPORTED, None, s)
      else map_option (\<lambda>(Status, Index, s). (Status, Some Index, s)) (wait_loop P R UserEvents 0 s))"

subsection \<open>Timers\<close>

primrec timer_insert :: "(eid \<rightharpoonup> IEVENT) \<Rightarrow> uint64 \<Rightarrow> eid \<Rightarrow> eid list \<Rightarrow> eid list option" where
  "timer_insert evs t e [] = Some [e]"
| "timer_insert evs t e (x # xs) = do {
     ev \<leftarrow> evs x;
     if TriggerTime ev > t then Some (e # x # xs) else map_option (Cons x) (timer_insert evs t e xs)
   }"

definition CoreInsertEventTimer :: "platform \<Rightarrow> eid \<Rightarrow> 'u dxe \<Rightarrow> 'u dxe option" where
  "CoreInsertEventTimer P e s = do {
     ASSERT_LOCKED P mEfiTimerLock s;
     ev \<leftarrow> ievent s e;
     l \<leftarrow> timer_insert (Events (Db s)) (TriggerTime ev) e (mEfiTimerList (Db s));
     Some (upd_db (\<lambda>d. d\<lparr>mEfiTimerList := l\<rparr>) s)
   }"

definition CoreCurrentSystemTime ::
    "platform \<Rightarrow> 'u restore \<Rightarrow> 'u dxe \<Rightarrow> (uint64 \<times> 'u dxe) option" where
  "CoreCurrentSystemTime P R s = do {
     s \<leftarrow> CoreAcquireLock P mEfiSystemTimeLock s;
     let SystemTime = mEfiSystemTime (Db s);
     s \<leftarrow> CoreReleaseLock P R mEfiSystemTimeLock s;
     Some (SystemTime, s)
   }"

text \<open>The body of the loop of \<open>CoreCheckTimers\<close> for an expired timer \<open>e\<close> at the head of the list.\<close>

definition rearm_timer :: "platform \<Rightarrow> 'u restore \<Rightarrow> uint64 \<Rightarrow> eid \<Rightarrow> IEVENT \<Rightarrow> 'u dxe \<Rightarrow> 'u dxe option" where
  "rearm_timer P R SystemTime e ev s = do {
     let NewTime = TriggerTime ev + Period ev;
     s \<leftarrow> (if NewTime \<le> SystemTime then do {
         let s = upd_db (upd_event e (TriggerTime_update (\<lambda>_. SystemTime))) s;
         (_, s) \<leftarrow> CoreSignalEvent P R (mEfiCheckTimerEvent (Db s)) s;
         Some s
       }
       else Some (upd_db (upd_event e (TriggerTime_update (\<lambda>_. NewTime))) s));
     CoreInsertEventTimer P e s
   }"

definition expire_timer :: "platform \<Rightarrow> 'u restore \<Rightarrow> uint64 \<Rightarrow> eid \<Rightarrow> 'u dxe \<Rightarrow> 'u dxe option" where
  "expire_timer P R SystemTime e s = do {
     let s = upd_db (\<lambda>d. d\<lparr>mEfiTimerList := tl (mEfiTimerList d)\<rparr>) s;
     (_, s) \<leftarrow> CoreSignalEvent P R e s;
     ev \<leftarrow> ievent s e;
     if Period ev \<noteq> 0 then rearm_timer P R SystemTime e ev s else Some s
   }"

partial_function (option) check_timers_loop ::
    "platform \<Rightarrow> 'u restore \<Rightarrow> uint64 \<Rightarrow> 'u dxe \<Rightarrow> 'u dxe option" where
  "check_timers_loop P R SystemTime s =
     (case mEfiTimerList (Db s) of
        [] \<Rightarrow> Some s
      | e # _ \<Rightarrow>
          Option.bind (ievent s e) (\<lambda>ev.
            if TriggerTime ev > SystemTime then Some s
            else Option.bind (expire_timer P R SystemTime e s) (check_timers_loop P R SystemTime)))"

definition CoreCheckTimers :: "platform \<Rightarrow> 'u restore \<Rightarrow> 'u dxe \<Rightarrow> 'u dxe option" where
  "CoreCheckTimers P R s = do {
     s \<leftarrow> CoreAcquireLock P mEfiTimerLock s;
     (SystemTime, s) \<leftarrow> CoreCurrentSystemTime P R s;
     s \<leftarrow> check_timers_loop P R SystemTime s;
     CoreReleaseLock P R mEfiTimerLock s
   }"

definition tick_check :: "platform \<Rightarrow> 'u restore \<Rightarrow> 'u dxe \<Rightarrow> 'u dxe option" where
  "tick_check P R s =
     (case mEfiTimerList (Db s) of
        [] \<Rightarrow> Some s
      | e # _ \<Rightarrow> do {
          ev \<leftarrow> ievent s e;
          if TriggerTime ev \<le> mEfiSystemTime (Db s) then do {
            (_, s) \<leftarrow> CoreSignalEvent P R (mEfiCheckTimerEvent (Db s)) s;
            Some s
          }
          else Some s
        })"

definition CoreTimerTick :: "platform \<Rightarrow> 'u restore \<Rightarrow> uint64 \<Rightarrow> 'u dxe \<Rightarrow> 'u dxe option" where
  "CoreTimerTick P R Duration s = do {
     s \<leftarrow> CoreAcquireLock P mEfiSystemTimeLock s;
     let s = upd_db (\<lambda>d. d\<lparr>mEfiSystemTime := mEfiSystemTime d + Duration\<rparr>) s;
     s \<leftarrow> tick_check P R s;
     CoreReleaseLock P R mEfiSystemTimeLock s
   }"

text \<open>\<open>EFI_TIMER_DELAY\<close> is a C enumeration, so the argument can be any integer.\<close>

abbreviation "TimerCancel \<equiv> 0 :: int"
abbreviation "TimerPeriodic \<equiv> 1 :: int"
abbreviation "TimerRelative \<equiv> 2 :: int"

text \<open>The part of \<open>CoreSetTimer\<close> that starts the timer, with the timer lock held.\<close>

definition start_timer ::
    "platform \<Rightarrow> 'u restore \<Rightarrow> eid \<Rightarrow> int \<Rightarrow> uint64 \<Rightarrow> 'u dxe \<Rightarrow> 'u dxe option" where
  "start_timer P R UserEvent DelayType Time s = do {
     let s = (if DelayType = TimerPeriodic
       then upd_db (upd_event UserEvent (Period_update (\<lambda>_. Time))) s else s);
     (Now, s) \<leftarrow> CoreCurrentSystemTime P R s;
     let s = upd_db (upd_event UserEvent (TriggerTime_update (\<lambda>_. Now + Time))) s;
     s \<leftarrow> CoreInsertEventTimer P UserEvent s;
     if Time = 0 then do {
       (_, s) \<leftarrow> CoreSignalEvent P R (mEfiCheckTimerEvent (Db s)) s;
       Some s
     }
     else Some s
   }"

definition CoreSetTimer ::
    "platform \<Rightarrow> 'u restore \<Rightarrow> eid \<Rightarrow> int \<Rightarrow> uint64 \<Rightarrow> 'u dxe \<Rightarrow> (EFI_STATUS \<times> 'u dxe) option" where
  "CoreSetTimer P R UserEvent DelayType Time s =
     (if UserEvent = 0 then Some (EFI_INVALID_PARAMETER, s)
      else do {
        ev \<leftarrow> ievent s UserEvent;
        if Signature ev \<noteq> EVENT_SIGNATURE then Some (EFI_INVALID_PARAMETER, s)
        else if DelayType < 0 \<or> DelayType > TimerRelative \<or> Type ev AND EVT_TIMER = 0
        then Some (EFI_INVALID_PARAMETER, s)
        else do {
          s \<leftarrow> CoreAcquireLock P mEfiTimerLock s;
          let s = upd_db (\<lambda>d. d\<lparr>mEfiTimerList := removeAll UserEvent (mEfiTimerList d)\<rparr>) s;
          let s = upd_db (upd_event UserEvent (\<lambda>ev. ev\<lparr>TriggerTime := 0, Period := 0\<rparr>)) s;
          s \<leftarrow> (if DelayType \<noteq> TimerCancel then start_timer P R UserEvent DelayType Time s else Some s);
          s \<leftarrow> CoreReleaseLock P R mEfiTimerLock s;
          Some (EFI_SUCCESS, s)
        }
      })"

subsection \<open>Closing events\<close>

text \<open>
  \<open>unreg e c\<close> is the search of the protocol database \<open>c\<close> for a notification record of event \<open>e\<close>:
  the database without the first such record, or None if there is none.
\<close>

definition CoreUnregisterProtocolNotifyEvent ::
    "platform \<Rightarrow> 'u restore \<Rightarrow> (eid \<Rightarrow> 'u \<Rightarrow> 'u option) \<Rightarrow> eid \<Rightarrow> 'u dxe \<Rightarrow> (EFI_STATUS \<times> 'u dxe) option"
  where
  "CoreUnregisterProtocolNotifyEvent P R unreg e s = do {
     s \<leftarrow> CoreAcquireLock P gProtocolDatabaseLock s;
     (case unreg e (Ctx s) of
        Some c \<Rightarrow> do {
          s \<leftarrow> CoreReleaseLock P R gProtocolDatabaseLock (s\<lparr>Ctx := c\<rparr>);
          Some (EFI_SUCCESS, s)
        }
      | None \<Rightarrow> do {
          s \<leftarrow> CoreReleaseLock P R gProtocolDatabaseLock s;
          Some (EFI_NOT_FOUND, s)
        })
   }"

partial_function (option) CoreUnregisterProtocolNotify ::
    "platform \<Rightarrow> 'u restore \<Rightarrow> (eid \<Rightarrow> 'u \<Rightarrow> 'u option) \<Rightarrow> eid \<Rightarrow> 'u dxe \<Rightarrow> (EFI_STATUS \<times> 'u dxe) option"
  where
  "CoreUnregisterProtocolNotify P R unreg e s =
     Option.bind (CoreUnregisterProtocolNotifyEvent P R unreg e s) (\<lambda>(Status, s).
       if \<not> EFI_ERROR Status then CoreUnregisterProtocolNotify P R unreg e s
       else Some (EFI_SUCCESS, s))"

text \<open>Taking a closed event off the lists of the core.\<close>

definition unlink_event :: "eid \<Rightarrow> event_db \<Rightarrow> event_db" where
  "unlink_event e d = (unqueue e d)
     \<lparr>gRuntimeEventHead := removeAll e (gRuntimeEventHead d),
      gEventSignalQueue := removeAll e (gEventSignalQueue d)\<rparr>"

definition free_event :: "eid \<Rightarrow> event_db \<Rightarrow> event_db" where
  "free_event e d = d\<lparr>Events := (Events d)(e := None)\<rparr>"

definition CoreCloseEvent ::
    "platform \<Rightarrow> 'u restore \<Rightarrow> (eid \<Rightarrow> 'u \<Rightarrow> 'u option) \<Rightarrow> eid \<Rightarrow> 'u dxe \<Rightarrow> (EFI_STATUS \<times> 'u dxe) option"
  where
  "CoreCloseEvent P R unreg UserEvent s =
     (if UserEvent = 0 then Some (EFI_INVALID_PARAMETER, s)
      else do {
        ev \<leftarrow> ievent s UserEvent;
        if Signature ev \<noteq> EVENT_SIGNATURE then Some (EFI_INVALID_PARAMETER, s)
        else do {
          s \<leftarrow> (if Type ev AND EVT_TIMER \<noteq> 0
            then map_option snd (CoreSetTimer P R UserEvent TimerCancel 0 s) else Some s);
          s \<leftarrow> CoreAcquireEventLock P s;
          let s = upd_db (unlink_event UserEvent) s;
          s \<leftarrow> CoreReleaseEventLock P R s;
          (_, s) \<leftarrow> CoreUnregisterProtocolNotify P R unreg UserEvent s;
          Some (EFI_SUCCESS, upd_db (free_event UserEvent) s)
        }
      })"

subsection \<open>Dispatching notifications\<close>

type_synonym 'u drivers = "nat \<Rightarrow> 'u restore \<Rightarrow> eid \<Rightarrow> nat \<Rightarrow> 'u dxe \<Rightarrow> 'u dxe option"

definition run_notify ::
    "platform \<Rightarrow> 'u drivers \<Rightarrow> 'u restore \<Rightarrow> EFI_EVENT_NOTIFY \<Rightarrow> eid \<Rightarrow> nat \<Rightarrow> 'u dxe \<Rightarrow> 'u dxe option" where
  "run_notify P NC R f e c s =
     (case f of CoreCheckTimers_fn \<Rightarrow> CoreCheckTimers P R s | Driver_fn k \<Rightarrow> NC k R e c s)"

text \<open>The body of the loop of \<open>CoreDispatchEventNotifies\<close>, for the event at the head of the queue.\<close>

definition dispatch_one ::
    "platform \<Rightarrow> 'u drivers \<Rightarrow> 'u restore \<Rightarrow> EFI_TPL \<Rightarrow> 'u dxe \<Rightarrow> 'u dxe option" where
  "dispatch_one P NC R Priority s = do {
     let e = hd (gEventQueue (Db s) Priority);
     let s = upd_db (unqueue e) s;
     ev \<leftarrow> ievent s e;
     let s = (if Type ev AND EVT_NOTIFY_SIGNAL \<noteq> 0
       then upd_db (upd_event e (SignalCount_update (\<lambda>_. 0))) s else s);
     s \<leftarrow> CoreReleaseEventLock P R s;
     ev \<leftarrow> ievent s e;
     f \<leftarrow> NotifyFunction ev;
     s \<leftarrow> run_notify P NC R f e (NotifyContext ev) s;
     CoreAcquireEventLock P s
   }"

text \<open>The loops of \<open>CoreDispatchEventNotifies\<close> and \<open>CoreRestoreTpl\<close> may run forever: a notification
  function can signal its own event again.\<close>

definition CoreDispatchEventNotifies ::
    "platform \<Rightarrow> 'u drivers \<Rightarrow> 'u restore \<Rightarrow> EFI_TPL \<Rightarrow> 'u dxe \<Rightarrow> 'u dxe option" where
  "CoreDispatchEventNotifies P NC R Priority s = do {
     s \<leftarrow> CoreAcquireEventLock P s;
     ASSERT (Asserts P) (Some (OwnerTpl (Locks s gEventQueueLock) = Priority));
     s \<leftarrow> while_opt (\<lambda>s. gEventQueue (Db s) Priority \<noteq> []) (dispatch_one P NC R Priority) s;
     let s = upd_db (\<lambda>d. d\<lparr>gEventPending := gEventPending d AND NOT (pending_bit Priority)\<rparr>) s;
     CoreReleaseEventLock P R s
   }"

text \<open>The body of the loop of \<open>CoreRestoreTpl\<close> up to the call of \<open>CoreDispatchEventNotifies\<close>.\<close>

definition enter_level :: "platform \<Rightarrow> EFI_TPL \<Rightarrow> 'u dxe \<Rightarrow> 'u dxe" where
  "enter_level P p s =
     (let s = s\<lparr>gEfiCurrentTpl := p\<rparr>
      in if p < TPL_HIGH_LEVEL then CoreSetInterruptState P True s else s)"

definition restore_one :: "platform \<Rightarrow> 'u drivers \<Rightarrow> 'u restore \<Rightarrow> 'u dxe \<Rightarrow> 'u dxe option" where
  "restore_one P NC R s =
     (let p = nat (HighBitSet64 (gEventPending (Db s)))
      in CoreDispatchEventNotifies P NC R p (enter_level P p s))"

definition RestoreTpl_body ::
    "platform \<Rightarrow> 'u drivers \<Rightarrow> 'u restore \<Rightarrow> EFI_TPL \<Rightarrow> 'u dxe \<Rightarrow> 'u dxe option" where
  "RestoreTpl_body P NC R NewTpl s = do {
     let OldTpl = gEfiCurrentTpl s;
     ASSERT (Asserts P) (Some (NewTpl \<le> OldTpl));
     ASSERT (Asserts P) (Some (VALID_TPL NewTpl));
     let s = (if OldTpl \<ge> TPL_HIGH_LEVEL \<and> NewTpl < TPL_HIGH_LEVEL
              then s\<lparr>gEfiCurrentTpl := TPL_HIGH_LEVEL\<rparr> else s);
     s \<leftarrow> while_opt (\<lambda>s. restore_mask NewTpl AND gEventPending (Db s) \<noteq> 0) (restore_one P NC R) s;
     let s = s\<lparr>gEfiCurrentTpl := NewTpl\<rparr>;
     Some (if gEfiCurrentTpl s < TPL_HIGH_LEVEL then CoreSetInterruptState P True s else s)
   }"

text \<open>
  The fuel bounds the nesting of calls of \<open>CoreRestoreTpl\<close> inside one another, not the number of
  iterations of any loop.
\<close>

primrec CoreRestoreTpl :: "platform \<Rightarrow> 'u drivers \<Rightarrow> nat \<Rightarrow> 'u restore" where
  "CoreRestoreTpl P NC 0 = (\<lambda>NewTpl s. None)"
| "CoreRestoreTpl P NC (Suc n) = RestoreTpl_body P NC (CoreRestoreTpl P NC n)"

subsection \<open>Initialization\<close>

definition CoreInitializeTimer ::
    "platform \<Rightarrow> 'u restore \<Rightarrow> eid \<Rightarrow> 'u dxe \<Rightarrow> 'u dxe option" where
  "CoreInitializeTimer P R pool s = do {
     (Status, e, s) \<leftarrow> CoreCreateEvent P R pool EVT_NOTIFY_SIGNAL (TPL_HIGH_LEVEL - 1)
       (Some CoreCheckTimers_fn) 0 True s;
     ASSERT (Asserts P) (Some (\<not> EFI_ERROR Status));
     Some (case e of None \<Rightarrow> s | Some e \<Rightarrow> upd_db (\<lambda>d. d\<lparr>mEfiCheckTimerEvent := e\<rparr>) s)
   }"

definition CoreInitializeEventServices ::
    "platform \<Rightarrow> 'u restore \<Rightarrow> eid \<Rightarrow> 'u dxe \<Rightarrow> (EFI_STATUS \<times> 'u dxe) option" where
  "CoreInitializeEventServices P R pool s = do {
     let s = upd_db (\<lambda>d. d\<lparr>gEventQueue := (\<lambda>p. if p \<le> TPL_HIGH_LEVEL then [] else gEventQueue d p)\<rparr>) s;
     s \<leftarrow> CoreInitializeTimer P R pool s;
     Some (EFI_SUCCESS, s)
   }"

end
