(* ===== verification/EventInv.thy ===== *)
theory EventInv
  imports EventTpl
begin

unbundle bit_operations_syntax

section \<open>Invariant of the event services\<close>

text \<open>
  The invariant of the event database and of the locks, and that every service keeps it, whatever
  programs built from the services the drivers install as notification functions.
\<close>

subsection \<open>The masks\<close>

lemma bit_pending_bit: "n < 31 \<Longrightarrow> bit (pending_bit n) k \<longleftrightarrow> k = n"
  by (auto simp: pending_bit_def bit_signed_iff bit_push_bit_iff bit_1_iff bit_exp_iff min_def split: if_splits)

lemma bit_minus_2: "bit (-2 :: uint32) k \<longleftrightarrow> 0 < k \<and> k < 32"
  by (cases k) (auto simp: bit_minus_iff bit_simps)

lemma bit_restore_mask: "k < 64 \<Longrightarrow> bit (restore_mask n) k \<longleftrightarrow> n < min 31 k"
  by (auto simp: restore_mask_def bit_signed_iff bit_push_bit_iff bit_minus_2 min_def)

lemma restore_mask_zero:
  assumes "\<And>k. bit w k \<Longrightarrow> k < 31"
  shows "restore_mask n AND w = 0 \<longleftrightarrow> (\<forall>k. bit w k \<longrightarrow> k \<le> n)"
proof
  assume z: "restore_mask n AND w = 0"
  show "\<forall>k. bit w k \<longrightarrow> k \<le> n"
  proof (intro allI impI)
    fix k assume k: "bit w k"
    then have "k < 31" by (rule assms)
    from z have "\<not> bit (restore_mask n AND w) k" by simp
    with k \<open>k < 31\<close> show "k \<le> n" by (simp add: bit_and_iff bit_restore_mask min_def)
  qed
next
  assume le: "\<forall>k. bit w k \<longrightarrow> k \<le> n"
  show "restore_mask n AND w = 0"
    by (rule bit_word_eqI) (use le in \<open>auto simp: bit_and_iff bit_restore_mask\<close>)
qed

subsection \<open>The invariant\<close>

abbreviation is_signal :: "IEVENT \<Rightarrow> bool" where
  "is_signal ev \<equiv> Type ev AND EVT_NOTIFY_SIGNAL \<noteq> 0"

definition is_notify :: "IEVENT \<Rightarrow> bool" where
  "is_notify ev \<longleftrightarrow> Type ev AND (EVT_NOTIFY_WAIT OR EVT_NOTIFY_SIGNAL) \<noteq> 0"

text \<open>The parts of the invariant of the event database.\<close>

definition pending_inv :: "event_db \<Rightarrow> bool" where
  "pending_inv d \<longleftrightarrow>
     (\<forall>p. gEventQueue d p \<noteq> [] \<longrightarrow> bit (gEventPending d) p) \<and>
     (\<forall>p. bit (gEventPending d) p \<longrightarrow> TPL_APPLICATION < p \<and> p < TPL_HIGH_LEVEL)"

definition event_ok :: "eid \<Rightarrow> IEVENT \<Rightarrow> bool" where
  "event_ok e ev \<longleftrightarrow> e \<noteq> 0 \<and> Signature ev = EVENT_SIGNATURE \<and>
     (is_notify ev \<longrightarrow> TPL_APPLICATION < NotifyTpl ev \<and> NotifyTpl ev < TPL_HIGH_LEVEL \<and>
        NotifyFunction ev \<noteq> None)"

definition events_inv :: "event_db \<Rightarrow> bool" where
  "events_inv d \<longleftrightarrow> (\<forall>e ev. Events d e = Some ev \<longrightarrow> event_ok e ev)"

definition queue_inv :: "event_db \<Rightarrow> bool" where
  "queue_inv d \<longleftrightarrow> (\<forall>p. distinct (gEventQueue d p)) \<and>
     (\<forall>p e. e \<in> set (gEventQueue d p) \<longrightarrow>
        (\<exists>ev. Events d e = Some ev \<and> NotifyTpl ev = p \<and> is_notify ev))"

text \<open>
  The lists an event is linked into when it is created: every live signal event is on the signal
  queue, exactly once, and the runtime list holds live runtime events, each once.
\<close>

definition signal_inv :: "event_db \<Rightarrow> bool" where
  "signal_inv d \<longleftrightarrow> distinct (gEventSignalQueue d) \<and>
     (\<forall>e. e \<in> set (gEventSignalQueue d) \<longleftrightarrow> (\<exists>ev. Events d e = Some ev \<and> is_signal ev)) \<and>
     distinct (gRuntimeEventHead d) \<and>
     (\<forall>e \<in> set (gRuntimeEventHead d). \<exists>ev. Events d e = Some ev \<and> Type ev AND EVT_RUNTIME \<noteq> 0)"

text \<open>A signal event in the signaled state is waiting for its notification.\<close>

definition no_lost_signal :: "event_db \<Rightarrow> bool" where
  "no_lost_signal d \<longleftrightarrow> (\<forall>e ev. Events d e = Some ev \<and> is_signal ev \<and> SignalCount ev \<noteq> 0 \<longrightarrow>
     e \<in> set (gEventQueue d (NotifyTpl ev)))"

text \<open>The timer list is in ascending order of trigger times, and holds live timer events.\<close>

definition trigger :: "event_db \<Rightarrow> eid \<Rightarrow> uint64" where
  "trigger d e = (case Events d e of Some ev \<Rightarrow> TriggerTime ev | None \<Rightarrow> 0)"

definition timer_inv :: "event_db \<Rightarrow> bool" where
  "timer_inv d \<longleftrightarrow> distinct (mEfiTimerList d) \<and>
     (\<forall>e \<in> set (mEfiTimerList d). \<exists>ev. Events d e = Some ev \<and> Type ev AND EVT_TIMER \<noteq> 0) \<and>
     sorted (map (trigger d) (mEfiTimerList d))"

definition db_inv :: "event_db \<Rightarrow> bool" where
  "db_inv d \<longleftrightarrow> pending_inv d \<and> events_inv d \<and> queue_inv d \<and> signal_inv d \<and> no_lost_signal d \<and>
     timer_inv d"

lemmas db_inv_defs = db_inv_def pending_inv_def events_inv_def queue_inv_def signal_inv_def
  no_lost_signal_def timer_inv_def

text \<open>Locks and priority level.\<close>

fun lock_tpl :: "LOCK_NAME \<Rightarrow> EFI_TPL" where
  "lock_tpl gEventQueueLock = TPL_HIGH_LEVEL"
| "lock_tpl mEfiTimerLock = TPL_HIGH_LEVEL - 1"
| "lock_tpl mEfiSystemTimeLock = TPL_HIGH_LEVEL"
| "lock_tpl gProtocolDatabaseLock = TPL_NOTIFY"

lemma lock_tpl_le [simp]: "lock_tpl l \<le> TPL_HIGH_LEVEL"
  by (cases l) simp_all

definition held :: "'u dxe \<Rightarrow> LOCK_NAME \<Rightarrow> bool" where
  "held s l \<longleftrightarrow> Lock (Locks s l) = EfiLockAcquired"

definition quiet :: "EFI_TPL \<Rightarrow> event_db \<Rightarrow> bool" where
  "quiet t d \<longleftrightarrow> (\<forall>p. bit (gEventPending d) p \<longrightarrow> p \<le> t)"

definition lock_inv :: "'u dxe \<Rightarrow> bool" where
  "lock_inv s \<longleftrightarrow> gEfiCurrentTpl s \<le> TPL_HIGH_LEVEL \<and> quiet (gEfiCurrentTpl s) (Db s) \<and>
     (\<forall>l. Tpl (Locks s l) = lock_tpl l \<and> (held s l \<longrightarrow> lock_tpl l \<le> gEfiCurrentTpl s))"

definition dxe_inv :: "'u dxe \<Rightarrow> bool" where
  "dxe_inv s \<longleftrightarrow> db_inv (Db s) \<and> lock_inv s"

text \<open>What a service leaves of the locks: those that are held stay held, by the same owner.\<close>

definition same_locks :: "'u dxe \<Rightarrow> 'u dxe \<Rightarrow> bool" where
  "same_locks s t \<longleftrightarrow> (\<forall>l. Tpl (Locks t l) = Tpl (Locks s l) \<and> Lock (Locks t l) = Lock (Locks s l) \<and>
     (held s l \<longrightarrow> Locks t l = Locks s l))"

lemma same_locks_refl [simp]: "same_locks s s"
  by (simp add: same_locks_def)

lemma same_locks_trans [trans]: "same_locks s t \<Longrightarrow> same_locks t u \<Longrightarrow> same_locks s u"
  by (simp add: same_locks_def held_def)

lemma same_locks_held: "same_locks s t \<Longrightarrow> held t l = held s l"
  by (simp add: same_locks_def held_def)

subsection \<open>Contract of a restore function and of a service\<close>

text \<open>
  \<open>restore_ok R\<close>: lowering the level to \<open>t\<close> where no notification above \<open>t\<close> is pending changes
  nothing but the level (and the interrupt flag); in general it keeps the invariant.
\<close>

definition restore_ok :: "'u restore \<Rightarrow> bool" where
  "restore_ok R \<longleftrightarrow> (\<forall>t s s'. R t s = Some s' \<longrightarrow>
     (pending_inv (Db s) \<and> quiet t (Db s) \<longrightarrow>
        gEfiCurrentTpl s' = t \<and> Db s' = Db s \<and> Ctx s' = Ctx s \<and> Locks s' = Locks s) \<and>
     (dxe_inv s \<and> t \<le> gEfiCurrentTpl s \<and> (\<forall>l. held s l \<longrightarrow> lock_tpl l \<le> t) \<longrightarrow>
        dxe_inv s' \<and> gEfiCurrentTpl s' = t \<and> same_locks s s'))"

definition keeps :: "'u dxe \<Rightarrow> 'u dxe \<Rightarrow> bool" where
  "keeps s s' \<longleftrightarrow> dxe_inv s' \<and> gEfiCurrentTpl s' = gEfiCurrentTpl s \<and> same_locks s s'"

definition service_ok :: "('u dxe \<Rightarrow> 'u dxe option) \<Rightarrow> bool" where
  "service_ok f \<longleftrightarrow> (\<forall>s s'. dxe_inv s \<and> f s = Some s' \<longrightarrow> keeps s s')"

lemma keeps_refl: "dxe_inv s \<Longrightarrow> keeps s s"
  by (simp add: keeps_def)

lemma keeps_trans [trans]: "keeps s t \<Longrightarrow> keeps t u \<Longrightarrow> keeps s u"
  by (auto simp: keeps_def intro: same_locks_trans)

lemma keeps_inv: "keeps s t \<Longrightarrow> dxe_inv t"
  by (simp add: keeps_def)

lemma service_okD: "service_ok f \<Longrightarrow> dxe_inv s \<Longrightarrow> f s = Some s' \<Longrightarrow> keeps s s'"
  by (simp add: service_ok_def)

lemma service_ok_bind:
  "service_ok f \<Longrightarrow> service_ok g \<Longrightarrow> service_ok (\<lambda>s. Option.bind (f s) g)"
  unfolding service_ok_def bind_eq_Some_conv by (blast intro: keeps_trans keeps_inv)

text \<open>\<open>locked l s t\<close>: \<open>t\<close> is inside the critical section that \<open>s\<close> opened with lock \<open>l\<close>.\<close>

definition locked :: "LOCK_NAME \<Rightarrow> 'u dxe \<Rightarrow> 'u dxe \<Rightarrow> bool" where
  "locked l s t \<longleftrightarrow> lock_inv s \<and> gEfiCurrentTpl s \<le> lock_tpl l \<and> gEfiCurrentTpl t = lock_tpl l \<and>
     \<not> held s l \<and> held t l \<and> OwnerTpl (Locks t l) = gEfiCurrentTpl s \<and>
     (\<forall>k. Tpl (Locks t k) = Tpl (Locks s k)) \<and>
     (\<forall>k. k \<noteq> l \<longrightarrow> Lock (Locks t k) = Lock (Locks s k) \<and> (held s k \<longrightarrow> Locks t k = Locks s k)) \<and>
     Lock (Locks s l) = EfiLockReleased"

lemma CoreSetInterruptState_simps [simp]:
  "gEfiCurrentTpl (CoreSetInterruptState P b s) = gEfiCurrentTpl s"
  "Locks (CoreSetInterruptState P b s) = Locks s"
  "Db (CoreSetInterruptState P b s) = Db s"
  "Ctx (CoreSetInterruptState P b s) = Ctx s"
  by (auto simp: CoreSetInterruptState_def split: option.splits prod.splits)

lemma upd_db_simps [simp]:
  "gEfiCurrentTpl (upd_db f s) = gEfiCurrentTpl s"
  "Locks (upd_db f s) = Locks s"
  "Db (upd_db f s) = f (Db s)"
  "Ctx (upd_db f s) = Ctx s"
  by (simp_all add: upd_db_def)

lemma CoreAcquireLock_locked:
  assumes "CoreAcquireLock P l s = Some t" "Asserts P" "lock_inv s"
  shows "locked l s t" "Db t = Db s" "Ctx t = Ctx s"
  using assms
  by (auto simp: CoreAcquireLock_def CoreRaiseTpl_def bind_eq_Some_conv ASSERT_Some_iff locked_def
      lock_inv_def held_def Let_def split: if_splits)

lemma locked_upd_db [simp]: "locked l s (upd_db f t) = locked l s t"
  by (simp add: locked_def held_def)

lemma locked_keeps: "locked l s t \<Longrightarrow> keeps t u \<Longrightarrow> locked l s u"
  by (auto simp: locked_def keeps_def same_locks_def held_def)

lemma lock_inv_bound: "lock_inv s \<Longrightarrow> gEfiCurrentTpl s \<le> TPL_HIGH_LEVEL"
  by (simp add: lock_inv_def)

lemma pending_high: "pending_inv d \<Longrightarrow> TPL_HIGH_LEVEL - 1 \<le> t \<Longrightarrow> quiet t d"
  by (fastforce simp: pending_inv_def quiet_def)

text \<open>Leaving a critical section.\<close>

lemma CoreReleaseLock_quiet:
  assumes "CoreReleaseLock P R l t = Some u" "Asserts P" "restore_ok R" "locked l s t"
    and "pending_inv (Db t)" "quiet (gEfiCurrentTpl s) (Db t)"
  shows "gEfiCurrentTpl u = gEfiCurrentTpl s" "Db u = Db t" "Ctx u = Ctx t" "same_locks s u"
    "lock_inv u"
proof -
  let ?t = "t\<lparr>Locks := (Locks t)(l := (Locks t l)\<lparr>Lock := EfiLockReleased\<rparr>)\<rparr>"
  have R: "R (gEfiCurrentTpl s) ?t = Some u"
    using assms(1,4) by (auto simp: CoreReleaseLock_def bind_eq_Some_conv Let_def locked_def)
  then have u: "gEfiCurrentTpl u = gEfiCurrentTpl s" "Db u = Db t" "Ctx u = Ctx t"
      "Locks u = (Locks t)(l := (Locks t l)\<lparr>Lock := EfiLockReleased\<rparr>)"
    using assms(3,5,6) unfolding restore_ok_def by fastforce+
  then show "gEfiCurrentTpl u = gEfiCurrentTpl s" "Db u = Db t" "Ctx u = Ctx t" by simp_all
  show sl: "same_locks s u"
    using u(4) assms(4) by (auto simp: same_locks_def locked_def held_def)
  show "lock_inv u"
    using u assms(4,6) sl by (auto simp: lock_inv_def locked_def held_def same_locks_def)
qed

lemma CoreReleaseLock_keeps:
  assumes "CoreReleaseLock P R l t = Some u" "Asserts P" "restore_ok R" "locked l s t"
    and "db_inv (Db t)" "quiet (lock_tpl l) (Db t)"
  shows "keeps s u"
proof -
  let ?t = "t\<lparr>Locks := (Locks t)(l := (Locks t l)\<lparr>Lock := EfiLockReleased\<rparr>)\<rparr>"
  have R: "R (gEfiCurrentTpl s) ?t = Some u"
    using assms(1,4) by (auto simp: CoreReleaseLock_def bind_eq_Some_conv Let_def locked_def)
  have below: "held ?t k \<Longrightarrow> lock_tpl k \<le> gEfiCurrentTpl s" for k
    using assms(4) by (auto simp: held_def locked_def lock_inv_def split: if_splits)
  have "dxe_inv ?t"
    unfolding dxe_inv_def lock_inv_def
    using assms(4,5,6) below lock_inv_bound [of s]
    by (auto simp: locked_def lock_inv_def held_def intro: order_trans)
  moreover have "gEfiCurrentTpl s \<le> gEfiCurrentTpl ?t" using assms(4) by (simp add: locked_def)
  ultimately have "dxe_inv u" "gEfiCurrentTpl u = gEfiCurrentTpl s" "same_locks ?t u"
    using R assms(3) below unfolding restore_ok_def by blast+
  moreover from this(3) have "same_locks s u"
    using assms(4) by (auto simp: same_locks_def locked_def held_def split: if_splits)
  ultimately show ?thesis by (simp add: keeps_def)
qed

lemmas event_lock_defs = CoreAcquireEventLock_def CoreReleaseEventLock_def

subsection \<open>Changes of the event database\<close>

lemma ievent_Some: "ievent s e = Some ev \<longleftrightarrow> e \<noteq> 0 \<and> Events (Db s) e = Some ev"
  by (auto simp: ievent_def)

lemma upd_event_simps [simp]:
  "gEventQueue (upd_event e f d) = gEventQueue d"
  "gEventPending (upd_event e f d) = gEventPending d"
  "gEventSignalQueue (upd_event e f d) = gEventSignalQueue d"
  "mEfiTimerList (upd_event e f d) = mEfiTimerList d"
  "gRuntimeEventHead (upd_event e f d) = gRuntimeEventHead d"
  "Events (upd_event e f d) x = (if x = e then map_option f (Events d e) else Events d x)"
  by (simp_all add: upd_event_def)

lemma unqueue_simps [simp]:
  "gEventQueue (unqueue e d) p = removeAll e (gEventQueue d p)"
  "gEventPending (unqueue e d) = gEventPending d"
  "gEventSignalQueue (unqueue e d) = gEventSignalQueue d"
  "mEfiTimerList (unqueue e d) = mEfiTimerList d"
  "gRuntimeEventHead (unqueue e d) = gRuntimeEventHead d"
  "Events (unqueue e d) = Events d"
  by (simp_all add: unqueue_def)

lemma enqueue_simps [simp]:
  "gEventQueue (enqueue p e d) q = (if q = p then gEventQueue d p @ [e] else gEventQueue d q)"
  "gEventPending (enqueue p e d) = gEventPending d OR pending_bit p"
  "gEventSignalQueue (enqueue p e d) = gEventSignalQueue d"
  "mEfiTimerList (enqueue p e d) = mEfiTimerList d"
  "gRuntimeEventHead (enqueue p e d) = gRuntimeEventHead d"
  "Events (enqueue p e d) = Events d"
  by (simp_all add: enqueue_def)

lemma trigger_same: "Events d' = Events d \<Longrightarrow> trigger d' = trigger d"
  by (rule ext) (simp add: trigger_def)

text \<open>Queueing a live notification event, as \<open>CoreNotifyEvent\<close> does.\<close>

definition notify_db :: "IEVENT \<Rightarrow> eid \<Rightarrow> event_db \<Rightarrow> event_db" where
  "notify_db ev e d = enqueue (NotifyTpl ev) e (unqueue e d)"

lemma notify_db_simps [simp]:
  "Events (notify_db ev e d) = Events d"
  "gEventSignalQueue (notify_db ev e d) = gEventSignalQueue d"
  "mEfiTimerList (notify_db ev e d) = mEfiTimerList d"
  "gRuntimeEventHead (notify_db ev e d) = gRuntimeEventHead d"
  "gEventPending (notify_db ev e d) = gEventPending d OR pending_bit (NotifyTpl ev)"
  by (simp_all add: notify_db_def)

lemma set_notify_db:
  "set (gEventQueue (notify_db ev e d) p) =
     (if p = NotifyTpl ev then insert e (set (gEventQueue d p)) else set (gEventQueue d p) - {e})"
  by (auto simp: notify_db_def)

lemma pending_inv_notify:
  assumes "pending_inv d" "events_inv d" "Events d e = Some ev" "is_notify ev"
  shows "pending_inv (notify_db ev e d)"
proof -
  have t: "TPL_APPLICATION < NotifyTpl ev" "NotifyTpl ev < TPL_HIGH_LEVEL"
    using assms(2-4) by (auto simp: events_inv_def event_ok_def)
  have "bit (gEventPending d) p" if "removeAll e (gEventQueue d p) \<noteq> []" for p
    using assms(1) that by (cases "gEventQueue d p") (auto simp: pending_inv_def)
  then show ?thesis
    using assms(1) t by (auto simp: pending_inv_def notify_db_def bit_or_iff bit_pending_bit)
qed

lemma queue_inv_notify:
  assumes "queue_inv d" "Events d e = Some ev" "is_notify ev"
  shows "queue_inv (notify_db ev e d)"
  unfolding queue_inv_def
proof (intro conjI allI impI)
  fix p show "distinct (gEventQueue (notify_db ev e d) p)"
    using assms(1) by (simp add: notify_db_def queue_inv_def distinct_removeAll)
next
  fix p x assume "x \<in> set (gEventQueue (notify_db ev e d) p)"
  then show "\<exists>ev'. Events (notify_db ev e d) x = Some ev' \<and> NotifyTpl ev' = p \<and> is_notify ev'"
    using assms by (auto simp: set_notify_db queue_inv_def split: if_splits)
qed

text \<open>
  Between counting a signal and queueing the event the last part of the invariant does not hold for
  that event; \<open>db_inv_but X\<close> makes an exception for the events of \<open>X\<close>.
\<close>

definition db_inv_but :: "eid set \<Rightarrow> event_db \<Rightarrow> bool" where
  "db_inv_but X d \<longleftrightarrow> pending_inv d \<and> events_inv d \<and> queue_inv d \<and> signal_inv d \<and> timer_inv d \<and>
     (\<forall>e ev. e \<notin> X \<and> Events d e = Some ev \<and> is_signal ev \<and> SignalCount ev \<noteq> 0 \<longrightarrow>
        e \<in> set (gEventQueue d (NotifyTpl ev)))"

lemma db_inv_but_empty: "db_inv_but {} d = db_inv d"
  by (auto simp: db_inv_but_def db_inv_def no_lost_signal_def)

lemma db_inv_but_mono: "db_inv_but X d \<Longrightarrow> X \<subseteq> Y \<Longrightarrow> db_inv_but Y d"
  unfolding db_inv_but_def by blast

lemma db_inv_butD:
  "db_inv_but X d \<Longrightarrow> pending_inv d"
  "db_inv_but X d \<Longrightarrow> events_inv d"
  "db_inv_but X d \<Longrightarrow> queue_inv d"
  "db_inv_but X d \<Longrightarrow> signal_inv d"
  "db_inv_but X d \<Longrightarrow> timer_inv d"
  by (simp_all add: db_inv_but_def)

lemma db_inv_but_notify:
  assumes "db_inv_but X d" "Events d e = Some ev" "is_notify ev"
  shows "db_inv_but (X - {e}) (notify_db ev e d)"
proof -
  have "x \<in> set (gEventQueue (notify_db ev e d) (NotifyTpl xe))"
    if "x \<notin> X - {e}" "Events d x = Some xe" "is_signal xe" "SignalCount xe \<noteq> 0" for x xe
  proof (cases "x = e")
    case True
    with that assms(2) show ?thesis by (simp add: set_notify_db)
  next
    case False
    then have "x \<in> set (gEventQueue d (NotifyTpl xe))"
      using that assms(1) unfolding db_inv_but_def by blast
    with False show ?thesis by (auto simp: set_notify_db)
  qed
  then show ?thesis
    using assms pending_inv_notify queue_inv_notify
    by (auto simp: db_inv_but_def events_inv_def signal_inv_def timer_inv_def
        trigger_same [of "notify_db ev e d" d])
qed

text \<open>A change of one event that keeps its type, level, function and trigger time.\<close>

definition same_class :: "(IEVENT \<Rightarrow> IEVENT) \<Rightarrow> bool" where
  "same_class f \<longleftrightarrow> (\<forall>ev. Type (f ev) = Type ev \<and> NotifyTpl (f ev) = NotifyTpl ev \<and>
     NotifyFunction (f ev) = NotifyFunction ev \<and> Signature (f ev) = Signature ev)"

lemma same_class_updates [simp]:
  "same_class (SignalCount_update g)"
  "same_class (TriggerTime_update h)"
  "same_class (Period_update h)"
  "same_class (\<lambda>ev. ev\<lparr>TriggerTime := a, Period := b\<rparr>)"
  by (simp_all add: same_class_def)

lemma same_class_is_notify: "same_class f \<Longrightarrow> is_notify (f ev) = is_notify ev"
  by (simp add: same_class_def is_notify_def)

lemma db_parts_upd_event:
  assumes "same_class f"
  shows "pending_inv (upd_event e f d) = pending_inv d"
    and "events_inv d \<Longrightarrow> events_inv (upd_event e f d)"
    and "queue_inv d \<Longrightarrow> queue_inv (upd_event e f d)"
    and "signal_inv d \<Longrightarrow> signal_inv (upd_event e f d)"
proof -
  have c: "Type (f ev) = Type ev" "NotifyTpl (f ev) = NotifyTpl ev" "Signature (f ev) = Signature ev"
    "NotifyFunction (f ev) = NotifyFunction ev" "is_notify (f ev) = is_notify ev" for ev
    using assms same_class_is_notify by (auto simp: same_class_def)
  show "pending_inv (upd_event e f d) = pending_inv d" by (simp add: pending_inv_def)
  show "events_inv (upd_event e f d)" if "events_inv d"
    using that c by (auto simp: events_inv_def event_ok_def)
  show "queue_inv (upd_event e f d)" if "queue_inv d"
  proof -
    have "\<exists>ev. Events (upd_event e f d) x = Some ev \<and> NotifyTpl ev = p \<and> is_notify ev"
      if x: "x \<in> set (gEventQueue d p)" for x p
    proof -
      obtain ev where "Events d x = Some ev" "NotifyTpl ev = p" "is_notify ev"
        using \<open>queue_inv d\<close> x unfolding queue_inv_def by blast
      then show ?thesis using c by (cases "x = e") auto
    qed
    with that show ?thesis by (simp add: queue_inv_def)
  qed
  show "signal_inv (upd_event e f d)" if "signal_inv d"
  proof -
    have "(\<exists>ev. Events (upd_event e f d) x = Some ev \<and> is_signal ev) \<longleftrightarrow>
        (\<exists>ev. Events d x = Some ev \<and> is_signal ev)" for x
      using c(1) by (cases "Events d x") auto
    moreover have "(\<exists>ev. Events (upd_event e f d) x = Some ev \<and> Type ev AND EVT_RUNTIME \<noteq> 0) \<longleftrightarrow>
        (\<exists>ev. Events d x = Some ev \<and> Type ev AND EVT_RUNTIME \<noteq> 0)" for x
      using c(1) by (cases "Events d x") auto
    ultimately show ?thesis using that unfolding signal_inv_def upd_event_simps by simp
  qed
qed

lemma timer_inv_upd_event:
  assumes "timer_inv d" "\<And>ev. TriggerTime (f ev) = TriggerTime ev \<or> e \<notin> set (mEfiTimerList d)"
    and "same_class f"
  shows "timer_inv (upd_event e f d)"
proof -
  have t: "trigger (upd_event e f d) x = trigger d x" if "x \<in> set (mEfiTimerList d)" for x
    using assms(2) that by (auto simp: trigger_def split: option.split)
  have eq: "map (trigger (upd_event e f d)) (mEfiTimerList d) = map (trigger d) (mEfiTimerList d)"
    using t by (rule map_cong [OF refl])
  show ?thesis
    unfolding timer_inv_def upd_event_simps eq using assms(1,3)
    by (auto simp: timer_inv_def same_class_def)
qed

lemma db_inv_but_count:
  assumes "db_inv_but X d"
  shows "db_inv_but (insert e X) (upd_event e (SignalCount_update f) d)"
  using assms db_parts_upd_event [where f = "SignalCount_update f" and e = e and d = d]
    timer_inv_upd_event [where f = "SignalCount_update f" and e = e and d = d]
  by (auto simp: db_inv_but_def split: if_splits)

lemma db_inv_but_drop:
  "db_inv_but X d \<Longrightarrow> Events d e = Some ev \<Longrightarrow> \<not> is_signal ev \<or> SignalCount ev = 0 \<Longrightarrow>
   db_inv_but (X - {e}) d"
  unfolding db_inv_but_def by (metis Diff_iff option.inject singletonD)

subsection \<open>Signalling\<close>

lemma CoreNotifyEvent_run:
  "CoreNotifyEvent P e s = Some t \<Longrightarrow>
   \<exists>ev. Events (Db s) e = Some ev \<and> t = upd_db (notify_db ev e) s"
  by (auto simp: CoreNotifyEvent_def bind_eq_Some_conv ievent_Some notify_db_def [abs_def])

lemma is_signal_notify: "is_signal ev \<Longrightarrow> is_notify ev"
proof -
  assume "is_signal ev"
  then obtain k where k: "bit (Type ev AND EVT_NOTIFY_SIGNAL) k"
    using low_pos_bit by blast
  show ?thesis
    unfolding is_notify_def
  proof
    assume "Type ev AND (EVT_NOTIFY_WAIT OR EVT_NOTIFY_SIGNAL) = 0"
    then have "\<not> bit (Type ev AND (EVT_NOTIFY_WAIT OR EVT_NOTIFY_SIGNAL)) k" by (simp only: bit_0_eq bot_apply bot_bool_def not_False_eq_True)
    with k show False by (simp only: bit_and_iff bit_or_iff) simp
  qed
qed

lemma upd_db_comp: "upd_db f (upd_db g s) = upd_db (f \<circ> g) s"
  by (simp add: upd_db_def)

lemma notify_signal_loop_run:
  assumes "notify_signal_loop P g es s = Some t" "db_inv_but X (Db s)"
    and "set es \<subseteq> set (gEventSignalQueue (Db s))"
  shows "\<exists>f. t = upd_db f s \<and> Events (f (Db s)) = Events (Db s) \<and>
    gEventSignalQueue (f (Db s)) = gEventSignalQueue (Db s) \<and>
    db_inv_but (X - {e \<in> set es. \<exists>ev. Events (Db s) e = Some ev \<and> EventGroup ev = g}) (f (Db s))"
  using assms
proof (induction es arbitrary: s X)
  case Nil
  then show ?case by (auto simp: upd_db_def intro!: exI [of _ id])
next
  case (Cons e es)
  obtain ev s1 where ev: "Events (Db s) e = Some ev"
    and s1: "(if EventGroup ev = g then CoreNotifyEvent P e s else Some s) = Some s1"
    and rest: "notify_signal_loop P g es s1 = Some t"
    using Cons.prems(1) by (auto simp: bind_eq_Some_conv ievent_Some)
  have sig: "is_signal ev"
    using Cons.prems(2,3) ev by (auto simp: db_inv_but_def signal_inv_def)
  define Y where "Y = (if EventGroup ev = g then X - {e} else X)"
  obtain h where h: "s1 = upd_db h s" "Events (h (Db s)) = Events (Db s)"
      "gEventSignalQueue (h (Db s)) = gEventSignalQueue (Db s)" "db_inv_but Y (h (Db s))"
  proof (cases "EventGroup ev = g")
    case True
    with s1 have "CoreNotifyEvent P e s = Some s1" by simp
    from CoreNotifyEvent_run [OF this] ev have "s1 = upd_db (notify_db ev e) s" by auto
    moreover have "db_inv_but (X - {e}) (notify_db ev e (Db s))"
      by (rule db_inv_but_notify [OF Cons.prems(2) ev is_signal_notify [OF sig]])
    ultimately show ?thesis using that [of "notify_db ev e"] True by (simp add: Y_def)
  next
    case False
    with s1 Cons.prems(2) show ?thesis using that [of id] by (simp add: Y_def upd_db_def)
  qed
  obtain f where f: "t = upd_db f s1" "Events (f (Db s1)) = Events (Db s1)"
      "gEventSignalQueue (f (Db s1)) = gEventSignalQueue (Db s1)"
      "db_inv_but (Y - {e \<in> set es. \<exists>ev. Events (Db s1) e = Some ev \<and> EventGroup ev = g}) (f (Db s1))"
    using Cons.IH [OF rest, of Y] h Cons.prems(3) by auto
  show ?case
  proof (intro exI [of _ "\<lambda>d. f (h d)"] conjI)
    show "db_inv_but (X - {x \<in> set (e # es). \<exists>ev. Events (Db s) x = Some ev \<and> EventGroup ev = g})
        (f (h (Db s)))"
      using f(4) h ev by (auto simp: Y_def split: if_splits elim: db_inv_but_mono)
  qed (use f h in \<open>simp_all add: upd_db_comp o_def\<close>)
qed

text \<open>
  The last release of a service: the invariant holds again, and where nothing above the caller's
  level can be pending the database is left as it is.
\<close>

lemma db_inv_pending: "db_inv d \<Longrightarrow> pending_inv d"
  by (simp add: db_inv_def)

lemma lock_tpl_high: "l \<noteq> gProtocolDatabaseLock \<Longrightarrow> TPL_HIGH_LEVEL - 1 \<le> lock_tpl l"
  by (cases l) auto

lemma CoreReleaseLock_done:
  assumes "CoreReleaseLock P R l t = Some u" "Asserts P" "restore_ok R" "locked l s t"
    and "db_inv (Db t)" "l \<noteq> gProtocolDatabaseLock"
  shows "keeps s u \<and> (TPL_HIGH_LEVEL - 1 \<le> gEfiCurrentTpl s \<longrightarrow> Db u = Db t)"
proof -
  have "quiet (lock_tpl l) (Db t)"
    using pending_high [OF db_inv_pending [OF assms(5)] lock_tpl_high [OF assms(6)]] .
  then have "keeps s u" by (rule CoreReleaseLock_keeps [OF assms(1-5)])
  moreover have "Db u = Db t" if "TPL_HIGH_LEVEL - 1 \<le> gEfiCurrentTpl s"
    using CoreReleaseLock_quiet(2) [OF assms(1-4) db_inv_pending [OF assms(5)]]
      pending_high [OF db_inv_pending [OF assms(5)] that] by blast
  ultimately show ?thesis by blast
qed

text \<open>What signalling leaves of the database when no notification is dispatched.\<close>

definition signal_frame :: "event_db \<Rightarrow> event_db \<Rightarrow> bool" where
  "signal_frame d d' \<longleftrightarrow> mEfiTimerList d' = mEfiTimerList d \<and> mEfiSystemTime d' = mEfiSystemTime d \<and>
     mEfiCheckTimerEvent d' = mEfiCheckTimerEvent d \<and>
     (\<forall>x. map_option (SignalCount_update (\<lambda>_. 0)) (Events d' x) =
        map_option (SignalCount_update (\<lambda>_. 0)) (Events d x))"

lemma signal_frame_refl [simp]: "signal_frame d d"
  by (simp add: signal_frame_def)

lemma signal_frame_trans [trans]: "signal_frame a b \<Longrightarrow> signal_frame b c \<Longrightarrow> signal_frame a c"
  by (simp add: signal_frame_def)

lemma signal_frame_upd:
  "signal_frame d (upd_event e (SignalCount_update f) d)"
  by (auto simp: signal_frame_def upd_event_def option.map_comp o_def)

lemma signal_frame_notify [simp]: "signal_frame d (notify_db ev e d)"
  by (simp add: signal_frame_def notify_db_def enqueue_def unqueue_def)

lemma notify_signal_loop_frame:
  "notify_signal_loop P g es s = Some t \<Longrightarrow> signal_frame (Db s) (Db t)"
proof (induction es arbitrary: s)
  case Nil
  then show ?case by simp
next
  case (Cons e es)
  then obtain ev :: IEVENT and s1 where
    s1: "(if EventGroup ev = g then CoreNotifyEvent P e s else Some s) = Some s1"
    and rest: "notify_signal_loop P g es s1 = Some t"
    by (simp only: notify_signal_loop.simps bind_eq_Some_conv) blast
  have "signal_frame (Db s) (Db s1)"
    using s1 CoreNotifyEvent_run [of P e s s1] by (auto split: if_splits)
  also have "signal_frame (Db s1) (Db t)" using rest by (rule Cons.IH)
  finally show ?case .
qed

lemma CoreNotifySignalList_keeps:
  assumes A: "Asserts P" and R: "restore_ok R" and L: "lock_inv s" and I: "db_inv_but X (Db s)"
    and X: "\<And>e. e \<in> X \<Longrightarrow> \<exists>ev. Events (Db s) e = Some ev \<and> is_signal ev \<and> EventGroup ev = g"
    and run: "CoreNotifySignalList P R g s = Some u"
  shows "keeps s u \<and> (TPL_HIGH_LEVEL - 1 \<le> gEfiCurrentTpl s \<longrightarrow> signal_frame (Db s) (Db u))"
proof -
  obtain t1 t2 where t1: "CoreAcquireLock P gEventQueueLock s = Some t1"
    and t2: "notify_signal_loop P g (gEventSignalQueue (Db t1)) t1 = Some t2"
    and u: "CoreReleaseLock P R gEventQueueLock t2 = Some u"
    using run by (auto simp: CoreNotifySignalList_def event_lock_defs bind_eq_Some_conv)
  note lk = CoreAcquireLock_locked [OF t1 A L]
  obtain f where f: "t2 = upd_db f t1" "db_inv_but (X - {e \<in> set (gEventSignalQueue (Db t1)).
      \<exists>ev. Events (Db t1) e = Some ev \<and> EventGroup ev = g}) (f (Db t1))"
    using notify_signal_loop_run [OF t2, of X] I lk by auto
  have "X \<subseteq> {e \<in> set (gEventSignalQueue (Db t1)). \<exists>ev. Events (Db t1) e = Some ev \<and> EventGroup ev = g}"
    using X I lk(2) unfolding db_inv_but_def signal_inv_def by fastforce
  with f(2) have "db_inv (Db t2)" unfolding f(1) db_inv_but_empty [symmetric]
    by (auto elim: db_inv_but_mono)
  moreover have "locked gEventQueueLock s t2" using lk f(1) by simp
  ultimately show ?thesis
    using CoreReleaseLock_done [OF u A R] notify_signal_loop_frame [OF t2] lk(2) by auto
qed

lemma Events_count:
  "Events d e = Some ev \<Longrightarrow>
   Events (upd_event e (SignalCount_update f) d) e = Some (ev\<lparr>SignalCount := f (SignalCount ev)\<rparr>)"
  by simp

lemma is_notify_count [simp]: "is_notify (SignalCount_update f ev) = is_notify ev"
  by (simp add: is_notify_def)

lemma CoreSignalEvent_keeps:
  assumes A: "Asserts P" and R: "restore_ok R" and I: "dxe_inv s"
    and run: "CoreSignalEvent P R e s = Some (st, u)"
  shows "keeps s u \<and> (TPL_HIGH_LEVEL - 1 \<le> gEfiCurrentTpl s \<longrightarrow> signal_frame (Db s) (Db u))"
proof (cases "u = s")
  case True
  with I show ?thesis by (simp add: keeps_refl)
next
  case False
  have D: "db_inv (Db s)" and L: "lock_inv s" using I by (simp_all add: dxe_inv_def)
  define inc :: "event_db \<Rightarrow> event_db" where
    "inc = upd_event e (SignalCount_update (\<lambda>c. c + 1))"
  obtain ev t v where ev: "Events (Db s) e = Some ev"
    and t: "CoreAcquireLock P gEventQueueLock s = Some t"
    and v: "signal_section P R e ev t = Some v"
    and u: "CoreReleaseLock P R gEventQueueLock v = Some u"
    using run False
    by (auto simp: CoreSignalEvent_def bind_eq_Some_conv ievent_Some event_lock_defs
        split: if_splits)
  note lk = CoreAcquireLock_locked [OF t A L]
  have ev': "Events (inc (Db s)) e = Some (ev\<lparr>SignalCount := SignalCount ev + 1\<rparr>)"
    using ev by (simp add: inc_def)
  have I1: "db_inv_but {e} (inc (Db s))"
    using db_inv_but_count [of "{}" "Db s" e] D by (simp add: inc_def db_inv_but_empty)
  have fr: "signal_frame (Db s) (inc (Db s))" by (simp add: inc_def signal_frame_upd)
  have finish: ?thesis if "locked gEventQueueLock s v" "db_inv (Db v)" "signal_frame (Db s) (Db v)"
    using CoreReleaseLock_done [OF u A R that(1,2)] that(3) by auto
  consider "SignalCount ev \<noteq> 0" | "\<not> is_signal ev" "v = upd_db inc t"
    | "is_signal ev" "\<not> ExFlag ev" "CoreNotifyEvent P e (upd_db inc t) = Some v"
    | "SignalCount ev = 0" "is_signal ev" "ExFlag ev"
    using v by (auto simp: signal_section_def Let_def inc_def split: if_splits)
  then show ?thesis
  proof cases
    case 1
    with v lk D show ?thesis by (intro finish) (auto simp: signal_section_def)
  next
    case 2
    then have "db_inv (inc (Db s))"
      using db_inv_but_drop [OF I1 ev'] by (simp add: db_inv_but_empty)
    with 2 lk fr show ?thesis by (intro finish) auto
  next
    case 3
    from CoreNotifyEvent_run [OF 3(3)] lk(2) ev'
    have v': "v = upd_db (notify_db (ev\<lparr>SignalCount := SignalCount ev + 1\<rparr>) e) (upd_db inc t)" by auto
    have "is_notify (ev\<lparr>SignalCount := SignalCount ev + 1\<rparr>)"
      using is_signal_notify [OF 3(1)] by simp
    from db_inv_but_notify [OF I1 ev' this] have "db_inv (Db v)"
      using v' lk(2) by (simp add: db_inv_but_empty)
    with v' lk fr show ?thesis by (intro finish) (auto intro: signal_frame_trans)
  next
    case 4
    then obtain a ea b where a: "CoreReleaseLock P R gEventQueueLock (upd_db inc t) = Some a"
      and ea: "ievent a e = Some ea" and b: "CoreNotifySignalList P R (EventGroup ea) a = Some b"
      and v4: "CoreAcquireLock P gEventQueueLock b = Some v"
      using v by (auto simp: signal_section_def Let_def inc_def event_lock_defs bind_eq_Some_conv)
    have lk1: "locked gEventQueueLock s (upd_db inc t)" using lk by simp
    have pq: "pending_inv (Db (upd_db inc t))" "quiet (gEfiCurrentTpl s) (Db (upd_db inc t))"
      using D L lk(2) by (simp_all add: inc_def db_inv_def db_parts_upd_event lock_inv_def quiet_def)
    note qa = CoreReleaseLock_quiet [OF a A R lk1 pq]
    have Da: "Db a = inc (Db s)" using qa(2) lk(2) by simp
    have kb: "keeps a b \<and> (TPL_HIGH_LEVEL - 1 \<le> gEfiCurrentTpl a \<longrightarrow> signal_frame (Db a) (Db b))"
    proof (rule CoreNotifySignalList_keeps [OF A R qa(5) _ _ b])
      show "db_inv_but {e} (Db a)" using I1 Da by simp
      show "\<exists>ev. Events (Db a) x = Some ev \<and> is_signal ev \<and> EventGroup ev = EventGroup ea" if "x \<in> {e}" for x
        using that ea ev' Da 4(2) by (auto simp: ievent_Some)
    qed
    have ib: "dxe_inv b" using kb keeps_inv by blast
    have Lb: "lock_inv b" using ib by (simp add: dxe_inv_def)
    note lkb = CoreAcquireLock_locked [OF v4 A Lb]
    have ku: "keeps b u \<and> (TPL_HIGH_LEVEL - 1 \<le> gEfiCurrentTpl b \<longrightarrow> Db u = Db v)"
      using CoreReleaseLock_done [OF u A R lkb(1)] lkb(2) ib by (simp add: dxe_inv_def)
    have "keeps a u" using kb ku by (auto intro: keeps_trans)
    then have "keeps s u" using qa(1,4) by (auto simp: keeps_def intro: same_locks_trans)
    moreover have "signal_frame (Db s) (Db u)" if "TPL_HIGH_LEVEL - 1 \<le> gEfiCurrentTpl s"
      using that fr Da kb ku qa(1) lkb(2) by (auto simp: keeps_def intro: signal_frame_trans)
    ultimately show ?thesis by blast
  qed
qed

lemma Type_bits_notify:
  assumes "Type ev AND m \<noteq> 0" "\<And>k. bit m k \<Longrightarrow> bit (EVT_NOTIFY_WAIT OR EVT_NOTIFY_SIGNAL) k"
  shows "is_notify ev"
proof -
  obtain k where k: "bit (Type ev AND m) k" using assms(1) low_pos_bit by blast
  show ?thesis
    unfolding is_notify_def
  proof
    assume "Type ev AND (EVT_NOTIFY_WAIT OR EVT_NOTIFY_SIGNAL) = 0"
    then have "\<not> bit (Type ev AND (EVT_NOTIFY_WAIT OR EVT_NOTIFY_SIGNAL)) k"
      by (simp only: bit_0_eq bot_apply bot_bool_def not_False_eq_True)
    with k assms(2) show False by (simp only: bit_and_iff) simp
  qed
qed

lemma is_wait_notify: "Type ev AND EVT_NOTIFY_WAIT \<noteq> 0 \<Longrightarrow> is_notify ev"
  by (erule Type_bits_notify) (simp only: bit_or_iff simp_thms)

lemma db_inv_notify:
  "db_inv d \<Longrightarrow> Events d e = Some ev \<Longrightarrow> is_notify ev \<Longrightarrow> db_inv (notify_db ev e d)"
  using db_inv_but_notify [of "{}" d e ev] by (simp add: db_inv_but_empty)

lemma db_inv_clear_count:
  assumes "db_inv d"
  shows "db_inv (upd_event e (SignalCount_update (\<lambda>_. 0)) d)"
proof (cases "Events d e")
  case None
  then have "upd_event e (SignalCount_update (\<lambda>_. 0)) d = d"
    by (simp add: upd_event_def fun_upd_idem)
  with assms show ?thesis by simp
next
  case (Some ev)
  have "db_inv_but {e} (upd_event e (SignalCount_update (\<lambda>_. 0)) d)"
    using db_inv_but_count [of "{}" d e "\<lambda>_. 0"] assms by (simp add: db_inv_but_empty)
  from db_inv_but_drop [OF this, of e "ev\<lparr>SignalCount := 0\<rparr>"] Some show ?thesis
    by (simp add: db_inv_but_empty)
qed

lemma dxe_invD: "dxe_inv s \<Longrightarrow> db_inv (Db s)" "dxe_inv s \<Longrightarrow> lock_inv s"
  by (simp_all add: dxe_inv_def)

text \<open>A critical section of the event lock around a change of the database.\<close>

lemma event_section:
  assumes A: "Asserts P" and R: "restore_ok R" and I: "dxe_inv s"
    and t: "CoreAcquireEventLock P s = Some t" and u: "CoreReleaseEventLock P R (upd_db f t) = Some u"
    and f: "db_inv (f (Db s))"
  shows "keeps s u"
proof -
  note lk = CoreAcquireLock_locked [OF t [unfolded event_lock_defs] A dxe_invD(2) [OF I]]
  have "locked gEventQueueLock s (upd_db f t)" "db_inv (Db (upd_db f t))" using lk f by simp_all
  from CoreReleaseLock_done [OF u [unfolded event_lock_defs] A R this] show ?thesis by simp
qed

lemma upd_db_id [simp]: "upd_db (\<lambda>d. d) s = s" "upd_db id s = s"
  by (simp_all add: upd_db_def)

lemma queue_wait_notify_keeps:
  assumes A: "Asserts P" and R: "restore_ok R" and I: "dxe_inv s"
    and ev: "Events (Db s) e = Some ev" and run: "queue_wait_notify P R e ev s = Some v"
  shows "keeps s v"
proof (cases "SignalCount ev = 0 \<and> Type ev AND EVT_NOTIFY_WAIT \<noteq> 0")
  case False
  with run I show ?thesis by (auto simp: queue_wait_notify_def intro: keeps_refl)
next
  case True
  with run obtain t ev' t' where t: "CoreAcquireEventLock P s = Some t"
    and ev': "ievent t e = Some ev'"
    and t': "(if SignalCount ev' = 0 then CoreNotifyEvent P e t else Some t) = Some t'"
    and v: "CoreReleaseEventLock P R t' = Some v"
    by (simp add: queue_wait_notify_def bind_eq_Some_conv) blast
  have "Db t = Db s"
    using CoreAcquireLock_locked(2) [OF t [unfolded event_lock_defs] A dxe_invD(2) [OF I]] .
  then have "ev' = ev" using ev ev' by (simp add: ievent_Some)
  then have t'': "t' = upd_db (notify_db ev e) t"
    using t' True CoreNotifyEvent_run [of P e t t'] ev \<open>Db t = Db s\<close> by auto
  have "db_inv (notify_db ev e (Db s))"
    using db_inv_notify [OF dxe_invD(1) [OF I] ev is_wait_notify] True by blast
  from event_section [OF A R I t v [unfolded t''] this] show ?thesis .
qed

lemma take_signal_keeps:
  assumes A: "Asserts P" and R: "restore_ok R" and I: "dxe_inv s"
    and run: "take_signal P R e s = Some (st, u)"
  shows "keeps s u"
proof (cases "u = s")
  case True
  with I show ?thesis by (simp add: keeps_refl)
next
  case False
  with run obtain t w where t: "CoreAcquireEventLock P s = Some t"
    and w: "w = upd_db id t \<or> w = upd_db (upd_event e (SignalCount_update (\<lambda>_. 0))) t"
    and u: "CoreReleaseEventLock P R w = Some u"
    by (auto simp: take_signal_def bind_eq_Some_conv split: if_splits)
  then show ?thesis
    using event_section [OF A R I t, of id] event_section [OF A R I t] dxe_invD(1) [OF I]
      db_inv_clear_count by auto
qed

lemma CoreCheckEvent_keeps:
  assumes A: "Asserts P" and R: "restore_ok R" and I: "dxe_inv s"
    and run: "CoreCheckEvent P R e s = Some (st, u)"
  shows "keeps s u"
proof (cases "u = s")
  case True
  with I show ?thesis by (simp add: keeps_refl)
next
  case False
  with run obtain ev v where "Events (Db s) e = Some ev" "queue_wait_notify P R e ev s = Some v"
    and u: "take_signal P R e v = Some (st, u)"
    by (auto simp: CoreCheckEvent_def bind_eq_Some_conv ievent_Some split: if_splits)
  then have sv: "keeps s v" using queue_wait_notify_keeps [OF A R I] by blast
  also have "keeps v u" by (rule take_signal_keeps [OF A R keeps_inv [OF sv] u])
  finally show ?thesis .
qed

subsection \<open>Creating events\<close>

text \<open>A section of a lock where the database is the same as before it, up to a change that does not
  concern what is pending.\<close>

lemma install_event_keeps:
  assumes A: "Asserts P" and R: "restore_ok R" and I: "dxe_inv s"
    and fresh: "Events (Db s) pool = None" and ok: "event_ok pool ev" "SignalCount ev = 0"
    and run: "install_event P R pool ev s = Some (st, r, u)"
  shows "keeps s u"
proof -
  define f :: "event_db \<Rightarrow> event_db" where "f d =
     (let d = d\<lparr>Events := (Events d)(pool \<mapsto> ev)\<rparr>
      in if Type ev AND EVT_RUNTIME \<noteq> 0
         then d\<lparr>gRuntimeEventHead := gRuntimeEventHead d @ [pool]\<rparr> else d)" for d
  define g :: "event_db \<Rightarrow> event_db" where "g d =
     (if is_signal ev then d\<lparr>gEventSignalQueue := pool # gEventSignalQueue d\<rparr> else d)" for d
  obtain t where t: "CoreAcquireLock P gEventQueueLock (upd_db f s) = Some t"
    and u: "CoreReleaseLock P R gEventQueueLock (upd_db g t) = Some u"
    using run by (auto simp: install_event_def bind_eq_Some_conv event_lock_defs f_def g_def
        upd_db_def Let_def split: if_splits)
  have f_simps: "gEventQueue (f d) = gEventQueue d" "gEventPending (f d) = gEventPending d"
    "gEventSignalQueue (f d) = gEventSignalQueue d" "mEfiTimerList (f d) = mEfiTimerList d"
    "gRuntimeEventHead (f d) =
      (if Type ev AND EVT_RUNTIME \<noteq> 0 then gRuntimeEventHead d @ [pool] else gRuntimeEventHead d)"
    "Events (f d) = (Events d)(pool \<mapsto> ev)" for d by (simp_all add: f_def Let_def)
  have g_simps: "gEventQueue (g d) = gEventQueue d" "gEventPending (g d) = gEventPending d"
    "gEventSignalQueue (g d) = (if is_signal ev then pool # gEventSignalQueue d else gEventSignalQueue d)"
    "mEfiTimerList (g d) = mEfiTimerList d" "gRuntimeEventHead (g d) = gRuntimeEventHead d" "Events (g d) = Events d" for d by (simp_all add: g_def)
  have L: "lock_inv (upd_db f s)"
    using dxe_invD(2) [OF I] by (simp add: lock_inv_def held_def quiet_def f_simps)
  note lk = CoreAcquireLock_locked [OF t A L]
  have D: "db_inv (Db s)" by (rule dxe_invD(1) [OF I])
  have notin: "pool \<notin> set (gEventQueue (Db s) p)" "pool \<notin> set (mEfiTimerList (Db s))"
    "pool \<notin> set (gEventSignalQueue (Db s))" "pool \<notin> set (gRuntimeEventHead (Db s))" for p
    using D fresh unfolding db_inv_defs by (metis option.distinct(1))+
  have trig: "map (trigger (g (f (Db s)))) (mEfiTimerList (Db s)) = map (trigger (Db s)) (mEfiTimerList (Db s))"
    using notin(2) by (intro map_cong refl) (auto simp: trigger_def g_simps f_simps)
  have "db_inv (g (f (Db s)))"
  proof -
    have "pending_inv (g (f (Db s)))" using D by (simp add: db_inv_def pending_inv_def g_simps f_simps)
    moreover have "events_inv (g (f (Db s)))"
      using D ok by (simp add: db_inv_def events_inv_def g_simps f_simps)
    moreover have "queue_inv (g (f (Db s)))"
      using D notin(1) by (auto simp: db_inv_def queue_inv_def g_simps f_simps)
    moreover have "signal_inv (g (f (Db s)))"
      using D notin(3,4) by (auto simp: db_inv_def signal_inv_def g_simps f_simps)
    moreover have "no_lost_signal (g (f (Db s)))"
      using D ok(2) by (auto simp: db_inv_def no_lost_signal_def g_simps f_simps)
    moreover have "timer_inv (g (f (Db s)))"
      using D notin(2) trig by (auto simp: db_inv_def timer_inv_def g_simps f_simps simp del: map_eq_conv)
    ultimately show ?thesis by (simp add: db_inv_def)
  qed
  then have "keeps (upd_db f s) u"
    using CoreReleaseLock_done [OF u A R] lk by simp
  then show ?thesis by (simp add: keeps_def same_locks_def held_def)
qed

lemma new_event_ok:
  assumes "new_event EType NTpl NF NC G = Inr ev" "pool \<noteq> 0"
  shows "event_ok pool ev" "SignalCount ev = 0"
  using assms
  by (auto simp: new_event_def Let_def event_ok_def is_notify_def zero_event_def
      split: if_splits option.splits)

lemma CoreCreateEventEx_keeps:
  assumes A: "Asserts P" and R: "restore_ok R" and I: "dxe_inv s"
    and fresh: "Events (Db s) pool = None"
    and run: "CoreCreateEventEx P R pool EType NTpl NF NC G Ptr s = Some (st, r, u)"
  shows "keeps s u"
proof (cases "u = s")
  case True
  with I show ?thesis by (simp add: keeps_refl)
next
  case False
  with run obtain ev where ev: "new_event EType NTpl NF NC G = Inr ev" "pool \<noteq> 0"
    and i: "install_event P R pool ev s = Some (st, r, u)"
    by (auto simp: CoreCreateEventEx_def split: if_splits sum.splits)
  from install_event_keeps [OF A R I fresh new_event_ok [OF ev] i] show ?thesis .
qed

end
