(* ===== verification/EventTimer.thy ===== *)
theory EventTimer
  imports EventInv
begin

unbundle bit_operations_syntax

section \<open>Timer services and closing of events keep the invariant\<close>

text \<open>
  Sorted insertion into the timer list, the services of \<^verbatim>\<open>Event/Timer.c\<close>, and \<open>CoreCloseEvent\<close>, which
  cancels a timer and frees the event.
\<close>

subsection \<open>Changes of the timer list\<close>

lemma db_inv_timer_list:
  assumes "db_inv d" "timer_inv (d\<lparr>mEfiTimerList := l\<rparr>)"
  shows "db_inv (d\<lparr>mEfiTimerList := l\<rparr>)"
  using assms by (simp add: db_inv_defs)

lemma trigger_timer_list [simp]: "trigger (d\<lparr>mEfiTimerList := l\<rparr>) = trigger d"
  by (rule ext) (simp add: trigger_def)

lemma timer_inv_removeAll:
  assumes "timer_inv d"
  shows "timer_inv (d\<lparr>mEfiTimerList := removeAll e (mEfiTimerList d)\<rparr>)"
proof -
  have "sorted (map (trigger d) (removeAll e (mEfiTimerList d)))"
    using assms unfolding timer_inv_def removeAll_filter_not_eq
    by (metis sorted_filter)
  then show ?thesis using assms by (auto simp: timer_inv_def distinct_removeAll)
qed

lemma timer_inv_tl:
  assumes "timer_inv d"
  shows "timer_inv (d\<lparr>mEfiTimerList := tl (mEfiTimerList d)\<rparr>)"
proof (cases "mEfiTimerList d")
  case Nil
  with assms show ?thesis by (simp add: timer_inv_def)
next
  case (Cons x xs)
  with assms show ?thesis by (simp add: timer_inv_def)
qed

lemma db_inv_timer: "db_inv d \<Longrightarrow> timer_inv d"
  by (simp add: db_inv_def)

text \<open>A change of the timer fields of an event that is not on the timer list.\<close>

lemma db_inv_upd_time:
  assumes "db_inv d" "e \<notin> set (mEfiTimerList d)" "same_class f"
    and "\<And>ev. SignalCount (f ev) = SignalCount ev"
  shows "db_inv (upd_event e f d)"
proof -
  have "no_lost_signal (upd_event e f d)"
    using assms unfolding no_lost_signal_def db_inv_def same_class_def
    by (auto split: if_splits)
  moreover have "timer_inv (upd_event e f d)"
    using timer_inv_upd_event [of d f e] assms by (simp add: db_inv_def)
  ultimately show ?thesis
    using assms(1) db_parts_upd_event [OF assms(3), where e = e and d = d] by (simp add: db_inv_def)
qed

lemma timer_insert_run:
  assumes "timer_insert (Events d) t e xs = Some l" "sorted (map (trigger d) xs)" "trigger d e = t"
  shows "sorted (map (trigger d) l) \<and> set l = insert e (set xs) \<and> (distinct (e # xs) \<longrightarrow> distinct l)"
  using assms
proof (induction xs arbitrary: l)
  case Nil
  then show ?case by auto
next
  case (Cons x xs)
  then obtain ev where ev: "Events d x = Some ev" by (auto simp: bind_eq_Some_conv)
  then have tx: "trigger d x = TriggerTime ev" by (simp add: trigger_def)
  show ?case
  proof (cases "TriggerTime ev > t")
    case True
    with Cons.prems ev have "l = e # x # xs" by simp
    with Cons.prems True tx show ?thesis by (auto intro: order_trans less_imp_le)
  next
    case False
    with Cons.prems ev obtain l' where l': "timer_insert (Events d) t e xs = Some l'" "l = x # l'"
      by auto
    with Cons.IH [OF l'(1)] Cons.prems False tx show ?thesis by auto
  qed
qed

lemma timer_insert_returns:
  "(\<And>x. x \<in> set xs \<Longrightarrow> Events d x \<noteq> None) \<Longrightarrow> \<exists>l. timer_insert (Events d) t e xs = Some l"
  by (induction xs) fastforce+

subsection \<open>Services in the critical section of the timer lock\<close>

text \<open>Reading the system time changes no more than the interrupt flag and the owner of a free lock.\<close>

lemma CoreCurrentSystemTime_run:
  assumes A: "Asserts P" and R: "restore_ok R" and L: "lock_inv s" and p: "pending_inv (Db s)"
    and run: "CoreCurrentSystemTime P R s = Some (now, u)"
  shows "now = mEfiSystemTime (Db s)" "Db u = Db s" "Ctx u = Ctx s"
    "gEfiCurrentTpl u = gEfiCurrentTpl s" "same_locks s u" "lock_inv u"
proof -
  obtain t where t: "CoreAcquireLock P mEfiSystemTimeLock s = Some t" and now: "now = mEfiSystemTime (Db t)"
    and u: "CoreReleaseLock P R mEfiSystemTimeLock t = Some u"
    using run by (auto simp: CoreCurrentSystemTime_def bind_eq_Some_conv Let_def)
  note lk = CoreAcquireLock_locked [OF t A L]
  have q: "quiet (gEfiCurrentTpl s) (Db t)" using L lk(2) by (simp add: lock_inv_def)
  have pt: "pending_inv (Db t)" using p lk(2) by simp
  note r = CoreReleaseLock_quiet [OF u A R lk(1) pt q]
  show "now = mEfiSystemTime (Db s)" using now lk(2) by simp
  show "Db u = Db s" "Ctx u = Ctx s" "gEfiCurrentTpl u = gEfiCurrentTpl s" "same_locks s u" "lock_inv u"
    using r lk by simp_all
qed

lemma CoreInsertEventTimer_keeps:
  assumes I: "dxe_inv s" and e: "e \<notin> set (mEfiTimerList (Db s))"
    and ty: "\<And>ev. Events (Db s) e = Some ev \<Longrightarrow> Type ev AND EVT_TIMER \<noteq> 0"
    and run: "CoreInsertEventTimer P e s = Some u"
  shows "keeps s u \<and> (\<exists>l. Db u = (Db s)\<lparr>mEfiTimerList := l\<rparr> \<and> set l = insert e (set (mEfiTimerList (Db s))))"
proof -
  obtain ev l where ev: "Events (Db s) e = Some ev"
    and l: "timer_insert (Events (Db s)) (TriggerTime ev) e (mEfiTimerList (Db s)) = Some l"
    and u: "u = upd_db (\<lambda>d. d\<lparr>mEfiTimerList := l\<rparr>) s"
    using run by (auto simp: CoreInsertEventTimer_def bind_eq_Some_conv ievent_Some)
  have D: "db_inv (Db s)" by (rule dxe_invD(1) [OF I])
  have r: "sorted (map (trigger (Db s)) l) \<and> set l = insert e (set (mEfiTimerList (Db s))) \<and> distinct l"
    using timer_insert_run [OF l] ev e D by (simp add: trigger_def db_inv_def timer_inv_def)
  have "db_inv ((Db s)\<lparr>mEfiTimerList := l\<rparr>)"
    by (rule db_inv_timer_list [OF D]) (use r D ev ty in \<open>auto simp: db_inv_def timer_inv_def\<close>)
  then have "keeps s u"
    using u I by (simp add: keeps_def dxe_inv_def lock_inv_def same_locks_def held_def quiet_def)
  with u r show ?thesis by auto
qed

lemma dxe_inv_upd_db:
  "dxe_inv s \<Longrightarrow> db_inv (f (Db s)) \<Longrightarrow> gEventPending (f (Db s)) = gEventPending (Db s) \<Longrightarrow>
   keeps s (upd_db f s)"
  by (simp add: keeps_def dxe_inv_def lock_inv_def same_locks_def held_def quiet_def)

text \<open>Inside the section of a lock of high level the whole invariant holds.\<close>

lemma locked_dxe_inv:
  assumes "locked l s t" "db_inv (Db t)" "l \<noteq> gProtocolDatabaseLock"
  shows "dxe_inv t"
proof -
  have "quiet (lock_tpl l) (Db t)"
    using pending_high [OF db_inv_pending [OF assms(2)] lock_tpl_high [OF assms(3)]] .
  then show ?thesis
    using assms(1,2) unfolding dxe_inv_def lock_inv_def locked_def held_def
    by (metis lock_tpl_le order_trans order_refl)
qed

lemma signal_frame_type:
  "signal_frame d d' \<Longrightarrow> Events d' e = Some ev' \<Longrightarrow> \<exists>ev. Events d e = Some ev \<and> Type ev' = Type ev \<and>
     TriggerTime ev' = TriggerTime ev \<and> Period ev' = Period ev"
proof -
  assume a: "signal_frame d d'" "Events d' e = Some ev'"
  then have "map_option (SignalCount_update (\<lambda>_. 0)) (Events d e) = Some (ev'\<lparr>SignalCount := 0\<rparr>)"
    by (metis signal_frame_def option.simps(9))
  then obtain ev where ev: "Events d e = Some ev" "ev\<lparr>SignalCount := 0\<rparr> = ev'\<lparr>SignalCount := 0\<rparr>" by auto
  from arg_cong [OF ev(2), of Type] arg_cong [OF ev(2), of TriggerTime] arg_cong [OF ev(2), of Period]
  show ?thesis using ev(1) by auto
qed

lemma rearm_timer_keeps:
  assumes A: "Asserts P" and R: "restore_ok R" and I: "dxe_inv s"
    and hi: "TPL_HIGH_LEVEL - 1 \<le> gEfiCurrentTpl s" and e: "e \<notin> set (mEfiTimerList (Db s))"
    and ev: "Events (Db s) e = Some ev" "Type ev AND EVT_TIMER \<noteq> 0"
    and run: "rearm_timer P R now e ev s = Some u"
  shows "keeps s u"
proof -
  define retime :: "uint64 \<Rightarrow> 'a dxe" where
    "retime t = upd_db (upd_event e (TriggerTime_update (\<lambda>_. t))) s" for t
  have k3: "keeps s (retime t)" for t
    unfolding retime_def
    by (rule dxe_inv_upd_db [OF I]) (use I e in \<open>simp_all add: dxe_inv_def db_inv_upd_time\<close>)
  obtain s3 t where s3: "CoreInsertEventTimer P e s3 = Some u" and k: "keeps (retime t) s3"
    and fr: "signal_frame (Db (retime t)) (Db s3)"
  proof (cases "TriggerTime ev + Period ev \<le> now")
    case True
    with run obtain s3 st' where
      sg: "CoreSignalEvent P R (mEfiCheckTimerEvent (Db (retime now))) (retime now) = Some (st', s3)"
      and ins: "CoreInsertEventTimer P e s3 = Some u"
      by (auto simp: rearm_timer_def bind_eq_Some_conv Let_def retime_def)
    have "TPL_HIGH_LEVEL - 1 \<le> gEfiCurrentTpl (retime now)" using hi by (simp add: retime_def)
    with CoreSignalEvent_keeps [OF A R keeps_inv [OF k3] sg] ins show ?thesis using that by blast
  next
    case False
    with run have "CoreInsertEventTimer P e (retime (TriggerTime ev + Period ev)) = Some u"
      by (simp add: rearm_timer_def Let_def retime_def)
    then show ?thesis by (rule that [OF _ keeps_refl [OF keeps_inv [OF k3]]]) simp
  qed
  have "e \<notin> set (mEfiTimerList (Db s3))" using fr e by (simp add: signal_frame_def retime_def)
  moreover have "Type ev' AND EVT_TIMER \<noteq> 0" if "Events (Db s3) e = Some ev'" for ev'
    using signal_frame_type [OF fr that] ev by (auto simp: retime_def)
  ultimately have "keeps s3 u"
    using CoreInsertEventTimer_keeps [OF keeps_inv [OF k] _ _ s3] by blast
  with k3 k show ?thesis by (meson keeps_trans)
qed

lemma expire_timer_keeps:
  assumes A: "Asserts P" and R: "restore_ok R" and I: "dxe_inv s"
    and hi: "TPL_HIGH_LEVEL - 1 \<le> gEfiCurrentTpl s" and l: "mEfiTimerList (Db s) = e # q"
    and run: "expire_timer P R now e s = Some u"
  shows "keeps s u"
proof -
  define s1 where "s1 = upd_db (\<lambda>d. d\<lparr>mEfiTimerList := tl (mEfiTimerList d)\<rparr>) s"
  have D: "db_inv (Db s)" by (rule dxe_invD(1) [OF I])
  have k1: "keeps s s1"
    unfolding s1_def
    by (rule dxe_inv_upd_db [OF I])
      (use D db_inv_timer_list [OF D timer_inv_tl] in \<open>simp_all add: db_inv_def\<close>)
  have hi1: "TPL_HIGH_LEVEL - 1 \<le> gEfiCurrentTpl s1" using hi by (simp add: s1_def)
  obtain st s2 ev where s2: "CoreSignalEvent P R e s1 = Some (st, s2)" and ev: "Events (Db s2) e = Some ev"
    and rest: "(if Period ev \<noteq> 0 then rearm_timer P R now e ev s2 else Some s2) = Some u"
    using run unfolding expire_timer_def s1_def [symmetric] Let_def
    by (auto simp: bind_eq_Some_conv ievent_Some)
  have k2: "keeps s1 s2" and f2: "signal_frame (Db s1) (Db s2)"
    using CoreSignalEvent_keeps [OF A R keeps_inv [OF k1] s2] hi1 by blast+
  have e2: "e \<notin> set (mEfiTimerList (Db s2))"
    using f2 D l by (simp add: signal_frame_def s1_def db_inv_def timer_inv_def)
  have ty: "Type ev AND EVT_TIMER \<noteq> 0"
  proof -
    obtain ev0 where "Events (Db s) e = Some ev0" "Type ev = Type ev0"
      using signal_frame_type [OF f2 ev] by (auto simp: s1_def)
    with D l show ?thesis by (auto simp: db_inv_def timer_inv_def)
  qed
  have k2s: "keeps s s2" using k1 k2 by (rule keeps_trans)
  have hi2: "TPL_HIGH_LEVEL - 1 \<le> gEfiCurrentTpl s2" using hi1 k2 by (simp add: keeps_def)
  have "keeps s2 u" if "Period ev \<noteq> 0"
    using rearm_timer_keeps [OF A R keeps_inv [OF k2] hi2 e2 ev ty] rest that by simp
  with rest k2s show ?thesis by (cases "Period ev = 0") (auto intro: keeps_trans)
qed

text \<open>An invariant of the loop of \<open>CoreCheckTimers\<close>.\<close>

lemma check_timers_loop_rule:
  assumes run: "check_timers_loop P R now s = Some u" and init: "I s"
    and step: "\<And>s e q ev v. I s \<Longrightarrow> mEfiTimerList (Db s) = e # q \<Longrightarrow> ievent s e = Some ev \<Longrightarrow>
      TriggerTime ev \<le> now \<Longrightarrow> expire_timer P R now e s = Some v \<Longrightarrow> I v"
  shows "I u \<and> (mEfiTimerList (Db u) = [] \<or>
    (\<exists>e q ev. mEfiTimerList (Db u) = e # q \<and> ievent u e = Some ev \<and> now < TriggerTime ev))"
proof -
  define finished :: "'a dxe \<Rightarrow> bool" where
    "finished u \<longleftrightarrow> I u \<and> (mEfiTimerList (Db u) = [] \<or>
      (\<exists>e q ev. mEfiTimerList (Db u) = e # q \<and> ievent u e = Some ev \<and> now < TriggerTime ev))" for u
  have "case (((P, R), now), s) of (((P', R'), now'), s) \<Rightarrow>
      P' = P \<longrightarrow> R' = R \<longrightarrow> now' = now \<longrightarrow> I s \<longrightarrow> finished u"
  proof (rule check_timers_loop.raw_induct [where Pa = "\<lambda>x u. case x of (((P', R'), now'), s) \<Rightarrow>
        P' = P \<longrightarrow> R' = R \<longrightarrow> now' = now \<longrightarrow> I s \<longrightarrow> finished u", OF _ run], clarsimp)
    fix f s u
    assume IH: "\<And>P' R' now' s u. f P' R' now' s = Some u \<Longrightarrow>
        P' = P \<longrightarrow> R' = R \<longrightarrow> now' = now \<longrightarrow> I s \<longrightarrow> finished u"
      and eq: "(case mEfiTimerList (Db s) of [] \<Rightarrow> Some s
        | e # _ \<Rightarrow> Option.bind (ievent s e) (\<lambda>ev. if now < TriggerTime ev then Some s
            else Option.bind (expire_timer P R now e s) (f P R now))) = Some u"
      and I: "I s"
    show "finished u"
    proof (cases "mEfiTimerList (Db s)")
      case Nil
      with eq I show ?thesis by (auto simp: finished_def)
    next
      case (Cons e q)
      with eq obtain ev where ev: "ievent s e = Some ev"
        and rest: "(if now < TriggerTime ev then Some s
          else Option.bind (expire_timer P R now e s) (f P R now)) = Some u"
        by (cases "ievent s e") simp_all
      show ?thesis
      proof (cases "now < TriggerTime ev")
        case True
        with rest Cons ev I show ?thesis by (auto simp: finished_def)
      next
        case False
        with rest obtain v where v: "expire_timer P R now e s = Some v" "f P R now v = Some u"
          by (auto simp: bind_eq_Some_conv)
        with step [OF I Cons ev _ v(1)] IH [OF v(2)] False show ?thesis by simp
      qed
    qed
  qed
  with init show ?thesis by (simp add: finished_def)
qed

lemma check_timers_loop_keeps:
  assumes A: "Asserts P" and R: "restore_ok R"
    and run: "check_timers_loop P R now s = Some u"
    and I: "dxe_inv s" and hi: "TPL_HIGH_LEVEL - 1 \<le> gEfiCurrentTpl s"
  shows "keeps s u"
proof -
  have "keeps s u \<and> (mEfiTimerList (Db u) = [] \<or>
    (\<exists>e q ev. mEfiTimerList (Db u) = e # q \<and> ievent u e = Some ev \<and> now < TriggerTime ev))"
  proof (rule check_timers_loop_rule [where I = "keeps s", OF run keeps_refl [OF I]])
    fix x e q ev v
    assume x: "keeps s x" "mEfiTimerList (Db x) = e # q" "expire_timer P R now e x = Some v"
    have "keeps x v"
      by (rule expire_timer_keeps [OF A R keeps_inv [OF x(1)] _ x(2,3)]) (use x(1) hi in \<open>simp add: keeps_def\<close>)
    with x(1) show "keeps s v" by (rule keeps_trans)
  qed
  then show ?thesis by blast
qed

lemma CoreCheckTimers_keeps:
  assumes A: "Asserts P" and R: "restore_ok R" and I: "dxe_inv s"
    and run: "CoreCheckTimers P R s = Some u"
  shows "keeps s u"
proof -
  obtain t now t1 t2 where t: "CoreAcquireLock P mEfiTimerLock s = Some t"
    and t1: "CoreCurrentSystemTime P R t = Some (now, t1)"
    and t2: "check_timers_loop P R now t1 = Some t2" and u: "CoreReleaseLock P R mEfiTimerLock t2 = Some u"
    using run by (auto simp: CoreCheckTimers_def bind_eq_Some_conv)
  note lk = CoreAcquireLock_locked [OF t A dxe_invD(2) [OF I]]
  have It: "dxe_inv t" using locked_dxe_inv [OF lk(1)] lk(2) dxe_invD(1) [OF I] by simp
  note now = CoreCurrentSystemTime_run [OF A R dxe_invD(2) [OF It] db_inv_pending [OF dxe_invD(1) [OF It]] t1]
  have k1: "keeps t t1" using now It by (simp add: keeps_def dxe_inv_def)
  have "TPL_HIGH_LEVEL - 1 \<le> gEfiCurrentTpl t1" using now(4) lk(1) by (simp add: locked_def)
  with check_timers_loop_keeps [OF A R t2 keeps_inv [OF k1]] have "keeps t1 t2" by blast
  with k1 have k2: "keeps t t2" by (rule keeps_trans)
  have "locked mEfiTimerLock s t2" by (rule locked_keeps [OF lk(1) k2])
  with CoreReleaseLock_done [OF u A R] keeps_inv [OF k2] show ?thesis by (simp add: dxe_inv_def)
qed

lemma tick_check_keeps:
  assumes A: "Asserts P" and R: "restore_ok R" and I: "dxe_inv s" and run: "tick_check P R s = Some u"
  shows "keeps s u"
proof -
  have "u = s \<or> (\<exists>st c. CoreSignalEvent P R c s = Some (st, u))"
    using run by (auto simp: tick_check_def bind_eq_Some_conv split: list.splits if_splits)
  then show ?thesis using keeps_refl [OF I] CoreSignalEvent_keeps [OF A R I] by blast
qed

lemma CoreTimerTick_keeps:
  assumes A: "Asserts P" and R: "restore_ok R" and I: "dxe_inv s"
    and run: "CoreTimerTick P R dur s = Some u"
  shows "keeps s u"
proof -
  define f :: "event_db \<Rightarrow> event_db" where
    "f = (\<lambda>d. d\<lparr>mEfiSystemTime := mEfiSystemTime d + dur\<rparr>)"
  obtain t t1 where t: "CoreAcquireLock P mEfiSystemTimeLock s = Some t"
    and t1: "tick_check P R (upd_db f t) = Some t1"
    and u: "CoreReleaseLock P R mEfiSystemTimeLock t1 = Some u"
    using run by (auto simp: CoreTimerTick_def bind_eq_Some_conv f_def Let_def)
  note lk = CoreAcquireLock_locked [OF t A dxe_invD(2) [OF I]]
  have It: "dxe_inv t" using locked_dxe_inv [OF lk(1)] lk(2) dxe_invD(1) [OF I] by simp
  have tf: "trigger (f (Db t)) = trigger (Db t)" by (rule ext) (simp add: trigger_def f_def)
  have "db_inv (f (Db t))"
    using dxe_invD(1) [OF It] tf by (simp add: db_inv_defs f_def)
  then have k: "keeps t (upd_db f t)"
    by (rule dxe_inv_upd_db [OF It]) (simp add: f_def)
  moreover have "keeps (upd_db f t) t1"
    by (rule tick_check_keeps [OF A R keeps_inv [OF k] t1])
  ultimately have k1: "keeps t t1" by (rule keeps_trans)
  have "locked mEfiSystemTimeLock s t1" by (rule locked_keeps [OF lk(1) k1])
  with CoreReleaseLock_done [OF u A R] keeps_inv [OF k1] show ?thesis by (simp add: dxe_inv_def)
qed

subsection \<open>Setting timers\<close>

text \<open>The state of the database in \<open>CoreSetTimer\<close> once the old setting of the timer is gone.\<close>

definition cancel_timer :: "eid \<Rightarrow> event_db \<Rightarrow> event_db" where
  "cancel_timer e d = upd_event e (\<lambda>ev. ev\<lparr>TriggerTime := 0, Period := 0\<rparr>)
     (d\<lparr>mEfiTimerList := removeAll e (mEfiTimerList d)\<rparr>)"

lemma cancel_timer_simps [simp]:
  "gEventPending (cancel_timer e d) = gEventPending d"
  "gEventQueue (cancel_timer e d) = gEventQueue d"
  "mEfiTimerList (cancel_timer e d) = removeAll e (mEfiTimerList d)"
  "gRuntimeEventHead (cancel_timer e d) = gRuntimeEventHead d"
  by (simp_all add: cancel_timer_def)

lemma db_inv_cancel_timer: "db_inv d \<Longrightarrow> db_inv (cancel_timer e d)"
  unfolding cancel_timer_def
  by (rule db_inv_upd_time) (simp_all add: db_inv_timer_list timer_inv_removeAll db_inv_timer)

lemma CoreSetTimer_run:
  assumes "CoreSetTimer P R e delay time s = Some (st, u)" "dxe_inv s"
  shows "(st = EFI_INVALID_PARAMETER \<and> u = s) \<or>
    (\<exists>ev t v. st = EFI_SUCCESS \<and> e \<noteq> 0 \<and> Events (Db s) e = Some ev \<and> Type ev AND EVT_TIMER \<noteq> 0 \<and>
       CoreAcquireLock P mEfiTimerLock s = Some t \<and>
       (if delay \<noteq> TimerCancel then start_timer P R e delay time (upd_db (cancel_timer e) t)
        else Some (upd_db (cancel_timer e) t)) = Some v \<and>
       CoreReleaseLock P R mEfiTimerLock v = Some u)"
proof (cases "st = EFI_INVALID_PARAMETER \<and> u = s")
  case False
  then obtain ev where ev: "ievent s e = Some ev" "Type ev AND EVT_TIMER \<noteq> 0"
    and rest: "Option.bind (CoreAcquireLock P mEfiTimerLock s) (\<lambda>t.
      Option.bind (if delay \<noteq> TimerCancel then start_timer P R e delay time (upd_db (cancel_timer e) t)
        else Some (upd_db (cancel_timer e) t)) (\<lambda>v.
      Option.bind (CoreReleaseLock P R mEfiTimerLock v) (\<lambda>u. Some (EFI_SUCCESS, u)))) = Some (st, u)"
    using assms(1) unfolding CoreSetTimer_def Let_def upd_db_comp comp_def cancel_timer_def
    by (cases "ievent s e") (auto split: if_split_asm)
  from rest ev show ?thesis unfolding bind_eq_Some_conv ievent_Some by blast
qed simp

lemma start_timer_keeps:
  assumes A: "Asserts P" and R: "restore_ok R" and I: "dxe_inv s"
    and e: "e \<notin> set (mEfiTimerList (Db s))" "\<exists>ev. Events (Db s) e = Some ev \<and> Type ev AND EVT_TIMER \<noteq> 0"
    and run: "start_timer P R e delay time s = Some u"
  shows "keeps s u"
proof -
  define s1 where "s1 = (if delay = TimerPeriodic
       then upd_db (upd_event e (Period_update (\<lambda>_. time))) s else s)"
  obtain now s2 s3 where s2: "CoreCurrentSystemTime P R s1 = Some (now, s2)"
    and s3: "CoreInsertEventTimer P e (upd_db (upd_event e (TriggerTime_update (\<lambda>_. now + time))) s2) = Some s3"
    and rest: "(if time = 0 then Option.bind (CoreSignalEvent P R (mEfiCheckTimerEvent (Db s3)) s3)
      (\<lambda>(_, s). Some s) else Some s3) = Some u"
    using run unfolding start_timer_def s1_def [symmetric] Let_def
    by (auto simp: bind_eq_Some_conv)
  then have u: "u = s3 \<or> (\<exists>st c. CoreSignalEvent P R c s3 = Some (st, u))"
    by (auto simp: bind_eq_Some_conv split: if_splits)
  have D: "db_inv (Db s)" by (rule dxe_invD(1) [OF I])
  have k1: "keeps s s1"
    using I dxe_inv_upd_db [where f = "upd_event e (Period_update (\<lambda>_. time))", OF I] D e(1)
    by (simp add: s1_def keeps_refl db_inv_upd_time)
  have e1: "e \<notin> set (mEfiTimerList (Db s1))" "\<exists>ev. Events (Db s1) e = Some ev \<and> Type ev AND EVT_TIMER \<noteq> 0"
    using e by (auto simp: s1_def)
  note I1 = keeps_inv [OF k1]
  note now = CoreCurrentSystemTime_run [OF A R dxe_invD(2) [OF I1] db_inv_pending [OF dxe_invD(1) [OF I1]] s2]
  have k2: "keeps s1 s2" using now I1 by (simp add: keeps_def dxe_inv_def)
  have D2: "db_inv (Db s2)" by (rule dxe_invD(1) [OF keeps_inv [OF k2]])
  define s2' where "s2' = upd_db (upd_event e (TriggerTime_update (\<lambda>_. now + time))) s2"
  have k2': "keeps s2 s2'"
    unfolding s2'_def
    by (rule dxe_inv_upd_db [OF keeps_inv [OF k2]]) (use D2 e1 now(2) in \<open>simp_all add: db_inv_upd_time\<close>)
  have "keeps s2' s3"
    using CoreInsertEventTimer_keeps [OF keeps_inv [OF k2'] _ _ s3 [folded s2'_def]] e1 now(2)
    by (auto simp: s2'_def)
  moreover from this have "keeps s3 u"
    using u keeps_refl [OF keeps_inv] CoreSignalEvent_keeps [OF A R keeps_inv] by blast
  ultimately show ?thesis using k1 k2 k2' by (meson keeps_trans)
qed

lemma CoreSetTimer_keeps:
  assumes A: "Asserts P" and R: "restore_ok R" and I: "dxe_inv s"
    and run: "CoreSetTimer P R e delay time s = Some (st, u)"
  shows "keeps s u"
  using CoreSetTimer_run [OF run I]
proof (elim disjE exE conjE)
  assume "u = s"
  then show ?thesis using I by (simp add: keeps_refl)
next
  fix ev t v
  assume ev: "Events (Db s) e = Some ev" "Type ev AND EVT_TIMER \<noteq> 0"
    and t: "CoreAcquireLock P mEfiTimerLock s = Some t"
    and v: "(if delay \<noteq> TimerCancel then start_timer P R e delay time (upd_db (cancel_timer e) t)
        else Some (upd_db (cancel_timer e) t)) = Some v"
    and u: "CoreReleaseLock P R mEfiTimerLock v = Some u"
  note lk = CoreAcquireLock_locked [OF t A dxe_invD(2) [OF I]]
  have It: "dxe_inv t" using locked_dxe_inv [OF lk(1)] lk(2) dxe_invD(1) [OF I] by simp
  have k1: "keeps t (upd_db (cancel_timer e) t)"
    by (rule dxe_inv_upd_db [OF It]) (simp_all add: db_inv_cancel_timer dxe_invD(1) [OF It])
  have "keeps (upd_db (cancel_timer e) t) v"
  proof (cases "delay = TimerCancel")
    case True
    with v show ?thesis using keeps_refl [OF keeps_inv [OF k1]] by simp
  next
    case False
    then have "start_timer P R e delay time (upd_db (cancel_timer e) t) = Some v" using v by simp
    then show ?thesis
      by (rule start_timer_keeps [OF A R keeps_inv [OF k1], rotated 2])
        (use ev lk(2) in \<open>auto simp: cancel_timer_def\<close>)
  qed
  with k1 have k2: "keeps t v" by (rule keeps_trans)
  have "locked mEfiTimerLock s v" by (rule locked_keeps [OF lk(1) k2])
  with CoreReleaseLock_done [OF u A R] keeps_inv [OF k2] show ?thesis by (simp add: dxe_inv_def)
qed

text \<open>Cancelling runs no notification: what comes out is known exactly.\<close>

lemma CoreSetTimer_cancel:
  assumes A: "Asserts P" and R: "restore_ok R" and I: "dxe_inv s"
    and ev: "e \<noteq> 0" "Events (Db s) e = Some ev" "Type ev AND EVT_TIMER \<noteq> 0"
    and run: "CoreSetTimer P R e TimerCancel time s = Some (st, u)"
  shows "st = EFI_SUCCESS \<and> Db u = cancel_timer e (Db s) \<and> Ctx u = Ctx s"
proof -
  have sig: "Signature ev = EVENT_SIGNATURE"
    using dxe_invD(1) [OF I] ev by (auto simp: db_inv_def events_inv_def event_ok_def)
  obtain t where t: "CoreAcquireLock P mEfiTimerLock s = Some t" and st: "st = EFI_SUCCESS"
    and u: "CoreReleaseLock P R mEfiTimerLock (upd_db (cancel_timer e) t) = Some u"
    using run ev sig
    by (auto simp: CoreSetTimer_def bind_eq_Some_conv ievent_def Let_def upd_db_comp comp_def
      cancel_timer_def [abs_def])
  note lk = CoreAcquireLock_locked [OF t A dxe_invD(2) [OF I]]
  have "pending_inv (cancel_timer e (Db s))"
    using db_inv_cancel_timer [OF dxe_invD(1) [OF I]] by (simp add: db_inv_def)
  moreover have "quiet (gEfiCurrentTpl s) (Db s)" using I by (simp add: dxe_inv_def lock_inv_def)
  ultimately show ?thesis
    using CoreReleaseLock_quiet [OF u A R, of s] lk st by (simp add: quiet_def)
qed

subsection \<open>Closing events\<close>

lemma CoreUnregisterProtocolNotifyEvent_run:
  assumes A: "Asserts P" and R: "restore_ok R" and L: "lock_inv s" and p: "pending_inv (Db s)"
    and run: "CoreUnregisterProtocolNotifyEvent P R unreg e s = Some (st, u)"
  shows "Db u = Db s" "gEfiCurrentTpl u = gEfiCurrentTpl s" "same_locks s u" "lock_inv u"
    "Ctx u = (case unreg e (Ctx s) of Some c \<Rightarrow> c | None \<Rightarrow> Ctx s)"
    "EFI_ERROR st \<longleftrightarrow> unreg e (Ctx s) = None"
proof -
  obtain t where t: "CoreAcquireLock P gProtocolDatabaseLock s = Some t"
    and u: "CoreReleaseLock P R gProtocolDatabaseLock
      (t\<lparr>Ctx := (case unreg e (Ctx t) of Some c \<Rightarrow> c | None \<Rightarrow> Ctx t)\<rparr>) = Some u"
    and st: "EFI_ERROR st \<longleftrightarrow> unreg e (Ctx t) = None"
    using run by (auto simp: CoreUnregisterProtocolNotifyEvent_def bind_eq_Some_conv EFI_ERROR_def split: option.splits)
  note lk = CoreAcquireLock_locked [OF t A L]
  let ?v = "t\<lparr>Ctx := (case unreg e (Ctx t) of Some c \<Rightarrow> c | None \<Rightarrow> Ctx t)\<rparr>"
  have v: "locked gProtocolDatabaseLock s ?v" using lk(1) by (simp add: locked_def held_def)
  have q: "pending_inv (Db ?v)" "quiet (gEfiCurrentTpl s) (Db ?v)"
    using L p lk(2) by (simp_all add: lock_inv_def)
  note r = CoreReleaseLock_quiet [OF u A R v q]
  show "Db u = Db s" "gEfiCurrentTpl u = gEfiCurrentTpl s" "same_locks s u" "lock_inv u"
    "Ctx u = (case unreg e (Ctx s) of Some c \<Rightarrow> c | None \<Rightarrow> Ctx s)" "EFI_ERROR st \<longleftrightarrow> unreg e (Ctx s) = None"
    using r lk(2,3) st by (simp_all split: option.split)
qed


text \<open>
  An invariant of the loop of \<open>CoreUnregisterProtocolNotify\<close>: nothing of the event services changes,
  and the record of the event is gone from the protocol database.
\<close>

lemma CoreUnregisterProtocolNotify_run:
  assumes A: "Asserts P" and R: "restore_ok R" and L: "lock_inv s" and p: "pending_inv (Db s)"
    and run: "CoreUnregisterProtocolNotify P R unreg e s = Some (st, u)"
  shows "st = EFI_SUCCESS \<and> Db u = Db s \<and> gEfiCurrentTpl u = gEfiCurrentTpl s \<and> same_locks s u \<and>
    lock_inv u \<and> unreg e (Ctx u) = None"
proof -
  define post where "post s x \<longleftrightarrow> fst x = EFI_SUCCESS \<and> Db (snd x) = Db s \<and>
      gEfiCurrentTpl (snd x) = gEfiCurrentTpl s \<and> same_locks s (snd x) \<and> lock_inv (snd x) \<and>
      unreg e (Ctx (snd x)) = None" for s x
  have "case ((((P, R), unreg), e), s) of ((((P', R'), unreg'), e'), s) \<Rightarrow>
      P' = P \<longrightarrow> R' = R \<longrightarrow> unreg' = unreg \<longrightarrow> e' = e \<longrightarrow> lock_inv s \<longrightarrow> pending_inv (Db s) \<longrightarrow> post s (st, u)"
  proof (rule CoreUnregisterProtocolNotify.raw_induct [where Pa = "\<lambda>x y. case x of ((((P', R'), unreg'), e'), s) \<Rightarrow>
      P' = P \<longrightarrow> R' = R \<longrightarrow> unreg' = unreg \<longrightarrow> e' = e \<longrightarrow> lock_inv s \<longrightarrow> pending_inv (Db s) \<longrightarrow> post s y",
      OF _ run], clarsimp)
    fix f s st u
    assume IH: "\<And>P' R' unreg' e' s st u. f P' R' unreg' e' s = Some (st, u) \<Longrightarrow>
        P' = P \<longrightarrow> R' = R \<longrightarrow> unreg' = unreg \<longrightarrow> e' = e \<longrightarrow> lock_inv s \<longrightarrow> pending_inv (Db s) \<longrightarrow> post s (st, u)"
      and eq: "Option.bind (CoreUnregisterProtocolNotifyEvent P R unreg e s) (\<lambda>(Status, s).
        if \<not> EFI_ERROR Status then f P R unreg e s else Some (EFI_SUCCESS, s)) = Some (st, u)"
      and I: "lock_inv s" "pending_inv (Db s)"
    obtain st1 s1 where s1: "CoreUnregisterProtocolNotifyEvent P R unreg e s = Some (st1, s1)"
      and rest: "(if \<not> EFI_ERROR st1 then f P R unreg e s1 else Some (EFI_SUCCESS, s1)) = Some (st, u)"
      using eq by (cases "CoreUnregisterProtocolNotifyEvent P R unreg e s") auto
    note r = CoreUnregisterProtocolNotifyEvent_run [OF A R I s1]
    show "post s (st, u)"
    proof (cases "EFI_ERROR st1")
      case True
      with rest r show ?thesis by (auto simp: post_def)
    next
      case False
      with rest have "post s1 (st, u)" using IH r(1,4) I(2) by simp
      with r show ?thesis by (auto simp: post_def intro: same_locks_trans)
    qed
  qed
  with L p show ?thesis by (simp add: post_def)
qed

lemma unlink_event_simps [simp]:
  "gEventPending (unlink_event e d) = gEventPending d"
  "Events (unlink_event e d) = Events d"
  "mEfiTimerList (unlink_event e d) = mEfiTimerList d"
  "gRuntimeEventHead (unlink_event e d) = removeAll e (gRuntimeEventHead d)"
  "gEventSignalQueue (unlink_event e d) = removeAll e (gEventSignalQueue d)"
  "gEventQueue (unlink_event e d) p = removeAll e (gEventQueue d p)"
  by (simp_all add: unlink_event_def unqueue_def)

lemma free_event_simps [simp]:
  "gEventPending (free_event e d) = gEventPending d"
  "Events (free_event e d) x = (if x = e then None else Events d x)"
  "mEfiTimerList (free_event e d) = mEfiTimerList d"
  "gRuntimeEventHead (free_event e d) = gRuntimeEventHead d"
  "gEventSignalQueue (free_event e d) = gEventSignalQueue d"
  "gEventQueue (free_event e d) = gEventQueue d"
  by (simp_all add: free_event_def)

lemma pending_inv_free [simp]: "pending_inv (free_event e d) = pending_inv d"
  by (simp add: pending_inv_def)

lemma pending_inv_unlink: "pending_inv d \<Longrightarrow> pending_inv (unlink_event e d)"
proof -
  assume "pending_inv d"
  moreover have "removeAll e (gEventQueue d p) \<noteq> [] \<Longrightarrow> gEventQueue d p \<noteq> []" for p by auto
  ultimately show ?thesis unfolding pending_inv_def unlink_event_simps by blast
qed

lemma db_inv_close:
  assumes "db_inv d" "e \<notin> set (mEfiTimerList d)"
  shows "db_inv (free_event e (unlink_event e d))"
proof -
  let ?d = "free_event e (unlink_event e d)"
  have "map (trigger ?d) (mEfiTimerList d) = map (trigger d) (mEfiTimerList d)"
    using assms(2) by (auto simp: trigger_def)
  moreover have "\<exists>ev. Events ?d x = Some ev \<and> Type ev AND EVT_TIMER \<noteq> 0"
    if "x \<in> set (mEfiTimerList d)" for x
    using that assms unfolding db_inv_def timer_inv_def by auto
  ultimately have "timer_inv ?d"
    using assms(1) unfolding db_inv_def timer_inv_def by (simp del: map_eq_conv)
  moreover have "pending_inv ?d"
    using assms(1) by (simp add: db_inv_def pending_inv_unlink)
  moreover have "events_inv ?d"
    using assms(1) by (simp add: db_inv_def events_inv_def)
  moreover have "queue_inv ?d"
    using assms(1) by (simp add: db_inv_def queue_inv_def distinct_removeAll)
  moreover have "signal_inv ?d"
    using assms(1) by (auto simp: db_inv_def signal_inv_def distinct_removeAll)
  moreover have "no_lost_signal ?d"
    using assms(1) by (simp add: db_inv_def no_lost_signal_def)
  ultimately show ?thesis by (simp add: db_inv_def)
qed

lemma CoreCloseEvent_keeps:
  assumes A: "Asserts P" and R: "restore_ok R" and I: "dxe_inv s"
    and run: "CoreCloseEvent P R unreg e s = Some (st, u)"
  shows "keeps s u \<and> (st = EFI_SUCCESS \<longrightarrow> Events (Db u) e = None \<and> unreg e (Ctx u) = None)"
proof (cases "u = s \<and> st = EFI_INVALID_PARAMETER")
  case True
  with I show ?thesis by (simp add: keeps_refl)
next
  case False
  then obtain ev s1 t v w where ev: "ievent s e = Some ev"
    and s1: "(if Type ev AND EVT_TIMER \<noteq> 0
            then map_option snd (CoreSetTimer P R e TimerCancel 0 s) else Some s) = Some s1"
    and t: "CoreAcquireLock P gEventQueueLock s1 = Some t"
    and v: "CoreReleaseLock P R gEventQueueLock (upd_db (unlink_event e) t) = Some v"
    and w: "\<exists>st'. CoreUnregisterProtocolNotify P R unreg e v = Some (st', w)"
    and u: "u = upd_db (free_event e) w"
    using run unfolding CoreCloseEvent_def event_lock_defs Let_def
    by (cases "ievent s e") (auto simp: bind_eq_Some_conv split: if_split_asm)
  have e: "e \<noteq> 0" "Events (Db s) e = Some ev" using ev by (simp_all add: ievent_Some)
  have s1k: "keeps s s1 \<and> e \<notin> set (mEfiTimerList (Db s1))"
  proof (cases "Type ev AND EVT_TIMER = 0")
    case True
    with s1 e I show ?thesis by (auto simp: keeps_refl dxe_inv_def db_inv_def timer_inv_def)
  next
    case False
    with s1 obtain st1 where c: "CoreSetTimer P R e TimerCancel 0 s = Some (st1, s1)" by auto
    from CoreSetTimer_keeps [OF A R I c] CoreSetTimer_cancel [OF A R I e False c] show ?thesis by simp
  qed
  then have I1: "dxe_inv s1" by (blast intro: keeps_inv)
  note lk = CoreAcquireLock_locked [OF t A dxe_invD(2) [OF I1]]
  have "quiet (gEfiCurrentTpl s1) (Db s1)" using I1 by (simp add: dxe_inv_def lock_inv_def)
  then have q: "locked gEventQueueLock s1 (upd_db (unlink_event e) t)"
    "pending_inv (Db (upd_db (unlink_event e) t))" "quiet (gEfiCurrentTpl s1) (Db (upd_db (unlink_event e) t))"
    using lk db_inv_pending [OF dxe_invD(1) [OF I1]] by (simp_all add: pending_inv_unlink quiet_def)
  note r = CoreReleaseLock_quiet [OF v A R q]
  have pv: "pending_inv (Db v)" using r(2) q(2) by simp
  obtain st' where "CoreUnregisterProtocolNotify P R unreg e v = Some (st', w)" using w by blast
  note x = CoreUnregisterProtocolNotify_run [OF A R r(5) pv this]
  have d: "Db w = unlink_event e (Db s1)" using x r(2) lk(2) by simp
  have "same_locks s1 u" using x r(4) u by (simp add: same_locks_def held_def)
  moreover have "lock_inv w" using x by blast
  then have "lock_inv u" using u by (simp add: lock_inv_def quiet_def held_def)
  moreover have "db_inv (Db u)"
    using d u db_inv_close [OF dxe_invD(1) [OF I1] s1k [THEN conjunct2]] by simp
  ultimately have "keeps s1 u" using x r(1) u by (simp add: keeps_def dxe_inv_def)
  with s1k x u show ?thesis by (auto intro: keeps_trans)
qed


end
