(* ===== verification/EventDispatch.thy ===== *)
theory EventDispatch
  imports EventTimer
begin

unbundle bit_operations_syntax

section \<open>Dispatch of notifications\<close>

text \<open>
  \<open>CoreRestoreTpl\<close> satisfies the contract of a restore function that the services rely on, whatever
  the drivers do with the services inside their notification functions.
\<close>

subsection \<open>The contract of \<open>CoreRestoreTpl\<close>\<close>

text \<open>What the notification functions of the drivers may do: run services, given a restore function
  that meets its contract.\<close>

definition drivers_ok :: "'u drivers \<Rightarrow> bool" where
  "drivers_ok NC \<longleftrightarrow> (\<forall>k R e c. restore_ok R \<longrightarrow> service_ok (NC k R e c))"

lemma drivers_okD: "drivers_ok NC \<Longrightarrow> restore_ok R \<Longrightarrow> service_ok (NC k R e c)"
  by (simp add: drivers_ok_def)

lemma run_notify_keeps:
  assumes "Asserts P" "restore_ok R" "drivers_ok NC" "dxe_inv s" "run_notify P NC R f e c s = Some u"
  shows "keeps s u"
  using assms CoreCheckTimers_keeps service_okD [OF drivers_okD]
  by (auto simp: run_notify_def split: EFI_EVENT_NOTIFY.splits)

text \<open>The critical section of \<open>CoreDispatchEventNotifies\<close>: opened at the level of \<open>s\<close>, database in
  order.\<close>

definition in_dispatch :: "'u dxe \<Rightarrow> 'u dxe \<Rightarrow> bool" where
  "in_dispatch s t \<longleftrightarrow> (\<exists>s'. keeps s s' \<and> locked gEventQueueLock s' t) \<and> db_inv (Db t)"

text \<open>Taking the head of a queue, as the body of the loop does.\<close>

definition take_db :: "eid \<Rightarrow> IEVENT \<Rightarrow> event_db \<Rightarrow> event_db" where
  "take_db e ev d = (if is_signal ev then upd_event e (SignalCount_update (\<lambda>_. 0)) (unqueue e d)
     else unqueue e d)"

lemma take_db_simps [simp]:
  "gEventPending (take_db e ev d) = gEventPending d"
  "gEventQueue (take_db e ev d) p = removeAll e (gEventQueue d p)"
  "gEventSignalQueue (take_db e ev d) = gEventSignalQueue d"
  "mEfiTimerList (take_db e ev d) = mEfiTimerList d"
  "gRuntimeEventHead (take_db e ev d) = gRuntimeEventHead d"
  by (simp_all add: take_db_def)

lemma pending_inv_unqueue: "pending_inv d \<Longrightarrow> pending_inv (unqueue e d)"
proof -
  assume "pending_inv d"
  moreover have "removeAll e (gEventQueue d p) \<noteq> [] \<Longrightarrow> gEventQueue d p \<noteq> []" for p by auto
  ultimately show ?thesis unfolding pending_inv_def unqueue_simps by blast
qed

lemma db_inv_take:
  assumes D: "db_inv d" and ev: "Events d e = Some ev"
  shows "db_inv (take_db e ev d)"
proof -
  have "pending_inv (unqueue e d)"
    using D by (simp add: db_inv_def pending_inv_unqueue)
  moreover have "queue_inv (unqueue e d)"
    using D by (simp add: db_inv_def queue_inv_def distinct_removeAll)
  moreover have "events_inv (unqueue e d)" "signal_inv (unqueue e d)"
    using D by (simp_all add: db_inv_def events_inv_def signal_inv_def)
  moreover have "timer_inv (unqueue e d)"
    using D by (simp add: db_inv_def timer_inv_def trigger_same [of "unqueue e d" d])
  moreover have "x \<in> set (gEventQueue (unqueue e d) (NotifyTpl xe))"
    if "x \<noteq> e" "Events d x = Some xe" "is_signal xe" "SignalCount xe \<noteq> 0" for x xe
    using D that by (simp add: db_inv_def no_lost_signal_def)
  ultimately have but: "db_inv_but {e} (unqueue e d)" by (simp add: db_inv_but_def)
  show ?thesis
  proof (cases "is_signal ev")
    case True
    then have "db_inv_but {e} (take_db e ev d)"
      using db_inv_but_count [OF but, of e "\<lambda>_. 0"] by (simp add: take_db_def)
    then have "db_inv_but ({e} - {e}) (take_db e ev d)"
      by (rule db_inv_but_drop) (use ev True in \<open>auto simp: take_db_def\<close>)
    then show ?thesis by (simp add: db_inv_but_empty)
  next
    case False
    then have "db_inv_but ({e} - {e}) (take_db e ev d)"
      using but ev by (intro db_inv_but_drop) (auto simp: take_db_def)
    then show ?thesis by (simp add: db_inv_but_empty)
  qed
qed

lemma dispatch_one_run:
  assumes "dispatch_one P NC R p t = Some u"
  shows "\<exists>ev v ev' f w. Events (Db t) (hd (gEventQueue (Db t) p)) = Some ev \<and>
    CoreReleaseLock P R gEventQueueLock (upd_db (take_db (hd (gEventQueue (Db t) p)) ev) t) = Some v \<and>
    ievent v (hd (gEventQueue (Db t) p)) = Some ev' \<and> NotifyFunction ev' = Some f \<and>
    run_notify P NC R f (hd (gEventQueue (Db t) p)) (NotifyContext ev') v = Some w \<and>
    CoreAcquireLock P gEventQueueLock w = Some u"
proof -
  define e where "e = hd (gEventQueue (Db t) p)"
  obtain ev where ev: "ievent (upd_db (unqueue e) t) e = Some ev"
    and rest: "Option.bind (CoreReleaseLock P R gEventQueueLock
        (if is_signal ev then upd_db (upd_event e (SignalCount_update (\<lambda>_. 0))) (upd_db (unqueue e) t)
         else upd_db (unqueue e) t)) (\<lambda>s.
      Option.bind (ievent s e) (\<lambda>ev. Option.bind (NotifyFunction ev) (\<lambda>f.
      Option.bind (run_notify P NC R f e (NotifyContext ev) s) (CoreAcquireLock P gEventQueueLock)))) = Some u"
    using assms unfolding dispatch_one_def e_def [symmetric] Let_def event_lock_defs
    by (cases "ievent (upd_db (unqueue e) t) e") (simp_all add: CoreAcquireEventLock_def)
  have "(if is_signal ev then upd_db (upd_event e (SignalCount_update (\<lambda>_. 0))) (upd_db (unqueue e) t)
         else upd_db (unqueue e) t) = upd_db (take_db e ev) t"
    by (simp add: take_db_def [abs_def] upd_db_def)
  with rest ev show ?thesis
    unfolding e_def [symmetric] bind_eq_Some_conv ievent_Some by auto
qed

lemma dispatch_one_keeps:
  assumes A: "Asserts P" and R: "restore_ok R" and N: "drivers_ok NC"
    and I: "in_dispatch s t" and run: "dispatch_one P NC R p t = Some u"
  shows "in_dispatch s u"
proof -
  obtain ev v f w and ev' :: IEVENT where ev: "Events (Db t) (hd (gEventQueue (Db t) p)) = Some ev"
    and v: "CoreReleaseLock P R gEventQueueLock (upd_db (take_db (hd (gEventQueue (Db t) p)) ev) t) = Some v"
    and w: "run_notify P NC R f (hd (gEventQueue (Db t) p)) (NotifyContext ev') v = Some w"
    and u: "CoreAcquireLock P gEventQueueLock w = Some u"
    using dispatch_one_run [OF run] by blast
  obtain s' where s': "keeps s s'" "locked gEventQueueLock s' t" and D: "db_inv (Db t)"
    using I by (auto simp: in_dispatch_def)
  have "keeps s' v"
    using CoreReleaseLock_done [OF v A R] s'(2) db_inv_take [OF D ev] by simp
  moreover from this have "keeps v w" using run_notify_keeps [OF A R N _ w] by (simp add: keeps_inv)
  ultimately have k: "keeps s w" using s'(1) by (meson keeps_trans)
  have "dxe_inv w" using k by (rule keeps_inv)
  then show ?thesis
    using CoreAcquireLock_locked [OF u A] k by (auto simp: in_dispatch_def dxe_inv_def)
qed

lemma bit_clear_pending:
  "p < 31 \<Longrightarrow> bit (w AND NOT (pending_bit p)) q \<longleftrightarrow> bit w q \<and> q \<noteq> p"
  using bit_imp_le_length [of w q] by (auto simp: bit_simps bit_pending_bit)

lemma pending_inv_clear:
  assumes "pending_inv d" "gEventQueue d p = []" "p < 31"
  shows "pending_inv (d\<lparr>gEventPending := gEventPending d AND NOT (pending_bit p)\<rparr>)"
  using assms by (auto simp: pending_inv_def bit_clear_pending)

lemma db_inv_clear:
  assumes "db_inv d" "gEventQueue d p = []" "p < 31"
  shows "db_inv (d\<lparr>gEventPending := gEventPending d AND NOT (pending_bit p)\<rparr>)"
  using assms pending_inv_clear [of d p] trigger_same [of "d\<lparr>gEventPending := gEventPending d AND NOT (pending_bit p)\<rparr>" d]
  by (simp add: db_inv_def events_inv_def queue_inv_def signal_inv_def no_lost_signal_def timer_inv_def)

lemma CoreDispatchEventNotifies_keeps:
  assumes A: "Asserts P" and R: "restore_ok R" and N: "drivers_ok NC" and I: "dxe_inv s" and p: "p < 31"
    and run: "CoreDispatchEventNotifies P NC R p s = Some u"
  shows "keeps s u"
proof -
  obtain t t1 where t: "CoreAcquireLock P gEventQueueLock s = Some t"
    and t1: "while_opt (\<lambda>s. gEventQueue (Db s) p \<noteq> []) (dispatch_one P NC R p) t = Some t1"
    and u: "CoreReleaseLock P R gEventQueueLock
      (upd_db (\<lambda>d. d\<lparr>gEventPending := gEventPending d AND NOT (pending_bit p)\<rparr>) t1) = Some u"
    using run by (auto simp: CoreDispatchEventNotifies_def event_lock_defs bind_eq_Some_conv Let_def)
  note lk = CoreAcquireLock_locked [OF t A dxe_invD(2) [OF I]]
  have "in_dispatch s t" using I lk keeps_refl [OF I] by (auto simp: in_dispatch_def dxe_inv_def)
  then have "in_dispatch s t1 \<and> \<not> gEventQueue (Db t1) p \<noteq> []"
    by (rule while_opt_rule [OF t1]) (rule dispatch_one_keeps [OF A R N])
  then obtain s' where s': "keeps s s'" "locked gEventQueueLock s' t1" and D: "db_inv (Db t1)"
    and q: "gEventQueue (Db t1) p = []"
    by (auto simp: in_dispatch_def)
  have "keeps s' u"
    using CoreReleaseLock_done [OF u A R] s'(2) db_inv_clear [OF D q p] by simp
  with s'(1) show ?thesis by (rule keeps_trans)
qed

text \<open>The highest pending level.\<close>

lemma pending_highest:
  assumes "pending_inv d" "gEventPending d \<noteq> 0"
  obtains p where "nat (HighBitSet64 (gEventPending d)) = p" "bit (gEventPending d) p" "quiet p d"
    "TPL_APPLICATION < p" "p < TPL_HIGH_LEVEL"
proof -
  obtain k where k: "bit (gEventPending d) k" "\<forall>j>k. \<not> bit (gEventPending d) j"
    using highest_bit [OF assms(2)] by blast
  then have "HighBitSet64 (gEventPending d) = int k" by (intro HighBitSet64_bit) auto
  moreover have "quiet k d" unfolding quiet_def using k(2) not_less by blast
  ultimately show ?thesis using that [of k] k(1) assms(1) by (auto simp: pending_inv_def)
qed

lemma restore_mask_quiet:
  "pending_inv d \<Longrightarrow> restore_mask t AND gEventPending d = 0 \<longleftrightarrow> quiet t d"
  by (subst restore_mask_zero) (auto simp: pending_inv_def quiet_def)

text \<open>The states of the loop of \<open>CoreRestoreTpl\<close>, down to level \<open>t\<close> from state \<open>s\<close>.\<close>

definition restoring :: "EFI_TPL \<Rightarrow> 'u dxe \<Rightarrow> 'u dxe \<Rightarrow> bool" where
  "restoring t s x \<longleftrightarrow> db_inv (Db x) \<and> same_locks s x \<and> t \<le> TPL_HIGH_LEVEL \<and>
     (\<forall>l. Tpl (Locks s l) = lock_tpl l) \<and> (\<forall>l. held s l \<longrightarrow> lock_tpl l \<le> t)"

lemma enter_level_simps [simp]:
  "gEfiCurrentTpl (enter_level P p s) = p"
  "Locks (enter_level P p s) = Locks s"
  "Db (enter_level P p s) = Db s"
  "Ctx (enter_level P p s) = Ctx s"
  by (simp_all add: enter_level_def Let_def)

lemma restoring_level:
  assumes "restoring t s x" "quiet p (Db x)" "t \<le> p" "p \<le> TPL_HIGH_LEVEL"
    and "Locks y = Locks x" "Db y = Db x" "gEfiCurrentTpl y = p"
  shows "dxe_inv y \<and> same_locks s y"
proof -
  have "lock_tpl l \<le> p" if "Lock (Locks x l) = EfiLockAcquired" for l
    using assms(1,3) that same_locks_held [of s x l] by (auto simp: restoring_def held_def intro: order_trans)
  with assms show ?thesis
    by (simp add: restoring_def dxe_inv_def lock_inv_def held_def same_locks_def)
qed

lemma restore_one_restoring:
  assumes A: "Asserts P" and R: "restore_ok R" and N: "drivers_ok NC"
    and I: "restoring t s x" and c: "restore_mask t AND gEventPending (Db x) \<noteq> 0"
    and run: "restore_one P NC R x = Some y"
  shows "restoring t s y"
proof -
  have pi: "pending_inv (Db x)" using I by (simp add: restoring_def db_inv_def)
  have "gEventPending (Db x) \<noteq> 0" using c by auto
  then obtain p where p: "nat (HighBitSet64 (gEventPending (Db x))) = p" "bit (gEventPending (Db x)) p"
    "quiet p (Db x)" "p < TPL_HIGH_LEVEL"
    by (rule pending_highest [OF pi])
  have "t < p"
    using c p(3) restore_mask_quiet [OF pi, of t] by (auto simp: quiet_def not_le intro: order_less_le_trans)
  then have dx: "dxe_inv (enter_level P p x)" "same_locks s (enter_level P p x)"
    using restoring_level [OF I p(3), of "enter_level P p x"] p(4) by simp_all
  have "CoreDispatchEventNotifies P NC R p (enter_level P p x) = Some y"
    using run p(1) by (simp add: restore_one_def Let_def)
  then have k: "keeps (enter_level P p x) y"
    by (rule CoreDispatchEventNotifies_keeps [OF A R N dx(1) p(4)])
  then have "same_locks s y" using dx(2) by (auto simp: keeps_def intro: same_locks_trans)
  with k I show ?thesis by (simp add: restoring_def keeps_def dxe_inv_def)
qed


lemma RestoreTpl_body_run:
  assumes "RestoreTpl_body P NC R t s = Some u" "Asserts P"
  shows "\<exists>s1 s2. t \<le> gEfiCurrentTpl s \<and> t \<le> TPL_HIGH_LEVEL \<and>
    (s1 = s \<or> s1 = s\<lparr>gEfiCurrentTpl := TPL_HIGH_LEVEL\<rparr>) \<and>
    while_opt (\<lambda>s. restore_mask t AND gEventPending (Db s) \<noteq> 0) (restore_one P NC R) s1 = Some s2 \<and>
    gEfiCurrentTpl u = t \<and> Db u = Db s2 \<and> Ctx u = Ctx s2 \<and> Locks u = Locks s2"
proof -
  define s1 where "s1 = (if gEfiCurrentTpl s \<ge> TPL_HIGH_LEVEL \<and> t < TPL_HIGH_LEVEL
              then s\<lparr>gEfiCurrentTpl := TPL_HIGH_LEVEL\<rparr> else s)"
  obtain s2 where "t \<le> gEfiCurrentTpl s" "t \<le> TPL_HIGH_LEVEL"
    and w: "while_opt (\<lambda>s. restore_mask t AND gEventPending (Db s) \<noteq> 0) (restore_one P NC R) s1 = Some s2"
    and u: "u = (if t < TPL_HIGH_LEVEL then CoreSetInterruptState P True (s2\<lparr>gEfiCurrentTpl := t\<rparr>)
      else s2\<lparr>gEfiCurrentTpl := t\<rparr>)"
    using assms unfolding RestoreTpl_body_def Let_def s1_def [symmetric]
    by (auto simp: bind_eq_Some_conv ASSERT_Some_iff VALID_TPL_def)
  moreover have "s1 = s \<or> s1 = s\<lparr>gEfiCurrentTpl := TPL_HIGH_LEVEL\<rparr>" by (simp add: s1_def)
  moreover have "gEfiCurrentTpl u = t \<and> Db u = Db s2 \<and> Ctx u = Ctx s2 \<and> Locks u = Locks s2"
    using u by simp
  ultimately show ?thesis by blast
qed

lemma RestoreTpl_body_ok:
  assumes A: "Asserts P" and R: "restore_ok R" and N: "drivers_ok NC"
  shows "restore_ok (RestoreTpl_body P NC R)"
  unfolding restore_ok_def
proof (intro allI impI conjI)
  fix t s u
  assume run: "RestoreTpl_body P NC R t s = Some u"
  obtain s1 s2 where t: "t \<le> gEfiCurrentTpl s" "t \<le> TPL_HIGH_LEVEL"
    and s1: "s1 = s \<or> s1 = s\<lparr>gEfiCurrentTpl := TPL_HIGH_LEVEL\<rparr>"
    and w: "while_opt (\<lambda>s. restore_mask t AND gEventPending (Db s) \<noteq> 0) (restore_one P NC R) s1 = Some s2"
    and u: "gEfiCurrentTpl u = t" "Db u = Db s2" "Ctx u = Ctx s2" "Locks u = Locks s2"
    using RestoreTpl_body_run [OF run A] by blast
  have s1f: "Db s1 = Db s" "Ctx s1 = Ctx s" "Locks s1 = Locks s" using s1 by auto
  show "gEfiCurrentTpl u = t" "gEfiCurrentTpl u = t" by (rule u)+
  {
    assume "pending_inv (Db s) \<and> quiet t (Db s)"
    then have "restore_mask t AND gEventPending (Db s1) = 0"
      using restore_mask_quiet s1f by simp
    then have "s2 = s1" using w by (subst (asm) while_opt.simps) simp
    with s1f u show "Db u = Db s" "Ctx u = Ctx s" "Locks u = Locks s" by simp_all
  next
    assume a: "dxe_inv s \<and> t \<le> gEfiCurrentTpl s \<and> (\<forall>l. held s l \<longrightarrow> lock_tpl l \<le> t)"
    have "restoring t s s1"
      using a t s1f by (simp add: restoring_def dxe_inv_def lock_inv_def same_locks_def held_def)
    then have r: "restoring t s s2 \<and> \<not> restore_mask t AND gEventPending (Db s2) \<noteq> 0"
      by (rule while_opt_rule [OF w]) (rule restore_one_restoring [OF A R N])
    then have "quiet t (Db s2)"
      using restore_mask_quiet [of "Db s2" t] by (simp add: restoring_def db_inv_def)
    then have "dxe_inv u \<and> same_locks s u"
      by (intro restoring_level [OF r [THEN conjunct1]]) (use t u in simp_all)
    then show "dxe_inv u" "same_locks s u" by simp_all
  }
qed

theorem CoreRestoreTpl_ok: "Asserts P \<Longrightarrow> drivers_ok NC \<Longrightarrow> restore_ok (CoreRestoreTpl P NC n)"
  by (induction n) (simp_all add: RestoreTpl_body_ok, simp add: restore_ok_def)


end
