(* ===== verification/EventSystem.thy ===== *)
theory EventSystem
  imports EventDispatch
begin

unbundle bit_operations_syntax

section \<open>Programs over the event services\<close>

text \<open>
  Drivers and applications as programs over the services, the reachable states of the core, and the
  properties of the event services: the invariant, the order of notifications, timers.
\<close>

subsection \<open>Programs\<close>

text \<open>
  A program is a list of calls of services; \<open>AtTpl\<close> runs a program between \<open>CoreRaiseTpl\<close> and
  \<open>CoreRestoreTpl\<close>.
\<close>

datatype service =
    Signal eid
  | Check eid
  | Wait "eid list"
  | SetTimer eid int uint64
  | Close eid
  | Create uint32 EFI_TPL "EFI_EVENT_NOTIFY option" nat "EFI_GUID option"
  | Tick uint64
  | AtTpl EFI_TPL "service list"

text \<open>What a program finds in its surroundings: the allocator and the search of the protocol
  database. An allocator does not hand out the memory of a live event.\<close>

record 'u env =
  AllocatePool :: "'u dxe \<Rightarrow> eid"
  Unregister :: "eid \<Rightarrow> 'u \<Rightarrow> 'u option"

definition alloc_ok :: "'u env \<Rightarrow> bool" where
  "alloc_ok E \<longleftrightarrow> (\<forall>s. dxe_inv s \<longrightarrow> Events (Db s) (AllocatePool E s) = None)"

fun run_service :: "platform \<Rightarrow> 'u env \<Rightarrow> 'u restore \<Rightarrow> service \<Rightarrow> 'u dxe \<Rightarrow> 'u dxe option"
  and run_services :: "platform \<Rightarrow> 'u env \<Rightarrow> 'u restore \<Rightarrow> service list \<Rightarrow> 'u dxe \<Rightarrow> 'u dxe option" where
  "run_service P E R (Signal e) s = map_option snd (CoreSignalEvent P R e s)"
| "run_service P E R (Check e) s = map_option snd (CoreCheckEvent P R e s)"
| "run_service P E R (Wait es) s = map_option (\<lambda>(_, _, s). s) (CoreWaitForEvent P R es s)"
| "run_service P E R (SetTimer e d t) s = map_option snd (CoreSetTimer P R e d t s)"
| "run_service P E R (Close e) s = map_option snd (CoreCloseEvent P R (Unregister E) e s)"
| "run_service P E R (Create ty tpl f c g) s =
     map_option (\<lambda>(_, _, s). s) (CoreCreateEventEx P R (AllocatePool E s) ty tpl f c g True s)"
| "run_service P E R (Tick d) s = CoreTimerTick P R d s"
| "run_service P E R (AtTpl t cs) s = do {
     (OldTpl, s) \<leftarrow> CoreRaiseTpl P t s;
     s \<leftarrow> run_services P E R cs s;
     R OldTpl s
   }"
| "run_services P E R [] s = Some s"
| "run_services P E R (c # cs) s = do {
     s \<leftarrow> run_service P E R c s;
     run_services P E R cs s
   }"

subsection \<open>Programs keep the invariant\<close>

lemma wait_loop_keeps:
  assumes A: "Asserts P" and R: "restore_ok R" and I: "dxe_inv s"
    and run: "wait_loop P R es i s = Some x"
  shows "keeps s (snd (snd x))"
proof -
  have "case ((((P, R), es), i), s) of ((((P', R'), es'), i), s) \<Rightarrow>
      P' = P \<longrightarrow> R' = R \<longrightarrow> dxe_inv s \<longrightarrow> keeps s (snd (snd x))"
  proof (rule wait_loop.raw_induct [where Pa = "\<lambda>a x. case a of ((((P', R'), es'), i), s) \<Rightarrow>
      P' = P \<longrightarrow> R' = R \<longrightarrow> dxe_inv s \<longrightarrow> keeps s (snd (snd x))", OF _ run])
    fix f P' R' and es :: "eid list" and i s x
    assume IH: "\<And>P' R' es i s x. f P' R' es i s = Some x \<Longrightarrow> case ((((P', R'), es), i), s) of
        ((((P', R'), es'), i), s) \<Rightarrow> P' = P \<longrightarrow> R' = R \<longrightarrow> dxe_inv s \<longrightarrow> keeps s (snd (snd x))"
      and eq: "(if i < length es then Option.bind (CoreCheckEvent P' R' (es ! i) s) (\<lambda>(Status, s).
          if Status \<noteq> EFI_NOT_READY then Some (Status, i, s) else f P' R' es (i + 1) s)
        else f P' R' es 0 s) = Some x"
    have "keeps s (snd (snd x))" if P: "P' = P" "R' = R" and I: "dxe_inv s"
    proof (cases "i < length es")
      case False
      with eq IH [of P R es 0 s x] I P show ?thesis by simp
    next
      case True
      with eq P obtain st1 s1 where c: "CoreCheckEvent P R (es ! i) s = Some (st1, s1)"
        and rest: "(if st1 \<noteq> EFI_NOT_READY then Some (st1, i, s1) else f P R es (i + 1) s1) = Some x"
        by (cases "CoreCheckEvent P R (es ! i) s") auto
      have k: "keeps s s1" by (rule CoreCheckEvent_keeps [OF A R I c])
      from rest have "s1 = snd (snd x) \<or> keeps s1 (snd (snd x))"
        using IH [of P R es "i + 1" s1 x] keeps_inv [OF k] by (auto split: if_splits)
      with k show ?thesis by (auto intro: keeps_trans)
    qed
    then show "case ((((P', R'), es), i), s) of
        ((((P', R'), es'), i), s) \<Rightarrow> P' = P \<longrightarrow> R' = R \<longrightarrow> dxe_inv s \<longrightarrow> keeps s (snd (snd x))" by simp
  qed
  with I show ?thesis by simp
qed

lemma CoreWaitForEvent_keeps:
  assumes "Asserts P" "restore_ok R" "dxe_inv s" "CoreWaitForEvent P R es s = Some (st, i, u)"
  shows "keeps s u"
  using assms wait_loop_keeps [OF assms(1-3)]
  by (fastforce simp: CoreWaitForEvent_def keeps_refl split: if_splits)

lemma CoreRaiseTpl_run:
  assumes "CoreRaiseTpl P t s = Some (old, u)" "Asserts P" "dxe_inv s"
  shows "old = gEfiCurrentTpl s" "dxe_inv u" "gEfiCurrentTpl u = t" "old \<le> t" "same_locks s u"
    "\<And>l. held u l \<Longrightarrow> lock_tpl l \<le> old"
proof -
  have u: "old = gEfiCurrentTpl s" "old \<le> t" "t \<le> TPL_HIGH_LEVEL" "gEfiCurrentTpl u = t"
      "Locks u = Locks s" "Db u = Db s"
    using assms(1,2)
    by (auto simp: CoreRaiseTpl_def bind_eq_Some_conv ASSERT_Some_iff VALID_TPL_def Let_def)
  then show "old = gEfiCurrentTpl s" "old \<le> t" "gEfiCurrentTpl u = t" "same_locks s u"
    by (simp_all add: same_locks_def)
  show "lock_tpl l \<le> old" if "held u l" for l
    using that u assms(3) by (simp add: held_def dxe_inv_def lock_inv_def)
  then show "dxe_inv u"
    using u assms(3) unfolding dxe_inv_def lock_inv_def quiet_def by (auto intro: order_trans)
qed

lemma at_tpl_keeps:
  assumes A: "Asserts P" and R: "restore_ok R" and I: "dxe_inv s"
    and raise: "CoreRaiseTpl P t s = Some (old, s1)" and body: "keeps s1 s2" and res: "R old s2 = Some u"
  shows "keeps s u"
proof -
  note r = CoreRaiseTpl_run [OF raise A I]
  have "lock_tpl l \<le> old" if "held s2 l" for l
    using that r(6) body same_locks_held by (auto simp: keeps_def)
  moreover have "old \<le> gEfiCurrentTpl s2" "dxe_inv s2" using r body by (auto simp: keeps_def)
  ultimately have "dxe_inv u \<and> gEfiCurrentTpl u = old \<and> same_locks s2 u"
    using R res unfolding restore_ok_def by blast
  with r body show ?thesis by (auto simp: keeps_def intro: same_locks_trans)
qed

lemma run_services_pointwise:
  assumes "\<And>c s u. c \<in> set cs \<Longrightarrow> dxe_inv s \<Longrightarrow> run_service P E R c s = Some u \<Longrightarrow> keeps s u"
    and "dxe_inv s" "run_services P E R cs s = Some u"
  shows "keeps s u"
  using assms
proof (induction cs arbitrary: s)
  case Nil
  then show ?case by (simp add: keeps_refl)
next
  case (Cons c cs)
  then obtain v where v: "run_service P E R c s = Some v" "run_services P E R cs v = Some u"
    by (auto simp: bind_eq_Some_conv)
  have k: "keeps s v" using Cons.prems(1) [OF _ Cons.prems(2) v(1)] by simp
  have "keeps v u" by (rule Cons.IH [OF _ keeps_inv [OF k] v(2)]) (use Cons.prems(1) in auto)
  with k show ?case by (rule keeps_trans)
qed

lemma run_service_keeps:
  assumes A: "Asserts P" and R: "restore_ok R" and E: "alloc_ok E"
  shows "dxe_inv s \<Longrightarrow> run_service P E R c s = Some u \<Longrightarrow> keeps s u"
proof (induction c arbitrary: s u)
  case (Create ty tpl f c g)
  then show ?case
    using CoreCreateEventEx_keeps [OF A R, of s "AllocatePool E s"] E by (auto simp: alloc_ok_def)
next
  case (AtTpl t cs)
  then obtain old s1 s2 where s1: "CoreRaiseTpl P t s = Some (old, s1)"
    and s2: "run_services P E R cs s1 = Some s2" and u: "R old s2 = Some u"
    by (auto simp: bind_eq_Some_conv)
  have "keeps s1 s2"
    using run_services_pointwise [OF AtTpl.IH CoreRaiseTpl_run(2) [OF s1 A AtTpl.prems(1)] s2] .
  then show ?case by (rule at_tpl_keeps [OF A R AtTpl.prems(1) s1 _ u])
qed (use CoreSignalEvent_keeps [OF A R] CoreCheckEvent_keeps [OF A R] CoreWaitForEvent_keeps [OF A R]
     CoreSetTimer_keeps [OF A R] CoreCloseEvent_keeps [OF A R] CoreTimerTick_keeps [OF A R] in auto)

lemma run_services_keeps:
  assumes A: "Asserts P" and R: "restore_ok R" and E: "alloc_ok E"
    and I: "dxe_inv s" and run: "run_services P E R cs s = Some u"
  shows "keeps s u"
  using run_services_pointwise [OF run_service_keeps [OF A R E] I run] .

text \<open>Drivers whose notification functions are programs meet the contract of drivers.\<close>

definition program_drivers :: "platform \<Rightarrow> 'u env \<Rightarrow> (nat \<Rightarrow> service list) \<Rightarrow> 'u drivers" where
  "program_drivers P E prog = (\<lambda>k R e c. run_services P E R (prog k))"

lemma program_drivers_ok: "Asserts P \<Longrightarrow> alloc_ok E \<Longrightarrow> drivers_ok (program_drivers P E prog)"
  unfolding drivers_ok_def program_drivers_def service_ok_def
  by (blast intro: run_services_keeps)

subsection \<open>Boot and the reachable states\<close>

text \<open>The initial values of the global variables.\<close>

definition boot_state :: "'u \<Rightarrow> 'u dxe" where
  "boot_state c = \<lparr>gEfiCurrentTpl = TPL_APPLICATION, InterruptsEnabled = False,
     Locks = (\<lambda>l. \<lparr>Tpl = lock_tpl l, OwnerTpl = TPL_APPLICATION, Lock = EfiLockReleased\<rparr>),
     Db = \<lparr>gEventQueue = (\<lambda>_. []), gEventPending = 0, gEventSignalQueue = [], gRuntimeEventHead = [],
       mEfiTimerList = [], mEfiCheckTimerEvent = 0, mEfiSystemTime = 0, Events = (\<lambda>_. None)\<rparr>,
     Ctx = c\<rparr>"

text \<open>The restore function of a system whose drivers are the programs \<open>prog\<close>.\<close>

definition system_restore ::
    "platform \<Rightarrow> 'u env \<Rightarrow> (nat \<Rightarrow> service list) \<Rightarrow> nat \<Rightarrow> 'u restore" where
  "system_restore P E prog n = CoreRestoreTpl P (program_drivers P E prog) n"

definition booted :: "platform \<Rightarrow> 'u env \<Rightarrow> (nat \<Rightarrow> service list) \<Rightarrow> nat \<Rightarrow> 'u dxe \<Rightarrow> bool" where
  "booted P E prog n s \<longleftrightarrow> (\<exists>pool st c.
     CoreInitializeEventServices P (system_restore P E prog n) pool (boot_state c) = Some (st, s))"

inductive services_step ::
    "platform \<Rightarrow> 'u env \<Rightarrow> (nat \<Rightarrow> service list) \<Rightarrow> nat \<Rightarrow> 'u dxe \<Rightarrow> 'u dxe \<Rightarrow> bool"
  for P :: platform and E :: "'u env" and prog :: "nat \<Rightarrow> service list" and n :: nat where
  call: "run_service P E (system_restore P E prog n) c s = Some t \<Longrightarrow> services_step P E prog n s t"

inductive_cases services_stepE: "services_step P E prog n s t"

lemma system_restore_ok: "Asserts P \<Longrightarrow> alloc_ok E \<Longrightarrow> restore_ok (system_restore P E prog n)"
  by (simp add: system_restore_def CoreRestoreTpl_ok program_drivers_ok)

lemma boot_state_inv: "dxe_inv (boot_state c)"
  by (simp add: boot_state_def dxe_inv_def db_inv_defs lock_inv_def quiet_def held_def)

lemma CoreInitializeEventServices_inv:
  assumes A: "Asserts P" and R: "restore_ok R"
    and run: "CoreInitializeEventServices P R pool (boot_state c) = Some (st, s)"
  shows "dxe_inv s"
proof -
  let ?s0 = "upd_db (\<lambda>d. d\<lparr>gEventQueue := (\<lambda>p. if p \<le> TPL_HIGH_LEVEL then [] else gEventQueue d p)\<rparr>)
    (boot_state c)"
  have s0: "?s0 = boot_state c" by (simp add: boot_state_def upd_db_def fun_eq_iff)
  obtain st' r u where u: "CoreCreateEventEx P R pool EVT_NOTIFY_SIGNAL (TPL_HIGH_LEVEL - 1)
       (Some CoreCheckTimers_fn) 0 None True (boot_state c) = Some (st', r, u)"
    and s: "s = (case r of None \<Rightarrow> u | Some e \<Rightarrow> upd_db (\<lambda>d. d\<lparr>mEfiCheckTimerEvent := e\<rparr>) u)"
    using run unfolding CoreInitializeEventServices_def CoreInitializeTimer_def CoreCreateEvent_def Let_def s0
    by (auto simp: bind_eq_Some_conv)
  have "keeps (boot_state c) u"
    by (rule CoreCreateEventEx_keeps [OF A R boot_state_inv _ u]) (simp add: boot_state_def)
  then have I: "dxe_inv u" by (rule keeps_inv)
  then have "dxe_inv (upd_db (\<lambda>d. d\<lparr>mEfiCheckTimerEvent := e\<rparr>) u)" for e
    using trigger_same [of "(Db u)\<lparr>mEfiCheckTimerEvent := e\<rparr>" "Db u"]
    by (simp add: dxe_inv_def db_inv_defs lock_inv_def quiet_def held_def)
  with I s show ?thesis by (cases r) simp_all
qed

interpretation ev: step_system "booted P E prog n" "services_step P E prog n"
    "\<lambda>s. Asserts P \<longrightarrow> alloc_ok E \<longrightarrow> dxe_inv s" for P E prog n
proof unfold_locales
  fix s assume "booted P E prog n s"
  then show "Asserts P \<longrightarrow> alloc_ok E \<longrightarrow> dxe_inv s"
    unfolding booted_def by (blast intro: CoreInitializeEventServices_inv system_restore_ok)
next
  fix s t
  assume "Asserts P \<longrightarrow> alloc_ok E \<longrightarrow> dxe_inv s" "services_step P E prog n s t"
  then show "Asserts P \<longrightarrow> alloc_ok E \<longrightarrow> dxe_inv t"
    by (blast elim: services_stepE intro: keeps_inv run_service_keeps [OF _ system_restore_ok])
qed

end
