(* ===== verification/EventOrder.thy ===== *)
theory EventOrder
  imports EventSystem
begin

unbundle bit_operations_syntax

section \<open>The order of notifications\<close>

text \<open>
  With drivers that only write a log, \<open>CoreRestoreTpl\<close> returns, and the log shows the order: all
  levels above the new one, highest level first, each queue first in, first out.
\<close>

definition log_drivers :: "eid list drivers" where
  "log_drivers k R e c s = Some (s\<lparr>Ctx := Ctx s @ [e]\<rparr>)"

lemma dxe_inv_ctx [simp]: "dxe_inv (s\<lparr>Ctx := c\<rparr>) = dxe_inv s"
  by (simp add: dxe_inv_def lock_inv_def held_def)

lemma keeps_ctx: "dxe_inv s \<Longrightarrow> keeps s (s\<lparr>Ctx := c\<rparr>)"
  by (simp add: keeps_def same_locks_def)

lemma log_drivers_ok: "drivers_ok log_drivers"
  by (auto simp: drivers_ok_def service_ok_def log_drivers_def keeps_ctx)

subsection \<open>Calls that return\<close>

lemma CoreAcquireLock_returns:
  assumes "Lock (Locks s l) = EfiLockReleased" "lock_inv s" "gEfiCurrentTpl s \<le> lock_tpl l"
  shows "\<exists>t. CoreAcquireLock P l s = Some t"
proof -
  have "VALID_TPL (lock_tpl l)" by (simp add: VALID_TPL_def)
  then show ?thesis
    using assms by (auto simp: CoreAcquireLock_def CoreRaiseTpl_def lock_inv_def Let_def)
qed

lemma CoreRestoreTpl_returns:
  assumes "pending_inv (Db s)" "quiet t (Db s)" "t \<le> gEfiCurrentTpl s" "t \<le> TPL_HIGH_LEVEL"
  shows "\<exists>u. CoreRestoreTpl P NC (Suc n) t s = Some u"
proof -
  have "while_opt (\<lambda>s. restore_mask t AND gEventPending (Db s) \<noteq> 0) b s' = Some s'"
    if "Db s' = Db s" for b and s' :: "'a dxe"
    using restore_mask_quiet [OF assms(1), of t] assms(2) that by (subst while_opt.simps) simp
  then show ?thesis
    using assms(3,4) by (simp add: RestoreTpl_body_def Let_def VALID_TPL_def)
qed

lemma CoreReleaseLock_returns:
  assumes "locked l s t" "pending_inv (Db t)" "quiet (gEfiCurrentTpl s) (Db t)"
  shows "\<exists>u. CoreReleaseLock P (CoreRestoreTpl P NC (Suc n)) l t = Some u"
proof -
  have "gEfiCurrentTpl s \<le> TPL_HIGH_LEVEL" using assms(1) by (simp add: locked_def lock_inv_bound)
  then have "\<exists>u. CoreRestoreTpl P NC (Suc n) (gEfiCurrentTpl s)
      (t\<lparr>Locks := (Locks t)(l := (Locks t l)\<lparr>Lock := EfiLockReleased\<rparr>)\<rparr>) = Some u"
    by (intro CoreRestoreTpl_returns) (use assms in \<open>simp_all add: locked_def\<close>)
  then show ?thesis
    using assms(1) by (simp add: CoreReleaseLock_def locked_def held_def Let_def)
qed

subsection \<open>One level\<close>

text \<open>The notification functions of the queued events are those of drivers.\<close>

definition driver_queue :: "event_db \<Rightarrow> EFI_TPL \<Rightarrow> bool" where
  "driver_queue d p \<longleftrightarrow> (\<forall>e \<in> set (gEventQueue d p). \<forall>ev. Events d e = Some ev \<longrightarrow>
     NotifyFunction ev \<noteq> Some CoreCheckTimers_fn)"

text \<open>What is known of the events when a database has changed by notifications only.\<close>

definition same_fns :: "event_db \<Rightarrow> event_db \<Rightarrow> bool" where
  "same_fns d d' \<longleftrightarrow> (\<forall>e. map_option NotifyFunction (Events d' e) = map_option NotifyFunction (Events d e))"

lemma same_fns_driver_queue:
  "same_fns d d' \<Longrightarrow> driver_queue d p \<Longrightarrow> set (gEventQueue d' p) \<subseteq> set (gEventQueue d p) \<Longrightarrow> driver_queue d' p"
  unfolding same_fns_def driver_queue_def
proof (intro ballI allI impI)
  fix e ev
  assume a: "\<forall>e. map_option NotifyFunction (Events d' e) = map_option NotifyFunction (Events d e)"
    "\<forall>e \<in> set (gEventQueue d p). \<forall>ev. Events d e = Some ev \<longrightarrow> NotifyFunction ev \<noteq> Some CoreCheckTimers_fn"
    "set (gEventQueue d' p) \<subseteq> set (gEventQueue d p)" "e \<in> set (gEventQueue d' p)" "Events d' e = Some ev"
  then obtain ev0 where "Events d e = Some ev0" "NotifyFunction ev0 = NotifyFunction ev"
    by (metis (no_types, lifting) map_option_eq_Some option.simps(9))
  with a show "NotifyFunction ev \<noteq> Some CoreCheckTimers_fn" by fastforce
qed

lemma same_fns_take: "Events d e = Some ev \<Longrightarrow> same_fns d (take_db e ev d)"
  by (auto simp: same_fns_def take_db_def)

lemma same_fns_trans: "same_fns a b \<Longrightarrow> same_fns b c \<Longrightarrow> same_fns a c"
  by (simp add: same_fns_def)

text \<open>An event is on no more than one queue, and there once.\<close>

lemma queue_removeAll:
  assumes "db_inv d" "gEventQueue d p = e # q"
  shows "(\<lambda>r. removeAll e (gEventQueue d r)) = (gEventQueue d)(p := q)"
proof
  fix r
  have "e \<notin> set (gEventQueue d r)" if "r \<noteq> p"
    using assms that unfolding db_inv_def queue_inv_def by (metis list.set_intros(1) option.inject)
  moreover have "e \<notin> set q" using assms unfolding db_inv_def queue_inv_def by (metis distinct.simps(2))
  ultimately show "removeAll e (gEventQueue d r) = ((gEventQueue d)(p := q)) r"
    using assms(2) by simp
qed

text \<open>One turn of the loop of \<open>CoreDispatchEventNotifies\<close>, for a queue \<open>e # q\<close>.\<close>

lemma dispatch_one_logs:
  fixes t :: "eid list dxe"
  assumes A: "Asserts P" and lk: "locked gEventQueueLock s t" and s: "gEfiCurrentTpl s = p"
    and D: "db_inv (Db t)" and q: "gEventQueue (Db t) p = e # q" "driver_queue (Db t) p" "quiet p (Db t)"
  shows "\<exists>s' u. dispatch_one P log_drivers (CoreRestoreTpl P log_drivers (Suc n)) p t = Some u \<and>
    keeps s s' \<and> locked gEventQueueLock s' u \<and> db_inv (Db u) \<and> same_fns (Db t) (Db u) \<and>
    gEventQueue (Db u) = (gEventQueue (Db t))(p := q) \<and> gEventPending (Db u) = gEventPending (Db t) \<and>
    Ctx u = Ctx t @ [e]"
proof -
  define R where "R = CoreRestoreTpl P log_drivers (Suc n)"
  have R: "restore_ok R" unfolding R_def by (rule CoreRestoreTpl_ok [OF A log_drivers_ok])
  obtain ev where ev: "Events (Db t) e = Some ev" "is_notify ev"
    using D q(1) unfolding db_inv_def queue_inv_def by (metis list.set_intros(1))
  then have e: "e \<noteq> 0" "NotifyFunction ev \<noteq> None"
    using D by (auto simp: db_inv_def events_inv_def event_ok_def)
  then obtain k where k: "NotifyFunction ev = Some (Driver_fn k)"
    using q(1,2) ev(1) by (cases "the (NotifyFunction ev)") (auto simp: driver_queue_def)
  let ?t = "upd_db (take_db e ev) t"
  have D': "db_inv (take_db e ev (Db t))" by (rule db_inv_take [OF D ev(1)])
  have pq: "pending_inv (Db ?t)" "quiet (gEfiCurrentTpl s) (Db ?t)"
    using D' q(3) s by (simp_all add: db_inv_def quiet_def)
  have lk': "locked gEventQueueLock s ?t" using lk by simp
  obtain v where v: "CoreReleaseLock P R gEventQueueLock ?t = Some v"
    using CoreReleaseLock_returns [OF lk' pq] unfolding R_def by blast
  note r = CoreReleaseLock_quiet [OF v A R lk' pq]
  have kv: "keeps s v" using CoreReleaseLock_done [OF v A R lk'] D' by simp
  let ?w = "v\<lparr>Ctx := Ctx v @ [e]\<rparr>"
  have kw: "keeps s ?w" using kv keeps_ctx [OF keeps_inv [OF kv]] by (rule keeps_trans)
  have "Lock (Locks ?w gEventQueueLock) = EfiLockReleased"
    using kw lk by (simp add: keeps_def same_locks_def locked_def)
  moreover have "lock_inv ?w" using keeps_inv [OF kw] by (simp add: dxe_inv_def)
  moreover from this have "gEfiCurrentTpl ?w \<le> lock_tpl gEventQueueLock"
    by (simp add: lock_inv_def)
  ultimately obtain u where u: "CoreAcquireLock P gEventQueueLock ?w = Some u"
    using CoreAcquireLock_returns by blast
  note lu = CoreAcquireLock_locked [OF u A \<open>lock_inv ?w\<close>]
  have du: "Db u = take_db e ev (Db t)" "Ctx u = Ctx t @ [e]" using lu r by simp_all
  obtain ev' where ev': "Events (Db v) e = Some ev'" "NotifyFunction ev' = Some (Driver_fn k)"
    using r(2) ev(1) k by (cases "is_signal ev") (auto simp: take_db_def)
  have "dispatch_one P log_drivers R p t = Some u"
    unfolding dispatch_one_def Let_def event_lock_defs
    using q(1) ev(1) e(1) v u ev'
    by (simp add: ievent_def take_db_def [abs_def] upd_db_def run_notify_def log_drivers_def split: if_splits)
  moreover have "same_fns (Db t) (Db u)" using same_fns_take [OF ev(1)] du by simp
  moreover have "gEventQueue (Db u) = (gEventQueue (Db t))(p := q)"
    using queue_removeAll [OF D q(1)] du by (simp add: fun_eq_iff)
  ultimately show ?thesis
    using kw lu(1) D' du unfolding R_def by (intro exI [of _ ?w] exI [of _ u]) simp
qed

text \<open>All of one level: the loop and the code around it.\<close>

lemma CoreDispatchEventNotifies_logs:
  fixes s :: "eid list dxe"
  assumes A: "Asserts P" and I: "dxe_inv s" and s: "gEfiCurrentTpl s = p" "p < TPL_HIGH_LEVEL"
    and lk: "Lock (Locks s gEventQueueLock) = EfiLockReleased" and dq: "driver_queue (Db s) p"
  shows "\<exists>u. CoreDispatchEventNotifies P log_drivers (CoreRestoreTpl P log_drivers (Suc n)) p s = Some u \<and>
    keeps s u \<and> same_fns (Db s) (Db u) \<and> gEventQueue (Db u) = (gEventQueue (Db s))(p := []) \<and>
    gEventPending (Db u) = gEventPending (Db s) AND NOT (pending_bit p) \<and>
    Ctx u = Ctx s @ gEventQueue (Db s) p"
proof -
  define R where "R = CoreRestoreTpl P log_drivers (Suc n)"
  have R: "restore_ok R" unfolding R_def by (rule CoreRestoreTpl_ok [OF A log_drivers_ok])
  obtain t where t: "CoreAcquireLock P gEventQueueLock s = Some t"
    using CoreAcquireLock_returns [OF lk dxe_invD(2) [OF I]] s by auto
  note lt = CoreAcquireLock_locked [OF t A dxe_invD(2) [OF I]]
  have qs: "quiet p (Db s)" using I s(1) by (simp add: dxe_inv_def lock_inv_def)
  define J where "J x \<longleftrightarrow> (\<exists>s' d. keeps s s' \<and> locked gEventQueueLock s' x \<and> db_inv (Db x) \<and>
      same_fns (Db s) (Db x) \<and> gEventPending (Db x) = gEventPending (Db s) \<and>
      gEventQueue (Db s) p = d @ gEventQueue (Db x) p \<and> Ctx x = Ctx s @ d \<and>
      gEventQueue (Db x) = (gEventQueue (Db s))(p := gEventQueue (Db x) p))" for x
  have Jt: "J t"
    unfolding J_def using lt keeps_refl [OF I] dxe_invD(1) [OF I]
    by (intro exI [of _ s] exI [of _ "[]"]) (simp add: same_fns_def)
  have turn: "\<exists>v. dispatch_one P log_drivers R p x = Some v \<and> J v \<and>
      length (gEventQueue (Db v) p) < length (gEventQueue (Db x) p)"
    if J: "J x" and ne: "gEventQueue (Db x) p \<noteq> []" for x
  proof -
    obtain e q where eq: "gEventQueue (Db x) p = e # q" using ne by (cases "gEventQueue (Db x) p") auto
    obtain s' d where x: "keeps s s'" "locked gEventQueueLock s' x" "db_inv (Db x)" "same_fns (Db s) (Db x)"
      "gEventPending (Db x) = gEventPending (Db s)" "gEventQueue (Db s) p = d @ e # q" "Ctx x = Ctx s @ d"
      "gEventQueue (Db x) = (gEventQueue (Db s))(p := e # q)"
      using J unfolding J_def eq by blast
    have "gEfiCurrentTpl s' = p" using x(1) s by (simp add: keeps_def)
    moreover have "driver_queue (Db x) p"
      by (rule same_fns_driver_queue [OF x(4) dq]) (use x(6) eq in auto)
    moreover have "quiet p (Db x)" using qs x(5) by (simp add: quiet_def)
    ultimately obtain s'' v where v: "dispatch_one P log_drivers R p x = Some v" "keeps s' s''"
      "locked gEventQueueLock s'' v" "db_inv (Db v)" "same_fns (Db x) (Db v)"
      "gEventQueue (Db v) = (gEventQueue (Db x))(p := q)" "gEventPending (Db v) = gEventPending (Db x)"
      "Ctx v = Ctx x @ [e]"
      using dispatch_one_logs [OF A x(2) _ x(3) eq] unfolding R_def by blast
    have "J v"
      unfolding J_def
      by (intro exI [of _ s''] exI [of _ "d @ [e]"])
        (use v x keeps_trans [OF x(1) v(2)] same_fns_trans [OF x(4) v(5)] in simp)
    with v eq show ?thesis by simp
  qed
  have "\<exists>t1. while_opt (\<lambda>s. gEventQueue (Db s) p \<noteq> []) (dispatch_one P log_drivers R p) t = Some t1 \<and>
      J t1 \<and> \<not> gEventQueue (Db t1) p \<noteq> []"
    by (rule while_opt_total [where I = J and m = "\<lambda>x. length (gEventQueue (Db x) p)", OF turn Jt])
  then obtain t1 where t1:
    "while_opt (\<lambda>s. gEventQueue (Db s) p \<noteq> []) (dispatch_one P log_drivers R p) t = Some t1"
    "J t1" "gEventQueue (Db t1) p = []"
    by blast
  then obtain s' where x: "keeps s s'" "locked gEventQueueLock s' t1" "db_inv (Db t1)" "same_fns (Db s) (Db t1)"
      "gEventPending (Db t1) = gEventPending (Db s)" "Ctx t1 = Ctx s @ gEventQueue (Db s) p"
      "gEventQueue (Db t1) = (gEventQueue (Db s))(p := [])"
    unfolding J_def by auto
  let ?c = "\<lambda>d. d\<lparr>gEventPending := gEventPending d AND NOT (pending_bit p)\<rparr>"
  have D: "db_inv (?c (Db t1))" by (rule db_inv_clear [OF x(3) t1(3)]) (use s in simp)
  have q': "locked gEventQueueLock s' (upd_db ?c t1)" "pending_inv (Db (upd_db ?c t1))"
    "quiet (gEfiCurrentTpl s') (Db (upd_db ?c t1))"
    using x(1,2,5) D qs s(1) by (simp_all add: db_inv_def quiet_def bit_and_iff keeps_def)
  obtain u where u: "CoreReleaseLock P R gEventQueueLock (upd_db ?c t1) = Some u"
    using CoreReleaseLock_returns [OF q'] unfolding R_def by blast
  note r = CoreReleaseLock_quiet [OF u A R q']
  have "keeps s' u" using CoreReleaseLock_done [OF u A R q'(1)] D by simp
  then have k: "keeps s u" using keeps_trans [OF x(1)] by blast
  have "OwnerTpl (Locks t gEventQueueLock) = p" using lt(1) s(1) by (simp add: locked_def)
  then have "CoreDispatchEventNotifies P log_drivers R p s = Some u"
    using t t1(1) u by (simp add: CoreDispatchEventNotifies_def event_lock_defs Let_def)
  moreover have "same_fns (Db s) (Db u)" using x(4) r(2) by (simp add: same_fns_def)
  ultimately show ?thesis using k r x(5,6,7) unfolding R_def by (intro exI [of _ u]) simp
qed


subsection \<open>All levels\<close>

definition pending_set :: "event_db \<Rightarrow> nat set" where
  "pending_set d = {k. bit (gEventPending d) k}"

lemma finite_pending_set [simp]: "finite (pending_set d)"
proof -
  have "pending_set d \<subseteq> {..<64}" using bit_imp_le_length by (fastforce simp: pending_set_def)
  then show ?thesis by (rule finite_subset) simp
qed

text \<open>The levels from \<open>p0\<close> on have been dispatched, in descending order.\<close>

definition dispatched :: "eid list dxe \<Rightarrow> EFI_TPL \<Rightarrow> eid list dxe \<Rightarrow> bool" where
  "dispatched s p0 x \<longleftrightarrow> p0 \<le> TPL_HIGH_LEVEL \<and> (\<forall>k \<in> pending_set (Db x). k < p0) \<and> same_fns (Db s) (Db x) \<and>
     (\<forall>p. gEventQueue (Db x) p = (if p0 \<le> p then [] else gEventQueue (Db s) p)) \<and>
     Ctx x = Ctx s @ concat (map (gEventQueue (Db s)) (rev [p0..<TPL_HIGH_LEVEL]))"

lemma rev_upt_split: "p < q \<Longrightarrow> q \<le> m \<Longrightarrow> rev [p..<m] = rev [q..<m] @ rev [Suc p..<q] @ [p]"
  by (metis less_imp_le_nat rev_append rev.simps(2) upt_add_eq_append upt_conv_Cons le_Suc_ex)

lemma concat_gap:
  assumes "\<And>p. p \<in> set xs \<Longrightarrow> f p = []"
  shows "concat (map f xs) = []"
  using assms by simp

lemma pending_set_empty_queue: "db_inv d \<Longrightarrow> p \<notin> pending_set d \<Longrightarrow> gEventQueue d p = []"
  by (auto simp: db_inv_def pending_inv_def pending_set_def)

lemma restore_one_logs:
  fixes s :: "eid list dxe"
  assumes A: "Asserts P" and r: "restoring t s x" and d: "dispatched s p0 x"
    and lk: "Lock (Locks s gEventQueueLock) = EfiLockReleased" and dq: "\<And>p. t < p \<Longrightarrow> driver_queue (Db s) p"
    and c: "restore_mask t AND gEventPending (Db x) \<noteq> 0"
  shows "\<exists>y p. restore_one P log_drivers (CoreRestoreTpl P log_drivers (Suc n)) x = Some y \<and>
    restoring t s y \<and> t < p \<and> dispatched s p y \<and> card (pending_set (Db y)) < card (pending_set (Db x))"
proof -
  have D: "db_inv (Db x)" using r by (simp add: restoring_def)
  have pi: "pending_inv (Db x)" using D by (simp add: db_inv_def)
  have "gEventPending (Db x) \<noteq> 0" using c by auto
  then obtain p where p: "nat (HighBitSet64 (gEventPending (Db x))) = p" "bit (gEventPending (Db x)) p"
    "quiet p (Db x)" "p < TPL_HIGH_LEVEL"
    by (rule pending_highest [OF pi])
  have tp: "t < p"
    using c p(3) restore_mask_quiet [OF pi, of t] by (auto simp: quiet_def not_le intro: order_less_le_trans)
  let ?x = "enter_level P p x"
  have I: "dxe_inv ?x" "same_locks s ?x" using restoring_level [OF r p(3), of ?x] tp p(4) by simp_all
  have pp: "p < p0" using d p(2) by (auto simp: dispatched_def pending_set_def)
  have q: "gEventQueue (Db x) p = gEventQueue (Db s) p" using d pp by (auto simp: dispatched_def)
  have "driver_queue (Db ?x) p"
    by (rule same_fns_driver_queue [OF _ dq [OF tp]]) (use d q in \<open>auto simp: dispatched_def\<close>)
  moreover have "Lock (Locks ?x gEventQueueLock) = EfiLockReleased" using I(2) lk by (simp add: same_locks_def)
  ultimately obtain y where y: "CoreDispatchEventNotifies P log_drivers (CoreRestoreTpl P log_drivers (Suc n)) p ?x = Some y"
    "keeps ?x y" "same_fns (Db x) (Db y)" "gEventQueue (Db y) = (gEventQueue (Db x))(p := [])"
    "gEventPending (Db y) = gEventPending (Db x) AND NOT (pending_bit p)"
    "Ctx y = Ctx x @ gEventQueue (Db x) p"
    using CoreDispatchEventNotifies_logs [OF A I(1) _ p(4), where n = n] by auto
  have one: "restore_one P log_drivers (CoreRestoreTpl P log_drivers (Suc n)) x = Some y"
    using y(1) p(1) by (simp add: restore_one_def Let_def)
  have ry: "restoring t s y"
    using restore_one_restoring [OF A CoreRestoreTpl_ok [OF A log_drivers_ok] log_drivers_ok r c one] .
  have ps: "pending_set (Db y) = pending_set (Db x) - {p}"
    using y(5) p(4) by (auto simp: pending_set_def bit_clear_pending)
  have gap: "gEventQueue (Db s) k = []" if "p < k" "k < p0" for k
  proof -
    have "k \<notin> pending_set (Db x)" using p(3) that by (auto simp: quiet_def pending_set_def)
    then have "gEventQueue (Db x) k = []" by (rule pending_set_empty_queue [OF D])
    with d that show ?thesis by (simp add: dispatched_def)
  qed
  have p0: "p0 \<le> TPL_HIGH_LEVEL" using d by (simp add: dispatched_def)
  have "concat (map (gEventQueue (Db s)) (rev [p..<TPL_HIGH_LEVEL])) =
      concat (map (gEventQueue (Db s)) (rev [p0..<TPL_HIGH_LEVEL])) @
      concat (map (gEventQueue (Db s)) (rev [Suc p..<p0])) @ gEventQueue (Db s) p"
    unfolding rev_upt_split [OF pp p0] by simp
  moreover have "concat (map (gEventQueue (Db s)) (rev [Suc p..<p0])) = []"
    by (rule concat_gap) (use gap in auto)
  ultimately have ctx: "Ctx y = Ctx s @ concat (map (gEventQueue (Db s)) (rev [p..<TPL_HIGH_LEVEL]))"
    using y(6) d q by (simp add: dispatched_def)
  have qy: "gEventQueue (Db y) k = (if p \<le> k then [] else gEventQueue (Db s) k)" for k
    using y(4) d gap [of k] pp by (auto simp: dispatched_def)
  have "k < p" if "k \<in> pending_set (Db y)" for k
    using that ps p(3) by (auto simp: quiet_def pending_set_def order_le_less)
  then have "dispatched s p y"
    using ctx qy p(4) same_fns_trans [OF _ y(3)] d by (auto simp: dispatched_def)
  moreover have "card (pending_set (Db y)) < card (pending_set (Db x))"
    unfolding ps using p(2) by (intro card_Diff1_less finite_pending_set) (simp add: pending_set_def)
  ultimately show ?thesis using one ry tp by blast
qed


lemma restore_loop_logs:
  fixes s :: "eid list dxe"
  assumes A: "Asserts P" and s1: "restoring t s s1" "dispatched s TPL_HIGH_LEVEL s1" and t: "t < TPL_HIGH_LEVEL"
    and lk: "Lock (Locks s gEventQueueLock) = EfiLockReleased" and dq: "\<And>p. t < p \<Longrightarrow> driver_queue (Db s) p"
  shows "\<exists>s2. while_opt (\<lambda>s. restore_mask t AND gEventPending (Db s) \<noteq> 0)
      (restore_one P log_drivers (CoreRestoreTpl P log_drivers (Suc n))) s1 = Some s2 \<and>
    dispatched s (Suc t) s2 \<and> restoring t s s2"
proof -
  define J where "J x \<longleftrightarrow> restoring t s x \<and> (\<exists>p0 > t. dispatched s p0 x)" for x
  have turn: "\<exists>v. restore_one P log_drivers (CoreRestoreTpl P log_drivers (Suc n)) x = Some v \<and> J v \<and>
      card (pending_set (Db v)) < card (pending_set (Db x))"
    if "J x" "restore_mask t AND gEventPending (Db x) \<noteq> 0" for x
    using restore_one_logs [OF A _ _ lk dq that(2), where n = n] that(1) unfolding J_def by blast
  have Js1: "J s1" using s1 t unfolding J_def by blast
  have "\<exists>s2. while_opt (\<lambda>s. restore_mask t AND gEventPending (Db s) \<noteq> 0)
      (restore_one P log_drivers (CoreRestoreTpl P log_drivers (Suc n))) s1 = Some s2 \<and> J s2 \<and>
      \<not> restore_mask t AND gEventPending (Db s2) \<noteq> 0"
    by (rule while_opt_total [where I = J and m = "\<lambda>x. card (pending_set (Db x))", OF turn Js1])
  then obtain s2 p0 where w: "while_opt (\<lambda>s. restore_mask t AND gEventPending (Db s) \<noteq> 0)
      (restore_one P log_drivers (CoreRestoreTpl P log_drivers (Suc n))) s1 = Some s2"
    and r: "restoring t s s2" and p0: "t < p0" and d: "dispatched s p0 s2"
    and z: "restore_mask t AND gEventPending (Db s2) = 0"
    unfolding J_def by blast
  have D: "db_inv (Db s2)" using r by (simp add: restoring_def)
  then have q: "quiet t (Db s2)" using z restore_mask_quiet [of "Db s2" t] by (simp add: db_inv_def)
  have gap: "gEventQueue (Db s) k = []" if "t < k" "k < p0" for k
  proof -
    have "k \<notin> pending_set (Db s2)" using q that by (auto simp: quiet_def pending_set_def)
    then have "gEventQueue (Db s2) k = []" by (rule pending_set_empty_queue [OF D])
    with d that show ?thesis by (simp add: dispatched_def)
  qed
  have "[Suc t..<TPL_HIGH_LEVEL] = [Suc t..<p0] @ [p0..<TPL_HIGH_LEVEL]"
    using p0 d upt_add_eq_append [of "Suc t" p0 "TPL_HIGH_LEVEL - p0"] by (simp add: dispatched_def)
  moreover have "concat (map (gEventQueue (Db s)) (rev [Suc t..<p0])) = []"
    by (rule concat_gap) (use gap in auto)
  ultimately have "dispatched s (Suc t) s2"
    using d q gap t p0 by (auto simp: dispatched_def quiet_def pending_set_def less_Suc_eq_le)
  with w r show ?thesis by blast
qed


text \<open>C2. Restoring a lower task priority level returns and notifies every event that is queued above the
  new level: highest level first and first in, first out within a level, seen in the log that the
  notification functions write. Queues at or below the new level stay as they are, the level is the
  new one and no notification above it is left pending. Two nested calls of \<open>CoreRestoreTpl\<close> are
  enough.\<close>

theorem restore_notifies_in_order:
  fixes s :: "eid list dxe"
  assumes A: "Asserts P" and I: "dxe_inv s" and t: "t \<le> gEfiCurrentTpl s" "t < TPL_HIGH_LEVEL"
    and locks: "\<forall>l. Lock (Locks s l) = EfiLockReleased"
    and dq: "\<forall>p > t. driver_queue (Db s) p"
  shows "\<exists>u. CoreRestoreTpl P log_drivers (Suc (Suc n)) t s = Some u \<and> gEfiCurrentTpl u = t \<and>
    Ctx u = Ctx s @ concat (map (gEventQueue (Db s)) (rev [t + 1..<TPL_HIGH_LEVEL])) \<and>
    (\<forall>p. gEventQueue (Db u) p = (if t < p then [] else gEventQueue (Db s) p)) \<and>
    quiet t (Db u) \<and> dxe_inv u"
proof -
  define s1 where "s1 = (if gEfiCurrentTpl s \<ge> TPL_HIGH_LEVEL \<and> t < TPL_HIGH_LEVEL
              then s\<lparr>gEfiCurrentTpl := TPL_HIGH_LEVEL\<rparr> else s)"
  have s1f: "Db s1 = Db s" "Ctx s1 = Ctx s" "Locks s1 = Locks s" by (simp_all add: s1_def)
  have D: "db_inv (Db s)" by (rule dxe_invD(1) [OF I])
  have "restoring t s s1"
    using D t I locks s1f by (simp add: restoring_def same_locks_def held_def dxe_inv_def lock_inv_def)
  moreover have "dispatched s TPL_HIGH_LEVEL s1"
  proof -
    have "k < TPL_HIGH_LEVEL" if "k \<in> pending_set (Db s)" for k
      using D that by (simp add: db_inv_def pending_inv_def pending_set_def)
    moreover from this have "gEventQueue (Db s) p = []" if "TPL_HIGH_LEVEL \<le> p" for p
      using pending_set_empty_queue [OF D, of p] that by fastforce
    ultimately show ?thesis using s1f by (simp add: dispatched_def same_fns_def)
  qed
  ultimately obtain s2 where w: "while_opt (\<lambda>s. restore_mask t AND gEventPending (Db s) \<noteq> 0)
      (restore_one P log_drivers (CoreRestoreTpl P log_drivers (Suc n))) s1 = Some s2"
    and d: "dispatched s (Suc t) s2" and r: "restoring t s s2"
    using restore_loop_logs [OF A _ _ t(2), where n = n] locks dq by blast
  let ?u = "CoreSetInterruptState P True (s2\<lparr>gEfiCurrentTpl := t\<rparr>)"
  have run: "CoreRestoreTpl P log_drivers (Suc (Suc n)) t s = Some ?u"
    using w t unfolding CoreRestoreTpl.simps RestoreTpl_body_def Let_def s1_def [symmetric]
    by (simp add: VALID_TPL_def)
  have q: "quiet t (Db s2)" using d by (auto simp: dispatched_def quiet_def pending_set_def less_Suc_eq_le)
  have "dxe_inv ?u" using restoring_level [OF r q, of ?u] t by simp
  with run d q show ?thesis by (intro exI [of _ ?u]) (simp add: dispatched_def Suc_le_eq)
qed


end
