(* ===== verification/EventLive.thy ===== *)
theory EventLive
  imports EventOrder
begin

unbundle bit_operations_syntax

section \<open>What an expired timer does, and that checking the timers returns\<close>

text \<open>
  The effect of one turn of the loop of \<open>CoreCheckTimers\<close> on the timer list, and calls at the level of
  the timer lock and above, which return because no notification runs there.
\<close>

lemma singleton_list: "distinct xs \<Longrightarrow> set xs = {x} \<Longrightarrow> xs = [x]"
proof (cases xs)
  case (Cons y ys)
  assume a: "distinct xs" "set xs = {x}"
  then have "z = x" if "z \<in> set ys" for z using that Cons by auto
  moreover have "y = x" "y \<notin> set ys" using a Cons by auto
  ultimately show ?thesis using Cons by (cases ys) auto
qed simp

subsection \<open>One expired timer\<close>

text \<open>Periods and trigger times under signalling.\<close>

definition period :: "event_db \<Rightarrow> eid \<Rightarrow> uint64" where
  "period d e = (case Events d e of Some ev \<Rightarrow> Period ev | None \<Rightarrow> 0)"

lemma signal_frame_times:
  assumes "signal_frame d d'"
  shows "trigger d' = trigger d" "period d' = period d" "mEfiTimerList d' = mEfiTimerList d"
    "mEfiCheckTimerEvent d' = mEfiCheckTimerEvent d" "Events d' e = None \<longleftrightarrow> Events d e = None"
proof -
  have m: "map_option (SignalCount_update (\<lambda>_. 0)) (Events d' x) = map_option (SignalCount_update (\<lambda>_. 0)) (Events d x)" for x
    using assms by (simp add: signal_frame_def)
  then show n: "Events d' e = None \<longleftrightarrow> Events d e = None" for e
    by (metis option.map_disc_iff)
  have "TriggerTime ev' = TriggerTime ev \<and> Period ev' = Period ev"
    if "Events d x = Some ev" "Events d' x = Some ev'" for x ev ev'
    using signal_frame_type [OF assms that(2)] that(1) by auto
  then have "trigger d' x = trigger d x \<and> period d' x = period d x" for x
    using n [of x] by (auto simp: trigger_def period_def split: option.splits)
  then show "trigger d' = trigger d" "period d' = period d" by auto
  show "mEfiTimerList d' = mEfiTimerList d" "mEfiCheckTimerEvent d' = mEfiCheckTimerEvent d"
    using assms by (simp_all add: signal_frame_def)
qed

lemma trigger_upd_time:
  "trigger (upd_event e (TriggerTime_update (\<lambda>_. t)) d) x =
     (if x = e \<and> Events d e \<noteq> None then t else trigger d x)"
  "period (upd_event e (TriggerTime_update (\<lambda>_. t)) d) x = period d x"
  by (auto simp: trigger_def period_def split: option.splits)

lemma CoreInsertEventTimer_effect:
  assumes I: "dxe_inv s" and e: "e \<notin> set (mEfiTimerList (Db s))"
    and ty: "\<And>ev. Events (Db s) e = Some ev \<Longrightarrow> Type ev AND EVT_TIMER \<noteq> 0"
    and run: "CoreInsertEventTimer P e s = Some u"
  shows "set (mEfiTimerList (Db u)) = insert e (set (mEfiTimerList (Db s)))" "trigger (Db u) = trigger (Db s)"
    "period (Db u) = period (Db s)" "Events (Db u) = Events (Db s)"
    "mEfiCheckTimerEvent (Db u) = mEfiCheckTimerEvent (Db s)"
proof -
  obtain l where l: "Db u = (Db s)\<lparr>mEfiTimerList := l\<rparr>" "set l = insert e (set (mEfiTimerList (Db s)))"
    using CoreInsertEventTimer_keeps [OF I e ty run] by blast
  then show "set (mEfiTimerList (Db u)) = insert e (set (mEfiTimerList (Db s)))" "trigger (Db u) = trigger (Db s)"
    "Events (Db u) = Events (Db s)" "mEfiCheckTimerEvent (Db u) = mEfiCheckTimerEvent (Db s)"
    by simp_all
  show "period (Db u) = period (Db s)" using l(1) by (simp add: period_def fun_eq_iff)
qed

text \<open>The trigger time a periodic timer gets when it is put back at time \<open>now\<close>.\<close>

definition next_time :: "uint64 \<Rightarrow> uint64 \<Rightarrow> uint64 \<Rightarrow> uint64" where
  "next_time now t p = (if t + p \<le> now then now else t + p)"

lemma rearm_timer_effect:
  assumes A: "Asserts P" and R: "restore_ok R" and I: "dxe_inv s"
    and hi: "TPL_HIGH_LEVEL - 1 \<le> gEfiCurrentTpl s" and e: "e \<notin> set (mEfiTimerList (Db s))"
    and ev: "Events (Db s) e = Some ev" "Type ev AND EVT_TIMER \<noteq> 0"
    and run: "rearm_timer P R now e ev s = Some u"
  shows "set (mEfiTimerList (Db u)) = insert e (set (mEfiTimerList (Db s))) \<and>
    trigger (Db u) = (trigger (Db s))(e := next_time now (TriggerTime ev) (Period ev)) \<and>
    period (Db u) = period (Db s) \<and> mEfiCheckTimerEvent (Db u) = mEfiCheckTimerEvent (Db s) \<and>
    (\<forall>x. Events (Db u) x = None \<longleftrightarrow> Events (Db s) x = None)"
proof -
  define retime :: "uint64 \<Rightarrow> 'a dxe" where
    "retime t = upd_db (upd_event e (TriggerTime_update (\<lambda>_. t))) s" for t
  have k3: "keeps s (retime t)" for t
    unfolding retime_def
    by (rule dxe_inv_upd_db [OF I]) (use I e in \<open>simp_all add: dxe_inv_def db_inv_upd_time\<close>)
  define nt where "nt = next_time now (TriggerTime ev) (Period ev)"
  have hi3: "TPL_HIGH_LEVEL - 1 \<le> gEfiCurrentTpl (retime now)" using hi by (simp add: retime_def)
  obtain s3 where s3: "CoreInsertEventTimer P e s3 = Some u" and k: "dxe_inv s3"
    and fr: "signal_frame (Db (retime nt)) (Db s3)"
  proof (cases "TriggerTime ev + Period ev \<le> now")
    case True
    with run obtain s3 st' where
      sg: "CoreSignalEvent P R (mEfiCheckTimerEvent (Db (retime now))) (retime now) = Some (st', s3)"
      and ins: "CoreInsertEventTimer P e s3 = Some u"
      by (auto simp: rearm_timer_def bind_eq_Some_conv Let_def retime_def)
    from True have "nt = now" by (simp add: nt_def next_time_def)
    with CoreSignalEvent_keeps [OF A R keeps_inv [OF k3] sg] hi3 show ?thesis
      by (intro that [OF ins]) (auto intro: keeps_inv)
  next
    case False
    then have "CoreInsertEventTimer P e (retime nt) = Some u"
      using run by (simp add: rearm_timer_def Let_def retime_def nt_def next_time_def)
    then show ?thesis by (rule that [OF _ keeps_inv [OF k3]]) simp
  qed
  note f = signal_frame_times [OF fr]
  have "e \<notin> set (mEfiTimerList (Db s3))" using f(3) e by (simp add: retime_def)
  moreover have "Type ev' AND EVT_TIMER \<noteq> 0" if "Events (Db s3) e = Some ev'" for ev'
    using signal_frame_type [OF fr that] ev by (auto simp: retime_def)
  ultimately have ins: "set (mEfiTimerList (Db u)) = insert e (set (mEfiTimerList (Db s3)))"
      "trigger (Db u) = trigger (Db s3)" "period (Db u) = period (Db s3)" "Events (Db u) = Events (Db s3)"
      "mEfiCheckTimerEvent (Db u) = mEfiCheckTimerEvent (Db s3)"
    using CoreInsertEventTimer_effect [OF k _ _ s3] by blast+
  have "trigger (Db (retime nt)) = (trigger (Db s))(e := nt)" "period (Db (retime nt)) = period (Db s)"
    using ev(1) by (auto simp: retime_def trigger_upd_time fun_eq_iff)
  moreover have "Events (Db u) x = None \<longleftrightarrow> Events (Db s) x = None" for x
    using ins(4) f(5) by (simp add: retime_def)
  ultimately show ?thesis
    using ins f by (simp add: nt_def) (simp add: retime_def upd_event_def)
qed

lemma expire_timer_effect:
  assumes A: "Asserts P" and R: "restore_ok R" and I: "dxe_inv s"
    and hi: "TPL_HIGH_LEVEL - 1 \<le> gEfiCurrentTpl s" and l: "mEfiTimerList (Db s) = e # q"
    and run: "expire_timer P R now e s = Some u"
  shows "set (mEfiTimerList (Db u)) = (if period (Db s) e = 0 then set q else insert e (set q)) \<and>
    trigger (Db u) = (if period (Db s) e = 0 then trigger (Db s)
      else (trigger (Db s))(e := next_time now (trigger (Db s) e) (period (Db s) e))) \<and>
    period (Db u) = period (Db s) \<and> mEfiCheckTimerEvent (Db u) = mEfiCheckTimerEvent (Db s) \<and>
    (\<forall>x. Events (Db u) x = None \<longleftrightarrow> Events (Db s) x = None)"
proof -
  define s1 where "s1 = upd_db (\<lambda>d. d\<lparr>mEfiTimerList := tl (mEfiTimerList d)\<rparr>) s"
  have D: "db_inv (Db s)" by (rule dxe_invD(1) [OF I])
  have k1: "keeps s s1"
    unfolding s1_def
    by (rule dxe_inv_upd_db [OF I])
      (use D db_inv_timer_list [OF D timer_inv_tl] in \<open>simp_all add: db_inv_def\<close>)
  have d1: "mEfiTimerList (Db s1) = q" "trigger (Db s1) = trigger (Db s)" "period (Db s1) = period (Db s)"
      "mEfiCheckTimerEvent (Db s1) = mEfiCheckTimerEvent (Db s)" "Events (Db s1) = Events (Db s)"
    using l by (simp_all add: s1_def trigger_def period_def fun_eq_iff)
  obtain st s2 ev where s2: "CoreSignalEvent P R e s1 = Some (st, s2)" and ev: "Events (Db s2) e = Some ev"
    and rest: "(if Period ev \<noteq> 0 then rearm_timer P R now e ev s2 else Some s2) = Some u"
    using run unfolding expire_timer_def s1_def [symmetric] Let_def
    by (auto simp: bind_eq_Some_conv ievent_Some)
  have k2: "keeps s1 s2" and f2: "signal_frame (Db s1) (Db s2)"
    using CoreSignalEvent_keeps [OF A R keeps_inv [OF k1] s2] hi by (auto simp: s1_def)
  note f = signal_frame_times [OF f2]
  have pt: "Period ev = period (Db s) e" "TriggerTime ev = trigger (Db s) e"
    using ev f(1,2) d1 period_def [of "Db s2" e] trigger_def [of "Db s2" e] by simp_all
  show ?thesis
  proof (cases "period (Db s) e = 0")
    case True
    with rest pt f d1 show ?thesis by simp
  next
    case False
    have ty: "Type ev AND EVT_TIMER \<noteq> 0"
    proof -
      obtain ev0 where "Events (Db s) e = Some ev0" "Type ev = Type ev0"
        using signal_frame_type [OF f2 ev] d1 by auto
      with D l show ?thesis by (auto simp: db_inv_def timer_inv_def)
    qed
    have "e \<notin> set (mEfiTimerList (Db s2))" using f(3) d1 D l by (simp add: db_inv_def timer_inv_def)
    moreover have "TPL_HIGH_LEVEL - 1 \<le> gEfiCurrentTpl s2" using hi k1 k2 by (simp add: keeps_def)
    ultimately show ?thesis
      using rearm_timer_effect [OF A R keeps_inv [OF k2] _ _ ev ty] rest pt False f d1 by simp
  qed
qed

subsection \<open>Calls at high level return\<close>

lemma release_high:
  assumes "locked l s t" "pending_inv (Db t)" "TPL_HIGH_LEVEL - 1 \<le> gEfiCurrentTpl s"
  shows "\<exists>u. CoreReleaseLock P (CoreRestoreTpl P NC (Suc n)) l t = Some u"
  using CoreReleaseLock_returns [OF assms(1,2) pending_high [OF assms(2,3)]] .

lemma notify_signal_loop_returns:
  "\<forall>e \<in> set es. e \<noteq> 0 \<and> Events (Db s) e \<noteq> None \<Longrightarrow> Lock (Locks s gEventQueueLock) = EfiLockAcquired \<Longrightarrow>
   \<exists>t. notify_signal_loop P g es s = Some t"
proof (induction es arbitrary: s)
  case Nil
  then show ?case by simp
next
  case (Cons e es)
  then obtain ev where ev: "ievent s e = Some ev" by (auto simp: ievent_def)
  have n: "CoreNotifyEvent P e s = Some (upd_db (notify_db ev e) s)"
    using ev Cons.prems(2) by (simp add: CoreNotifyEvent_def notify_db_def [abs_def])
  have "\<exists>t. notify_signal_loop P g es (if EventGroup ev = g then upd_db (notify_db ev e) s else s) = Some t"
    by (rule Cons.IH) (use Cons.prems in \<open>simp_all add: notify_db_def\<close>)
  with ev n show ?case by (cases "EventGroup ev = g") simp_all
qed

lemma CoreNotifySignalList_returns:
  assumes A: "Asserts P" and L: "lock_inv s" and I: "db_inv_but X (Db s)"
    and hi: "TPL_HIGH_LEVEL - 1 \<le> gEfiCurrentTpl s" and free: "Lock (Locks s gEventQueueLock) = EfiLockReleased"
  shows "\<exists>u. CoreNotifySignalList P (CoreRestoreTpl P NC (Suc n)) g s = Some u"
proof -
  obtain t where t: "CoreAcquireLock P gEventQueueLock s = Some t"
    using CoreAcquireLock_returns [OF free L] L by (auto simp: lock_inv_def)
  note lk = CoreAcquireLock_locked [OF t A L]
  have live: "\<forall>e \<in> set (gEventSignalQueue (Db t)). e \<noteq> 0 \<and> Events (Db t) e \<noteq> None"
  proof
    fix e assume "e \<in> set (gEventSignalQueue (Db t))"
    then obtain ev where "Events (Db t) e = Some ev"
      using I lk(2) unfolding db_inv_but_def signal_inv_def by auto
    then show "e \<noteq> 0 \<and> Events (Db t) e \<noteq> None"
      using I lk(2) unfolding db_inv_but_def events_inv_def event_ok_def by auto
  qed
  obtain t2 where t2: "notify_signal_loop P g (gEventSignalQueue (Db t)) t = Some t2"
    using notify_signal_loop_returns [OF live, of P g] lk(1) by (auto simp: locked_def held_def)
  obtain f Y where f: "t2 = upd_db f t" "db_inv_but Y (f (Db t))"
    using notify_signal_loop_run [OF t2, of X] I lk(2) by auto
  have "locked gEventQueueLock s t2" "pending_inv (Db t2)"
    using f lk(1) db_inv_butD(1) by auto
  from release_high [OF this hi] t t2 show ?thesis
    by (auto simp: CoreNotifySignalList_def event_lock_defs)
qed

lemma CoreSignalEvent_returns:
  assumes A: "Asserts P" and N: "drivers_ok NC" and I: "dxe_inv s"
    and hi: "TPL_HIGH_LEVEL - 1 \<le> gEfiCurrentTpl s" and free: "Lock (Locks s gEventQueueLock) = EfiLockReleased"
    and ev: "Events (Db s) e = Some ev"
  shows "\<exists>u. CoreSignalEvent P (CoreRestoreTpl P NC (Suc n)) e s = Some (EFI_SUCCESS, u)"
proof -
  define R where "R = CoreRestoreTpl P NC (Suc n)"
  have R: "restore_ok R" unfolding R_def by (rule CoreRestoreTpl_ok [OF A N])
  have D: "db_inv (Db s)" and L: "lock_inv s" using I by (simp_all add: dxe_inv_def)
  have e: "e \<noteq> 0" "Signature ev = EVENT_SIGNATURE" using D ev by (auto simp: db_inv_def events_inv_def event_ok_def)
  obtain t where t: "CoreAcquireLock P gEventQueueLock s = Some t"
    using CoreAcquireLock_returns [OF free L] L by (auto simp: lock_inv_def)
  note lk = CoreAcquireLock_locked [OF t A L]
  define inc :: "event_db \<Rightarrow> event_db" where "inc = upd_event e (SignalCount_update (\<lambda>c. c + 1))"
  have I1: "db_inv_but {e} (inc (Db s))"
    using db_inv_but_count [of "{}" "Db s" e] D by (simp add: inc_def db_inv_but_empty)
  have finish: ?thesis if v: "signal_section P R e ev t = Some v" and l: "\<exists>s'. locked gEventQueueLock s' v \<and>
      TPL_HIGH_LEVEL - 1 \<le> gEfiCurrentTpl s'" and p: "pending_inv (Db v)" for v
  proof -
    obtain u where "CoreReleaseLock P R gEventQueueLock v = Some u"
      using l release_high [OF _ p] unfolding R_def by blast
    with t v e ev show ?thesis unfolding R_def [symmetric] by (simp add: CoreSignalEvent_def ievent_def event_lock_defs)
  qed
  have lt: "\<exists>s'. locked gEventQueueLock s' (upd_db f t) \<and> TPL_HIGH_LEVEL - 1 \<le> gEfiCurrentTpl s'" for f
    using lk(1) hi by (intro exI [of _ s]) simp
  have ev': "Events (inc (Db s)) e = Some (SignalCount_update (\<lambda>c. c + 1) ev)" using ev by (simp add: inc_def)
  consider "SignalCount ev \<noteq> 0" | "SignalCount ev = 0" "\<not> is_signal ev" | "SignalCount ev = 0" "is_signal ev" "\<not> ExFlag ev"
    | "SignalCount ev = 0" "is_signal ev" "ExFlag ev" by blast
  then show ?thesis
  proof cases
    case 1
    then show ?thesis using lk D lt [of id] by (intro finish [of t]) (simp_all add: signal_section_def db_inv_def)
  next
    case 2
    show ?thesis
      by (rule finish [of "upd_db inc t", OF _ lt])
        (use 2 lk(2) db_inv_butD(1) [OF I1] in \<open>simp_all add: signal_section_def inc_def\<close>)
  next
    case 3
    have "pending_inv (notify_db (SignalCount_update (\<lambda>c. c + 1) ev) e (inc (Db s)))"
      by (rule pending_inv_notify [OF db_inv_butD(1,2) [OF I1] ev'])
        (use db_inv_butD(2) [OF I1] is_signal_notify [OF 3(2)] in \<open>simp_all\<close>)
    then show ?thesis
      by (intro finish [of "upd_db (notify_db (SignalCount_update (\<lambda>c. c + 1) ev) e) (upd_db inc t)"])
        (use 3 lk ev e(1) lt [of "notify_db (SignalCount_update (\<lambda>c. c + 1) ev) e \<circ> inc"] in
          \<open>simp_all add: signal_section_def Let_def CoreNotifyEvent_def ievent_def inc_def notify_db_def [abs_def]
            upd_db_comp locked_def held_def\<close>)
  next
    case 4
    have l1: "locked gEventQueueLock s (upd_db inc t)" and p1: "pending_inv (Db (upd_db inc t))"
      using lk db_inv_butD(1) [OF I1] by simp_all
    obtain a where a: "CoreReleaseLock P R gEventQueueLock (upd_db inc t) = Some a"
      using release_high [OF l1 p1 hi] unfolding R_def by blast
    note qa = CoreReleaseLock_quiet [OF a A R l1 p1 pending_high [OF p1 hi]]
    have ea: "ievent a e = Some (SignalCount_update (\<lambda>c. c + 1) ev)"
      using qa(2) lk(2) ev' e(1) by (simp add: ievent_def)
    have fa: "Lock (Locks a gEventQueueLock) = EfiLockReleased" using qa(4) free by (simp add: same_locks_def)
    have Ia: "db_inv_but {e} (Db a)" using I1 qa(2) lk(2) by simp
    obtain b where b: "CoreNotifySignalList P R (EventGroup ev) a = Some b"
      using CoreNotifySignalList_returns [OF A qa(5) Ia _ fa] hi qa(1) unfolding R_def by fastforce
    have kb: "keeps a b"
    proof (rule CoreNotifySignalList_keeps [OF A R qa(5) Ia _ b, THEN conjunct1])
      show "\<exists>xe. Events (Db a) x = Some xe \<and> is_signal xe \<and> EventGroup xe = EventGroup ev" if "x \<in> {e}" for x
        using that ev' qa(2) lk(2) 4(2) by simp
    qed
    have Lb: "lock_inv b" "Lock (Locks b gEventQueueLock) = EfiLockReleased" "pending_inv (Db b)"
      using kb fa by (simp_all add: keeps_def dxe_inv_def same_locks_def db_inv_def)
    then obtain v where v: "CoreAcquireLock P gEventQueueLock b = Some v"
      using CoreAcquireLock_returns [OF Lb(2,1)] by (auto simp: lock_inv_def)
    note lv = CoreAcquireLock_locked [OF v A Lb(1)]
    have "signal_section P R e ev t = Some v"
      using 4 a ea b v by (simp add: signal_section_def Let_def inc_def event_lock_defs)
    then show ?thesis
      by (rule finish) (use lv kb qa(1) hi Lb(3) in \<open>auto simp: keeps_def\<close>)
  qed
qed


subsection \<open>Checking the timers returns\<close>

text \<open>The states of the loop of \<open>CoreCheckTimers\<close>.\<close>

definition timers_locked :: "'u dxe \<Rightarrow> bool" where
  "timers_locked s \<longleftrightarrow> dxe_inv s \<and> TPL_HIGH_LEVEL - 1 \<le> gEfiCurrentTpl s \<and>
     Lock (Locks s mEfiTimerLock) = EfiLockAcquired \<and> Lock (Locks s gEventQueueLock) = EfiLockReleased \<and>
     Events (Db s) (mEfiCheckTimerEvent (Db s)) \<noteq> None"

lemma timers_locked_keeps:
  "timers_locked s \<Longrightarrow> keeps s t \<Longrightarrow> mEfiCheckTimerEvent (Db t) = mEfiCheckTimerEvent (Db s) \<Longrightarrow>
   (\<forall>x. Events (Db t) x = None \<longleftrightarrow> Events (Db s) x = None) \<Longrightarrow> timers_locked t"
  by (auto simp: timers_locked_def keeps_def same_locks_def)

lemma CoreInsertEventTimer_returns:
  assumes D: "timer_inv (Db s)" and lk: "held s mEfiTimerLock" and e: "e \<noteq> 0" "Events (Db s) e = Some ev"
  shows "\<exists>l. timer_insert (Events (Db s)) (TriggerTime ev) e (mEfiTimerList (Db s)) = Some l \<and>
    CoreInsertEventTimer P e s = Some (upd_db (\<lambda>d. d\<lparr>mEfiTimerList := l\<rparr>) s)"
proof -
  have "\<exists>l. timer_insert (Events (Db s)) (TriggerTime ev) e (mEfiTimerList (Db s)) = Some l"
    by (rule timer_insert_returns) (use D in \<open>auto simp: timer_inv_def\<close>)
  then show ?thesis using lk e by (auto simp: CoreInsertEventTimer_def ievent_def held_def)
qed

lemma rearm_timer_returns:
  assumes A: "Asserts P" and N: "drivers_ok NC" and c: "timers_locked s" and e: "e \<notin> set (mEfiTimerList (Db s))"
    and ev: "Events (Db s) e = Some ev"
  shows "\<exists>u. rearm_timer P (CoreRestoreTpl P NC (Suc n)) now e ev s = Some u"
proof -
  have I: "dxe_inv s" using c by (simp add: timers_locked_def)
  then have e0: "e \<noteq> 0" using ev by (auto simp: dxe_inv_def db_inv_def events_inv_def event_ok_def)
  define retime :: "uint64 \<Rightarrow> 'a dxe" where
    "retime t = upd_db (upd_event e (TriggerTime_update (\<lambda>_. t))) s" for t
  have k: "keeps s (retime t)" for t
    unfolding retime_def
    by (rule dxe_inv_upd_db [OF I]) (use I e in \<open>simp_all add: dxe_inv_def db_inv_upd_time\<close>)
  have ck: "timers_locked (retime t)" for t
    by (rule timers_locked_keeps [OF c k]) (simp_all add: retime_def, simp add: upd_event_def)
  have ins: "\<exists>u. CoreInsertEventTimer P e x = Some u" if "timers_locked x" "Events (Db x) e \<noteq> None" for x :: "'a dxe"
    using CoreInsertEventTimer_returns [of x e] that e0
    by (fastforce simp: timers_locked_def dxe_inv_def db_inv_def held_def)
  have live: "Events (Db (retime t)) e \<noteq> None" for t using ev by (simp add: retime_def)
  show ?thesis
  proof (cases "TriggerTime ev + Period ev \<le> now")
    case True
    obtain xe where "Events (Db (retime now)) (mEfiCheckTimerEvent (Db (retime now))) = Some xe"
      using ck [of now] by (auto simp: timers_locked_def)
    then obtain v where v: "CoreSignalEvent P (CoreRestoreTpl P NC (Suc n)) (mEfiCheckTimerEvent (Db (retime now))) (retime now)
        = Some (EFI_SUCCESS, v)"
      using CoreSignalEvent_returns [OF A N] ck [of now] unfolding timers_locked_def by blast
    have kv: "keeps (retime now) v" and fr: "signal_frame (Db (retime now)) (Db v)"
      using CoreSignalEvent_keeps [OF A CoreRestoreTpl_ok [OF A N] _ v] ck [of now] by (auto simp: timers_locked_def)
    have "timers_locked v" by (rule timers_locked_keeps [OF ck kv]) (use signal_frame_times [OF fr] in auto)
    moreover have "Events (Db v) e \<noteq> None" using signal_frame_times(5) [OF fr] live by blast
    ultimately obtain u where "CoreInsertEventTimer P e v = Some u" using ins by blast
    with True v show ?thesis by (simp add: rearm_timer_def Let_def retime_def)
  next
    case False
    obtain u where "CoreInsertEventTimer P e (retime (TriggerTime ev + Period ev)) = Some u"
      using ins [OF ck live] by blast
    with False show ?thesis by (simp add: rearm_timer_def Let_def retime_def)
  qed
qed

lemma expire_timer_returns:
  assumes A: "Asserts P" and N: "drivers_ok NC" and c: "timers_locked s" and l: "mEfiTimerList (Db s) = e # q"
  shows "\<exists>u. expire_timer P (CoreRestoreTpl P NC (Suc n)) now e s = Some u"
proof -
  define R where "R = CoreRestoreTpl P NC (Suc n)"
  have R: "restore_ok R" unfolding R_def by (rule CoreRestoreTpl_ok [OF A N])
  define s1 where "s1 = upd_db (\<lambda>d. d\<lparr>mEfiTimerList := tl (mEfiTimerList d)\<rparr>) s"
  have I: "dxe_inv s" and D: "db_inv (Db s)" using c by (simp_all add: timers_locked_def dxe_inv_def)
  have k1: "keeps s s1"
    unfolding s1_def
    by (rule dxe_inv_upd_db [OF I])
      (use D db_inv_timer_list [OF D timer_inv_tl] in \<open>simp_all add: db_inv_def\<close>)
  have c1: "timers_locked s1" by (rule timers_locked_keeps [OF c k1]) (simp_all add: s1_def)
  obtain ev0 where ev0: "Events (Db s1) e = Some ev0" using D l by (auto simp: db_inv_def timer_inv_def s1_def)
  then obtain s2 where s2: "CoreSignalEvent P R e s1 = Some (EFI_SUCCESS, s2)"
    using CoreSignalEvent_returns [OF A N] c1 unfolding timers_locked_def R_def by blast
  have k2: "keeps s1 s2" and fr: "signal_frame (Db s1) (Db s2)"
    using CoreSignalEvent_keeps [OF A R _ s2] c1 by (auto simp: timers_locked_def)
  note f = signal_frame_times [OF fr]
  have c2: "timers_locked s2" by (rule timers_locked_keeps [OF c1 k2]) (use f in auto)
  obtain ev where ev: "Events (Db s2) e = Some ev" using f(5) [of e] ev0 by auto
  have "e \<noteq> 0" using c2 ev by (auto simp: timers_locked_def dxe_inv_def db_inv_def events_inv_def event_ok_def)
  then have iv: "ievent s2 e = Some ev" using ev by (simp add: ievent_def)
  have "e \<notin> set (mEfiTimerList (Db s2))" using f(3) D l by (simp add: s1_def db_inv_def timer_inv_def)
  then obtain u where "rearm_timer P R now e ev s2 = Some u"
    using rearm_timer_returns [OF A N c2 _ ev] unfolding R_def by blast
  with s2 iv show ?thesis
    unfolding R_def [symmetric] by (cases "Period ev = 0") (simp_all add: expire_timer_def s1_def [symmetric])
qed

text \<open>
  How much work a timer can still cause at time \<open>now\<close>: a timer that is late is put back at most once
  with the current time and then in the future.
\<close>

definition work :: "uint64 \<Rightarrow> uint64 \<Rightarrow> nat" where
  "work now t = (if t < now then 2 else if t = now then 1 else 0)"

definition timer_work :: "uint64 \<Rightarrow> event_db \<Rightarrow> nat" where
  "timer_work now d = (\<Sum>e \<in> set (mEfiTimerList d). work now (trigger d e))"


lemma expire_timer_work:
  assumes A: "Asserts P" and R: "restore_ok R" and I: "dxe_inv s"
    and hi: "TPL_HIGH_LEVEL - 1 \<le> gEfiCurrentTpl s" and l: "mEfiTimerList (Db s) = e # q"
    and due: "trigger (Db s) e \<le> now" and nowrap: "period (Db s) e = 0 \<or> now < now + period (Db s) e"
    and run: "expire_timer P R now e s = Some u"
  shows "timer_work now (Db u) < timer_work now (Db s)"
proof -
  note ef = expire_timer_effect [OF A R I hi l run]
  have eq: "e \<notin> set q" using I l by (simp add: dxe_inv_def db_inv_def timer_inv_def)
  have s: "timer_work now (Db s) = work now (trigger (Db s) e) + (\<Sum>x \<in> set q. work now (trigger (Db s) x))"
    using l eq by (simp add: timer_work_def)
  have w: "0 < work now (trigger (Db s) e)" using due by (auto simp: work_def)
  have same: "(\<Sum>x \<in> set q. work now (trigger (Db u) x)) = (\<Sum>x \<in> set q. work now (trigger (Db s) x))"
    by (rule sum.cong [OF refl]) (use ef eq in auto)
  show ?thesis
  proof (cases "period (Db s) e = 0")
    case True
    with ef s w same show ?thesis by (simp add: timer_work_def)
  next
    case False
    have "work now (next_time now (trigger (Db s) e) (period (Db s) e)) < work now (trigger (Db s) e)"
      using due nowrap False by (auto simp: work_def next_time_def not_less order_le_less)
    moreover have "timer_work now (Db u) = work now (trigger (Db u) e) + (\<Sum>x \<in> set q. work now (trigger (Db u) x))"
      using ef False eq by (simp add: timer_work_def)
    ultimately show ?thesis using ef False s same by simp
  qed
qed

lemma check_timers_loop_returns:
  assumes A: "Asserts P" and N: "drivers_ok NC"
  shows "timers_locked s \<Longrightarrow> \<forall>e. period (Db s) e = 0 \<or> now < now + period (Db s) e \<Longrightarrow>
    \<exists>u. check_timers_loop P (CoreRestoreTpl P NC (Suc n)) now s = Some u"
proof (induction "timer_work now (Db s)" arbitrary: s rule: less_induct)
  case less
  define R where "R = CoreRestoreTpl P NC (Suc n)"
  have R: "restore_ok R" unfolding R_def by (rule CoreRestoreTpl_ok [OF A N])
  have I: "dxe_inv s" and hi: "TPL_HIGH_LEVEL - 1 \<le> gEfiCurrentTpl s"
    using less.prems(1) by (simp_all add: timers_locked_def)
  show ?case
  proof (cases "mEfiTimerList (Db s)")
    case Nil
    then show ?thesis by (subst check_timers_loop.simps) simp
  next
    case (Cons e q)
    then obtain ev where "Events (Db s) e = Some ev" using I by (auto simp: dxe_inv_def db_inv_def timer_inv_def)
    then have ev: "ievent s e = Some ev" "trigger (Db s) e = TriggerTime ev"
      using I by (auto simp: ievent_def trigger_def dxe_inv_def db_inv_def events_inv_def event_ok_def)
    show ?thesis
    proof (cases "now < TriggerTime ev")
      case True
      with Cons ev(1) show ?thesis by (subst check_timers_loop.simps) simp
    next
      case False
      obtain v where v: "expire_timer P R now e s = Some v"
        using expire_timer_returns [OF A N less.prems(1) Cons] unfolding R_def by blast
      have k: "keeps s v" by (rule expire_timer_keeps [OF A R I hi Cons v])
      note ef = expire_timer_effect [OF A R I hi Cons v]
      have "timer_work now (Db v) < timer_work now (Db s)"
        by (rule expire_timer_work [OF A R I hi Cons _ _ v]) (use False ev(2) less.prems(2) in auto)
      moreover have "timers_locked v" by (rule timers_locked_keeps [OF less.prems(1) k]) (use ef in auto)
      ultimately obtain u where "check_timers_loop P R now v = Some u"
        using less.hyps [of v] less.prems(2) ef unfolding R_def by auto
      with Cons ev(1) False v show ?thesis unfolding R_def by (subst check_timers_loop.simps) simp
    qed
  qed
qed


end
