(* ===== verification/EventProps.thy ===== *)
theory EventProps
  imports EventLive
begin

unbundle bit_operations_syntax

section \<open>Properties of the event services\<close>

text \<open>
  The properties of the reachable states, of single services, and a small system on which each of
  them is applied.
\<close>

subsection \<open>A small system\<close>

text \<open>Three signal events, queued at \<open>TPL_CALLBACK\<close> (2, 3) and at \<open>TPL_NOTIFY\<close> (4), an event that is
  only polled (5), a timer (6), and the timer check event (1).\<close>

definition demo_platform :: platform where
  "demo_platform = \<lparr>Asserts = True, gCpu = True, gSmmBase2 = None\<rparr>"

definition demo_event :: "uint32 \<Rightarrow> uint32 \<Rightarrow> EFI_TPL \<Rightarrow> EFI_EVENT_NOTIFY option \<Rightarrow> IEVENT" where
  "demo_event ty n tpl f = zero_event\<lparr>Signature := EVENT_SIGNATURE, Type := ty, SignalCount := n,
     NotifyTpl := tpl, NotifyFunction := f\<rparr>"

definition demo_db :: event_db where
  "demo_db = \<lparr>gEventQueue = (\<lambda>p. if p = 8 then [2, 3] else if p = 16 then [4] else []),
     gEventPending = pending_bit 8 OR pending_bit 16, gEventSignalQueue = [4, 3, 2, 1],
     gRuntimeEventHead = [], mEfiTimerList = [], mEfiCheckTimerEvent = 1, mEfiSystemTime = 100,
     Events = [1 \<mapsto> demo_event EVT_NOTIFY_SIGNAL 0 30 (Some CoreCheckTimers_fn),
       2 \<mapsto> demo_event EVT_NOTIFY_SIGNAL 1 8 (Some (Driver_fn 0)),
       3 \<mapsto> demo_event EVT_NOTIFY_SIGNAL 1 8 (Some (Driver_fn 0)),
       4 \<mapsto> demo_event EVT_NOTIFY_SIGNAL 1 16 (Some (Driver_fn 0)),
       5 \<mapsto> demo_event 0 1 0 None,
       6 \<mapsto> demo_event EVT_TIMER 0 0 None]\<rparr>"

definition demo :: "EFI_TPL \<Rightarrow> eid list dxe" where
  "demo tpl = \<lparr>gEfiCurrentTpl = tpl, InterruptsEnabled = False,
     Locks = (\<lambda>l. \<lparr>Tpl = lock_tpl l, OwnerTpl = TPL_APPLICATION, Lock = EfiLockReleased\<rparr>),
     Db = demo_db, Ctx = []\<rparr>"

lemma demo_event_simps [simp]:
  "Type (demo_event ty n tpl f) = ty" "SignalCount (demo_event ty n tpl f) = n"
  "NotifyTpl (demo_event ty n tpl f) = tpl" "NotifyFunction (demo_event ty n tpl f) = f"
  "Signature (demo_event ty n tpl f) = EVENT_SIGNATURE" "ExFlag (demo_event ty n tpl f) = False"
  "TriggerTime (demo_event ty n tpl f) = 0" "Period (demo_event ty n tpl f) = 0"
  by (simp_all add: demo_event_def zero_event_def)

lemma demo_db_inv: "db_inv demo_db"
  unfolding db_inv_def
proof (intro conjI)
  show "pending_inv demo_db" by (auto simp: pending_inv_def demo_db_def bit_or_iff bit_pending_bit)
  show "events_inv demo_db"
    by (auto simp: events_inv_def demo_db_def event_ok_def is_notify_def split: if_splits)
  show "queue_inv demo_db" by (auto simp: queue_inv_def demo_db_def is_notify_def)
  show "signal_inv demo_db" by (auto simp: signal_inv_def demo_db_def)
  show "no_lost_signal demo_db" by (auto simp: no_lost_signal_def demo_db_def split: if_splits)
  show "timer_inv demo_db" by (simp add: timer_inv_def demo_db_def)
qed

lemma demo_inv: "16 \<le> tpl \<Longrightarrow> tpl \<le> TPL_HIGH_LEVEL \<Longrightarrow> dxe_inv (demo tpl)"
  by (auto simp: dxe_inv_def lock_inv_def demo_def quiet_def held_def demo_db_inv)
    (auto simp: demo_db_def bit_or_iff bit_pending_bit)

theorem restore_notifies_in_order_witness:
  "\<exists>u. CoreRestoreTpl demo_platform log_drivers 2 TPL_APPLICATION (demo TPL_HIGH_LEVEL) = Some u \<and>
     gEfiCurrentTpl u = TPL_APPLICATION \<and> Ctx u = [4, 2, 3] \<and> (\<forall>p > 4. gEventQueue (Db u) p = [])"
proof -
  have dq: "\<forall>p > TPL_APPLICATION. driver_queue (Db (demo TPL_HIGH_LEVEL)) p"
    by (auto simp: driver_queue_def demo_def demo_db_def split: if_splits)
  have "concat (map (gEventQueue (Db (demo TPL_HIGH_LEVEL))) (rev [TPL_APPLICATION + 1..<TPL_HIGH_LEVEL])) = [4, 2, 3]"
    by (simp add: demo_def demo_db_def upt_rec)
  with restore_notifies_in_order [of demo_platform "demo TPL_HIGH_LEVEL" TPL_APPLICATION 0] dq demo_inv [of TPL_HIGH_LEVEL]
  show ?thesis by (auto simp: demo_platform_def demo_def numeral_2_eq_2)
qed

subsection \<open>Reachable states\<close>

text \<open>C1. In every state the event services can reach from boot, by any sequence of calls, with drivers
  whose notification functions are any programs over the services and for any depth of nesting, the
  invariant holds: a queued event is live, queued once, at its notification level, and its level is
  marked pending; nothing is pending above the current level; every live signal event is on the
  signal queue, and one that is signaled is waiting for its notification; the timer list is sorted and
  holds live timer events; a held lock is at or below the current level.\<close>

theorem event_services_invariant:
  assumes "Asserts P" "alloc_ok E" "booted P E prog n s" "(services_step P E prog n)\<^sup>*\<^sup>* s t"
  shows "dxe_inv t"
  using ev.inv_reachable [OF assms(3,4)] assms(1,2) by simp

lemma null_not_live: "dxe_inv s \<Longrightarrow> Events (Db s) 0 = None"
  unfolding dxe_inv_def db_inv_def events_inv_def event_ok_def by (metis not_None_eq)

lemmas quiet_run_defs = CoreAcquireEventLock_def CoreReleaseEventLock_def CoreAcquireLock_def CoreReleaseLock_def
  CoreRaiseTpl_def RestoreTpl_body_def while_opt_stop VALID_TPL_def CoreSetInterruptState_def upd_db_def

lemmas create_defs = CoreCreateEventEx_def new_event_def mEventTable_def install_event_def zero_event_def

definition demo_env :: "unit env" where
  "demo_env = \<lparr>AllocatePool = (\<lambda>s. if Events (Db s) 7 = None then 7 else 0), Unregister = (\<lambda>e c. None)\<rparr>"

theorem event_services_invariant_witness:
  "\<exists>s t. booted demo_platform demo_env (\<lambda>k. [Signal 1]) (Suc (Suc 0)) s \<and>
     services_step demo_platform demo_env (\<lambda>k. [Signal 1]) (Suc (Suc 0)) s t \<and> dxe_inv t \<and> gEventSignalQueue (Db t) = [7, 1]"
proof -
  let ?R = "system_restore demo_platform demo_env (\<lambda>k. [Signal 1]) (Suc (Suc 0))"
  have ok: "Asserts demo_platform" "alloc_ok demo_env"
    using null_not_live by (auto simp: demo_platform_def demo_env_def alloc_ok_def)
  obtain s where s: "CoreInitializeEventServices demo_platform ?R 1 (boot_state ()) = Some (EFI_SUCCESS, s)"
    and t': "\<exists>t. run_service demo_platform demo_env ?R
      (Create EVT_NOTIFY_SIGNAL TPL_CALLBACK (Some (Driver_fn 0)) 0 None) s = Some t \<and>
      gEventSignalQueue (Db t) = [7, 1]"
    by (simp add: CoreInitializeEventServices_def CoreInitializeTimer_def CoreCreateEvent_def create_defs
        quiet_run_defs boot_state_def demo_platform_def system_restore_def demo_env_def Let_def)
  obtain t where t: "run_service demo_platform demo_env ?R
      (Create EVT_NOTIFY_SIGNAL TPL_CALLBACK (Some (Driver_fn 0)) 0 None) s = Some t"
    "gEventSignalQueue (Db t) = [7, 1]" using t' by blast
  have b: "booted demo_platform demo_env (\<lambda>k. [Signal 1]) (Suc (Suc 0)) s" using s unfolding booted_def by blast
  have st: "services_step demo_platform demo_env (\<lambda>k. [Signal 1]) (Suc (Suc 0)) s t" by (rule services_step.call [OF t(1)])
  then have "(services_step demo_platform demo_env (\<lambda>k. [Signal 1]) (Suc (Suc 0)))\<^sup>*\<^sup>* s t" by blast
  with b t(2) st event_services_invariant [OF ok b] show ?thesis by blast
qed

text \<open>C3. After \<open>CoreRestoreTpl\<close> returns, whatever the notification functions did, the level is the one
  asked for, no notification above it is pending, the invariant holds and the locks that were held
  are still held by the same owners.\<close>

theorem CoreRestoreTpl_contract:
  assumes "Asserts P" "drivers_ok NC" "dxe_inv s" "\<forall>l. held s l \<longrightarrow> lock_tpl l \<le> t"
    and "CoreRestoreTpl P NC n t s = Some u"
  shows "dxe_inv u \<and> gEfiCurrentTpl u = t \<and> quiet t (Db u) \<and> same_locks s u \<and>
    (\<forall>p > t. gEventQueue (Db u) p = [])"
proof -
  have "t \<le> gEfiCurrentTpl s"
    using assms(1,5) by (cases n) (auto dest!: RestoreTpl_body_run)
  then have u: "dxe_inv u" "gEfiCurrentTpl u = t" "same_locks s u"
    using CoreRestoreTpl_ok [OF assms(1,2), of n] assms(3-5) unfolding restore_ok_def by blast+
  then have q: "quiet t (Db u)" by (simp add: dxe_inv_def lock_inv_def)
  have "gEventQueue (Db u) p = []" if "t < p" for p
    using q that u(1) by (auto simp: dxe_inv_def db_inv_def pending_inv_def quiet_def not_le [symmetric])
  with u q show ?thesis by blast
qed

theorem CoreRestoreTpl_contract_witness:
  "drivers_ok log_drivers \<and> dxe_inv (demo TPL_HIGH_LEVEL) \<and>
   (\<exists>u. CoreRestoreTpl demo_platform log_drivers 1 TPL_NOTIFY (demo TPL_HIGH_LEVEL) = Some u \<and>
     gEfiCurrentTpl u = TPL_NOTIFY \<and> (\<forall>p > TPL_NOTIFY. gEventQueue (Db u) p = []))"
proof -
  have A: "Asserts demo_platform" by (simp add: demo_platform_def)
  have I: "dxe_inv (demo TPL_HIGH_LEVEL)" "dxe_inv (demo TPL_NOTIFY)" by (rule demo_inv; simp)+
  have nl: "\<forall>l. held (demo TPL_HIGH_LEVEL) l \<longrightarrow> lock_tpl l \<le> TPL_NOTIFY" by (simp add: demo_def held_def)
  obtain u where u: "CoreRestoreTpl demo_platform log_drivers 1 TPL_NOTIFY (demo TPL_HIGH_LEVEL) = Some u"
    using CoreRestoreTpl_returns [of "demo TPL_HIGH_LEVEL" TPL_NOTIFY demo_platform log_drivers 0] I
    by (auto simp: dxe_inv_def lock_inv_def db_inv_def demo_def)
  with CoreRestoreTpl_contract [OF A log_drivers_ok I(1) nl u] I(1) log_drivers_ok show ?thesis by blast
qed


subsection \<open>Single services\<close>

text \<open>
  A critical section of the event lock that leaves nothing pending above the current level, with the
  restore function of the system: it returns, and its effect is that of the section.
\<close>

lemma event_section_returns:
  assumes A: "Asserts P" and N: "drivers_ok NC" and I: "dxe_inv s"
    and free: "Lock (Locks s gEventQueueLock) = EfiLockReleased"
  obtains t where "CoreAcquireLock P gEventQueueLock s = Some t" "Db t = Db s" "Ctx t = Ctx s"
    "Lock (Locks t gEventQueueLock) = EfiLockAcquired"
    "\<And>f. pending_inv (f (Db s)) \<Longrightarrow> quiet (gEfiCurrentTpl s) (f (Db s)) \<Longrightarrow>
       \<exists>u. CoreReleaseLock P (CoreRestoreTpl P NC (Suc n)) gEventQueueLock (upd_db f t) = Some u \<and>
         Db u = f (Db s) \<and> Ctx u = Ctx s \<and> gEfiCurrentTpl u = gEfiCurrentTpl s \<and> same_locks s u"
proof -
  have "gEfiCurrentTpl s \<le> lock_tpl gEventQueueLock" using I by (simp add: dxe_inv_def lock_inv_def)
  then obtain t where t: "CoreAcquireLock P gEventQueueLock s = Some t"
    using CoreAcquireLock_returns [OF free dxe_invD(2) [OF I]] by blast
  note lk = CoreAcquireLock_locked [OF t A dxe_invD(2) [OF I]]
  have "\<exists>u. CoreReleaseLock P (CoreRestoreTpl P NC (Suc n)) gEventQueueLock (upd_db f t) = Some u \<and>
         Db u = f (Db s) \<and> Ctx u = Ctx s \<and> gEfiCurrentTpl u = gEfiCurrentTpl s \<and> same_locks s u"
    if "pending_inv (f (Db s))" "quiet (gEfiCurrentTpl s) (f (Db s))" for f
  proof -
    have l': "locked gEventQueueLock s (upd_db f t)" "pending_inv (Db (upd_db f t))"
      "quiet (gEfiCurrentTpl s) (Db (upd_db f t))"
      using lk that by simp_all
    obtain u where u: "CoreReleaseLock P (CoreRestoreTpl P NC (Suc n)) gEventQueueLock (upd_db f t) = Some u"
      using CoreReleaseLock_returns [OF l'] by blast
    from CoreReleaseLock_quiet [OF u A CoreRestoreTpl_ok [OF A N] l'] u lk(2,3) show ?thesis by auto
  qed
  with that [OF t lk(2,3)] lk(1) show thesis by (simp add: locked_def held_def)
qed

text \<open>C4. Signalling a signal event whose level is not above the current one returns and queues its
  notification once: a second signal before the notification ran changes nothing.\<close>

theorem CoreSignalEvent_queues_once:
  assumes A: "Asserts P" and N: "drivers_ok NC" and I: "dxe_inv s"
    and free: "Lock (Locks s gEventQueueLock) = EfiLockReleased"
    and ev: "Events (Db s) e = Some ev" "is_signal ev" "\<not> ExFlag ev" "NotifyTpl ev \<le> gEfiCurrentTpl s"
  shows "\<exists>u. CoreSignalEvent P (CoreRestoreTpl P NC (Suc n)) e s = Some (EFI_SUCCESS, u) \<and>
    gEfiCurrentTpl u = gEfiCurrentTpl s \<and>
    (SignalCount ev \<noteq> 0 \<longrightarrow> Db u = Db s) \<and>
    (SignalCount ev = 0 \<longrightarrow>
       Events (Db u) e = Some (ev\<lparr>SignalCount := 1\<rparr>) \<and>
       gEventQueue (Db u) (NotifyTpl ev) = removeAll e (gEventQueue (Db s) (NotifyTpl ev)) @ [e] \<and>
       bit (gEventPending (Db u)) (NotifyTpl ev))"
proof -
  have D: "db_inv (Db s)" by (rule dxe_invD(1) [OF I])
  have e: "e \<noteq> 0" "Signature ev = EVENT_SIGNATURE" "NotifyTpl ev < TPL_HIGH_LEVEL"
    using D ev(1,2) is_signal_notify [OF ev(2)] by (auto simp: db_inv_def events_inv_def event_ok_def)
  let ?inc = "SignalCount_update (\<lambda>c. c + 1)"
  let ?g = "if SignalCount ev = 0 then notify_db (?inc ev) e \<circ> upd_event e ?inc else id"
  obtain t where t: "CoreAcquireLock P gEventQueueLock s = Some t" "Db t = Db s"
    "Lock (Locks t gEventQueueLock) = EfiLockAcquired"
    and rel: "\<And>f. pending_inv (f (Db s)) \<Longrightarrow> quiet (gEfiCurrentTpl s) (f (Db s)) \<Longrightarrow>
       \<exists>u. CoreReleaseLock P (CoreRestoreTpl P NC (Suc n)) gEventQueueLock (upd_db f t) = Some u \<and>
         Db u = f (Db s) \<and> Ctx u = Ctx s \<and> gEfiCurrentTpl u = gEfiCurrentTpl s \<and> same_locks s u"
    using event_section_returns [OF A N I free] by blast
  have "pending_inv (?g (Db s))"
  proof -
    have "pending_inv (notify_db (?inc ev) e (upd_event e ?inc (Db s)))"
      by (rule pending_inv_notify)
        (use D ev db_parts_upd_event [OF same_class_updates(1), where e = e and d = "Db s"] is_signal_notify [OF ev(2)]
          in \<open>simp_all add: db_inv_def is_notify_def\<close>)
    then show ?thesis using D by (simp add: db_inv_def)
  qed
  moreover have "quiet (gEfiCurrentTpl s) (?g (Db s))"
    using I ev(4) e(3) by (auto simp: quiet_def dxe_inv_def lock_inv_def bit_or_iff bit_pending_bit)
  ultimately obtain u where u: "CoreReleaseLock P (CoreRestoreTpl P NC (Suc n)) gEventQueueLock (upd_db ?g t) = Some u"
    "Db u = ?g (Db s)" "gEfiCurrentTpl u = gEfiCurrentTpl s"
    using rel by blast
  have "signal_section P (CoreRestoreTpl P NC (Suc n)) e ev t = Some (upd_db ?g t)"
    using ev t e(1)
    by (simp add: signal_section_def Let_def CoreNotifyEvent_def ievent_def upd_db_comp notify_db_def [abs_def] comp_def)
  then have "CoreSignalEvent P (CoreRestoreTpl P NC (Suc n)) e s = Some (EFI_SUCCESS, u)"
    using e ev(1) t u(1) by (simp add: CoreSignalEvent_def event_lock_defs ievent_def)
  with u(2,3) ev(1) e(3) show ?thesis
    by (intro exI [of _ u]) (simp add: notify_db_def bit_or_iff bit_pending_bit)
qed

theorem CoreSignalEvent_queues_once_witness:
  "\<exists>u. CoreSignalEvent demo_platform (CoreRestoreTpl demo_platform log_drivers 1) 1 (demo TPL_HIGH_LEVEL) =
       Some (EFI_SUCCESS, u) \<and> gEventQueue (Db u) 30 = [1]"
proof -
  have "Events (Db (demo TPL_HIGH_LEVEL)) 1 = Some (demo_event EVT_NOTIFY_SIGNAL 0 30 (Some CoreCheckTimers_fn))"
    by (simp add: demo_def demo_db_def)
  with CoreSignalEvent_queues_once [of demo_platform log_drivers "demo TPL_HIGH_LEVEL" 1
      "demo_event EVT_NOTIFY_SIGNAL 0 30 (Some CoreCheckTimers_fn)" 0] log_drivers_ok demo_inv [of TPL_HIGH_LEVEL]
  show ?thesis by (auto simp: demo_platform_def demo_def demo_db_def)
qed


text \<open>Checking an event that has no notification function takes the signaled state: the call
  succeeds and the event is no longer signaled if it was, and it says not ready and changes nothing
  if it was not. A signal event cannot be checked.\<close>

theorem CoreCheckEvent_takes_signal:
  assumes A: "Asserts P" and N: "drivers_ok NC" and I: "dxe_inv s"
    and free: "Lock (Locks s gEventQueueLock) = EfiLockReleased"
    and ev: "Events (Db s) e = Some ev" "is_signal ev \<or> \<not> is_notify ev"
  shows "\<exists>st u. CoreCheckEvent P (CoreRestoreTpl P NC (Suc n)) e s = Some (st, u) \<and>
    st = (if is_signal ev then EFI_INVALID_PARAMETER else if SignalCount ev = 0 then EFI_NOT_READY else EFI_SUCCESS) \<and>
    (st \<noteq> EFI_SUCCESS \<longrightarrow> u = s) \<and>
    (st = EFI_SUCCESS \<longrightarrow> Db u = upd_event e (SignalCount_update (\<lambda>_. 0)) (Db s) \<and>
       gEfiCurrentTpl u = gEfiCurrentTpl s \<and> same_locks s u)"
proof -
  have D: "db_inv (Db s)" by (rule dxe_invD(1) [OF I])
  have e: "e \<noteq> 0" "Signature ev = EVENT_SIGNATURE"
    using D ev(1) by (auto simp: db_inv_def events_inv_def event_ok_def)
  show ?thesis
  proof (cases "is_signal ev")
    case True
    then show ?thesis using e ev(1) by (simp add: CoreCheckEvent_def ievent_def)
  next
    case False
    then have w: "Type ev AND EVT_NOTIFY_WAIT = 0" using ev(2) is_wait_notify [of ev] by blast
    have q: "queue_wait_notify P (CoreRestoreTpl P NC (Suc n)) e ev s = Some s"
      using w by (simp add: queue_wait_notify_def)
    let ?f = "upd_event e (SignalCount_update (\<lambda>_. 0))"
    obtain t where t: "CoreAcquireLock P gEventQueueLock s = Some t" "Db t = Db s"
      and rel: "\<And>f. pending_inv (f (Db s)) \<Longrightarrow> quiet (gEfiCurrentTpl s) (f (Db s)) \<Longrightarrow>
         \<exists>u. CoreReleaseLock P (CoreRestoreTpl P NC (Suc n)) gEventQueueLock (upd_db f t) = Some u \<and>
           Db u = f (Db s) \<and> Ctx u = Ctx s \<and> gEfiCurrentTpl u = gEfiCurrentTpl s \<and> same_locks s u"
      using event_section_returns [OF A N I free] by blast
    have "pending_inv (?f (Db s))" using D by (simp add: db_inv_def db_parts_upd_event(1))
    moreover have "quiet (gEfiCurrentTpl s) (?f (Db s))" using I by (simp add: quiet_def dxe_inv_def lock_inv_def)
    ultimately obtain u where u: "CoreReleaseLock P (CoreRestoreTpl P NC (Suc n)) gEventQueueLock (upd_db ?f t) = Some u"
      "Db u = ?f (Db s)" "gEfiCurrentTpl u = gEfiCurrentTpl s" "same_locks s u"
      using rel by blast
    have run: "CoreCheckEvent P (CoreRestoreTpl P NC (Suc n)) e s = take_signal P (CoreRestoreTpl P NC (Suc n)) e s"
      using e ev(1) q False by (simp add: CoreCheckEvent_def ievent_def)
    have "take_signal P (CoreRestoreTpl P NC (Suc n)) e s =
        Some (if SignalCount ev = 0 then (EFI_NOT_READY, s) else (EFI_SUCCESS, u))"
      using e(1) ev(1) t u(1) by (simp add: take_signal_def ievent_def event_lock_defs)
    with run u(2-4) False show ?thesis by simp
  qed
qed

theorem CoreCheckEvent_takes_signal_witness:
  "\<exists>u. CoreCheckEvent demo_platform (CoreRestoreTpl demo_platform log_drivers 1) 5 (demo TPL_HIGH_LEVEL) =
       Some (EFI_SUCCESS, u) \<and> Events (Db u) 5 = Some (demo_event 0 0 0 None)"
proof -
  have ev: "Events (Db (demo TPL_HIGH_LEVEL)) 5 = Some (demo_event 0 1 0 None)"
    by (simp add: demo_def demo_db_def)
  with CoreCheckEvent_takes_signal [of demo_platform log_drivers "demo TPL_HIGH_LEVEL" 5
      "demo_event 0 1 0 None" 0] log_drivers_ok demo_inv [of TPL_HIGH_LEVEL]
  show ?thesis by (auto simp: demo_platform_def demo_def is_notify_def) (simp_all add: demo_db_def demo_event_def)
qed

text \<open>\<open>CoreCreateEventEx\<close> rejects a missing out parameter, a type that is not one of the eight of
  its table, an event group together with one of the two reserved signal types, and a notification
  event without function or with a level that is not strictly between \<open>TPL_APPLICATION\<close> and
  \<open>TPL_HIGH_LEVEL\<close>; in all of these cases nothing changes. Otherwise it needs memory.\<close>

theorem CoreCreateEventEx_errors:
  "CoreCreateEventEx P R pool EType NTpl NF NC G EventPtr s =
     (if \<not> EventPtr \<or> EType \<notin> set mEventTable \<or>
         (G \<noteq> None \<and> EType \<in> {EVT_SIGNAL_EXIT_BOOT_SERVICES, EVT_SIGNAL_VIRTUAL_ADDRESS_CHANGE}) \<or>
         ((EType AND (EVT_NOTIFY_WAIT OR EVT_NOTIFY_SIGNAL) \<noteq> 0 \<or>
           G = Some gEfiEventExitBootServicesGuid \<or> G = Some gEfiEventVirtualAddressChangeGuid) \<and>
          (NF = None \<or> NTpl \<le> TPL_APPLICATION \<or> NTpl \<ge> TPL_HIGH_LEVEL))
      then Some (EFI_INVALID_PARAMETER, None, s)
      else if pool = 0 then Some (EFI_OUT_OF_RESOURCES, None, s)
      else install_event P R pool (projr (new_event EType NTpl NF NC G)) s)"
  by (cases G) (auto simp: CoreCreateEventEx_def new_event_def Let_def mEventTable_def)


theorem CoreCreateEventEx_errors_witness:
  "CoreCreateEventEx demo_platform (CoreRestoreTpl demo_platform log_drivers 1) 9 EVT_NOTIFY_SIGNAL TPL_APPLICATION
     (Some (Driver_fn 0)) 0 None True (demo TPL_NOTIFY) = Some (EFI_INVALID_PARAMETER, None, demo TPL_NOTIFY)"
  unfolding CoreCreateEventEx_errors by simp

subsection \<open>Timers\<close>

lemma CoreCurrentSystemTime_returns:
  assumes A: "Asserts P" and N: "drivers_ok NC" and I: "dxe_inv s"
    and free: "Lock (Locks s mEfiSystemTimeLock) = EfiLockReleased"
  shows "\<exists>u. CoreCurrentSystemTime P (CoreRestoreTpl P NC (Suc n)) s = Some (mEfiSystemTime (Db s), u)"
proof -
  have L: "lock_inv s" "gEfiCurrentTpl s \<le> lock_tpl mEfiSystemTimeLock"
    using I by (simp_all add: dxe_inv_def lock_inv_def)
  obtain t where t: "CoreAcquireLock P mEfiSystemTimeLock s = Some t"
    using CoreAcquireLock_returns [OF free L] by blast
  note lk = CoreAcquireLock_locked [OF t A L(1)]
  have "pending_inv (Db t)" "quiet (gEfiCurrentTpl s) (Db t)"
    using I lk(2) by (simp_all add: dxe_inv_def db_inv_def lock_inv_def)
  then obtain u where "CoreReleaseLock P (CoreRestoreTpl P NC (Suc n)) mEfiSystemTimeLock t = Some u"
    using CoreReleaseLock_returns [OF lk(1)] by blast
  with t lk(2) show ?thesis by (simp add: CoreCurrentSystemTime_def Let_def)
qed

text \<open>The event after \<open>CoreSetTimer\<close> with a delay that is not 0.\<close>

definition timer_event :: "int \<Rightarrow> uint64 \<Rightarrow> uint64 \<Rightarrow> IEVENT \<Rightarrow> IEVENT" where
  "timer_event delay time now ev = ev\<lparr>TriggerTime := now + time, Period := if delay = TimerPeriodic then time else 0\<rparr>"

lemma start_timer_returns:
  assumes A: "Asserts P" and N: "drivers_ok NC" and I: "dxe_inv s" and lk: "held s mEfiTimerLock"
    and free: "Lock (Locks s mEfiSystemTimeLock) = EfiLockReleased" and time: "time \<noteq> 0"
    and e: "e \<notin> set (mEfiTimerList (Db s))" "Events (Db s) e = Some ev" "Type ev AND EVT_TIMER \<noteq> 0" "Period ev = 0"
  shows "\<exists>u. start_timer P (CoreRestoreTpl P NC (Suc n)) e delay time s = Some u \<and>
    Events (Db u) e = Some (timer_event delay time (mEfiSystemTime (Db s)) ev) \<and>
    set (mEfiTimerList (Db u)) = insert e (set (mEfiTimerList (Db s))) \<and> gEventPending (Db u) = gEventPending (Db s)"
proof -
  define f where "f = (if delay = TimerPeriodic then upd_event e (Period_update (\<lambda>_. time)) else id)"
  define s1 where "s1 = upd_db f s"
  have s1: "(if delay = TimerPeriodic then upd_db (upd_event e (Period_update (\<lambda>_. time))) s else s) = s1"
    by (simp add: s1_def f_def)
  have D: "db_inv (Db s)" by (rule dxe_invD(1) [OF I])
  have e0: "e \<noteq> 0" using D e(2) by (auto simp: db_inv_def events_inv_def event_ok_def)
  have k1: "keeps s s1"
    unfolding s1_def by (rule dxe_inv_upd_db [OF I]) (use D e(1) in \<open>simp_all add: f_def db_inv_upd_time\<close>)
  have fd: "mEfiSystemTime (f (Db s)) = mEfiSystemTime (Db s)" by (simp add: f_def upd_event_def)
  have "Lock (Locks s1 mEfiSystemTimeLock) = EfiLockReleased" using free by (simp add: s1_def)
  with CoreCurrentSystemTime_returns [OF A N keeps_inv [OF k1]] fd
  obtain s2 where s2: "CoreCurrentSystemTime P (CoreRestoreTpl P NC (Suc n)) s1 = Some (mEfiSystemTime (Db s), s2)"
    by (auto simp: s1_def)
  note now = CoreCurrentSystemTime_run [OF A CoreRestoreTpl_ok [OF A N] dxe_invD(2) [OF keeps_inv [OF k1]]
      db_inv_pending [OF dxe_invD(1) [OF keeps_inv [OF k1]]] s2]
  define s3 where "s3 = upd_db (upd_event e (TriggerTime_update (\<lambda>_. mEfiSystemTime (Db s) + time))) s2"
  have D3: "db_inv (Db s3)"
    using db_inv_upd_time [OF dxe_invD(1) [OF keeps_inv [OF k1]], of e] now(2) e(1)
    by (simp add: s3_def s1_def f_def)
  have h3: "held s3 mEfiTimerLock"
    using lk now(5) same_locks_held [of s1 s2] by (simp add: s3_def s1_def held_def)
  have e3: "Events (Db s3) e = Some (timer_event delay time (mEfiSystemTime (Db s)) ev)"
    using now(2) e(2,4) by (auto simp: s3_def s1_def f_def timer_event_def)
  obtain l where ins: "CoreInsertEventTimer P e s3 = Some (upd_db (\<lambda>d. d\<lparr>mEfiTimerList := l\<rparr>) s3)"
    and "timer_insert (Events (Db s3)) (mEfiSystemTime (Db s) + time) e (mEfiTimerList (Db s3)) = Some l"
    using CoreInsertEventTimer_returns [OF db_inv_timer [OF D3] h3 e0 e3] by (auto simp: timer_event_def)
  then have "set l = insert e (set (mEfiTimerList (Db s3)))"
    using timer_insert_run [of "Db s3"] D3 e3 by (simp add: db_inv_def timer_inv_def trigger_def timer_event_def)
  moreover have "mEfiTimerList (Db s3) = mEfiTimerList (Db s)" "gEventPending (Db s3) = gEventPending (Db s)"
    using now(2) by (simp_all add: s3_def s1_def f_def)
  moreover have "start_timer P (CoreRestoreTpl P NC (Suc n)) e delay time s =
      Some (upd_db (\<lambda>d. d\<lparr>mEfiTimerList := l\<rparr>) s3)"
    using s2 ins time unfolding start_timer_def Let_def s1 by (simp add: s3_def)
  ultimately show ?thesis using e3 by simp
qed

text \<open>C7. Setting a timer with a delay that is not 0 returns with success: the event is on the timer
  list, which stays sorted, with the system time plus the delay as its trigger time (modulo 2 to the
  64) and the delay as its period if it is periodic; an earlier setting of the same timer is gone.\<close>

theorem CoreSetTimer_sets:
  assumes A: "Asserts P" and N: "drivers_ok NC" and I: "dxe_inv s" and tpl: "gEfiCurrentTpl s < TPL_HIGH_LEVEL"
    and free: "Lock (Locks s mEfiTimerLock) = EfiLockReleased" "Lock (Locks s mEfiSystemTimeLock) = EfiLockReleased"
    and ev: "Events (Db s) e = Some ev" "Type ev AND EVT_TIMER \<noteq> 0"
    and arg: "delay = TimerPeriodic \<or> delay = TimerRelative" "time \<noteq> 0"
  shows "\<exists>u. CoreSetTimer P (CoreRestoreTpl P NC (Suc n)) e delay time s = Some (EFI_SUCCESS, u) \<and>
    Events (Db u) e = Some (ev\<lparr>TriggerTime := mEfiSystemTime (Db s) + time,
      Period := if delay = TimerPeriodic then time else 0\<rparr>) \<and>
    set (mEfiTimerList (Db u)) = insert e (set (mEfiTimerList (Db s))) \<and> timer_inv (Db u) \<and>
    gEfiCurrentTpl u = gEfiCurrentTpl s"
proof -
  define R where "R = CoreRestoreTpl P NC (Suc n)"
  have R: "restore_ok R" unfolding R_def by (rule CoreRestoreTpl_ok [OF A N])
  have D: "db_inv (Db s)" by (rule dxe_invD(1) [OF I])
  have e: "e \<noteq> 0" "Signature ev = EVENT_SIGNATURE"
    using D ev(1) by (auto simp: db_inv_def events_inv_def event_ok_def)
  obtain t where t: "CoreAcquireLock P mEfiTimerLock s = Some t"
    using CoreAcquireLock_returns [OF free(1) dxe_invD(2) [OF I]] tpl by auto
  note lk = CoreAcquireLock_locked [OF t A dxe_invD(2) [OF I]]
  define t1 where "t1 = upd_db (cancel_timer e) t"
  have It: "dxe_inv t" using locked_dxe_inv [OF lk(1)] lk(2) D by simp
  have k1: "keeps t t1"
    unfolding t1_def by (rule dxe_inv_upd_db [OF It]) (simp_all add: db_inv_cancel_timer dxe_invD(1) [OF It])
  let ?ev = "ev\<lparr>TriggerTime := 0, Period := 0\<rparr>"
  have d1: "Events (Db t1) e = Some ?ev" "mEfiSystemTime (Db t1) = mEfiSystemTime (Db s)"
    "mEfiTimerList (Db t1) = removeAll e (mEfiTimerList (Db s))" "gEventPending (Db t1) = gEventPending (Db s)"
    using lk(2) ev(1) by (simp_all add: t1_def) (simp_all add: cancel_timer_def upd_event_def)
  have "held t1 mEfiTimerLock" "Lock (Locks t1 mEfiSystemTimeLock) = EfiLockReleased"
    using lk(1) free(2) by (simp_all add: t1_def locked_def held_def)
  with start_timer_returns [OF A N keeps_inv [OF k1] _ _ arg(2), of e ?ev n delay] d1 ev(2)
  obtain v where v: "start_timer P R e delay time t1 = Some v"
    "Events (Db v) e = Some (timer_event delay time (mEfiSystemTime (Db s)) ?ev)"
    "set (mEfiTimerList (Db v)) = insert e (set (mEfiTimerList (Db s)))" "gEventPending (Db v) = gEventPending (Db s)"
    unfolding R_def by auto
  have kv: "keeps t1 v"
    by (rule start_timer_keeps [OF A R keeps_inv [OF k1] _ _ v(1)]) (use d1 ev(2) in simp_all)
  then have lv: "locked mEfiTimerLock s v" using locked_keeps [OF lk(1)] keeps_trans [OF k1] by blast
  have pq: "pending_inv (Db v)" "quiet (gEfiCurrentTpl s) (Db v)"
    using keeps_inv [OF kv] v(4) I by (simp_all add: dxe_inv_def db_inv_def lock_inv_def quiet_def)
  obtain u where u: "CoreReleaseLock P R mEfiTimerLock v = Some u"
    using CoreReleaseLock_returns [OF lv pq] unfolding R_def by blast
  note r = CoreReleaseLock_quiet [OF u A R lv pq]
  have "CoreSetTimer P R e delay time s = Some (EFI_SUCCESS, u)"
    using e ev t v(1) u arg(1)
    by (auto simp: CoreSetTimer_def ievent_def Let_def upd_db_comp comp_def cancel_timer_def [abs_def] t1_def)
  moreover have "timer_inv (Db u)" using r(2) keeps_inv [OF kv] by (simp add: dxe_inv_def db_inv_def)
  ultimately show ?thesis using r v unfolding R_def by (intro exI [of _ u]) (simp add: timer_event_def)
qed


theorem CoreSetTimer_sets_witness:
  "\<exists>u. CoreSetTimer demo_platform (CoreRestoreTpl demo_platform log_drivers 1) 6 TimerPeriodic 50 (demo TPL_NOTIFY) =
       Some (EFI_SUCCESS, u) \<and> set (mEfiTimerList (Db u)) = {6} \<and>
       map_option TriggerTime (Events (Db u) 6) = Some 150 \<and> map_option Period (Events (Db u) 6) = Some 50"
proof -
  have ev: "Events (Db (demo TPL_NOTIFY)) 6 = Some (demo_event EVT_TIMER 0 0 None)"
    "mEfiSystemTime (Db (demo TPL_NOTIFY)) = 100" "mEfiTimerList (Db (demo TPL_NOTIFY)) = []"
    "gEfiCurrentTpl (demo TPL_NOTIFY) = TPL_NOTIFY" "Lock (Locks (demo TPL_NOTIFY) l) = EfiLockReleased" for l
    by (simp_all add: demo_def demo_db_def)
  have "Asserts demo_platform" by (simp add: demo_platform_def)
  with CoreSetTimer_sets [of demo_platform log_drivers "demo TPL_NOTIFY" 6
      "demo_event EVT_TIMER 0 0 None" TimerPeriodic 50 0] log_drivers_ok demo_inv [of TPL_NOTIFY] ev
  show ?thesis by fastforce
qed

text \<open>C8. Closing an event leaves no trace of it: when the call reports success the event is on no
  notification queue, not on the signal queue, not on the list of runtime events and not on the
  timer list, its memory is free and the protocol database has no notification record for it.\<close>

theorem CoreCloseEvent_forgets:
  assumes A: "Asserts P" and N: "drivers_ok NC" and I: "dxe_inv s"
    and run: "CoreCloseEvent P (CoreRestoreTpl P NC n) unreg e s = Some (EFI_SUCCESS, u)"
  shows "Events (Db u) e = None \<and> (\<forall>p. e \<notin> set (gEventQueue (Db u) p)) \<and> e \<notin> set (gEventSignalQueue (Db u)) \<and>
    e \<notin> set (gRuntimeEventHead (Db u)) \<and> e \<notin> set (mEfiTimerList (Db u)) \<and> unreg e (Ctx u) = None \<and> dxe_inv u"
proof -
  have u: "keeps s u" "Events (Db u) e = None" "unreg e (Ctx u) = None"
    using CoreCloseEvent_keeps [OF A CoreRestoreTpl_ok [OF A N] I run] by auto
  have "db_inv (Db u)" using keeps_inv [OF u(1)] by (simp add: dxe_inv_def)
  then have "e \<notin> set (gEventQueue (Db u) p)" "e \<notin> set (gEventSignalQueue (Db u))"
      "e \<notin> set (gRuntimeEventHead (Db u))" "e \<notin> set (mEfiTimerList (Db u))" for p
    using u(2) unfolding db_inv_def queue_inv_def signal_inv_def timer_inv_def by (metis option.distinct(1))+
  with u keeps_inv [OF u(1)] show ?thesis by blast
qed


lemma CoreUnregisterProtocolNotify_none:
  assumes "\<And>c. unreg e c = None"
  shows "CoreUnregisterProtocolNotify P R unreg e s =
    map_option (\<lambda>(_, s). (EFI_SUCCESS, s)) (CoreUnregisterProtocolNotifyEvent P R unreg e s)"
proof (cases "CoreUnregisterProtocolNotifyEvent P R unreg e s")
  case None
  then show ?thesis by (subst CoreUnregisterProtocolNotify.simps) simp
next
  case (Some x)
  then have "EFI_ERROR (fst x)"
    using assms by (auto simp: CoreUnregisterProtocolNotifyEvent_def bind_eq_Some_conv)
  with Some show ?thesis by (subst CoreUnregisterProtocolNotify.simps) (auto split: prod.splits)
qed

theorem CoreCloseEvent_forgets_witness:
  "\<exists>u. CoreCloseEvent demo_platform (CoreRestoreTpl demo_platform log_drivers 1) (\<lambda>e c. None) 4 (demo TPL_NOTIFY) =
       Some (EFI_SUCCESS, u) \<and> Events (Db u) 4 = None \<and> 4 \<notin> set (gEventQueue (Db u) 16)"
proof -
  let ?s = "demo TPL_NOTIFY"
  have A: "Asserts demo_platform" and I: "dxe_inv ?s" by (simp_all add: demo_platform_def demo_inv)
  have free: "Lock (Locks ?s l) = EfiLockReleased" for l by (simp add: demo_def)
  have q: "pending_inv (unlink_event 4 (Db ?s))" "quiet (gEfiCurrentTpl ?s) (unlink_event 4 (Db ?s))"
    using I by (simp_all add: dxe_inv_def db_inv_def lock_inv_def pending_inv_unlink quiet_def)
  obtain t v where t: "CoreAcquireLock demo_platform gEventQueueLock ?s = Some t"
    and v: "CoreReleaseLock demo_platform (CoreRestoreTpl demo_platform log_drivers 1) gEventQueueLock
      (upd_db (unlink_event 4) t) = Some v"
    "Db v = unlink_event 4 (Db ?s)" "gEfiCurrentTpl v = gEfiCurrentTpl ?s" "same_locks ?s v"
    using event_section_returns [OF A log_drivers_ok I free, where n = 0] q by (metis One_nat_def)
  have L: "lock_inv v" "Lock (Locks v gProtocolDatabaseLock) = EfiLockReleased"
    using v I free q(2) by (auto simp: lock_inv_def dxe_inv_def same_locks_def held_def)
  then obtain w where w: "CoreAcquireLock demo_platform gProtocolDatabaseLock v = Some w"
    using CoreAcquireLock_returns [OF L(2,1)] v(3) by (auto simp: demo_def)
  note lk = CoreAcquireLock_locked [OF w A L(1)]
  obtain x where "CoreReleaseLock demo_platform (CoreRestoreTpl demo_platform log_drivers 1) gProtocolDatabaseLock w = Some x"
    using CoreReleaseLock_returns [OF lk(1), where n = 0] lk(2) v(2,3) q by auto
  with w have "CoreUnregisterProtocolNotify demo_platform (CoreRestoreTpl demo_platform log_drivers 1) (\<lambda>e c. None) 4 v =
      Some (EFI_SUCCESS, x)"
    by (simp add: CoreUnregisterProtocolNotify_none CoreUnregisterProtocolNotifyEvent_def)
  moreover have "Events (Db ?s) 4 = Some (demo_event EVT_NOTIFY_SIGNAL 1 16 (Some (Driver_fn 0)))"
    by (simp add: demo_def demo_db_def)
  ultimately obtain u where u: "CoreCloseEvent demo_platform (CoreRestoreTpl demo_platform log_drivers 1) (\<lambda>e c. None) 4 ?s =
       Some (EFI_SUCCESS, u)"
    using t v(1) by (simp add: CoreCloseEvent_def ievent_def event_lock_defs)
  show ?thesis using CoreCloseEvent_forgets [OF A log_drivers_ok I u] u by blast
qed

lemma CoreCheckTimers_unexpired:
  assumes A: "Asserts P" and N: "drivers_ok NC" and I: "dxe_inv s" and hi: "gEfiCurrentTpl s = TPL_HIGH_LEVEL - 1"
    and run: "CoreCheckTimers P (CoreRestoreTpl P NC n) s = Some u"
  shows "timer_inv (Db u) \<and> (\<forall>e \<in> set (mEfiTimerList (Db u)). mEfiSystemTime (Db s) < trigger (Db u) e)"
proof -
  define R where "R = CoreRestoreTpl P NC n"
  have R: "restore_ok R" unfolding R_def by (rule CoreRestoreTpl_ok [OF A N])
  obtain t now t1 t2 where t: "CoreAcquireLock P mEfiTimerLock s = Some t"
    and t1: "CoreCurrentSystemTime P R t = Some (now, t1)"
    and t2: "check_timers_loop P R now t1 = Some t2" and u: "CoreReleaseLock P R mEfiTimerLock t2 = Some u"
    using run unfolding R_def by (auto simp: CoreCheckTimers_def bind_eq_Some_conv)
  note lk = CoreAcquireLock_locked [OF t A dxe_invD(2) [OF I]]
  have It: "dxe_inv t" using locked_dxe_inv [OF lk(1)] lk(2) dxe_invD(1) [OF I] by simp
  note now = CoreCurrentSystemTime_run [OF A R dxe_invD(2) [OF It] db_inv_pending [OF dxe_invD(1) [OF It]] t1]
  have k1: "keeps t t1" using now It by (simp add: keeps_def dxe_inv_def)
  have "TPL_HIGH_LEVEL - 1 \<le> gEfiCurrentTpl t1" using now(4) lk(1) by (simp add: locked_def)
  then have k2: "keeps t t2" using check_timers_loop_keeps [OF A R t2 keeps_inv [OF k1]] keeps_trans [OF k1] by blast
  have D2: "db_inv (Db t2)" using keeps_inv [OF k2] by (simp add: dxe_inv_def)
  have fin: "mEfiTimerList (Db t2) = [] \<or>
      (\<exists>e q ev. mEfiTimerList (Db t2) = e # q \<and> ievent t2 e = Some ev \<and> now < TriggerTime ev)"
    using check_timers_loop_rule [where I = "\<lambda>_. True", OF t2] by simp
  have "now < trigger (Db t2) e" if e: "e \<in> set (mEfiTimerList (Db t2))" for e
  proof -
    obtain h q ev where h: "mEfiTimerList (Db t2) = h # q" "Events (Db t2) h = Some ev" "now < TriggerTime ev"
      using e fin by (auto simp: ievent_Some)
    then have "TriggerTime ev \<le> trigger (Db t2) e"
      using e D2 by (auto simp: db_inv_def timer_inv_def trigger_def [of _ h])
    with h(3) show ?thesis by (rule order_less_le_trans)
  qed
  moreover have "locked mEfiTimerLock s t2" by (rule locked_keeps [OF lk(1) k2])
  then have "Db u = Db t2" using CoreReleaseLock_done [OF u A R] D2 hi by simp
  moreover have "now = mEfiSystemTime (Db s)" using now(1) lk(2) by simp
  ultimately show ?thesis using D2 by (simp add: db_inv_def)
qed

text \<open>C5. At the level of the timer check, if the system time plus any period does not wrap around,
  \<open>CoreCheckTimers\<close> returns, every timer left on the list triggers later than the system time at the
  call, and the list is sorted.\<close>

theorem CoreCheckTimers_returns:
  assumes A: "Asserts P" and N: "drivers_ok NC" and I: "dxe_inv s" and hi: "gEfiCurrentTpl s = TPL_HIGH_LEVEL - 1"
    and free: "\<forall>l. Lock (Locks s l) = EfiLockReleased"
    and chk: "Events (Db s) (mEfiCheckTimerEvent (Db s)) \<noteq> None"
    and nowrap: "\<forall>e ev. Events (Db s) e = Some ev \<longrightarrow> Period ev = 0 \<or> mEfiSystemTime (Db s) < mEfiSystemTime (Db s) + Period ev"
  shows "\<exists>u. CoreCheckTimers P (CoreRestoreTpl P NC (Suc n)) s = Some u \<and> timer_inv (Db u) \<and>
    (\<forall>e \<in> set (mEfiTimerList (Db u)). mEfiSystemTime (Db s) < trigger (Db u) e)"
proof -
  define R where "R = CoreRestoreTpl P NC (Suc n)"
  have R: "restore_ok R" unfolding R_def by (rule CoreRestoreTpl_ok [OF A N])
  obtain t where t: "CoreAcquireLock P mEfiTimerLock s = Some t"
    using CoreAcquireLock_returns [OF _ dxe_invD(2) [OF I], of mEfiTimerLock] free hi by auto
  note lk = CoreAcquireLock_locked [OF t A dxe_invD(2) [OF I]]
  have It: "dxe_inv t" using locked_dxe_inv [OF lk(1)] lk(2) dxe_invD(1) [OF I] by simp
  have "Lock (Locks t mEfiSystemTimeLock) = EfiLockReleased" using lk(1) free by (simp add: locked_def)
  then obtain t1 where t1: "CoreCurrentSystemTime P R t = Some (mEfiSystemTime (Db s), t1)"
    using CoreCurrentSystemTime_returns [OF A N It] lk(2) unfolding R_def by auto
  note now = CoreCurrentSystemTime_run [OF A R dxe_invD(2) [OF It] db_inv_pending [OF dxe_invD(1) [OF It]] t1]
  have d1: "Db t1 = Db s" using now(2) lk(2) by simp
  have "dxe_inv t1" using now It by (simp add: dxe_inv_def)
  then have "timers_locked t1"
    using now lk free chk d1 by (simp add: timers_locked_def locked_def held_def same_locks_def)
  moreover have "\<forall>e. period (Db t1) e = 0 \<or> mEfiSystemTime (Db s) < mEfiSystemTime (Db s) + period (Db t1) e"
    using nowrap d1 by (auto simp: period_def split: option.split)
  ultimately obtain t2 where t2: "check_timers_loop P R (mEfiSystemTime (Db s)) t1 = Some t2"
    using check_timers_loop_returns [OF A N] unfolding R_def by blast
  have "TPL_HIGH_LEVEL - 1 \<le> gEfiCurrentTpl t1" using now(4) lk(1) by (simp add: locked_def)
  with check_timers_loop_keeps [OF A R t2 \<open>dxe_inv t1\<close>] have k2: "keeps t1 t2" by blast
  have "keeps t t1" using now It \<open>dxe_inv t1\<close> by (simp add: keeps_def)
  then have "locked mEfiTimerLock s t2" using locked_keeps [OF lk(1)] keeps_trans k2 by blast
  moreover have "pending_inv (Db t2)" using keeps_inv [OF k2] by (simp add: dxe_inv_def db_inv_def)
  ultimately obtain u where "CoreReleaseLock P R mEfiTimerLock t2 = Some u"
    using release_high hi unfolding R_def by fastforce
  with t t1 t2 have run: "CoreCheckTimers P R s = Some u" by (simp add: CoreCheckTimers_def)
  with CoreCheckTimers_unexpired [OF A N I hi] show ?thesis unfolding R_def by blast
qed

definition demo_timer_db :: event_db where
  "demo_timer_db = demo_db\<lparr>mEfiTimerList := [6],
     Events := (Events demo_db)(6 \<mapsto> (demo_event EVT_TIMER 0 0 None)\<lparr>TriggerTime := 150\<rparr>)\<rparr>"

lemma demo_timer_inv: "dxe_inv (upd_db (\<lambda>_. demo_timer_db) (demo 30))"
proof -
  have 1: "demo_timer_db = upd_event 6 (TriggerTime_update (\<lambda>_. 150)) demo_db \<lparr>mEfiTimerList := [6]\<rparr>"
    by (simp add: demo_timer_db_def upd_event_def demo_db_def)
  have 2: "db_inv (upd_event 6 (TriggerTime_update (\<lambda>_. 150)) demo_db)"
    by (rule db_inv_upd_time [OF demo_db_inv]) (simp_all add: demo_db_def)
  have "db_inv demo_timer_db"
    unfolding 1 by (rule db_inv_timer_list [OF 2]) (simp add: timer_inv_def demo_db_def)
  moreover have "gEventPending demo_timer_db = gEventPending (Db (demo 30))"
    by (simp add: demo_timer_db_def demo_def)
  ultimately show ?thesis
    using dxe_inv_upd_db [of "demo 30" "\<lambda>_. demo_timer_db"] demo_inv [of 30] by (simp add: keeps_def)
qed

theorem CoreCheckTimers_returns_witness:
  "\<exists>u. CoreCheckTimers demo_platform (CoreRestoreTpl demo_platform log_drivers 1) (upd_db (\<lambda>_. demo_timer_db) (demo 30)) =
     Some u \<and> (\<forall>e \<in> set (mEfiTimerList (Db u)). 100 < trigger (Db u) e)"
proof -
  let ?s = "upd_db (\<lambda>_. demo_timer_db) (demo 30)"
  have d: "mEfiSystemTime (Db ?s) = 100" "gEfiCurrentTpl ?s = 30" "mEfiCheckTimerEvent (Db ?s) = 1"
    "Lock (Locks ?s l) = EfiLockReleased" "Events (Db ?s) 1 \<noteq> None" "Asserts demo_platform" for l
    by (simp_all add: demo_timer_db_def demo_db_def demo_def demo_platform_def)
  have "\<forall>e ev. Events (Db ?s) e = Some ev \<longrightarrow> Period ev = 0"
    by (auto simp: demo_timer_db_def demo_db_def split: if_splits)
  with CoreCheckTimers_returns [OF d(6) log_drivers_ok demo_timer_inv, of 0] d show ?thesis by auto
qed

text \<open>C6. A periodic timer whose period is so long that the system time plus the period wraps around
  makes \<open>CoreCheckTimers\<close> loop forever: the timer is found late, is put back with the current time as
  trigger time, and is found late again.\<close>

theorem CoreCheckTimers_hangs_on_wrap:
  assumes A: "Asserts P" and N: "drivers_ok NC" and I: "dxe_inv s"
    and l: "mEfiTimerList (Db s) = [e]" and ev: "Events (Db s) e = Some ev" "Period ev \<noteq> 0"
    and late: "TriggerTime ev \<le> mEfiSystemTime (Db s)" "TriggerTime ev + Period ev \<le> mEfiSystemTime (Db s)"
    and wraps: "mEfiSystemTime (Db s) + Period ev < mEfiSystemTime (Db s)"
  shows "CoreCheckTimers P (CoreRestoreTpl P NC n) s = None"
proof (rule ccontr)
  define R where "R = CoreRestoreTpl P NC n"
  have R: "restore_ok R" unfolding R_def by (rule CoreRestoreTpl_ok [OF A N])
  assume "CoreCheckTimers P (CoreRestoreTpl P NC n) s \<noteq> None"
  then obtain t now t1 t2 where t: "CoreAcquireLock P mEfiTimerLock s = Some t"
    and t1: "CoreCurrentSystemTime P R t = Some (now, t1)" and t2: "check_timers_loop P R now t1 = Some t2"
    unfolding R_def by (auto simp: CoreCheckTimers_def bind_eq_Some_conv)
  note lk = CoreAcquireLock_locked [OF t A dxe_invD(2) [OF I]]
  have It: "dxe_inv t" using locked_dxe_inv [OF lk(1)] lk(2) dxe_invD(1) [OF I] by simp
  note run = CoreCurrentSystemTime_run [OF A R dxe_invD(2) [OF It] db_inv_pending [OF dxe_invD(1) [OF It]] t1]
  have now: "now = mEfiSystemTime (Db s)" using run(1) lk(2) by simp
  define J where "J x \<longleftrightarrow> dxe_inv x \<and> TPL_HIGH_LEVEL - 1 \<le> gEfiCurrentTpl x \<and> mEfiTimerList (Db x) = [e] \<and>
    (\<exists>ev'. Events (Db x) e = Some ev' \<and> Period ev' = Period ev \<and> TriggerTime ev' \<le> now \<and>
      TriggerTime ev' + Period ev \<le> now)" for x :: "'a dxe"
  have init: "J t1"
    using run lk l ev late now It by (simp add: J_def dxe_inv_def locked_def)
  have turn: "J v" if J: "J x" and x: "expire_timer P R now e x = Some v" for x v
  proof -
    have k: "keeps x v"
      by (rule expire_timer_keeps [OF A R _ _ _ x]) (use J in \<open>auto simp: J_def\<close>)
    have l1: "mEfiTimerList (Db x) = [e]" using J by (simp add: J_def)
    have "trigger (Db x) e + period (Db x) e \<le> now" "period (Db x) e = Period ev"
      using J by (auto simp: J_def trigger_def period_def)
    with expire_timer_effect [OF A R _ _ l1 x] J ev(2)
    have v: "set (mEfiTimerList (Db v)) = {e}" "trigger (Db v) e = now" "period (Db v) e = Period ev"
        "Events (Db v) e \<noteq> None"
      by (auto simp: J_def next_time_def)
    have "mEfiTimerList (Db v) = [e]"
      using singleton_list [OF _ v(1)] keeps_inv [OF k] by (simp add: dxe_inv_def db_inv_def timer_inv_def)
    moreover have "now + Period ev \<le> now" using wraps now by simp
    ultimately show ?thesis using J k v(2-4) by (auto simp: J_def keeps_def trigger_def period_def)
  qed
  have "J t2 \<and> (mEfiTimerList (Db t2) = [] \<or>
      (\<exists>e q ev. mEfiTimerList (Db t2) = e # q \<and> ievent t2 e = Some ev \<and> now < TriggerTime ev))"
  proof (rule check_timers_loop_rule [where I = J, OF t2 init])
    fix x h q ev' v
    assume "J x" "mEfiTimerList (Db x) = h # q" "expire_timer P R now h x = Some v"
    then show "J v" using turn [of x v] by (simp add: J_def)
  qed
  then show False by (auto simp: J_def ievent_Some)
qed


theorem CoreCheckTimers_hangs_on_wrap_witness:
  "CoreCheckTimers demo_platform (CoreRestoreTpl demo_platform log_drivers 5)
     (upd_db (\<lambda>d. d\<lparr>Events := (Events d)(6 \<mapsto> (demo_event EVT_TIMER 0 0 None)\<lparr>TriggerTime := 99, Period := -1\<rparr>)\<rparr>)
       (upd_db (\<lambda>_. demo_timer_db) (demo 30))) = None"
proof -
  let ?s = "upd_db (\<lambda>_. demo_timer_db) (demo 30)"
  let ?d = "(demo_timer_db)\<lparr>Events := (Events demo_timer_db)
    (6 \<mapsto> (demo_event EVT_TIMER 0 0 None)\<lparr>TriggerTime := 99, Period := -1\<rparr>)\<rparr>"
  have 1: "?d = upd_event 6 (\<lambda>ev. ev\<lparr>TriggerTime := 99, Period := -1\<rparr>) demo_db \<lparr>mEfiTimerList := [6]\<rparr>"
    by (simp add: demo_timer_db_def upd_event_def demo_db_def)
  have 2: "db_inv (upd_event 6 (\<lambda>ev. ev\<lparr>TriggerTime := 99, Period := -1\<rparr>) demo_db)"
    by (rule db_inv_upd_time [OF demo_db_inv]) (simp_all add: demo_db_def)
  have "db_inv ?d"
    unfolding 1 by (rule db_inv_timer_list [OF 2]) (simp add: timer_inv_def demo_db_def)
  then have I: "dxe_inv (upd_db (\<lambda>d. d\<lparr>Events := (Events d)
      (6 \<mapsto> (demo_event EVT_TIMER 0 0 None)\<lparr>TriggerTime := 99, Period := -1\<rparr>)\<rparr>) ?s)"
    by (intro keeps_inv [OF dxe_inv_upd_db [OF demo_timer_inv]]) simp_all
  show ?thesis
    by (rule CoreCheckTimers_hangs_on_wrap [OF _ log_drivers_ok I, where e = 6 and
          ev = "(demo_event EVT_TIMER 0 0 None)\<lparr>TriggerTime := 99, Period := -1\<rparr>"])
      (simp_all add: demo_platform_def demo_timer_db_def demo_db_def)
qed

text \<open>A periodic timer with period 0 is a timer that triggers once: \<open>CoreSetTimer\<close> puts it on the list
  with period 0, and \<open>CoreCheckTimers\<close> does not put a timer with period 0 back.\<close>

lemma periodic_zero_expires_once:
  assumes A: "Asserts P" and N: "drivers_ok NC" and I: "dxe_inv s" and hi: "gEfiCurrentTpl s = TPL_HIGH_LEVEL - 1"
    and l: "mEfiTimerList (Db s) = [e]" and ev: "Events (Db s) e = Some ev" "Period ev = 0"
    and run: "CoreCheckTimers P (CoreRestoreTpl P NC n) s = Some u"
    and due: "TriggerTime ev \<le> mEfiSystemTime (Db s)"
  shows "mEfiTimerList (Db u) = []"
proof -
  define R where "R = CoreRestoreTpl P NC n"
  have R: "restore_ok R" unfolding R_def by (rule CoreRestoreTpl_ok [OF A N])
  obtain t now t1 t2 where t: "CoreAcquireLock P mEfiTimerLock s = Some t"
    and t1: "CoreCurrentSystemTime P R t = Some (now, t1)" and t2: "check_timers_loop P R now t1 = Some t2"
    and u: "CoreReleaseLock P R mEfiTimerLock t2 = Some u"
    using run unfolding R_def by (auto simp: CoreCheckTimers_def bind_eq_Some_conv)
  note lk = CoreAcquireLock_locked [OF t A dxe_invD(2) [OF I]]
  have It: "dxe_inv t" using locked_dxe_inv [OF lk(1)] lk(2) dxe_invD(1) [OF I] by simp
  note now = CoreCurrentSystemTime_run [OF A R dxe_invD(2) [OF It] db_inv_pending [OF dxe_invD(1) [OF It]] t1]
  have h: "TPL_HIGH_LEVEL - 1 \<le> gEfiCurrentTpl t1" "dxe_inv t1"
    using now It lk(1) by (simp_all add: locked_def dxe_inv_def)
  define J where "J x \<longleftrightarrow> mEfiTimerList (Db x) = [] \<or> x = t1" for x
  have "J t2 \<and> (mEfiTimerList (Db t2) = [] \<or>
      (\<exists>e q ev. mEfiTimerList (Db t2) = e # q \<and> ievent t2 e = Some ev \<and> now < TriggerTime ev))"
  proof (rule check_timers_loop_rule [where I = J, OF t2])
    show "J t1" by (simp add: J_def)
    fix x h' q ev' v
    assume "J x" "mEfiTimerList (Db x) = h' # q" "expire_timer P R now h' x = Some v"
    then show "J v" using expire_timer_effect [OF A R h(2,1), of e "[]"] now(2) lk(2) l ev
      by (auto simp: J_def period_def)
  qed
  then have "mEfiTimerList (Db t2) = []"
    using now(1,2) lk(2) l ev(1) due by (auto simp: J_def ievent_Some)
  moreover have "keeps t1 t2" by (rule check_timers_loop_keeps [OF A R t2 h(2,1)])
  then have "locked mEfiTimerLock s t2 \<and> db_inv (Db t2)"
    using locked_keeps [OF lk(1)] keeps_trans [of t t1] now It by (auto simp: keeps_def dxe_inv_def)
  then have "Db u = Db t2" using CoreReleaseLock_done [OF u A R, of s] hi by simp
  ultimately show ?thesis by simp
qed


end
