(* ===== verification/Dependency.thy ===== *)
theory Dependency
  imports DxePrelude
begin

section \<open>Dependency expressions of drivers\<close>

text \<open>
  Model of \<^verbatim>\<open>MdeModulePkg/Core/Dxe/Dispatcher/Dependency.c\<close>: the stack of Booleans on which dependency
  expressions are evaluated, the preprocessing of an expression, and the evaluator.

  A dependency expression is a byte string in postfix notation. The evaluator overwrites a \<open>PUSH\<close>
  opcode with \<open>REPLACE_TRUE\<close> once the protocol it names has been found, so the byte string is part of
  the state. Reading outside the buffer does not return.

  Arguments for what the file calls: \<open>alloc n\<close> is the result of \<open>AllocatePool\<close> for \<open>n\<close> Booleans (their
  initial contents, or None), \<open>locate g\<close> the status of \<open>CoreLocateProtocol\<close> for the protocol \<open>g\<close>,
  \<open>services\<close> that of \<open>CoreAllEfiServicesAvailable\<close>, and \<open>en\<close> says whether assertions are enabled.
\<close>

subsection \<open>Data\<close>

record EFI_CORE_DRIVER_ENTRY =
  FvHandle :: nat
  FileName :: EFI_GUID
  FvFileDevicePath :: nat
  Fv :: nat
  Depex :: "uint8 list option"
  DepexSize :: nat
  Before :: bool
  After :: bool
  BeforeAfterGuid :: EFI_GUID
  Dependent :: bool
  Unrequested :: bool
  Scheduled :: bool
  Untrusted :: bool
  Initialized :: bool
  DepexProtocolError :: bool
  ImageHandle :: nat

abbreviation "EFI_DEP_BEFORE \<equiv> 0x00 :: uint8"
abbreviation "EFI_DEP_AFTER \<equiv> 0x01 :: uint8"
abbreviation "EFI_DEP_PUSH \<equiv> 0x02 :: uint8"
abbreviation "EFI_DEP_AND \<equiv> 0x03 :: uint8"
abbreviation "EFI_DEP_OR \<equiv> 0x04 :: uint8"
abbreviation "EFI_DEP_NOT \<equiv> 0x05 :: uint8"
abbreviation "EFI_DEP_TRUE \<equiv> 0x06 :: uint8"
abbreviation "EFI_DEP_FALSE \<equiv> 0x07 :: uint8"
abbreviation "EFI_DEP_END \<equiv> 0x08 :: uint8"
abbreviation "EFI_DEP_SOR \<equiv> 0x09 :: uint8"
abbreviation "EFI_DEP_REPLACE_TRUE \<equiv> 0xff :: uint8"

definition DEPEX_STACK_SIZE_INCREMENT :: nat where
  "DEPEX_STACK_SIZE_INCREMENT = 0x1000"

text \<open>The evaluation stack: the allocated array (None for NULL) and the stack pointer as an index.\<close>

record depex_stack =
  mDepexEvaluationStack :: "bool list option"
  mDepexEvaluationStackPointer :: nat

type_synonym alloc_bools = "nat \<Rightarrow> bool list option"

text \<open>The GUID in 16 bytes of memory.\<close>

definition guid_of_bytes :: "uint8 list \<Rightarrow> EFI_GUID" where
  "guid_of_bytes bs = foldr (\<lambda>b g. ucast b + 256 * g) bs 0"

definition read_byte :: "uint8 list \<Rightarrow> nat \<Rightarrow> uint8 option" where
  "read_byte m i = (if i < length m then Some (m ! i) else None)"

definition read_guid :: "uint8 list \<Rightarrow> nat \<Rightarrow> EFI_GUID option" where
  "read_guid m i = (if i + 16 \<le> length m then Some (guid_of_bytes (take 16 (drop i m))) else None)"

subsection \<open>The evaluation stack\<close>

definition stack_end :: "depex_stack \<Rightarrow> nat" where
  "stack_end st = (case mDepexEvaluationStack st of None \<Rightarrow> 0 | Some l \<Rightarrow> length l)"

definition GrowDepexStack :: "alloc_bools \<Rightarrow> depex_stack \<Rightarrow> EFI_STATUS \<times> depex_stack" where
  "GrowDepexStack alloc st =
     (let Size = DEPEX_STACK_SIZE_INCREMENT + stack_end st;
          old = (case mDepexEvaluationStack st of None \<Rightarrow> [] | Some l \<Rightarrow> l)
      in case alloc Size of
           None \<Rightarrow> (EFI_OUT_OF_RESOURCES, st)
         | Some NewStack \<Rightarrow>
             (EFI_SUCCESS, st\<lparr>mDepexEvaluationStack := Some (old @ drop (length old) NewStack)\<rparr>))"

definition PushBool :: "alloc_bools \<Rightarrow> bool \<Rightarrow> depex_stack \<Rightarrow> EFI_STATUS \<times> depex_stack" where
  "PushBool alloc Value st =
     (let (Status, st) =
        (if mDepexEvaluationStackPointer st = stack_end st then GrowDepexStack alloc st
         else (EFI_SUCCESS, st))
      in if EFI_ERROR Status then (Status, st)
         else (EFI_SUCCESS, st\<lparr>mDepexEvaluationStack :=
                 map_option (\<lambda>l. l[mDepexEvaluationStackPointer st := Value]) (mDepexEvaluationStack st),
               mDepexEvaluationStackPointer := mDepexEvaluationStackPointer st + 1\<rparr>))"

text \<open>The popped value and the stack, or the error status.\<close>

definition PopBool :: "depex_stack \<Rightarrow> EFI_STATUS + bool \<times> depex_stack" where
  "PopBool st =
     (if mDepexEvaluationStackPointer st = 0 then Inl EFI_ACCESS_DENIED
      else let st = st\<lparr>mDepexEvaluationStackPointer := mDepexEvaluationStackPointer st - 1\<rparr>
           in Inr (the (mDepexEvaluationStack st) ! mDepexEvaluationStackPointer st, st))"

subsection \<open>Preprocessing\<close>

definition CorePreProcessDepex :: "EFI_CORE_DRIVER_ENTRY \<Rightarrow> (EFI_STATUS \<times> EFI_CORE_DRIVER_ENTRY) option" where
  "CorePreProcessDepex d = do {
     m \<leftarrow> Depex d;
     op \<leftarrow> read_byte m 0;
     let d = (if op = EFI_DEP_SOR then d\<lparr>Unrequested := True\<rparr> else d\<lparr>Dependent := True\<rparr>);
     let d = (if op = EFI_DEP_BEFORE then d\<lparr>Before := True\<rparr>
              else if op = EFI_DEP_AFTER then d\<lparr>After := True\<rparr> else d);
     if Before d \<or> After d then do {
       g \<leftarrow> read_guid m 1;
       Some (EFI_SUCCESS, d\<lparr>BeforeAfterGuid := g\<rparr>)
     }
     else Some (EFI_SUCCESS, d)
   }"

subsection \<open>Evaluation\<close>

text \<open>
  One turn of the loop of \<open>CoreIsSchedulable\<close> at offset \<open>it\<close>: \<open>Inl b\<close> for \<open>return b\<close>, \<open>Inr it'\<close> for
  going on at offset \<open>it'\<close>, with the byte string and the stack after it.
\<close>

definition push_next ::
    "alloc_bools \<Rightarrow> bool \<Rightarrow> nat \<Rightarrow> uint8 list \<Rightarrow> depex_stack \<Rightarrow> (bool + nat) \<times> uint8 list \<times> depex_stack" where
  "push_next alloc b it m st =
     (let (Status, st) = PushBool alloc b st
      in if EFI_ERROR Status then (Inl False, m, st) else (Inr it, m, st))"

definition pop2_push ::
    "alloc_bools \<Rightarrow> (bool \<Rightarrow> bool \<Rightarrow> bool) \<Rightarrow> nat \<Rightarrow> uint8 list \<Rightarrow> depex_stack \<Rightarrow>
     (bool + nat) \<times> uint8 list \<times> depex_stack" where
  "pop2_push alloc f it m st =
     (case PopBool st of
        Inl _ \<Rightarrow> (Inl False, m, st)
      | Inr (Operator, st) \<Rightarrow>
          (case PopBool st of
             Inl _ \<Rightarrow> (Inl False, m, st)
           | Inr (Operator2, st) \<Rightarrow> push_next alloc (f Operator Operator2) it m st))"

definition depex_op ::
    "bool \<Rightarrow> alloc_bools \<Rightarrow> (EFI_GUID \<Rightarrow> EFI_STATUS) \<Rightarrow> nat \<Rightarrow> uint8 list \<Rightarrow> depex_stack \<Rightarrow>
     ((bool + nat) \<times> uint8 list \<times> depex_stack) option" where
  "depex_op en alloc locate it m st = do {
     op \<leftarrow> read_byte m it;
     if op = EFI_DEP_BEFORE \<or> op = EFI_DEP_AFTER \<or> op = EFI_DEP_SOR then do {
       ASSERT en (Some (op = EFI_DEP_SOR));
       Some (if it \<noteq> 0 then Inl False else Inr (it + 1), m, st)
     }
     else if op = EFI_DEP_PUSH then do {
       g \<leftarrow> read_guid m (it + 1);
       Some (if EFI_ERROR (locate g) then push_next alloc False (it + 16 + 1) m st
             else push_next alloc True (it + 16 + 1) (m[it := EFI_DEP_REPLACE_TRUE]) st)
     }
     else if op = EFI_DEP_AND then Some (pop2_push alloc (\<and>) (it + 1) m st)
     else if op = EFI_DEP_OR then Some (pop2_push alloc (\<or>) (it + 1) m st)
     else if op = EFI_DEP_NOT then
       Some (case PopBool st of
               Inl _ \<Rightarrow> (Inl False, m, st)
             | Inr (Operator, st) \<Rightarrow> push_next alloc (\<not> Operator) (it + 1) m st)
     else if op = EFI_DEP_TRUE then Some (push_next alloc True (it + 1) m st)
     else if op = EFI_DEP_FALSE then Some (push_next alloc False (it + 1) m st)
     else if op = EFI_DEP_END then
       Some (case PopBool st of Inl _ \<Rightarrow> (Inl False, m, st) | Inr (Operator, st) \<Rightarrow> (Inl Operator, m, st))
     else if op = EFI_DEP_REPLACE_TRUE then Some (push_next alloc True (it + 16 + 1) m st)
     else Some (Inl False, m, st)
   }"

lemma push_next_offset: "push_next alloc b it m st = (Inr it', m', st') \<Longrightarrow> it' = it"
  by (auto simp: push_next_def split: prod.splits if_splits)

lemma depex_op_forward:
  "depex_op en alloc locate it m st = Some (Inr it', m', st') \<Longrightarrow> it < it'"
  by (fastforce simp: depex_op_def pop2_push_def bind_eq_Some_conv Let_def
      dest: push_next_offset split: if_splits sum.splits prod.splits)

function depex_loop ::
    "bool \<Rightarrow> alloc_bools \<Rightarrow> (EFI_GUID \<Rightarrow> EFI_STATUS) \<Rightarrow> nat \<Rightarrow> nat \<Rightarrow> uint8 list \<Rightarrow> depex_stack \<Rightarrow>
     (bool \<times> uint8 list \<times> depex_stack) option" where
  "depex_loop en alloc locate sz it m st =
     (if it \<ge> sz then Some (False, m, st)
      else case depex_op en alloc locate it m st of
        None \<Rightarrow> None
      | Some (Inl b, m, st) \<Rightarrow> Some (b, m, st)
      | Some (Inr it', m, st) \<Rightarrow> depex_loop en alloc locate sz it' m st)"
  by pat_completeness auto
termination
  by (relation "measure (\<lambda>(en, alloc, locate, sz, it, m, st). sz - it)")
    (auto dest: depex_op_forward)

declare depex_loop.simps [simp del]

definition CoreIsSchedulable ::
    "bool \<Rightarrow> alloc_bools \<Rightarrow> (EFI_GUID \<Rightarrow> EFI_STATUS) \<Rightarrow> EFI_STATUS \<Rightarrow> EFI_CORE_DRIVER_ENTRY \<Rightarrow> depex_stack \<Rightarrow>
     (bool \<times> EFI_CORE_DRIVER_ENTRY \<times> depex_stack) option" where
  "CoreIsSchedulable en alloc locate services d st =
     (if After d \<or> Before d then Some (False, d, st)
      else case Depex d of
        None \<Rightarrow> Some (\<not> EFI_ERROR services, d, st)
      | Some m \<Rightarrow> do {
          let st = st\<lparr>mDepexEvaluationStackPointer := 0\<rparr>;
          (b, m, st) \<leftarrow> depex_loop en alloc locate (DepexSize d) 0 m st;
          Some (b, d\<lparr>Depex := Some m\<rparr>, st)
        })"

subsection \<open>The contract of the stack\<close>

text \<open>
  What the evaluator needs of the stack: pushing and popping act on a list of Booleans, as long as
  memory can be had (\<open>mem\<close>).
\<close>

locale bool_stack =
  fixes push :: "bool \<Rightarrow> 's \<Rightarrow> EFI_STATUS \<times> 's"
    and pop :: "'s \<Rightarrow> EFI_STATUS + bool \<times> 's"
    and contents :: "'s \<Rightarrow> bool list"
    and ok :: "'s \<Rightarrow> bool"
    and mem :: bool
  assumes push_ok: "ok s \<Longrightarrow> mem \<Longrightarrow> push b s = (st, s') \<Longrightarrow> st = EFI_SUCCESS \<and> ok s' \<and> contents s' = b # contents s"
    and pop_empty: "ok s \<Longrightarrow> contents s = [] \<Longrightarrow> pop s = Inl EFI_ACCESS_DENIED"
    and pop_cons: "ok s \<Longrightarrow> contents s = b # bs \<Longrightarrow> \<exists>s'. pop s = Inr (b, s') \<and> ok s' \<and> contents s' = bs"
begin

lemma pop_push: "ok s \<Longrightarrow> mem \<Longrightarrow> push b s = (st, s') \<Longrightarrow> \<exists>s''. pop s' = Inr (b, s'') \<and> contents s'' = contents s"
  using push_ok pop_cons by blast

lemma pop_cases:
  assumes "ok s"
  obtains "contents s = []" "pop s = Inl EFI_ACCESS_DENIED"
  | b s' where "contents s = b # contents s'" "pop s = Inr (b, s')" "ok s'"
  using assms pop_empty pop_cons by (cases "contents s") blast+

end

text \<open>The stack of the source: the pointer stays inside the array, and the elements below it, from the
  top down, are the contents.\<close>

definition stack_ok :: "depex_stack \<Rightarrow> bool" where
  "stack_ok st \<longleftrightarrow> mDepexEvaluationStackPointer st \<le> stack_end st"

definition stack_list :: "depex_stack \<Rightarrow> bool list" where
  "stack_list st = (case mDepexEvaluationStack st of None \<Rightarrow> []
     | Some l \<Rightarrow> rev (take (mDepexEvaluationStackPointer st) l))"

definition alloc_total :: "alloc_bools \<Rightarrow> bool" where
  "alloc_total alloc \<longleftrightarrow> (\<forall>n. \<exists>l. alloc n = Some l \<and> length l = n)"

lemma GrowDepexStack_ok:
  assumes "stack_ok st" "alloc_total alloc" "GrowDepexStack alloc st = (Status, st')"
  shows "Status = EFI_SUCCESS \<and> stack_list st' = stack_list st \<and>
    mDepexEvaluationStackPointer st' = mDepexEvaluationStackPointer st \<and>
    stack_end st' = DEPEX_STACK_SIZE_INCREMENT + stack_end st"
proof -
  obtain l where l: "alloc (DEPEX_STACK_SIZE_INCREMENT + stack_end st) = Some l"
    "length l = DEPEX_STACK_SIZE_INCREMENT + stack_end st"
    using assms(2) by (auto simp: alloc_total_def)
  show ?thesis
    using assms(1,3) l
    by (cases "mDepexEvaluationStack st")
      (auto simp: GrowDepexStack_def Let_def stack_list_def stack_end_def stack_ok_def)
qed

lemma PushBool_ok:
  assumes ok: "stack_ok st" and total: "alloc_total alloc" and run: "PushBool alloc b st = (Status, st')"
  shows "Status = EFI_SUCCESS \<and> stack_ok st' \<and> stack_list st' = b # stack_list st"
proof -
  define room where "room = (if mDepexEvaluationStackPointer st = stack_end st then snd (GrowDepexStack alloc st) else st)"
  have grow: "fst (GrowDepexStack alloc st) = EFI_SUCCESS"
    using GrowDepexStack_ok [OF ok total surjective_pairing] by simp
  have room: "stack_list room = stack_list st" "mDepexEvaluationStackPointer room < stack_end room"
    using GrowDepexStack_ok [OF ok total surjective_pairing] ok
    by (auto simp: room_def stack_ok_def DEPEX_STACK_SIZE_INCREMENT_def)
  obtain l where l: "mDepexEvaluationStack room = Some l"
    using room(2) by (auto simp: stack_end_def split: option.splits)
  have "PushBool alloc b st = (EFI_SUCCESS, room\<lparr>mDepexEvaluationStack := Some (l[mDepexEvaluationStackPointer room := b]),
      mDepexEvaluationStackPointer := mDepexEvaluationStackPointer room + 1\<rparr>)"
    using grow l by (cases "GrowDepexStack alloc st") (auto simp: PushBool_def room_def Let_def split: if_splits)
  with run room l show ?thesis
    by (auto simp: stack_ok_def stack_end_def stack_list_def take_Suc_conv_app_nth)
qed

interpretation depex: bool_stack "PushBool alloc" PopBool stack_list stack_ok "alloc_total alloc" for alloc
proof (unfold_locales, goal_cases)
  case (1 s b st s')
  then show ?case using PushBool_ok by blast
next
  case (2 s)
  then show ?case by (auto simp: PopBool_def stack_ok_def stack_end_def stack_list_def split: option.splits)
next
  case (3 s b bs)
  then obtain l n where l: "mDepexEvaluationStack s = Some l" and n: "mDepexEvaluationStackPointer s = Suc n" "n < length l"
    by (cases "mDepexEvaluationStackPointer s") (auto simp: stack_ok_def stack_end_def stack_list_def split: option.splits)
  with 3 show ?case by (auto simp: PopBool_def Let_def stack_ok_def stack_end_def stack_list_def take_Suc_conv_app_nth)
qed

subsection \<open>Meaning of dependency expressions\<close>

text \<open>
  Expression trees, their byte strings and their value when \<open>env g\<close> tells which protocols are there.
  \<open>DFound\<close> is an occurrence of a protocol that has been found by an earlier evaluation.
\<close>

datatype depex_expr =
    DTrue
  | DFalse
  | DPush "uint8 list"
  | DFound "uint8 list"
  | DNot depex_expr
  | DAnd depex_expr depex_expr
  | DOr depex_expr depex_expr

primrec depex_bytes :: "depex_expr \<Rightarrow> uint8 list" where
  "depex_bytes DTrue = [EFI_DEP_TRUE]"
| "depex_bytes DFalse = [EFI_DEP_FALSE]"
| "depex_bytes (DPush g) = EFI_DEP_PUSH # g"
| "depex_bytes (DFound g) = EFI_DEP_REPLACE_TRUE # g"
| "depex_bytes (DNot e) = depex_bytes e @ [EFI_DEP_NOT]"
| "depex_bytes (DAnd a b) = depex_bytes a @ depex_bytes b @ [EFI_DEP_AND]"
| "depex_bytes (DOr a b) = depex_bytes a @ depex_bytes b @ [EFI_DEP_OR]"

primrec depex_value :: "(EFI_GUID \<Rightarrow> bool) \<Rightarrow> depex_expr \<Rightarrow> bool" where
  "depex_value env DTrue = True"
| "depex_value env DFalse = False"
| "depex_value env (DPush g) = env (guid_of_bytes g)"
| "depex_value env (DFound g) = True"
| "depex_value env (DNot e) = (\<not> depex_value env e)"
| "depex_value env (DAnd a b) = (depex_value env a \<and> depex_value env b)"
| "depex_value env (DOr a b) = (depex_value env a \<or> depex_value env b)"

text \<open>The occurrences of protocols that are there, marked as found.\<close>

primrec depex_mark :: "(EFI_GUID \<Rightarrow> bool) \<Rightarrow> depex_expr \<Rightarrow> depex_expr" where
  "depex_mark env DTrue = DTrue"
| "depex_mark env DFalse = DFalse"
| "depex_mark env (DPush g) = (if env (guid_of_bytes g) then DFound g else DPush g)"
| "depex_mark env (DFound g) = DFound g"
| "depex_mark env (DNot e) = DNot (depex_mark env e)"
| "depex_mark env (DAnd a b) = DAnd (depex_mark env a) (depex_mark env b)"
| "depex_mark env (DOr a b) = DOr (depex_mark env a) (depex_mark env b)"

primrec guids_ok :: "depex_expr \<Rightarrow> bool" where
  "guids_ok DTrue \<longleftrightarrow> True"
| "guids_ok DFalse \<longleftrightarrow> True"
| "guids_ok (DPush g) \<longleftrightarrow> length g = 16"
| "guids_ok (DFound g) \<longleftrightarrow> length g = 16"
| "guids_ok (DNot e) \<longleftrightarrow> guids_ok e"
| "guids_ok (DAnd a b) \<longleftrightarrow> guids_ok a \<and> guids_ok b"
| "guids_ok (DOr a b) \<longleftrightarrow> guids_ok a \<and> guids_ok b"

lemma length_mark [simp]: "length (depex_bytes (depex_mark env e)) = length (depex_bytes e)"
  by (induction e) simp_all

lemma guids_ok_mark [simp]: "guids_ok (depex_mark env e) = guids_ok e"
  by (induction e) simp_all

lemma value_mark: "depex_value env' (depex_mark env e) = depex_value (\<lambda>g. env g \<or> env' g) e"
  by (induction e) simp_all

subsection \<open>The evaluator computes the value\<close>

lemma push_next_ok:
  assumes "stack_ok st" "alloc_total alloc"
  shows "\<exists>st'. push_next alloc b it m st = (Inr it, m, st') \<and> stack_ok st' \<and> stack_list st' = b # stack_list st"
  using depex.push_ok [OF assms, of b] by (cases "PushBool alloc b st") (auto simp: push_next_def)

lemma pop2_push_ok:
  assumes "stack_ok st" "alloc_total alloc" "stack_list st = x # y # l"
  shows "\<exists>st'. pop2_push alloc f it m st = (Inr it, m, st') \<and> stack_ok st' \<and> stack_list st' = f x y # l"
proof -
  obtain s1 where s1: "PopBool st = Inr (x, s1)" "stack_ok s1" "stack_list s1 = y # l"
    using depex.pop_cons [OF assms(1,3)] by blast
  obtain s2 where s2: "PopBool s1 = Inr (y, s2)" "stack_ok s2" "stack_list s2 = l"
    using depex.pop_cons [OF s1(2,3)] by blast
  from push_next_ok [OF s2(2) assms(2)] s1(1) s2(1,3) show ?thesis by (simp add: pop2_push_def)
qed

lemma depex_loop_next:
  "it < sz \<Longrightarrow> depex_op en alloc locate it m st = Some (Inr it', m', st') \<Longrightarrow>
   depex_loop en alloc locate sz it m st = depex_loop en alloc locate sz it' m' st'"
  by (subst depex_loop.simps) simp

lemma read_at [simp]: "read_byte (pre @ b # post) (length pre) = Some b"
  by (simp add: read_byte_def)

text \<open>What the evaluator does with the bytes of \<open>e\<close>, wherever they stand.\<close>

definition evaluates ::
    "bool \<Rightarrow> alloc_bools \<Rightarrow> (EFI_GUID \<Rightarrow> EFI_STATUS) \<Rightarrow> nat \<Rightarrow> depex_expr \<Rightarrow> bool" where
  "evaluates en alloc locate sz e \<longleftrightarrow> (\<forall>pre post st. stack_ok st \<longrightarrow> guids_ok e \<longrightarrow>
     length pre + length (depex_bytes e) \<le> sz \<longrightarrow>
     (\<exists>st'. depex_loop en alloc locate sz (length pre) (pre @ depex_bytes e @ post) st =
        depex_loop en alloc locate sz (length pre + length (depex_bytes e))
          (pre @ depex_bytes (depex_mark (\<lambda>g. \<not> EFI_ERROR (locate g)) e) @ post) st' \<and>
      stack_ok st' \<and> stack_list st' = depex_value (\<lambda>g. \<not> EFI_ERROR (locate g)) e # stack_list st))"

lemma evaluatesI:
  assumes "\<And>pre post st. stack_ok st \<Longrightarrow> guids_ok e \<Longrightarrow> length pre + length (depex_bytes e) \<le> sz \<Longrightarrow>
     \<exists>st'. depex_loop en alloc locate sz (length pre) (pre @ depex_bytes e @ post) st =
        depex_loop en alloc locate sz (length pre + length (depex_bytes e))
          (pre @ depex_bytes (depex_mark (\<lambda>g. \<not> EFI_ERROR (locate g)) e) @ post) st' \<and>
      stack_ok st' \<and> stack_list st' = depex_value (\<lambda>g. \<not> EFI_ERROR (locate g)) e # stack_list st"
  shows "evaluates en alloc locate sz e"
  using assms by (simp add: evaluates_def)

lemma evaluatesE:
  assumes "evaluates en alloc locate sz e" "stack_ok st" "guids_ok e" "length pre + length (depex_bytes e) \<le> sz"
  obtains st' where "depex_loop en alloc locate sz (length pre) (pre @ depex_bytes e @ post) st =
        depex_loop en alloc locate sz (length pre + length (depex_bytes e))
          (pre @ depex_bytes (depex_mark (\<lambda>g. \<not> EFI_ERROR (locate g)) e) @ post) st'"
      "stack_ok st'" "stack_list st' = depex_value (\<lambda>g. \<not> EFI_ERROR (locate g)) e # stack_list st"
  using assms unfolding evaluates_def by blast

text \<open>An expression of one opcode, and one with a binary operator.\<close>

lemma evaluates_leaf:
  assumes total: "alloc_total alloc" and bytes: "depex_bytes e = op # g"
    and run: "\<And>pre post st. guids_ok e \<Longrightarrow> depex_op en alloc locate (length pre) (pre @ op # g @ post) st =
      Some (push_next alloc (depex_value (\<lambda>g. \<not> EFI_ERROR (locate g)) e) (length pre + (length g + 1))
        (pre @ depex_bytes (depex_mark (\<lambda>g. \<not> EFI_ERROR (locate g)) e) @ post) st)"
  shows "evaluates en alloc locate sz e"
proof (rule evaluatesI)
  fix pre post :: "uint8 list" and st
  assume a: "stack_ok st" "guids_ok e" "length pre + length (depex_bytes e) \<le> sz"
  let ?env = "\<lambda>g. \<not> EFI_ERROR (locate g)"
  let ?m = "pre @ depex_bytes (depex_mark ?env e) @ post"
  obtain st' where st': "push_next alloc (depex_value ?env e) (length pre + (length g + 1)) ?m st =
      (Inr (length pre + (length g + 1)), ?m, st')" "stack_ok st'" "stack_list st' = depex_value ?env e # stack_list st"
    using push_next_ok [OF a(1) total] by blast
  have "depex_op en alloc locate (length pre) (pre @ depex_bytes e @ post) st =
      Some (Inr (length pre + length (depex_bytes e)), ?m, st')"
    using run [OF a(2), of pre post st] st'(1) bytes by simp
  then have "depex_loop en alloc locate sz (length pre) (pre @ depex_bytes e @ post) st =
      depex_loop en alloc locate sz (length pre + length (depex_bytes e)) ?m st'"
    by (rule depex_loop_next [rotated]) (use a(3) bytes in simp)
  with st'(2,3) show "\<exists>st'. depex_loop en alloc locate sz (length pre) (pre @ depex_bytes e @ post) st =
      depex_loop en alloc locate sz (length pre + length (depex_bytes e)) ?m st' \<and>
      stack_ok st' \<and> stack_list st' = depex_value ?env e # stack_list st" by blast
qed

lemma evaluates_binop:
  assumes total: "alloc_total alloc" and ea: "evaluates en alloc locate sz a" and eb: "evaluates en alloc locate sz b"
    and op: "\<And>it m st. read_byte m it = Some op \<Longrightarrow>
      depex_op en alloc locate it m st = Some (pop2_push alloc f (it + 1) m st)"
    and e: "depex_bytes e = depex_bytes a @ depex_bytes b @ [op]" "guids_ok e \<Longrightarrow> guids_ok a \<and> guids_ok b"
      "\<And>env. depex_bytes (depex_mark env e) = depex_bytes (depex_mark env a) @ depex_bytes (depex_mark env b) @ [op]"
      "\<And>env. depex_value env e = f (depex_value env b) (depex_value env a)"
  shows "evaluates en alloc locate sz e"
proof (rule evaluatesI)
  fix pre post :: "uint8 list" and st
  assume g: "stack_ok st" "guids_ok e" "length pre + length (depex_bytes e) \<le> sz"
  let ?env = "\<lambda>g. \<not> EFI_ERROR (locate g)"
  let ?L = "depex_loop en alloc locate sz"
  let ?A = "depex_bytes (depex_mark ?env a)" and ?B = "depex_bytes (depex_mark ?env b)"
  have ga: "guids_ok a" "guids_ok b" using e(2) g(2) by auto
  have la: "length pre + length (depex_bytes a) \<le> sz" and lb: "length (pre @ ?A) + length (depex_bytes b) \<le> sz"
    using g(3) e(1) by simp_all
  obtain s1 where s1: "?L (length pre) (pre @ depex_bytes a @ depex_bytes b @ op # post) st =
      ?L (length pre + length (depex_bytes a)) (pre @ ?A @ depex_bytes b @ op # post) s1"
      "stack_ok s1" "stack_list s1 = depex_value ?env a # stack_list st"
    by (rule evaluatesE [OF ea g(1) ga(1) la])
  obtain s2 where s2: "?L (length (pre @ ?A)) ((pre @ ?A) @ depex_bytes b @ op # post) s1 =
      ?L (length (pre @ ?A) + length (depex_bytes b)) ((pre @ ?A) @ ?B @ op # post) s2"
      "stack_ok s2" "stack_list s2 = depex_value ?env b # depex_value ?env a # stack_list st"
    by (rule evaluatesE [OF eb s1(2) ga(2) lb]) (use s1(3) in simp)
  let ?p = "pre @ ?A @ ?B"
  obtain s3 where s3: "pop2_push alloc f (length ?p + 1) (?p @ op # post) s2 = (Inr (length ?p + 1), ?p @ op # post, s3)"
      "stack_ok s3" "stack_list s3 = f (depex_value ?env b) (depex_value ?env a) # stack_list st"
    using pop2_push_ok [OF s2(2) total s2(3)] by blast
  have "depex_op en alloc locate (length ?p) (?p @ op # post) s2 = Some (Inr (length ?p + 1), ?p @ op # post, s3)"
    unfolding op [OF read_at] s3(1) ..
  then have "?L (length ?p) (?p @ op # post) s2 = ?L (length ?p + 1) (?p @ op # post) s3"
    by (rule depex_loop_next [rotated]) (use g(3) e(1) in simp)
  with s1(1) s2(1) s3 e show "\<exists>st'. ?L (length pre) (pre @ depex_bytes e @ post) st =
      ?L (length pre + length (depex_bytes e)) (pre @ depex_bytes (depex_mark ?env e) @ post) st' \<and>
      stack_ok st' \<and> stack_list st' = depex_value ?env e # stack_list st"
    by (intro exI [of _ s3]) (simp add: add.assoc)
qed

lemma evaluates_not:
  assumes total: "alloc_total alloc" and ea: "evaluates en alloc locate sz a"
  shows "evaluates en alloc locate sz (DNot a)"
proof (rule evaluatesI)
  fix pre post :: "uint8 list" and st
  assume g: "stack_ok st" "guids_ok (DNot a)" "length pre + length (depex_bytes (DNot a)) \<le> sz"
  let ?env = "\<lambda>g. \<not> EFI_ERROR (locate g)"
  let ?L = "depex_loop en alloc locate sz"
  let ?p = "pre @ depex_bytes (depex_mark ?env a)"
  obtain s1 where s1: "?L (length pre) (pre @ depex_bytes a @ EFI_DEP_NOT # post) st =
      ?L (length pre + length (depex_bytes a)) (pre @ depex_bytes (depex_mark ?env a) @ EFI_DEP_NOT # post) s1"
      "stack_ok s1" "stack_list s1 = depex_value ?env a # stack_list st"
    by (rule evaluatesE [OF ea g(1), of pre "EFI_DEP_NOT # post"]) (use g in simp_all)
  obtain s2 where s2: "PopBool s1 = Inr (depex_value ?env a, s2)" "stack_ok s2" "stack_list s2 = stack_list st"
    using depex.pop_cons [OF s1(2,3)] by blast
  obtain s3 where s3: "push_next alloc (\<not> depex_value ?env a) (length ?p + 1) (?p @ EFI_DEP_NOT # post) s2 =
      (Inr (length ?p + 1), ?p @ EFI_DEP_NOT # post, s3)" "stack_ok s3"
      "stack_list s3 = (\<not> depex_value ?env a) # stack_list st"
    using push_next_ok [OF s2(2) total] s2(3) by fastforce
  have "depex_op en alloc locate (length ?p) (?p @ EFI_DEP_NOT # post) s1 =
      Some (Inr (length ?p + 1), ?p @ EFI_DEP_NOT # post, s3)"
    using s2(1) s3(1) unfolding depex_op_def read_at by simp
  then have "?L (length ?p) (?p @ EFI_DEP_NOT # post) s1 = ?L (length ?p + 1) (?p @ EFI_DEP_NOT # post) s3"
    by (rule depex_loop_next [rotated]) (use g(3) in simp)
  with s1(1) s3 show "\<exists>st'. ?L (length pre) (pre @ depex_bytes (DNot a) @ post) st =
      ?L (length pre + length (depex_bytes (DNot a))) (pre @ depex_bytes (depex_mark ?env (DNot a)) @ post) st' \<and>
      stack_ok st' \<and> stack_list st' = depex_value ?env (DNot a) # stack_list st"
    by (intro exI [of _ s3]) simp
qed

lemma depex_op_push:
  "length g = 16 \<Longrightarrow> depex_op en alloc locate (length pre) (pre @ EFI_DEP_PUSH # g @ post) st =
     Some (push_next alloc (\<not> EFI_ERROR (locate (guid_of_bytes g))) (length pre + (length g + 1))
       (pre @ (if EFI_ERROR (locate (guid_of_bytes g)) then EFI_DEP_PUSH else EFI_DEP_REPLACE_TRUE) # g @ post) st)"
  by (simp add: depex_op_def read_guid_def list_update_append add.commute [of 17])

lemma depex_evaluates:
  assumes total: "alloc_total alloc"
  shows "evaluates en alloc locate sz e"
proof (induction e)
  case DTrue
  show ?case by (rule evaluates_leaf [OF total, where op = EFI_DEP_TRUE and g = "[]"]) (simp_all add: depex_op_def)
next
  case DFalse
  show ?case by (rule evaluates_leaf [OF total, where op = EFI_DEP_FALSE and g = "[]"]) (simp_all add: depex_op_def)
next
  case (DPush g)
  show ?case by (rule evaluates_leaf [OF total, where op = EFI_DEP_PUSH and g = g]) (simp_all add: depex_op_push)
next
  case (DFound g)
  show ?case
    by (rule evaluates_leaf [OF total, where op = EFI_DEP_REPLACE_TRUE and g = g])
      (simp_all add: depex_op_def add.commute [of 17])
next
  case (DNot e)
  show ?case by (rule evaluates_not [OF total DNot.IH])
next
  case (DAnd a b)
  show ?case by (rule evaluates_binop [OF total DAnd.IH, where op = EFI_DEP_AND and f = "(\<and>)"]) (auto simp: depex_op_def)
next
  case (DOr a b)
  show ?case by (rule evaluates_binop [OF total DOr.IH, where op = EFI_DEP_OR and f = "(\<or>)"]) (auto simp: depex_op_def)
qed

subsection \<open>Properties\<close>

text \<open>A driver entry whose dependency expression is \<open>e\<close>, with or without the opcode \<open>SOR\<close> in front.\<close>

definition depex_entry :: "bool \<Rightarrow> depex_expr \<Rightarrow> EFI_CORE_DRIVER_ENTRY \<Rightarrow> bool" where
  "depex_entry sor e d \<longleftrightarrow> \<not> Before d \<and> \<not> After d \<and> guids_ok e \<and>
     Depex d = Some ((if sor then [EFI_DEP_SOR] else []) @ depex_bytes e @ [EFI_DEP_END]) \<and>
     DepexSize d = length (the (Depex d))"

lemma CoreIsSchedulable_entry:
  assumes total: "alloc_total alloc" and d: "depex_entry sor e d"
  shows "\<exists>st' d'. CoreIsSchedulable en alloc locate services d st =
      Some (depex_value (\<lambda>g. \<not> EFI_ERROR (locate g)) e, d', st') \<and>
    depex_entry sor (depex_mark (\<lambda>g. \<not> EFI_ERROR (locate g)) e) d' \<and> d' = d\<lparr>Depex := Depex d'\<rparr>"
proof -
  let ?env = "\<lambda>g. \<not> EFI_ERROR (locate g)"
  define pre where "pre = (if sor then [EFI_DEP_SOR] else [])"
  let ?m = "pre @ depex_bytes e @ [EFI_DEP_END]"
  let ?st = "st\<lparr>mDepexEvaluationStackPointer := 0\<rparr>"
  let ?L = "depex_loop en alloc locate (DepexSize d)"
  have e: "guids_ok e" "\<not> Before d" "\<not> After d" "Depex d = Some ?m"
    and sz: "DepexSize d = length pre + length (depex_bytes e) + 1"
    using d by (auto simp: depex_entry_def pre_def)
  have ok: "stack_ok ?st" "stack_list ?st = []"
    by (simp_all add: stack_ok_def stack_list_def split: option.split)
  have sor: "?L 0 ?m ?st = ?L (length pre) ?m ?st"
  proof (cases sor)
    case True
    then show ?thesis using sz by (intro depex_loop_next) (simp_all add: pre_def depex_op_def read_byte_def)
  qed (simp add: pre_def)
  obtain s1 where s1: "?L (length pre) ?m ?st =
      ?L (length pre + length (depex_bytes e)) (pre @ depex_bytes (depex_mark ?env e) @ [EFI_DEP_END]) s1"
      "stack_ok s1" "stack_list s1 = depex_value ?env e # stack_list ?st"
    using evaluatesE [OF depex_evaluates [OF total] ok(1) e(1), where pre = pre and sz = "DepexSize d" and
        post = "[EFI_DEP_END]" and en = en and locate = locate] sz by auto
  obtain s2 where s2: "PopBool s1 = Inr (depex_value ?env e, s2)"
    using depex.pop_cons [OF s1(2,3)] by blast
  let ?p = "pre @ depex_bytes (depex_mark ?env e)"
  have "depex_op en alloc locate (length ?p) (?p @ [EFI_DEP_END]) s1 = Some (Inl (depex_value ?env e), ?p @ [EFI_DEP_END], s2)"
    using s2 unfolding depex_op_def read_at by simp
  then have "?L (length ?p) (?p @ [EFI_DEP_END]) s1 = Some (depex_value ?env e, ?p @ [EFI_DEP_END], s2)"
    using sz by (subst depex_loop.simps) simp
  with sor s1(1) have run: "?L 0 ?m ?st = Some (depex_value ?env e, ?p @ [EFI_DEP_END], s2)" by simp
  have "CoreIsSchedulable en alloc locate services d st =
      Some (depex_value ?env e, d\<lparr>Depex := Some (?p @ [EFI_DEP_END])\<rparr>, s2)"
    using e run by (simp add: CoreIsSchedulable_def Let_def)
  then show ?thesis
    using e sz by (intro exI [of _ s2] exI [of _ "d\<lparr>Depex := Some (?p @ [EFI_DEP_END])\<rparr>"]) (simp add: depex_entry_def pre_def)
qed

text \<open>C35. For a well-formed dependency expression \<open>CoreIsSchedulable\<close> returns the value of the expression,
  a protocol counting as true when it can be located, whatever the evaluation stack was before.\<close>

theorem CoreIsSchedulable_value:
  assumes "alloc_total alloc" "depex_entry sor e d"
  shows "\<exists>st' d'. CoreIsSchedulable en alloc locate services d st =
    Some (depex_value (\<lambda>g. \<not> EFI_ERROR (locate g)) e, d', st')"
  using CoreIsSchedulable_entry [OF assms] by blast

text \<open>A protocol that has been found once counts as found in every later evaluation, even if it has
  been uninstalled since: the second evaluation, at a time when \<open>locate'\<close> tells what is installed,
  gives the value for the protocols found at either time.\<close>

theorem CoreIsSchedulable_sticky:
  assumes "alloc_total alloc" "depex_entry sor e d"
    and "CoreIsSchedulable en alloc locate services d st = Some (b, d', st')"
  shows "\<exists>d'' st''. CoreIsSchedulable en alloc locate' services' d' st' =
    Some (depex_value (\<lambda>g. \<not> EFI_ERROR (locate g) \<or> \<not> EFI_ERROR (locate' g)) e, d'', st'')"
proof -
  have "depex_entry sor (depex_mark (\<lambda>g. \<not> EFI_ERROR (locate g)) e) d'"
    using CoreIsSchedulable_entry [OF assms(1,2), of en locate services st] assms(3) by auto
  from CoreIsSchedulable_entry [OF assms(1) this, of en locate' services' st'] show ?thesis
    by (simp add: value_mark) blast
qed

text \<open>A concrete driver: protocol \<open>g\<close> and not protocol \<open>h\<close>.\<close>

definition demo_guid :: "uint8 \<Rightarrow> uint8 list" where
  "demo_guid b = b # replicate 15 0"

definition demo_depex :: depex_expr where
  "demo_depex = DAnd (DPush (demo_guid 1)) (DNot (DPush (demo_guid 2)))"

definition demo_driver :: "uint8 list \<Rightarrow> EFI_CORE_DRIVER_ENTRY" where
  "demo_driver m = \<lparr>FvHandle = 1, FileName = 0, FvFileDevicePath = 0, Fv = 0, Depex = Some m, DepexSize = length m,
     Before = False, After = False, BeforeAfterGuid = 0, Dependent = True, Unrequested = False, Scheduled = False,
     Untrusted = False, Initialized = False, DepexProtocolError = False, ImageHandle = 0\<rparr>"

definition demo_alloc :: alloc_bools where
  "demo_alloc n = Some (replicate n False)"

definition demo_locate :: "EFI_GUID \<Rightarrow> EFI_STATUS" where
  "demo_locate g = (if g = 1 then EFI_SUCCESS else EFI_NOT_FOUND)"

definition empty_stack :: depex_stack where
  "empty_stack = \<lparr>mDepexEvaluationStack = None, mDepexEvaluationStackPointer = 0\<rparr>"

lemma demo_alloc_total: "alloc_total demo_alloc"
  by (simp add: alloc_total_def demo_alloc_def)

lemma demo_entry: "depex_entry True demo_depex (demo_driver (EFI_DEP_SOR # depex_bytes demo_depex @ [EFI_DEP_END]))"
  by (simp add: depex_entry_def demo_driver_def demo_depex_def demo_guid_def)

lemma guid_zeros: "foldr (\<lambda>(b :: uint8) (g :: EFI_GUID). ucast b + 256 * g) (replicate n 0) 0 = 0"
  by (induction n) simp_all

lemma demo_guids: "guid_of_bytes (demo_guid 1) = 1" "guid_of_bytes (demo_guid 2) = 2"
  by (simp_all only: guid_of_bytes_def demo_guid_def foldr.simps o_apply guid_zeros) simp_all

theorem CoreIsSchedulable_value_witness:
  "\<exists>st' d'. CoreIsSchedulable True demo_alloc demo_locate EFI_SUCCESS
     (demo_driver (EFI_DEP_SOR # depex_bytes demo_depex @ [EFI_DEP_END])) empty_stack = Some (True, d', st')"
  using CoreIsSchedulable_value [OF demo_alloc_total demo_entry, of True demo_locate EFI_SUCCESS empty_stack]
  by (simp add: demo_depex_def demo_guids demo_locate_def)

theorem CoreIsSchedulable_sticky_witness:
  "\<exists>d' st' d'' st''. CoreIsSchedulable True demo_alloc demo_locate EFI_SUCCESS
     (demo_driver (EFI_DEP_SOR # depex_bytes demo_depex @ [EFI_DEP_END])) empty_stack = Some (True, d', st') \<and>
   CoreIsSchedulable True demo_alloc (\<lambda>_. EFI_NOT_FOUND) EFI_SUCCESS d' st' = Some (True, d'', st'')"
proof -
  obtain st' d' where 1: "CoreIsSchedulable True demo_alloc demo_locate EFI_SUCCESS
     (demo_driver (EFI_DEP_SOR # depex_bytes demo_depex @ [EFI_DEP_END])) empty_stack = Some (True, d', st')"
    using CoreIsSchedulable_entry [OF demo_alloc_total demo_entry, of True demo_locate EFI_SUCCESS empty_stack]
    by (auto simp: demo_depex_def demo_guids demo_locate_def)
  from CoreIsSchedulable_sticky [OF demo_alloc_total demo_entry 1, of "\<lambda>_. EFI_NOT_FOUND" EFI_SUCCESS]
  have "\<exists>d'' st''. CoreIsSchedulable True demo_alloc (\<lambda>_. EFI_NOT_FOUND) EFI_SUCCESS d' st' = Some (True, d'', st'')"
    by (simp add: demo_depex_def demo_guids demo_locate_def)
  with 1 show ?thesis by blast
qed

text \<open>The beginning of an expression in postfix notation: complete expressions one after the other, each of
  which leaves its value on the stack.\<close>

lemma depex_loop_prefix:
  assumes total: "alloc_total alloc"
  shows "stack_ok st \<Longrightarrow> \<forall>e \<in> set es. guids_ok e \<Longrightarrow> length pre + length (concat (map depex_bytes es)) \<le> sz \<Longrightarrow>
    \<exists>pre' st'. depex_loop en alloc locate sz (length pre) (pre @ concat (map depex_bytes es) @ post) st =
        depex_loop en alloc locate sz (length pre') (pre' @ post) st' \<and>
      length pre' = length pre + length (concat (map depex_bytes es)) \<and> stack_ok st'"
proof (induction es arbitrary: pre st)
  case Nil
  then show ?case by (intro exI [of _ pre] exI [of _ st]) simp
next
  case (Cons e es)
  let ?p = "pre @ depex_bytes (depex_mark (\<lambda>g. \<not> EFI_ERROR (locate g)) e)"
  have e: "guids_ok e" "length pre + length (depex_bytes e) \<le> sz" using Cons.prems(2,3) by simp_all
  obtain s1 where s1: "depex_loop en alloc locate sz (length pre) (pre @ depex_bytes e @ concat (map depex_bytes es) @ post) st =
      depex_loop en alloc locate sz (length ?p) (?p @ concat (map depex_bytes es) @ post) s1" "stack_ok s1"
    by (rule evaluatesE [OF depex_evaluates [OF total] Cons.prems(1) e]) simp
  obtain pre' st' where "depex_loop en alloc locate sz (length ?p) (?p @ concat (map depex_bytes es) @ post) s1 =
      depex_loop en alloc locate sz (length pre') (pre' @ post) st'"
      "length pre' = length ?p + length (concat (map depex_bytes es))" "stack_ok st'"
    using Cons.IH [OF s1(2), of ?p] Cons.prems(2,3) by auto
  with s1(1) show ?case by (intro exI [of _ pre'] exI [of _ st']) simp
qed

text \<open>C37. A \<open>PUSH\<close> opcode among the last sixteen bytes of an expression makes the evaluator read its protocol
  GUID from beyond the end: the size is checked for opcodes only. The opcode may come after any operands that
  have been evaluated before it (\<open>es\<close>, any number of complete expressions, with or without \<open>SOR\<close> in front),
  whatever their values are; the buffer ends with the expression, and the evaluation stack gets its memory.\<close>

theorem CoreIsSchedulable_overread:
  assumes total: "alloc_total alloc" and d: "\<not> Before d" "\<not> After d" "\<forall>e \<in> set es. guids_ok e"
    "Depex d = Some ((if sor then [EFI_DEP_SOR] else []) @ concat (map depex_bytes es) @ EFI_DEP_PUSH # bs)"
    and bs: "length bs < 16" and sz: "DepexSize d = length (the (Depex d))"
  shows "CoreIsSchedulable en alloc locate services d st = None"
proof -
  define pre where "pre = (if sor then [EFI_DEP_SOR] else [])"
  let ?st = "st\<lparr>mDepexEvaluationStackPointer := 0\<rparr>" and ?L = "depex_loop en alloc locate (DepexSize d)"
  let ?m = "pre @ concat (map depex_bytes es) @ EFI_DEP_PUSH # bs"
  have m: "Depex d = Some ?m" using d(4) by (simp add: pre_def)
  have n: "DepexSize d = length pre + length (concat (map depex_bytes es)) + 1 + length bs" using sz m by simp
  have sor: "?L 0 ?m ?st = ?L (length pre) ?m ?st"
  proof (cases sor)
    case True
    then show ?thesis using n by (intro depex_loop_next) (simp_all add: pre_def depex_op_def read_byte_def)
  qed (simp add: pre_def)
  have ok: "stack_ok ?st" by (simp add: stack_ok_def)
  obtain p st' where p: "?L (length pre) ?m ?st = ?L (length p) (p @ EFI_DEP_PUSH # bs) st'"
      "length p = length pre + length (concat (map depex_bytes es))"
  proof -
    have "length pre + length (concat (map depex_bytes es)) \<le> DepexSize d" using n by simp
    from depex_loop_prefix [OF total ok d(3) this, of en locate "EFI_DEP_PUSH # bs"] show thesis
      by (elim exE conjE) (rule that)
  qed
  have "depex_op en alloc locate (length p) (p @ EFI_DEP_PUSH # bs) st' = None"
    using bs unfolding depex_op_def read_at by (simp add: read_guid_def)
  then have "?L (length p) (p @ EFI_DEP_PUSH # bs) st' = None" using n p(2) by (subst depex_loop.simps) simp
  then show ?thesis using sor p(1) d(1,2) m by (simp add: CoreIsSchedulable_def Let_def)
qed

theorem CoreIsSchedulable_overread_witness:
  "CoreIsSchedulable False demo_alloc demo_locate EFI_SUCCESS
     (demo_driver (EFI_DEP_SOR # depex_bytes demo_depex @ EFI_DEP_PUSH # replicate 15 0)) empty_stack = None"
  by (rule CoreIsSchedulable_overread [where sor = True and es = "[demo_depex]" and bs = "replicate 15 0"])
    (simp_all add: demo_driver_def demo_alloc_total demo_depex_def demo_guid_def)

text \<open>With sixteen readable bytes after the expression nothing is read outside the buffer.\<close>

lemma push_next_bytes: "fst (snd (push_next alloc b it m st)) = m"
  by (auto simp: push_next_def split: prod.splits)

lemma depex_op_in_buffer:
  assumes "it + 16 < length m" "\<not> en"
  shows "\<exists>r m' st'. depex_op en alloc locate it m st = Some (r, m', st') \<and> length m' = length m"
proof -
  have rb: "read_byte m it = Some (m ! it)" "\<exists>g. read_guid m (it + 1) = Some g"
    using assms(1) by (simp_all add: read_byte_def read_guid_def)
  have pn: "\<exists>r st'. push_next alloc b i l s = (r, l, st')" for b i l s
    using push_next_bytes [of alloc b i l s] by (metis prod.collapse)
  have pp: "\<exists>r st'. pop2_push alloc f i m st = (r, m, st')" for f i
    using pn by (fastforce simp: pop2_push_def split: sum.splits prod.splits)
  from rb(2) obtain g where g: "read_guid m (it + 1) = Some g" by blast
  consider "m ! it \<in> {EFI_DEP_BEFORE, EFI_DEP_AFTER, EFI_DEP_SOR}" | "m ! it = EFI_DEP_PUSH" |
    "m ! it = EFI_DEP_AND" | "m ! it = EFI_DEP_OR" | "m ! it = EFI_DEP_NOT" |
    "m ! it \<notin> {EFI_DEP_BEFORE, EFI_DEP_AFTER, EFI_DEP_SOR, EFI_DEP_PUSH, EFI_DEP_AND, EFI_DEP_OR, EFI_DEP_NOT}"
    by blast
  then show ?thesis
  proof cases
    case 1
    with rb(1) assms(2) show ?thesis by (auto simp: depex_op_def)
  next
    case 2
    obtain r st1 r2 st2 where
      "push_next alloc False (it + 16 + 1) m st = (r, m, st1)"
      "push_next alloc True (it + 16 + 1) (m[it := EFI_DEP_REPLACE_TRUE]) st = (r2, m[it := EFI_DEP_REPLACE_TRUE], st2)"
      using pn by metis
    with 2 rb(1) g show ?thesis by (cases "EFI_ERROR (locate g)") (simp_all add: depex_op_def)
  next
    case 3
    with rb(1) pp [of "(\<and>)" "it + 1"] show ?thesis by (auto simp: depex_op_def)
  next
    case 4
    with rb(1) pp [of "(\<or>)" "it + 1"] show ?thesis by (auto simp: depex_op_def)
  next
    case 5
    then show ?thesis
      using rb(1) pn by (fastforce simp: depex_op_def split: sum.splits prod.splits)
  next
    case 6
    obtain r1 s1 r2 s2 r3 s3 where
      "push_next alloc True (it + 1) m st = (r1, m, s1)" "push_next alloc False (it + 1) m st = (r2, m, s2)"
      "push_next alloc True (it + 16 + 1) m st = (r3, m, s3)"
      using pn by metis
    with 6 rb(1) show ?thesis by (auto simp: depex_op_def split: sum.splits prod.splits)
  qed
qed

lemma depex_loop_in_buffer:
  "sz + 16 \<le> length m \<Longrightarrow> \<not> en \<Longrightarrow>
   \<exists>b m' st'. depex_loop en alloc locate sz it m st = Some (b, m', st') \<and> length m' = length m"
proof (induction en alloc locate sz it m st rule: depex_loop.induct)
  case (1 en alloc locate sz it m st)
  show ?case
  proof (cases "it \<ge> sz")
    case True
    then have "depex_loop en alloc locate sz it m st = Some (False, m, st)" by (subst depex_loop.simps) simp
    then show ?thesis by blast
  next
    case False
    then obtain r m' st' where op: "depex_op en alloc locate it m st = Some (r, m', st')" "length m' = length m"
      using depex_op_in_buffer [of it m en] "1.prems" by fastforce
    show ?thesis
    proof (cases r)
      case (Inl b)
      with False op have "depex_loop en alloc locate sz it m st = Some (b, m', st')"
        by (subst depex_loop.simps) simp
      then show ?thesis using op(2) by blast
    next
      case (Inr it')
      with "1.IH" [OF False op(1)] "1.prems" op(2) False op(1) show ?thesis by (subst depex_loop.simps) simp
    qed
  qed
qed

lemma CoreIsSchedulable_returns:
  assumes "\<And>m. Depex d = Some m \<Longrightarrow> DepexSize d + 16 \<le> length m"
  shows "\<exists>b m' st'. CoreIsSchedulable False alloc locate services d st = Some (b, d\<lparr>Depex := m'\<rparr>, st') \<and>
    (\<forall>m. m' = Some m \<longrightarrow> DepexSize d + 16 \<le> length m)"
proof (cases "After d \<or> Before d \<or> Depex d = None")
  case True
  then have "CoreIsSchedulable False alloc locate services d st =
      Some (if After d \<or> Before d then False else \<not> EFI_ERROR services, d\<lparr>Depex := Depex d\<rparr>, st)"
    by (auto simp: CoreIsSchedulable_def)
  then show ?thesis using assms by blast
next
  case False
  then obtain m where m: "Depex d = Some m" by auto
  obtain b m' st' where r: "depex_loop False alloc locate (DepexSize d) 0 m (st\<lparr>mDepexEvaluationStackPointer := 0\<rparr>) = Some (b, m', st')"
    and l: "length m' = length m" using depex_loop_in_buffer [OF assms [OF m], of False] by fastforce
  have "CoreIsSchedulable False alloc locate services d st = Some (b, d\<lparr>Depex := Some m'\<rparr>, st')"
    using False m r by (simp add: CoreIsSchedulable_def Let_def)
  moreover have "\<forall>x. Some m' = Some x \<longrightarrow> DepexSize d + 16 \<le> length x" using assms [OF m] l by simp
  ultimately show ?thesis by blast
qed

text \<open>C36. With assertions disabled and at least sixteen readable bytes behind the expression, evaluation
  terminates on every byte string, well-formed or not: \<open>CoreIsSchedulable\<close> returns, whatever the protocols,
  the stack and the memory for it are. Without those bytes it can read outside the buffer, and with
  assertions a misplaced \<open>BEFORE\<close> or \<open>AFTER\<close> stops it.\<close>

theorem CoreIsSchedulable_terminates:
  assumes "\<And>m. Depex d = Some m \<Longrightarrow> DepexSize d + 16 \<le> length m"
  shows "\<exists>r. CoreIsSchedulable False alloc locate services d st = Some r"
  using CoreIsSchedulable_returns [OF assms] by blast

theorem CoreIsSchedulable_terminates_witness:
  "\<exists>r. CoreIsSchedulable False demo_alloc demo_locate EFI_SUCCESS
     ((demo_driver (EFI_DEP_AND # replicate 16 0))\<lparr>DepexSize := 1\<rparr>) empty_stack = Some r"
  by (rule CoreIsSchedulable_terminates) (simp add: demo_driver_def)

end
