(* ===== verification/DxeWord.thy ===== *)
theory DxeWord
  imports DxePrelude
begin

section \<open>Alignment and ranges of 64-bit addresses\<close>

text \<open>
  Facts on 64-bit words that the memory components share: rounding to a power of two with a mask, and the
  last address of a range that does not wrap around.
\<close>

unbundle bit_operations_syntax

lemma unat64_less: "unat (x :: uint64) < 2 ^ 64"
  using unsigned_less [of x, where ?'a = nat] by simp

lemma unat_end:
  fixes B L :: uint64
  assumes "L \<noteq> 0" "unat B + unat L \<le> 2 ^ 64"
  shows "unat (B + L - 1) = unat B + unat L - 1"
proof -
  have L: "unat (L - 1) = unat L - 1" "unat L > 0"
    using assms(1) by (simp_all add: unat_minus_one unat_gt_0)
  have "unat (B + (L - 1)) = unat B + unat (L - 1)"
    using assms(2) L by (simp add: unat_word_ariths(1))
  then show ?thesis using L by (simp add: algebra_simps)
qed

lemma unat_add_noc:
  fixes a b :: uint64
  assumes "unat a + unat b < 2 ^ 64"
  shows "unat (a + b) = unat a + unat b"
  using assms by (simp add: unat_word_ariths(1))

lemma unat_drop: "unat (drop_bit n x) = unat (x :: uint64) div 2 ^ n"
  unfolding unat_drop_bit_eq by (simp add: drop_bit_eq_div)

lemma unat_align_down: "unat (x AND NOT (mask n)) = unat (x :: uint64) div 2 ^ n * 2 ^ n"
proof -
  have "x AND NOT (mask n) = push_bit n (drop_bit n x)"
    by (rule bit_word_eqI) (auto simp: bit_simps)
  moreover have "unat (push_bit n (drop_bit n x)) = take_bit 64 (push_bit n (unat (drop_bit n x)))"
    by (simp add: unsigned_push_bit_eq)
  moreover have "unat x div 2 ^ n * 2 ^ n < 2 ^ 64"
    using unat64_less [of x] div_times_less_eq_dividend [of "unat x" "2 ^ n"] by linarith
  ultimately show ?thesis by (simp add: unat_drop push_bit_eq_mult take_bit_nat_eq_self)
qed

lemma shift_mask: "push_bit n 1 - 1 = (mask n :: uint64)"
  by (simp add: mask_eq_exp_minus_1 push_bit_eq_mult)

lemma aligned_iff: "x AND mask n = 0 \<longleftrightarrow> 2 ^ n dvd unat (x :: uint64)"
proof -
  have "unat (take_bit n x) = unat x mod 2 ^ n"
    unfolding unsigned_take_bit_eq by (simp add: take_bit_eq_mod)
  then show ?thesis by (metis dvd_eq_mod_eq_0 unat_eq_zero take_bit_eq_mask)
qed

lemma unat_mask:
  assumes "n < 64"
  shows "unat (mask n :: uint64) = 2 ^ n - 1"
proof -
  have "unat (mask n :: uint64) = nat (uint (mask n :: uint64))" by simp
  also have "\<dots> = nat (2 ^ n - 1)" using assms by (simp only: uint_mask_eq) (simp add: mask_eq_exp_minus_1)
  finally show ?thesis by (simp add: nat_diff_distrib nat_power_eq)
qed

text \<open>Rounding up, in natural numbers.\<close>

definition round_up :: "nat \<Rightarrow> nat \<Rightarrow> nat" where
  "round_up n a = (a + 2 ^ n - 1) div 2 ^ n * 2 ^ n"

lemma round_up_aligned: "2 ^ n dvd round_up n a"
  by (simp add: round_up_def)

lemma round_up_ge: "a \<le> round_up n a"
proof -
  have "(a + 2 ^ n - 1) mod 2 ^ n < 2 ^ n" by simp
  moreover have "(a + 2 ^ n - 1) div 2 ^ n * 2 ^ n + (a + 2 ^ n - 1) mod 2 ^ n = a + 2 ^ n - 1" by (rule div_mult_mod_eq)
  ultimately show ?thesis unfolding round_up_def by linarith
qed

lemma round_up_least:
  assumes "a \<le> b" "2 ^ n dvd b"
  shows "round_up n a \<le> b"
proof -
  obtain k where k: "b = 2 ^ n * k" using assms(2) by auto
  have "(a + 2 ^ n - 1) div 2 ^ n \<le> (2 ^ n * k + 2 ^ n - 1) div 2 ^ n"
    using assms(1) k by (intro div_le_mono) simp
  also have "(2 ^ n * k + 2 ^ n - 1) div 2 ^ n = k"
    using div_mult_self1 [of "2 ^ n" "2 ^ n - 1" k] by (simp add: algebra_simps)
  finally show ?thesis using k by (simp add: round_up_def)
qed

lemma unat_align_up:
  fixes x :: uint64
  assumes "n < 64" "unat x + 2 ^ n \<le> 2 ^ 64"
  shows "unat ((x + mask n) AND NOT (mask n)) = round_up n (unat x)"
proof -
  have "unat (x + mask n) = unat x + (2 ^ n - 1)"
    using assms by (subst unat_add_noc) (simp_all add: unat_mask)
  then show ?thesis by (simp add: unat_align_down round_up_def)
qed

end
