(* ===== verification/Gcd.thy ===== *)
theory Gcd
  imports DxeWord
begin

section \<open>The global coherency domain\<close>

text \<open>
  Model of \<^verbatim>\<open>MdeModulePkg/Core/Dxe/Gcd/Gcd.c\<close>: the maps of the memory and I/O address spaces, and the
  services that add, allocate, free, remove and describe ranges of them.

  A map is the list of its entries in the order of the linked list; a link into it is an index. The
  work entries \<open>TopEntry\<close> and \<open>BottomEntry\<close> are either unused or one entry of the resulting list; a work
  entry that is linked a second time is a corrupted list, and the call is then \<open>None\<close>.

  The state \<open>'p\<close> of the other memory services is a parameter: \<open>gcd_env\<close> holds what the file calls there
  (\<open>AllocateZeroPool\<close>, \<open>CoreFreePool\<close>, \<open>AllocatePool\<close>, \<open>CoreAddMemoryDescriptor\<close>) and the CPU architectural
  protocol, if there is one. Raising and restoring the task priority level by the locks is the subject
  of the theory of events; here a lock is its state.
\<close>

subsection \<open>Data\<close>

record EFI_GCD_MAP_ENTRY =
  BaseAddress :: uint64
  EndAddress :: uint64
  Capabilities :: uint64
  Attributes :: uint64
  GcdMemoryType :: int
  GcdIoType :: int
  ImageHandle :: nat
  DeviceHandle :: nat

abbreviation (input) "EfiGcdMemoryTypeNonExistent \<equiv> 0 :: int"
abbreviation (input) "EfiGcdMemoryTypeReserved \<equiv> 1 :: int"
abbreviation (input) "EfiGcdMemoryTypeSystemMemory \<equiv> 2 :: int"
abbreviation (input) "EfiGcdMemoryTypeMemoryMappedIo \<equiv> 3 :: int"
abbreviation (input) "EfiGcdMemoryTypeMaximum \<equiv> 4 :: int"
abbreviation (input) "EfiGcdIoTypeNonExistent \<equiv> 0 :: int"
abbreviation (input) "EfiGcdIoTypeReserved \<equiv> 1 :: int"
abbreviation (input) "EfiGcdIoTypeIo \<equiv> 2 :: int"
abbreviation (input) "EfiGcdIoTypeMaximum \<equiv> 3 :: int"
abbreviation (input) "EfiGcdAllocateAnySearchBottomUp \<equiv> 0 :: int"
abbreviation (input) "EfiGcdAllocateMaxAddressSearchBottomUp \<equiv> 1 :: int"
abbreviation (input) "EfiGcdAllocateAddress \<equiv> 2 :: int"
abbreviation (input) "EfiGcdAllocateAnySearchTopDown \<equiv> 3 :: int"
abbreviation (input) "EfiGcdAllocateMaxAddressSearchTopDown \<equiv> 4 :: int"
abbreviation (input) "EfiGcdMaxAllocateType \<equiv> 5 :: int"

abbreviation (input) "EFI_MEMORY_UC \<equiv> 0x1 :: uint64"
abbreviation (input) "EFI_MEMORY_WC \<equiv> 0x2 :: uint64"
abbreviation (input) "EFI_MEMORY_WT \<equiv> 0x4 :: uint64"
abbreviation (input) "EFI_MEMORY_WB \<equiv> 0x8 :: uint64"
abbreviation (input) "EFI_MEMORY_UCE \<equiv> 0x10 :: uint64"
abbreviation (input) "EFI_MEMORY_WP \<equiv> 0x1000 :: uint64"
abbreviation (input) "EFI_MEMORY_RP \<equiv> 0x2000 :: uint64"
abbreviation (input) "EFI_MEMORY_XP \<equiv> 0x4000 :: uint64"
abbreviation (input) "EFI_MEMORY_RUNTIME \<equiv> 0x8000000000000000 :: uint64"
abbreviation (input) "EFI_MEMORY_PRESENT \<equiv> 0x0100000000000000 :: uint64"
abbreviation (input) "EFI_MEMORY_INITIALIZED \<equiv> 0x0200000000000000 :: uint64"
abbreviation (input) "EFI_MEMORY_TESTED \<equiv> 0x0400000000000000 :: uint64"
abbreviation (input) "EFI_MEMORY_PORT_IO \<equiv> 0x4000000000000000 :: uint64"
abbreviation (input) "INVALID_CPU_ARCH_ATTRIBUTES \<equiv> 0xffffffff :: uint64"

abbreviation (input) "EfiConventionalMemory \<equiv> 7 :: nat"

abbreviation (input) "EFI_PAGE_SIZE \<equiv> 0x1000 :: uint64"
abbreviation (input) "EFI_PAGE_MASK \<equiv> 0xfff :: uint64"
abbreviation (input) "EFI_PAGE_SHIFT \<equiv> 12 :: uint64"

abbreviation (input) "GCD_MEMORY_SPACE_OPERATION \<equiv> 0x20 :: uint64"
abbreviation (input) "GCD_IO_SPACE_OPERATION \<equiv> 0x40 :: uint64"
abbreviation (input) "GCD_ADD_MEMORY_OPERATION \<equiv> 0x20 :: uint64"
abbreviation (input) "GCD_ALLOCATE_MEMORY_OPERATION \<equiv> 0x21 :: uint64"
abbreviation (input) "GCD_FREE_MEMORY_OPERATION \<equiv> 0x22 :: uint64"
abbreviation (input) "GCD_REMOVE_MEMORY_OPERATION \<equiv> 0x23 :: uint64"
abbreviation (input) "GCD_SET_ATTRIBUTES_MEMORY_OPERATION \<equiv> 0x24 :: uint64"
abbreviation (input) "GCD_ADD_IO_OPERATION \<equiv> 0x40 :: uint64"
abbreviation (input) "GCD_ALLOCATE_IO_OPERATION \<equiv> 0x41 :: uint64"
abbreviation (input) "GCD_FREE_IO_OPERATION \<equiv> 0x42 :: uint64"
abbreviation (input) "GCD_REMOVE_IO_OPERATION \<equiv> 0x43 :: uint64"

definition mGcdMemorySpaceMapEntryTemplate :: EFI_GCD_MAP_ENTRY where
  "mGcdMemorySpaceMapEntryTemplate = \<lparr>BaseAddress = 0, EndAddress = 0, Capabilities = 0, Attributes = 0,
     GcdMemoryType = EfiGcdMemoryTypeNonExistent, GcdIoType = 0, ImageHandle = 0, DeviceHandle = 0\<rparr>"

definition mGcdIoSpaceMapEntryTemplate :: EFI_GCD_MAP_ENTRY where
  "mGcdIoSpaceMapEntryTemplate = \<lparr>BaseAddress = 0, EndAddress = 0, Capabilities = 0, Attributes = 0,
     GcdMemoryType = 0, GcdIoType = EfiGcdIoTypeNonExistent, ImageHandle = 0, DeviceHandle = 0\<rparr>"

text \<open>\<open>mAttributeConversionTable\<close> up to its terminating entry: resource attribute, capability, and whether the
  row is for system memory too.\<close>

definition mAttributeConversionTable :: "(uint64 \<times> uint64 \<times> bool) list" where
  "mAttributeConversionTable =
    [(0x400, EFI_MEMORY_UC, True), (0x20000, EFI_MEMORY_UCE, True), (0x800, EFI_MEMORY_WC, True),
     (0x1000, EFI_MEMORY_WT, True), (0x2000, EFI_MEMORY_WB, True), (0x80, EFI_MEMORY_RP, True),
     (0x100, EFI_MEMORY_WP, True), (0x200, EFI_MEMORY_XP, True), (0x1, EFI_MEMORY_PRESENT, False),
     (0x2, EFI_MEMORY_INITIALIZED, False), (0x4, EFI_MEMORY_TESTED, False)]"

record 'p gcd_env =
  AssertEnabled :: bool
  AllocateEntry :: "'p \<Rightarrow> bool \<times> 'p"
  FreeEntry :: "'p \<Rightarrow> 'p"
  AllocateArray :: "nat \<Rightarrow> 'p \<Rightarrow> bool \<times> 'p"
  AddMemoryDescriptor :: "nat \<Rightarrow> uint64 \<Rightarrow> uint64 \<Rightarrow> uint64 \<Rightarrow> 'p \<Rightarrow> 'p"
  CpuArch :: "(uint64 \<Rightarrow> uint64 \<Rightarrow> uint64 \<Rightarrow> EFI_STATUS) option"
  gDxeCoreImageHandle :: nat

record 'p gcd =
  mGcdMemorySpaceMap :: "EFI_GCD_MAP_ENTRY list"
  mGcdIoSpaceMap :: "EFI_GCD_MAP_ENTRY list"
  mGcdMemorySpaceLock :: EFI_LOCK_STATE
  mGcdIoSpaceLock :: EFI_LOCK_STATE
  Memory :: 'p

subsection \<open>Locks and alignment\<close>

definition CoreAcquireGcdMemoryLock :: "'p gcd_env \<Rightarrow> 'p gcd \<Rightarrow> 'p gcd option" where
  "CoreAcquireGcdMemoryLock E s = do {
     ASSERT (AssertEnabled E) (Some (mGcdMemorySpaceLock s = EfiLockReleased));
     Some (s\<lparr>mGcdMemorySpaceLock := EfiLockAcquired\<rparr>)
   }"

definition CoreReleaseGcdMemoryLock :: "'p gcd_env \<Rightarrow> 'p gcd \<Rightarrow> 'p gcd option" where
  "CoreReleaseGcdMemoryLock E s = do {
     ASSERT (AssertEnabled E) (Some (mGcdMemorySpaceLock s = EfiLockAcquired));
     Some (s\<lparr>mGcdMemorySpaceLock := EfiLockReleased\<rparr>)
   }"

definition CoreAcquireGcdIoLock :: "'p gcd_env \<Rightarrow> 'p gcd \<Rightarrow> 'p gcd option" where
  "CoreAcquireGcdIoLock E s = do {
     ASSERT (AssertEnabled E) (Some (mGcdIoSpaceLock s = EfiLockReleased));
     Some (s\<lparr>mGcdIoSpaceLock := EfiLockAcquired\<rparr>)
   }"

definition CoreReleaseGcdIoLock :: "'p gcd_env \<Rightarrow> 'p gcd \<Rightarrow> 'p gcd option" where
  "CoreReleaseGcdIoLock E s = do {
     ASSERT (AssertEnabled E) (Some (mGcdIoSpaceLock s = EfiLockAcquired));
     Some (s\<lparr>mGcdIoSpaceLock := EfiLockReleased\<rparr>)
   }"

text \<open>\<open>LShiftU64\<close> asserts that the count is below 64; every caller here has checked it, or passes the number
  of address lines of the CPU.\<close>

definition LShiftU64 :: "uint64 \<Rightarrow> uint64 \<Rightarrow> uint64" where
  "LShiftU64 x n = push_bit (unat n) x"

definition AlignValue :: "uint64 \<Rightarrow> uint64 \<Rightarrow> bool \<Rightarrow> uint64" where
  "AlignValue Value Alignment RoundUp =
     (let AlignmentMask = LShiftU64 1 Alignment - 1;
          Value = (if RoundUp then Value + AlignmentMask else Value)
      in Value AND NOT AlignmentMask)"

definition PageAlignAddress :: "uint64 \<Rightarrow> uint64" where
  "PageAlignAddress Value = AlignValue Value EFI_PAGE_SHIFT True"

definition PageAlignLength :: "uint64 \<Rightarrow> uint64" where
  "PageAlignLength Value = AlignValue Value EFI_PAGE_SHIFT False"

subsection \<open>Map entries\<close>

definition CoreAllocateGcdMapEntry :: "'p gcd_env \<Rightarrow> 'p gcd \<Rightarrow> EFI_STATUS \<times> 'p gcd" where
  "CoreAllocateGcdMapEntry E s =
     (let (top, p) = AllocateEntry E (Memory s) in
      if \<not> top then (EFI_OUT_OF_RESOURCES, s\<lparr>Memory := p\<rparr>)
      else let (bottom, p) = AllocateEntry E p in
      if \<not> bottom then (EFI_OUT_OF_RESOURCES, s\<lparr>Memory := FreeEntry E p\<rparr>)
      else (EFI_SUCCESS, s\<lparr>Memory := p\<rparr>))"

text \<open>The entries linked before and after \<open>Entry\<close>, and \<open>Entry\<close> itself; \<open>ut\<close> and \<open>ub\<close> tell whether the work
  entries are in use (\<open>Signature \<noteq> 0\<close>).\<close>

definition CoreInsertGcdMapEntry ::
    "bool \<Rightarrow> EFI_GCD_MAP_ENTRY \<Rightarrow> uint64 \<Rightarrow> uint64 \<Rightarrow> bool \<Rightarrow> bool \<Rightarrow>
     (EFI_GCD_MAP_ENTRY list \<times> EFI_GCD_MAP_ENTRY \<times> EFI_GCD_MAP_ENTRY list) option" where
  "CoreInsertGcdMapEntry en Entry Base Length ut ub = do {
     ASSERT en (Some (Length \<noteq> 0));
     ASSERT en (Some (\<not> ut));
     ASSERT en (Some (\<not> ub));
     let (bottom, Entry) =
       (if Base > BaseAddress Entry
        then ([Entry\<lparr>EndAddress := Base - 1\<rparr>], Entry\<lparr>BaseAddress := Base\<rparr>)
        else ([], Entry));
     let (top, Entry) =
       (if Base + Length - 1 < EndAddress Entry
        then ([Entry\<lparr>BaseAddress := Base + Length\<rparr>], Entry\<lparr>EndAddress := Base + Length - 1\<rparr>)
        else ([], Entry));
     Some (bottom, Entry, top)
   }"

text \<open>A position in the list: the entries before it (nearest first), the entry, the entries after it.\<close>

type_synonym gcd_pos = "EFI_GCD_MAP_ENTRY list \<times> EFI_GCD_MAP_ENTRY \<times> EFI_GCD_MAP_ENTRY list"

definition CoreMergeGcdMapEntry :: "'p gcd_env \<Rightarrow> bool \<Rightarrow> gcd_pos \<Rightarrow> 'p \<Rightarrow> EFI_STATUS \<times> gcd_pos \<times> 'p" where
  "CoreMergeGcdMapEntry E Forward pos p =
     (let (lower, Entry, after) = pos in
      case (if Forward then after else lower) of
        [] \<Rightarrow> (EFI_SUCCESS, pos, p)
      | AdjacentEntry # rest \<Rightarrow>
          if Capabilities Entry \<noteq> Capabilities AdjacentEntry then (EFI_UNSUPPORTED, pos, p)
          else if Attributes Entry \<noteq> Attributes AdjacentEntry then (EFI_UNSUPPORTED, pos, p)
          else if GcdMemoryType Entry \<noteq> GcdMemoryType AdjacentEntry then (EFI_UNSUPPORTED, pos, p)
          else if GcdIoType Entry \<noteq> GcdIoType AdjacentEntry then (EFI_UNSUPPORTED, pos, p)
          else if ImageHandle Entry \<noteq> ImageHandle AdjacentEntry then (EFI_UNSUPPORTED, pos, p)
          else if DeviceHandle Entry \<noteq> DeviceHandle AdjacentEntry then (EFI_UNSUPPORTED, pos, p)
          else if Forward
          then (EFI_SUCCESS, (lower, Entry\<lparr>EndAddress := EndAddress AdjacentEntry\<rparr>, rest), FreeEntry E p)
          else (EFI_SUCCESS, (rest, Entry\<lparr>BaseAddress := BaseAddress AdjacentEntry\<rparr>, after), FreeEntry E p))"

fun cleanup_loop :: "'p gcd_env \<Rightarrow> gcd_pos \<Rightarrow> nat \<Rightarrow> 'p \<Rightarrow> gcd_pos \<times> 'p" where
  "cleanup_loop E pos n p =
     (let (_, pos, p) = CoreMergeGcdMapEntry E False pos p in
      case (n, pos) of
        (Suc m, lower, Entry, Next # after) \<Rightarrow> cleanup_loop E (Entry # lower, Next, after) m p
      | _ \<Rightarrow> (pos, p))"

text \<open>\<open>lower\<close> holds the entries before \<open>StartLink\<close>, nearest first; \<open>mid\<close> those from \<open>StartLink\<close> to \<open>EndLink\<close>;
  \<open>after\<close> the rest.\<close>

definition CoreCleanupGcdMapEntry ::
    "'p gcd_env \<Rightarrow> bool \<Rightarrow> bool \<Rightarrow> EFI_GCD_MAP_ENTRY list \<Rightarrow> EFI_GCD_MAP_ENTRY list \<Rightarrow> EFI_GCD_MAP_ENTRY list \<Rightarrow> 'p \<Rightarrow>
     EFI_STATUS \<times> EFI_GCD_MAP_ENTRY list \<times> 'p" where
  "CoreCleanupGcdMapEntry E ut ub lower mid after p =
     (let p = (if \<not> ut then FreeEntry E p else p);
          p = (if \<not> ub then FreeEntry E p else p)
      in case mid of
           [] \<Rightarrow> (EFI_SUCCESS, rev lower @ after, p)
         | Start # rest \<Rightarrow>
             let (pos, p) = cleanup_loop E (lower, Start, rest @ after) (length rest) p;
                 (_, (lower, End, after), p) = CoreMergeGcdMapEntry E True pos p
             in (EFI_SUCCESS, rev lower @ End # after, p))"

primrec search_loop ::
    "uint64 \<Rightarrow> uint64 \<Rightarrow> nat \<Rightarrow> nat option \<Rightarrow> EFI_GCD_MAP_ENTRY list \<Rightarrow> (nat \<times> nat) option" where
  "search_loop Base Length Link StartLink [] = None"
| "search_loop Base Length Link StartLink (Entry # es) =
     (let StartLink = (if Base \<ge> BaseAddress Entry \<and> Base \<le> EndAddress Entry then Some Link else StartLink)
      in case StartLink of
           None \<Rightarrow> search_loop Base Length (Link + 1) StartLink es
         | Some Start \<Rightarrow>
             if Base + Length - 1 \<ge> BaseAddress Entry \<and> Base + Length - 1 \<le> EndAddress Entry
             then Some (Start, Link)
             else search_loop Base Length (Link + 1) StartLink es)"

definition CoreSearchGcdMapEntry ::
    "bool \<Rightarrow> uint64 \<Rightarrow> uint64 \<Rightarrow> EFI_GCD_MAP_ENTRY list \<Rightarrow> (EFI_STATUS + nat \<times> nat) option" where
  "CoreSearchGcdMapEntry en Base Length Map = do {
     ASSERT en (Some (Length \<noteq> 0));
     Some (case search_loop Base Length 0 None Map of
             None \<Rightarrow> Inl EFI_NOT_FOUND
           | Some links \<Rightarrow> Inr links)
   }"

primrec CoreCountGcdMapEntry :: "EFI_GCD_MAP_ENTRY list \<Rightarrow> nat" where
  "CoreCountGcdMapEntry [] = 0"
| "CoreCountGcdMapEntry (e # es) = CoreCountGcdMapEntry es + 1"

definition ConverToCpuArchAttributes :: "uint64 \<Rightarrow> uint64" where
  "ConverToCpuArchAttributes A =
     (if A AND EFI_MEMORY_UC = EFI_MEMORY_UC then EFI_MEMORY_UC
      else if A AND EFI_MEMORY_WC = EFI_MEMORY_WC then EFI_MEMORY_WC
      else if A AND EFI_MEMORY_WT = EFI_MEMORY_WT then EFI_MEMORY_WT
      else if A AND EFI_MEMORY_WB = EFI_MEMORY_WB then EFI_MEMORY_WB
      else if A AND EFI_MEMORY_WP = EFI_MEMORY_WP then EFI_MEMORY_WP
      else INVALID_CPU_ARCH_ATTRIBUTES)"

subsection \<open>Converting a range\<close>

definition enter_space :: "'p gcd_env \<Rightarrow> uint64 \<Rightarrow> 'p gcd \<Rightarrow> 'p gcd option" where
  "enter_space E Operation s =
     (if Operation AND GCD_MEMORY_SPACE_OPERATION \<noteq> 0 then CoreAcquireGcdMemoryLock E s
      else if Operation AND GCD_IO_SPACE_OPERATION \<noteq> 0 then CoreAcquireGcdIoLock E s
      else None)"

definition leave_space :: "'p gcd_env \<Rightarrow> uint64 \<Rightarrow> 'p gcd \<Rightarrow> 'p gcd option" where
  "leave_space E Operation s = do {
     s \<leftarrow> (if Operation AND GCD_MEMORY_SPACE_OPERATION \<noteq> 0 then CoreReleaseGcdMemoryLock E s else Some s);
     if Operation AND GCD_IO_SPACE_OPERATION \<noteq> 0 then CoreReleaseGcdIoLock E s else Some s
   }"

definition space_map :: "uint64 \<Rightarrow> 'p gcd \<Rightarrow> EFI_GCD_MAP_ENTRY list" where
  "space_map Operation s =
     (if Operation AND GCD_MEMORY_SPACE_OPERATION \<noteq> 0 then mGcdMemorySpaceMap s else mGcdIoSpaceMap s)"

definition set_space_map :: "uint64 \<Rightarrow> EFI_GCD_MAP_ENTRY list \<Rightarrow> 'p gcd \<Rightarrow> 'p gcd" where
  "set_space_map Operation es s =
     (if Operation AND GCD_MEMORY_SPACE_OPERATION \<noteq> 0 then s\<lparr>mGcdMemorySpaceMap := es\<rparr>
      else s\<lparr>mGcdIoSpaceMap := es\<rparr>)"

text \<open>The entries from \<open>StartLink\<close> to \<open>EndLink\<close>.\<close>

definition links :: "nat \<times> nat \<Rightarrow> EFI_GCD_MAP_ENTRY list \<Rightarrow> EFI_GCD_MAP_ENTRY list" where
  "links l es = take (snd l + 1 - fst l) (drop (fst l) es)"

definition convert_check :: "uint64 \<Rightarrow> uint64 \<Rightarrow> uint64 \<Rightarrow> uint64 \<Rightarrow> EFI_GCD_MAP_ENTRY \<Rightarrow> EFI_STATUS" where
  "convert_check Operation Base Length Attrs Entry =
     (if Operation = GCD_ADD_MEMORY_OPERATION then
        (if GcdMemoryType Entry \<noteq> EfiGcdMemoryTypeNonExistent \<or> ImageHandle Entry \<noteq> 0 then EFI_ACCESS_DENIED
         else EFI_SUCCESS)
      else if Operation = GCD_ADD_IO_OPERATION then
        (if GcdIoType Entry \<noteq> EfiGcdIoTypeNonExistent \<or> ImageHandle Entry \<noteq> 0 then EFI_ACCESS_DENIED
         else EFI_SUCCESS)
      else if Operation = GCD_FREE_MEMORY_OPERATION \<or> Operation = GCD_FREE_IO_OPERATION then
        (if ImageHandle Entry = 0 then EFI_NOT_FOUND else EFI_SUCCESS)
      else if Operation = GCD_REMOVE_MEMORY_OPERATION then
        (if GcdMemoryType Entry = EfiGcdMemoryTypeNonExistent then EFI_NOT_FOUND
         else if ImageHandle Entry \<noteq> 0 then EFI_ACCESS_DENIED else EFI_SUCCESS)
      else if Operation = GCD_REMOVE_IO_OPERATION then
        (if GcdIoType Entry = EfiGcdIoTypeNonExistent then EFI_NOT_FOUND
         else if ImageHandle Entry \<noteq> 0 then EFI_ACCESS_DENIED else EFI_SUCCESS)
      else if Operation = GCD_SET_ATTRIBUTES_MEMORY_OPERATION then
        (if Attrs AND EFI_MEMORY_RUNTIME \<noteq> 0 \<and> (Base AND EFI_PAGE_MASK \<noteq> 0 \<or> Length AND EFI_PAGE_MASK \<noteq> 0)
         then EFI_INVALID_PARAMETER
         else if Capabilities Entry AND Attrs \<noteq> Attrs then EFI_UNSUPPORTED else EFI_SUCCESS)
      else EFI_SUCCESS)"

text \<open>The first error of a check along the entries.\<close>

primrec check_loop :: "(EFI_GCD_MAP_ENTRY \<Rightarrow> EFI_STATUS) \<Rightarrow> EFI_GCD_MAP_ENTRY list \<Rightarrow> EFI_STATUS" where
  "check_loop chk [] = EFI_SUCCESS"
| "check_loop chk (e # es) = (if EFI_ERROR (chk e) then chk e else check_loop chk es)"

definition set_cpu_attributes :: "'p gcd_env \<Rightarrow> uint64 \<Rightarrow> uint64 \<Rightarrow> uint64 \<Rightarrow> uint64 \<Rightarrow> EFI_STATUS" where
  "set_cpu_attributes E Operation Base Length Attrs =
     (if Operation = GCD_SET_ATTRIBUTES_MEMORY_OPERATION then
        let CpuArchAttributes = ConverToCpuArchAttributes Attrs in
        if CpuArchAttributes \<noteq> INVALID_CPU_ARCH_ATTRIBUTES then
          (case CpuArch E of
             None \<Rightarrow> EFI_ACCESS_DENIED
           | Some SetMemoryAttributes \<Rightarrow> SetMemoryAttributes Base Length CpuArchAttributes)
        else EFI_SUCCESS
      else EFI_SUCCESS)"

definition convert_entry :: "uint64 \<Rightarrow> int \<Rightarrow> int \<Rightarrow> uint64 \<Rightarrow> uint64 \<Rightarrow> EFI_GCD_MAP_ENTRY \<Rightarrow> EFI_GCD_MAP_ENTRY" where
  "convert_entry Operation MemType IoType Caps Attrs Entry =
     (if Operation = GCD_ADD_MEMORY_OPERATION then
        (if MemType = EfiGcdMemoryTypeMemoryMappedIo
         then Entry\<lparr>GcdMemoryType := MemType, Capabilities := Caps OR EFI_MEMORY_RUNTIME OR EFI_MEMORY_PORT_IO\<rparr>
         else Entry\<lparr>GcdMemoryType := MemType, Capabilities := Caps OR EFI_MEMORY_RUNTIME\<rparr>)
      else if Operation = GCD_ADD_IO_OPERATION then Entry\<lparr>GcdIoType := IoType\<rparr>
      else if Operation = GCD_FREE_MEMORY_OPERATION \<or> Operation = GCD_FREE_IO_OPERATION then
        Entry\<lparr>ImageHandle := 0, DeviceHandle := 0\<rparr>
      else if Operation = GCD_REMOVE_MEMORY_OPERATION then
        Entry\<lparr>GcdMemoryType := EfiGcdMemoryTypeNonExistent, Capabilities := 0\<rparr>
      else if Operation = GCD_REMOVE_IO_OPERATION then Entry\<lparr>GcdIoType := EfiGcdIoTypeNonExistent\<rparr>
      else if Operation = GCD_SET_ATTRIBUTES_MEMORY_OPERATION then Entry\<lparr>Attributes := Attrs\<rparr>
      else Entry)"

text \<open>The loop that inserts and converts the entries from \<open>StartLink\<close> to \<open>EndLink\<close>: the pad linked before
  \<open>StartLink\<close>, the entries from \<open>StartLink\<close> to \<open>EndLink\<close>, the pad linked after \<open>EndLink\<close>, and whether
  \<open>BottomEntry\<close> is in use.\<close>

fun convert_loop ::
    "bool \<Rightarrow> (EFI_GCD_MAP_ENTRY \<Rightarrow> EFI_GCD_MAP_ENTRY) \<Rightarrow> uint64 \<Rightarrow> uint64 \<Rightarrow> bool \<Rightarrow> EFI_GCD_MAP_ENTRY list \<Rightarrow>
     (EFI_GCD_MAP_ENTRY list \<times> EFI_GCD_MAP_ENTRY list \<times> EFI_GCD_MAP_ENTRY list \<times> bool) option" where
  "convert_loop en f Base Length ub [] = Some ([], [], [], ub)"
| "convert_loop en f Base Length ub (Entry # es) = do {
     (bottom, Entry, top) \<leftarrow> CoreInsertGcdMapEntry en Entry Base Length False ub;
     if bottom \<noteq> [] \<and> ub then None
     else if es = [] then Some (bottom, [f Entry], top, ub \<or> bottom \<noteq> [])
     else if top \<noteq> [] then None
     else do {
       (bottom', es', top, ub) \<leftarrow> convert_loop en f Base Length (ub \<or> bottom \<noteq> []) es;
       Some (bottom, f Entry # bottom' @ es', top, ub)
     }
   }"

text \<open>The conversion and the cleanup that \<open>CoreConvertSpace\<close> and \<open>CoreAllocateSpace\<close> end with.\<close>

definition convert_range ::
    "'p gcd_env \<Rightarrow> uint64 \<Rightarrow> (EFI_GCD_MAP_ENTRY \<Rightarrow> EFI_GCD_MAP_ENTRY) \<Rightarrow> uint64 \<Rightarrow> uint64 \<Rightarrow> nat \<times> nat \<Rightarrow> 'p gcd \<Rightarrow>
     (EFI_STATUS \<times> 'p gcd) option" where
  "convert_range E Operation f Base Length l s = do {
     let Map = space_map Operation s;
     (bottom, mid, top, ub) \<leftarrow> convert_loop (AssertEnabled E) f Base Length False (links l Map);
     let (Status, es, p) = CoreCleanupGcdMapEntry E (top \<noteq> []) ub (bottom @ rev (take (fst l) Map)) mid
                             (top @ drop (snd l + 1) Map) (Memory s);
     Some (Status, (set_space_map Operation es s)\<lparr>Memory := p\<rparr>)
   }"

definition convert_body ::
    "'p gcd_env \<Rightarrow> uint64 \<Rightarrow> int \<Rightarrow> int \<Rightarrow> uint64 \<Rightarrow> uint64 \<Rightarrow> uint64 \<Rightarrow> uint64 \<Rightarrow> 'p gcd \<Rightarrow> (EFI_STATUS \<times> 'p gcd) option" where
  "convert_body E Operation MemType IoType Base Length Caps Attrs s = do {
     r \<leftarrow> CoreSearchGcdMapEntry (AssertEnabled E) Base Length (space_map Operation s);
     case r of
       Inl _ \<Rightarrow> Some (EFI_UNSUPPORTED, s)
     | Inr l \<Rightarrow>
         let Status = check_loop (convert_check Operation Base Length Attrs) (links l (space_map Operation s)) in
         if EFI_ERROR Status then Some (Status, s)
         else let (Status, s) = CoreAllocateGcdMapEntry E s in
         if EFI_ERROR Status then Some (EFI_OUT_OF_RESOURCES, s)
         else let Status = set_cpu_attributes E Operation Base Length Attrs in
         if EFI_ERROR Status then Some (Status, s)
         else convert_range E Operation (convert_entry Operation MemType IoType Caps Attrs) Base Length l s
   }"

definition CoreConvertSpace ::
    "'p gcd_env \<Rightarrow> uint64 \<Rightarrow> int \<Rightarrow> int \<Rightarrow> uint64 \<Rightarrow> uint64 \<Rightarrow> uint64 \<Rightarrow> uint64 \<Rightarrow> 'p gcd \<Rightarrow> (EFI_STATUS \<times> 'p gcd) option" where
  "CoreConvertSpace E Operation MemType IoType Base Length Caps Attrs s =
     (if Length = 0 then Some (EFI_INVALID_PARAMETER, s)
      else do {
        s \<leftarrow> enter_space E Operation s;
        (Status, s) \<leftarrow> convert_body E Operation MemType IoType Base Length Caps Attrs s;
        s \<leftarrow> leave_space E Operation s;
        Some (Status, s)
      })"

subsection \<open>Allocating a range\<close>

definition CoreAllocateSpaceCheckEntry :: "uint64 \<Rightarrow> int \<Rightarrow> int \<Rightarrow> EFI_GCD_MAP_ENTRY \<Rightarrow> EFI_STATUS" where
  "CoreAllocateSpaceCheckEntry Operation MemType IoType Entry =
     (if ImageHandle Entry \<noteq> 0 then EFI_NOT_FOUND
      else if Operation = GCD_ALLOCATE_MEMORY_OPERATION then
        (if GcdMemoryType Entry \<noteq> MemType then EFI_NOT_FOUND else EFI_SUCCESS)
      else if Operation = GCD_ALLOCATE_IO_OPERATION then
        (if GcdIoType Entry \<noteq> IoType then EFI_NOT_FOUND else EFI_SUCCESS)
      else EFI_UNSUPPORTED)"

text \<open>
  The search loop. Its state is \<open>Link\<close> (None when it is back at the list head), \<open>*BaseAddress\<close>, and once
  the loop is left the result: the error status of a \<open>goto Done\<close> or the links of the range found.
\<close>

type_synonym alloc_state = "nat option \<times> uint64 \<times> (EFI_STATUS + nat \<times> nat) option"

definition next_link :: "bool \<Rightarrow> nat \<Rightarrow> nat \<Rightarrow> nat option" where
  "next_link TopDown n Link =
     (if TopDown then if Link = 0 then None else Some (Link - 1)
      else if Link + 1 < n then Some (Link + 1) else None)"

text \<open>The candidate for an entry: \<open>Inl None\<close> for \<open>continue\<close>, \<open>Inl (Some st)\<close> for \<open>goto Done\<close>. The second
  component is \<open>*BaseAddress\<close>.\<close>

definition alloc_candidate ::
    "bool \<Rightarrow> uint64 \<Rightarrow> uint64 \<Rightarrow> uint64 \<Rightarrow> EFI_GCD_MAP_ENTRY \<Rightarrow> uint64 \<Rightarrow> (EFI_STATUS option + unit) \<times> uint64" where
  "alloc_candidate TopDown AlignmentMask Length MaxAddress Entry Base =
     (if TopDown then
        if BaseAddress Entry + Length > MaxAddress then (Inl None, Base)
        else if Length > EndAddress Entry + 1 then (Inl (Some EFI_NOT_FOUND), Base)
        else let Base = (if EndAddress Entry > MaxAddress then MaxAddress else EndAddress Entry)
             in (Inr (), (Base + 1 - Length) AND NOT AlignmentMask)
      else
        let Base = (BaseAddress Entry + AlignmentMask) AND NOT AlignmentMask in
        if Base + Length - 1 > MaxAddress then (Inl (Some EFI_NOT_FOUND), Base) else (Inr (), Base))"

text \<open>The position of the first entry from \<open>i\<close> on that fails the check.\<close>

primrec first_failing :: "(EFI_GCD_MAP_ENTRY \<Rightarrow> EFI_STATUS) \<Rightarrow> nat \<Rightarrow> EFI_GCD_MAP_ENTRY list \<Rightarrow> nat option" where
  "first_failing chk i [] = None"
| "first_failing chk i (e # es) = (if EFI_ERROR (chk e) then Some i else first_failing chk (i + 1) es)"

definition alloc_step ::
    "bool \<Rightarrow> (EFI_GCD_MAP_ENTRY \<Rightarrow> EFI_STATUS) \<Rightarrow> bool \<Rightarrow> uint64 \<Rightarrow> uint64 \<Rightarrow> uint64 \<Rightarrow> EFI_GCD_MAP_ENTRY list \<Rightarrow>
     alloc_state \<Rightarrow> alloc_state option" where
  "alloc_step en chk TopDown AlignmentMask Length MaxAddress Map s = (case s of (Link, Base, _) \<Rightarrow> do {
     i \<leftarrow> Link;
     let Entry = Map ! i;
     let Link = next_link TopDown (length Map) i;
     if EFI_ERROR (chk Entry) then Some (Link, Base, None)
     else case alloc_candidate TopDown AlignmentMask Length MaxAddress Entry Base of
       (Inl None, Base) \<Rightarrow> Some (Link, Base, None)
     | (Inl (Some st), Base) \<Rightarrow> Some (Link, Base, Some (Inl st))
     | (Inr _, Base) \<Rightarrow> do {
         r \<leftarrow> CoreSearchGcdMapEntry en Base Length Map;
         case r of
           Inl _ \<Rightarrow> Some (Link, Base, Some (Inl EFI_NOT_FOUND))
         | Inr l \<Rightarrow>
             (case first_failing chk (fst l) (links l Map) of
                Some SubLink \<Rightarrow> Some (Some SubLink, Base, None)
              | None \<Rightarrow> Some (Some (fst l), Base, Some (Inr l)))
       }
   })"

definition alloc_search ::
    "bool \<Rightarrow> (EFI_GCD_MAP_ENTRY \<Rightarrow> EFI_STATUS) \<Rightarrow> bool \<Rightarrow> uint64 \<Rightarrow> uint64 \<Rightarrow> uint64 \<Rightarrow> EFI_GCD_MAP_ENTRY list \<Rightarrow>
     nat option \<Rightarrow> uint64 \<Rightarrow> (uint64 \<times> (EFI_STATUS + nat \<times> nat)) option" where
  "alloc_search en chk TopDown AlignmentMask Length MaxAddress Map Link Base = do {
     (Link, Base, r) \<leftarrow> while_opt (\<lambda>(Link, _, r). Link \<noteq> None \<and> r = None)
       (alloc_step en chk TopDown AlignmentMask Length MaxAddress Map) (Link, Base, None);
     Some (Base, case r of None \<Rightarrow> Inl EFI_NOT_FOUND | Some r \<Rightarrow> r)
   }"

definition alloc_find ::
    "bool \<Rightarrow> (EFI_GCD_MAP_ENTRY \<Rightarrow> EFI_STATUS) \<Rightarrow> int \<Rightarrow> uint64 \<Rightarrow> uint64 \<Rightarrow> EFI_GCD_MAP_ENTRY list \<Rightarrow> uint64 \<Rightarrow>
     (uint64 \<times> (EFI_STATUS + nat \<times> nat)) option" where
  "alloc_find en chk AllocType Alignment Length Map Base =
     (let AlignmentMask = LShiftU64 1 Alignment - 1 in
      if AllocType = EfiGcdAllocateAddress then
        if Base AND AlignmentMask \<noteq> 0 then Some (Base, Inl EFI_NOT_FOUND)
        else do {
          r \<leftarrow> CoreSearchGcdMapEntry en Base Length Map;
          case r of
            Inl _ \<Rightarrow> Some (Base, Inl EFI_NOT_FOUND)
          | Inr l \<Rightarrow>
              let Status = check_loop chk (links l Map)
              in Some (Base, if EFI_ERROR Status then Inl Status else Inr l)
        }
      else if Map = [] then None
      else
        let MaxAddress = (if AllocType = EfiGcdAllocateMaxAddressSearchBottomUp \<or>
                             AllocType = EfiGcdAllocateMaxAddressSearchTopDown then Base else EndAddress (last Map));
            TopDown = (AllocType = EfiGcdAllocateMaxAddressSearchTopDown \<or> AllocType = EfiGcdAllocateAnySearchTopDown);
            Link = (if TopDown then length Map - 1 else 0)
        in alloc_search en chk TopDown AlignmentMask Length MaxAddress Map (Some Link) Base)"

text \<open>\<open>base\<close> is None for a NULL pointer; the result is the status and the new \<open>*BaseAddress\<close>.\<close>

definition alloc_body ::
    "'p gcd_env \<Rightarrow> uint64 \<Rightarrow> int \<Rightarrow> int \<Rightarrow> int \<Rightarrow> uint64 \<Rightarrow> uint64 \<Rightarrow> uint64 \<Rightarrow> nat \<Rightarrow> nat \<Rightarrow> 'p gcd \<Rightarrow>
     (EFI_STATUS \<times> uint64 \<times> 'p gcd) option" where
  "alloc_body E Operation AllocType MemType IoType Alignment Length Base Img Dev s = do {
     (Base, r) \<leftarrow> alloc_find (AssertEnabled E) (CoreAllocateSpaceCheckEntry Operation MemType IoType)
                   AllocType Alignment Length (space_map Operation s) Base;
     case r of
       Inl Status \<Rightarrow> Some (Status, Base, s)
     | Inr l \<Rightarrow>
         let (Status, s) = CoreAllocateGcdMapEntry E s in
         if EFI_ERROR Status then Some (EFI_OUT_OF_RESOURCES, Base, s)
         else do {
           (Status, s) \<leftarrow> convert_range E Operation (\<lambda>e. e\<lparr>ImageHandle := Img, DeviceHandle := Dev\<rparr>) Base Length l s;
           Some (Status, Base, s)
         }
   }"

definition CoreAllocateSpace ::
    "'p gcd_env \<Rightarrow> uint64 \<Rightarrow> int \<Rightarrow> int \<Rightarrow> int \<Rightarrow> uint64 \<Rightarrow> uint64 \<Rightarrow> uint64 option \<Rightarrow> nat \<Rightarrow> nat \<Rightarrow> 'p gcd \<Rightarrow>
     (EFI_STATUS \<times> uint64 option \<times> 'p gcd) option" where
  "CoreAllocateSpace E Operation AllocType MemType IoType Alignment Length base Img Dev s =
     (if AllocType < 0 \<or> AllocType \<ge> EfiGcdMaxAllocateType then Some (EFI_INVALID_PARAMETER, base, s)
      else if MemType < 0 \<or> MemType \<ge> EfiGcdMemoryTypeMaximum then Some (EFI_INVALID_PARAMETER, base, s)
      else if IoType < 0 \<or> IoType \<ge> EfiGcdIoTypeMaximum then Some (EFI_INVALID_PARAMETER, base, s)
      else case base of
        None \<Rightarrow> Some (EFI_INVALID_PARAMETER, base, s)
      | Some Base \<Rightarrow>
          if Img = 0 then Some (EFI_INVALID_PARAMETER, base, s)
          else if Alignment \<ge> 64 then Some (EFI_NOT_FOUND, base, s)
          else if Length = 0 then Some (EFI_INVALID_PARAMETER, base, s)
          else do {
            s \<leftarrow> enter_space E Operation s;
            (Status, Base, s) \<leftarrow> alloc_body E Operation AllocType MemType IoType Alignment Length Base Img Dev s;
            s \<leftarrow> leave_space E Operation s;
            Some (Status, Some Base, s)
          })"

subsection \<open>The services\<close>

definition CoreInternalAddMemorySpace ::
    "'p gcd_env \<Rightarrow> int \<Rightarrow> uint64 \<Rightarrow> uint64 \<Rightarrow> uint64 \<Rightarrow> 'p gcd \<Rightarrow> (EFI_STATUS \<times> 'p gcd) option" where
  "CoreInternalAddMemorySpace E MemType Base Length Caps s =
     (if MemType \<le> EfiGcdMemoryTypeNonExistent \<or> MemType \<ge> EfiGcdMemoryTypeMaximum then Some (EFI_INVALID_PARAMETER, s)
      else CoreConvertSpace E GCD_ADD_MEMORY_OPERATION MemType 0 Base Length Caps 0 s)"

definition CoreAllocateMemorySpace ::
    "'p gcd_env \<Rightarrow> int \<Rightarrow> int \<Rightarrow> uint64 \<Rightarrow> uint64 \<Rightarrow> uint64 option \<Rightarrow> nat \<Rightarrow> nat \<Rightarrow> 'p gcd \<Rightarrow>
     (EFI_STATUS \<times> uint64 option \<times> 'p gcd) option" where
  "CoreAllocateMemorySpace E AllocType MemType Alignment Length base Img Dev s =
     CoreAllocateSpace E GCD_ALLOCATE_MEMORY_OPERATION AllocType MemType 0 Alignment Length base Img Dev s"

text \<open>Allocation of pages at a fixed address for the DXE core, and their addition to the memory services:
  the part of \<open>CoreAddMemorySpace\<close> that is written twice in the source.\<close>

definition claim_pages ::
    "'p gcd_env \<Rightarrow> int \<Rightarrow> uint64 \<Rightarrow> uint64 \<Rightarrow> uint64 \<Rightarrow> uint64 \<Rightarrow> 'p gcd \<Rightarrow> (EFI_STATUS \<times> 'p gcd) option" where
  "claim_pages E MemType PageBase PageLength Pages Caps s = do {
     (Status, base, s) \<leftarrow> CoreAllocateMemorySpace E EfiGcdAllocateAddress MemType EFI_PAGE_SHIFT PageLength
                            (Some PageBase) (gDxeCoreImageHandle E) 0 s;
     Some (Status, if \<not> EFI_ERROR Status
                   then s\<lparr>Memory := AddMemoryDescriptor E EfiConventionalMemory (the base) Pages Caps (Memory s)\<rparr> else s)
   }"

text \<open>The page by page loop. Its counter is a multiple of the page size and goes down to 0.\<close>

primrec claim_loop ::
    "'p gcd_env \<Rightarrow> int \<Rightarrow> uint64 \<Rightarrow> uint64 \<Rightarrow> EFI_STATUS \<Rightarrow> nat \<Rightarrow> 'p gcd \<Rightarrow> (EFI_STATUS \<times> 'p gcd) option" where
  "claim_loop E MemType PageBase Caps Status 0 s = Some (Status, s)"
| "claim_loop E MemType PageBase Caps Status (Suc n) s = do {
     (Status, s) \<leftarrow> claim_pages E MemType PageBase EFI_PAGE_SIZE 1 Caps s;
     claim_loop E MemType (PageBase + EFI_PAGE_SIZE) Caps Status n s
   }"

definition CoreAddMemorySpace ::
    "'p gcd_env \<Rightarrow> int \<Rightarrow> uint64 \<Rightarrow> uint64 \<Rightarrow> uint64 \<Rightarrow> 'p gcd \<Rightarrow> (EFI_STATUS \<times> 'p gcd) option" where
  "CoreAddMemorySpace E MemType Base Length Caps s = do {
     (Status, s) \<leftarrow> CoreInternalAddMemorySpace E MemType Base Length Caps s;
     if \<not> EFI_ERROR Status \<and> MemType = EfiGcdMemoryTypeSystemMemory then do {
       let PageBaseAddress = PageAlignLength Base;
       let PageLength = PageAlignLength (Base + Length - PageBaseAddress);
       let Pages = drop_bit 12 PageLength;
       (Status, s) \<leftarrow> claim_pages E MemType PageBaseAddress PageLength Pages Caps s;
       if \<not> EFI_ERROR Status then Some (Status, s)
       else claim_loop E MemType PageBaseAddress Caps Status (unat Pages) s
     }
     else Some (Status, s)
   }"

definition CoreFreeMemorySpace :: "'p gcd_env \<Rightarrow> uint64 \<Rightarrow> uint64 \<Rightarrow> 'p gcd \<Rightarrow> (EFI_STATUS \<times> 'p gcd) option" where
  "CoreFreeMemorySpace E Base Length s = CoreConvertSpace E GCD_FREE_MEMORY_OPERATION 0 0 Base Length 0 0 s"

definition CoreRemoveMemorySpace :: "'p gcd_env \<Rightarrow> uint64 \<Rightarrow> uint64 \<Rightarrow> 'p gcd \<Rightarrow> (EFI_STATUS \<times> 'p gcd) option" where
  "CoreRemoveMemorySpace E Base Length s = CoreConvertSpace E GCD_REMOVE_MEMORY_OPERATION 0 0 Base Length 0 0 s"

record EFI_GCD_MEMORY_SPACE_DESCRIPTOR =
  DescriptorBase :: uint64
  DescriptorLength :: uint64
  DescriptorCapabilities :: uint64
  DescriptorAttributes :: uint64
  DescriptorMemoryType :: int
  DescriptorImageHandle :: nat
  DescriptorDeviceHandle :: nat

definition BuildMemoryDescriptor :: "EFI_GCD_MAP_ENTRY \<Rightarrow> EFI_GCD_MEMORY_SPACE_DESCRIPTOR" where
  "BuildMemoryDescriptor Entry =
     \<lparr>DescriptorBase = BaseAddress Entry, DescriptorLength = EndAddress Entry - BaseAddress Entry + 1,
      DescriptorCapabilities = Capabilities Entry, DescriptorAttributes = Attributes Entry,
      DescriptorMemoryType = GcdMemoryType Entry, DescriptorImageHandle = ImageHandle Entry,
      DescriptorDeviceHandle = DeviceHandle Entry\<rparr>"

text \<open>\<open>nonnull\<close> tells whether the pointers for the results are not NULL.\<close>

definition CoreGetMemorySpaceDescriptor ::
    "'p gcd_env \<Rightarrow> uint64 \<Rightarrow> bool \<Rightarrow> 'p gcd \<Rightarrow> (EFI_STATUS \<times> EFI_GCD_MEMORY_SPACE_DESCRIPTOR option \<times> 'p gcd) option" where
  "CoreGetMemorySpaceDescriptor E Base nonnull s =
     (if \<not> nonnull then Some (EFI_INVALID_PARAMETER, None, s)
      else do {
        s \<leftarrow> CoreAcquireGcdMemoryLock E s;
        r \<leftarrow> CoreSearchGcdMapEntry (AssertEnabled E) Base 1 (mGcdMemorySpaceMap s);
        let (Status, d) = (case r of
            Inl _ \<Rightarrow> (EFI_NOT_FOUND, None)
          | Inr l \<Rightarrow> (EFI_SUCCESS, Some (BuildMemoryDescriptor (mGcdMemorySpaceMap s ! fst l))));
        s \<leftarrow> CoreReleaseGcdMemoryLock E s;
        Some (Status, d, s)
      })"

definition CoreSetMemorySpaceAttributes ::
    "'p gcd_env \<Rightarrow> uint64 \<Rightarrow> uint64 \<Rightarrow> uint64 \<Rightarrow> 'p gcd \<Rightarrow> (EFI_STATUS \<times> 'p gcd) option" where
  "CoreSetMemorySpaceAttributes E Base Length Attrs s =
     CoreConvertSpace E GCD_SET_ATTRIBUTES_MEMORY_OPERATION 0 0 Base Length 0 Attrs s"

definition CoreGetMemorySpaceMap ::
    "'p gcd_env \<Rightarrow> bool \<Rightarrow> bool \<Rightarrow> 'p gcd \<Rightarrow>
     (EFI_STATUS \<times> (nat \<times> EFI_GCD_MEMORY_SPACE_DESCRIPTOR list option) option \<times> 'p gcd) option" where
  "CoreGetMemorySpaceMap E n_nonnull map_nonnull s =
     (if \<not> n_nonnull then Some (EFI_INVALID_PARAMETER, None, s)
      else if \<not> map_nonnull then Some (EFI_INVALID_PARAMETER, None, s)
      else do {
        s \<leftarrow> CoreAcquireGcdMemoryLock E s;
        let n = CoreCountGcdMapEntry (mGcdMemorySpaceMap s);
        let (ok, p) = AllocateArray E n (Memory s);
        let s = s\<lparr>Memory := p\<rparr>;
        let (Status, r) = (if \<not> ok then (EFI_OUT_OF_RESOURCES, Some (n, None))
           else (EFI_SUCCESS, Some (n, Some (map BuildMemoryDescriptor (mGcdMemorySpaceMap s)))));
        s \<leftarrow> CoreReleaseGcdMemoryLock E s;
        Some (Status, r, s)
      })"

definition CoreAddIoSpace :: "'p gcd_env \<Rightarrow> int \<Rightarrow> uint64 \<Rightarrow> uint64 \<Rightarrow> 'p gcd \<Rightarrow> (EFI_STATUS \<times> 'p gcd) option" where
  "CoreAddIoSpace E IoType Base Length s =
     (if IoType \<le> EfiGcdIoTypeNonExistent \<or> IoType \<ge> EfiGcdIoTypeMaximum then Some (EFI_INVALID_PARAMETER, s)
      else CoreConvertSpace E GCD_ADD_IO_OPERATION 0 IoType Base Length 0 0 s)"

definition CoreAllocateIoSpace ::
    "'p gcd_env \<Rightarrow> int \<Rightarrow> int \<Rightarrow> uint64 \<Rightarrow> uint64 \<Rightarrow> uint64 option \<Rightarrow> nat \<Rightarrow> nat \<Rightarrow> 'p gcd \<Rightarrow>
     (EFI_STATUS \<times> uint64 option \<times> 'p gcd) option" where
  "CoreAllocateIoSpace E AllocType IoType Alignment Length base Img Dev s =
     CoreAllocateSpace E GCD_ALLOCATE_IO_OPERATION AllocType 0 IoType Alignment Length base Img Dev s"

definition CoreFreeIoSpace :: "'p gcd_env \<Rightarrow> uint64 \<Rightarrow> uint64 \<Rightarrow> 'p gcd \<Rightarrow> (EFI_STATUS \<times> 'p gcd) option" where
  "CoreFreeIoSpace E Base Length s = CoreConvertSpace E GCD_FREE_IO_OPERATION 0 0 Base Length 0 0 s"

definition CoreRemoveIoSpace :: "'p gcd_env \<Rightarrow> uint64 \<Rightarrow> uint64 \<Rightarrow> 'p gcd \<Rightarrow> (EFI_STATUS \<times> 'p gcd) option" where
  "CoreRemoveIoSpace E Base Length s = CoreConvertSpace E GCD_REMOVE_IO_OPERATION 0 0 Base Length 0 0 s"

record EFI_GCD_IO_SPACE_DESCRIPTOR =
  IoDescriptorBase :: uint64
  IoDescriptorLength :: uint64
  IoDescriptorIoType :: int
  IoDescriptorImageHandle :: nat
  IoDescriptorDeviceHandle :: nat

definition BuildIoDescriptor :: "EFI_GCD_MAP_ENTRY \<Rightarrow> EFI_GCD_IO_SPACE_DESCRIPTOR" where
  "BuildIoDescriptor Entry =
     \<lparr>IoDescriptorBase = BaseAddress Entry, IoDescriptorLength = EndAddress Entry - BaseAddress Entry + 1,
      IoDescriptorIoType = GcdIoType Entry, IoDescriptorImageHandle = ImageHandle Entry,
      IoDescriptorDeviceHandle = DeviceHandle Entry\<rparr>"

definition CoreGetIoSpaceDescriptor ::
    "'p gcd_env \<Rightarrow> uint64 \<Rightarrow> bool \<Rightarrow> 'p gcd \<Rightarrow> (EFI_STATUS \<times> EFI_GCD_IO_SPACE_DESCRIPTOR option \<times> 'p gcd) option" where
  "CoreGetIoSpaceDescriptor E Base nonnull s =
     (if \<not> nonnull then Some (EFI_INVALID_PARAMETER, None, s)
      else do {
        s \<leftarrow> CoreAcquireGcdIoLock E s;
        r \<leftarrow> CoreSearchGcdMapEntry (AssertEnabled E) Base 1 (mGcdIoSpaceMap s);
        let (Status, d) = (case r of
            Inl _ \<Rightarrow> (EFI_NOT_FOUND, None)
          | Inr l \<Rightarrow> (EFI_SUCCESS, Some (BuildIoDescriptor (mGcdIoSpaceMap s ! fst l))));
        s \<leftarrow> CoreReleaseGcdIoLock E s;
        Some (Status, d, s)
      })"

definition CoreGetIoSpaceMap ::
    "'p gcd_env \<Rightarrow> bool \<Rightarrow> bool \<Rightarrow> 'p gcd \<Rightarrow>
     (EFI_STATUS \<times> (nat \<times> EFI_GCD_IO_SPACE_DESCRIPTOR list option) option \<times> 'p gcd) option" where
  "CoreGetIoSpaceMap E n_nonnull map_nonnull s =
     (if \<not> n_nonnull then Some (EFI_INVALID_PARAMETER, None, s)
      else if \<not> map_nonnull then Some (EFI_INVALID_PARAMETER, None, s)
      else do {
        s \<leftarrow> CoreAcquireGcdIoLock E s;
        let n = CoreCountGcdMapEntry (mGcdIoSpaceMap s);
        let (ok, p) = AllocateArray E n (Memory s);
        let s = s\<lparr>Memory := p\<rparr>;
        let (Status, r) = (if \<not> ok then (EFI_OUT_OF_RESOURCES, Some (n, None))
           else (EFI_SUCCESS, Some (n, Some (map BuildIoDescriptor (mGcdIoSpaceMap s)))));
        s \<leftarrow> CoreReleaseGcdIoLock E s;
        Some (Status, r, s)
      })"

definition CoreConvertResourceDescriptorHobAttributesToCapabilities :: "int \<Rightarrow> uint64 \<Rightarrow> uint64" where
  "CoreConvertResourceDescriptorHobAttributesToCapabilities MemType Attrs =
     fold (\<lambda>(Attribute, Capability, Memory) Capabilities.
         if (Memory \<or> MemType \<noteq> EfiGcdMemoryTypeSystemMemory) \<and> Attrs AND Attribute \<noteq> 0
         then Capabilities OR Capability else Capabilities)
       mAttributeConversionTable 0"

subsection \<open>Initialisation from the hand-off blocks\<close>

text \<open>
  The hand-off blocks \<open>CoreInitializeGcdServices\<close> looks at: resource descriptors (type, attributes, start,
  length), memory allocations (memory type, base, length) and firmware volumes (base, length).
\<close>

datatype HOB =
    HobResource nat uint64 uint64 uint64
  | HobMemoryAllocation nat uint64 uint64
  | HobFirmwareVolume uint64 uint64
  | HobOther

abbreviation (input) "EFI_RESOURCE_SYSTEM_MEMORY \<equiv> 0 :: nat"
abbreviation (input) "EFI_RESOURCE_MEMORY_MAPPED_IO \<equiv> 1 :: nat"
abbreviation (input) "EFI_RESOURCE_IO \<equiv> 2 :: nat"
abbreviation (input) "EFI_RESOURCE_FIRMWARE_DEVICE \<equiv> 3 :: nat"
abbreviation (input) "EFI_RESOURCE_MEMORY_MAPPED_IO_PORT \<equiv> 4 :: nat"
abbreviation (input) "EFI_RESOURCE_MEMORY_RESERVED \<equiv> 5 :: nat"
abbreviation (input) "EFI_RESOURCE_IO_RESERVED \<equiv> 6 :: nat"
abbreviation (input) "MEMORY_ATTRIBUTE_MASK \<equiv> 0x1C387 :: uint64"
abbreviation (input) "TESTED_MEMORY_ATTRIBUTES \<equiv> 7 :: uint64"
abbreviation (input) "INITIALIZED_MEMORY_ATTRIBUTES \<equiv> 3 :: uint64"
abbreviation (input) "PRESENT_MEMORY_ATTRIBUTES \<equiv> 1 :: uint64"

definition resource_memory_type :: "nat \<Rightarrow> uint64 \<Rightarrow> int" where
  "resource_memory_type ty attribute =
     (if ty = EFI_RESOURCE_SYSTEM_MEMORY then
        (let a = attribute AND MEMORY_ATTRIBUTE_MASK in
         if a = TESTED_MEMORY_ATTRIBUTES then EfiGcdMemoryTypeSystemMemory
         else if a = INITIALIZED_MEMORY_ATTRIBUTES then EfiGcdMemoryTypeReserved
         else if a = PRESENT_MEMORY_ATTRIBUTES then EfiGcdMemoryTypeReserved
         else EfiGcdMemoryTypeNonExistent)
      else if ty = EFI_RESOURCE_MEMORY_MAPPED_IO \<or> ty = EFI_RESOURCE_FIRMWARE_DEVICE then EfiGcdMemoryTypeMemoryMappedIo
      else if ty = EFI_RESOURCE_MEMORY_MAPPED_IO_PORT \<or> ty = EFI_RESOURCE_MEMORY_RESERVED then EfiGcdMemoryTypeReserved
      else EfiGcdMemoryTypeNonExistent)"

definition resource_io_type :: "nat \<Rightarrow> int" where
  "resource_io_type ty =
     (if ty = EFI_RESOURCE_IO then EfiGcdIoTypeIo
      else if ty = EFI_RESOURCE_IO_RESERVED then EfiGcdIoTypeReserved else EfiGcdIoTypeNonExistent)"

definition init_maps :: "uint64 \<Rightarrow> uint64 \<Rightarrow> 'p gcd \<Rightarrow> 'p gcd" where
  "init_maps SizeOfMemorySpace SizeOfIoSpace s =
     s\<lparr>mGcdMemorySpaceMap :=
         mGcdMemorySpaceMapEntryTemplate\<lparr>EndAddress := LShiftU64 1 SizeOfMemorySpace - 1\<rparr> # mGcdMemorySpaceMap s,
       mGcdIoSpaceMap :=
         mGcdIoSpaceMapEntryTemplate\<lparr>EndAddress := LShiftU64 1 SizeOfIoSpace - 1\<rparr> # mGcdIoSpaceMap s\<rparr>"

definition add_resource_hob :: "'p gcd_env \<Rightarrow> HOB \<Rightarrow> 'p gcd \<Rightarrow> 'p gcd option" where
  "add_resource_hob E Hob s = (case Hob of
     HobResource ty attribute start len \<Rightarrow> do {
       let mt = resource_memory_type ty attribute;
       let it = resource_io_type ty;
       s \<leftarrow> (if mt \<noteq> EfiGcdMemoryTypeNonExistent then do {
                (_, s) \<leftarrow> CoreInternalAddMemorySpace E mt start len
                   (CoreConvertResourceDescriptorHobAttributesToCapabilities mt attribute) s;
                Some s
              } else Some s);
       if it \<noteq> EfiGcdIoTypeNonExistent then do {
         (_, s) \<leftarrow> CoreAddIoSpace E it start len s;
         Some s
       } else Some s
     }
   | _ \<Rightarrow> Some s)"

definition claim_hob :: "'p gcd_env \<Rightarrow> HOB \<Rightarrow> 'p gcd \<Rightarrow> 'p gcd option" where
  "claim_hob E Hob s = (case Hob of
     HobMemoryAllocation ty base len \<Rightarrow> do {
       (Status, d, s) \<leftarrow> CoreGetMemorySpaceDescriptor E base True s;
       case d of
         None \<Rightarrow> Some s
       | Some Descriptor \<Rightarrow> do {
           (Status, _, s) \<leftarrow> CoreAllocateMemorySpace E EfiGcdAllocateAddress (DescriptorMemoryType Descriptor) 0 len
                              (Some base) (gDxeCoreImageHandle E) 0 s;
           Some (if \<not> EFI_ERROR Status \<and> DescriptorMemoryType Descriptor = EfiGcdMemoryTypeSystemMemory
                 then s\<lparr>Memory := AddMemoryDescriptor E ty base (drop_bit 12 len)
                              (DescriptorCapabilities Descriptor AND NOT EFI_MEMORY_RUNTIME) (Memory s)\<rparr>
                 else s)
         }
     }
   | HobFirmwareVolume base len \<Rightarrow> do {
       (_, _, s) \<leftarrow> CoreAllocateMemorySpace E EfiGcdAllocateAddress EfiGcdMemoryTypeMemoryMappedIo 0 len
                      (Some base) (gDxeCoreImageHandle E) 0 s;
       Some s
     }
   | _ \<Rightarrow> Some s)"

definition claim_descriptor :: "'p gcd_env \<Rightarrow> EFI_GCD_MEMORY_SPACE_DESCRIPTOR \<Rightarrow> 'p gcd \<Rightarrow> 'p gcd option" where
  "claim_descriptor E d s =
     (if DescriptorMemoryType d = EfiGcdMemoryTypeSystemMemory \<and> DescriptorImageHandle d = 0 then
        let Base = PageAlignAddress (DescriptorBase d);
            Length = PageAlignLength (DescriptorBase d + DescriptorLength d - Base)
        in if Length = 0 \<or> DescriptorBase d + DescriptorLength d < Base then Some s
        else do {
          let s = s\<lparr>Memory := AddMemoryDescriptor E EfiConventionalMemory Base (drop_bit 12 Length)
                              (DescriptorCapabilities d AND NOT EFI_MEMORY_RUNTIME) (Memory s)\<rparr>;
          (_, _, s) \<leftarrow> CoreAllocateMemorySpace E EfiGcdAllocateAddress EfiGcdMemoryTypeSystemMemory 0 Length
                         (Some Base) (gDxeCoreImageHandle E) 0 s;
          Some s
        }
      else Some s)"

primrec foldM :: "('a \<Rightarrow> 's \<Rightarrow> 's option) \<Rightarrow> 'a list \<Rightarrow> 's \<Rightarrow> 's option" where
  "foldM f [] s = Some s"
| "foldM f (x # xs) s = do { s \<leftarrow> f x s; foldM f xs s }"

text \<open>Assertions that pool memory can be had are not modelled: a pool without memory shows in \<open>CoreGetMemorySpaceMap\<close>.\<close>

definition CoreInitializeGcdServices ::
    "'p gcd_env \<Rightarrow> HOB list \<Rightarrow> uint64 \<Rightarrow> uint64 \<Rightarrow> uint64 \<Rightarrow> uint64 \<Rightarrow> 'p gcd \<Rightarrow> (EFI_STATUS \<times> 'p gcd) option" where
  "CoreInitializeGcdServices E hobs SizeOfMemorySpace SizeOfIoSpace MemoryBaseAddress MemoryLength s = do {
     let s = init_maps SizeOfMemorySpace SizeOfIoSpace s;
     s \<leftarrow> foldM (add_resource_hob E) hobs s;
     (_, _, s) \<leftarrow> CoreAllocateMemorySpace E EfiGcdAllocateAddress EfiGcdMemoryTypeSystemMemory 0 MemoryLength
                    (Some MemoryBaseAddress) (gDxeCoreImageHandle E) 0 s;
     s \<leftarrow> foldM (claim_hob E) hobs s;
     (Status, r, s) \<leftarrow> CoreGetMemorySpaceMap E True True s;
     ASSERT (AssertEnabled E) (Some (Status = EFI_SUCCESS));
     (_, ds) \<leftarrow> r;
     ds \<leftarrow> ds;
     s \<leftarrow> foldM (claim_descriptor E) ds s;
     Some (EFI_SUCCESS, s)
   }"

end
