(* ===== verification/GcdMap.thy ===== *)
theory GcdMap
  imports Gcd
begin

section \<open>Maps of the global coherency domain as functions of the address\<close>

text \<open>
  The abstract view of a map. \<open>covers lo hi es\<close>: the entries are sorted, not empty, and leave neither a gap
  nor an overlap between \<open>lo\<close> and \<open>hi\<close> (exclusive). \<open>cell_at es a\<close>: the attributes of the address \<open>a\<close>.
  The lemmas show what searching, splitting, converting and merging entries do to the two.
\<close>

definition attrs :: "EFI_GCD_MAP_ENTRY \<Rightarrow> EFI_GCD_MAP_ENTRY" where
  "attrs e = e\<lparr>BaseAddress := 0, EndAddress := 0\<rparr>"

definition in_entry :: "nat \<Rightarrow> EFI_GCD_MAP_ENTRY \<Rightarrow> bool" where
  "in_entry a e \<longleftrightarrow> unat (BaseAddress e) \<le> a \<and> a \<le> unat (EndAddress e)"

primrec covers :: "nat \<Rightarrow> nat \<Rightarrow> EFI_GCD_MAP_ENTRY list \<Rightarrow> bool" where
  "covers lo hi [] \<longleftrightarrow> lo = hi"
| "covers lo hi (e # es) \<longleftrightarrow> unat (BaseAddress e) = lo \<and> lo \<le> unat (EndAddress e) \<and>
     covers (unat (EndAddress e) + 1) hi es"

primrec cell_at :: "EFI_GCD_MAP_ENTRY list \<Rightarrow> nat \<Rightarrow> EFI_GCD_MAP_ENTRY option" where
  "cell_at [] a = None"
| "cell_at (e # es) a = (if in_entry a e then Some (attrs e) else cell_at es a)"

lemma attrs_simps [simp]:
  "attrs (e\<lparr>BaseAddress := x\<rparr>) = attrs e" "attrs (e\<lparr>EndAddress := x\<rparr>) = attrs e"
  "ImageHandle (attrs e) = ImageHandle e" "GcdMemoryType (attrs e) = GcdMemoryType e"
  "GcdIoType (attrs e) = GcdIoType e" "Capabilities (attrs e) = Capabilities e"
  "Attributes (attrs e) = Attributes e" "DeviceHandle (attrs e) = DeviceHandle e"
  by (cases e; simp add: attrs_def)+

lemma covers_append: "covers lo hi (xs @ ys) \<longleftrightarrow> (\<exists>m. covers lo m xs \<and> covers m hi ys)"
  by (induction xs arbitrary: lo) auto

lemma covers_le: "covers lo hi es \<Longrightarrow> lo \<le> hi"
  by (induction es arbitrary: lo) fastforce+

lemma covers_less: "covers lo hi es \<Longrightarrow> es \<noteq> [] \<Longrightarrow> lo < hi"
  using covers_le by (cases es) fastforce+

lemma covers_bound: "covers lo hi es \<Longrightarrow> es \<noteq> [] \<Longrightarrow> hi \<le> 2 ^ 64"
proof (induction es arbitrary: lo)
  case (Cons e es)
  have "unat (EndAddress e) < 2 ^ 64" using unsigned_less [of "EndAddress e", where ?'a = nat] by simp
  with Cons show ?case by (cases "es = []") auto
qed simp

lemma cell_at_None: "covers lo hi es \<Longrightarrow> a < lo \<or> hi \<le> a \<Longrightarrow> cell_at es a = None"
proof (induction es arbitrary: lo)
  case (Cons e es)
  have "unat (EndAddress e) + 1 \<le> hi" using Cons.prems covers_le by auto
  with Cons show ?case by (auto simp: in_entry_def)
qed simp

lemma cell_at_Some: "covers lo hi es \<Longrightarrow> lo \<le> a \<Longrightarrow> a < hi \<Longrightarrow> \<exists>c. cell_at es a = Some c"
proof (induction es arbitrary: lo)
  case (Cons e es)
  then show ?case by (cases "a \<le> unat (EndAddress e)") (auto simp: in_entry_def)
qed simp

lemma cell_at_append:
  assumes "covers lo m xs" "covers m hi ys"
  shows "cell_at (xs @ ys) a = (if a < m then cell_at xs a else cell_at ys a)"
  using assms
proof (induction xs arbitrary: lo)
  case Nil
  then show ?case using cell_at_None [of lo hi ys a] by auto
next
  case (Cons e xs)
  have "unat (EndAddress e) < m" using Cons.prems(1) covers_le by fastforce
  with Cons show ?case by (auto simp: in_entry_def)
qed

text \<open>Pieces of a map.\<close>

lemma covers_last:
  assumes "covers lo hi es" "es \<noteq> []"
  shows "unat (EndAddress (last es)) + 1 = hi" "unat (BaseAddress (last es)) \<le> unat (EndAddress (last es))"
  using assms by (induction es arbitrary: lo) (auto split: if_splits)

lemma covers_butlast:
  assumes "covers lo hi es" "es \<noteq> []"
  obtains k where "covers lo k (butlast es)" "covers k hi [last es]"
proof -
  have "covers lo hi (butlast es @ [last es])" using assms by simp
  then show thesis using that unfolding covers_append by blast
qed

lemma covers_hd: "covers lo hi es \<Longrightarrow> es \<noteq> [] \<Longrightarrow> unat (BaseAddress (hd es)) = lo"
  by (cases es) auto

subsection \<open>Searching\<close>

text \<open>The links of a range: the piece \<open>mid\<close> of the map, from the entry with the first address to that with the
  last one.\<close>

definition range_split ::
    "nat \<Rightarrow> nat \<Rightarrow> nat \<Rightarrow> nat \<Rightarrow> EFI_GCD_MAP_ENTRY list \<Rightarrow> EFI_GCD_MAP_ENTRY list \<Rightarrow> EFI_GCD_MAP_ENTRY list \<Rightarrow> bool" where
  "range_split lo hi b n xs mid ys \<longleftrightarrow> mid \<noteq> [] \<and> in_entry b (hd mid) \<and> in_entry (b + n - 1) (last mid) \<and>
     covers lo hi (xs @ mid @ ys)"

lemma range_split_exists:
  assumes "covers lo hi es" "lo \<le> b" "b + n \<le> hi" "0 < n"
  shows "\<exists>xs mid ys. es = xs @ mid @ ys \<and> range_split lo hi b n xs mid ys"
  using assms
proof (induction es arbitrary: lo b n)
  case (Cons e es)
  let ?E = "unat (EndAddress e)"
  have ce: "covers (?E + 1) hi es" "unat (BaseAddress e) = lo" "lo \<le> ?E" using Cons.prems(1) by auto
  consider (later) "?E < b" | (here) "b \<le> ?E" "b + n - 1 \<le> ?E" | (over) "b \<le> ?E" "?E < b + n - 1" by linarith
  then show ?case
  proof cases
    case later
    then obtain xs mid ys where "es = xs @ mid @ ys" "range_split (?E + 1) hi b n xs mid ys"
      using Cons.IH [OF ce(1), of b n] Cons.prems by auto
    then show ?thesis using ce
      by (intro exI [of _ "e # xs"] exI [of _ mid] exI [of _ ys]) (auto simp: range_split_def)
  next
    case here
    then show ?thesis using ce Cons.prems
      by (intro exI [of _ "[]"] exI [of _ "[e]"] exI [of _ es]) (auto simp: range_split_def in_entry_def)
  next
    case over
    define k where "k = b + n - (?E + 1)"
    have k: "0 < k" "?E + 1 + k - 1 = b + n - 1" "?E + 1 + k \<le> hi" using over Cons.prems by (auto simp: k_def)
    obtain xs mid ys where r: "es = xs @ mid @ ys" "range_split (?E + 1) hi (?E + 1) k xs mid ys"
      using Cons.IH [OF ce(1) _ k(3,1)] by auto
    have "xs = []"
    proof (rule ccontr)
      assume "xs \<noteq> []"
      with r obtain m where m: "covers (?E + 1) m xs" "covers m hi (mid @ ys)" "mid \<noteq> []"
        by (auto simp: range_split_def covers_append)
      then have "?E + 1 < m" using \<open>xs \<noteq> []\<close> covers_less by blast
      moreover have "unat (BaseAddress (hd mid)) = m" using m covers_hd [of m hi "mid @ ys"] by simp
      ultimately show False using r(2) by (simp add: range_split_def in_entry_def)
    qed
    with r k ce over Cons.prems show ?thesis
      by (intro exI [of _ "[]"] exI [of _ "e # mid"] exI [of _ ys]) (auto simp: range_split_def in_entry_def)
  qed
qed auto

lemma search_skip:
  assumes "\<forall>e \<in> set xs. \<not> in_entry (unat B) e"
  shows "search_loop B L i None (xs @ ys) = search_loop B L (i + length xs) None ys"
  using assms by (induction xs arbitrary: i) (auto simp: in_entry_def word_le_nat_alt)

lemma search_middle:
  assumes "\<forall>e \<in> set xs. \<not> in_entry (unat B) e" "\<forall>e \<in> set xs. \<not> in_entry (unat (B + L - 1)) e"
  shows "search_loop B L i (Some s) (xs @ ys) = search_loop B L (i + length xs) (Some s) ys"
  using assms by (induction xs arbitrary: i) (auto simp: in_entry_def word_le_nat_alt)

lemma search_hit:
  assumes "in_entry (unat (B + L - 1)) e" "in_entry (unat B) e \<Longrightarrow> s = i"
  shows "search_loop B L i (Some s) (e # ys) = Some (s, i)"
  using assms by (auto simp: in_entry_def word_le_nat_alt)

lemma not_in_before: "covers lo m xs \<Longrightarrow> m \<le> a \<Longrightarrow> e \<in> set xs \<Longrightarrow> \<not> in_entry a e"
proof (induction xs arbitrary: lo)
  case (Cons x xs)
  then have "unat (EndAddress x) < m" using covers_le by fastforce
  with Cons show ?case by (auto simp: in_entry_def)
qed simp

lemma not_in_after: "covers m hi ys \<Longrightarrow> a < m \<Longrightarrow> e \<in> set ys \<Longrightarrow> \<not> in_entry a e"
proof (induction ys arbitrary: m)
  case (Cons y ys)
  have "covers (unat (EndAddress y) + 1) hi ys" "a < unat (EndAddress y) + 1" using Cons.prems by auto
  with Cons show ?case by (fastforce simp: in_entry_def)
qed simp

lemma search_none:
  assumes "\<forall>e \<in> set es. \<not> in_entry (unat (B + L - 1)) e"
  shows "search_loop B L i s es = None"
  using assms by (induction es arbitrary: i s) (auto simp: in_entry_def word_le_nat_alt split: option.split)

lemma search_found:
  assumes r: "range_split lo hi (unat B) (unat L) xs mid ys" and L: "L \<noteq> 0" and hi: "unat B + unat L \<le> hi"
  shows "search_loop B L 0 None (xs @ mid @ ys) = Some (length xs, length xs + length mid - 1)"
proof -
  obtain m1 m2 where c: "covers lo m1 xs" "covers m1 m2 mid" "covers m2 hi ys"
    using r by (auto simp: range_split_def covers_append)
  have mid: "mid \<noteq> []" "in_entry (unat B) (hd mid)" "in_entry (unat B + unat L - 1) (last mid)"
    using r by (auto simp: range_split_def)
  have bnd: "hi \<le> 2 ^ 64" using r mid by (intro covers_bound [of lo hi "xs @ mid @ ys"]) (auto simp: range_split_def)
  have fin: "unat (B + L - 1) = unat B + unat L - 1" using L hi bnd by (intro unat_end) auto
  have m1: "m1 \<le> unat B" using mid covers_hd [OF c(2) mid(1)] by (simp add: in_entry_def)
  have skip: "search_loop B L 0 None (xs @ mid @ ys) = search_loop B L (length xs) None (mid @ ys)"
    using search_skip [of xs B L 0] not_in_before [OF c(1) m1] by simp
  show ?thesis
  proof (cases "length mid = 1")
    case True
    then obtain e where "mid = [e]" by (cases mid) auto
    with skip mid fin show ?thesis by (simp add: in_entry_def word_le_nat_alt)
  next
    case False
    with mid(1) obtain e es z where m: "mid = e # es @ [z]"
      by (cases mid; simp) (metis append_butlast_last_id)
    from c(2) m obtain k where k: "covers (unat (EndAddress e) + 1) k es" "covers k m2 [z]"
      by (auto simp: covers_append)
    have z: "k \<le> unat B + unat L - 1" "in_entry (unat (B + L - 1)) z"
      using mid(3) m k fin by (auto simp: in_entry_def)
    have B: "unat B < unat (EndAddress e) + 1" using mid(2) m by (simp add: in_entry_def)
    have notB: "\<not> in_entry (unat B) x" if "x \<in> set (es @ [z])" for x
      using not_in_after [OF _ B that] k covers_append by blast
    have e: "\<not> in_entry (unat (B + L - 1)) e"
      using z(1) fin covers_le [OF k(1)] by (simp add: in_entry_def)
    have "search_loop B L (length xs) None (mid @ ys) =
        search_loop B L (length xs + 1) (Some (length xs)) (es @ z # ys)"
      using mid(2) e by (auto simp: m in_entry_def word_le_nat_alt)
    also have "\<dots> = search_loop B L (length xs + 1 + length es) (Some (length xs)) (z # ys)"
      using not_in_before [OF k(1)] z(1) fin notB by (intro search_middle) auto
    also have "\<dots> = Some (length xs, length xs + length mid - 1)"
      using search_hit [OF z(2)] notB by (simp add: m)
    finally show ?thesis using skip by simp
  qed
qed

lemma links_mid: "mid \<noteq> [] \<Longrightarrow> links (length xs, length xs + length mid - 1) (xs @ mid @ ys) = mid"
  by (cases mid) (auto simp: links_def)

lemma drop_mid: "mid \<noteq> [] \<Longrightarrow> drop (length xs + length mid - 1 + 1) (xs @ mid @ ys) = ys"
  by (cases mid) auto

text \<open>On a map of an address space the search succeeds for the ranges inside the space. For other ranges it
  fails, unless the end address wraps around.\<close>

lemma CoreSearch_inside:
  assumes "covers lo hi es" "L \<noteq> 0" "lo \<le> unat B" "unat B + unat L \<le> hi"
  obtains xs mid ys where "es = xs @ mid @ ys" "range_split lo hi (unat B) (unat L) xs mid ys"
    "CoreSearchGcdMapEntry en B L es = Some (Inr (length xs, length xs + length mid - 1))"
proof -
  have "0 < unat L" using assms(2) by (simp add: unat_gt_0)
  then obtain xs mid ys where r: "es = xs @ mid @ ys" "range_split lo hi (unat B) (unat L) xs mid ys"
    using range_split_exists [OF assms(1,3,4)] by blast
  with search_found [OF r(2) assms(2,4)] assms(2) show thesis
    by (intro that [of xs mid ys]) (simp_all add: CoreSearchGcdMapEntry_def)
qed

lemma CoreSearch_outside:
  assumes "covers lo hi es" "L \<noteq> 0" "hi < unat B + unat L" "unat B + unat L \<le> 2 ^ 64"
  shows "CoreSearchGcdMapEntry en B L es = Some (Inl EFI_NOT_FOUND)"
proof -
  have "hi \<le> unat (B + L - 1)" using unat_end [OF assms(2,4)] assms(3) by simp
  then have "\<forall>e \<in> set es. \<not> in_entry (unat (B + L - 1)) e" using not_in_before [OF assms(1)] by blast
  with assms(2) show ?thesis by (simp add: CoreSearchGcdMapEntry_def search_none)
qed

subsection \<open>Merging\<close>

definition pos_list :: "gcd_pos \<Rightarrow> EFI_GCD_MAP_ENTRY list" where
  "pos_list pos = (case pos of (before, e, after) \<Rightarrow> rev before @ e # after)"

text \<open>Two lists of entries for the same part of an address space, with the same attributes everywhere.\<close>

definition same_cells :: "nat \<Rightarrow> nat \<Rightarrow> EFI_GCD_MAP_ENTRY list \<Rightarrow> EFI_GCD_MAP_ENTRY list \<Rightarrow> bool" where
  "same_cells lo hi es es' \<longleftrightarrow> (covers lo hi es \<longrightarrow> covers lo hi es' \<and> (\<forall>a. cell_at es' a = cell_at es a))"

lemma same_cells_refl [simp]: "same_cells lo hi es es"
  by (simp add: same_cells_def)

lemma same_cells_trans: "same_cells lo hi a b \<Longrightarrow> same_cells lo hi b c \<Longrightarrow> same_cells lo hi a c"
  by (simp add: same_cells_def)

lemma same_cells_context:
  assumes "\<And>l h. same_cells l h mid mid'"
  shows "same_cells lo hi (xs @ mid @ ys) (xs @ mid' @ ys)"
  unfolding same_cells_def
proof (rule impI)
  assume "covers lo hi (xs @ mid @ ys)"
  then obtain m1 m2 where c: "covers lo m1 xs" "covers m1 m2 mid" "covers m2 hi ys" by (auto simp: covers_append)
  have c': "covers m1 m2 mid'" "\<And>a. cell_at mid' a = cell_at mid a" using assms [of m1 m2] c(2) by (auto simp: same_cells_def)
  have "covers m1 hi (mid @ ys)" "covers m1 hi (mid' @ ys)" using c c' by (auto simp: covers_append)
  with c c' show "covers lo hi (xs @ mid' @ ys) \<and> (\<forall>a. cell_at (xs @ mid' @ ys) a = cell_at (xs @ mid @ ys) a)"
    by (auto simp: covers_append cell_at_append)
qed

lemma same_cells_pair:
  assumes "attrs e1 = attrs e2"
  shows "same_cells lo hi [e1, e2] [e1\<lparr>EndAddress := EndAddress e2\<rparr>]"
    and "same_cells lo hi [e1, e2] [e2\<lparr>BaseAddress := BaseAddress e1\<rparr>]"
  using assms by (auto simp: same_cells_def in_entry_def)

lemma same_cells_pair_in:
  assumes "attrs e1 = attrs e2"
  shows "same_cells lo hi (xs @ e1 # e2 # ys) (xs @ e1\<lparr>EndAddress := EndAddress e2\<rparr> # ys)"
    and "same_cells lo hi (xs @ e1 # e2 # ys) (xs @ e2\<lparr>BaseAddress := BaseAddress e1\<rparr> # ys)"
  using same_cells_context [OF same_cells_pair(1) [OF assms], of lo hi xs ys]
    same_cells_context [OF same_cells_pair(2) [OF assms], of lo hi xs ys] by simp_all

lemma attrs_eqI:
  assumes "Capabilities a = Capabilities b" "Attributes a = Attributes b" "GcdMemoryType a = GcdMemoryType b"
    "GcdIoType a = GcdIoType b" "ImageHandle a = ImageHandle b" "DeviceHandle a = DeviceHandle b"
  shows "attrs a = attrs b"
  using assms by (cases a; cases b) (simp add: attrs_def)

lemma merge_same_cells:
  assumes "CoreMergeGcdMapEntry E fw pos p = (st, pos', p')"
  shows "same_cells lo hi (pos_list pos) (pos_list pos')"
proof -
  obtain bs e as where pos: "pos = (bs, e, as)" by (cases pos) auto
  show ?thesis
  proof (cases "if fw then as else bs")
    case Nil
    with assms show ?thesis by (auto simp: CoreMergeGcdMapEntry_def pos)
  next
    case (Cons a rest)
    show ?thesis
    proof (cases "attrs e = attrs a")
      case True
      with assms Cons same_cells_pair_in(1) [of e a lo hi "rev bs" rest] same_cells_pair_in(2) [of a e lo hi "rev rest" as]
      show ?thesis
        by (auto simp: CoreMergeGcdMapEntry_def pos pos_list_def split: if_splits)
    next
      case False
      with assms Cons have "pos' = pos"
        by (auto simp: CoreMergeGcdMapEntry_def pos split: if_splits dest: attrs_eqI)
      then show ?thesis by simp
    qed
  qed
qed

lemma cleanup_loop_same_cells:
  "cleanup_loop E pos n p = (pos', p') \<Longrightarrow> same_cells lo hi (pos_list pos) (pos_list pos')"
proof (induction n arbitrary: pos p)
  case 0
  obtain st pos1 p1 where m: "CoreMergeGcdMapEntry E False pos p = (st, pos1, p1)" by (metis prod.exhaust)
  with 0 merge_same_cells [OF m] show ?case by simp
next
  case (Suc n)
  obtain st bs e as p1 where m: "CoreMergeGcdMapEntry E False pos p = (st, (bs, e, as), p1)" by (metis prod.exhaust)
  show ?case
  proof (cases as)
    case Nil
    with Suc.prems m merge_same_cells [OF m] show ?thesis by simp
  next
    case (Cons a rest)
    with Suc.prems m have "cleanup_loop E (e # bs, a, rest) n p1 = (pos', p')" by simp
    from Suc.IH [OF this] have "same_cells lo hi (pos_list (bs, e, as)) (pos_list pos')"
      using Cons by (simp add: pos_list_def)
    with merge_same_cells [OF m] show ?thesis by (blast intro: same_cells_trans)
  qed
qed

lemma cleanup_same_cells:
  assumes "CoreCleanupGcdMapEntry E ut ub bs mid as p = (st, es, p')"
  shows "st = EFI_SUCCESS \<and> same_cells lo hi (rev bs @ mid @ as) es"
proof (cases mid)
  case Nil
  with assms show ?thesis by (auto simp: CoreCleanupGcdMapEntry_def Let_def)
next
  case (Cons e rest)
  define p0 where "p0 = (let p = (if \<not> ut then FreeEntry E p else p) in if \<not> ub then FreeEntry E p else p)"
  obtain pos p1 where l: "cleanup_loop E (bs, e, rest @ as) (length rest) p0 = (pos, p1)" by (metis prod.exhaust)
  obtain st2 pos2 p2 where m: "CoreMergeGcdMapEntry E True pos p1 = (st2, pos2, p2)" by (metis prod.exhaust)
  have "st = EFI_SUCCESS" "es = pos_list pos2"
    using assms Cons l m
    by (auto simp: CoreCleanupGcdMapEntry_def Let_def p0_def pos_list_def simp del: cleanup_loop.simps split: prod.splits)
  moreover have "same_cells lo hi (rev bs @ mid @ as) (pos_list pos)"
    using cleanup_loop_same_cells [OF l, of lo hi] Cons by (simp add: pos_list_def)
  ultimately show ?thesis using merge_same_cells [OF m] same_cells_trans by blast
qed

subsection \<open>Converting\<close>

text \<open>A conversion changes attributes, not addresses.\<close>

definition keeps_range :: "(EFI_GCD_MAP_ENTRY \<Rightarrow> EFI_GCD_MAP_ENTRY) \<Rightarrow> bool" where
  "keeps_range f \<longleftrightarrow> (\<forall>e. BaseAddress (f e) = BaseAddress e \<and> EndAddress (f e) = EndAddress e \<and>
     attrs (f e) = f (attrs e))"

lemma keeps_rangeD:
  assumes "keeps_range f"
  shows "BaseAddress (f e) = BaseAddress e" "EndAddress (f e) = EndAddress e" "attrs (f e) = f (attrs e)"
    "in_entry a (f e) = in_entry a e"
  using assms by (simp_all add: keeps_range_def in_entry_def)

lemma covers_map [simp]: "keeps_range f \<Longrightarrow> covers lo hi (map f es) = covers lo hi es"
  by (induction es arbitrary: lo) (simp_all add: keeps_rangeD)

lemma cell_at_map: "keeps_range f \<Longrightarrow> cell_at (map f es) a = map_option f (cell_at es a)"
  by (induction es) (simp_all add: keeps_rangeD)

lemma keeps_range_convert_entry: "keeps_range (convert_entry op mt it cs ats)"
  by (simp add: keeps_range_def convert_entry_def attrs_def)

lemma keeps_range_alloc: "keeps_range (\<lambda>e. e\<lparr>ImageHandle := i, DeviceHandle := d\<rparr>)"
  by (simp add: keeps_range_def attrs_def)

text \<open>Cutting a piece of a map at an address.\<close>

definition cut_below :: "uint64 \<Rightarrow> EFI_GCD_MAP_ENTRY \<Rightarrow> EFI_GCD_MAP_ENTRY list \<times> EFI_GCD_MAP_ENTRY" where
  "cut_below B e = (if B > BaseAddress e then ([e\<lparr>EndAddress := B - 1\<rparr>], e\<lparr>BaseAddress := B\<rparr>) else ([], e))"

definition cut_above :: "uint64 \<Rightarrow> EFI_GCD_MAP_ENTRY \<Rightarrow> EFI_GCD_MAP_ENTRY \<times> EFI_GCD_MAP_ENTRY list" where
  "cut_above F e = (if F < EndAddress e then (e\<lparr>EndAddress := F\<rparr>, [e\<lparr>BaseAddress := F + 1\<rparr>]) else (e, []))"

lemma CoreInsert_cuts:
  assumes "L \<noteq> 0" "en \<longrightarrow> \<not> ut \<and> \<not> ub"
  shows "CoreInsertGcdMapEntry en e B L ut ub = Some (let (b, e) = cut_below B e; (e, t) = cut_above (B + L - 1) e in (b, e, t))"
  using assms by (auto simp: CoreInsertGcdMapEntry_def cut_below_def cut_above_def Let_def ASSERT_def)

lemma cut_below_cells:
  assumes c: "cut_below B e = (b, e')" and B: "in_entry (unat B) e"
  shows "same_cells lo hi [e] (b @ [e'])" "covers lo hi [e] \<Longrightarrow> covers lo (unat B) b \<and> covers (unat B) hi [e']"
    "EndAddress e' = EndAddress e"
proof -
  have pred: "unat (B - 1) = unat B - 1" "0 < unat B" if "BaseAddress e < B"
    using that unat_minus_one [of B] word_gt_0 [of B] by (auto simp: word_less_nat_alt)
  show "same_cells lo hi [e] (b @ [e'])"
    using c B pred by (auto simp: cut_below_def in_entry_def word_less_nat_alt same_cells_def split: if_splits)
  show "covers lo hi [e] \<Longrightarrow> covers lo (unat B) b \<and> covers (unat B) hi [e']"
    using c B pred by (auto simp: cut_below_def in_entry_def word_less_nat_alt split: if_splits)
  show "EndAddress e' = EndAddress e"
    using c by (auto simp: cut_below_def split: if_splits)
qed

lemma cut_above_cells:
  assumes c: "cut_above F e = (e', t)" and F: "in_entry (unat F) e"
  shows "same_cells lo hi [e] (e' # t)" "covers lo hi [e] \<Longrightarrow> covers lo (unat F + 1) [e'] \<and> covers (unat F + 1) hi t"
proof -
  have suc: "unat (F + 1) = unat F + 1" if "F < EndAddress e"
    using that unsigned_less [of "EndAddress e", where ?'a = nat]
    by (simp add: unat_word_ariths(1) word_less_nat_alt)
  show "same_cells lo hi [e] (e' # t)"
    using c F suc by (auto simp: cut_above_def in_entry_def word_less_nat_alt same_cells_def split: if_splits)
  show "covers lo hi [e] \<Longrightarrow> covers lo (unat F + 1) [e'] \<and> covers (unat F + 1) hi t"
    using c F suc by (auto simp: cut_above_def in_entry_def word_less_nat_alt split: if_splits)
qed

lemma convert_loop_cut:
  assumes "covers lo hi mid" "mid \<noteq> []" "L \<noteq> 0" "unat B \<le> lo" "in_entry (unat (B + L - 1)) (last mid)"
    and "en \<longrightarrow> \<not> ub" and "cut_above (B + L - 1) (last mid) = (z, t)"
  shows "convert_loop en f B L ub mid = Some ([], map f (butlast mid @ [z]), t, ub)"
  using assms
proof (induction mid arbitrary: lo)
  case (Cons e es)
  have nob: "cut_below B e = ([], e)"
    using Cons.prems by (auto simp: cut_below_def word_less_nat_alt)
  show ?case
  proof (cases "es = []")
    case True
    with Cons.prems nob show ?thesis by (simp add: CoreInsert_cuts)
  next
    case False
    have l: "covers (unat (EndAddress e) + 1) hi es" using Cons.prems by simp
    obtain k where "covers (unat (EndAddress e) + 1) k (butlast es)" "covers k hi [last es]"
      using covers_butlast [OF l False] by blast
    then have "unat (EndAddress e) < unat (B + L - 1)"
      using Cons.prems(5) False covers_le by (fastforce simp: in_entry_def)
    then have not: "cut_above (B + L - 1) e = (e, [])" by (simp add: cut_above_def word_less_nat_alt)
    have "convert_loop en f B L ub es = Some ([], map f (butlast es @ [z]), t, ub)"
      using Cons.prems False l by (intro Cons.IH [of "unat (EndAddress e) + 1"]) auto
    with False nob not Cons.prems show ?thesis by (simp add: CoreInsert_cuts)
  qed
qed simp

lemma convert_loop_range:
  assumes c: "covers lo hi mid" and mid: "mid \<noteq> []" and L: "L \<noteq> 0"
    and B: "in_entry (unat B) (hd mid)" and F: "in_entry (unat (B + L - 1)) (last mid)"
    and le: "unat B \<le> unat (B + L - 1)"
    and en: "en \<longrightarrow> length mid = 1 \<or> unat B = lo"
  obtains b m t where "convert_loop en f B L False mid = Some (b, map f m, t, b \<noteq> [])"
    "same_cells lo hi mid (b @ m @ t)" "covers lo (unat B) b" "covers (unat B) (unat (B + L - 1) + 1) m"
    "covers (unat (B + L - 1) + 1) hi t" "m \<noteq> []"
proof -
  obtain e es where m: "mid = e # es" using mid by (cases mid) auto
  obtain b e' where b: "cut_below B e = (b, e')" by fastforce
  have Be: "in_entry (unat B) e" using B m by simp
  define mid' where "mid' = e' # es"
  have E: "EndAddress e' = EndAddress e" using cut_below_cells(3) [OF b Be] .
  have c1: "covers lo (unat B) b" "covers (unat B) (unat (EndAddress e) + 1) [e']"
    using cut_below_cells(2) [OF b Be, of lo "unat (EndAddress e) + 1"] c m by auto
  have c2: "covers (unat B) hi mid'" using c1(2) c m E by (simp add: mid'_def)
  have s1: "same_cells lo hi mid (b @ mid')"
    using same_cells_context [OF cut_below_cells(1) [OF b Be], of lo hi "[]" es] m by (simp add: mid'_def)
  have F': "in_entry (unat (B + L - 1)) (last mid')"
    using F m le c1(2) E by (auto simp: mid'_def in_entry_def)
  obtain z t where z: "cut_above (B + L - 1) (last mid') = (z, t)" by fastforce
  define m' where "m' = butlast mid' @ [z]"
  have mid'_eq: "mid' = butlast mid' @ [last mid']" by (simp add: mid'_def)
  obtain k where k: "covers (unat B) k (butlast mid')" "covers k hi [last mid']"
    using covers_butlast [OF c2] by (auto simp: mid'_def)
  have c3: "covers k (unat (B + L - 1) + 1) [z]" "covers (unat (B + L - 1) + 1) hi t"
    using cut_above_cells(2) [OF z F' k(2)] by auto
  have s2: "same_cells lo hi (b @ mid') (b @ m' @ t)"
    using same_cells_context [OF cut_above_cells(1) [OF z F'], of lo hi "b @ butlast mid'" "[]"] mid'_eq
    by (simp add: m'_def)
  have "convert_loop en f B L False mid = Some (b, map f m', t, b \<noteq> [])"
  proof (cases "es = []")
    case True
    with L z show ?thesis by (simp add: m CoreInsert_cuts b m'_def mid'_def)
  next
    case False
    have nb: "en \<longrightarrow> b = []" using en False m c b by (auto simp: cut_below_def word_less_nat_alt)
    have above: "unat (EndAddress e) < unat (B + L - 1)"
    proof -
      obtain k' where k': "covers (unat (EndAddress e) + 1) k' (butlast es)" "covers k' hi [last es]"
        using c m covers_butlast [OF _ False] by auto
      show ?thesis using k'(2) covers_le [OF k'(1)] F m False by (auto simp: in_entry_def)
    qed
    then have nt: "cut_above (B + L - 1) e' = (e', [])" by (simp add: cut_above_def word_less_nat_alt E)
    have "covers (unat (EndAddress e) + 1) hi es" "unat B \<le> unat (EndAddress e) + 1" "last mid' = last es"
      using c m Be False by (auto simp: in_entry_def mid'_def)
    then have "convert_loop en f B L (b \<noteq> []) es = Some ([], map f (butlast es @ [z]), t, b \<noteq> [])"
      using False L F' nb z convert_loop_cut [of _ hi es L B en "b \<noteq> []" z t f] by simp
    with False L nt show ?thesis by (simp add: m CoreInsert_cuts b m'_def mid'_def)
  qed
  moreover have "covers (unat B) (unat (B + L - 1) + 1) m'" using k c3 by (auto simp: m'_def covers_append)
  ultimately show thesis using s1 s2 c1(1) c3(2) by (intro that [of b m' t]) (auto intro: same_cells_trans simp: m'_def)
qed

end
