(* ===== verification/GcdConvert.thy ===== *)
theory GcdConvert
  imports GcdMap
begin

section \<open>Converting a range of an address space\<close>

text \<open>
  What \<open>CoreConvertSpace\<close> does to the attributes of the addresses, when it succeeds and that it returns;
  the assertion that stops it on ranges that begin inside one entry and end in another; the corruption
  of the map by a range whose end address wraps around.
\<close>

subsection \<open>Entries and addresses\<close>

lemma cell_atD: "cell_at es a = Some c \<Longrightarrow> \<exists>e \<in> set es. in_entry a e \<and> c = attrs e"
  by (induction es) (auto split: if_splits)

lemma cell_at_entry: "covers lo hi es \<Longrightarrow> e \<in> set es \<Longrightarrow> in_entry a e \<Longrightarrow> cell_at es a = Some (attrs e)"
proof (induction es arbitrary: lo)
  case (Cons x es)
  have tail: "covers (unat (EndAddress x) + 1) hi es" using Cons.prems by simp
  show ?case
  proof (cases "e = x")
    case False
    then have e: "e \<in> set es" using Cons.prems by simp
    have "\<not> in_entry a x" using not_in_after [OF tail _ e, of a] Cons.prems(3) by (auto simp: in_entry_def)
    with Cons.IH [OF tail e Cons.prems(3)] show ?thesis by simp
  qed (use Cons.prems in simp)
qed simp

lemma entry_at: "covers lo hi es \<Longrightarrow> lo \<le> a \<Longrightarrow> a < hi \<Longrightarrow> \<exists>e \<in> set es. in_entry a e"
  using cell_at_Some cell_atD by blast

lemma entry_nonempty: "covers lo hi es \<Longrightarrow> e \<in> set es \<Longrightarrow> unat (BaseAddress e) \<le> unat (EndAddress e)"
  by (induction es arbitrary: lo) auto

lemma entry_unique:
  assumes c: "covers lo hi es" and e: "e \<in> set es" "in_entry a e" and d: "d \<in> set es" "in_entry a d"
  shows "d = e"
proof -
  obtain xs ys where es: "es = xs @ e # ys" using e(1) by (meson split_list)
  obtain m where m: "covers lo m xs" "covers m hi (e # ys)" using c es by (auto simp: covers_append)
  have "\<not> in_entry a x" if "x \<in> set xs" for x
    using not_in_before [OF m(1) _ that, of a] e(2) m(2) by (simp add: in_entry_def)
  moreover have "\<not> in_entry a x" if "x \<in> set ys" for x
    using not_in_after [of "unat (EndAddress e) + 1" hi ys a x] e(2) m(2) that by (simp add: in_entry_def)
  ultimately show ?thesis using d es by auto
qed

text \<open>The entries between the links of a range are those that have an address of the range.\<close>

lemma range_split_covers:
  assumes "range_split lo hi b n xs mid ys"
  obtains m1 m2 where "covers lo m1 xs" "covers m1 m2 mid" "covers m2 hi ys" "m1 \<le> b" "b + n \<le> m2" "n > 0 \<Longrightarrow> b < m2"
proof -
  obtain m1 m2 where c: "covers lo m1 xs" "covers m1 m2 mid" "covers m2 hi ys" and mid: "mid \<noteq> []"
    using assms by (auto simp: range_split_def covers_append)
  have "m1 \<le> b" "b + n \<le> m2"
    using assms covers_hd [OF c(2) mid] covers_last [OF c(2) mid] by (auto simp: range_split_def in_entry_def)
  with c show thesis by (intro that [of m1 m2]) auto
qed

lemma mid_meets_range:
  assumes r: "range_split lo hi b n xs mid ys" and n: "0 < n" and e: "e \<in> set mid"
  shows "\<exists>a. b \<le> a \<and> a < b + n \<and> in_entry a e"
proof -
  obtain m1 m2 where c: "covers m1 m2 mid" using r range_split_covers by metis
  have B: "in_entry b (hd mid)" and F: "in_entry (b + n - 1) (last mid)" and mid: "mid \<noteq> []"
    using r by (auto simp: range_split_def)
  obtain us vs where mv: "mid = us @ e # vs" using e by (meson split_list)
  obtain k where k: "covers m1 k us" "covers k m2 (e # vs)" using c mv by (auto simp: covers_append)
  have lo: "b \<le> unat (EndAddress e)"
  proof (cases us)
    case Nil
    with B mv show ?thesis by (simp add: in_entry_def)
  next
    case (Cons u us')
    with B mv have "b \<le> unat (EndAddress u)" by (simp add: in_entry_def)
    moreover have "unat (EndAddress u) + 1 \<le> k" using k(1) Cons covers_le by auto
    ultimately show ?thesis using k(2) by simp
  qed
  have hi: "unat (BaseAddress e) \<le> b + n - 1"
  proof (cases "vs = []")
    case True
    with F mv show ?thesis by (simp add: in_entry_def)
  next
    case False
    obtain j where j: "covers (unat (EndAddress e) + 1) j (butlast vs)" "covers j m2 [last vs]"
      using covers_butlast [OF _ False, of "unat (EndAddress e) + 1" m2] k(2) by auto
    have "j \<le> b + n - 1" using j(2) F mv False by (simp add: in_entry_def)
    with covers_le [OF j(1)] k(2) show ?thesis by simp
  qed
  show ?thesis using lo hi n k(2) by (intro exI [of _ "max b (unat (BaseAddress e))"]) (auto simp: in_entry_def)
qed

lemma range_meets_mid:
  assumes r: "range_split lo hi b n xs mid ys" and a: "b \<le> a" "a < b + n"
  shows "\<exists>e \<in> set mid. in_entry a e \<and> cell_at (xs @ mid @ ys) a = Some (attrs e)"
proof -
  obtain m1 m2 where c: "covers m1 m2 mid" "m1 \<le> b" "b + n \<le> m2" using r range_split_covers by metis
  obtain e where "e \<in> set mid" "in_entry a e" using entry_at [OF c(1), of a] c a by auto
  moreover have "covers lo hi (xs @ mid @ ys)" using r by (simp add: range_split_def)
  ultimately show ?thesis using cell_at_entry by fastforce
qed

text \<open>Statuses that depend on the attributes only.\<close>

definition on_attrs :: "(EFI_GCD_MAP_ENTRY \<Rightarrow> EFI_STATUS) \<Rightarrow> bool" where
  "on_attrs chk \<longleftrightarrow> (\<forall>e. chk e = chk (attrs e))"

definition all_cells :: "(EFI_GCD_MAP_ENTRY \<Rightarrow> EFI_STATUS) \<Rightarrow> EFI_GCD_MAP_ENTRY list \<Rightarrow> nat \<Rightarrow> nat \<Rightarrow> bool" where
  "all_cells chk es b n \<longleftrightarrow> (\<forall>a. b \<le> a \<longrightarrow> a < b + n \<longrightarrow> (\<exists>c. cell_at es a = Some c \<and> \<not> EFI_ERROR (chk c)))"

lemma on_attrs_convert_check: "on_attrs (convert_check op B L A)"
  by (simp add: on_attrs_def convert_check_def)

lemma on_attrs_alloc_check: "on_attrs (CoreAllocateSpaceCheckEntry op mt it)"
  by (simp add: on_attrs_def CoreAllocateSpaceCheckEntry_def)

lemma check_loop_ok: "\<not> EFI_ERROR (check_loop chk es) \<longleftrightarrow> (\<forall>e \<in> set es. \<not> EFI_ERROR (chk e))"
  by (induction es) auto

lemma all_mid_cells:
  assumes "range_split lo hi b n xs mid ys" "0 < n" "on_attrs chk"
  shows "(\<forall>e \<in> set mid. \<not> EFI_ERROR (chk e)) \<longleftrightarrow> all_cells chk (xs @ mid @ ys) b n"
proof -
  have at: "chk e = chk (attrs e)" for e using assms(3) by (simp add: on_attrs_def)
  show ?thesis
  proof
    assume "\<forall>e \<in> set mid. \<not> EFI_ERROR (chk e)"
    then show "all_cells chk (xs @ mid @ ys) b n"
      using range_meets_mid [OF assms(1)] at by (fastforce simp: all_cells_def)
  next
    assume all: "all_cells chk (xs @ mid @ ys) b n"
    show "\<forall>e \<in> set mid. \<not> EFI_ERROR (chk e)"
    proof
      fix e
      assume e: "e \<in> set mid"
      obtain a where a: "b \<le> a" "a < b + n" "in_entry a e" using mid_meets_range [OF assms(1,2) e] by blast
      have "cell_at (xs @ mid @ ys) a = Some (attrs e)"
        using cell_at_entry [of lo hi "xs @ mid @ ys" e a] assms(1) e a(3) by (simp add: range_split_def)
      with all a at show "\<not> EFI_ERROR (chk e)" by (auto simp: all_cells_def)
    qed
  qed
qed

subsection \<open>The conversion of a range\<close>

text \<open>The range begins at the start of an entry or lies inside one entry.\<close>

definition single_cut :: "EFI_GCD_MAP_ENTRY list \<Rightarrow> nat \<Rightarrow> nat \<Rightarrow> bool" where
  "single_cut es b n \<longleftrightarrow> (\<exists>e \<in> set es. in_entry b e \<and> (unat (BaseAddress e) = b \<or> in_entry (b + n - 1) e))"

lemma single_cut_mid:
  assumes r: "range_split lo hi b n xs mid ys" and s: "single_cut (xs @ mid @ ys) b n" and n: "0 < n"
    and c: "covers m1 m2 mid"
  shows "length mid = 1 \<or> b = m1"
proof -
  have mid: "mid \<noteq> []" "in_entry b (hd mid)" "in_entry (b + n - 1) (last mid)" "covers lo hi (xs @ mid @ ys)"
    using r by (auto simp: range_split_def)
  obtain e where e: "e \<in> set (xs @ mid @ ys)" "in_entry b e" "unat (BaseAddress e) = b \<or> in_entry (b + n - 1) e"
    using s by (auto simp: single_cut_def)
  have "e = hd mid" using entry_unique [OF mid(4) _ mid(2) e(1,2)] mid(1) by simp
  show ?thesis
  proof (cases "unat (BaseAddress e) = b")
    case True
    with \<open>e = hd mid\<close> covers_hd [OF c mid(1)] show ?thesis by simp
  next
    case False
    obtain x es where m: "mid = x # es" using mid(1) by (cases mid) auto
    have x: "in_entry (b + n - 1) x" using e(3) False \<open>e = hd mid\<close> m by simp
    have "es = []"
    proof (rule ccontr)
      assume "es \<noteq> []"
      then have "last mid \<in> set es" using m by simp
      then show False
        using not_in_after [of "unat (EndAddress x) + 1" m2 es "b + n - 1"] c m x mid(3) by (auto simp: in_entry_def)
    qed
    with m show ?thesis by simp
  qed
qed

definition updated :: "EFI_GCD_MAP_ENTRY list \<Rightarrow> nat \<Rightarrow> nat \<Rightarrow> (EFI_GCD_MAP_ENTRY \<Rightarrow> EFI_GCD_MAP_ENTRY) \<Rightarrow>
    EFI_GCD_MAP_ENTRY list \<Rightarrow> bool" where
  "updated es b n f es' \<longleftrightarrow> (\<forall>a. cell_at es' a =
     (if b \<le> a \<and> a < b + n then map_option f (cell_at es a) else cell_at es a))"

lemma space_map_simps [simp]:
  "space_map op (set_space_map op es s) = es"
  "space_map op (s\<lparr>Memory := p\<rparr>) = space_map op s"
  "space_map op (s\<lparr>mGcdMemorySpaceLock := l\<rparr>) = space_map op s"
  "space_map op (s\<lparr>mGcdIoSpaceLock := l\<rparr>) = space_map op s"
  by (simp_all add: space_map_def set_space_map_def)

lemma replace_cells:
  assumes xs: "covers 0 m1 xs" and mid: "covers m1 m2 mid" and ys: "covers m2 hi ys"
    and same: "same_cells m1 m2 mid (b @ m @ t)" and b: "covers m1 B b" and m: "covers B F m" and t: "covers F m2 t"
    and f: "keeps_range f"
  shows "covers 0 hi (xs @ b @ map f m @ t @ ys)"
    "cell_at (xs @ b @ map f m @ t @ ys) a =
      (if B \<le> a \<and> a < F then map_option f (cell_at (xs @ mid @ ys) a) else cell_at (xs @ mid @ ys) a)"
proof -
  have cn: "covers 0 B (xs @ b)" "covers B F (map f m)" "covers F hi (t @ ys)" "covers B hi (map f m @ t @ ys)"
    "covers B hi (m @ t @ ys)"
    using xs ys b m t f by (auto simp: covers_append)
  show "covers 0 hi (xs @ b @ map f m @ t @ ys)" using cn(1,4) covers_append [of 0 hi "xs @ b"] by auto
  have bmt: "covers m1 m2 (b @ m @ t)" "cell_at (b @ m @ t) x = cell_at mid x" for x
    using same mid by (auto simp: same_cells_def)
  have "covers m1 hi (mid @ ys)" "covers m1 hi ((b @ m @ t) @ ys)" using mid bmt(1) ys covers_append by blast+
  then have "cell_at (xs @ mid @ ys) a = cell_at (xs @ (b @ m @ t) @ ys) a"
    using cell_at_append [OF xs, of hi "mid @ ys" a] cell_at_append [OF xs, of hi "(b @ m @ t) @ ys" a]
      cell_at_append [OF mid ys, of a] cell_at_append [OF bmt(1) ys, of a] bmt(2) by simp
  then show "cell_at (xs @ b @ map f m @ t @ ys) a =
      (if B \<le> a \<and> a < F then map_option f (cell_at (xs @ mid @ ys) a) else cell_at (xs @ mid @ ys) a)"
    using cell_at_append [OF cn(1,4), of a] cell_at_append [OF cn(1,5), of a] cell_at_append [OF cn(2,3), of a]
      cell_at_append [OF m cn(3), of a] cell_at_map [OF f, of m a] by auto
qed

lemma convert_range_ok:
  assumes r: "range_split 0 hi (unat B) (unat L) xs mid ys" and map: "space_map op s = xs @ mid @ ys"
    and L: "L \<noteq> 0" and f: "keeps_range f" and hi: "unat B + unat L \<le> hi"
    and cut: "AssertEnabled E \<longrightarrow> single_cut (space_map op s) (unat B) (unat L)"
  shows "\<exists>es p. convert_range E op f B L (length xs, length xs + length mid - 1) s =
      Some (EFI_SUCCESS, (set_space_map op es s)\<lparr>Memory := p\<rparr>) \<and>
    covers 0 hi es \<and> updated (space_map op s) (unat B) (unat L) f es"
proof -
  obtain m1 m2 where c: "covers 0 m1 xs" "covers m1 m2 mid" "covers m2 hi ys" using r range_split_covers by metis
  have mid: "mid \<noteq> []" "in_entry (unat B) (hd mid)" "in_entry (unat B + unat L - 1) (last mid)"
    "covers 0 hi (xs @ mid @ ys)"
    using r by (auto simp: range_split_def)
  have n: "0 < unat L" using L by (simp add: unat_gt_0)
  have fin: "unat (B + L - 1) = unat B + unat L - 1"
    using covers_bound [OF mid(4)] mid(1) hi L by (intro unat_end) auto
  have en: "AssertEnabled E \<longrightarrow> length mid = 1 \<or> unat B = m1" using single_cut_mid [OF r _ n c(2)] cut map by simp
  have B: "unat B \<le> unat (B + L - 1)" "in_entry (unat (B + L - 1)) (last mid)" using n fin mid by auto
  obtain b m t where m: "convert_loop (AssertEnabled E) f B L False mid = Some (b, map f m, t, b \<noteq> [])"
    "same_cells m1 m2 mid (b @ m @ t)" "covers m1 (unat B) b" "covers (unat B) (unat (B + L - 1) + 1) m"
    "covers (unat (B + L - 1) + 1) m2 t"
    using convert_loop_range [OF c(2) mid(1) L mid(2) B(2,1) en, of f] by blast
  have len: "length b \<le> 1" using m(1) by (cases mid) (auto simp: CoreInsertGcdMapEntry_def bind_eq_Some_conv split: if_splits)
  obtain st es p where k: "CoreCleanupGcdMapEntry E (t \<noteq> []) (b \<noteq> []) (b @ rev xs) (map f m) (t @ ys) (Memory s) = (st, es, p)"
    by (metis prod.exhaust)
  have rb: "rev b = b" using len by (cases b) auto
  have F: "unat (B + L - 1) + 1 = unat B + unat L" using fin n by simp
  define new where "new = xs @ b @ map f m @ t @ ys"
  have st: "st = EFI_SUCCESS" "same_cells 0 hi new es"
    using cleanup_same_cells [OF k, of 0 hi] rb by (simp_all add: new_def)
  note new_cell = replace_cells [OF c m(2-5) f, unfolded F, folded new_def]
  with st(2) have "covers 0 hi es" "\<And>a. cell_at es a = cell_at new a" by (auto simp: same_cells_def)
  moreover have "convert_range E op f B L (length xs, length xs + length mid - 1) s =
      Some (EFI_SUCCESS, (set_space_map op es s)\<lparr>Memory := p\<rparr>)"
    using m(1) k st(1) links_mid [OF mid(1), of xs ys] drop_mid [OF mid(1), of xs ys]
    by (simp add: convert_range_def map)
  ultimately show ?thesis using new_cell by (auto simp: updated_def map)
qed

subsection \<open>Locks\<close>

text \<open>The operations on one of the two spaces, as the flags of the operation code say.\<close>

definition space_op :: "uint64 \<Rightarrow> bool" where
  "space_op op \<longleftrightarrow> (op AND GCD_MEMORY_SPACE_OPERATION \<noteq> 0) \<noteq> (op AND GCD_IO_SPACE_OPERATION \<noteq> 0)"

definition unlocked :: "'p gcd \<Rightarrow> bool" where
  "unlocked s \<longleftrightarrow> mGcdMemorySpaceLock s = EfiLockReleased \<and> mGcdIoSpaceLock s = EfiLockReleased"

definition locked_by :: "uint64 \<Rightarrow> 'p gcd \<Rightarrow> 'p gcd" where
  "locked_by op s = (if op AND GCD_MEMORY_SPACE_OPERATION \<noteq> 0 then s\<lparr>mGcdMemorySpaceLock := EfiLockAcquired\<rparr>
     else s\<lparr>mGcdIoSpaceLock := EfiLockAcquired\<rparr>)"

lemma space_op_codes [simp]:
  "space_op GCD_ADD_MEMORY_OPERATION" "space_op GCD_ALLOCATE_MEMORY_OPERATION" "space_op GCD_FREE_MEMORY_OPERATION"
  "space_op GCD_REMOVE_MEMORY_OPERATION" "space_op GCD_SET_ATTRIBUTES_MEMORY_OPERATION" "space_op GCD_ADD_IO_OPERATION"
  "space_op GCD_ALLOCATE_IO_OPERATION" "space_op GCD_FREE_IO_OPERATION" "space_op GCD_REMOVE_IO_OPERATION"
  by (simp_all add: space_op_def)

lemma enter_space_ok: "space_op op \<Longrightarrow> unlocked s \<Longrightarrow> enter_space E op s = Some (locked_by op s)"
  by (auto simp: enter_space_def space_op_def unlocked_def locked_by_def CoreAcquireGcdMemoryLock_def CoreAcquireGcdIoLock_def)

lemma leave_space_ok:
  "space_op op \<Longrightarrow> unlocked s \<Longrightarrow>
   leave_space E op ((set_space_map op es (locked_by op s))\<lparr>Memory := p\<rparr>) = Some ((set_space_map op es s)\<lparr>Memory := p\<rparr>)"
  by (cases s) (auto simp: leave_space_def space_op_def unlocked_def locked_by_def set_space_map_def
      CoreReleaseGcdMemoryLock_def CoreReleaseGcdIoLock_def)

lemma locked_by_simps [simp]:
  "space_map op (locked_by op s) = space_map op s" "Memory (locked_by op s) = Memory s"
  by (simp_all add: locked_by_def space_map_def)

lemma set_space_map_same: "set_space_map op (space_map op s) s = s"
  by (simp add: set_space_map_def space_map_def)

lemma set_space_map_same' [simp]: "set_space_map op (space_map op s) (locked_by op s) = locked_by op s"
  using set_space_map_same [of op "locked_by op s"] by simp

lemma locked_by_memory [simp]: "(locked_by op s)\<lparr>Memory := Memory s\<rparr> = locked_by op s"
  by (cases s) (simp add: locked_by_def)

lemma unlocked_update [simp]: "unlocked ((set_space_map op es s)\<lparr>Memory := p\<rparr>) = unlocked s"
  by (simp add: unlocked_def set_space_map_def)

lemma set_space_map_memory [simp]: "set_space_map op es (s\<lparr>Memory := p\<rparr>) = (set_space_map op es s)\<lparr>Memory := p\<rparr>"
  by (simp add: set_space_map_def)

lemma memory_twice [simp]: "s\<lparr>Memory := p, Memory := q\<rparr> = s\<lparr>Memory := q\<rparr>"
  by simp

subsection \<open>\<open>CoreConvertSpace\<close>\<close>

definition entries_available :: "'p gcd_env \<Rightarrow> 'p \<Rightarrow> bool" where
  "entries_available E p \<longleftrightarrow> fst (AllocateEntry E p) \<and> fst (AllocateEntry E (snd (AllocateEntry E p)))"

lemma CoreAllocateGcdMapEntry_result:
  "\<exists>p. CoreAllocateGcdMapEntry E s =
     (if entries_available E (Memory s) then EFI_SUCCESS else EFI_OUT_OF_RESOURCES, s\<lparr>Memory := p\<rparr>)"
  by (auto simp: CoreAllocateGcdMapEntry_def entries_available_def Let_def split: prod.splits)

text \<open>What a conversion of \<open>n\<close> addresses from \<open>b\<close> on promises: the status tells whether every address of the
  range passes the check, the work entries can be had and the CPU accepts the attributes; on success exactly
  the addresses of the range are converted, on failure the map is what it was.\<close>

definition convert_spec ::
    "nat \<Rightarrow> bool \<Rightarrow> (EFI_GCD_MAP_ENTRY \<Rightarrow> EFI_STATUS) \<Rightarrow> (EFI_GCD_MAP_ENTRY \<Rightarrow> EFI_GCD_MAP_ENTRY) \<Rightarrow> nat \<Rightarrow> nat \<Rightarrow>
     EFI_GCD_MAP_ENTRY list \<Rightarrow> EFI_STATUS \<Rightarrow> EFI_GCD_MAP_ENTRY list \<Rightarrow> bool" where
  "convert_spec hi resources chk f b n es st es' \<longleftrightarrow> covers 0 hi es' \<and>
     (st = EFI_SUCCESS \<longleftrightarrow> all_cells chk es b n \<and> resources) \<and>
     (if st = EFI_SUCCESS then updated es b n f es' else es' = es)"

lemma convert_body_ok:
  assumes cov: "covers 0 hi (space_map op s)" and L: "L \<noteq> 0" and inside: "unat B + unat L \<le> hi"
    and cut: "AssertEnabled E \<longrightarrow> single_cut (space_map op s) (unat B) (unat L)"
  shows "\<exists>st es p. convert_body E op mt it B L cs ats s = Some (st, (set_space_map op es s)\<lparr>Memory := p\<rparr>) \<and>
    convert_spec hi (entries_available E (Memory s) \<and> \<not> EFI_ERROR (set_cpu_attributes E op B L ats))
      (convert_check op B L ats) (convert_entry op mt it cs ats) (unat B) (unat L) (space_map op s) st es"
    (is "\<exists>st es p. ?run st es p \<and> ?spec st es")
proof -
  let ?chk = "convert_check op B L ats" and ?es = "space_map op s"
  obtain xs mid ys where r: "?es = xs @ mid @ ys" "range_split 0 hi (unat B) (unat L) xs mid ys"
    and search: "CoreSearchGcdMapEntry (AssertEnabled E) B L ?es = Some (Inr (length xs, length xs + length mid - 1))"
    using CoreSearch_inside [OF cov L _ inside] by (metis le0)
  have n: "0 < unat L" using L by (simp add: unat_gt_0)
  have mid: "mid \<noteq> []" using r(2) by (simp add: range_split_def)
  have chk: "EFI_ERROR (check_loop ?chk mid) \<longleftrightarrow> \<not> all_cells ?chk ?es (unat B) (unat L)"
    using all_mid_cells [OF r(2) n on_attrs_convert_check [of op B L ats]] check_loop_ok [of ?chk mid] r(1) by auto
  obtain p1 where alloc: "CoreAllocateGcdMapEntry E s =
      (if entries_available E (Memory s) then EFI_SUCCESS else EFI_OUT_OF_RESOURCES, s\<lparr>Memory := p1\<rparr>)"
    using CoreAllocateGcdMapEntry_result [of E s] by metis
  have fail: "?thesis" if "convert_body E op mt it B L cs ats s = Some (st, s\<lparr>Memory := p\<rparr>)" "st \<noteq> EFI_SUCCESS"
    "\<not> (all_cells ?chk ?es (unat B) (unat L) \<and> entries_available E (Memory s) \<and> \<not> EFI_ERROR (set_cpu_attributes E op B L ats))" for st p
    using that cov by (intro exI [of _ st] exI [of _ ?es] exI [of _ p]) (simp_all add: set_space_map_same convert_spec_def)
  have body: "convert_body E op mt it B L cs ats s =
      (if EFI_ERROR (check_loop ?chk mid) then Some (check_loop ?chk mid, s)
       else if \<not> entries_available E (Memory s) then Some (EFI_OUT_OF_RESOURCES, s\<lparr>Memory := p1\<rparr>)
       else if EFI_ERROR (set_cpu_attributes E op B L ats) then Some (set_cpu_attributes E op B L ats, s\<lparr>Memory := p1\<rparr>)
       else convert_range E op (convert_entry op mt it cs ats) B L (length xs, length xs + length mid - 1) (s\<lparr>Memory := p1\<rparr>))"
    using search alloc links_mid [OF mid, of xs ys] r(1) by (simp add: convert_body_def)
  consider "EFI_ERROR (check_loop ?chk mid)" | "\<not> EFI_ERROR (check_loop ?chk mid)" "\<not> entries_available E (Memory s)"
    | "\<not> EFI_ERROR (check_loop ?chk mid)" "entries_available E (Memory s)" "EFI_ERROR (set_cpu_attributes E op B L ats)"
    | "\<not> EFI_ERROR (check_loop ?chk mid)" "entries_available E (Memory s)" "\<not> EFI_ERROR (set_cpu_attributes E op B L ats)" by blast
  then show ?thesis
  proof cases
    case 1
    then show ?thesis using body chk fail [of "check_loop ?chk mid" "Memory s"] by (auto simp: EFI_ERROR_def)
  next
    case 2
    then show ?thesis using body fail [of EFI_OUT_OF_RESOURCES p1] by simp
  next
    case 3
    then show ?thesis using body fail [of "set_cpu_attributes E op B L ats" p1] by (auto simp: EFI_ERROR_def)
  next
    case 4
    have "\<exists>es p. convert_range E op (convert_entry op mt it cs ats) B L (length xs, length xs + length mid - 1) (s\<lparr>Memory := p1\<rparr>) =
        Some (EFI_SUCCESS, (set_space_map op es (s\<lparr>Memory := p1\<rparr>))\<lparr>Memory := p\<rparr>) \<and> covers 0 hi es \<and>
        updated (space_map op (s\<lparr>Memory := p1\<rparr>)) (unat B) (unat L) (convert_entry op mt it cs ats) es"
      using r cut by (intro convert_range_ok [OF r(2) _ L keeps_range_convert_entry inside]) simp_all
    with 4 body chk show ?thesis by (auto simp: convert_spec_def)
  qed
qed

lemma CoreConvertSpace_ok:
  assumes op: "space_op op" and free: "unlocked s"
    and cov: "covers 0 hi (space_map op s)" and L: "L \<noteq> 0" and inside: "unat B + unat L \<le> hi"
    and cut: "AssertEnabled E \<longrightarrow> single_cut (space_map op s) (unat B) (unat L)"
  shows "\<exists>st es p. CoreConvertSpace E op mt it B L cs ats s = Some (st, (set_space_map op es s)\<lparr>Memory := p\<rparr>) \<and>
    convert_spec hi (entries_available E (Memory s) \<and> \<not> EFI_ERROR (set_cpu_attributes E op B L ats))
      (convert_check op B L ats) (convert_entry op mt it cs ats) (unat B) (unat L) (space_map op s) st es"
proof -
  obtain st es p where "convert_body E op mt it B L cs ats (locked_by op s) =
      Some (st, (set_space_map op es (locked_by op s))\<lparr>Memory := p\<rparr>)"
    and spec: "convert_spec hi (entries_available E (Memory s) \<and> \<not> EFI_ERROR (set_cpu_attributes E op B L ats))
      (convert_check op B L ats) (convert_entry op mt it cs ats) (unat B) (unat L) (space_map op s) st es"
    using convert_body_ok [of hi op "locked_by op s" L B E mt it cs ats] L cov inside cut by auto
  then have "CoreConvertSpace E op mt it B L cs ats s = Some (st, (set_space_map op es s)\<lparr>Memory := p\<rparr>)"
    using L by (simp add: CoreConvertSpace_def enter_space_ok [OF op free] leave_space_ok [OF op free])
  with spec show ?thesis by blast
qed

lemma CoreConvertSpace_outside:
  assumes op: "space_op op" and free: "unlocked s"
    and cov: "covers 0 hi (space_map op s)" and L: "L \<noteq> 0" and outside: "hi < unat B + unat L" "unat B + unat L \<le> 2 ^ 64"
  shows "CoreConvertSpace E op mt it B L cs ats s = Some (EFI_UNSUPPORTED, s)"
proof -
  have "leave_space E op (locked_by op s) = Some s"
    using leave_space_ok [OF op free, where E = E and es = "space_map op s" and p = "Memory s"] by (simp add: set_space_map_same)
  then show ?thesis
    using CoreSearch_outside [OF cov L outside] enter_space_ok [OF op free, of E] L
    by (simp add: CoreConvertSpace_def convert_body_def)
qed

subsection \<open>The assertion on the work entries\<close>

lemma convert_loop_asserts:
  assumes "mid = e # e2 # es" "BaseAddress e < B" "L \<noteq> 0" "EndAddress e \<le> B + L - 1"
  shows "convert_loop True f B L False mid = None"
  using assms by (auto simp: CoreInsertGcdMapEntry_def ASSERT_def)

lemma convert_range_asserts:
  assumes r: "range_split 0 hi (unat B) (unat L) xs mid ys" and map: "space_map op s = xs @ mid @ ys"
    and L: "L \<noteq> 0" and hi: "unat B + unat L \<le> hi"
    and en: "AssertEnabled E" and cut: "\<not> single_cut (space_map op s) (unat B) (unat L)"
  shows "convert_range E op f B L (length xs, length xs + length mid - 1) s = None"
proof -
  obtain m1 m2 where c: "covers 0 m1 xs" "covers m1 m2 mid" using r range_split_covers by metis
  have mid: "mid \<noteq> []" "in_entry (unat B) (hd mid)" "in_entry (unat B + unat L - 1) (last mid)" "covers 0 hi (xs @ mid @ ys)"
    using r by (auto simp: range_split_def)
  have fin: "unat (B + L - 1) = unat B + unat L - 1"
    using covers_bound [OF mid(4)] mid(1) hi L by (intro unat_end) auto
  have hd: "unat (BaseAddress (hd mid)) \<noteq> unat B" "\<not> in_entry (unat B + unat L - 1) (hd mid)"
    using cut mid map by (auto simp: single_cut_def)
  then obtain e e2 es where m: "mid = e # e2 # es"
    using mid by (cases mid; cases "tl mid") auto
  have "BaseAddress e < B" using hd(1) mid(2) m by (simp add: in_entry_def word_less_nat_alt)
  moreover have "EndAddress e \<le> B + L - 1"
    using hd(2) mid(2) m L fin unat_gt_0 [of L] by (auto simp: in_entry_def word_le_nat_alt)
  ultimately have "convert_loop True f B L False mid = None" using convert_loop_asserts [OF m] L by blast
  with en show ?thesis using links_mid [OF mid(1), of xs ys] by (simp add: convert_range_def map)
qed

lemma CoreConvertSpace_asserts:
  assumes op: "space_op op" and free: "unlocked s" and cov: "covers 0 hi (space_map op s)" and L: "L \<noteq> 0"
    and inside: "unat B + unat L \<le> hi" and en: "AssertEnabled E"
    and cut: "\<not> single_cut (space_map op s) (unat B) (unat L)"
    and ok: "all_cells (convert_check op B L ats) (space_map op s) (unat B) (unat L)"
      "entries_available E (Memory s)" "\<not> EFI_ERROR (set_cpu_attributes E op B L ats)"
  shows "CoreConvertSpace E op mt it B L cs ats s = None"
proof -
  let ?s = "locked_by op s"
  obtain xs mid ys where r: "space_map op ?s = xs @ mid @ ys" "range_split 0 hi (unat B) (unat L) xs mid ys"
    and search: "CoreSearchGcdMapEntry True B L (space_map op ?s) = Some (Inr (length xs, length xs + length mid - 1))"
    using CoreSearch_inside [of 0 hi "space_map op ?s" L B] cov L inside by (metis le0 locked_by_simps(1))
  have mid: "mid \<noteq> []" using r(2) by (simp add: range_split_def)
  have n: "0 < unat L" using L by (simp add: unat_gt_0)
  have "\<not> EFI_ERROR (check_loop (convert_check op B L ats) mid)"
    using all_mid_cells [OF r(2) n on_attrs_convert_check [of op B L ats]] check_loop_ok [of "convert_check op B L ats" mid]
      r(1) ok(1) by auto
  moreover obtain p1 where "CoreAllocateGcdMapEntry E ?s = (EFI_SUCCESS, ?s\<lparr>Memory := p1\<rparr>)"
    using CoreAllocateGcdMapEntry_result [of E ?s] ok(2) by auto
  moreover have "convert_range E op f B L (length xs, length xs + length mid - 1) (?s\<lparr>Memory := p1\<rparr>) = None" for f p1
    using r cut by (intro convert_range_asserts [OF r(2) _ L inside en]) simp_all
  ultimately have "convert_body E op mt it B L cs ats ?s = None"
    using search en r(1) ok(3) links_mid [OF mid, of xs ys] by (simp add: convert_body_def)
  then show ?thesis using L by (simp add: CoreConvertSpace_def enter_space_ok [OF op free])
qed

subsection \<open>Ranges that wrap around\<close>

text \<open>A memory space that is one entry of nonexistent memory, and the map after memory has been added to it
  with an end address that wraps around.\<close>

definition empty_space :: "uint64 \<Rightarrow> EFI_GCD_MAP_ENTRY list" where
  "empty_space limit = [mGcdMemorySpaceMapEntryTemplate\<lparr>EndAddress := limit\<rparr>]"

definition wrapped_map :: "uint64 \<Rightarrow> int \<Rightarrow> uint64 \<Rightarrow> uint64 \<Rightarrow> EFI_GCD_MAP_ENTRY list" where
  "wrapped_map limit mt B F =
    [mGcdMemorySpaceMapEntryTemplate\<lparr>EndAddress := B - 1\<rparr>,
     mGcdMemorySpaceMapEntryTemplate\<lparr>BaseAddress := B, EndAddress := F, GcdMemoryType := mt, Capabilities := EFI_MEMORY_RUNTIME\<rparr>,
     mGcdMemorySpaceMapEntryTemplate\<lparr>BaseAddress := F + 1, EndAddress := limit\<rparr>]"

lemma wrapped_not_covers: "F < B \<Longrightarrow> \<not> covers 0 hi (wrapped_map limit mt B F)"
  by (auto simp: wrapped_map_def word_less_nat_alt mGcdMemorySpaceMapEntryTemplate_def)

lemma CoreInternalAddMemorySpace_wraps:
  assumes "mGcdMemorySpaceMap s = empty_space limit" "unlocked s" "entries_available E (Memory s)"
    and "0 < mt" "mt < 3" "B \<le> limit" "L \<noteq> 0" "B + L - 1 < B"
  shows "\<exists>p. CoreInternalAddMemorySpace E mt B L 0 s =
    Some (EFI_SUCCESS, s\<lparr>mGcdMemorySpaceMap := wrapped_map limit mt B (B + L - 1), Memory := p\<rparr>)"
proof -
  let ?t = mGcdMemorySpaceMapEntryTemplate
  have le: "B + L - 1 \<le> limit" "B + L - 1 < limit" "0 < B" using assms(6,8) by (auto simp: word_gt_0)
  have t [simp]: "BaseAddress ?t = 0" "GcdMemoryType ?t = 0" "ImageHandle ?t = 0"
    by (simp_all add: mGcdMemorySpaceMapEntryTemplate_def)
  have search: "CoreSearchGcdMapEntry (AssertEnabled E) B L (empty_space limit) = Some (Inr (0, 0))"
    using assms(6,7) le by (simp add: CoreSearchGcdMapEntry_def empty_space_def)
  let ?f = "convert_entry GCD_ADD_MEMORY_OPERATION mt 0 0 0"
  have loop: "convert_loop (AssertEnabled E) ?f B L False (empty_space limit) =
      Some ([?t\<lparr>EndAddress := B - 1\<rparr>], [?t\<lparr>BaseAddress := B, EndAddress := B + L - 1, GcdMemoryType := mt, Capabilities := EFI_MEMORY_RUNTIME\<rparr>],
        [?t\<lparr>BaseAddress := B + L, EndAddress := limit\<rparr>], True)"
    using assms(5,7) le by (simp add: empty_space_def CoreInsertGcdMapEntry_def convert_entry_def mGcdMemorySpaceMapEntryTemplate_def)
  define u where "u = s\<lparr>mGcdMemorySpaceLock := EfiLockAcquired\<rparr>"
  have u: "mGcdMemorySpaceMap u = empty_space limit" "Memory u = Memory s" using assms(1) by (simp_all add: u_def)
  obtain p1 where alloc: "CoreAllocateGcdMapEntry E u = (EFI_SUCCESS, u\<lparr>Memory := p1\<rparr>)"
    using CoreAllocateGcdMapEntry_result [of E u] assms(3) u by auto
  have clean: "CoreCleanupGcdMapEntry E True True [?t\<lparr>EndAddress := B - 1\<rparr>]
      [?t\<lparr>BaseAddress := B, EndAddress := B + L - 1, GcdMemoryType := mt, Capabilities := EFI_MEMORY_RUNTIME\<rparr>]
      [?t\<lparr>BaseAddress := B + L, EndAddress := limit\<rparr>] p1 = (EFI_SUCCESS, wrapped_map limit mt B (B + L - 1), p1)"
    by (simp add: CoreCleanupGcdMapEntry_def CoreMergeGcdMapEntry_def wrapped_map_def mGcdMemorySpaceMapEntryTemplate_def)
  have "convert_body E GCD_ADD_MEMORY_OPERATION mt 0 B L 0 0 u =
      Some (EFI_SUCCESS, u\<lparr>mGcdMemorySpaceMap := wrapped_map limit mt B (B + L - 1), Memory := p1\<rparr>)"
    using search alloc loop clean u(1)
    by (simp add: convert_body_def space_map_def set_space_map_def links_def empty_space_def convert_check_def
        set_cpu_attributes_def convert_range_def)
  then have "CoreInternalAddMemorySpace E mt B L 0 s =
      Some (EFI_SUCCESS, s\<lparr>mGcdMemorySpaceMap := wrapped_map limit mt B (B + L - 1), Memory := p1\<rparr>)"
    using assms(2,4,5,7)
    by (cases s) (simp add: CoreInternalAddMemorySpace_def CoreConvertSpace_def enter_space_def leave_space_def unlocked_def u_def
        CoreAcquireGcdMemoryLock_def CoreReleaseGcdMemoryLock_def)
  then show ?thesis by blast
qed

end
