(* ===== verification/GcdAlloc.thy ===== *)
theory GcdAlloc
  imports GcdConvert
begin

section \<open>Allocating a range of an address space\<close>

text \<open>
  The search of \<open>CoreAllocateSpace\<close>: it ends, what it finds is aligned, below the limit and free, and the
  search from the bottom up finds the lowest such range or there is none. The bounds \<open>hi \<le> 2 ^ 63\<close> and
  \<open>unat L \<le> 2 ^ 63\<close> keep the sums of the source from wrapping around.
\<close>

subsection \<open>Suitable ranges\<close>

definition suitable ::
    "(EFI_GCD_MAP_ENTRY \<Rightarrow> EFI_STATUS) \<Rightarrow> EFI_GCD_MAP_ENTRY list \<Rightarrow> nat \<Rightarrow> nat \<Rightarrow> nat \<Rightarrow> nat \<Rightarrow> bool" where
  "suitable chk es al n mx a \<longleftrightarrow> 2 ^ al dvd a \<and> a + n - 1 \<le> mx \<and> all_cells chk es a n"

lemma all_cells_inside:
  assumes "all_cells chk es a n" "covers lo hi es" "0 < n"
  shows "a + n \<le> hi"
proof -
  obtain c where "cell_at es (a + n - 1) = Some c"
    using assms by (auto simp: all_cells_def dest: spec [of _ "a + n - 1"])
  then have "a + n - 1 < hi" using cell_at_None [OF assms(2), of "a + n - 1"] by (cases "a + n - 1 < hi") auto
  then show ?thesis using assms(3) by simp
qed

lemma all_cells_fails:
  assumes "covers lo hi es" "e \<in> set es" "in_entry x e" "EFI_ERROR (chk e)" "on_attrs chk" "a \<le> x" "x < a + n"
  shows "\<not> all_cells chk es a n"
proof -
  have "cell_at es x = Some (attrs e)" using cell_at_entry assms(1-3) by blast
  moreover have "EFI_ERROR (chk (attrs e))" using assms(4,5) by (simp add: on_attrs_def)
  ultimately show ?thesis using assms(6,7) by (auto simp: all_cells_def)
qed

lemma covers_tail:
  assumes "covers lo hi es" "i < length es"
  shows "covers (unat (EndAddress (es ! i)) + 1) hi (drop (Suc i) es)"
proof -
  have "covers lo hi (take i es @ es ! i # drop (Suc i) es)" using assms by (simp flip: id_take_nth_drop)
  then show ?thesis by (auto simp: covers_append)
qed

lemma covers_nth_next:
  assumes "covers lo hi es" "i < length es"
  shows "if i + 1 < length es then unat (BaseAddress (es ! (i + 1))) = unat (EndAddress (es ! i)) + 1
    else unat (EndAddress (es ! i)) + 1 = hi"
proof -
  have "covers (unat (EndAddress (es ! i)) + 1) hi (drop (Suc i) es)" by (rule covers_tail [OF assms])
  moreover have "drop (Suc i) es = (if i + 1 < length es then es ! (i + 1) # drop (i + 2) es else [])"
    by (simp add: Cons_nth_drop_Suc)
  ultimately show ?thesis by (simp split: if_splits)
qed

lemma covers_nth_order:
  assumes "covers lo hi es" "i < j" "j < length es"
  shows "unat (EndAddress (es ! i)) < unat (BaseAddress (es ! j))"
proof -
  have tail: "covers (unat (EndAddress (es ! i)) + 1) hi (drop (Suc i) es)" using assms by (intro covers_tail) auto
  have j: "es ! j \<in> set (drop (Suc i) es)"
    using assms by (auto simp: in_set_conv_nth intro!: exI [of _ "j - Suc i"])
  have "in_entry (unat (BaseAddress (es ! j))) (es ! j)"
    using entry_nonempty [OF tail j] by (simp add: in_entry_def)
  then show ?thesis using not_in_after [OF tail _ j, of "unat (BaseAddress (es ! j))"] by fastforce
qed

lemma first_failing_Some:
  "first_failing chk i es = Some j \<Longrightarrow> \<exists>k < length es. j = i + k \<and> EFI_ERROR (chk (es ! k))"
proof (induction es arbitrary: i)
  case (Cons e es)
  show ?case
  proof (cases "EFI_ERROR (chk e)")
    case True
    with Cons.prems show ?thesis by (intro exI [of _ 0]) simp
  next
    case False
    with Cons.prems Cons.IH [of "i + 1"] obtain k where "k < length es" "j = i + 1 + k" "EFI_ERROR (chk (es ! k))" by auto
    then show ?thesis by (intro exI [of _ "Suc k"]) simp
  qed
qed simp

lemma first_failing_None: "first_failing chk i es = None \<longleftrightarrow> (\<forall>e \<in> set es. \<not> EFI_ERROR (chk e))"
  by (induction es arbitrary: i) auto

subsection \<open>A candidate\<close>

text \<open>Checking the range of a candidate: either it is free everywhere, or there is an entry that fails the check
  and has an address of the range.\<close>

lemma candidate_checked:
  assumes cov: "covers 0 hi es" and L: "L \<noteq> 0" and inside: "unat B + unat L \<le> hi" and chk: "on_attrs chk"
    and search: "CoreSearchGcdMapEntry en B L es = Some (Inr l)"
  shows "case first_failing chk (fst l) (links l es) of
      None \<Rightarrow> all_cells chk es (unat B) (unat L)
    | Some j \<Rightarrow> j < length es \<and> EFI_ERROR (chk (es ! j)) \<and>
        (\<exists>x. in_entry x (es ! j) \<and> unat B \<le> x \<and> x < unat B + unat L)"
proof -
  obtain xs mid ys where r: "es = xs @ mid @ ys" "range_split 0 hi (unat B) (unat L) xs mid ys"
    and s: "CoreSearchGcdMapEntry en B L es = Some (Inr (length xs, length xs + length mid - 1))"
    using CoreSearch_inside [OF cov L _ inside] by (metis le0)
  have l: "l = (length xs, length xs + length mid - 1)" using s search by simp
  have mid: "mid \<noteq> []" using r(2) by (simp add: range_split_def)
  have links: "links l es = mid" using links_mid [OF mid, of xs ys] r(1) l by simp
  have n: "0 < unat L" using L by (simp add: unat_gt_0)
  show ?thesis
  proof (cases "first_failing chk (fst l) mid")
    case None
    then have "all_cells chk es (unat B) (unat L)"
      using all_mid_cells [OF r(2) n chk] r(1) first_failing_None by auto
    with None show ?thesis unfolding links by simp
  next
    case (Some j)
    then obtain k where k: "k < length mid" "j = length xs + k" "EFI_ERROR (chk (mid ! k))"
      using first_failing_Some l by fastforce
    have j: "es ! j = mid ! k" "j < length es" using k r(1) by (simp_all add: nth_append)
    obtain x where "unat B \<le> x" "x < unat B + unat L" "in_entry x (mid ! k)"
      using mid_meets_range [OF r(2) n, of "mid ! k"] k(1) by auto
    with Some k(3) j show ?thesis unfolding links by auto
  qed
qed

lemma search_beyond: "covers 0 hi es \<Longrightarrow> L \<noteq> 0 \<Longrightarrow> hi \<le> unat B \<Longrightarrow> CoreSearchGcdMapEntry en B L es = Some (Inl EFI_NOT_FOUND)"
  using search_skip [of es B L 0 "[]"] not_in_before [of 0 hi es "unat B"] by (simp add: CoreSearchGcdMapEntry_def)

subsection \<open>The search from the bottom up\<close>

text \<open>The invariant of the loop. While it runs, no suitable range starts below the entry it is at; when it is left,
  the result is the lowest suitable range or there is none.\<close>

definition lowest_inv ::
    "bool \<Rightarrow> (EFI_GCD_MAP_ENTRY \<Rightarrow> EFI_STATUS) \<Rightarrow> EFI_GCD_MAP_ENTRY list \<Rightarrow> nat \<Rightarrow> uint64 \<Rightarrow> nat \<Rightarrow> alloc_state \<Rightarrow> bool" where
  "lowest_inv en chk es al L mx s = (case s of (Link, B, r) \<Rightarrow>
     (case r of
        None \<Rightarrow> (case Link of
            None \<Rightarrow> \<forall>a. \<not> suitable chk es al (unat L) mx a
          | Some i \<Rightarrow> i < length es \<and> (\<forall>a. suitable chk es al (unat L) mx a \<longrightarrow> unat (BaseAddress (es ! i)) \<le> a))
      | Some (Inl st) \<Rightarrow> st = EFI_NOT_FOUND \<and> (\<forall>a. \<not> suitable chk es al (unat L) mx a)
      | Some (Inr l) \<Rightarrow> suitable chk es al (unat L) mx (unat B) \<and> CoreSearchGcdMapEntry en B L es = Some (Inr l) \<and>
          (\<forall>a. suitable chk es al (unat L) mx a \<longrightarrow> unat B \<le> a)))"

definition up_measure :: "EFI_GCD_MAP_ENTRY list \<Rightarrow> alloc_state \<Rightarrow> nat" where
  "up_measure es s = (case s of (Link, B, r) \<Rightarrow>
     if r \<noteq> None then 0 else case Link of None \<Rightarrow> 0 | Some i \<Rightarrow> length es - i)"

lemma skip_failing:
  assumes cov: "covers 0 hi es" and chk: "on_attrs chk" and i: "i < length es" and n: "0 < n"
    and bad: "EFI_ERROR (chk (es ! i))"
    and low: "\<forall>a. suitable chk es al n mx a \<longrightarrow> unat (BaseAddress (es ! i)) \<le> a"
  shows "case next_link False (length es) i of
      None \<Rightarrow> \<forall>a. \<not> suitable chk es al n mx a
    | Some j \<Rightarrow> j = i + 1 \<and> j < length es \<and> (\<forall>a. suitable chk es al n mx a \<longrightarrow> unat (BaseAddress (es ! j)) \<le> a)"
proof -
  have above: "unat (EndAddress (es ! i)) + 1 \<le> a" if a: "suitable chk es al n mx a" for a
  proof (rule ccontr)
    assume "\<not> ?thesis"
    with low a have "in_entry a (es ! i)" by (simp add: in_entry_def)
    then have "\<not> all_cells chk es a n" using all_cells_fails [OF cov _ _ bad chk] i n by simp
    with a show False by (simp add: suitable_def)
  qed
  have hi: "a < hi" if "suitable chk es al n mx a" for a
    using all_cells_inside [OF _ cov n, of chk a] that n by (simp add: suitable_def)
  show ?thesis
    using covers_nth_next [OF cov i] above hi by (fastforce simp: next_link_def split: if_splits)
qed

lemma align_candidate:
  fixes B :: uint64
  assumes "al < 64" "unat B < 2 ^ 63"
  shows "unat ((B + mask al) AND NOT (mask al)) = round_up al (unat B)" "round_up al (unat B) \<le> 2 ^ 63"
proof -
  have "al \<le> 63" using assms(1) by simp
  then have p: "(2 :: nat) ^ al \<le> 2 ^ 63" "(2 :: nat) ^ al dvd 2 ^ 63"
    by (auto intro: power_increasing le_imp_power_dvd simp del: power_numeral)
  show "unat ((B + mask al) AND NOT (mask al)) = round_up al (unat B)"
    using assms p(1) by (intro unat_align_up) simp_all
  show "round_up al (unat B) \<le> 2 ^ 63" using round_up_least [OF _ p(2)] assms(2) by simp
qed

text \<open>The candidate of the entry at \<open>i\<close>: the first aligned address of the entry.\<close>

lemma up_candidate:
  assumes cov: "covers 0 hi es" and hi: "hi \<le> 2 ^ 63" and al: "al < 64" and L: "L \<noteq> 0" "unat L \<le> 2 ^ 63"
    and i: "i < length es" and low: "\<forall>a. suitable chk es al (unat L) mx a \<longrightarrow> unat (BaseAddress (es ! i)) \<le> a"
    and C: "C = (BaseAddress (es ! i) + mask al) AND NOT (mask al)"
  shows "2 ^ al dvd unat C" "unat (BaseAddress (es ! i)) \<le> unat C" "unat C + unat L \<le> 2 ^ 64"
    "unat (C + L - 1) = unat C + unat L - 1"
    "suitable chk es al (unat L) mx a \<Longrightarrow> unat C \<le> a"
    "hi < unat C + unat L \<or> mx < unat C + unat L - 1 \<Longrightarrow> \<not> suitable chk es al (unat L) mx a"
proof -
  have "unat (BaseAddress (es ! i)) < hi"
    using covers_nth_next [OF cov i] entry_nonempty [OF cov nth_mem [OF i]] covers_le [OF covers_tail [OF cov i]]
    by (simp split: if_splits)
  then have r: "unat C = round_up al (unat (BaseAddress (es ! i)))" "unat C \<le> 2 ^ 63"
    using align_candidate [of al "BaseAddress (es ! i)"] al hi by (simp_all add: C)
  show "2 ^ al dvd unat C" "unat (BaseAddress (es ! i)) \<le> unat C" using r(1) by (simp_all add: round_up_aligned round_up_ge)
  show le: "unat C + unat L \<le> 2 ^ 64" using r(2) L(2) by simp
  show "unat (C + L - 1) = unat C + unat L - 1" by (rule unat_end [OF L(1) le])
  show ge: "unat C \<le> a" if "suitable chk es al (unat L) mx a" for a
    using low that round_up_least r(1) by (simp add: suitable_def)
  show "\<not> suitable chk es al (unat L) mx a" if "hi < unat C + unat L \<or> mx < unat C + unat L - 1"
  proof
    assume a: "suitable chk es al (unat L) mx a"
    then have "a + unat L \<le> hi" "a + unat L - 1 \<le> mx"
      using all_cells_inside [OF _ cov, of chk a "unat L"] L(1) by (auto simp: suitable_def unat_gt_0)
    with ge [OF a] that show False by linarith
  qed
qed

text \<open>When the candidate is not free, the loop goes on at an entry above, and nothing suitable is left out.\<close>

lemma up_failing:
  assumes cov: "covers 0 hi es" and chk: "on_attrs chk" and i: "i < length es" and ok: "\<not> EFI_ERROR (chk (es ! i))"
    and x: "j < length es" "EFI_ERROR (chk (es ! j))" "in_entry x (es ! j)" "c \<le> x" "x < c + n"
    and c: "unat (BaseAddress (es ! i)) \<le> c" "\<And>a. suitable chk es al n mx a \<Longrightarrow> c \<le> a"
  shows "i < j" "suitable chk es al n mx a \<Longrightarrow> unat (BaseAddress (es ! j)) \<le> a"
proof -
  have "i \<noteq> j" using ok x(2) by blast
  moreover have "\<not> j < i" using covers_nth_order [OF cov, of j i] i x c(1) by (auto simp: in_entry_def)
  ultimately show "i < j" by simp
  show "unat (BaseAddress (es ! j)) \<le> a" if a: "suitable chk es al n mx a"
  proof (rule ccontr)
    assume "\<not> ?thesis"
    then have "a \<le> x" "x < a + n" using x c(2) [OF a] by (auto simp: in_entry_def)
    with all_cells_fails [OF cov _ x(3,2) chk] x(1) a show False by (simp add: suitable_def)
  qed
qed

lemma alloc_step_up:
  assumes cov: "covers 0 hi es" and hi: "hi \<le> 2 ^ 63" and chk: "on_attrs chk" and al: "al < 64"
    and L: "L \<noteq> 0" "unat L \<le> 2 ^ 63"
    and inv: "lowest_inv en chk es al L (unat M) (Some i, B, None)"
  shows "\<exists>t. alloc_step en chk False (mask al) L M es (Some i, B, None) = Some t \<and>
    lowest_inv en chk es al L (unat M) t \<and> up_measure es t < up_measure es (Some i, B, None)"
proof -
  let ?S = "suitable chk es al (unat L) (unat M)" and ?e = "es ! i"
  have i: "i < length es" and low: "\<forall>a. ?S a \<longrightarrow> unat (BaseAddress ?e) \<le> a"
    using inv by (simp_all add: lowest_inv_def)
  have n: "0 < unat L" using L by (simp add: unat_gt_0)
  define C where "C = (BaseAddress ?e + mask al) AND NOT (mask al)"
  note C = up_candidate [OF cov hi al L i low C_def]
  have cand: "alloc_candidate False (mask al) L M ?e B = (if C + L - 1 > M then Inl (Some EFI_NOT_FOUND) else Inr (), C)"
    by (simp add: alloc_candidate_def C_def)
  note defs = alloc_step_def lowest_inv_def up_measure_def
  consider (fails) "EFI_ERROR (chk ?e)" | (above) "\<not> EFI_ERROR (chk ?e)" "C + L - 1 > M"
    | (outside) "\<not> EFI_ERROR (chk ?e)" "\<not> C + L - 1 > M" "hi < unat C + unat L"
    | (inside) "\<not> EFI_ERROR (chk ?e)" "\<not> C + L - 1 > M" "unat C + unat L \<le> hi" by linarith
  then show ?thesis
  proof cases
    case fails
    with skip_failing [OF cov chk i n fails low] i show ?thesis by (auto simp: defs split: option.splits)
  next
    case above
    with cand i C(4,6) show ?thesis by (simp add: defs word_less_nat_alt)
  next
    case outside
    have "CoreSearchGcdMapEntry en C L es = Some (Inl EFI_NOT_FOUND)"
      using CoreSearch_outside [OF cov L(1) outside(3) C(3)] .
    with outside cand i C(6) show ?thesis by (simp add: defs)
  next
    case inside
    obtain l where l: "CoreSearchGcdMapEntry en C L es = Some (Inr l)"
      using CoreSearch_inside [OF cov L(1) _ inside(3)] by (metis le0)
    note c = candidate_checked [OF cov L(1) inside(3) chk l]
    show ?thesis
    proof (cases "first_failing chk (fst l) (links l es)")
      case None
      with c inside(2) C(1,4) have "?S (unat C)" by (simp add: suitable_def word_less_nat_alt)
      with None inside cand l i C(5) show ?thesis by (simp add: defs)
    next
      case (Some j)
      with c obtain x where x: "j < length es" "EFI_ERROR (chk (es ! j))" "in_entry x (es ! j)" "unat C \<le> x" "x < unat C + unat L"
        by auto
      with up_failing [OF cov chk i inside(1) x C(2,5), where al = al and mx = "unat M"] Some inside cand l i show ?thesis by (simp add: defs)
    qed
  qed
qed

lemma alloc_search_up:
  assumes cov: "covers 0 hi es" "es \<noteq> []" and hi: "hi \<le> 2 ^ 63" and chk: "on_attrs chk" and al: "al < 64"
    and L: "L \<noteq> 0" "unat L \<le> 2 ^ 63"
  shows "\<exists>B' r. alloc_search en chk False (mask al) L M es (Some 0) B = Some (B', r) \<and>
    (case r of
       Inl st \<Rightarrow> st = EFI_NOT_FOUND \<and> (\<forall>a. \<not> suitable chk es al (unat L) (unat M) a)
     | Inr l \<Rightarrow> suitable chk es al (unat L) (unat M) (unat B') \<and> CoreSearchGcdMapEntry en B' L es = Some (Inr l) \<and>
         (\<forall>a. suitable chk es al (unat L) (unat M) a \<longrightarrow> unat B' \<le> a))"
proof -
  have "\<exists>u. while_opt (\<lambda>(Link, _, r). Link \<noteq> None \<and> r = None) (alloc_step en chk False (mask al) L M es) (Some 0, B, None) = Some u \<and>
      lowest_inv en chk es al L (unat M) u \<and> \<not> (case u of (Link, _, r) \<Rightarrow> Link \<noteq> None \<and> r = None)"
  proof (rule while_opt_total [where m = "up_measure es"])
    show "lowest_inv en chk es al L (unat M) (Some 0, B, None)"
      using cov covers_hd [OF cov] by (simp add: lowest_inv_def hd_conv_nth)
  next
    fix s
    assume "lowest_inv en chk es al L (unat M) s" "case s of (Link, _, r) \<Rightarrow> Link \<noteq> None \<and> r = None"
    then show "\<exists>v. alloc_step en chk False (mask al) L M es s = Some v \<and> lowest_inv en chk es al L (unat M) v \<and>
        up_measure es v < up_measure es s"
      using alloc_step_up [OF cov(1) hi chk al L] by (cases s) fastforce
  qed
  then obtain Link B' r where u: "while_opt (\<lambda>(Link, _, r). Link \<noteq> None \<and> r = None) (alloc_step en chk False (mask al) L M es)
      (Some 0, B, None) = Some (Link, B', r)" "lowest_inv en chk es al L (unat M) (Link, B', r)" "Link = None \<or> r \<noteq> None"
    by auto
  then show ?thesis
    by (cases r) (auto simp: alloc_search_def lowest_inv_def split: sum.splits option.splits)
qed

subsection \<open>The search from the top down\<close>

definition found_inv ::
    "bool \<Rightarrow> (EFI_GCD_MAP_ENTRY \<Rightarrow> EFI_STATUS) \<Rightarrow> EFI_GCD_MAP_ENTRY list \<Rightarrow> nat \<Rightarrow> uint64 \<Rightarrow> nat \<Rightarrow> alloc_state \<Rightarrow> bool" where
  "found_inv en chk es al L mx s = (case s of (Link, B, r) \<Rightarrow>
     (case r of
        None \<Rightarrow> (case Link of None \<Rightarrow> True | Some i \<Rightarrow> i < length es)
      | Some (Inl st) \<Rightarrow> st = EFI_NOT_FOUND
      | Some (Inr l) \<Rightarrow> suitable chk es al (unat L) mx (unat B) \<and> CoreSearchGcdMapEntry en B L es = Some (Inr l)))"

definition down_measure :: "alloc_state \<Rightarrow> nat" where
  "down_measure s = (case s of (Link, B, r) \<Rightarrow> if r \<noteq> None then 0 else case Link of None \<Rightarrow> 0 | Some i \<Rightarrow> i + 1)"

lemma down_candidate:
  fixes M L :: uint64
  assumes cov: "covers 0 hi es" and hi: "hi \<le> 2 ^ 63" and L: "L \<noteq> 0" "unat L \<le> 2 ^ 63" and i: "i < length es"
    and fits: "\<not> BaseAddress (es ! i) + L > M" "\<not> L > EndAddress (es ! i) + 1"
    and C: "C = ((if EndAddress (es ! i) > M then M else EndAddress (es ! i)) + 1 - L) AND NOT (mask al)"
  shows "2 ^ al dvd unat C" "unat C + unat L - 1 \<le> unat M" "unat C + unat L \<le> unat (EndAddress (es ! i)) + 1"
    "unat C + unat L \<le> hi"
proof -
  define T where "T = (if EndAddress (es ! i) > M then M else EndAddress (es ! i))"
  have e: "unat (BaseAddress (es ! i)) \<le> unat (EndAddress (es ! i))" "unat (EndAddress (es ! i)) < hi"
    using entry_nonempty [OF cov nth_mem [OF i]] covers_le [OF covers_tail [OF cov i]] by simp_all
  have n: "0 < unat L" using L(1) by (simp add: unat_gt_0)
  have "unat (BaseAddress (es ! i) + L) = unat (BaseAddress (es ! i)) + unat L"
    using e hi L(2) by (intro unat_add_noc) simp
  then have M: "unat L \<le> unat M" using fits(1) by (simp add: word_less_nat_alt)
  have "unat (EndAddress (es ! i) + 1) = unat (EndAddress (es ! i)) + 1"
    using e hi unat_add_noc [of "EndAddress (es ! i)" 1] by simp
  then have "unat L \<le> unat (EndAddress (es ! i)) + 1" using fits(2) by (simp add: word_less_nat_alt)
  with M have T: "unat L \<le> unat T + 1" "unat T \<le> unat M" "unat T \<le> unat (EndAddress (es ! i))"
    by (auto simp: T_def word_less_nat_alt)
  have "unat (T + 1) = unat T + 1" using T(3) e hi unat_add_noc [of T 1] by simp
  then have "unat (T + 1 - L) = unat T + 1 - unat L" using T(1) by (simp add: unat_sub word_le_nat_alt)
  then have c: "unat C = (unat T + 1 - unat L) div 2 ^ al * 2 ^ al" by (simp add: C T_def unat_align_down)
  then show "2 ^ al dvd unat C" by simp
  have "unat C \<le> unat T + 1 - unat L" unfolding c by (rule div_times_less_eq_dividend)
  with T n e show "unat C + unat L - 1 \<le> unat M" "unat C + unat L \<le> unat (EndAddress (es ! i)) + 1" "unat C + unat L \<le> hi"
    by linarith+
qed

lemma alloc_step_down:
  assumes cov: "covers 0 hi es" and hi: "hi \<le> 2 ^ 63" and chk: "on_attrs chk"
    and L: "L \<noteq> 0" "unat L \<le> 2 ^ 63" and i: "i < length es"
  shows "\<exists>t. alloc_step en chk True (mask al) L M es (Some i, B, None) = Some t \<and>
    found_inv en chk es al L (unat M) t \<and> down_measure t < down_measure (Some i, B, None)"
proof -
  let ?e = "es ! i"
  define C where "C = ((if EndAddress ?e > M then M else EndAddress ?e) + 1 - L) AND NOT (mask al)"
  consider (skip) "EFI_ERROR (chk ?e) \<or> BaseAddress ?e + L > M" | (stop) "\<not> EFI_ERROR (chk ?e)" "\<not> BaseAddress ?e + L > M" "L > EndAddress ?e + 1"
    | (room) "\<not> EFI_ERROR (chk ?e)" "\<not> BaseAddress ?e + L > M" "\<not> L > EndAddress ?e + 1" by blast
  then show ?thesis
  proof cases
    case skip
    then have "alloc_step en chk True (mask al) L M es (Some i, B, None) = Some (next_link True (length es) i, B, None)"
      by (cases "EFI_ERROR (chk ?e)") (simp_all add: alloc_step_def alloc_candidate_def)
    with i show ?thesis by (simp add: found_inv_def down_measure_def next_link_def less_imp_diff_less)
  next
    case stop
    then have "alloc_step en chk True (mask al) L M es (Some i, B, None) =
        Some (next_link True (length es) i, B, Some (Inl EFI_NOT_FOUND))"
      by (simp add: alloc_step_def alloc_candidate_def)
    then show ?thesis by (simp add: found_inv_def down_measure_def)
  next
    case room
    note C = down_candidate [OF cov hi L i room(2,3) C_def]
    obtain l where l: "CoreSearchGcdMapEntry en C L es = Some (Inr l)"
      using CoreSearch_inside [OF cov L(1) _ C(4)] by (metis le0)
    note c = candidate_checked [OF cov L(1) C(4) chk l]
    have cand: "alloc_candidate True (mask al) L M ?e B = (Inr (), C)" using room by (simp add: alloc_candidate_def C_def)
    show ?thesis
    proof (cases "first_failing chk (fst l) (links l es)")
      case None
      with c C(1,2) have "suitable chk es al (unat L) (unat M) (unat C)" by (simp add: suitable_def)
      with None room(1) cand l show ?thesis by (simp add: alloc_step_def found_inv_def down_measure_def)
    next
      case (Some j)
      with c obtain x where x: "j < length es" "EFI_ERROR (chk (es ! j))" "in_entry x (es ! j)" "x < unat C + unat L" by auto
      have "j \<noteq> i" using x(2) room(1) by blast
      moreover have "\<not> i < j" using covers_nth_order [OF cov, of i j] x C(3) by (auto simp: in_entry_def)
      ultimately show ?thesis using Some room(1) cand l x(1) by (simp add: alloc_step_def found_inv_def down_measure_def)
    qed
  qed
qed

lemma alloc_search_down:
  assumes cov: "covers 0 hi es" and hi: "hi \<le> 2 ^ 63" and chk: "on_attrs chk"
    and L: "L \<noteq> 0" "unat L \<le> 2 ^ 63" and i: "i < length es"
  shows "\<exists>B' r. alloc_search en chk True (mask al) L M es (Some i) B = Some (B', r) \<and>
    (case r of
       Inl st \<Rightarrow> st = EFI_NOT_FOUND
     | Inr l \<Rightarrow> suitable chk es al (unat L) (unat M) (unat B') \<and> CoreSearchGcdMapEntry en B' L es = Some (Inr l))"
proof -
  have "\<exists>u. while_opt (\<lambda>(Link, _, r). Link \<noteq> None \<and> r = None) (alloc_step en chk True (mask al) L M es) (Some i, B, None) = Some u \<and>
      found_inv en chk es al L (unat M) u \<and> \<not> (case u of (Link, _, r) \<Rightarrow> Link \<noteq> None \<and> r = None)"
  proof (rule while_opt_total [where m = down_measure])
    show "found_inv en chk es al L (unat M) (Some i, B, None)" using i by (simp add: found_inv_def)
  next
    fix s
    assume "found_inv en chk es al L (unat M) s" "case s of (Link, _, r) \<Rightarrow> Link \<noteq> None \<and> r = None"
    then obtain k B1 where "s = (Some k, B1, None)" "k < length es" by (cases s) (auto simp: found_inv_def)
    then show "\<exists>v. alloc_step en chk True (mask al) L M es s = Some v \<and> found_inv en chk es al L (unat M) v \<and>
        down_measure v < down_measure s"
      using alloc_step_down [OF cov hi chk L] by blast
  qed
  then obtain Link B' r where "while_opt (\<lambda>(Link, _, r). Link \<noteq> None \<and> r = None) (alloc_step en chk True (mask al) L M es)
      (Some i, B, None) = Some (Link, B', r)" "found_inv en chk es al L (unat M) (Link, B', r)" by auto
  then show ?thesis
    by (cases r) (auto simp: alloc_search_def found_inv_def split: sum.splits option.splits)
qed

subsection \<open>\<open>CoreAllocateSpace\<close>\<close>

text \<open>The highest address an allocation may use.\<close>

definition alloc_limit :: "int \<Rightarrow> EFI_GCD_MAP_ENTRY list \<Rightarrow> uint64 \<Rightarrow> uint64 \<Rightarrow> nat" where
  "alloc_limit ty es L B =
     (if ty = EfiGcdAllocateAddress then unat B + unat L - 1
      else if ty = EfiGcdAllocateMaxAddressSearchBottomUp \<or> ty = EfiGcdAllocateMaxAddressSearchTopDown then unat B
      else unat (EndAddress (last es)))"

text \<open>What the search promises: a range that is aligned, below the limit and free; the given one if the address
  is given; the lowest one, or there is none, if it goes from the bottom up.\<close>

definition find_spec ::
    "(EFI_GCD_MAP_ENTRY \<Rightarrow> EFI_STATUS) \<Rightarrow> int \<Rightarrow> EFI_GCD_MAP_ENTRY list \<Rightarrow> nat \<Rightarrow> uint64 \<Rightarrow> uint64 \<Rightarrow> uint64 \<Rightarrow> bool \<Rightarrow> bool" where
  "find_spec chk ty es al L B B' found \<longleftrightarrow>
     (let S = suitable chk es al (unat L) (alloc_limit ty es L B) in
      (found \<longrightarrow> S (unat B')) \<and>
      (ty = EfiGcdAllocateAddress \<longrightarrow> B' = B \<and> (found \<longleftrightarrow> S (unat B))) \<and>
      (ty = EfiGcdAllocateAnySearchBottomUp \<or> ty = EfiGcdAllocateMaxAddressSearchBottomUp \<longrightarrow>
         (if found then \<forall>a. S a \<longrightarrow> unat B' \<le> a else \<forall>a. \<not> S a)))"

lemma alloc_find_address:
  assumes cov: "covers 0 hi es" and hi: "hi \<le> 2 ^ 63" and chk: "on_attrs chk" and L: "L \<noteq> 0" "unat L \<le> 2 ^ 63"
    and nf: "\<And>e. chk e = EFI_SUCCESS \<or> chk e = EFI_NOT_FOUND"
  shows "\<exists>r. alloc_find en chk EfiGcdAllocateAddress al L es B = Some (B, r) \<and>
    (case r of Inl st \<Rightarrow> st = EFI_NOT_FOUND | Inr l \<Rightarrow> CoreSearchGcdMapEntry en B L es = Some (Inr l)) \<and>
    find_spec chk EfiGcdAllocateAddress es (unat al) L B B (\<not> isl r)"
proof -
  have n: "0 < unat L" using L(1) by (simp add: unat_gt_0)
  have mask: "LShiftU64 1 al - 1 = mask (unat al)" by (simp add: LShiftU64_def mask_eq_exp_minus_1 push_bit_eq_mult)
  have st: "check_loop chk l = EFI_SUCCESS \<or> check_loop chk l = EFI_NOT_FOUND" for l
    using nf by (induction l) (auto simp: EFI_ERROR_def)
  consider (unaligned) "B AND mask (unat al) \<noteq> 0" | (outside) "B AND mask (unat al) = 0" "hi < unat B + unat L"
    | (inside) "B AND mask (unat al) = 0" "unat B + unat L \<le> hi" by linarith
  then show ?thesis
  proof cases
    case unaligned
    then show ?thesis by (simp add: alloc_find_def mask find_spec_def suitable_def aligned_iff)
  next
    case outside
    have "CoreSearchGcdMapEntry en B L es = Some (Inl EFI_NOT_FOUND)"
      using search_beyond [OF cov L(1)] CoreSearch_outside [OF cov L(1) outside(2)] hi L(2)
      by (cases "hi \<le> unat B") auto
    moreover have "\<not> all_cells chk es (unat B) (unat L)" using all_cells_inside [OF _ cov n] outside(2) by fastforce
    ultimately show ?thesis using outside(1) by (simp add: alloc_find_def mask find_spec_def suitable_def)
  next
    case inside
    obtain xs mid ys where r: "es = xs @ mid @ ys" "range_split 0 hi (unat B) (unat L) xs mid ys"
      "CoreSearchGcdMapEntry en B L es = Some (Inr (length xs, length xs + length mid - 1))"
      using CoreSearch_inside [OF cov L(1) _ inside(2)] by (metis le0)
    have "links (length xs, length xs + length mid - 1) es = mid"
      using links_mid [of mid xs ys] r by (simp add: range_split_def)
    moreover have "(\<not> EFI_ERROR (check_loop chk mid)) = all_cells chk es (unat B) (unat L)"
      using all_mid_cells [OF r(2) n chk] r(1) by (simp add: check_loop_ok)
    ultimately show ?thesis using inside(1) r(3) st [of mid] n
      by (auto simp: alloc_find_def mask find_spec_def suitable_def alloc_limit_def aligned_iff EFI_ERROR_def)
  qed
qed

lemma alloc_find_ok:
  assumes cov: "covers 0 hi es" "es \<noteq> []" and hi: "hi \<le> 2 ^ 63" and chk: "on_attrs chk"
    and L: "L \<noteq> 0" "unat L \<le> 2 ^ 63" and al: "al < 64" and ty: "0 \<le> ty" "ty < EfiGcdMaxAllocateType"
    and nf: "\<And>e. chk e = EFI_SUCCESS \<or> chk e = EFI_NOT_FOUND"
  shows "\<exists>B' r. alloc_find en chk ty al L es B = Some (B', r) \<and>
    (case r of Inl st \<Rightarrow> st = EFI_NOT_FOUND | Inr l \<Rightarrow> CoreSearchGcdMapEntry en B' L es = Some (Inr l)) \<and>
    find_spec chk ty es (unat al) L B B' (\<not> isl r)"
proof -
  have mask: "LShiftU64 1 al - 1 = mask (unat al)"
    by (simp add: LShiftU64_def mask_eq_exp_minus_1 push_bit_eq_mult)
  have al': "unat al < 64" using al by (simp add: word_less_nat_alt)
  define M where "M = (if ty = EfiGcdAllocateMaxAddressSearchBottomUp \<or> ty = EfiGcdAllocateMaxAddressSearchTopDown
    then B else EndAddress (last es))"
  have lim: "alloc_limit ty es L B = unat M" if "ty \<noteq> EfiGcdAllocateAddress" using that by (simp add: alloc_limit_def M_def)
  consider "ty = EfiGcdAllocateAddress" | (up) "ty = EfiGcdAllocateAnySearchBottomUp \<or> ty = EfiGcdAllocateMaxAddressSearchBottomUp"
    | (down) "ty = EfiGcdAllocateAnySearchTopDown \<or> ty = EfiGcdAllocateMaxAddressSearchTopDown" using ty by linarith
  then show ?thesis
  proof cases
    case 1
    with alloc_find_address [OF cov(1) hi chk L nf] show ?thesis by blast
  next
    case up
    then have "alloc_find en chk ty al L es B = alloc_search en chk False (mask (unat al)) L M es (Some 0) B"
      using cov(2) by (auto simp: alloc_find_def mask M_def)
    with alloc_search_up [OF cov hi chk al' L, of en M B] up lim show ?thesis
      by (fastforce simp: find_spec_def split: sum.splits)
  next
    case down
    then have "alloc_find en chk ty al L es B = alloc_search en chk True (mask (unat al)) L M es (Some (length es - 1)) B"
      using cov(2) by (auto simp: alloc_find_def mask M_def)
    with alloc_search_down [OF cov(1) hi chk L, of "length es - 1" en "unat al" M B] cov(2) down lim show ?thesis
      by (fastforce simp: find_spec_def split: sum.splits)
  qed
qed

text \<open>The allocation operations, and what \<open>CoreAllocateSpace\<close> promises.\<close>

definition alloc_op :: "uint64 \<Rightarrow> bool" where
  "alloc_op op \<longleftrightarrow> op = GCD_ALLOCATE_MEMORY_OPERATION \<or> op = GCD_ALLOCATE_IO_OPERATION"

definition alloc_spec ::
    "nat \<Rightarrow> bool \<Rightarrow> (EFI_GCD_MAP_ENTRY \<Rightarrow> EFI_STATUS) \<Rightarrow> int \<Rightarrow> nat \<Rightarrow> uint64 \<Rightarrow> uint64 \<Rightarrow> nat \<Rightarrow> nat \<Rightarrow> EFI_GCD_MAP_ENTRY list \<Rightarrow>
     EFI_STATUS \<Rightarrow> uint64 \<Rightarrow> EFI_GCD_MAP_ENTRY list \<Rightarrow> bool" where
  "alloc_spec hi resources chk ty al L B img dev es st B' es' \<longleftrightarrow> covers 0 hi es' \<and>
     (\<exists>found. find_spec chk ty es al L B B' found \<and>
        st = (if \<not> found then EFI_NOT_FOUND else if \<not> resources then EFI_OUT_OF_RESOURCES else EFI_SUCCESS)) \<and>
     (if st = EFI_SUCCESS then updated es (unat B') (unat L) (\<lambda>c. c\<lparr>ImageHandle := img, DeviceHandle := dev\<rparr>) es' else es' = es)"

lemma alloc_body_ok:
  assumes cov: "covers 0 hi (space_map op s)" "space_map op s \<noteq> []" and hi: "hi \<le> 2 ^ 63" and op: "alloc_op op"
    and L: "L \<noteq> 0" "unat L \<le> 2 ^ 63" and al: "al < 64" and ty: "0 \<le> ty" "ty < EfiGcdMaxAllocateType"
    and cut: "AssertEnabled E \<longrightarrow> (\<forall>a. all_cells (CoreAllocateSpaceCheckEntry op mt it) (space_map op s) a (unat L) \<longrightarrow>
      single_cut (space_map op s) a (unat L))"
  shows "\<exists>st B' es p. alloc_body E op ty mt it al L B img dev s = Some (st, B', (set_space_map op es s)\<lparr>Memory := p\<rparr>) \<and>
    alloc_spec hi (entries_available E (Memory s)) (CoreAllocateSpaceCheckEntry op mt it) ty (unat al) L B img dev (space_map op s) st B' es"
proof -
  let ?chk = "CoreAllocateSpaceCheckEntry op mt it" and ?es = "space_map op s"
  have nf: "?chk e = EFI_SUCCESS \<or> ?chk e = EFI_NOT_FOUND" for e using op by (auto simp: CoreAllocateSpaceCheckEntry_def alloc_op_def)
  obtain B' r where f: "alloc_find (AssertEnabled E) ?chk ty al L ?es B = Some (B', r)"
    "case r of Inl st \<Rightarrow> st = EFI_NOT_FOUND | Inr l \<Rightarrow> CoreSearchGcdMapEntry (AssertEnabled E) B' L ?es = Some (Inr l)"
    "find_spec ?chk ty ?es (unat al) L B B' (\<not> isl r)"
    using alloc_find_ok [OF cov hi on_attrs_alloc_check L al ty nf, of "AssertEnabled E" B] by blast
  obtain p1 where alloc: "CoreAllocateGcdMapEntry E s =
      (if entries_available E (Memory s) then EFI_SUCCESS else EFI_OUT_OF_RESOURCES, s\<lparr>Memory := p1\<rparr>)"
    using CoreAllocateGcdMapEntry_result [of E s] by metis
  show ?thesis
  proof (cases r)
    case (Inl st)
    with f cov show ?thesis
      by (intro exI [of _ EFI_NOT_FOUND] exI [of _ B'] exI [of _ ?es] exI [of _ "Memory s"])
        (auto simp: alloc_body_def alloc_spec_def set_space_map_same)
  next
    case (Inr l)
    have cells: "all_cells ?chk ?es (unat B') (unat L)" using f(3) Inr by (simp add: find_spec_def suitable_def Let_def)
    have inside: "unat B' + unat L \<le> hi" using all_cells_inside [OF cells cov(1)] L(1) by (simp add: unat_gt_0)
    obtain xs mid ys where "?es = xs @ mid @ ys" "range_split 0 hi (unat B') (unat L) xs mid ys"
      "CoreSearchGcdMapEntry (AssertEnabled E) B' L ?es = Some (Inr (length xs, length xs + length mid - 1))"
      using CoreSearch_inside [OF cov(1) L(1) _ inside] by (metis le0)
    with f(2) Inr have sp: "?es = xs @ mid @ ys" "range_split 0 hi (unat B') (unat L) xs mid ys"
      "l = (length xs, length xs + length mid - 1)" by simp_all
    show ?thesis
    proof (cases "entries_available E (Memory s)")
      case False
      with f Inr alloc cov show ?thesis
        by (intro exI [of _ EFI_OUT_OF_RESOURCES] exI [of _ B'] exI [of _ ?es] exI [of _ p1])
          (auto simp: alloc_body_def alloc_spec_def set_space_map_same intro!: exI [of _ True])
    next
      case True
      let ?f = "\<lambda>c. c\<lparr>ImageHandle := img, DeviceHandle := dev\<rparr>" and ?s = "s\<lparr>Memory := p1\<rparr>"
      have "\<exists>es p. convert_range E op ?f B' L (length xs, length xs + length mid - 1) ?s =
          Some (EFI_SUCCESS, (set_space_map op es ?s)\<lparr>Memory := p\<rparr>) \<and> covers 0 hi es \<and>
          updated (space_map op ?s) (unat B') (unat L) ?f es"
        using sp cut cells by (intro convert_range_ok [OF sp(2) _ L(1) keeps_range_alloc inside]) simp_all
      then obtain es p where "alloc_body E op ty mt it al L B img dev s = Some (EFI_SUCCESS, B', (set_space_map op es s)\<lparr>Memory := p\<rparr>)"
        "covers 0 hi es" "updated ?es (unat B') (unat L) ?f es"
        using f(1) Inr alloc True sp(3) by (auto simp: alloc_body_def)
      with f(3) Inr True show ?thesis
        by (intro exI [of _ EFI_SUCCESS] exI [of _ B'] exI [of _ es] exI [of _ p]) (auto simp: alloc_spec_def intro!: exI [of _ True])
    qed
  qed
qed

lemma CoreAllocateSpace_ok:
  assumes free: "unlocked s" and cov: "covers 0 hi (space_map op s)" "space_map op s \<noteq> []" and hi: "hi \<le> 2 ^ 63" and op: "alloc_op op"
    and L: "L \<noteq> 0" "unat L \<le> 2 ^ 63" and al: "al < 64" and ty: "0 \<le> ty" "ty < EfiGcdMaxAllocateType"
    and types: "0 \<le> mt" "mt < EfiGcdMemoryTypeMaximum" "0 \<le> it" "it < EfiGcdIoTypeMaximum" and img: "img \<noteq> 0"
    and cut: "AssertEnabled E \<longrightarrow> (\<forall>a. all_cells (CoreAllocateSpaceCheckEntry op mt it) (space_map op s) a (unat L) \<longrightarrow>
      single_cut (space_map op s) a (unat L))"
  shows "\<exists>st B' es p. CoreAllocateSpace E op ty mt it al L (Some B) img dev s = Some (st, Some B', (set_space_map op es s)\<lparr>Memory := p\<rparr>) \<and>
    alloc_spec hi (entries_available E (Memory s)) (CoreAllocateSpaceCheckEntry op mt it) ty (unat al) L B img dev (space_map op s) st B' es"
proof -
  have sop: "space_op op" using op by (auto simp: alloc_op_def)
  obtain st B' es p where "alloc_body E op ty mt it al L B img dev (locked_by op s) =
      Some (st, B', (set_space_map op es (locked_by op s))\<lparr>Memory := p\<rparr>)"
    and spec: "alloc_spec hi (entries_available E (Memory s)) (CoreAllocateSpaceCheckEntry op mt it) ty (unat al) L B img dev (space_map op s) st B' es"
    using alloc_body_ok [of hi op "locked_by op s" L al ty E mt it B img dev] cov hi op L al ty cut by auto
  moreover have "\<not> 64 \<le> al" using al by simp
  ultimately have "CoreAllocateSpace E op ty mt it al L (Some B) img dev s = Some (st, Some B', (set_space_map op es s)\<lparr>Memory := p\<rparr>)"
    using types img L(1) ty
    by (simp add: CoreAllocateSpace_def enter_space_ok [OF sop free] leave_space_ok [OF sop free])
  with spec show ?thesis by blast
qed

end
