(* ===== verification/GcdSystem.thy ===== *)
theory GcdSystem
  imports GcdAlloc
begin

section \<open>The services of the global coherency domain as a system\<close>

text \<open>
  The invariant of the two maps under every sequence of service calls, with assertions enabled or not, and
  under the initialisation from hand-off blocks. The only condition on the arguments is that a range does
  not wrap around at the end of the 64-bit addresses; \<open>CoreInternalAddMemorySpace_wraps\<close> shows that it is
  needed.
\<close>

subsection \<open>Invariant\<close>

definition gcd_inv :: "nat \<Rightarrow> nat \<Rightarrow> 'p gcd \<Rightarrow> bool" where
  "gcd_inv mem io s \<longleftrightarrow> unlocked s \<and> covers 0 mem (mGcdMemorySpaceMap s) \<and> covers 0 io (mGcdIoSpaceMap s) \<and>
     0 < mem \<and> mem \<le> 2 ^ 63 \<and> 0 < io \<and> io \<le> 2 ^ 63"

definition size_of :: "uint64 \<Rightarrow> nat \<Rightarrow> nat \<Rightarrow> nat" where
  "size_of op mem io = (if op AND GCD_MEMORY_SPACE_OPERATION \<noteq> 0 then mem else io)"

lemma gcd_inv_space:
  assumes "gcd_inv mem io s"
  shows "unlocked s" "covers 0 (size_of op mem io) (space_map op s)" "space_map op s \<noteq> []" "size_of op mem io \<le> 2 ^ 63"
  using assms by (auto simp: gcd_inv_def size_of_def space_map_def)

lemma gcd_inv_memory [simp]: "gcd_inv mem io (s\<lparr>Memory := p\<rparr>) = gcd_inv mem io s"
  by (simp add: gcd_inv_def unlocked_def)

lemma gcd_inv_set:
  assumes "gcd_inv mem io s" "covers 0 (size_of op mem io) es"
  shows "gcd_inv mem io (set_space_map op es s)"
  using assms by (auto simp: gcd_inv_def size_of_def set_space_map_def unlocked_def)

subsection \<open>Conversions\<close>

lemma convert_range_inv:
  assumes r: "range_split 0 hi (unat B) (unat L) xs mid ys" and map: "space_map op s = xs @ mid @ ys"
    and L: "L \<noteq> 0" and f: "keeps_range f" and hi: "unat B + unat L \<le> hi"
    and run: "convert_range E op f B L (length xs, length xs + length mid - 1) s = Some (st, s')"
  shows "\<exists>es p. s' = (set_space_map op es s)\<lparr>Memory := p\<rparr> \<and> covers 0 hi es"
proof (cases "AssertEnabled E \<longrightarrow> single_cut (space_map op s) (unat B) (unat L)")
  case True
  from convert_range_ok [OF r map L f hi True] run show ?thesis by auto
next
  case False
  with convert_range_asserts [OF r map L hi, of E f] run show ?thesis by simp
qed

lemma convert_body_inv:
  assumes cov: "covers 0 hi (space_map op s)" and L: "L \<noteq> 0" and wrap: "unat B + unat L \<le> 2 ^ 64"
    and run: "convert_body E op mt it B L cs ats s = Some (st, s')"
  shows "\<exists>es p. s' = (set_space_map op es s)\<lparr>Memory := p\<rparr> \<and> covers 0 hi es"
proof -
  have same: ?thesis if "s' = s\<lparr>Memory := p\<rparr>" for p
    using that cov by (intro exI [of _ "space_map op s"] exI [of _ p]) (simp add: set_space_map_same)
  show ?thesis
  proof (cases "unat B + unat L \<le> hi")
    case False
    with run CoreSearch_outside [OF cov L _ wrap] have "s' = s\<lparr>Memory := Memory s\<rparr>"
      by (simp add: convert_body_def)
    then show ?thesis by (rule same)
  next
    case True
    obtain xs mid ys where r: "space_map op s = xs @ mid @ ys" "range_split 0 hi (unat B) (unat L) xs mid ys"
      and search: "CoreSearchGcdMapEntry (AssertEnabled E) B L (space_map op s) = Some (Inr (length xs, length xs + length mid - 1))"
      using CoreSearch_inside [OF cov L _ True] by (metis le0)
    obtain st1 p1 where alloc: "CoreAllocateGcdMapEntry E s = (st1, s\<lparr>Memory := p1\<rparr>)"
      using CoreAllocateGcdMapEntry_result [of E s] by metis
    consider "s' = s\<lparr>Memory := Memory s\<rparr>" | "s' = s\<lparr>Memory := p1\<rparr>" | (conv) "convert_range E op (convert_entry op mt it cs ats) B L
        (length xs, length xs + length mid - 1) (s\<lparr>Memory := p1\<rparr>) = Some (st, s')"
      using run search alloc by (auto simp: convert_body_def Let_def split: if_splits)
    then show ?thesis
    proof cases
      case conv
      obtain es p where "s' = (set_space_map op es (s\<lparr>Memory := p1\<rparr>))\<lparr>Memory := p\<rparr>" "covers 0 hi es"
        using convert_range_inv [OF r(2) _ L keeps_range_convert_entry True conv] r(1) by auto
      then show ?thesis by auto
    qed (rule same, assumption)+
  qed
qed

lemma CoreConvertSpace_inv:
  assumes inv: "gcd_inv mem io s" and op: "space_op op" and wrap: "unat B + unat L \<le> 2 ^ 64"
    and run: "CoreConvertSpace E op mt it B L cs ats s = Some (st, s')"
  shows "gcd_inv mem io s'"
proof (cases "L = 0")
  case False
  note sp = gcd_inv_space(1) [OF inv] gcd_inv_space(2-4) [OF inv, of op]
  obtain t where body: "convert_body E op mt it B L cs ats (locked_by op s) = Some (st, t)" and leave: "leave_space E op t = Some s'"
    using run False by (auto simp: CoreConvertSpace_def enter_space_ok [OF op sp(1)] bind_eq_Some_conv)
  obtain es p where t: "t = (set_space_map op es (locked_by op s))\<lparr>Memory := p\<rparr>" "covers 0 (size_of op mem io) es"
    using convert_body_inv [of "size_of op mem io", OF _ False wrap body] sp(2) by auto
  with leave have "s' = (set_space_map op es s)\<lparr>Memory := p\<rparr>" by (simp add: leave_space_ok [OF op sp(1)])
  then show ?thesis using gcd_inv_set [OF inv t(2)] by simp
qed (use inv run in \<open>simp add: CoreConvertSpace_def\<close>)

subsection \<open>Allocations\<close>

lemma alloc_body_inv:
  assumes cov: "covers 0 hi (space_map op s)" "space_map op s \<noteq> []" and hi: "hi \<le> 2 ^ 63" and op: "alloc_op op"
    and L: "L \<noteq> 0" "unat L \<le> 2 ^ 63" and al: "al < 64" and ty: "0 \<le> ty" "ty < EfiGcdMaxAllocateType"
    and run: "alloc_body E op ty mt it al L B img dev s = Some (st, B', s')"
  shows "\<exists>es p. s' = (set_space_map op es s)\<lparr>Memory := p\<rparr> \<and> covers 0 hi es"
proof -
  let ?chk = "CoreAllocateSpaceCheckEntry op mt it" and ?es = "space_map op s"
  have same: ?thesis if "s' = s\<lparr>Memory := p\<rparr>" for p
    using that cov by (intro exI [of _ ?es] exI [of _ p]) (simp add: set_space_map_same)
  have nf: "?chk e = EFI_SUCCESS \<or> ?chk e = EFI_NOT_FOUND" for e using op by (auto simp: CoreAllocateSpaceCheckEntry_def alloc_op_def)
  obtain B1 r where f: "alloc_find (AssertEnabled E) ?chk ty al L ?es B = Some (B1, r)"
    "case r of Inl st \<Rightarrow> st = EFI_NOT_FOUND | Inr l \<Rightarrow> CoreSearchGcdMapEntry (AssertEnabled E) B1 L ?es = Some (Inr l)"
    "find_spec ?chk ty ?es (unat al) L B B1 (\<not> isl r)"
    using alloc_find_ok [OF cov hi on_attrs_alloc_check L al ty nf, of "AssertEnabled E" B] by blast
  obtain st1 p1 where alloc: "CoreAllocateGcdMapEntry E s = (st1, s\<lparr>Memory := p1\<rparr>)"
    using CoreAllocateGcdMapEntry_result [of E s] by metis
  show ?thesis
  proof (cases r)
    case (Inl st2)
    with run f have "s' = s\<lparr>Memory := Memory s\<rparr>" by (simp add: alloc_body_def)
    then show ?thesis by (rule same)
  next
    case (Inr l)
    have cells: "all_cells ?chk ?es (unat B1) (unat L)" using f(3) Inr by (simp add: find_spec_def suitable_def Let_def)
    have inside: "unat B1 + unat L \<le> hi" using all_cells_inside [OF cells cov(1)] L(1) by (simp add: unat_gt_0)
    obtain xs mid ys where sp: "?es = xs @ mid @ ys" "range_split 0 hi (unat B1) (unat L) xs mid ys"
      "CoreSearchGcdMapEntry (AssertEnabled E) B1 L ?es = Some (Inr (length xs, length xs + length mid - 1))"
      using CoreSearch_inside [OF cov(1) L(1) _ inside] by (metis le0)
    then have l: "l = (length xs, length xs + length mid - 1)" using f(2) Inr by simp
    consider "s' = s\<lparr>Memory := p1\<rparr>" | (conv) "convert_range E op (\<lambda>e. e\<lparr>ImageHandle := img, DeviceHandle := dev\<rparr>) B1 L
        (length xs, length xs + length mid - 1) (s\<lparr>Memory := p1\<rparr>) = Some (st, s')"
      using run f(1) Inr alloc l by (auto simp: alloc_body_def Let_def bind_eq_Some_conv split: if_splits)
    then show ?thesis
    proof cases
      case conv
      obtain es p where "s' = (set_space_map op es (s\<lparr>Memory := p1\<rparr>))\<lparr>Memory := p\<rparr>" "covers 0 hi es"
        using convert_range_inv [OF sp(2) _ L(1) keeps_range_alloc inside conv] sp(1) by auto
      then show ?thesis by auto
    qed (rule same)
  qed
qed

lemma CoreAllocateSpace_inv:
  assumes inv: "gcd_inv mem io s" and op: "alloc_op op" and L: "unat L \<le> 2 ^ 63"
    and run: "CoreAllocateSpace E op ty mt it al L base img dev s = Some (st, base', s')"
  shows "gcd_inv mem io s'"
proof (cases "s' = s")
  case False
  note sp = gcd_inv_space(1) [OF inv] gcd_inv_space(2-4) [OF inv, of op]
  have sop: "space_op op" using op by (auto simp: alloc_op_def)
  obtain B B' t where args: "0 \<le> ty" "ty < EfiGcdMaxAllocateType" "al < 64" "L \<noteq> 0"
    and body: "alloc_body E op ty mt it al L B img dev (locked_by op s) = Some (st, B', t)" and leave: "leave_space E op t = Some s'"
    using run False by (auto simp: CoreAllocateSpace_def enter_space_ok [OF sop sp(1)] bind_eq_Some_conv not_le split: if_splits option.splits)
  obtain es p where t: "t = (set_space_map op es (locked_by op s))\<lparr>Memory := p\<rparr>" "covers 0 (size_of op mem io) es"
    using alloc_body_inv [OF _ _ sp(4) op args(4) L args(3,1,2) body] sp(2,3) by auto
  with leave have "s' = (set_space_map op es s)\<lparr>Memory := p\<rparr>" by (simp add: leave_space_ok [OF sop sp(1)])
  then show ?thesis using gcd_inv_set [OF inv t(2)] by simp
qed (use inv in simp)

subsection \<open>Service calls\<close>

datatype gcd_call =
    AddMemory int uint64 uint64 uint64
  | AllocateMemory int int uint64 uint64 "uint64 option" nat nat
  | FreeMemory uint64 uint64
  | RemoveMemory uint64 uint64
  | SetMemoryAttributes uint64 uint64 uint64
  | GetMemoryDescriptor uint64 bool
  | GetMemoryMap bool bool
  | AddIo int uint64 uint64
  | AllocateIo int int uint64 uint64 "uint64 option" nat nat
  | FreeIo uint64 uint64
  | RemoveIo uint64 uint64
  | GetIoDescriptor uint64 bool
  | GetIoMap bool bool

fun gcd_exec :: "'p gcd_env \<Rightarrow> gcd_call \<Rightarrow> 'p gcd \<Rightarrow> (EFI_STATUS \<times> 'p gcd) option" where
  "gcd_exec E (AddMemory mt B L cs) s = CoreAddMemorySpace E mt B L cs s"
| "gcd_exec E (AllocateMemory ty mt al L base img dev) s =
     map_option (\<lambda>(st, _, s). (st, s)) (CoreAllocateMemorySpace E ty mt al L base img dev s)"
| "gcd_exec E (FreeMemory B L) s = CoreFreeMemorySpace E B L s"
| "gcd_exec E (RemoveMemory B L) s = CoreRemoveMemorySpace E B L s"
| "gcd_exec E (SetMemoryAttributes B L ats) s = CoreSetMemorySpaceAttributes E B L ats s"
| "gcd_exec E (GetMemoryDescriptor B nn) s = map_option (\<lambda>(st, _, s). (st, s)) (CoreGetMemorySpaceDescriptor E B nn s)"
| "gcd_exec E (GetMemoryMap n m) s = map_option (\<lambda>(st, _, s). (st, s)) (CoreGetMemorySpaceMap E n m s)"
| "gcd_exec E (AddIo it B L) s = CoreAddIoSpace E it B L s"
| "gcd_exec E (AllocateIo ty it al L base img dev) s =
     map_option (\<lambda>(st, _, s). (st, s)) (CoreAllocateIoSpace E ty it al L base img dev s)"
| "gcd_exec E (FreeIo B L) s = CoreFreeIoSpace E B L s"
| "gcd_exec E (RemoveIo B L) s = CoreRemoveIoSpace E B L s"
| "gcd_exec E (GetIoDescriptor B nn) s = map_option (\<lambda>(st, _, s). (st, s)) (CoreGetIoSpaceDescriptor E B nn s)"
| "gcd_exec E (GetIoMap n m) s = map_option (\<lambda>(st, _, s). (st, s)) (CoreGetIoSpaceMap E n m s)"

text \<open>The range a call names does not wrap around.\<close>

fun call_ok :: "gcd_call \<Rightarrow> bool" where
  "call_ok (AddMemory mt B L cs) \<longleftrightarrow> unat B + unat L \<le> 2 ^ 64"
| "call_ok (AllocateMemory ty mt al L base img dev) \<longleftrightarrow> unat L \<le> 2 ^ 63"
| "call_ok (FreeMemory B L) \<longleftrightarrow> unat B + unat L \<le> 2 ^ 64"
| "call_ok (RemoveMemory B L) \<longleftrightarrow> unat B + unat L \<le> 2 ^ 64"
| "call_ok (SetMemoryAttributes B L ats) \<longleftrightarrow> unat B + unat L \<le> 2 ^ 64"
| "call_ok (AddIo it B L) \<longleftrightarrow> unat B + unat L \<le> 2 ^ 64"
| "call_ok (AllocateIo ty it al L base img dev) \<longleftrightarrow> unat L \<le> 2 ^ 63"
| "call_ok (FreeIo B L) \<longleftrightarrow> unat B + unat L \<le> 2 ^ 64"
| "call_ok (RemoveIo B L) \<longleftrightarrow> unat B + unat L \<le> 2 ^ 64"
| "call_ok _ \<longleftrightarrow> True"

definition gcd_step :: "'p gcd_env \<Rightarrow> 'p gcd \<Rightarrow> 'p gcd \<Rightarrow> bool" where
  "gcd_step E s t \<longleftrightarrow> (\<exists>c st. call_ok c \<and> gcd_exec E c s = Some (st, t))"

lemma CoreAllocateMemorySpace_inv:
  "gcd_inv mem io s \<Longrightarrow> unat L \<le> 2 ^ 63 \<Longrightarrow> CoreAllocateMemorySpace E ty mt al L base img dev s = Some (st, base', s') \<Longrightarrow>
   gcd_inv mem io s'"
  by (rule CoreAllocateSpace_inv [of mem io s GCD_ALLOCATE_MEMORY_OPERATION]) (simp_all add: alloc_op_def CoreAllocateMemorySpace_def)

lemma claim_pages_inv:
  assumes "gcd_inv mem io s" "unat L \<le> 2 ^ 63" "claim_pages E mt B L n cs s = Some (st, s')"
  shows "gcd_inv mem io s'"
  using assms CoreAllocateMemorySpace_inv [OF assms(1,2)] by (auto simp: claim_pages_def bind_eq_Some_conv)

lemma claim_loop_inv:
  "gcd_inv mem io s \<Longrightarrow> claim_loop E mt B cs st n s = Some (st', s') \<Longrightarrow> gcd_inv mem io s'"
proof (induction n arbitrary: B st s)
  case (Suc n)
  then obtain st1 s1 where c: "claim_pages E mt B EFI_PAGE_SIZE 1 cs s = Some (st1, s1)"
    "claim_loop E mt (B + EFI_PAGE_SIZE) cs st1 n s1 = Some (st', s')"
    by (auto simp: bind_eq_Some_conv)
  have "gcd_inv mem io s1" using claim_pages_inv [OF Suc.prems(1) _ c(1)] by simp
  then show ?case by (rule Suc.IH [OF _ c(2)])
qed simp

lemma CoreInternalAddMemorySpace_inv:
  assumes "gcd_inv mem io s" "unat B + unat L \<le> 2 ^ 64" "CoreInternalAddMemorySpace E mt B L cs s = Some (st, s')"
  shows "gcd_inv mem io s'"
  using assms CoreConvertSpace_inv [OF assms(1) space_op_codes(1) assms(2)]
  by (auto simp: CoreInternalAddMemorySpace_def split: if_splits)

text \<open>Memory that could be added lies inside the space, so that its pages are fewer than \<open>2 ^ 51\<close>.\<close>

lemma CoreInternalAddMemorySpace_inside:
  assumes inv: "gcd_inv mem io s" and wrap: "unat B + unat L \<le> 2 ^ 64"
    and run: "CoreInternalAddMemorySpace E mt B L cs s = Some (EFI_SUCCESS, s')"
  shows "unat B + unat L \<le> 2 ^ 63"
proof (rule ccontr)
  assume "\<not> ?thesis"
  then have "mem < unat B + unat L" using inv by (simp add: gcd_inv_def)
  moreover have "L \<noteq> 0" "CoreConvertSpace E GCD_ADD_MEMORY_OPERATION mt 0 B L cs 0 s = Some (EFI_SUCCESS, s')"
    using run by (auto simp: CoreInternalAddMemorySpace_def CoreConvertSpace_def split: if_splits)
  ultimately show False
    using CoreConvertSpace_outside [of GCD_ADD_MEMORY_OPERATION s mem L B E mt 0 cs 0] inv wrap
    by (auto simp: gcd_inv_def space_map_def)
qed

lemma page_align_length_le: "unat (PageAlignLength x) \<le> unat x"
proof -
  have m: "LShiftU64 1 EFI_PAGE_SHIFT - 1 = mask 12" by (simp add: LShiftU64_def mask_eq_exp_minus_1 push_bit_eq_mult)
  show ?thesis
    unfolding PageAlignLength_def AlignValue_def Let_def m by (simp add: unat_align_down div_times_less_eq_dividend)
qed

lemma page_length_bound:
  assumes "unat B + unat L \<le> 2 ^ 63"
  shows "unat (PageAlignLength (B + L - PageAlignLength B)) \<le> 2 ^ 63"
proof -
  have s: "unat (B + L) = unat B + unat L" using assms by (intro unat_add_noc) simp
  then have "PageAlignLength B \<le> B + L" using page_align_length_le [of B] by (simp add: word_le_nat_alt)
  then have "unat (B + L - PageAlignLength B) \<le> unat B + unat L" using s by (simp add: unat_sub)
  then show ?thesis using page_align_length_le [of "B + L - PageAlignLength B"] assms by linarith
qed

lemma CoreAddMemorySpace_inv:
  assumes inv: "gcd_inv mem io s" and wrap: "unat B + unat L \<le> 2 ^ 64"
    and run: "CoreAddMemorySpace E mt B L cs s = Some (st, s')"
  shows "gcd_inv mem io s'"
proof -
  obtain st1 s1 where add: "CoreInternalAddMemorySpace E mt B L cs s = Some (st1, s1)"
    using run by (auto simp: CoreAddMemorySpace_def bind_eq_Some_conv)
  have inv1: "gcd_inv mem io s1" by (rule CoreInternalAddMemorySpace_inv [OF inv wrap add])
  show ?thesis
  proof (cases "\<not> EFI_ERROR st1 \<and> mt = EfiGcdMemoryTypeSystemMemory")
    case True
    let ?b = "PageAlignLength B" and ?l = "PageAlignLength (B + L - PageAlignLength B)"
    have "unat ?l \<le> 2 ^ 63"
      using CoreInternalAddMemorySpace_inside [OF inv wrap] add True by (intro page_length_bound) (auto simp: EFI_ERROR_def)
    moreover obtain st2 s2 where c: "claim_pages E mt ?b ?l (drop_bit 12 ?l) cs s1 = Some (st2, s2)"
      "s' = s2 \<or> claim_loop E mt ?b cs st2 (unat (drop_bit 12 ?l)) s2 = Some (st, s')"
      using run add True by (auto simp: CoreAddMemorySpace_def bind_eq_Some_conv Let_def split: if_splits)
    ultimately have "gcd_inv mem io s2" using claim_pages_inv [OF inv1] by blast
    with c(2) claim_loop_inv show ?thesis by blast
  next
    case False
    with run add inv1 show ?thesis by (auto simp: CoreAddMemorySpace_def)
  qed
qed

lemma locks_inv:
  assumes "gcd_inv mem io s"
  shows "CoreGetMemorySpaceDescriptor E B nn s = Some (st, d, s') \<Longrightarrow> gcd_inv mem io s'"
    "CoreGetMemorySpaceMap E n m s = Some (st, ds, s') \<Longrightarrow> gcd_inv mem io s'"
    "CoreGetIoSpaceDescriptor E B nn s = Some (st, di, s') \<Longrightarrow> gcd_inv mem io s'"
    "CoreGetIoSpaceMap E n m s = Some (st, dis, s') \<Longrightarrow> gcd_inv mem io s'"
  using assms
  by (auto simp: CoreGetMemorySpaceDescriptor_def CoreGetMemorySpaceMap_def CoreGetIoSpaceDescriptor_def CoreGetIoSpaceMap_def
      CoreAcquireGcdMemoryLock_def CoreReleaseGcdMemoryLock_def CoreAcquireGcdIoLock_def CoreReleaseGcdIoLock_def
      bind_eq_Some_conv gcd_inv_def unlocked_def Let_def split: if_splits prod.splits sum.splits)

lemma gcd_exec_inv:
  assumes inv: "gcd_inv mem io s" and ok: "call_ok c" and run: "gcd_exec E c s = Some (st, t)"
  shows "gcd_inv mem io t"
proof (cases c)
  case (AddMemory mt B L cs)
  with ok run CoreAddMemorySpace_inv [OF inv] show ?thesis by simp
next
  case (AllocateMemory ty mt al L base img dev)
  with ok run CoreAllocateMemorySpace_inv [OF inv] show ?thesis by auto
next
  case (AllocateIo ty it al L base img dev)
  with ok run CoreAllocateSpace_inv [OF inv, of GCD_ALLOCATE_IO_OPERATION] show ?thesis
    by (auto simp: CoreAllocateIoSpace_def alloc_op_def)
next
  case (AddIo it B L)
  with ok run CoreConvertSpace_inv [OF inv space_op_codes(6)] inv show ?thesis
    by (auto simp: CoreAddIoSpace_def split: if_splits)
qed (use ok run inv locks_inv [OF inv] CoreConvertSpace_inv [OF inv space_op_codes(3)] CoreConvertSpace_inv [OF inv space_op_codes(4)]
    CoreConvertSpace_inv [OF inv space_op_codes(5)] CoreConvertSpace_inv [OF inv space_op_codes(8)] CoreConvertSpace_inv [OF inv space_op_codes(9)]
    in \<open>auto simp: CoreFreeMemorySpace_def CoreRemoveMemorySpace_def CoreSetMemorySpaceAttributes_def CoreFreeIoSpace_def CoreRemoveIoSpace_def\<close>)

interpretation gcd: step_system "gcd_inv mem io" "gcd_step E" "gcd_inv mem io" for E :: "'p gcd_env" and mem io
  by unfold_locales (auto simp: gcd_step_def dest: gcd_exec_inv)

subsection \<open>Initialisation\<close>

fun hob_ok :: "HOB \<Rightarrow> bool" where
  "hob_ok (HobResource ty attribute start len) \<longleftrightarrow> unat start + unat len \<le> 2 ^ 64"
| "hob_ok (HobMemoryAllocation ty base len) \<longleftrightarrow> unat len \<le> 2 ^ 63"
| "hob_ok (HobFirmwareVolume base len) \<longleftrightarrow> unat len \<le> 2 ^ 63"
| "hob_ok HobOther \<longleftrightarrow> True"

definition gcd_start :: "'p gcd \<Rightarrow> bool" where
  "gcd_start s \<longleftrightarrow> mGcdMemorySpaceMap s = [] \<and> mGcdIoSpaceMap s = [] \<and> unlocked s"

lemma init_maps_inv:
  assumes "gcd_start s" "m < 64" "i < 64"
  shows "gcd_inv (2 ^ unat m) (2 ^ unat i) (init_maps m i s)"
proof -
  have "unat (LShiftU64 1 n - 1) + 1 = 2 ^ unat n" "(2 :: nat) ^ unat n \<le> 2 ^ 63" if "n < 64" for n :: uint64
  proof -
    have n: "unat n < 64" using that by (simp add: word_less_nat_alt)
    then show "unat (LShiftU64 1 n - 1) + 1 = 2 ^ unat n" unfolding LShiftU64_def shift_mask by (simp add: unat_mask)
    show "(2 :: nat) ^ unat n \<le> 2 ^ 63" using n by (intro power_increasing) simp_all
  qed
  with assms show ?thesis
    by (auto simp: gcd_inv_def gcd_start_def init_maps_def unlocked_def mGcdMemorySpaceMapEntryTemplate_def mGcdIoSpaceMapEntryTemplate_def)
qed

lemma foldM_inv:
  assumes "foldM f xs s = Some t" "I s" "\<And>x s t. x \<in> set xs \<Longrightarrow> I s \<Longrightarrow> f x s = Some t \<Longrightarrow> I t"
  shows "I t"
  using assms by (induction xs arbitrary: s) (auto simp: bind_eq_Some_conv)

lemma add_resource_hob_inv:
  assumes inv: "gcd_inv mem io s" and ok: "hob_ok h" and run: "add_resource_hob E h s = Some t"
  shows "gcd_inv mem io t"
proof (cases h)
  case (HobResource ty attribute start len)
  define s1 where "s1 = (if resource_memory_type ty attribute \<noteq> EfiGcdMemoryTypeNonExistent
    then map_option snd (CoreInternalAddMemorySpace E (resource_memory_type ty attribute) start len
      (CoreConvertResourceDescriptorHobAttributesToCapabilities (resource_memory_type ty attribute) attribute) s) else Some s)"
  obtain u where u: "s1 = Some u" "(if resource_io_type ty \<noteq> EfiGcdIoTypeNonExistent
      then map_option snd (CoreAddIoSpace E (resource_io_type ty) start len u) else Some u) = Some t"
    using run HobResource by (auto simp: add_resource_hob_def s1_def bind_eq_Some_conv Let_def split: if_splits)
  have "gcd_inv mem io u"
    using u(1) inv CoreInternalAddMemorySpace_inv [OF inv] ok HobResource by (auto simp: s1_def split: if_splits)
  then show ?thesis
    using u(2) gcd_exec_inv [of mem io u "AddIo (resource_io_type ty) start len" E] ok HobResource by (auto split: if_splits)
qed (use inv run in \<open>simp_all add: add_resource_hob_def\<close>)

lemma claim_hob_inv:
  assumes inv: "gcd_inv mem io s" and ok: "hob_ok h" and run: "claim_hob E h s = Some t"
  shows "gcd_inv mem io t"
proof (cases h)
  case (HobMemoryAllocation ty base len)
  then obtain st d s1 where d: "CoreGetMemorySpaceDescriptor E base True s = Some (st, d, s1)"
    using run by (auto simp: claim_hob_def bind_eq_Some_conv)
  have inv1: "gcd_inv mem io s1" by (rule locks_inv(1) [OF inv d])
  show ?thesis
    using run d HobMemoryAllocation inv1 CoreAllocateMemorySpace_inv [OF inv1] ok
    by (auto simp: claim_hob_def bind_eq_Some_conv split: option.splits)
next
  case (HobFirmwareVolume base len)
  with run ok CoreAllocateMemorySpace_inv [OF inv] show ?thesis by (auto simp: claim_hob_def bind_eq_Some_conv)
qed (use inv run in \<open>simp_all add: claim_hob_def\<close>)

lemma claim_descriptor_inv:
  assumes inv: "gcd_inv mem io s" and d: "unat (DescriptorBase d + DescriptorLength d) \<le> 2 ^ 63"
    and run: "claim_descriptor E d s = Some t"
  shows "gcd_inv mem io t"
proof -
  let ?b = "PageAlignAddress (DescriptorBase d)"
  let ?l = "PageAlignLength (DescriptorBase d + DescriptorLength d - ?b)"
  show ?thesis
  proof (cases "t = s")
    case False
    obtain p st b' where c: "CoreAllocateMemorySpace E EfiGcdAllocateAddress EfiGcdMemoryTypeSystemMemory 0 ?l (Some ?b)
        (gDxeCoreImageHandle E) 0 (s\<lparr>Memory := p\<rparr>) = Some (st, b', t)" "\<not> DescriptorBase d + DescriptorLength d < ?b"
      using run False by (auto simp: claim_descriptor_def Let_def bind_eq_Some_conv split: if_splits)
    have "unat ?l \<le> unat (DescriptorBase d + DescriptorLength d - ?b)" by (rule page_align_length_le)
    also have "\<dots> \<le> 2 ^ 63" using c(2) d by (simp add: unat_sub not_less)
    finally have "unat ?l \<le> 2 ^ 63" .
    then show ?thesis using CoreAllocateMemorySpace_inv [OF _ _ c(1)] inv by simp
  qed (use inv in simp)
qed

lemma descriptors_bounded:
  assumes "gcd_inv mem io s" "d \<in> set (map BuildMemoryDescriptor (mGcdMemorySpaceMap s))"
  shows "unat (DescriptorBase d + DescriptorLength d) \<le> 2 ^ 63"
proof -
  obtain e where e: "e \<in> set (mGcdMemorySpaceMap s)" "d = BuildMemoryDescriptor e" using assms(2) by auto
  have c: "covers 0 mem (mGcdMemorySpaceMap s)" using assms(1) by (simp add: gcd_inv_def)
  have "in_entry (unat (EndAddress e)) e" using entry_nonempty [OF c e(1)] by (simp add: in_entry_def)
  with not_in_before [OF c _ e(1)] have "unat (EndAddress e) < mem" by (meson not_le)
  then have "unat (EndAddress e + 1) \<le> 2 ^ 63" using assms(1) unat_add_noc [of "EndAddress e" 1] by (simp add: gcd_inv_def)
  then show ?thesis by (simp add: e(2) BuildMemoryDescriptor_def)
qed

lemma CoreGetMemorySpaceMap_descriptors:
  assumes "CoreGetMemorySpaceMap E True True s = Some (st, Some (n, Some ds), s')"
  shows "ds = map BuildMemoryDescriptor (mGcdMemorySpaceMap s')"
  using assms by (auto simp: CoreGetMemorySpaceMap_def CoreAcquireGcdMemoryLock_def CoreReleaseGcdMemoryLock_def
      bind_eq_Some_conv Let_def split: if_splits prod.splits)

lemma CoreInitializeGcdServices_inv:
  assumes start: "gcd_start s" and sizes: "m < 64" "i < 64" and hobs: "\<forall>h \<in> set hobs. hob_ok h" and len: "unat len \<le> 2 ^ 63"
    and run: "CoreInitializeGcdServices E hobs m i base len s = Some (st, s')"
  shows "gcd_inv (2 ^ unat m) (2 ^ unat i) s'"
proof -
  let ?I = "gcd_inv (2 ^ unat m) (2 ^ unat i)"
  from run obtain s1 st1 b1 s2 s3 st2 n ds s4 where
    1: "foldM (add_resource_hob E) hobs (init_maps m i s) = Some s1" and
    2: "CoreAllocateMemorySpace E EfiGcdAllocateAddress EfiGcdMemoryTypeSystemMemory 0 len (Some base) (gDxeCoreImageHandle E) 0 s1 =
      Some (st1, b1, s2)" and
    3: "foldM (claim_hob E) hobs s2 = Some s3" and
    4: "CoreGetMemorySpaceMap E True True s3 = Some (st2, Some (n, Some ds), s4)" and
    5: "foldM (claim_descriptor E) ds s4 = Some s'"
    by (auto simp: CoreInitializeGcdServices_def bind_eq_Some_conv Let_def)
  have "?I s1" using foldM_inv [OF 1, of ?I] init_maps_inv [OF start sizes] add_resource_hob_inv hobs by blast
  then have "?I s2" by (rule CoreAllocateMemorySpace_inv [OF _ len 2])
  then have "?I s3" using foldM_inv [OF 3, of ?I] claim_hob_inv hobs by blast
  then have s4: "?I s4" by (rule locks_inv(2) [OF _ 4])
  have "unat (DescriptorBase d + DescriptorLength d) \<le> 2 ^ 63" if "d \<in> set ds" for d
    using descriptors_bounded [OF s4] that CoreGetMemorySpaceMap_descriptors [OF 4] by blast
  then show ?thesis using foldM_inv [OF 5, of ?I] s4 claim_descriptor_inv by blast
qed

end
