(* ===== verification/GcdProps.thy ===== *)
theory GcdProps
  imports GcdSystem
begin

section \<open>Properties of the global coherency domain\<close>

text \<open>
  The properties of the services, each with a witness on a small machine: 20 address lines of memory, 16 of
  I/O, a pool that never runs out, and no CPU protocol.
\<close>

subsection \<open>A small machine\<close>

definition demo_env :: "bool \<Rightarrow> unit gcd_env" where
  "demo_env en = \<lparr>AssertEnabled = en, AllocateEntry = (\<lambda>p. (True, p)), FreeEntry = id, AllocateArray = (\<lambda>n p. (True, p)),
     AddMemoryDescriptor = (\<lambda>t b n a p. p), CpuArch = None, gDxeCoreImageHandle = 1\<rparr>"

definition demo_start :: "unit gcd" where
  "demo_start = \<lparr>mGcdMemorySpaceMap = [], mGcdIoSpaceMap = [], mGcdMemorySpaceLock = EfiLockReleased,
     mGcdIoSpaceLock = EfiLockReleased, Memory = ()\<rparr>"

definition demo_gcd :: "unit gcd" where
  "demo_gcd = init_maps 20 16 demo_start"

lemma demo_gcd_inv: "gcd_inv (2 ^ 20) (2 ^ 16) demo_gcd"
  using init_maps_inv [of demo_start 20 16] by (simp add: demo_gcd_def gcd_start_def demo_start_def unlocked_def)

lemma demo_map: "mGcdMemorySpaceMap demo_gcd = empty_space 0xFFFFF" "unlocked demo_gcd"
  by (simp_all add: demo_gcd_def demo_start_def init_maps_def empty_space_def LShiftU64_def unlocked_def)

lemma demo_available [simp]: "entries_available (demo_env en) p"
  by (simp add: entries_available_def demo_env_def)

text \<open>C29. Every state that service calls whose ranges do not wrap around reach after the initialisation of the maps
  from hand-off blocks has both maps sorted, without gap or overlap, covering exactly the address space of the
  CPU, and both locks released, whatever the calls return and in whatever order they come. This holds with
  assertions enabled and disabled. The ranges of the blocks (\<open>hob_ok\<close>) and of the calls (\<open>call_ok\<close>) end
  at or below 2 to the 64, and no length of an allocation is above 2 to the 63; with a range that wraps around
  a call can corrupt the map, which a later property shows.\<close>

theorem gcd_services_invariant:
  assumes "gcd_start s" "m < 64" "i < 64" "\<forall>h \<in> set hobs. hob_ok h" "unat len \<le> 2 ^ 63"
    and "CoreInitializeGcdServices E hobs m i base len s = Some (st, s1)" "(gcd_step E)\<^sup>*\<^sup>* s1 t"
  shows "gcd_inv (2 ^ unat m) (2 ^ unat i) t"
  using gcd.inv_steps [OF assms(7) CoreInitializeGcdServices_inv [OF assms(1-6)]] .

definition demo_hobs :: "HOB list" where
  "demo_hobs = [HobResource EFI_RESOURCE_MEMORY_RESERVED 7 0xF0000 0x10000, HobOther]"

lemma demo_runs:
  "case CoreInitializeGcdServices (demo_env True) demo_hobs 20 16 0 0 demo_start of
     None \<Rightarrow> False
   | Some (st1, s1) \<Rightarrow> (case gcd_exec (demo_env True) (AddMemory EfiGcdMemoryTypeMemoryMappedIo 0x1000 0x2000 1) s1 of
       None \<Rightarrow> False | Some (st2, t) \<Rightarrow> length (mGcdMemorySpaceMap t) = 4)"
  by code_simp

theorem gcd_services_invariant_witness:
  "\<exists>s1 t st1. CoreInitializeGcdServices (demo_env True) demo_hobs 20 16 0 0 demo_start = Some (st1, s1) \<and>
     (gcd_step (demo_env True))\<^sup>*\<^sup>* s1 t \<and> length (mGcdMemorySpaceMap t) = 4 \<and> gcd_inv (2 ^ 20) (2 ^ 16) t"
proof -
  obtain st1 s1 st2 t where run: "CoreInitializeGcdServices (demo_env True) demo_hobs 20 16 0 0 demo_start = Some (st1, s1)"
    and exec: "gcd_exec (demo_env True) (AddMemory EfiGcdMemoryTypeMemoryMappedIo 0x1000 0x2000 1) s1 = Some (st2, t)"
    and len: "length (mGcdMemorySpaceMap t) = 4"
    using demo_runs by (auto split: option.splits prod.splits)
  have step: "(gcd_step (demo_env True))\<^sup>*\<^sup>* s1 t"
    using exec by (intro r_into_rtranclp) (auto simp: gcd_step_def intro!: exI [of _ "AddMemory EfiGcdMemoryTypeMemoryMappedIo 0x1000 0x2000 1"])
  have "gcd_inv (2 ^ unat (20 :: uint64)) (2 ^ unat (16 :: uint64)) t"
    by (rule gcd_services_invariant [OF _ _ _ _ _ run step])
      (simp_all add: gcd_start_def demo_start_def unlocked_def demo_hobs_def)
  with run step len show ?thesis by auto
qed

subsection \<open>Conversion\<close>

text \<open>C30. \<open>CoreConvertSpace\<close>, on which adding, freeing, removing and setting attributes rest, implements the pointwise
  conversion of an address space. On a range inside the space it returns; the status is success exactly if
  every address of the range passes the check of the operation, the two work entries can be allocated and
  the CPU accepts the attributes; then the attributes of exactly the addresses of the range are converted.
  On failure the map is unchanged. The other map and the locks stay as they are.\<close>

theorem CoreConvertSpace_refines:
  assumes "space_op op" "unlocked s" "covers 0 hi (space_map op s)" "L \<noteq> 0" "unat B + unat L \<le> hi"
    and "AssertEnabled E \<longrightarrow> single_cut (space_map op s) (unat B) (unat L)"
  shows "\<exists>st es p. CoreConvertSpace E op mt it B L cs ats s = Some (st, (set_space_map op es s)\<lparr>Memory := p\<rparr>) \<and>
    convert_spec hi (entries_available E (Memory s) \<and> \<not> EFI_ERROR (set_cpu_attributes E op B L ats))
      (convert_check op B L ats) (convert_entry op mt it cs ats) (unat B) (unat L) (space_map op s) st es"
  by (rule CoreConvertSpace_ok [OF assms])

lemma demo_covers: "covers 0 (2 ^ 20) (empty_space 0xFFFFF)"
  by (simp add: empty_space_def mGcdMemorySpaceMapEntryTemplate_def)

theorem CoreConvertSpace_refines_witness:
  "\<exists>st es p. CoreConvertSpace (demo_env True) GCD_ADD_MEMORY_OPERATION 1 0 0x1000 0x2000 0 0 demo_gcd =
      Some (st, (set_space_map GCD_ADD_MEMORY_OPERATION es demo_gcd)\<lparr>Memory := p\<rparr>) \<and>
    convert_spec (2 ^ 20) True (convert_check GCD_ADD_MEMORY_OPERATION 0x1000 0x2000 0)
      (convert_entry GCD_ADD_MEMORY_OPERATION 1 0 0 0) 0x1000 0x2000 (empty_space 0xFFFFF) st es"
proof -
  have m: "space_map GCD_ADD_MEMORY_OPERATION demo_gcd = empty_space 0xFFFFF" by (simp add: space_map_def demo_map)
  have "single_cut (empty_space 0xFFFFF) 0x1000 0x2000"
    by (simp add: single_cut_def empty_space_def in_entry_def mGcdMemorySpaceMapEntryTemplate_def)
  then show ?thesis
    using CoreConvertSpace_refines [where op = GCD_ADD_MEMORY_OPERATION and s = demo_gcd and hi = "2 ^ 20" and L = "0x2000" and B = "0x1000" and
        E = "demo_env True" and mt = 1 and it = 0 and cs = 0 and ats = 0] demo_covers m
    by (simp add: demo_map set_cpu_attributes_def)
qed

text \<open>C33. With assertions enabled \<open>CoreFreeMemorySpace\<close> does not return for a range of allocated memory that begins
  inside one entry and ends in another: the second entry meets the assertion that \<open>BottomEntry\<close> is
  unused.\<close>

theorem CoreFreeMemorySpace_asserts:
  assumes "unlocked s" "covers 0 hi (mGcdMemorySpaceMap s)" "L \<noteq> 0" "unat B + unat L \<le> hi" "AssertEnabled E"
    and "\<And>a. unat B \<le> a \<Longrightarrow> a < unat B + unat L \<Longrightarrow> \<exists>c. cell_at (mGcdMemorySpaceMap s) a = Some c \<and> ImageHandle c \<noteq> 0"
    and "\<not> single_cut (mGcdMemorySpaceMap s) (unat B) (unat L)" "entries_available E (Memory s)"
  shows "CoreFreeMemorySpace E B L s = None"
  unfolding CoreFreeMemorySpace_def
proof (rule CoreConvertSpace_asserts)
  show "all_cells (convert_check GCD_FREE_MEMORY_OPERATION B L 0) (space_map GCD_FREE_MEMORY_OPERATION s) (unat B) (unat L)"
    using assms(6) by (fastforce simp: all_cells_def convert_check_def space_map_def)
qed (use assms in \<open>simp_all add: space_map_def set_cpu_attributes_def\<close>)

definition demo_two :: "unit gcd" where
  "demo_two = demo_gcd\<lparr>mGcdMemorySpaceMap :=
    [mGcdMemorySpaceMapEntryTemplate\<lparr>EndAddress := 0xFFF, ImageHandle := 1\<rparr>,
     mGcdMemorySpaceMapEntryTemplate\<lparr>BaseAddress := 0x1000, EndAddress := 0xFFFFF, ImageHandle := 2\<rparr>]\<rparr>"

theorem CoreFreeMemorySpace_asserts_witness: "CoreFreeMemorySpace (demo_env True) 0x800 0x1000 demo_two = None"
  by (rule CoreFreeMemorySpace_asserts [where hi = "2 ^ 20"])
    (auto simp: demo_two_def demo_map unlocked_def [of "mGcdMemorySpaceMap_update _ _"] demo_env_def entries_available_def
      single_cut_def in_entry_def mGcdMemorySpaceMapEntryTemplate_def demo_gcd_def init_maps_def demo_start_def unlocked_def)

text \<open>C34. A range whose end address wraps around passes the search when both its ends are in one entry: adding it
  succeeds and leaves a map whose second entry ends before it begins, which is not a map of any address
  space.\<close>

theorem CoreInternalAddMemorySpace_corrupts:
  assumes "mGcdMemorySpaceMap s = empty_space limit" "unlocked s" "entries_available E (Memory s)"
    and "0 < mt" "mt < EfiGcdMemoryTypeMemoryMappedIo" "B \<le> limit" "L \<noteq> 0" "B + L - 1 < B"
  shows "\<exists>s'. CoreInternalAddMemorySpace E mt B L 0 s = Some (EFI_SUCCESS, s') \<and> (\<forall>hi. \<not> covers 0 hi (mGcdMemorySpaceMap s'))"
  using CoreInternalAddMemorySpace_wraps [OF assms] wrapped_not_covers [OF assms(8)] by auto

theorem CoreInternalAddMemorySpace_corrupts_witness:
  "\<exists>s'. CoreInternalAddMemorySpace (demo_env True) 1 0x1000 0xFFFFFFFFFFFFF800 0 demo_gcd = Some (EFI_SUCCESS, s') \<and>
     (\<forall>hi. \<not> covers 0 hi (mGcdMemorySpaceMap s'))"
  by (rule CoreInternalAddMemorySpace_corrupts [OF demo_map]) simp_all

subsection \<open>Allocation\<close>

text \<open>C31. \<open>CoreAllocateSpace\<close> returns for every kind of search. The range it finds is aligned, not above the limit,
  and every address of it is unallocated and of the wanted type; for a given address it succeeds exactly
  if that range is so; searching from the bottom up it finds the lowest such range, and fails only if there
  is none. On success exactly the addresses of the range get the handles, otherwise the map is unchanged.\<close>

theorem CoreAllocateSpace_finds:
  assumes "unlocked s" "covers 0 hi (space_map op s)" "space_map op s \<noteq> []" "hi \<le> 2 ^ 63" "alloc_op op"
    and "L \<noteq> 0" "unat L \<le> 2 ^ 63" "al < 64" "0 \<le> ty" "ty < EfiGcdMaxAllocateType"
    and "0 \<le> mt" "mt < EfiGcdMemoryTypeMaximum" "0 \<le> it" "it < EfiGcdIoTypeMaximum" "img \<noteq> 0"
    and "AssertEnabled E \<longrightarrow> (\<forall>a. all_cells (CoreAllocateSpaceCheckEntry op mt it) (space_map op s) a (unat L) \<longrightarrow>
      single_cut (space_map op s) a (unat L))"
  shows "\<exists>st B' es p. CoreAllocateSpace E op ty mt it al L (Some B) img dev s =
      Some (st, Some B', (set_space_map op es s)\<lparr>Memory := p\<rparr>) \<and>
    alloc_spec hi (entries_available E (Memory s)) (CoreAllocateSpaceCheckEntry op mt it) ty (unat al) L B img dev (space_map op s) st B' es"
  by (rule CoreAllocateSpace_ok [OF assms])

theorem CoreAllocateSpace_finds_witness:
  "\<exists>st B' es p. CoreAllocateSpace (demo_env False) GCD_ALLOCATE_MEMORY_OPERATION EfiGcdAllocateAnySearchBottomUp 0 0 12 0x2000 (Some 5) 1 0 demo_gcd =
      Some (st, Some B', (set_space_map GCD_ALLOCATE_MEMORY_OPERATION es demo_gcd)\<lparr>Memory := p\<rparr>) \<and>
    alloc_spec (2 ^ 20) True (CoreAllocateSpaceCheckEntry GCD_ALLOCATE_MEMORY_OPERATION 0 0) EfiGcdAllocateAnySearchBottomUp 12 0x2000 5 1 0
      (empty_space 0xFFFFF) st B' es"
proof -
  have m: "space_map GCD_ALLOCATE_MEMORY_OPERATION demo_gcd = empty_space 0xFFFFF" by (simp add: space_map_def demo_map)
  have ne: "empty_space 0xFFFFF \<noteq> []" by (simp add: empty_space_def)
  show ?thesis
    using CoreAllocateSpace_finds [where op = GCD_ALLOCATE_MEMORY_OPERATION and s = demo_gcd and hi = "2 ^ 20" and L = "0x2000" and
        al = 12 and ty = EfiGcdAllocateAnySearchBottomUp and mt = 0 and it = 0 and img = 1 and dev = 0 and E = "demo_env False" and B = 5]
      demo_covers m ne demo_map(2) by (simp add: alloc_op_def demo_env_def [of False] entries_available_def)
qed

text \<open>Memory that is not allocated belongs to no device.\<close>

definition free_has_no_device :: "EFI_GCD_MAP_ENTRY list \<Rightarrow> bool" where
  "free_has_no_device es \<longleftrightarrow> (\<forall>e \<in> set es. ImageHandle e = 0 \<longrightarrow> DeviceHandle e = 0)"

lemma alloc_args:
  assumes "CoreAllocateSpace E op ty mt it al L (Some B) img dev s = Some (EFI_SUCCESS, b, s')"
  shows "0 \<le> ty \<and> ty < EfiGcdMaxAllocateType \<and> 0 \<le> mt \<and> mt < EfiGcdMemoryTypeMaximum \<and> 0 \<le> it \<and> it < EfiGcdIoTypeMaximum \<and>
    img \<noteq> 0 \<and> al < 64 \<and> L \<noteq> 0"
  using assms by (auto simp: CoreAllocateSpace_def not_le split: if_splits)

lemma allocated_cells:
  assumes inv: "gcd_inv mem io s" and E: "\<not> AssertEnabled E" and L: "unat L \<le> 2 ^ 63"
    and run: "CoreAllocateMemorySpace E ty mt al L (Some B) img dev s = Some (EFI_SUCCESS, Some B', s1)"
  shows "all_cells (CoreAllocateSpaceCheckEntry GCD_ALLOCATE_MEMORY_OPERATION mt 0) (mGcdMemorySpaceMap s) (unat B') (unat L)"
    "updated (mGcdMemorySpaceMap s) (unat B') (unat L) (\<lambda>c. c\<lparr>ImageHandle := img, DeviceHandle := dev\<rparr>) (mGcdMemorySpaceMap s1)"
    "img \<noteq> 0" "L \<noteq> 0"
proof -
  let ?op = GCD_ALLOCATE_MEMORY_OPERATION
  have map: "space_map ?op t = mGcdMemorySpaceMap t" for t :: "'a gcd" by (simp add: space_map_def)
  note args = alloc_args [OF run [unfolded CoreAllocateMemorySpace_def]]
  show "img \<noteq> 0" "L \<noteq> 0" using args by auto
  have "\<exists>st B' es p. CoreAllocateSpace E ?op ty mt 0 al L (Some B) img dev s = Some (st, Some B', (set_space_map ?op es s)\<lparr>Memory := p\<rparr>) \<and>
      alloc_spec mem (entries_available E (Memory s)) (CoreAllocateSpaceCheckEntry ?op mt 0) ty (unat al) L B img dev (space_map ?op s) st B' es"
    using inv args E L by (intro CoreAllocateSpace_ok) (auto simp: gcd_inv_def map alloc_op_def)
  then obtain es p where spec: "alloc_spec mem (entries_available E (Memory s)) (CoreAllocateSpaceCheckEntry ?op mt 0) ty (unat al) L B
      img dev (mGcdMemorySpaceMap s) EFI_SUCCESS B' es" and s1: "s1 = (set_space_map ?op es s)\<lparr>Memory := p\<rparr>"
    using run by (auto simp: CoreAllocateMemorySpace_def map)
  have s1m: "mGcdMemorySpaceMap s1 = es" using s1 by (simp add: set_space_map_def)
  show "all_cells (CoreAllocateSpaceCheckEntry ?op mt 0) (mGcdMemorySpaceMap s) (unat B') (unat L)"
    using spec by (auto simp: alloc_spec_def find_spec_def suitable_def Let_def split: if_splits)
  show "updated (mGcdMemorySpaceMap s) (unat B') (unat L) (\<lambda>c. c\<lparr>ImageHandle := img, DeviceHandle := dev\<rparr>) (mGcdMemorySpaceMap s1)"
    using spec by (simp add: alloc_spec_def s1m)
qed

text \<open>C32. Freeing what has been allocated restores the memory space: after a successful allocation the same range
  can be freed, and then every address has the attributes it had before. The conditions: assertions are
  disabled (with them the service that frees can stop, which a property below shows), the pool still has
  memory for the map entries that freeing may split off, no entry that is free before records a device handle
  (allocation and freeing overwrite it), and the length is at most 2 to the 63.\<close>

theorem allocate_free_roundtrip:
  assumes inv: "gcd_inv mem io s" and E: "\<not> AssertEnabled E" and L: "unat L \<le> 2 ^ 63" and dev: "free_has_no_device (mGcdMemorySpaceMap s)"
    and alloc: "CoreAllocateMemorySpace E ty mt al L (Some B) img dv s = Some (EFI_SUCCESS, Some B', s1)"
    and pool: "entries_available E (Memory s1)"
  shows "\<exists>s2. CoreFreeMemorySpace E B' L s1 = Some (EFI_SUCCESS, s2) \<and>
    (\<forall>a. cell_at (mGcdMemorySpaceMap s2) a = cell_at (mGcdMemorySpaceMap s) a)"
proof -
  let ?op = GCD_FREE_MEMORY_OPERATION and ?m = mGcdMemorySpaceMap and ?g = "convert_entry GCD_FREE_MEMORY_OPERATION 0 0 0 0"
  note c = allocated_cells [OF inv E L alloc]
  have inv1: "gcd_inv mem io s1" by (rule CoreAllocateMemorySpace_inv [OF inv L alloc])
  have inside: "unat B' + unat L \<le> mem"
    using all_cells_inside [OF c(1)] inv c(4) by (auto simp: gcd_inv_def unat_gt_0)
  have "all_cells (convert_check ?op B' L 0) (?m s1) (unat B') (unat L)"
    unfolding all_cells_def
  proof (intro allI impI)
    fix a
    assume a: "unat B' \<le> a" "a < unat B' + unat L"
    with c(1) obtain x where "cell_at (?m s) a = Some x" by (auto simp: all_cells_def)
    with a c(2,3) show "\<exists>c. cell_at (?m s1) a = Some c \<and> \<not> EFI_ERROR (convert_check ?op B' L 0 c)"
      by (simp add: updated_def convert_check_def)
  qed
  moreover obtain st es p where run: "CoreFreeMemorySpace E B' L s1 = Some (st, (set_space_map ?op es s1)\<lparr>Memory := p\<rparr>)" and
    spec: "convert_spec mem (entries_available E (Memory s1) \<and> \<not> EFI_ERROR (set_cpu_attributes E ?op B' L 0))
      (convert_check ?op B' L 0) ?g (unat B') (unat L) (space_map ?op s1) st es"
    using CoreConvertSpace_ok [where op = ?op and s = s1 and hi = mem and L = L and B = B' and E = E and mt = 0 and it = 0 and cs = 0 and ats = 0]
      inv1 inside E c(4) by (auto simp: gcd_inv_def space_map_def CoreFreeMemorySpace_def)
  ultimately have st: "st = EFI_SUCCESS" and upd: "updated (?m s1) (unat B') (unat L) ?g es"
    using pool by (auto simp: convert_spec_def space_map_def set_cpu_attributes_def split: if_splits)
  have "cell_at es a = cell_at (?m s) a" for a
  proof (cases "unat B' \<le> a \<and> a < unat B' + unat L")
    case True
    then obtain e where e: "cell_at (?m s) a = Some e" "ImageHandle e = 0"
      using c(1) by (fastforce simp: all_cells_def CoreAllocateSpaceCheckEntry_def split: if_splits)
    then obtain x where "x \<in> set (?m s)" "e = attrs x" using cell_atD by blast
    then have "DeviceHandle e = 0" using dev e(2) by (simp add: free_has_no_device_def)
    then show ?thesis using True upd c(2) e by (cases e) (simp add: updated_def convert_entry_def)
  qed (use upd c(2) in \<open>auto simp: updated_def\<close>)
  with run st show ?thesis by (auto simp: set_space_map_def)
qed

lemma demo_alloc_run:
  "case CoreAllocateMemorySpace (demo_env False) EfiGcdAllocateAnySearchTopDown 0 12 0x2000 (Some 0) 1 0 demo_gcd of
     Some (EFI_SUCCESS, Some b, s1) \<Rightarrow> b = 0xFE000 | _ \<Rightarrow> False"
  by code_simp

theorem allocate_free_roundtrip_witness:
  "\<exists>s1 s2. CoreAllocateMemorySpace (demo_env False) EfiGcdAllocateAnySearchTopDown 0 12 0x2000 (Some 0) 1 0 demo_gcd =
      Some (EFI_SUCCESS, Some 0xFE000, s1) \<and>
    CoreFreeMemorySpace (demo_env False) 0xFE000 0x2000 s1 = Some (EFI_SUCCESS, s2) \<and>
    (\<forall>a. cell_at (mGcdMemorySpaceMap s2) a = cell_at (mGcdMemorySpaceMap demo_gcd) a)"
proof -
  obtain s1 where run: "CoreAllocateMemorySpace (demo_env False) EfiGcdAllocateAnySearchTopDown 0 12 0x2000 (Some 0) 1 0 demo_gcd =
      Some (EFI_SUCCESS, Some 0xFE000, s1)"
    using demo_alloc_run by (auto split: option.splits prod.splits EFI_STATUS.splits)
  have "free_has_no_device (mGcdMemorySpaceMap demo_gcd)" "\<not> AssertEnabled (demo_env False)"
    by (simp_all add: free_has_no_device_def demo_map empty_space_def mGcdMemorySpaceMapEntryTemplate_def demo_env_def)
  with allocate_free_roundtrip [OF demo_gcd_inv _ _ _ run] run show ?thesis by simp
qed

text \<open>The search from the top down does not find a range that ends at the limit: of a space that is one free
  entry, everything cannot be allocated from the top down, although the range is free.\<close>

theorem top_down_misses_exact_fit:
  assumes "mGcdMemorySpaceMap s = empty_space limit" "unlocked s" "unat limit < 2 ^ 63" "img \<noteq> 0"
  shows "CoreAllocateMemorySpace E EfiGcdAllocateAnySearchTopDown EfiGcdMemoryTypeNonExistent 0 (limit + 1) (Some B) img dev s =
      Some (EFI_NOT_FOUND, Some B, s) \<and>
    suitable (CoreAllocateSpaceCheckEntry GCD_ALLOCATE_MEMORY_OPERATION EfiGcdMemoryTypeNonExistent 0) (mGcdMemorySpaceMap s) 0
      (unat (limit + 1)) (unat limit) 0"
proof
  let ?t = mGcdMemorySpaceMapEntryTemplate and ?op = GCD_ALLOCATE_MEMORY_OPERATION
  let ?chk = "CoreAllocateSpaceCheckEntry ?op EfiGcdMemoryTypeNonExistent 0"
  have t [simp]: "BaseAddress ?t = 0" "GcdMemoryType ?t = 0" "ImageHandle ?t = 0"
    by (simp_all add: mGcdMemorySpaceMapEntryTemplate_def)
  have n: "unat (limit + 1) = unat limit + 1" using assms(3) by (subst unat_add_noc) simp_all
  then have L: "limit + 1 \<noteq> 0" "limit < limit + 1" by (auto simp: word_less_nat_alt simp del: unat_eq_zero)
  have step: "alloc_step en ?chk True 0 (limit + 1) limit (empty_space limit) (Some 0, B, None) = Some (None, B, None)" for en
    using L(2) by (simp add: alloc_step_def alloc_candidate_def empty_space_def CoreAllocateSpaceCheckEntry_def next_link_def)
  have "alloc_search en ?chk True 0 (limit + 1) limit (empty_space limit) (Some 0) B = Some (B, Inl EFI_NOT_FOUND)" for en
    unfolding alloc_search_def by (subst while_opt.simps) (simp add: step while_opt_stop)
  then have find: "alloc_find en ?chk EfiGcdAllocateAnySearchTopDown 0 (limit + 1) (empty_space limit) B = Some (B, Inl EFI_NOT_FOUND)" for en
    by (simp add: alloc_find_def LShiftU64_def empty_space_def)
  have "leave_space E ?op (locked_by ?op s) = Some s"
    using leave_space_ok [of ?op s, where E = E and es = "space_map ?op s" and p = "Memory s"] assms(2) by (simp add: set_space_map_same)
  moreover have "space_map ?op s = empty_space limit" by (simp add: space_map_def assms(1))
  ultimately show "CoreAllocateMemorySpace E EfiGcdAllocateAnySearchTopDown EfiGcdMemoryTypeNonExistent 0 (limit + 1) (Some B) img dev s =
      Some (EFI_NOT_FOUND, Some B, s)"
    using find assms L
    by (simp add: CoreAllocateMemorySpace_def CoreAllocateSpace_def alloc_body_def enter_space_ok)
  show "suitable ?chk (mGcdMemorySpaceMap s) 0 (unat (limit + 1)) (unat limit) 0"
    using assms(1) n by (auto simp: suitable_def all_cells_def empty_space_def in_entry_def CoreAllocateSpaceCheckEntry_def)
qed

theorem top_down_misses_exact_fit_witness:
  "CoreAllocateMemorySpace (demo_env True) EfiGcdAllocateAnySearchTopDown EfiGcdMemoryTypeNonExistent 0 0x100000 (Some 0) 1 0 demo_gcd =
     Some (EFI_NOT_FOUND, Some 0, demo_gcd)"
  using top_down_misses_exact_fit [OF demo_map, of 1 "demo_env True" 0 0] by simp

end
