(* ===== verification/Page.thy ===== *)
theory Page
  imports Gcd
begin

unbundle bit_operations_syntax

section \<open>The memory map and page allocation\<close>

text \<open>
  Model of \<^verbatim>\<open>MdeModulePkg/Core/Dxe/Mem/Page.c\<close>: the map of the memory by descriptors, the storage of these
  descriptors, and the services that allocate and free pages.

  The state extends that of the global coherency domain, whose map \<open>PromoteMemoryResource\<close> reads. A
  descriptor is found by its address; \<open>gMemoryMap\<close> and \<open>mFreeMemoryMapEntryList\<close> hold addresses. The slots of
  the array \<open>mMapStack\<close> have the numbers 1 to 6 as addresses, which no descriptor in a page has; a slot whose
  link is NULL is one that is not on \<open>gMemoryMap\<close>.

  Storing a descriptor may allocate a page for descriptors, and that converts pages again. In the source
  \<open>mFreeMapStack\<close> cuts this recursion off; here \<open>CoreFreeMemoryMapStack\<close> has a depth, of which 1 is enough, and the
  functions that call it take it as an argument \<open>F\<close>. A write outside the array, or through a NULL pointer
  when there is no memory for a descriptor, does not return.
\<close>

subsection \<open>Data\<close>

abbreviation (input) "EfiReservedMemoryType \<equiv> 0 :: int"
abbreviation (input) "EfiBootServicesCode \<equiv> 3 :: int"
abbreviation (input) "EfiBootServicesData \<equiv> 4 :: int"
abbreviation (input) "EfiRuntimeServicesCode \<equiv> 5 :: int"
abbreviation (input) "EfiRuntimeServicesData \<equiv> 6 :: int"
abbreviation (input) "EfiConventional \<equiv> 7 :: int"
abbreviation (input) "EfiACPIReclaimMemory \<equiv> 9 :: int"
abbreviation (input) "EfiACPIMemoryNVS \<equiv> 10 :: int"
abbreviation (input) "EfiMemoryMappedIO \<equiv> 11 :: int"
abbreviation (input) "EfiMemoryMappedIOPortSpace \<equiv> 12 :: int"
abbreviation (input) "EfiMaxMemoryType \<equiv> 14 :: int"

abbreviation (input) "MAX_ADDRESS \<equiv> 0xffffffffffffffff :: uint64"
abbreviation (input) "MAX_MAP_DEPTH \<equiv> 6 :: nat"
abbreviation (input) "DEFAULT_PAGE_ALLOCATION \<equiv> 0x1000 :: uint64"

record MEMORY_MAP =
  FromPages :: bool
  Type :: int
  Start :: uint64
  End :: uint64
  VirtualStart :: uint64
  Attribute :: uint64

record EFI_MEMORY_TYPE_STAISTICS =
  TypeBase :: uint64
  MaximumAddress :: uint64
  CurrentNumberOfPages :: uint64
  NumberOfPages :: uint64
  InformationIndex :: nat
  Special :: bool
  Runtime :: bool

record 'w mem = "'w gcd" +
  gMemoryMap :: "nat list"
  mFreeMemoryMapEntryList :: "nat list"
  MapEntries :: "nat \<rightharpoonup> MEMORY_MAP"
  mMapDepth :: nat
  mFreeMapStack :: nat
  mMemoryMapKey :: uint64
  mMemoryTypeStatistics :: "nat \<Rightarrow> EFI_MEMORY_TYPE_STAISTICS"
  mDefaultMaximumAddress :: uint64
  mDefaultBaseAddress :: uint64
  gMemoryTypeInformation :: "(int \<times> uint32) list"
  mMemoryTypeInformationInitialized :: bool
  gLoadFixedAddressCodeMemoryReady :: bool
  gMemoryLock :: EFI_LOCK_STATE

text \<open>What the file uses elsewhere: signalling the change of the map, which only queues notifications while the lock is
  held, and the settings of the build.\<close>

record 'w mem_env =
  MemAsserts :: bool
  NotifyMemoryMapChange :: "'w \<Rightarrow> 'w"
  DxeCoreImageHandle :: nat
  PcdLoadModuleAtFixAddressEnable :: bool
  PcdLoadFixAddressRuntimeCodePageNumber :: uint32
  PcdLoadFixAddressBootTimeCodePageNumber :: uint32
  DxeCodeTopAddress :: uint64

definition mMapStack_at :: "nat \<Rightarrow> nat" where
  "mMapStack_at i = i + 1"

definition init_statistics :: "nat \<Rightarrow> EFI_MEMORY_TYPE_STAISTICS" where
  "init_statistics t = \<lparr>TypeBase = 0, MaximumAddress = MAX_ADDRESS, CurrentNumberOfPages = 0, NumberOfPages = 0,
     InformationIndex = 14, Special = (t \<in> {0, 5, 6, 9, 10, 13}), Runtime = (t \<in> {5, 6, 13})\<rparr>"

subsection \<open>The lock\<close>

definition CoreAcquireMemoryLock :: "'w mem_env \<Rightarrow> 'w mem \<Rightarrow> 'w mem option" where
  "CoreAcquireMemoryLock E s = do {
     ASSERT (MemAsserts E) (Some (gMemoryLock s = EfiLockReleased));
     Some (s\<lparr>gMemoryLock := EfiLockAcquired\<rparr>)
   }"

definition CoreReleaseMemoryLock :: "'w mem_env \<Rightarrow> 'w mem \<Rightarrow> 'w mem option" where
  "CoreReleaseMemoryLock E s = do {
     ASSERT (MemAsserts E) (Some (gMemoryLock s = EfiLockAcquired));
     Some (s\<lparr>gMemoryLock := EfiLockReleased\<rparr>)
   }"

subsection \<open>Descriptors\<close>

definition RemoveMemoryMapEntry :: "nat \<Rightarrow> 'w mem \<Rightarrow> 'w mem option" where
  "RemoveMemoryMapEntry a s = do {
     Entry \<leftarrow> MapEntries s a;
     if a \<notin> set (gMemoryMap s) then None
     else let s = s\<lparr>gMemoryMap := removeAll a (gMemoryMap s)\<rparr> in
       Some (if FromPages Entry then s\<lparr>mFreeMemoryMapEntryList := mFreeMemoryMapEntryList s @ [a]\<rparr> else s)
   }"

text \<open>A new descriptor in the next slot of \<open>mMapStack\<close>, linked at the end of the map.\<close>

definition push_map_stack :: "bool \<Rightarrow> MEMORY_MAP \<Rightarrow> 'w mem \<Rightarrow> 'w mem option" where
  "push_map_stack en Entry s = do {
     let a = mMapStack_at (mMapDepth s);
     if MAX_MAP_DEPTH \<le> mMapDepth s \<or> a \<in> set (gMemoryMap s) then None
     else do {
       let s = s\<lparr>MapEntries := (MapEntries s)(a \<mapsto> Entry), gMemoryMap := gMemoryMap s @ [a], mMapDepth := mMapDepth s + 1\<rparr>;
       ASSERT en (Some (mMapDepth s < MAX_MAP_DEPTH));
       Some s
     }
   }"

primrec merge_range ::
    "int \<Rightarrow> uint64 \<Rightarrow> nat list \<Rightarrow> uint64 \<Rightarrow> uint64 \<Rightarrow> 'w mem \<Rightarrow> (uint64 \<times> uint64 \<times> 'w mem) option" where
  "merge_range T A [] S L s = Some (S, L, s)"
| "merge_range T A (l # ls) S L s = do {
     Entry \<leftarrow> MapEntries s l;
     if Type Entry \<noteq> T \<or> Attribute Entry \<noteq> A then merge_range T A ls S L s
     else if End Entry + 1 = S then do {
       s \<leftarrow> RemoveMemoryMapEntry l s;
       merge_range T A ls (Start Entry) L s
     }
     else if Start Entry = L + 1 then do {
       s \<leftarrow> RemoveMemoryMapEntry l s;
       merge_range T A ls S (End Entry) s
     }
     else merge_range T A ls S L s
   }"

definition CoreAddRange :: "'w mem_env \<Rightarrow> int \<Rightarrow> uint64 \<Rightarrow> uint64 \<Rightarrow> uint64 \<Rightarrow> 'w mem \<Rightarrow> 'w mem option" where
  "CoreAddRange E T S L A s = do {
     ASSERT (MemAsserts E) (Some (S AND EFI_PAGE_MASK = 0));
     ASSERT (MemAsserts E) (Some (L > S));
     ASSERT (MemAsserts E) (Some (gMemoryLock s = EfiLockAcquired));
     (S, L, s) \<leftarrow> merge_range T A (gMemoryMap s) S L
       (s\<lparr>mMemoryMapKey := mMemoryMapKey s + 1, Memory := NotifyMemoryMapChange E (Memory s)\<rparr>);
     push_map_stack (MemAsserts E) \<lparr>FromPages = False, Type = T, Start = S, End = L, VirtualStart = 0, Attribute = A\<rparr> s
   }"

text \<open>Sixty-four descriptors fit into a page. The address of one, or NULL as 0; \<open>P\<close> is \<open>CoreAllocatePoolPages\<close>.\<close>

definition dequeue_entry :: "'w mem \<Rightarrow> (nat \<times> 'w mem) option" where
  "dequeue_entry s = (case mFreeMemoryMapEntryList s of
     [] \<Rightarrow> None
   | Entry # l \<Rightarrow> Some (Entry, s\<lparr>mFreeMemoryMapEntryList := l\<rparr>))"

definition AllocateMemoryMapEntry ::
    "(int \<Rightarrow> uint64 \<Rightarrow> 'w mem \<Rightarrow> (uint64 \<times> 'w mem) option) \<Rightarrow> 'w mem \<Rightarrow> (nat \<times> 'w mem) option" where
  "AllocateMemoryMapEntry P s =
     (if mFreeMemoryMapEntryList s = [] then do {
        (FreeDescriptorEntries, s) \<leftarrow> P EfiBootServicesData 1 s;
        if FreeDescriptorEntries \<noteq> 0
        then dequeue_entry (s\<lparr>mFreeMemoryMapEntryList := mFreeMemoryMapEntryList s @ map (\<lambda>i. unat FreeDescriptorEntries + 64 * i) [0..<64]\<rparr>)
        else Some (0, s)
      }
      else dequeue_entry s)"

text \<open>Where a descriptor goes in the map: before the first one in a page that starts higher.\<close>

primrec insert_entry :: "'w mem \<Rightarrow> uint64 \<Rightarrow> nat \<Rightarrow> nat list \<Rightarrow> nat list option" where
  "insert_entry s S a [] = Some [a]"
| "insert_entry s S a (l # ls) = do {
     Entry2 \<leftarrow> MapEntries s l;
     if FromPages Entry2 \<and> Start Entry2 > S then Some (a # l # ls)
     else map_option ((#) l) (insert_entry s S a ls)
   }"

definition free_map_slot ::
    "(int \<Rightarrow> uint64 \<Rightarrow> 'w mem \<Rightarrow> (uint64 \<times> 'w mem) option) \<Rightarrow> 'w mem \<Rightarrow> 'w mem option" where
  "free_map_slot P s = do {
     (a, s) \<leftarrow> AllocateMemoryMapEntry P s;
     if a = 0 then None
     else do {
       let s = s\<lparr>mMapDepth := mMapDepth s - 1\<rparr>;
       let slot = mMapStack_at (mMapDepth s);
       if slot \<in> set (gMemoryMap s) then do {
         Entry \<leftarrow> MapEntries s slot;
         let s = s\<lparr>gMemoryMap := removeAll slot (gMemoryMap s), MapEntries := (MapEntries s)(a \<mapsto> Entry\<lparr>FromPages := True\<rparr>)\<rparr>;
         l \<leftarrow> insert_entry s (Start Entry) a (gMemoryMap s);
         Some (s\<lparr>gMemoryMap := l\<rparr>)
       }
       else Some (s\<lparr>mFreeMemoryMapEntryList := mFreeMemoryMapEntryList s @ [a]\<rparr>)
     }
   }"

definition free_map_stack ::
    "'w mem_env \<Rightarrow> (int \<Rightarrow> uint64 \<Rightarrow> 'w mem \<Rightarrow> (uint64 \<times> 'w mem) option) \<Rightarrow> 'w mem \<Rightarrow> 'w mem option" where
  "free_map_stack E P s = do {
     ASSERT (MemAsserts E) (Some (gMemoryLock s = EfiLockAcquired));
     if mFreeMapStack s \<noteq> 0 then Some s
     else do {
       s \<leftarrow> while_opt (\<lambda>s. mMapDepth s \<noteq> 0) (free_map_slot P) (s\<lparr>mFreeMapStack := mFreeMapStack s + 1\<rparr>);
       Some (s\<lparr>mFreeMapStack := mFreeMapStack s - 1\<rparr>)
     }
   }"

subsection \<open>Finding free pages\<close>

text \<open>One turn of the search with the best end address so far.\<close>

definition free_candidate :: "uint64 \<Rightarrow> uint64 \<Rightarrow> uint64 \<Rightarrow> uint64 \<Rightarrow> MEMORY_MAP \<Rightarrow> uint64 \<Rightarrow> uint64" where
  "free_candidate MaxAddress MinAddress NumberOfBytes Alignment Entry Target =
     (if Type Entry \<noteq> EfiConventional then Target
      else if Start Entry \<ge> MaxAddress \<or> End Entry < MinAddress then Target
      else
        let DescEnd = (if End Entry \<ge> MaxAddress then MaxAddress else End Entry);
            DescEnd = ((DescEnd + 1) AND NOT (Alignment - 1)) - 1;
            DescNumberOfBytes = DescEnd - Start Entry + 1
        in if DescNumberOfBytes \<ge> NumberOfBytes then
             (if DescEnd - NumberOfBytes + 1 < MinAddress then Target
              else if DescEnd > Target then DescEnd else Target)
           else Target)"

definition map_entries :: "'w mem \<Rightarrow> MEMORY_MAP list option" where
  "map_entries s = those (map (MapEntries s) (gMemoryMap s))"

definition CoreFindFreePagesI :: "uint64 \<Rightarrow> uint64 \<Rightarrow> uint64 \<Rightarrow> uint64 \<Rightarrow> 'w mem \<Rightarrow> uint64 option" where
  "CoreFindFreePagesI MaxAddress MinAddress NoPages Alignment s =
     (if MaxAddress < EFI_PAGE_MASK \<or> NoPages = 0 then Some 0
      else do {
        let MaxAddress = (if MaxAddress AND EFI_PAGE_MASK \<noteq> EFI_PAGE_MASK
          then ((MaxAddress - (EFI_PAGE_MASK + 1)) AND NOT EFI_PAGE_MASK) OR EFI_PAGE_MASK else MaxAddress);
        let NumberOfBytes = LShiftU64 NoPages EFI_PAGE_SHIFT;
        es \<leftarrow> map_entries s;
        let Target = fold (free_candidate MaxAddress MinAddress NumberOfBytes Alignment) es 0;
        let Target = Target - (NumberOfBytes - 1);
        Some (if Target AND EFI_PAGE_MASK \<noteq> 0 then 0 else Target)
      })"

definition promotable :: "EFI_GCD_MAP_ENTRY \<Rightarrow> bool" where
  "promotable Entry \<longleftrightarrow> GcdMemoryType Entry = EfiGcdMemoryTypeReserved \<and> EndAddress Entry < MAX_ADDRESS \<and>
     Capabilities Entry AND (EFI_MEMORY_PRESENT OR EFI_MEMORY_INITIALIZED OR EFI_MEMORY_TESTED) =
       EFI_MEMORY_PRESENT OR EFI_MEMORY_INITIALIZED"

definition promote_entry :: "'w mem_env \<Rightarrow> EFI_GCD_MAP_ENTRY \<Rightarrow> EFI_GCD_MAP_ENTRY" where
  "promote_entry E Entry = Entry\<lparr>GcdMemoryType := EfiGcdMemoryTypeSystemMemory,
     Capabilities := Capabilities Entry OR EFI_MEMORY_TESTED, ImageHandle := DxeCoreImageHandle E, DeviceHandle := 0\<rparr>"

primrec promote_loop ::
    "'w mem_env \<Rightarrow> ('w mem \<Rightarrow> 'w mem option) \<Rightarrow> nat list \<Rightarrow> bool \<Rightarrow> 'w mem \<Rightarrow> (bool \<times> 'w mem) option" where
  "promote_loop E F [] Promoted s = Some (Promoted, s)"
| "promote_loop E F (i # is) Promoted s =
     (if promotable (mGcdMemorySpaceMap s ! i) then do {
        let Entry = promote_entry E (mGcdMemorySpaceMap s ! i);
        s \<leftarrow> CoreAddRange E EfiConventional (BaseAddress Entry) (EndAddress Entry)
          (Capabilities Entry AND NOT (EFI_MEMORY_PRESENT OR EFI_MEMORY_INITIALIZED OR EFI_MEMORY_TESTED OR EFI_MEMORY_RUNTIME))
          (s\<lparr>mGcdMemorySpaceMap := (mGcdMemorySpaceMap s)[i := Entry]\<rparr>);
        s \<leftarrow> F s;
        promote_loop E F is True s
      }
      else promote_loop E F is Promoted s)"

definition PromoteMemoryResource :: "'w mem_env \<Rightarrow> ('w mem \<Rightarrow> 'w mem option) \<Rightarrow> 'w mem \<Rightarrow> (bool \<times> 'w mem) option" where
  "PromoteMemoryResource E F s = do {
     ASSERT (MemAsserts E) (Some (mGcdMemorySpaceLock s = EfiLockReleased));
     (Promoted, s) \<leftarrow> promote_loop E F [0..<length (mGcdMemorySpaceMap s)] False (s\<lparr>mGcdMemorySpaceLock := EfiLockAcquired\<rparr>);
     Some (Promoted, s\<lparr>mGcdMemorySpaceLock := EfiLockReleased\<rparr>)
   }"

text \<open>The searches before anything is promoted: the address, or 0, and the state.\<close>

definition find_in_bins :: "uint64 \<Rightarrow> uint64 \<Rightarrow> int \<Rightarrow> uint64 \<Rightarrow> 'w mem \<Rightarrow> (uint64 \<times> 'w mem) option" where
  "find_in_bins MaxAddress NoPages NewType Alignment s = do {
     let st = mMemoryTypeStatistics s (nat NewType);
     a \<leftarrow> (if NewType \<ge> 0 \<and> NewType < EfiMaxMemoryType \<and> MaxAddress \<ge> MaximumAddress st
       then CoreFindFreePagesI (MaximumAddress st) (TypeBase st) NoPages Alignment s else Some 0);
     if a \<noteq> 0 then Some (a, s)
     else do {
       a \<leftarrow> (if MaxAddress \<ge> mDefaultMaximumAddress s
         then CoreFindFreePagesI (mDefaultMaximumAddress s) 0 NoPages Alignment s else Some 0);
       if a \<noteq> 0 then Some (a, if a < mDefaultBaseAddress s then s\<lparr>mDefaultBaseAddress := a\<rparr> else s)
       else do {
         a \<leftarrow> CoreFindFreePagesI MaxAddress 0 NoPages Alignment s;
         Some (a, s)
       }
     }
   }"

partial_function (option) FindFreePages ::
    "'w mem_env \<Rightarrow> ('w mem \<Rightarrow> 'w mem option) \<Rightarrow> uint64 \<Rightarrow> uint64 \<Rightarrow> int \<Rightarrow> uint64 \<Rightarrow> 'w mem \<Rightarrow> (uint64 \<times> 'w mem) option" where
  "FindFreePages E F MaxAddress NoPages NewType Alignment s =
     Option.bind (find_in_bins MaxAddress NoPages NewType Alignment s) (\<lambda>(a, s).
       if a \<noteq> 0 then Some (a, s)
       else Option.bind (PromoteMemoryResource E F s) (\<lambda>(Promoted, s).
         if \<not> Promoted then Some (0, s) else FindFreePages E F MaxAddress NoPages NewType Alignment s))"

declare FindFreePages.simps [code]

subsection \<open>Conversion\<close>

text \<open>The first descriptor that covers an address; 0 if there is none.\<close>

primrec covering :: "'w mem \<Rightarrow> uint64 \<Rightarrow> nat list \<Rightarrow> nat option" where
  "covering s S [] = Some 0"
| "covering s S (l # ls) = do {
     Entry \<leftarrow> MapEntries s l;
     if Start Entry \<le> S \<and> End Entry > S then Some l else covering s S ls
   }"

definition in_bin :: "'w mem \<Rightarrow> int \<Rightarrow> uint64 \<Rightarrow> bool" where
  "in_bin s T S \<longleftrightarrow> TypeBase (mMemoryTypeStatistics s (nat T)) \<le> S \<and> S \<le> MaximumAddress (mMemoryTypeStatistics s (nat T)) \<or>
     mDefaultBaseAddress s \<le> S \<and> S \<le> mDefaultMaximumAddress s"

text \<open>The counters of pages per memory type.\<close>

definition count_out :: "int \<Rightarrow> uint64 \<Rightarrow> uint64 \<Rightarrow> 'w mem \<Rightarrow> 'w mem" where
  "count_out T S NoPages s =
     (if 0 \<le> T \<and> T < EfiMaxMemoryType \<and> in_bin s T S then
        let st = mMemoryTypeStatistics s (nat T);
            n = (if NoPages > CurrentNumberOfPages st then 0 else CurrentNumberOfPages st - NoPages)
        in s\<lparr>mMemoryTypeStatistics := (mMemoryTypeStatistics s)(nat T := st\<lparr>CurrentNumberOfPages := n\<rparr>)\<rparr>
      else s)"

definition count_in :: "int \<Rightarrow> uint64 \<Rightarrow> uint64 \<Rightarrow> 'w mem \<Rightarrow> 'w mem" where
  "count_in T S NoPages s =
     (if 0 \<le> T \<and> T < EfiMaxMemoryType \<and> in_bin s T S then
        let st = mMemoryTypeStatistics s (nat T);
            n = CurrentNumberOfPages st + NoPages;
            s = s\<lparr>mMemoryTypeStatistics := (mMemoryTypeStatistics s)(nat T := st\<lparr>CurrentNumberOfPages := n\<rparr>)\<rparr>;
            i = InformationIndex st
        in if n > ucast (snd (gMemoryTypeInformation s ! i))
           then s\<lparr>gMemoryTypeInformation := (gMemoryTypeInformation s)[i := (fst (gMemoryTypeInformation s ! i), ucast n)]\<rparr>
           else s
      else s)"

text \<open>The range is taken out of the descriptor at \<open>l\<close>: the new state and the address of the descriptor that the
  source goes on with.\<close>

definition clip_entry :: "bool \<Rightarrow> nat \<Rightarrow> MEMORY_MAP \<Rightarrow> uint64 \<Rightarrow> uint64 \<Rightarrow> 'w mem \<Rightarrow> (nat \<times> 'w mem) option" where
  "clip_entry en l Entry S RangeEnd s =
     (if Start Entry = S then Some (l, s\<lparr>MapEntries := (MapEntries s)(l \<mapsto> Entry\<lparr>Start := RangeEnd + 1\<rparr>)\<rparr>)
      else if End Entry = RangeEnd then Some (l, s\<lparr>MapEntries := (MapEntries s)(l \<mapsto> Entry\<lparr>End := S - 1\<rparr>)\<rparr>)
      else do {
        let a = mMapStack_at (mMapDepth s);
        let v = (case MapEntries s a of None \<Rightarrow> 0 | Some old \<Rightarrow> VirtualStart old);
        ASSERT en (Some (Start Entry < S - 1));
        s \<leftarrow> push_map_stack en \<lparr>FromPages = False, Type = Type Entry, Start = RangeEnd + 1, End = End Entry,
          VirtualStart = v, Attribute = Attribute Entry\<rparr> (s\<lparr>MapEntries := (MapEntries s)(l \<mapsto> Entry\<lparr>End := S - 1\<rparr>)\<rparr>);
        Some (a, s)
      })"

text \<open>One turn of the loop of \<open>CoreConvertPages\<close>: where to go on, or the status of an early return.\<close>

definition convert_step ::
    "'w mem_env \<Rightarrow> ('w mem \<Rightarrow> 'w mem option) \<Rightarrow> uint64 \<Rightarrow> int \<Rightarrow> uint64 \<Rightarrow> uint64 \<times> EFI_STATUS option \<times> 'w mem \<Rightarrow>
     (uint64 \<times> EFI_STATUS option \<times> 'w mem) option" where
  "convert_step E F NoPages NewType L x = do {
     let (S, _, s) = x;
     l \<leftarrow> covering s S (gMemoryMap s);
     if l = 0 then Some (S, Some EFI_NOT_FOUND, s)
     else do {
       Entry \<leftarrow> MapEntries s l;
       let RangeEnd = (if End Entry < L then End Entry else L);
       if (NewType \<noteq> EfiConventional) \<noteq> (Type Entry = EfiConventional) then Some (S, Some EFI_NOT_FOUND, s)
       else do {
         let s = count_in NewType S NoPages (count_out (Type Entry) S NoPages s);
         (k, s) \<leftarrow> clip_entry (MemAsserts E) l Entry S RangeEnd s;
         Entry \<leftarrow> MapEntries s k;
         s \<leftarrow> (if Start Entry = End Entry + 1 then RemoveMemoryMapEntry k s else Some s);
         s \<leftarrow> CoreAddRange E NewType S RangeEnd (Attribute Entry) s;
         s \<leftarrow> F s;
         Some (RangeEnd + 1, None, s)
       }
     }
   }"

definition CoreConvertPages ::
    "'w mem_env \<Rightarrow> ('w mem \<Rightarrow> 'w mem option) \<Rightarrow> uint64 \<Rightarrow> uint64 \<Rightarrow> int \<Rightarrow> 'w mem \<Rightarrow> (EFI_STATUS \<times> 'w mem) option" where
  "CoreConvertPages E F S NoPages NewType s = do {
     let NumberOfBytes = LShiftU64 NoPages EFI_PAGE_SHIFT;
     let L = S + NumberOfBytes - 1;
     ASSERT (MemAsserts E) (Some (NoPages \<noteq> 0));
     ASSERT (MemAsserts E) (Some (S AND EFI_PAGE_MASK = 0));
     ASSERT (MemAsserts E) (Some (L > S));
     ASSERT (MemAsserts E) (Some (gMemoryLock s = EfiLockAcquired));
     if NoPages = 0 \<or> S AND EFI_PAGE_MASK \<noteq> 0 \<or> S > S + NumberOfBytes then Some (EFI_INVALID_PARAMETER, s)
     else do {
       (_, st, s) \<leftarrow> while_opt (\<lambda>(S, st, _). st = None \<and> S < L) (convert_step E F NoPages NewType L) (S, None, s);
       Some (case st of None \<Rightarrow> EFI_SUCCESS | Some e \<Rightarrow> e, s)
     }
   }"

definition CoreAllocatePoolPages ::
    "'w mem_env \<Rightarrow> ('w mem \<Rightarrow> 'w mem option) \<Rightarrow> int \<Rightarrow> uint64 \<Rightarrow> uint64 \<Rightarrow> 'w mem \<Rightarrow> (uint64 \<times> 'w mem) option" where
  "CoreAllocatePoolPages E F PoolType NoPages Alignment s = do {
     (S, s) \<leftarrow> FindFreePages E F MAX_ADDRESS NoPages PoolType Alignment s;
     if S = 0 then Some (S, s)
     else do {
       (_, s) \<leftarrow> CoreConvertPages E F S NoPages PoolType s;
       Some (S, s)
     }
   }"

primrec CoreFreeMemoryMapStack :: "nat \<Rightarrow> 'w mem_env \<Rightarrow> 'w mem \<Rightarrow> 'w mem option" where
  "CoreFreeMemoryMapStack 0 E s = free_map_stack E (\<lambda>_ _ _. None) s"
| "CoreFreeMemoryMapStack (Suc n) E s =
     free_map_stack E (\<lambda>T NoPages. CoreAllocatePoolPages E (CoreFreeMemoryMapStack n E) T NoPages DEFAULT_PAGE_ALLOCATION) s"

abbreviation FreeMapStack :: "'w mem_env \<Rightarrow> 'w mem \<Rightarrow> 'w mem option" where
  "FreeMapStack \<equiv> CoreFreeMemoryMapStack 1"

definition CoreFreePoolPages :: "'w mem_env \<Rightarrow> uint64 \<Rightarrow> uint64 \<Rightarrow> 'w mem \<Rightarrow> 'w mem option" where
  "CoreFreePoolPages E Mem NoPages s = map_option snd (CoreConvertPages E (FreeMapStack E) Mem NoPages EfiConventional s)"

subsection \<open>The services\<close>

abbreviation (input) "AllocateAnyPages \<equiv> 0 :: int"
abbreviation (input) "AllocateMaxAddress \<equiv> 1 :: int"
abbreviation (input) "AllocateAddress \<equiv> 2 :: int"
abbreviation (input) "MaxAllocateType \<equiv> 3 :: int"

text \<open>Both alignments of the file are one page.\<close>

definition page_alignment :: "int \<Rightarrow> uint64" where
  "page_alignment T = (if T \<in> {EfiACPIReclaimMemory, EfiACPIMemoryNVS, EfiRuntimeServicesCode, EfiRuntimeServicesData}
     then EFI_PAGE_SIZE else EFI_PAGE_SIZE)"

definition EFI_SIZE_TO_PAGES :: "uint64 \<Rightarrow> uint64" where
  "EFI_SIZE_TO_PAGES a = drop_bit 12 a + (if a AND EFI_PAGE_MASK \<noteq> 0 then 1 else 0)"

definition round_pages :: "uint64 \<Rightarrow> uint64 \<Rightarrow> uint64" where
  "round_pages Alignment NoPages = (NoPages + EFI_SIZE_TO_PAGES Alignment - 1) AND NOT (EFI_SIZE_TO_PAGES Alignment - 1)"

definition CoreAllocatePages ::
    "'w mem_env \<Rightarrow> int \<Rightarrow> int \<Rightarrow> uint64 \<Rightarrow> uint64 \<Rightarrow> 'w mem \<Rightarrow> (EFI_STATUS \<times> uint64 \<times> 'w mem) option" where
  "CoreAllocatePages E Ty MemoryType NoPages Mem s =
     (if Ty < AllocateAnyPages \<or> Ty \<ge> MaxAllocateType then Some (EFI_INVALID_PARAMETER, Mem, s)
      else if EfiMaxMemoryType \<le> MemoryType \<and> MemoryType \<le> 0x7fffffff \<or> MemoryType = EfiConventional
      then Some (EFI_INVALID_PARAMETER, Mem, s)
      else
        let Alignment = page_alignment MemoryType in
        if Ty = AllocateAddress \<and> Mem AND (Alignment - 1) \<noteq> 0 then Some (EFI_NOT_FOUND, Mem, s)
        else do {
          let NoPages = round_pages Alignment NoPages;
          s \<leftarrow> CoreAcquireMemoryLock E s;
          (S, s) \<leftarrow> (if Ty \<noteq> AllocateAddress
            then FindFreePages E (FreeMapStack E) (if Ty = AllocateMaxAddress then Mem else MAX_ADDRESS) NoPages MemoryType Alignment s
            else Some (Mem, s));
          (Status, s) \<leftarrow> (if Ty \<noteq> AllocateAddress \<and> S = 0 then Some (EFI_OUT_OF_RESOURCES, s)
            else CoreConvertPages E (FreeMapStack E) S NoPages MemoryType s);
          s \<leftarrow> CoreReleaseMemoryLock E s;
          Some (Status, if EFI_ERROR Status then Mem else S, s)
        })"

definition CoreFreePages :: "'w mem_env \<Rightarrow> uint64 \<Rightarrow> uint64 \<Rightarrow> 'w mem \<Rightarrow> (EFI_STATUS \<times> 'w mem) option" where
  "CoreFreePages E Mem NoPages s = do {
     s \<leftarrow> CoreAcquireMemoryLock E s;
     l \<leftarrow> covering s Mem (gMemoryMap s);
     (Status, s) \<leftarrow> (if l = 0 then Some (EFI_NOT_FOUND, s)
       else do {
         Entry \<leftarrow> MapEntries s l;
         let Alignment = page_alignment (Type Entry);
         if Mem AND (Alignment - 1) \<noteq> 0 then Some (EFI_INVALID_PARAMETER, s)
         else CoreConvertPages E (FreeMapStack E) Mem (round_pages Alignment NoPages) EfiConventional s
       });
     s \<leftarrow> CoreReleaseMemoryLock E s;
     Some (Status, s)
   }"

subsection \<open>Adding memory\<close>

text \<open>The conversion of pages to bytes has the 32 bits of the page numbers.\<close>

definition CoreLoadingFixedAddressHook :: "'w mem_env \<Rightarrow> 'w mem \<Rightarrow> 'w mem option" where
  "CoreLoadingFixedAddressHook E s =
     (if gLoadFixedAddressCodeMemoryReady s then Some s
      else do {
        let RuntimePages = PcdLoadFixAddressRuntimeCodePageNumber E;
        let BootPages = PcdLoadFixAddressBootTimeCodePageNumber E;
        let RuntimeCodeBase = DxeCodeTopAddress E - ucast (push_bit 12 RuntimePages);
        let BootTimeCodeBase = RuntimeCodeBase - ucast (push_bit 12 BootPages);
        (Status, RuntimeCodeBase, s) \<leftarrow> CoreAllocatePages E AllocateAddress EfiRuntimeServicesCode (ucast RuntimePages) RuntimeCodeBase s;
        if EFI_ERROR Status then Some s
        else do {
          (Status, _, s) \<leftarrow> CoreAllocatePages E AllocateAddress EfiBootServicesCode (ucast BootPages) BootTimeCodeBase s;
          if EFI_ERROR Status then map_option snd (CoreFreePages E RuntimeCodeBase (ucast RuntimePages) s)
          else Some (s\<lparr>gLoadFixedAddressCodeMemoryReady := True\<rparr>)
        }
      })"

definition upd_stat :: "int \<Rightarrow> (EFI_MEMORY_TYPE_STAISTICS \<Rightarrow> EFI_MEMORY_TYPE_STAISTICS) \<Rightarrow> 'w mem \<Rightarrow> 'w mem" where
  "upd_stat T f s = s\<lparr>mMemoryTypeStatistics := (mMemoryTypeStatistics s)(nat T := f (mMemoryTypeStatistics s (nat T)))\<rparr>"

text \<open>The indexes of the loops over \<open>gMemoryTypeInformation\<close>: those before the terminating type.\<close>

definition information_indexes :: "'w mem \<Rightarrow> nat list" where
  "information_indexes s = takeWhile (\<lambda>i. fst (gMemoryTypeInformation s ! i) \<noteq> EfiMaxMemoryType) [0..<length (gMemoryTypeInformation s)]"

definition bin_of :: "nat \<Rightarrow> 'w mem \<Rightarrow> (int \<times> uint64) option" where
  "bin_of i s = (let (T, n) = gMemoryTypeInformation s ! i in if T < 0 \<or> T > EfiMaxMemoryType \<or> n = 0 then None else Some (T, ucast n))"

primrec undo_bins :: "'w mem_env \<Rightarrow> nat list \<Rightarrow> 'w mem \<Rightarrow> 'w mem option" where
  "undo_bins E [] s = Some s"
| "undo_bins E (i # is) s =
     (case bin_of i s of
        None \<Rightarrow> undo_bins E is s
      | Some (T, n) \<Rightarrow> do {
          (_, s) \<leftarrow> CoreFreePages E (TypeBase (mMemoryTypeStatistics s (nat T))) n s;
          undo_bins E is (upd_stat T (\<lambda>st. st\<lparr>TypeBase := 0, MaximumAddress := MAX_ADDRESS\<rparr>) s)
        })"

text \<open>The bins of the memory types: whether all could be allocated, and the state.\<close>

primrec alloc_bins :: "'w mem_env \<Rightarrow> nat list \<Rightarrow> 'w mem \<Rightarrow> (bool \<times> 'w mem) option" where
  "alloc_bins E [] s = Some (True, s)"
| "alloc_bins E (i # is) s =
     (case bin_of i s of
        None \<Rightarrow> alloc_bins E is s
      | Some (T, n) \<Rightarrow> do {
          (Status, Base, s) \<leftarrow> CoreAllocatePages E AllocateAnyPages T n (TypeBase (mMemoryTypeStatistics s (nat T))) s;
          if EFI_ERROR Status then do {
            s \<leftarrow> undo_bins E [0..<i] s;
            Some (False, s)
          }
          else do {
            let n = ucast (snd (gMemoryTypeInformation s ! i));
            let s = upd_stat T (\<lambda>st. st\<lparr>TypeBase := Base, MaximumAddress := Base + LShiftU64 n EFI_PAGE_SHIFT - 1\<rparr>) s;
            alloc_bins E is (if Base < mDefaultMaximumAddress s then s\<lparr>mDefaultMaximumAddress := Base - 1\<rparr> else s)
          }
        })"

primrec free_bins :: "'w mem_env \<Rightarrow> nat list \<Rightarrow> 'w mem \<Rightarrow> 'w mem option" where
  "free_bins E [] s = Some s"
| "free_bins E (i # is) s =
     (case bin_of i s of
        None \<Rightarrow> free_bins E is s
      | Some (T, n) \<Rightarrow> do {
          (_, s) \<leftarrow> CoreFreePages E (TypeBase (mMemoryTypeStatistics s (nat T))) n s;
          let s = upd_stat T (\<lambda>st. st\<lparr>NumberOfPages := ucast (snd (gMemoryTypeInformation s ! i))\<rparr>) s;
          free_bins E is (s\<lparr>gMemoryTypeInformation := (gMemoryTypeInformation s)[i := (fst (gMemoryTypeInformation s ! i), 0)]\<rparr>)
        })"

definition default_bin :: "nat \<Rightarrow> 'w mem \<Rightarrow> 'w mem" where
  "default_bin t s = upd_stat (int t) (\<lambda>st.
     let is = filter (\<lambda>i. fst (gMemoryTypeInformation s ! i) = int t) (information_indexes s) in
     st\<lparr>InformationIndex := (if is = [] then InformationIndex st else last is), CurrentNumberOfPages := 0,
        MaximumAddress := (if MaximumAddress st = MAX_ADDRESS then mDefaultMaximumAddress s else MaximumAddress st)\<rparr>) s"

definition CoreAddMemoryDescriptor :: "'w mem_env \<Rightarrow> int \<Rightarrow> uint64 \<Rightarrow> uint64 \<Rightarrow> uint64 \<Rightarrow> 'w mem \<Rightarrow> 'w mem option" where
  "CoreAddMemoryDescriptor E T S NoPages A s =
     (if S AND EFI_PAGE_MASK \<noteq> 0 \<or> EfiMaxMemoryType \<le> T \<and> T \<le> 0x7fffffff then Some s
      else do {
        s \<leftarrow> CoreAcquireMemoryLock E s;
        s \<leftarrow> CoreAddRange E T S (S + LShiftU64 NoPages EFI_PAGE_SHIFT - 1) A s;
        s \<leftarrow> FreeMapStack E s;
        s \<leftarrow> CoreReleaseMemoryLock E s;
        s \<leftarrow> (if PcdLoadModuleAtFixAddressEnable E then CoreLoadingFixedAddressHook E s else Some s);
        if mMemoryTypeInformationInitialized s then Some s
        else do {
          (ok, s) \<leftarrow> alloc_bins E (information_indexes s) s;
          if \<not> ok then Some s
          else do {
            s \<leftarrow> free_bins E (information_indexes s) s;
            Some ((fold default_bin [0..<14] s)\<lparr>mMemoryTypeInformationInitialized := True\<rparr>)
          }
        }
      })"

subsection \<open>The memory map for the caller\<close>

record EFI_MEMORY_DESCRIPTOR =
  DescriptorType :: int
  PhysicalStart :: uint64
  DescriptorVirtualStart :: uint64
  DescriptorPages :: uint64
  DescriptorAttribute :: uint64

fun MergeMemoryMapDescriptor :: "EFI_MEMORY_DESCRIPTOR list \<Rightarrow> EFI_MEMORY_DESCRIPTOR \<Rightarrow> EFI_MEMORY_DESCRIPTOR list" where
  "MergeMemoryMapDescriptor [] d = [d]"
| "MergeMemoryMapDescriptor (m # ms) d =
     (if DescriptorType m \<noteq> DescriptorType d \<or> DescriptorAttribute m \<noteq> DescriptorAttribute d then m # MergeMemoryMapDescriptor ms d
      else if PhysicalStart m + push_bit 12 (DescriptorPages m) = PhysicalStart d
      then m\<lparr>DescriptorPages := DescriptorPages m + DescriptorPages d\<rparr> # ms
      else if PhysicalStart m - push_bit 12 (DescriptorPages d) = PhysicalStart d
      then m\<lparr>PhysicalStart := PhysicalStart d, DescriptorVirtualStart := DescriptorVirtualStart d,
        DescriptorPages := DescriptorPages m + DescriptorPages d\<rparr> # ms
      else m # MergeMemoryMapDescriptor ms d)"

text \<open>A free range inside the bin of a special type is reported with that type. The array of statistics has entries
  for the types up to \<open>EfiMaxMemoryType\<close> only.\<close>

definition reported_type :: "'w mem \<Rightarrow> MEMORY_MAP \<Rightarrow> int" where
  "reported_type s Entry =
     (if Type Entry = EfiConventional then
        fold (\<lambda>t T. let st = mMemoryTypeStatistics s t in
          if Special st \<and> NumberOfPages st > 0 \<and> Start Entry \<ge> TypeBase st \<and> End Entry \<le> MaximumAddress st then int t else T)
          [0..<14] (Type Entry)
      else Type Entry)"

definition build_descriptor :: "'w mem \<Rightarrow> MEMORY_MAP \<Rightarrow> EFI_MEMORY_DESCRIPTOR option" where
  "build_descriptor s Entry =
     (let T = reported_type s Entry in
      if T < 0 \<or> T > EfiMaxMemoryType then None
      else Some \<lparr>DescriptorType = T, PhysicalStart = Start Entry, DescriptorVirtualStart = VirtualStart Entry,
        DescriptorPages = drop_bit 12 (End Entry - Start Entry + 1),
        DescriptorAttribute = (if Runtime (mMemoryTypeStatistics s (nat T)) then Attribute Entry OR EFI_MEMORY_RUNTIME else Attribute Entry)\<rparr>)"

definition runtime_gcd_entry :: "EFI_GCD_MAP_ENTRY \<Rightarrow> bool" where
  "runtime_gcd_entry G \<longleftrightarrow> (GcdMemoryType G = EfiGcdMemoryTypeReserved \<or> GcdMemoryType G = EfiGcdMemoryTypeMemoryMappedIo) \<and>
     Attributes G AND EFI_MEMORY_RUNTIME = EFI_MEMORY_RUNTIME"

definition gcd_descriptor :: "EFI_GCD_MAP_ENTRY \<Rightarrow> EFI_MEMORY_DESCRIPTOR" where
  "gcd_descriptor G = \<lparr>DescriptorType = (if GcdMemoryType G = EfiGcdMemoryTypeReserved then EfiReservedMemoryType
       else if Attributes G AND EFI_MEMORY_PORT_IO = EFI_MEMORY_PORT_IO then EfiMemoryMappedIOPortSpace else EfiMemoryMappedIO),
     PhysicalStart = BaseAddress G, DescriptorVirtualStart = 0, DescriptorPages = drop_bit 12 (EndAddress G - BaseAddress G + 1),
     DescriptorAttribute = Attributes G AND NOT EFI_MEMORY_PORT_IO\<rparr>"

text \<open>The status, the size, the descriptors that were written, and the key; \<open>buf\<close> tells whether there is a buffer. Descriptors are
  48 bytes apart.\<close>

definition CoreGetMemoryMap ::
    "'w mem_env \<Rightarrow> uint64 option \<Rightarrow> bool \<Rightarrow> 'w mem \<Rightarrow> (EFI_STATUS \<times> uint64 option \<times> EFI_MEMORY_DESCRIPTOR list \<times> uint64 option \<times> 'w mem) option" where
  "CoreGetMemoryMap E MemoryMapSize buf s =
     (case MemoryMapSize of
        None \<Rightarrow> Some (EFI_INVALID_PARAMETER, None, [], None, s)
      | Some sz \<Rightarrow> do {
          ASSERT (MemAsserts E) (Some (mGcdMemorySpaceLock s = EfiLockReleased));
          let gs = filter runtime_gcd_entry (mGcdMemorySpaceMap s);
          s \<leftarrow> CoreAcquireMemoryLock E (s\<lparr>mGcdMemorySpaceLock := EfiLockAcquired\<rparr>);
          es \<leftarrow> map_entries s;
          let BufferSize = 48 * of_nat (length gs) + 48 * of_nat (length es);
          (Status, BufferSize, ds) \<leftarrow>
            (if sz < BufferSize then Some (EFI_BUFFER_TOO_SMALL, BufferSize, [])
             else if \<not> buf then Some (EFI_INVALID_PARAMETER, BufferSize, [])
             else do {
               ASSERT (MemAsserts E) (Some (\<forall>e \<in> set es. VirtualStart e = 0));
               ds \<leftarrow> those (map (build_descriptor s) es);
               let ds = fold (\<lambda>d ms. MergeMemoryMapDescriptor ms d) (ds @ map gcd_descriptor gs) [];
               Some (EFI_SUCCESS, 48 * of_nat (length ds), ds)
             });
          s \<leftarrow> CoreReleaseMemoryLock E s;
          let s = s\<lparr>mGcdMemorySpaceLock := EfiLockReleased\<rparr>;
          Some (Status, Some BufferSize, ds, Some (mMemoryMapKey s), s)
        })"

text \<open>The construction rules of the final map; both alignments are one page.\<close>

primrec terminate_loop :: "MEMORY_MAP list \<Rightarrow> EFI_STATUS" where
  "terminate_loop [] = EFI_SUCCESS"
| "terminate_loop (Entry # es) =
     (if Attribute Entry AND EFI_MEMORY_RUNTIME \<noteq> 0 \<and>
         (Type Entry = EfiACPIReclaimMemory \<or> Type Entry = EfiACPIMemoryNVS \<or>
          Start Entry AND (EFI_PAGE_SIZE - 1) \<noteq> 0 \<or> (End Entry + 1) AND (EFI_PAGE_SIZE - 1) \<noteq> 0)
      then EFI_INVALID_PARAMETER else terminate_loop es)"

definition CoreTerminateMemoryMap :: "'w mem_env \<Rightarrow> uint64 \<Rightarrow> 'w mem \<Rightarrow> (EFI_STATUS \<times> 'w mem) option" where
  "CoreTerminateMemoryMap E MapKey s = do {
     s \<leftarrow> CoreAcquireMemoryLock E s;
     Status \<leftarrow> (if MapKey = mMemoryMapKey s then map_option terminate_loop (map_entries s) else Some EFI_INVALID_PARAMETER);
     s \<leftarrow> CoreReleaseMemoryLock E s;
     Some (Status, s)
   }"

end
