(* ===== verification/PageInv.thy ===== *)
theory PageInv
  imports Page
begin

unbundle bit_operations_syntax

section \<open>The invariant of the memory map\<close>

text \<open>
  Addresses as natural numbers: a descriptor describes \<open>lo e\<close> up to \<open>hi e\<close>, exclusive. \<open>cells s\<close> is the meaning of a
  map, the type and the attributes of every address. The invariant: descriptors are page aligned, not empty and do not
  overlap, the memory of descriptors in pages is \<open>EfiBootServicesData\<close>, and the slots in use are those below
  \<open>mMapDepth\<close>.
\<close>

subsection \<open>Ranges and cells\<close>

definition lo :: "MEMORY_MAP \<Rightarrow> nat" where
  "lo e = unat (Start e)"

definition hi :: "MEMORY_MAP \<Rightarrow> nat" where
  "hi e = unat (End e) + 1"

abbreviation rng :: "MEMORY_MAP \<Rightarrow> nat set" where
  "rng e \<equiv> {lo e..<hi e}"

definition range_ok :: "nat \<Rightarrow> nat \<Rightarrow> bool" where
  "range_ok a b \<longleftrightarrow> 4096 dvd a \<and> 4096 dvd b \<and> a < b \<and> b < 2 ^ 64"

definition mapped_at :: "'w mem \<Rightarrow> nat \<Rightarrow> MEMORY_MAP \<Rightarrow> bool" where
  "mapped_at s l e \<longleftrightarrow> l \<in> set (gMemoryMap s) \<and> MapEntries s l = Some e"

type_synonym cell = "nat \<times> int \<times> uint64"

definition cells :: "'w mem \<Rightarrow> cell set" where
  "cells s = {(a, T, A). \<exists>l e. mapped_at s l e \<and> a \<in> rng e \<and> T = Type e \<and> A = Attribute e}"

definition block :: "nat \<Rightarrow> nat \<Rightarrow> int \<Rightarrow> uint64 \<Rightarrow> cell set" where
  "block a b T A = {a..<b} \<times> {(T, A)}"

definition free_of :: "cell set \<Rightarrow> nat \<Rightarrow> nat \<Rightarrow> bool" where
  "free_of C a b \<longleftrightarrow> (\<forall>x T A. (x, T, A) \<in> C \<longrightarrow> x \<notin> {a..<b})"

definition map_inv :: "'w mem \<Rightarrow> bool" where
  "map_inv s \<longleftrightarrow> distinct (gMemoryMap s) \<and> (\<forall>l \<in> set (gMemoryMap s). \<exists>e. MapEntries s l = Some e) \<and>
     (\<forall>l e. mapped_at s l e \<longrightarrow> range_ok (lo e) (hi e)) \<and>
     (\<forall>l e l' e'. mapped_at s l e \<longrightarrow> mapped_at s l' e' \<longrightarrow> l \<noteq> l' \<longrightarrow> rng e \<inter> rng e' = {})"

definition ids_inv :: "'w mem \<Rightarrow> bool" where
  "ids_inv s \<longleftrightarrow> distinct (mFreeMemoryMapEntryList s) \<and> set (mFreeMemoryMapEntryList s) \<inter> set (gMemoryMap s) = {} \<and>
     (\<forall>l e. mapped_at s l e \<longrightarrow> (FromPages e \<longleftrightarrow> 4096 \<le> l) \<and> (l < 4096 \<longrightarrow> 0 < l \<and> l \<le> mMapDepth s \<and> l \<le> 6)) \<and>
     (\<forall>l \<in> set (mFreeMemoryMapEntryList s). 4096 \<le> l) \<and> mMapDepth s \<le> 6"

text \<open>The descriptors that live in pages, and the invariant that these pages are theirs.\<close>

definition stored :: "'w mem \<Rightarrow> nat set" where
  "stored s = {l \<in> set (gMemoryMap s) \<union> set (mFreeMemoryMapEntryList s). 4096 \<le> l}"

definition stored_in :: "nat set \<Rightarrow> cell set \<Rightarrow> bool" where
  "stored_in N C \<longleftrightarrow> (\<forall>l \<in> N. \<exists>A. (l, EfiBootServicesData, A) \<in> C)"

definition same_rest :: "'w mem \<Rightarrow> 'w mem \<Rightarrow> bool" where
  "same_rest s t \<longleftrightarrow> mGcdMemorySpaceMap t = mGcdMemorySpaceMap s \<and> gMemoryLock t = gMemoryLock s \<and> mGcdMemorySpaceLock t = mGcdMemorySpaceLock s \<and> mFreeMapStack t = mFreeMapStack s \<and>
     mMemoryTypeStatistics t = mMemoryTypeStatistics s \<and> gMemoryTypeInformation t = gMemoryTypeInformation s \<and>
     mMemoryTypeInformationInitialized t = mMemoryTypeInformationInitialized s"

lemma same_rest_refl [simp]: "same_rest s s"
  by (simp add: same_rest_def)

lemma same_rest_trans [trans]: "same_rest s t \<Longrightarrow> same_rest t u \<Longrightarrow> same_rest s u"
  by (simp add: same_rest_def)

lemma map_invD:
  assumes "map_inv s"
  shows "distinct (gMemoryMap s)" "l \<in> set (gMemoryMap s) \<Longrightarrow> \<exists>e. mapped_at s l e"
    "mapped_at s l e \<Longrightarrow> range_ok (lo e) (hi e)"
    "mapped_at s l e \<Longrightarrow> mapped_at s l' e' \<Longrightarrow> x \<in> rng e \<Longrightarrow> x \<in> rng e' \<Longrightarrow> l = l'"
proof -
  show "distinct (gMemoryMap s)" "l \<in> set (gMemoryMap s) \<Longrightarrow> \<exists>e. mapped_at s l e"
    "mapped_at s l e \<Longrightarrow> range_ok (lo e) (hi e)" using assms unfolding map_inv_def by (simp_all add: mapped_at_def)
  assume "mapped_at s l e" "mapped_at s l' e'" and x: "x \<in> rng e" "x \<in> rng e'"
  then have "l \<noteq> l' \<longrightarrow> rng e \<inter> rng e' = {}" using assms unfolding map_inv_def by blast
  with x show "l = l'" by blast
qed

lemma map_invI:
  assumes "distinct (gMemoryMap s)" "\<And>l. l \<in> set (gMemoryMap s) \<Longrightarrow> MapEntries s l \<noteq> None"
    "\<And>l e. mapped_at s l e \<Longrightarrow> range_ok (lo e) (hi e)"
    "\<And>l e l' e' x. mapped_at s l e \<Longrightarrow> mapped_at s l' e' \<Longrightarrow> x \<in> rng e \<Longrightarrow> x \<in> rng e' \<Longrightarrow> l = l'"
  shows "map_inv s"
  using assms unfolding map_inv_def by (metis (no_types, lifting) disjoint_iff not_Some_eq)

lemma cellsI: "mapped_at s l e \<Longrightarrow> x \<in> rng e \<Longrightarrow> (x, Type e, Attribute e) \<in> cells s"
  by (auto simp: cells_def)

lemma cells_unique:
  assumes "map_inv s" "(x, T, A) \<in> cells s" "(x, T', A') \<in> cells s"
  shows "T' = T" "A' = A"
proof -
  obtain l e l' e' where "mapped_at s l e" "x \<in> rng e" "T = Type e" "A = Attribute e"
    and "mapped_at s l' e'" "x \<in> rng e'" "T' = Type e'" "A' = Attribute e'" using assms(2,3) unfolding cells_def by blast
  moreover from this map_invD(4) [OF assms(1)] have "l = l'" by blast
  ultimately show "T' = T" "A' = A" by (auto simp: mapped_at_def)
qed

lemma free_of_rng:
  "free_of (cells s) a b \<Longrightarrow> mapped_at s l e \<Longrightarrow> rng e \<inter> {a..<b} = {}"
  by (fastforce simp: free_of_def cells_def)

subsection \<open>Removing and adding a descriptor\<close>

text \<open>Fields that the meaning of a map does not depend on.\<close>

lemma mapped_at_fields [simp]:
  "mapped_at (s\<lparr>mMemoryMapKey := k\<rparr>) = mapped_at s" "mapped_at (s\<lparr>Memory := w\<rparr>) = mapped_at s"
  "mapped_at (s\<lparr>mFreeMemoryMapEntryList := f\<rparr>) = mapped_at s" "mapped_at (s\<lparr>mMapDepth := d\<rparr>) = mapped_at s"
  "mapped_at (s\<lparr>mFreeMapStack := m\<rparr>) = mapped_at s" "mapped_at (s\<lparr>mMemoryTypeStatistics := st\<rparr>) = mapped_at s"
  "mapped_at (s\<lparr>gMemoryTypeInformation := i\<rparr>) = mapped_at s" "mapped_at (s\<lparr>gMemoryLock := k'\<rparr>) = mapped_at s"
  "mapped_at (s\<lparr>mGcdMemorySpaceMap := g\<rparr>) = mapped_at s" "mapped_at (s\<lparr>mGcdMemorySpaceLock := k'\<rparr>) = mapped_at s"
  "mapped_at (s\<lparr>mDefaultBaseAddress := u\<rparr>) = mapped_at s" "mapped_at (s\<lparr>mDefaultMaximumAddress := u\<rparr>) = mapped_at s"
  "mapped_at (s\<lparr>mMemoryTypeInformationInitialized := b\<rparr>) = mapped_at s" "mapped_at (s\<lparr>gLoadFixedAddressCodeMemoryReady := b\<rparr>) = mapped_at s"
  by (simp_all add: fun_eq_iff mapped_at_def)

lemma cells_cong: "mapped_at t = mapped_at s \<Longrightarrow> cells t = cells s"
  by (simp add: cells_def)

lemma map_inv_cong: "mapped_at t = mapped_at s \<Longrightarrow> gMemoryMap t = gMemoryMap s \<Longrightarrow> map_inv s \<Longrightarrow> map_inv t"
proof (rule map_invI)
  assume t: "mapped_at t = mapped_at s" "gMemoryMap t = gMemoryMap s" and s: "map_inv s"
  show "MapEntries t l \<noteq> None" if l: "l \<in> set (gMemoryMap t)" for l
  proof -
    obtain e where "mapped_at s l e" using map_invD(2) [OF s] l t(2) by auto
    then have "mapped_at t l e" by (simp add: t(1))
    then show ?thesis by (simp add: mapped_at_def)
  qed
  show "distinct (gMemoryMap t)" using map_invD(1) [OF s] t(2) by simp
  show "range_ok (lo e) (hi e)" if "mapped_at t l e" for l e using map_invD(3) [OF s] that t(1) by simp
  show "l = l'" if "mapped_at t l e" "mapped_at t l' e'" "x \<in> rng e" "x \<in> rng e'" for l e l' e' x
    using map_invD(4) [OF s, of l e l' e' x] that t(1) by simp
qed

lemma removed:
  assumes s: "map_inv s" "mapped_at s l e" and t: "gMemoryMap t = removeAll l (gMemoryMap s)" "MapEntries t = MapEntries s"
  shows "mapped_at t k e' \<longleftrightarrow> mapped_at s k e' \<and> k \<noteq> l" "map_inv t" "cells t = cells s - block (lo e) (hi e) (Type e) (Attribute e)"
    "free_of (cells t) (lo e) (hi e)"
proof -
  have m: "mapped_at t k e' \<longleftrightarrow> mapped_at s k e' \<and> k \<noteq> l" for k e' by (auto simp: mapped_at_def t)
  then show "mapped_at t k e' \<longleftrightarrow> mapped_at s k e' \<and> k \<noteq> l" .
  show "map_inv t"
    using s(1) by (intro map_invI) (auto simp: m t distinct_removeAll dest: map_invD(1,3,4) map_invD(2) simp: mapped_at_def)
  have only: "k = l" if "mapped_at s k e'" "x \<in> rng e'" "x \<in> rng e" for k e' x
    using map_invD(4) [OF s(1) that(1) s(2) that(2,3)] .
  show "cells t = cells s - block (lo e) (hi e) (Type e) (Attribute e)"
  proof (intro set_eqI iffI)
    fix c assume "c \<in> cells t"
    then obtain k e' x where c: "c = (x, Type e', Attribute e')" "mapped_at s k e'" "k \<noteq> l" "x \<in> rng e'"
      by (auto simp: cells_def m)
    then show "c \<in> cells s - block (lo e) (hi e) (Type e) (Attribute e)"
      using only [OF c(2,4)] by (auto simp: cells_def block_def)
  next
    fix c assume "c \<in> cells s - block (lo e) (hi e) (Type e) (Attribute e)"
    then obtain k e' x where c: "c = (x, Type e', Attribute e')" "mapped_at s k e'" "x \<in> rng e'"
      "c \<notin> block (lo e) (hi e) (Type e) (Attribute e)" by (auto simp: cells_def)
    have "k \<noteq> l"
    proof
      assume "k = l"
      then have "e' = e" using c(2) s(2) by (simp add: mapped_at_def)
      with c(1,3,4) show False by (auto simp: block_def)
    qed
    with c show "c \<in> cells t" by (auto simp: cells_def m)
  qed
  show "free_of (cells t) (lo e) (hi e)"
    using only unfolding free_of_def by (auto simp: cells_def m)
qed

lemma added:
  assumes s: "map_inv s" "free_of (cells s) (lo e) (hi e)" "range_ok (lo e) (hi e)" "l \<notin> set (gMemoryMap s)"
    and t: "distinct (gMemoryMap t)" "set (gMemoryMap t) = insert l (set (gMemoryMap s))" "MapEntries t = (MapEntries s)(l \<mapsto> e)"
  shows "mapped_at t k e' \<longleftrightarrow> mapped_at s k e' \<or> k = l \<and> e' = e" "map_inv t"
    "cells t = cells s \<union> block (lo e) (hi e) (Type e) (Attribute e)"
proof -
  have m: "mapped_at t k e' \<longleftrightarrow> mapped_at s k e' \<or> k = l \<and> e' = e" for k e'
    using s(4) by (auto simp: mapped_at_def t)
  then show "mapped_at t k e' \<longleftrightarrow> mapped_at s k e' \<or> k = l \<and> e' = e" .
  have no: "x \<notin> rng e" if "mapped_at s k e'" "x \<in> rng e'" for k e' x
    using free_of_rng [OF s(2) that(1)] that(2) by blast
  show "map_inv t"
  proof (rule map_invI)
    show "MapEntries t k \<noteq> None" if "k \<in> set (gMemoryMap t)" for k
      using that map_invD(2) [OF s(1)] by (auto simp: t mapped_at_def)
    show "range_ok (lo e') (hi e')" if "mapped_at t k e'" for k e' using that map_invD(3) [OF s(1)] s(3) by (auto simp: m)
    show "k = k'" if "mapped_at t k e1" "mapped_at t k' e2" "x \<in> rng e1" "x \<in> rng e2" for k e1 k' e2 x
      using that map_invD(4) [OF s(1)] no unfolding m by blast
  qed (rule t)
  show "cells t = cells s \<union> block (lo e) (hi e) (Type e) (Attribute e)"
    by (auto simp: cells_def m block_def) blast+
qed

subsection \<open>Merging and adding a range\<close>

lemma unat_inc: "unat (x :: uint64) + 1 < 2 ^ 64 \<Longrightarrow> unat (x + 1) = unat x + 1"
  by (simp add: unat_add_noc)

lemma range_ok_page: "range_ok a b \<Longrightarrow> a + 4096 \<le> b"
  unfolding range_ok_def by (auto elim!: dvdE)

lemma range_ok_less: "range_ok a (b + 1) \<Longrightarrow> a < b"
  using range_ok_page [of a "b + 1"] by simp

lemma hi_step: "range_ok (lo e) (hi e) \<Longrightarrow> End e + 1 = S \<longleftrightarrow> hi e = unat S"
  unfolding range_ok_def hi_def by (metis unat_inc word_unat_eq_iff)

lemma block_split: "a \<le> b \<Longrightarrow> b \<le> c \<Longrightarrow> block a b T A \<union> block b c T A = block a c T A"
  by (auto simp: block_def)

lemma RemoveMemoryMapEntry_run:
  assumes "mapped_at s l e" "map_inv s" "ids_inv s"
  shows "\<exists>t. RemoveMemoryMapEntry l s = Some t \<and> gMemoryMap t = removeAll l (gMemoryMap s) \<and> MapEntries t = MapEntries s \<and>
    map_inv t \<and> ids_inv t \<and> cells t = cells s - block (lo e) (hi e) (Type e) (Attribute e) \<and> free_of (cells t) (lo e) (hi e) \<and>
    same_rest s t \<and> mMapDepth t = mMapDepth s \<and> stored t = stored s - (if FromPages e then {} else {l}) \<and>
    length (mFreeMemoryMapEntryList s) \<le> length (mFreeMemoryMapEntryList t)"
proof -
  define t where "t = (let s = s\<lparr>gMemoryMap := removeAll l (gMemoryMap s)\<rparr> in
    if FromPages e then s\<lparr>mFreeMemoryMapEntryList := mFreeMemoryMapEntryList s @ [l]\<rparr> else s)"
  have l: "l \<in> set (gMemoryMap s)" "MapEntries s l = Some e" using assms(1) by (simp_all add: mapped_at_def)
  have run: "RemoveMemoryMapEntry l s = Some t" using l by (simp add: RemoveMemoryMapEntry_def t_def Let_def)
  have t: "gMemoryMap t = removeAll l (gMemoryMap s)" "MapEntries t = MapEntries s" "same_rest s t" "mMapDepth t = mMapDepth s"
    "mFreeMemoryMapEntryList t = (if FromPages e then mFreeMemoryMapEntryList s @ [l] else mFreeMemoryMapEntryList s)"
    by (simp_all add: t_def Let_def same_rest_def)
  note r = removed [OF assms(2,1) t(1,2)]
  have big: "FromPages e \<longleftrightarrow> 4096 \<le> l" using assms(1,3) unfolding ids_inv_def by blast
  have new: "l \<notin> set (mFreeMemoryMapEntryList s)" using l assms(3) by (auto simp: ids_inv_def)
  have "ids_inv t" using assms(3) new big unfolding ids_inv_def r(1) t by (auto simp: t(5))
  moreover have "stored t = stored s - (if FromPages e then {} else {l})"
    using l(1) big by (auto simp: stored_def t)
  ultimately show ?thesis using run t r(2-4) by (intro exI [of _ t]) simp
qed

lemma merge_range_run:
  assumes "map_inv s" "ids_inv s" "range_ok (unat S) (unat L + 1)" "free_of (cells s) (unat S) (unat L + 1)"
    and "set ls \<subseteq> set (gMemoryMap s)" "distinct ls"
  shows "\<exists>S' L' t. merge_range T A ls S L s = Some (S', L', t) \<and> map_inv t \<and> ids_inv t \<and>
    range_ok (unat S') (unat L' + 1) \<and> free_of (cells t) (unat S') (unat L' + 1) \<and>
    cells t \<union> block (unat S') (unat L' + 1) T A = cells s \<union> block (unat S) (unat L + 1) T A \<and>
    same_rest s t \<and> mMapDepth t = mMapDepth s \<and> stored t \<subseteq> stored s \<and> set (gMemoryMap t) \<subseteq> set (gMemoryMap s) \<and>
    length (mFreeMemoryMapEntryList s) \<le> length (mFreeMemoryMapEntryList t)"
  using assms
proof (induction ls arbitrary: S L s)
  case Nil
  then show ?case by simp
next
  case (Cons l ls)
  obtain e where e: "mapped_at s l e" using map_invD(2) [OF Cons.prems(1)] Cons.prems(5) by auto
  have el: "MapEntries s l = Some e" using e by (simp add: mapped_at_def)
  have re: "range_ok (lo e) (hi e)" by (rule map_invD(3) [OF Cons.prems(1) e])
  have ends: "L + 1 = Start e \<longleftrightarrow> unat L + 1 = lo e"
    using Cons.prems(3) unfolding range_ok_def lo_def by (metis unat_inc word_unat_eq_iff)
  show ?case
  proof (cases "Type e = T \<and> Attribute e = A \<and> (hi e = unat S \<or> lo e = unat L + 1)")
    case False
    have "merge_range T A (l # ls) S L s = merge_range T A ls S L s"
      using False el hi_step [OF re, of S] ends by auto
    then show ?thesis using Cons.IH [OF Cons.prems(1-4)] Cons.prems(5,6) by auto
  next
    case True
    obtain u where u: "RemoveMemoryMapEntry l s = Some u" "gMemoryMap u = removeAll l (gMemoryMap s)" "map_inv u" "ids_inv u"
      "cells u = cells s - block (lo e) (hi e) (Type e) (Attribute e)" "free_of (cells u) (lo e) (hi e)" "same_rest s u"
      "mMapDepth u = mMapDepth s" "stored u = stored s - (if FromPages e then {} else {l})"
      "length (mFreeMemoryMapEntryList s) \<le> length (mFreeMemoryMapEntryList u)"
      using RemoveMemoryMapEntry_run [OF e Cons.prems(1,2)] by blast
    define S1 where "S1 = (if hi e = unat S then Start e else S)"
    define L1 where "L1 = (if hi e = unat S then L else End e)"
    have run: "merge_range T A (l # ls) S L s = merge_range T A ls S1 L1 u"
      using True el u(1) hi_step [OF re, of S] ends by (auto simp: S1_def L1_def)
    have bounds: "hi e = unat S \<and> unat S1 = lo e \<and> unat L1 + 1 = unat L + 1 \<or>
        lo e = unat L + 1 \<and> unat S1 = unat S \<and> unat L1 + 1 = hi e"
      using True Cons.prems(3) re by (auto simp: S1_def L1_def lo_def hi_def range_ok_def)
    have ok1: "range_ok (unat S1) (unat L1 + 1)" using bounds re Cons.prems(3) by (auto simp: range_ok_def)
    have join: "block (lo e) (hi e) T A \<union> block (unat S) (unat L + 1) T A = block (unat S1) (unat L1 + 1) T A"
      using bounds re Cons.prems(3) by (auto simp: range_ok_def block_def)
    have fr: "free_of (cells u) (unat S1) (unat L1 + 1)"
      using bounds u(5,6) Cons.prems(4) re Cons.prems(3) unfolding free_of_def by (fastforce simp: range_ok_def)
    have eb: "block (lo e) (hi e) T A \<subseteq> cells s" using cellsI [OF e] True by (auto simp: block_def)
    have ls: "set ls \<subseteq> set (gMemoryMap u)" "distinct ls" using Cons.prems(5,6) u(2) by auto
    from Cons.IH [OF u(3,4) ok1 fr ls] obtain S' L' t where t: "merge_range T A ls S1 L1 u = Some (S', L', t)" "map_inv t" "ids_inv t"
      "range_ok (unat S') (unat L' + 1)" "free_of (cells t) (unat S') (unat L' + 1)"
      "cells t \<union> block (unat S') (unat L' + 1) T A = cells u \<union> block (unat S1) (unat L1 + 1) T A"
      "same_rest u t" "mMapDepth t = mMapDepth u" "stored t \<subseteq> stored u" "set (gMemoryMap t) \<subseteq> set (gMemoryMap u)"
      "length (mFreeMemoryMapEntryList u) \<le> length (mFreeMemoryMapEntryList t)" by (elim exE conjE) (rule that)
    have "cells u \<union> block (unat S1) (unat L1 + 1) T A = cells s \<union> block (unat S) (unat L + 1) T A"
      using join eb u(5) True by auto
    then show ?thesis using run t u(2,7,8,9,10) same_rest_trans [OF u(7) t(7)]
      by (intro exI [of _ S'] exI [of _ L'] exI [of _ t]) (auto split: if_splits)
  qed
qed

lemma push_map_stack_run:
  assumes "map_inv s" "ids_inv s" "mMapDepth s < 6" "en \<longrightarrow> mMapDepth s < 5" "range_ok (lo e) (hi e)" "free_of (cells s) (lo e) (hi e)" "\<not> FromPages e"
  shows "\<exists>t. push_map_stack en e s = Some t \<and> map_inv t \<and> ids_inv t \<and>
    cells t = cells s \<union> block (lo e) (hi e) (Type e) (Attribute e) \<and> same_rest s t \<and> mMapDepth t = mMapDepth s + 1 \<and>
    stored t = stored s \<and> mFreeMemoryMapEntryList t = mFreeMemoryMapEntryList s \<and>
    mapped_at t (mMapStack_at (mMapDepth s)) e \<and> MapEntries t = (MapEntries s)(mMapStack_at (mMapDepth s) \<mapsto> e)"
proof -
  let ?a = "mMapStack_at (mMapDepth s)"
  let ?t = "s\<lparr>MapEntries := (MapEntries s)(?a \<mapsto> e), gMemoryMap := gMemoryMap s @ [?a], mMapDepth := mMapDepth s + 1\<rparr>"
  have new: "?a \<notin> set (gMemoryMap s)"
  proof
    assume "?a \<in> set (gMemoryMap s)"
    then obtain f where "mapped_at s ?a f" using map_invD(2) [OF assms(1)] by blast
    then have "?a < 4096 \<longrightarrow> ?a \<le> mMapDepth s" using assms(2) unfolding ids_inv_def by blast
    then show False using assms(3) by (simp add: mMapStack_at_def)
  qed
  then have run: "push_map_stack en e s = Some ?t"
    using assms(3,4) by (simp add: push_map_stack_def Let_def ASSERT_def)
  have d: "distinct (gMemoryMap ?t)" "set (gMemoryMap ?t) = insert ?a (set (gMemoryMap s))" "MapEntries ?t = (MapEntries s)(?a \<mapsto> e)"
    using new map_invD(1) [OF assms(1)] by simp_all
  note a = added [OF assms(1,6,5) new d]
  have small: "?a \<le> 6" "1 \<le> ?a" using assms(3) by (simp_all add: mMapStack_at_def)
  have nf: "?a \<notin> set (mFreeMemoryMapEntryList s)" using assms(2) small by (auto simp: ids_inv_def)
  have "ids_inv ?t"
    using assms(2,7) small nf unfolding ids_inv_def a(1) by (auto simp: mMapStack_at_def) (meson le_SucI)
  moreover have "stored ?t = stored s" using small by (auto simp: stored_def)
  moreover have "mapped_at ?t ?a e" by (simp add: mapped_at_def)
  ultimately show ?thesis using run a(2,3) d(3) by (intro exI [of _ ?t]) (simp add: same_rest_def)
qed

lemma CoreAddRange_run:
  assumes s: "map_inv s" "ids_inv s" "mMapDepth s < 6" "MemAsserts E \<longrightarrow> mMapDepth s < 5" "MemAsserts E \<longrightarrow> gMemoryLock s = EfiLockAcquired"
    and r: "range_ok (unat S) (unat L + 1)" "free_of (cells s) (unat S) (unat L + 1)"
  shows "\<exists>t. CoreAddRange E T S L A s = Some t \<and> map_inv t \<and> ids_inv t \<and>
    cells t = cells s \<union> block (unat S) (unat L + 1) T A \<and> same_rest s t \<and> mMapDepth t = mMapDepth s + 1 \<and> stored t \<subseteq> stored s \<and>
    length (mFreeMemoryMapEntryList s) \<le> length (mFreeMemoryMapEntryList t)"
proof -
  let ?s = "s\<lparr>mMemoryMapKey := mMemoryMapKey s + 1, Memory := NotifyMemoryMapChange E (Memory s)\<rparr>"
  have c: "cells ?s = cells s" by (rule cells_cong) simp
  have m: "map_inv ?s" by (rule map_inv_cong [OF _ _ s(1)]) simp_all
  have i: "ids_inv ?s" using s(2) by (simp add: ids_inv_def)
  have st: "stored ?s = stored s" by (simp add: stored_def)
  from merge_range_run [OF m i r(1) r(2) [folded c], of "gMemoryMap s" T A] map_invD(1) [OF s(1)]
  obtain S' L' u where u: "merge_range T A (gMemoryMap s) S L ?s = Some (S', L', u)" "map_inv u" "ids_inv u"
    "range_ok (unat S') (unat L' + 1)" "free_of (cells u) (unat S') (unat L' + 1)"
    "cells u \<union> block (unat S') (unat L' + 1) T A = cells s \<union> block (unat S) (unat L + 1) T A"
    "same_rest ?s u" "mMapDepth u = mMapDepth s" "stored u \<subseteq> stored s"
    "length (mFreeMemoryMapEntryList s) \<le> length (mFreeMemoryMapEntryList u)"
    unfolding c st by auto
  let ?e = "\<lparr>FromPages = False, Type = T, Start = S', End = L', VirtualStart = 0, Attribute = A\<rparr>"
  obtain t where t: "push_map_stack (MemAsserts E) ?e u = Some t" "map_inv t" "ids_inv t"
      "cells t = cells u \<union> block (lo ?e) (hi ?e) T A" "same_rest u t" "mMapDepth t = mMapDepth u + 1" "stored t = stored u"
      "mFreeMemoryMapEntryList t = mFreeMemoryMapEntryList u"
    using push_map_stack_run [OF u(2,3), where e = ?e and en = "MemAsserts E"] u(4,5,8) s(3,4) by (auto simp: lo_def hi_def)
  have "S AND EFI_PAGE_MASK = 0" using r(1) aligned_iff [of S 12] by (simp add: range_ok_def mask_eq_exp_minus_1)
  moreover have "L > S" using range_ok_less [OF r(1)] by (simp add: word_less_nat_alt)
  ultimately have "CoreAddRange E T S L A s = Some t"
    using s(5) u(1) t(1) by (simp add: CoreAddRange_def ASSERT_def)
  then show ?thesis
    using t u(6,9,10) same_rest_trans [OF u(7) t(5)] u(8)
    by (intro exI [of _ t]) (simp add: lo_def hi_def same_rest_def)
qed

text \<open>If adding a range returns, there was a slot for it.\<close>

lemma CoreAddRange_depth:
  assumes s: "map_inv s" "ids_inv s" and r: "range_ok (unat S) (unat L + 1)" "free_of (cells s) (unat S) (unat L + 1)"
    and run: "CoreAddRange E T S L A s = Some t"
  shows "mMapDepth s < 6" "MemAsserts E \<longrightarrow> mMapDepth s < 5" "MemAsserts E \<longrightarrow> gMemoryLock s = EfiLockAcquired"
proof -
  let ?s = "s\<lparr>mMemoryMapKey := mMemoryMapKey s + 1, Memory := NotifyMemoryMapChange E (Memory s)\<rparr>"
  have c: "cells ?s = cells s" by (rule cells_cong) simp
  have m: "map_inv ?s" by (rule map_inv_cong [OF _ _ s(1)]) simp_all
  have i: "ids_inv ?s" using s(2) by (simp add: ids_inv_def)
  from merge_range_run [OF m i r(1) r(2) [folded c], of "gMemoryMap s" T A] map_invD(1) [OF s(1)]
  obtain S' L' u where u: "merge_range T A (gMemoryMap s) S L ?s = Some (S', L', u)" "mMapDepth u = mMapDepth s" by auto
  then have "push_map_stack (MemAsserts E) \<lparr>FromPages = False, Type = T, Start = S', End = L', VirtualStart = 0, Attribute = A\<rparr> u = Some t"
    and "MemAsserts E \<longrightarrow> gMemoryLock s = EfiLockAcquired"
    using run by (auto simp: CoreAddRange_def bind_eq_Some_conv ASSERT_Some_iff)
  then show "mMapDepth s < 6" "MemAsserts E \<longrightarrow> mMapDepth s < 5" "MemAsserts E \<longrightarrow> gMemoryLock s = EfiLockAcquired"
    using u(2) by (auto simp: push_map_stack_def Let_def bind_eq_Some_conv ASSERT_Some_iff split: if_splits)
qed

subsection \<open>Taking a range out of a descriptor\<close>

lemma replaced:
  assumes s: "map_inv s" "ids_inv s" "mapped_at s l e"
    and e': "range_ok (lo e') (hi e')" "rng e' \<subseteq> rng e" "Type e' = Type e" "Attribute e' = Attribute e" "FromPages e' = FromPages e"
    and t: "t = s\<lparr>MapEntries := (MapEntries s)(l \<mapsto> e')\<rparr>"
  shows "map_inv t" "ids_inv t" "cells t = cells s - ((rng e - rng e') \<times> {(Type e, Attribute e)})" "mapped_at t l e'"
proof -
  have m: "mapped_at t k f \<longleftrightarrow> (if k = l then f = e' else mapped_at s k f)" for k f
    using s(3) by (auto simp: mapped_at_def t)
  have only: "k = l" if "mapped_at s k f" "x \<in> rng f" "x \<in> rng e" for k f x using map_invD(4) [OF s(1) that(1) s(3) that(2,3)] .
  show "mapped_at t l e'" by (simp add: m)
  show "map_inv t"
  proof (rule map_invI)
    show "distinct (gMemoryMap t)" using map_invD(1) [OF s(1)] by (simp add: t)
    show "MapEntries t k \<noteq> None" if "k \<in> set (gMemoryMap t)" for k using that map_invD(2) [OF s(1)] by (auto simp: t mapped_at_def)
    show "range_ok (lo f) (hi f)" if "mapped_at t k f" for k f
      using that e'(1) map_invD(3) [OF s(1)] by (auto simp: m split: if_splits)
    show "k = k'" if "mapped_at t k f" "mapped_at t k' f'" "x \<in> rng f" "x \<in> rng f'" for k f k' f' x
      using that only e'(2) map_invD(4) [OF s(1)] unfolding m by (metis subsetD)
  qed
  show "ids_inv t" using s(2,3) e'(5) unfolding ids_inv_def m by (auto simp: t split: if_splits)
  show "cells t = cells s - ((rng e - rng e') \<times> {(Type e, Attribute e)})"
  proof (intro set_eqI iffI)
    fix c assume "c \<in> cells t"
    then obtain k f x where c: "c = (x, Type f, Attribute f)" "mapped_at t k f" "x \<in> rng f" by (auto simp: cells_def)
    show "c \<in> cells s - ((rng e - rng e') \<times> {(Type e, Attribute e)})"
    proof (cases "k = l")
      case True
      then show ?thesis using c e'(2-4) cellsI [OF s(3), of x] by (auto simp: m)
    next
      case False
      then show ?thesis using c only [of k f x] cellsI [of s k f x] by (auto simp: m)
    qed
  next
    fix c assume c': "c \<in> cells s - ((rng e - rng e') \<times> {(Type e, Attribute e)})"
    then obtain k f x where c: "c = (x, Type f, Attribute f)" "mapped_at s k f" "x \<in> rng f" by (auto simp: cells_def)
    show "c \<in> cells t"
    proof (cases "k = l")
      case True
      then have "f = e" using c(2) s(3) by (simp add: mapped_at_def)
      then have "x \<in> rng e'" using c c' by auto
      then show ?thesis using cellsI [of t l e' x] \<open>f = e\<close> c(1) e'(3,4) by (simp add: m)
    next
      case False
      then show ?thesis using cellsI [of t k f x] c by (simp add: m)
    qed
  qed
qed

end
