(* ===== verification/PageConvert.thy ===== *)
theory PageConvert
  imports PageInv
begin

unbundle bit_operations_syntax

section \<open>Conversion of pages\<close>

text \<open>
  One turn of \<open>CoreConvertPages\<close> takes a range out of a descriptor and adds it with its new type. Storing the
  descriptors afterwards may allocate a page for them; the relation \<open>grows\<close> says what that can change: free memory
  may become memory of the boot services, allocated memory stays as it is.
\<close>

subsection \<open>One turn\<close>

lemma unat_dec: "0 < unat (S :: uint64) \<Longrightarrow> unat (S - 1) = unat S - 1"
  by (rule unat_minus_one) auto

lemma mMapStack_free:
  assumes "map_inv s" "ids_inv s" "mMapDepth s < 6"
  shows "mMapStack_at (mMapDepth s) \<notin> set (gMemoryMap s)"
proof
  assume "mMapStack_at (mMapDepth s) \<in> set (gMemoryMap s)"
  then obtain f where "mapped_at s (mMapStack_at (mMapDepth s)) f" using map_invD(2) [OF assms(1)] by blast
  then have "mMapStack_at (mMapDepth s) < 4096 \<longrightarrow> mMapStack_at (mMapDepth s) \<le> mMapDepth s"
    using assms(2) unfolding ids_inv_def by blast
  then show False using assms(3) by (simp add: mMapStack_at_def)
qed

text \<open>The outcome of taking the range from \<open>a\<close> to \<open>b\<close> out of \<open>e\<close>.\<close>

definition pulled :: "nat \<Rightarrow> nat \<Rightarrow> MEMORY_MAP \<Rightarrow> 'w mem \<Rightarrow> 'w mem \<Rightarrow> bool" where
  "pulled a b e s u \<longleftrightarrow> map_inv u \<and> ids_inv u \<and> cells u = cells s - block a b (Type e) (Attribute e) \<and> free_of (cells u) a b \<and>
     same_rest s u \<and> stored u \<subseteq> stored s \<and> mMapDepth u \<le> mMapDepth s + 1 \<and>
     length (mFreeMemoryMapEntryList s) \<le> length (mFreeMemoryMapEntryList u)"

lemma free_of_minus:
  assumes "map_inv s" "mapped_at s l e" "{a..<b} \<subseteq> rng e"
  shows "free_of (cells s - block a b (Type e) (Attribute e)) a b"
  unfolding free_of_def
proof (intro allI impI notI)
  fix x T A assume x: "(x, T, A) \<in> cells s - block a b (Type e) (Attribute e)" "x \<in> {a..<b}"
  then have "(x, Type e, Attribute e) \<in> cells s" using cellsI [OF assms(2)] assms(3) by blast
  with x show False using cells_unique [OF assms(1)] by (auto simp: block_def)
qed

lemma pulled_shrink:
  assumes s: "map_inv s" "ids_inv s" "mapped_at s l e" and e': "range_ok (lo e') (hi e')" "rng e - rng e' = {a..<b}" "rng e' \<subseteq> rng e"
    "Type e' = Type e" "Attribute e' = Attribute e" "FromPages e' = FromPages e"
  shows "pulled a b e s (s\<lparr>MapEntries := (MapEntries s)(l \<mapsto> e')\<rparr>)"
proof -
  let ?t = "s\<lparr>MapEntries := (MapEntries s)(l \<mapsto> e')\<rparr>"
  note r = replaced [OF s e'(1,3,4,5,6) refl]
  have c: "cells ?t = cells s - block a b (Type e) (Attribute e)" using r(3) e'(2) by (simp add: block_def)
  have "{a..<b} \<subseteq> rng e" using e'(2) by blast
  then have "free_of (cells ?t) a b" unfolding c by (rule free_of_minus [OF s(1,3)])
  then show ?thesis using r(1,2) c by (simp add: pulled_def same_rest_def stored_def)
qed

lemma pulled_all:
  assumes s: "map_inv s" "ids_inv s" "mapped_at s l e"
  shows "\<exists>u. RemoveMemoryMapEntry l (s\<lparr>MapEntries := (MapEntries s)(l \<mapsto> e\<lparr>Start := x\<rparr>)\<rparr>) = Some u \<and> pulled (lo e) (hi e) e s u"
proof -
  obtain t where t: "RemoveMemoryMapEntry l s = Some t" "gMemoryMap t = removeAll l (gMemoryMap s)" "MapEntries t = MapEntries s"
    "map_inv t" "ids_inv t" "cells t = cells s - block (lo e) (hi e) (Type e) (Attribute e)" "free_of (cells t) (lo e) (hi e)"
    "same_rest s t" "mMapDepth t = mMapDepth s" "stored t = stored s - (if FromPages e then {} else {l})"
    "length (mFreeMemoryMapEntryList s) \<le> length (mFreeMemoryMapEntryList t)" using RemoveMemoryMapEntry_run [OF s(3,1,2)] by blast
  let ?u = "t\<lparr>MapEntries := (MapEntries s)(l \<mapsto> e\<lparr>Start := x\<rparr>)\<rparr>"
  have el: "MapEntries s l = Some e" "l \<in> set (gMemoryMap s)" using s(3) by (simp_all add: mapped_at_def)
  have run: "RemoveMemoryMapEntry l (s\<lparr>MapEntries := (MapEntries s)(l \<mapsto> e\<lparr>Start := x\<rparr>)\<rparr>) = Some ?u"
    using t(1) el by (auto simp: RemoveMemoryMapEntry_def Let_def)
  have m: "mapped_at ?u = mapped_at t" using t(2,3) by (auto simp: fun_eq_iff mapped_at_def)
  have "ids_inv ?u" using t(5) unfolding ids_inv_def m by simp
  moreover have "map_inv ?u" by (rule map_inv_cong [OF m _ t(4)]) simp
  ultimately have "pulled (lo e) (hi e) e s ?u"
    using t(6-11) cells_cong [OF m] by (simp add: pulled_def same_rest_def stored_def)
  with run show ?thesis by blast
qed

lemma pulled_middle:
  assumes s: "map_inv s" "ids_inv s" "mapped_at s l e" and ab: "lo e < a" "a < b" "b < hi e" "4096 dvd a" "4096 dvd b"
    and S: "unat S = a" and R: "unat RangeEnd + 1 = b" and f: "f = \<lparr>FromPages = False, Type = Type e, Start = RangeEnd + 1, End = End e,
      VirtualStart = v, Attribute = Attribute e\<rparr>"
    and run: "push_map_stack en f (s\<lparr>MapEntries := (MapEntries s)(l \<mapsto> e\<lparr>End := S - 1\<rparr>)\<rparr>) = Some u"
  shows "pulled a b e s u" "MapEntries u (mMapStack_at (mMapDepth s)) = Some f" "Start f \<noteq> End f + 1"
proof -
  let ?e = "e\<lparr>End := S - 1\<rparr>" and ?s = "s\<lparr>MapEntries := (MapEntries s)(l \<mapsto> e\<lparr>End := S - 1\<rparr>)\<rparr>"
  have re: "range_ok (lo e) (hi e)" by (rule map_invD(3) [OF s(1,3)])
  have S1: "unat (S - 1) = a - 1" "a > 0" using S ab(1) unat_dec [of S] by simp_all
  have le: "lo ?e = lo e" "hi ?e = a" using S1 by (simp_all add: lo_def hi_def)
  have R1: "unat (RangeEnd + 1) = b" using R ab(3) re unat_inc [of RangeEnd] by (auto simp: range_ok_def)
  then have lf: "lo f = b" "hi f = hi e" by (simp_all add: f lo_def hi_def)
  have "range_ok (lo ?e) (hi ?e)" using re ab le by (auto simp: range_ok_def)
  note r = replaced [OF s this _ _ _ _ refl]
  have sub: "rng ?e \<subseteq> rng e" using ab le by auto
  note r = r [OF sub]
  have t: "map_inv ?s" "ids_inv ?s" "cells ?s = cells s - ((rng e - rng ?e) \<times> {(Type e, Attribute e)})" using r by simp_all
  have fr: "free_of (cells ?s) (lo f) (hi f)"
  proof -
    have "free_of (cells s - block a (hi e) (Type e) (Attribute e)) a (hi e)"
      by (rule free_of_minus [OF s(1,3)]) (use ab in auto)
    moreover have "cells ?s = cells s - block a (hi e) (Type e) (Attribute e)"
      using t(3) le ab by (auto simp: block_def)
    ultimately show ?thesis using lf ab by (auto simp: free_of_def)
  qed
  have rf: "range_ok (lo f) (hi f)" using re ab lf by (auto simp: range_ok_def)
  have dep: "mMapDepth ?s < 6" "en \<longrightarrow> mMapDepth ?s < 5"
    using run by (auto simp: push_map_stack_def Let_def bind_eq_Some_conv ASSERT_Some_iff split: if_splits)
  have "\<not> FromPages f" by (simp add: f)
  from push_map_stack_run [OF t(1,2) dep rf fr this] run
  have u: "map_inv u" "ids_inv u" "cells u = cells ?s \<union> block (lo f) (hi f) (Type f) (Attribute f)" "same_rest ?s u"
    "mMapDepth u = mMapDepth ?s + 1" "stored u = stored ?s" "mFreeMemoryMapEntryList u = mFreeMemoryMapEntryList ?s"
    "mapped_at u (mMapStack_at (mMapDepth ?s)) f" by auto
  have blk: "block (lo f) (hi f) (Type f) (Attribute f) \<subseteq> cells s" using cellsI [OF s(3)] lf ab by (auto simp: block_def f)
  have "cells u = cells s - block a b (Type e) (Attribute e)"
    unfolding u(3) t(3) using blk lf le ab by (auto simp: block_def f)
  moreover have "free_of (cells s - block a b (Type e) (Attribute e)) a b"
    by (rule free_of_minus [OF s(1,3)]) (use ab in auto)
  moreover have "stored ?s = stored s" "same_rest s u" using u(4) by (simp_all add: stored_def same_rest_def)
  ultimately show "pulled a b e s u" using u(1,2,5-7) by (simp add: pulled_def)
  show "MapEntries u (mMapStack_at (mMapDepth s)) = Some f" using u(8) by (simp add: mapped_at_def)
  show "Start f \<noteq> End f + 1"
    using R1 ab(3) hi_step [OF rf, of "Start f"] lf by (auto simp: f)
qed

lemma clip_entry_pulled:
  assumes s: "map_inv s" "ids_inv s" "mapped_at s l e" and r: "range_ok (unat S) (unat R + 1)" "lo e \<le> unat S" "unat R + 1 \<le> hi e"
    and run: "clip_entry en l e S R s = Some (k, t)"
  shows "\<exists>e' u. MapEntries t k = Some e' \<and> Attribute e' = Attribute e \<and>
    (if Start e' = End e' + 1 then RemoveMemoryMapEntry k t else Some t) = Some u \<and> pulled (unat S) (unat R + 1) e s u"
proof -
  have re: "range_ok (lo e) (hi e)" by (rule map_invD(3) [OF s(1,3)])
  have R1: "unat (R + 1) = unat R + 1" using r(1) unat_inc [of R] by (simp add: range_ok_def)
  have E1: "unat (End e + 1) = hi e" using re unat_inc [of "End e"] by (simp add: range_ok_def hi_def)
  consider "Start e = S" "R + 1 = End e + 1" | "Start e = S" "R + 1 \<noteq> End e + 1" | "Start e \<noteq> S" "End e = R" | "Start e \<noteq> S" "End e \<noteq> R"
    by blast
  then show ?thesis
  proof cases
    case 1
    then have t: "k = l" "t = s\<lparr>MapEntries := (MapEntries s)(l \<mapsto> e\<lparr>Start := R + 1\<rparr>)\<rparr>" using run by (auto simp: clip_entry_def)
    have "lo e = unat S" "hi e = unat R + 1" using 1 R1 E1 by (simp_all add: lo_def)
    then show ?thesis using pulled_all [OF s, of "R + 1"] 1 t by auto
  next
    case 2
    let ?e = "e\<lparr>Start := R + 1\<rparr>"
    have t: "k = l" "t = s\<lparr>MapEntries := (MapEntries s)(l \<mapsto> ?e)\<rparr>" using 2 run by (auto simp: clip_entry_def)
    have "unat R + 1 \<noteq> hi e" using 2(2) R1 E1 by (metis word_unat_eq_iff)
    then have l: "lo ?e = unat R + 1" "hi ?e = hi e" "lo e = unat S" "unat R + 1 < hi e" using 2 R1 r(3) by (simp_all add: lo_def hi_def)
    have "pulled (unat S) (unat R + 1) e s t" unfolding t
      by (rule pulled_shrink [OF s]) (use l re r(1) in \<open>auto simp: range_ok_def\<close>)
    then show ?thesis using t 2 by auto
  next
    case 3
    let ?e = "e\<lparr>End := S - 1\<rparr>"
    have t: "k = l" "t = s\<lparr>MapEntries := (MapEntries s)(l \<mapsto> ?e)\<rparr>" using 3 run by (auto simp: clip_entry_def)
    have "lo e \<noteq> unat S" using 3(1) by (simp add: lo_def word_unat_eq_iff)
    then have a: "lo e < unat S" using r(2) by simp
    then have l: "lo ?e = lo e" "hi ?e = unat S" "hi e = unat R + 1" using 3 unat_dec [of S] by (simp_all add: lo_def hi_def)
    have "pulled (unat S) (unat R + 1) e s t" unfolding t
      by (rule pulled_shrink [OF s]) (use l re r(1) a in \<open>auto simp: range_ok_def\<close>)
    then show ?thesis using t 3 by auto
  next
    case 4
    define v where "v = (case MapEntries s (mMapStack_at (mMapDepth s)) of None \<Rightarrow> 0 | Some old \<Rightarrow> VirtualStart old)"
    let ?f = "\<lparr>FromPages = False, Type = Type e, Start = R + 1, End = End e, VirtualStart = v, Attribute = Attribute e\<rparr>"
    have t: "k = mMapStack_at (mMapDepth s)" "push_map_stack en ?f (s\<lparr>MapEntries := (MapEntries s)(l \<mapsto> e\<lparr>End := S - 1\<rparr>)\<rparr>) = Some t"
      using 4 run by (auto simp: clip_entry_def Let_def bind_eq_Some_conv v_def)
    have "lo e \<noteq> unat S" "hi e \<noteq> unat R + 1" using 4 by (simp_all add: lo_def hi_def word_unat_eq_iff)
    then have ab: "lo e < unat S" "unat S < unat R + 1" "unat R + 1 < hi e" "4096 dvd unat S" "4096 dvd unat R + 1"
      using r by (auto simp: range_ok_def)
    note p = pulled_middle [OF s ab refl refl refl t(2)]
    show ?thesis using p t(1) by (intro exI [of _ ?f] exI [of _ t]) simp
  qed
qed

end
