(* ===== verification/PageKeeps.thy ===== *)
theory PageKeeps
  imports PageConvert
begin

unbundle bit_operations_syntax

section \<open>What the conversion of pages keeps\<close>

text \<open>
  The invariant of the page allocator, \<open>page_inv\<close>, and the relation \<open>turned T a b s t\<close> between the maps before and after
  the addresses from \<open>a\<close> to \<open>b\<close> became memory of type \<open>T\<close>. Storing descriptors, the function \<open>F\<close> of the model, is an
  interface here: a locale with its contract, in which conversion is proved, and which the conversion in turn
  provides for \<open>CoreFreeMemoryMapStack\<close>.
\<close>

subsection \<open>The invariant\<close>

definition promo_ok :: "EFI_GCD_MAP_ENTRY list \<Rightarrow> cell set \<Rightarrow> bool" where
  "promo_ok G C \<longleftrightarrow>
     (\<forall>i < length G. promotable (G ! i) \<longrightarrow> range_ok (unat (BaseAddress (G ! i))) (unat (EndAddress (G ! i)) + 1) \<and>
        free_of C (unat (BaseAddress (G ! i))) (unat (EndAddress (G ! i)) + 1)) \<and>
     (\<forall>i < length G. \<forall>j < length G. promotable (G ! i) \<longrightarrow> promotable (G ! j) \<longrightarrow> i \<noteq> j \<longrightarrow>
        {unat (BaseAddress (G ! i))..unat (EndAddress (G ! i))} \<inter> {unat (BaseAddress (G ! j))..unat (EndAddress (G ! j))} = {})"

definition page_inv :: "'w mem \<Rightarrow> bool" where
  "page_inv s \<longleftrightarrow> map_inv s \<and> ids_inv s \<and> stored_in (stored s) (cells s) \<and> promo_ok (mGcdMemorySpaceMap s) (cells s)"

definition allocated :: "'w mem \<Rightarrow> nat \<Rightarrow> bool" where
  "allocated s x \<longleftrightarrow> (\<exists>T A. T \<noteq> EfiConventional \<and> (x, T, A) \<in> cells s)"

text \<open>Memory that its owner may free: allocated, and not by the map for its descriptors.\<close>

definition owned :: "'w mem \<Rightarrow> nat \<Rightarrow> nat \<Rightarrow> bool" where
  "owned s a b \<longleftrightarrow> (\<forall>x \<in> {a..<b}. allocated s x) \<and> stored s \<inter> {a..<b} = {}"

definition turned :: "int \<Rightarrow> nat \<Rightarrow> nat \<Rightarrow> 'w mem \<Rightarrow> 'w mem \<Rightarrow> bool" where
  "turned T a b s t \<longleftrightarrow>
     (\<forall>x \<in> {a..<b}. T \<noteq> EfiConventional \<longrightarrow> \<not> allocated s x) \<and>
     (\<forall>x \<in> {a..<b}. \<exists>A. ((x, T, A) \<in> cells t \<or> T = EfiConventional \<and> (x, EfiBootServicesData, A) \<in> cells t) \<and>
        (\<forall>U B. (x, U, B) \<in> cells s \<longrightarrow> B = A)) \<and>
     (\<forall>x U A. (x, U, A) \<in> cells s \<longrightarrow> x \<notin> {a..<b} \<longrightarrow>
        (x, U, A) \<in> cells t \<or> U = EfiConventional \<and> (x, EfiBootServicesData, A) \<in> cells t) \<and>
     (\<forall>x U A. (x, U, A) \<in> cells t \<longrightarrow>
        (x, U, A) \<in> cells s \<or> U \<in> {EfiConventional, EfiBootServicesData} \<or> x \<in> {a..<b} \<and> U = T) \<and>
     (T \<noteq> EfiConventional \<longrightarrow> stored t \<inter> {a..<b} = {}) \<and>
     (\<forall>l \<in> stored t. l \<in> stored s \<or> \<not> allocated s l \<or> T = EfiConventional \<and> l \<in> {a..<b})"

abbreviation evolves :: "'w mem \<Rightarrow> 'w mem \<Rightarrow> bool" where
  "evolves \<equiv> turned 0 0 0"

definition same_map :: "'w mem \<Rightarrow> 'w mem \<Rightarrow> bool" where
  "same_map s t \<longleftrightarrow> gMemoryMap t = gMemoryMap s \<and> MapEntries t = MapEntries s \<and> mFreeMapStack t = mFreeMapStack s \<and>
     mFreeMemoryMapEntryList t = mFreeMemoryMapEntryList s \<and> mMapDepth t = mMapDepth s \<and> mGcdMemorySpaceMap t = mGcdMemorySpaceMap s"

text \<open>Each service returns with the nesting it was called with, and no entry of the other map disappears. Of the bins it
  changes the counters, and the numbers of pages at the indexes that are in use.\<close>

definition kept :: "'w mem \<Rightarrow> 'w mem \<Rightarrow> bool" where
  "kept s t \<longleftrightarrow> mFreeMapStack t = mFreeMapStack s \<and> length (mGcdMemorySpaceMap t) = length (mGcdMemorySpaceMap s) \<and>
     mMemoryTypeInformationInitialized t = mMemoryTypeInformationInitialized s \<and>
     (\<forall>k. TypeBase (mMemoryTypeStatistics t k) = TypeBase (mMemoryTypeStatistics s k) \<and>
        MaximumAddress (mMemoryTypeStatistics t k) = MaximumAddress (mMemoryTypeStatistics s k) \<and>
        InformationIndex (mMemoryTypeStatistics t k) = InformationIndex (mMemoryTypeStatistics s k)) \<and>
     length (gMemoryTypeInformation t) = length (gMemoryTypeInformation s) \<and>
     (\<forall>i < length (gMemoryTypeInformation s). fst (gMemoryTypeInformation t ! i) = fst (gMemoryTypeInformation s ! i) \<and>
        ((\<forall>k. InformationIndex (mMemoryTypeStatistics s k) \<noteq> i) \<longrightarrow> gMemoryTypeInformation t ! i = gMemoryTypeInformation s ! i))"

lemma kept_refl [simp]: "kept s s"
  by (simp add: kept_def)

lemma kept_trans: "kept s t \<Longrightarrow> kept t u \<Longrightarrow> kept s u"
  by (simp add: kept_def)

lemma kept_same: "kept s t"
  if "mFreeMapStack t = mFreeMapStack s" "length (mGcdMemorySpaceMap t) = length (mGcdMemorySpaceMap s)"
    "mMemoryTypeInformationInitialized t = mMemoryTypeInformationInitialized s" "mMemoryTypeStatistics t = mMemoryTypeStatistics s"
    "gMemoryTypeInformation t = gMemoryTypeInformation s"
  using that by (simp add: kept_def)

lemma fst_list_update: "fst (xs[i := (fst (xs ! i), v)] ! j) = fst (xs ! j)"
  by (cases "i = j"; cases "i < length xs") (auto simp: list_update_beyond not_less)

lemma kept_count: "kept s (count_in T S n (count_out U S' m s))"
proof (rule kept_trans)
  show "kept s (count_out U S' m s)" by (simp add: kept_def count_out_def Let_def)
  show "kept t (count_in T S n t)" for t :: "'a mem"
  proof (cases "0 \<le> T \<and> T < EfiMaxMemoryType \<and> in_bin t T S")
    case True
    then show ?thesis unfolding kept_def count_in_def by (simp add: Let_def fst_list_update)
  qed (auto simp: count_in_def)
qed

lemma allocatedI: "(x, T, A) \<in> cells s \<Longrightarrow> T \<noteq> EfiConventional \<Longrightarrow> allocated s x"
  by (auto simp: allocated_def)

lemma turnedD:
  assumes "turned T a b s t"
  shows "x \<in> {a..<b} \<Longrightarrow> T \<noteq> EfiConventional \<Longrightarrow> \<not> allocated s x"
    "x \<in> {a..<b} \<Longrightarrow> \<exists>A. ((x, T, A) \<in> cells t \<or> T = EfiConventional \<and> (x, EfiBootServicesData, A) \<in> cells t) \<and>
      (\<forall>U B. (x, U, B) \<in> cells s \<longrightarrow> B = A)"
    "(x, U, A) \<in> cells s \<Longrightarrow> x \<notin> {a..<b} \<Longrightarrow> (x, U, A) \<in> cells t \<or> U = EfiConventional \<and> (x, EfiBootServicesData, A) \<in> cells t"
    "(x, U, A) \<in> cells t \<Longrightarrow> (x, U, A) \<in> cells s \<or> U \<in> {EfiConventional, EfiBootServicesData} \<or> x \<in> {a..<b} \<and> U = T"
    "T \<noteq> EfiConventional \<Longrightarrow> l \<in> stored t \<Longrightarrow> l \<notin> {a..<b}"
    "l \<in> stored t \<Longrightarrow> l \<in> stored s \<or> \<not> allocated s l \<or> T = EfiConventional \<and> l \<in> {a..<b}"
  using assms unfolding turned_def by blast+

lemma turned_keeps: "turned T a b s t \<Longrightarrow> allocated s x \<Longrightarrow> x \<notin> {a..<b} \<Longrightarrow> allocated t x"
  unfolding allocated_def using turnedD(3) by blast

lemma turned_allocates: "turned T a b s t \<Longrightarrow> T \<noteq> EfiConventional \<Longrightarrow> x \<in> {a..<b} \<Longrightarrow> allocated t x"
  unfolding allocated_def using turnedD(2) by blast

lemma turned_empty: "b \<le> a \<Longrightarrow> turned T a b s t = evolves s t"
  by (simp add: turned_def)

lemma turned_refl: "turned T a a s s"
  by (simp add: turned_def)

lemma turned_trans:
  assumes st: "turned T a b s t" and tu: "turned T b c t u" and le: "a \<le> b" "b \<le> c"
  shows "turned T a c s u"
proof -
  have part: "x \<in> {a..<c} \<longleftrightarrow> x \<in> {a..<b} \<or> x \<in> {b..<c}" "\<not> (x \<in> {a..<b} \<and> x \<in> {b..<c})" for x using le by auto
  show ?thesis
    unfolding turned_def
  proof (intro conjI ballI allI impI)
    show "\<not> allocated s x" if "x \<in> {a..<c}" "T \<noteq> 7" for x
      using that turnedD(1) [OF st] turnedD(1) [OF tu] turned_keeps [OF st] part by blast
    show "\<exists>A. ((x, T, A) \<in> cells u \<or> T = 7 \<and> (x, 4, A) \<in> cells u) \<and> (\<forall>U B. (x, U, B) \<in> cells s \<longrightarrow> B = A)"
      if "x \<in> {a..<c}" for x
    proof (cases "x \<in> {b..<c}")
      case False
      then have "x \<in> {a..<b}" using that part by blast
      then obtain A where "(x, T, A) \<in> cells t \<or> T = 7 \<and> (x, 4, A) \<in> cells t" "\<forall>U B. (x, U, B) \<in> cells s \<longrightarrow> B = A"
        using turnedD(2) [OF st] by blast
      then show ?thesis using turnedD(3) [OF tu _ False, of T A] turnedD(3) [OF tu _ False, of 4 A] by auto
    next
      case True
      then have x: "x \<notin> {a..<b}" using part by blast
      obtain A where A: "(x, T, A) \<in> cells u \<or> T = 7 \<and> (x, 4, A) \<in> cells u" "\<forall>U B. (x, U, B) \<in> cells t \<longrightarrow> B = A"
        using turnedD(2) [OF tu True] by blast
      have "B = A" if "(x, U, B) \<in> cells s" for U B using turnedD(3) [OF st that x] A(2) by blast
      with A(1) show ?thesis by blast
    qed
    show "(x, U, A) \<in> cells u \<or> U = 7 \<and> (x, 4, A) \<in> cells u" if "(x, U, A) \<in> cells s" "x \<notin> {a..<c}" for x U A
    proof -
      have x: "x \<notin> {a..<b}" "x \<notin> {b..<c}" using that(2) part by blast+
      show ?thesis using turnedD(3) [OF st that(1) x(1)] turnedD(3) [OF tu _ x(2), of U A] turnedD(3) [OF tu _ x(2), of 4 A] by auto
    qed
    show "(x, U, A) \<in> cells s \<or> U \<in> {7, 4} \<or> x \<in> {a..<c} \<and> U = T" if "(x, U, A) \<in> cells u" for x U A
      using turnedD(4) [OF tu that] turnedD(4) [OF st, of x U A] part by blast
    show "stored u \<inter> {a..<c} = {}" if T: "T \<noteq> 7"
    proof -
      have "l \<notin> {a..<c}" if "l \<in> stored u" for l
      proof
        assume "l \<in> {a..<c}"
        then have l: "l \<in> {a..<b}" using turnedD(5) [OF tu T that] part by blast
        then have "\<not> l \<in> stored t" "allocated t l" using turnedD(5) [OF st T] turned_allocates [OF st T] by blast+
        then show False using turnedD(6) [OF tu that] T by blast
      qed
      then show ?thesis by blast
    qed
    show "l \<in> stored s \<or> \<not> allocated s l \<or> T = 7 \<and> l \<in> {a..<c}" if "l \<in> stored u" for l
      using turnedD(6) [OF tu that] turnedD(6) [OF st] turned_keeps [OF st] turned_allocates [OF st] part by blast
  qed
qed

lemma turned_evolves: "turned T a b s t \<Longrightarrow> evolves t u \<Longrightarrow> a \<le> b \<Longrightarrow> turned T a b s u"
  using turned_trans [of T a b s t b u] turned_empty [of b b T t u] by simp

lemma evolves_turned: "evolves s t \<Longrightarrow> turned T a b t u \<Longrightarrow> a \<le> b \<Longrightarrow> turned T a b s u"
  using turned_trans [of T a a s t b u] turned_empty [of a a T s t] by simp

lemma evolves_refl: "evolves s s"
  by (rule turned_refl)

lemma evolves_trans: "evolves s t \<Longrightarrow> evolves t u \<Longrightarrow> evolves s u"
  by (rule turned_evolves) simp_all

lemma owned_rest:
  assumes "owned s a c" "turned EfiConventional a b s t" "a \<le> b"
  shows "owned t b c"
  unfolding owned_def
proof (intro conjI ballI)
  show "allocated t x" if "x \<in> {b..<c}" for x
    by (rule turned_keeps [OF assms(2)]) (use that assms(1,3) in \<open>auto simp: owned_def\<close>)
  have "l \<notin> {b..<c}" if "l \<in> stored t" for l
    using turnedD(6) [OF assms(2) that] assms(1,3) unfolding owned_def by auto
  then show "stored t \<inter> {b..<c} = {}" by blast
qed

subsection \<open>States with the same map\<close>

lemma same_mapD:
  assumes "same_map s t"
  shows "cells t = cells s" "stored t = stored s" "mapped_at t = mapped_at s" "allocated t = allocated s"
    "mFreeMapStack t = mFreeMapStack s" "gMemoryMap t = gMemoryMap s" "MapEntries t = MapEntries s" "mMapDepth t = mMapDepth s"
    "mFreeMemoryMapEntryList t = mFreeMemoryMapEntryList s" "mGcdMemorySpaceMap t = mGcdMemorySpaceMap s"
proof -
  show m: "mapped_at t = mapped_at s" using assms by (auto simp: same_map_def mapped_at_def fun_eq_iff)
  show "cells t = cells s" by (rule cells_cong [OF m])
  then show "allocated t = allocated s" by (simp add: allocated_def fun_eq_iff)
qed (use assms in \<open>simp_all add: same_map_def stored_def\<close>)

lemma same_map_page_inv: "same_map s t \<Longrightarrow> page_inv s \<Longrightarrow> page_inv t"
  using map_inv_cong [of t s] unfolding page_inv_def ids_inv_def by (simp add: same_mapD)

lemma same_map_evolves: "same_map s t \<Longrightarrow> evolves s t"
  using evolves_refl [of s] unfolding turned_def by (simp add: same_mapD)

lemma same_map_refl [simp]: "same_map s s"
  by (simp add: same_map_def)

lemma same_map_trans: "same_map s t \<Longrightarrow> same_map t u \<Longrightarrow> same_map s u"
  by (simp add: same_map_def)

lemma same_map_count: "same_map s (count_in T S n (count_out U S' m s))"
  by (simp add: same_map_def count_in_def count_out_def Let_def)


subsection \<open>One turn of the conversion\<close>

lemma CoreAddRange_post:
  assumes s: "map_inv s" "ids_inv s" and r: "range_ok (unat S) (unat L + 1)" "free_of (cells s) (unat S) (unat L + 1)"
    and run: "CoreAddRange E T S L A s = Some t"
  shows "map_inv t" "ids_inv t" "cells t = cells s \<union> block (unat S) (unat L + 1) T A" "same_rest s t" "stored t \<subseteq> stored s"
    "mMapDepth t = mMapDepth s + 1" "length (mFreeMemoryMapEntryList s) \<le> length (mFreeMemoryMapEntryList t)"
  using CoreAddRange_run [OF s CoreAddRange_depth [OF s r run] r, of T A] run by auto

lemma stored_in_mono: "stored_in N C \<Longrightarrow> M \<subseteq> N \<Longrightarrow> (\<And>l A. l \<in> M \<Longrightarrow> (l, EfiBootServicesData, A) \<in> C \<Longrightarrow> (l, EfiBootServicesData, A) \<in> D) \<Longrightarrow> stored_in M D"
  unfolding stored_in_def by blast

lemma promo_ok_mono: "promo_ok G C \<Longrightarrow> (\<And>x T A. (x, T, A) \<in> D \<Longrightarrow> \<exists>T A. (x, T, A) \<in> C) \<Longrightarrow> promo_ok G D"
  unfolding promo_ok_def free_of_def by blast

text \<open>The range from \<open>a\<close> to \<open>b\<close> of a descriptor got another type.\<close>

lemma retyped:
  assumes s: "page_inv s" "mapped_at s l e" "{a..<b} \<subseteq> rng e" "T \<noteq> EfiConventional \<longleftrightarrow> Type e = EfiConventional"
    "T = EfiConventional \<Longrightarrow> owned s a b"
    and t: "map_inv t" "ids_inv t" "cells t = cells s - block a b (Type e) (Attribute e) \<union> block a b T (Attribute e)" "stored t \<subseteq> stored s"
      "mGcdMemorySpaceMap t = mGcdMemorySpaceMap s"
  shows "page_inv t" "turned T a b s t"
proof -
  have inv: "map_inv s" "stored_in (stored s) (cells s)" "promo_ok (mGcdMemorySpaceMap s) (cells s)" using s(1) by (simp_all add: page_inv_def)
  have old: "(x, Type e, Attribute e) \<in> cells s" if "x \<in> {a..<b}" for x using cellsI [OF s(2)] that s(3) by blast
  have only: "U = Type e" "A = Attribute e" if "(x, U, A) \<in> cells s" "x \<in> {a..<b}" for x U A
    using cells_unique [OF inv(1) old [OF that(2)] that(1)] .
  have keep: "(x, U, A) \<in> cells t \<longleftrightarrow> (x, U, A) \<in> cells s" if "x \<notin> {a..<b}" for x U A using that t(3) by (auto simp: block_def)
  have new: "(x, U, A) \<in> cells t \<longleftrightarrow> U = T \<and> A = Attribute e" if "x \<in> {a..<b}" for x U A
    using that t(3) only by (auto simp: block_def)
  have st: "l \<notin> {a..<b}" if l: "l \<in> stored s" for l
  proof (cases "T = 7")
    case True
    then show ?thesis using s(5) l by (auto simp: owned_def)
  next
    case False
    obtain A where "(l, 4, A) \<in> cells s" using inv(2) l by (auto simp: stored_in_def)
    then show ?thesis using only(1) s(4) False by fastforce
  qed
  have "stored_in (stored t) (cells t)" using st t(4) by (intro stored_in_mono [OF inv(2)]) (auto simp: keep)
  moreover have "promo_ok (mGcdMemorySpaceMap t) (cells t)"
    unfolding t(5)
  proof (rule promo_ok_mono [OF inv(3)])
    show "\<exists>T A. (x, T, A) \<in> cells s" if "(x, U, A) \<in> cells t" for x U A
      using that old keep by (cases "x \<in> {a..<b}") blast+
  qed
  ultimately show "page_inv t" using t(1,2) by (simp add: page_inv_def)
  show "turned T a b s t"
    unfolding turned_def
  proof (intro conjI ballI allI impI)
    show "\<not> allocated s x" if "x \<in> {a..<b}" "T \<noteq> 7" for x using only that s(4) by (auto simp: allocated_def)
    show "\<exists>A. ((x, T, A) \<in> cells t \<or> T = 7 \<and> (x, 4, A) \<in> cells t) \<and> (\<forall>U B. (x, U, B) \<in> cells s \<longrightarrow> B = A)"
      if x: "x \<in> {a..<b}" for x
      using new [OF x] only(2) [OF _ x] by (intro exI [of _ "Attribute e"]) simp
    show "(x, U, A) \<in> cells t \<or> U = 7 \<and> (x, 4, A) \<in> cells t" if "(x, U, A) \<in> cells s" "x \<notin> {a..<b}" for x U A using keep that by blast
    show "(x, U, A) \<in> cells s \<or> U \<in> {7, 4} \<or> x \<in> {a..<b} \<and> U = T" if "(x, U, A) \<in> cells t" for x U A using keep new that by blast
    show "stored t \<inter> {a..<b} = {}" using st t(4) by blast
    show "l \<in> stored s \<or> \<not> allocated s l \<or> T = 7 \<and> l \<in> {a..<b}" if "l \<in> stored t" for l using t(4) that by blast
  qed
qed

lemma covering_mapped:
  assumes "covering s S ls = Some l" "set ls \<subseteq> set (gMemoryMap s)"
  shows "l = 0 \<or> (\<exists>e. mapped_at s l e \<and> Start e \<le> S \<and> S < End e)"
  using assms by (induction ls) (auto simp: bind_eq_Some_conv mapped_at_def split: if_splits)

lemma covering_found:
  assumes s: "map_inv s" and e: "mapped_at s l e" "Start e \<le> S" "S < End e"
  shows "covering s S (gMemoryMap s) = Some l"
proof -
  have "covering s S ls = Some l" if "set ls \<subseteq> set (gMemoryMap s)" "l \<in> set ls" for ls
    using that
  proof (induction ls)
    case (Cons k ls)
    obtain f where f: "mapped_at s k f" using map_invD(2) [OF s] Cons.prems(1) by auto
    show ?case
    proof (cases "k = l")
      case True
      then show ?thesis using f e by (auto simp: mapped_at_def)
    next
      case False
      have "\<not> (Start f \<le> S \<and> S < End f)"
      proof
        assume "Start f \<le> S \<and> S < End f"
        then have "unat S \<in> rng f" "unat S \<in> rng e" using e(2,3) by (auto simp: lo_def hi_def word_le_nat_alt word_less_nat_alt)
        with map_invD(4) [OF s f e(1)] False show False by blast
      qed
      then show ?thesis using f False Cons by (auto simp: mapped_at_def)
    qed
  qed simp
  from this [of "gMemoryMap s"] e(1) show ?thesis by (simp add: mapped_at_def)
qed

text \<open>A range inside one descriptor of the right type is converted in one turn.\<close>

lemma CoreConvertPages_whole:
  assumes s: "page_inv s" "mapped_at s l e" "Start e \<le> S" "L \<le> End e" "S < L" "T \<noteq> EfiConventional \<longleftrightarrow> Type e = EfiConventional"
    and L: "L = S + LShiftU64 n EFI_PAGE_SHIFT - 1" and run: "CoreConvertPages E F S n T s = Some (st, t)"
  shows "n \<noteq> 0 \<Longrightarrow> S AND EFI_PAGE_MASK = 0 \<Longrightarrow> S \<le> S + LShiftU64 n EFI_PAGE_SHIFT \<Longrightarrow> st = EFI_SUCCESS"
proof (cases "n = 0 \<or> S AND EFI_PAGE_MASK \<noteq> 0 \<or> S > S + LShiftU64 n EFI_PAGE_SHIFT")
  case True
  moreover assume "n \<noteq> 0" "S AND EFI_PAGE_MASK = 0" "S \<le> S + LShiftU64 n EFI_PAGE_SHIFT"
  ultimately show ?thesis by (auto simp: not_less)
next
  case False
  have inv: "map_inv s" using s(1) by (simp add: page_inv_def)
  have cov: "covering s S (gMemoryMap s) = Some l" using s(5,4) by (intro covering_found [OF inv s(2,3)]) simp
  have el: "MapEntries s l = Some e" using s(2) by (simp add: mapped_at_def)
  obtain x where w: "while_opt (\<lambda>(S, st, _). st = None \<and> S < L) (convert_step E F n T L) (S, None, s) = Some x"
    and st: "st = (case fst (snd x) of None \<Rightarrow> EFI_SUCCESS | Some e \<Rightarrow> e)"
    using run False by (auto simp: CoreConvertPages_def bind_eq_Some_conv Let_def L)
  from w s(5) obtain y where y: "convert_step E F n T L (S, None, s) = Some y"
    "while_opt (\<lambda>(S, st, _). st = None \<and> S < L) (convert_step E F n T L) y = Some x"
    by (subst (asm) while_opt.simps) (auto simp: bind_eq_Some_conv)
  have R: "(if End e < L then End e else L) = L" using s(4) by (auto simp: not_less)
  have "fst y = L + 1 \<and> fst (snd y) = None \<or> l = 0"
    using y(1) cov el s(6) R unfolding convert_step_def by (auto simp: bind_eq_Some_conv Let_def)
  moreover have "l \<noteq> 0" using s(1,2) unfolding page_inv_def ids_inv_def by (metis gr0I not_gr_zero zero_less_numeral)
  moreover have "\<not> L + 1 < L"
  proof -
    have "unat L + 1 < 2 ^ 64" using map_invD(3) [OF inv s(2)] s(4) by (simp add: range_ok_def hi_def word_le_nat_alt)
    then show ?thesis using unat_inc [of L] by (simp add: word_less_nat_alt)
  qed
  ultimately have "x = y" "fst (snd y) = None" using y(2) while_opt_stop [of "\<lambda>(S, st, _). st = None \<and> S < L" y "convert_step E F n T L"]
    by (cases y; auto)+
  then show ?thesis using st by simp
qed

text \<open>The end of the turn, exclusive.\<close>

lemma turn_end:
  assumes "range_ok (lo e) (hi e)" "Start e \<le> S" "S < End e" "S < L" "4096 dvd unat S" "4096 dvd unat L + 1"
    and R: "R = (if End e < L then End e else L)"
  shows "range_ok (unat S) (unat R + 1)" "lo e \<le> unat S" "unat R + 1 \<le> hi e" "unat (R + 1) = unat R + 1" "unat R \<le> unat L" "R = min (End e) L"
proof -
  have w: "lo e \<le> unat S" "unat S < unat (End e)" "unat S < unat L" "unat R = min (unat (End e)) (unat L)"
    using assms(2-4) by (auto simp: lo_def word_le_nat_alt word_less_nat_alt R)
  show "lo e \<le> unat S" by (rule w(1))
  show "unat R \<le> unat L" "unat R + 1 \<le> hi e" using w(4) by (simp_all add: hi_def)
  have "4096 dvd unat R + 1" using assms(1,6) w(4) by (auto simp: min_def hi_def range_ok_def)
  then show ok: "range_ok (unat S) (unat R + 1)"
    using w assms(1,5) by (auto simp: range_ok_def hi_def)
  then show "unat (R + 1) = unat R + 1" using unat_inc [of R] by (simp add: range_ok_def)
  show "R = min (End e) L" by (auto simp: R min_def)
qed

lemma convert_clip:
  assumes s: "page_inv s" "mapped_at s l e" and T: "T \<noteq> EfiConventional \<longleftrightarrow> Type e = EfiConventional"
    and r: "range_ok (unat S) (unat R + 1)" "lo e \<le> unat S" "unat R + 1 \<le> hi e" and own: "T = EfiConventional \<Longrightarrow> owned s (unat S) (unat R + 1)"
    and run: "clip_entry (MemAsserts E) l e S R s = Some (k, u)" "MapEntries u k = Some e'"
      "(if Start e' = End e' + 1 then RemoveMemoryMapEntry k u else Some u) = Some v" "CoreAddRange E T S R (Attribute e') v = Some t"
  shows "page_inv t" "turned T (unat S) (unat R + 1) s t" "kept s t" "mMapDepth t \<le> mMapDepth s + 2"
    "length (mFreeMemoryMapEntryList s) \<le> length (mFreeMemoryMapEntryList t)" "cells t = cells s - block (unat S) (unat R + 1) (Type e) (Attribute e) \<union> block (unat S) (unat R + 1) T (Attribute e)"
proof -
  have inv: "map_inv s" "ids_inv s" using s(1) by (simp_all add: page_inv_def)
  from clip_entry_pulled [OF inv s(2) r run(1)] run(2,3)
  have p: "Attribute e' = Attribute e" "pulled (unat S) (unat R + 1) e s v" by auto
  then have v: "map_inv v" "ids_inv v" "cells v = cells s - block (unat S) (unat R + 1) (Type e) (Attribute e)"
    "free_of (cells v) (unat S) (unat R + 1)" "same_rest s v" "stored v \<subseteq> stored s" "mMapDepth v \<le> mMapDepth s + 1"
    "length (mFreeMemoryMapEntryList s) \<le> length (mFreeMemoryMapEntryList v)" unfolding pulled_def by blast+
  note t = CoreAddRange_post [OF v(1,2) r(1) v(4) run(4)]
  have g: "mGcdMemorySpaceMap t = mGcdMemorySpaceMap s" using v(5) t(4) by (simp add: same_rest_def)
  have sub: "{unat S..<unat R + 1} \<subseteq> rng e" using r(2,3) by auto
  show c: "cells t = cells s - block (unat S) (unat R + 1) (Type e) (Attribute e) \<union> block (unat S) (unat R + 1) T (Attribute e)"
    using t(3) v(3) p(1) by simp
  note ret = retyped [OF s(1,2) sub T own t(1,2) c _ g(1)]
  show "page_inv t" "turned T (unat S) (unat R + 1) s t" using ret t(5) v(6) by blast+
  show "kept s t" using v(5) t(4) by (intro kept_same) (simp_all add: same_rest_def)
  show "mMapDepth t \<le> mMapDepth s + 2" "length (mFreeMemoryMapEntryList s) \<le> length (mFreeMemoryMapEntryList t)" using t(6,7) v(7,8) by simp_all
qed

text \<open>The last address of a range of pages.\<close>

lemma unat_less_64: "unat (x :: uint64) < 2 ^ 64"
  using unsigned_less [of x] by simp

lemma unat_pred_inc: "unat (X - 1 :: uint64) + 1 = (if X = 0 then 2 ^ 64 else unat X)"
  using unat_dec [of X] by (auto simp: unat_gt_0 unsigned_minus_1_eq_mask mask_eq_exp_minus_1)

lemma page_multiple_eq: "4096 dvd a \<Longrightarrow> 4096 dvd b \<Longrightarrow> a \<le> b \<Longrightarrow> b \<le> a + 1 \<Longrightarrow> a = (b :: nat)"
  by (elim dvdE) auto

lemma page_range_end:
  assumes "4096 dvd unat (S :: uint64)" "S \<le> S + LShiftU64 n EFI_PAGE_SHIFT"
  shows "4096 dvd unat (S + LShiftU64 n EFI_PAGE_SHIFT - 1) + 1" "unat S \<le> unat (S + LShiftU64 n EFI_PAGE_SHIFT - 1) + 1"
proof -
  let ?X = "S + LShiftU64 n EFI_PAGE_SHIFT"
  have n: "unat (LShiftU64 n EFI_PAGE_SHIFT) = (unat n * 4096) mod 2 ^ 64"
    by (simp add: LShiftU64_def push_bit_eq_mult unat_word_ariths)
  have d: "4096 dvd unat ?X"
    unfolding unat_word_ariths n using assms(1) by (simp add: dvd_mod dvd_add)
  show "4096 dvd unat (?X - 1) + 1" "unat S \<le> unat (?X - 1) + 1"
    using d assms(2) unat_less_64 [of S] unfolding unat_pred_inc by (auto simp: word_le_nat_alt intro: less_imp_le)
qed

lemma LShiftU64_pages: "unat n < 2 ^ 52 \<Longrightarrow> unat (LShiftU64 n EFI_PAGE_SHIFT) = unat n * 4096"
  by (simp add: LShiftU64_def push_bit_eq_mult unat_word_ariths)

lemma page_range_unat:
  assumes "4096 dvd unat (S :: uint64)" "0 < unat n" "unat S + unat n * 4096 \<le> b" "b < 2 ^ 64" and L: "L = S + LShiftU64 n EFI_PAGE_SHIFT - 1"
  shows "unat L + 1 = unat S + unat n * 4096" "S \<le> S + LShiftU64 n EFI_PAGE_SHIFT"
proof -
  have N: "unat (LShiftU64 n EFI_PAGE_SHIFT) = unat n * 4096" using assms(3,4) by (intro LShiftU64_pages) simp
  have x: "unat (S + LShiftU64 n EFI_PAGE_SHIFT) = unat S + unat n * 4096" using assms(3,4) N by (simp add: unat_add_noc)
  then show "S \<le> S + LShiftU64 n EFI_PAGE_SHIFT" by (simp add: word_le_nat_alt)
  have "S + LShiftU64 n EFI_PAGE_SHIFT \<noteq> 0" using x assms(2) by (auto simp: word_unat_eq_iff)
  then show "unat L + 1 = unat S + unat n * 4096" unfolding L unat_pred_inc using x by simp
qed

subsection \<open>Storing descriptors as an interface\<close>

locale descriptor_store =
  fixes F :: "'w mem \<Rightarrow> 'w mem option"
  assumes F_keeps: "F s = Some t \<Longrightarrow> page_inv s \<Longrightarrow> page_inv t \<and> evolves s t \<and> kept s t"
begin

lemma convert_turn:
  assumes s: "page_inv s" "4096 dvd unat S" "4096 dvd unat L + 1" "S < L" and own: "T = EfiConventional \<Longrightarrow> owned s (unat S) (unat L + 1)"
    and run: "convert_step E F n T L (S, st, s) = Some (S', st', t)"
  shows "(S' = S \<and> st' = Some EFI_NOT_FOUND \<and> t = s) \<or>
    (st' = None \<and> unat S < unat S' \<and> unat S' \<le> unat L + 1 \<and> 4096 dvd unat S' \<and> page_inv t \<and> turned T (unat S) (unat S') s t \<and>
     kept s t)"
proof -
  obtain l where l: "covering s S (gMemoryMap s) = Some l" using run by (auto simp: convert_step_def bind_eq_Some_conv)
  show ?thesis
  proof (cases "l = 0")
    case True
    then show ?thesis using run l by (simp add: convert_step_def)
  next
    case False
    then obtain e where e: "mapped_at s l e" "Start e \<le> S" "S < End e" using covering_mapped [OF l] by auto
    have el: "MapEntries s l = Some e" using e(1) by (simp add: mapped_at_def)
    show ?thesis
    proof (cases "(T \<noteq> 7) = (Type e = 7)")
      case False
      then show ?thesis using run l \<open>l \<noteq> 0\<close> el by (simp add: convert_step_def)
    next
      case True
      define R where "R = (if End e < L then End e else L)"
      let ?s = "count_in T S n (count_out (Type e) S n s)"
      have "\<exists>k u e' v w. clip_entry (MemAsserts E) l e S R ?s = Some (k, u) \<and> MapEntries u k = Some e' \<and>
        (if Start e' = End e' + 1 then RemoveMemoryMapEntry k u else Some u) = Some v \<and> CoreAddRange E T S R (Attribute e') v = Some w \<and>
        F w = Some t \<and> S' = R + 1 \<and> st' = None"
        using run l \<open>l \<noteq> 0\<close> el True unfolding convert_step_def
        by (simp add: bind_eq_Some_conv Let_def R_def [symmetric] split del: if_split) metis
      then obtain k u e' v w where r: "clip_entry (MemAsserts E) l e S R ?s = Some (k, u)" "MapEntries u k = Some e'"
        "(if Start e' = End e' + 1 then RemoveMemoryMapEntry k u else Some u) = Some v" "CoreAddRange E T S R (Attribute e') v = Some w"
        "F w = Some t" "S' = R + 1" "st' = None" by (elim exE conjE) (rule that)
      note sm = same_map_count [where T = T and S = S and n = n and U = "Type e" and S' = S and m = n and s = s]
      have inv: "page_inv ?s" "mapped_at ?s l e" using same_map_page_inv [OF sm s(1)] e(1) by (simp_all add: same_mapD(3) [OF sm])
      have re: "range_ok (lo e) (hi e)" using s(1) e(1) map_invD(3) by (auto simp: page_inv_def)
      note te = turn_end [OF re e(2,3) s(4,2,3) R_def]
      have ow: "owned ?s (unat S) (unat R + 1)" if "T = 7"
        using own [OF that] te(5) by (auto simp: owned_def same_mapD [OF sm])
      note c = convert_clip [OF inv True te(1-3) ow r(1-4)]
      have tw: "turned T (unat S) (unat R + 1) s w"
        using c(2) te(1) by (intro evolves_turned [OF same_map_evolves [OF sm]]) (auto simp: range_ok_def)
      have f: "page_inv t" "evolves w t" "kept w t" using F_keeps [OF r(5) c(1)] by blast+
      have "turned T (unat S) (unat R + 1) s t" using te(1) by (intro turned_evolves [OF tw f(2)]) (simp add: range_ok_def)
      then show ?thesis
        using f r(6,7) te kept_trans [OF kept_count kept_trans [OF c(3) f(3)]] by (auto simp: range_ok_def)
    qed
  qed
qed

lemma CoreConvertPages_keeps:
  assumes s: "page_inv s" and L: "L = S + LShiftU64 n EFI_PAGE_SHIFT - 1" and own: "T = EfiConventional \<Longrightarrow> owned s (unat S) (unat L + 1)"
    and run: "CoreConvertPages E F S n T s = Some (st, t)"
  shows "page_inv t" "kept s t"
    "(st = EFI_INVALID_PARAMETER \<and> t = s) \<or> (st = EFI_SUCCESS \<and> unat S \<le> unat L + 1 \<and> turned T (unat S) (unat L + 1) s t) \<or>
     (st = EFI_NOT_FOUND \<and> (\<exists>b. unat S \<le> b \<and> b \<le> unat L + 1 \<and> turned T (unat S) b s t))"
proof -
  let ?N = "LShiftU64 n EFI_PAGE_SHIFT"
  have all: "page_inv t \<and> kept s t \<and>
    ((st = EFI_INVALID_PARAMETER \<and> t = s) \<or> (st = EFI_SUCCESS \<and> unat S \<le> unat L + 1 \<and> turned T (unat S) (unat L + 1) s t) \<or>
     (st = EFI_NOT_FOUND \<and> (\<exists>b. unat S \<le> b \<and> b \<le> unat L + 1 \<and> turned T (unat S) b s t)))"
  proof (cases "n = 0 \<or> S AND EFI_PAGE_MASK \<noteq> 0 \<or> S > S + ?N")
    case True
    then show ?thesis using run s by (auto simp: CoreConvertPages_def bind_eq_Some_conv Let_def)
  next
    case False
    then obtain S' st' where w: "while_opt (\<lambda>(S, st, _). st = None \<and> S < L) (convert_step E F n T L) (S, None, s) = Some (S', st', t)"
      and st: "st = (case st' of None \<Rightarrow> EFI_SUCCESS | Some e \<Rightarrow> e)"
      using run by (auto simp: CoreConvertPages_def bind_eq_Some_conv Let_def L)
    have S: "4096 dvd unat S" using False aligned_iff [of S 12] by (simp add: mask_eq_exp_minus_1)
    have L1: "4096 dvd unat L + 1" "unat S \<le> unat L + 1" using page_range_end [OF S, of n] False by (simp_all add: L not_less)
    define I where "I = (\<lambda>(S' :: uint64, st', t). page_inv t \<and> 4096 dvd unat S' \<and> unat S \<le> unat S' \<and> unat S' \<le> unat L + 1 \<and>
      turned T (unat S) (unat S') s t \<and> kept s t \<and> (T = 7 \<longrightarrow> owned t (unat S') (unat L + 1)) \<and>
      st' \<in> {None, Some EFI_NOT_FOUND})"
    have "I (S', st', t) \<and> \<not> (\<lambda>(S, st, _). st = None \<and> S < L) (S', st', t)"
    proof (rule while_opt_rule [OF w])
      show "I (S, None, s)" using s S L1 own by (simp add: I_def turned_refl)
      fix x y assume x: "I x" "case x of (S, st, _) \<Rightarrow> st = None \<and> S < L" "convert_step E F n T L x = Some y"
      obtain S1 s1 where x1: "x = (S1, None, s1)" using x(2) by (cases x) auto
      obtain S2 st2 s2 where y: "y = (S2, st2, s2)" by (cases y)
      have i: "page_inv s1" "4096 dvd unat S1" "unat S \<le> unat S1" "turned T (unat S) (unat S1) s s1" "kept s s1"
        "T = 7 \<Longrightarrow> owned s1 (unat S1) (unat L + 1)" "S1 < L" using x(1,2) by (simp_all add: x1 I_def)
      from convert_turn [OF i(1,2) L1(1) i(7,6)] x(3)
      consider "S2 = S1" "st2 = Some EFI_NOT_FOUND" "s2 = s1" | "st2 = None" "unat S1 < unat S2" "unat S2 \<le> unat L + 1" "4096 dvd unat S2"
        "page_inv s2" "turned T (unat S1) (unat S2) s1 s2" "kept s1 s2" unfolding x1 y by blast
      then show "I y"
      proof cases
        case 1
        then show ?thesis using x(1) by (simp add: I_def x1 y)
      next
        case 2
        have "turned T (unat S) (unat S2) s s2" using 2 i(3) by (intro turned_trans [OF i(4) 2(6)]) simp_all
        moreover have "owned s2 (unat S2) (unat L + 1)" if "T = 7"
          using owned_rest [of s1 "unat S1" "unat L + 1" "unat S2" s2] i(6) [OF that] 2(2,6) that by simp
        ultimately show ?thesis using 2 i kept_trans [OF i(5) 2(7)] by (simp add: I_def y)
      qed
    qed
    then have i: "page_inv t" "4096 dvd unat S'" "unat S \<le> unat S'" "unat S' \<le> unat L + 1" "turned T (unat S) (unat S') s t"
      "kept s t" "st' \<in> {None, Some EFI_NOT_FOUND}" "st' = None \<longrightarrow> L \<le> S'" by (auto simp: I_def)
    show ?thesis
    proof (cases st')
      case None
      then have "unat L \<le> unat S'" using i(8) by (simp add: word_le_nat_alt)
      then have "unat S' = unat L + 1" using page_multiple_eq [OF i(2) L1(1) i(4)] by simp
      then show ?thesis using i(1,3,5,6) st None by simp
    qed (use i st in auto)
  qed
  then show "page_inv t" "kept s t" by blast+
  show "(st = EFI_INVALID_PARAMETER \<and> t = s) \<or> (st = EFI_SUCCESS \<and> unat S \<le> unat L + 1 \<and> turned T (unat S) (unat L + 1) s t) \<or>
     (st = EFI_NOT_FOUND \<and> (\<exists>b. unat S \<le> b \<and> b \<le> unat L + 1 \<and> turned T (unat S) b s t))" using all by blast
qed

text \<open>Conversion of a place the search found.\<close>

lemma CoreConvertPages_inside:
  assumes s: "page_inv s" "mapped_at s l e" "lo e \<le> unat S" "unat S + unat n * 4096 \<le> hi e" "0 < unat n" "4096 dvd unat S"
    and T: "T \<noteq> EfiConventional \<longleftrightarrow> Type e = EfiConventional" "T = EfiConventional \<Longrightarrow> owned s (unat S) (unat S + unat n * 4096)"
    and run: "CoreConvertPages E F S n T s = Some (st, t)"
  shows "st = EFI_SUCCESS" "page_inv t" "kept s t" "turned T (unat S) (unat S + unat n * 4096) s t"
proof -
  define L where "L = S + LShiftU64 n EFI_PAGE_SHIFT - 1"
  have inv: "map_inv s" using s(1) by (simp add: page_inv_def)
  have "hi e < 2 ^ 64" using map_invD(3) [OF inv s(2)] by (simp add: range_ok_def)
  note r = page_range_unat [OF s(6,5), of "hi e", OF s(4) this L_def]
  have w: "Start e \<le> S" "L \<le> End e" "S < L" using s(3,4) r(1) s(5) by (auto simp: lo_def hi_def word_le_nat_alt word_less_nat_alt)
  show "st = EFI_SUCCESS"
    using CoreConvertPages_whole [OF s(1,2) w T(1) L_def run] s(5,6) r(2) aligned_iff [of S 12]
    by (simp add: mask_eq_exp_minus_1 unat_gt_0)
  have own: "owned s (unat S) (unat L + 1)" if "T = 7" using T(2) [OF that] r(1) by simp
  note k = CoreConvertPages_keeps [OF s(1) L_def own run]
  show "page_inv t" "kept s t" using k by blast+
  show "turned T (unat S) (unat S + unat n * 4096) s t" using k(3) \<open>st = EFI_SUCCESS\<close> r(1) by simp
qed

end

end
