(* ===== verification/PageFind.thy ===== *)
theory PageFind
  imports PageKeeps
begin

unbundle bit_operations_syntax

section \<open>The search for free pages\<close>

text \<open>
  \<open>CoreFindFreePagesI\<close> against its specification: \<open>fits s n mn mx a\<close> says that \<open>n\<close> pages from \<open>a\<close> are in one free
  descriptor and within the limits; the search finds the highest such address.
\<close>

definition fits :: "'w mem \<Rightarrow> nat \<Rightarrow> nat \<Rightarrow> nat \<Rightarrow> nat \<Rightarrow> bool" where
  "fits s n mn mx a \<longleftrightarrow> 4096 dvd a \<and> mn \<le> a \<and> a + n * 4096 \<le> mx + 1 \<and>
     (\<exists>l e. mapped_at s l e \<and> Type e = EfiConventional \<and> lo e \<le> a \<and> a + n * 4096 \<le> hi e)"

subsection \<open>One candidate\<close>

lemma map_entries_set:
  assumes "\<forall>l \<in> set (gMemoryMap s). MapEntries s l \<noteq> None"
  shows "\<exists>es. map_entries s = Some es \<and> set es = {e. \<exists>l. mapped_at s l e}"
proof -
  have "\<exists>es. those (map (MapEntries s) ls) = Some es \<and> set es = {e. \<exists>l \<in> set ls. MapEntries s l = Some e}"
    if "\<forall>l \<in> set ls. MapEntries s l \<noteq> None" for ls
    using that by (induction ls) auto
  from this [OF assms] show ?thesis by (auto simp: map_entries_def mapped_at_def)
qed

lemma aligned_and_not: "(x :: uint64) AND m = 0 \<Longrightarrow> x AND NOT m = x"
  by (simp add: bit_eq_iff bit_simps) blast

definition room :: "MEMORY_MAP \<Rightarrow> nat \<Rightarrow> nat \<Rightarrow> nat \<Rightarrow> nat \<Rightarrow> bool" where
  "room e N mn mx c \<longleftrightarrow> Type e = EfiConventional \<and> c = min (hi e) (mx + 1) \<and> lo e + N \<le> c \<and> mn + N \<le> c"

lemma free_candidate_room:
  assumes e: "range_ok (lo e) (hi e)" and Mx: "4096 dvd unat Mx + 1" and N: "0 < unat N"
  shows "unat (free_candidate Mx Mn N 0x1000 e t) =
    (if room e (unat N) (unat Mn) (unat Mx) (min (hi e) (unat Mx + 1)) \<and> unat t < min (hi e) (unat Mx + 1) - 1
     then min (hi e) (unat Mx + 1) - 1 else unat t)"
proof (cases "Type e = EfiConventional \<and> Start e < Mx")
  case False
  have "\<not> room e (unat N) (unat Mn) (unat Mx) c" if "Type e = EfiConventional" for c
  proof
    assume r: "room e (unat N) (unat Mn) (unat Mx) c"
    have "unat Mx \<le> lo e" using False that by (simp add: lo_def word_less_nat_alt)
    moreover have "lo e < unat Mx + 1" using r N by (auto simp: room_def)
    ultimately have "lo e = unat Mx" by simp
    then have "4096 dvd unat Mx" using e by (simp add: range_ok_def)
    from dvd_diff_nat [OF Mx this] show False by simp
  qed
  moreover have "\<not> room e (unat N) (unat Mn) (unat Mx) c" if "Type e \<noteq> EfiConventional" for c using that by (simp add: room_def)
  ultimately have "\<not> room e (unat N) (unat Mn) (unat Mx) c" for c by blast
  moreover have "free_candidate Mx Mn N 0x1000 e t = t" using False by (auto simp: free_candidate_def)
  ultimately show ?thesis by simp
next
  case True
  let ?c = "min (hi e) (unat Mx + 1)"
  define D where "D = (if End e \<ge> Mx then Mx else End e)"
  have D: "unat D + 1 = ?c" by (auto simp: D_def hi_def word_le_nat_alt)
  have c: "4096 dvd ?c" "?c < 2 ^ 64" "lo e < ?c" using e Mx True by (auto simp: range_ok_def min_def lo_def word_less_nat_alt)
  have D1: "unat (D + 1) = ?c" using unat_inc [of D] D c(2) by simp
  have "(D + 1) AND 0xfff = 0" using c(1) D1 aligned_iff [of "D + 1" 12] by (simp add: mask_eq_exp_minus_1)
  then have al: "((D + 1) AND NOT (0x1000 - 1)) - 1 = D" using aligned_and_not [of "D + 1" "0xfff"] by simp
  have S: "unat (Start e) \<le> unat D" using D c(3) unfolding lo_def by linarith
  have sz: "unat (D - Start e + 1) = ?c - lo e"
  proof -
    have "unat (D - Start e) = unat D - lo e" using S by (simp add: unat_sub word_le_nat_alt lo_def)
    then show ?thesis using unat_inc [of "D - Start e"] D c(2) S by (simp add: lo_def)
  qed
  have base: "unat (D - N + 1) = ?c - unat N" if "unat N \<le> ?c - lo e"
  proof (cases "unat N \<le> unat D")
    case True
    then have "unat (D - N) = unat D - unat N" by (simp add: unat_sub word_le_nat_alt)
    then show ?thesis using unat_inc [of "D - N"] D c(2) True by simp
  next
    case False
    then have "unat N = unat (D + 1)" using that D D1 by simp
    then have "N = D + 1" by (simp add: word_unat_eq_iff)
    then show ?thesis using D1 by simp
  qed
  have low: "\<not> End e < Mn" if "unat Mn + unat N \<le> ?c" using that N by (auto simp: hi_def word_less_nat_alt)
  have f: "free_candidate Mx Mn N 0x1000 e t = (if End e < Mn then t else
      if D - Start e + 1 \<ge> N then (if D - N + 1 < Mn then t else if D > t then D else t) else t)"
    unfolding free_candidate_def Let_def D_def [symmetric] al using True by (auto simp: not_le)
  have rm: "room e (unat N) (unat Mn) (unat Mx) ?c \<longleftrightarrow> lo e + unat N \<le> ?c \<and> unat Mn + unat N \<le> ?c"
    using True by (simp add: room_def)
  obtain c' where c': "?c = c'" by blast
  show ?thesis
  proof (cases "unat N \<le> c' - lo e")
    case False
    then show ?thesis using sz c(3) unfolding f c' rm [unfolded c'] by (auto simp: word_le_nat_alt)
  next
    case le: True
    show ?thesis using sz base le low c(3) D unfolding f c' rm [unfolded c'] by (auto simp: word_le_nat_alt word_less_nat_alt)
  qed
qed

lemma fold_candidates:
  assumes "\<forall>e \<in> set es. range_ok (lo e) (hi e)" and Mx: "4096 dvd unat Mx + 1" and N: "0 < unat N"
    and r: "r = fold (free_candidate Mx Mn N 0x1000) es t"
  shows "unat t \<le> unat r" "r = t \<or> (\<exists>e \<in> set es. room e (unat N) (unat Mn) (unat Mx) (unat r + 1))"
    "\<And>e c. e \<in> set es \<Longrightarrow> room e (unat N) (unat Mn) (unat Mx) c \<Longrightarrow> c \<le> unat r + 1"
proof -
  have "unat t \<le> unat r \<and> (r = t \<or> (\<exists>e \<in> set es. room e (unat N) (unat Mn) (unat Mx) (unat r + 1))) \<and>
    (\<forall>e \<in> set es. \<forall>c. room e (unat N) (unat Mn) (unat Mx) c \<longrightarrow> c \<le> unat r + 1)"
    using assms(1) r
  proof (induction es arbitrary: t r)
    case (Cons e es)
    let ?t = "free_candidate Mx Mn N 0x1000 e t"
    have e: "range_ok (lo e) (hi e)" using Cons.prems(1) by simp
    have ih: "unat ?t \<le> unat r" "r = ?t \<or> (\<exists>e \<in> set es. room e (unat N) (unat Mn) (unat Mx) (unat r + 1))"
      "\<forall>e \<in> set es. \<forall>c. room e (unat N) (unat Mn) (unat Mx) c \<longrightarrow> c \<le> unat r + 1"
      using Cons.IH [of r ?t] Cons.prems by simp_all
    note f = free_candidate_room [OF e Mx N, of Mn t]
    have "unat t \<le> unat ?t" unfolding f by simp
    moreover have "?t = t \<or> room e (unat N) (unat Mn) (unat Mx) (unat ?t + 1)"
      using f by (auto simp: word_unat_eq_iff split: if_splits)
    moreover have "c \<le> unat ?t + 1" if "room e (unat N) (unat Mn) (unat Mx) c" for c
    proof -
      have "c = min (hi e) (unat Mx + 1)" using that by (simp add: room_def)
      then show ?thesis using that unfolding f by auto
    qed
    ultimately show ?case using ih by (auto intro: order_trans)
  qed simp
  then show "unat t \<le> unat r" "r = t \<or> (\<exists>e \<in> set es. room e (unat N) (unat Mn) (unat Mx) (unat r + 1))"
    "\<And>e c. e \<in> set es \<Longrightarrow> room e (unat N) (unat Mn) (unat Mx) c \<Longrightarrow> c \<le> unat r + 1" by blast+
qed

subsection \<open>The search\<close>

text \<open>The upper limit after rounding is the end of a page and admits the same pages.\<close>

lemma limit_rounded:
  assumes "\<not> M < EFI_PAGE_MASK" and M': "M' = (if M AND EFI_PAGE_MASK \<noteq> EFI_PAGE_MASK
    then ((M - (EFI_PAGE_MASK + 1)) AND NOT EFI_PAGE_MASK) OR EFI_PAGE_MASK else M)"
  shows "unat M' + 1 = (unat M + 1) div 4096 * 4096"
proof -
  let ?m = "0xfff :: uint64"
  have u: "unat (x AND ?m) = unat x mod 4096" for x :: uint64
  proof -
    have "unat (take_bit 12 x) = unat x mod 2 ^ 12" unfolding unsigned_take_bit_eq by (simp add: take_bit_eq_mod)
    then show ?thesis by (simp add: take_bit_eq_mask mask_eq_exp_minus_1)
  qed
  have low: "unat (x AND NOT ?m) = unat x - unat x mod 4096" for x :: uint64
  proof -
    have "(x AND ?m) AND (x AND NOT ?m) = 0" "(x AND ?m) OR (x AND NOT ?m) = x" by (auto simp: bit_eq_iff bit_simps)
    then have "x = (x AND ?m) + (x AND NOT ?m)" using word_plus_and_or [of "x AND ?m" "x AND NOT ?m"] by simp
    then have x: "x AND NOT ?m = x - (x AND ?m)" by (metis add_diff_cancel_left')
    have "x AND ?m \<le> x" using u [of x] by (simp add: word_le_nat_alt)
    then show ?thesis unfolding x by (simp add: unat_sub u)
  qed
  show ?thesis
  proof (cases "M AND ?m = ?m")
    case True
    then have "unat M mod 4096 = 4095" using u [of M] by simp
    then have "(unat M + 1) mod 4096 = 0" by (simp add: mod_Suc)
    then have "(unat M + 1) div 4096 * 4096 = unat M + 1" by (simp add: mod_0_imp_dvd)
    then show ?thesis using True by (simp add: M')
  next
    case False
    have ne: "unat M mod 4096 \<noteq> 4095"
    proof
      assume "unat M mod 4096 = 4095"
      then have "unat (M AND ?m) = unat ?m" using u by simp
      then show False using False by (simp add: word_unat_eq_iff)
    qed
    have ge: "4096 \<le> unat M" using assms(1) ne by (cases "unat M = 4095") (auto simp: word_less_nat_alt)
    let ?x = "M - 4096"
    have x: "unat ?x = unat M - 4096" using ge by (simp add: unat_sub word_le_nat_alt)
    have z: "(?x AND NOT ?m) AND ?m = 0" by (simp add: bit_eq_iff bit_simps) 
    then have "(?x AND NOT ?m) OR ?m = (?x AND NOT ?m) + ?m" using word_plus_and_or [of "?x AND NOT ?m" ?m] by simp
    moreover have "unat (?x AND NOT ?m) + 4095 < 2 ^ 64" using low [of ?x] x ge unat_less_64 [of M] by simp
    ultimately have "unat M' = unat (?x AND NOT ?m) + 4095" using False by (simp add: M' unat_add_noc)
    moreover have "unat M - 4096 - (unat M - 4096) mod 4096 + 4096 = (unat M + 1) div 4096 * 4096"
    proof -
      have "(unat M + 1) div 4096 = unat M div 4096" using ne by (simp add: div_Suc mod_Suc)
      moreover have "(unat M - 4096) mod 4096 = unat M mod 4096" using ge by (simp add: le_mod_geq)
      moreover have "unat M mod 4096 + 4096 \<le> unat M"
      proof -
        have "1 \<le> unat M div 4096" using div_le_mono [OF ge, of 4096] by simp
        then show ?thesis using mult_div_mod_eq [of 4096 "unat M"] by linarith
      qed
      ultimately show ?thesis by (simp add: minus_mod_eq_div_mult [symmetric])
    qed
    ultimately show ?thesis unfolding low x by simp
  qed
qed

lemma room_fits:
  assumes "map_inv s" "mapped_at s l e" "room e (n * 4096) mn mx c" "4096 dvd mx + 1"
  shows "fits s n mn mx (c - n * 4096)"
proof -
  have "4096 dvd c" using assms(3,4) map_invD(3) [OF assms(1,2)] by (auto simp: room_def range_ok_def min_def)
  then have "4096 dvd c - n * 4096" by (intro dvd_diff_nat) simp_all
  moreover have c: "Type e = EfiConventional" "lo e + n * 4096 \<le> c" "mn + n * 4096 \<le> c" "c \<le> hi e" "c \<le> mx + 1"
    using assms(3) unfolding room_def by linarith+
  moreover from c have "c - n * 4096 + n * 4096 = c" "lo e \<le> c - n * 4096" "mn \<le> c - n * 4096" by linarith+
  ultimately show ?thesis unfolding fits_def using assms(2) by (intro conjI exI [of _ l] exI [of _ e]) simp_all
qed

lemma fits_room:
  assumes "fits s n mn mx a"
  obtains l e c where "mapped_at s l e" "room e (n * 4096) mn mx c" "a + n * 4096 \<le> c"
proof -
  obtain l e where e: "mapped_at s l e" "Type e = EfiConventional" "lo e \<le> a" "a + n * 4096 \<le> hi e" "mn \<le> a" "a + n * 4096 \<le> mx + 1"
    using assms by (auto simp: fits_def)
  then have "room e (n * 4096) mn mx (min (hi e) (mx + 1))" "a + n * 4096 \<le> min (hi e) (mx + 1)" by (auto simp: room_def)
  with e(1) show ?thesis by (rule that)
qed

lemma fits_limit: "fits s n mn mx a \<longleftrightarrow> fits s n mn ((mx + 1) div 4096 * 4096 - 1) a" if "4096 \<le> mx + 1"
proof -
  have d: "a + n * 4096 \<le> mx + 1 \<longleftrightarrow> a + n * 4096 \<le> (mx + 1) div 4096 * 4096" if dv: "4096 dvd a"
  proof -
    obtain k where "a = 4096 * k" using dv unfolding dvd_def by blast
    then have eq: "a + n * 4096 = (k + n) * 4096" by simp
    have "(k + n) * 4096 \<le> mx + 1 \<longleftrightarrow> k + n \<le> (mx + 1) div 4096" by (simp only: less_eq_div_iff_mult_less_eq)
    moreover have "(k + n) * 4096 \<le> (mx + 1) div 4096 * 4096 \<longleftrightarrow> k + n \<le> (mx + 1) div 4096" by (simp only: mult_le_cancel2) simp
    ultimately show ?thesis unfolding eq by blast
  qed
  have "0 < (mx + 1) div 4096 * 4096" using that by (simp add: div_greater_zero_iff)
  then show ?thesis using d unfolding fits_def by auto
qed

text \<open>The search finds the highest place, and 0 if there is none but perhaps at address 0.\<close>

lemma CoreFindFreePagesI_spec:
  assumes s: "map_inv s" and n: "unat n < 2 ^ 52"
  shows "\<exists>a. CoreFindFreePagesI Mx Mn n 0x1000 s = Some a \<and>
    (a \<noteq> 0 \<longrightarrow> 0 < unat n \<and> fits s (unat n) (unat Mn) (unat Mx) (unat a)) \<and>
    (0 < unat n \<longrightarrow> (\<forall>b. fits s (unat n) (unat Mn) (unat Mx) b \<longrightarrow> b \<le> unat a))"
proof (cases "Mx < EFI_PAGE_MASK \<or> n = 0")
  case True
  have "b = 0" if "fits s (unat n) (unat Mn) (unat Mx) b" "0 < unat n" for b
  proof -
    have "unat Mx < 4095" using True that(2) by (auto simp: word_less_nat_alt)
    then show ?thesis using that by (auto simp: fits_def elim!: dvdE)
  qed
  then show ?thesis using True by (auto simp: CoreFindFreePagesI_def)
next
  case False
  define M' where "M' = (if Mx AND EFI_PAGE_MASK \<noteq> EFI_PAGE_MASK
    then ((Mx - (EFI_PAGE_MASK + 1)) AND NOT EFI_PAGE_MASK) OR EFI_PAGE_MASK else Mx)"
  define N where "N = LShiftU64 n EFI_PAGE_SHIFT"
  have M': "unat M' + 1 = (unat Mx + 1) div 4096 * 4096" by (rule limit_rounded [OF _ M'_def]) (use False in simp)
  have big: "4096 \<le> unat Mx + 1" using False by (simp add: word_less_nat_alt)
  have Md: "4096 dvd unat M' + 1" unfolding M' by simp
  have N: "unat N = unat n * 4096" "0 < unat N" "0 < unat n" using LShiftU64_pages [OF n] False by (simp_all add: N_def unat_gt_0)
  have lim: "fits s (unat n) mn (unat Mx) b \<longleftrightarrow> fits s (unat n) mn (unat M') b" for mn b
    using fits_limit [OF big, of s "unat n" mn b] M' by (metis add_diff_cancel_right')
  have "\<forall>l \<in> set (gMemoryMap s). MapEntries s l \<noteq> None" using map_invD(2) [OF s] by (auto simp: mapped_at_def)
  then obtain es where es: "map_entries s = Some es" "set es = {e. \<exists>l. mapped_at s l e}"
    using map_entries_set [of s] by blast
  define r where "r = fold (free_candidate M' Mn N 0x1000) es 0"
  let ?a = "r - (N - 1)"
  have run: "CoreFindFreePagesI Mx Mn n 0x1000 s = Some (if ?a AND EFI_PAGE_MASK \<noteq> 0 then 0 else ?a)"
    using False es(1) by (simp add: CoreFindFreePagesI_def M'_def N_def r_def Let_def)
  have "\<forall>e \<in> set es. range_ok (lo e) (hi e)" using map_invD(3) [OF s] es(2) by blast
  note f = fold_candidates [OF this Md N(2) r_def]
  show ?thesis
  proof (cases "\<exists>b. fits s (unat n) (unat Mn) (unat Mx) b")
    case True
    then obtain l e c where c: "mapped_at s l e" "room e (unat N) (unat Mn) (unat M') c"
      using fits_room lim N(1) by metis
    have rc: "c \<le> unat r + 1" "0 < c" using f(3) [OF _ c(2)] c es(2) N(2) by (auto simp: room_def)
    have "r \<noteq> 0"
    proof
      assume "r = 0"
      then have "c \<le> 1" using rc by simp
      then show False using c(2) N by (simp add: room_def)
    qed
    then obtain l' e' where e': "mapped_at s l' e'" "room e' (unat N) (unat Mn) (unat M') (unat r + 1)"
      using f(2) es(2) by auto
    have fit: "fits s (unat n) (unat Mn) (unat M') (unat r + 1 - unat n * 4096)"
      using room_fits [OF s e'(1)] e'(2) Md N(1) by simp
    have "unat (N - 1) = unat N - 1" "unat N \<le> unat r + 1" using unat_dec [OF N(2)] e'(2) unfolding room_def by linarith+
    then have a: "unat ?a = unat r + 1 - unat n * 4096" using N by (simp add: unat_sub word_le_nat_alt)
    then have "?a AND EFI_PAGE_MASK = 0" using fit aligned_iff [of ?a 12] by (simp add: fits_def mask_eq_exp_minus_1)
    then have res: "CoreFindFreePagesI Mx Mn n 0x1000 s = Some ?a" using run by simp
    have "b \<le> unat ?a" if b: "fits s (unat n) (unat Mn) (unat Mx) b" for b
    proof -
      obtain l e c where c: "mapped_at s l e" "room e (unat N) (unat Mn) (unat M') c" "b + unat n * 4096 \<le> c"
        using fits_room [of s "unat n" "unat Mn" "unat M'" b] b lim N(1) by metis
      have "c \<le> unat r + 1" using f(3) [OF _ c(2)] c(1) es(2) by blast
      then show ?thesis using c(3) a by simp
    qed
    then show ?thesis using res fit a lim N(3) by (intro exI [of _ ?a]) simp
  next
    case nofit: False
    have "r = 0"
    proof (rule ccontr)
      assume "r \<noteq> 0"
      then obtain l' e' where "mapped_at s l' e'" "room e' (unat N) (unat Mn) (unat M') (unat r + 1)" using f(2) es(2) by auto
      then show False using room_fits [OF s] Md N(1) lim nofit by metis
    qed
    have "?a AND EFI_PAGE_MASK \<noteq> 0"
    proof
      assume "?a AND EFI_PAGE_MASK = 0"
      then have "4096 dvd unat (1 - N)" using aligned_iff [of ?a 12] \<open>r = 0\<close> by (simp add: mask_eq_exp_minus_1)
      then have "4096 dvd (unat (1 - N) + unat N) mod 2 ^ 64" using N(1) by (intro dvd_mod dvd_add) simp_all
      also have "(unat (1 - N) + unat N) mod 2 ^ 64 = unat (1 - N + N)" by (subst unat_word_ariths(1)) simp
      finally show False by simp
    qed
    then show ?thesis using run nofit by simp
  qed
qed

subsection \<open>The bins\<close>

lemma fits_mono: "fits s n mn mx a \<Longrightarrow> mn' \<le> mn \<Longrightarrow> mx \<le> mx' \<Longrightarrow> fits s n mn' mx' a"
  unfolding fits_def by force

lemma fits_same_map: "same_map s t \<Longrightarrow> fits t = fits s"
  by (simp add: fun_eq_iff fits_def same_mapD)

lemma find_in_bins_same: "find_in_bins Mx n T Al s = Some (a, t) \<Longrightarrow> same_map s t"
  by (auto simp: find_in_bins_def bind_eq_Some_conv Let_def same_map_def split: if_splits)

lemma find_in_bins_kept: "find_in_bins Mx n T Al s = Some (a, t) \<Longrightarrow> kept s t"
  by (rule kept_same) (auto simp: find_in_bins_def bind_eq_Some_conv Let_def split: if_splits)

text \<open>The bin of the type, the default bin and all memory are tried in this order; a result is a place for the pages, and
  without one there is none.\<close>

lemma find_in_bins_spec:
  assumes s: "map_inv s" and n: "unat n < 2 ^ 52"
  shows "\<exists>a t. find_in_bins Mx n T 0x1000 s = Some (a, t) \<and> same_map s t \<and>
    (a \<noteq> 0 \<longrightarrow> 0 < unat n \<and> fits s (unat n) 0 (unat Mx) (unat a)) \<and>
    (a = 0 \<longrightarrow> 0 < unat n \<longrightarrow> (\<forall>b. fits s (unat n) 0 (unat Mx) b \<longrightarrow> b = 0))"
proof -
  let ?st = "mMemoryTypeStatistics s (nat T)"
  note f = CoreFindFreePagesI_spec [OF s n]
  obtain a1 where a1: "CoreFindFreePagesI (MaximumAddress ?st) (TypeBase ?st) n 0x1000 s = Some a1"
    "a1 \<noteq> 0 \<longrightarrow> 0 < unat n \<and> fits s (unat n) (unat (TypeBase ?st)) (unat (MaximumAddress ?st)) (unat a1)" using f by blast
  obtain a2 where a2: "CoreFindFreePagesI (mDefaultMaximumAddress s) 0 n 0x1000 s = Some a2"
    "a2 \<noteq> 0 \<longrightarrow> 0 < unat n \<and> fits s (unat n) 0 (unat (mDefaultMaximumAddress s)) (unat a2)" using f [of "mDefaultMaximumAddress s" 0] by auto
  obtain a3 where a3: "CoreFindFreePagesI Mx 0 n 0x1000 s = Some a3"
    "a3 \<noteq> 0 \<longrightarrow> 0 < unat n \<and> fits s (unat n) 0 (unat Mx) (unat a3)"
    "0 < unat n \<longrightarrow> (\<forall>b. fits s (unat n) 0 (unat Mx) b \<longrightarrow> b \<le> unat a3)" using f [of Mx 0] by auto
  let ?c1 = "T \<ge> 0 \<and> T < EfiMaxMemoryType \<and> Mx \<ge> MaximumAddress ?st" and ?c2 = "Mx \<ge> mDefaultMaximumAddress s"
  show ?thesis
  proof (cases "?c1 \<and> a1 \<noteq> 0")
    case True
    then have "fits s (unat n) (unat (TypeBase ?st)) (unat (MaximumAddress ?st)) (unat a1)" "unat (MaximumAddress ?st) \<le> unat Mx"
      using a1(2) by (simp_all only: word_le_nat_alt) blast+
    then have "fits s (unat n) 0 (unat Mx) (unat a1)" by (intro fits_mono [OF _ le0])
    then show ?thesis using True a1 by (simp add: find_in_bins_def)
  next
    case 1: False
    show ?thesis
    proof (cases "?c2 \<and> a2 \<noteq> 0")
      case True
      then have "fits s (unat n) 0 (unat (mDefaultMaximumAddress s)) (unat a2)" "unat (mDefaultMaximumAddress s) \<le> unat Mx"
        using a2(2) by (simp_all only: word_le_nat_alt) blast+
      then have "fits s (unat n) 0 (unat Mx) (unat a2)" by (intro fits_mono [OF _ le0])
      then show ?thesis using 1 True a1(1) a2 by (auto simp: find_in_bins_def Let_def same_map_def)
    next
      case False
      then have b: "(if ?c1 then CoreFindFreePagesI (MaximumAddress ?st) (TypeBase ?st) n 0x1000 s else Some 0) = Some 0"
        "(if ?c2 then CoreFindFreePagesI (mDefaultMaximumAddress s) 0 n 0x1000 s else Some 0) = Some 0" using 1 a1(1) a2(1) by auto
      have "find_in_bins Mx n T 0x1000 s = Some (a3, s)" unfolding find_in_bins_def Let_def b by (simp add: a3(1))
      then show ?thesis using a3 by auto
    qed
  qed
qed

subsection \<open>Promotion of memory\<close>

text \<open>A new free range, at addresses that were not in the map.\<close>

lemma grown:
  assumes s: "page_inv s" "range_ok a b" "free_of (cells s) a b"
    and t: "map_inv t" "ids_inv t" "cells t = cells s \<union> block a b EfiConventional A" "stored t \<subseteq> stored s"
  shows "stored_in (stored t) (cells t)" "evolves s t"
proof -
  have "stored_in (stored s) (cells s)" using s(1) by (simp add: page_inv_def)
  then show "stored_in (stored t) (cells t)" using t(3,4) unfolding stored_in_def by blast
  show "evolves s t" using t(3,4) by (auto simp: turned_def block_def)
qed

lemma promo_ok_update:
  assumes "promo_ok G C" "i < length G" "\<not> promotable E'"
    "promotable (G ! i)" "D = C \<union> block (unat (BaseAddress (G ! i))) (unat (EndAddress (G ! i)) + 1) T A"
  shows "promo_ok (G[i := E']) D"
proof -
  have at: "promotable (G[i := E'] ! j) \<longleftrightarrow> promotable (G ! j) \<and> j \<noteq> i" "j \<noteq> i \<Longrightarrow> G[i := E'] ! j = G ! j" if "j < length G" for j
    using assms(2,3) that by (cases "j = i"; simp)+
  have dis: "{unat (BaseAddress (G ! j))..unat (EndAddress (G ! j))} \<inter> {unat (BaseAddress (G ! k))..unat (EndAddress (G ! k))} = {}"
    if "j < length G" "promotable (G ! j)" "k < length G" "promotable (G ! k)" "j \<noteq> k" for j k
    using assms(1) that unfolding promo_ok_def by blast
  have fr: "free_of D (unat (BaseAddress (G ! j))) (unat (EndAddress (G ! j)) + 1)" if "j < length G" "promotable (G ! j)" "j \<noteq> i" for j
  proof -
    have "free_of C (unat (BaseAddress (G ! j))) (unat (EndAddress (G ! j)) + 1)" using assms(1) that unfolding promo_ok_def by blast
    then show ?thesis using dis [OF that(1,2) assms(2,4) that(3)] unfolding assms(5) free_of_def block_def by fastforce
  qed
  have old: "promotable (G ! j) \<Longrightarrow> range_ok (unat (BaseAddress (G ! j))) (unat (EndAddress (G ! j)) + 1)" if "j < length G" for j
    using assms(1) that unfolding promo_ok_def by blast
  show ?thesis
    unfolding promo_ok_def length_list_update
  proof (intro conjI allI impI)
    fix j assume j: "j < length G" "promotable (G[i := E'] ! j)"
    then show "range_ok (unat (BaseAddress (G[i := E'] ! j))) (unat (EndAddress (G[i := E'] ! j)) + 1)"
      "free_of D (unat (BaseAddress (G[i := E'] ! j))) (unat (EndAddress (G[i := E'] ! j)) + 1)"
      using old [of j] fr [of j] by (simp_all add: at)
    fix k assume k: "k < length G" "promotable (G[i := E'] ! k)" "j \<noteq> k"
    have pj: "promotable (G ! j)" "G[i := E'] ! j = G ! j" and pk: "promotable (G ! k)" "G[i := E'] ! k = G ! k"
      using at [OF j(1)] at [OF k(1)] j(2) k(2) by blast+
    show "{unat (BaseAddress (G[i := E'] ! j))..unat (EndAddress (G[i := E'] ! j))} \<inter>
        {unat (BaseAddress (G[i := E'] ! k))..unat (EndAddress (G[i := E'] ! k))} = {}"
      unfolding pj(2) pk(2) by (rule dis [OF j(1) pj(1) k(1) pk(1) k(3)])
  qed
qed

context descriptor_store
begin

lemma promote_loop_keeps:
  assumes "promote_loop E F is P s = Some (P', t)" "page_inv s" "\<forall>i \<in> set is. i < length (mGcdMemorySpaceMap s)"
  shows "page_inv t \<and> evolves s t \<and> kept s t"
  using assms
proof (induction "is" arbitrary: P s)
  case Nil
  then show ?case by (simp add: evolves_refl)
next
  case (Cons i js)
  let ?G = "mGcdMemorySpaceMap s"
  show ?case
  proof (cases "promotable (?G ! i)")
    case False
    then show ?thesis using Cons by simp
  next
    case True
    let ?E = "promote_entry E (?G ! i)"
    let ?s = "s\<lparr>mGcdMemorySpaceMap := ?G[i := ?E]\<rparr>"
    let ?A = "Capabilities ?E AND NOT (EFI_MEMORY_PRESENT OR EFI_MEMORY_INITIALIZED OR EFI_MEMORY_TESTED OR EFI_MEMORY_RUNTIME)"
    obtain u v where r: "CoreAddRange E EfiConventional (BaseAddress ?E) (EndAddress ?E) ?A ?s = Some u" "F u = Some v"
      "promote_loop E F js True v = Some (P', t)"
      using Cons.prems(1) True by (auto simp: bind_eq_Some_conv Let_def)
    have i: "i < length ?G" using Cons.prems(3) by simp
    have inv: "map_inv s" "ids_inv s" "promo_ok ?G (cells s)" using Cons.prems(2) by (simp_all add: page_inv_def)
    have b: "BaseAddress ?E = BaseAddress (?G ! i)" "EndAddress ?E = EndAddress (?G ! i)" "\<not> promotable ?E"
      by (simp_all add: promote_entry_def promotable_def)
    have ok: "range_ok (unat (BaseAddress ?E)) (unat (EndAddress ?E) + 1)"
      "free_of (cells s) (unat (BaseAddress ?E)) (unat (EndAddress ?E) + 1)"
      using inv(3) i True unfolding promo_ok_def b by blast+
    have c: "cells ?s = cells s" by (rule cells_cong) simp
    have m: "map_inv ?s" "ids_inv ?s" using map_inv_cong [of ?s s] inv(1,2) by (simp_all add: ids_inv_def)
    note a = CoreAddRange_post [OF m ok(1) ok(2) [folded c] r(1)]
    have st: "stored u \<subseteq> stored s" using a(5) by (simp add: stored_def)
    have g: "mGcdMemorySpaceMap u = ?G[i := ?E]" "mFreeMapStack u = mFreeMapStack s" using a(4) by (simp_all add: same_rest_def)
    have su: "kept s u" using a(4) by (intro kept_same) (simp_all add: same_rest_def)
    note gr = grown [OF Cons.prems(2) ok a(1,2) a(3) [unfolded c] st]
    have "promo_ok (mGcdMemorySpaceMap u) (cells u)"
      unfolding g(1) by (rule promo_ok_update [OF inv(3) i b(3) True a(3) [unfolded c b(1,2)]])
    then have u: "page_inv u" using a(1,2) gr(1) by (simp add: page_inv_def)
    have v: "page_inv v" "evolves u v" "kept u v" using F_keeps [OF r(2) u] by blast+
    have len: "\<forall>j \<in> set js. j < length (mGcdMemorySpaceMap v)" using Cons.prems(3) v(3) g(1) by (simp add: kept_def)
    have "page_inv t \<and> evolves v t \<and> kept v t" by (rule Cons.IH [OF r(3) v(1) len])
    then show ?thesis
      using evolves_trans [OF evolves_trans [OF gr(2) v(2)]] kept_trans [OF kept_trans [OF su v(3)]] by blast
  qed
qed

lemma same_map_lock: "same_map s (s\<lparr>mGcdMemorySpaceLock := k\<rparr>)"
  by (simp add: same_map_def)

lemma PromoteMemoryResource_keeps:
  assumes run: "PromoteMemoryResource E F s = Some (P, t)" and s: "page_inv s"
  shows "page_inv t \<and> evolves s t \<and> kept s t"
proof -
  let ?s = "s\<lparr>mGcdMemorySpaceLock := EfiLockAcquired\<rparr>"
  obtain u where u: "promote_loop E F [0..<length (mGcdMemorySpaceMap s)] False ?s = Some (P, u)" "t = u\<lparr>mGcdMemorySpaceLock := EfiLockReleased\<rparr>"
    using run by (auto simp: PromoteMemoryResource_def bind_eq_Some_conv)
  note a = same_map_lock [of s EfiLockAcquired] and b = same_map_lock [of u EfiLockReleased]
  have k: "kept r (r\<lparr>mGcdMemorySpaceLock := l\<rparr>)" for r :: "'a mem" and l by (simp add: kept_def)
  have p: "page_inv u" "evolves ?s u" "kept ?s u"
    using promote_loop_keeps [OF u(1) same_map_page_inv [OF a s]] by (simp_all)
  show ?thesis
    unfolding u(2) using same_map_page_inv [OF b p(1)] evolves_trans [OF evolves_trans [OF same_map_evolves [OF a] p(2)] same_map_evolves [OF b]]
      kept_trans [OF kept_trans [OF k p(3)] k] by blast
qed

lemma promote_loop_none: "promote_loop E F is P s = Some (P', t) \<Longrightarrow> (P \<longrightarrow> P') \<and> (\<not> P' \<longrightarrow> t = s)"
  by (induction "is" arbitrary: P s) (auto simp: bind_eq_Some_conv Let_def split: if_splits)

lemma PromoteMemoryResource_none: "PromoteMemoryResource E F s = Some (False, t) \<Longrightarrow> same_map s t"
  using promote_loop_none by (fastforce simp: PromoteMemoryResource_def bind_eq_Some_conv same_map_def)

lemma FindFreePages_keeps:
  assumes run: "FindFreePages E F Mx n T 0x1000 s = Some (a, t)" and s: "page_inv s"
  shows "page_inv t \<and> evolves s t \<and> kept s t \<and> (unat n < 2 ^ 52 \<longrightarrow> (a \<noteq> 0 \<longrightarrow> 0 < unat n \<and> fits t (unat n) 0 (unat Mx) (unat a)) \<and>
    (a = 0 \<longrightarrow> 0 < unat n \<longrightarrow> (\<forall>b. fits t (unat n) 0 (unat Mx) b \<longrightarrow> b = 0)))"
proof -
  define P where "P = (\<lambda>(E :: 'w mem_env) F' (Mx :: uint64) n (T :: int) (Al :: uint64) s (x :: uint64 \<times> 'w mem). F' = F \<longrightarrow> Al = 0x1000 \<longrightarrow>
    page_inv s \<longrightarrow> page_inv (snd x) \<and> evolves s (snd x) \<and> kept s (snd x) \<and>
      (unat (n :: uint64) < 2 ^ 52 \<longrightarrow> (fst x \<noteq> 0 \<longrightarrow> 0 < unat n \<and> fits (snd x) (unat n) 0 (unat Mx) (unat (fst x))) \<and>
        (fst x = 0 \<longrightarrow> 0 < unat n \<longrightarrow> (\<forall>b. fits (snd x) (unat n) 0 (unat Mx) b \<longrightarrow> b = 0))))"
  have "P E F Mx n T 0x1000 s (a, t)"
  proof (rule FindFreePages.raw_induct [where P = P, OF _ run])
    fix FF E' F' Mx n T Al s x
    assume ih: "\<And>E F Mx n T Al s y. FF E F Mx n T Al s = Some y \<Longrightarrow> P E F Mx n T Al s y"
      and body: "Option.bind (find_in_bins Mx n T Al s) (\<lambda>(a, s). if a \<noteq> 0 then Some (a, s)
        else Option.bind (PromoteMemoryResource E' F' s) (\<lambda>(Promoted, s). if \<not> Promoted then Some (0, s) else FF E' F' Mx n T Al s)) = Some x"
    show "P E' F' Mx n T Al s x"
      unfolding P_def
    proof (intro impI)
      assume F': "F' = F" "Al = 0x1000" and s: "page_inv s"
      obtain a u where a: "find_in_bins Mx n T Al s = Some (a, u)" using body by (auto simp: bind_eq_Some_conv)
      have sm: "same_map s u" by (rule find_in_bins_same [OF a])
      have inv: "map_inv s" using s by (simp add: page_inv_def)
      note u = same_map_page_inv [OF sm s] same_map_evolves [OF sm] find_in_bins_kept [OF a]
      have spec: "(a \<noteq> 0 \<longrightarrow> 0 < unat n \<and> fits u (unat n) 0 (unat Mx) (unat a)) \<and>
        (a = 0 \<longrightarrow> 0 < unat n \<longrightarrow> (\<forall>b. fits u (unat n) 0 (unat Mx) b \<longrightarrow> b = 0))" if "unat n < 2 ^ 52"
        using find_in_bins_spec [OF inv that, of Mx T] a F'(2) by (simp add: fits_same_map [OF sm])
      show "page_inv (snd x) \<and> evolves s (snd x) \<and> kept s (snd x) \<and>
        (unat n < 2 ^ 52 \<longrightarrow> (fst x \<noteq> 0 \<longrightarrow> 0 < unat n \<and> fits (snd x) (unat n) 0 (unat Mx) (unat (fst x))) \<and>
          (fst x = 0 \<longrightarrow> 0 < unat n \<longrightarrow> (\<forall>b. fits (snd x) (unat n) 0 (unat Mx) b \<longrightarrow> b = 0)))"
      proof (cases "a = 0")
        case False
        then have "x = (a, u)" using body a by simp
        then show ?thesis using u spec False by simp
      next
        case True
        then obtain Pr v where v: "PromoteMemoryResource E' F u = Some (Pr, v)"
          "(if \<not> Pr then Some (0, v) else FF E' F Mx n T Al v) = Some x"
          using body a F'(1) by (auto simp: bind_eq_Some_conv)
        have p: "page_inv v" "evolves u v" "kept u v" using PromoteMemoryResource_keeps [OF v(1) u(1)] by blast+
        have sv: "evolves s v" "kept s v" by (rule evolves_trans [OF u(2) p(2)], rule kept_trans [OF u(3) p(3)])
        show ?thesis
        proof (cases Pr)
          case True
          then have "P E' F Mx n T Al v x" using v(2) ih by simp
          then show ?thesis using p(1) F'(2) evolves_trans [OF sv(1)] kept_trans [OF sv(2)] by (simp add: P_def)
        next
          case False
          then have "same_map u v" using PromoteMemoryResource_none [of E' u v] v(1) False by simp
          then have "fits v = fits u" by (rule fits_same_map)
          moreover have "x = (0, v)" using False v(2) by simp
          ultimately show ?thesis using p(1) sv spec \<open>a = 0\<close> by simp
        qed
      qed
    qed
  qed
  with s show ?thesis by (simp add: P_def)
qed

end

end
