(* ===== verification/PageStore.thy ===== *)
theory PageStore
  imports PageFind
begin

unbundle bit_operations_syntax

section \<open>Storing the descriptors\<close>

text \<open>
  \<open>CoreFreeMemoryMapStack\<close> moves the descriptors of \<open>mMapStack\<close> to descriptors in pages and takes a new page for them
  when none is left. It keeps the contract \<open>descriptor_store\<close>, at every depth; the interpretation at the end carries
  the lemmas over to the conversion as the services call it.
\<close>

subsection \<open>Pages for the pool and for descriptors\<close>

context descriptor_store
begin

lemma convert_fits:
  assumes s: "page_inv s" "fits s (unat n) mn mx (unat S)" and T: "T \<noteq> EfiConventional" and run: "CoreConvertPages E F S n T s = Some (st, t)"
  shows "page_inv t" "kept s t" "turned T (unat S) (unat S + unat n * 4096) s t" "0 < unat n \<Longrightarrow> st = EFI_SUCCESS"
proof -
  obtain l e where e: "mapped_at s l e" "Type e = EfiConventional" "lo e \<le> unat S" "unat S + unat n * 4096 \<le> hi e" "4096 dvd unat S"
    using s(2) by (auto simp: fits_def)
  have all: "page_inv t \<and> kept s t \<and> turned T (unat S) (unat S + unat n * 4096) s t \<and> (0 < unat n \<longrightarrow> st = EFI_SUCCESS)"
  proof (cases "0 < unat n")
    case True
    show ?thesis using CoreConvertPages_inside [OF s(1) e(1,3,4) True e(5) _ _ run] T e(2) by simp
  next
    case False
    then have "n = 0" by (simp add: unat_eq_zero)
    then have "t = s" using run by (auto simp: CoreConvertPages_def bind_eq_Some_conv Let_def)
    then show ?thesis using False s(1) by (simp add: turned_refl)
  qed
  then show "page_inv t" "kept s t" "turned T (unat S) (unat S + unat n * 4096) s t" "0 < unat n \<Longrightarrow> st = EFI_SUCCESS" by blast+
qed

lemma CoreAllocatePoolPages_keeps:
  assumes s: "page_inv s" and T: "T \<noteq> EfiConventional" and run: "CoreAllocatePoolPages E F T n 0x1000 s = Some (S, t)"
  shows "page_inv t" "kept s t" "S = 0 \<Longrightarrow> evolves s t" "S \<noteq> 0 \<Longrightarrow> \<exists>b. unat S \<le> b \<and> turned T (unat S) b s t"
    "S \<noteq> 0 \<Longrightarrow> unat n < 2 ^ 52 \<Longrightarrow> 4096 dvd unat S \<and> turned T (unat S) (unat S + unat n * 4096) s t"
proof -
  obtain u where u: "FindFreePages E F MAX_ADDRESS n T 0x1000 s = Some (S, u)"
    "if S = 0 then t = u else \<exists>st. CoreConvertPages E F S n T u = Some (st, t)"
    using run by (auto simp: CoreAllocatePoolPages_def bind_eq_Some_conv split: if_splits)
  have f: "page_inv u" "evolves s u" "kept s u" "S \<noteq> 0 \<Longrightarrow> unat n < 2 ^ 52 \<Longrightarrow> \<exists>mx. fits u (unat n) 0 mx (unat S)"
    using FindFreePages_keeps [OF u(1) s] by blast+
  have all: "page_inv t \<and> kept s t \<and> (S = 0 \<longrightarrow> evolves s t) \<and> (S \<noteq> 0 \<longrightarrow> (\<exists>b. unat S \<le> b \<and> turned T (unat S) b s t)) \<and>
    (S \<noteq> 0 \<longrightarrow> unat n < 2 ^ 52 \<longrightarrow> 4096 dvd unat S \<and> turned T (unat S) (unat S + unat n * 4096) s t)"
  proof (cases "S = 0")
    case True
    then show ?thesis using u(2) f by simp
  next
    case False
    then obtain st where c: "CoreConvertPages E F S n T u = Some (st, t)" using u(2) by auto
    note k = CoreConvertPages_keeps [OF f(1) refl _ c] and w = convert_fits [OF f(1) _ T c]
    have "\<exists>b. unat S \<le> b \<and> turned T (unat S) b u t" using k(3) T turned_refl by blast
    then have "\<exists>b. unat S \<le> b \<and> turned T (unat S) b s t" using evolves_turned [OF f(2)] by blast
    moreover have "4096 dvd unat S \<and> turned T (unat S) (unat S + unat n * 4096) s t" if n: "unat n < 2 ^ 52"
    proof -
      obtain mx where mx: "fits u (unat n) 0 mx (unat S)" using f(4) [OF False n] by blast
      have "turned T (unat S) (unat S + unat n * 4096) s t" by (rule evolves_turned [OF f(2) w(3) [OF mx]]) simp
      then show ?thesis using mx by (simp add: fits_def)
    qed
    ultimately show ?thesis using k(1,2) T kept_trans [OF f(3)] False by simp
  qed
  then show "page_inv t" "kept s t" "S = 0 \<Longrightarrow> evolves s t" "S \<noteq> 0 \<Longrightarrow> \<exists>b. unat S \<le> b \<and> turned T (unat S) b s t"
    "S \<noteq> 0 \<Longrightarrow> unat n < 2 ^ 52 \<Longrightarrow> 4096 dvd unat S \<and> turned T (unat S) (unat S + unat n * 4096) s t" by blast+
qed

end

subsection \<open>One slot\<close>

text \<open>What \<open>AllocateMemoryMapEntry\<close> relies on.\<close>

locale page_supply =
  fixes P :: "int \<Rightarrow> uint64 \<Rightarrow> 'w mem \<Rightarrow> (uint64 \<times> 'w mem) option"
  assumes P_keeps: "P EfiBootServicesData 1 s = Some (S, t) \<Longrightarrow> page_inv s \<Longrightarrow>
    page_inv t \<and> kept s t \<and> (S = 0 \<longrightarrow> evolves s t) \<and>
    (S \<noteq> 0 \<longrightarrow> 4096 dvd unat S \<and> turned EfiBootServicesData (unat S) (unat S + 4096) s t)"

text \<open>A descriptor in a page that is neither on the map nor free.\<close>

definition spare :: "nat \<Rightarrow> 'w mem \<Rightarrow> bool" where
  "spare a s \<longleftrightarrow> 4096 \<le> a \<and> a \<notin> set (gMemoryMap s) \<and> a \<notin> set (mFreeMemoryMapEntryList s) \<and> (\<exists>A. (a, EfiBootServicesData, A) \<in> cells s)"

lemma descriptor_slots:
  assumes "4096 dvd unat D" "D \<noteq> 0"
  shows "distinct (map (\<lambda>i. unat D + 64 * i) [0..<64])" "set (map (\<lambda>i. unat D + 64 * i) [0..<64]) \<subseteq> {unat D..<unat D + 4096}"
    "4096 \<le> unat D"
proof -
  show "distinct (map (\<lambda>i. unat D + 64 * i) [0..<64])" by (auto simp: distinct_map inj_on_def)
  show "set (map (\<lambda>i. unat D + 64 * i) [0..<64]) \<subseteq> {unat D..<unat D + 4096}" by auto
  show "4096 \<le> unat D" using assms by (intro dvd_imp_le) (simp_all add: unat_gt_0)
qed

text \<open>A new page of descriptors.\<close>

lemma refilled:
  assumes s: "page_inv s" "page_inv t" "turned EfiBootServicesData a (a + 4096) s t" and l: "distinct ls" "set ls \<subseteq> {a..<a + 4096}" "4096 \<le> a"
    and u: "u = t\<lparr>mFreeMemoryMapEntryList := mFreeMemoryMapEntryList t @ ls\<rparr>"
  shows "page_inv u" "evolves s u" "kept t u"
proof -
  have inv: "map_inv t" "ids_inv t" "stored_in (stored t) (cells t)" "promo_ok (mGcdMemorySpaceMap t) (cells t)"
    using s(2) by (simp_all add: page_inv_def)
  have m: "mapped_at u = mapped_at t" by (simp add: u)
  note c = cells_cong [OF m] m
  have st: "stored u = stored t \<union> set ls" using l(2,3) by (auto simp: stored_def u)
  have no: "x \<notin> stored t" if "x \<in> set ls" for x using turnedD(5) [OF s(3), of x] subsetD [OF l(2) that] by linarith
  have fresh: "x \<notin> set (gMemoryMap t)" "x \<notin> set (mFreeMemoryMapEntryList t)" "4096 \<le> x" if "x \<in> set ls" for x
  proof -
    show "4096 \<le> x" using subsetD [OF l(2) that] l(3) by simp
    then show "x \<notin> set (gMemoryMap t)" "x \<notin> set (mFreeMemoryMapEntryList t)" using no [OF that] by (simp_all add: stored_def)
  qed
  have "ids_inv u" using inv(2) l(1) fresh unfolding ids_inv_def c by (auto simp: u)
  moreover have "map_inv u" by (rule map_inv_cong [OF c(2) _ inv(1)]) (simp add: u)
  moreover have "stored_in (stored u) (cells u)"
  proof -
    have "\<exists>A. (x, 4, A) \<in> cells t" if "x \<in> set ls" for x using turnedD(2) [OF s(3), of x] l(2) that by fastforce
    then show ?thesis using inv(3) unfolding st c stored_in_def by blast
  qed
  ultimately show "page_inv u" using inv(4) by (simp add: page_inv_def c) (simp add: u)
  show "kept t u" by (simp add: kept_def u)
  show "evolves s u"
    unfolding turned_def c
  proof (intro conjI ballI allI impI)
    show "(x, U, A) \<in> cells t \<or> U = 7 \<and> (x, 4, A) \<in> cells t" if x: "(x, U, A) \<in> cells s" for x U A
    proof (cases "x \<in> {a..<a + 4096}")
      case True
      then have "U = 7" using turnedD(1) [OF s(3) True] x by (auto simp: allocated_def)
      moreover obtain B where "(x, 4, B) \<in> cells t" "B = A" using turnedD(2) [OF s(3) True] x by auto
      ultimately show ?thesis by blast
    next
      case False
      then show ?thesis using turnedD(3) [OF s(3) x] by blast
    qed
    show "(x, U, A) \<in> cells s \<or> U \<in> {7, 4} \<or> x \<in> {0..<0} \<and> U = 0" if "(x, U, A) \<in> cells t" for x U A
      using turnedD(4) [OF s(3) that] by blast
    show "l \<in> stored s \<or> \<not> allocated s l \<or> 0 = (7 :: int) \<and> l \<in> {0..<0}" if "l \<in> stored u" for l
    proof (cases "l \<in> stored t")
      case True
      then show ?thesis using turnedD(6) [OF s(3) True] by simp
    next
      case False
      then have "l \<in> {a..<a + 4096}" using that l(2) st by blast
      then show ?thesis using turnedD(1) [OF s(3), of l] by simp
    qed
  qed simp_all
qed

lemma popped:
  assumes "page_inv s" "mFreeMemoryMapEntryList s = a # l"
  shows "page_inv (s\<lparr>mFreeMemoryMapEntryList := l\<rparr>)" "spare a (s\<lparr>mFreeMemoryMapEntryList := l\<rparr>)"
    "evolves s (s\<lparr>mFreeMemoryMapEntryList := l\<rparr>)" "a \<in> stored s"
proof -
  let ?t = "s\<lparr>mFreeMemoryMapEntryList := l\<rparr>"
  have inv: "map_inv s" "ids_inv s" "stored_in (stored s) (cells s)" "promo_ok (mGcdMemorySpaceMap s) (cells s)"
    using assms(1) by (simp_all add: page_inv_def)
  have c: "cells ?t = cells s" by (rule cells_cong) simp
  have st: "stored ?t \<subseteq> stored s" using assms(2) by (auto simp: stored_def)
  have "ids_inv ?t" using inv(2) assms(2) unfolding ids_inv_def by auto
  moreover have "map_inv ?t" by (rule map_inv_cong [OF _ _ inv(1)]) simp_all
  ultimately show "page_inv ?t" using inv(3,4) st by (auto simp: page_inv_def c stored_in_def)
  show "a \<in> stored s" using inv(2) assms(2) by (auto simp: stored_def ids_inv_def)
  then show "spare a ?t" using inv(2,3) assms(2) unfolding spare_def c by (auto simp: ids_inv_def stored_in_def)
  show "evolves s ?t" using st by (auto simp: turned_def c)
qed

text \<open>A descriptor becomes part of the list of free ones.\<close>

lemma pushed:
  assumes "page_inv s" "spare a s" and t: "t = s\<lparr>mFreeMemoryMapEntryList := mFreeMemoryMapEntryList s @ [a]\<rparr>"
  shows "page_inv t" "stored t = stored s \<union> {a}" "cells t = cells s"
proof -
  have inv: "map_inv s" "ids_inv s" "stored_in (stored s) (cells s)" "promo_ok (mGcdMemorySpaceMap s) (cells s)"
    using assms(1) by (simp_all add: page_inv_def)
  have m: "mapped_at t = mapped_at s" "gMemoryMap t = gMemoryMap s" by (simp_all add: t)
  show c: "cells t = cells s" by (rule cells_cong [OF m(1)])
  show st: "stored t = stored s \<union> {a}" using assms(2) by (auto simp: stored_def spare_def t)
  have "ids_inv t" using inv(2) assms(2) unfolding ids_inv_def m by (auto simp: spare_def t)
  moreover have "map_inv t" by (rule map_inv_cong [OF m inv(1)])
  moreover have "mGcdMemorySpaceMap t = mGcdMemorySpaceMap s" by (simp add: t)
  ultimately show "page_inv t" using inv(3,4) assms(2) unfolding page_inv_def stored_in_def c st by (auto simp: spare_def)
qed

lemma insert_entry_set:
  "insert_entry s S a ls = Some l \<Longrightarrow> set l = insert a (set ls) \<and> (a \<notin> set ls \<longrightarrow> distinct ls \<longrightarrow> distinct l)"
  by (induction ls arbitrary: l) (auto simp: bind_eq_Some_conv split: if_splits)

text \<open>A slot of the array is copied to a descriptor in a page.\<close>

lemma moved:
  assumes s: "page_inv s" "spare a s" and k: "k < 4096" "mapped_at s k e"
    and d: "\<And>l f. mapped_at s l f \<Longrightarrow> l < 4096 \<Longrightarrow> l \<noteq> k \<Longrightarrow> l \<le> d"
    and l: "set ls = insert a (set (gMemoryMap s) - {k})" "distinct ls"
    and d6: "d \<le> 6" and t: "t = s\<lparr>mMapDepth := d, gMemoryMap := ls, MapEntries := (MapEntries s)(a \<mapsto> e\<lparr>FromPages := True\<rparr>)\<rparr>"
  shows "page_inv t" "cells t = cells s" "stored t = stored s \<union> {a}"
proof -
  have inv: "map_inv s" "ids_inv s" "stored_in (stored s) (cells s)" "promo_ok (mGcdMemorySpaceMap s) (cells s)"
    using s(1) by (simp_all add: page_inv_def)
  let ?r = "s\<lparr>gMemoryMap := removeAll k (gMemoryMap s)\<rparr>" and ?e = "e\<lparr>FromPages := True\<rparr>"
  have r: "gMemoryMap ?r = removeAll k (gMemoryMap s)" "MapEntries ?r = MapEntries s" by simp_all
  note r = removed [OF inv(1) k(2) r]
  have e: "lo ?e = lo e" "hi ?e = hi e" by (simp_all add: lo_def hi_def)
  have ok: "range_ok (lo ?e) (hi ?e)" unfolding e by (rule map_invD(3) [OF inv(1) k(2)])
  have new: "a \<notin> set (gMemoryMap ?r)" using s(2) by (simp add: spare_def)
  have g: "distinct (gMemoryMap t)" "set (gMemoryMap t) = insert a (set (gMemoryMap ?r))" "MapEntries t = (MapEntries ?r)(a \<mapsto> ?e)"
    using l by (simp_all add: t)
  note a = added [OF r(2) r(4) [folded e] ok new g]
  have sub: "block (lo e) (hi e) (Type e) (Attribute e) \<subseteq> cells s" using cellsI [OF k(2)] by (auto simp: block_def)
  show c: "cells t = cells s" using a(3) r(3) sub by (auto simp: e)
  have small: "\<not> 4096 \<le> k" using k(1) by simp
  show st: "stored t = stored s \<union> {a}" using s(2) small by (auto simp: stored_def spare_def t l(1))
  have m: "mapped_at t l f \<longleftrightarrow> mapped_at s l f \<and> l \<noteq> k \<or> l = a \<and> f = ?e" for l f using a(1) r(1) by blast
  have "(FromPages f \<longleftrightarrow> 4096 \<le> l) \<and> (l < 4096 \<longrightarrow> 0 < l \<and> l \<le> mMapDepth t \<and> l \<le> 6)" if "mapped_at t l f" for l f
  proof (cases "l = a \<and> f = ?e")
    case True
    then show ?thesis using s(2) by (simp add: spare_def)
  next
    case False
    then have f: "mapped_at s l f" "l \<noteq> k" using that m by blast+
    then have "(FromPages f \<longleftrightarrow> 4096 \<le> l) \<and> (l < 4096 \<longrightarrow> 0 < l \<and> l \<le> 6)" using inv(2) unfolding ids_inv_def by blast
    then show ?thesis using d [OF f(1) _ f(2)] by (simp add: t)
  qed
  then have "ids_inv t" using inv(2) s(2) d6 unfolding ids_inv_def by (auto simp: t l(1) spare_def)
  then show "page_inv t" using a(2) inv(3,4) s(2) unfolding page_inv_def stored_in_def c st by (auto simp: spare_def t)
qed

context page_supply
begin

lemma AllocateMemoryMapEntry_keeps:
  assumes run: "AllocateMemoryMapEntry P s = Some (a, t)" and s: "page_inv s" and a: "a \<noteq> 0"
  shows "page_inv t \<and> evolves s t \<and> kept s t \<and> spare a t \<and> (a \<in> stored s \<or> \<not> allocated s a) \<and>
    (mFreeMemoryMapEntryList s \<noteq> [] \<longrightarrow> cells t = cells s)"
proof -
  obtain u where u: "page_inv u \<and> evolves s u \<and> kept s u" "dequeue_entry u = Some (a, t)" "mFreeMemoryMapEntryList s \<noteq> [] \<longrightarrow> u = s"
  proof (cases "mFreeMemoryMapEntryList s = []")
    case False
    then show thesis using run s evolves_refl by (intro that [of s]) (simp_all add: AllocateMemoryMapEntry_def)
  next
    case True
    then obtain D v where v: "P EfiBootServicesData 1 s = Some (D, v)" "D \<noteq> 0"
      "dequeue_entry (v\<lparr>mFreeMemoryMapEntryList := mFreeMemoryMapEntryList v @ map (\<lambda>i. unat D + 64 * i) [0..<64]\<rparr>) = Some (a, t)"
      using run a by (auto simp: AllocateMemoryMapEntry_def bind_eq_Some_conv split: if_splits)
    have d: "4096 dvd unat D" "turned EfiBootServicesData (unat D) (unat D + 4096) s v" "page_inv v" "kept s v"
      using P_keeps [OF v(1) s] v(2) by blast+
    note r = refilled [OF s d(3,2) descriptor_slots [OF d(1) v(2)] refl]
    show thesis using r kept_trans [OF d(4) r(3)] v(3) True by (intro that) simp_all
  qed
  obtain l where l: "mFreeMemoryMapEntryList u = a # l" "t = u\<lparr>mFreeMemoryMapEntryList := l\<rparr>"
    using u(2) by (auto simp: dequeue_entry_def split: list.splits)
  have v: "page_inv u" "evolves s u" "kept s u" using u(1) by blast+
  note p = popped [OF v(1) l(1), folded l(2)]
  have "a \<in> stored s \<or> \<not> allocated s a" using turnedD(6) [OF v(2) p(4)] by auto
  moreover have "kept s t" using v(3) by (simp add: l(2) kept_def)
  moreover have "cells t = cells s" if "mFreeMemoryMapEntryList s \<noteq> []"
    using u(3) that unfolding l(2) by (intro cells_cong) simp
  ultimately show ?thesis using p(1,2) evolves_trans [OF v(2) p(3)] by blast
qed

lemma free_map_slot_keeps:
  assumes run: "free_map_slot P s = Some t" and s: "page_inv s"
  shows "page_inv t \<and> evolves s t \<and> kept s t \<and> (mFreeMemoryMapEntryList s \<noteq> [] \<longrightarrow> cells t = cells s)"
proof -
  obtain a u where u: "AllocateMemoryMapEntry P s = Some (a, u)" "a \<noteq> 0"
    using run by (auto simp: free_map_slot_def bind_eq_Some_conv split: if_splits)
  have p: "page_inv u" "evolves s u" "kept s u" "spare a u" "a \<in> stored s \<or> \<not> allocated s a"
      "mFreeMemoryMapEntryList s \<noteq> [] \<longrightarrow> cells u = cells s"
    using AllocateMemoryMapEntry_keeps [OF u(1) s u(2)] by blast+
  have inv: "map_inv u" "ids_inv u" using p(1) by (simp_all add: page_inv_def)
  have d6: "mMapDepth u \<le> 6" using inv(2) by (simp add: ids_inv_def)
  define d where "d = mMapDepth u - 1"
  let ?k = "mMapStack_at d" and ?v = "u\<lparr>mMapDepth := d\<rparr>"
  have k: "?k < 4096" using d6 by (simp add: d_def mMapStack_at_def)
  have low: "l \<le> d" if "mapped_at u l f" "l < 4096" "l \<noteq> ?k" for l f
  proof -
    have "0 < l" "l \<le> mMapDepth u" using inv(2) that(1,2) unfolding ids_inv_def by blast+
    then show ?thesis using that(3) by (simp add: d_def mMapStack_at_def)
  qed
  have st: "l \<in> stored s \<or> \<not> allocated s l" if "l \<in> stored u \<union> {a}" for l
    using that p(5) turnedD(6) [OF p(2), of l] by auto
  have ev: "evolves s t" if "cells t = cells u" "stored t = stored u \<union> {a}"
    using p(2) st unfolding turned_def that by simp
  show ?thesis
  proof (cases "?k \<in> set (gMemoryMap u)")
    case True
    then obtain e where e: "mapped_at u ?k e" using map_invD(2) [OF inv(1)] by blast
    let ?e = "e\<lparr>FromPages := True\<rparr>"
    have el: "MapEntries u ?k = Some e" using e by (simp add: mapped_at_def)
    let ?w = "?v\<lparr>gMemoryMap := removeAll ?k (gMemoryMap u), MapEntries := (MapEntries u)(a \<mapsto> ?e)\<rparr>"
    obtain l where l: "insert_entry ?w (Start e) a (removeAll ?k (gMemoryMap u)) = Some l" "t = ?w\<lparr>gMemoryMap := l\<rparr>"
      using run u True el unfolding free_map_slot_def by (auto simp: bind_eq_Some_conv d_def Let_def)
    have a: "a \<notin> set (removeAll ?k (gMemoryMap u))" "distinct (removeAll ?k (gMemoryMap u))"
      using p(4) map_invD(1) [OF inv(1)] by (auto simp: spare_def distinct_removeAll)
    have l': "set l = insert a (set (gMemoryMap u) - {?k})" "distinct l" using insert_entry_set [OF l(1)] a by simp_all
    have "t = u\<lparr>mMapDepth := d, gMemoryMap := l, MapEntries := (MapEntries u)(a \<mapsto> ?e)\<rparr>" unfolding l(2) by simp
    note m = moved [OF p(1,4) k e low l' _ this]
    have "d \<le> 6" using d6 by (simp add: d_def)
    note m = m [OF _ _ _ this]
    show ?thesis using m ev p(3,6) by (simp add: kept_def l(2))
  next
    case False
    then have t: "t = ?v\<lparr>mFreeMemoryMapEntryList := mFreeMemoryMapEntryList ?v @ [a]\<rparr>"
      using run u unfolding free_map_slot_def by (auto simp: d_def Let_def)
    have m: "mapped_at ?v = mapped_at u" by simp
    have c: "cells ?v = cells u" "stored ?v = stored u" by (rule cells_cong [OF m], simp add: stored_def)
    have "l \<le> d" if "mapped_at u l f" "l < 4096" for l f
      using low [OF that] that(1) False by (auto simp: mapped_at_def)
    then have "ids_inv ?v" using inv(2) d6 unfolding ids_inv_def m by (auto simp: d_def)
    moreover have "map_inv ?v" by (rule map_inv_cong [OF m _ inv(1)]) simp
    ultimately have v: "page_inv ?v" using p(1) by (simp add: page_inv_def c)
    have "spare a ?v" using p(4) by (simp add: spare_def c(1))
    note q = pushed [OF v this t]
    show ?thesis using q ev c p(3,6) by (simp add: kept_def t)
  qed
qed

lemma free_map_stack_keeps:
  assumes run: "free_map_stack E P s = Some t" and s: "page_inv s"
  shows "page_inv t \<and> evolves s t \<and> kept s t"
proof (cases "mFreeMapStack s \<noteq> 0")
  case True
  then show ?thesis using run s evolves_refl by (auto simp: free_map_stack_def bind_eq_Some_conv)
next
  case False
  let ?s = "s\<lparr>mFreeMapStack := mFreeMapStack s + 1\<rparr>"
  obtain u where u: "while_opt (\<lambda>s. mMapDepth s \<noteq> 0) (free_map_slot P) ?s = Some u" "t = u\<lparr>mFreeMapStack := mFreeMapStack u - 1\<rparr>"
    using run False by (auto simp: free_map_stack_def bind_eq_Some_conv)
  have same: "page_inv (r\<lparr>mFreeMapStack := n\<rparr>)" "evolves r (r\<lparr>mFreeMapStack := n\<rparr>)" if r: "page_inv r" for r :: "'a mem" and n
  proof -
    have m: "mapped_at (r\<lparr>mFreeMapStack := n\<rparr>) = mapped_at r" by simp
    have c: "cells (r\<lparr>mFreeMapStack := n\<rparr>) = cells r" "stored (r\<lparr>mFreeMapStack := n\<rparr>) = stored r"
      by (rule cells_cong [OF m], simp add: stored_def)
    show "evolves r (r\<lparr>mFreeMapStack := n\<rparr>)" by (auto simp: turned_def c)
    have "map_inv (r\<lparr>mFreeMapStack := n\<rparr>)" using r by (intro map_inv_cong [OF m]) (simp_all add: page_inv_def)
    then show "page_inv (r\<lparr>mFreeMapStack := n\<rparr>)" using r unfolding page_inv_def c by (simp add: ids_inv_def)
  qed
  have "(page_inv u \<and> evolves ?s u \<and> kept ?s u) \<and> \<not> mMapDepth u \<noteq> 0"
  proof (rule while_opt_rule [OF u(1), where I = "\<lambda>r. page_inv r \<and> evolves ?s r \<and> kept ?s r"])
    show "page_inv ?s \<and> evolves ?s ?s \<and> kept ?s ?s" using same(1) [OF s] evolves_refl by simp
    fix r v assume r: "page_inv r \<and> evolves ?s r \<and> kept ?s r" and v: "free_map_slot P r = Some v"
    then have "page_inv v \<and> evolves r v \<and> kept r v" using free_map_slot_keeps by blast
    with r show "page_inv v \<and> evolves ?s v \<and> kept ?s v" using evolves_trans [of ?s r v] kept_trans [of ?s r v] by blast
  qed
  then show ?thesis using same(1) [of u] evolves_trans [OF evolves_trans [OF same(2) [OF s]] same(2)] by (auto simp: u(2) kept_def)
qed

end

subsection \<open>The contract\<close>

lemma pool_pages_supply:
  assumes "descriptor_store F"
  shows "page_supply (\<lambda>T n. CoreAllocatePoolPages E F T n DEFAULT_PAGE_ALLOCATION)"
proof unfold_locales
  fix s t :: "'a mem" and S
  assume run: "CoreAllocatePoolPages E F EfiBootServicesData 1 DEFAULT_PAGE_ALLOCATION s = Some (S, t)" and s: "page_inv s"
  note k = descriptor_store.CoreAllocatePoolPages_keeps [OF assms s _ run]
  show "page_inv t \<and> kept s t \<and> (S = 0 \<longrightarrow> evolves s t) \<and>
    (S \<noteq> 0 \<longrightarrow> 4096 dvd unat S \<and> turned EfiBootServicesData (unat S) (unat S + 4096) s t)"
    using k by simp
qed

lemma CoreFreeMemoryMapStack_contract: "descriptor_store (CoreFreeMemoryMapStack n E)"
proof (induction n)
  case 0
  have "page_supply (\<lambda>_ _ _. None)" by unfold_locales simp
  then show ?case using page_supply.free_map_stack_keeps by unfold_locales auto
next
  case (Suc n)
  show ?case using page_supply.free_map_stack_keeps [OF pool_pages_supply [OF Suc]] by unfold_locales auto
qed

interpretation fms: descriptor_store "CoreFreeMemoryMapStack n E" for n E
  by (rule CoreFreeMemoryMapStack_contract)

interpretation pps: page_supply "\<lambda>T m. CoreAllocatePoolPages E (CoreFreeMemoryMapStack n E) T m DEFAULT_PAGE_ALLOCATION" for n E
  by (rule pool_pages_supply [OF CoreFreeMemoryMapStack_contract])

end
