(* ===== verification/PageServices.thy ===== *)
theory PageServices
  imports PageStore
begin

unbundle bit_operations_syntax

section \<open>The page services\<close>

text \<open>
  What \<open>CoreAllocatePages\<close> and \<open>CoreFreePages\<close> do to the map, over the contract of the conversion. The memory of a
  successful allocation was free and is disjoint from the memory of the descriptors; memory that its owner frees
  becomes free; whatever else was allocated stays as it is.
\<close>

subsection \<open>Freeing owned memory\<close>

lemma descriptor_not_null: "ids_inv s \<Longrightarrow> mapped_at s l e \<Longrightarrow> l \<noteq> 0"
  unfolding ids_inv_def by (metis less_not_refl zero_less_numeral)

lemma allocated_entry:
  assumes s: "page_inv s" and S: "allocated s (unat S)" "4096 dvd unat S"
  shows "\<exists>l e. mapped_at s l e \<and> Start e \<le> S \<and> S < End e \<and> Type e \<noteq> EfiConventional \<and> l \<noteq> 0"
proof -
  obtain l e where e: "mapped_at s l e" "unat S \<in> rng e" "Type e \<noteq> 7" using S(1) by (auto simp: allocated_def cells_def)
  have inv: "map_inv s" "ids_inv s" using s by (simp_all add: page_inv_def)
  have "4096 dvd hi e" using map_invD(3) [OF inv(1) e(1)] by (simp add: range_ok_def)
  then have "4096 dvd hi e - unat S" using S(2) by (rule dvd_diff_nat)
  then have "4096 \<le> hi e - unat S" using e(2) by (intro dvd_imp_le) auto
  then have "Start e \<le> S" "S < End e" using e(2) by (auto simp: lo_def hi_def word_le_nat_alt word_less_nat_alt)
  then show ?thesis using e descriptor_not_null [OF inv(2) e(1)] by blast
qed

lemma owned_end: "page_inv s \<Longrightarrow> owned s a b \<Longrightarrow> a < b \<Longrightarrow> b < 2 ^ 64"
proof -
  assume s: "page_inv s" and o: "owned s a b" "a < b"
  then have "b - 1 \<in> {a..<b}" by auto
  then have "allocated s (b - 1)" using o by (simp add: owned_def)
  then obtain l e where "mapped_at s l e" "b - 1 < hi e" by (auto simp: allocated_def cells_def)
  moreover from this s have "hi e < 2 ^ 64" using map_invD(3) by (auto simp: page_inv_def range_ok_def)
  ultimately show ?thesis by simp
qed

context descriptor_store
begin

lemma convert_turn_owned:
  assumes s: "page_inv s" "allocated s (unat S)" "4096 dvd unat S" and run: "convert_step E F n EfiConventional L (S, st, s) = Some (S', st', t)"
  shows "st' = None"
proof -
  obtain l e where e: "mapped_at s l e" "Start e \<le> S" "S < End e" "Type e \<noteq> 7" "l \<noteq> 0" using allocated_entry [OF s] by blast
  have "covering s S (gMemoryMap s) = Some l" using s(1) by (intro covering_found [OF _ e(1-3)]) (simp add: page_inv_def)
  moreover have "MapEntries s l = Some e" using e(1) by (simp add: mapped_at_def)
  ultimately show ?thesis using run e(4,5) unfolding convert_step_def by (auto simp: bind_eq_Some_conv Let_def)
qed

lemma convert_owned:
  assumes s: "page_inv s" "owned s (unat S) (unat S + unat n * 4096)" "0 < unat n" "4096 dvd unat S"
    and run: "CoreConvertPages E F S n EfiConventional s = Some (st, t)"
  shows "st = EFI_SUCCESS" "page_inv t" "kept s t" "turned EfiConventional (unat S) (unat S + unat n * 4096) s t"
proof -
  define L where "L = S + LShiftU64 n EFI_PAGE_SHIFT - 1"
  have "unat S + unat n * 4096 < 2 ^ 64" by (rule owned_end [OF s(1,2)]) (use s(3) in simp)
  note r = page_range_unat [OF s(4,3) order_refl this L_def]
  have own: "owned s (unat S) (unat L + 1)" using s(2) r(1) by simp
  have ok: "\<not> (n = 0 \<or> S AND EFI_PAGE_MASK \<noteq> 0 \<or> S > S + LShiftU64 n EFI_PAGE_SHIFT)"
    using s(3,4) r(2) aligned_iff [of S 12] by (auto simp: mask_eq_exp_minus_1 not_less)
  obtain S' st' where w: "while_opt (\<lambda>(S, st, _). st = None \<and> S < L) (convert_step E F n 7 L) (S, None, s) = Some (S', st', t)"
    and st: "st = (case st' of None \<Rightarrow> EFI_SUCCESS | Some e \<Rightarrow> e)"
    using run ok by (auto simp: CoreConvertPages_def bind_eq_Some_conv Let_def L_def)
  have L1: "4096 dvd unat L + 1" using r(1) s(4) by (simp add: dvd_add)
  define I where "I = (\<lambda>(S :: uint64, st' :: EFI_STATUS option, t :: 'w mem). page_inv t \<and> 4096 dvd unat S \<and> owned t (unat S) (unat L + 1) \<and> st' = None)"
  have "I (S', st', t) \<and> \<not> (\<lambda>(S, st, _). st = None \<and> S < L) (S', st', t)"
  proof (rule while_opt_rule [OF w])
    show "I (S, None, s)" using s(1,4) own by (simp add: I_def)
    fix x y assume x: "I x" "case x of (S, st, _) \<Rightarrow> st = None \<and> S < L" "convert_step E F n 7 L x = Some y"
    obtain S1 s1 where x1: "x = (S1, None, s1)" using x(2) by (cases x) auto
    obtain S2 st2 s2 where y: "y = (S2, st2, s2)" by (cases y)
    have i: "page_inv s1" "4096 dvd unat S1" "owned s1 (unat S1) (unat L + 1)" "S1 < L" using x(1,2) by (simp_all add: x1 I_def)
    have "allocated s1 (unat S1)" using i(3,4) by (auto simp: owned_def word_less_nat_alt)
    from convert_turn_owned [OF i(1) this i(2)] x(3) have "st2 = None" unfolding x1 y by blast
    with convert_turn [OF i(1,2) L1 i(4)] i(3) x(3)
    have z: "unat S1 < unat S2" "4096 dvd unat S2" "page_inv s2" "turned 7 (unat S1) (unat S2) s1 s2" unfolding x1 y by blast+
    have "owned s2 (unat S2) (unat L + 1)" by (rule owned_rest [OF i(3) z(4)]) (use z(1) in simp)
    then show "I y" using z \<open>st2 = None\<close> by (simp add: I_def y)
  qed
  then show "st = EFI_SUCCESS" using st by (simp add: I_def)
  with CoreConvertPages_keeps [OF s(1) L_def own run] show "page_inv t" "kept s t" "turned 7 (unat S) (unat S + unat n * 4096) s t"
    using r(1) by simp_all
qed

end

text \<open>Owned memory while other memory is allocated.\<close>

lemma owned_turned:
  assumes "owned s a b" "turned T c d s t" "T \<noteq> EfiConventional"
  shows "owned t a b"
  unfolding owned_def
proof (intro conjI ballI)
  show "allocated t x" if "x \<in> {a..<b}" for x
    using assms(1) turned_keeps [OF assms(2)] turnedD(1) [OF assms(2) _ assms(3)] that unfolding owned_def by blast
  have "l \<notin> {a..<b}" if "l \<in> stored t" for l using turnedD(6) [OF assms(2) that] assms(1,3) unfolding owned_def by blast
  then show "stored t \<inter> {a..<b} = {}" by blast
qed

lemma turned_owned: "turned T a b s t \<Longrightarrow> T \<noteq> EfiConventional \<Longrightarrow> owned t a b"
  unfolding owned_def using turned_allocates turnedD(5) by blast

subsection \<open>Alignment and locks\<close>

lemma page_alignment_page [simp]: "page_alignment T = 0x1000"
  by (simp add: page_alignment_def)

lemma round_pages_page [simp]: "round_pages 0x1000 n = n"
  by (simp add: round_pages_def EFI_SIZE_TO_PAGES_def)

lemma CoreAcquireMemoryLock_same:
  assumes "CoreAcquireMemoryLock E s = Some t"
  shows "same_map s t" "kept s t"
  using assms by (auto simp: CoreAcquireMemoryLock_def bind_eq_Some_conv same_map_def kept_def)

lemma CoreReleaseMemoryLock_same:
  assumes "CoreReleaseMemoryLock E s = Some t"
  shows "same_map s t" "kept s t"
  using assms by (auto simp: CoreReleaseMemoryLock_def bind_eq_Some_conv same_map_def kept_def)

lemma fits_address:
  assumes "page_inv s" "fits s n mn mx a"
  shows "a + n * 4096 < 2 ^ 64"
  using assms map_invD(3) unfolding fits_def page_inv_def range_ok_def by fastforce

text \<open>Between the two locks.\<close>

lemma turned_locked:
  assumes "same_map s s1" "turned T a b s1 t1" "same_map t1 t" "a \<le> b"
  shows "turned T a b s t"
  using turned_evolves [OF evolves_turned [OF same_map_evolves [OF assms(1)] assms(2,4)] same_map_evolves [OF assms(3)] assms(4)] .

subsection \<open>Allocation\<close>

lemma CoreConvertPages_guard:
  assumes "CoreConvertPages E F S n T s = Some (EFI_SUCCESS, t)"
  shows "n \<noteq> 0" "4096 dvd unat S" "S \<le> S + LShiftU64 n EFI_PAGE_SHIFT"
  using assms aligned_iff [of S 12]
  by (auto simp: CoreConvertPages_def bind_eq_Some_conv Let_def mask_eq_exp_minus_1 not_less split: if_splits)

lemma page_range_end_unat:
  assumes "S \<le> S + LShiftU64 n EFI_PAGE_SHIFT" "0 < unat n" "unat n < 2 ^ 52"
  shows "unat (S + LShiftU64 n EFI_PAGE_SHIFT - 1) + 1 = unat S + unat n * 4096"
proof -
  let ?N = "LShiftU64 n EFI_PAGE_SHIFT"
  have N: "unat ?N = unat n * 4096" by (rule LShiftU64_pages [OF assms(3)])
  have "unat S + unat ?N < 2 ^ 64"
  proof (rule ccontr)
    assume a: "\<not> unat S + unat ?N < 2 ^ 64"
    then have "unat (S + ?N) = unat S + unat ?N - 2 ^ 64"
      using unat_less_64 [of S] unat_less_64 [of ?N] by (simp add: unat_word_ariths mod_if)
    then show False using a assms(1) unat_less_64 [of ?N] unfolding word_le_nat_alt by simp
  qed
  then have x: "unat (S + ?N) = unat S + unat ?N" by (simp add: unat_add_noc)
  then have "S + ?N \<noteq> 0" using N assms(2) by (auto simp: word_unat_eq_iff)
  then show ?thesis unfolding unat_pred_inc using x N by simp
qed

abbreviation page_limit :: "int \<Rightarrow> uint64 \<Rightarrow> uint64" where
  "page_limit Ty M \<equiv> if Ty = AllocateMaxAddress then M else MAX_ADDRESS"

text \<open>The three ways through \<open>CoreAllocatePages\<close>: an early return, nothing found, and a conversion.\<close>

lemma CoreAllocatePages_cases:
  assumes run: "CoreAllocatePages E Ty T n M s = Some (st, B, t)" and s: "page_inv s"
  obtains (early) "t = s" "B = M" "st \<in> {EFI_INVALID_PARAMETER, EFI_NOT_FOUND}"
      "Ty \<notin> {AllocateAnyPages, AllocateMaxAddress, AllocateAddress} \<or> T = EfiConventional \<or> EfiMaxMemoryType \<le> T \<and> T \<le> 0x7fffffff \<or> Ty = AllocateAddress \<and> st = EFI_NOT_FOUND"
  | (none) s1 u where "same_map s s1" "Ty \<noteq> AllocateAddress" "FindFreePages E (FreeMapStack E) (page_limit Ty M) n T 0x1000 s1 = Some (0, u)"
      "same_map u t" "st = EFI_OUT_OF_RESOURCES" "B = M" "kept s s1" "kept u t"
  | (convert) s1 S u v where "same_map s s1" "Ty \<in> {AllocateAnyPages, AllocateMaxAddress, AllocateAddress}" "T \<noteq> EfiConventional"
      "if Ty = AllocateAddress then u = s1 \<and> S = M else FindFreePages E (FreeMapStack E) (page_limit Ty M) n T 0x1000 s1 = Some (S, u) \<and> S \<noteq> 0"
      "CoreConvertPages E (FreeMapStack E) S n T u = Some (st, v)" "same_map v t" "B = (if st = EFI_SUCCESS then S else M)" "kept s s1" "kept v t"
proof (cases "Ty < AllocateAnyPages \<or> Ty \<ge> MaxAllocateType \<or> EfiMaxMemoryType \<le> T \<and> T \<le> 0x7fffffff \<or> T = EfiConventional \<or>
    Ty = AllocateAddress \<and> M AND (0x1000 - 1) \<noteq> 0")
  case True
  then have "t = s \<and> B = M \<and> st \<in> {EFI_INVALID_PARAMETER, EFI_NOT_FOUND} \<and> (Ty \<notin> {AllocateAnyPages, AllocateMaxAddress, AllocateAddress} \<or> T = EfiConventional \<or>
      EfiMaxMemoryType \<le> T \<and> T \<le> 0x7fffffff \<or> Ty = AllocateAddress \<and> st = EFI_NOT_FOUND)"
    using run by (auto simp: CoreAllocatePages_def split: if_splits)
  then show ?thesis using early by blast
next
  case False
  have Ty: "Ty \<in> {AllocateAnyPages, AllocateMaxAddress, AllocateAddress}" using False by auto
  have "\<not> (Ty < 0 \<or> Ty \<ge> 3)" "\<not> (EfiMaxMemoryType \<le> T \<and> T \<le> 0x7fffffff \<or> T = EfiConventional)"
    "\<not> (Ty = AllocateAddress \<and> M AND (0x1000 - 1) \<noteq> 0)" using False by blast+
  then have "\<exists>s1 S u v. CoreAcquireMemoryLock E s = Some s1 \<and>
    (if Ty \<noteq> AllocateAddress then FindFreePages E (FreeMapStack E) (page_limit Ty M) n T 0x1000 s1 else Some (M, s1)) = Some (S, u) \<and>
    (if Ty \<noteq> AllocateAddress \<and> S = 0 then Some (EFI_OUT_OF_RESOURCES, u) else CoreConvertPages E (FreeMapStack E) S n T u) = Some (st, v) \<and>
    CoreReleaseMemoryLock E v = Some t \<and> B = (if EFI_ERROR st then M else S)"
    using run unfolding CoreAllocatePages_def page_alignment_page round_pages_page Let_def
    by (simp only: if_False bind_eq_Some_conv split_paired_Ex prod.case) blast
  then obtain s1 S u v where r: "CoreAcquireMemoryLock E s = Some s1"
    "(if Ty \<noteq> AllocateAddress then FindFreePages E (FreeMapStack E) (page_limit Ty M) n T 0x1000 s1 else Some (M, s1)) = Some (S, u)"
    "(if Ty \<noteq> AllocateAddress \<and> S = 0 then Some (EFI_OUT_OF_RESOURCES, u) else CoreConvertPages E (FreeMapStack E) S n T u) = Some (st, v)"
    "CoreReleaseMemoryLock E v = Some t" "B = (if EFI_ERROR st then M else S)" by (elim exE conjE) (rule that)
  note l = CoreAcquireMemoryLock_same [OF r(1)] CoreReleaseMemoryLock_same [OF r(4)]
  show ?thesis
  proof (cases "Ty \<noteq> AllocateAddress \<and> S = 0")
    case True
    then show ?thesis using none [of s1 u] l r by simp
  next
    case ne: False
    show ?thesis by (rule convert [OF l(1) Ty _ _ _ l(3) _ l(2,4), of u S]) (use r ne False in \<open>auto simp: EFI_ERROR_def\<close>)
  qed
qed

text \<open>A successful allocation.\<close>

lemma CoreAllocatePages_success:
  assumes s: "page_inv s" and run: "CoreAllocatePages E Ty T n M s = Some (EFI_SUCCESS, B, t)"
  shows "page_inv t" "kept s t" "T \<noteq> EfiConventional" "4096 dvd unat B" "0 < unat n" "\<exists>b. unat B \<le> b \<and> turned T (unat B) b s t"
    "unat n < 2 ^ 52 \<Longrightarrow> turned T (unat B) (unat B + unat n * 4096) s t"
    "unat n < 2 ^ 52 \<Longrightarrow> Ty = AllocateMaxAddress \<Longrightarrow> unat B + unat n * 4096 \<le> unat M + 1" "Ty = AllocateAddress \<Longrightarrow> B = M"
proof -
  have "page_inv t \<and> kept s t \<and> T \<noteq> EfiConventional \<and> 4096 dvd unat B \<and> 0 < unat n \<and> (\<exists>b. unat B \<le> b \<and> turned T (unat B) b s t) \<and>
    (unat n < 2 ^ 52 \<longrightarrow> turned T (unat B) (unat B + unat n * 4096) s t) \<and>
    (unat n < 2 ^ 52 \<longrightarrow> Ty = AllocateMaxAddress \<longrightarrow> unat B + unat n * 4096 \<le> unat M + 1) \<and> (Ty = AllocateAddress \<longrightarrow> B = M)"
    using run s
  proof (cases rule: CoreAllocatePages_cases)
    case (convert s1 S u v)
    have B: "B = S" using convert(7) by simp
    have s1: "page_inv s1" by (rule same_map_page_inv [OF convert(1) s])
    have u: "page_inv u \<and> evolves s1 u \<and> kept s1 u \<and> (unat n < 2 ^ 52 \<longrightarrow> Ty = AllocateMaxAddress \<longrightarrow> fits u (unat n) 0 (unat M) (unat S))"
      using convert(4) s1 evolves_refl fms.FindFreePages_keeps [OF _ s1] by (cases "Ty = AllocateAddress") (auto split: if_splits)
    note g = CoreConvertPages_guard [OF convert(5)]
    note k = fms.CoreConvertPages_keeps [OF _ refl _ convert(5)]
    have v: "page_inv v" "kept u v" "unat S \<le> unat (S + LShiftU64 n EFI_PAGE_SHIFT - 1) + 1"
      "turned T (unat S) (unat (S + LShiftU64 n EFI_PAGE_SHIFT - 1) + 1) u v" using k u convert(3) by auto
    have "evolves s u" using u evolves_trans [OF same_map_evolves [OF convert(1)]] by blast
    then have tt: "turned T (unat S) (unat (S + LShiftU64 n EFI_PAGE_SHIFT - 1) + 1) s t"
      using turned_evolves [OF evolves_turned [OF _ v(4,3)] same_map_evolves [OF convert(6)] v(3)] by blast
    have n: "0 < unat n" using g(1) by (simp add: unat_gt_0)
    have "kept s t" using u kept_trans [OF convert(8) kept_trans [OF _ kept_trans [OF v(2) convert(9)]]] by blast
    moreover have "unat B + unat n * 4096 \<le> unat M + 1" if "unat n < 2 ^ 52" "Ty = AllocateMaxAddress"
      using u that by (auto simp: fits_def B)
    moreover have "turned T (unat B) (unat B + unat n * 4096) s t" if "unat n < 2 ^ 52"
      using tt page_range_end_unat [OF g(3) n that] by (simp add: B)
    moreover have "\<exists>b. unat B \<le> b \<and> turned T (unat B) b s t" using tt v(3) B by blast
    ultimately show ?thesis using same_map_page_inv [OF convert(6) v(1)] convert(3,4) g(2) n B by simp
  qed simp_all
  then show "page_inv t" "kept s t" "T \<noteq> EfiConventional" "4096 dvd unat B" "0 < unat n" "\<exists>b. unat B \<le> b \<and> turned T (unat B) b s t"
    "unat n < 2 ^ 52 \<Longrightarrow> turned T (unat B) (unat B + unat n * 4096) s t"
    "unat n < 2 ^ 52 \<Longrightarrow> Ty = AllocateMaxAddress \<Longrightarrow> unat B + unat n * 4096 \<le> unat M + 1" "Ty = AllocateAddress \<Longrightarrow> B = M" by blast+
qed

text \<open>A failed one. Only an allocation at an address can convert part of the range; a search that fails leaves no room
  below the limit, except at address 0.\<close>

lemma CoreAllocatePages_failure:
  assumes s: "page_inv s" and run: "CoreAllocatePages E Ty T n M s = Some (st, B, t)" and st: "st \<noteq> EFI_SUCCESS"
  shows "page_inv t" "kept s t" "B = M" "\<exists>U a b. U \<noteq> EfiConventional \<and> a \<le> b \<and> turned U a b s t"
    "Ty \<noteq> AllocateAddress \<Longrightarrow> unat n < 2 ^ 52 \<Longrightarrow> evolves s t"
    "st = EFI_OUT_OF_RESOURCES \<Longrightarrow> unat n < 2 ^ 52 \<Longrightarrow> 0 < unat n \<Longrightarrow> fits t (unat n) 0 (unat (page_limit Ty M)) b \<Longrightarrow> b = 0"
proof -
  have "page_inv t \<and> kept s t \<and> B = M \<and> (\<exists>U a b. U \<noteq> EfiConventional \<and> a \<le> b \<and> turned U a b s t) \<and>
    (Ty \<noteq> AllocateAddress \<longrightarrow> unat n < 2 ^ 52 \<longrightarrow> evolves s t) \<and>
    (st = EFI_OUT_OF_RESOURCES \<longrightarrow> unat n < 2 ^ 52 \<longrightarrow> 0 < unat n \<longrightarrow> fits t (unat n) 0 (unat (page_limit Ty M)) b \<longrightarrow> b = 0)"
    using run s
  proof (cases rule: CoreAllocatePages_cases)
    case early
    have "st \<noteq> EFI_OUT_OF_RESOURCES" using early(3) by auto
    moreover have "\<exists>U a b. U \<noteq> EfiConventional \<and> a \<le> b \<and> turned U a b s s" using evolves_refl [of s] by (intro exI [of _ 0]) simp
    ultimately show ?thesis using early s evolves_refl [of s] by simp
  next
    case (none s1 u)
    have s1: "page_inv s1" by (rule same_map_page_inv [OF none(1) s])
    note f = fms.FindFreePages_keeps [OF none(3) s1]
    have e: "evolves s t" using f evolves_trans [OF evolves_trans [OF same_map_evolves [OF none(1)]] same_map_evolves [OF none(4)]] by blast
    then have "\<exists>U a b. U \<noteq> EfiConventional \<and> a \<le> b \<and> turned U a b s t" by (intro exI [of _ 0]) simp
    moreover have "kept s t" using f kept_trans [OF none(7) kept_trans [OF _ none(8)]] by blast
    ultimately show ?thesis using f e none(6) same_map_page_inv [OF none(4)] fits_same_map [OF none(4)] by simp
  next
    case (convert s1 S u v)
    have s1: "page_inv s1" by (rule same_map_page_inv [OF convert(1) s])
    have u: "page_inv u \<and> evolves s1 u \<and> kept s1 u \<and> (Ty \<noteq> AllocateAddress \<longrightarrow> unat n < 2 ^ 52 \<longrightarrow> 0 < unat n \<and> (\<exists>mx. fits u (unat n) 0 mx (unat S)))"
      using convert(4) s1 evolves_refl fms.FindFreePages_keeps [OF _ s1] by (cases "Ty = AllocateAddress") (auto, blast+)
    note k = fms.CoreConvertPages_keeps [OF _ refl _ convert(5)]
    obtain b where b: "unat S \<le> b" "turned T (unat S) b u v" and v: "page_inv v" "kept u v" "st \<in> {EFI_INVALID_PARAMETER, EFI_NOT_FOUND}"
      using k u convert(3) st turned_refl by (metis insertCI le_refl)
    have "evolves s u" using u evolves_trans [OF same_map_evolves [OF convert(1)]] by blast
    then have "turned T (unat S) b s t" using turned_evolves [OF evolves_turned [OF _ b(2,1)] same_map_evolves [OF convert(6)] b(1)] by blast
    then have "\<exists>U a b. U \<noteq> EfiConventional \<and> a \<le> b \<and> turned U a b s t" using b(1) convert(3) by blast
    moreover have "Ty = AllocateAddress \<or> \<not> unat n < 2 ^ 52"
      using fms.convert_fits(4) [OF _ _ convert(3,5)] u st by blast
    moreover have "kept s t" using u kept_trans [OF convert(8) kept_trans [OF _ kept_trans [OF v(2) convert(9)]]] by blast
    ultimately show ?thesis using same_map_page_inv [OF convert(6) v(1)] convert(7) st v(3) by auto
  qed
  then show "page_inv t" "kept s t" "B = M" "\<exists>U a b. U \<noteq> EfiConventional \<and> a \<le> b \<and> turned U a b s t"
    "Ty \<noteq> AllocateAddress \<Longrightarrow> unat n < 2 ^ 52 \<Longrightarrow> evolves s t"
    "st = EFI_OUT_OF_RESOURCES \<Longrightarrow> unat n < 2 ^ 52 \<Longrightarrow> 0 < unat n \<Longrightarrow> fits t (unat n) 0 (unat (page_limit Ty M)) b \<Longrightarrow> b = 0" by blast+
qed

subsection \<open>Release\<close>

lemma CoreFreePages_owned:
  assumes s: "page_inv s" "owned s (unat M) (unat M + unat n * 4096)" "0 < unat n" "4096 dvd unat M"
    and run: "CoreFreePages E M n s = Some (st, t)"
  shows "st = EFI_SUCCESS" "page_inv t" "kept s t" "turned EfiConventional (unat M) (unat M + unat n * 4096) s t"
proof -
  obtain s1 l st' v where r: "CoreAcquireMemoryLock E s = Some s1" "covering s1 M (gMemoryMap s1) = Some l" "CoreReleaseMemoryLock E v = Some t"
    "(if l = 0 then Some (EFI_NOT_FOUND, s1) else Option.bind (MapEntries s1 l) (\<lambda>Entry.
        if M AND (page_alignment (Type Entry) - 1) \<noteq> 0 then Some (EFI_INVALID_PARAMETER, s1)
        else CoreConvertPages E (FreeMapStack E) M (round_pages (page_alignment (Type Entry)) n) EfiConventional s1)) = Some (st, v)"
    using run unfolding CoreFreePages_def Let_def by (simp only: bind_eq_Some_conv split_paired_Ex prod.case option.inject prod.inject) blast
  note l = CoreAcquireMemoryLock_same [OF r(1)] CoreReleaseMemoryLock_same [OF r(3)]
  have s1: "page_inv s1" "owned s1 (unat M) (unat M + unat n * 4096)"
    using same_map_page_inv [OF l(1) s(1)] s(2) by (simp_all add: owned_def same_mapD [OF l(1)])
  have al: "allocated s1 (unat M)" using s1(2) s(3) by (simp add: owned_def)
  obtain k e where e: "mapped_at s1 k e" "Start e \<le> M" "M < End e" "Type e \<noteq> 7" "k \<noteq> 0" using allocated_entry [OF s1(1) al s(4)] by blast
  have "l = k" using covering_found [OF _ e(1-3)] s1(1) r(2) by (simp add: page_inv_def)
  moreover have "M AND (0x1000 - 1) = 0" using aligned_iff [of M 12] s(4) by (simp add: mask_eq_exp_minus_1)
  ultimately have c: "CoreConvertPages E (FreeMapStack E) M n EfiConventional s1 = Some (st, v)"
    using r(4) e(1,5) by (simp add: mapped_at_def)
  note w = fms.convert_owned [OF s1 s(3,4) c]
  show "st = EFI_SUCCESS" by (rule w(1))
  show "page_inv t" by (rule same_map_page_inv [OF l(3) w(2)])
  show "kept s t" by (rule kept_trans [OF l(2) kept_trans [OF w(3) l(4)]])
  show "turned 7 (unat M) (unat M + unat n * 4096) s t" by (rule turned_locked [OF l(1) w(4) l(3)]) simp
qed

end
