(* ===== verification/PageSystem.thy ===== *)
theory PageSystem
  imports PageServices
begin

unbundle bit_operations_syntax

section \<open>The page allocator as a system\<close>

text \<open>
  Sequences of calls of the memory services. A client frees memory that it owns, and memory that is added is not in
  the map yet; with that, every service keeps the invariant and respects what others own, whatever its outcome.
\<close>

subsection \<open>Respect for owners\<close>

definition undisturbed :: "'w mem \<Rightarrow> 'w mem \<Rightarrow> bool" where
  "undisturbed s t \<longleftrightarrow> (\<forall>x U A. (x, U, A) \<in> cells s \<longrightarrow> U \<noteq> EfiConventional \<longrightarrow> (x, U, A) \<in> cells t) \<and>
     (\<forall>l \<in> stored t. l \<in> stored s \<or> \<not> allocated s l)"

lemma undisturbed_refl: "undisturbed s s"
  by (simp add: undisturbed_def)

lemma undisturbed_allocated: "undisturbed s t \<Longrightarrow> allocated s x \<Longrightarrow> allocated t x"
  unfolding undisturbed_def allocated_def by blast

lemma undisturbed_trans: "undisturbed s t \<Longrightarrow> undisturbed t u \<Longrightarrow> undisturbed s u"
  using undisturbed_allocated [of s t] unfolding undisturbed_def by blast

lemma undisturbed_owned: "undisturbed s t \<Longrightarrow> owned s a b \<Longrightarrow> owned t a b"
  using undisturbed_allocated [of s t] unfolding undisturbed_def owned_def by blast

lemma turned_undisturbed: "turned T a b s t \<Longrightarrow> T \<noteq> EfiConventional \<Longrightarrow> undisturbed s t"
  unfolding undisturbed_def using turnedD(1) [of T a b s t] turnedD(3,6) [of T a b s t] by (meson allocatedI)

lemma evolves_undisturbed: "evolves s t \<Longrightarrow> undisturbed s t"
  by (rule turned_undisturbed [of 0]) simp_all

lemma same_map_undisturbed: "same_map s t \<Longrightarrow> undisturbed s t"
  by (rule evolves_undisturbed [OF same_map_evolves])

text \<open>A release affects those who did not own the range before.\<close>

lemma released_undisturbed:
  assumes "undisturbed s t" "turned EfiConventional a b t u" "\<And>x. x \<in> {a..<b} \<Longrightarrow> \<not> allocated s x"
  shows "undisturbed s u"
  unfolding undisturbed_def
proof (intro conjI allI impI ballI)
  show "(x, U, A) \<in> cells u" if "(x, U, A) \<in> cells s" "U \<noteq> 7" for x U A
  proof -
    have "x \<notin> {a..<b}" using assms(3) allocatedI that by blast
    moreover have "(x, U, A) \<in> cells t" using assms(1) that by (simp add: undisturbed_def)
    ultimately show ?thesis using turnedD(3) [OF assms(2)] that(2) by blast
  qed
  show "l \<in> stored s \<or> \<not> allocated s l" if "l \<in> stored u" for l
    using turnedD(6) [OF assms(2) that] assms(1,3) undisturbed_allocated [OF assms(1)] unfolding undisturbed_def by blast
qed

subsection \<open>Adding memory\<close>

definition addable :: "'w mem \<Rightarrow> nat \<Rightarrow> nat \<Rightarrow> bool" where
  "addable s a b \<longleftrightarrow> range_ok a b \<and> free_of (cells s) a b \<and>
     (\<forall>g \<in> set (mGcdMemorySpaceMap s). promotable g \<longrightarrow> {unat (BaseAddress g)..unat (EndAddress g)} \<inter> {a..<b} = {})"

lemma added_range:
  assumes s: "page_inv s" "addable s (unat S) (unat L + 1)" and run: "CoreAddRange E T S L A s = Some t"
  shows "page_inv t" "undisturbed s t" "cells t = cells s \<union> block (unat S) (unat L + 1) T A"
proof -
  have inv: "map_inv s" "ids_inv s" "stored_in (stored s) (cells s)" "promo_ok (mGcdMemorySpaceMap s) (cells s)"
    using s(1) by (simp_all add: page_inv_def)
  have r: "range_ok (unat S) (unat L + 1)" "free_of (cells s) (unat S) (unat L + 1)" using s(2) by (simp_all add: addable_def)
  note a = CoreAddRange_post [OF inv(1,2) r run]
  show "cells t = cells s \<union> block (unat S) (unat L + 1) T A" by (rule a(3))
  show "undisturbed s t" using a(3,5) by (auto simp: undisturbed_def)
  have "stored_in (stored t) (cells t)" using inv(3) a(3,5) unfolding stored_in_def by blast
  moreover have "promo_ok (mGcdMemorySpaceMap s) (cells t)"
  proof -
    have "free_of (cells t) (unat (BaseAddress g)) (unat (EndAddress g) + 1)"
      if g: "g \<in> set (mGcdMemorySpaceMap s)" "promotable g" "free_of (cells s) (unat (BaseAddress g)) (unat (EndAddress g) + 1)" for g
    proof -
      have "{unat (BaseAddress g)..unat (EndAddress g)} \<inter> {unat S..<unat L + 1} = {}" using s(2) g(1,2) by (simp add: addable_def)
      then show ?thesis using g(3) unfolding a(3) free_of_def block_def by fastforce
    qed
    then show ?thesis using inv(4) unfolding promo_ok_def by (simp add: nth_mem)
  qed
  ultimately show "page_inv t" using a(1,2,4) by (simp add: page_inv_def same_rest_def)
qed

lemma added_kept:
  assumes s: "page_inv s" "addable s (unat S) (unat L + 1)" and run: "CoreAddRange E T S L A s = Some t"
  shows "kept s t"
proof -
  have inv: "map_inv s" "ids_inv s" using s(1) by (simp_all add: page_inv_def)
  have r: "range_ok (unat S) (unat L + 1)" "free_of (cells s) (unat S) (unat L + 1)" using s(2) by (simp_all add: addable_def)
  show ?thesis using CoreAddRange_post(4) [OF inv r run] by (intro kept_same) (simp_all add: same_rest_def)
qed

text \<open>Services that fail, or whose outcome does not matter.\<close>

lemma CoreAllocatePages_undisturbed:
  assumes "page_inv s" "CoreAllocatePages E Ty T n M s = Some (st, B, t)"
  shows "page_inv t" "undisturbed s t" "kept s t"
proof -
  have "page_inv t \<and> undisturbed s t \<and> kept s t"
  proof (cases "st = EFI_SUCCESS")
    case True
    note a = CoreAllocatePages_success [OF assms(1) assms(2) [unfolded True]]
    show ?thesis using a(1-3,6) turned_undisturbed by blast
  next
    case False
    note a = CoreAllocatePages_failure [OF assms False]
    show ?thesis using a(1,2,4) turned_undisturbed by blast
  qed
  then show "page_inv t" "undisturbed s t" "kept s t" by blast+
qed

lemma ucast_pages: "unat (ucast (x :: uint32) :: uint64) < 2 ^ 52"
proof -
  have "unat (ucast x :: uint64) \<le> unat x" by (simp add: unsigned_ucast_eq take_bit_nat_less_eq_self)
  moreover have "unat x < 2 ^ 32" using unsigned_less [of x] by simp
  ultimately show ?thesis by simp
qed

lemma CoreLoadingFixedAddressHook_undisturbed:
  assumes s: "page_inv s" and run: "CoreLoadingFixedAddressHook E s = Some t"
  shows "page_inv t \<and> undisturbed s t \<and> kept s t"
proof (cases "gLoadFixedAddressCodeMemoryReady s")
  case True
  then show ?thesis using run s undisturbed_refl by (simp add: CoreLoadingFixedAddressHook_def)
next
  case False
  let ?n = "ucast (PcdLoadFixAddressRuntimeCodePageNumber E) :: uint64" and ?m = "ucast (PcdLoadFixAddressBootTimeCodePageNumber E) :: uint64"
  let ?R = "DxeCodeTopAddress E - ucast (push_bit 12 (PcdLoadFixAddressRuntimeCodePageNumber E))"
  let ?B = "?R - ucast (push_bit 12 (PcdLoadFixAddressBootTimeCodePageNumber E))"
  obtain st B u where u: "CoreAllocatePages E AllocateAddress EfiRuntimeServicesCode ?n ?R s = Some (st, B, u)"
    using run False by (auto simp: CoreLoadingFixedAddressHook_def bind_eq_Some_conv Let_def)
  note au = CoreAllocatePages_undisturbed [OF s u]
  show ?thesis
  proof (cases "st = EFI_SUCCESS")
    case False
    then have "t = u" using run u \<open>\<not> gLoadFixedAddressCodeMemoryReady s\<close> by (simp add: CoreLoadingFixedAddressHook_def Let_def EFI_ERROR_def)
    then show ?thesis using au by simp
  next
    case True
    then obtain st' B' v where v: "CoreAllocatePages E AllocateAddress EfiBootServicesCode ?m ?B u = Some (st', B', v)"
      "(if EFI_ERROR st' then map_option snd (CoreFreePages E B ?n v) else Some (v\<lparr>gLoadFixedAddressCodeMemoryReady := True\<rparr>)) = Some t"
      using run u \<open>\<not> gLoadFixedAddressCodeMemoryReady s\<close>
      by (auto simp: CoreLoadingFixedAddressHook_def bind_eq_Some_conv Let_def)
    note av = CoreAllocatePages_undisturbed [OF au(1) v(1)]
    note su = CoreAllocatePages_success [OF s u [unfolded True]]
    have sv: "undisturbed s v" by (rule undisturbed_trans [OF au(2) av(2)])
    show ?thesis
    proof (cases "st' = EFI_SUCCESS")
      case True
      then have t: "t = v\<lparr>gLoadFixedAddressCodeMemoryReady := True\<rparr>" using v(2) by simp
      have sm: "same_map v t" by (simp add: same_map_def t)
      have k: "kept v t" by (simp add: kept_def t)
      show ?thesis
        using same_map_page_inv [OF sm av(1)] undisturbed_trans [OF sv same_map_undisturbed [OF sm]] kept_trans [OF kept_trans [OF au(3) av(3)] k]
        by blast
    next
      case False
      then obtain st2 where f: "CoreFreePages E B ?n v = Some (st2, t)" using v(2) by (auto simp: EFI_ERROR_def)
      have tu: "turned EfiRuntimeServicesCode (unat B) (unat B + unat ?n * 4096) s u" using su(7) ucast_pages by blast
      have "owned v (unat B) (unat B + unat ?n * 4096)"
        by (rule undisturbed_owned [OF av(2) turned_owned [OF tu]]) simp
      note w = CoreFreePages_owned [OF av(1) this su(5,4) f]
      have "undisturbed s t" by (rule released_undisturbed [OF sv w(4)]) (use turnedD(1) [OF tu] in simp)
      then show ?thesis using w(2) kept_trans [OF kept_trans [OF au(3) av(3)] w(3)] by blast
    qed
  qed
qed

subsection \<open>The bins of the memory types\<close>

text \<open>While the bins are set up, \<open>H\<close> are the indexes whose bin is allocated and \<open>R\<close> those that are to come. No type may
  count its pages at one of these indexes yet.\<close>

abbreviation bin_lo :: "'w mem \<Rightarrow> int \<Rightarrow> nat" where
  "bin_lo s T \<equiv> unat (TypeBase (mMemoryTypeStatistics s (nat T)))"

definition held :: "'w mem \<Rightarrow> 'w mem \<Rightarrow> int \<Rightarrow> uint64 \<Rightarrow> bool" where
  "held s0 s T n \<longleftrightarrow> 4096 dvd bin_lo s T \<and> 0 < unat n \<and> owned s (bin_lo s T) (bin_lo s T + unat n * 4096) \<and>
     (\<forall>x \<in> {bin_lo s T..<bin_lo s T + unat n * 4096}. \<not> allocated s0 x)"

definition unused :: "nat set \<Rightarrow> 'w mem \<Rightarrow> 'w mem \<Rightarrow> bool" where
  "unused D s0 s \<longleftrightarrow> (\<forall>i \<in> D. i < length (gMemoryTypeInformation s) \<and> gMemoryTypeInformation s ! i = gMemoryTypeInformation s0 ! i \<and>
     (\<forall>k. InformationIndex (mMemoryTypeStatistics s k) \<noteq> i))"

definition bins_held :: "'w mem \<Rightarrow> nat set \<Rightarrow> nat set \<Rightarrow> 'w mem \<Rightarrow> bool" where
  "bins_held s0 H R s \<longleftrightarrow> page_inv s \<and> undisturbed s0 s \<and> unused (H \<union> R) s0 s \<and>
     map fst (gMemoryTypeInformation s) = map fst (gMemoryTypeInformation s0) \<and>
     (\<forall>i \<in> H. \<forall>T n. bin_of i s0 = Some (T, n) \<longrightarrow> held s0 s T n) \<and>
     (\<forall>i \<in> H. \<forall>j \<in> H. \<forall>T n U m. i \<noteq> j \<longrightarrow> bin_of i s0 = Some (T, n) \<longrightarrow> bin_of j s0 = Some (U, m) \<longrightarrow>
        {bin_lo s T..<bin_lo s T + unat n * 4096} \<inter> {bin_lo s U..<bin_lo s U + unat m * 4096} = {})"

definition bin_types_distinct :: "'w mem \<Rightarrow> nat set \<Rightarrow> bool" where
  "bin_types_distinct s D \<longleftrightarrow> (\<forall>i \<in> D. \<forall>j \<in> D. \<forall>T n U m. i \<noteq> j \<longrightarrow> bin_of i s = Some (T, n) \<longrightarrow> bin_of j s = Some (U, m) \<longrightarrow> T \<noteq> U)"

lemma bin_of_cong: "unused D s0 s \<Longrightarrow> i \<in> D \<Longrightarrow> bin_of i s = bin_of i s0"
  by (simp add: bin_of_def unused_def)

lemma bin_of_Some:
  assumes "bin_of i s = Some (T, n)"
  shows "0 \<le> T" "0 < unat n" "unat n < 2 ^ 52"
proof -
  obtain U m where g: "gMemoryTypeInformation s ! i = (U, m)" by (cases "gMemoryTypeInformation s ! i")
  then have m: "0 \<le> T" "n = ucast m" "m \<noteq> 0" using assms by (auto simp: bin_of_def split: if_splits)
  have "(ucast m :: uint64) \<noteq> 0" using m(3) by transfer (simp add: take_bit_eq_mod) 
  then show "0 \<le> T" "0 < unat n" "unat n < 2 ^ 52" using m ucast_pages [of m] by (simp_all add: unat_gt_0)
qed

lemma bin_types_distinctD:
  assumes "bin_types_distinct s D" "i \<in> D" "j \<in> D" "i \<noteq> j" "bin_of i s = Some (T, n)" "bin_of j s = Some (U, m)"
  shows "nat T \<noteq> nat U"
proof -
  have "T \<noteq> U" using assms(1) [unfolded bin_types_distinct_def, rule_format, OF assms(2-6)] .
  then show ?thesis using bin_of_Some(1) [OF assms(5)] bin_of_Some(1) [OF assms(6)] by simp
qed

lemma unused_kept: "unused D s0 s \<Longrightarrow> kept s t \<Longrightarrow> unused D s0 t"
  unfolding unused_def kept_def by metis

lemma kept_types: "kept s t \<Longrightarrow> map fst (gMemoryTypeInformation t) = map fst (gMemoryTypeInformation s)"
  by (auto simp: kept_def intro: nth_equalityI)

lemma held_undisturbed:
  assumes "held s0 s T n" "undisturbed s t" "bin_lo t T = bin_lo s T"
  shows "held s0 t T n"
  using assms(1) undisturbed_owned [OF assms(2)] unfolding held_def assms(3) by blast

lemma bins_heldD:
  assumes "bins_held s0 H R s" "i \<in> H" "bin_of i s0 = Some (T, n)"
  shows "held s0 s T n" "j \<in> H \<Longrightarrow> i \<noteq> j \<Longrightarrow> bin_of j s0 = Some (U, m) \<Longrightarrow>
    {bin_lo s T..<bin_lo s T + unat n * 4096} \<inter> {bin_lo s U..<bin_lo s U + unat m * 4096} = {}"
proof -
  show "held s0 s T n" using assms unfolding bins_held_def by blast
  have "\<forall>i \<in> H. \<forall>j \<in> H. \<forall>T n U m. i \<noteq> j \<longrightarrow> bin_of i s0 = Some (T, n) \<longrightarrow> bin_of j s0 = Some (U, m) \<longrightarrow>
      {bin_lo s T..<bin_lo s T + unat n * 4096} \<inter> {bin_lo s U..<bin_lo s U + unat m * 4096} = {}"
    using assms(1) unfolding bins_held_def by (elim conjE) assumption
  then show "j \<in> H \<Longrightarrow> i \<noteq> j \<Longrightarrow> bin_of j s0 = Some (U, m) \<Longrightarrow>
    {bin_lo s T..<bin_lo s T + unat n * 4096} \<inter> {bin_lo s U..<bin_lo s U + unat m * 4096} = {}"
    using assms(2,3) by blast
qed

lemma bins_held_step:
  assumes "bins_held s0 H R s" "page_inv t" "undisturbed s t" "kept s t"
  shows "bins_held s0 H R t"
proof -
  have lo: "bin_lo t T = bin_lo s T" for T using assms(4) by (simp add: kept_def)
  have "unused (H \<union> R) s0 t" using assms(1,4) unused_kept unfolding bins_held_def by blast
  moreover have "map fst (gMemoryTypeInformation t) = map fst (gMemoryTypeInformation s0)"
    using assms(1) kept_types [OF assms(4)] by (simp add: bins_held_def)
  moreover have "undisturbed s0 t" using assms(1,3) undisturbed_trans unfolding bins_held_def by blast
  ultimately show ?thesis
    using assms(1,2) held_undisturbed [OF _ assms(3) lo] unfolding bins_held_def lo by blast
qed

text \<open>A bin was allocated at \<open>B\<close>.\<close>

lemma bins_held_add:
  assumes h: "bins_held s0 H (insert i R) s" and d: "bin_types_distinct s0 (insert i (H \<union> R))" and i: "bin_of i s0 = Some (T, n)" "i \<notin> H"
    and t: "page_inv t" "turned T (unat B) (unat B + unat n * 4096) s t" "T \<noteq> EfiConventional" "kept s t" "4096 dvd unat B"
    and u: "same_map t u" "gMemoryTypeInformation u = gMemoryTypeInformation t"
      "\<And>k. InformationIndex (mMemoryTypeStatistics u k) = InformationIndex (mMemoryTypeStatistics t k)"
      "TypeBase (mMemoryTypeStatistics u (nat T)) = B" "\<And>k. k \<noteq> nat T \<Longrightarrow> TypeBase (mMemoryTypeStatistics u k) = TypeBase (mMemoryTypeStatistics t k)"
  shows "bins_held s0 (insert i H) R u"
proof -
  have st: "undisturbed s t" by (rule turned_undisturbed [OF t(2,3)])
  have ht: "bins_held s0 H (insert i R) t" by (rule bins_held_step [OF h t(1) st t(4)])
  have s0s: "undisturbed s0 s" using h by (simp add: bins_held_def)
  have lo: "bin_lo u U = bin_lo t U" if "j \<in> H" "bin_of j s0 = Some (U, m)" for j U m
  proof -
    have "j \<noteq> i" using that(1) i(2) by blast
    then have "nat U \<noteq> nat T" using bin_types_distinctD [OF d _ _ _ that(2) i(1)] that(1) by simp
    then show ?thesis using u(5) by simp
  qed
  have new: "\<not> allocated s x" if "x \<in> {unat B..<unat B + unat n * 4096}" for x using turnedD(1) [OF t(2) that t(3)] .
  have own: "owned u a b \<longleftrightarrow> owned t a b" for a b by (simp add: owned_def same_mapD [OF u(1)])
  have "held s0 u T n"
    unfolding held_def u(4) own using t(5) bin_of_Some(2) [OF i(1)] turned_owned [OF t(2,3)] new undisturbed_allocated [OF s0s] by blast
  moreover have "held s0 u U m" if "j \<in> H" "bin_of j s0 = Some (U, m)" for j U m
    using ht that unfolding bins_held_def held_def own lo [OF that] by blast
  ultimately have held: "held s0 u U m" if "j \<in> insert i H" "bin_of j s0 = Some (U, m)" for j U m
    using that i(1) by auto
  have dis: "{unat B..<unat B + unat n * 4096} \<inter> {bin_lo u U..<bin_lo u U + unat m * 4096} = {}" if j: "j \<in> H" "bin_of j s0 = Some (U, m)" for j U m
  proof -
    have "held s0 s U m" using h j unfolding bins_held_def by blast
    moreover have eq: "bin_lo u U = bin_lo s U" using lo [OF j] t(4) by (simp add: kept_def)
    ultimately show ?thesis unfolding eq using new unfolding held_def owned_def by blast
  qed
  have old: "{bin_lo u U..<bin_lo u U + unat m * 4096} \<inter> {bin_lo u V..<bin_lo u V + unat k * 4096} = {}"
    if "j \<in> H" "j' \<in> H" "j \<noteq> j'" "bin_of j s0 = Some (U, m)" "bin_of j' s0 = Some (V, k)" for j j' U m V k
    unfolding lo [OF that(1,4)] lo [OF that(2,5)] by (rule bins_heldD(2) [OF ht that(1,4,2,3,5)])
  have "unused (insert i H \<union> R) s0 u" using ht u(2,3) by (simp add: bins_held_def unused_def)
  moreover have "map fst (gMemoryTypeInformation u) = map fst (gMemoryTypeInformation s0)" using ht u(2) by (simp add: bins_held_def)
  moreover have "undisturbed s0 u" using undisturbed_trans [OF undisturbed_trans [OF s0s st] same_map_undisturbed [OF u(1)]] .
  moreover have "{bin_lo u U..<bin_lo u U + unat m * 4096} \<inter> {bin_lo u V..<bin_lo u V + unat k * 4096} = {}"
    if j: "j \<in> insert i H" "j' \<in> insert i H" "j \<noteq> j'" "bin_of j s0 = Some (U, m)" "bin_of j' s0 = Some (V, k)" for j j' U m V k
  proof -
    consider "j \<in> H" "j' \<in> H" | "j = i" "j' \<in> H" | "j' = i" "j \<in> H" using j(1-3) by blast
    then show ?thesis
    proof cases
      case 2
      then show ?thesis using dis [OF 2(2) j(5)] j(4) i(1) u(4) by simp
    next
      case 3
      then show ?thesis using dis [OF 3(2) j(4)] j(5) i(1) u(4) by (simp add: Int_commute)
    qed (rule old [OF _ _ j(3-5)])
  qed
  ultimately show ?thesis using same_map_page_inv [OF u(1) t(1)] held unfolding bins_held_def by blast
qed

text \<open>A bin is given back.\<close>

lemma bins_held_free:
  assumes h: "bins_held s0 (insert i H) R s" and d: "bin_types_distinct s0 (insert i H)" and i: "bin_of i s0 = Some (T, n)" "i \<notin> H"
    and run: "CoreFreePages E (TypeBase (mMemoryTypeStatistics s (nat T))) n s = Some (st, t)"
    and u: "same_map t u" "\<And>j. j \<noteq> i \<Longrightarrow> gMemoryTypeInformation u ! j = gMemoryTypeInformation t ! j"
      "map fst (gMemoryTypeInformation u) = map fst (gMemoryTypeInformation t)"
      "\<And>k. InformationIndex (mMemoryTypeStatistics u k) = InformationIndex (mMemoryTypeStatistics t k)"
      "\<And>k. k \<noteq> nat T \<Longrightarrow> TypeBase (mMemoryTypeStatistics u k) = TypeBase (mMemoryTypeStatistics t k)" and R: "i \<notin> R"
  shows "bins_held s0 H R u" "kept s t"
proof -
  have s: "page_inv s" "undisturbed s0 s" "held s0 s T n" "unused (insert i H \<union> R) s0 s" using h i(1) unfolding bins_held_def by blast+
  have hd: "owned s (bin_lo s T) (bin_lo s T + unat n * 4096)" "4096 dvd bin_lo s T" "0 < unat n"
    "\<And>x. x \<in> {bin_lo s T..<bin_lo s T + unat n * 4096} \<Longrightarrow> \<not> allocated s0 x" using s(3) by (simp_all add: held_def)
  note f = CoreFreePages_owned [OF s(1) hd(1,3,2) run]
  show "kept s t" by (rule f(3))
  have s0t: "undisturbed s0 t" by (rule released_undisturbed [OF s(2) f(4) hd(4)])
  have lo: "bin_lo u U = bin_lo s U" if "j \<in> H" "bin_of j s0 = Some (U, m)" for j U m
  proof -
    have "j \<noteq> i" using that(1) i(2) by blast
    then have "nat U \<noteq> nat T" using bin_types_distinctD [OF d _ _ _ that(2) i(1)] that(1) by simp
    then show ?thesis using u(5) f(3) by (simp add: kept_def)
  qed
  have own: "owned u a b \<longleftrightarrow> owned t a b" for a b by (simp add: owned_def same_mapD [OF u(1)])
  have held: "held s0 u U m" if j: "j \<in> H" "bin_of j s0 = Some (U, m)" for j U m
  proof -
    have o: "held s0 s U m" using bins_heldD(1) [OF h _ j(2)] j(1) by simp
    have dis: "{bin_lo s T..<bin_lo s T + unat n * 4096} \<inter> {bin_lo s U..<bin_lo s U + unat m * 4096} = {}"
      using bins_heldD(2) [OF h _ i(1) _ _ j(2)] i(2) j(1) by blast
    have "owned t (bin_lo s U) (bin_lo s U + unat m * 4096)"
      unfolding owned_def
    proof (intro conjI ballI)
      show "allocated t x" if x: "x \<in> {bin_lo s U..<bin_lo s U + unat m * 4096}" for x
        by (rule turned_keeps [OF f(4)]) (use o x dis in \<open>auto simp: held_def owned_def\<close>)
      have "l \<notin> {bin_lo s U..<bin_lo s U + unat m * 4096}" if "l \<in> stored t" for l
        using turnedD(6) [OF f(4) that] o dis unfolding held_def owned_def by blast
      then show "stored t \<inter> {bin_lo s U..<bin_lo s U + unat m * 4096} = {}" by blast
    qed
    then show ?thesis using o unfolding held_def own lo [OF j] by blast
  qed
  have old: "{bin_lo u U..<bin_lo u U + unat m * 4096} \<inter> {bin_lo u V..<bin_lo u V + unat k * 4096} = {}"
    if "j \<in> H" "j' \<in> H" "j \<noteq> j'" "bin_of j s0 = Some (U, m)" "bin_of j' s0 = Some (V, k)" for j j' U m V k
    unfolding lo [OF that(1,4)] lo [OF that(2,5)] using bins_heldD(2) [OF h _ that(4) _ that(3,5)] that(1,2) by simp
  have len: "length (gMemoryTypeInformation u) = length (gMemoryTypeInformation t)" using u(3) by (rule map_eq_imp_length_eq)
  have types: "map fst (gMemoryTypeInformation u) = map fst (gMemoryTypeInformation s0)"
    using h u(3) kept_types [OF f(3)] by (simp add: bins_held_def)
  have "unused (H \<union> R) s0 u"
    unfolding unused_def
  proof (intro ballI)
    fix j assume j: "j \<in> H \<union> R"
    then have "j \<noteq> i" using i(2) R by blast
    then show "j < length (gMemoryTypeInformation u) \<and> gMemoryTypeInformation u ! j = gMemoryTypeInformation s0 ! j \<and>
        (\<forall>k. InformationIndex (mMemoryTypeStatistics u k) \<noteq> j)"
      using unused_kept [OF s(4) f(3)] j u(2) [of j] u(4) len by (simp add: unused_def)
  qed
  then show "bins_held s0 H R u"
    using held old types same_map_page_inv [OF u(1) f(2)] undisturbed_trans [OF s0t same_map_undisturbed [OF u(1)]] unfolding bins_held_def by blast
qed

lemma bins_held_skip: "bins_held s0 H (insert i R) s \<Longrightarrow> bin_of i s0 = None \<Longrightarrow> bins_held s0 (insert i H) R s"
  unfolding bins_held_def by (simp add: insert_commute)

lemma bins_held_drop: "bins_held s0 (insert i H) R s \<Longrightarrow> bins_held s0 H R s"
  unfolding bins_held_def unused_def by blast

lemma bin_types_distinct_mono: "bin_types_distinct s D \<Longrightarrow> C \<subseteq> D \<Longrightarrow> bin_types_distinct s C"
  unfolding bin_types_distinct_def by blast

lemma undo_bins_held:
  assumes "undo_bins E is s = Some t" "bins_held s0 (set is) R s" "distinct is" "bin_types_distinct s0 (set is)" "set is \<inter> R = {}"
    and "unused D s0 s"
  shows "bins_held s0 {} R t \<and> unused D s0 t"
  using assms
proof (induction "is" arbitrary: s)
  case (Cons i js)
  have b: "bin_of i s = bin_of i s0" using Cons.prems(2) by (intro bin_of_cong [of "set (i # js) \<union> R"]) (simp_all add: bins_held_def)
  have d: "bin_types_distinct s0 (set js)" by (rule bin_types_distinct_mono [OF Cons.prems(4)]) auto
  show ?case
  proof (cases "bin_of i s0")
    case None
    have "bins_held s0 (set js) R s" using bins_held_drop [of s0 i "set js" R s] Cons.prems(2) by simp
    then show ?thesis using Cons.IH [of s] Cons.prems(1,3,5,6) b None d by simp
  next
    case (Some p)
    obtain T n where p: "p = (T, n)" by (cases p)
    obtain st u where u: "CoreFreePages E (TypeBase (mMemoryTypeStatistics s (nat T))) n s = Some (st, u)"
      "undo_bins E js (upd_stat T (\<lambda>st. st\<lparr>TypeBase := 0, MaximumAddress := MAX_ADDRESS\<rparr>) u) = Some t"
      using Cons.prems(1) Some b by (auto simp: p bind_eq_Some_conv)
    let ?u = "upd_stat T (\<lambda>st. st\<lparr>TypeBase := 0, MaximumAddress := MAX_ADDRESS\<rparr>) u"
    have h: "bins_held s0 (insert i (set js)) R s" "bin_types_distinct s0 (insert i (set js))" "bin_of i s0 = Some (T, n)" "i \<notin> set js" "i \<notin> R"
      using Cons.prems Some p by auto
    have f: "bins_held s0 (set js) R ?u" "kept s u"
      using bins_held_free [OF h(1-4) u(1), of ?u] h(5) by (simp_all add: upd_stat_def same_map_def)
    have "unused D s0 ?u" using unused_kept [OF Cons.prems(6) f(2)] by (simp add: unused_def upd_stat_def)
    then show ?thesis using Cons.IH [OF u(2) f(1)] Cons.prems(3,5) d by simp
  qed
qed simp

lemma free_bins_held:
  assumes "free_bins E is s = Some t" "bins_held s0 (set is) R s" "distinct is" "bin_types_distinct s0 (set is)" "set is \<inter> R = {}"
  shows "bins_held s0 {} R t"
  using assms
proof (induction "is" arbitrary: s)
  case (Cons i js)
  have b: "bin_of i s = bin_of i s0" using Cons.prems(2) by (intro bin_of_cong [of "set (i # js) \<union> R"]) (simp_all add: bins_held_def)
  have d: "bin_types_distinct s0 (set js)" by (rule bin_types_distinct_mono [OF Cons.prems(4)]) auto
  show ?case
  proof (cases "bin_of i s0")
    case None
    have "bins_held s0 (set js) R s" using bins_held_drop [of s0 i "set js" R s] Cons.prems(2) by simp
    then show ?thesis using Cons.IH [of s] Cons.prems(1,3,5) b None d by simp
  next
    case (Some p)
    obtain T n where p: "p = (T, n)" by (cases p)
    define g where "g = (\<lambda>u :: 'a mem. (let s = upd_stat T (\<lambda>st. st\<lparr>NumberOfPages := ucast (snd (gMemoryTypeInformation u ! i))\<rparr>) u in
      s\<lparr>gMemoryTypeInformation := (gMemoryTypeInformation s)[i := (fst (gMemoryTypeInformation s ! i), 0)]\<rparr>))"
    obtain st u where u: "CoreFreePages E (TypeBase (mMemoryTypeStatistics s (nat T))) n s = Some (st, u)" "free_bins E js (g u) = Some t"
      using Cons.prems(1) Some b by (auto simp: p bind_eq_Some_conv g_def Let_def)
    have "bins_held s0 (set js) R (g u)"
    proof (rule bins_held_free(1) [OF _ _ _ _ u(1)])
      show "bins_held s0 (insert i (set js)) R s" "bin_types_distinct s0 (insert i (set js))" "bin_of i s0 = Some (T, n)" "i \<notin> set js" "i \<notin> R"
        using Cons.prems Some p by auto
      show "map fst (gMemoryTypeInformation (g u)) = map fst (gMemoryTypeInformation u)"
        by (rule nth_equalityI) (simp_all add: g_def upd_stat_def Let_def fst_list_update)
    qed (simp_all add: g_def Let_def upd_stat_def same_map_def)
    then show ?thesis using Cons.IH [OF u(2)] Cons.prems(3,5) d by simp
  qed
qed simp

lemma alloc_bins_held:
  assumes "alloc_bins E [i..<m] s = Some (ok, t)" "bins_held s0 {0..<i} {i..<m} s" "bin_types_distinct s0 {0..<m}" "i \<le> m"
  shows "if ok then bins_held s0 {0..<m} {} t else bins_held s0 {} {} t \<and> unused {0..<m} s0 t"
  using assms(1,2,4)
proof (induction "m - i" arbitrary: i s)
  case 0
  then show ?case by simp
next
  case (Suc k)
  then have im: "i < m" by simp
  have R: "{i..<m} = insert i {Suc i..<m}" "{0..<Suc i} = insert i {0..<i}" using im by auto
  have h: "bins_held s0 {0..<i} (insert i {Suc i..<m}) s" using Suc.prems(2) R by simp
  have b: "bin_of i s = bin_of i s0" using h by (intro bin_of_cong [of "{0..<i} \<union> insert i {Suc i..<m}"]) (simp_all add: bins_held_def)
  have IH: "if ok then bins_held s0 {0..<m} {} t else bins_held s0 {} {} t \<and> unused {0..<m} s0 t"
    if "alloc_bins E [Suc i..<m] u = Some (ok, t)" "bins_held s0 {0..<Suc i} {Suc i..<m} u" for u
    using Suc.hyps(1) [OF _ that] Suc.hyps(2) im by simp
  show ?case
  proof (cases "bin_of i s0")
    case None
    then show ?thesis using IH [of s] Suc.prems(1) b bins_held_skip [OF h] im R(2) by (simp add: upt_conv_Cons)
  next
    case (Some p)
    obtain T n where p: "p = (T, n)" by (cases p)
    have i: "bin_of i s0 = Some (T, n)" using Some p by simp
    obtain st B u where u: "CoreAllocatePages E AllocateAnyPages T n (TypeBase (mMemoryTypeStatistics s (nat T))) s = Some (st, B, u)"
      using Suc.prems(1) im b i by (auto simp: upt_conv_Cons bind_eq_Some_conv split: prod.splits)
    have s: "page_inv s" "undisturbed s0 s" using h by (simp_all add: bins_held_def)
    note a = CoreAllocatePages_undisturbed [OF s(1) u]
    show ?thesis
    proof (cases "st = EFI_SUCCESS")
      case False
      then have r: "undo_bins E [0..<i] u = Some t" "\<not> ok"
        using Suc.prems(1) im b i u by (auto simp: upt_conv_Cons bind_eq_Some_conv EFI_ERROR_def)
      have hu: "bins_held s0 {0..<i} (insert i {Suc i..<m}) u" by (rule bins_held_step [OF h a])
      have "{0..<i} \<union> insert i {Suc i..<m} = {0..<m}" using im by auto
      then have "unused {0..<m} s0 u" using hu by (simp add: bins_held_def)
      moreover have "bin_types_distinct s0 {0..<i}" using im by (intro bin_types_distinct_mono [OF assms(3)]) auto
      ultimately have "bins_held s0 {} (insert i {Suc i..<m}) t \<and> unused {0..<m} s0 t" using undo_bins_held [OF r(1), of s0 "insert i {Suc i..<m}"] hu by simp
      then show ?thesis using r(2) by (simp add: bins_held_def unused_def)
    next
      case True
      let ?f = "\<lambda>st. st\<lparr>TypeBase := B, MaximumAddress := B + LShiftU64 (ucast (snd (gMemoryTypeInformation u ! i))) EFI_PAGE_SHIFT - 1\<rparr>"
      define v where "v = (let s = upd_stat T ?f u in if B < mDefaultMaximumAddress s then s\<lparr>mDefaultMaximumAddress := B - 1\<rparr> else s)"
      have r: "alloc_bins E [Suc i..<m] v = Some (ok, t)"
        using Suc.prems(1) im b i u True by (simp add: upt_conv_Cons v_def Let_def)
      note ok = CoreAllocatePages_success [OF s(1) u [unfolded True]]
      have "bins_held s0 (insert i {0..<i}) {Suc i..<m} v"
      proof (rule bins_held_add [OF h _ i _ ok(1) ok(7) ok(3) ok(2) ok(4)])
        show "bin_types_distinct s0 (insert i ({0..<i} \<union> {Suc i..<m}))" using im by (intro bin_types_distinct_mono [OF assms(3)]) auto
        show "unat n < 2 ^ 52" by (rule bin_of_Some(3) [OF i])
      qed (simp_all add: v_def upd_stat_def Let_def same_map_def)
      then show ?thesis using IH [OF r] R(2) by simp
    qed
  qed
qed

lemma information_indexes_upt: "information_indexes s = [0..<length (information_indexes s)]"
proof -
  let ?P = "\<lambda>i. fst (gMemoryTypeInformation s ! i) \<noteq> EfiMaxMemoryType" and ?n = "length (gMemoryTypeInformation s)"
  have "takeWhile ?P [0..<?n] = take (length (takeWhile ?P [0..<?n])) [0..<?n]" by (rule takeWhile_eq_take)
  moreover have "length (takeWhile ?P [0..<?n]) \<le> ?n" using length_takeWhile_le [of ?P "[0..<?n]"] by simp
  ultimately show ?thesis by (simp add: information_indexes_def take_upt)
qed

lemma information_indexes_types:
  assumes "map fst (gMemoryTypeInformation t) = map fst (gMemoryTypeInformation s)"
  shows "information_indexes t = information_indexes s"
proof -
  have len: "length (gMemoryTypeInformation t) = length (gMemoryTypeInformation s)" using assms by (rule map_eq_imp_length_eq)
  have "fst (gMemoryTypeInformation t ! i) = fst (gMemoryTypeInformation s ! i)" if "i < length (gMemoryTypeInformation s)" for i
    using arg_cong [OF assms, of "\<lambda>l. l ! i"] that len by simp
  then show ?thesis unfolding information_indexes_def len by (intro takeWhile_cong) auto
qed

text \<open>What the platform has to provide: no type is listed twice, and no type counts at an index before the bins are set up.\<close>

definition bins_ready :: "'w mem \<Rightarrow> bool" where
  "bins_ready s \<longleftrightarrow> mMemoryTypeInformationInitialized s \<or>
     bin_types_distinct s (set (information_indexes s)) \<and> unused (set (information_indexes s)) s s"

lemma bins_ready_kept:
  assumes "bins_ready s" "kept s t"
  shows "bins_ready t"
proof (cases "mMemoryTypeInformationInitialized s")
  case True
  then show ?thesis using assms(2) by (simp add: bins_ready_def kept_def)
next
  case False
  let ?D = "set (information_indexes s)"
  have r: "bin_types_distinct s ?D" "unused ?D s s" using assms(1) False by (simp_all add: bins_ready_def)
  have D: "information_indexes t = information_indexes s" by (rule information_indexes_types [OF kept_types [OF assms(2)]])
  have u: "unused ?D s t" by (rule unused_kept [OF r(2) assms(2)])
  then have "bin_types_distinct t ?D" using r(1) bin_of_cong [OF u] unfolding bin_types_distinct_def by simp
  moreover have "unused ?D t t" using u by (simp add: unused_def)
  ultimately show ?thesis by (simp add: bins_ready_def D)
qed

text \<open>The last part of \<open>CoreAddMemoryDescriptor\<close>.\<close>

lemma set_up_bins_undisturbed:
  assumes s: "page_inv s" "bins_ready s" "\<not> mMemoryTypeInformationInitialized s" and run: "alloc_bins E (information_indexes s) s = Some (ok, t)"
  shows "\<not> ok \<Longrightarrow> page_inv t \<and> undisturbed s t \<and> bins_ready t" "ok \<Longrightarrow> free_bins E (information_indexes t) t = Some u \<Longrightarrow> page_inv u \<and> undisturbed s u"
proof -
  obtain m where D: "information_indexes s = [0..<m]" using information_indexes_upt by blast
  have r: "bin_types_distinct s {0..<m}" "unused {0..<m} s s" using s(2,3) by (simp_all add: bins_ready_def D)
  have h: "bins_held s {0..<0} {0..<m} s" using s(1) r(2) undisturbed_refl by (simp add: bins_held_def)
  have a: "if ok then bins_held s {0..<m} {} t else bins_held s {} {} t \<and> unused {0..<m} s t"
    by (rule alloc_bins_held [OF run [unfolded D] h r(1)]) simp
  show "page_inv t \<and> undisturbed s t \<and> bins_ready t" if "\<not> ok"
  proof -
    have b: "bins_held s {} {} t" "unused {0..<m} s t" using a that by simp_all
    have "information_indexes t = [0..<m]" using b(1) D by (subst information_indexes_types [of t s]) (simp_all add: bins_held_def)
    moreover have "bin_types_distinct t {0..<m}" using r(1) bin_of_cong [OF b(2)] by (simp add: bin_types_distinct_def)
    moreover have "unused {0..<m} t t" using b(2) by (simp add: unused_def)
    ultimately show ?thesis using b(1) by (simp add: bins_ready_def bins_held_def)
  qed
  assume ok: ok and f: "free_bins E (information_indexes t) t = Some u"
  have b: "bins_held s {0..<m} {} t" using a ok by simp
  then have "information_indexes t = information_indexes s" by (intro information_indexes_types) (simp add: bins_held_def)
  then have "free_bins E [0..<m] t = Some u" using f D by simp
  then have "bins_held s {} {} u" by (rule free_bins_held) (use b r(1) in simp_all)
  then show "page_inv u \<and> undisturbed s u" by (simp add: bins_held_def)
qed

lemma default_bins_same: "same_map s (fold default_bin ts s)"
  by (induction ts arbitrary: s) (auto intro: same_map_trans simp: default_bin_def upd_stat_def same_map_def)

lemma CoreAddMemoryDescriptor_undisturbed:
  assumes s: "page_inv s" "bins_ready s" and a: "addable s (unat S) (unat S + unat n * 4096)"
    and run: "CoreAddMemoryDescriptor E T S n A s = Some t"
  shows "page_inv t \<and> undisturbed s t \<and> bins_ready t"
proof (cases "S AND EFI_PAGE_MASK \<noteq> 0 \<or> EfiMaxMemoryType \<le> T \<and> T \<le> 0x7fffffff")
  case True
  then show ?thesis using run s undisturbed_refl by (simp add: CoreAddMemoryDescriptor_def)
next
  case False
  let ?L = "S + LShiftU64 n EFI_PAGE_SHIFT - 1"
  have ok: "range_ok (unat S) (unat S + unat n * 4096)" using a by (simp add: addable_def)
  then have n: "4096 dvd unat S" "0 < unat n" "unat S + unat n * 4096 < 2 ^ 64" by (auto simp: range_ok_def)
  note L = page_range_unat [OF n(1,2) order_refl n(3) refl]
  obtain s1 s2 s3 s4 s5 where r: "CoreAcquireMemoryLock E s = Some s1" "CoreAddRange E T S ?L A s1 = Some s2" "FreeMapStack E s2 = Some s3"
    "CoreReleaseMemoryLock E s3 = Some s4"
    "(if PcdLoadModuleAtFixAddressEnable E then CoreLoadingFixedAddressHook E s4 else Some s4) = Some s5"
    "(if mMemoryTypeInformationInitialized s5 then Some s5 else Option.bind (alloc_bins E (information_indexes s5) s5) (\<lambda>(ok, s).
        if \<not> ok then Some s else Option.bind (free_bins E (information_indexes s) s) (\<lambda>s.
          Some ((fold default_bin [0..<14] s)\<lparr>mMemoryTypeInformationInitialized := True\<rparr>)))) = Some t"
    using run False unfolding CoreAddMemoryDescriptor_def by (simp only: if_False bind_eq_Some_conv) blast
  note l = CoreAcquireMemoryLock_same [OF r(1)] CoreReleaseMemoryLock_same [OF r(4)]
  have s1: "page_inv s1" "addable s1 (unat S) (unat ?L + 1)"
    using same_map_page_inv [OF l(1) s(1)] a L(1) by (simp_all add: addable_def same_mapD [OF l(1)])
  note a2 = added_range [OF s1 r(2)]
  have k2: "kept s1 s2" by (rule added_kept [OF s1 r(2)])
  have a3: "page_inv s3" "evolves s2 s3" "kept s2 s3" using fms.F_keeps [OF r(3) a2(1)] by blast+
  have s4: "page_inv s4" "undisturbed s s4" "kept s s4"
    using same_map_page_inv [OF l(3) a3(1)] kept_trans [OF l(2) kept_trans [OF k2 kept_trans [OF a3(3) l(4)]]]
      undisturbed_trans [OF same_map_undisturbed [OF l(1)] undisturbed_trans [OF a2(2) undisturbed_trans [OF evolves_undisturbed [OF a3(2)] same_map_undisturbed [OF l(3)]]]]
    by blast+
  have s5: "page_inv s5" "undisturbed s s5" "kept s4 s5"
    using r(5) s4 CoreLoadingFixedAddressHook_undisturbed [OF s4(1)] undisturbed_trans [OF s4(2)] by (auto split: if_splits)
  have ready: "bins_ready s5" by (rule bins_ready_kept [OF s(2) kept_trans [OF s4(3) s5(3)]])
  show ?thesis
  proof (cases "mMemoryTypeInformationInitialized s5")
    case True
    then show ?thesis using r(6) s5 ready by simp
  next
    case False
    then obtain ok v where v: "alloc_bins E (information_indexes s5) s5 = Some (ok, v)" using r(6) by (auto simp: bind_eq_Some_conv)
    note b = set_up_bins_undisturbed [OF s5(1) ready False v]
    show ?thesis
    proof (cases ok)
      case True
      then obtain w where w: "free_bins E (information_indexes v) v = Some w"
        "t = (fold default_bin [0..<14] w)\<lparr>mMemoryTypeInformationInitialized := True\<rparr>" using r(6) False v by (auto simp: bind_eq_Some_conv)
      have "same_map w t" using default_bins_same [where s = w and ts = "[0..<14]"] by (simp add: same_map_def w(2))
      moreover have "bins_ready t" by (simp add: bins_ready_def w(2))
      ultimately show ?thesis
        using b(2) [OF True w(1)] same_map_page_inv [of w t] undisturbed_trans [OF s5(2) undisturbed_trans [of s5 w t]] same_map_undisturbed [of w t]
        by blast
    next
      case False
      then show ?thesis using r(6) \<open>\<not> mMemoryTypeInformationInitialized s5\<close> v b(1) undisturbed_trans [OF s5(2)] by simp
    qed
  qed
qed

subsection \<open>Calls\<close>

datatype page_op =
    Allocate int int uint64 uint64
  | Release uint64 uint64
  | AddMemory int uint64 uint64 uint64
  | GetMap "uint64 option" bool
  | ExitBoot uint64

fun run_page_op :: "'w mem_env \<Rightarrow> page_op \<Rightarrow> 'w mem \<Rightarrow> 'w mem option" where
  "run_page_op E (Allocate Ty T n M) s = map_option (\<lambda>(_, _, s). s) (CoreAllocatePages E Ty T n M s)"
| "run_page_op E (Release M n) s = map_option snd (CoreFreePages E M n s)"
| "run_page_op E (AddMemory T S n A) s = CoreAddMemoryDescriptor E T S n A s"
| "run_page_op E (GetMap sz buf) s = map_option (\<lambda>(_, _, _, _, s). s) (CoreGetMemoryMap E sz buf s)"
| "run_page_op E (ExitBoot k) s = map_option snd (CoreTerminateMemoryMap E k s)"

text \<open>What a caller has to observe.\<close>

fun page_op_ok :: "page_op \<Rightarrow> 'w mem \<Rightarrow> bool" where
  "page_op_ok (Release M n) s \<longleftrightarrow> 4096 dvd unat M \<and> 0 < unat n \<and> owned s (unat M) (unat M + unat n * 4096)"
| "page_op_ok (AddMemory T S n A) s \<longleftrightarrow> addable s (unat S) (unat S + unat n * 4096)"
| "page_op_ok _ s \<longleftrightarrow> True"

fun released :: "page_op \<Rightarrow> nat set" where
  "released (Release M n) = {unat M..<unat M + unat n * 4096}"
| "released _ = {}"

definition page_ready :: "'w mem \<Rightarrow> bool" where
  "page_ready s \<longleftrightarrow> page_inv s \<and> bins_ready s"

lemma CoreGetMemoryMap_same:
  assumes "CoreGetMemoryMap E sz buf s = Some (st, sz', ds, k, t)"
  shows "same_map s t" "kept s t"
  using assms
  by (auto simp: CoreGetMemoryMap_def CoreAcquireMemoryLock_def CoreReleaseMemoryLock_def bind_eq_Some_conv Let_def same_map_def kept_def
    split: option.splits if_splits)

lemma CoreTerminateMemoryMap_same:
  assumes "CoreTerminateMemoryMap E k s = Some (st, t)"
  shows "same_map s t" "kept s t"
  using assms
  by (auto simp: CoreTerminateMemoryMap_def CoreAcquireMemoryLock_def CoreReleaseMemoryLock_def bind_eq_Some_conv same_map_def kept_def
    split: if_splits)

text \<open>One call: the invariant, and what it leaves alone.\<close>

lemma run_page_op_keeps:
  assumes s: "page_ready s" "page_op_ok op s" and run: "run_page_op E op s = Some t"
  shows "page_ready t" "(x, U, A) \<in> cells s \<Longrightarrow> U \<noteq> EfiConventional \<Longrightarrow> x \<notin> released op \<Longrightarrow> (x, U, A) \<in> cells t"
    "l \<in> stored t \<Longrightarrow> l \<in> stored s \<or> \<not> allocated s l \<or> l \<in> released op"
proof -
  have p: "page_inv s" "bins_ready s" using s(1) by (simp_all add: page_ready_def)
  have un: "page_ready t \<and> undisturbed s t \<Longrightarrow> page_ready t \<and> (\<forall>x U A. (x, U, A) \<in> cells s \<longrightarrow> U \<noteq> EfiConventional \<longrightarrow> x \<notin> released op \<longrightarrow>
      (x, U, A) \<in> cells t) \<and> (\<forall>l \<in> stored t. l \<in> stored s \<or> \<not> allocated s l \<or> l \<in> released op)"
    unfolding undisturbed_def by blast
  have same: "page_ready t \<and> undisturbed s t" if "same_map s t" "kept s t"
    using same_map_page_inv [OF that(1) p(1)] bins_ready_kept [OF p(2) that(2)] same_map_undisturbed [OF that(1)] by (simp add: page_ready_def)
  have "page_ready t \<and> (\<forall>x U A. (x, U, A) \<in> cells s \<longrightarrow> U \<noteq> EfiConventional \<longrightarrow> x \<notin> released op \<longrightarrow> (x, U, A) \<in> cells t) \<and>
    (\<forall>l \<in> stored t. l \<in> stored s \<or> \<not> allocated s l \<or> l \<in> released op)"
  proof (cases op)
    case (Allocate Ty T n M)
    then obtain st B where "CoreAllocatePages E Ty T n M s = Some (st, B, t)" using run by auto
    from CoreAllocatePages_undisturbed [OF p(1) this] bins_ready_kept [OF p(2)] show ?thesis by (intro un) (simp add: page_ready_def)
  next
    case (Release M n)
    then obtain st where f: "CoreFreePages E M n s = Some (st, t)" using run by auto
    have ok: "4096 dvd unat M" "0 < unat n" "owned s (unat M) (unat M + unat n * 4096)" using s(2) Release by simp_all
    note c = CoreFreePages_owned [OF p(1) ok(3,2,1) f]
    show ?thesis using c(2) bins_ready_kept [OF p(2) c(3)] turnedD(3,6) [OF c(4)] by (simp add: page_ready_def Release) blast
  next
    case (AddMemory T S n A)
    then show ?thesis using CoreAddMemoryDescriptor_undisturbed [OF p, of S n E T A t] s(2) run by (intro un) (simp add: page_ready_def)
  next
    case (GetMap sz buf)
    then obtain st sz' ds k where "CoreGetMemoryMap E sz buf s = Some (st, sz', ds, k, t)" using run by auto
    from un [OF same [OF CoreGetMemoryMap_same [OF this]]] show ?thesis .
  next
    case (ExitBoot k)
    then obtain st where "CoreTerminateMemoryMap E k s = Some (st, t)" using run by auto
    from un [OF same [OF CoreTerminateMemoryMap_same [OF this]]] show ?thesis .
  qed
  then show "page_ready t" "(x, U, A) \<in> cells s \<Longrightarrow> U \<noteq> EfiConventional \<Longrightarrow> x \<notin> released op \<Longrightarrow> (x, U, A) \<in> cells t"
    "l \<in> stored t \<Longrightarrow> l \<in> stored s \<or> \<not> allocated s l \<or> l \<in> released op" by blast+
qed

subsection \<open>Sequences of calls\<close>

inductive page_step :: "'w mem_env \<Rightarrow> 'w mem \<Rightarrow> 'w mem \<Rightarrow> bool" for E where
  call: "page_op_ok op s \<Longrightarrow> run_page_op E op s = Some t \<Longrightarrow> page_step E s t"

inductive_cases page_stepE: "page_step E s t"

text \<open>Before any memory was added.\<close>

definition page_start :: "'w mem \<Rightarrow> bool" where
  "page_start s \<longleftrightarrow> gMemoryMap s = [] \<and> mFreeMemoryMapEntryList s = [] \<and> mMapDepth s = 0 \<and>
     promo_ok (mGcdMemorySpaceMap s) {} \<and> bins_ready s"

lemma page_start_ready: "page_start s \<Longrightarrow> page_ready s"
proof -
  assume s: "page_start s"
  have m: "\<not> mapped_at s l e" for l e using s by (simp add: page_start_def mapped_at_def)
  then have "cells s = {}" "stored s = {}" using s by (auto simp: cells_def stored_def page_start_def)
  then show "page_ready s" using s m by (simp add: page_start_def page_ready_def page_inv_def map_inv_def ids_inv_def stored_in_def)
qed

interpretation pages: step_system page_start "page_step E" page_ready for E
proof unfold_locales
  show "page_ready t" if "page_ready s" "page_step E s t" for s t
    using that(2) by (elim page_stepE) (rule run_page_op_keeps(1) [OF that(1)])
qed (rule page_start_ready)

primrec run_page_ops :: "'w mem_env \<Rightarrow> page_op list \<Rightarrow> 'w mem \<Rightarrow> 'w mem option" where
  "run_page_ops E [] s = Some s"
| "run_page_ops E (op # ops) s = (if page_op_ok op s then Option.bind (run_page_op E op s) (run_page_ops E ops) else None)"

lemma run_page_ops_owner:
  assumes "page_ready s" "run_page_ops E ops s = Some t" "\<And>op. op \<in> set ops \<Longrightarrow> released op \<inter> {a..<b} = {}" "owned s a b"
  shows "page_ready t \<and> owned t a b \<and> (\<forall>x \<in> {a..<b}. \<forall>T A. (x, T, A) \<in> cells s \<longrightarrow> (x, T, A) \<in> cells t)"
  using assms
proof (induction ops arbitrary: s)
  case (Cons op ops)
  obtain u where u: "page_op_ok op s" "run_page_op E op s = Some u" "run_page_ops E ops u = Some t"
    using Cons.prems(2) by (auto simp: bind_eq_Some_conv split: if_splits)
  note k = run_page_op_keeps [OF Cons.prems(1) u(1,2)]
  have out: "x \<notin> released op" if "x \<in> {a..<b}" for x using Cons.prems(3) [of op] that by auto
  have inv: "map_inv s" using Cons.prems(1) by (simp add: page_ready_def page_inv_def)
  have cell: "(x, T, A) \<in> cells u" if x: "x \<in> {a..<b}" "(x, T, A) \<in> cells s" for x T A
  proof -
    have "allocated s x" using Cons.prems(4) x(1) unfolding owned_def by blast
    then obtain T' A' where "(x, T', A') \<in> cells s" "T' \<noteq> 7" unfolding allocated_def by blast
    then have "T \<noteq> 7" using cells_unique(1) [OF inv _ x(2)] by blast
    then show ?thesis using k(2) [OF x(2)] out [OF x(1)] by blast
  qed
  have "owned u a b"
    unfolding owned_def
  proof (intro conjI ballI)
    show "allocated u x" if "x \<in> {a..<b}" for x
      using Cons.prems(4) k(2) out [OF that] that unfolding owned_def allocated_def by blast
    have "l \<notin> {a..<b}" if "l \<in> stored u" for l using k(3) [OF that] out [of l] Cons.prems(4) unfolding owned_def by blast
    then show "stored u \<inter> {a..<b} = {}" by blast
  qed
  from Cons.IH [OF k(1) u(3) _ this] Cons.prems(3) cell show ?case by (simp add: subset_iff)
qed simp

end
