(* ===== verification/PageLive.thy ===== *)
theory PageLive
  imports PageSystem
begin

unbundle bit_operations_syntax

section \<open>Allocation returns\<close>

text \<open>
  The services are partial in the model: a slot of \<open>mMapStack\<close> may be missing, or memory for a descriptor. With
  two spare descriptors neither happens: a request that fits into a free descriptor is served.
\<close>

subsection \<open>One descriptor\<close>

lemma clip_entry_total:
  assumes s: "map_inv s" "ids_inv s" "mapped_at s l e" and r: "range_ok (unat S) (unat R + 1)" "lo e \<le> unat S" and d: "mMapDepth s < 5"
  shows "\<exists>k t. clip_entry en l e S R s = Some (k, t)"
proof -
  have "mMapStack_at (mMapDepth s) \<notin> set (gMemoryMap s)" using mMapStack_free [OF s(1,2)] d by simp
  moreover have "Start e < S - 1" if "Start e \<noteq> S"
  proof -
    have "lo e \<noteq> unat S" using that by (simp add: lo_def word_unat_eq_iff)
    then have lt: "lo e < unat S" using r(2) by simp
    have "4096 dvd unat S - lo e" using map_invD(3) [OF s(1,3)] r(1) by (intro dvd_diff_nat) (simp_all add: range_ok_def)
    then have "lo e + 4096 \<le> unat S" using dvd_imp_le [of 4096 "unat S - lo e"] lt by simp
    then show ?thesis using unat_dec [of S] by (simp add: word_less_nat_alt lo_def)
  qed
  ultimately show ?thesis using d by (auto simp: clip_entry_def push_map_stack_def Let_def)
qed

lemma convert_inside_total:
  assumes s: "page_inv s" "mapped_at s l e" "lo e \<le> unat S" "unat S + unat m * 4096 \<le> hi e" "0 < unat m" "4096 dvd unat S"
    and n: "LShiftU64 n EFI_PAGE_SHIFT = LShiftU64 m EFI_PAGE_SHIFT"
    and T: "T \<noteq> EfiConventional \<longleftrightarrow> Type e = EfiConventional" "T = EfiConventional \<Longrightarrow> owned s (unat S) (unat S + unat m * 4096)"
    and d: "mMapDepth s \<le> 3" "gMemoryLock s = EfiLockAcquired"
  shows "\<exists>w. page_inv w \<and> turned T (unat S) (unat S + unat m * 4096) s w \<and> kept s w \<and> mMapDepth w \<le> mMapDepth s + 2 \<and>
    length (mFreeMemoryMapEntryList s) \<le> length (mFreeMemoryMapEntryList w) \<and> gMemoryLock w = EfiLockAcquired \<and>
    (\<forall>x. x \<notin> {unat S..<unat S + unat m * 4096} \<longrightarrow> (\<forall>U A. (x, U, A) \<in> cells s \<longrightarrow> (x, U, A) \<in> cells w)) \<and>
    (\<forall>x \<in> {unat S..<unat S + unat m * 4096}. \<exists>A. (x, T, A) \<in> cells w) \<and>
    (\<forall>F t. F w = Some t \<longrightarrow> CoreConvertPages E F S n T s = Some (EFI_SUCCESS, t))"
proof -
  define L where "L = S + LShiftU64 n EFI_PAGE_SHIFT - 1"
  have inv: "map_inv s" "ids_inv s" using s(1) by (simp_all add: page_inv_def)
  have re: "range_ok (lo e) (hi e)" by (rule map_invD(3) [OF inv(1) s(2)])
  then have hi: "hi e < 2 ^ 64" by (simp add: range_ok_def)
  note L = page_range_unat [OF s(6,5,4) hi L_def [unfolded n]]
  have L1: "4096 dvd unat L + 1" using L(1) s(6) by (simp add: dvd_add)
  have w: "Start e \<le> S" "L \<le> End e" "S < L" using s(3,4) L(1) s(5) by (auto simp: lo_def hi_def word_le_nat_alt word_less_nat_alt)
  have R: "L = (if End e < L then End e else L)" using w(2) by (auto simp: not_less)
  have SE: "S < End e" using w by simp
  note te = turn_end [OF re w(1) SE w(3) s(6) L1 R]
  let ?s = "count_in T S n (count_out (Type e) S n s)"
  note sm = same_map_count [where T = T and S = S and n = n and U = "Type e" and S' = S and m = n and s = s]
  have inv': "page_inv ?s" "mapped_at ?s l e" using same_map_page_inv [OF sm s(1)] s(2) by (simp_all add: same_mapD(3) [OF sm])
  then have i': "map_inv ?s" "ids_inv ?s" by (simp_all add: page_inv_def)
  have dep: "mMapDepth ?s = mMapDepth s" "mFreeMemoryMapEntryList ?s = mFreeMemoryMapEntryList s" by (simp_all add: same_mapD [OF sm])
  have lock: "gMemoryLock ?s = EfiLockAcquired" using d(2) by (simp add: count_in_def count_out_def Let_def)
  obtain k u where cl: "clip_entry (MemAsserts E) l e S L ?s = Some (k, u)"
    using clip_entry_total [OF i' inv'(2) te(1,2)] dep d(1) by fastforce
  from clip_entry_pulled [OF i' inv'(2) te(1-3) cl] obtain e' v where e': "MapEntries u k = Some e'" "Attribute e' = Attribute e"
    "(if Start e' = End e' + 1 then RemoveMemoryMapEntry k u else Some u) = Some v" "pulled (unat S) (unat L + 1) e ?s v" by blast
  have v: "map_inv v" "ids_inv v" "free_of (cells v) (unat S) (unat L + 1)" "same_rest ?s v" "mMapDepth v \<le> mMapDepth ?s + 1"
    using e'(4) unfolding pulled_def by blast+
  have "gMemoryLock v = EfiLockAcquired" using v(4) lock by (simp add: same_rest_def)
  then obtain x where x: "CoreAddRange E T S L (Attribute e') v = Some x" "same_rest v x"
    using CoreAddRange_run [OF v(1,2) _ _ _ te(1) v(3), of E T "Attribute e'"] v(5) dep(1) d(1) by fastforce
  have own: "owned ?s (unat S) (unat L + 1)" if "T = 7" using T(2) [OF that] L(1) by (simp add: owned_def same_mapD [OF sm])
  note c = convert_clip [OF inv' T(1) te(1-3) own cl e'(1,3) x(1)]
  have tw: "turned T (unat S) (unat S + unat m * 4096) s x"
    using evolves_turned [OF same_map_evolves [OF sm] c(2)] L(1) by simp
  have kx: "kept s x" by (rule kept_trans [OF kept_count c(3)])
  have lx: "gMemoryLock x = EfiLockAcquired" using v(4) x(2) lock by (simp add: same_rest_def)
  have run: "CoreConvertPages E F S n T s = Some (EFI_SUCCESS, t)" if F: "F x = Some t" for F t
  proof -
    have cov: "covering s S (gMemoryMap s) = Some l" by (rule covering_found [OF inv(1) s(2) w(1) SE])
    have el: "MapEntries s l = Some e" "l \<noteq> 0" using s(2) descriptor_not_null [OF inv(2) s(2)] by (simp_all add: mapped_at_def)
    have step: "convert_step E F n T L (S, None, s) = Some (L + 1, None, t)"
      using cov el T(1) R cl e'(1,3) x(1) F unfolding convert_step_def by (simp add: Let_def)
    have stop: "\<not> L + 1 < L" using te(4) by (simp add: word_less_nat_alt)
    have "while_opt (\<lambda>(S, st, _). st = None \<and> S < L) (convert_step E F n T L) (S, None, s) = Some (L + 1, None, t)"
      using w(3) step stop by (subst while_opt.simps) (simp add: while_opt_stop)
    moreover have "S AND EFI_PAGE_MASK = 0" using aligned_iff [of S 12] s(6) by (auto simp: mask_eq_exp_minus_1)
    moreover have "LShiftU64 n EFI_PAGE_SHIFT \<noteq> 0" using LShiftU64_pages [of m] s(4,5) hi by (auto simp: n)
    then have "n \<noteq> 0" by (auto simp: LShiftU64_def)
    ultimately show ?thesis using L(2) [folded n] w(3) d(2) unfolding CoreConvertPages_def Let_def L_def [symmetric] by simp
  qed
  have "(y, U, A) \<in> cells x" if "y \<notin> {unat S..<unat S + unat m * 4096}" "(y, U, A) \<in> cells s" for y U A
    using that c(6) L(1) by (auto simp: block_def same_mapD [OF sm])
  moreover have "\<forall>y \<in> {unat S..<unat S + unat m * 4096}. \<exists>A. (y, T, A) \<in> cells x"
    using c(6) L(1) by (auto simp: block_def)
  ultimately show ?thesis using c(1,4,5) tw kx lx run dep by (intro exI [of _ x]) simp
qed

subsection \<open>Storing descriptors without a new page\<close>

lemma insert_entry_total: "\<forall>l \<in> set ls. MapEntries s l \<noteq> None \<Longrightarrow> \<exists>l. insert_entry s S a ls = Some l"
  by (induction ls) auto

lemma free_map_slot_total:
  assumes al: "AllocateMemoryMapEntry P s = Some (a, u)" "a \<noteq> 0" and u: "page_inv u"
  shows "\<exists>t. free_map_slot P s = Some t \<and> mMapDepth t = mMapDepth u - 1 \<and> length (mFreeMemoryMapEntryList t) \<ge> length (mFreeMemoryMapEntryList u) \<and>
    gMemoryLock t = gMemoryLock u \<and> mFreeMapStack t = mFreeMapStack u"
proof -
  have inv: "map_inv u" "ids_inv u" using u by (simp_all add: page_inv_def)
  let ?v = "u\<lparr>mMapDepth := mMapDepth u - 1\<rparr>" and ?k = "mMapStack_at (mMapDepth u - 1)"
  show ?thesis
  proof (cases "?k \<in> set (gMemoryMap u)")
    case True
    then obtain e where e: "MapEntries u ?k = Some e" using map_invD(2) [OF inv(1)] by (auto simp: mapped_at_def)
    let ?w = "?v\<lparr>gMemoryMap := removeAll ?k (gMemoryMap u), MapEntries := (MapEntries u)(a \<mapsto> e\<lparr>FromPages := True\<rparr>)\<rparr>"
    have "\<forall>j \<in> set (removeAll ?k (gMemoryMap u)). MapEntries ?w j \<noteq> None" using map_invD(2) [OF inv(1)] by (auto simp: mapped_at_def)
    from insert_entry_total [OF this, of "Start e" a] obtain m where m: "insert_entry ?w (Start e) a (removeAll ?k (gMemoryMap u)) = Some m" by blast
    have "free_map_slot P s = Some (?w\<lparr>gMemoryMap := m\<rparr>)" using al True e m by (simp add: free_map_slot_def Let_def)
    then show ?thesis by simp
  next
    case False
    then have "free_map_slot P s = Some (?v\<lparr>mFreeMemoryMapEntryList := mFreeMemoryMapEntryList u @ [a]\<rparr>)" using al by (simp add: free_map_slot_def Let_def)
    then show ?thesis by simp
  qed
qed

text \<open>With an element in the list of free descriptors.\<close>

lemma free_map_slot_spare:
  assumes s: "page_inv s" "mFreeMemoryMapEntryList s = a # l"
  shows "\<exists>t. free_map_slot P s = Some t \<and> mMapDepth t = mMapDepth s - 1 \<and> length (mFreeMemoryMapEntryList t) \<ge> length l \<and>
    gMemoryLock t = gMemoryLock s \<and> mFreeMapStack t = mFreeMapStack s"
proof -
  have "ids_inv s" using s(1) by (simp add: page_inv_def)
  then have a: "4096 \<le> a" using s(2) by (simp add: ids_inv_def)
  have al: "AllocateMemoryMapEntry P s = Some (a, s\<lparr>mFreeMemoryMapEntryList := l\<rparr>)" using s(2) by (simp add: AllocateMemoryMapEntry_def dequeue_entry_def)
  have a0: "a \<noteq> 0" using a by simp
  show ?thesis using free_map_slot_total [OF al a0 popped(1) [OF s]] by simp
qed

lemma find_in_bins_lock: "find_in_bins Mx n T Al s = Some (a, t) \<Longrightarrow> gMemoryLock t = gMemoryLock s"
  by (auto simp: find_in_bins_def bind_eq_Some_conv Let_def split: if_splits)

text \<open>A page for descriptors, when the list is empty; nested conversions do not store their descriptors.\<close>

lemma fits_page:
  assumes "page_inv s" "(b, EfiConventional, A) \<in> cells s" "4096 dvd b"
  shows "fits s 1 0 (unat MAX_ADDRESS) b"
proof -
  obtain l e where e: "mapped_at s l e" "b \<in> rng e" "Type e = 7" using assms(2) by (auto simp: cells_def)
  have re: "range_ok (lo e) (hi e)" using assms(1) map_invD(3) [OF _ e(1)] by (simp add: page_inv_def)
  then have "4096 dvd hi e - b" using assms(3) by (intro dvd_diff_nat) (simp_all add: range_ok_def)
  then have "b + 4096 \<le> hi e" using e(2) dvd_imp_le [of 4096 "hi e - b"] by auto
  moreover have "hi e < 2 ^ 64" using re by (simp add: range_ok_def)
  ultimately show ?thesis using e assms(3) unfolding fits_def by auto
qed

lemma fits_cell: "fits s n mn mx b \<Longrightarrow> 0 < n \<Longrightarrow> \<exists>A. (b, EfiConventional, A) \<in> cells s"
  unfolding fits_def by (metis atLeastLessThan_iff cellsI less_le_trans less_add_same_cancel1 mult_pos_pos zero_less_numeral)

lemma pool_page_total:
  assumes s: "page_inv s" "gMemoryLock s = EfiLockAcquired" "mFreeMapStack s \<noteq> 0" "mMapDepth s \<le> 3" and b: "fits s 1 0 (unat MAX_ADDRESS) b" "b \<noteq> 0"
  shows "\<exists>D t. CoreAllocatePoolPages E (CoreFreeMemoryMapStack 0 E) EfiBootServicesData 1 DEFAULT_PAGE_ALLOCATION s = Some (D, t) \<and> D \<noteq> 0 \<and>
    mMapDepth t \<le> mMapDepth s + 2 \<and> gMemoryLock t = EfiLockAcquired"
proof -
  have mi: "map_inv s" using s(1) by (simp add: page_inv_def)
  have n1: "unat (1 :: uint64) < 2 ^ 52" by simp
  obtain S u where u: "find_in_bins MAX_ADDRESS 1 EfiBootServicesData 0x1000 s = Some (S, u)" "same_map s u"
    "S \<noteq> 0 \<longrightarrow> 0 < unat (1 :: uint64) \<and> fits s (unat (1 :: uint64)) 0 (unat MAX_ADDRESS) (unat S)"
    "S = 0 \<longrightarrow> 0 < unat (1 :: uint64) \<longrightarrow> (\<forall>b. fits s (unat (1 :: uint64)) 0 (unat MAX_ADDRESS) b \<longrightarrow> b = 0)"
    using find_in_bins_spec [OF mi n1, of MAX_ADDRESS EfiBootServicesData] by (elim exE conjE) (rule that)
  have S: "S \<noteq> 0" using u(4) b by auto
  have find: "FindFreePages E (CoreFreeMemoryMapStack 0 E) MAX_ADDRESS 1 EfiBootServicesData 0x1000 s = Some (S, u)"
    using u(1) S by (subst FindFreePages.simps) simp
  have pu: "page_inv u" by (rule same_map_page_inv [OF u(2) s(1)])
  have "fits u 1 0 (unat MAX_ADDRESS) (unat S)" using u(3) S by (simp add: fits_same_map [OF u(2)])
  then obtain l e where e: "mapped_at u l e" "Type e = EfiConventional" "lo e \<le> unat S" "unat S + unat (1 :: uint64) * 4096 \<le> hi e" "4096 dvd unat S"
    by (auto simp: fits_def)
  have T: "EfiBootServicesData \<noteq> EfiConventional \<longleftrightarrow> Type e = EfiConventional" using e(2) by simp
  have ru: "mMapDepth u \<le> 3" "gMemoryLock u = EfiLockAcquired" using s(2,4) find_in_bins_lock [OF u(1)] by (simp_all add: same_mapD [OF u(2)])
  obtain w where w: "kept u w" "mMapDepth w \<le> mMapDepth u + 2" "gMemoryLock w = EfiLockAcquired"
    "\<And>F t. F w = Some t \<Longrightarrow> CoreConvertPages E F S 1 EfiBootServicesData u = Some (EFI_SUCCESS, t)"
    using convert_inside_total [OF pu e(1,3,4) _ e(5) refl T _ ru, of E] by auto
  have "CoreFreeMemoryMapStack 0 E w = Some w" using w(1,3) s(3) by (simp add: free_map_stack_def kept_def same_mapD [OF u(2)])
  from w(4) [of "CoreFreeMemoryMapStack 0 E" w, OF this] find S
  have "CoreAllocatePoolPages E (CoreFreeMemoryMapStack 0 E) EfiBootServicesData 1 DEFAULT_PAGE_ALLOCATION s = Some (S, w)"
    by (simp add: CoreAllocatePoolPages_def)
  then show ?thesis using S w(2,3) by (auto simp: same_mapD [OF u(2)])
qed

lemma free_map_slot_refilled:
  assumes s: "page_inv s" "mFreeMemoryMapEntryList s = []" and P: "P EfiBootServicesData 1 s = Some (D, v)" "D \<noteq> 0" "page_supply P" "mMapDepth v \<le> 6"
  shows "\<exists>t. free_map_slot P s = Some t \<and> mMapDepth t = mMapDepth v - 1 \<and> length (mFreeMemoryMapEntryList t) \<ge> 63 \<and> gMemoryLock t = gMemoryLock v"
proof -
  let ?l = "mFreeMemoryMapEntryList v @ map (\<lambda>i. unat D + 64 * i) [0..<64]" and ?v = "\<lambda>l. v\<lparr>mFreeMemoryMapEntryList := l\<rparr>"
  obtain a l where l: "?l = a # l" by (cases ?l) simp_all
  have "length (a # l) \<ge> 64" unfolding l [symmetric] by simp
  then have len: "length l \<ge> 63" by simp
  have al: "AllocateMemoryMapEntry P s = Some (a, ?v l)" using s(2) P(1,2) l by (simp add: AllocateMemoryMapEntry_def dequeue_entry_def)
  have p: "4096 dvd unat D" "page_inv v" "turned EfiBootServicesData (unat D) (unat D + 4096) s v"
    using page_supply.P_keeps [OF P(3,1) s(1)] P(2) by auto
  have r: "page_inv (?v ?l)" by (rule refilled(1) [OF s(1) p(2,3) descriptor_slots [OF p(1) P(2)] refl])
  then have "ids_inv (?v ?l)" by (simp add: page_inv_def)
  then have "4096 \<le> a" using l by (simp add: ids_inv_def)
  then have a: "a \<noteq> 0" by simp
  have "page_inv (?v l)" using popped(1) [of "?v ?l" a l] r l by simp
  from free_map_slot_total [OF al a this] show ?thesis using len by auto
qed

subsection \<open>Storing the descriptors, with a new page if there are none\<close>

definition page_left :: "'w mem \<Rightarrow> bool" where
  "page_left s \<longleftrightarrow> (\<exists>b A. b \<noteq> 0 \<and> 4096 dvd b \<and> (b, EfiConventional, A) \<in> cells s)"

lemma page_left_fits: "page_inv s \<Longrightarrow> page_left s \<Longrightarrow> \<exists>b. fits s 1 0 (unat MAX_ADDRESS) b \<and> b \<noteq> 0"
  using fits_page unfolding page_left_def by blast

lemma free_map_stack_returns:
  assumes s: "page_inv s" "mFreeMapStack s = 0" "gMemoryLock s = EfiLockAcquired" "mMapDepth s \<le> 3" "page_left s"
  shows "\<exists>t. FreeMapStack E s = Some t \<and> mMapDepth t = 0 \<and> gMemoryLock t = EfiLockAcquired"
proof -
  let ?P = "\<lambda>T n. CoreAllocatePoolPages E (CoreFreeMemoryMapStack 0 E) T n DEFAULT_PAGE_ALLOCATION"
  let ?s = "s\<lparr>mFreeMapStack := mFreeMapStack s + 1\<rparr>" and ?len = "\<lambda>r. length (mFreeMemoryMapEntryList r)"
  define I where "I = (\<lambda>r :: 'a mem. page_inv r \<and> mFreeMapStack r \<noteq> 0 \<and> gMemoryLock r = EfiLockAcquired \<and>
    (mMapDepth r \<le> ?len r \<or> mMapDepth r \<le> 3 \<and> page_left r))"
  have m: "mapped_at ?s = mapped_at s" by simp
  have c: "cells ?s = cells s" "stored ?s = stored s" by (rule cells_cong [OF m], simp add: stored_def)
  have "map_inv ?s" using s(1) by (intro map_inv_cong [OF m]) (simp_all add: page_inv_def)
  then have "page_inv ?s" using s(1) unfolding page_inv_def c by (simp add: ids_inv_def)
  moreover have "page_left ?s" using s(5) unfolding page_left_def c .
  ultimately have I0: "I ?s" using s by (simp add: I_def)
  have "\<exists>u. while_opt (\<lambda>s. mMapDepth s \<noteq> 0) (free_map_slot ?P) ?s = Some u \<and> I u \<and> \<not> mMapDepth u \<noteq> 0"
  proof (rule while_opt_total [where m = "\<lambda>r. if mMapDepth r \<le> ?len r then mMapDepth r else 100 + mMapDepth r" and I = I, OF _ I0])
    fix r :: "'a mem" assume r: "I r" "mMapDepth r \<noteq> 0"
    have ri: "page_inv r" "mFreeMapStack r \<noteq> 0" "gMemoryLock r = EfiLockAcquired" using r(1) by (simp_all add: I_def)
    show "\<exists>v. free_map_slot ?P r = Some v \<and> I v \<and>
      (if mMapDepth v \<le> ?len v then mMapDepth v else 100 + mMapDepth v) < (if mMapDepth r \<le> ?len r then mMapDepth r else 100 + mMapDepth r)"
    proof (cases "mFreeMemoryMapEntryList r")
      case (Cons a l)
      obtain v where v: "free_map_slot ?P r = Some v" "mMapDepth v = mMapDepth r - 1" "length l \<le> ?len v"
        "gMemoryLock v = gMemoryLock r" "mFreeMapStack v = mFreeMapStack r" using free_map_slot_spare [OF ri(1) Cons] by blast
      have k: "page_inv v" "cells v = cells r" using pps.free_map_slot_keeps [OF v(1) ri(1)] Cons by auto
      have "page_left r \<Longrightarrow> page_left v" by (simp add: page_left_def k(2))
      then have "I v" using k(1) v(2-5) r ri(2,3) Cons by (auto simp: I_def)
      then show ?thesis using v r(2) Cons by auto
    next
      case Nil
      then have d: "mMapDepth r \<le> 3" "page_left r" using r by (auto simp: I_def)
      obtain b where b: "fits r 1 0 (unat MAX_ADDRESS) b" "b \<noteq> 0" using page_left_fits [OF ri(1) d(2)] by blast
      obtain D v where v: "?P EfiBootServicesData 1 r = Some (D, v)" "D \<noteq> 0" "mMapDepth v \<le> mMapDepth r + 2" "gMemoryLock v = EfiLockAcquired"
        using pool_page_total [OF ri(1,3,2) d(1) b] by blast
      have d6: "mMapDepth v \<le> 6" using v(3) d(1) by simp
      obtain t where t: "free_map_slot ?P r = Some t" "mMapDepth t = mMapDepth v - 1" "?len t \<ge> 63" "gMemoryLock t = gMemoryLock v"
        using free_map_slot_refilled [where P = ?P, OF ri(1) Nil v(1,2) pool_pages_supply [OF CoreFreeMemoryMapStack_contract] d6] by blast
      have k: "page_inv t" "kept r t" using pps.free_map_slot_keeps [OF t(1) ri(1)] by auto
      have d: "mMapDepth t \<le> ?len t" "mMapDepth t < 100" using t(2,3) d6 by simp_all
      have "mFreeMapStack t = mFreeMapStack r" using k(2) by (simp add: kept_def)
      then have "I t" using k(1) t(4) v(4) d(1) ri(2) by (simp add: I_def)
      then show ?thesis using t(1) Nil d r(2) by auto
    qed
  qed
  then obtain u where u: "while_opt (\<lambda>s. mMapDepth s \<noteq> 0) (free_map_slot ?P) ?s = Some u" "I u" "mMapDepth u = 0" by blast
  then show ?thesis using s(2,3) by (simp add: free_map_stack_def I_def)
qed

text \<open>The conversion as the services call it.\<close>

definition at_rest :: "'w mem \<Rightarrow> bool" where
  "at_rest s \<longleftrightarrow> mMapDepth s = 0 \<and> mFreeMapStack s = 0"

lemma convert_inside_returns:
  assumes s: "page_inv s" "mapped_at s l e" "lo e \<le> unat S" "unat S + unat m * 4096 \<le> hi e" "0 < unat m" "4096 dvd unat S"
    and n: "LShiftU64 n EFI_PAGE_SHIFT = LShiftU64 m EFI_PAGE_SHIFT"
    and T: "T \<noteq> EfiConventional \<longleftrightarrow> Type e = EfiConventional" "T = EfiConventional \<Longrightarrow> owned s (unat S) (unat S + unat m * 4096)"
    and d: "at_rest s" "gMemoryLock s = EfiLockAcquired"
    and b: "b \<noteq> 0" "4096 dvd b" "b \<notin> {unat S..<unat S + unat m * 4096} \<and> (b, EfiConventional, A) \<in> cells s \<or> T = EfiConventional \<and> b = unat S"
  shows "\<exists>t. CoreConvertPages E (FreeMapStack E) S n T s = Some (EFI_SUCCESS, t) \<and> at_rest t \<and> gMemoryLock t = EfiLockAcquired \<and>
    turned T (unat S) (unat S + unat m * 4096) s t"
proof -
  have d3: "mMapDepth s \<le> 3" using d(1) by (simp add: at_rest_def)
  obtain w where w: "page_inv w" "turned T (unat S) (unat S + unat m * 4096) s w" "kept s w" "mMapDepth w \<le> mMapDepth s + 2" "gMemoryLock w = EfiLockAcquired"
    "\<And>x U A. x \<notin> {unat S..<unat S + unat m * 4096} \<Longrightarrow> (x, U, A) \<in> cells s \<Longrightarrow> (x, U, A) \<in> cells w"
    "\<And>x. x \<in> {unat S..<unat S + unat m * 4096} \<Longrightarrow> \<exists>A. (x, T, A) \<in> cells w"
    "\<And>F t. F w = Some t \<Longrightarrow> CoreConvertPages E F S n T s = Some (EFI_SUCCESS, t)"
    by (rule convert_inside_total [OF s n T d3 d(2), of E, THEN exE], assumption, elim conjE, rule that, (assumption | blast)+)
  have S: "unat S \<in> {unat S..<unat S + unat m * 4096}" using s(5) by simp
  have "\<exists>A. (b, EfiConventional, A) \<in> cells w" using b(3) w(6) [of b] w(7) [OF S] by blast
  then have left: "page_left w" using b(1,2) unfolding page_left_def by blast
  have "mFreeMapStack w = 0" "mMapDepth w \<le> 3" using w(3,4) d(1) by (simp_all add: kept_def at_rest_def)
  then obtain t where t: "FreeMapStack E w = Some t" "mMapDepth t = 0" "gMemoryLock t = EfiLockAcquired"
    using free_map_stack_returns [OF w(1) _ w(5) _ left, of E] by blast
  have "mFreeMapStack t = 0" using fms.F_keeps [OF t(1) w(1)] w(3) d(1) by (auto simp: kept_def at_rest_def)
  then show ?thesis using w(8) [of "FreeMapStack E" t, OF t(1)] t(2,3) turned_evolves [OF w(2)] fms.F_keeps [OF t(1) w(1)] by (simp add: at_rest_def)
qed

subsection \<open>The services\<close>

text \<open>The page that is left over is one of the \<open>n + 1\<close> pages that were found.\<close>

lemma CoreAllocatePages_returns:
  assumes s: "page_inv s" "at_rest s" "gMemoryLock s = EfiLockReleased"
    and Ty: "Ty \<in> {AllocateAnyPages, AllocateMaxAddress}" and T: "T \<noteq> EfiConventional" "\<not> (EfiMaxMemoryType \<le> T \<and> T \<le> 0x7fffffff)"
    and n: "0 < unat n" "unat n < 2 ^ 52" and room: "fits s (unat n + 1) 0 (unat (page_limit Ty M)) b" "b \<noteq> 0"
  shows "\<exists>B t. CoreAllocatePages E Ty T n M s = Some (EFI_SUCCESS, B, t) \<and> at_rest t \<and> gMemoryLock t = EfiLockReleased"
proof -
  let ?s = "s\<lparr>gMemoryLock := EfiLockAcquired\<rparr>"
  have acq: "CoreAcquireMemoryLock E s = Some ?s" using s(3) by (simp add: CoreAcquireMemoryLock_def)
  note sm = CoreAcquireMemoryLock_same [OF acq]
  have p: "page_inv ?s" by (rule same_map_page_inv [OF sm(1) s(1)])
  then have mi: "map_inv ?s" by (simp add: page_inv_def)
  obtain S u where u: "find_in_bins (page_limit Ty M) n T 0x1000 ?s = Some (S, u)" "same_map ?s u"
    "S \<noteq> 0 \<longrightarrow> 0 < unat n \<and> fits ?s (unat n) 0 (unat (page_limit Ty M)) (unat S)" "S = 0 \<longrightarrow> 0 < unat n \<longrightarrow> (\<forall>b. fits ?s (unat n) 0 (unat (page_limit Ty M)) b \<longrightarrow> b = 0)"
    using find_in_bins_spec [OF mi n(2), of "page_limit Ty M" T] by (elim exE conjE) (rule that)
  obtain l' e' where e': "mapped_at s l' e'" "Type e' = EfiConventional" "lo e' \<le> b" "b + (unat n + 1) * 4096 \<le> hi e'"
    using room(1) by (auto simp: fits_def)
  have "b + unat n * 4096 \<le> hi e'" "b + unat n * 4096 \<le> unat (page_limit Ty M) + 1" "4096 dvd b"
    using e'(4) room(1) by (simp_all add: fits_def)
  then have "fits s (unat n) 0 (unat (page_limit Ty M)) b" unfolding fits_def using e' by blast
  then have S: "S \<noteq> 0" using u(4) n(1) room(2) by (auto simp: fits_same_map [OF sm(1)])
  then have find: "FindFreePages E (FreeMapStack E) (page_limit Ty M) n T 0x1000 ?s = Some (S, u)"
    using u(1) by (subst FindFreePages.simps) simp
  have pu: "page_inv u" by (rule same_map_page_inv [OF u(2) p])
  have "fits u (unat n) 0 (unat (page_limit Ty M)) (unat S)" using u(3) S by (simp add: fits_same_map [OF u(2)])
  then obtain l e where e: "mapped_at u l e" "Type e = EfiConventional" "lo e \<le> unat S" "unat S + unat n * 4096 \<le> hi e" "4096 dvd unat S"
    by (auto simp: fits_def)
  have ru: "at_rest u" "gMemoryLock u = EfiLockAcquired"
    using s(2) find_in_bins_lock [OF u(1)] by (simp_all add: at_rest_def same_mapD [OF u(2)])
  have T': "T \<noteq> EfiConventional \<longleftrightarrow> Type e = EfiConventional" using T(1) e(2) by simp
  have cu: "cells u = cells s" using same_mapD [OF u(2)] same_mapD [OF sm(1)] by (simp add: cells_def)
  obtain c where c: "c \<in> {b..<b + (unat n + 1) * 4096}" "4096 dvd c" "c \<notin> {unat S..<unat S + unat n * 4096}"
  proof (cases "b \<in> {unat S..<unat S + unat n * 4096}")
    case True
    then show thesis using room(1) by (intro that [of "b + unat n * 4096"]) (auto simp: fits_def)
  next
    case False
    then show thesis using room(1) by (intro that [of b]) (auto simp: fits_def)
  qed
  have c0: "c \<noteq> 0" using c(1) room(2) by auto
  have "c \<in> rng e'" using c(1) e'(3,4) by auto
  from cellsI [OF e'(1) this] have "(c, EfiConventional, Attribute e') \<in> cells u" by (simp add: cu e'(2))
  with c(3) have left: "c \<notin> {unat S..<unat S + unat n * 4096} \<and> (c, EfiConventional, Attribute e') \<in> cells u \<or> T = EfiConventional \<and> c = unat S" by blast
  have own: "T = EfiConventional \<Longrightarrow> owned u (unat S) (unat S + unat n * 4096)" using T(1) by simp
  obtain v where v: "CoreConvertPages E (FreeMapStack E) S n T u = Some (EFI_SUCCESS, v)" "at_rest v" "gMemoryLock v = EfiLockAcquired"
    using convert_inside_returns [OF pu e(1,3,4) n(1) e(5) refl T' own ru c0 c(2) left, of E] by blast
  have "CoreReleaseMemoryLock E v = Some (v\<lparr>gMemoryLock := EfiLockReleased\<rparr>)" using v(3) by (simp add: CoreReleaseMemoryLock_def)
  then have "CoreAllocatePages E Ty T n M s = Some (EFI_SUCCESS, S, v\<lparr>gMemoryLock := EfiLockReleased\<rparr>)"
    using Ty T acq find S v(1) unfolding CoreAllocatePages_def page_alignment_page round_pages_page Let_def by auto
  then show ?thesis using v(2) by (simp add: at_rest_def)
qed

text \<open>A descriptor for the free of a range is found in that range at the latest.\<close>

lemma CoreFreePages_returns:
  assumes s: "page_inv s" "at_rest s" "gMemoryLock s = EfiLockReleased"
    and e: "mapped_at s l e" "Type e \<noteq> EfiConventional" "lo e \<le> unat M" "unat M + unat n * 4096 \<le> hi e"
    and M: "0 < unat n" "4096 dvd unat M" "M \<noteq> 0" "owned s (unat M) (unat M + unat n * 4096)"
  shows "\<exists>t. CoreFreePages E M n s = Some (EFI_SUCCESS, t) \<and> at_rest t \<and> gMemoryLock t = EfiLockReleased"
proof -
  let ?s = "s\<lparr>gMemoryLock := EfiLockAcquired\<rparr>"
  have acq: "CoreAcquireMemoryLock E s = Some ?s" using s(3) by (simp add: CoreAcquireMemoryLock_def)
  note sm = CoreAcquireMemoryLock_same [OF acq]
  have p: "page_inv ?s" by (rule same_map_page_inv [OF sm(1) s(1)])
  then have mi: "map_inv ?s" "ids_inv ?s" by (simp_all add: page_inv_def)
  have m: "mapped_at ?s l e" using e(1) by (simp add: same_mapD [OF sm(1)])
  have own: "owned ?s (unat M) (unat M + unat n * 4096)" using M(4) by (simp add: owned_def same_mapD [OF sm(1)])
  have T: "EfiConventional \<noteq> EfiConventional \<longleftrightarrow> Type e = EfiConventional" using e(2) by simp
  have r: "at_rest ?s" "gMemoryLock ?s = EfiLockAcquired" using s(2) by (simp_all add: at_rest_def)
  have M0: "unat M \<noteq> 0" using M(3) by (simp add: unat_eq_0)
  obtain v where v: "CoreConvertPages E (FreeMapStack E) M n EfiConventional ?s = Some (EFI_SUCCESS, v)" "at_rest v" "gMemoryLock v = EfiLockAcquired"
    using convert_inside_returns [OF p m e(3,4) M(1,2) refl T own r M0 M(2), where A = 0] by blast
  have "lo e \<le> unat M" "unat M < hi e - 1"
    using e(3,4) M(1) by auto
  then have st: "Start e \<le> M" "M < End e" by (simp_all add: lo_def hi_def word_le_nat_alt word_less_nat_alt)
  have cov: "covering ?s M (gMemoryMap ?s) = Some l" by (rule covering_found [OF mi(1) m st])
  have el: "MapEntries ?s l = Some e" "l \<noteq> 0" using m descriptor_not_null [OF mi(2) m] by (simp_all add: mapped_at_def)
  have al: "M AND (0x1000 - 1) = 0" using M(2) aligned_iff [of M 12] by (simp add: mask_eq_exp_minus_1)
  have "CoreReleaseMemoryLock E v = Some (v\<lparr>gMemoryLock := EfiLockReleased\<rparr>)" using v(3) by (simp add: CoreReleaseMemoryLock_def)
  then have "CoreFreePages E M n s = Some (EFI_SUCCESS, v\<lparr>gMemoryLock := EfiLockReleased\<rparr>)"
    using acq cov el al v(1) unfolding CoreFreePages_def page_alignment_page round_pages_page Let_def by simp
  then show ?thesis using v(2) by (simp add: at_rest_def)
qed

text \<open>An address that the caller gives: the number of pages counts only as far as its bytes have 64 bits.\<close>

lemma CoreAllocatePages_address_returns:
  assumes s: "page_inv s" "at_rest s" "gMemoryLock s = EfiLockReleased"
    and T: "T \<noteq> EfiConventional" "\<not> (EfiMaxMemoryType \<le> T \<and> T \<le> 0x7fffffff)"
    and e: "mapped_at s l e" "Type e = EfiConventional" "lo e \<le> unat M" "unat M + unat m * 4096 \<le> hi e" "0 < unat m" "4096 dvd unat M"
    and n: "LShiftU64 n EFI_PAGE_SHIFT = LShiftU64 m EFI_PAGE_SHIFT"
    and c: "c \<noteq> 0" "4096 dvd c" "c \<notin> {unat M..<unat M + unat m * 4096}" "(c, EfiConventional, A) \<in> cells s"
  shows "\<exists>t. CoreAllocatePages E AllocateAddress T n M s = Some (EFI_SUCCESS, M, t) \<and> at_rest t \<and> gMemoryLock t = EfiLockReleased \<and>
    turned T (unat M) (unat M + unat m * 4096) s t"
proof -
  let ?s = "s\<lparr>gMemoryLock := EfiLockAcquired\<rparr>"
  have acq: "CoreAcquireMemoryLock E s = Some ?s" using s(3) by (simp add: CoreAcquireMemoryLock_def)
  note sm = CoreAcquireMemoryLock_same [OF acq]
  have p: "page_inv ?s" by (rule same_map_page_inv [OF sm(1) s(1)])
  have m: "mapped_at ?s l e" using e(1) by (simp add: same_mapD [OF sm(1)])
  have T': "T \<noteq> EfiConventional \<longleftrightarrow> Type e = EfiConventional" using T(1) e(2) by simp
  have own: "T = EfiConventional \<Longrightarrow> owned ?s (unat M) (unat M + unat m * 4096)" using T(1) by simp
  have r: "at_rest ?s" "gMemoryLock ?s = EfiLockAcquired" using s(2) by (simp_all add: at_rest_def)
  have left: "c \<notin> {unat M..<unat M + unat m * 4096} \<and> (c, EfiConventional, A) \<in> cells ?s \<or> T = EfiConventional \<and> c = unat M"
    using c(3,4) by (simp add: same_mapD [OF sm(1)])
  obtain v where v: "CoreConvertPages E (FreeMapStack E) M n T ?s = Some (EFI_SUCCESS, v)" "at_rest v" "gMemoryLock v = EfiLockAcquired"
    "turned T (unat M) (unat M + unat m * 4096) ?s v"
    using convert_inside_returns [OF p m e(3-6) n T' own r c(1,2) left, of E] by blast
  let ?t = "v\<lparr>gMemoryLock := EfiLockReleased\<rparr>"
  have rel: "CoreReleaseMemoryLock E v = Some ?t" using v(3) by (simp add: CoreReleaseMemoryLock_def)
  have tt: "turned T (unat M) (unat M + unat m * 4096) s ?t"
    using evolves_turned [OF same_map_evolves [OF sm(1)] turned_evolves [OF v(4) same_map_evolves [OF CoreReleaseMemoryLock_same(1) [OF rel]]]] by simp
  have al: "M AND (0x1000 - 1) = 0" using e(6) aligned_iff [of M 12] by (simp add: mask_eq_exp_minus_1)
  have "CoreAllocatePages E AllocateAddress T n M s = Some (EFI_SUCCESS, M, ?t)"
    using T acq v(1) rel al unfolding CoreAllocatePages_def page_alignment_page round_pages_page Let_def by auto
  then show ?thesis using v(2) tt by (simp add: at_rest_def)
qed

text \<open>Free memory is added; the bins are set up already.\<close>

lemma CoreAddMemoryDescriptor_returns:
  assumes s: "page_inv s" "at_rest s" "gMemoryLock s = EfiLockReleased" "mMemoryTypeInformationInitialized s"
    and a: "addable s (unat S) (unat S + unat n * 4096)" "S \<noteq> 0" and E: "\<not> PcdLoadModuleAtFixAddressEnable E"
  shows "\<exists>t. CoreAddMemoryDescriptor E EfiConventional S n A s = Some t \<and> at_rest t \<and> gMemoryLock t = EfiLockReleased"
proof -
  define L where "L = S + LShiftU64 n EFI_PAGE_SHIFT - 1"
  have ok: "range_ok (unat S) (unat S + unat n * 4096)" using a(1) by (simp add: addable_def)
  then have n: "4096 dvd unat S" "0 < unat n" "unat S + unat n * 4096 < 2 ^ 64" by (auto simp: range_ok_def)
  note L = page_range_unat [OF n(1,2) order_refl n(3) L_def]
  let ?s = "s\<lparr>gMemoryLock := EfiLockAcquired\<rparr>"
  have acq: "CoreAcquireMemoryLock E s = Some ?s" using s(3) by (simp add: CoreAcquireMemoryLock_def)
  note sm = CoreAcquireMemoryLock_same [OF acq]
  have p: "page_inv ?s" by (rule same_map_page_inv [OF sm(1) s(1)])
  have ad: "addable ?s (unat S) (unat L + 1)" using a(1) L(1) by (simp add: addable_def same_mapD [OF sm(1)])
  have i: "map_inv ?s" "ids_inv ?s" using p by (simp_all add: page_inv_def)
  obtain u where u: "CoreAddRange E EfiConventional S L A ?s = Some u" "same_rest ?s u" "mMapDepth u = mMapDepth ?s + 1"
    using CoreAddRange_run [OF i, of E S L EfiConventional A] s(2) ad by (auto simp: addable_def at_rest_def)
  note r = added_range [OF p ad u(1)]
  have "(unat S, EfiConventional, A) \<in> cells u" using r(3) L(1) n(2) by (simp add: block_def)
  then have left: "page_left u" using n(1) a(2) unfolding page_left_def by (metis unat_eq_0)
  have ur: "mFreeMapStack u = 0" "gMemoryLock u = EfiLockAcquired" "mMapDepth u \<le> 3"
    using u(2,3) s(2) by (simp_all add: same_rest_def at_rest_def)
  obtain v where v: "FreeMapStack E u = Some v" "mMapDepth v = 0" "gMemoryLock v = EfiLockAcquired"
    using free_map_stack_returns [OF r(1) ur left, of E] by blast
  let ?t = "v\<lparr>gMemoryLock := EfiLockReleased\<rparr>"
  have rel: "CoreReleaseMemoryLock E v = Some ?t" using v(3) by (simp add: CoreReleaseMemoryLock_def)
  have k: "kept u v" using fms.F_keeps [OF v(1) r(1)] by blast
  have al: "S AND EFI_PAGE_MASK = 0" using n(1) aligned_iff [of S 12] by (simp add: mask_eq_exp_minus_1)
  have "mMemoryTypeInformationInitialized v" using added_kept [OF p ad u(1)] k s(4) by (simp add: kept_def)
  then have "CoreAddMemoryDescriptor E EfiConventional S n A s = Some ?t"
    using al acq u(1) v(1) rel E unfolding CoreAddMemoryDescriptor_def L_def by simp
  then show ?thesis using v(2) k ur(1) by (simp add: at_rest_def kept_def)
qed

text \<open>With nothing to promote, a request that does not fit is refused.\<close>

lemma nothing_promoted:
  "\<forall>i \<in> set is. \<not> promotable (mGcdMemorySpaceMap s ! i) \<Longrightarrow> promote_loop E F is p s = Some (p, s)"
  by (induction "is") (simp_all add: Let_def)

lemma CoreAllocatePages_refuses:
  assumes s: "page_inv s" "gMemoryLock s = EfiLockReleased" "mGcdMemorySpaceLock s = EfiLockReleased" "\<forall>g \<in> set (mGcdMemorySpaceMap s). \<not> promotable g"
    and Ty: "Ty \<in> {AllocateAnyPages, AllocateMaxAddress}" and T: "T \<noteq> EfiConventional" "\<not> (EfiMaxMemoryType \<le> T \<and> T \<le> 0x7fffffff)"
    and n: "unat n < 2 ^ 52" and no: "\<And>b. fits s (unat n) 0 (unat (page_limit Ty M)) b \<Longrightarrow> b = 0"
  shows "\<exists>t. CoreAllocatePages E Ty T n M s = Some (EFI_OUT_OF_RESOURCES, M, t)"
proof -
  let ?s = "s\<lparr>gMemoryLock := EfiLockAcquired\<rparr>"
  have acq: "CoreAcquireMemoryLock E s = Some ?s" using s(2) by (simp add: CoreAcquireMemoryLock_def)
  note sm = CoreAcquireMemoryLock_same [OF acq]
  have p: "page_inv ?s" by (rule same_map_page_inv [OF sm(1) s(1)])
  then have mi: "map_inv ?s" by (simp add: page_inv_def)
  obtain S u where u: "find_in_bins (page_limit Ty M) n T 0x1000 ?s = Some (S, u)" "same_map ?s u"
    "S \<noteq> 0 \<longrightarrow> 0 < unat n \<and> fits ?s (unat n) 0 (unat (page_limit Ty M)) (unat S)"
    using find_in_bins_spec [OF mi n, of "page_limit Ty M" T] by (elim exE conjE) (rule that)
  have "S = 0" using u(3) no [of "unat S"] by (auto simp: fits_same_map [OF sm(1)] unat_eq_0)
  have ul: "gMemoryLock u = EfiLockAcquired" "mGcdMemorySpaceLock u = EfiLockReleased" "mGcdMemorySpaceMap u = mGcdMemorySpaceMap s"
    using u(1) s(3) by (auto simp: find_in_bins_def bind_eq_Some_conv Let_def split: if_splits)
  let ?u = "u\<lparr>mGcdMemorySpaceLock := EfiLockReleased\<rparr>" and ?v = "u\<lparr>mGcdMemorySpaceLock := EfiLockAcquired\<rparr>"
  have "promote_loop E (FreeMapStack E) [0..<length (mGcdMemorySpaceMap ?v)] False ?v = Some (False, ?v)"
    using s(4) ul(3) by (intro nothing_promoted) simp
  then have "PromoteMemoryResource E (FreeMapStack E) u = Some (False, ?u)" using ul by (simp add: PromoteMemoryResource_def)
  then have find: "FindFreePages E (FreeMapStack E) (page_limit Ty M) n T 0x1000 ?s = Some (0, ?u)"
    using u(1) \<open>S = 0\<close> by (subst FindFreePages.simps) simp
  have "CoreReleaseMemoryLock E ?u = Some (?u\<lparr>gMemoryLock := EfiLockReleased\<rparr>)" using ul by (simp add: CoreReleaseMemoryLock_def)
  then have "CoreAllocatePages E Ty T n M s = Some (EFI_OUT_OF_RESOURCES, M, ?u\<lparr>gMemoryLock := EfiLockReleased\<rparr>)"
    using Ty T acq find unfolding CoreAllocatePages_def page_alignment_page round_pages_page Let_def by auto
  then show ?thesis by blast
qed

end
