(* ===== verification/PageReport.thy ===== *)
theory PageReport
  imports PageServices
begin

unbundle bit_operations_syntax

section \<open>The memory map for the caller\<close>

text \<open>
  \<open>CoreGetMemoryMap\<close> merges neighbouring descriptors while it builds the map. The map it returns is compared with the
  one without merging, address by address.
\<close>

definition described :: "EFI_MEMORY_DESCRIPTOR list \<Rightarrow> (nat \<times> int \<times> uint64) set" where
  "described ds = (\<Union>d \<in> set ds. {unat (PhysicalStart d)..<unat (PhysicalStart d) + unat (DescriptorPages d) * 4096} \<times>
     {(DescriptorType d, DescriptorAttribute d)})"

definition descriptor_ok :: "EFI_MEMORY_DESCRIPTOR \<Rightarrow> bool" where
  "descriptor_ok d \<longleftrightarrow> unat (PhysicalStart d) + unat (DescriptorPages d) * 4096 < 2 ^ 64"

definition described1 :: "EFI_MEMORY_DESCRIPTOR \<Rightarrow> (nat \<times> int \<times> uint64) set" where
  "described1 d = {unat (PhysicalStart d)..<unat (PhysicalStart d) + unat (DescriptorPages d) * 4096} \<times> {(DescriptorType d, DescriptorAttribute d)}"

lemma described_simps [simp]: "described [] = {}" "described (d # ds) = described1 d \<union> described ds"
  by (auto simp: described_def described1_def)

lemma described_append [simp]: "described (as @ bs) = described as \<union> described bs"
  by (simp add: described_def)

lemma pages_bytes: "descriptor_ok d \<Longrightarrow> unat (push_bit 12 (DescriptorPages d)) = unat (DescriptorPages d) * 4096"
  by (simp add: descriptor_ok_def push_bit_eq_mult unat_word_ariths)

lemma next_to:
  assumes "descriptor_ok m" "PhysicalStart m + push_bit 12 (DescriptorPages m) = PhysicalStart d"
  shows "unat (PhysicalStart d) = unat (PhysicalStart m) + unat (DescriptorPages m) * 4096"
  using assms(1) pages_bytes [OF assms(1)] unfolding assms(2) [symmetric] by (simp add: unat_add_noc descriptor_ok_def)

text \<open>Two neighbours and the descriptor that replaces them.\<close>

lemma joined:
  assumes m: "descriptor_ok m" and d: "descriptor_ok d" and next_d: "unat (PhysicalStart d) = unat (PhysicalStart m) + unat (DescriptorPages m) * 4096"
    and e: "PhysicalStart e = PhysicalStart m" "DescriptorPages e = DescriptorPages m + DescriptorPages d"
      "DescriptorType e = DescriptorType m" "DescriptorAttribute e = DescriptorAttribute m"
      "DescriptorType d = DescriptorType m" "DescriptorAttribute d = DescriptorAttribute m"
  shows "descriptor_ok e" "described1 e = described1 m \<union> described1 d"
proof -
  have p: "unat (DescriptorPages e) = unat (DescriptorPages m) + unat (DescriptorPages d)"
    using d next_d unfolding e(2) descriptor_ok_def by (intro unat_add_noc) simp
  have s: "unat (PhysicalStart e) + unat (DescriptorPages e) * 4096 = unat (PhysicalStart d) + unat (DescriptorPages d) * 4096"
    using p next_d by (simp add: e(1))
  then show "descriptor_ok e" using d by (simp add: descriptor_ok_def)
  let ?a = "unat (PhysicalStart m)" and ?b = "unat (PhysicalStart d)" and ?c = "unat (PhysicalStart d) + unat (DescriptorPages d) * 4096"
  have "{?a..<?c} = {?a..<?b} \<union> {?b..<?c}" using next_d by auto
  then show "described1 e = described1 m \<union> described1 d"
    unfolding described1_def s unfolding next_d [symmetric] by (simp add: e Sigma_Un_distrib1)
qed

lemma MergeMemoryMapDescriptor_described:
  assumes "\<forall>m \<in> set ms. descriptor_ok m" "descriptor_ok d"
  shows "described (MergeMemoryMapDescriptor ms d) = described ms \<union> described1 d"
    "\<forall>m \<in> set (MergeMemoryMapDescriptor ms d). descriptor_ok m"
proof -
  have "described (MergeMemoryMapDescriptor ms d) = described ms \<union> described1 d \<and>
    (\<forall>m \<in> set (MergeMemoryMapDescriptor ms d). descriptor_ok m)"
    using assms
  proof (induction ms d rule: MergeMemoryMapDescriptor.induct)
    case (2 m ms d)
    have md: "descriptor_ok m" "descriptor_ok d" "\<forall>m \<in> set ms. descriptor_ok m" using "2.prems" by simp_all
    let ?s = "DescriptorType m = DescriptorType d \<and> DescriptorAttribute m = DescriptorAttribute d"
    consider (other) "\<not> ?s" | (below) "?s" "PhysicalStart m + push_bit 12 (DescriptorPages m) = PhysicalStart d"
      | (above) "?s" "PhysicalStart m + push_bit 12 (DescriptorPages m) \<noteq> PhysicalStart d"
          "PhysicalStart m - push_bit 12 (DescriptorPages d) = PhysicalStart d"
      | (apart) "?s" "PhysicalStart m + push_bit 12 (DescriptorPages m) \<noteq> PhysicalStart d"
          "PhysicalStart m - push_bit 12 (DescriptorPages d) \<noteq> PhysicalStart d" by blast
    then show ?case
    proof cases
      case other
      then have e: "MergeMemoryMapDescriptor (m # ms) d = m # MergeMemoryMapDescriptor ms d" by auto
      have "DescriptorType m \<noteq> DescriptorType d \<or> DescriptorAttribute m \<noteq> DescriptorAttribute d" using other by blast
      from 2(1) [OF this md(3,2)] show ?thesis unfolding e described_simps using md(1) by auto
    next
      case below
      let ?e = "m\<lparr>DescriptorPages := DescriptorPages m + DescriptorPages d\<rparr>"
      have j: "descriptor_ok ?e" "described1 ?e = described1 m \<union> described1 d"
        by (rule joined [OF md(1,2) next_to [OF md(1) below(2)]]; simp add: below(1))+
      have e: "MergeMemoryMapDescriptor (m # ms) d = ?e # ms" using below by simp
      show ?thesis unfolding e described_simps j(2) using j(1) md(3) by auto
    next
      case above
      let ?e = "m\<lparr>PhysicalStart := PhysicalStart d, DescriptorVirtualStart := DescriptorVirtualStart d,
        DescriptorPages := DescriptorPages m + DescriptorPages d\<rparr>"
      have "PhysicalStart d + push_bit 12 (DescriptorPages d) = PhysicalStart m" using above(3) by (simp add: diff_eq_eq)
      then have j: "descriptor_ok ?e" "described1 ?e = described1 d \<union> described1 m"
        by (rule joined [OF md(2,1) next_to [OF md(2)]]; simp add: above(1) add.commute)+
      have e: "MergeMemoryMapDescriptor (m # ms) d = ?e # ms" using above by simp
      show ?thesis unfolding e described_simps j(2) using j(1) md(3) by auto
    next
      case apart
      then have e: "MergeMemoryMapDescriptor (m # ms) d = m # MergeMemoryMapDescriptor ms d" by auto
      have "\<not> (DescriptorType m \<noteq> DescriptorType d \<or> DescriptorAttribute m \<noteq> DescriptorAttribute d)" using apart(1) by blast
      from 2(2) [OF this apart(2,3) md(3,2)] show ?thesis unfolding e described_simps using md(1) by auto
    qed
  qed simp
  then show "described (MergeMemoryMapDescriptor ms d) = described ms \<union> described1 d"
    "\<forall>m \<in> set (MergeMemoryMapDescriptor ms d). descriptor_ok m" by blast+
qed

lemma merge_all_described:
  assumes "\<forall>m \<in> set ms. descriptor_ok m" "\<forall>d \<in> set ds. descriptor_ok d"
  shows "described (fold (\<lambda>d ms. MergeMemoryMapDescriptor ms d) ds ms) = described ms \<union> described ds"
  using assms
proof (induction ds arbitrary: ms)
  case (Cons d ds)
  note m = MergeMemoryMapDescriptor_described [OF Cons.prems(1), of d]
  have "described (fold (\<lambda>d ms. MergeMemoryMapDescriptor ms d) ds (MergeMemoryMapDescriptor ms d)) = described (MergeMemoryMapDescriptor ms d) \<union> described ds"
    using Cons.IH m(2) Cons.prems(2) by simp
  then show ?case using m(1) Cons.prems(2) by auto
qed simp

subsection \<open>The map without merging\<close>

definition reported_attribute :: "'w mem \<Rightarrow> MEMORY_MAP \<Rightarrow> uint64" where
  "reported_attribute s e =
     (if Runtime (mMemoryTypeStatistics s (nat (reported_type s e))) then Attribute e OR EFI_MEMORY_RUNTIME else Attribute e)"

definition reported_cells :: "'w mem \<Rightarrow> (nat \<times> int \<times> uint64) set" where
  "reported_cells s = {(x, T, A). \<exists>l e. mapped_at s l e \<and> x \<in> rng e \<and> T = reported_type s e \<and> A = reported_attribute s e} \<union>
     {(x, T, A). \<exists>g \<in> set (mGcdMemorySpaceMap s). runtime_gcd_entry g \<and> x \<in> {unat (BaseAddress g)..unat (EndAddress g)} \<and>
        T = DescriptorType (gcd_descriptor g) \<and> A = DescriptorAttribute (gcd_descriptor g)}"

lemma range_pages:
  assumes "range_ok (unat (S :: uint64)) (unat L + 1)"
  shows "unat S + unat (drop_bit 12 (L - S + 1)) * 4096 = unat L + 1"
proof -
  have "S \<le> L" using range_ok_less [OF assms] by (simp add: word_le_nat_alt)
  then have "unat (L - S) = unat L - unat S" by (simp add: unat_sub)
  moreover have "unat L + 1 < 2 ^ 64" using assms by (simp add: range_ok_def)
  ultimately have "unat (L - S + 1) = unat L - unat S + 1" using unat_inc [of "L - S"] by linarith
  then have u: "unat (L - S + 1) = unat L + 1 - unat S" using range_ok_less [OF assms] by simp
  have d: "4096 dvd unat L + 1 - unat S" using assms by (intro dvd_diff_nat) (simp_all add: range_ok_def)
  have "unat (drop_bit 12 (L - S + 1)) = (unat L + 1 - unat S) div 4096" by (simp only: unat_drop_bit_eq u) (simp add: drop_bit_eq_div)
  then show ?thesis using d range_ok_less [OF assms] by (simp add: dvd_div_mult_self)
qed

lemma build_descriptor_described:
  assumes "build_descriptor s e = Some d" "range_ok (lo e) (hi e)"
  shows "descriptor_ok d" "described1 d = rng e \<times> {(reported_type s e, reported_attribute s e)}"
proof -
  have d: "DescriptorType d = reported_type s e" "PhysicalStart d = Start e" "DescriptorPages d = drop_bit 12 (End e - Start e + 1)"
    "DescriptorAttribute d = reported_attribute s e"
    using assms(1) by (auto simp: build_descriptor_def reported_attribute_def Let_def split: if_splits)
  have r: "range_ok (unat (Start e)) (unat (End e) + 1)" using assms(2) by (simp add: lo_def hi_def)
  note p = range_pages [OF r]
  show "descriptor_ok d" using p r by (simp add: descriptor_ok_def d range_ok_def)
  show "described1 d = rng e \<times> {(reported_type s e, reported_attribute s e)}"
    unfolding described1_def d p by (simp add: lo_def hi_def)
qed

lemma build_all_described:
  assumes "those (map (build_descriptor s) es) = Some ds" "\<forall>e \<in> set es. range_ok (lo e) (hi e)"
  shows "\<forall>d \<in> set ds. descriptor_ok d" "described ds = (\<Union>e \<in> set es. rng e \<times> {(reported_type s e, reported_attribute s e)})"
proof -
  have "(\<forall>d \<in> set ds. descriptor_ok d) \<and> described ds = (\<Union>e \<in> set es. rng e \<times> {(reported_type s e, reported_attribute s e)})"
    using assms
  proof (induction es arbitrary: ds)
    case (Cons e es)
    obtain d ds' where d: "build_descriptor s e = Some d" "those (map (build_descriptor s) es) = Some ds'" "ds = d # ds'"
      using Cons.prems(1) by (auto split: option.splits)
    note b = build_descriptor_described [OF d(1)]
    show ?case using Cons.IH [OF d(2)] Cons.prems(2) b by (simp add: d(3))
  qed simp
  then show "\<forall>d \<in> set ds. descriptor_ok d" "described ds = (\<Union>e \<in> set es. rng e \<times> {(reported_type s e, reported_attribute s e)})" by blast+
qed

lemma gcd_descriptor_described:
  assumes "range_ok (unat (BaseAddress g)) (unat (EndAddress g) + 1)"
  shows "descriptor_ok (gcd_descriptor g)" "described1 (gcd_descriptor g) =
    {unat (BaseAddress g)..unat (EndAddress g)} \<times> {(DescriptorType (gcd_descriptor g), DescriptorAttribute (gcd_descriptor g))}"
proof -
  have d: "PhysicalStart (gcd_descriptor g) = BaseAddress g" "DescriptorPages (gcd_descriptor g) = drop_bit 12 (EndAddress g - BaseAddress g + 1)"
    by (simp_all add: gcd_descriptor_def)
  note p = range_pages [OF assms]
  show "descriptor_ok (gcd_descriptor g)" using p assms by (simp add: descriptor_ok_def d range_ok_def)
  show "described1 (gcd_descriptor g) =
    {unat (BaseAddress g)..unat (EndAddress g)} \<times> {(DescriptorType (gcd_descriptor g), DescriptorAttribute (gcd_descriptor g))}"
    unfolding described1_def d p by (simp add: atLeastLessThanSuc_atLeastAtMost)
qed

definition runtime_ranges_ok :: "'w mem \<Rightarrow> bool" where
  "runtime_ranges_ok s \<longleftrightarrow> (\<forall>g \<in> set (mGcdMemorySpaceMap s). runtime_gcd_entry g \<longrightarrow> range_ok (unat (BaseAddress g)) (unat (EndAddress g) + 1))"

lemma map_entries_rng:
  assumes "map_entries s = Some es" "map_inv s"
  shows "set es = {e. \<exists>l. mapped_at s l e}" "\<forall>e \<in> set es. range_ok (lo e) (hi e)"
proof -
  have "\<forall>l \<in> set (gMemoryMap s). MapEntries s l \<noteq> None" using map_invD(2) [OF assms(2)] by (auto simp: mapped_at_def)
  from map_entries_set [OF this] assms(1) show s: "set es = {e. \<exists>l. mapped_at s l e}" by auto
  then show "\<forall>e \<in> set es. range_ok (lo e) (hi e)" using map_invD(3) [OF assms(2)] by auto
qed

lemma CoreGetMemoryMap_reports:
  assumes s: "map_inv s" "runtime_ranges_ok s" and run: "CoreGetMemoryMap E (Some sz) True s = Some (EFI_SUCCESS, sz', ds, key, t)"
  shows "described ds = reported_cells s" "key = Some (mMemoryMapKey s)" "sz' = Some (48 * of_nat (length ds))" "mMemoryMapKey t = mMemoryMapKey s"
proof -
  let ?s = "s\<lparr>mGcdMemorySpaceLock := EfiLockAcquired\<rparr>" and ?gs = "filter runtime_gcd_entry (mGcdMemorySpaceMap s)"
  obtain u es bs v where r: "CoreAcquireMemoryLock E ?s = Some u" "map_entries u = Some es" "those (map (build_descriptor u) es) = Some bs"
    "ds = fold (\<lambda>d ms. MergeMemoryMapDescriptor ms d) (bs @ map gcd_descriptor ?gs) []" "CoreReleaseMemoryLock E u = Some v"
    "key = Some (mMemoryMapKey v)" "sz' = Some (48 * of_nat (length ds))" "t = v\<lparr>mGcdMemorySpaceLock := EfiLockReleased\<rparr>"
    using run by (auto simp: CoreGetMemoryMap_def bind_eq_Some_conv Let_def split: if_splits)
  have u: "u = ?s\<lparr>gMemoryLock := EfiLockAcquired\<rparr>" "v = u\<lparr>gMemoryLock := EfiLockReleased\<rparr>"
    using r(1,5) by (auto simp: CoreAcquireMemoryLock_def CoreReleaseMemoryLock_def bind_eq_Some_conv)
  have same: "mapped_at u = mapped_at s" "reported_type u = reported_type s" "reported_attribute u = reported_attribute s"
    by (simp_all add: u(1) fun_eq_iff mapped_at_def reported_type_def reported_attribute_def Let_def)
  have "map_inv u" by (rule map_inv_cong [OF same(1) _ s(1)]) (simp add: u(1))
  note es = map_entries_rng [OF r(2) this]
  note b = build_all_described [OF r(3) es(2)]
  have g: "\<forall>d \<in> set (map gcd_descriptor ?gs). descriptor_ok d" using s(2) gcd_descriptor_described(1) by (auto simp: runtime_ranges_ok_def)
  have gd: "described (map gcd_descriptor gs) = (\<Union>g \<in> set gs. {unat (BaseAddress g)..unat (EndAddress g)} \<times>
      {(DescriptorType (gcd_descriptor g), DescriptorAttribute (gcd_descriptor g))})"
    if "\<forall>g \<in> set gs. range_ok (unat (BaseAddress g)) (unat (EndAddress g) + 1)" for gs
    using that by (induction gs) (simp_all add: gcd_descriptor_described(2))
  have "described ds = described bs \<union> described (map gcd_descriptor ?gs)"
    unfolding r(4) using merge_all_described [of "[]" "bs @ map gcd_descriptor ?gs"] b(1) g by auto
  also have "\<dots> = reported_cells s"
    unfolding b(2) es(1) same reported_cells_def using s(2) by (subst gd) (auto simp: runtime_ranges_ok_def, blast)
  finally show "described ds = reported_cells s" .
  show "key = Some (mMemoryMapKey s)" "sz' = Some (48 * of_nat (length ds))" "mMemoryMapKey t = mMemoryMapKey s"
    using r(6,7,8) u by simp_all
qed

end
