(* ===== verification/PageProps.thy ===== *)
theory PageProps
  imports PageLive PageReport "HOL-Library.Code_Target_Nat"
begin

unbundle bit_operations_syntax

section \<open>Properties of the page allocator\<close>

text \<open>
  The properties of the memory map and of the page services, each with a witness on a small machine with eight pages
  of memory.
\<close>

subsection \<open>A small machine\<close>

abbreviation (input) "EfiLoaderData \<equiv> 2 :: int"

definition demo_mem_env :: "unit mem_env" where
  "demo_mem_env = \<lparr>MemAsserts = True, NotifyMemoryMapChange = id, DxeCoreImageHandle = 1, PcdLoadModuleAtFixAddressEnable = False,
     PcdLoadFixAddressRuntimeCodePageNumber = 0, PcdLoadFixAddressBootTimeCodePageNumber = 0, DxeCodeTopAddress = 0\<rparr>"

definition demo_mem :: "unit mem" where
  "demo_mem = \<lparr>mGcdMemorySpaceMap = [], mGcdIoSpaceMap = [], mGcdMemorySpaceLock = EfiLockReleased, mGcdIoSpaceLock = EfiLockReleased,
     Memory = (), gMemoryMap = [], mFreeMemoryMapEntryList = [], MapEntries = (\<lambda>_. None), mMapDepth = 0, mFreeMapStack = 0,
     mMemoryMapKey = 0, mMemoryTypeStatistics = init_statistics, mDefaultMaximumAddress = 0xffffffffffffffff,
     mDefaultBaseAddress = 0xffffffffffffffff, gMemoryTypeInformation = replicate 15 (14, 0),
     mMemoryTypeInformationInitialized = True, gLoadFixedAddressCodeMemoryReady = False, gMemoryLock = EfiLockReleased\<rparr>"

lemma demo_mem_start: "page_start demo_mem"
  by (simp add: page_start_def demo_mem_def promo_ok_def bins_ready_def bin_types_distinct_def unused_def information_indexes_def upt_rec)

lemma demo_add: "page_op_ok (AddMemory EfiConventional 0x2000 8 15) demo_mem"
  by (simp add: addable_def range_ok_def demo_mem_def free_of_def cells_def mapped_at_def)

text \<open>A machine in use: five free pages, two that a loader has, and one with the descriptors.\<close>

definition demo_mem1 :: "unit mem" where
  "demo_mem1 = demo_mem\<lparr>gMemoryMap := [0x9000, 0x9080, 0x9040], mFreeMemoryMapEntryList := [0x90c0, 0x9100],
     MapEntries := [0x9000 \<mapsto> \<lparr>FromPages = True, Type = EfiConventional, Start = 0x2000, End = 0x6fff, VirtualStart = 0, Attribute = 15\<rparr>,
       0x9040 \<mapsto> \<lparr>FromPages = True, Type = EfiBootServicesData, Start = 0x9000, End = 0x9fff, VirtualStart = 0, Attribute = 15\<rparr>,
       0x9080 \<mapsto> \<lparr>FromPages = True, Type = EfiLoaderData, Start = 0x7000, End = 0x8fff, VirtualStart = 0, Attribute = 15\<rparr>]\<rparr>"

lemma demo_mapped: "mapped_at demo_mem1 l e \<longleftrightarrow>
    l = 0x9000 \<and> e = \<lparr>FromPages = True, Type = EfiConventional, Start = 0x2000, End = 0x6fff, VirtualStart = 0, Attribute = 15\<rparr> \<or>
    l = 0x9080 \<and> e = \<lparr>FromPages = True, Type = EfiLoaderData, Start = 0x7000, End = 0x8fff, VirtualStart = 0, Attribute = 15\<rparr> \<or>
    l = 0x9040 \<and> e = \<lparr>FromPages = True, Type = EfiBootServicesData, Start = 0x9000, End = 0x9fff, VirtualStart = 0, Attribute = 15\<rparr>"
  by (auto simp: mapped_at_def demo_mem1_def)

lemma cells_blocks:
  assumes "\<And>l e. mapped_at s l e \<longleftrightarrow> (l, e) \<in> M"
  shows "cells s = (\<Union>(l, e) \<in> M. block (lo e) (hi e) (Type e) (Attribute e))"
  unfolding cells_def assms by (fastforce simp: block_def)

lemma demo_cells: "cells demo_mem1 = block 0x2000 0x7000 EfiConventional 15 \<union> block 0x7000 0x9000 EfiLoaderData 15 \<union>
    block 0x9000 0xa000 EfiBootServicesData 15"
  by (subst cells_blocks [where M = "{(0x9000, \<lparr>FromPages = True, Type = EfiConventional, Start = 0x2000, End = 0x6fff, VirtualStart = 0, Attribute = 15\<rparr>),
      (0x9080, \<lparr>FromPages = True, Type = EfiLoaderData, Start = 0x7000, End = 0x8fff, VirtualStart = 0, Attribute = 15\<rparr>),
      (0x9040, \<lparr>FromPages = True, Type = EfiBootServicesData, Start = 0x9000, End = 0x9fff, VirtualStart = 0, Attribute = 15\<rparr>)}"])
    (simp_all add: demo_mapped lo_def hi_def Un_assoc)

lemma demo_ready: "page_ready demo_mem1"
proof -
  have r: "l = 0x9000 \<and> lo e = 0x2000 \<and> hi e = 0x7000 \<or> l = 0x9080 \<and> lo e = 0x7000 \<and> hi e = 0x9000 \<or> l = 0x9040 \<and> lo e = 0x9000 \<and> hi e = 0xa000"
    if "mapped_at demo_mem1 l e" for l e using that by (auto simp: demo_mapped lo_def hi_def)
  have "map_inv demo_mem1"
  proof (rule map_invI)
    show "distinct (gMemoryMap demo_mem1)" by (simp add: demo_mem1_def)
    show "MapEntries demo_mem1 l \<noteq> None" if "l \<in> set (gMemoryMap demo_mem1)" for l using that by (auto simp: demo_mem1_def)
    show "range_ok (lo e) (hi e)" if "mapped_at demo_mem1 l e" for l e using r [OF that] by (auto simp: range_ok_def)
    show "l = l'" if "mapped_at demo_mem1 l e" "mapped_at demo_mem1 l' e'" "x \<in> rng e" "x \<in> rng e'" for l e l' e' x
      using r [OF that(1)] r [OF that(2)] that(3,4) by (elim disjE conjE) simp_all
  qed
  moreover have "ids_inv demo_mem1"
    unfolding ids_inv_def demo_mapped by (auto simp: demo_mem1_def demo_mem_def)
  moreover have "stored_in (stored demo_mem1) (cells demo_mem1)"
    unfolding stored_in_def demo_cells stored_def by (auto simp: demo_mem1_def block_def)
  ultimately show ?thesis
    by (simp add: page_ready_def page_inv_def bins_ready_def) (simp add: demo_mem1_def demo_mem_def promo_ok_def)
qed

lemma demo_mem_inv: "page_inv demo_mem1"
  using demo_ready by (simp add: page_ready_def)

lemma demo_rest: "at_rest demo_mem1" "gMemoryLock demo_mem1 = EfiLockReleased"
  by (simp_all add: at_rest_def demo_mem1_def demo_mem_def)

lemma demo_owned: "owned demo_mem1 0x7000 0x9000"
  unfolding owned_def allocated_def demo_cells by (auto simp: stored_def demo_mem1_def block_def intro: exI [of _ "2 :: int"])

lemma demo_free: "mapped_at demo_mem1 36864 \<lparr>FromPages = True, Type = EfiConventional, Start = 0x2000, End = 0x6fff, VirtualStart = 0, Attribute = 15\<rparr>"
  by (simp add: demo_mapped)

lemma fitsI: "mapped_at s l e \<Longrightarrow> Type e = EfiConventional \<Longrightarrow> lo e \<le> a \<Longrightarrow> a + n * 4096 \<le> hi e \<Longrightarrow> 4096 dvd a \<Longrightarrow> mn \<le> a \<Longrightarrow>
    a + n * 4096 \<le> mx + 1 \<Longrightarrow> fits s n mn mx a"
  unfolding fits_def by blast

lemma demo_fits: "n \<le> 5 \<Longrightarrow> fits demo_mem1 n 0 (unat MAX_ADDRESS) 8192"
  by (rule fitsI [OF demo_free]) (simp_all add: lo_def hi_def)

lemma demo_full: "5 < n \<Longrightarrow> \<not> fits demo_mem1 n 0 m b"
  by (auto simp: fits_def demo_mapped lo_def hi_def)

lemma demo_allocates:
  "\<exists>B t. CoreAllocatePages demo_mem_env AllocateAnyPages EfiLoaderData 2 0 demo_mem1 = Some (EFI_SUCCESS, B, t) \<and> at_rest t \<and> gMemoryLock t = EfiLockReleased"
  by (rule CoreAllocatePages_returns [OF demo_mem_inv demo_rest, where b = 8192]) (use demo_fits [of 3] in simp_all)

subsection \<open>The invariant\<close>

text \<open>C9. Whatever calls allocate and free pages, add memory and read or freeze the map, from the empty map on,
  where memory is added that is not there yet and its owner frees it: the descriptors
  of the map are distinct, each covers whole pages, and no two of them overlap; the free descriptors are
  distinct and none is in the map; and every descriptor outside \<open>mMapStack\<close> lies in memory of the map itself,
  which it holds as boot services data.\<close>

theorem memory_map_well_formed:
  assumes "page_start s" "(page_step E)\<^sup>*\<^sup>* s t"
  shows "distinct (gMemoryMap t) \<and> (\<forall>l \<in> set (gMemoryMap t). \<exists>e. MapEntries t l = Some e \<and> range_ok (lo e) (hi e)) \<and>
    (\<forall>l e l' e'. mapped_at t l e \<longrightarrow> mapped_at t l' e' \<longrightarrow> l \<noteq> l' \<longrightarrow> {lo e..<hi e} \<inter> {lo e'..<hi e'} = {}) \<and>
    distinct (mFreeMemoryMapEntryList t) \<and> set (mFreeMemoryMapEntryList t) \<inter> set (gMemoryMap t) = {} \<and>
    (\<forall>l \<in> set (gMemoryMap t) \<union> set (mFreeMemoryMapEntryList t). 4096 \<le> l \<longrightarrow> (\<exists>A. (l, EfiBootServicesData, A) \<in> cells t))"
proof -
  have "page_ready t" by (rule pages.inv_reachable [OF assms])
  then have inv: "map_inv t" "ids_inv t" "stored_in (stored t) (cells t)" by (simp_all add: page_ready_def page_inv_def)
  have "\<exists>e. MapEntries t l = Some e \<and> range_ok (lo e) (hi e)" if "l \<in> set (gMemoryMap t)" for l
    using map_invD(2,3) [OF inv(1)] that by (fastforce simp: mapped_at_def)
  moreover have "{lo e..<hi e} \<inter> {lo e'..<hi e'} = {}" if "mapped_at t l e" "mapped_at t l' e'" "l \<noteq> l'" for l e l' e'
    using map_invD(4) [OF inv(1) that(1,2)] that(3) by blast
  ultimately show ?thesis using map_invD(1) [OF inv(1)] inv(2,3) by (auto simp: ids_inv_def stored_in_def stored_def)
qed

lemma memory_map_well_formed_witness:
  "\<exists>t. page_step demo_mem_env demo_mem t \<and> distinct (gMemoryMap t) \<and> distinct (mFreeMemoryMapEntryList t)"
proof -
  have s: "page_inv demo_mem" using page_start_ready [OF demo_mem_start] by (simp add: page_ready_def)
  have r: "at_rest demo_mem" "gMemoryLock demo_mem = EfiLockReleased" "mMemoryTypeInformationInitialized demo_mem"
    by (simp_all add: at_rest_def demo_mem_def)
  have "addable demo_mem (unat (0x2000 :: uint64)) (unat (0x2000 :: uint64) + unat (8 :: uint64) * 4096)" using demo_add by simp
  from CoreAddMemoryDescriptor_returns [OF s r this, of demo_mem_env 15]
  obtain t where "CoreAddMemoryDescriptor demo_mem_env EfiConventional 0x2000 8 15 demo_mem = Some t" by (auto simp: demo_mem_env_def)
  then have "page_step demo_mem_env demo_mem t" by (intro page_step.call [OF demo_add]) simp
  with memory_map_well_formed [OF demo_mem_start r_into_rtranclp, OF this] show ?thesis by blast
qed

subsection \<open>Allocation\<close>

text \<open>C10. Pages that \<open>CoreAllocatePages\<close> returns were not allocated before, and have the type that was asked for
  and the attributes they had; memory that was allocated stays as it was, no descriptor of
  the map lies in the new pages, and the limit or the address of the caller is observed. The number of pages
  is below \<open>2\<^sup>5\<^sup>2\<close>: their bytes fit into 64 bits.\<close>

theorem CoreAllocatePages_safe:
  assumes "page_ready s" "unat n < 2 ^ 52" and run: "CoreAllocatePages E Ty T n M s = Some (EFI_SUCCESS, B, t)"
  shows "0 < unat n \<and> 4096 dvd unat B \<and>
    (\<forall>x \<in> {unat B..<unat B + unat n * 4096}. \<not> allocated s x \<and> (\<exists>A. (x, T, A) \<in> cells t \<and> (\<forall>U A'. (x, U, A') \<in> cells s \<longrightarrow> A' = A))) \<and>
    (\<forall>x U A. (x, U, A) \<in> cells s \<longrightarrow> U \<noteq> EfiConventional \<longrightarrow> (x, U, A) \<in> cells t) \<and>
    stored t \<inter> {unat B..<unat B + unat n * 4096} = {} \<and>
    (Ty = AllocateMaxAddress \<longrightarrow> unat B + unat n * 4096 \<le> unat M + 1) \<and> (Ty = AllocateAddress \<longrightarrow> B = M)"
proof -
  let ?R = "{unat B..<unat B + unat n * 4096}"
  have "page_inv s" using assms(1) by (simp add: page_ready_def)
  note c = CoreAllocatePages_success [OF this run]
  note tt = turnedD [OF c(7) [OF assms(2)]]
  have new: "\<not> allocated s x \<and> (\<exists>A. (x, T, A) \<in> cells t \<and> (\<forall>U A'. (x, U, A') \<in> cells s \<longrightarrow> A' = A))" if "x \<in> ?R" for x
    using tt(1,2) [OF that] c(3) by blast
  moreover have "(x, U, A) \<in> cells t" if "(x, U, A) \<in> cells s" "U \<noteq> EfiConventional" for x U A
  proof -
    have "allocated s x" using that by (auto simp: allocated_def)
    then have "x \<notin> ?R" using new by blast
    then show ?thesis using tt(3) [OF that(1)] that(2) by blast
  qed
  ultimately show ?thesis using c(4,5) tt(5) c(3) c(8) [OF assms(2)] c(9) by blast
qed

lemma CoreAllocatePages_safe_witness:
  "\<exists>B t. CoreAllocatePages demo_mem_env AllocateAnyPages EfiLoaderData 2 0 demo_mem1 = Some (EFI_SUCCESS, B, t) \<and>
    (\<forall>x \<in> {unat B..<unat B + unat (2 :: uint64) * 4096}. \<not> allocated demo_mem1 x \<and> (\<exists>A. (x, EfiLoaderData, A) \<in> cells t))"
proof -
  obtain B t where r: "CoreAllocatePages demo_mem_env AllocateAnyPages EfiLoaderData 2 0 demo_mem1 = Some (EFI_SUCCESS, B, t)"
    using demo_allocates by blast
  have n: "unat (2 :: uint64) < 2 ^ 52" by simp
  note c = CoreAllocatePages_safe [OF demo_ready n r]
  have "\<not> allocated demo_mem1 x \<and> (\<exists>A. (x, EfiLoaderData, A) \<in> cells t)" if "x \<in> {unat B..<unat B + unat (2 :: uint64) * 4096}" for x
    using c that by (elim conjE) blast
  then show ?thesis using r by blast
qed

text \<open>C11. A request by type or by limit that fails has no effect on allocated memory and returns no address; it fails for lack of
  memory only if no range of that many free pages is left below the limit, other than one at address 0, which
  the code cannot tell from a failure.\<close>

theorem CoreAllocatePages_out_of_resources:
  assumes "page_ready s" "0 < unat n" "unat n < 2 ^ 52" "Ty \<noteq> AllocateAddress"
    and run: "CoreAllocatePages E Ty T n M s = Some (st, B, t)" "st \<noteq> EFI_SUCCESS"
  shows "B = M \<and> (\<forall>x U A. (x, U, A) \<in> cells s \<longrightarrow> U \<noteq> EfiConventional \<longrightarrow> (x, U, A) \<in> cells t) \<and>
    (st = EFI_OUT_OF_RESOURCES \<longrightarrow> (\<forall>b. fits t (unat n) 0 (unat (page_limit Ty M)) b \<longrightarrow> b = 0))"
proof -
  have "page_inv s" using assms(1) by (simp add: page_ready_def)
  note c = CoreAllocatePages_failure [OF this run]
  have "(x, U, A) \<in> cells t" if "(x, U, A) \<in> cells s" "U \<noteq> EfiConventional" for x U A
    using turnedD(3) [OF c(5) [OF assms(4,3)] that(1)] that(2) by simp
  then show ?thesis using c(3) c(6) [OF _ assms(3,2)] by blast
qed

lemma CoreAllocatePages_out_of_resources_witness:
  "\<exists>t. CoreAllocatePages demo_mem_env AllocateAnyPages EfiLoaderData 100 0 demo_mem1 = Some (EFI_OUT_OF_RESOURCES, 0, t) \<and>
    (\<forall>b. fits t 100 0 (unat MAX_ADDRESS) b \<longrightarrow> b = 0)"
proof -
  have l: "gMemoryLock demo_mem1 = EfiLockReleased" "mGcdMemorySpaceLock demo_mem1 = EfiLockReleased" "\<forall>g \<in> set (mGcdMemorySpaceMap demo_mem1). \<not> promotable g"
    by (simp_all add: demo_mem1_def demo_mem_def)
  obtain t where r: "CoreAllocatePages demo_mem_env AllocateAnyPages EfiLoaderData 100 0 demo_mem1 = Some (EFI_OUT_OF_RESOURCES, 0, t)"
    using CoreAllocatePages_refuses [OF demo_mem_inv l, of AllocateAnyPages EfiLoaderData 100 0 demo_mem_env] by (auto simp: demo_full)
  have n: "0 < unat (100 :: uint64)" "unat (100 :: uint64) < 2 ^ 52" "AllocateAnyPages \<noteq> AllocateAddress" "EFI_OUT_OF_RESOURCES \<noteq> EFI_SUCCESS" by simp_all
  from CoreAllocatePages_out_of_resources [OF demo_ready n(1-3) r n(4)] r show ?thesis by (intro exI [of _ t]) simp
qed

text \<open>C12. A request that fits, with a page to spare for descriptors, is served: no descriptor that
  the code needs is missing, no assertion fails, and the stack of descriptors is empty afterwards.\<close>

theorem CoreAllocatePages_serves:
  assumes "page_ready s" "mMapDepth s = 0" "mFreeMapStack s = 0" "gMemoryLock s = EfiLockReleased"
    and "Ty \<in> {AllocateAnyPages, AllocateMaxAddress}" "T \<noteq> EfiConventional" "\<not> (EfiMaxMemoryType \<le> T \<and> T \<le> 0x7fffffff)"
    and "0 < unat n" "unat n < 2 ^ 52" "fits s (unat n + 1) 0 (unat (page_limit Ty M)) b" "b \<noteq> 0"
  shows "\<exists>B t. CoreAllocatePages E Ty T n M s = Some (EFI_SUCCESS, B, t) \<and> mMapDepth t = 0 \<and> mFreeMapStack t = 0 \<and> gMemoryLock t = EfiLockReleased"
  using CoreAllocatePages_returns [of s Ty T n M b E] assms by (simp add: at_rest_def page_ready_def)

lemma CoreAllocatePages_serves_witness:
  "\<exists>B t. CoreAllocatePages demo_mem_env AllocateMaxAddress EfiLoaderData 3 0x5fff demo_mem1 = Some (EFI_SUCCESS, B, t) \<and> mMapDepth t = 0 \<and>
    mFreeMapStack t = 0 \<and> gMemoryLock t = EfiLockReleased"
proof (rule CoreAllocatePages_serves [OF demo_ready])
  show "fits demo_mem1 (unat (3 :: uint64) + 1) 0 (unat (page_limit AllocateMaxAddress 0x5fff)) 8192"
    by (rule fitsI [OF demo_free]) (simp_all add: lo_def hi_def)
qed (use demo_rest in \<open>simp_all add: at_rest_def\<close>)

text \<open>C13. The number of pages is shifted into 64 bits without a check. A request for an address succeeds
  whenever the remainder of the number modulo \<open>2\<^sup>5\<^sup>2\<close> fits there, and gets no more than the remainder:
  no other page has the type that was asked for.\<close>

theorem CoreAllocatePages_page_count_wraps:
  assumes "page_ready s" "mMapDepth s = 0" "mFreeMapStack s = 0" "gMemoryLock s = EfiLockReleased"
    and T: "T \<notin> {EfiConventional, EfiBootServicesData}" "\<not> (EfiMaxMemoryType \<le> T \<and> T \<le> 0x7fffffff)"
    and e: "mapped_at s l e" "Type e = EfiConventional" "lo e \<le> unat M" "unat M + m * 4096 \<le> hi e" "0 < m" "4096 dvd unat M"
    and n: "unat n mod 2 ^ 52 = m"
    and c: "c \<noteq> 0" "4096 dvd c" "c \<notin> {unat M..<unat M + m * 4096}" "(c, EfiConventional, A) \<in> cells s"
  shows "\<exists>t. CoreAllocatePages E AllocateAddress T n M s = Some (EFI_SUCCESS, M, t) \<and>
    (\<forall>x \<in> {unat M..<unat M + m * 4096}. \<exists>A. (x, T, A) \<in> cells t) \<and>
    (\<forall>x A. x \<notin> {unat M..<unat M + m * 4096} \<longrightarrow> (x, T, A) \<in> cells t \<longrightarrow> (x, T, A) \<in> cells s)"
proof -
  let ?m = "of_nat m :: uint64"
  have "m < 2 ^ 52" using n by auto
  then have m: "unat ?m = m" by (simp add: unat_of_nat)
  have "unat (LShiftU64 n EFI_PAGE_SHIFT) = unat (LShiftU64 ?m EFI_PAGE_SHIFT)"
    using n m mod_mult_mult1 [of 4096 "unat n" "2 ^ 52"] by (simp add: LShiftU64_def push_bit_eq_mult unat_word_ariths mult.commute)
  then have sh: "LShiftU64 n EFI_PAGE_SHIFT = LShiftU64 ?m EFI_PAGE_SHIFT" by (simp add: word_unat_eq_iff)
  have s: "page_inv s" "at_rest s" using assms(1-3) by (simp_all add: page_ready_def at_rest_def)
  have T7: "T \<noteq> EfiConventional" using T(1) by simp
  obtain t where t: "CoreAllocatePages E AllocateAddress T n M s = Some (EFI_SUCCESS, M, t)" "turned T (unat M) (unat M + m * 4096) s t"
    using CoreAllocatePages_address_returns [OF s assms(4) T7 T(2) e(1-3) _ _ e(6) sh c(1,2) _ c(4), of E] e(4,5) c(3) m by auto
  have "\<exists>A. (x, T, A) \<in> cells t" if "x \<in> {unat M..<unat M + m * 4096}" for x using turnedD(2) [OF t(2) that] T7 by blast
  moreover have "(x, T, A) \<in> cells s" if "x \<notin> {unat M..<unat M + m * 4096}" "(x, T, A) \<in> cells t" for x A
    using turnedD(4) [OF t(2) that(2)] that(1) T(1) by blast
  ultimately show ?thesis using t(1) by blast
qed

lemma CoreAllocatePages_page_count_wraps_witness:
  "\<exists>t. CoreAllocatePages demo_mem_env AllocateAddress EfiLoaderData 0x10000000000002 0x3000 demo_mem1 = Some (EFI_SUCCESS, 0x3000, t) \<and>
    (\<forall>x A. x \<notin> {0x3000..<0x5000} \<longrightarrow> (x, EfiLoaderData, A) \<in> cells t \<longrightarrow> (x, EfiLoaderData, A) \<in> cells demo_mem1)"
proof -
  have r: "mMapDepth demo_mem1 = 0" "mFreeMapStack demo_mem1 = 0" "gMemoryLock demo_mem1 = EfiLockReleased"
    using demo_rest by (simp_all add: at_rest_def)
  have T: "EfiLoaderData \<notin> {EfiConventional, EfiBootServicesData}" "\<not> (EfiMaxMemoryType \<le> EfiLoaderData \<and> EfiLoaderData \<le> 0x7fffffff)" by simp_all
  have "(8192, EfiConventional, 15) \<in> cells demo_mem1" unfolding demo_cells by (simp add: block_def)
  then show ?thesis
    using CoreAllocatePages_page_count_wraps [OF demo_ready r T demo_free, where M = 12288 and m = 2 and n = 4503599627370498 and c = 8192 and A = 15 and E = demo_mem_env]
    by (simp add: lo_def hi_def) blast
qed

subsection \<open>Freeing\<close>

text \<open>C14. \<open>CoreFreePages\<close> of memory that its owner may free succeeds: all of it
  becomes free memory with the attributes it had, but for pages that the map itself takes for its descriptors; other
  allocated memory stays as it was, and memory for descriptors comes from what was free.\<close>

theorem CoreFreePages_frees:
  assumes "page_ready s" "owned s (unat M) (unat M + unat n * 4096)" "0 < unat n" "4096 dvd unat M"
    and run: "CoreFreePages E M n s = Some (st, t)"
  shows "st = EFI_SUCCESS \<and> page_ready t \<and>
    (\<forall>x \<in> {unat M..<unat M + unat n * 4096}. \<exists>A. ((x, EfiConventional, A) \<in> cells t \<or> (x, EfiBootServicesData, A) \<in> cells t) \<and>
      (\<forall>U A'. (x, U, A') \<in> cells s \<longrightarrow> A' = A)) \<and>
    (\<forall>x U A. (x, U, A) \<in> cells s \<longrightarrow> U \<noteq> EfiConventional \<longrightarrow> x \<notin> {unat M..<unat M + unat n * 4096} \<longrightarrow> (x, U, A) \<in> cells t) \<and>
    (\<forall>l \<in> stored t. l \<in> stored s \<or> \<not> allocated s l \<or> l \<in> {unat M..<unat M + unat n * 4096})"
proof -
  have s: "page_inv s" "bins_ready s" using assms(1) by (simp_all add: page_ready_def)
  note c = CoreFreePages_owned [OF s(1) assms(2-4) run]
  have "page_ready t" using c(2) bins_ready_kept [OF s(2) c(3)] by (simp add: page_ready_def)
  then show ?thesis using c(1) turnedD(2,3,6) [OF c(4)] by blast
qed

lemma CoreFreePages_frees_witness:
  "\<exists>t. CoreFreePages demo_mem_env 0x7000 2 demo_mem1 = Some (EFI_SUCCESS, t) \<and>
    (\<forall>x \<in> {0x7000..<0x9000}. \<exists>A. (x, EfiConventional, A) \<in> cells t \<or> (x, EfiBootServicesData, A) \<in> cells t)"
proof -
  have m: "mapped_at demo_mem1 36992 \<lparr>FromPages = True, Type = EfiLoaderData, Start = 0x7000, End = 0x8fff, VirtualStart = 0, Attribute = 15\<rparr>"
    by (simp add: demo_mapped)
  have o: "owned demo_mem1 (unat (0x7000 :: uint64)) (unat (0x7000 :: uint64) + unat (2 :: uint64) * 4096)" using demo_owned by simp
  have n: "0 < unat (2 :: uint64)" "4096 dvd unat (0x7000 :: uint64)" by simp_all
  obtain t where t: "CoreFreePages demo_mem_env 0x7000 2 demo_mem1 = Some (EFI_SUCCESS, t)"
    using CoreFreePages_returns [OF demo_mem_inv demo_rest m _ _ _ n _ o, of demo_mem_env] by (auto simp: lo_def hi_def)
  from CoreFreePages_frees [OF demo_ready o n t] t show ?thesis by simp blast
qed

text \<open>C15. Memory that has an owner is not touched by the calls of others: whatever sequence of calls allocates,
  adds memory, reads the map or exits, and frees other pages, the owner's bytes keep type and attributes, and no
  descriptor of the map is put there.\<close>

theorem allocated_memory_undisturbed:
  assumes "page_ready s" "run_page_ops E ops s = Some t" "\<And>op. op \<in> set ops \<Longrightarrow> released op \<inter> {a..<b} = {}" "owned s a b"
  shows "owned t a b \<and> (\<forall>x \<in> {a..<b}. \<forall>T A. (x, T, A) \<in> cells s \<longrightarrow> (x, T, A) \<in> cells t)"
  using run_page_ops_owner [OF assms] by blast

lemma allocated_memory_undisturbed_witness:
  "\<exists>k t. run_page_ops demo_mem_env [Allocate AllocateAnyPages EfiBootServicesCode 2 0, ExitBoot k] demo_mem1 = Some t \<and>
    owned t 0x7000 0x9000 \<and> (0x7000, EfiLoaderData, 15) \<in> cells t"
proof -
  let ?ops = "\<lambda>k. [Allocate AllocateAnyPages EfiBootServicesCode 2 0, ExitBoot k]"
  obtain B u where u: "CoreAllocatePages demo_mem_env AllocateAnyPages EfiBootServicesCode 2 0 demo_mem1 = Some (EFI_SUCCESS, B, u)"
    "gMemoryLock u = EfiLockReleased"
    using CoreAllocatePages_returns [OF demo_mem_inv demo_rest, of AllocateAnyPages EfiBootServicesCode 2 0 8192 demo_mem_env] demo_fits [of 3] by auto
  let ?k = "mMemoryMapKey u + 1"
  obtain st t where "CoreTerminateMemoryMap demo_mem_env ?k u = Some (st, t)"
    using u(2) by (simp add: CoreTerminateMemoryMap_def CoreAcquireMemoryLock_def CoreReleaseMemoryLock_def demo_mem_env_def)
  then have t: "run_page_ops demo_mem_env (?ops ?k) demo_mem1 = Some t" using u(1) by simp
  have "released op \<inter> {0x7000..<0x9000} = {}" if "op \<in> set (?ops ?k)" for op using that by auto
  moreover have "(0x7000, EfiLoaderData, 15) \<in> cells demo_mem1" unfolding demo_cells by (simp add: block_def)
  ultimately show ?thesis using allocated_memory_undisturbed [OF demo_ready t _ demo_owned] t by fastforce
qed

subsection \<open>The search\<close>

text \<open>C16. \<open>CoreFindFreePagesI\<close>, which looks through the descriptors in the order of the list, returns the highest place for the
  pages between the two addresses, and 0 only when there is no place other than at 0.\<close>

theorem CoreFindFreePagesI_highest:
  assumes "page_ready s" "0 < unat n" "unat n < 2 ^ 52"
  shows "\<exists>a. CoreFindFreePagesI Mx Mn n 0x1000 s = Some a \<and> (a \<noteq> 0 \<longrightarrow> fits s (unat n) (unat Mn) (unat Mx) (unat a)) \<and>
    (\<forall>b. fits s (unat n) (unat Mn) (unat Mx) b \<longrightarrow> b \<le> unat a)"
proof -
  have "map_inv s" using assms(1) by (simp add: page_ready_def page_inv_def)
  from CoreFindFreePagesI_spec [OF this assms(3), of Mx Mn] assms(2) show ?thesis by blast
qed

lemma CoreFindFreePagesI_highest_witness:
  "\<exists>a. CoreFindFreePagesI 0xffff 0 2 0x1000 demo_mem1 = Some a \<and> fits demo_mem1 2 0 0xffff (unat a) \<and> 0x5000 \<le> unat a"
proof -
  have n: "0 < unat (2 :: uint64)" "unat (2 :: uint64) < 2 ^ 52" by simp_all
  have f: "fits demo_mem1 2 0 0xffff 0x5000" by (rule fitsI [OF demo_free]) (simp_all add: lo_def hi_def)
  obtain a where a: "CoreFindFreePagesI 0xffff 0 2 0x1000 demo_mem1 = Some a" "a \<noteq> 0 \<longrightarrow> fits demo_mem1 2 0 0xffff (unat a)"
    "\<forall>b. fits demo_mem1 2 0 0xffff b \<longrightarrow> b \<le> unat a"
    using CoreFindFreePagesI_highest [OF demo_ready n, of "0xffff" 0] by auto
  moreover have "0x5000 \<le> unat a" using a(3) f by blast
  moreover from this have "a \<noteq> 0" by auto
  ultimately show ?thesis by blast
qed

subsection \<open>The map for the caller\<close>

text \<open>C17. The descriptors that \<open>CoreGetMemoryMap\<close> writes say exactly what the map says: a byte is in a
  descriptor of a type and attributes if and only if it is in a descriptor of the map that is reported with them,
  or in a runtime range of memory-mapped I/O of the global coherency domain; neither
  the merging of neighbours nor the rounding to pages changes that. The key is that of the map that was reported.\<close>

theorem CoreGetMemoryMap_describes:
  assumes "page_ready s" "runtime_ranges_ok s" and run: "CoreGetMemoryMap E (Some sz) True s = Some (EFI_SUCCESS, sz', ds, key, t)"
  shows "described ds = reported_cells s \<and> key = Some (mMemoryMapKey s) \<and> sz' = Some (48 * of_nat (length ds)) \<and> mMemoryMapKey t = mMemoryMapKey s"
proof -
  have "map_inv s" using assms(1) by (simp add: page_ready_def page_inv_def)
  from CoreGetMemoryMap_reports [OF this assms(2) run] show ?thesis by blast
qed

lemma demo_reports: "case CoreGetMemoryMap demo_mem_env (Some 1000) True demo_mem1 of None \<Rightarrow> False
   | Some (st, sz, ds, k, u) \<Rightarrow> st = EFI_SUCCESS"
  by code_simp

lemma CoreGetMemoryMap_describes_witness:
  "\<exists>sz ds t. CoreGetMemoryMap demo_mem_env (Some 1000) True demo_mem1 = Some (EFI_SUCCESS, sz, ds, Some 0, t) \<and>
    described ds = reported_cells demo_mem1"
proof -
  obtain sz ds k t where r: "CoreGetMemoryMap demo_mem_env (Some 1000) True demo_mem1 = Some (EFI_SUCCESS, sz, ds, k, t)"
    using demo_reports by (auto split: option.splits)
  have "runtime_ranges_ok demo_mem1" by (simp add: runtime_ranges_ok_def demo_mem1_def demo_mem_def)
  from CoreGetMemoryMap_describes [OF demo_ready this r] r show ?thesis by (auto simp: demo_mem1_def demo_mem_def)
qed

end
