(* ===== verification/DevicePath.thy ===== *)
theory DevicePath
  imports DxePrelude
begin

section \<open>Device paths\<close>

text \<open>
  The functions of \<^verbatim>\<open>MdePkg/Library/UefiDevicePathLib/UefiDevicePathLib.c\<close> that the handle database
  calls. A device path is a sequence of nodes in memory: type, subtype, a 16-bit length, data; the
  memory is a function from addresses to bytes. A walk over a device path whose nodes never reach an
  end node does not return, which is \<open>None\<close>.
\<close>

subsection \<open>Nodes\<close>

type_synonym memory = "nat \<Rightarrow> uint8"

abbreviation (input) "END_DEVICE_PATH_TYPE \<equiv> 0x7F :: uint8"
abbreviation (input) "END_ENTIRE_DEVICE_PATH_SUBTYPE \<equiv> 0xFF :: uint8"
abbreviation (input) "END_INSTANCE_DEVICE_PATH_SUBTYPE \<equiv> 0x01 :: uint8"

definition DevicePathType :: "bool \<Rightarrow> memory \<Rightarrow> nat \<Rightarrow> uint8 option" where
  "DevicePathType en M Node = do { ASSERT en (Some (Node \<noteq> 0)); Some (M Node) }"

definition DevicePathSubType :: "bool \<Rightarrow> memory \<Rightarrow> nat \<Rightarrow> uint8 option" where
  "DevicePathSubType en M Node = do { ASSERT en (Some (Node \<noteq> 0)); Some (M (Node + 1)) }"

definition DevicePathNodeLength :: "bool \<Rightarrow> memory \<Rightarrow> nat \<Rightarrow> nat option" where
  "DevicePathNodeLength en M Node = do {
     ASSERT en (Some (Node \<noteq> 0));
     Some (unat (M (Node + 2)) + 256 * unat (M (Node + 3)))
   }"

definition NextDevicePathNode :: "bool \<Rightarrow> memory \<Rightarrow> nat \<Rightarrow> nat option" where
  "NextDevicePathNode en M Node = do {
     ASSERT en (Some (Node \<noteq> 0));
     len \<leftarrow> DevicePathNodeLength en M Node;
     Some (Node + len)
   }"

definition IsDevicePathEndType :: "bool \<Rightarrow> memory \<Rightarrow> nat \<Rightarrow> bool option" where
  "IsDevicePathEndType en M Node = do {
     ASSERT en (Some (Node \<noteq> 0));
     t \<leftarrow> DevicePathType en M Node;
     Some (t = END_DEVICE_PATH_TYPE)
   }"

definition IsDevicePathEnd :: "bool \<Rightarrow> memory \<Rightarrow> nat \<Rightarrow> bool option" where
  "IsDevicePathEnd en M Node = do {
     ASSERT en (Some (Node \<noteq> 0));
     b \<leftarrow> IsDevicePathEndType en M Node;
     if b then do { t \<leftarrow> DevicePathSubType en M Node; Some (t = END_ENTIRE_DEVICE_PATH_SUBTYPE) }
     else Some False
   }"

definition IsDevicePathEndInstance :: "bool \<Rightarrow> memory \<Rightarrow> nat \<Rightarrow> bool option" where
  "IsDevicePathEndInstance en M Node = do {
     ASSERT en (Some (Node \<noteq> 0));
     b \<leftarrow> IsDevicePathEndType en M Node;
     if b then do { t \<leftarrow> DevicePathSubType en M Node; Some (t = END_INSTANCE_DEVICE_PATH_SUBTYPE) }
     else Some False
   }"

text \<open>The loops that look for the end of a device path.\<close>

partial_function (option) device_path_end :: "bool \<Rightarrow> memory \<Rightarrow> nat \<Rightarrow> nat option" where
  "device_path_end en M Node =
     Option.bind (IsDevicePathEnd en M Node) (\<lambda>b.
       if b then Some Node
       else Option.bind (NextDevicePathNode en M Node) (device_path_end en M))"

declare device_path_end.simps [code]

definition GetDevicePathSize :: "bool \<Rightarrow> memory \<Rightarrow> nat \<Rightarrow> nat option" where
  "GetDevicePathSize en M DevicePath =
     (if DevicePath = 0 then Some 0
      else do {
        e \<leftarrow> device_path_end en M DevicePath;
        len \<leftarrow> DevicePathNodeLength en M e;
        Some (e - DevicePath + len)
      })"

text \<open>The end of the first instance of a device path (the loop of \<open>CoreLocateDevicePath\<close>).\<close>

partial_function (option) first_instance_end :: "bool \<Rightarrow> memory \<Rightarrow> nat \<Rightarrow> nat option" where
  "first_instance_end en M Node =
     Option.bind (IsDevicePathEnd en M Node) (\<lambda>b.
       if b then Some Node
       else Option.bind (IsDevicePathEndInstance en M Node) (\<lambda>b.
         if b then Some Node
         else Option.bind (NextDevicePathNode en M Node) (first_instance_end en M)))"

declare first_instance_end.simps [code]

definition CompareMem_eq :: "memory \<Rightarrow> nat \<Rightarrow> nat \<Rightarrow> nat \<Rightarrow> bool" where
  "CompareMem_eq M a b n \<longleftrightarrow> (\<forall>i < n. M (a + i) = M (b + i))"

end
