(* ===== verification/HandleDb.thy ===== *)
theory HandleDb
  imports EventTpl DevicePath
begin

unbundle bit_operations_syntax

section \<open>The handle and protocol database of the DXE core\<close>

text \<open>
  Model of \<^verbatim>\<open>MdeModulePkg/Core/Dxe/Hand\<close>: \<^verbatim>\<open>Handle.h\<close>, \<^verbatim>\<open>Handle.c\<close>, \<^verbatim>\<open>Notify.c\<close>, \<^verbatim>\<open>Locate.c\<close>.

  The database is the context of the state \<open>dxe\<close> of the theory of events, so that its lock is
  \<open>gProtocolDatabaseLock\<close> there, its notifications are events that \<open>CoreSignalEvent\<close> signals, and releasing
  the lock runs, through the restore function \<open>R\<close>, the notification functions that are due.

  Structures are found through maps from addresses; address 0 is NULL. Linked lists are HOL lists of
  addresses in the order of the links, open records are kept in the list of their interface. A pointer
  is an \<open>IHANDLE\<close> if and only if the map of handles has it: \<open>Signature\<close> is set when a handle is created
  and zeroed before its memory is freed. Following a pointer to a structure that is not there does not
  return. The position of a notification record is 0 for the head of the list of interfaces.

  \<open>henv\<close> holds what the files call elsewhere: the pool, \<open>CoreDisconnectController\<close> and
  \<open>CoreConnectController\<close> (which call drivers, and those any service), the handle of the DXE core image,
  and the memory where device paths are read.
\<close>

subsection \<open>Data\<close>

type_synonym ptr = nat
type_synonym EFI_HANDLE = nat

record IHANDLE =
  Protocols :: "ptr list"
  LocateRequest :: uintn
  Key :: uint64

record PROTOCOL_ENTRY =
  ProtocolID :: EFI_GUID
  ByProtocol :: "ptr list"
  Notify :: "ptr list"

record OPEN_PROTOCOL_DATA =
  OpenAddress :: ptr
  AgentHandle :: EFI_HANDLE
  ControllerHandle :: EFI_HANDLE
  Attributes :: uint32
  OpenCount :: uint32

record PROTOCOL_INTERFACE =
  Handle :: ptr
  Protocol :: ptr
  Interface :: ptr
  OpenList :: "OPEN_PROTOCOL_DATA list"
  OpenListCount :: uintn

record PROTOCOL_NOTIFY =
  NotifyProtocol :: ptr
  Event :: eid
  Position :: ptr

record 'p hdb =
  mProtocolDatabase :: "ptr list"
  gHandleList :: "ptr list"
  gHandleDatabaseKey :: uint64
  mEfiLocateHandleRequest :: uintn
  Handles :: "ptr \<rightharpoonup> IHANDLE"
  Entries :: "ptr \<rightharpoonup> PROTOCOL_ENTRY"
  Interfaces :: "ptr \<rightharpoonup> PROTOCOL_INTERFACE"
  Notifies :: "ptr \<rightharpoonup> PROTOCOL_NOTIFY"
  Pool :: 'p

type_synonym 'p hstate = "'p hdb dxe"

record 'p henv =
  PoolAllocate :: "nat \<Rightarrow> 'p hstate \<Rightarrow> ptr \<times> 'p"
  PoolFree :: "ptr \<Rightarrow> 'p \<Rightarrow> 'p"
  DisconnectController :: "EFI_HANDLE \<Rightarrow> EFI_HANDLE \<Rightarrow> EFI_HANDLE \<Rightarrow> 'p hstate \<Rightarrow> (EFI_STATUS \<times> 'p hstate) option"
  ConnectController :: "EFI_HANDLE \<Rightarrow> 'p hstate \<Rightarrow> (EFI_STATUS \<times> 'p hstate) option"
  gDxeCoreImageHandle :: EFI_HANDLE
  Mem :: memory

abbreviation (input) "EFI_OPEN_PROTOCOL_BY_HANDLE_PROTOCOL \<equiv> 0x01 :: uint32"
abbreviation (input) "EFI_OPEN_PROTOCOL_GET_PROTOCOL \<equiv> 0x02 :: uint32"
abbreviation (input) "EFI_OPEN_PROTOCOL_TEST_PROTOCOL \<equiv> 0x04 :: uint32"
abbreviation (input) "EFI_OPEN_PROTOCOL_BY_CHILD_CONTROLLER \<equiv> 0x08 :: uint32"
abbreviation (input) "EFI_OPEN_PROTOCOL_BY_DRIVER \<equiv> 0x10 :: uint32"
abbreviation (input) "EFI_OPEN_PROTOCOL_EXCLUSIVE \<equiv> 0x20 :: uint32"
abbreviation (input) "EFI_NATIVE_INTERFACE \<equiv> 0 :: int"

definition gEfiDevicePathProtocolGuid :: EFI_GUID where
  "gEfiDevicePathProtocolGuid = 0x09576E916D3F11D28E3900A0C969723B"

text \<open>Sizes of the structures in an X64 build.\<close>

abbreviation (input) "sizeof_PROTOCOL_ENTRY \<equiv> 72 :: nat"
abbreviation (input) "sizeof_PROTOCOL_INTERFACE \<equiv> 88 :: nat"
abbreviation (input) "sizeof_IHANDLE \<equiv> 56 :: nat"
abbreviation (input) "sizeof_PROTOCOL_NOTIFY \<equiv> 48 :: nat"
abbreviation (input) "sizeof_OPEN_PROTOCOL_DATA \<equiv> 48 :: nat"
abbreviation (input) "sizeof_EFI_OPEN_PROTOCOL_INFORMATION_ENTRY \<equiv> 24 :: nat"
abbreviation (input) "sizeof_EFI_HANDLE \<equiv> 8 :: nat"

definition upd_ctx :: "('u \<Rightarrow> 'u) \<Rightarrow> 'u dxe \<Rightarrow> 'u dxe" where
  "upd_ctx f s = s\<lparr>Ctx := f (Ctx s)\<rparr>"

definition alloc :: "'p henv \<Rightarrow> nat \<Rightarrow> 'p hstate \<Rightarrow> ptr \<times> 'p hstate" where
  "alloc E n s = (let (a, p) = PoolAllocate E n s in (a, upd_ctx (Pool_update (\<lambda>_. p)) s))"

definition free :: "'p henv \<Rightarrow> ptr \<Rightarrow> 'p hstate \<Rightarrow> 'p hstate" where
  "free E a s = upd_ctx (Pool_update (PoolFree E a)) s"

text \<open>Links of a list with head 0: the entry after and the entry before a position.\<close>

definition link_next :: "ptr list \<Rightarrow> ptr \<Rightarrow> ptr option" where
  "link_next l p =
     (if p = 0 then Some (case l of [] \<Rightarrow> 0 | x # _ \<Rightarrow> x)
      else case dropWhile (\<lambda>x. x \<noteq> p) l of [] \<Rightarrow> None | _ # [] \<Rightarrow> Some 0 | _ # y # _ \<Rightarrow> Some y)"

definition link_prev :: "ptr list \<Rightarrow> ptr \<Rightarrow> ptr" where
  "link_prev l p = (let b = takeWhile (\<lambda>x. x \<noteq> p) l in if b = [] then 0 else last b)"

text \<open>Changes of one structure.\<close>

definition upd_handle :: "ptr \<Rightarrow> (IHANDLE \<Rightarrow> IHANDLE) \<Rightarrow> 'p hdb \<Rightarrow> 'p hdb" where
  "upd_handle h f d = d\<lparr>Handles := (Handles d)(h := map_option f (Handles d h))\<rparr>"

definition upd_entry :: "ptr \<Rightarrow> (PROTOCOL_ENTRY \<Rightarrow> PROTOCOL_ENTRY) \<Rightarrow> 'p hdb \<Rightarrow> 'p hdb" where
  "upd_entry e f d = d\<lparr>Entries := (Entries d)(e := map_option f (Entries d e))\<rparr>"

definition upd_interface :: "ptr \<Rightarrow> (PROTOCOL_INTERFACE \<Rightarrow> PROTOCOL_INTERFACE) \<Rightarrow> 'p hdb \<Rightarrow> 'p hdb" where
  "upd_interface p f d = d\<lparr>Interfaces := (Interfaces d)(p := map_option f (Interfaces d p))\<rparr>"

definition upd_notify :: "ptr \<Rightarrow> (PROTOCOL_NOTIFY \<Rightarrow> PROTOCOL_NOTIFY) \<Rightarrow> 'p hdb \<Rightarrow> 'p hdb" where
  "upd_notify n f d = d\<lparr>Notifies := (Notifies d)(n := map_option f (Notifies d n))\<rparr>"

subsection \<open>Lock, handles, entries and interfaces\<close>

definition CoreAcquireProtocolLock :: "platform \<Rightarrow> 'u dxe \<Rightarrow> 'u dxe option" where
  "CoreAcquireProtocolLock P s = CoreAcquireLock P gProtocolDatabaseLock s"

definition CoreReleaseProtocolLock :: "platform \<Rightarrow> 'u restore \<Rightarrow> 'u dxe \<Rightarrow> 'u dxe option" where
  "CoreReleaseProtocolLock P R s = CoreReleaseLock P R gProtocolDatabaseLock s"

definition CoreValidateHandle :: "EFI_HANDLE \<Rightarrow> 'p hdb \<Rightarrow> EFI_STATUS" where
  "CoreValidateHandle UserHandle d =
     (if UserHandle = 0 then EFI_INVALID_PARAMETER
      else if Handles d UserHandle = None then EFI_INVALID_PARAMETER
      else EFI_SUCCESS)"

primrec find_entry :: "(ptr \<rightharpoonup> PROTOCOL_ENTRY) \<Rightarrow> EFI_GUID \<Rightarrow> ptr list \<Rightarrow> ptr option" where
  "find_entry es g [] = Some 0"
| "find_entry es g (e # l) = do {
     Item \<leftarrow> es e;
     if ProtocolID Item = g then Some e else find_entry es g l
   }"

definition new_entry :: "ptr \<Rightarrow> EFI_GUID \<Rightarrow> 'p hdb \<Rightarrow> 'p hdb" where
  "new_entry e g d = d\<lparr>Entries := (Entries d)(e \<mapsto> \<lparr>ProtocolID = g, ByProtocol = [], Notify = []\<rparr>),
     mProtocolDatabase := mProtocolDatabase d @ [e]\<rparr>"

definition CoreFindProtocolEntry ::
    "platform \<Rightarrow> 'p henv \<Rightarrow> EFI_GUID \<Rightarrow> bool \<Rightarrow> 'p hstate \<Rightarrow> (ptr \<times> 'p hstate) option" where
  "CoreFindProtocolEntry P E g Create s = do {
     ASSERT_LOCKED P gProtocolDatabaseLock s;
     ProtEntry \<leftarrow> find_entry (Entries (Ctx s)) g (mProtocolDatabase (Ctx s));
     Some (if ProtEntry = 0 \<and> Create
       then let (ProtEntry, s) = alloc E sizeof_PROTOCOL_ENTRY s
            in (ProtEntry, if ProtEntry \<noteq> 0 then upd_ctx (new_entry ProtEntry g) s else s)
       else (ProtEntry, s))
   }"

primrec find_interface :: "(ptr \<rightharpoonup> PROTOCOL_INTERFACE) \<Rightarrow> ptr \<Rightarrow> ptr \<Rightarrow> ptr list \<Rightarrow> ptr option" where
  "find_interface is e i [] = Some 0"
| "find_interface is e i (p # l) = do {
     Prot \<leftarrow> is p;
     if Interface Prot = i \<and> Protocol Prot = e then Some p else find_interface is e i l
   }"

definition CoreFindProtocolInterface ::
    "platform \<Rightarrow> EFI_HANDLE \<Rightarrow> EFI_GUID \<Rightarrow> ptr \<Rightarrow> 'p hstate \<Rightarrow> ptr option" where
  "CoreFindProtocolInterface P h g i s = do {
     ASSERT_LOCKED P gProtocolDatabaseLock s;
     ASSERT_LOCKED P gProtocolDatabaseLock s;
     ProtEntry \<leftarrow> find_entry (Entries (Ctx s)) g (mProtocolDatabase (Ctx s));
     if ProtEntry \<noteq> 0 then do {
       H \<leftarrow> Handles (Ctx s) h;
       find_interface (Interfaces (Ctx s)) ProtEntry i (Protocols H)
     }
     else Some 0
   }"

text \<open>
  The search of \<open>CoreUnregisterProtocolNotifyEvent\<close> for a notification record of an event: the first one
  is unlinked and freed. This is the database search that \<open>CoreUnregisterProtocolNotifyEvent\<close> of the theory
  of events takes as its argument; \<open>None\<close> means here that there is no such record.
\<close>

definition find_notify :: "eid \<Rightarrow> 'p hdb \<Rightarrow> (ptr \<times> ptr) option" where
  "find_notify ev d =
     find (\<lambda>(e, n). map_option Event (Notifies d n) = Some ev)
       (concat (map (\<lambda>e. case Entries d e of None \<Rightarrow> [] | Some x \<Rightarrow> map (Pair e) (Notify x))
         (mProtocolDatabase d)))"

definition unregister_notify :: "'p henv \<Rightarrow> eid \<Rightarrow> 'p hdb \<Rightarrow> 'p hdb option" where
  "unregister_notify E ev d =
     map_option (\<lambda>(e, n). (upd_entry e (Notify_update (removeAll n)) d)
       \<lparr>Notifies := (Notifies d)(n := None), Pool := PoolFree E n (Pool d)\<rparr>) (find_notify ev d)"

primrec find_guid :: "'p hdb \<Rightarrow> EFI_GUID \<Rightarrow> ptr list \<Rightarrow> ptr option" where
  "find_guid d g [] = Some 0"
| "find_guid d g (p # l) = do {
     Prot \<leftarrow> Interfaces d p;
     ProtEntry \<leftarrow> Entries d (Protocol Prot);
     if ProtocolID ProtEntry = g then Some p else find_guid d g l
   }"

definition CoreGetProtocolInterface :: "EFI_HANDLE \<Rightarrow> EFI_GUID \<Rightarrow> 'p hdb \<Rightarrow> ptr option" where
  "CoreGetProtocolInterface UserHandle g d =
     (if EFI_ERROR (CoreValidateHandle UserHandle d) then Some 0
      else do { H \<leftarrow> Handles d UserHandle; find_guid d g (Protocols H) })"

subsection \<open>Opening and closing protocols\<close>

text \<open>The checks of the attributes by \<open>CoreOpenProtocol\<close>.\<close>

definition check_open_attributes ::
    "EFI_HANDLE \<Rightarrow> EFI_HANDLE \<Rightarrow> EFI_HANDLE \<Rightarrow> uint32 \<Rightarrow> 'p hdb \<Rightarrow> EFI_STATUS" where
  "check_open_attributes UserHandle ImageHandle CtrlHandle Attr d =
     (if Attr = EFI_OPEN_PROTOCOL_BY_CHILD_CONTROLLER then
        if EFI_ERROR (CoreValidateHandle ImageHandle d) then CoreValidateHandle ImageHandle d
        else if EFI_ERROR (CoreValidateHandle CtrlHandle d) then CoreValidateHandle CtrlHandle d
        else if UserHandle = CtrlHandle then EFI_INVALID_PARAMETER
        else EFI_SUCCESS
      else if Attr = EFI_OPEN_PROTOCOL_BY_DRIVER \<or>
              Attr = EFI_OPEN_PROTOCOL_BY_DRIVER OR EFI_OPEN_PROTOCOL_EXCLUSIVE then
        if EFI_ERROR (CoreValidateHandle ImageHandle d) then CoreValidateHandle ImageHandle d
        else CoreValidateHandle CtrlHandle d
      else if Attr = EFI_OPEN_PROTOCOL_EXCLUSIVE then CoreValidateHandle ImageHandle d
      else if Attr = EFI_OPEN_PROTOCOL_BY_HANDLE_PROTOCOL \<or> Attr = EFI_OPEN_PROTOCOL_GET_PROTOCOL \<or>
              Attr = EFI_OPEN_PROTOCOL_TEST_PROTOCOL then EFI_SUCCESS
      else EFI_INVALID_PARAMETER)"

text \<open>
  The first walk over the open list: it ends at a record of the same opener, either because that is a
  driver already (\<open>ScanStarted\<close>) or to count up (\<open>ScanCount\<close>, with the list already updated), or tells
  whether a driver or an exclusive opener has been seen.
\<close>

datatype open_scan = ScanStarted | ScanCount "OPEN_PROTOCOL_DATA list" | ScanEnd bool bool

definition by_driver :: "OPEN_PROTOCOL_DATA \<Rightarrow> bool" where
  "by_driver od \<longleftrightarrow> Attributes od AND EFI_OPEN_PROTOCOL_BY_DRIVER \<noteq> 0"

definition exclusive :: "OPEN_PROTOCOL_DATA \<Rightarrow> bool" where
  "exclusive od \<longleftrightarrow> Attributes od AND EFI_OPEN_PROTOCOL_EXCLUSIVE \<noteq> 0"

primrec scan_open_list ::
    "EFI_HANDLE \<Rightarrow> EFI_HANDLE \<Rightarrow> uint32 \<Rightarrow> bool \<Rightarrow> bool \<Rightarrow> OPEN_PROTOCOL_DATA list \<Rightarrow> open_scan" where
  "scan_open_list ih ch a ByDriver Exclusive [] = ScanEnd ByDriver Exclusive"
| "scan_open_list ih ch a ByDriver Exclusive (od # l) =
     (let ExactMatch = (AgentHandle od = ih \<and> Attributes od = a \<and> ControllerHandle od = ch) in
      if by_driver od \<and> ExactMatch then ScanStarted
      else let ByDriver = (ByDriver \<or> by_driver od) in
      if exclusive od then
        (case scan_open_list ih ch a ByDriver True l of ScanCount l' \<Rightarrow> ScanCount (od # l') | x \<Rightarrow> x)
      else if ExactMatch then ScanCount (od\<lparr>OpenCount := OpenCount od + 1\<rparr> # l)
      else
        (case scan_open_list ih ch a ByDriver Exclusive l of ScanCount l' \<Rightarrow> ScanCount (od # l') | x \<Rightarrow> x))"

text \<open>
  The loops that disconnect the drivers of an interface, in \<open>CoreOpenProtocol\<close> and in
  \<open>CoreDisconnectControllersUsingProtocolInterface\<close>: while there is a record of a driver, the first one is
  disconnected with the lock released. The link that is followed after that is only compared, never
  used, because the loop then begins anew.
\<close>

partial_function (option) disconnect_drivers ::
    "platform \<Rightarrow> 'p hdb restore \<Rightarrow> 'p henv \<Rightarrow> EFI_HANDLE \<Rightarrow> ptr \<Rightarrow> 'p hstate \<Rightarrow> (EFI_STATUS \<times> 'p hstate) option" where
  "disconnect_drivers P R E h p s =
     Option.bind (Interfaces (Ctx s) p) (\<lambda>Prot.
       case find by_driver (OpenList Prot) of
         None \<Rightarrow> Some (EFI_SUCCESS, s)
       | Some od \<Rightarrow>
           Option.bind (CoreReleaseProtocolLock P R s) (\<lambda>s.
           Option.bind (DisconnectController E h (AgentHandle od) 0 s) (\<lambda>(Status, s).
           Option.bind (CoreAcquireProtocolLock P s) (\<lambda>s.
             if EFI_ERROR Status then Some (Status, s) else disconnect_drivers P R E h p s))))"

declare disconnect_drivers.simps [code]

text \<open>The end of \<open>CoreOpenProtocol\<close>: a new open record.\<close>

definition add_open_record ::
    "'p henv \<Rightarrow> ptr \<Rightarrow> EFI_HANDLE \<Rightarrow> EFI_HANDLE \<Rightarrow> uint32 \<Rightarrow> 'p hstate \<Rightarrow> EFI_STATUS \<times> 'p hstate" where
  "add_open_record E p ImageHandle CtrlHandle Attr s =
     (if ImageHandle = 0 then (EFI_SUCCESS, s)
      else let (od, s) = alloc E sizeof_OPEN_PROTOCOL_DATA s in
      if od = 0 then (EFI_OUT_OF_RESOURCES, s)
      else (EFI_SUCCESS, upd_ctx (upd_interface p (\<lambda>Prot. Prot
        \<lparr>OpenList := OpenList Prot @ [\<lparr>OpenAddress = od, AgentHandle = ImageHandle,
           ControllerHandle = CtrlHandle, Attributes = Attr, OpenCount = 1\<rparr>],
         OpenListCount := OpenListCount Prot + 1\<rparr>)) s))"

text \<open>What \<open>CoreOpenProtocol\<close> does with the lock held; the second result is what it writes to
  \<open>*Interface\<close>.\<close>

definition open_section ::
    "platform \<Rightarrow> 'p hdb restore \<Rightarrow> 'p henv \<Rightarrow> EFI_HANDLE \<Rightarrow> EFI_GUID \<Rightarrow> EFI_HANDLE \<Rightarrow> EFI_HANDLE \<Rightarrow> uint32 \<Rightarrow>
     'p hstate \<Rightarrow> (EFI_STATUS \<times> ptr \<times> 'p hstate) option" where
  "open_section P R E UserHandle g ImageHandle CtrlHandle Attr s = do {
     p \<leftarrow> CoreGetProtocolInterface UserHandle g (Ctx s);
     if p = 0 then Some (EFI_UNSUPPORTED, 0, s)
     else do {
       Prot \<leftarrow> Interfaces (Ctx s) p;
       let i = Interface Prot;
       case scan_open_list ImageHandle CtrlHandle Attr False False (OpenList Prot) of
         ScanStarted \<Rightarrow> Some (EFI_ALREADY_STARTED, i, s)
       | ScanCount l \<Rightarrow> Some (EFI_SUCCESS, i, upd_ctx (upd_interface p (OpenList_update (\<lambda>_. l))) s)
       | ScanEnd ByDriver Exclusive \<Rightarrow>
           if Attr = EFI_OPEN_PROTOCOL_BY_DRIVER \<and> (Exclusive \<or> ByDriver) then Some (EFI_ACCESS_DENIED, i, s)
           else if (Attr = EFI_OPEN_PROTOCOL_BY_DRIVER OR EFI_OPEN_PROTOCOL_EXCLUSIVE \<or>
                    Attr = EFI_OPEN_PROTOCOL_EXCLUSIVE) \<and> Exclusive then Some (EFI_ACCESS_DENIED, i, s)
           else do {
             (Status, s) \<leftarrow>
               (if (Attr = EFI_OPEN_PROTOCOL_BY_DRIVER OR EFI_OPEN_PROTOCOL_EXCLUSIVE \<or>
                    Attr = EFI_OPEN_PROTOCOL_EXCLUSIVE) \<and> ByDriver
                then disconnect_drivers P R E UserHandle p s
                else Some (EFI_SUCCESS, s));
             if EFI_ERROR Status then Some (EFI_ACCESS_DENIED, i, s)
             else let (Status, s) = add_open_record E p ImageHandle CtrlHandle Attr s
                  in Some (Status, i, s)
           }
     }
   }"

text \<open>The result \<open>None\<close> for the interface means that \<open>*Interface\<close> is not written.\<close>

definition CoreOpenProtocol ::
    "platform \<Rightarrow> 'p hdb restore \<Rightarrow> 'p henv \<Rightarrow> EFI_HANDLE \<Rightarrow> EFI_GUID option \<Rightarrow> bool \<Rightarrow> EFI_HANDLE \<Rightarrow> EFI_HANDLE \<Rightarrow>
     uint32 \<Rightarrow> 'p hstate \<Rightarrow> (EFI_STATUS \<times> ptr option \<times> 'p hstate) option" where
  "CoreOpenProtocol P R E UserHandle ProtocolGuid InterfacePtr ImageHandle CtrlHandle Attr s =
     (case ProtocolGuid of
        None \<Rightarrow> Some (EFI_INVALID_PARAMETER, None, s)
      | Some g \<Rightarrow>
          if Attr \<noteq> EFI_OPEN_PROTOCOL_TEST_PROTOCOL \<and> \<not> InterfacePtr then Some (EFI_INVALID_PARAMETER, None, s)
          else
            let out = (\<lambda>i. if Attr \<noteq> EFI_OPEN_PROTOCOL_TEST_PROTOCOL then Some i else None) in
            if EFI_ERROR (CoreValidateHandle UserHandle (Ctx s))
            then Some (CoreValidateHandle UserHandle (Ctx s), out 0, s)
            else if EFI_ERROR (check_open_attributes UserHandle ImageHandle CtrlHandle Attr (Ctx s))
            then Some (check_open_attributes UserHandle ImageHandle CtrlHandle Attr (Ctx s), out 0, s)
            else do {
              s \<leftarrow> CoreAcquireProtocolLock P s;
              (Status, i, s) \<leftarrow> open_section P R E UserHandle g ImageHandle CtrlHandle Attr s;
              s \<leftarrow> CoreReleaseProtocolLock P R s;
              Some (Status, out i, s)
            })"

definition CoreHandleProtocol ::
    "platform \<Rightarrow> 'p hdb restore \<Rightarrow> 'p henv \<Rightarrow> EFI_HANDLE \<Rightarrow> EFI_GUID option \<Rightarrow> bool \<Rightarrow> 'p hstate \<Rightarrow>
     (EFI_STATUS \<times> ptr option \<times> 'p hstate) option" where
  "CoreHandleProtocol P R E UserHandle ProtocolGuid InterfacePtr s =
     CoreOpenProtocol P R E UserHandle ProtocolGuid InterfacePtr (gDxeCoreImageHandle E) 0
       EFI_OPEN_PROTOCOL_BY_HANDLE_PROTOCOL s"

text \<open>The walk of \<open>CoreCloseProtocol\<close>: every record of the agent and controller is taken out and freed.\<close>

definition opened_by :: "EFI_HANDLE \<Rightarrow> EFI_HANDLE \<Rightarrow> OPEN_PROTOCOL_DATA \<Rightarrow> bool" where
  "opened_by ah ch od \<longleftrightarrow> AgentHandle od = ah \<and> ControllerHandle od = ch"

definition remove_open_records ::
    "'p henv \<Rightarrow> (OPEN_PROTOCOL_DATA \<Rightarrow> bool) \<Rightarrow> ptr \<Rightarrow> PROTOCOL_INTERFACE \<Rightarrow> 'p hstate \<Rightarrow> 'p hstate" where
  "remove_open_records E c p Prot s =
     fold (\<lambda>od. free E (OpenAddress od)) (filter c (OpenList Prot))
       (upd_ctx (upd_interface p (\<lambda>Prot. Prot
          \<lparr>OpenList := filter (\<lambda>od. \<not> c od) (OpenList Prot),
           OpenListCount := OpenListCount Prot - of_nat (length (filter c (OpenList Prot)))\<rparr>)) s)"

definition CoreCloseProtocol ::
    "platform \<Rightarrow> 'p hdb restore \<Rightarrow> 'p henv \<Rightarrow> EFI_HANDLE \<Rightarrow> EFI_GUID option \<Rightarrow> EFI_HANDLE \<Rightarrow> EFI_HANDLE \<Rightarrow>
     'p hstate \<Rightarrow> (EFI_STATUS \<times> 'p hstate) option" where
  "CoreCloseProtocol P R E UserHandle ProtocolGuid Agent Ctrl s =
     (if EFI_ERROR (CoreValidateHandle UserHandle (Ctx s)) then Some (CoreValidateHandle UserHandle (Ctx s), s)
      else if EFI_ERROR (CoreValidateHandle Agent (Ctx s)) then Some (CoreValidateHandle Agent (Ctx s), s)
      else if Ctrl \<noteq> 0 \<and> EFI_ERROR (CoreValidateHandle Ctrl (Ctx s))
      then Some (CoreValidateHandle Ctrl (Ctx s), s)
      else case ProtocolGuid of
        None \<Rightarrow> Some (EFI_INVALID_PARAMETER, s)
      | Some g \<Rightarrow> do {
          s \<leftarrow> CoreAcquireProtocolLock P s;
          p \<leftarrow> CoreGetProtocolInterface UserHandle g (Ctx s);
          (Status, s) \<leftarrow>
            (if p = 0 then Some (EFI_NOT_FOUND, s)
             else do {
               Prot \<leftarrow> Interfaces (Ctx s) p;
               Some (if \<exists>od \<in> set (OpenList Prot). opened_by Agent Ctrl od then EFI_SUCCESS else EFI_NOT_FOUND,
                 remove_open_records E (opened_by Agent Ctrl) p Prot s)
             });
          s \<leftarrow> CoreReleaseProtocolLock P R s;
          Some (Status, s)
        })"

text \<open>
  The information about openers: agent, controller, attributes and count of every record. The result
  is what \<open>*EntryBuffer\<close> points to, \<open>None\<close> for NULL, and \<open>*EntryCount\<close>.
\<close>

definition information_section ::
    "platform \<Rightarrow> 'p henv \<Rightarrow> EFI_HANDLE \<Rightarrow> EFI_GUID \<Rightarrow> 'p hstate \<Rightarrow>
     (EFI_STATUS \<times> (EFI_HANDLE \<times> EFI_HANDLE \<times> uint32 \<times> uint32) list option \<times> nat \<times> 'p hstate) option" where
  "information_section P E UserHandle g s = do {
     p \<leftarrow> CoreGetProtocolInterface UserHandle g (Ctx s);
     if p = 0 then Some (EFI_NOT_FOUND, None, 0, s)
     else do {
       Prot \<leftarrow> Interfaces (Ctx s) p;
       let Count = length (OpenList Prot);
       ASSERT (Asserts P) (Some (of_nat Count = OpenListCount Prot));
       let (Buffer, s) = alloc E (if Count = 0 then sizeof_EFI_OPEN_PROTOCOL_INFORMATION_ENTRY
         else Count * sizeof_EFI_OPEN_PROTOCOL_INFORMATION_ENTRY) s;
       if Buffer = 0 then Some (EFI_OUT_OF_RESOURCES, None, 0, s)
       else Some (EFI_SUCCESS,
         Some (map (\<lambda>od. (AgentHandle od, ControllerHandle od, Attributes od, OpenCount od)) (OpenList Prot)),
         Count, s)
     }
   }"

definition CoreOpenProtocolInformation ::
    "platform \<Rightarrow> 'p hdb restore \<Rightarrow> 'p henv \<Rightarrow> EFI_HANDLE \<Rightarrow> EFI_GUID \<Rightarrow> 'p hstate \<Rightarrow>
     (EFI_STATUS \<times> (EFI_HANDLE \<times> EFI_HANDLE \<times> uint32 \<times> uint32) list option \<times> nat \<times> 'p hstate) option" where
  "CoreOpenProtocolInformation P R E UserHandle g s = do {
     s \<leftarrow> CoreAcquireProtocolLock P s;
     (Status, out, n, s) \<leftarrow> information_section P E UserHandle g s;
     s \<leftarrow> CoreReleaseProtocolLock P R s;
     Some (Status, out, n, s)
   }"

end
