(* ===== verification/HandleServices.thy ===== *)
theory HandleServices
  imports HandleDb
begin

unbundle bit_operations_syntax

section \<open>Installing, removing and locating protocols\<close>

text \<open>
  The rest of \<^verbatim>\<open>Hand/Handle.c\<close>, \<^verbatim>\<open>Hand/Notify.c\<close> and \<^verbatim>\<open>Hand/Locate.c\<close> over the state of \<open>HandleDb\<close>:
  installation and removal of protocol interfaces, notification records, and the searches for handles.
  The variable arguments of the two services for several interfaces are a list of pairs of a GUID and an
  interface.
\<close>

subsection \<open>Notification of a protocol entry\<close>

text \<open>The list of records does not change during the walk: the lock of the database is held.\<close>

primrec signal_notifies :: "platform \<Rightarrow> 'p hdb restore \<Rightarrow> ptr list \<Rightarrow> 'p hstate \<Rightarrow> 'p hstate option" where
  "signal_notifies P R [] s = Some s"
| "signal_notifies P R (n # l) s = do {
     ProtNotify \<leftarrow> Notifies (Ctx s) n;
     (_, s) \<leftarrow> CoreSignalEvent P R (Event ProtNotify) s;
     signal_notifies P R l s
   }"

definition CoreNotifyProtocolEntry :: "platform \<Rightarrow> 'p hdb restore \<Rightarrow> ptr \<Rightarrow> 'p hstate \<Rightarrow> 'p hstate option" where
  "CoreNotifyProtocolEntry P R e s = do {
     ASSERT_LOCKED P gProtocolDatabaseLock s;
     ProtEntry \<leftarrow> Entries (Ctx s) e;
     signal_notifies P R (Notify ProtEntry) s
   }"

text \<open>Records whose position is the interface \<open>p\<close> are moved back by one link.\<close>

definition back_up :: "ptr list \<Rightarrow> ptr \<Rightarrow> PROTOCOL_NOTIFY \<Rightarrow> PROTOCOL_NOTIFY" where
  "back_up l p ProtNotify =
     (if Position ProtNotify = p then ProtNotify\<lparr>Position := link_prev l p\<rparr> else ProtNotify)"

definition back_up_positions :: "ptr list \<Rightarrow> ptr list \<Rightarrow> ptr \<Rightarrow> 'p hdb \<Rightarrow> 'p hdb" where
  "back_up_positions ns l p = fold (\<lambda>n. upd_notify n (back_up l p)) ns"

definition CoreRemoveInterfaceFromProtocol ::
    "platform \<Rightarrow> EFI_HANDLE \<Rightarrow> EFI_GUID \<Rightarrow> ptr \<Rightarrow> 'p hstate \<Rightarrow> (ptr \<times> 'p hstate) option" where
  "CoreRemoveInterfaceFromProtocol P h g i s = do {
     ASSERT_LOCKED P gProtocolDatabaseLock s;
     p \<leftarrow> CoreFindProtocolInterface P h g i s;
     if p = 0 then Some (0, s)
     else do {
       Prot \<leftarrow> Interfaces (Ctx s) p;
       ProtEntry \<leftarrow> Entries (Ctx s) (Protocol Prot);
       let s = upd_ctx (back_up_positions (Notify ProtEntry) (ByProtocol ProtEntry) p) s;
       Some (p, upd_ctx (upd_entry (Protocol Prot) (ByProtocol_update (removeAll p))) s)
     }
   }"

definition new_notify :: "ptr \<Rightarrow> ptr \<Rightarrow> eid \<Rightarrow> 'p hdb \<Rightarrow> 'p hdb" where
  "new_notify n e ev d = (upd_entry e (Notify_update (\<lambda>l. l @ [n])) d)
     \<lparr>Notifies := (Notifies d)(n \<mapsto> \<lparr>NotifyProtocol = e, Event = ev, Position = 0\<rparr>)\<rparr>"

text \<open>What \<open>CoreRegisterProtocolNotify\<close> does with the lock held: the new record, 0 if there is none.\<close>

definition register_section ::
    "platform \<Rightarrow> 'p henv \<Rightarrow> EFI_GUID \<Rightarrow> eid \<Rightarrow> 'p hstate \<Rightarrow> (ptr \<times> 'p hstate) option" where
  "register_section P E g ev s = do {
     (e, s) \<leftarrow> CoreFindProtocolEntry P E g True s;
     Some (if e = 0 then (0, s)
       else let (n, s) = alloc E sizeof_PROTOCOL_NOTIFY s
            in (n, if n \<noteq> 0 then upd_ctx (new_notify n e ev) s else s))
   }"

text \<open>The result \<open>None\<close> for the registration means that \<open>*Registration\<close> is not written.\<close>

definition CoreRegisterProtocolNotify ::
    "platform \<Rightarrow> 'p hdb restore \<Rightarrow> 'p henv \<Rightarrow> EFI_GUID option \<Rightarrow> eid \<Rightarrow> bool \<Rightarrow> 'p hstate \<Rightarrow>
     (EFI_STATUS \<times> ptr option \<times> 'p hstate) option" where
  "CoreRegisterProtocolNotify P R E ProtocolGuid ev RegistrationPtr s =
     (case ProtocolGuid of
        None \<Rightarrow> Some (EFI_INVALID_PARAMETER, None, s)
      | Some g \<Rightarrow>
          if ev = 0 \<or> \<not> RegistrationPtr then Some (EFI_INVALID_PARAMETER, None, s)
          else do {
            s \<leftarrow> CoreAcquireProtocolLock P s;
            (n, s) \<leftarrow> register_section P E g ev s;
            s \<leftarrow> CoreReleaseProtocolLock P R s;
            Some (if n \<noteq> 0 then (EFI_SUCCESS, Some n, s) else (EFI_OUT_OF_RESOURCES, None, s))
          })"

subsection \<open>Installing an interface\<close>

definition new_handle :: "ptr \<Rightarrow> 'p hdb \<Rightarrow> 'p hdb" where
  "new_handle h d = (let k = gHandleDatabaseKey d + 1 in
     d\<lparr>gHandleDatabaseKey := k, Handles := (Handles d)(h \<mapsto> \<lparr>Protocols = [], LocateRequest = 0, Key = k\<rparr>),
       gHandleList := gHandleList d @ [h]\<rparr>)"

definition link_interface :: "ptr \<Rightarrow> ptr \<Rightarrow> ptr \<Rightarrow> ptr \<Rightarrow> 'p hdb \<Rightarrow> 'p hdb" where
  "link_interface p h e i d =
     upd_entry e (ByProtocol_update (\<lambda>l. l @ [p])) (upd_handle h (Protocols_update (Cons p))
       (d\<lparr>Interfaces := (Interfaces d)(p \<mapsto>
          \<lparr>Handle = h, Protocol = e, Interface = i, OpenList = [], OpenListCount = 0\<rparr>)\<rparr>))"

text \<open>
  What \<open>CoreInstallProtocolInterfaceNotify\<close> does with the lock held. The results are the status, the
  variables \<open>Handle\<close> and \<open>Prot\<close>, and the state; \<open>st0\<close> is the status from before.
\<close>

definition install_section ::
    "platform \<Rightarrow> 'p hdb restore \<Rightarrow> 'p henv \<Rightarrow> EFI_HANDLE \<Rightarrow> EFI_GUID \<Rightarrow> ptr \<Rightarrow> bool \<Rightarrow> EFI_STATUS \<Rightarrow>
     'p hstate \<Rightarrow> (EFI_STATUS \<times> ptr \<times> ptr \<times> 'p hstate) option" where
  "install_section P R E UserHandle g i DoNotify st0 s = do {
     (e, s) \<leftarrow> CoreFindProtocolEntry P E g True s;
     if e = 0 then Some (st0, 0, 0, s)
     else
       let (p, s) = alloc E sizeof_PROTOCOL_INTERFACE s in
       if p = 0 then Some (EFI_OUT_OF_RESOURCES, 0, 0, s)
       else
         let (h, s) = (if UserHandle = 0
           then let (h, s) = alloc E sizeof_IHANDLE s in (h, if h \<noteq> 0 then upd_ctx (new_handle h) s else s)
           else (UserHandle, s)) in
         if h = 0 then Some (EFI_OUT_OF_RESOURCES, 0, p, s)
         else if EFI_ERROR (CoreValidateHandle h (Ctx s)) then Some (CoreValidateHandle h (Ctx s), h, p, s)
         else do {
           ASSERT (Asserts P) (map_option (\<lambda>q. q = 0) (CoreFindProtocolInterface P h g i s));
           let s = upd_ctx (link_interface p h e i) s;
           s \<leftarrow> (if DoNotify then CoreNotifyProtocolEntry P R e s else Some s);
           Some (EFI_SUCCESS, h, p, s)
         }
   }"

text \<open>The check whether the handle has the protocol already: the value of \<open>Status\<close> after it.\<close>

definition existing_interface ::
    "platform \<Rightarrow> 'p hdb restore \<Rightarrow> 'p henv \<Rightarrow> EFI_HANDLE \<Rightarrow> EFI_GUID \<Rightarrow> 'p hstate \<Rightarrow>
     (EFI_STATUS \<times> 'p hstate) option" where
  "existing_interface P R E h g s =
     (if h \<noteq> 0 then do {
        (Status, _, s) \<leftarrow> CoreHandleProtocol P R E h (Some g) True s;
        Some (Status, s)
      }
      else Some (EFI_OUT_OF_RESOURCES, s))"

text \<open>The second result is \<open>*UserHandle\<close> afterwards (\<open>None\<close> if \<open>UserHandle\<close> is NULL).\<close>

definition CoreInstallProtocolInterfaceNotify ::
    "platform \<Rightarrow> 'p hdb restore \<Rightarrow> 'p henv \<Rightarrow> EFI_HANDLE option \<Rightarrow> EFI_GUID option \<Rightarrow> int \<Rightarrow> ptr \<Rightarrow> bool \<Rightarrow>
     'p hstate \<Rightarrow> (EFI_STATUS \<times> EFI_HANDLE option \<times> 'p hstate) option" where
  "CoreInstallProtocolInterfaceNotify P R E UserHandle ProtocolGuid InterfaceType i DoNotify s =
     (case (UserHandle, ProtocolGuid) of
        (Some h, Some g) \<Rightarrow>
          if InterfaceType \<noteq> EFI_NATIVE_INTERFACE then Some (EFI_INVALID_PARAMETER, UserHandle, s)
          else do {
            (Status, s) \<leftarrow> existing_interface P R E h g s;
            if h \<noteq> 0 \<and> \<not> EFI_ERROR Status then Some (EFI_INVALID_PARAMETER, UserHandle, s)
            else do {
              s \<leftarrow> CoreAcquireProtocolLock P s;
              (Status, h', p, s) \<leftarrow> install_section P R E h g i DoNotify Status s;
              s \<leftarrow> CoreReleaseProtocolLock P R s;
              if \<not> EFI_ERROR Status then Some (Status, Some h', s)
              else Some (Status, UserHandle, if p \<noteq> 0 then free E p s else s)
            }
          }
      | _ \<Rightarrow> Some (EFI_INVALID_PARAMETER, UserHandle, s))"

definition CoreInstallProtocolInterface ::
    "platform \<Rightarrow> 'p hdb restore \<Rightarrow> 'p henv \<Rightarrow> EFI_HANDLE option \<Rightarrow> EFI_GUID option \<Rightarrow> int \<Rightarrow> ptr \<Rightarrow>
     'p hstate \<Rightarrow> (EFI_STATUS \<times> EFI_HANDLE option \<times> 'p hstate) option" where
  "CoreInstallProtocolInterface P R E UserHandle ProtocolGuid InterfaceType i s =
     CoreInstallProtocolInterfaceNotify P R E UserHandle ProtocolGuid InterfaceType i True s"

subsection \<open>Removing an interface\<close>

definition shared_open :: "OPEN_PROTOCOL_DATA \<Rightarrow> bool" where
  "shared_open od \<longleftrightarrow> Attributes od AND (EFI_OPEN_PROTOCOL_BY_HANDLE_PROTOCOL OR
     EFI_OPEN_PROTOCOL_GET_PROTOCOL OR EFI_OPEN_PROTOCOL_TEST_PROTOCOL) \<noteq> 0"

text \<open>The end of \<open>CoreDisconnectControllersUsingProtocolInterface\<close>: if a driver refused or there are open
  records left, the drivers are connected again and the status is an error.\<close>

definition reconnect_if_open ::
    "platform \<Rightarrow> 'p hdb restore \<Rightarrow> 'p henv \<Rightarrow> EFI_HANDLE \<Rightarrow> ptr \<Rightarrow> EFI_STATUS \<Rightarrow> 'p hstate \<Rightarrow>
     (EFI_STATUS \<times> 'p hstate) option" where
  "reconnect_if_open P R E UserHandle p Status s = do {
     Prot \<leftarrow> Interfaces (Ctx s) p;
     if EFI_ERROR Status \<or> OpenListCount Prot > 0 then do {
       s \<leftarrow> CoreReleaseProtocolLock P R s;
       (_, s) \<leftarrow> ConnectController E UserHandle s;
       s \<leftarrow> CoreAcquireProtocolLock P s;
       Some (EFI_ACCESS_DENIED, s)
     }
     else Some (Status, s)
   }"

text \<open>The second loop takes the records that do not block the removal out one after the other, each time
  beginning at the head of the list, until there are none.\<close>

definition CoreDisconnectControllersUsingProtocolInterface ::
    "platform \<Rightarrow> 'p hdb restore \<Rightarrow> 'p henv \<Rightarrow> EFI_HANDLE \<Rightarrow> ptr \<Rightarrow> 'p hstate \<Rightarrow> (EFI_STATUS \<times> 'p hstate) option" where
  "CoreDisconnectControllersUsingProtocolInterface P R E UserHandle p s = do {
     (Status, s) \<leftarrow> disconnect_drivers P R E UserHandle p s;
     Prot \<leftarrow> Interfaces (Ctx s) p;
     reconnect_if_open P R E UserHandle p Status
       (if \<not> EFI_ERROR Status then remove_open_records E shared_open p Prot s else s)
   }"

definition touch_handle :: "ptr \<Rightarrow> 'p hdb \<Rightarrow> 'p hdb" where
  "touch_handle h d = (let k = gHandleDatabaseKey d + 1 in
     upd_handle h (Key_update (\<lambda>_. k)) (d\<lparr>gHandleDatabaseKey := k\<rparr>))"

definition free_interface :: "'p henv \<Rightarrow> ptr \<Rightarrow> ptr \<Rightarrow> 'p hdb \<Rightarrow> 'p hdb" where
  "free_interface E h p d = (upd_handle h (Protocols_update (removeAll p)) (touch_handle h d))
     \<lparr>Interfaces := (Interfaces d)(p := None), Pool := PoolFree E p (Pool d)\<rparr>"

definition free_handle :: "'p henv \<Rightarrow> ptr \<Rightarrow> 'p hdb \<Rightarrow> 'p hdb" where
  "free_handle E h d = d\<lparr>Handles := (Handles d)(h := None), gHandleList := removeAll h (gHandleList d),
     Pool := PoolFree E h (Pool d)\<rparr>"

text \<open>What \<open>CoreUninstallProtocolInterface\<close> does with the lock held.\<close>

definition uninstall_section ::
    "platform \<Rightarrow> 'p hdb restore \<Rightarrow> 'p henv \<Rightarrow> EFI_HANDLE \<Rightarrow> EFI_GUID \<Rightarrow> ptr \<Rightarrow> 'p hstate \<Rightarrow>
     (EFI_STATUS \<times> 'p hstate) option" where
  "uninstall_section P R E h g i s = do {
     p \<leftarrow> CoreFindProtocolInterface P h g i s;
     if p = 0 then Some (EFI_NOT_FOUND, s)
     else do {
       (Status, s) \<leftarrow> CoreDisconnectControllersUsingProtocolInterface P R E h p s;
       if EFI_ERROR Status then Some (Status, s)
       else do {
         (p, s) \<leftarrow> CoreRemoveInterfaceFromProtocol P h g i s;
         let (Status, s) =
           (if p \<noteq> 0 then (EFI_SUCCESS, upd_ctx (free_interface E h p) s) else (EFI_NOT_FOUND, s));
         H \<leftarrow> Handles (Ctx s) h;
         Some (Status, if Protocols H = [] then upd_ctx (free_handle E h) s else s)
       }
     }
   }"

definition CoreUninstallProtocolInterface ::
    "platform \<Rightarrow> 'p hdb restore \<Rightarrow> 'p henv \<Rightarrow> EFI_HANDLE \<Rightarrow> EFI_GUID option \<Rightarrow> ptr \<Rightarrow> 'p hstate \<Rightarrow>
     (EFI_STATUS \<times> 'p hstate) option" where
  "CoreUninstallProtocolInterface P R E UserHandle ProtocolGuid i s =
     (case ProtocolGuid of
        None \<Rightarrow> Some (EFI_INVALID_PARAMETER, s)
      | Some g \<Rightarrow>
          if EFI_ERROR (CoreValidateHandle UserHandle (Ctx s))
          then Some (CoreValidateHandle UserHandle (Ctx s), s)
          else do {
            s \<leftarrow> CoreAcquireProtocolLock P s;
            (Status, s) \<leftarrow> uninstall_section P R E UserHandle g i s;
            s \<leftarrow> CoreReleaseProtocolLock P R s;
            Some (Status, s)
          })"

text \<open>
  The loops over the arguments: the number of arguments processed (\<open>Index\<close> at the end of the loop) and
  the status. \<open>CoreUninstallMultipleProtocolInterfaces\<close> installs again what it has removed before an error.
\<close>

primrec uninstall_loop ::
    "platform \<Rightarrow> 'p hdb restore \<Rightarrow> 'p henv \<Rightarrow> EFI_HANDLE \<Rightarrow> (EFI_GUID \<times> ptr) list \<Rightarrow> nat \<Rightarrow> 'p hstate \<Rightarrow>
     (EFI_STATUS \<times> nat \<times> 'p hstate) option" where
  "uninstall_loop P R E h [] Index s = Some (EFI_SUCCESS, Index, s)"
| "uninstall_loop P R E h (a # as) Index s = do {
     (Status, s) \<leftarrow> CoreUninstallProtocolInterface P R E h (Some (fst a)) (snd a) s;
     if EFI_ERROR Status then Some (Status, Index + 1, s) else uninstall_loop P R E h as (Index + 1) s
   }"

primrec reinstall_loop ::
    "platform \<Rightarrow> 'p hdb restore \<Rightarrow> 'p henv \<Rightarrow> (EFI_GUID \<times> ptr) list \<Rightarrow> EFI_HANDLE \<Rightarrow> 'p hstate \<Rightarrow>
     'p hstate option" where
  "reinstall_loop P R E [] h s = Some s"
| "reinstall_loop P R E (a # as) h s = do {
     (_, h', s) \<leftarrow> CoreInstallProtocolInterface P R E (Some h) (Some (fst a)) EFI_NATIVE_INTERFACE (snd a) s;
     reinstall_loop P R E as (case h' of None \<Rightarrow> h | Some h' \<Rightarrow> h') s
   }"

definition CoreUninstallMultipleProtocolInterfaces ::
    "platform \<Rightarrow> 'p hdb restore \<Rightarrow> 'p henv \<Rightarrow> EFI_HANDLE \<Rightarrow> (EFI_GUID \<times> ptr) list \<Rightarrow> 'p hstate \<Rightarrow>
     (EFI_STATUS \<times> 'p hstate) option" where
  "CoreUninstallMultipleProtocolInterfaces P R E h args s = do {
     (Status, Index, s) \<leftarrow> uninstall_loop P R E h args 0 s;
     s \<leftarrow> (if EFI_ERROR Status then reinstall_loop P R E (take (Index - 1) args) h s else Some s);
     Some (Status, s)
   }"

subsection \<open>Reinstalling an interface\<close>

text \<open>What \<open>CoreReinstallProtocolInterface\<close> does with the lock held.\<close>

definition reinstall_section ::
    "platform \<Rightarrow> 'p hdb restore \<Rightarrow> 'p henv \<Rightarrow> EFI_HANDLE \<Rightarrow> EFI_GUID \<Rightarrow> ptr \<Rightarrow> ptr \<Rightarrow> 'p hstate \<Rightarrow>
     (EFI_STATUS \<times> 'p hstate) option" where
  "reinstall_section P R E h g OldInterface NewInterface s = do {
     p \<leftarrow> CoreFindProtocolInterface P h g OldInterface s;
     if p = 0 then Some (EFI_NOT_FOUND, s)
     else do {
       (Status, s) \<leftarrow> CoreDisconnectControllersUsingProtocolInterface P R E h p s;
       if EFI_ERROR Status then Some (Status, s)
       else do {
         (p, s) \<leftarrow> CoreRemoveInterfaceFromProtocol P h g OldInterface s;
         if p = 0 then Some (EFI_NOT_FOUND, s)
         else do {
           Prot \<leftarrow> Interfaces (Ctx s) p;
           let e = Protocol Prot;
           let s = upd_ctx (upd_interface p (Interface_update (\<lambda>_. NewInterface))) s;
           let s = upd_ctx (upd_entry e (ByProtocol_update (\<lambda>l. l @ [p]))) s;
           let s = upd_ctx (touch_handle h) s;
           s \<leftarrow> CoreReleaseProtocolLock P R s;
           (_, s) \<leftarrow> ConnectController E h s;
           s \<leftarrow> CoreAcquireProtocolLock P s;
           s \<leftarrow> CoreNotifyProtocolEntry P R e s;
           Some (EFI_SUCCESS, s)
         }
       }
     }
   }"

definition CoreReinstallProtocolInterface ::
    "platform \<Rightarrow> 'p hdb restore \<Rightarrow> 'p henv \<Rightarrow> EFI_HANDLE \<Rightarrow> EFI_GUID option \<Rightarrow> ptr \<Rightarrow> ptr \<Rightarrow> 'p hstate \<Rightarrow>
     (EFI_STATUS \<times> 'p hstate) option" where
  "CoreReinstallProtocolInterface P R E UserHandle ProtocolGuid OldInterface NewInterface s =
     (if EFI_ERROR (CoreValidateHandle UserHandle (Ctx s)) then Some (CoreValidateHandle UserHandle (Ctx s), s)
      else case ProtocolGuid of
        None \<Rightarrow> Some (EFI_INVALID_PARAMETER, s)
      | Some g \<Rightarrow> do {
          s \<leftarrow> CoreAcquireProtocolLock P s;
          (Status, s) \<leftarrow> reinstall_section P R E UserHandle g OldInterface NewInterface s;
          s \<leftarrow> CoreReleaseProtocolLock P R s;
          Some (Status, s)
        })"

subsection \<open>Queries\<close>

text \<open>The GUIDs of the interfaces of a handle; \<open>*ProtocolBuffer\<close> is a buffer of pointers into the protocol
  entries, here the list of the GUIDs themselves, whose length is \<open>*ProtocolBufferCount\<close>. Without a buffer
  (\<open>None\<close>) the count is 0.\<close>

primrec protocol_guids :: "'p hdb \<Rightarrow> ptr list \<Rightarrow> EFI_GUID list option" where
  "protocol_guids d [] = Some []"
| "protocol_guids d (p # l) = do {
     Prot \<leftarrow> Interfaces d p;
     ProtEntry \<leftarrow> Entries d (Protocol Prot);
     gs \<leftarrow> protocol_guids d l;
     Some (ProtocolID ProtEntry # gs)
   }"

definition protocols_section ::
    "'p henv \<Rightarrow> EFI_HANDLE \<Rightarrow> 'p hstate \<Rightarrow> (EFI_STATUS \<times> EFI_GUID list option \<times> 'p hstate) option" where
  "protocols_section E UserHandle s = do {
     H \<leftarrow> Handles (Ctx s) UserHandle;
     let ProtocolCount = length (Protocols H);
     if ProtocolCount = 0 then Some (EFI_INVALID_PARAMETER, None, s)
     else
       let (Buffer, s) = alloc E (sizeof_EFI_HANDLE * ProtocolCount) s in
       if Buffer = 0 then Some (EFI_OUT_OF_RESOURCES, None, s)
       else do {
         gs \<leftarrow> protocol_guids (Ctx s) (Protocols H);
         Some (EFI_SUCCESS, Some gs, s)
       }
   }"

definition CoreProtocolsPerHandle ::
    "platform \<Rightarrow> 'p hdb restore \<Rightarrow> 'p henv \<Rightarrow> EFI_HANDLE \<Rightarrow> bool \<Rightarrow> bool \<Rightarrow> 'p hstate \<Rightarrow>
     (EFI_STATUS \<times> EFI_GUID list option \<times> 'p hstate) option" where
  "CoreProtocolsPerHandle P R E UserHandle BufferPtr CountPtr s =
     (if EFI_ERROR (CoreValidateHandle UserHandle (Ctx s))
      then Some (CoreValidateHandle UserHandle (Ctx s), None, s)
      else if \<not> BufferPtr then Some (EFI_INVALID_PARAMETER, None, s)
      else if \<not> CountPtr then Some (EFI_INVALID_PARAMETER, None, s)
      else do {
        s \<leftarrow> CoreAcquireProtocolLock P s;
        (Status, out, s) \<leftarrow> protocols_section E UserHandle s;
        s \<leftarrow> CoreReleaseProtocolLock P R s;
        Some (Status, out, s)
      })"

definition CoreGetHandleDatabaseKey :: "'p hdb \<Rightarrow> uint64" where
  "CoreGetHandleDatabaseKey d = gHandleDatabaseKey d"

text \<open>The handles whose key is above \<open>key\<close>, in the order of the list of handles.\<close>

primrec handles_after :: "(ptr \<rightharpoonup> IHANDLE) \<Rightarrow> uint64 \<Rightarrow> ptr list \<Rightarrow> ptr list option" where
  "handles_after hs key [] = Some []"
| "handles_after hs key (h # l) = do {
     H \<leftarrow> hs h;
     r \<leftarrow> handles_after hs key l;
     Some (if Key H > key then h # r else r)
   }"

primrec connect_all :: "'p henv \<Rightarrow> ptr list \<Rightarrow> 'p hstate \<Rightarrow> 'p hstate option" where
  "connect_all E [] s = Some s"
| "connect_all E (h # l) s = do { (_, s) \<leftarrow> ConnectController E h s; connect_all E l s }"

definition CoreConnectHandlesByKey ::
    "platform \<Rightarrow> 'p hdb restore \<Rightarrow> 'p henv \<Rightarrow> uint64 \<Rightarrow> 'p hstate \<Rightarrow> 'p hstate option" where
  "CoreConnectHandlesByKey P R E key s = do {
     s \<leftarrow> CoreAcquireProtocolLock P s;
     hs \<leftarrow> handles_after (Handles (Ctx s)) key (gHandleList (Ctx s));
     let (HandleBuffer, s) = alloc E (length hs * sizeof_EFI_HANDLE) s;
     s \<leftarrow> CoreReleaseProtocolLock P R s;
     if HandleBuffer = 0 then Some s
     else do {
       s \<leftarrow> connect_all E hs s;
       Some (free E HandleBuffer s)
     }
   }"

end
