(* ===== verification/HandleLocate.thy ===== *)
theory HandleLocate
  imports HandleServices
begin

unbundle bit_operations_syntax

section \<open>Searches of the handle database\<close>

text \<open>
  Model of \<^verbatim>\<open>Hand/Locate.c\<close>, and of \<open>CoreInstallMultipleProtocolInterfaces\<close> of \<^verbatim>\<open>Hand/Handle.c\<close>, which searches for
  device paths. The field \<open>Links\<close> of a position holds the links that lie after it; the list that is walked
  does not change during a search, because the lock of the database is held.
\<close>

subsection \<open>The three ways to get the next handle\<close>

record LOCATE_POSITION =
  SearchKey :: ptr
  Links :: "ptr list"

type_synonym 'p CORE_GET_NEXT = "LOCATE_POSITION \<Rightarrow> 'p hdb \<Rightarrow> (ptr \<times> ptr \<times> LOCATE_POSITION \<times> 'p hdb) option"

abbreviation (input) "AllHandles \<equiv> 0 :: int"
abbreviation (input) "ByRegisterNotify \<equiv> 1 :: int"
abbreviation (input) "ByProtocolSearch \<equiv> 2 :: int"

definition CoreGetNextLocateAllHandles :: "'p CORE_GET_NEXT" where
  "CoreGetNextLocateAllHandles pos d =
     Some (case Links pos of [] \<Rightarrow> (0, 0, pos, d) | h # l \<Rightarrow> (h, 0, pos\<lparr>Links := l\<rparr>, d))"

definition CoreGetNextLocateByRegisterNotify :: "'p CORE_GET_NEXT" where
  "CoreGetNextLocateByRegisterNotify pos d =
     (if SearchKey pos \<noteq> 0 then do {
        ProtNotify \<leftarrow> Notifies d (SearchKey pos);
        let pos = pos\<lparr>SearchKey := 0\<rparr>;
        ProtEntry \<leftarrow> Entries d (NotifyProtocol ProtNotify);
        Link \<leftarrow> link_next (ByProtocol ProtEntry) (Position ProtNotify);
        if Link \<noteq> 0 then do {
          Prot \<leftarrow> Interfaces d Link;
          Some (Handle Prot, Interface Prot, pos, d)
        }
        else Some (0, 0, pos, d)
      }
      else Some (0, 0, pos, d))"

primrec next_by_protocol :: "ptr list \<Rightarrow> ptr \<Rightarrow> 'p hdb \<Rightarrow> (ptr \<times> ptr \<times> ptr list \<times> 'p hdb) option" where
  "next_by_protocol [] i d = Some (0, i, [], d)"
| "next_by_protocol (p # l) i d = do {
     Prot \<leftarrow> Interfaces d p;
     H \<leftarrow> Handles d (Handle Prot);
     if LocateRequest H \<noteq> mEfiLocateHandleRequest d
     then Some (Handle Prot, Interface Prot, l,
       upd_handle (Handle Prot) (LocateRequest_update (\<lambda>_. mEfiLocateHandleRequest d)) d)
     else next_by_protocol l (Interface Prot) d
   }"

definition CoreGetNextLocateByProtocol :: "'p CORE_GET_NEXT" where
  "CoreGetNextLocateByProtocol pos d = do {
     (h, i, l, d) \<leftarrow> next_by_protocol (Links pos) 0 d;
     Some (h, i, pos\<lparr>Links := l\<rparr>, d)
   }"

subsection \<open>Locating handles\<close>

text \<open>The enumeration: \<open>buf\<close> collects the handles that fit into the buffer.\<close>

partial_function (option) locate_loop ::
    "'p CORE_GET_NEXT \<Rightarrow> uintn \<Rightarrow> LOCATE_POSITION \<Rightarrow> uintn \<Rightarrow> ptr list \<Rightarrow> 'p hdb \<Rightarrow>
     (uintn \<times> ptr list \<times> 'p hdb) option" where
  "locate_loop GetNext BufferSize pos ResultSize buf d =
     Option.bind (GetNext pos d) (\<lambda>(h, i, pos, d).
       if h = 0 then Some (ResultSize, buf, d)
       else let ResultSize = ResultSize + 8 in
         locate_loop GetNext BufferSize pos ResultSize
           (if ResultSize \<le> BufferSize then buf @ [h] else buf) d)"

declare locate_loop.simps [code]

text \<open>The choice of the search function and the first position.\<close>

definition locate_start ::
    "platform \<Rightarrow> 'p henv \<Rightarrow> int \<Rightarrow> EFI_GUID option \<Rightarrow> ptr \<Rightarrow> 'p hstate \<Rightarrow>
     (EFI_STATUS \<times> 'p CORE_GET_NEXT \<times> LOCATE_POSITION) option" where
  "locate_start P E SearchType ProtocolGuid Skey s =
     (let pos = \<lparr>SearchKey = Skey, Links = gHandleList (Ctx s)\<rparr> in
      if SearchType = AllHandles then Some (EFI_SUCCESS, CoreGetNextLocateAllHandles, pos)
      else if SearchType = ByRegisterNotify then
        Some (if Skey = 0 then EFI_INVALID_PARAMETER else EFI_SUCCESS, CoreGetNextLocateByRegisterNotify, pos)
      else if SearchType = ByProtocolSearch then
        (case ProtocolGuid of
           None \<Rightarrow> Some (EFI_INVALID_PARAMETER, CoreGetNextLocateByProtocol, pos)
         | Some g \<Rightarrow> do {
             (e, _) \<leftarrow> CoreFindProtocolEntry P E g False s;
             if e = 0 then Some (EFI_NOT_FOUND, CoreGetNextLocateByProtocol, pos)
             else do {
               ProtEntry \<leftarrow> Entries (Ctx s) e;
               Some (EFI_SUCCESS, CoreGetNextLocateByProtocol, pos\<lparr>Links := ByProtocol ProtEntry\<rparr>)
             }
           })
      else Some (EFI_INVALID_PARAMETER, CoreGetNextLocateAllHandles, pos))"

text \<open>The position of a notification record moves on by one link.\<close>

definition advance_notify :: "ptr \<Rightarrow> 'p hdb \<Rightarrow> 'p hdb option" where
  "advance_notify n d = do {
     ProtNotify \<leftarrow> Notifies d n;
     ProtEntry \<leftarrow> Entries d (NotifyProtocol ProtNotify);
     Link \<leftarrow> link_next (ByProtocol ProtEntry) (Position ProtNotify);
     Some (upd_notify n (Position_update (\<lambda>_. Link)) d)
   }"

text \<open>What \<open>CoreLocateHandle\<close> does with the lock held: status, new \<open>*BufferSize\<close>, handles written.\<close>

definition locate_section ::
    "platform \<Rightarrow> 'p henv \<Rightarrow> int \<Rightarrow> EFI_GUID option \<Rightarrow> ptr \<Rightarrow> uintn \<Rightarrow> 'p hstate \<Rightarrow>
     (EFI_STATUS \<times> uintn \<times> ptr list \<times> 'p hstate) option" where
  "locate_section P E SearchType ProtocolGuid Skey BufferSize s = do {
     (Status, GetNext, pos) \<leftarrow> locate_start P E SearchType ProtocolGuid Skey s;
     if EFI_ERROR Status then Some (Status, BufferSize, [], s)
     else do {
       let s = upd_ctx (mEfiLocateHandleRequest_update (\<lambda>r. r + 1)) s;
       (ResultSize, buf, d) \<leftarrow> locate_loop GetNext BufferSize pos 0 [] (Ctx s);
       let s = s\<lparr>Ctx := d\<rparr>;
       if ResultSize = 0 then Some (EFI_NOT_FOUND, BufferSize, buf, s)
       else if ResultSize > BufferSize then Some (EFI_BUFFER_TOO_SMALL, ResultSize, buf, s)
       else if SearchType = ByRegisterNotify then do {
         d \<leftarrow> advance_notify Skey (Ctx s);
         Some (EFI_SUCCESS, ResultSize, buf, s\<lparr>Ctx := d\<rparr>)
       }
       else Some (EFI_SUCCESS, ResultSize, buf, s)
     }
   }"

text \<open>\<open>BufferSize\<close> is \<open>None\<close> for a NULL pointer, \<open>BufferPtr\<close> tells whether \<open>Buffer\<close> is not NULL.\<close>

definition CoreLocateHandle ::
    "platform \<Rightarrow> 'p hdb restore \<Rightarrow> 'p henv \<Rightarrow> int \<Rightarrow> EFI_GUID option \<Rightarrow> ptr \<Rightarrow> uintn option \<Rightarrow> bool \<Rightarrow>
     'p hstate \<Rightarrow> (EFI_STATUS \<times> uintn option \<times> ptr list \<times> 'p hstate) option" where
  "CoreLocateHandle P R E SearchType ProtocolGuid Skey BufferSize BufferPtr s =
     (case BufferSize of
        None \<Rightarrow> Some (EFI_INVALID_PARAMETER, None, [], s)
      | Some n \<Rightarrow>
          if n > 0 \<and> \<not> BufferPtr then Some (EFI_INVALID_PARAMETER, Some n, [], s)
          else do {
            s \<leftarrow> CoreAcquireProtocolLock P s;
            (Status, n, buf, s) \<leftarrow> locate_section P E SearchType ProtocolGuid Skey n s;
            s \<leftarrow> CoreReleaseProtocolLock P R s;
            Some (Status, Some n, buf, s)
          })"

text \<open>What \<open>CoreLocateProtocol\<close> does with the lock held: status, \<open>*Interface\<close>.\<close>

definition locate_protocol_section ::
    "platform \<Rightarrow> 'p henv \<Rightarrow> EFI_GUID \<Rightarrow> ptr \<Rightarrow> 'p hstate \<Rightarrow> (EFI_STATUS \<times> ptr \<times> 'p hstate) option" where
  "locate_protocol_section P E g Registration s = do {
     let s = upd_ctx (mEfiLocateHandleRequest_update (\<lambda>r. r + 1)) s;
     if Registration = 0 then do {
       (e, _) \<leftarrow> CoreFindProtocolEntry P E g False s;
       if e = 0 then Some (EFI_NOT_FOUND, 0, s)
       else do {
         ProtEntry \<leftarrow> Entries (Ctx s) e;
         (h, i, _, d) \<leftarrow> CoreGetNextLocateByProtocol
           \<lparr>SearchKey = Registration, Links = ByProtocol ProtEntry\<rparr> (Ctx s);
         Some (if h = 0 then EFI_NOT_FOUND else EFI_SUCCESS, i, s\<lparr>Ctx := d\<rparr>)
       }
     }
     else do {
       (h, i, _, d) \<leftarrow> CoreGetNextLocateByRegisterNotify
         \<lparr>SearchKey = Registration, Links = gHandleList (Ctx s)\<rparr> (Ctx s);
       if h = 0 then Some (EFI_NOT_FOUND, i, s\<lparr>Ctx := d\<rparr>)
       else do {
         d \<leftarrow> advance_notify Registration d;
         Some (EFI_SUCCESS, i, s\<lparr>Ctx := d\<rparr>)
       }
     }
   }"

definition CoreLocateProtocol ::
    "platform \<Rightarrow> 'p hdb restore \<Rightarrow> 'p henv \<Rightarrow> EFI_GUID option \<Rightarrow> ptr \<Rightarrow> bool \<Rightarrow> 'p hstate \<Rightarrow>
     (EFI_STATUS \<times> ptr option \<times> 'p hstate) option" where
  "CoreLocateProtocol P R E ProtocolGuid Registration InterfacePtr s =
     (if \<not> InterfacePtr then Some (EFI_INVALID_PARAMETER, None, s)
      else case ProtocolGuid of
        None \<Rightarrow> Some (EFI_NOT_FOUND, None, s)
      | Some g \<Rightarrow> do {
          s \<leftarrow> CoreAcquireProtocolLock P s;
          (Status, i, s) \<leftarrow> locate_protocol_section P E g Registration s;
          s \<leftarrow> CoreReleaseProtocolLock P R s;
          Some (Status, Some i, s)
        })"

text \<open>The results are the status, \<open>*NumberHandles\<close>, the address of the buffer (0 for NULL) and the handles
  in it.\<close>

definition CoreLocateHandleBuffer ::
    "platform \<Rightarrow> 'p hdb restore \<Rightarrow> 'p henv \<Rightarrow> int \<Rightarrow> EFI_GUID option \<Rightarrow> ptr \<Rightarrow> bool \<Rightarrow> bool \<Rightarrow> 'p hstate \<Rightarrow>
     (EFI_STATUS \<times> nat \<times> ptr \<times> ptr list \<times> 'p hstate) option" where
  "CoreLocateHandleBuffer P R E SearchType ProtocolGuid Skey NumberPtr BufferPtr s =
     (if \<not> NumberPtr \<or> \<not> BufferPtr then Some (EFI_INVALID_PARAMETER, 0, 0, [], s)
      else do {
        (Status, n, _, s) \<leftarrow> CoreLocateHandle P R E SearchType ProtocolGuid Skey (Some 0) False s;
        if EFI_ERROR Status \<and> Status \<noteq> EFI_BUFFER_TOO_SMALL
        then Some (if Status \<noteq> EFI_INVALID_PARAMETER then EFI_NOT_FOUND else Status, 0, 0, [], s)
        else do {
          BufferSize \<leftarrow> n;
          let (Buffer, s) = alloc E (unat BufferSize) s;
          if Buffer = 0 then Some (EFI_OUT_OF_RESOURCES, 0, 0, [], s)
          else do {
            (Status, n, buf, s) \<leftarrow>
              CoreLocateHandle P R E SearchType ProtocolGuid Skey (Some BufferSize) True s;
            BufferSize \<leftarrow> n;
            Some (Status, if EFI_ERROR Status then 0 else unat BufferSize div sizeof_EFI_HANDLE, Buffer, buf, s)
          }
        }
      })"

subsection \<open>Locating a device path\<close>

text \<open>The loop over the handles that have the protocol: the size of the best match so far (-1 for none)
  and its handle. \<open>Size\<close> is signed; as the length for \<open>CompareMem\<close> it is converted to \<open>UINTN\<close>, so that the
  size -4 of a NULL device path, which only the assertion excludes, asks for a comparison of almost all
  memory.\<close>

primrec best_match_loop ::
    "platform \<Rightarrow> 'p hdb restore \<Rightarrow> 'p henv \<Rightarrow> nat \<Rightarrow> int \<Rightarrow> ptr list \<Rightarrow> int \<Rightarrow> ptr \<Rightarrow> 'p hstate \<Rightarrow>
     (int \<times> ptr \<times> 'p hstate) option" where
  "best_match_loop P R E SourcePath SourceSize [] BestMatch Device s = Some (BestMatch, Device, s)"
| "best_match_loop P R E SourcePath SourceSize (h # hs) BestMatch Device s = do {
     (Status, out, s) \<leftarrow> CoreHandleProtocol P R E h (Some gEfiDevicePathProtocolGuid) True s;
     if EFI_ERROR Status then best_match_loop P R E SourcePath SourceSize hs BestMatch Device s
     else do {
       TmpDevicePath \<leftarrow> out;
       n \<leftarrow> GetDevicePathSize (Asserts P) (Mem E) TmpDevicePath;
       let Size = int n - 4;
       ASSERT (Asserts P) (Some (Size \<ge> 0));
       if Size \<le> SourceSize \<and> CompareMem_eq (Mem E) SourcePath TmpDevicePath (unat (word_of_int Size :: uintn))
       then do {
         ASSERT (Asserts P) (Some (Size \<noteq> BestMatch));
         if Size > BestMatch then best_match_loop P R E SourcePath SourceSize hs Size h s
         else best_match_loop P R E SourcePath SourceSize hs BestMatch Device s
       }
       else best_match_loop P R E SourcePath SourceSize hs BestMatch Device s
     }
   }"

text \<open>
  \<open>DevicePath\<close> is \<open>None\<close> for a NULL pointer and \<open>Some 0\<close> for a pointer to NULL. The results are the status,
  \<open>*DevicePath\<close> and \<open>*Device\<close> afterwards.
\<close>

definition CoreLocateDevicePath ::
    "platform \<Rightarrow> 'p hdb restore \<Rightarrow> 'p henv \<Rightarrow> EFI_GUID option \<Rightarrow> nat option \<Rightarrow> bool \<Rightarrow> 'p hstate \<Rightarrow>
     (EFI_STATUS \<times> nat option \<times> ptr option \<times> 'p hstate) option" where
  "CoreLocateDevicePath P R E ProtocolGuid DevicePathPtr DevicePtr s =
     (case (ProtocolGuid, DevicePathPtr) of
        (Some g, Some SourcePath) \<Rightarrow>
          if SourcePath = 0 \<or> \<not> DevicePtr then Some (EFI_INVALID_PARAMETER, DevicePathPtr, None, s)
          else do {
            e \<leftarrow> first_instance_end (Asserts P) (Mem E) SourcePath;
            let SourceSize = int e - int SourcePath;
            (Status, HandleCount, Buffer, Handles, s) \<leftarrow>
              CoreLocateHandleBuffer P R E ByProtocolSearch (Some g) 0 True True s;
            if EFI_ERROR Status \<or> HandleCount = 0 then Some (EFI_NOT_FOUND, DevicePathPtr, Some 0, s)
            else do {
              (BestMatch, Device, s) \<leftarrow> best_match_loop P R E SourcePath SourceSize Handles (-1) 0 s;
              let s = free E Buffer s;
              if BestMatch = -1 then Some (EFI_NOT_FOUND, DevicePathPtr, Some Device, s)
              else Some (EFI_SUCCESS, Some (SourcePath + nat BestMatch), Some Device, s)
            }
          }
      | _ \<Rightarrow> Some (EFI_INVALID_PARAMETER, DevicePathPtr, None, s))"

subsection \<open>Installing several interfaces\<close>

text \<open>
  The device path check: installing a device path that some handle has already is an error
  (\<open>EFI_ALREADY_STARTED\<close>); otherwise the status is overwritten by the installation.
\<close>

definition device_path_exists ::
    "platform \<Rightarrow> 'p hdb restore \<Rightarrow> 'p henv \<Rightarrow> EFI_GUID \<Rightarrow> ptr \<Rightarrow> 'p hstate \<Rightarrow> (bool \<times> 'p hstate) option" where
  "device_path_exists P R E g i s =
     (if g = gEfiDevicePathProtocolGuid then do {
        (Status, dp, dh, s) \<leftarrow>
          CoreLocateDevicePath P R E (Some gEfiDevicePathProtocolGuid) (Some i) True s;
        if \<not> EFI_ERROR Status \<and> dh \<noteq> Some 0 then do {
          DevicePath \<leftarrow> dp;
          b \<leftarrow> IsDevicePathEnd (Asserts P) (Mem E) DevicePath;
          Some (b, s)
        }
        else Some (False, s)
      }
      else Some (False, s))"

primrec install_loop ::
    "platform \<Rightarrow> 'p hdb restore \<Rightarrow> 'p henv \<Rightarrow> (EFI_GUID \<times> ptr) list \<Rightarrow> nat \<Rightarrow> EFI_HANDLE \<Rightarrow> 'p hstate \<Rightarrow>
     (EFI_STATUS \<times> nat \<times> EFI_HANDLE \<times> 'p hstate) option" where
  "install_loop P R E [] Index h s = Some (EFI_SUCCESS, Index, h, s)"
| "install_loop P R E (a # as) Index h s = do {
     (exists, s) \<leftarrow> device_path_exists P R E (fst a) (snd a) s;
     if exists then Some (EFI_ALREADY_STARTED, Index + 1, h, s)
     else do {
       (Status, h', s) \<leftarrow>
         CoreInstallProtocolInterface P R E (Some h) (Some (fst a)) EFI_NATIVE_INTERFACE (snd a) s;
       let h = (case h' of None \<Rightarrow> h | Some h' \<Rightarrow> h');
       if EFI_ERROR Status then Some (Status, Index + 1, h, s) else install_loop P R E as (Index + 1) h s
     }
   }"

primrec undo_install_loop ::
    "platform \<Rightarrow> 'p hdb restore \<Rightarrow> 'p henv \<Rightarrow> EFI_HANDLE \<Rightarrow> (EFI_GUID \<times> ptr) list \<Rightarrow> 'p hstate \<Rightarrow>
     'p hstate option" where
  "undo_install_loop P R E h [] s = Some s"
| "undo_install_loop P R E h (a # as) s = do {
     (_, s) \<leftarrow> CoreUninstallProtocolInterface P R E h (Some (fst a)) (snd a) s;
     undo_install_loop P R E h as s
   }"

definition CoreInstallMultipleProtocolInterfaces ::
    "platform \<Rightarrow> 'p hdb restore \<Rightarrow> 'p henv \<Rightarrow> EFI_HANDLE option \<Rightarrow> (EFI_GUID \<times> ptr) list \<Rightarrow> 'p hstate \<Rightarrow>
     (EFI_STATUS \<times> EFI_HANDLE option \<times> 'p hstate) option" where
  "CoreInstallMultipleProtocolInterfaces P R E HandlePtr args s =
     (case HandlePtr of
        None \<Rightarrow> Some (EFI_INVALID_PARAMETER, None, s)
      | Some OldHandle \<Rightarrow> do {
          (OldTpl, s) \<leftarrow> CoreRaiseTpl P TPL_NOTIFY s;
          (Status, Index, h, s) \<leftarrow> install_loop P R E args 0 OldHandle s;
          (h, s) \<leftarrow> (if EFI_ERROR Status then do {
              s \<leftarrow> undo_install_loop P R E h (take (Index - 1) args) s;
              Some (OldHandle, s)
            }
            else Some (h, s));
          s \<leftarrow> R OldTpl s;
          Some (Status, Some h, s)
        })"

end
