(* ===== verification/EventCtx.thy ===== *)
theory EventCtx
  imports EventSystem
begin

unbundle bit_operations_syntax

section \<open>What the event services do to the rest of the system\<close>

text \<open>
  The event services change the context \<open>Ctx\<close> of the state, which holds the handle database, only through
  the notification functions they run. \<open>ctx_step Q\<close> relates two states if the lock of the protocol
  database is as before, the context is unchanged when that lock is held, and the property \<open>Q\<close> of the
  context is kept. If the restore function and the drivers make such steps, so does every service of the
  theory of events, and so does \<open>CoreRestoreTpl\<close>.
\<close>

definition ctx_step :: "('u \<Rightarrow> bool) \<Rightarrow> 'u dxe \<Rightarrow> 'u dxe \<Rightarrow> bool" where
  "ctx_step Q s t \<longleftrightarrow>
     Lock (Locks t gProtocolDatabaseLock) = Lock (Locks s gProtocolDatabaseLock) \<and>
     (held s gProtocolDatabaseLock \<longrightarrow> Ctx t = Ctx s) \<and> (Q (Ctx s) \<longrightarrow> Q (Ctx t))"

definition restore_ctx :: "('u \<Rightarrow> bool) \<Rightarrow> 'u restore \<Rightarrow> bool" where
  "restore_ctx Q R \<longleftrightarrow> (\<forall>t s u. R t s = Some u \<longrightarrow> ctx_step Q s u)"

definition drivers_ctx :: "('u \<Rightarrow> bool) \<Rightarrow> 'u drivers \<Rightarrow> bool" where
  "drivers_ctx Q NC \<longleftrightarrow>
     (\<forall>k R e c s u. restore_ctx Q R \<longrightarrow> NC k R e c s = Some u \<longrightarrow> ctx_step Q s u)"

lemma ctx_step_refl [simp]: "ctx_step Q s s"
  by (simp add: ctx_step_def)

lemma ctx_step_trans [trans]: "ctx_step Q s t \<Longrightarrow> ctx_step Q t u \<Longrightarrow> ctx_step Q s u"
  by (auto simp: ctx_step_def held_def)

lemma ctx_step_same:
  "Ctx t = Ctx s \<Longrightarrow> Locks t gProtocolDatabaseLock = Locks s gProtocolDatabaseLock \<Longrightarrow> ctx_step Q s t"
  by (simp add: ctx_step_def)

lemma ctx_step_upd_db [simp]: "ctx_step Q s (upd_db f t) = ctx_step Q s t" "ctx_step Q (upd_db f s) t = ctx_step Q s t"
  by (simp_all add: ctx_step_def held_def)

lemma restore_ctxD: "restore_ctx Q R \<Longrightarrow> R t s = Some u \<Longrightarrow> ctx_step Q s u"
  by (simp add: restore_ctx_def)

subsection \<open>Locks and signals\<close>

lemma CoreRaiseTpl_ctx: "CoreRaiseTpl P t s = Some (old, u) \<Longrightarrow> ctx_step Q s u"
  by (auto simp: CoreRaiseTpl_def bind_eq_Some_conv Let_def intro!: ctx_step_same)

lemma CoreAcquireLock_ctx:
  "l \<noteq> gProtocolDatabaseLock \<Longrightarrow> CoreAcquireLock P l s = Some u \<Longrightarrow> ctx_step Q s u"
  by (auto simp: CoreAcquireLock_def CoreRaiseTpl_def bind_eq_Some_conv Let_def intro!: ctx_step_same)

lemma CoreReleaseLock_ctx:
  assumes R: "restore_ctx Q R" and "l \<noteq> gProtocolDatabaseLock" and "CoreReleaseLock P R l s = Some u"
  shows "ctx_step Q s u"
proof -
  let ?s = "s\<lparr>Locks := (Locks s)(l := (Locks s l)\<lparr>Lock := EfiLockReleased\<rparr>)\<rparr>"
  have "R (OwnerTpl (Locks s l)) ?s = Some u" using assms(3) by (auto simp: CoreReleaseLock_def bind_eq_Some_conv Let_def)
  from restore_ctxD [OF R this] have "ctx_step Q ?s u" .
  moreover have "ctx_step Q s ?s" using assms(2) by (intro ctx_step_same) simp_all
  ultimately show ?thesis by (blast intro: ctx_step_trans)
qed

lemma event_lock_ctx:
  "CoreAcquireEventLock P s = Some u \<Longrightarrow> ctx_step Q s u"
  "restore_ctx Q R \<Longrightarrow> CoreReleaseEventLock P R s = Some u \<Longrightarrow> ctx_step Q s u"
  by (auto simp: event_lock_defs elim!: CoreAcquireLock_ctx [rotated] CoreReleaseLock_ctx [rotated 2])

lemma CoreNotifyEvent_ctx: "CoreNotifyEvent P e s = Some u \<Longrightarrow> ctx_step Q s u"
  by (auto simp: CoreNotifyEvent_def bind_eq_Some_conv)

lemma notify_signal_loop_ctx: "notify_signal_loop P g es s = Some u \<Longrightarrow> ctx_step Q s u"
  by (induction es arbitrary: s)
    (auto simp: bind_eq_Some_conv split: if_splits intro: ctx_step_trans CoreNotifyEvent_ctx)

lemma CoreNotifySignalList_ctx:
  "restore_ctx Q R \<Longrightarrow> CoreNotifySignalList P R g s = Some u \<Longrightarrow> ctx_step Q s u"
  by (auto simp: CoreNotifySignalList_def bind_eq_Some_conv
      dest!: event_lock_ctx [where Q = Q] notify_signal_loop_ctx [where Q = Q] intro: ctx_step_trans)

lemma signal_section_ctx:
  assumes R: "restore_ctx Q R" and "signal_section P R e ev s = Some u"
  shows "ctx_step Q s u"
  using assms(2) unfolding signal_section_def Let_def
  by (auto simp: bind_eq_Some_conv split: if_splits
      dest!: event_lock_ctx(1) [where Q = Q] event_lock_ctx(2) [OF R] CoreNotifySignalList_ctx [OF R]
        CoreNotifyEvent_ctx [where Q = Q] intro: ctx_step_trans; blast intro: ctx_step_trans)

lemma CoreSignalEvent_ctx:
  assumes R: "restore_ctx Q R" and "CoreSignalEvent P R e s = Some (st, u)"
  shows "ctx_step Q s u"
  using assms(2) unfolding CoreSignalEvent_def
  by (auto simp: bind_eq_Some_conv split: if_splits
      dest!: event_lock_ctx(1) [where Q = Q] event_lock_ctx(2) [OF R] signal_section_ctx [OF R]
      intro: ctx_step_trans; blast intro: ctx_step_trans)

subsection \<open>Checking, waiting, timers\<close>

lemma queue_wait_notify_ctx:
  assumes R: "restore_ctx Q R" and "queue_wait_notify P R e ev s = Some u"
  shows "ctx_step Q s u"
  using assms(2) unfolding queue_wait_notify_def
  by (auto simp: bind_eq_Some_conv split: if_splits
      dest!: event_lock_ctx(1) [where Q = Q] event_lock_ctx(2) [OF R] CoreNotifyEvent_ctx [where Q = Q]
      intro: ctx_step_trans; blast intro: ctx_step_trans)

lemma take_signal_ctx:
  assumes R: "restore_ctx Q R" and "take_signal P R e s = Some (st, u)"
  shows "ctx_step Q s u"
  using assms(2) unfolding take_signal_def Let_def
  by (auto simp: bind_eq_Some_conv split: if_splits
      dest!: event_lock_ctx(1) [where Q = Q] event_lock_ctx(2) [OF R] intro: ctx_step_trans; blast intro: ctx_step_trans)

lemma CoreCheckEvent_ctx:
  assumes R: "restore_ctx Q R" and "CoreCheckEvent P R e s = Some (st, u)"
  shows "ctx_step Q s u"
  using assms(2) unfolding CoreCheckEvent_def
  by (auto simp: bind_eq_Some_conv split: if_splits
      dest!: queue_wait_notify_ctx [OF R] take_signal_ctx [OF R] intro: ctx_step_trans; blast intro: ctx_step_trans)

lemma wait_loop_ctx:
  assumes R: "restore_ctx Q R" and run: "wait_loop P R es i s = Some x"
  shows "ctx_step Q s (snd (snd x))"
proof -
  have "case ((((P, R), es), i), s) of ((((P', R'), es'), i), s) \<Rightarrow> R' = R \<longrightarrow> ctx_step Q s (snd (snd x))"
  proof (rule wait_loop.raw_induct [where Pa = "\<lambda>a x. case a of ((((P', R'), es'), i), s) \<Rightarrow>
      R' = R \<longrightarrow> ctx_step Q s (snd (snd x))", OF _ run], goal_cases)
    case (1 f P' R' es i s x)
    show ?case
    proof (clarsimp)
      assume "R' = R"
      with 1(2) consider (wrap) "f P' R es 0 s = Some x"
        | (hit) st v where "CoreCheckEvent P' R (es ! i) s = Some (st, v)" "x = (st, i, v)"
        | (go) st v where "CoreCheckEvent P' R (es ! i) s = Some (st, v)" "f P' R es (Suc i) v = Some x"
        by (auto simp: bind_eq_Some_conv split: if_splits)
      then show "ctx_step Q s (snd (snd x))"
      proof cases
        case wrap
        then show ?thesis using 1(1) [OF wrap] by simp
      next
        case hit
        then show ?thesis using CoreCheckEvent_ctx [OF R] by simp
      next
        case go
        then show ?thesis using 1(1) [OF go(2)] CoreCheckEvent_ctx [OF R go(1)]
          by (auto intro: ctx_step_trans)
      qed
    qed
  qed
  then show ?thesis by simp
qed

lemma CoreWaitForEvent_ctx:
  assumes R: "restore_ctx Q R" and "CoreWaitForEvent P R es s = Some (st, i, u)"
  shows "ctx_step Q s u"
  using assms(2) wait_loop_ctx [OF R] by (fastforce simp: CoreWaitForEvent_def split: if_splits)

lemma CoreInsertEventTimer_ctx: "CoreInsertEventTimer P e s = Some u \<Longrightarrow> ctx_step Q s u"
  by (auto simp: CoreInsertEventTimer_def bind_eq_Some_conv)

lemma timer_lock_ctx:
  "CoreAcquireLock P mEfiTimerLock s = Some u \<Longrightarrow> ctx_step Q s u"
  "CoreAcquireLock P mEfiSystemTimeLock s = Some u \<Longrightarrow> ctx_step Q s u"
  "restore_ctx Q R \<Longrightarrow> CoreReleaseLock P R mEfiTimerLock s = Some u \<Longrightarrow> ctx_step Q s u"
  "restore_ctx Q R \<Longrightarrow> CoreReleaseLock P R mEfiSystemTimeLock s = Some u \<Longrightarrow> ctx_step Q s u"
  by (auto elim!: CoreAcquireLock_ctx [rotated] CoreReleaseLock_ctx [rotated 2])

lemma CoreCurrentSystemTime_ctx:
  assumes R: "restore_ctx Q R" and "CoreCurrentSystemTime P R s = Some (now, u)"
  shows "ctx_step Q s u"
  using assms(2) unfolding CoreCurrentSystemTime_def Let_def
  by (auto simp: bind_eq_Some_conv dest!: timer_lock_ctx(1,2) [where Q = Q] timer_lock_ctx(3,4) [OF R]
      intro: ctx_step_trans; blast intro: ctx_step_trans)

lemma rearm_timer_ctx:
  assumes R: "restore_ctx Q R" and "rearm_timer P R now e ev s = Some u"
  shows "ctx_step Q s u"
  using assms(2) unfolding rearm_timer_def Let_def
  by (auto simp: bind_eq_Some_conv split: if_splits
      dest!: CoreSignalEvent_ctx [OF R] CoreInsertEventTimer_ctx [where Q = Q] intro: ctx_step_trans; blast intro: ctx_step_trans)

lemma expire_timer_ctx:
  assumes R: "restore_ctx Q R" and "expire_timer P R now e s = Some u"
  shows "ctx_step Q s u"
  using assms(2) unfolding expire_timer_def Let_def
  by (auto simp: bind_eq_Some_conv split: if_splits
      dest!: CoreSignalEvent_ctx [OF R] rearm_timer_ctx [OF R] intro: ctx_step_trans; blast intro: ctx_step_trans)

lemma check_timers_loop_ctx:
  assumes R: "restore_ctx Q R" and run: "check_timers_loop P R now s = Some x"
  shows "ctx_step Q s x"
proof -
  have "case (((P, R), now), s) of (((P', R'), now), s) \<Rightarrow> R' = R \<longrightarrow> ctx_step Q s x"
  proof (rule check_timers_loop.raw_induct [where Pa = "\<lambda>a x. case a of (((P', R'), now), s) \<Rightarrow>
      R' = R \<longrightarrow> ctx_step Q s x", OF _ run], goal_cases)
    case (1 f P' R' now s x)
    show ?case
    proof (clarsimp)
      assume "R' = R"
      with 1(2) consider "x = s"
        | e v where "expire_timer P' R now e s = Some v" "f P' R now v = Some x"
        by (auto simp: bind_eq_Some_conv split: list.splits if_splits)
      then show "ctx_step Q s x"
        by cases (use 1(1) expire_timer_ctx [OF R] in \<open>fastforce intro: ctx_step_trans\<close>)+
    qed
  qed
  then show ?thesis by simp
qed

lemma CoreCheckTimers_ctx:
  assumes R: "restore_ctx Q R" and "CoreCheckTimers P R s = Some u"
  shows "ctx_step Q s u"
  using assms(2) unfolding CoreCheckTimers_def
  by (auto simp: bind_eq_Some_conv dest!: timer_lock_ctx(1,2) [where Q = Q] timer_lock_ctx(3,4) [OF R]
      CoreCurrentSystemTime_ctx [OF R] check_timers_loop_ctx [OF R] intro: ctx_step_trans; blast intro: ctx_step_trans)

lemma tick_check_ctx:
  assumes R: "restore_ctx Q R" and "tick_check P R s = Some u"
  shows "ctx_step Q s u"
  using assms(2) unfolding tick_check_def
  by (auto simp: bind_eq_Some_conv split: list.splits if_splits dest!: CoreSignalEvent_ctx [OF R])

lemma CoreTimerTick_ctx:
  assumes R: "restore_ctx Q R" and "CoreTimerTick P R d s = Some u"
  shows "ctx_step Q s u"
  using assms(2) unfolding CoreTimerTick_def Let_def
  by (auto simp: bind_eq_Some_conv dest!: timer_lock_ctx(1,2) [where Q = Q] timer_lock_ctx(3,4) [OF R]
      tick_check_ctx [OF R] intro: ctx_step_trans; blast intro: ctx_step_trans)

lemma start_timer_ctx:
  assumes R: "restore_ctx Q R" and "start_timer P R e dt t s = Some u"
  shows "ctx_step Q s u"
  using assms(2) unfolding start_timer_def Let_def
  by (auto simp: bind_eq_Some_conv split: if_splits dest!: CoreCurrentSystemTime_ctx [OF R]
      CoreInsertEventTimer_ctx [where Q = Q] CoreSignalEvent_ctx [OF R] intro: ctx_step_trans; blast intro: ctx_step_trans)

lemma CoreSetTimer_ctx:
  assumes R: "restore_ctx Q R" and "CoreSetTimer P R e dt t s = Some (st, u)"
  shows "ctx_step Q s u"
  using assms(2) unfolding CoreSetTimer_def Let_def
  by (auto simp: bind_eq_Some_conv split: if_splits dest!: timer_lock_ctx(1,2) [where Q = Q]
      timer_lock_ctx(3,4) [OF R] start_timer_ctx [OF R] intro: ctx_step_trans; blast intro: ctx_step_trans)

subsection \<open>The lock of the protocol database\<close>

lemma CoreAcquireLock_protocol:
  assumes "CoreAcquireLock P gProtocolDatabaseLock s = Some a" "Asserts P"
  shows "Ctx a = Ctx s" "Lock (Locks s gProtocolDatabaseLock) = EfiLockReleased" "held a gProtocolDatabaseLock"
  using assms by (auto simp: CoreAcquireLock_def CoreRaiseTpl_def bind_eq_Some_conv ASSERT_Some_iff Let_def held_def)

lemma CoreReleaseLock_protocol:
  assumes R: "restore_ctx Q R" and "CoreReleaseLock P R gProtocolDatabaseLock s = Some u"
  shows "Lock (Locks u gProtocolDatabaseLock) = EfiLockReleased" "Q (Ctx s) \<Longrightarrow> Q (Ctx u)"
proof -
  let ?s = "s\<lparr>Locks := (Locks s)(gProtocolDatabaseLock := (Locks s gProtocolDatabaseLock)\<lparr>Lock := EfiLockReleased\<rparr>)\<rparr>"
  have "R (OwnerTpl (Locks s gProtocolDatabaseLock)) ?s = Some u"
    using assms(2) by (auto simp: CoreReleaseLock_def bind_eq_Some_conv Let_def)
  from restore_ctxD [OF R this] have "ctx_step Q ?s u" .
  then show "Lock (Locks u gProtocolDatabaseLock) = EfiLockReleased" "Q (Ctx s) \<Longrightarrow> Q (Ctx u)"
    by (simp_all add: ctx_step_def)
qed

text \<open>A service that takes the lock, keeps \<open>Q\<close> in its critical section and releases the lock.\<close>

lemma protocol_section_ctx:
  assumes "Asserts P" "restore_ctx Q R" "CoreAcquireLock P gProtocolDatabaseLock s = Some a"
    and "Q (Ctx a) \<Longrightarrow> Q (Ctx b)" "CoreReleaseLock P R gProtocolDatabaseLock b = Some u"
  shows "ctx_step Q s u"
  using CoreAcquireLock_protocol [OF assms(3,1)] CoreReleaseLock_protocol [OF assms(2,5)] assms(4)
  by (auto simp: ctx_step_def held_def)

subsection \<open>Creating and closing events\<close>

lemma CoreCreateEventEx_ctx:
  assumes R: "restore_ctx Q R" and "CoreCreateEventEx P R pool ty tpl f c g b s = Some (st, r, u)"
  shows "ctx_step Q s u"
  using assms(2) unfolding CoreCreateEventEx_def install_event_def Let_def
  by (auto simp: bind_eq_Some_conv split: if_splits sum.splits
      dest!: event_lock_ctx(1) [where Q = Q] event_lock_ctx(2) [OF R] intro: ctx_step_trans)

definition unreg_ctx :: "('u \<Rightarrow> bool) \<Rightarrow> (eid \<Rightarrow> 'u \<Rightarrow> 'u option) \<Rightarrow> bool" where
  "unreg_ctx Q unreg \<longleftrightarrow> (\<forall>e c c'. unreg e c = Some c' \<longrightarrow> Q c \<longrightarrow> Q c')"

lemma CoreUnregisterProtocolNotifyEvent_ctx:
  assumes A: "Asserts P" and R: "restore_ctx Q R" and U: "unreg_ctx Q unreg"
    and run: "CoreUnregisterProtocolNotifyEvent P R unreg e s = Some (st, u)"
  shows "ctx_step Q s u"
proof -
  obtain a where a: "CoreAcquireLock P gProtocolDatabaseLock s = Some a"
    and rest: "(\<exists>c. unreg e (Ctx a) = Some c \<and> CoreReleaseLock P R gProtocolDatabaseLock (a\<lparr>Ctx := c\<rparr>) = Some u) \<or>
      CoreReleaseLock P R gProtocolDatabaseLock a = Some u"
    using run unfolding CoreUnregisterProtocolNotifyEvent_def by (auto simp: bind_eq_Some_conv split: option.splits)
  from rest show ?thesis
  proof
    assume "\<exists>c. unreg e (Ctx a) = Some c \<and> CoreReleaseLock P R gProtocolDatabaseLock (a\<lparr>Ctx := c\<rparr>) = Some u"
    then obtain c where "unreg e (Ctx a) = Some c" "CoreReleaseLock P R gProtocolDatabaseLock (a\<lparr>Ctx := c\<rparr>) = Some u"
      by blast
    with U show ?thesis by (intro protocol_section_ctx [OF A R a]) (auto simp: unreg_ctx_def)
  qed (rule protocol_section_ctx [OF A R a])
qed

lemma CoreUnregisterProtocolNotify_ctx:
  assumes A: "Asserts P" and R: "restore_ctx Q R" and U: "unreg_ctx Q unreg"
    and run: "CoreUnregisterProtocolNotify P R unreg e s = Some x"
  shows "ctx_step Q s (snd x)"
proof -
  have "case ((((P, R), unreg), e), s) of ((((P', R'), unreg'), e), s) \<Rightarrow>
      P' = P \<longrightarrow> R' = R \<longrightarrow> unreg' = unreg \<longrightarrow> ctx_step Q s (snd x)"
  proof (rule CoreUnregisterProtocolNotify.raw_induct [where Pa = "\<lambda>a x. case a of
      ((((P', R'), unreg'), e), s) \<Rightarrow> P' = P \<longrightarrow> R' = R \<longrightarrow> unreg' = unreg \<longrightarrow> ctx_step Q s (snd x)",
      OF _ run], goal_cases)
    case (1 f P' R' unreg' e s x)
    show ?case
    proof (clarsimp)
      assume "P' = P" "R' = R" "unreg' = unreg"
      with 1(2) obtain st v where v: "CoreUnregisterProtocolNotifyEvent P R unreg e s = Some (st, v)"
        and x: "x = (EFI_SUCCESS, v) \<or> f P R unreg e v = Some x"
        by (auto simp: bind_eq_Some_conv split: if_splits)
      from x 1(1) [of P R unreg e v x] have "v = snd x \<or> ctx_step Q v (snd x)" by auto
      with CoreUnregisterProtocolNotifyEvent_ctx [OF A R U v] show "ctx_step Q s (snd x)"
        by (auto intro: ctx_step_trans)
    qed
  qed
  then show ?thesis by simp
qed

lemma CoreCloseEvent_ctx:
  assumes A: "Asserts P" and R: "restore_ctx Q R" and U: "unreg_ctx Q unreg"
    and run: "CoreCloseEvent P R unreg e s = Some (st, u)"
  shows "ctx_step Q s u"
  using run unfolding CoreCloseEvent_def Let_def
  by (auto simp: bind_eq_Some_conv split: if_splits dest!: event_lock_ctx(1) [where Q = Q]
      event_lock_ctx(2) [OF R] CoreSetTimer_ctx [OF R] CoreUnregisterProtocolNotify_ctx [OF A R U]
      intro: ctx_step_trans; blast intro: ctx_step_trans)

subsection \<open>Dispatching notifications\<close>

lemma dispatch_one_ctx:
  assumes R: "restore_ctx Q R" and N: "drivers_ctx Q NC" and run: "dispatch_one P NC R p s = Some u"
  shows "ctx_step Q s u"
proof -
  obtain f g a e c b where g: "CoreReleaseEventLock P R (upd_db f s) = Some a"
    and r: "run_notify P NC R g e c a = Some b" and q: "CoreAcquireEventLock P b = Some u"
  proof -
    assume *: "\<And>f a g e c b. CoreReleaseEventLock P R (upd_db f s) = Some a \<Longrightarrow>
      run_notify P NC R g e c a = Some b \<Longrightarrow> CoreAcquireEventLock P b = Some u \<Longrightarrow> thesis"
    show thesis
      using run unfolding dispatch_one_def Let_def upd_db_comp
      by (auto simp: bind_eq_Some_conv upd_db_comp split: if_splits intro: *)
  qed
  have "ctx_step Q s a" using event_lock_ctx(2) [OF R g] by simp
  also have "ctx_step Q a b"
    using r N R CoreCheckTimers_ctx [OF R] unfolding run_notify_def drivers_ctx_def
    by (auto split: EFI_EVENT_NOTIFY.splits)
  also have "ctx_step Q b u" using event_lock_ctx(1) q .
  finally show ?thesis .
qed

lemma while_opt_ctx:
  assumes "while_opt c b s = Some u" "\<And>s u. b s = Some u \<Longrightarrow> ctx_step Q s u"
  shows "ctx_step Q s u"
  using while_opt_rule [OF assms(1), of "ctx_step Q s"] assms(2) by (blast intro: ctx_step_trans ctx_step_refl)

lemma CoreDispatchEventNotifies_ctx:
  assumes R: "restore_ctx Q R" and N: "drivers_ctx Q NC"
    and run: "CoreDispatchEventNotifies P NC R p s = Some u"
  shows "ctx_step Q s u"
  using run unfolding CoreDispatchEventNotifies_def Let_def
  by (auto simp: bind_eq_Some_conv dest!: event_lock_ctx(1) [where Q = Q] event_lock_ctx(2) [OF R]
      while_opt_ctx [OF _ dispatch_one_ctx [OF R N]] intro: ctx_step_trans; blast intro: ctx_step_trans)

lemma RestoreTpl_body_ctx:
  assumes A: "Asserts P" and R: "restore_ctx Q R" and N: "drivers_ctx Q NC"
  shows "restore_ctx Q (RestoreTpl_body P NC R)"
  unfolding restore_ctx_def
proof (intro allI impI)
  fix t s u
  assume run: "RestoreTpl_body P NC R t s = Some u"
  obtain s1 s2 where s1: "s1 = s \<or> s1 = s\<lparr>gEfiCurrentTpl := TPL_HIGH_LEVEL\<rparr>"
    and w: "while_opt (\<lambda>s. restore_mask t AND gEventPending (Db s) \<noteq> 0) (restore_one P NC R) s1 = Some s2"
    and u: "Ctx u = Ctx s2" "Locks u = Locks s2"
    using RestoreTpl_body_run [OF run A] by blast
  have one: "ctx_step Q a b" if "restore_one P NC R a = Some b" for a b
  proof -
    let ?p = "nat (HighBitSet64 (gEventPending (Db a)))"
    have "ctx_step Q a (enter_level P ?p a)" by (rule ctx_step_same) simp_all
    moreover have "ctx_step Q (enter_level P ?p a) b"
      using that CoreDispatchEventNotifies_ctx [OF R N] by (simp add: restore_one_def Let_def)
    ultimately show ?thesis by (rule ctx_step_trans)
  qed
  have "ctx_step Q s s1" using s1 by (auto intro: ctx_step_same)
  also have "ctx_step Q s1 s2" by (rule while_opt_ctx [OF w one])
  also have "ctx_step Q s2 u" using u by (simp add: ctx_step_same)
  finally show "ctx_step Q s u" .
qed

theorem CoreRestoreTpl_ctx: "Asserts P \<Longrightarrow> drivers_ctx Q NC \<Longrightarrow> restore_ctx Q (CoreRestoreTpl P NC n)"
  by (induction n) (simp_all add: RestoreTpl_body_ctx, simp add: restore_ctx_def)


end
