(* ===== verification/HandleInv.thy ===== *)
theory HandleInv
  imports HandleLocate EventCtx
begin

unbundle bit_operations_syntax

section \<open>The invariant of the handle database\<close>

text \<open>
  \<open>hinv\<close> ties the structures of the handle database together: every handle on the list of handles has at
  least one interface; the interfaces whose back pointer is a handle are exactly those on its list, once
  each; the same for the list of a protocol entry and for its notification records; entries have
  different GUIDs; the count of open records is right; the position of a notification record is the head
  or an interface of its protocol. The lemmas show that every service keeps the invariant, whatever the
  notification functions and drivers do in between, as long as they keep it too.
\<close>

subsection \<open>The invariant\<close>

text \<open>\<open>X\<close> holds the handles that may have no interface yet, or any more.\<close>

definition handles_ok :: "ptr set \<Rightarrow> 'p hdb \<Rightarrow> bool" where
  "handles_ok X d \<longleftrightarrow> distinct (gHandleList d) \<and> set (gHandleList d) = dom (Handles d) \<and> Handles d 0 = None \<and>
     (\<forall>h H. Handles d h = Some H \<longrightarrow> (h \<notin> X \<longrightarrow> Protocols H \<noteq> []) \<and> distinct (Protocols H) \<and>
        set (Protocols H) = {p. \<exists>I. Interfaces d p = Some I \<and> Handle I = h})"

definition entries_ok :: "'p hdb \<Rightarrow> bool" where
  "entries_ok d \<longleftrightarrow> distinct (mProtocolDatabase d) \<and> set (mProtocolDatabase d) = dom (Entries d) \<and>
     Entries d 0 = None \<and>
     (\<forall>e e' X X'. Entries d e = Some X \<longrightarrow> Entries d e' = Some X' \<longrightarrow> ProtocolID X = ProtocolID X' \<longrightarrow> e = e') \<and>
     (\<forall>e X. Entries d e = Some X \<longrightarrow>
        distinct (ByProtocol X) \<and> set (ByProtocol X) = {p. \<exists>I. Interfaces d p = Some I \<and> Protocol I = e} \<and>
        distinct (Notify X) \<and> set (Notify X) = {n. \<exists>N. Notifies d n = Some N \<and> NotifyProtocol N = e})"

text \<open>The open records of an interface: their count is right, and at most one is that of a driver that
  manages the controller.\<close>

definition open_list_ok :: "PROTOCOL_INTERFACE \<Rightarrow> bool" where
  "open_list_ok I \<longleftrightarrow> OpenListCount I = of_nat (length (OpenList I)) \<and> length (filter by_driver (OpenList I)) \<le> 1"

lemma open_list_ok_cong: "OpenList J = OpenList I \<Longrightarrow> OpenListCount J = OpenListCount I \<Longrightarrow> open_list_ok J = open_list_ok I"
  by (simp add: open_list_ok_def)

lemma open_list_ok_updates [simp]: "open_list_ok (I\<lparr>Interface := i\<rparr>) = open_list_ok I"
  "open_list_ok (Interface_update f I) = open_list_ok I"
  "open_list_ok \<lparr>Handle = h, Protocol = e, Interface = i, OpenList = [], OpenListCount = 0\<rparr>"
  by (simp_all add: open_list_ok_def)

definition interfaces_ok :: "'p hdb \<Rightarrow> bool" where
  "interfaces_ok d \<longleftrightarrow> Interfaces d 0 = None \<and>
     (\<forall>p I. Interfaces d p = Some I \<longrightarrow> Handles d (Handle I) \<noteq> None \<and> Entries d (Protocol I) \<noteq> None \<and>
        open_list_ok I)"

definition notifies_ok :: "'p hdb \<Rightarrow> bool" where
  "notifies_ok d \<longleftrightarrow> Notifies d 0 = None \<and>
     (\<forall>n N. Notifies d n = Some N \<longrightarrow>
        (\<exists>X. Entries d (NotifyProtocol N) = Some X \<and> (Position N = 0 \<or> Position N \<in> set (ByProtocol X))))"

definition hinv_but :: "ptr set \<Rightarrow> 'p hdb \<Rightarrow> bool" where
  "hinv_but X d \<longleftrightarrow> handles_ok X d \<and> entries_ok d \<and> interfaces_ok d \<and> notifies_ok d"

abbreviation hinv :: "'p hdb \<Rightarrow> bool" where
  "hinv \<equiv> hinv_but {}"

lemmas hinv_defs = hinv_but_def handles_ok_def entries_ok_def interfaces_ok_def notifies_ok_def

lemma hinv_handleD:
  assumes "hinv_but X d" "Handles d h = Some H"
  shows "h \<noteq> 0" "h \<notin> X \<Longrightarrow> Protocols H \<noteq> []" "distinct (Protocols H)"
    "p \<in> set (Protocols H) \<longleftrightarrow> (\<exists>I. Interfaces d p = Some I \<and> Handle I = h)"
proof -
  have H: "handles_ok X d" using assms(1) by (simp add: hinv_but_def)
  then show "h \<noteq> 0" using assms(2) unfolding handles_ok_def by (metis option.distinct(1))
  have "(h \<notin> X \<longrightarrow> Protocols H \<noteq> []) \<and> distinct (Protocols H) \<and>
      set (Protocols H) = {p. \<exists>I. Interfaces d p = Some I \<and> Handle I = h}"
    using H assms(2) unfolding handles_ok_def by blast
  then show "h \<notin> X \<Longrightarrow> Protocols H \<noteq> []" "distinct (Protocols H)"
    "p \<in> set (Protocols H) \<longleftrightarrow> (\<exists>I. Interfaces d p = Some I \<and> Handle I = h)" by auto
qed

lemma hinv_entryD:
  assumes "hinv_but X d" "Entries d e = Some Y"
  shows "e \<noteq> 0" "distinct (ByProtocol Y)" "distinct (Notify Y)"
    "p \<in> set (ByProtocol Y) \<longleftrightarrow> (\<exists>I. Interfaces d p = Some I \<and> Protocol I = e)"
    "n \<in> set (Notify Y) \<longleftrightarrow> (\<exists>N. Notifies d n = Some N \<and> NotifyProtocol N = e)"
    "Entries d e' = Some Y' \<Longrightarrow> ProtocolID Y' = ProtocolID Y \<Longrightarrow> e' = e"
proof -
  have H: "entries_ok d" using assms(1) by (simp add: hinv_but_def)
  then show "e \<noteq> 0" using assms(2) unfolding entries_ok_def by (metis option.distinct(1))
  have "distinct (ByProtocol Y) \<and> set (ByProtocol Y) = {p. \<exists>I. Interfaces d p = Some I \<and> Protocol I = e} \<and>
      distinct (Notify Y) \<and> set (Notify Y) = {n. \<exists>N. Notifies d n = Some N \<and> NotifyProtocol N = e}"
    using H assms(2) unfolding entries_ok_def by blast
  then show "distinct (ByProtocol Y)" "distinct (Notify Y)"
    "p \<in> set (ByProtocol Y) \<longleftrightarrow> (\<exists>I. Interfaces d p = Some I \<and> Protocol I = e)"
    "n \<in> set (Notify Y) \<longleftrightarrow> (\<exists>N. Notifies d n = Some N \<and> NotifyProtocol N = e)" by auto
  show "e' = e" if "Entries d e' = Some Y'" "ProtocolID Y' = ProtocolID Y"
    using H assms(2) that unfolding entries_ok_def by blast
qed

lemma hinv_interfaceD:
  assumes "hinv_but X d" "Interfaces d p = Some I"
  shows "p \<noteq> 0" "\<exists>H. Handles d (Handle I) = Some H \<and> p \<in> set (Protocols H)"
    "\<exists>Y. Entries d (Protocol I) = Some Y \<and> p \<in> set (ByProtocol Y)"
    "open_list_ok I"
proof -
  have i: "interfaces_ok d" using assms(1) by (simp add: hinv_but_def)
  then show "p \<noteq> 0" using assms(2) unfolding interfaces_ok_def by (metis option.distinct(1))
  show "open_list_ok I"
    using i assms(2) unfolding interfaces_ok_def by blast
  obtain H Y where "Handles d (Handle I) = Some H" "Entries d (Protocol I) = Some Y"
    using i assms(2) unfolding interfaces_ok_def by blast
  then show "\<exists>H. Handles d (Handle I) = Some H \<and> p \<in> set (Protocols H)"
    "\<exists>Y. Entries d (Protocol I) = Some Y \<and> p \<in> set (ByProtocol Y)"
    using assms(2) hinv_handleD(4) [OF assms(1)] hinv_entryD(4) [OF assms(1)] by blast+
qed

lemma hinv_notifyD:
  assumes "hinv_but X d" "Notifies d n = Some N"
  shows "n \<noteq> 0" "\<exists>Y. Entries d (NotifyProtocol N) = Some Y \<and> (Position N = 0 \<or> Position N \<in> set (ByProtocol Y))"
proof -
  have i: "notifies_ok d" using assms(1) by (simp add: hinv_but_def)
  then show "n \<noteq> 0" using assms(2) unfolding notifies_ok_def by (metis option.distinct(1))
  show "\<exists>Y. Entries d (NotifyProtocol N) = Some Y \<and> (Position N = 0 \<or> Position N \<in> set (ByProtocol Y))"
    using i assms(2) unfolding notifies_ok_def by blast
qed

lemma hinv_listsD:
  assumes "hinv_but X d"
  shows "distinct (gHandleList d)" "set (gHandleList d) = dom (Handles d)"
    "distinct (mProtocolDatabase d)" "set (mProtocolDatabase d) = dom (Entries d)"
    "Handles d 0 = None" "Entries d 0 = None" "Interfaces d 0 = None" "Notifies d 0 = None"
  using assms by (simp_all add: hinv_defs)

text \<open>The invariant in terms of single structures.\<close>

lemma hinvI:
  assumes "distinct (gHandleList d)" "set (gHandleList d) = dom (Handles d)"
    "distinct (mProtocolDatabase d)" "set (mProtocolDatabase d) = dom (Entries d)"
    "Handles d 0 = None" "Entries d 0 = None" "Interfaces d 0 = None" "Notifies d 0 = None"
    and "\<And>h H. Handles d h = Some H \<Longrightarrow> (h \<notin> X \<longrightarrow> Protocols H \<noteq> []) \<and> distinct (Protocols H) \<and>
        (\<forall>p. p \<in> set (Protocols H) \<longleftrightarrow> (\<exists>I. Interfaces d p = Some I \<and> Handle I = h))"
    and "\<And>e Y. Entries d e = Some Y \<Longrightarrow> distinct (ByProtocol Y) \<and> distinct (Notify Y) \<and>
        (\<forall>p. p \<in> set (ByProtocol Y) \<longleftrightarrow> (\<exists>I. Interfaces d p = Some I \<and> Protocol I = e)) \<and>
        (\<forall>n. n \<in> set (Notify Y) \<longleftrightarrow> (\<exists>N. Notifies d n = Some N \<and> NotifyProtocol N = e))"
    and "\<And>e e' Y Y'. Entries d e = Some Y \<Longrightarrow> Entries d e' = Some Y' \<Longrightarrow> ProtocolID Y = ProtocolID Y' \<Longrightarrow> e = e'"
    and "\<And>p I. Interfaces d p = Some I \<Longrightarrow> Handles d (Handle I) \<noteq> None \<and> Entries d (Protocol I) \<noteq> None \<and>
        open_list_ok I"
    and "\<And>n N. Notifies d n = Some N \<Longrightarrow>
        \<exists>Y. Entries d (NotifyProtocol N) = Some Y \<and> (Position N = 0 \<or> Position N \<in> set (ByProtocol Y))"
  shows "hinv_but X d"
proof -
  have "handles_ok X d" unfolding handles_ok_def using assms(1,2,5) assms(9) by blast
  moreover have "entries_ok d" unfolding entries_ok_def using assms(3,4,6,11) assms(10) by blast
  moreover have "interfaces_ok d" unfolding interfaces_ok_def using assms(7,12) by blast
  moreover have "notifies_ok d" unfolding notifies_ok_def using assms(8,13) by blast
  ultimately show ?thesis by (simp add: hinv_but_def)
qed

lemma upd_ctx_simps [simp]:
  "Ctx (upd_ctx f s) = f (Ctx s)" "Locks (upd_ctx f s) = Locks s" "Db (upd_ctx f s) = Db s"
  "gEfiCurrentTpl (upd_ctx f s) = gEfiCurrentTpl s"
  by (simp_all add: upd_ctx_def)

lemma hinv_Pool [simp]: "hinv_but X (d\<lparr>Pool := p\<rparr>) = hinv_but X d" "hinv_but X (Pool_update f d) = hinv_but X d"
  by (simp_all add: hinv_defs)

lemma hinv_request [simp]: "hinv_but X (mEfiLocateHandleRequest_update f d) = hinv_but X d"
  by (simp add: hinv_defs)

lemma hinv_key [simp]: "hinv_but X (gHandleDatabaseKey_update f d) = hinv_but X d"
  by (simp add: hinv_defs)

subsection \<open>Changes that leave the links alone\<close>

lemma upd_handle_Some:
  "Handles (upd_handle h f d) k = Some K \<longleftrightarrow>
     (\<exists>H. Handles d k = Some H \<and> K = (if k = h then f H else H))"
  by (auto simp: upd_handle_def)

lemma upd_interface_Some:
  "Interfaces (upd_interface p f d) q = Some J \<longleftrightarrow>
     (\<exists>I. Interfaces d q = Some I \<and> J = (if q = p then f I else I))"
  by (auto simp: upd_interface_def)

lemma upd_entry_Some:
  "Entries (upd_entry e f d) a = Some A \<longleftrightarrow> (\<exists>Y. Entries d a = Some Y \<and> A = (if a = e then f Y else Y))"
  by (auto simp: upd_entry_def)

lemma upd_notify_Some:
  "Notifies (upd_notify n f d) m = Some M \<longleftrightarrow> (\<exists>N. Notifies d m = Some N \<and> M = (if m = n then f N else N))"
  by (auto simp: upd_notify_def)

lemma upd_simps [simp]:
  "Entries (upd_handle h fh d) = Entries d" "Interfaces (upd_handle h fh d) = Interfaces d"
  "Notifies (upd_handle h fh d) = Notifies d" "gHandleList (upd_handle h fh d) = gHandleList d"
  "mProtocolDatabase (upd_handle h fh d) = mProtocolDatabase d"
  "dom (Handles (upd_handle h fh d)) = dom (Handles d)"
  "Handles (upd_interface p fi d) = Handles d" "Entries (upd_interface p fi d) = Entries d"
  "Notifies (upd_interface p fi d) = Notifies d" "gHandleList (upd_interface p fi d) = gHandleList d"
  "mProtocolDatabase (upd_interface p fi d) = mProtocolDatabase d"
  "dom (Interfaces (upd_interface p fi d)) = dom (Interfaces d)"
  "Handles (upd_entry e fe d) = Handles d" "Interfaces (upd_entry e fe d) = Interfaces d"
  "Notifies (upd_entry e fe d) = Notifies d" "gHandleList (upd_entry e fe d) = gHandleList d"
  "mProtocolDatabase (upd_entry e fe d) = mProtocolDatabase d"
  "dom (Entries (upd_entry e fe d)) = dom (Entries d)"
  "Handles (upd_notify n fn d) = Handles d" "Interfaces (upd_notify n fn d) = Interfaces d"
  "Entries (upd_notify n fn d) = Entries d" "gHandleList (upd_notify n fn d) = gHandleList d"
  "mProtocolDatabase (upd_notify n fn d) = mProtocolDatabase d"
  "dom (Notifies (upd_notify n fn d)) = dom (Notifies d)"
  by (auto simp: upd_handle_def upd_interface_def upd_entry_def upd_notify_def)

lemma upd_None [simp]:
  "Handles (upd_handle h fh d) k = None \<longleftrightarrow> Handles d k = None"
  "Interfaces (upd_interface p fi d) k = None \<longleftrightarrow> Interfaces d k = None"
  "Entries (upd_entry e fe d) k = None \<longleftrightarrow> Entries d k = None"
  "Notifies (upd_notify n fn d) k = None \<longleftrightarrow> Notifies d k = None"
  by (auto simp: upd_handle_def upd_interface_def upd_entry_def upd_notify_def)

lemmas upd_Some = upd_handle_Some upd_interface_Some upd_entry_Some upd_notify_Some

text \<open>Databases with the same links.\<close>

definition same_links :: "'p hdb \<Rightarrow> 'p hdb \<Rightarrow> bool" where
  "same_links d d' \<longleftrightarrow> gHandleList d' = gHandleList d \<and> mProtocolDatabase d' = mProtocolDatabase d \<and>
     (\<forall>h. map_option Protocols (Handles d' h) = map_option Protocols (Handles d h)) \<and>
     Entries d' = Entries d \<and>
     (\<forall>p. map_option (\<lambda>I. (Handle I, Protocol I)) (Interfaces d' p) =
        map_option (\<lambda>I. (Handle I, Protocol I)) (Interfaces d p)) \<and>
     Notifies d' = Notifies d"

lemma same_linksD:
  assumes "same_links d d'"
  shows "Handles d' h = Some H' \<Longrightarrow> \<exists>H. Handles d h = Some H \<and> Protocols H = Protocols H'"
    "(\<exists>I. Interfaces d' p = Some I \<and> P (Handle I) (Protocol I)) \<longleftrightarrow>
     (\<exists>I. Interfaces d p = Some I \<and> P (Handle I) (Protocol I))"
    "Handles d' h = None \<longleftrightarrow> Handles d h = None" "Interfaces d' p = None \<longleftrightarrow> Interfaces d p = None"
    "dom (Handles d') = dom (Handles d)"
proof -
  have h: "map_option Protocols (Handles d' h) = map_option Protocols (Handles d h)" for h
    using assms by (simp add: same_links_def)
  have i: "map_option (\<lambda>I. (Handle I, Protocol I)) (Interfaces d' p) =
      map_option (\<lambda>I. (Handle I, Protocol I)) (Interfaces d p)"
    using assms by (simp add: same_links_def)
  show "\<exists>H. Handles d h = Some H \<and> Protocols H = Protocols H'" if "Handles d' h = Some H'"
    using h [of h] that by (cases "Handles d h") auto
  show hn: "Handles d' h = None \<longleftrightarrow> Handles d h = None" for h
    using h [of h] by (metis map_option_is_None)
  show "Interfaces d' p = None \<longleftrightarrow> Interfaces d p = None" using i by (metis map_option_is_None)
  show "(\<exists>I. Interfaces d' p = Some I \<and> P (Handle I) (Protocol I)) \<longleftrightarrow>
     (\<exists>I. Interfaces d p = Some I \<and> P (Handle I) (Protocol I))"
    using i by (cases "Interfaces d' p"; cases "Interfaces d p") auto
  show "dom (Handles d') = dom (Handles d)" using hn by (simp add: dom_def)
qed

lemma hinv_same_links:
  assumes I: "hinv_but X d" and L: "same_links d d'"
    and c: "\<And>p J. Interfaces d' p = Some J \<Longrightarrow> open_list_ok J"
  shows "hinv_but X d'"
proof -
  have eq: "gHandleList d' = gHandleList d" "mProtocolDatabase d' = mProtocolDatabase d" "Entries d' = Entries d"
    "Notifies d' = Notifies d" using L by (simp_all add: same_links_def)
  show ?thesis
  proof (rule hinvI)
    fix h H' assume "Handles d' h = Some H'"
    then obtain H where H: "Handles d h = Some H" "Protocols H = Protocols H'" using same_linksD(1) [OF L] by blast
    show "(h \<notin> X \<longrightarrow> Protocols H' \<noteq> []) \<and> distinct (Protocols H') \<and>
        (\<forall>p. p \<in> set (Protocols H') \<longleftrightarrow> (\<exists>I. Interfaces d' p = Some I \<and> Handle I = h))"
      using hinv_handleD(2-4) [OF I H(1)] unfolding same_linksD(2) [OF L, where P = "\<lambda>a b. a = h"] H(2) by simp
  next
    fix e Y assume "Entries d' e = Some Y"
    then have Y: "Entries d e = Some Y" by (simp add: eq)
    show "distinct (ByProtocol Y) \<and> distinct (Notify Y) \<and>
        (\<forall>p. p \<in> set (ByProtocol Y) \<longleftrightarrow> (\<exists>I. Interfaces d' p = Some I \<and> Protocol I = e)) \<and>
        (\<forall>n. n \<in> set (Notify Y) \<longleftrightarrow> (\<exists>N. Notifies d' n = Some N \<and> NotifyProtocol N = e))"
      unfolding same_linksD(2) [OF L, where P = "\<lambda>a b. b = e"] eq
      using hinv_entryD(2-5) [OF I Y] by simp
  next
    fix p J assume J: "Interfaces d' p = Some J"
    then obtain K where K: "Interfaces d p = Some K" "Handle K = Handle J" "Protocol K = Protocol J"
      using same_linksD(2) [OF L, where P = "\<lambda>a b. a = Handle J \<and> b = Protocol J"] by blast
    then show "Handles d' (Handle J) \<noteq> None \<and> Entries d' (Protocol J) \<noteq> None \<and>
        open_list_ok J"
      unfolding same_linksD(3) [OF L] eq using hinv_interfaceD(2,3) [OF I K(1)] c [OF J] by auto
  qed (use hinv_listsD [OF I] hinv_entryD(6) [OF I] hinv_notifyD(2) [OF I] same_linksD(3-5) [OF L] in
      \<open>simp_all add: eq\<close>)
qed

lemma hinv_upd_handle:
  assumes "hinv_but X d" "\<And>H. Protocols (f H) = Protocols H"
  shows "hinv_but X (upd_handle h f d)"
  by (rule hinv_same_links [OF assms(1)])
    (use assms(2) hinv_interfaceD(4) [OF assms(1)] in \<open>auto simp: same_links_def upd_handle_def option.map_comp comp_def\<close>)

lemma hinv_upd_interface:
  assumes "hinv_but X d"
    and "\<And>I. Interfaces d p = Some I \<Longrightarrow> Handle (f I) = Handle I \<and> Protocol (f I) = Protocol I \<and>
      (open_list_ok I \<longrightarrow> open_list_ok (f I))"
  shows "hinv_but X (upd_interface p f d)"
proof (rule hinv_same_links [OF assms(1)])
  show "same_links d (upd_interface p f d)"
    using assms(2) by (cases "Interfaces d p") (auto simp: same_links_def upd_interface_def)
  show "open_list_ok J" if "Interfaces (upd_interface p f d) q = Some J" for q J
    using that assms(2) hinv_interfaceD(4) [OF assms(1)] by (auto simp: upd_Some split: if_splits)
qed

subsection \<open>New structures\<close>

lemma hinv_new_entry:
  assumes I: "hinv_but X d" and e: "Entries d e = None" "e \<noteq> 0"
    and g: "\<And>e' Y. Entries d e' = Some Y \<Longrightarrow> ProtocolID Y \<noteq> g"
  shows "hinv_but X (new_entry e g d)"
proof -
  have pe: "Protocol J \<noteq> e" if "Interfaces d p = Some J" for p J
    using hinv_interfaceD(3) [OF I that] e(1) by auto
  have ne: "NotifyProtocol N \<noteq> e" if "Notifies d n = Some N" for n N
    using hinv_notifyD(2) [OF I that] e(1) by auto
  have eq [simp]: "Handles (new_entry e g d) = Handles d" "Interfaces (new_entry e g d) = Interfaces d"
    "Notifies (new_entry e g d) = Notifies d" "gHandleList (new_entry e g d) = gHandleList d"
    "mProtocolDatabase (new_entry e g d) = mProtocolDatabase d @ [e]"
    "Entries (new_entry e g d) = (Entries d)(e \<mapsto> \<lparr>ProtocolID = g, ByProtocol = [], Notify = []\<rparr>)"
    by (simp_all add: new_entry_def)
  show ?thesis
  proof (rule hinvI)
    fix a Y assume "Entries (new_entry e g d) a = Some Y"
    then show "distinct (ByProtocol Y) \<and> distinct (Notify Y) \<and>
        (\<forall>p. p \<in> set (ByProtocol Y) \<longleftrightarrow> (\<exists>I. Interfaces (new_entry e g d) p = Some I \<and> Protocol I = a)) \<and>
        (\<forall>n. n \<in> set (Notify Y) \<longleftrightarrow> (\<exists>N. Notifies (new_entry e g d) n = Some N \<and> NotifyProtocol N = a))"
      using pe ne hinv_entryD(2-5) [OF I] by (cases "a = e") auto
  next
    fix a b Y Z assume "Entries (new_entry e g d) a = Some Y" "Entries (new_entry e g d) b = Some Z"
      "ProtocolID Y = ProtocolID Z"
    then show "a = b" using g hinv_entryD(6) [OF I] by (cases "a = e"; cases "b = e") force+
  next
    fix p J assume "Interfaces (new_entry e g d) p = Some J"
    then show "Handles (new_entry e g d) (Handle J) \<noteq> None \<and> Entries (new_entry e g d) (Protocol J) \<noteq> None \<and>
        open_list_ok J"
      using hinv_interfaceD(2-4) [OF I] by fastforce
  next
    fix n N assume "Notifies (new_entry e g d) n = Some N"
    then show "\<exists>Y. Entries (new_entry e g d) (NotifyProtocol N) = Some Y \<and>
        (Position N = 0 \<or> Position N \<in> set (ByProtocol Y))"
      using hinv_notifyD(2) [OF I] ne by fastforce
  qed (use hinv_listsD [OF I] hinv_handleD(2-4) [OF I] e in \<open>auto\<close>)
qed

lemma hinv_new_notify:
  assumes I: "hinv_but X d" and n: "Notifies d n = None" "n \<noteq> 0" and Y: "Entries d e = Some Y"
  shows "hinv_but X (new_notify n e ev d)"
proof -
  have nn: "n \<notin> set (Notify Z)" if "Entries d a = Some Z" for a Z
    using hinv_entryD(5) [OF I that] n(1) by auto
  have eq [simp]: "Handles (new_notify n e ev d) = Handles d" "Interfaces (new_notify n e ev d) = Interfaces d"
    "gHandleList (new_notify n e ev d) = gHandleList d"
    "mProtocolDatabase (new_notify n e ev d) = mProtocolDatabase d"
    "Entries (new_notify n e ev d) = (Entries d)(e \<mapsto> Notify_update (\<lambda>l. l @ [n]) Y)"
    "Notifies (new_notify n e ev d) = (Notifies d)(n \<mapsto> \<lparr>NotifyProtocol = e, Event = ev, Position = 0\<rparr>)"
    using Y by (simp_all add: new_notify_def upd_entry_def)
  show ?thesis
  proof (rule hinvI)
    fix a A assume "Entries (new_notify n e ev d) a = Some A"
    then obtain B where B: "Entries d a = Some B" "ByProtocol A = ByProtocol B"
      "Notify A = (if a = e then Notify B @ [n] else Notify B)"
      using Y by (auto split: if_splits)
    then show "distinct (ByProtocol A) \<and> distinct (Notify A) \<and>
        (\<forall>p. p \<in> set (ByProtocol A) \<longleftrightarrow> (\<exists>I. Interfaces (new_notify n e ev d) p = Some I \<and> Protocol I = a)) \<and>
        (\<forall>m. m \<in> set (Notify A) \<longleftrightarrow> (\<exists>N. Notifies (new_notify n e ev d) m = Some N \<and> NotifyProtocol N = a))"
      using hinv_entryD(2-5) [OF I B(1)] nn [OF B(1)] n(1) by auto
  next
    fix a b A B assume "Entries (new_notify n e ev d) a = Some A" "Entries (new_notify n e ev d) b = Some B"
      "ProtocolID A = ProtocolID B"
    then show "a = b" using hinv_entryD(6) [OF I] Y by (auto split: if_splits)
  next
    fix p J assume "Interfaces (new_notify n e ev d) p = Some J"
    then show "Handles (new_notify n e ev d) (Handle J) \<noteq> None \<and> Entries (new_notify n e ev d) (Protocol J) \<noteq> None \<and>
        open_list_ok J"
      using hinv_interfaceD(2-4) [OF I] by fastforce
  next
    fix m N assume "Notifies (new_notify n e ev d) m = Some N"
    then show "\<exists>Y. Entries (new_notify n e ev d) (NotifyProtocol N) = Some Y \<and>
        (Position N = 0 \<or> Position N \<in> set (ByProtocol Y))"
      using hinv_notifyD(2) [OF I] Y by (fastforce split: if_splits)
  qed (use hinv_listsD [OF I] hinv_handleD(2-4) [OF I] n Y hinv_entryD(1) [OF I Y] in \<open>auto\<close>)
qed

lemma hinv_new_handle:
  assumes I: "hinv d" and h: "Handles d h = None" "h \<noteq> 0"
  shows "hinv_but {h} (new_handle h d)"
proof -
  have ph: "Handle J \<noteq> h" if "Interfaces d p = Some J" for p J
    using hinv_interfaceD(2) [OF I that] h(1) by auto
  have eq [simp]: "Entries (new_handle h d) = Entries d" "Interfaces (new_handle h d) = Interfaces d"
    "Notifies (new_handle h d) = Notifies d" "mProtocolDatabase (new_handle h d) = mProtocolDatabase d"
    "gHandleList (new_handle h d) = gHandleList d @ [h]"
    "Handles (new_handle h d) = (Handles d)(h \<mapsto>
       \<lparr>Protocols = [], LocateRequest = 0, Key = gHandleDatabaseKey d + 1\<rparr>)"
    by (simp_all add: new_handle_def Let_def)
  show ?thesis
  proof (rule hinvI)
    fix k K assume "Handles (new_handle h d) k = Some K"
    then show "(k \<notin> {h} \<longrightarrow> Protocols K \<noteq> []) \<and> distinct (Protocols K) \<and>
        (\<forall>p. p \<in> set (Protocols K) \<longleftrightarrow> (\<exists>I. Interfaces (new_handle h d) p = Some I \<and> Handle I = k))"
      using ph hinv_handleD(2-4) [OF I] by (cases "k = h") auto
  next
    fix p J assume "Interfaces (new_handle h d) p = Some J"
    then show "Handles (new_handle h d) (Handle J) \<noteq> None \<and> Entries (new_handle h d) (Protocol J) \<noteq> None \<and>
        open_list_ok J"
      using hinv_interfaceD(2-4) [OF I] by fastforce
  next
    fix n N assume "Notifies (new_handle h d) n = Some N"
    then show "\<exists>Y. Entries (new_handle h d) (NotifyProtocol N) = Some Y \<and>
        (Position N = 0 \<or> Position N \<in> set (ByProtocol Y))"
      using hinv_notifyD(2) [OF I] by simp
  qed (use hinv_listsD [OF I] hinv_entryD(2-6) [OF I] h in \<open>auto\<close>)
qed

lemma hinv_link_interface:
  assumes I: "hinv_but X d" and X: "X \<subseteq> {h}" and p: "Interfaces d p = None" "p \<noteq> 0"
    and H: "Handles d h = Some H" and Y: "Entries d e = Some Y"
  shows "hinv (link_interface p h e i d)"
proof -
  let ?d = "link_interface p h e i d"
  have eq [simp]: "Interfaces ?d = (Interfaces d)(p \<mapsto>
      \<lparr>Handle = h, Protocol = e, Interface = i, OpenList = [], OpenListCount = 0\<rparr>)"
    "Handles ?d = (Handles d)(h \<mapsto> Protocols_update (Cons p) H)"
    "Entries ?d = (Entries d)(e \<mapsto> ByProtocol_update (\<lambda>l. l @ [p]) Y)"
    "Notifies ?d = Notifies d" "gHandleList ?d = gHandleList d" "mProtocolDatabase ?d = mProtocolDatabase d"
    using H Y by (simp_all add: link_interface_def upd_entry_def upd_handle_def)
  have pH: "p \<notin> set (Protocols K)" if "Handles d k = Some K" for k K
    using hinv_handleD(4) [OF I that] p(1) by auto
  have pY: "p \<notin> set (ByProtocol Z)" if "Entries d z = Some Z" for z Z
    using hinv_entryD(4) [OF I that] p(1) by auto
  show ?thesis
  proof (rule hinvI)
    fix k K assume "Handles ?d k = Some K"
    then obtain J where J: "Handles d k = Some J"
      "Protocols K = (if k = h then p # Protocols J else Protocols J)" using H by (auto split: if_splits)
    then show "(k \<notin> {} \<longrightarrow> Protocols K \<noteq> []) \<and> distinct (Protocols K) \<and>
        (\<forall>q. q \<in> set (Protocols K) \<longleftrightarrow> (\<exists>I. Interfaces ?d q = Some I \<and> Handle I = k))"
      using hinv_handleD(2-4) [OF I J(1)] pH [OF J(1)] p(1) X by auto
  next
    fix a A assume "Entries ?d a = Some A"
    then obtain B where B: "Entries d a = Some B" "Notify A = Notify B"
      "ByProtocol A = (if a = e then ByProtocol B @ [p] else ByProtocol B)"
      using Y by (auto split: if_splits)
    then show "distinct (ByProtocol A) \<and> distinct (Notify A) \<and>
        (\<forall>q. q \<in> set (ByProtocol A) \<longleftrightarrow> (\<exists>I. Interfaces ?d q = Some I \<and> Protocol I = a)) \<and>
        (\<forall>m. m \<in> set (Notify A) \<longleftrightarrow> (\<exists>N. Notifies ?d m = Some N \<and> NotifyProtocol N = a))"
      using hinv_entryD(2-5) [OF I B(1)] pY [OF B(1)] p(1) by auto
  next
    fix a b A B assume "Entries ?d a = Some A" "Entries ?d b = Some B" "ProtocolID A = ProtocolID B"
    then show "a = b" using hinv_entryD(6) [OF I] Y by (auto split: if_splits)
  next
    fix q J assume "Interfaces ?d q = Some J"
    then show "Handles ?d (Handle J) \<noteq> None \<and> Entries ?d (Protocol J) \<noteq> None \<and>
        open_list_ok J"
      using hinv_interfaceD(2-4) [OF I] by (fastforce split: if_splits)
  next
    fix n N assume "Notifies ?d n = Some N"
    then show "\<exists>Y. Entries ?d (NotifyProtocol N) = Some Y \<and> (Position N = 0 \<or> Position N \<in> set (ByProtocol Y))"
      using hinv_notifyD(2) [OF I] Y by (fastforce split: if_splits)
  qed (use hinv_listsD [OF I] hinv_handleD(1) [OF I H] hinv_entryD(1) [OF I Y] H Y p in \<open>auto\<close>)
qed

lemma hinv_but_cases:
  assumes "hinv_but {h} d" "\<And>H. Handles d h = Some H \<Longrightarrow> Protocols H \<noteq> []"
  shows "hinv d"
  using assms by (fastforce simp: hinv_but_def handles_ok_def)


subsection \<open>Taking structures out\<close>

lemma link_prev_in: "p \<noteq> 0 \<Longrightarrow> link_prev l p \<noteq> p \<and> (link_prev l p = 0 \<or> link_prev l p \<in> set l)"
proof (cases "takeWhile (\<lambda>x. x \<noteq> p) l = []")
  case False
  then have "last (takeWhile (\<lambda>x. x \<noteq> p) l) \<in> set (takeWhile (\<lambda>x. x \<noteq> p) l)" by (rule last_in_set)
  then show ?thesis using False set_takeWhileD [of _ "\<lambda>x. x \<noteq> p" l] by (auto simp: link_prev_def Let_def)
qed (simp add: link_prev_def)

lemma back_up_simps [simp]: "NotifyProtocol (back_up l p N) = NotifyProtocol N" "Event (back_up l p N) = Event N"
  by (simp_all add: back_up_def)

lemma back_up_idem [simp]: "p \<noteq> 0 \<Longrightarrow> back_up l p (back_up l p N) = back_up l p N"
  using link_prev_in [of p l] by (simp add: back_up_def)

lemma back_up_positions_simps [simp]:
  "Handles (back_up_positions ns l p d) = Handles d" "Interfaces (back_up_positions ns l p d) = Interfaces d"
  "Entries (back_up_positions ns l p d) = Entries d" "gHandleList (back_up_positions ns l p d) = gHandleList d"
  "mProtocolDatabase (back_up_positions ns l p d) = mProtocolDatabase d"
  "gHandleDatabaseKey (back_up_positions ns l p d) = gHandleDatabaseKey d"
  "mEfiLocateHandleRequest (back_up_positions ns l p d) = mEfiLocateHandleRequest d"
  "Pool (back_up_positions ns l p d) = Pool d"
  by (induction ns arbitrary: d) (simp_all add: back_up_positions_def, simp_all add: upd_notify_def)

lemma back_up_positions_Notifies:
  "p \<noteq> 0 \<Longrightarrow> Notifies (back_up_positions ns l p d) =
     (\<lambda>n. if n \<in> set ns then map_option (back_up l p) (Notifies d n) else Notifies d n)"
proof (induction ns arbitrary: d)
  case (Cons n ns)
  then show ?case
    by (auto simp: back_up_positions_def upd_notify_def option.map_comp comp_def fun_eq_iff)
qed (simp add: back_up_positions_def)

text \<open>What \<open>CoreRemoveInterfaceFromProtocol\<close> does to the database.\<close>

definition unlink_interface :: "ptr \<Rightarrow> ptr \<Rightarrow> PROTOCOL_ENTRY \<Rightarrow> 'p hdb \<Rightarrow> 'p hdb" where
  "unlink_interface p e Y d =
     upd_entry e (ByProtocol_update (removeAll p)) (back_up_positions (Notify Y) (ByProtocol Y) p d)"

lemma unlink_interface_simps [simp]:
  "Handles (unlink_interface p e Y d) = Handles d" "Interfaces (unlink_interface p e Y d) = Interfaces d"
  "gHandleList (unlink_interface p e Y d) = gHandleList d"
  "mProtocolDatabase (unlink_interface p e Y d) = mProtocolDatabase d"
  by (simp_all add: unlink_interface_def)

lemma unlink_interface_Notifies:
  assumes I: "hinv_but X d" and Y: "Entries d e = Some Y" and p: "p \<noteq> 0"
  shows "Notifies (unlink_interface p e Y d) n =
    map_option (\<lambda>N. if NotifyProtocol N = e then back_up (ByProtocol Y) p N else N) (Notifies d n)"
  using hinv_entryD(5) [OF I Y, of n]
  by (cases "Notifies d n") (auto simp: unlink_interface_def back_up_positions_Notifies [OF p])

text \<open>What all changes after it have in common: \<open>p\<close> is an interface of the same handle as before, on the list
  of the entry at the end, or is gone.\<close>

lemma position_after_unlink:
  assumes I: "hinv_but X d" and N: "Notifies d n = Some N" and Y: "Entries d e = Some Y" and p: "p \<noteq> 0"
    and M: "M = (if NotifyProtocol N = e then back_up (ByProtocol Y) p N else N)"
    and Z: "NotifyProtocol N = e \<longrightarrow> Z = removeAll p (ByProtocol Y)"
      "NotifyProtocol N \<noteq> e \<longrightarrow> (\<exists>A. Entries d (NotifyProtocol N) = Some A \<and> Z = ByProtocol A)"
  shows "Position M = 0 \<or> Position M \<in> set Z"
proof -
  obtain A where A: "Entries d (NotifyProtocol N) = Some A" "Position N = 0 \<or> Position N \<in> set (ByProtocol A)"
    using hinv_notifyD(2) [OF I N] by blast
  show ?thesis
  proof (cases "NotifyProtocol N = e")
    case True
    then show ?thesis using A Y M Z(1) link_prev_in [OF p, of "ByProtocol Y"] by (auto simp: back_up_def)
  next
    case False
    then show ?thesis using A M Z(2) by auto
  qed
qed

lemma hinv_uninstall:
  assumes I: "hinv d" and P: "Interfaces d p = Some J" "Handle J = h" "Protocol J = e"
    and H: "Handles d h = Some H" and Y: "Entries d e = Some Y"
  shows "hinv_but {h} (free_interface E h p (unlink_interface p e Y d))"
proof -
  let ?d = "free_interface E h p (unlink_interface p e Y d)"
  note p0 = hinv_interfaceD(1) [OF I P(1)]
  have eq [simp]: "Interfaces ?d = (Interfaces d)(p := None)"
    "Handles ?d = (Handles d)(h \<mapsto> Protocols_update (removeAll p) (H\<lparr>Key := gHandleDatabaseKey d + 1\<rparr>))"
    "Entries ?d = (Entries d)(e \<mapsto> ByProtocol_update (removeAll p) Y)"
    "gHandleList ?d = gHandleList d" "mProtocolDatabase ?d = mProtocolDatabase d"
    "Notifies ?d = Notifies (unlink_interface p e Y d)"
    using H Y by (simp_all add: free_interface_def unlink_interface_def upd_handle_def upd_entry_def
        touch_handle_def Let_def)
  have N: "Notifies ?d n = map_option (\<lambda>N. if NotifyProtocol N = e then back_up (ByProtocol Y) p N else N)
      (Notifies d n)" for n using unlink_interface_Notifies [OF I Y p0] by simp
  show ?thesis
  proof (rule hinvI)
    fix k K assume "Handles ?d k = Some K"
    then obtain L where L: "Handles d k = Some L"
      "Protocols K = (if k = h then removeAll p (Protocols L) else Protocols L)" using H by (auto split: if_splits)
    show "(k \<notin> {h} \<longrightarrow> Protocols K \<noteq> []) \<and> distinct (Protocols K) \<and>
        (\<forall>q. q \<in> set (Protocols K) \<longleftrightarrow> (\<exists>I. Interfaces ?d q = Some I \<and> Handle I = k))"
      using L(2) P hinv_handleD(2-4) [OF I L(1)] by (auto simp: distinct_removeAll)
  next
    fix a A assume "Entries ?d a = Some A"
    then obtain B where B: "Entries d a = Some B" "Notify A = Notify B"
      "ByProtocol A = (if a = e then removeAll p (ByProtocol B) else ByProtocol B)"
      using Y by (auto split: if_splits)
    have "(\<exists>M. Notifies ?d m = Some M \<and> NotifyProtocol M = a) \<longleftrightarrow>
        (\<exists>N. Notifies d m = Some N \<and> NotifyProtocol N = a)" for m
      unfolding N by (cases "Notifies d m") auto
    then show "distinct (ByProtocol A) \<and> distinct (Notify A) \<and>
        (\<forall>q. q \<in> set (ByProtocol A) \<longleftrightarrow> (\<exists>I. Interfaces ?d q = Some I \<and> Protocol I = a)) \<and>
        (\<forall>m. m \<in> set (Notify A) \<longleftrightarrow> (\<exists>N. Notifies ?d m = Some N \<and> NotifyProtocol N = a))"
      using B(2,3) P hinv_entryD(2-5) [OF I B(1)] by (auto simp: distinct_removeAll)
  next
    fix a b A B assume "Entries ?d a = Some A" "Entries ?d b = Some B" "ProtocolID A = ProtocolID B"
    then show "a = b" using hinv_entryD(6) [OF I] Y by (auto split: if_splits)
  next
    fix q J assume "Interfaces ?d q = Some J"
    then show "Handles ?d (Handle J) \<noteq> None \<and> Entries ?d (Protocol J) \<noteq> None \<and>
        open_list_ok J"
      using hinv_interfaceD(2-4) [OF I] by (fastforce split: if_splits)
  next
    fix n M assume "Notifies ?d n = Some M"
    then obtain K where K: "Notifies d n = Some K"
      "M = (if NotifyProtocol K = e then back_up (ByProtocol Y) p K else K)" unfolding N by auto
    obtain A where A: "Entries d (NotifyProtocol K) = Some A" using hinv_notifyD(2) [OF I K(1)] by blast
    show "\<exists>Y. Entries ?d (NotifyProtocol M) = Some Y \<and> (Position M = 0 \<or> Position M \<in> set (ByProtocol Y))"
      using position_after_unlink [OF I K(1) Y p0 K(2),
          of "if NotifyProtocol K = e then removeAll p (ByProtocol Y) else ByProtocol A"] A K(2) Y
      by (auto split: if_splits)
  qed (use hinv_listsD [OF I] hinv_handleD(1) [OF I H] hinv_entryD(1) [OF I Y] H Y N in \<open>auto\<close>)
qed

lemma hinv_free_handle:
  assumes I: "hinv_but {h} d" and H: "Handles d h = Some H" "Protocols H = []"
  shows "hinv (free_handle E h d)"
proof -
  let ?d = "free_handle E h d"
  have eq [simp]: "Interfaces ?d = Interfaces d" "Entries ?d = Entries d" "Notifies ?d = Notifies d"
    "mProtocolDatabase ?d = mProtocolDatabase d" "gHandleList ?d = removeAll h (gHandleList d)"
    "Handles ?d = (Handles d)(h := None)" by (simp_all add: free_handle_def)
  have nh: "Handle J \<noteq> h" if "Interfaces d p = Some J" for p J
    using hinv_handleD(4) [OF I H(1), of p] H(2) that by auto
  show ?thesis
  proof (rule hinvI)
    fix q J assume "Interfaces ?d q = Some J"
    then show "Handles ?d (Handle J) \<noteq> None \<and> Entries ?d (Protocol J) \<noteq> None \<and>
        open_list_ok J"
      using hinv_interfaceD(2-4) [OF I] nh by fastforce
  next
    fix n N assume "Notifies ?d n = Some N"
    then show "\<exists>Y. Entries ?d (NotifyProtocol N) = Some Y \<and> (Position N = 0 \<or> Position N \<in> set (ByProtocol Y))"
      using hinv_notifyD(2) [OF I] by simp
  qed (use hinv_listsD [OF I] hinv_entryD(2-6) [OF I] hinv_handleD(2-4) [OF I] in
      \<open>auto simp: distinct_removeAll split: if_splits\<close>)
qed


lemma hinv_relink:
  assumes I: "hinv d" and P: "Interfaces d p = Some J" "Protocol J = e" and Y: "Entries d e = Some Y"
  shows "hinv (upd_entry e (ByProtocol_update (\<lambda>l. l @ [p])) (unlink_interface p e Y d))"
proof -
  let ?d = "upd_entry e (ByProtocol_update (\<lambda>l. l @ [p])) (unlink_interface p e Y d)"
  note p0 = hinv_interfaceD(1) [OF I P(1)]
  have eq [simp]: "Interfaces ?d = Interfaces d" "Handles ?d = Handles d"
    "Entries ?d = (Entries d)(e \<mapsto> ByProtocol_update (\<lambda>l. removeAll p l @ [p]) Y)"
    "gHandleList ?d = gHandleList d" "mProtocolDatabase ?d = mProtocolDatabase d"
    "Notifies ?d = Notifies (unlink_interface p e Y d)"
    using Y by (simp_all add: unlink_interface_def upd_entry_def comp_def)
  have N: "Notifies ?d n = map_option (\<lambda>N. if NotifyProtocol N = e then back_up (ByProtocol Y) p N else N)
      (Notifies d n)" for n using unlink_interface_Notifies [OF I Y p0] by simp
  show ?thesis
  proof (rule hinvI)
    fix a A assume "Entries ?d a = Some A"
    then obtain B where B: "Entries d a = Some B" "Notify A = Notify B"
      "ByProtocol A = (if a = e then removeAll p (ByProtocol B) @ [p] else ByProtocol B)"
      using Y by (auto split: if_splits)
    have "(\<exists>M. Notifies ?d m = Some M \<and> NotifyProtocol M = a) \<longleftrightarrow>
        (\<exists>N. Notifies d m = Some N \<and> NotifyProtocol N = a)" for m
      unfolding N by (cases "Notifies d m") auto
    then show "distinct (ByProtocol A) \<and> distinct (Notify A) \<and>
        (\<forall>q. q \<in> set (ByProtocol A) \<longleftrightarrow> (\<exists>I. Interfaces ?d q = Some I \<and> Protocol I = a)) \<and>
        (\<forall>m. m \<in> set (Notify A) \<longleftrightarrow> (\<exists>N. Notifies ?d m = Some N \<and> NotifyProtocol N = a))"
      using B(2,3) P hinv_entryD(2-5) [OF I B(1)] by (auto simp: distinct_removeAll)
  next
    fix a b A B assume "Entries ?d a = Some A" "Entries ?d b = Some B" "ProtocolID A = ProtocolID B"
    then show "a = b" using hinv_entryD(6) [OF I] Y by (auto split: if_splits)
  next
    fix q K assume "Interfaces ?d q = Some K"
    then show "Handles ?d (Handle K) \<noteq> None \<and> Entries ?d (Protocol K) \<noteq> None \<and>
        open_list_ok K"
      using hinv_interfaceD(2-4) [OF I] by fastforce
  next
    fix n M assume "Notifies ?d n = Some M"
    then obtain K where K: "Notifies d n = Some K"
      "M = (if NotifyProtocol K = e then back_up (ByProtocol Y) p K else K)" unfolding N by auto
    obtain A where A: "Entries d (NotifyProtocol K) = Some A" using hinv_notifyD(2) [OF I K(1)] by blast
    show "\<exists>Y. Entries ?d (NotifyProtocol M) = Some Y \<and> (Position M = 0 \<or> Position M \<in> set (ByProtocol Y))"
      using position_after_unlink [OF I K(1) Y p0 K(2),
          of "if NotifyProtocol K = e then removeAll p (ByProtocol Y) else ByProtocol A"] A K(2) Y
      by (auto split: if_splits)
  qed (use hinv_listsD [OF I] hinv_handleD(2-4) [OF I] hinv_entryD(1) [OF I Y] Y N in \<open>auto\<close>)
qed

lemma hinv_touch_handle [simp]: "hinv_but X d \<Longrightarrow> hinv_but X (touch_handle h d)"
  unfolding touch_handle_def Let_def by (rule hinv_upd_handle) simp_all

lemma find_SomeD: "find P xs = Some x \<Longrightarrow> P x \<and> x \<in> set xs"
  by (induction xs) (auto split: if_splits)

lemma find_notify_Some:
  assumes "find_notify ev d = Some (e, n)"
  shows "\<exists>Y. Entries d e = Some Y \<and> n \<in> set (Notify Y)" "map_option Event (Notifies d n) = Some ev"
  using find_SomeD [OF assms [unfolded find_notify_def]] by (auto split: option.splits intro: sym)

lemma hinv_unregister_notify:
  assumes I: "hinv d" and u: "unregister_notify E ev d = Some d'"
  shows "hinv d'"
proof -
  obtain e n where f: "find_notify ev d = Some (e, n)"
    and d': "d' = (upd_entry e (Notify_update (removeAll n)) d)
       \<lparr>Notifies := (Notifies d)(n := None), Pool := PoolFree E n (Pool d)\<rparr>"
    using u unfolding unregister_notify_def by auto
  obtain Y where Y: "Entries d e = Some Y" "n \<in> set (Notify Y)" using find_notify_Some(1) [OF f] by blast
  have ne: "n \<in> set (Notify B) \<longleftrightarrow> a = e" if "Entries d a = Some B" for a B
    using hinv_entryD(5) [OF I that, of n] hinv_entryD(5) [OF I Y(1), of n] Y that by auto
  have eq [simp]: "Handles d' = Handles d" "Interfaces d' = Interfaces d" "gHandleList d' = gHandleList d"
    "mProtocolDatabase d' = mProtocolDatabase d" "Notifies d' = (Notifies d)(n := None)"
    "Entries d' = (Entries d)(e \<mapsto> Notify_update (removeAll n) Y)"
    using Y by (simp_all add: d' upd_entry_def)
  show ?thesis
  proof (rule hinvI)
    fix a A assume "Entries d' a = Some A"
    then obtain B where B: "Entries d a = Some B" "ByProtocol A = ByProtocol B"
      "Notify A = (if a = e then removeAll n (Notify B) else Notify B)"
      using Y by (auto split: if_splits)
    then show "distinct (ByProtocol A) \<and> distinct (Notify A) \<and>
        (\<forall>q. q \<in> set (ByProtocol A) \<longleftrightarrow> (\<exists>I. Interfaces d' q = Some I \<and> Protocol I = a)) \<and>
        (\<forall>m. m \<in> set (Notify A) \<longleftrightarrow> (\<exists>N. Notifies d' m = Some N \<and> NotifyProtocol N = a))"
      using ne [OF B(1)] hinv_entryD(2-5) [OF I B(1)] by (auto simp: distinct_removeAll)
  next
    fix a b A B assume "Entries d' a = Some A" "Entries d' b = Some B" "ProtocolID A = ProtocolID B"
    then show "a = b" using hinv_entryD(6) [OF I] Y by (auto split: if_splits)
  next
    fix q K assume "Interfaces d' q = Some K"
    then show "Handles d' (Handle K) \<noteq> None \<and> Entries d' (Protocol K) \<noteq> None \<and>
        open_list_ok K"
      using hinv_interfaceD(2-4) [OF I] by fastforce
  next
    fix m N assume "Notifies d' m = Some N"
    then show "\<exists>Y. Entries d' (NotifyProtocol N) = Some Y \<and> (Position N = 0 \<or> Position N \<in> set (ByProtocol Y))"
      using hinv_notifyD(2) [OF I] Y by (fastforce split: if_splits)
  qed (use hinv_listsD [OF I] hinv_handleD(2-4) [OF I] hinv_entryD(1) [OF I Y(1)] Y in \<open>auto\<close>)
qed

subsection \<open>Searches\<close>

lemma find_entry_Some:
  assumes "find_entry es g l = Some e"
  shows "e \<noteq> 0 \<Longrightarrow> e \<in> set l \<and> (\<exists>Y. es e = Some Y \<and> ProtocolID Y = g)"
    "e = 0 \<Longrightarrow> 0 \<notin> set l \<Longrightarrow> \<forall>a \<in> set l. \<exists>Y. es a = Some Y \<and> ProtocolID Y \<noteq> g"
  using assms by (induction l) (auto simp: bind_eq_Some_conv split: if_splits)

lemma find_interface_Some:
  assumes "find_interface is e i l = Some p" "p \<noteq> 0"
  shows "p \<in> set l \<and> (\<exists>I. is p = Some I \<and> Interface I = i \<and> Protocol I = e)"
  using assms by (induction l) (auto simp: bind_eq_Some_conv split: if_splits)

lemma find_guid_Some:
  assumes "find_guid d g l = Some p" "p \<noteq> 0"
  shows "p \<in> set l \<and> (\<exists>I Y. Interfaces d p = Some I \<and> Entries d (Protocol I) = Some Y \<and> ProtocolID Y = g)"
  using assms by (induction l) (auto simp: bind_eq_Some_conv split: if_splits)


end
