(* ===== verification/HandleKeeps.thy ===== *)
theory HandleKeeps
  imports HandleInv
begin

unbundle bit_operations_syntax

section \<open>The services keep the invariant of the handle database\<close>

text \<open>
  Every service of the handle database makes a \<open>ctx_step hinv\<close>, provided that the restore function, the
  drivers and the pool behave: the pool hands out memory that no structure of the database occupies, and
  connecting or disconnecting drivers makes such a step as well.
\<close>

subsection \<open>What the database relies on\<close>

definition unused :: "ptr \<Rightarrow> 'p hdb \<Rightarrow> bool" where
  "unused a d \<longleftrightarrow> Handles d a = None \<and> Entries d a = None \<and> Interfaces d a = None \<and> Notifies d a = None"

definition pool_ok :: "'p henv \<Rightarrow> bool" where
  "pool_ok E \<longleftrightarrow> (\<forall>n s. hinv (Ctx s) \<longrightarrow> fst (PoolAllocate E n s) \<noteq> 0 \<longrightarrow> unused (fst (PoolAllocate E n s)) (Ctx s))"

definition connect_ok :: "'p henv \<Rightarrow> bool" where
  "connect_ok E \<longleftrightarrow>
     (\<forall>h a c s st u. DisconnectController E h a c s = Some (st, u) \<longrightarrow> ctx_step hinv s u) \<and>
     (\<forall>h s st u. ConnectController E h s = Some (st, u) \<longrightarrow> ctx_step hinv s u)"

lemma connect_okD: "connect_ok E \<Longrightarrow> ConnectController E h s = Some (st, u) \<Longrightarrow> ctx_step hinv s u"
  unfolding connect_ok_def by blast

lemma alloc_run:
  assumes "alloc E n s = (a, u)"
  shows "a = fst (PoolAllocate E n s)" "\<exists>p. Ctx u = (Ctx s)\<lparr>Pool := p\<rparr>" "Locks u = Locks s"
  using assms by (auto simp: alloc_def split: prod.splits)

lemma alloc_hinv: "alloc E n s = (a, u) \<Longrightarrow> hinv_but X (Ctx u) = hinv_but X (Ctx s)"
  using alloc_run(2) by fastforce

lemma alloc_snd [simp]: "hinv_but X (Ctx (snd (alloc E n s))) = hinv_but X (Ctx s)"
  using alloc_hinv [of E n s] by (cases "alloc E n s") simp

lemma alloc_unused:
  assumes "pool_ok E" "hinv (Ctx s)" "alloc E n s = (a, u)" "a \<noteq> 0"
  shows "unused a (Ctx u)"
  using assms alloc_run [OF assms(3)] by (auto simp: pool_ok_def unused_def)

lemma free_simps [simp]: "hinv_but X (Ctx (free E a s)) = hinv_but X (Ctx s)" "Locks (free E a s) = Locks s"
  by (simp_all add: free_def)

lemma unused_Pool [simp]: "unused a (d\<lparr>Pool := p\<rparr>) = unused a d"
  by (simp add: unused_def)

lemmas protocol_lock_defs = CoreAcquireProtocolLock_def CoreReleaseProtocolLock_def

lemma lock_cycle:
  assumes "restore_ctx hinv R" "CoreReleaseProtocolLock P R s = Some a" "hinv (Ctx s)"
  shows "hinv (Ctx a)"
  using CoreReleaseLock_protocol(2) [OF assms(1) assms(2) [unfolded protocol_lock_defs] assms(3)] .

lemma lock_taken:
  assumes "Asserts P" "CoreAcquireProtocolLock P s = Some a"
  shows "Ctx a = Ctx s" "held a gProtocolDatabaseLock"
  using CoreAcquireLock_protocol [OF assms(2) [unfolded protocol_lock_defs] assms(1)] by simp_all

text \<open>A service with one critical section that begins right after its checks.\<close>

lemma section_ctx:
  assumes "Asserts P" "restore_ctx hinv R"
    and "CoreReleaseProtocolLock P R b = Some u" "CoreAcquireProtocolLock P s = Some a"
    and "hinv (Ctx a) \<Longrightarrow> hinv (Ctx b)"
  shows "ctx_step hinv s u"
  using protocol_section_ctx [OF assms(1,2)] assms(3-5) unfolding protocol_lock_defs by blast

subsection \<open>Entries\<close>

lemma CoreFindProtocolEntry_run:
  assumes I: "hinv (Ctx s)" and E: "pool_ok E" and run: "CoreFindProtocolEntry P E g c s = Some (e, u)"
  shows "hinv (Ctx u)" "e \<noteq> 0 \<Longrightarrow> \<exists>Y. Entries (Ctx u) e = Some Y \<and> ProtocolID Y = g" "Locks u = Locks s"
    "Handles (Ctx u) = Handles (Ctx s)"
proof -
  obtain f where f: "find_entry (Entries (Ctx s)) g (mProtocolDatabase (Ctx s)) = Some f"
    and r: "(e, u) = (if f = 0 \<and> c then let (e, s) = alloc E sizeof_PROTOCOL_ENTRY s
       in (e, if e \<noteq> 0 then upd_ctx (new_entry e g) s else s) else (f, s))"
    using run unfolding CoreFindProtocolEntry_def by (auto simp: bind_eq_Some_conv)
  have "hinv (Ctx u) \<and> (e \<noteq> 0 \<longrightarrow> (\<exists>Y. Entries (Ctx u) e = Some Y \<and> ProtocolID Y = g)) \<and> Locks u = Locks s \<and>
      Handles (Ctx u) = Handles (Ctx s)"
  proof (cases "f = 0 \<and> c")
    case False
    then show ?thesis using r f I find_entry_Some(1) [OF f] by auto
  next
    case True
    obtain a v where a: "alloc E sizeof_PROTOCOL_ENTRY s = (a, v)" by (rule prod.exhaust)
    have eu: "e = a" "u = (if a \<noteq> 0 then upd_ctx (new_entry a g) v else v)" using r True a by auto
    obtain p where v: "Ctx v = (Ctx s)\<lparr>Pool := p\<rparr>" using alloc_run(2) [OF a] by blast
    have "\<forall>a \<in> dom (Entries (Ctx s)). \<exists>Y. Entries (Ctx s) a = Some Y \<and> ProtocolID Y \<noteq> g"
      using find_entry_Some(2) [OF f] True hinv_listsD(4,6) [OF I] by auto
    then have no: "ProtocolID Y \<noteq> g" if "Entries (Ctx s) a' = Some Y" for a' Y
      using that by force
    show ?thesis
    proof (cases "a = 0")
      case True
      then show ?thesis using eu I alloc_run [OF a] v by (simp add: alloc_hinv [OF a])
    next
      case False
      have "hinv (new_entry a g (Ctx v))"
        by (rule hinv_new_entry) (use I False alloc_unused [OF E I a False] no in
          \<open>simp_all add: alloc_hinv [OF a] unused_def v\<close>)
      then show ?thesis using eu False alloc_run [OF a] v by (simp add: new_entry_def)
    qed
  qed
  then show "hinv (Ctx u)" "e \<noteq> 0 \<Longrightarrow> \<exists>Y. Entries (Ctx u) e = Some Y \<and> ProtocolID Y = g" "Locks u = Locks s"
    "Handles (Ctx u) = Handles (Ctx s)" by blast+
qed

lemma CoreFindProtocolEntry_find:
  "CoreFindProtocolEntry P E g False s = Some (e, u) \<Longrightarrow>
     u = s \<and> find_entry (Entries (Ctx s)) g (mProtocolDatabase (Ctx s)) = Some e"
  by (auto simp: CoreFindProtocolEntry_def bind_eq_Some_conv)

lemma CoreFindProtocolInterface_run:
  assumes I: "hinv_but X (Ctx s)" and run: "CoreFindProtocolInterface P h g i s = Some p" "p \<noteq> 0"
  shows "\<exists>H J Y. Handles (Ctx s) h = Some H \<and> p \<in> set (Protocols H) \<and> Interfaces (Ctx s) p = Some J \<and> Handle J = h \<and>
    Interface J = i \<and> Entries (Ctx s) (Protocol J) = Some Y \<and> ProtocolID Y = g"
proof -
  obtain e H where e: "find_entry (Entries (Ctx s)) g (mProtocolDatabase (Ctx s)) = Some e" "e \<noteq> 0"
    and H: "Handles (Ctx s) h = Some H" and p: "find_interface (Interfaces (Ctx s)) e i (Protocols H) = Some p"
    using run unfolding CoreFindProtocolInterface_def by (auto simp: bind_eq_Some_conv split: if_splits)
  show ?thesis
    using find_interface_Some [OF p run(2)] find_entry_Some(1) [OF e] H hinv_handleD(4) [OF I H, of p] by fastforce
qed

lemma CoreGetProtocolInterface_run:
  assumes I: "hinv d" and run: "CoreGetProtocolInterface h g d = Some p" "p \<noteq> 0"
  shows "\<exists>J Y. Interfaces d p = Some J \<and> Handle J = h \<and> Entries d (Protocol J) = Some Y \<and> ProtocolID Y = g"
proof -
  obtain H where H: "Handles d h = Some H" "find_guid d g (Protocols H) = Some p"
    using run unfolding CoreGetProtocolInterface_def by (auto simp: bind_eq_Some_conv split: if_splits)
  show ?thesis using find_guid_Some [OF H(2) run(2)] hinv_handleD(4) [OF I H(1), of p] by auto
qed

subsection \<open>Opening and closing\<close>

lemma disconnect_drivers_hinv:
  assumes A: "Asserts P" and R: "restore_ctx hinv R" and C: "connect_ok E"
    and run: "disconnect_drivers P R E h p s = Some x" and I: "hinv (Ctx s)"
  shows "hinv (Ctx (snd x))"
proof -
  have "case (((((P, R), E), h), p), s) of (((((P', R'), E'), h), p), s) \<Rightarrow>
      P' = P \<longrightarrow> R' = R \<longrightarrow> E' = E \<longrightarrow> hinv (Ctx s) \<longrightarrow> hinv (Ctx (snd x))"
  proof (rule disconnect_drivers.raw_induct [where Pa = "\<lambda>a x. case a of (((((P', R'), E'), h), p), s) \<Rightarrow>
      P' = P \<longrightarrow> R' = R \<longrightarrow> E' = E \<longrightarrow> hinv (Ctx s) \<longrightarrow> hinv (Ctx (snd x))", OF _ run], goal_cases)
    case (1 f P' R' E' h p s x)
    show ?case
    proof (clarsimp)
      assume eq: "P' = P" "R' = R" "E' = E" and I: "hinv (Ctx s)"
      obtain J where J: "Interfaces (Ctx s) p = Some J" using 1(2) by (cases "Interfaces (Ctx s) p") auto
      show "hinv (Ctx (snd x))"
      proof (cases "find by_driver (OpenList J)")
        case None
        then show ?thesis using 1(2) J I by auto
      next
        case (Some od)
        with 1(2) eq J obtain s1 where s1: "CoreReleaseProtocolLock P R s = Some s1"
          and r1: "Option.bind (DisconnectController E h (AgentHandle od) 0 s1) (\<lambda>(Status, s).
             Option.bind (CoreAcquireProtocolLock P s) (\<lambda>s.
               if EFI_ERROR Status then Some (Status, s) else f P R E h p s)) = Some x"
          by (cases "CoreReleaseProtocolLock P R s") auto
        from r1 obtain st s2 s3 where s2: "DisconnectController E h (AgentHandle od) 0 s1 = Some (st, s2)"
          and s3: "CoreAcquireProtocolLock P s2 = Some s3" and x: "x = (st, s3) \<or> f P R E h p s3 = Some x"
          by (auto simp: bind_eq_Some_conv split: if_splits)
        have "hinv (Ctx s1)" by (rule lock_cycle [OF R s1 I])
        moreover have "ctx_step hinv s1 s2" using C s2 unfolding connect_ok_def by blast
        ultimately have "hinv (Ctx s3)" using lock_taken(1) [OF A s3] by (simp add: ctx_step_def)
        with x 1(1) [of P R E h p s3 x] show ?thesis by auto
      qed
    qed
  qed
  with I show ?thesis by simp
qed

text \<open>After a success no record of a driver is left.\<close>

lemma disconnect_drivers_none:
  assumes run: "disconnect_drivers P R E h p s = Some x"
  shows "EFI_ERROR (fst x) \<or> (\<exists>J. Interfaces (Ctx (snd x)) p = Some J \<and> filter by_driver (OpenList J) = [])"
proof -
  have "case (((((P, R), E), h), p), s) of (((((P', R'), E'), h), p), s) \<Rightarrow>
      EFI_ERROR (fst x) \<or> (\<exists>J. Interfaces (Ctx (snd x)) p = Some J \<and> filter by_driver (OpenList J) = [])"
  proof (rule disconnect_drivers.raw_induct [where Pa = "\<lambda>a x. case a of (((((P', R'), E'), h), p), s) \<Rightarrow>
      EFI_ERROR (fst x) \<or> (\<exists>J. Interfaces (Ctx (snd x)) p = Some J \<and> filter by_driver (OpenList J) = [])", OF _ run],
      goal_cases)
    case (1 f P' R' E' h p s x)
    obtain J where J: "Interfaces (Ctx s) p = Some J" using 1(2) by (cases "Interfaces (Ctx s) p") auto
    show ?case
    proof (cases "find by_driver (OpenList J)")
      case None
      then have "x = (EFI_SUCCESS, s)" using 1(2) J by simp
      moreover have "filter by_driver (OpenList J) = []" using None by (simp add: find_None_iff filter_empty_conv)
      ultimately show ?thesis using J by simp
    next
      case (Some od)
      with 1(2) J obtain st s3 where "x = (st, s3) \<and> EFI_ERROR st \<or> f P' R' E' h p s3 = Some x"
        by (auto simp: bind_eq_Some_conv split: if_splits)
      with 1(1) [of P' R' E' h p s3 x] show ?thesis by auto
    qed
  qed
  then show ?thesis by simp
qed

lemma scan_count_length: "scan_open_list ih ch a b x l = ScanCount l' \<Longrightarrow>
    length l' = length l \<and> map Attributes l' = map Attributes l"
  by (induction l arbitrary: b x l') (auto simp: Let_def split: if_splits open_scan.splits)

lemma scan_end: "scan_open_list ih ch a b x l = ScanEnd b' x' \<Longrightarrow>
    b' = (b \<or> (\<exists>od \<in> set l. by_driver od)) \<and> x' = (x \<or> (\<exists>od \<in> set l. exclusive od))"
proof (induction l arbitrary: b x)
  case (Cons y l)
  have "scan_open_list ih ch a (b \<or> by_driver y) (x \<or> exclusive y) l = ScanEnd b' x'"
    using Cons.prems by (auto simp: Let_def split: if_splits open_scan.splits)
  from Cons.IH [OF this] show ?case by auto
qed simp

lemma by_driver_count: "map Attributes l = map Attributes k \<Longrightarrow> length (filter by_driver l) = length (filter by_driver k)"
proof (induction l arbitrary: k)
  case (Cons x l)
  then obtain y k' where "k = y # k'" "Attributes x = Attributes y" "map Attributes l = map Attributes k'" by (cases k) auto
  with Cons.IH [of k'] show ?case by (simp add: by_driver_def)
qed simp

lemma add_open_record_hinv:
  assumes "add_open_record E p ih ch a s = (st, u)" "hinv (Ctx s)"
    and "a AND EFI_OPEN_PROTOCOL_BY_DRIVER \<noteq> 0 \<Longrightarrow> Interfaces (Ctx s) p = Some J \<Longrightarrow> filter by_driver (OpenList J) = []"
    and "Interfaces (Ctx s) p = Some J"
  shows "hinv (Ctx u)"
proof -
  obtain b v where v: "alloc E sizeof_OPEN_PROTOCOL_DATA s = (b, v)" by (rule prod.exhaust)
  have "hinv (Ctx v)" using assms(2) alloc_hinv [OF v] by simp
  moreover have "Interfaces (Ctx v) = Interfaces (Ctx s)" using v by (auto simp: alloc_def upd_ctx_def split: prod.splits)
  ultimately have "hinv (upd_interface p (\<lambda>Prot. Prot\<lparr>OpenList := OpenList Prot @ [od],
      OpenListCount := OpenListCount Prot + 1\<rparr>) (Ctx v))" if "Attributes od = a" for od
    by (intro hinv_upd_interface) (use assms(3,4) that in \<open>auto simp: open_list_ok_def by_driver_def\<close>)
  then show ?thesis
    using assms v \<open>hinv (Ctx v)\<close> unfolding add_open_record_def by (auto simp: Let_def split: if_splits)
qed

lemma open_section_hinv:
  assumes A: "Asserts P" and R: "restore_ctx hinv R" and C: "connect_ok E" and I: "hinv (Ctx s)"
    and a: "a AND EFI_OPEN_PROTOCOL_BY_DRIVER \<noteq> 0 \<Longrightarrow>
      a = EFI_OPEN_PROTOCOL_BY_DRIVER \<or> a = EFI_OPEN_PROTOCOL_BY_DRIVER OR EFI_OPEN_PROTOCOL_EXCLUSIVE"
    and run: "open_section P R E h g ih ch a s = Some (st, i, u)"
  shows "hinv (Ctx u)"
proof -
  obtain p where p: "CoreGetProtocolInterface h g (Ctx s) = Some p"
    using run unfolding open_section_def by (auto simp: bind_eq_Some_conv)
  show ?thesis
  proof (cases "p = 0")
    case True
    then show ?thesis using run p I unfolding open_section_def by auto
  next
    case False
    then obtain J where J: "Interfaces (Ctx s) p = Some J"
      using CoreGetProtocolInterface_run [OF I p] by blast
    show ?thesis
    proof (cases "scan_open_list ih ch a False False (OpenList J)")
      case ScanStarted
      then show ?thesis using run p J I False unfolding open_section_def by (simp add: Let_def)
    next
      case (ScanCount l)
      have "hinv (upd_interface p (OpenList_update (\<lambda>_. l)) (Ctx s))"
        by (rule hinv_upd_interface [OF I])
          (use J scan_count_length [OF ScanCount] by_driver_count [of l "OpenList J"] in \<open>simp add: open_list_ok_def\<close>)
      then show ?thesis using run p J False ScanCount unfolding open_section_def by (auto simp: Let_def)
    next
      case (ScanEnd bd ex)
      let ?x = "a = EFI_OPEN_PROTOCOL_BY_DRIVER OR EFI_OPEN_PROTOCOL_EXCLUSIVE \<or> a = EFI_OPEN_PROTOCOL_EXCLUSIVE"
      have none: "filter by_driver (OpenList J) = []" if "\<not> bd"
        using scan_end [OF ScanEnd] that by (simp add: filter_empty_conv)
      let ?den = "a = EFI_OPEN_PROTOCOL_BY_DRIVER \<and> (ex \<or> bd) \<or> ?x \<and> ex"
      let ?d = "if ?x \<and> bd then disconnect_drivers P R E h p s else Some (EFI_SUCCESS, s)"
      have r: "(if ?den then Some (EFI_ACCESS_DENIED, Interface J, s)
          else Option.bind ?d (\<lambda>(Status, s).
            if EFI_ERROR Status then Some (EFI_ACCESS_DENIED, Interface J, s)
            else let (Status, s) = add_open_record E p ih ch a s in Some (Status, Interface J, s))) = Some (st, i, u)"
        using run p J False ScanEnd unfolding open_section_def by (auto simp: Let_def split: if_splits)
      show ?thesis
      proof (cases ?den)
        case True
        then have "u = s" using r by simp
        with I show ?thesis by simp
      next
        case nden: False
        obtain st1 v where d: "?d = Some (st1, v)" using r nden by (cases ?d) auto
        have nb: "\<not> (a = EFI_OPEN_PROTOCOL_BY_DRIVER \<and> bd)" using nden by blast
        have u: "if EFI_ERROR st1 then u = v else add_open_record E p ih ch a v = (st, u)"
          using r nden unfolding d by (auto split: prod.splits)
        have v: "hinv (Ctx v)" using d disconnect_drivers_hinv [OF A R C _ I] I by (fastforce split: if_splits)
        show ?thesis
        proof (cases "EFI_ERROR st1")
          case True
          with u v show ?thesis by simp
        next
          case False
          then have add: "add_open_record E p ih ch a v = (st, u)" using u by simp
          have "\<exists>K. Interfaces (Ctx v) p = Some K \<and> (a AND EFI_OPEN_PROTOCOL_BY_DRIVER \<noteq> 0 \<longrightarrow> filter by_driver (OpenList K) = [])"
          proof (cases "?x \<and> bd")
            case True
            then show ?thesis using d disconnect_drivers_none [of P R E h p s] False by fastforce
          next
            case False
            then have "v = s" using d by (simp split: if_splits)
            moreover have "\<not> bd" if "a AND EFI_OPEN_PROTOCOL_BY_DRIVER \<noteq> 0" using a [OF that] False nb by blast
            ultimately show ?thesis using J none by blast
          qed
          then obtain K where "Interfaces (Ctx v) p = Some K"
            "a AND EFI_OPEN_PROTOCOL_BY_DRIVER \<noteq> 0 \<longrightarrow> filter by_driver (OpenList K) = []" by blast
          then show ?thesis using add_open_record_hinv [OF add v] by blast
        qed
      qed
    qed
  qed
qed

lemma check_open_attributes_driver:
  assumes "\<not> EFI_ERROR (check_open_attributes h ih ch a d)" "a AND EFI_OPEN_PROTOCOL_BY_DRIVER \<noteq> 0"
  shows "a = EFI_OPEN_PROTOCOL_BY_DRIVER \<or> a = EFI_OPEN_PROTOCOL_BY_DRIVER OR EFI_OPEN_PROTOCOL_EXCLUSIVE"
  using assms unfolding check_open_attributes_def by (auto split: if_splits)

lemma CoreOpenProtocol_ctx:
  assumes A: "Asserts P" and R: "restore_ctx hinv R" and C: "connect_ok E"
    and run: "CoreOpenProtocol P R E h g b ih ch a s = Some (st, i, u)"
  shows "ctx_step hinv s u"
  using run unfolding CoreOpenProtocol_def
  by (auto simp: Let_def bind_eq_Some_conv split: option.splits if_splits
      elim!: section_ctx [OF A R] intro: open_section_hinv [OF A R C] dest: check_open_attributes_driver)

lemma CoreHandleProtocol_ctx:
  assumes A: "Asserts P" and R: "restore_ctx hinv R" and C: "connect_ok E"
    and run: "CoreHandleProtocol P R E h g b s = Some (st, i, u)"
  shows "ctx_step hinv s u"
  using CoreOpenProtocol_ctx [OF A R C run [unfolded CoreHandleProtocol_def]] .

lemma fold_free_simps [simp]:
  "hinv_but X (Ctx (fold (\<lambda>od. free E (OpenAddress od)) l s)) = hinv_but X (Ctx s)"
  "Interfaces (Ctx (fold (\<lambda>od. free E (OpenAddress od)) l s)) = Interfaces (Ctx s)"
  "Handles (Ctx (fold (\<lambda>od. free E (OpenAddress od)) l s)) = Handles (Ctx s)"
  "Entries (Ctx (fold (\<lambda>od. free E (OpenAddress od)) l s)) = Entries (Ctx s)"
  "Locks (fold (\<lambda>od. free E (OpenAddress od)) l s) = Locks s"
  by (induction l arbitrary: s) (simp_all, simp_all add: free_def)

lemma length_filter_filter: "length (filter P (filter Q l)) \<le> length (filter P l)"
  by (induction l) auto

lemma remove_open_records_hinv:
  assumes I: "hinv (Ctx s)" and J: "Interfaces (Ctx s) p = Some J"
  shows "hinv (Ctx (remove_open_records E c p J s))"
proof -
  have "hinv (upd_interface p (\<lambda>Prot. Prot
          \<lparr>OpenList := filter (\<lambda>od. \<not> c od) (OpenList Prot),
           OpenListCount := OpenListCount Prot - of_nat (length (filter c (OpenList Prot)))\<rparr>) (Ctx s))"
  proof (rule hinv_upd_interface [OF I], intro conjI impI)
    fix K :: PROTOCOL_INTERFACE
    assume "open_list_ok K"
    then have K: "OpenListCount K = of_nat (length (OpenList K))" "length (filter by_driver (OpenList K)) \<le> 1"
      by (simp_all add: open_list_ok_def)
    have "length (OpenList K) = length (filter c (OpenList K)) + length (filter (\<lambda>x. \<not> c x) (OpenList K))"
      by (simp add: sum_length_filter_compl)
    then have "OpenListCount K - of_nat (length (filter c (OpenList K))) =
        of_nat (length (filter (\<lambda>x. \<not> c x) (OpenList K)))" using K(1) by simp
    moreover have "length (filter by_driver (filter (\<lambda>x. \<not> c x) (OpenList K))) \<le> length (filter by_driver (OpenList K))"
      by (rule length_filter_filter)
    ultimately show "open_list_ok (K\<lparr>OpenList := filter (\<lambda>od. \<not> c od) (OpenList K),
           OpenListCount := OpenListCount K - of_nat (length (filter c (OpenList K)))\<rparr>)"
      using K(2) by (simp add: open_list_ok_def)
  qed simp_all
  then show ?thesis by (simp add: remove_open_records_def)
qed

lemma CoreCloseProtocol_ctx:
  assumes A: "Asserts P" and R: "restore_ctx hinv R"
    and run: "CoreCloseProtocol P R E h g ah ch s = Some (st, u)"
  shows "ctx_step hinv s u"
  using run unfolding CoreCloseProtocol_def
  by (auto simp: Let_def bind_eq_Some_conv split: option.splits if_splits
      elim!: section_ctx [OF A R] intro: remove_open_records_hinv)

lemma information_section_hinv:
  assumes "information_section P E h g s = Some (st, out, n, u)" "hinv (Ctx s)"
  shows "hinv (Ctx u)"
  using assms unfolding information_section_def
  by (auto simp: Let_def bind_eq_Some_conv split_beta split: if_splits)

lemma CoreOpenProtocolInformation_ctx:
  assumes A: "Asserts P" and R: "restore_ctx hinv R"
    and run: "CoreOpenProtocolInformation P R E h g s = Some (st, out, n, u)"
  shows "ctx_step hinv s u"
  using run unfolding CoreOpenProtocolInformation_def
  by (auto simp: bind_eq_Some_conv elim!: section_ctx [OF A R] information_section_hinv)

subsection \<open>Notifications\<close>

lemma signal_notifies_ctx:
  assumes R: "restore_ctx Q R"
  shows "signal_notifies P R l s = Some u \<Longrightarrow> ctx_step Q s u"
  by (induction l arbitrary: s)
    (auto simp: bind_eq_Some_conv dest!: CoreSignalEvent_ctx [OF R] intro: ctx_step_trans)

lemma CoreNotifyProtocolEntry_ctx:
  assumes R: "restore_ctx Q R" and "CoreNotifyProtocolEntry P R e s = Some u"
  shows "ctx_step Q s u"
  using assms(2) unfolding CoreNotifyProtocolEntry_def by (auto simp: bind_eq_Some_conv signal_notifies_ctx [OF R])

lemma ctx_step_Q: "ctx_step Q s u \<Longrightarrow> Q (Ctx s) \<Longrightarrow> Q (Ctx u)"
  by (simp add: ctx_step_def)

lemma register_section_hinv:
  assumes E: "pool_ok E" and I: "hinv (Ctx s)" and run: "register_section P E g ev s = Some (n, u)"
  shows "hinv (Ctx u)"
proof -
  obtain e v where v: "CoreFindProtocolEntry P E g True s = Some (e, v)"
    using run unfolding register_section_def by (auto simp: bind_eq_Some_conv)
  note f = CoreFindProtocolEntry_run [OF I E v]
  obtain m w where w: "alloc E sizeof_PROTOCOL_NOTIFY v = (m, w)" by (rule prod.exhaust)
  have "hinv (new_notify m e ev (Ctx w))" if ne: "e \<noteq> 0" "m \<noteq> 0"
  proof -
    obtain Y where "Entries (Ctx v) e = Some Y" using f(2) [OF ne(1)] by blast
    then have "Entries (Ctx w) e = Some Y" using alloc_run(2) [OF w] by auto
    with alloc_unused [OF E f(1) w ne(2)] ne(2) f(1) show ?thesis
      by (intro hinv_new_notify) (simp_all add: unused_def alloc_hinv [OF w])
  qed
  moreover have "hinv (Ctx w)" using f(1) by (simp add: alloc_hinv [OF w])
  ultimately show ?thesis
    using run v w f(1) unfolding register_section_def by (auto split: if_splits)
qed

lemma CoreRegisterProtocolNotify_ctx:
  assumes A: "Asserts P" and R: "restore_ctx hinv R" and E: "pool_ok E"
    and run: "CoreRegisterProtocolNotify P R E g ev b s = Some (st, r, u)"
  shows "ctx_step hinv s u"
  using run unfolding CoreRegisterProtocolNotify_def
  by (auto simp: bind_eq_Some_conv split: option.splits if_splits elim!: section_ctx [OF A R]
      register_section_hinv [OF E])

subsection \<open>Installing\<close>

lemma install_section_hinv:
  assumes R: "restore_ctx hinv R" and E: "pool_ok E" and I: "hinv (Ctx s)"
    and run: "install_section P R E h g i nf st0 s = Some (st, h', p, u)"
  shows "hinv (Ctx u)"
proof -
  obtain e v where v: "CoreFindProtocolEntry P E g True s = Some (e, v)"
    using run unfolding install_section_def by (auto simp: bind_eq_Some_conv)
  note f = CoreFindProtocolEntry_run [OF I E v]
  obtain q w where w: "alloc E sizeof_PROTOCOL_INTERFACE v = (q, w)" by (rule prod.exhaust)
  have Iw: "hinv (Ctx w)" using f(1) by (simp add: alloc_hinv [OF w])
  obtain k x where x: "(if h = 0 then let (h, s) = alloc E sizeof_IHANDLE w
      in (h, if h \<noteq> 0 then upd_ctx (new_handle h) s else s) else (h, w)) = (k, x)" by (rule prod.exhaust)
  show ?thesis
  proof (cases "e = 0 \<or> q = 0 \<or> k = 0")
    case True
    then show ?thesis
      using run v w x f(1) Iw unfolding install_section_def
      by (auto simp: Let_def split_beta split: if_splits)
  next
    case False
    then have ne: "e \<noteq> 0" "q \<noteq> 0" "k \<noteq> 0" by simp_all
    obtain Y where Y: "Entries (Ctx v) e = Some Y" using f(2) [OF ne(1)] by blast
    have Yw: "Entries (Ctx w) e = Some Y" using Y alloc_run(2) [OF w] by auto
    have q: "Interfaces (Ctx w) q = None" using alloc_unused [OF E f(1) w ne(2)] by (simp add: unused_def)
    have xs: "hinv_but {k} (Ctx x) \<and> Entries (Ctx x) = Entries (Ctx w) \<and> Interfaces (Ctx x) = Interfaces (Ctx w)"
    proof (cases "h = 0")
      case True
      obtain y where y: "alloc E sizeof_IHANDLE w = (k, y)" "x = upd_ctx (new_handle k) y"
        using x True ne(3) by (cases "alloc E sizeof_IHANDLE w") auto
      have "hinv_but {k} (new_handle k (Ctx y))"
        using alloc_unused [OF E Iw y(1) ne(3)] Iw ne(3) by (intro hinv_new_handle) (auto simp: unused_def alloc_hinv [OF y(1)])
      then show ?thesis using y(2) alloc_run(2) [OF y(1)] by (auto simp: new_handle_def Let_def)
    next
      case False
      then show ?thesis using x Iw by (auto simp: hinv_but_def handles_ok_def)
    qed
    show ?thesis
    proof (cases "EFI_ERROR (CoreValidateHandle k (Ctx x))")
      case True
      then have "h \<noteq> 0"
        using x ne(3) by (auto simp: CoreValidateHandle_def new_handle_def Let_def split_beta split: if_splits)
      with x have "x = w" by simp
      then show ?thesis using True run v w x Iw ne unfolding install_section_def by (auto simp: Let_def)
    next
      case False
      then obtain H where H: "Handles (Ctx x) k = Some H" by (auto simp: CoreValidateHandle_def split: if_splits)
      have "hinv (link_interface q k e i (Ctx x))"
        using xs q ne(2) H Yw by (intro hinv_link_interface [of "{k}"]) simp_all
      moreover have "u = upd_ctx (link_interface q k e i) x \<or>
          CoreNotifyProtocolEntry P R e (upd_ctx (link_interface q k e i) x) = Some u"
        using False run v w x ne unfolding install_section_def
        by (auto simp: Let_def bind_eq_Some_conv split: if_splits)
      ultimately show ?thesis using ctx_step_Q [OF CoreNotifyProtocolEntry_ctx [OF R]] by fastforce
    qed
  qed
qed

lemma existing_interface_ctx:
  assumes A: "Asserts P" and R: "restore_ctx hinv R" and C: "connect_ok E"
    and run: "existing_interface P R E h g s = Some (st, u)"
  shows "ctx_step hinv s u"
  using run CoreHandleProtocol_ctx [OF A R C] unfolding existing_interface_def
  by (auto simp: bind_eq_Some_conv split: if_splits)

lemma CoreInstallProtocolInterfaceNotify_ctx:
  assumes A: "Asserts P" and R: "restore_ctx hinv R" and C: "connect_ok E" and E: "pool_ok E"
    and run: "CoreInstallProtocolInterfaceNotify P R E hp g ty i nf s = Some (st, h', u)"
  shows "ctx_step hinv s u"
proof (cases "\<exists>h x. hp = Some h \<and> g = Some x \<and> ty = EFI_NATIVE_INTERFACE")
  case False
  then show ?thesis
    using run by (auto simp: CoreInstallProtocolInterfaceNotify_def split: option.splits if_splits)
next
  case True
  then obtain h x where hx: "hp = Some h" "g = Some x" "ty = EFI_NATIVE_INTERFACE" by blast
  obtain st1 s1 where s1: "existing_interface P R E h x s = Some (st1, s1)"
    using run unfolding CoreInstallProtocolInterfaceNotify_def hx by (auto simp: bind_eq_Some_conv)
  have k1: "ctx_step hinv s s1" by (rule existing_interface_ctx [OF A R C s1])
  have "s1 = u \<or> ctx_step hinv s1 u"
  proof (cases "h \<noteq> 0 \<and> \<not> EFI_ERROR st1")
    case True
    then show ?thesis using run s1 unfolding CoreInstallProtocolInterfaceNotify_def hx by auto
  next
    case False
    then obtain a st2 k p b c where a: "CoreAcquireProtocolLock P s1 = Some a"
      and b: "install_section P R E h x i nf st1 a = Some (st2, k, p, b)"
      and c: "CoreReleaseProtocolLock P R b = Some c" and u: "u = c \<or> u = free E p c"
      using run s1 unfolding CoreInstallProtocolInterfaceNotify_def hx
      by (auto simp: bind_eq_Some_conv split: if_splits)
    have "ctx_step hinv s1 c" by (rule section_ctx [OF A R c a install_section_hinv [OF R E _ b]])
    then show ?thesis using u lock_taken [OF A a] CoreAcquireLock_protocol(2) [OF a [unfolded protocol_lock_defs] A]
      by (auto simp: ctx_step_def held_def)
  qed
  with k1 show ?thesis by (auto intro: ctx_step_trans)
qed


lemma CoreInstallProtocolInterface_ctx:
  assumes "Asserts P" "restore_ctx hinv R" "connect_ok E" "pool_ok E"
    and run: "CoreInstallProtocolInterface P R E hp g ty i s = Some (st, h', u)"
  shows "ctx_step hinv s u"
  using CoreInstallProtocolInterfaceNotify_ctx [OF assms(1-4) run [unfolded CoreInstallProtocolInterface_def]] .

subsection \<open>Removing and reinstalling\<close>

lemma CoreDisconnectControllers_hinv:
  assumes A: "Asserts P" and R: "restore_ctx hinv R" and C: "connect_ok E" and I: "hinv (Ctx s)"
    and run: "CoreDisconnectControllersUsingProtocolInterface P R E h p s = Some (st, u)"
  shows "hinv (Ctx u)"
proof -
  obtain st1 s1 J where s1: "disconnect_drivers P R E h p s = Some (st1, s1)" and J: "Interfaces (Ctx s1) p = Some J"
    using run unfolding CoreDisconnectControllersUsingProtocolInterface_def by (auto simp: bind_eq_Some_conv)
  define s2 where "s2 = (if \<not> EFI_ERROR st1 then remove_open_records E shared_open p J s1 else s1)"
  have I2: "hinv (Ctx s2)"
    using disconnect_drivers_hinv [OF A R C s1 I] remove_open_records_hinv [OF _ J] by (simp add: s2_def)
  have r: "reconnect_if_open P R E h p st1 s2 = Some (st, u)"
    using run s1 J unfolding CoreDisconnectControllersUsingProtocolInterface_def s2_def by simp
  show ?thesis
  proof (cases "u = s2")
    case False
    with r obtain s3 s4 st4 where s3: "CoreReleaseProtocolLock P R s2 = Some s3"
      and s4: "ConnectController E h s3 = Some (st4, s4)" and u: "CoreAcquireProtocolLock P s4 = Some u"
      by (auto simp: reconnect_if_open_def bind_eq_Some_conv split: if_splits)
    have "ctx_step hinv s3 s4" using C s4 unfolding connect_ok_def by blast
    then show ?thesis
      using lock_cycle [OF R s3 I2] lock_taken(1) [OF A u] by (simp add: ctx_step_def)
  qed (use I2 in simp)
qed

text \<open>\<open>CoreRemoveInterfaceFromProtocol\<close> unlinks the interface it finds.\<close>

lemma CoreRemoveInterfaceFromProtocol_run:
  assumes I: "hinv (Ctx s)" and run: "CoreRemoveInterfaceFromProtocol P h g i s = Some (p, u)"
  shows "p = 0 \<and> u = s \<or> (\<exists>H J Y. p \<noteq> 0 \<and> Handles (Ctx s) h = Some H \<and> Interfaces (Ctx s) p = Some J \<and> Handle J = h \<and>
    Interface J = i \<and> Entries (Ctx s) (Protocol J) = Some Y \<and> ProtocolID Y = g \<and>
    u = upd_ctx (unlink_interface p (Protocol J) Y) s)"
proof -
  obtain q where q: "CoreFindProtocolInterface P h g i s = Some q"
    using run unfolding CoreRemoveInterfaceFromProtocol_def by (auto simp: bind_eq_Some_conv)
  show ?thesis
  proof (cases "q = 0")
    case True
    then show ?thesis using run q unfolding CoreRemoveInterfaceFromProtocol_def by (auto simp: bind_eq_Some_conv)
  next
    case False
    obtain H J Y where f: "Handles (Ctx s) h = Some H" "Interfaces (Ctx s) q = Some J" "Handle J = h"
      "Interface J = i" "Entries (Ctx s) (Protocol J) = Some Y" "ProtocolID Y = g"
      using CoreFindProtocolInterface_run [OF I q False] by blast
    then have "p = q" "u = upd_ctx (unlink_interface q (Protocol J) Y) s"
      using run q False unfolding CoreRemoveInterfaceFromProtocol_def
      by (auto simp: bind_eq_Some_conv Let_def unlink_interface_def upd_ctx_def)
    then show ?thesis using f False by blast
  qed
qed

lemma uninstall_section_hinv:
  assumes A: "Asserts P" and R: "restore_ctx hinv R" and C: "connect_ok E" and I: "hinv (Ctx s)"
    and run: "uninstall_section P R E h g i s = Some (st, u)"
  shows "hinv (Ctx u)"
proof -
  obtain p where p: "CoreFindProtocolInterface P h g i s = Some p"
    using run unfolding uninstall_section_def by (auto simp: bind_eq_Some_conv)
  show ?thesis
  proof (cases "p = 0")
    case True
    then show ?thesis using run p I unfolding uninstall_section_def by auto
  next
    case False
    then obtain st1 s1 where s1: "CoreDisconnectControllersUsingProtocolInterface P R E h p s = Some (st1, s1)"
      using run p unfolding uninstall_section_def by (auto simp: bind_eq_Some_conv)
    have I1: "hinv (Ctx s1)" by (rule CoreDisconnectControllers_hinv [OF A R C I s1])
    show ?thesis
    proof (cases "EFI_ERROR st1")
      case True
      then show ?thesis using run p False s1 I1 unfolding uninstall_section_def by auto
    next
      case err: False
      obtain q s2 H where s2: "CoreRemoveInterfaceFromProtocol P h g i s1 = Some (q, s2)"
        and H: "Handles (Ctx (if q \<noteq> 0 then upd_ctx (free_interface E h q) s2 else s2)) h = Some H"
        and u: "u = (let s3 = (if q \<noteq> 0 then upd_ctx (free_interface E h q) s2 else s2)
          in if Protocols H = [] then upd_ctx (free_handle E h) s3 else s3)"
        using run p False s1 err unfolding uninstall_section_def
        by (auto simp: bind_eq_Some_conv Let_def split: if_splits)
      have "hinv_but {h} (Ctx (if q \<noteq> 0 then upd_ctx (free_interface E h q) s2 else s2))"
        using CoreRemoveInterfaceFromProtocol_run [OF I1 s2] hinv_uninstall [OF I1] I1
        by (auto simp: hinv_but_def handles_ok_def)
      then show ?thesis
        using hinv_free_handle [OF _ H] hinv_but_cases [where h = h] H u by (fastforce simp: Let_def split: if_splits)
    qed
  qed
qed

lemma CoreUninstallProtocolInterface_ctx:
  assumes A: "Asserts P" and R: "restore_ctx hinv R" and C: "connect_ok E"
    and run: "CoreUninstallProtocolInterface P R E h g i s = Some (st, u)"
  shows "ctx_step hinv s u"
  using run unfolding CoreUninstallProtocolInterface_def
  by (auto simp: bind_eq_Some_conv split: option.splits if_splits elim!: section_ctx [OF A R]
      intro: uninstall_section_hinv [OF A R C])

lemma reinstall_section_hinv:
  assumes A: "Asserts P" and R: "restore_ctx hinv R" and C: "connect_ok E" and I: "hinv (Ctx s)"
    and run: "reinstall_section P R E h g oi ni s = Some (st, u)"
  shows "hinv (Ctx u)"
proof -
  obtain p where p: "CoreFindProtocolInterface P h g oi s = Some p"
    using run unfolding reinstall_section_def by (auto simp: bind_eq_Some_conv)
  show ?thesis
  proof (cases "p = 0")
    case True
    then show ?thesis using run p I unfolding reinstall_section_def by auto
  next
    case False
    then obtain st1 s1 where s1: "CoreDisconnectControllersUsingProtocolInterface P R E h p s = Some (st1, s1)"
      using run p unfolding reinstall_section_def by (auto simp: bind_eq_Some_conv)
    have I1: "hinv (Ctx s1)" by (rule CoreDisconnectControllers_hinv [OF A R C I s1])
    show ?thesis
    proof (cases "EFI_ERROR st1")
      case True
      then show ?thesis using run p False s1 I1 unfolding reinstall_section_def by auto
    next
      case err: False
      obtain q s2 where s2: "CoreRemoveInterfaceFromProtocol P h g oi s1 = Some (q, s2)"
        using run p False s1 err unfolding reinstall_section_def by (auto simp: bind_eq_Some_conv)
      show ?thesis
      proof (cases "q = 0")
        case True
        then show ?thesis
          using run p False s1 err s2 I1 CoreRemoveInterfaceFromProtocol_run [OF I1 s2]
          unfolding reinstall_section_def by auto
      next
        case q: False
        obtain J Y where J: "Interfaces (Ctx s1) q = Some J" "Entries (Ctx s1) (Protocol J) = Some Y"
          and s2': "s2 = upd_ctx (unlink_interface q (Protocol J) Y) s1"
          using CoreRemoveInterfaceFromProtocol_run [OF I1 s2] q by blast
        define s3 where "s3 = upd_ctx (touch_handle h) (upd_ctx (upd_entry (Protocol J) (ByProtocol_update (\<lambda>l. l @ [q])))
          (upd_ctx (upd_interface q (Interface_update (\<lambda>_. ni))) s2))"
        obtain s4 st5 s5 s6 where s4: "CoreReleaseProtocolLock P R s3 = Some s4"
          and s5: "ConnectController E h s4 = Some (st5, s5)" and s6: "CoreAcquireProtocolLock P s5 = Some s6"
          and u: "CoreNotifyProtocolEntry P R (Protocol J) s6 = Some u"
          using run p False s1 err s2 q J(1) s2' unfolding reinstall_section_def s3_def
          by (auto simp: bind_eq_Some_conv Let_def)
        have "upd_entry e f (upd_interface q f' d) = upd_interface q f' (upd_entry e f d)" for e f f' and d :: "'a hdb"
          by (simp add: upd_entry_def upd_interface_def)
        moreover have "hinv (upd_interface q (Interface_update (\<lambda>_. ni))
            (upd_entry (Protocol J) (ByProtocol_update (\<lambda>l. l @ [q])) (unlink_interface q (Protocol J) Y (Ctx s1))))"
          by (rule hinv_upd_interface [OF hinv_relink [OF I1 J(1) refl J(2)]]) simp
        ultimately have "hinv (Ctx s3)" by (simp add: s3_def s2')
        then have "hinv (Ctx s4)" by (rule lock_cycle [OF R s4])
        moreover have "ctx_step hinv s4 s5" using C s5 unfolding connect_ok_def by blast
        ultimately have "hinv (Ctx s6)" using lock_taken(1) [OF A s6] by (simp add: ctx_step_def)
        with CoreNotifyProtocolEntry_ctx [OF R u] show ?thesis by (simp add: ctx_step_def)
      qed
    qed
  qed
qed

lemma CoreReinstallProtocolInterface_ctx:
  assumes A: "Asserts P" and R: "restore_ctx hinv R" and C: "connect_ok E"
    and run: "CoreReinstallProtocolInterface P R E h g oi ni s = Some (st, u)"
  shows "ctx_step hinv s u"
  using run unfolding CoreReinstallProtocolInterface_def
  by (auto simp: bind_eq_Some_conv split: option.splits if_splits elim!: section_ctx [OF A R]
      intro: reinstall_section_hinv [OF A R C])

lemma uninstall_loop_ctx:
  assumes A: "Asserts P" and R: "restore_ctx hinv R" and C: "connect_ok E"
  shows "uninstall_loop P R E h as k s = Some (st, n, u) \<Longrightarrow> ctx_step hinv s u"
  by (induction as arbitrary: k s) (auto simp: bind_eq_Some_conv split: if_splits
      dest!: CoreUninstallProtocolInterface_ctx [OF A R C] intro: ctx_step_trans)

lemma reinstall_loop_ctx:
  assumes A: "Asserts P" and R: "restore_ctx hinv R" and C: "connect_ok E" and E: "pool_ok E"
  shows "reinstall_loop P R E as h s = Some u \<Longrightarrow> ctx_step hinv s u"
  by (induction as arbitrary: h s) (auto simp: bind_eq_Some_conv
      dest!: CoreInstallProtocolInterface_ctx [OF A R C E] intro: ctx_step_trans)

lemma CoreUninstallMultipleProtocolInterfaces_ctx:
  assumes A: "Asserts P" and R: "restore_ctx hinv R" and C: "connect_ok E" and E: "pool_ok E"
    and run: "CoreUninstallMultipleProtocolInterfaces P R E h as s = Some (st, u)"
  shows "ctx_step hinv s u"
  using run unfolding CoreUninstallMultipleProtocolInterfaces_def
  by (auto simp: bind_eq_Some_conv split: if_splits dest!: uninstall_loop_ctx [OF A R C]
      reinstall_loop_ctx [OF A R C E] intro: ctx_step_trans)


subsection \<open>Searches\<close>

lemma link_next_in: "link_next l p = Some q \<Longrightarrow> q = 0 \<or> q \<in> set l"
  using set_dropWhileD [of _ "\<lambda>x. x \<noteq> p" l]
  by (auto simp: link_next_def split: if_splits list.splits)

lemma hinv_position:
  assumes I: "hinv d" and N: "Notifies d n = Some N" and Y: "Entries d (NotifyProtocol N) = Some Y"
    and q: "q = 0 \<or> q \<in> set (ByProtocol Y)"
  shows "hinv (upd_notify n (Position_update (\<lambda>_. q)) d)"
proof -
  let ?d = "upd_notify n (Position_update (\<lambda>_. q)) d"
  have m: "(\<exists>M. Notifies ?d m = Some M \<and> NotifyProtocol M = e) \<longleftrightarrow>
      (\<exists>M. Notifies d m = Some M \<and> NotifyProtocol M = e)" for m e
    by (cases "Notifies d m") (auto simp: upd_notify_def)
  show ?thesis
  proof (rule hinvI)
    fix e A assume "Entries ?d e = Some A"
    then show "distinct (ByProtocol A) \<and> distinct (Notify A) \<and>
        (\<forall>p. p \<in> set (ByProtocol A) \<longleftrightarrow> (\<exists>I. Interfaces ?d p = Some I \<and> Protocol I = e)) \<and>
        (\<forall>m. m \<in> set (Notify A) \<longleftrightarrow> (\<exists>N. Notifies ?d m = Some N \<and> NotifyProtocol N = e))"
      unfolding m using hinv_entryD(2-5) [OF I] by simp
  next
    fix m M assume "Notifies ?d m = Some M"
    then show "\<exists>Y. Entries ?d (NotifyProtocol M) = Some Y \<and> (Position M = 0 \<or> Position M \<in> set (ByProtocol Y))"
      using hinv_notifyD(2) [OF I] N Y q by (auto simp: upd_Some split: if_splits)
  next
    fix p J assume "Interfaces ?d p = Some J"
    then show "Handles ?d (Handle J) \<noteq> None \<and> Entries ?d (Protocol J) \<noteq> None \<and>
        open_list_ok J"
      using hinv_interfaceD(2-4) [OF I] by fastforce
  qed (use hinv_listsD [OF I] hinv_handleD(2-4) [OF I] hinv_entryD(6) [OF I] in auto)
qed

lemma advance_notify_hinv:
  assumes "advance_notify n d = Some d'" "hinv d"
  shows "hinv d'"
  using assms hinv_position [OF assms(2)] link_next_in
  unfolding advance_notify_def by (auto simp: bind_eq_Some_conv)

lemma next_by_protocol_hinv:
  "next_by_protocol l i d = Some (h, j, l', d') \<Longrightarrow> hinv d \<Longrightarrow> hinv d'"
  by (induction l arbitrary: i) (auto simp: bind_eq_Some_conv split: if_splits intro: hinv_upd_handle)

definition get_next_ok :: "'p CORE_GET_NEXT \<Rightarrow> bool" where
  "get_next_ok f \<longleftrightarrow> (\<forall>pos d h i pos' d'. f pos d = Some (h, i, pos', d') \<longrightarrow> hinv d \<longrightarrow> hinv d')"

lemma get_next_routines_ok:
  "get_next_ok CoreGetNextLocateAllHandles" "get_next_ok CoreGetNextLocateByRegisterNotify"
  "get_next_ok CoreGetNextLocateByProtocol"
  unfolding get_next_ok_def CoreGetNextLocateAllHandles_def CoreGetNextLocateByRegisterNotify_def
    CoreGetNextLocateByProtocol_def
  by (auto simp: bind_eq_Some_conv Let_def split: list.splits if_splits dest: next_by_protocol_hinv)

lemma locate_loop_hinv:
  assumes f: "get_next_ok f" and run: "locate_loop f n pos r buf d = Some x" and I: "hinv d"
  shows "hinv (snd (snd x))"
proof -
  have "f = f \<longrightarrow> hinv d \<longrightarrow> hinv (snd (snd x))"
  proof (rule locate_loop.raw_induct [where P = "\<lambda>f' n pos r buf d x. f' = f \<longrightarrow> hinv d \<longrightarrow> hinv (snd (snd x))",
      OF _ run], goal_cases)
    case (1 g f' n pos r buf d x)
    show ?case
    proof (clarsimp)
      assume eq: "f' = f" and I: "hinv d"
      obtain h i pos' d' where s: "f pos d = Some (h, i, pos', d')"
        using 1(2) eq by (cases "f pos d") auto
      have "hinv d'" using f s I unfolding get_next_ok_def by blast
      moreover have "x = (r, buf, d') \<or>
          g f n pos' (r + 8) (if r + 8 \<le> n then buf @ [h] else buf) d' = Some x"
        using 1(2) eq s by (auto simp: Let_def split: if_splits)
      ultimately show "hinv (snd (snd x))" using 1(1) by fastforce
    qed
  qed
  with I show ?thesis by simp
qed

lemma locate_start_ok:
  "locate_start P E ty g k s = Some (st, f, pos) \<Longrightarrow> get_next_ok f"
  unfolding locate_start_def Let_def
  by (auto simp: bind_eq_Some_conv get_next_routines_ok split: if_splits option.splits)

lemma locate_section_hinv:
  assumes run: "locate_section P E ty g k n s = Some (st, n', buf, u)" and I: "hinv (Ctx s)"
  shows "hinv (Ctx u)"
proof -
  obtain st0 f pos where st: "locate_start P E ty g k s = Some (st0, f, pos)"
    using run unfolding locate_section_def by (auto simp: bind_eq_Some_conv)
  show ?thesis
  proof (cases "EFI_ERROR st0")
    case True
    then show ?thesis using run st I unfolding locate_section_def by auto
  next
    case False
    then obtain r b d where l: "locate_loop f n pos 0 [] (mEfiLocateHandleRequest_update (\<lambda>r. r + 1) (Ctx s)) = Some (r, b, d)"
      and u: "Ctx u = d \<or> advance_notify k d = Some (Ctx u)"
      using run st unfolding locate_section_def by (auto simp: bind_eq_Some_conv Let_def split: if_splits)
    have "hinv d" using locate_loop_hinv [OF locate_start_ok [OF st] l] I by simp
    then show ?thesis using u advance_notify_hinv by auto
  qed
qed

lemma CoreLocateHandle_ctx:
  assumes A: "Asserts P" and R: "restore_ctx hinv R"
    and run: "CoreLocateHandle P R E ty g k n b s = Some (st, n', buf, u)"
  shows "ctx_step hinv s u"
  using run unfolding CoreLocateHandle_def
  by (auto simp: bind_eq_Some_conv split: option.splits if_splits elim!: section_ctx [OF A R] locate_section_hinv)

lemma locate_protocol_section_hinv:
  assumes run: "locate_protocol_section P E g k s = Some (st, i, u)" and I: "hinv (Ctx s)"
  shows "hinv (Ctx u)"
proof -
  have I1: "hinv (mEfiLocateHandleRequest_update (\<lambda>r. r + 1) (Ctx s))" using I by simp
  show ?thesis
    using run I1 get_next_routines_ok(2,3) advance_notify_hinv unfolding locate_protocol_section_def get_next_ok_def
    by (auto simp: bind_eq_Some_conv Let_def split: if_splits; blast)
qed

lemma CoreLocateProtocol_ctx:
  assumes A: "Asserts P" and R: "restore_ctx hinv R"
    and run: "CoreLocateProtocol P R E g k b s = Some (st, i, u)"
  shows "ctx_step hinv s u"
  using run unfolding CoreLocateProtocol_def
  by (auto simp: bind_eq_Some_conv split: option.splits if_splits elim!: section_ctx [OF A R]
      locate_protocol_section_hinv)


lemma ctx_step_alloc: "alloc E n s = (a, u) \<Longrightarrow> \<not> held s gProtocolDatabaseLock \<Longrightarrow> ctx_step hinv s u"
  using alloc_hinv [of E n s a u] alloc_run(3) [of E n s a u] by (simp add: ctx_step_def held_def)

lemma ctx_step_free: "\<not> held s gProtocolDatabaseLock \<Longrightarrow> ctx_step hinv s (free E a s)"
  by (simp add: ctx_step_def)

text \<open>After a service that takes the lock, the lock is free.\<close>

lemma CoreLocateHandle_free:
  assumes A: "Asserts P" and R: "restore_ctx hinv R"
    and run: "CoreLocateHandle P R E ty g k (Some n) b s = Some (st, n', buf, u)" and st: "n > 0 \<longrightarrow> b"
  shows "\<not> held u gProtocolDatabaseLock"
proof -
  obtain v where "CoreReleaseProtocolLock P R v = Some u"
    using run st unfolding CoreLocateHandle_def by (auto simp: bind_eq_Some_conv split: if_splits)
  then show ?thesis using CoreReleaseLock_protocol(1) [OF R, of P v u] by (simp add: protocol_lock_defs held_def)
qed

lemma CoreLocateHandleBuffer_ctx:
  assumes A: "Asserts P" and R: "restore_ctx hinv R"
    and run: "CoreLocateHandleBuffer P R E ty g k b1 b2 s = Some (st, n, a, buf, u)"
  shows "ctx_step hinv s u" "a \<noteq> 0 \<Longrightarrow> \<not> held u gProtocolDatabaseLock"
proof -
  have "ctx_step hinv s u \<and> (a \<noteq> 0 \<longrightarrow> \<not> held u gProtocolDatabaseLock)"
  proof (cases "b1 \<and> b2")
    case False
    then show ?thesis using run unfolding CoreLocateHandleBuffer_def by auto
  next
    case True
    then obtain st1 n1 buf1 s1 where s1: "CoreLocateHandle P R E ty g k (Some 0) False s = Some (st1, n1, buf1, s1)"
      using run unfolding CoreLocateHandleBuffer_def by (auto simp: bind_eq_Some_conv)
    have k1: "ctx_step hinv s s1" by (rule CoreLocateHandle_ctx [OF A R s1])
    have f1: "\<not> held s1 gProtocolDatabaseLock" by (rule CoreLocateHandle_free [OF A R s1]) simp
    show ?thesis
    proof (cases "u = s1 \<and> a = 0")
      case True
      then show ?thesis using k1 by simp
    next
      case ne: False
      then obtain bs where bs: "n1 = Some bs"
        using run True s1 unfolding CoreLocateHandleBuffer_def by (auto simp: bind_eq_Some_conv split: if_splits)
      obtain m s2 where s2: "alloc E (unat bs) s1 = (m, s2)" by (rule prod.exhaust)
      have k2: "ctx_step hinv s1 s2" by (rule ctx_step_alloc [OF s2 f1])
      show ?thesis
      proof (cases "m = 0")
        case m0: True
        then have "u = s2 \<and> a = 0"
          using ne run True s1 s2 bs unfolding CoreLocateHandleBuffer_def
          by (auto simp: bind_eq_Some_conv Let_def split: if_splits)
        with k1 k2 show ?thesis by (auto intro: ctx_step_trans)
      next
        case False
        then obtain st3 n3 buf3 where s3: "CoreLocateHandle P R E ty g k (Some bs) True s2 = Some (st3, n3, buf3, u)"
          using ne run True s1 s2 bs unfolding CoreLocateHandleBuffer_def
          by (auto simp: bind_eq_Some_conv Let_def split: if_splits)
        show ?thesis
          using k1 k2 CoreLocateHandle_ctx [OF A R s3] CoreLocateHandle_free [OF A R s3]
          by (blast intro: ctx_step_trans)
      qed
    qed
  qed
  then show "ctx_step hinv s u" "a \<noteq> 0 \<Longrightarrow> \<not> held u gProtocolDatabaseLock" by blast+
qed

lemma best_match_loop_ctx:
  assumes A: "Asserts P" and R: "restore_ctx hinv R" and C: "connect_ok E"
  shows "best_match_loop P R E sp sz hs bm dv s = Some (bm', dv', u) \<Longrightarrow> ctx_step hinv s u"
proof (induction hs arbitrary: bm dv s)
  case (Cons h hs)
  obtain st out s1 where s1: "CoreHandleProtocol P R E h (Some gEfiDevicePathProtocolGuid) True s = Some (st, out, s1)"
    using Cons.prems by (auto simp: bind_eq_Some_conv)
  have "\<exists>bm dv. best_match_loop P R E sp sz hs bm dv s1 = Some (bm', dv', u)"
    using Cons.prems s1 by (auto simp: bind_eq_Some_conv Let_def split: if_splits)
  then show ?case
    using Cons.IH CoreHandleProtocol_ctx [OF A R C s1] by (blast intro: ctx_step_trans)
qed simp

lemma CoreLocateDevicePath_ctx:
  assumes A: "Asserts P" and R: "restore_ctx hinv R" and C: "connect_ok E"
    and run: "CoreLocateDevicePath P R E g dp b s = Some (st, dp', dh, u)"
  shows "ctx_step hinv s u"
proof (cases "\<exists>x y. g = Some x \<and> dp = Some y \<and> y \<noteq> 0 \<and> b")
  case False
  then show ?thesis using run unfolding CoreLocateDevicePath_def by (auto split: option.splits if_splits)
next
  case True
  then obtain x y where xy: "g = Some x" "dp = Some y" "y \<noteq> 0" "b" by blast
  obtain e st1 n a hs s1 where
    s1: "CoreLocateHandleBuffer P R E ByProtocolSearch (Some x) 0 True True s = Some (st1, n, a, hs, s1)"
    and e: "first_instance_end (Asserts P) (Mem E) y = Some e"
    using run xy unfolding CoreLocateDevicePath_def by (auto simp: bind_eq_Some_conv)
  have k1: "ctx_step hinv s s1" by (rule CoreLocateHandleBuffer_ctx(1) [OF A R s1])
  obtain v where v: "CoreAcquireProtocolLock P s = Some v"
    using s1 unfolding CoreLocateHandleBuffer_def CoreLocateHandle_def by (auto simp: bind_eq_Some_conv)
  have nh: "\<not> held s gProtocolDatabaseLock"
    using CoreAcquireLock_protocol(2) [OF v [unfolded protocol_lock_defs] A] by (simp add: held_def)
  have "u = s1 \<or> (\<exists>bm dv s2. best_match_loop P R E y (int e - int y) hs (-1) 0 s1 = Some (bm, dv, s2) \<and> u = free E a s2)"
    using run xy s1 e unfolding CoreLocateDevicePath_def
    by (auto simp: bind_eq_Some_conv Let_def split: if_splits)
  then show ?thesis
  proof
    assume "\<exists>bm dv s2. best_match_loop P R E y (int e - int y) hs (-1) 0 s1 = Some (bm, dv, s2) \<and> u = free E a s2"
    then obtain bm dv s2 where s2: "best_match_loop P R E y (int e - int y) hs (-1) 0 s1 = Some (bm, dv, s2)"
      "u = free E a s2" by blast
    have "ctx_step hinv s s2" using k1 best_match_loop_ctx [OF A R C s2(1)] by (rule ctx_step_trans)
    moreover from this nh have "\<not> held s2 gProtocolDatabaseLock" by (simp add: ctx_step_def held_def)
    ultimately show ?thesis using ctx_step_free s2(2) by (blast intro: ctx_step_trans)
  qed (use k1 in simp)
qed

lemma device_path_exists_ctx:
  assumes A: "Asserts P" and R: "restore_ctx hinv R" and C: "connect_ok E"
    and run: "device_path_exists P R E g i s = Some (b, u)"
  shows "ctx_step hinv s u"
  using run CoreLocateDevicePath_ctx [OF A R C] unfolding device_path_exists_def
  by (auto simp: bind_eq_Some_conv split: if_splits)

lemma ctx_step_free_lock: "ctx_step Q s u \<Longrightarrow> \<not> held s gProtocolDatabaseLock \<Longrightarrow> \<not> held u gProtocolDatabaseLock"
  by (simp add: ctx_step_def held_def)

lemma install_loop_ctx:
  assumes A: "Asserts P" and R: "restore_ctx hinv R" and C: "connect_ok E" and E: "pool_ok E"
  shows "install_loop P R E as k h s = Some (st, n, h', u) \<Longrightarrow> ctx_step hinv s u"
proof (induction as arbitrary: k h s)
  case (Cons a as)
  obtain b s1 where s1: "device_path_exists P R E (fst a) (snd a) s = Some (b, s1)"
    using Cons.prems by (auto simp: bind_eq_Some_conv)
  have k1: "ctx_step hinv s s1" by (rule device_path_exists_ctx [OF A R C s1])
  show ?case
  proof (cases b)
    case True
    then show ?thesis using Cons.prems s1 k1 by simp
  next
    case False
    then obtain st2 h2 s2 where
      s2: "CoreInstallProtocolInterface P R E (Some h) (Some (fst a)) EFI_NATIVE_INTERFACE (snd a) s1 = Some (st2, h2, s2)"
      and r: "u = s2 \<or> (\<exists>k h. install_loop P R E as k h s2 = Some (st, n, h', u))"
      using Cons.prems s1 by (auto simp: bind_eq_Some_conv Let_def split: if_splits; blast)
    have k2: "ctx_step hinv s s2"
      using k1 CoreInstallProtocolInterface_ctx [OF A R C E s2] by (rule ctx_step_trans)
    then show ?thesis
      using r Cons.IH by (blast intro: ctx_step_trans)
  qed
qed simp

lemma undo_install_loop_ctx:
  assumes A: "Asserts P" and R: "restore_ctx hinv R" and C: "connect_ok E"
  shows "undo_install_loop P R E h as s = Some u \<Longrightarrow> ctx_step hinv s u"
  by (induction as arbitrary: s) (auto simp: bind_eq_Some_conv
      dest!: CoreUninstallProtocolInterface_ctx [OF A R C] intro: ctx_step_trans)

lemma CoreInstallMultipleProtocolInterfaces_ctx:
  assumes A: "Asserts P" and R: "restore_ctx hinv R" and C: "connect_ok E" and E: "pool_ok E"
    and run: "CoreInstallMultipleProtocolInterfaces P R E hp as s = Some (st, h', u)"
  shows "ctx_step hinv s u"
proof (cases hp)
  case None
  then show ?thesis using run by (simp add: CoreInstallMultipleProtocolInterfaces_def)
next
  case (Some h)
  with run obtain old s1 st2 k h2 s2 s3 where s1: "CoreRaiseTpl P TPL_NOTIFY s = Some (old, s1)"
    and s2: "install_loop P R E as 0 h s1 = Some (st2, k, h2, s2)"
    and s3: "s3 = s2 \<or> undo_install_loop P R E h2 (take (k - 1) as) s2 = Some s3" and u: "R old s3 = Some u"
    unfolding CoreInstallMultipleProtocolInterfaces_def by (auto simp: bind_eq_Some_conv split: if_splits; blast)
  have "ctx_step hinv s s1" by (rule CoreRaiseTpl_ctx [OF s1])
  also have "ctx_step hinv s1 s2" by (rule install_loop_ctx [OF A R C E s2])
  also have "ctx_step hinv s2 s3" using s3 undo_install_loop_ctx [OF A R C] by auto
  also have "ctx_step hinv s3 u" using R u by (rule restore_ctxD)
  finally show ?thesis .
qed

subsection \<open>Queries\<close>

lemma protocols_section_hinv:
  "protocols_section E h s = Some (st, out, u) \<Longrightarrow> hinv (Ctx s) \<Longrightarrow> hinv (Ctx u)"
  unfolding protocols_section_def
  by (auto simp: Let_def bind_eq_Some_conv split_beta split: if_splits)

lemma CoreProtocolsPerHandle_ctx:
  assumes A: "Asserts P" and R: "restore_ctx hinv R"
    and run: "CoreProtocolsPerHandle P R E h b1 b2 s = Some (st, out, u)"
  shows "ctx_step hinv s u"
  using run unfolding CoreProtocolsPerHandle_def
  by (auto simp: bind_eq_Some_conv split: if_splits elim!: section_ctx [OF A R] protocols_section_hinv)

lemma connect_all_ctx:
  assumes C: "connect_ok E"
  shows "connect_all E hs s = Some u \<Longrightarrow> ctx_step hinv s u"
  by (induction hs arbitrary: s) (auto simp: bind_eq_Some_conv dest!: connect_okD [OF C] intro: ctx_step_trans)

lemma CoreConnectHandlesByKey_ctx:
  assumes A: "Asserts P" and R: "restore_ctx hinv R" and C: "connect_ok E"
    and run: "CoreConnectHandlesByKey P R E key s = Some u"
  shows "ctx_step hinv s u"
proof -
  obtain a hs m b c where a: "CoreAcquireProtocolLock P s = Some a" and b: "alloc E (length hs * sizeof_EFI_HANDLE) a = (m, b)"
    and c: "CoreReleaseProtocolLock P R b = Some c"
    and u: "u = c \<or> (\<exists>v. connect_all E hs c = Some v \<and> u = free E m v)"
    using run unfolding CoreConnectHandlesByKey_def
    by (auto simp: bind_eq_Some_conv Let_def split_beta split: if_splits) (metis prod.collapse)+
  have k: "ctx_step hinv s c" by (rule section_ctx [OF A R c a]) (simp add: alloc_hinv [OF b])
  have f: "\<not> held c gProtocolDatabaseLock"
    using CoreReleaseLock_protocol(1) [OF R c [unfolded protocol_lock_defs]] by (simp add: held_def)
  from u show ?thesis
  proof
    assume "\<exists>v. connect_all E hs c = Some v \<and> u = free E m v"
    then obtain v where v: "connect_all E hs c = Some v" "u = free E m v" by blast
    have "ctx_step hinv c v" by (rule connect_all_ctx [OF C v(1)])
    moreover from ctx_step_free_lock [OF this f] have "ctx_step hinv v u" using v(2) ctx_step_free by simp
    ultimately show ?thesis using k by (blast intro: ctx_step_trans)
  qed (use k in simp)
qed


end
