(* ===== verification/HandleSystem.thy ===== *)
theory HandleSystem
  imports HandleKeeps
begin

unbundle bit_operations_syntax

section \<open>Programs over the event and protocol services\<close>

text \<open>
  Drivers and applications as programs over the services of the event and the handle database together.
  Notification functions are such programs, and so is what connecting and disconnecting a controller
  makes drivers do; they may call every service again, to any depth of nesting. The depth is bounded by
  the argument \<open>n\<close>: a system that nests deeper than \<open>n\<close> does not return in the model. The reachable states of
  every such system satisfy the invariant of the handle database.
\<close>

subsection \<open>Programs\<close>

datatype call =
    EventCall service
  | Install EFI_HANDLE EFI_GUID ptr bool
  | InstallMultiple EFI_HANDLE "(EFI_GUID \<times> ptr) list"
  | Reinstall EFI_HANDLE EFI_GUID ptr ptr
  | Uninstall EFI_HANDLE EFI_GUID ptr
  | UninstallMultiple EFI_HANDLE "(EFI_GUID \<times> ptr) list"
  | OpenProtocol EFI_HANDLE EFI_GUID EFI_HANDLE EFI_HANDLE uint32
  | CloseProtocol EFI_HANDLE EFI_GUID EFI_HANDLE EFI_HANDLE
  | OpenProtocolInformation EFI_HANDLE EFI_GUID
  | ProtocolsPerHandle EFI_HANDLE
  | RegisterProtocolNotify EFI_GUID eid
  | LocateHandle int "EFI_GUID option" ptr uintn
  | LocateHandleBuffer int "EFI_GUID option" ptr
  | LocateProtocol EFI_GUID ptr
  | LocateDevicePath EFI_GUID nat
  | ConnectHandlesByKey uint64
  | CallsAtTpl EFI_TPL "call list"

text \<open>The surroundings of the event services: the same pool, and the search of this database.\<close>

definition event_env :: "'p henv \<Rightarrow> 'p hdb env" where
  "event_env E = \<lparr>AllocatePool = (\<lambda>s. fst (PoolAllocate E 152 s)), Unregister = unregister_notify E\<rparr>"

fun run_call :: "platform \<Rightarrow> 'p henv \<Rightarrow> 'p hdb restore \<Rightarrow> call \<Rightarrow> 'p hstate \<Rightarrow> 'p hstate option"
  and run_calls :: "platform \<Rightarrow> 'p henv \<Rightarrow> 'p hdb restore \<Rightarrow> call list \<Rightarrow> 'p hstate \<Rightarrow> 'p hstate option" where
  "run_call P E R (EventCall c) s = run_service P (event_env E) R c s"
| "run_call P E R (Install h g i nf) s = map_option (\<lambda>(_, _, s). s)
     (CoreInstallProtocolInterfaceNotify P R E (Some h) (Some g) EFI_NATIVE_INTERFACE i nf s)"
| "run_call P E R (InstallMultiple h args) s = map_option (\<lambda>(_, _, s). s)
     (CoreInstallMultipleProtocolInterfaces P R E (Some h) args s)"
| "run_call P E R (Reinstall h g i j) s = map_option snd (CoreReinstallProtocolInterface P R E h (Some g) i j s)"
| "run_call P E R (Uninstall h g i) s = map_option snd (CoreUninstallProtocolInterface P R E h (Some g) i s)"
| "run_call P E R (UninstallMultiple h args) s =
     map_option snd (CoreUninstallMultipleProtocolInterfaces P R E h args s)"
| "run_call P E R (OpenProtocol h g ih ch a) s = map_option (\<lambda>(_, _, s). s)
     (CoreOpenProtocol P R E h (Some g) True ih ch a s)"
| "run_call P E R (CloseProtocol h g ah ch) s = map_option snd (CoreCloseProtocol P R E h (Some g) ah ch s)"
| "run_call P E R (OpenProtocolInformation h g) s = map_option (\<lambda>(_, _, _, s). s)
     (CoreOpenProtocolInformation P R E h g s)"
| "run_call P E R (ProtocolsPerHandle h) s = map_option (\<lambda>(_, _, s). s)
     (CoreProtocolsPerHandle P R E h True True s)"
| "run_call P E R (RegisterProtocolNotify g e) s = map_option (\<lambda>(_, _, s). s)
     (CoreRegisterProtocolNotify P R E (Some g) e True s)"
| "run_call P E R (LocateHandle ty g k n) s = map_option (\<lambda>(_, _, _, s). s)
     (CoreLocateHandle P R E ty g k (Some n) True s)"
| "run_call P E R (LocateHandleBuffer ty g k) s = map_option (\<lambda>(_, _, _, _, s). s)
     (CoreLocateHandleBuffer P R E ty g k True True s)"
| "run_call P E R (LocateProtocol g k) s = map_option (\<lambda>(_, _, s). s)
     (CoreLocateProtocol P R E (Some g) k True s)"
| "run_call P E R (LocateDevicePath g d) s = map_option (\<lambda>(_, _, _, s). s)
     (CoreLocateDevicePath P R E (Some g) (Some d) True s)"
| "run_call P E R (ConnectHandlesByKey k) s = CoreConnectHandlesByKey P R E k s"
| "run_call P E R (CallsAtTpl t cs) s = do {
     (OldTpl, s) \<leftarrow> CoreRaiseTpl P t s;
     s \<leftarrow> run_calls P E R cs s;
     R OldTpl s
   }"
| "run_calls P E R [] s = Some s"
| "run_calls P E R (c # cs) s = do {
     s \<leftarrow> run_call P E R c s;
     run_calls P E R cs s
   }"

subsection \<open>Programs keep the invariant\<close>

lemma event_env_ctx: "unreg_ctx hinv (Unregister (event_env E))"
  by (auto simp: unreg_ctx_def event_env_def intro: hinv_unregister_notify)

lemma run_services_ctx_pointwise:
  assumes "\<And>c s u. c \<in> set cs \<Longrightarrow> run_service P V R c s = Some u \<Longrightarrow> ctx_step Q s u"
    and "run_services P V R cs s = Some u"
  shows "ctx_step Q s u"
  using assms
proof (induction cs arbitrary: s)
  case (Cons c cs)
  then obtain v where "run_service P V R c s = Some v" "run_services P V R cs v = Some u"
    by (auto simp: bind_eq_Some_conv)
  with Cons.IH Cons.prems(1) show ?case by (meson ctx_step_trans list.set_intros)
qed simp

lemma run_service_ctx:
  assumes A: "Asserts P" and R: "restore_ctx Q R" and U: "unreg_ctx Q (Unregister V)"
  shows "run_service P V R c s = Some u \<Longrightarrow> ctx_step Q s u"
proof (induction c arbitrary: s u)
  case (AtTpl t cs)
  then obtain old s1 s2 where s1: "CoreRaiseTpl P t s = Some (old, s1)"
    and s2: "run_services P V R cs s1 = Some s2" and u: "R old s2 = Some u"
    by (auto simp: bind_eq_Some_conv)
  have "ctx_step Q s s1" by (rule CoreRaiseTpl_ctx [OF s1])
  also have "ctx_step Q s1 s2" by (rule run_services_ctx_pointwise [OF AtTpl.IH s2])
  also have "ctx_step Q s2 u" using R u by (rule restore_ctxD)
  finally show ?case .
qed (use CoreSignalEvent_ctx [OF R] CoreCheckEvent_ctx [OF R] CoreWaitForEvent_ctx [OF R]
     CoreSetTimer_ctx [OF R] CoreCloseEvent_ctx [OF A R U] CoreTimerTick_ctx [OF R]
     CoreCreateEventEx_ctx [OF R] in auto)

lemma run_calls_pointwise:
  assumes "\<And>c s u. c \<in> set cs \<Longrightarrow> run_call P E R c s = Some u \<Longrightarrow> ctx_step Q s u"
    and "run_calls P E R cs s = Some u"
  shows "ctx_step Q s u"
  using assms
proof (induction cs arbitrary: s)
  case (Cons c cs)
  then obtain v where "run_call P E R c s = Some v" "run_calls P E R cs v = Some u"
    by (auto simp: bind_eq_Some_conv)
  with Cons.IH Cons.prems(1) show ?case by (meson ctx_step_trans list.set_intros)
qed simp

lemma run_call_ctx:
  assumes A: "Asserts P" and R: "restore_ctx hinv R" and C: "connect_ok E" and E: "pool_ok E"
  shows "run_call P E R c s = Some u \<Longrightarrow> ctx_step hinv s u"
proof (induction c arbitrary: s u)
  case (EventCall c)
  then show ?case using run_service_ctx [OF A R event_env_ctx] by simp
next
  case (CallsAtTpl t cs)
  then obtain old s1 s2 where s1: "CoreRaiseTpl P t s = Some (old, s1)"
    and s2: "run_calls P E R cs s1 = Some s2" and u: "R old s2 = Some u"
    by (auto simp: bind_eq_Some_conv)
  have "ctx_step hinv s s1" by (rule CoreRaiseTpl_ctx [OF s1])
  also have "ctx_step hinv s1 s2" by (rule run_calls_pointwise [OF CallsAtTpl.IH s2])
  also have "ctx_step hinv s2 u" using R u by (rule restore_ctxD)
  finally show ?case .
qed (use CoreInstallProtocolInterfaceNotify_ctx [OF A R C E] CoreInstallMultipleProtocolInterfaces_ctx [OF A R C E]
     CoreReinstallProtocolInterface_ctx [OF A R C] CoreUninstallProtocolInterface_ctx [OF A R C]
     CoreUninstallMultipleProtocolInterfaces_ctx [OF A R C E] CoreOpenProtocol_ctx [OF A R C]
     CoreCloseProtocol_ctx [OF A R] CoreOpenProtocolInformation_ctx [OF A R] CoreProtocolsPerHandle_ctx [OF A R]
     CoreRegisterProtocolNotify_ctx [OF A R E] CoreLocateHandle_ctx [OF A R]
     CoreLocateHandleBuffer_ctx(1) [OF A R] CoreLocateProtocol_ctx [OF A R] CoreLocateDevicePath_ctx [OF A R C]
     CoreConnectHandlesByKey_ctx [OF A R C] in auto)

lemma run_calls_ctx:
  assumes "Asserts P" "restore_ctx hinv R" "connect_ok E" "pool_ok E" "run_calls P E R cs s = Some u"
  shows "ctx_step hinv s u"
  using run_calls_pointwise [OF run_call_ctx [OF assms(1-4)] assms(5)] .

subsection \<open>Systems of drivers\<close>

text \<open>
  What the drivers of a system do: their notification functions, and what they do, with which result,
  when a controller is disconnected or connected.
\<close>

record 'p driver_programs =
  NotifyProgram :: "nat \<Rightarrow> call list"
  StopProgram :: "EFI_HANDLE \<Rightarrow> EFI_HANDLE \<Rightarrow> EFI_HANDLE \<Rightarrow> 'p hstate \<Rightarrow> EFI_STATUS \<times> call list"
  StartProgram :: "EFI_HANDLE \<Rightarrow> 'p hstate \<Rightarrow> EFI_STATUS \<times> call list"

definition notify_drivers :: "platform \<Rightarrow> 'p henv \<Rightarrow> 'p driver_programs \<Rightarrow> 'p hdb drivers" where
  "notify_drivers P E D = (\<lambda>k R e c. run_calls P E R (NotifyProgram D k))"

definition system_env_step ::
    "platform \<Rightarrow> 'p henv \<Rightarrow> 'p driver_programs \<Rightarrow> nat \<Rightarrow> 'p henv \<Rightarrow> 'p henv" where
  "system_env_step P B D n E =
     (let R = CoreRestoreTpl P (notify_drivers P E D) n in
      B\<lparr>DisconnectController := (\<lambda>h a c s. let (st, cs) = StopProgram D h a c s
          in map_option (Pair st) (run_calls P E R cs s)),
        ConnectController := (\<lambda>h s. let (st, cs) = StartProgram D h s
          in map_option (Pair st) (run_calls P E R cs s))\<rparr>)"

primrec system_env :: "platform \<Rightarrow> 'p henv \<Rightarrow> 'p driver_programs \<Rightarrow> nat \<Rightarrow> 'p henv" where
  "system_env P B D 0 = B\<lparr>DisconnectController := (\<lambda>_ _ _ _. None), ConnectController := (\<lambda>_ _. None)\<rparr>"
| "system_env P B D (Suc n) = system_env_step P B D n (system_env P B D n)"

definition system_restore_h :: "platform \<Rightarrow> 'p henv \<Rightarrow> 'p driver_programs \<Rightarrow> nat \<Rightarrow> 'p hdb restore" where
  "system_restore_h P B D n = CoreRestoreTpl P (notify_drivers P (system_env P B D n) D) n"

lemma notify_drivers_ctx:
  "Asserts P \<Longrightarrow> connect_ok E \<Longrightarrow> pool_ok E \<Longrightarrow> drivers_ctx hinv (notify_drivers P E D)"
  unfolding drivers_ctx_def notify_drivers_def by (blast intro: run_calls_ctx)

lemma system_env_ok:
  assumes A: "Asserts P" and B: "pool_ok B"
  shows "pool_ok (system_env P B D n) \<and> connect_ok (system_env P B D n)"
proof (induction n)
  case 0
  show ?case using B by (simp add: pool_ok_def connect_ok_def)
next
  case (Suc n)
  let ?E = "system_env P B D n"
  let ?R = "CoreRestoreTpl P (notify_drivers P ?E D) n"
  have R: "restore_ctx hinv ?R"
    using Suc by (intro CoreRestoreTpl_ctx notify_drivers_ctx) (simp_all add: A)
  have "connect_ok (system_env P B D (Suc n))"
    unfolding connect_ok_def using run_calls_ctx [OF A R] Suc
    by (auto simp: system_env_step_def Let_def split_beta)
  moreover have "pool_ok (system_env P B D (Suc n))"
    using B by (simp add: pool_ok_def system_env_step_def Let_def)
  ultimately show ?case by simp
qed

lemma system_restore_ctx:
  assumes "Asserts P" "pool_ok B"
  shows "restore_ctx hinv (system_restore_h P B D n)"
  unfolding system_restore_h_def using system_env_ok [OF assms]
  by (intro CoreRestoreTpl_ctx notify_drivers_ctx assms(1)) simp_all

subsection \<open>Reachable states\<close>

text \<open>The initial values of the global variables of the handle database.\<close>

definition empty_hdb :: "'p \<Rightarrow> 'p hdb" where
  "empty_hdb p = \<lparr>mProtocolDatabase = [], gHandleList = [], gHandleDatabaseKey = 0, mEfiLocateHandleRequest = 0,
     Handles = (\<lambda>_. None), Entries = (\<lambda>_. None), Interfaces = (\<lambda>_. None), Notifies = (\<lambda>_. None), Pool = p\<rparr>"

definition hboot :: "'p hstate \<Rightarrow> bool" where
  "hboot s \<longleftrightarrow> (\<exists>p. s = boot_state (empty_hdb p))"

inductive system_step ::
    "platform \<Rightarrow> 'p henv \<Rightarrow> 'p driver_programs \<Rightarrow> nat \<Rightarrow> 'p hstate \<Rightarrow> 'p hstate \<Rightarrow> bool"
  for P :: platform and B :: "'p henv" and D :: "'p driver_programs" and n :: nat where
  call: "run_call P (system_env P B D n) (system_restore_h P B D n) c s = Some t \<Longrightarrow> system_step P B D n s t"
| init: "CoreInitializeEventServices P (system_restore_h P B D n) pool s = Some (st, t) \<Longrightarrow> system_step P B D n s t"

inductive_cases system_stepE: "system_step P B D n s t"

lemma CoreInitializeEventServices_ctx:
  assumes R: "restore_ctx Q R" and run: "CoreInitializeEventServices P R pool s = Some (st, u)"
  shows "ctx_step Q s u"
proof -
  let ?f = "\<lambda>d. d\<lparr>gEventQueue := \<lambda>p. if p \<le> TPL_HIGH_LEVEL then [] else gEventQueue d p\<rparr>"
  obtain st1 r v where v: "CoreCreateEvent P R pool EVT_NOTIFY_SIGNAL (TPL_HIGH_LEVEL - 1)
       (Some CoreCheckTimers_fn) 0 True (upd_db ?f s) = Some (st1, r, v)"
    and u: "u = (case r of None \<Rightarrow> v | Some e \<Rightarrow> upd_db (\<lambda>d. d\<lparr>mEfiCheckTimerEvent := e\<rparr>) v)"
    using run unfolding CoreInitializeEventServices_def CoreInitializeTimer_def Let_def
    by (auto simp: bind_eq_Some_conv)
  have "ctx_step Q (upd_db ?f s) v" by (rule CoreCreateEventEx_ctx [OF R v [unfolded CoreCreateEvent_def]])
  then show ?thesis using u by (auto split: option.splits)
qed

lemma hinv_empty: "hinv (empty_hdb p)"
  by (simp add: hinv_defs empty_hdb_def)

interpretation hs: step_system hboot "system_step P B D n"
    "\<lambda>s. Asserts P \<longrightarrow> pool_ok B \<longrightarrow> hinv (Ctx s)" for P B D n
proof unfold_locales
  fix s :: "'p hstate" assume "hboot s"
  then show "Asserts P \<longrightarrow> pool_ok B \<longrightarrow> hinv (Ctx s)" by (auto simp: hboot_def boot_state_def hinv_empty)
next
  fix s t
  assume I: "Asserts P \<longrightarrow> pool_ok B \<longrightarrow> hinv (Ctx s)" and step: "system_step P B D n s t"
  show "Asserts P \<longrightarrow> pool_ok B \<longrightarrow> hinv (Ctx t)"
  proof (intro impI)
    assume A: "Asserts P" and B: "pool_ok B"
    from step have "ctx_step hinv s t"
    proof (rule system_stepE)
      fix c assume "run_call P (system_env P B D n) (system_restore_h P B D n) c s = Some t"
      then show ?thesis using run_call_ctx [OF A system_restore_ctx [OF A B]] system_env_ok [OF A B] by blast
    next
      fix pool st assume "CoreInitializeEventServices P (system_restore_h P B D n) pool s = Some (st, t)"
      then show ?thesis using CoreInitializeEventServices_ctx [OF system_restore_ctx [OF A B]] by blast
    qed
    with I A B show "hinv (Ctx t)" by (simp add: ctx_step_def)
  qed
qed

end
