(* ===== verification/HandleSpec.thy ===== *)
theory HandleSpec
  imports HandleSystem EventOrder
begin

unbundle bit_operations_syntax

section \<open>What the protocol services do\<close>

text \<open>
  The abstract view of the handle database is the relation of the installed interfaces: triples of a
  handle, the GUID of a protocol and an interface. A call at a level at or below \<open>TPL_NOTIFY\<close> with nothing
  pending above it (\<open>ready\<close>) takes the lock, works, and releases the lock without running a notification,
  so the lemmas can say what the services return and how they change the relation.
\<close>

subsection \<open>The installed interfaces\<close>

definition installed :: "'p hdb \<Rightarrow> (EFI_HANDLE \<times> EFI_GUID \<times> ptr) set" where
  "installed d = {(h, g, i). \<exists>p J Y. Interfaces d p = Some J \<and> Handle J = h \<and> Interface J = i \<and>
     Entries d (Protocol J) = Some Y \<and> ProtocolID Y = g}"

definition one_per_handle :: "'p hdb \<Rightarrow> bool" where
  "one_per_handle d \<longleftrightarrow> (\<forall>p q I J. Interfaces d p = Some I \<longrightarrow> Interfaces d q = Some J \<longrightarrow>
     Handle I = Handle J \<longrightarrow> Protocol I = Protocol J \<longrightarrow> p = q)"

lemma installed_same_links:
  assumes "same_links d d'" "\<And>p. map_option Interface (Interfaces d' p) = map_option Interface (Interfaces d p)"
  shows "installed d' = installed d"
proof -
  have one: "(h, g, i) \<in> installed d'" if L: "same_links d d'" "Entries d' = Entries d"
    "\<And>p. map_option Interface (Interfaces d' p) = map_option Interface (Interfaces d p)" "(h, g, i) \<in> installed d"
    for d d' :: "'a hdb" and h g i
  proof -
    obtain p J Y where J: "Interfaces d p = Some J" "Handle J = h" "Interface J = i" "Entries d (Protocol J) = Some Y"
      "ProtocolID Y = g" using L(4) unfolding installed_def by blast
    obtain K where K: "Interfaces d' p = Some K" "Handle K = h" "Protocol K = Protocol J"
      using same_linksD(2) [OF L(1), where P = "\<lambda>a b. a = h \<and> b = Protocol J"] J by blast
    moreover have "Interface K = i" using L(3) [of p] J K by simp
    moreover have "Entries d' (Protocol K) = Some Y" using J(4) K(3) L(2) by simp
    ultimately show ?thesis using J(5) unfolding installed_def by blast
  qed
  have "same_links d' d" "Entries d' = Entries d" using assms(1) by (simp_all add: same_links_def)
  then show ?thesis using one [of d d'] one [of d' d] assms by auto
qed

lemma one_per_handle_same_links:
  assumes "same_links d d'" "one_per_handle d"
  shows "one_per_handle d'"
  unfolding one_per_handle_def
proof (intro allI impI)
  fix p q I J
  assume "Interfaces d' p = Some I" "Interfaces d' q = Some J" "Handle I = Handle J" "Protocol I = Protocol J"
  then have "\<exists>K. Interfaces d p = Some K \<and> Handle K = Handle I \<and> Protocol K = Protocol I"
    "\<exists>K. Interfaces d q = Some K \<and> Handle K = Handle I \<and> Protocol K = Protocol I"
    using same_linksD(2) [OF assms(1), where P = "\<lambda>a b. a = Handle I \<and> b = Protocol I"] by fastforce+
  with assms(2) show "p = q" unfolding one_per_handle_def by metis
qed

subsection \<open>Calls that run no notification\<close>

definition ready :: "'p hstate \<Rightarrow> bool" where
  "ready s \<longleftrightarrow> dxe_inv s \<and> gEfiCurrentTpl s \<le> TPL_NOTIFY \<and> Lock (Locks s gProtocolDatabaseLock) = EfiLockReleased"

text \<open>\<open>after s d u\<close>: \<open>u\<close> is a state the caller finds like \<open>s\<close>, with the database \<open>d\<close>.\<close>

definition after :: "'p hstate \<Rightarrow> 'p hdb \<Rightarrow> 'p hstate \<Rightarrow> bool" where
  "after s d u \<longleftrightarrow> ready u \<and> Ctx u = d \<and> Db u = Db s \<and> gEfiCurrentTpl u = gEfiCurrentTpl s"

lemma after_ready: "after s d u \<Longrightarrow> ready u" "after s d u \<Longrightarrow> Ctx u = d"
  by (simp_all add: after_def)

lemma after_refl: "ready s \<Longrightarrow> after s (Ctx s) s"
  by (simp add: after_def)

lemma after_trans: "after s d t \<Longrightarrow> after t d' u \<Longrightarrow> after s d' u"
  by (simp add: after_def)

lemma after_upd_ctx: "after s d u \<Longrightarrow> after s (f d) (upd_ctx f u)"
  by (auto simp: after_def ready_def dxe_inv_def lock_inv_def held_def)

lemma CoreRestoreTpl_quiet:
  assumes "Asserts P" "pending_inv (Db s)" "quiet t (Db s)" "t \<le> gEfiCurrentTpl s" "t \<le> TPL_HIGH_LEVEL"
  shows "\<exists>u. CoreRestoreTpl P NC (Suc n) t s = Some u \<and> gEfiCurrentTpl u = t \<and> Db u = Db s \<and> Ctx u = Ctx s \<and>
    Locks u = Locks s"
proof -
  obtain u where u: "CoreRestoreTpl P NC (Suc n) t s = Some u"
    using CoreRestoreTpl_returns [OF assms(2-5)] by blast
  then obtain s1 s2 where s1: "s1 = s \<or> s1 = s\<lparr>gEfiCurrentTpl := TPL_HIGH_LEVEL\<rparr>"
    and w: "while_opt (\<lambda>s. restore_mask t AND gEventPending (Db s) \<noteq> 0) (restore_one P NC (CoreRestoreTpl P NC n)) s1 = Some s2"
    and u2: "gEfiCurrentTpl u = t" "Db u = Db s2" "Ctx u = Ctx s2" "Locks u = Locks s2"
    using RestoreTpl_body_run [OF u [simplified] assms(1)] by blast
  have "Db s1 = Db s" "Ctx s1 = Ctx s" "Locks s1 = Locks s" using s1 by auto
  moreover from this(1) have "restore_mask t AND gEventPending (Db s1) = 0"
    using restore_mask_quiet [OF assms(2)] assms(3) by simp
  then have "s2 = s1" using w by (subst (asm) while_opt.simps) simp
  ultimately show ?thesis using u u2 by auto
qed

lemma lock_section:
  assumes A: "Asserts P" and s: "ready s"
  shows "\<exists>a. CoreAcquireProtocolLock P s = Some a \<and> Ctx a = Ctx s \<and> held a gProtocolDatabaseLock \<and>
    (\<forall>d. \<exists>u. CoreReleaseProtocolLock P (CoreRestoreTpl P NC (Suc n)) (a\<lparr>Ctx := d\<rparr>) = Some u \<and> after s d u)"
proof -
  have I: "dxe_inv s" "gEfiCurrentTpl s \<le> lock_tpl gProtocolDatabaseLock"
    "Lock (Locks s gProtocolDatabaseLock) = EfiLockReleased" using s by (simp_all add: ready_def)
  obtain a where a: "CoreAcquireLock P gProtocolDatabaseLock s = Some a"
    using CoreAcquireLock_returns [OF I(3) dxe_invD(2) [OF I(1)] I(2)] by blast
  note l = CoreAcquireLock_locked [OF a A dxe_invD(2) [OF I(1)]]
  have "\<exists>u. CoreReleaseLock P (CoreRestoreTpl P NC (Suc n)) gProtocolDatabaseLock (a\<lparr>Ctx := d\<rparr>) = Some u \<and> after s d u" for d
  proof -
    let ?b = "a\<lparr>Ctx := d, Locks := (Locks a)(gProtocolDatabaseLock := (Locks a gProtocolDatabaseLock)\<lparr>Lock := EfiLockReleased\<rparr>)\<rparr>"
    have "\<exists>u. CoreRestoreTpl P NC (Suc n) (gEfiCurrentTpl s) ?b = Some u \<and> gEfiCurrentTpl u = gEfiCurrentTpl s \<and>
        Db u = Db ?b \<and> Ctx u = Ctx ?b \<and> Locks u = Locks ?b"
      by (rule CoreRestoreTpl_quiet [OF A])
        (use I(1) l in \<open>auto simp: dxe_inv_def db_inv_def lock_inv_def locked_def\<close>)
    then obtain u where u: "CoreRestoreTpl P NC (Suc n) (gEfiCurrentTpl s) ?b = Some u"
      "gEfiCurrentTpl u = gEfiCurrentTpl s" "Db u = Db s" "Ctx u = d" "Locks u = Locks ?b" using l(2) by auto
    have "CoreReleaseLock P (CoreRestoreTpl P NC (Suc n)) gProtocolDatabaseLock (a\<lparr>Ctx := d\<rparr>) = Some u"
      using u(1) l(1) by (simp add: CoreReleaseLock_def Let_def locked_def held_def)
    moreover have "after s d u"
      using u(2-5) l(1) s unfolding after_def ready_def dxe_inv_def lock_inv_def locked_def held_def by auto
    ultimately show ?thesis by blast
  qed
  with a l show ?thesis unfolding protocol_lock_defs by (auto simp: locked_def)
qed

subsection \<open>Lookups\<close>

lemma find_entry_total: "\<forall>e \<in> set l. es e \<noteq> None \<Longrightarrow> \<exists>e. find_entry es g l = Some e"
  by (induction l) auto

text \<open>The entry of a GUID, 0 if there is none.\<close>

lemma entry_lookup:
  assumes I: "hinv_but X d"
  shows "\<exists>e. find_entry (Entries d) g (mProtocolDatabase d) = Some e \<and>
    (if e = 0 then \<forall>a Y. Entries d a = Some Y \<longrightarrow> ProtocolID Y \<noteq> g
     else \<exists>Y. Entries d e = Some Y \<and> ProtocolID Y = g)"
proof -
  obtain e where e: "find_entry (Entries d) g (mProtocolDatabase d) = Some e"
    using find_entry_total [of "mProtocolDatabase d" "Entries d" g] hinv_listsD(4) [OF I] by auto
  have "\<forall>a Y. Entries d a = Some Y \<longrightarrow> ProtocolID Y \<noteq> g" if "e = 0"
    using find_entry_Some(2) [OF e that] hinv_listsD(4,6) [OF I] by force
  with e find_entry_Some(1) [OF e] show ?thesis by auto
qed

lemma find_guid_total:
  assumes "\<forall>p \<in> set l. \<exists>J Y. Interfaces d p = Some J \<and> Entries d (Protocol J) = Some Y"
  shows "\<exists>p. find_guid d g l = Some p \<and> (p = 0 \<longrightarrow> 0 \<notin> set l \<longrightarrow>
    (\<forall>q \<in> set l. \<exists>J Y. Interfaces d q = Some J \<and> Entries d (Protocol J) = Some Y \<and> ProtocolID Y \<noteq> g))"
  using assms by (induction l) (auto split: if_splits)

text \<open>The interface of a handle with a GUID, 0 if there is none.\<close>

lemma interface_lookup:
  assumes I: "hinv d" and H: "Handles d h = Some H"
  shows "\<exists>p. CoreGetProtocolInterface h g d = Some p \<and>
    (if p = 0 then \<forall>i. (h, g, i) \<notin> installed d
     else \<exists>J Y. Interfaces d p = Some J \<and> Handle J = h \<and> Entries d (Protocol J) = Some Y \<and> ProtocolID Y = g)"
proof -
  have h0: "h \<noteq> 0" by (rule hinv_handleD(1) [OF I H])
  have all: "\<forall>p \<in> set (Protocols H). \<exists>J Y. Interfaces d p = Some J \<and> Entries d (Protocol J) = Some Y"
    using hinv_handleD(4) [OF I H] hinv_interfaceD(3) [OF I] by blast
  obtain p where p: "find_guid d g (Protocols H) = Some p" and z: "p = 0 \<longrightarrow> 0 \<notin> set (Protocols H) \<longrightarrow>
    (\<forall>q \<in> set (Protocols H). \<exists>J Y. Interfaces d q = Some J \<and> Entries d (Protocol J) = Some Y \<and> ProtocolID Y \<noteq> g)"
    using find_guid_total [OF all] by blast
  have get: "CoreGetProtocolInterface h g d = Some p"
    using p H h0 by (simp add: CoreGetProtocolInterface_def CoreValidateHandle_def)
  have "0 \<notin> set (Protocols H)" using hinv_handleD(4) [OF I H, of 0] hinv_listsD(7) [OF I] by simp
  with z have no: "\<forall>q \<in> set (Protocols H). \<exists>J Y. Interfaces d q = Some J \<and> Entries d (Protocol J) = Some Y \<and>
      ProtocolID Y \<noteq> g" if "p = 0" using that by blast
  have "(h, g, i) \<notin> installed d" if "p = 0" for i
  proof
    assume "(h, g, i) \<in> installed d"
    then obtain q J Y where q: "Interfaces d q = Some J" "Handle J = h" "Entries d (Protocol J) = Some Y" "ProtocolID Y = g"
      unfolding installed_def by blast
    then have "q \<in> set (Protocols H)" using hinv_handleD(4) [OF I H] by blast
    with no [OF that] q show False by fastforce
  qed
  with get CoreGetProtocolInterface_run [OF I get] show ?thesis by auto
qed

lemma find_interface_total:
  assumes "\<forall>p \<in> set l. is p \<noteq> None"
  shows "\<exists>p. find_interface is e i l = Some p \<and> (p = 0 \<longrightarrow> 0 \<notin> set l \<longrightarrow>
    (\<forall>q \<in> set l. \<exists>J. is q = Some J \<and> \<not> (Interface J = i \<and> Protocol J = e)))"
  using assms by (induction l) (auto split: if_splits)

text \<open>The interface of a handle with a GUID and an interface pointer, 0 if there is none.\<close>

lemma triple_lookup:
  assumes I: "hinv_but X (Ctx s)" and H: "Handles (Ctx s) h = Some H" and l: "held s gProtocolDatabaseLock"
  shows "\<exists>p. CoreFindProtocolInterface P h g i s = Some p \<and>
    (if p = 0 then (h, g, i) \<notin> installed (Ctx s)
     else \<exists>J Y. Interfaces (Ctx s) p = Some J \<and> Handle J = h \<and> Interface J = i \<and>
       Entries (Ctx s) (Protocol J) = Some Y \<and> ProtocolID Y = g)"
proof -
  let ?d = "Ctx s"
  obtain e where e: "find_entry (Entries ?d) g (mProtocolDatabase ?d) = Some e"
    and e': "if e = 0 then \<forall>a Y. Entries ?d a = Some Y \<longrightarrow> ProtocolID Y \<noteq> g
      else \<exists>Y. Entries ?d e = Some Y \<and> ProtocolID Y = g" using entry_lookup [OF I] by blast
  show ?thesis
  proof (cases "e = 0")
    case True
    then have "CoreFindProtocolInterface P h g i s = Some 0"
      using e l by (simp add: CoreFindProtocolInterface_def held_def)
    moreover have "(h, g, i) \<notin> installed ?d" using True e' by (auto simp: installed_def)
    ultimately show ?thesis by auto
  next
    case False
    then obtain Y where Y: "Entries ?d e = Some Y" "ProtocolID Y = g" using e' by auto
    have "\<forall>p \<in> set (Protocols H). Interfaces ?d p \<noteq> None" using hinv_handleD(4) [OF I H] by auto
    then obtain p where p: "find_interface (Interfaces ?d) e i (Protocols H) = Some p"
      and z: "p = 0 \<longrightarrow> 0 \<notin> set (Protocols H) \<longrightarrow>
        (\<forall>q \<in> set (Protocols H). \<exists>J. Interfaces ?d q = Some J \<and> \<not> (Interface J = i \<and> Protocol J = e))"
      using find_interface_total by blast
    have get: "CoreFindProtocolInterface P h g i s = Some p"
      using e False H p l by (simp add: CoreFindProtocolInterface_def held_def)
    have "0 \<notin> set (Protocols H)" using hinv_handleD(4) [OF I H, of 0] hinv_listsD(7) [OF I] by simp
    with z have no: "\<forall>q \<in> set (Protocols H). \<exists>J. Interfaces ?d q = Some J \<and> \<not> (Interface J = i \<and> Protocol J = e)"
      if "p = 0" using that by blast
    have "(h, g, i) \<notin> installed ?d" if "p = 0"
    proof
      assume "(h, g, i) \<in> installed ?d"
      then obtain q J Z where q: "Interfaces ?d q = Some J" "Handle J = h" "Interface J = i"
        "Entries ?d (Protocol J) = Some Z" "ProtocolID Z = g" unfolding installed_def by blast
      then have "q \<in> set (Protocols H)" using hinv_handleD(4) [OF I H] by blast
      moreover have "Protocol J = e" using hinv_entryD(6) [OF I Y(1) q(4)] q(5) Y(2) by simp
      ultimately show False using no [OF that] q by fastforce
    qed
    with get CoreFindProtocolInterface_run [OF I get] show ?thesis by auto
  qed
qed

subsection \<open>Opening a protocol\<close>

text \<open>Databases that differ only in the open records of their interfaces and in the pool.\<close>

definition same_but_open :: "'p hdb \<Rightarrow> 'p hdb \<Rightarrow> bool" where
  "same_but_open d d' \<longleftrightarrow> same_links d d' \<and> Handles d' = Handles d \<and>
     gHandleDatabaseKey d' = gHandleDatabaseKey d \<and> mEfiLocateHandleRequest d' = mEfiLocateHandleRequest d \<and>
     (\<forall>p. map_option Interface (Interfaces d' p) = map_option Interface (Interfaces d p))"

lemma same_but_open_installed: "same_but_open d d' \<Longrightarrow> installed d' = installed d"
  by (rule installed_same_links) (simp_all add: same_but_open_def)

lemma same_but_open_Pool [simp]: "same_but_open d (d\<lparr>Pool := p\<rparr>)" "same_but_open d d"
  by (simp_all add: same_but_open_def same_links_def)

lemma same_but_open_trans: "same_but_open a b \<Longrightarrow> same_but_open b c \<Longrightarrow> same_but_open a c"
  by (simp add: same_but_open_def same_links_def)

lemma same_but_open_upd:
  assumes "\<And>J. Interfaces d p = Some J \<Longrightarrow> Handle (f J) = Handle J \<and> Protocol (f J) = Protocol J \<and> Interface (f J) = Interface J"
  shows "same_but_open d (upd_interface p f d)"
  using assms by (cases "Interfaces d p") (auto simp: same_but_open_def same_links_def upd_interface_def)

lemma alloc_ctx: "alloc E n s = (a, u) \<Longrightarrow> u = s\<lparr>Ctx := (Ctx s)\<lparr>Pool := snd (PoolAllocate E n s)\<rparr>\<rparr>"
  by (auto simp: alloc_def upd_ctx_def split: prod.splits)

lemma add_open_record_effect:
  assumes run: "add_open_record E p ih ch a s = (st, u)"
  shows "\<exists>d. u = s\<lparr>Ctx := d\<rparr> \<and> same_but_open (Ctx s) d \<and> (st = EFI_SUCCESS \<or> st = EFI_OUT_OF_RESOURCES) \<and>
    (ih \<noteq> 0 \<and> st = EFI_SUCCESS \<longrightarrow> (\<forall>J. Interfaces (Ctx s) p = Some J \<longrightarrow> (\<exists>od. Interfaces d p = Some (J
       \<lparr>OpenList := OpenList J @ [\<lparr>OpenAddress = od, AgentHandle = ih, ControllerHandle = ch,
          Attributes = a, OpenCount = 1\<rparr>], OpenListCount := OpenListCount J + 1\<rparr>))))"
proof (cases "ih = 0")
  case True
  then show ?thesis using run by (intro exI [of _ "Ctx s"]) (auto simp: add_open_record_def)
next
  case False
  obtain b v where v: "alloc E sizeof_OPEN_PROTOCOL_DATA s = (b, v)" by (rule prod.exhaust)
  let ?v = "(Ctx s)\<lparr>Pool := snd (PoolAllocate E sizeof_OPEN_PROTOCOL_DATA s)\<rparr>"
  have cv: "v = s\<lparr>Ctx := ?v\<rparr>" by (rule alloc_ctx [OF v])
  let ?f = "\<lambda>J. J\<lparr>OpenList := OpenList J @ [\<lparr>OpenAddress = b, AgentHandle = ih, ControllerHandle = ch,
          Attributes = a, OpenCount = 1\<rparr>], OpenListCount := OpenListCount J + 1\<rparr>"
  have "same_but_open (Ctx s) (upd_interface p ?f ?v)"
    by (rule same_but_open_trans [OF same_but_open_Pool(1) same_but_open_upd]) simp
  moreover have "u = (if b = 0 then v else s\<lparr>Ctx := upd_interface p ?f ?v\<rparr>)"
    "st = (if b = 0 then EFI_OUT_OF_RESOURCES else EFI_SUCCESS)"
    using run v cv False unfolding add_open_record_def by (auto simp: upd_ctx_def)
  ultimately show ?thesis
    using cv by (cases "b = 0"; intro exI [of _ "if b = 0 then ?v else upd_interface p ?f ?v"])
      (auto simp: upd_interface_def)
qed

lemma scan_not_started:
  assumes "a AND EFI_OPEN_PROTOCOL_BY_DRIVER = 0"
  shows "scan_open_list ih ch a b x l \<noteq> ScanStarted"
  using assms by (induction l arbitrary: b x) (auto simp: by_driver_def Let_def split: open_scan.splits)

text \<open>An open that has no driver to disconnect changes only open records.\<close>

lemma open_section_shared:
  assumes I: "hinv (Ctx s)" and H: "Handles (Ctx s) h = Some H"
    and a: "a AND EFI_OPEN_PROTOCOL_BY_DRIVER = 0" "a AND EFI_OPEN_PROTOCOL_EXCLUSIVE = 0"
  shows "\<exists>st i d. open_section P R E h g ih ch a s = Some (st, i, s\<lparr>Ctx := d\<rparr>) \<and> same_but_open (Ctx s) d \<and> hinv d \<and>
    (if \<forall>i. (h, g, i) \<notin> installed (Ctx s) then st = EFI_UNSUPPORTED \<and> i = 0 \<and> d = Ctx s
     else (h, g, i) \<in> installed (Ctx s) \<and> (st = EFI_SUCCESS \<or> st = EFI_OUT_OF_RESOURCES))"
proof -
  obtain p where p: "CoreGetProtocolInterface h g (Ctx s) = Some p" and
    pi: "if p = 0 then \<forall>i. (h, g, i) \<notin> installed (Ctx s)
     else \<exists>J Y. Interfaces (Ctx s) p = Some J \<and> Handle J = h \<and> Entries (Ctx s) (Protocol J) = Some Y \<and> ProtocolID Y = g"
    using interface_lookup [OF I H] by blast
  show ?thesis
  proof (cases "p = 0")
    case True
    then show ?thesis using p pi I unfolding open_section_def
      by (intro exI [of _ EFI_UNSUPPORTED] exI [of _ 0] exI [of _ "Ctx s"]) simp
  next
    case False
    then obtain J Y where J: "Interfaces (Ctx s) p = Some J" "Handle J = h" "Entries (Ctx s) (Protocol J) = Some Y"
      "ProtocolID Y = g" using pi by auto
    then have inst: "(h, g, Interface J) \<in> installed (Ctx s)" unfolding installed_def by blast
    have ne: "a \<noteq> EFI_OPEN_PROTOCOL_BY_DRIVER" "a \<noteq> EFI_OPEN_PROTOCOL_BY_DRIVER OR EFI_OPEN_PROTOCOL_EXCLUSIVE"
      "a \<noteq> EFI_OPEN_PROTOCOL_EXCLUSIVE" using a by auto
    show ?thesis
    proof (cases "scan_open_list ih ch a False False (OpenList J)")
      case ScanStarted
      then show ?thesis using scan_not_started [OF a(1)] by blast
    next
      case (ScanCount l)
      have "same_but_open (Ctx s) (upd_interface p (OpenList_update (\<lambda>_. l)) (Ctx s))"
        by (rule same_but_open_upd) simp
      moreover have "hinv (upd_interface p (OpenList_update (\<lambda>_. l)) (Ctx s))"
        by (rule hinv_upd_interface [OF I])
          (use J(1) scan_count_length [OF ScanCount] by_driver_count [of l "OpenList J"] in \<open>simp add: open_list_ok_def\<close>)
      ultimately show ?thesis
        using p False J(1) ScanCount inst unfolding open_section_def
        by (intro exI [of _ EFI_SUCCESS] exI [of _ "Interface J"] exI [of _ "upd_interface p (OpenList_update (\<lambda>_. l)) (Ctx s)"])
          (auto simp: upd_ctx_def Let_def)
    next
      case (ScanEnd bd ex)
      obtain st u where u: "add_open_record E p ih ch a s = (st, u)" by (rule prod.exhaust)
      obtain d where d: "u = s\<lparr>Ctx := d\<rparr>" "same_but_open (Ctx s) d" "st = EFI_SUCCESS \<or> st = EFI_OUT_OF_RESOURCES"
        using add_open_record_effect [OF u] by blast
      moreover have "hinv d" using add_open_record_hinv [OF u I _ J(1)] a(1) d(1) by simp
      ultimately show ?thesis
        using p False J(1) ScanEnd inst ne u unfolding open_section_def
        by (intro exI [of _ st] exI [of _ "Interface J"] exI [of _ d]) (auto simp: Let_def)
    qed
  qed
qed

lemma CoreHandleProtocol_ready:
  assumes A: "Asserts P" and s: "ready s" and I: "hinv (Ctx s)" and H: "Handles (Ctx s) h = Some H"
  shows "\<exists>st i d u. CoreHandleProtocol P (CoreRestoreTpl P NC (Suc n)) E h (Some g) True s = Some (st, Some i, u) \<and>
    after s d u \<and> same_but_open (Ctx s) d \<and> hinv d \<and>
    (if \<forall>i. (h, g, i) \<notin> installed (Ctx s) then st = EFI_UNSUPPORTED \<and> i = 0 \<and> d = Ctx s
     else (h, g, i) \<in> installed (Ctx s) \<and> (st = EFI_SUCCESS \<or> st = EFI_OUT_OF_RESOURCES))"
proof -
  let ?R = "CoreRestoreTpl P NC (Suc n)"
  obtain a where a: "CoreAcquireProtocolLock P s = Some a" "Ctx a = Ctx s"
    and rel: "\<And>d. \<exists>u. CoreReleaseProtocolLock P ?R (a\<lparr>Ctx := d\<rparr>) = Some u \<and> after s d u"
    using lock_section [OF A s] by blast
  obtain st i d where sec: "open_section P ?R E h g (gDxeCoreImageHandle E) 0 EFI_OPEN_PROTOCOL_BY_HANDLE_PROTOCOL a =
      Some (st, i, a\<lparr>Ctx := d\<rparr>)" "same_but_open (Ctx s) d" "hinv d"
    "if \<forall>i. (h, g, i) \<notin> installed (Ctx s) then st = EFI_UNSUPPORTED \<and> i = 0 \<and> d = Ctx s
     else (h, g, i) \<in> installed (Ctx s) \<and> (st = EFI_SUCCESS \<or> st = EFI_OUT_OF_RESOURCES)"
    using open_section_shared [of a h H EFI_OPEN_PROTOCOL_BY_HANDLE_PROTOCOL P ?R E g "gDxeCoreImageHandle E" 0] I H
    unfolding a(2) by auto
  obtain u where u: "CoreReleaseProtocolLock P ?R (a\<lparr>Ctx := d\<rparr>) = Some u" "after s d u" using rel by blast
  have "CoreValidateHandle h (Ctx s) = EFI_SUCCESS"
    using H hinv_handleD(1) [OF I H] by (simp add: CoreValidateHandle_def)
  then have "CoreHandleProtocol P ?R E h (Some g) True s = Some (st, Some i, u)"
    using a sec(1) u(1) by (simp add: CoreHandleProtocol_def CoreOpenProtocol_def check_open_attributes_def Let_def)
  with u(2) sec(2-4) show ?thesis by blast
qed

subsection \<open>Installing an interface\<close>

definition no_records :: "EFI_GUID \<Rightarrow> 'p hdb \<Rightarrow> bool" where
  "no_records g d \<longleftrightarrow> (\<forall>e Y. Entries d e = Some Y \<longrightarrow> ProtocolID Y = g \<longrightarrow> Notify Y = [])"

definition pool_works :: "'p henv \<Rightarrow> bool" where
  "pool_works E \<longleftrightarrow> pool_ok E \<and> (\<forall>n s. fst (PoolAllocate E n s) \<noteq> 0)"

lemma installed_new_entry:
  assumes I: "hinv d" and e: "Entries d e = None"
  shows "installed (new_entry e g d) = installed d"
proof -
  have "Protocol J \<noteq> e" if "Interfaces d p = Some J" for p J using hinv_interfaceD(3) [OF I that] e by auto
  then show ?thesis unfolding installed_def new_entry_def by fastforce
qed

lemma find_or_create_entry:
  assumes I: "hinv (Ctx s)" and E: "pool_works E" and l: "held s gProtocolDatabaseLock"
  shows "\<exists>e Y d. CoreFindProtocolEntry P E g True s = Some (e, s\<lparr>Ctx := d\<rparr>) \<and> e \<noteq> 0 \<and> hinv d \<and>
    Entries d e = Some Y \<and> ProtocolID Y = g \<and> Interfaces d = Interfaces (Ctx s) \<and> Handles d = Handles (Ctx s) \<and>
    installed d = installed (Ctx s) \<and> (no_records g (Ctx s) \<longrightarrow> Notify Y = [])"
proof -
  let ?d = "Ctx s"
  obtain e where e: "find_entry (Entries ?d) g (mProtocolDatabase ?d) = Some e"
    and e': "if e = 0 then \<forall>a Y. Entries ?d a = Some Y \<longrightarrow> ProtocolID Y \<noteq> g
      else \<exists>Y. Entries ?d e = Some Y \<and> ProtocolID Y = g" using entry_lookup [OF I] by blast
  show ?thesis
  proof (cases "e = 0")
    case False
    then obtain Y where Y: "Entries ?d e = Some Y" "ProtocolID Y = g" using e' by auto
    have "CoreFindProtocolEntry P E g True s = Some (e, s\<lparr>Ctx := ?d\<rparr>)"
      using e l False by (simp add: CoreFindProtocolEntry_def held_def)
    with Y False I show ?thesis unfolding no_records_def by blast
  next
    case True
    obtain a v where v: "alloc E sizeof_PROTOCOL_ENTRY s = (a, v)" by (rule prod.exhaust)
    let ?p = "?d\<lparr>Pool := snd (PoolAllocate E sizeof_PROTOCOL_ENTRY s)\<rparr>"
    have cv: "v = s\<lparr>Ctx := ?p\<rparr>" by (rule alloc_ctx [OF v])
    have a0: "a \<noteq> 0" using E alloc_run(1) [OF v] by (simp add: pool_works_def)
    have un: "unused a (Ctx v)" using alloc_unused [OF _ I v a0] E by (simp add: pool_works_def)
    have run: "CoreFindProtocolEntry P E g True s = Some (a, s\<lparr>Ctx := new_entry a g ?p\<rparr>)"
      using e l True v cv a0 by (simp add: CoreFindProtocolEntry_def held_def upd_ctx_def)
    have "hinv (new_entry a g ?p)"
      by (rule hinv_new_entry) (use I a0 un cv e' True in \<open>simp_all add: unused_def\<close>)
    moreover have "installed (new_entry a g ?p) = installed ?d"
      using installed_new_entry [of ?p a g] I un cv by (simp add: unused_def) (simp add: installed_def)
    ultimately show ?thesis using run a0
      by (intro exI [of _ a] exI [of _ "\<lparr>ProtocolID = g, ByProtocol = [], Notify = []\<rparr>"] exI [of _ "new_entry a g ?p"])
        (simp add: new_entry_def)
  qed
qed

lemma installed_link_interface:
  assumes p: "Interfaces d p = None" and H: "Handles d h = Some H" and Y: "Entries d e = Some Y"
  shows "installed (link_interface p h e i d) = insert (h, ProtocolID Y, i) (installed d)"
proof -
  let ?d = "link_interface p h e i d"
  have eq: "Interfaces ?d = (Interfaces d)(p \<mapsto>
      \<lparr>Handle = h, Protocol = e, Interface = i, OpenList = [], OpenListCount = 0\<rparr>)"
    by (simp add: link_interface_def)
  have ent: "(\<exists>Z. Entries ?d a = Some Z \<and> ProtocolID Z = g) \<longleftrightarrow> (\<exists>Z. Entries d a = Some Z \<and> ProtocolID Z = g)" for a g
    by (cases "Entries d a") (auto simp: link_interface_def upd_entry_def upd_handle_def)
  have iff: "(k, g, j) \<in> installed x \<longleftrightarrow> (\<exists>q J. Interfaces x q = Some J \<and> Handle J = k \<and> Interface J = j \<and>
      (\<exists>Z. Entries x (Protocol J) = Some Z \<and> ProtocolID Z = g))" for k g j and x :: "'a hdb"
    by (auto simp: installed_def)
  have "(k, g, j) \<in> installed ?d \<longleftrightarrow> (k, g, j) \<in> insert (h, ProtocolID Y, i) (installed d)" for k g j
    unfolding iff [of k g j ?d] ent eq using iff [of k g j d] p Y by (auto split: if_splits) (metis option.distinct(1))+
  then show ?thesis by auto
qed

lemma one_per_handle_link:
  assumes U: "one_per_handle d" and Y: "Entries d e = Some Y" and no: "\<forall>j. (h, ProtocolID Y, j) \<notin> installed d"
  shows "one_per_handle (link_interface p h e i d)"
proof -
  have "\<not> (Handle J = h \<and> Protocol J = e)" if "Interfaces d q = Some J" for q J
    using no Y that unfolding installed_def by blast
  then show ?thesis
    using U unfolding one_per_handle_def by (auto simp: link_interface_def split: if_splits)
qed

lemma install_section_ready:
  assumes I: "hinv (Ctx s)" and E: "pool_works E" and l: "held s gProtocolDatabaseLock"
    and h: "h \<noteq> 0 \<longrightarrow> Handles (Ctx s) h \<noteq> None" and no: "\<forall>j. (h, g, j) \<notin> installed (Ctx s)"
    and nf: "nf \<longrightarrow> no_records g (Ctx s)"
  shows "\<exists>k p d. install_section P R E h g i nf st0 s = Some (EFI_SUCCESS, k, p, s\<lparr>Ctx := d\<rparr>) \<and> hinv d \<and>
    installed d = insert (k, g, i) (installed (Ctx s)) \<and> (one_per_handle (Ctx s) \<longrightarrow> one_per_handle d) \<and>
    (if h = 0 then Handles (Ctx s) k = None else k = h) \<and> Handles d k \<noteq> None"
proof -
  obtain e Y d1 where e: "CoreFindProtocolEntry P E g True s = Some (e, s\<lparr>Ctx := d1\<rparr>)" "e \<noteq> 0" and I1: "hinv d1"
    and Y: "Entries d1 e = Some Y" "ProtocolID Y = g" and d1: "Interfaces d1 = Interfaces (Ctx s)"
      "Handles d1 = Handles (Ctx s)" "installed d1 = installed (Ctx s)" "no_records g (Ctx s) \<longrightarrow> Notify Y = []"
    using find_or_create_entry [OF I E l] by blast
  let ?s1 = "s\<lparr>Ctx := d1\<rparr>"
  obtain p s2 where p: "alloc E sizeof_PROTOCOL_INTERFACE ?s1 = (p, s2)" by (rule prod.exhaust)
  define d2 where "d2 = d1\<lparr>Pool := snd (PoolAllocate E sizeof_PROTOCOL_INTERFACE ?s1)\<rparr>"
  have s2: "s2 = s\<lparr>Ctx := d2\<rparr>" using alloc_ctx [OF p] by (simp add: d2_def)
  have p0: "p \<noteq> 0" using E alloc_run(1) [OF p] by (simp add: pool_works_def)
  have un: "unused p d2" using alloc_unused [OF _ _ p p0] I1 E s2 by (simp add: pool_works_def)
  have d2: "Interfaces d2 = Interfaces (Ctx s)" "Handles d2 = Handles (Ctx s)" "installed d2 = installed (Ctx s)"
    "Entries d2 e = Some Y" "hinv d2" "Notify Y = [] \<or> \<not> nf"
    using d1 Y(1) I1 nf by (auto simp: d2_def installed_def)
  obtain k d3 where k: "(if h = 0 then let (h, s) = alloc E sizeof_IHANDLE s2
      in (h, if h \<noteq> 0 then upd_ctx (new_handle h) s else s) else (h, s2)) = (k, s\<lparr>Ctx := d3\<rparr>)" "k \<noteq> 0"
    and d3: "hinv_but {k} d3" "Handles d3 k \<noteq> None" "Interfaces d3 = Interfaces (Ctx s)" "Entries d3 e = Some Y"
      "installed d3 = installed (Ctx s)" "if h = 0 then Handles (Ctx s) k = None else k = h" "h \<noteq> 0 \<longrightarrow> hinv d3"
  proof (cases "h = 0")
    case True
    obtain k s3 where k: "alloc E sizeof_IHANDLE s2 = (k, s3)" by (rule prod.exhaust)
    define q where "q = d2\<lparr>Pool := snd (PoolAllocate E sizeof_IHANDLE s2)\<rparr>"
    have s3: "s3 = s\<lparr>Ctx := q\<rparr>" using alloc_ctx [OF k] s2 by (simp add: q_def)
    have k0: "k \<noteq> 0" using E alloc_run(1) [OF k] by (simp add: pool_works_def)
    have uk: "unused k q" using alloc_unused [OF _ _ k k0] d2(5) E s2 s3 by (simp add: pool_works_def)
    have "hinv_but {k} (new_handle k q)"
      by (rule hinv_new_handle) (use d2(5) k0 uk in \<open>simp_all add: q_def unused_def\<close>)
    moreover have "installed (new_handle k q) = installed (Ctx s)"
      using d2(3) by (simp add: installed_def new_handle_def q_def Let_def)
    ultimately show thesis
      using True k s3 k0 uk d2 by (intro that [of k "new_handle k q"])
        (auto simp: upd_ctx_def new_handle_def q_def unused_def Let_def)
  next
    case False
    then show thesis
      using h s2 d2 by (intro that [of h d2]) (auto simp: hinv_but_def handles_ok_def)
  qed
  obtain H where H: "Handles d3 k = Some H" using d3(2) by blast
  have nk: "\<forall>j. (k, g, j) \<notin> installed (Ctx s)"
  proof (cases "h = 0")
    case True
    then have "Handles (Ctx s) k = None" using d3(6) by simp
    then show ?thesis using hinv_interfaceD(2) [OF I] unfolding installed_def by fastforce
  qed (use no d3(6) in simp)
  let ?d = "link_interface p k e i d3"
  have val: "CoreValidateHandle k d3 = EFI_SUCCESS" using k(2) H by (simp add: CoreValidateHandle_def)
  have ent: "\<exists>Z. Entries ?d e = Some Z \<and> Notify Z = Notify Y"
    using d3(4) by (auto simp: link_interface_def upd_entry_def upd_handle_def)
  have "held (s\<lparr>Ctx := d3\<rparr>) gProtocolDatabaseLock" using l by (simp add: held_def)
  with triple_lookup [of "{k}" "s\<lparr>Ctx := d3\<rparr>" k H P g i] d3(1) H
  obtain q where q: "CoreFindProtocolInterface P k g i (s\<lparr>Ctx := d3\<rparr>) = Some q" and
    "if q = 0 then (k, g, i) \<notin> installed d3
     else \<exists>J Y. Interfaces d3 q = Some J \<and> Handle J = k \<and> Interface J = i \<and> Entries d3 (Protocol J) = Some Y \<and> ProtocolID Y = g"
    by (auto split: if_splits)
  then have "q = 0 \<or> (k, g, i) \<in> installed d3" unfolding installed_def by (auto split: if_splits)
  then have find: "CoreFindProtocolInterface P k g i (s\<lparr>Ctx := d3\<rparr>) = Some 0" using q d3(5) nk by auto
  have notify: "(if nf then CoreNotifyProtocolEntry P R e (s\<lparr>Ctx := ?d\<rparr>) else Some (s\<lparr>Ctx := ?d\<rparr>)) = Some (s\<lparr>Ctx := ?d\<rparr>)"
    using ent d2(6) l by (auto simp: CoreNotifyProtocolEntry_def held_def)
  have "install_section P R E h g i nf st0 s = Some (EFI_SUCCESS, k, p, s\<lparr>Ctx := ?d\<rparr>)"
    unfolding install_section_def e bind.bind_lunit prod.case if_not_P [OF e(2)] p Let_def if_not_P [OF p0]
      k(1) [unfolded Let_def] if_not_P [OF k(2)] using val find notify by (cases nf) (simp_all add: upd_ctx_def)
  moreover have "hinv ?d" by (rule hinv_link_interface [OF d3(1) _ _ p0 H d3(4)]) (use un d3(3) d2(1) in \<open>simp_all add: unused_def\<close>)
  moreover have "installed ?d = insert (k, g, i) (installed (Ctx s))"
    using installed_link_interface [of d3 p k H e Y i] un d3(3,4,5) d2(1) H Y(2) by (simp add: unused_def)
  moreover have "one_per_handle ?d" if "one_per_handle (Ctx s)"
    by (rule one_per_handle_link [where Y = Y]) (use that d3(3,4,5) nk Y(2) in \<open>simp_all add: one_per_handle_def\<close>)
  moreover have "Handles ?d k \<noteq> None" using H by (simp add: link_interface_def upd_handle_def upd_entry_def)
  ultimately show ?thesis using d3(6) by blast
qed

lemma CoreInstall_ready:
  assumes A: "Asserts P" and s: "ready s" and I: "hinv (Ctx s)" and E: "pool_works E"
    and h: "h \<noteq> 0 \<longrightarrow> Handles (Ctx s) h \<noteq> None" and no: "\<forall>j. (h, g, j) \<notin> installed (Ctx s)"
    and nf: "nf \<longrightarrow> no_records g (Ctx s)"
  shows "\<exists>k d u. CoreInstallProtocolInterfaceNotify P (CoreRestoreTpl P NC (Suc n)) E (Some h) (Some g)
      EFI_NATIVE_INTERFACE i nf s = Some (EFI_SUCCESS, Some k, u) \<and> after s d u \<and> hinv d \<and>
    installed d = insert (k, g, i) (installed (Ctx s)) \<and> (one_per_handle (Ctx s) \<longrightarrow> one_per_handle d) \<and>
    (if h = 0 then Handles (Ctx s) k = None else k = h) \<and> Handles d k \<noteq> None"
proof -
  let ?R = "CoreRestoreTpl P NC (Suc n)"
  obtain st1 s1 where ex: "existing_interface P ?R E h g s = Some (st1, s1)" "after s (Ctx s) s1"
    "h = 0 \<or> EFI_ERROR st1"
  proof (cases "h = 0")
    case True
    with s show thesis by (intro that [of EFI_OUT_OF_RESOURCES s]) (simp_all add: existing_interface_def after_refl)
  next
    case False
    then obtain H where H: "Handles (Ctx s) h = Some H" using h by blast
    obtain st j d u where "CoreHandleProtocol P ?R E h (Some g) True s = Some (st, Some j, u)" "after s d u"
      "if \<forall>i. (h, g, i) \<notin> installed (Ctx s) then st = EFI_UNSUPPORTED \<and> j = 0 \<and> d = Ctx s
       else (h, g, j) \<in> installed (Ctx s) \<and> (st = EFI_SUCCESS \<or> st = EFI_OUT_OF_RESOURCES)"
      using CoreHandleProtocol_ready [OF A s I H, of NC n E g] by blast
    then show thesis using no False by (intro that [of st u]) (simp_all add: existing_interface_def)
  qed
  have s1: "ready s1" "Ctx s1 = Ctx s" using ex(2) by (simp_all add: after_def)
  obtain a where a: "CoreAcquireProtocolLock P s1 = Some a" "Ctx a = Ctx s" "held a gProtocolDatabaseLock"
    and rel: "\<And>d. \<exists>u. CoreReleaseProtocolLock P ?R (a\<lparr>Ctx := d\<rparr>) = Some u \<and> after s1 d u"
    using lock_section [OF A s1(1)] unfolding s1(2) by blast
  obtain k p d where sec: "install_section P ?R E h g i nf st1 a = Some (EFI_SUCCESS, k, p, a\<lparr>Ctx := d\<rparr>)"
    and d: "hinv d" "installed d = insert (k, g, i) (installed (Ctx s))" "one_per_handle (Ctx s) \<longrightarrow> one_per_handle d"
      "if h = 0 then Handles (Ctx s) k = None else k = h" "Handles d k \<noteq> None"
    using install_section_ready [OF _ E a(3), of h g nf P ?R i st1] I h no nf unfolding a(2) by blast
  obtain u where u: "CoreReleaseProtocolLock P ?R (a\<lparr>Ctx := d\<rparr>) = Some u" "after s1 d u" using rel by blast
  have "CoreInstallProtocolInterfaceNotify P ?R E (Some h) (Some g) EFI_NATIVE_INTERFACE i nf s = Some (EFI_SUCCESS, Some k, u)"
    using ex(1,3) a(1) sec u(1) by (simp add: CoreInstallProtocolInterfaceNotify_def)
  with d u(2) after_trans [OF ex(2)] show ?thesis by blast
qed

subsection \<open>Removing an interface\<close>

lemma installed_uninstall:
  assumes I: "hinv d" and U: "one_per_handle d" and J: "Interfaces d p = Some J" and H: "Handles d (Handle J) = Some H"
    and Y: "Entries d (Protocol J) = Some Y"
  shows "installed (free_interface E (Handle J) p (unlink_interface p (Protocol J) Y d)) =
      installed d - {(Handle J, ProtocolID Y, Interface J)}"
    "one_per_handle (free_interface E (Handle J) p (unlink_interface p (Protocol J) Y d))"
proof -
  let ?d = "free_interface E (Handle J) p (unlink_interface p (Protocol J) Y d)"
  have int: "Interfaces ?d = (Interfaces d)(p := None)" by (simp add: free_interface_def)
  show "one_per_handle ?d" using U unfolding one_per_handle_def int by (auto split: if_splits)
  have ent: "(\<exists>Z. Entries ?d a = Some Z \<and> ProtocolID Z = g) \<longleftrightarrow> (\<exists>Z. Entries d a = Some Z \<and> ProtocolID Z = g)" for a g
    by (cases "Entries d a") (auto simp: free_interface_def touch_handle_def upd_handle_def unlink_interface_def
        upd_entry_def Let_def)
  have iff: "(k, g, j) \<in> installed x \<longleftrightarrow> (\<exists>q J. Interfaces x q = Some J \<and> Handle J = k \<and> Interface J = j \<and>
      (\<exists>Z. Entries x (Protocol J) = Some Z \<and> ProtocolID Z = g))" for k g j and x :: "'a hdb"
    by (auto simp: installed_def)
  have same: "q = p" if q: "Interfaces d q = Some K" "Handle K = Handle J" "Entries d (Protocol K) = Some Z"
      "ProtocolID Z = ProtocolID Y" for q K Z
  proof -
    have "Protocol K = Protocol J" by (rule hinv_entryD(6) [OF I Y q(3,4)])
    then show ?thesis using U J q(1,2) unfolding one_per_handle_def by blast
  qed
  show "installed ?d = installed d - {(Handle J, ProtocolID Y, Interface J)}"
  proof (intro equalityI subsetI)
    fix x assume xd: "x \<in> installed ?d"
    obtain k g j where x: "x = (k, g, j)" by (cases x) auto
    from xd obtain q K Z where q: "q \<noteq> p" "Interfaces d q = Some K" "Handle K = k" "Interface K = j"
      "Entries d (Protocol K) = Some Z" "ProtocolID Z = g"
      unfolding x iff [of k g j ?d] ent int by (auto split: if_splits)
    then have "(k, g, j) \<in> installed d" "(k, g, j) \<noteq> (Handle J, ProtocolID Y, Interface J)"
      using same [OF q(2) _ q(5)] by (auto simp: installed_def)
    then show "x \<in> installed d - {(Handle J, ProtocolID Y, Interface J)}" by (simp add: x)
  next
    fix x assume xd: "x \<in> installed d - {(Handle J, ProtocolID Y, Interface J)}"
    obtain k g j where x: "x = (k, g, j)" by (cases x) auto
    with xd have ne: "(k, g, j) \<in> installed d" "(k, g, j) \<noteq> (Handle J, ProtocolID Y, Interface J)" by auto
    then obtain q K Z where q: "Interfaces d q = Some K" "Handle K = k" "Interface K = j"
      "Entries d (Protocol K) = Some Z" "ProtocolID Z = g" unfolding iff [of k g j d] by auto
    then have "q \<noteq> p" using J Y ne by auto
    with q show "x \<in> installed ?d" unfolding x iff [of k g j ?d] ent int by auto
  qed
qed


definition removable :: "PROTOCOL_INTERFACE \<Rightarrow> bool" where
  "removable J \<longleftrightarrow> (\<forall>od \<in> set (OpenList J). \<not> by_driver od \<and> shared_open od)"

text \<open>Nobody who uses the interface has to be asked: its open records are dropped.\<close>

lemma disconnect_removable:
  assumes I: "hinv (Ctx s)" and J: "Interfaces (Ctx s) p = Some J" "removable J"
  shows "\<exists>d. CoreDisconnectControllersUsingProtocolInterface P R E h p s = Some (EFI_SUCCESS, s\<lparr>Ctx := d\<rparr>) \<and>
    same_but_open (Ctx s) d \<and> hinv d"
proof -
  have "find by_driver (OpenList J) = None" using J(2) by (simp add: removable_def find_None_iff)
  then have dd: "disconnect_drivers P R E h p s = Some (EFI_SUCCESS, s)"
    using J(1) by (subst disconnect_drivers.simps) simp
  let ?f = "\<lambda>Prot. Prot\<lparr>OpenList := filter (\<lambda>od. \<not> shared_open od) (OpenList Prot),
     OpenListCount := OpenListCount Prot - of_nat (length (filter shared_open (OpenList Prot)))\<rparr>"
  have fold: "\<exists>d. fold (\<lambda>od. free E (OpenAddress od)) l t = t\<lparr>Ctx := d\<rparr> \<and> same_but_open (Ctx t) d \<and>
      Interfaces d = Interfaces (Ctx t)" for l and t :: "'a hstate"
  proof (induction l arbitrary: t)
    case Nil
    show ?case by (intro exI [of _ "Ctx t"]) simp
  next
    case (Cons x l)
    let ?t = "free E (OpenAddress x) t"
    obtain d where d: "fold (\<lambda>od. free E (OpenAddress od)) l ?t = ?t\<lparr>Ctx := d\<rparr>" "same_but_open (Ctx ?t) d"
      "Interfaces d = Interfaces (Ctx ?t)" using Cons.IH by blast
    moreover have "same_but_open (Ctx t) (Ctx ?t)" "?t\<lparr>Ctx := d\<rparr> = t\<lparr>Ctx := d\<rparr>" "Interfaces (Ctx ?t) = Interfaces (Ctx t)"
      by (simp_all add: free_def upd_ctx_def same_but_open_def same_links_def)
    ultimately show ?case by (auto intro: same_but_open_trans)
  qed
  obtain d where d: "remove_open_records E shared_open p J s = s\<lparr>Ctx := d\<rparr>" "same_but_open (upd_interface p ?f (Ctx s)) d"
    "Interfaces d = Interfaces (upd_interface p ?f (Ctx s))"
    using fold [of "filter shared_open (OpenList J)" "upd_ctx (upd_interface p ?f) s"]
    by (auto simp: remove_open_records_def upd_ctx_def)
  have sb: "same_but_open (Ctx s) d"
    by (rule same_but_open_trans [OF same_but_open_upd d(2)]) simp
  have I1: "hinv d" using remove_open_records_hinv [OF I J(1), of E shared_open] d(1) by simp
  have none: "filter (\<lambda>od. \<not> shared_open od) (OpenList J) = []" using J(2) by (simp add: removable_def filter_empty_conv)
  have Jd: "Interfaces d p = Some (?f J)" using d(3) J(1) by (simp add: upd_interface_def)
  have "OpenListCount (?f J) = 0" using hinv_interfaceD(4) [OF I1 Jd] none by (simp add: open_list_ok_def)
  then have "reconnect_if_open P R E h p EFI_SUCCESS (s\<lparr>Ctx := d\<rparr>) = Some (EFI_SUCCESS, s\<lparr>Ctx := d\<rparr>)"
    using Jd by (simp add: reconnect_if_open_def)
  then have "CoreDisconnectControllersUsingProtocolInterface P R E h p s = Some (EFI_SUCCESS, s\<lparr>Ctx := d\<rparr>)"
    using dd J(1) d(1) by (simp add: CoreDisconnectControllersUsingProtocolInterface_def)
  with sb I1 show ?thesis by blast
qed

lemma uninstall_section_ready:
  assumes I: "hinv (Ctx s)" and U: "one_per_handle (Ctx s)" and l: "held s gProtocolDatabaseLock"
    and inst: "(h, g, i) \<in> installed (Ctx s)"
    and r: "\<And>p J. Interfaces (Ctx s) p = Some J \<Longrightarrow> Handle J = h \<Longrightarrow> Interface J = i \<Longrightarrow> removable J"
  shows "\<exists>d. uninstall_section P R E h g i s = Some (EFI_SUCCESS, s\<lparr>Ctx := d\<rparr>) \<and> hinv d \<and> one_per_handle d \<and>
    installed d = installed (Ctx s) - {(h, g, i)} \<and>
    (Handles d h = None \<longleftrightarrow> (\<forall>g' i'. (h, g', i') \<in> installed (Ctx s) \<longrightarrow> (g', i') = (g, i)))"
proof -
  obtain H where H: "Handles (Ctx s) h = Some H"
    using inst hinv_interfaceD(2) [OF I] unfolding installed_def by blast
  obtain p where p: "CoreFindProtocolInterface P h g i s = Some p" and
    pp: "if p = 0 then (h, g, i) \<notin> installed (Ctx s)
     else \<exists>J Y. Interfaces (Ctx s) p = Some J \<and> Handle J = h \<and> Interface J = i \<and>
       Entries (Ctx s) (Protocol J) = Some Y \<and> ProtocolID Y = g" using triple_lookup [OF I H l] by blast
  then have p0: "p \<noteq> 0" using inst by (auto split: if_splits)
  then obtain J Y where J: "Interfaces (Ctx s) p = Some J" "Handle J = h" "Interface J = i" using pp by auto
  obtain d1 where d1: "CoreDisconnectControllersUsingProtocolInterface P R E h p s = Some (EFI_SUCCESS, s\<lparr>Ctx := d1\<rparr>)"
    "same_but_open (Ctx s) d1" "hinv d1" using disconnect_removable [OF I J(1) r [OF J]] by blast
  let ?s1 = "s\<lparr>Ctx := d1\<rparr>"
  have inst1: "installed d1 = installed (Ctx s)" by (rule same_but_open_installed [OF d1(2)])
  have U1: "one_per_handle d1" using one_per_handle_same_links [OF _ U] d1(2) by (simp add: same_but_open_def)
  have H1: "Handles (Ctx ?s1) h = Some H" using H d1(2) by (simp add: same_but_open_def)
  have l1: "held ?s1 gProtocolDatabaseLock" using l by (simp add: held_def)
  obtain q where q: "CoreFindProtocolInterface P h g i ?s1 = Some q" and
    qq: "if q = 0 then (h, g, i) \<notin> installed d1
     else \<exists>J Y. Interfaces d1 q = Some J \<and> Handle J = h \<and> Interface J = i \<and>
       Entries d1 (Protocol J) = Some Y \<and> ProtocolID Y = g"
    using triple_lookup [of "{}" ?s1 h H P g i] d1(3) H1 l1 by (auto split: if_splits)
  then have q0: "q \<noteq> 0" using inst inst1 by (auto split: if_splits)
  then obtain K Z where K: "Interfaces d1 q = Some K" "Handle K = h" "Interface K = i" "Entries d1 (Protocol K) = Some Z"
    "ProtocolID Z = g" using qq by auto
  let ?d2 = "free_interface E h q (unlink_interface q (Protocol K) Z d1)"
  have rem: "CoreRemoveInterfaceFromProtocol P h g i ?s1 = Some (q, s\<lparr>Ctx := unlink_interface q (Protocol K) Z d1\<rparr>)"
    using q q0 K l1 by (simp add: CoreRemoveInterfaceFromProtocol_def held_def unlink_interface_def upd_ctx_def Let_def)
  have I2: "hinv_but {h} ?d2" using hinv_uninstall [OF d1(3) K(1) refl refl _ K(4)] H1 K(2) by simp
  have inst2: "installed ?d2 = installed (Ctx s) - {(h, g, i)}" "one_per_handle ?d2"
    using installed_uninstall [OF d1(3) U1 K(1) _ K(4)] H1 K(2,3,5) inst1 by simp_all
  obtain H2 where H2: "Handles ?d2 h = Some H2"
    using H1 by (simp add: free_interface_def touch_handle_def upd_handle_def unlink_interface_def upd_entry_def Let_def)
  have mem: "(\<exists>g' i'. (h, g', i') \<in> installed ?d2) \<longleftrightarrow> Protocols H2 \<noteq> []"
  proof -
    have "(\<exists>g' i'. (h, g', i') \<in> installed ?d2) \<longleftrightarrow> (\<exists>x I. Interfaces ?d2 x = Some I \<and> Handle I = h)"
      using hinv_interfaceD(3) [OF I2] unfolding installed_def by blast
    also have "\<dots> \<longleftrightarrow> (\<exists>x. x \<in> set (Protocols H2))" using hinv_handleD(4) [OF I2 H2] by blast
    finally show ?thesis by (cases "Protocols H2") auto
  qed
  let ?d = "if Protocols H2 = [] then free_handle E h ?d2 else ?d2"
  have "uninstall_section P R E h g i s = Some (EFI_SUCCESS, s\<lparr>Ctx := ?d\<rparr>)"
    using p p0 d1(1) rem q0 H2 by (simp add: uninstall_section_def upd_ctx_def)
  moreover have "hinv ?d"
  proof (cases "Protocols H2 = []")
    case True
    then show ?thesis using hinv_free_handle [OF I2 H2] by simp
  next
    case False
    then show ?thesis using hinv_but_cases [OF I2] H2 by auto
  qed
  moreover have "installed ?d = installed ?d2" "one_per_handle ?d"
    using inst2(2) by (simp_all add: free_handle_def installed_def one_per_handle_def)
  moreover have "Handles ?d h = None \<longleftrightarrow> (\<forall>g' i'. (h, g', i') \<in> installed (Ctx s) \<longrightarrow> (g', i') = (g, i))"
  proof -
    have "Handles ?d h = None \<longleftrightarrow> Protocols H2 = []" using H2 by (simp add: free_handle_def)
    also have "\<dots> \<longleftrightarrow> \<not> (\<exists>g' i'. (h, g', i') \<in> installed ?d2)" using mem by argo
    also have "\<dots> \<longleftrightarrow> (\<forall>g' i'. (h, g', i') \<in> installed (Ctx s) \<longrightarrow> (g', i') = (g, i))" unfolding inst2(1) by auto
    finally show ?thesis .
  qed
  ultimately show ?thesis unfolding inst2(1) by (intro exI [of _ ?d] conjI)
qed

lemma CoreUninstall_ready:
  assumes A: "Asserts P" and s: "ready s" and I: "hinv (Ctx s)" and U: "one_per_handle (Ctx s)"
    and inst: "(h, g, i) \<in> installed (Ctx s)"
    and r: "\<And>p J. Interfaces (Ctx s) p = Some J \<Longrightarrow> Handle J = h \<Longrightarrow> Interface J = i \<Longrightarrow> removable J"
  shows "\<exists>d u. CoreUninstallProtocolInterface P (CoreRestoreTpl P NC (Suc n)) E h (Some g) i s = Some (EFI_SUCCESS, u) \<and>
    after s d u \<and> hinv d \<and> one_per_handle d \<and> installed d = installed (Ctx s) - {(h, g, i)} \<and>
    (Handles d h = None \<longleftrightarrow> (\<forall>g' i'. (h, g', i') \<in> installed (Ctx s) \<longrightarrow> (g', i') = (g, i)))"
proof -
  let ?R = "CoreRestoreTpl P NC (Suc n)"
  obtain a where a: "CoreAcquireProtocolLock P s = Some a" "Ctx a = Ctx s" "held a gProtocolDatabaseLock"
    and rel: "\<And>d. \<exists>u. CoreReleaseProtocolLock P ?R (a\<lparr>Ctx := d\<rparr>) = Some u \<and> after s d u"
    using lock_section [OF A s] by blast
  have "\<exists>d. uninstall_section P ?R E h g i a = Some (EFI_SUCCESS, a\<lparr>Ctx := d\<rparr>) \<and> hinv d \<and> one_per_handle d \<and>
    installed d = installed (Ctx a) - {(h, g, i)} \<and>
    (Handles d h = None \<longleftrightarrow> (\<forall>g' i'. (h, g', i') \<in> installed (Ctx a) \<longrightarrow> (g', i') = (g, i)))"
    by (rule uninstall_section_ready) (use I U a(3) inst r in \<open>simp_all add: a(2)\<close>)
  then obtain d where sec: "uninstall_section P ?R E h g i a = Some (EFI_SUCCESS, a\<lparr>Ctx := d\<rparr>)" and
    d: "hinv d" "one_per_handle d" "installed d = installed (Ctx s) - {(h, g, i)}"
      "Handles d h = None \<longleftrightarrow> (\<forall>g' i'. (h, g', i') \<in> installed (Ctx s) \<longrightarrow> (g', i') = (g, i))"
    unfolding a(2) by (elim exE conjE) (rule that)
  obtain u where u: "CoreReleaseProtocolLock P ?R (a\<lparr>Ctx := d\<rparr>) = Some u" "after s d u" using rel by blast
  obtain H where H: "Handles (Ctx s) h = Some H" using inst hinv_interfaceD(2) [OF I] unfolding installed_def by blast
  have "CoreValidateHandle h (Ctx s) = EFI_SUCCESS"
    using H hinv_handleD(1) [OF I H] by (simp add: CoreValidateHandle_def)
  then have "CoreUninstallProtocolInterface P ?R E h (Some g) i s = Some (EFI_SUCCESS, u)"
    using a(1) sec u(1) by (simp add: CoreUninstallProtocolInterface_def)
  with d u(2) show ?thesis by (intro exI [of _ d] exI [of _ u] conjI)
qed


end
