(* ===== verification/HandleFind.thy ===== *)
theory HandleFind
  imports HandleSpec
begin

unbundle bit_operations_syntax

section \<open>What the searches find\<close>

text \<open>
  A search by protocol walks over the interfaces of a protocol entry and marks every handle it returns
  with the number of the search, so that each handle is returned once. The lemmas give the handles
  found, their order, and the sizes that \<open>CoreLocateHandle\<close> reports.
\<close>

subsection \<open>Marked handles\<close>

text \<open>Numbers on handles come from earlier searches, and the next number does not wrap around.\<close>

definition requests_ok :: "'p hdb \<Rightarrow> bool" where
  "requests_ok d \<longleftrightarrow> mEfiLocateHandleRequest d \<noteq> -1 \<and>
     (\<forall>h H. Handles d h = Some H \<longrightarrow> LocateRequest H \<le> mEfiLocateHandleRequest d)"

definition marked :: "uintn \<Rightarrow> 'p hdb \<Rightarrow> ptr set" where
  "marked r d = {h. \<exists>H. Handles d h = Some H \<and> LocateRequest H = r}"

definition mark :: "ptr \<Rightarrow> 'p hdb \<Rightarrow> 'p hdb" where
  "mark h d = upd_handle h (LocateRequest_update (\<lambda>_. mEfiLocateHandleRequest d)) d"

text \<open>The handles of a list, without those seen before.\<close>

primrec firsts :: "ptr set \<Rightarrow> ptr list \<Rightarrow> ptr list" where
  "firsts S [] = []"
| "firsts S (h # l) = (if h \<in> S then firsts S l else h # firsts (insert h S) l)"

lemma set_firsts: "set (firsts S l) = set l - S"
  by (induction l arbitrary: S) auto

lemma distinct_firsts: "distinct (firsts S l)"
  by (induction l arbitrary: S) (auto simp: set_firsts)

lemma firsts_distinct: "distinct l \<Longrightarrow> set l \<inter> S = {} \<Longrightarrow> firsts S l = l"
  by (induction l arbitrary: S) auto

text \<open>Databases that differ only in the marks.\<close>

definition same_but_marks :: "'p hdb \<Rightarrow> 'p hdb \<Rightarrow> bool" where
  "same_but_marks d d' \<longleftrightarrow> same_links d d' \<and> Interfaces d' = Interfaces d \<and> Pool d' = Pool d \<and>
     gHandleDatabaseKey d' = gHandleDatabaseKey d \<and> mEfiLocateHandleRequest d' = mEfiLocateHandleRequest d \<and>
     (\<forall>h. map_option (LocateRequest_update (\<lambda>_. 0)) (Handles d' h) = map_option (LocateRequest_update (\<lambda>_. 0)) (Handles d h))"

lemma same_but_marks_refl [simp]: "same_but_marks d d"
  by (simp add: same_but_marks_def same_links_def)

lemma same_but_marks_trans: "same_but_marks a b \<Longrightarrow> same_but_marks b c \<Longrightarrow> same_but_marks a c"
  by (simp add: same_but_marks_def same_links_def)

lemma same_but_marks_mark: "same_but_marks d (mark h d)"
  by (cases "Handles d h") (auto simp: same_but_marks_def same_links_def mark_def upd_handle_def)

lemma same_but_marks_installed: "same_but_marks d d' \<Longrightarrow> installed d' = installed d"
  by (rule installed_same_links) (simp_all add: same_but_marks_def)

lemma same_but_marks_hinv: "same_but_marks d d' \<Longrightarrow> hinv d \<Longrightarrow> hinv d'"
  by (rule hinv_same_links [of "{}" d]) (auto simp: same_but_marks_def dest: hinv_interfaceD(4))

lemma marked_mark: "Handles d h \<noteq> None \<Longrightarrow> r = mEfiLocateHandleRequest d \<Longrightarrow> marked r (mark h d) = insert h (marked r d)"
  by (auto simp: marked_def mark_def upd_handle_def)

lemma mark_simps [simp]: "mEfiLocateHandleRequest (mark h d) = mEfiLocateHandleRequest d"
  "Interfaces (mark h d) = Interfaces d"
  by (simp_all add: mark_def upd_handle_def)

subsection \<open>Enumerations\<close>

text \<open>The handles that the enumeration writes to a buffer of \<open>n\<close> bytes.\<close>

primrec collect :: "uintn \<Rightarrow> uintn \<Rightarrow> ptr list \<Rightarrow> ptr list \<Rightarrow> ptr list" where
  "collect n r buf [] = buf"
| "collect n r buf (h # l) = collect n (r + 8) (if r + 8 \<le> n then buf @ [h] else buf) l"

lemma eight_div: "8 * Suc k \<le> m \<longleftrightarrow> m div 8 - k > 0" for m :: nat
  by (auto simp: less_diff_conv less_eq_div_iff_mult_less_eq Suc_le_eq [symmetric])

lemma collect_take:
  assumes "8 * (k + length l) < 2 ^ 64"
  shows "collect n (of_nat (8 * k)) buf l = buf @ take (unat n div 8 - k) l"
  using assms
proof (induction l arbitrary: k buf)
  case (Cons h l)
  have w: "of_nat (8 * k) + 8 = (of_nat (8 * Suc k) :: uintn)" by simp
  have "unat (of_nat (8 * Suc k) :: uintn) = 8 * Suc k" using Cons.prems unfolding unat_of_nat by simp
  then have "(of_nat (8 * k) + 8 \<le> n) = (8 * Suc k \<le> unat n)" unfolding w word_le_nat_alt by simp
  also have "\<dots> = (unat n div 8 - k > 0)" by (rule eight_div)
  finally have c: "(of_nat (8 * k) + 8 \<le> n) = (unat n div 8 - k > 0)" .
  have "collect n (of_nat (8 * k)) buf (h # l) =
      collect n (of_nat (8 * Suc k)) (if of_nat (8 * k) + 8 \<le> n then buf @ [h] else buf) l" unfolding w [symmetric] by simp
  also have "\<dots> = (if of_nat (8 * k) + 8 \<le> n then buf @ [h] else buf) @ take (unat n div 8 - Suc k) l"
    by (rule Cons.IH) (use Cons.prems in simp)
  also have "\<dots> = buf @ take (unat n div 8 - k) (h # l)"
    unfolding c by (cases "unat n div 8 - k") (auto simp: take_Cons' diff_Suc split: nat.splits)
  finally show ?case .
qed simp

lemma next_by_protocol_other:
  "next_by_protocol l i d = map_option (\<lambda>(h, x, l', d'). (h, if h = 0 \<and> l = [] then i else x, l', d')) (next_by_protocol l 0 d)"
  by (cases l) (auto simp: id_def [symmetric] option.map_id)

lemma locate_loop_marked:
  assumes "Interfaces d p = Some J" "Handles d (Handle J) = Some H" "LocateRequest H = mEfiLocateHandleRequest d"
  shows "locate_loop CoreGetNextLocateByProtocol n \<lparr>SearchKey = k, Links = p # l\<rparr> r buf d =
    locate_loop CoreGetNextLocateByProtocol n \<lparr>SearchKey = k, Links = l\<rparr> r buf d"
  using assms
  by (subst (1 2) locate_loop.simps)
    (simp add: CoreGetNextLocateByProtocol_def next_by_protocol_other [of l "Interface J"] split: option.splits,
     cases "next_by_protocol l 0 d", auto)

lemma locate_loop_unmarked:
  assumes "Interfaces d p = Some J" "Handles d (Handle J) = Some H" "LocateRequest H \<noteq> mEfiLocateHandleRequest d"
    and "Handle J \<noteq> 0"
  shows "locate_loop CoreGetNextLocateByProtocol n \<lparr>SearchKey = k, Links = p # l\<rparr> r buf d =
    locate_loop CoreGetNextLocateByProtocol n \<lparr>SearchKey = k, Links = l\<rparr> (r + 8)
      (if r + 8 \<le> n then buf @ [Handle J] else buf) (mark (Handle J) d)"
  using assms by (subst locate_loop.simps) (simp add: CoreGetNextLocateByProtocol_def mark_def)

text \<open>The handles of a list of interfaces.\<close>

abbreviation owners :: "'p hdb \<Rightarrow> ptr list \<Rightarrow> ptr list" where
  "owners d \<equiv> map (\<lambda>p. Handle (the (Interfaces d p)))"

lemma locate_loop_by_protocol:
  assumes "hinv d" "\<forall>p \<in> set l. Interfaces d p \<noteq> None"
  shows "\<exists>d'. same_but_marks d d' \<and>
    (\<forall>h. h \<in> marked (mEfiLocateHandleRequest d) d' \<longleftrightarrow> h \<in> marked (mEfiLocateHandleRequest d) d \<union> set (owners d l)) \<and>
    (let F = firsts (marked (mEfiLocateHandleRequest d) d) (owners d l) in
     locate_loop CoreGetNextLocateByProtocol n \<lparr>SearchKey = k, Links = l\<rparr> r buf d =
       Some (r + 8 * of_nat (length F), collect n r buf F, d'))"
  using assms
proof (induction l arbitrary: d r buf)
  case Nil
  show ?case
    by (intro exI [of _ d]) (simp add: Let_def locate_loop.simps CoreGetNextLocateByProtocol_def)
next
  case (Cons p l)
  let ?r = "mEfiLocateHandleRequest d"
  obtain J where J: "Interfaces d p = Some J" using Cons.prems(2) by auto
  then obtain H where H: "Handles d (Handle J) = Some H" using hinv_interfaceD(2) [OF Cons.prems(1)] by blast
  show ?case
  proof (cases "LocateRequest H = ?r")
    case True
    then have m: "Handle J \<in> marked ?r d" using H by (simp add: marked_def)
    show ?thesis using Cons.IH [of d r buf] Cons.prems m unfolding locate_loop_marked [OF J H True]
      by (auto simp: J Let_def)
  next
    case False
    let ?d = "mark (Handle J) d"
    have m: "Handle J \<notin> marked ?r d" "marked ?r ?d = insert (Handle J) (marked ?r d)"
      using H False marked_mark [of d "Handle J"] by (simp_all add: marked_def)
    have h0: "Handle J \<noteq> 0" by (rule hinv_handleD(1) [OF Cons.prems(1) H])
    have "hinv ?d" "\<forall>p \<in> set l. Interfaces ?d p \<noteq> None"
      using same_but_marks_hinv [OF same_but_marks_mark Cons.prems(1)] Cons.prems(2) by simp_all
    from Cons.IH [OF this, of "r + 8" "if r + 8 \<le> n then buf @ [Handle J] else buf"]
    obtain d' where "same_but_marks ?d d'"
      "\<forall>h. h \<in> marked ?r d' \<longleftrightarrow> h \<in> marked ?r ?d \<union> set (owners d l)"
      "let F = firsts (marked ?r ?d) (owners d l) in
       locate_loop CoreGetNextLocateByProtocol n \<lparr>SearchKey = k, Links = l\<rparr> (r + 8)
         (if r + 8 \<le> n then buf @ [Handle J] else buf) ?d =
       Some (r + 8 + 8 * of_nat (length F), collect n (r + 8) (if r + 8 \<le> n then buf @ [Handle J] else buf) F, d')"
      by auto
    then show ?thesis unfolding locate_loop_unmarked [OF J H False h0]
      using same_but_marks_trans [OF same_but_marks_mark, of "Handle J" d d'] m
      by (intro exI [of _ d']) (simp add: J Let_def algebra_simps)
  qed
qed


subsection \<open>CoreLocateHandle by protocol\<close>

lemma gHandleList_firsts:
  assumes I: "hinv d" and l: "\<forall>p \<in> set l. Interfaces d p \<noteq> None"
  shows "length (firsts S (owners d l)) \<le> length (gHandleList d)"
proof -
  have "set (firsts S (owners d l)) \<subseteq> set (gHandleList d)"
    using hinv_interfaceD(2) [OF I] l unfolding set_firsts hinv_listsD(2) [OF I] by fastforce
  then have "card (set (firsts S (owners d l))) \<le> card (set (gHandleList d))" by (simp add: card_mono)
  then show ?thesis using hinv_listsD(1) [OF I] by (simp add: distinct_card distinct_firsts)
qed

lemma owners_of_entry:
  assumes I: "hinv d" and Y: "Entries d e = Some Y"
  shows "set (owners d (ByProtocol Y)) = {h. \<exists>i. (h, ProtocolID Y, i) \<in> installed d}"
proof (intro equalityI subsetI)
  fix h assume "h \<in> set (owners d (ByProtocol Y))"
  then obtain p J where "Interfaces d p = Some J" "Protocol J = e" "Handle J = h"
    using hinv_entryD(4) [OF I Y] by auto
  then show "h \<in> {h. \<exists>i. (h, ProtocolID Y, i) \<in> installed d}" using Y unfolding installed_def by blast
next
  fix h assume "h \<in> {h. \<exists>i. (h, ProtocolID Y, i) \<in> installed d}"
  then obtain p J Z where p: "Interfaces d p = Some J" "Handle J = h" "Entries d (Protocol J) = Some Z"
    "ProtocolID Z = ProtocolID Y" unfolding installed_def by blast
  then have "p \<in> set (ByProtocol Y)" using hinv_entryD(4,6) [OF I Y] by blast
  with p(1,2) show "h \<in> set (owners d (ByProtocol Y))" by force
qed

text \<open>The handles that have a protocol, in the order in which the interfaces were installed.\<close>

definition having :: "EFI_GUID \<Rightarrow> 'p hdb \<Rightarrow> ptr set" where
  "having g d = {h. \<exists>i. (h, g, i) \<in> installed d}"

definition size_status :: "uintn \<Rightarrow> ptr list \<Rightarrow> EFI_STATUS \<Rightarrow> uintn \<Rightarrow> bool" where
  "size_status n L st m \<longleftrightarrow>
     (if L = [] then st = EFI_NOT_FOUND \<and> m = n
      else unat m = 8 * length L \<and> st = (if 8 * length L \<le> unat n then EFI_SUCCESS else EFI_BUFFER_TOO_SMALL))"

lemma requests_ok_next:
  assumes "requests_ok d"
  shows "marked (mEfiLocateHandleRequest d + 1) (mEfiLocateHandleRequest_update (\<lambda>r. r + 1) d) = {}"
proof -
  have "mEfiLocateHandleRequest d < mEfiLocateHandleRequest d + 1"
    using assms inc_less_eq_triv_imp [of "mEfiLocateHandleRequest d"] unfolding requests_ok_def by (auto simp: not_le [symmetric])
  then show ?thesis using assms unfolding requests_ok_def marked_def by fastforce
qed

lemma locate_section_by_protocol:
  assumes I: "hinv (Ctx s)" and l: "held s gProtocolDatabaseLock" and r: "requests_ok (Ctx s)"
    and b: "length (gHandleList (Ctx s)) < 2 ^ 61"
  shows "\<exists>st m L d. locate_section P E ByProtocolSearch (Some g) k n s = Some (st, m, take (unat n div 8) L, s\<lparr>Ctx := d\<rparr>) \<and>
    hinv d \<and> installed d = installed (Ctx s) \<and> distinct L \<and> set L = having g (Ctx s) \<and> size_status n L st m"
proof -
  let ?d = "Ctx s"
  obtain e where e: "find_entry (Entries ?d) g (mProtocolDatabase ?d) = Some e"
    and e': "if e = 0 then \<forall>a Y. Entries ?d a = Some Y \<longrightarrow> ProtocolID Y \<noteq> g
      else \<exists>Y. Entries ?d e = Some Y \<and> ProtocolID Y = g" using entry_lookup [OF I] by blast
  show ?thesis
  proof (cases "e = 0")
    case True
    then have "locate_section P E ByProtocolSearch (Some g) k n s = Some (EFI_NOT_FOUND, n, take (unat n div 8) [], s\<lparr>Ctx := ?d\<rparr>)"
      using e l by (simp add: locate_section_def locate_start_def CoreFindProtocolEntry_def held_def Let_def)
    moreover have "having g ?d = {}" using True e' by (auto simp: having_def installed_def)
    ultimately show ?thesis using I by (intro exI conjI) (assumption, simp_all add: size_status_def)
  next
    case False
    then obtain Y where Y: "Entries ?d e = Some Y" "ProtocolID Y = g" using e' by auto
    let ?d1 = "mEfiLocateHandleRequest_update (\<lambda>r. r + 1) ?d"
    let ?l = "ByProtocol Y"
    have I1: "hinv ?d1" using I by simp
    have li: "\<forall>p \<in> set ?l. Interfaces ?d1 p \<noteq> None" using hinv_entryD(4) [OF I Y(1)] by auto
    have Y1: "Entries ?d1 e = Some Y" using Y(1) by simp
    obtain d where d: "same_but_marks ?d1 d" and
      run: "locate_loop CoreGetNextLocateByProtocol n \<lparr>SearchKey = k, Links = ?l\<rparr> 0 [] ?d1 =
         Some (8 * of_nat (length (firsts {} (owners ?d1 ?l))), collect n 0 [] (firsts {} (owners ?d1 ?l)), d)"
      using locate_loop_by_protocol [OF I1 li, of n k 0 "[]"] requests_ok_next [OF r] by (auto simp: Let_def)
    define L where "L = firsts {} (owners ?d1 ?l)"
    have len: "8 * length L < 2 ^ 64"
      using gHandleList_firsts [OF I1 li, of "{}"] b unfolding L_def by simp
    have L: "distinct L" "set L = having g ?d"
      using owners_of_entry [OF I1 Y1] Y(2)
      by (simp_all add: L_def distinct_firsts set_firsts having_def installed_def)
    have col: "collect n 0 [] L = take (unat n div 8) L" using collect_take [of 0 L n "[]"] len by simp
    have u: "unat (8 * of_nat (length L) :: uintn) = 8 * length L"
    proof -
      have "(8 * of_nat (length L) :: uintn) = of_nat (8 * length L)" by simp
      then show ?thesis using len by (simp only: unat_of_nat) simp
    qed
    define rs where "rs = (8 * of_nat (length L) :: uintn)"
    have rs: "rs = 0 \<longleftrightarrow> L = []" "rs > n \<longleftrightarrow> \<not> 8 * length L \<le> unat n" "unat rs = 8 * length L"
      using u unfolding rs_def [symmetric] by (simp_all add: unat_eq_0 [symmetric] word_less_nat_alt not_le)
    have "locate_section P E ByProtocolSearch (Some g) k n s =
        Some (if rs = 0 then (EFI_NOT_FOUND, n, take (unat n div 8) L, s\<lparr>Ctx := d\<rparr>)
          else if rs > n then (EFI_BUFFER_TOO_SMALL, rs, take (unat n div 8) L, s\<lparr>Ctx := d\<rparr>)
          else (EFI_SUCCESS, rs, take (unat n div 8) L, s\<lparr>Ctx := d\<rparr>))"
      using e l False Y run [folded L_def] unfolding col rs_def [symmetric]
      by (simp add: locate_section_def locate_start_def CoreFindProtocolEntry_def held_def Let_def upd_ctx_def)
    moreover have "hinv d" by (rule same_but_marks_hinv [OF d I1])
    moreover have "installed d = installed ?d" using same_but_marks_installed [OF d] by (simp add: installed_def)
    ultimately show ?thesis using L rs
      by (intro exI [of _ "if rs = 0 then EFI_NOT_FOUND else if rs > n then EFI_BUFFER_TOO_SMALL else EFI_SUCCESS"]
          exI [of _ "if rs = 0 then n else rs"] exI [of _ L] exI [of _ d]) (simp add: size_status_def)
  qed
qed


lemma CoreLocateHandle_ready:
  assumes A: "Asserts P" and s: "ready s" and I: "hinv (Ctx s)" and r: "requests_ok (Ctx s)"
    and b: "length (gHandleList (Ctx s)) < 2 ^ 61" and bp: "n > 0 \<longrightarrow> bp"
  shows "\<exists>st m L d u. CoreLocateHandle P (CoreRestoreTpl P NC (Suc f)) E ByProtocolSearch (Some g) k (Some n) bp s =
      Some (st, Some m, take (unat n div 8) L, u) \<and> after s d u \<and> hinv d \<and> installed d = installed (Ctx s) \<and>
    distinct L \<and> set L = having g (Ctx s) \<and> size_status n L st m"
proof -
  let ?R = "CoreRestoreTpl P NC (Suc f)"
  obtain a where a: "CoreAcquireProtocolLock P s = Some a" "Ctx a = Ctx s" "held a gProtocolDatabaseLock"
    and rel: "\<And>d. \<exists>u. CoreReleaseProtocolLock P ?R (a\<lparr>Ctx := d\<rparr>) = Some u \<and> after s d u"
    using lock_section [OF A s] by blast
  have "\<exists>st m L d. locate_section P E ByProtocolSearch (Some g) k n a = Some (st, m, take (unat n div 8) L, a\<lparr>Ctx := d\<rparr>) \<and>
    hinv d \<and> installed d = installed (Ctx a) \<and> distinct L \<and> set L = having g (Ctx a) \<and> size_status n L st m"
    by (rule locate_section_by_protocol) (use I r b a in simp_all)
  then obtain st m L d where sec: "locate_section P E ByProtocolSearch (Some g) k n a = Some (st, m, take (unat n div 8) L, a\<lparr>Ctx := d\<rparr>)"
    and d: "hinv d" "installed d = installed (Ctx s)" "distinct L" "set L = having g (Ctx s)" "size_status n L st m"
    unfolding a(2) by (elim exE conjE) (rule that)
  obtain u where u: "CoreReleaseProtocolLock P ?R (a\<lparr>Ctx := d\<rparr>) = Some u" "after s d u" using rel by blast
  have "CoreLocateHandle P ?R E ByProtocolSearch (Some g) k (Some n) bp s = Some (st, Some m, take (unat n div 8) L, u)"
    using a(1) sec u(1) bp by (auto simp: CoreLocateHandle_def simp del: CoreRestoreTpl.simps)
  with d u(2) show ?thesis by (intro exI [of _ st] exI [of _ m] exI [of _ L] exI [of _ d] exI [of _ u] conjI)
qed


end
