(* ===== verification/HandleProps.thy ===== *)
theory HandleProps
  imports HandleFind EventProps
begin

unbundle bit_operations_syntax

section \<open>Properties of the handle database\<close>

text \<open>
  The properties of the protocol services, each with a witness on a small system: the state of the boot,
  a pool that returns an address above all addresses in use, and drivers that do nothing.
\<close>

subsection \<open>A small system\<close>

definition addresses :: "'p hdb \<Rightarrow> ptr list" where
  "addresses d = gHandleList d @ mProtocolDatabase d @
     concat (map (\<lambda>e. case Entries d e of None \<Rightarrow> [] | Some Y \<Rightarrow> ByProtocol Y @ Notify Y) (mProtocolDatabase d))"

definition demo_henv :: "unit henv" where
  "demo_henv = \<lparr>PoolAllocate = (\<lambda>n s. (Suc (n + sum_list (addresses (Ctx s))), ())), PoolFree = (\<lambda>a p. p),
     DisconnectController = (\<lambda>_ _ _ _. None), ConnectController = (\<lambda>_ _. None), gDxeCoreImageHandle = 0,
     Mem = (\<lambda>_. 0)\<rparr>"

definition demo_handles :: "unit hstate" where
  "demo_handles = boot_state (empty_hdb ())"

lemma addresses_used:
  assumes I: "hinv d" and u: "\<not> unused a d"
  shows "a \<in> set (addresses d)"
proof -
  have entry: "p \<in> set (addresses d)" if "Entries d e = Some Y" "p \<in> set (ByProtocol Y) \<union> set (Notify Y)" for e Y p
  proof -
    have "e \<in> set (mProtocolDatabase d)" using that(1) hinv_listsD(4) [OF I] by auto
    then show ?thesis using that unfolding addresses_def by force
  qed
  consider "Handles d a \<noteq> None" | "Entries d a \<noteq> None" | I where "Interfaces d a = Some I" | N where "Notifies d a = Some N"
    using u unfolding unused_def by auto
  then show ?thesis
  proof cases
    case 1
    then show ?thesis using hinv_listsD(2) [OF I] by (auto simp: addresses_def)
  next
    case 2
    then show ?thesis using hinv_listsD(4) [OF I] by (auto simp: addresses_def)
  next
    case (3 J)
    then show ?thesis using hinv_interfaceD(3) [OF I 3] entry by blast
  next
    case (4 N)
    then obtain Y where "Entries d (NotifyProtocol N) = Some Y" using hinv_notifyD(2) [OF I] by blast
    then show ?thesis using hinv_entryD(5) [OF I] 4 entry by blast
  qed
qed

lemma demo_pool: "pool_works demo_henv" "pool_ok demo_henv"
proof -
  have "unused (Suc (n + sum_list (addresses d))) d" if "hinv d" for n and d :: "unit hdb"
    using addresses_used [OF that, of "Suc (n + sum_list (addresses d))"]
      member_le_sum_list [of "Suc (n + sum_list (addresses d))" "addresses d"] by auto
  then show "pool_ok demo_henv" by (simp add: pool_ok_def demo_henv_def)
  then show "pool_works demo_henv" by (simp add: pool_works_def demo_henv_def)
qed

lemma demo_handles_ready: "ready demo_handles" "hinv (Ctx demo_handles)" "one_per_handle (Ctx demo_handles)"
  "no_records g (Ctx demo_handles)" "installed (Ctx demo_handles) = {}"
  using boot_state_inv [of "empty_hdb ()"] hinv_empty
  by (simp_all add: demo_handles_def ready_def boot_state_def one_per_handle_def no_records_def empty_hdb_def installed_def)

lemma demo_asserts [simp]: "Asserts demo_platform"
  by (simp add: demo_platform_def)

abbreviation "demo_R \<equiv> CoreRestoreTpl demo_platform (\<lambda>_ _ _ _. Some) (Suc 0)"

text \<open>The state with the interface 100 of protocol 5 on a new handle.\<close>

definition demo_one :: "unit hstate" where
  "demo_one = (case CoreInstallProtocolInterfaceNotify demo_platform demo_R demo_henv (Some 0) (Some 5)
     EFI_NATIVE_INTERFACE 100 True demo_handles of Some (_, _, u) \<Rightarrow> u | None \<Rightarrow> demo_handles)"

lemma demo_one_eval:
  "gHandleList (Ctx demo_one) = [130] \<and> mEfiLocateHandleRequest (Ctx demo_one) = 0 \<and>
   Handles (Ctx demo_one) 130 = Some \<lparr>Protocols = [162], LocateRequest = 0, Key = 1\<rparr> \<and>
   Interfaces (Ctx demo_one) 162 = Some \<lparr>Handle = 130, Protocol = 73, Interface = 100, OpenList = [], OpenListCount = 0\<rparr> \<and>
   map_option ProtocolID (Entries (Ctx demo_one) 73) = Some 5"
  by code_simp

lemma demo_one:
  "CoreInstallProtocolInterfaceNotify demo_platform demo_R demo_henv (Some 0) (Some 5) EFI_NATIVE_INTERFACE 100 True
     demo_handles = Some (EFI_SUCCESS, Some 130, demo_one)"
  "ready demo_one" "hinv (Ctx demo_one)" "one_per_handle (Ctx demo_one)" "installed (Ctx demo_one) = {(130, 5, 100)}"
proof -
  obtain k d u where run: "CoreInstallProtocolInterfaceNotify demo_platform demo_R demo_henv (Some 0) (Some 5)
      EFI_NATIVE_INTERFACE 100 True demo_handles = Some (EFI_SUCCESS, Some k, u)" and a: "after demo_handles d u"
    and d: "hinv d" "installed d = insert (k, 5, 100) (installed (Ctx demo_handles))"
      "one_per_handle (Ctx demo_handles) \<longrightarrow> one_per_handle d" "Handles d k \<noteq> None"
    using CoreInstall_ready [of demo_platform demo_handles demo_henv 0 5 True "\<lambda>_ _ _ _. Some" 0 100]
      demo_pool(1) demo_handles_ready by (auto simp del: CoreRestoreTpl.simps)
  have u: "u = demo_one" using run by (simp add: demo_one_def del: CoreRestoreTpl.simps)
  have "k = 130"
    using d(1,4) a demo_one_eval hinv_listsD(2) [OF d(1)] unfolding u after_def by auto
  with run a d demo_handles_ready show "CoreInstallProtocolInterfaceNotify demo_platform demo_R demo_henv (Some 0) (Some 5)
      EFI_NATIVE_INTERFACE 100 True demo_handles = Some (EFI_SUCCESS, Some 130, demo_one)"
    "ready demo_one" "hinv (Ctx demo_one)" "one_per_handle (Ctx demo_one)" "installed (Ctx demo_one) = {(130, 5, 100)}"
    by (simp_all add: after_def u del: CoreRestoreTpl.simps)
qed

lemma demo_one_interface:
  assumes "Interfaces (Ctx demo_one) q = Some K" "Handle K = 130"
  shows "q = 162 \<and> OpenList K = []"
proof -
  have "q \<in> set [162]" using hinv_handleD(4) [OF demo_one(3), of 130] demo_one_eval assms by fastforce
  then show ?thesis using assms demo_one_eval by auto
qed

subsection \<open>Drivers that open a protocol\<close>

lemma scan_by_driver:
  "scan_open_list ih ch EFI_OPEN_PROTOCOL_BY_DRIVER b x l =
     (if \<exists>od \<in> set l. opened_by ih ch od \<and> Attributes od = EFI_OPEN_PROTOCOL_BY_DRIVER then ScanStarted
      else ScanEnd (b \<or> (\<exists>od \<in> set l. by_driver od)) (x \<or> (\<exists>od \<in> set l. exclusive od)))"
proof (induction l arbitrary: b x)
  case (Cons od l)
  then show ?case by (auto simp: Let_def opened_by_def by_driver_def)
qed simp

text \<open>
  What opening an interface \<open>J\<close> at \<open>p\<close> as a driver comes to; \<open>b\<close> is what the pool gives for the open record,
  0 if it gives nothing.
\<close>

definition driver_opens ::
    "EFI_HANDLE \<Rightarrow> EFI_HANDLE \<Rightarrow> ptr \<Rightarrow> ptr \<Rightarrow> PROTOCOL_INTERFACE \<Rightarrow> 'p hdb \<Rightarrow> EFI_STATUS \<Rightarrow> 'p hdb \<Rightarrow> bool" where
  "driver_opens ih ch b p J c st d \<longleftrightarrow>
    (if \<exists>od \<in> set (OpenList J). opened_by ih ch od \<and> Attributes od = EFI_OPEN_PROTOCOL_BY_DRIVER
     then st = EFI_ALREADY_STARTED \<and> d = c
     else if \<exists>od \<in> set (OpenList J). by_driver od \<or> exclusive od then st = EFI_ACCESS_DENIED \<and> d = c
     else if b = 0 then st = EFI_OUT_OF_RESOURCES \<and> d = c\<lparr>Pool := Pool d\<rparr>
     else st = EFI_SUCCESS \<and> same_but_open c d \<and> (\<forall>q. q \<noteq> p \<longrightarrow> Interfaces d q = Interfaces c q) \<and>
       Interfaces d p = Some (J
         \<lparr>OpenList := OpenList J @ [\<lparr>OpenAddress = b, AgentHandle = ih, ControllerHandle = ch,
            Attributes = EFI_OPEN_PROTOCOL_BY_DRIVER, OpenCount = 1\<rparr>], OpenListCount := OpenListCount J + 1\<rparr>))"

lemma open_section_by_driver:
  assumes I: "hinv (Ctx s)" and ih: "ih \<noteq> 0" and J: "Interfaces (Ctx s) p = Some J"
    and p: "CoreGetProtocolInterface h g (Ctx s) = Some p" "p \<noteq> 0"
  shows "\<exists>st d. open_section P R E h g ih ch EFI_OPEN_PROTOCOL_BY_DRIVER s = Some (st, Interface J, s\<lparr>Ctx := d\<rparr>) \<and>
    hinv d \<and> driver_opens ih ch (fst (PoolAllocate E sizeof_OPEN_PROTOCOL_DATA s)) p J (Ctx s) st d"
proof -
  consider "\<exists>od \<in> set (OpenList J). opened_by ih ch od \<and> Attributes od = EFI_OPEN_PROTOCOL_BY_DRIVER"
    | "\<not> (\<exists>od \<in> set (OpenList J). opened_by ih ch od \<and> Attributes od = EFI_OPEN_PROTOCOL_BY_DRIVER)"
      "\<exists>od \<in> set (OpenList J). by_driver od \<or> exclusive od"
    | "\<forall>od \<in> set (OpenList J). \<not> by_driver od \<and> \<not> exclusive od"
      "\<not> (\<exists>od \<in> set (OpenList J). opened_by ih ch od \<and> Attributes od = EFI_OPEN_PROTOCOL_BY_DRIVER)"
    by blast
  then show ?thesis
  proof cases
    case 1
    then show ?thesis using p J I unfolding driver_opens_def
      by (intro exI [of _ EFI_ALREADY_STARTED] exI [of _ "Ctx s"]) (simp add: open_section_def scan_by_driver Let_def)
  next
    case 2
    then show ?thesis using p J I unfolding driver_opens_def
      by (intro exI [of _ EFI_ACCESS_DENIED] exI [of _ "Ctx s"]) (auto simp: open_section_def scan_by_driver Let_def)
  next
    case 3
    obtain st u where u: "add_open_record E p ih ch EFI_OPEN_PROTOCOL_BY_DRIVER s = (st, u)" by (rule prod.exhaust)
    obtain b v where v: "alloc E sizeof_OPEN_PROTOCOL_DATA s = (b, v)" by (rule prod.exhaust)
    note b = alloc_run(1) [OF v, symmetric]
    obtain d where d: "u = s\<lparr>Ctx := d\<rparr>" "same_but_open (Ctx s) d"
      using add_open_record_effect [OF u] by blast
    have "hinv d" using add_open_record_hinv [OF u I _ J] d(1) 3(1) by (simp add: filter_empty_conv)
    moreover have "open_section P R E h g ih ch EFI_OPEN_PROTOCOL_BY_DRIVER s = Some (st, Interface J, u)"
      using p J 3 u by (auto simp: open_section_def scan_by_driver Let_def)
    moreover have "d = Ctx u" using d(1) by simp
    then have "driver_opens ih ch b p J (Ctx s) st d"
      using u v ih d(2) J 3 alloc_run(2) [OF v]
      by (auto simp: driver_opens_def add_open_record_def Let_def upd_ctx_def upd_interface_def split: if_splits)
    ultimately show ?thesis unfolding b d(1) by blast
  qed
qed

lemma CoreOpenProtocol_by_driver_ready:
  assumes A: "Asserts P" and s: "ready s" and I: "hinv (Ctx s)"
  shows "\<exists>a st out d u. CoreAcquireProtocolLock P s = Some a \<and>
    CoreOpenProtocol P (CoreRestoreTpl P NC (Suc f)) E h G ib ih ch EFI_OPEN_PROTOCOL_BY_DRIVER s = Some (st, out, u) \<and>
    after s d u \<and> hinv d \<and>
    (if G = None \<or> \<not> ib then st = EFI_INVALID_PARAMETER \<and> out = None \<and> d = Ctx s
     else if \<exists>k \<in> {h, ih, ch}. Handles (Ctx s) k = None then st = EFI_INVALID_PARAMETER \<and> out = Some 0 \<and> d = Ctx s
     else if \<forall>i. (h, the G, i) \<notin> installed (Ctx s) then st = EFI_UNSUPPORTED \<and> out = Some 0 \<and> d = Ctx s
     else \<exists>p J. Interfaces (Ctx s) p = Some J \<and> Handle J = h \<and>
       map_option ProtocolID (Entries (Ctx s) (Protocol J)) = G \<and> out = Some (Interface J) \<and>
       driver_opens ih ch (fst (PoolAllocate E sizeof_OPEN_PROTOCOL_DATA a)) p J (Ctx s) st d)"
    (is "\<exists>a st out d u. _ \<and> ?run st out u \<and> _ \<and> _ \<and> ?post a st out d")
proof -
  let ?R = "CoreRestoreTpl P NC (Suc f)"
  obtain a where a: "CoreAcquireProtocolLock P s = Some a" "Ctx a = Ctx s"
    and rel: "\<And>d. \<exists>u. CoreReleaseProtocolLock P ?R (a\<lparr>Ctx := d\<rparr>) = Some u \<and> after s d u"
    using lock_section [OF A s] by blast
  have valid: "CoreValidateHandle k (Ctx s) = (if Handles (Ctx s) k = None then EFI_INVALID_PARAMETER else EFI_SUCCESS)"
    for k using hinv_handleD(1) [OF I, of 0] by (cases "Handles (Ctx s) 0") (auto simp: CoreValidateHandle_def)
  show ?thesis
  proof (cases "G = None \<or> \<not> ib \<or> (\<exists>k \<in> {h, ih, ch}. Handles (Ctx s) k = None)")
    case True
    let ?out = "if G = None \<or> \<not> ib then None else Some 0"
    have "?run EFI_INVALID_PARAMETER ?out s"
      using True valid
      by (auto simp: CoreOpenProtocol_def check_open_attributes_def Let_def split: option.splits simp del: CoreRestoreTpl.simps)
    moreover have "?post a EFI_INVALID_PARAMETER ?out (Ctx s)" using True by auto
    ultimately show ?thesis using a(1) after_refl [OF s] I by blast
  next
    case False
    then obtain g where g: "G = Some g" "ib" and hs: "Handles (Ctx s) h \<noteq> None" "Handles (Ctx s) ih \<noteq> None"
      "Handles (Ctx s) ch \<noteq> None" by auto
    have ok: "CoreValidateHandle h (Ctx s) = EFI_SUCCESS" "CoreValidateHandle ih (Ctx s) = EFI_SUCCESS"
      "CoreValidateHandle ch (Ctx s) = EFI_SUCCESS" using valid hs by simp_all
    have open_run: "?run st (Some i) u" if "open_section P ?R E h g ih ch EFI_OPEN_PROTOCOL_BY_DRIVER a = Some (st, i, a\<lparr>Ctx := d\<rparr>)"
      "CoreReleaseProtocolLock P ?R (a\<lparr>Ctx := d\<rparr>) = Some u" for st i d u
      using that a(1) g ok by (simp add: CoreOpenProtocol_def check_open_attributes_def Let_def del: CoreRestoreTpl.simps)
    obtain p where p: "CoreGetProtocolInterface h g (Ctx s) = Some p" and
      pi: "if p = 0 then \<forall>i. (h, g, i) \<notin> installed (Ctx s)
       else \<exists>J Y. Interfaces (Ctx s) p = Some J \<and> Handle J = h \<and> Entries (Ctx s) (Protocol J) = Some Y \<and> ProtocolID Y = g"
      using interface_lookup [OF I, of h] hs(1) by blast
    show ?thesis
    proof (cases "p = 0")
      case True
      obtain u where u: "CoreReleaseProtocolLock P ?R (a\<lparr>Ctx := Ctx s\<rparr>) = Some u" "after s (Ctx s) u" using rel by blast
      have "a\<lparr>Ctx := Ctx s\<rparr> = a" using a(2) by (metis dxe.surjective dxe.update_convs(5))
      then have "open_section P ?R E h g ih ch EFI_OPEN_PROTOCOL_BY_DRIVER a = Some (EFI_UNSUPPORTED, 0, a\<lparr>Ctx := Ctx s\<rparr>)"
        using p True a(2) by (simp add: open_section_def)
      from open_run [OF this u(1)] show ?thesis using a(1) u(2) I g hs pi True
        by (intro exI [of _ a] exI [of _ EFI_UNSUPPORTED] exI [of _ "Some 0"] exI [of _ "Ctx s"] exI [of _ u]) simp
    next
      case False
      then obtain J Y where J: "Interfaces (Ctx s) p = Some J" "Handle J = h" "Entries (Ctx s) (Protocol J) = Some Y"
        "ProtocolID Y = g" using pi by auto
      have inst: "(h, g, Interface J) \<in> installed (Ctx s)" using J unfolding installed_def by blast
      have "ih \<noteq> 0" using hs(2) hinv_handleD(1) [OF I] by blast
      then obtain st d where sec: "open_section P ?R E h g ih ch EFI_OPEN_PROTOCOL_BY_DRIVER a =
          Some (st, Interface J, a\<lparr>Ctx := d\<rparr>)" "hinv d"
        "driver_opens ih ch (fst (PoolAllocate E sizeof_OPEN_PROTOCOL_DATA a)) p J (Ctx s) st d"
        using open_section_by_driver [of a ih p J h g P ?R E ch] I J(1) p False unfolding a(2) by blast
      obtain u where u: "CoreReleaseProtocolLock P ?R (a\<lparr>Ctx := d\<rparr>) = Some u" "after s d u" using rel by blast
      from open_run [OF sec(1) u(1)] have "?run st (Some (Interface J)) u" .
      moreover have "?post a st (Some (Interface J)) d" using g hs inst J sec(3) by auto
      ultimately show ?thesis using a(1) u(2) sec(2) by blast
    qed
  qed
qed

subsection \<open>Removing several interfaces\<close>

lemma CoreInstall_dead:
  assumes A: "Asserts P" and s: "ready s" and I: "hinv (Ctx s)" and E: "pool_works E"
    and h: "h \<noteq> 0" "Handles (Ctx s) h = None"
  shows "\<exists>d u. CoreInstallProtocolInterfaceNotify P (CoreRestoreTpl P NC (Suc f)) E (Some h) (Some g)
      EFI_NATIVE_INTERFACE i nf s = Some (EFI_INVALID_PARAMETER, Some h, u) \<and> after s d u \<and> hinv d \<and>
    installed d = installed (Ctx s) \<and> Handles d = Handles (Ctx s)"
proof -
  let ?R = "CoreRestoreTpl P NC (Suc f)"
  have bad: "CoreValidateHandle h d = EFI_INVALID_PARAMETER" if "Handles d h = None" for d :: "'a hdb"
    using h(1) that by (simp add: CoreValidateHandle_def)
  have ex: "existing_interface P ?R E h g s = Some (EFI_INVALID_PARAMETER, s)"
    using h bad by (simp add: existing_interface_def CoreHandleProtocol_def CoreOpenProtocol_def Let_def)
  obtain a where a: "CoreAcquireProtocolLock P s = Some a" "Ctx a = Ctx s" "held a gProtocolDatabaseLock"
    and rel: "\<And>d. \<exists>u. CoreReleaseProtocolLock P ?R (a\<lparr>Ctx := d\<rparr>) = Some u \<and> after s d u"
    using lock_section [OF A s] by blast
  obtain e Y d1 where e: "CoreFindProtocolEntry P E g True a = Some (e, a\<lparr>Ctx := d1\<rparr>)" "e \<noteq> 0"
    and d1: "hinv d1" "Handles d1 = Handles (Ctx s)" "installed d1 = installed (Ctx s)"
    using find_or_create_entry [of a E P g] I E a(2,3) by auto
  obtain p v where p: "alloc E sizeof_PROTOCOL_INTERFACE (a\<lparr>Ctx := d1\<rparr>) = (p, v)" by (rule prod.exhaust)
  have p0: "p \<noteq> 0" using alloc_run(1) [OF p] E by (simp add: pool_works_def)
  define d2 where "d2 = d1\<lparr>Pool := snd (PoolAllocate E sizeof_PROTOCOL_INTERFACE (a\<lparr>Ctx := d1\<rparr>))\<rparr>"
  have v: "v = a\<lparr>Ctx := d2\<rparr>" using alloc_ctx [OF p] by (simp add: d2_def)
  have d2: "hinv d2" "Handles d2 = Handles (Ctx s)" "installed d2 = installed (Ctx s)"
    using d1 by (simp_all add: d2_def installed_def)
  have sec: "install_section P ?R E h g i nf EFI_INVALID_PARAMETER a = Some (EFI_INVALID_PARAMETER, h, p, a\<lparr>Ctx := d2\<rparr>)"
    using e p p0 v h bad [of d2] d2(2) by (simp add: install_section_def)
  obtain u where u: "CoreReleaseProtocolLock P ?R (a\<lparr>Ctx := d2\<rparr>) = Some u" "after s d2 u" using rel by blast
  let ?d = "Pool_update (PoolFree E p) d2"
  have "CoreInstallProtocolInterfaceNotify P ?R E (Some h) (Some g) EFI_NATIVE_INTERFACE i nf s =
      Some (EFI_INVALID_PARAMETER, Some h, free E p u)"
    using ex a(1) sec u(1) p0 h(1) by (simp add: CoreInstallProtocolInterfaceNotify_def del: CoreRestoreTpl.simps)
  moreover have "after s ?d (free E p u)" unfolding free_def by (rule after_upd_ctx [OF u(2)])
  moreover have "hinv ?d" "installed ?d = installed (Ctx s)" "Handles ?d = Handles (Ctx s)"
    using d2 by (simp_all add: installed_def)
  ultimately show ?thesis by (intro exI conjI)
qed

section \<open>The properties\<close>

subsection \<open>Reachable states\<close>

definition demo_programs :: "unit driver_programs" where
  "demo_programs = \<lparr>NotifyProgram = (\<lambda>_. []), StopProgram = (\<lambda>_ _ _ _. (EFI_SUCCESS, [])),
     StartProgram = (\<lambda>_ _. (EFI_SUCCESS, []))\<rparr>"

text \<open>One step of this system: a new handle gets a protocol and then opens it as a driver.\<close>

definition demo_call :: call where
  "demo_call = CallsAtTpl TPL_APPLICATION [Install 0 5 100 True, OpenProtocol 130 5 130 130 EFI_OPEN_PROTOCOL_BY_DRIVER]"

lemma demo_call_eval:
  "case run_call demo_platform (system_env demo_platform demo_henv demo_programs 1)
     (system_restore_h demo_platform demo_henv demo_programs 1) demo_call demo_handles of
     None \<Rightarrow> False
   | Some t \<Rightarrow> map_option (\<lambda>J. map by_driver (OpenList J)) (Interfaces (Ctx t) 162) = Some [True]"
  by code_simp

lemma demo_step:
  "\<exists>t J. (system_step demo_platform demo_henv demo_programs 1)\<^sup>*\<^sup>* demo_handles t \<and>
     Interfaces (Ctx t) 162 = Some J \<and> map by_driver (OpenList J) = [True]"
proof -
  obtain t where t: "run_call demo_platform (system_env demo_platform demo_henv demo_programs 1)
     (system_restore_h demo_platform demo_henv demo_programs 1) demo_call demo_handles = Some t"
    and J: "map_option (\<lambda>J. map by_driver (OpenList J)) (Interfaces (Ctx t) 162) = Some [True]"
    using demo_call_eval by (auto split: option.splits)
  have "(system_step demo_platform demo_henv demo_programs 1)\<^sup>*\<^sup>* demo_handles t"
    by (rule r_into_rtranclp) (rule system_step.call [OF t])
  with J show ?thesis by auto
qed

lemma demo_boot: "hboot demo_handles"
  by (auto simp: hboot_def demo_handles_def)

text \<open>C18. In every state that any calls of event and protocol services reach from the boot, the handle
  database is well linked: every handle on the list of handles has an interface, the interfaces of each
  handle and of each protocol are exactly those that point back to it, GUIDs are unique, the counts of
  open records are right, and positions of notification records are links of their protocol. Notification
  functions and the starting and stopping of drivers may call any services again.\<close>

theorem handle_services_invariant:
  assumes "Asserts P" "pool_ok B" "hboot s" "(system_step P B D n)\<^sup>*\<^sup>* s t"
  shows "hinv (Ctx t)"
  using hs.inv_reachable [OF assms(3,4)] assms(1,2) by blast

theorem handle_services_invariant_witness:
  "\<exists>t. (system_step demo_platform demo_henv demo_programs 1)\<^sup>*\<^sup>* demo_handles t \<and>
     Interfaces (Ctx t) 162 \<noteq> None \<and> hinv (Ctx t)"
  using demo_step handle_services_invariant [OF demo_asserts demo_pool(2) demo_boot] by blast

text \<open>C19. In every state that any calls reach from the boot, at most one open record of an interface is that of a
  driver that manages the controller (\<open>BY_DRIVER\<close>), even when an exclusive opener disconnects drivers and
  those open or close protocols while they stop.\<close>

theorem one_driver_per_interface:
  assumes "Asserts P" "pool_ok B" "hboot s" "(system_step P B D n)\<^sup>*\<^sup>* s t" "Interfaces (Ctx t) p = Some J"
  shows "length (filter by_driver (OpenList J)) \<le> 1"
proof -
  have "hinv (Ctx t)" using hs.inv_reachable [OF assms(3,4)] assms(1,2) by blast
  then show ?thesis using hinv_interfaceD(4) assms(5) by (auto simp: open_list_ok_def)
qed

theorem one_driver_per_interface_witness:
  "\<exists>t J. Interfaces (Ctx t) 162 = Some J \<and> map by_driver (OpenList (J :: PROTOCOL_INTERFACE)) = [True] \<and>
     length (filter by_driver (OpenList J)) \<le> 1 \<and> (system_step demo_platform demo_henv demo_programs 1)\<^sup>*\<^sup>* demo_handles t"
proof -
  obtain t J where t: "(system_step demo_platform demo_henv demo_programs 1)\<^sup>*\<^sup>* demo_handles t"
    "Interfaces (Ctx t) 162 = Some J" "map by_driver (OpenList J) = [True]" using demo_step by (elim exE conjE) (rule that)
  with one_driver_per_interface [OF demo_asserts demo_pool(2) demo_boot t(1,2)] t(2,3) show ?thesis
    by (intro exI [of _ t] exI [of _ J] conjI t)
qed

subsection \<open>The services\<close>

text \<open>C20. Installing an interface of a protocol that the handle does not have, or on a new handle, returns success and
  adds exactly this triple of handle, protocol and interface to the installed ones; the database stays well
  linked, with one interface per handle and protocol. (Nobody is registered for the protocol, or the
  installation does not notify, memory is available, and nothing of higher priority is pending.)\<close>

theorem CoreInstallProtocolInterface_installs:
  assumes "Asserts P" "ready s" "hinv (Ctx s)" "pool_works E" "h \<noteq> 0 \<longrightarrow> Handles (Ctx s) h \<noteq> None"
    and "\<forall>j. (h, g, j) \<notin> installed (Ctx s)" "nf \<longrightarrow> no_records g (Ctx s)"
  shows "\<exists>k d u. CoreInstallProtocolInterfaceNotify P (CoreRestoreTpl P NC (Suc n)) E (Some h) (Some g)
      EFI_NATIVE_INTERFACE i nf s = Some (EFI_SUCCESS, Some k, u) \<and> after s d u \<and> hinv d \<and>
    installed d = insert (k, g, i) (installed (Ctx s)) \<and> (one_per_handle (Ctx s) \<longrightarrow> one_per_handle d) \<and>
    (if h = 0 then Handles (Ctx s) k = None else k = h) \<and> Handles d k \<noteq> None"
  by (rule CoreInstall_ready) (rule assms)+

theorem CoreInstallProtocolInterface_installs_witness:
  "\<exists>u. CoreInstallProtocolInterfaceNotify demo_platform demo_R demo_henv (Some 130) (Some 6) EFI_NATIVE_INTERFACE 200 False
     demo_one = Some (EFI_SUCCESS, Some 130, u) \<and> installed (Ctx u) = {(130, 6, 200), (130, 5, 100)}"
  using CoreInstallProtocolInterface_installs [of demo_platform demo_one demo_henv 130 6 False "\<lambda>_ _ _ _. Some" 0 200]
    demo_pool(1) demo_one demo_one_eval by (auto simp: after_def simp del: CoreRestoreTpl.simps)

text \<open>\<open>CoreHandleProtocol\<close> of a valid handle returns \<open>EFI_UNSUPPORTED\<close> and NULL if the handle does not have the
  protocol, and otherwise the installed interface, with success or, if there is no memory for the open
  record, \<open>EFI_OUT_OF_RESOURCES\<close>. Nothing but open records changes.\<close>

theorem CoreHandleProtocol_finds:
  assumes "Asserts P" "ready s" "hinv (Ctx s)" "Handles (Ctx s) h = Some H"
  shows "\<exists>st i d u. CoreHandleProtocol P (CoreRestoreTpl P NC (Suc n)) E h (Some g) True s = Some (st, Some i, u) \<and>
    after s d u \<and> same_but_open (Ctx s) d \<and> hinv d \<and>
    (if \<forall>i. (h, g, i) \<notin> installed (Ctx s) then st = EFI_UNSUPPORTED \<and> i = 0 \<and> d = Ctx s
     else (h, g, i) \<in> installed (Ctx s) \<and> (st = EFI_SUCCESS \<or> st = EFI_OUT_OF_RESOURCES))"
  by (rule CoreHandleProtocol_ready) (rule assms)+

theorem CoreHandleProtocol_finds_witness:
  "(\<exists>st u. CoreHandleProtocol demo_platform demo_R demo_henv 130 (Some 5) True demo_one = Some (st, Some 100, u)) \<and>
   (\<exists>u. CoreHandleProtocol demo_platform demo_R demo_henv 130 (Some 6) True demo_one = Some (EFI_UNSUPPORTED, Some 0, u))"
  using CoreHandleProtocol_finds [of demo_platform demo_one 130 _ "\<lambda>_ _ _ _. Some" 0 demo_henv 5]
    CoreHandleProtocol_finds [of demo_platform demo_one 130 _ "\<lambda>_ _ _ _. Some" 0 demo_henv 6]
    demo_one demo_one_eval by (auto simp del: CoreRestoreTpl.simps)

text \<open>C21. Uninstalling an installed interface that no driver or exclusive opener uses succeeds, removes exactly its
  triple, drops its open records, and frees the handle if and only if that was its last interface.\<close>

theorem CoreUninstallProtocolInterface_removes:
  assumes "Asserts P" "ready s" "hinv (Ctx s)" "one_per_handle (Ctx s)" "(h, g, i) \<in> installed (Ctx s)"
    and "\<And>p J. Interfaces (Ctx s) p = Some J \<Longrightarrow> Handle J = h \<Longrightarrow> Interface J = i \<Longrightarrow> removable J"
  shows "\<exists>d u. CoreUninstallProtocolInterface P (CoreRestoreTpl P NC (Suc n)) E h (Some g) i s = Some (EFI_SUCCESS, u) \<and>
    after s d u \<and> hinv d \<and> one_per_handle d \<and> installed d = installed (Ctx s) - {(h, g, i)} \<and>
    (Handles d h = None \<longleftrightarrow> (\<forall>g' i'. (h, g', i') \<in> installed (Ctx s) \<longrightarrow> (g', i') = (g, i)))"
  by (rule CoreUninstall_ready) (rule assms; assumption)+

theorem CoreUninstallProtocolInterface_removes_witness:
  "\<exists>u. CoreUninstallProtocolInterface demo_platform demo_R demo_henv 130 (Some 5) 100 demo_one = Some (EFI_SUCCESS, u) \<and>
     installed (Ctx u) = {} \<and> Handles (Ctx u) 130 = None"
proof -
  have "removable J" if "Interfaces (Ctx demo_one) p = Some J" "Handle J = 130" for p J
    using demo_one_interface [OF that] by (simp add: removable_def)
  then show ?thesis
    using CoreUninstallProtocolInterface_removes [of demo_platform demo_one 130 5 100 "\<lambda>_ _ _ _. Some" 0 demo_henv] demo_one
    by (auto simp: after_def simp del: CoreRestoreTpl.simps)
qed

text \<open>C22. \<open>CoreLocateHandle\<close> by protocol finds every handle that has the protocol, once each. It writes those that fit
  into the buffer, and returns \<open>EFI_NOT_FOUND\<close> if there are none, success and the size of the result if all
  fit, and otherwise \<open>EFI_BUFFER_TOO_SMALL\<close> and the size that is needed.\<close>

theorem CoreLocateHandle_finds:
  assumes "Asserts P" "ready s" "hinv (Ctx s)" "requests_ok (Ctx s)" "length (gHandleList (Ctx s)) < 2 ^ 61"
    and "n > 0 \<longrightarrow> bp"
  shows "\<exists>st m L d u. CoreLocateHandle P (CoreRestoreTpl P NC (Suc f)) E ByProtocolSearch (Some g) k (Some n) bp s =
      Some (st, Some m, take (unat n div 8) L, u) \<and> after s d u \<and> hinv d \<and> installed d = installed (Ctx s) \<and>
    distinct L \<and> set L = {h. \<exists>i. (h, g, i) \<in> installed (Ctx s)} \<and>
    (if L = [] then st = EFI_NOT_FOUND \<and> m = n
     else unat m = 8 * length L \<and> st = (if 8 * length L \<le> unat n then EFI_SUCCESS else EFI_BUFFER_TOO_SMALL))"
  using CoreLocateHandle_ready [OF assms] unfolding having_def size_status_def .

lemma demo_one_requests: "requests_ok (Ctx demo_one)"
proof -
  have "h = 130" if "Handles (Ctx demo_one) h = Some H" for h H
    using that hinv_listsD(2) [OF demo_one(3)] demo_one_eval by auto
  then show ?thesis using demo_one_eval unfolding requests_ok_def by fastforce
qed

theorem CoreLocateHandle_finds_witness:
  "(\<exists>u. CoreLocateHandle demo_platform demo_R demo_henv ByProtocolSearch (Some 5) 0 (Some 8) True demo_one =
      Some (EFI_SUCCESS, Some 8, [130], u)) \<and>
   (\<exists>u. CoreLocateHandle demo_platform demo_R demo_henv ByProtocolSearch (Some 5) 0 (Some 0) False demo_one =
      Some (EFI_BUFFER_TOO_SMALL, Some 8, [], u))"
proof -
  have one: "L = [130]" if "distinct L" "set L = {h. \<exists>i. (h, 5 :: EFI_GUID, i) \<in> installed (Ctx demo_one)}" for L
  proof -
    have "set L = {130}" using that(2) demo_one(5) by auto
    moreover from this have "length L = 1" using distinct_card [OF that(1)] by simp
    ultimately show ?thesis by (cases L) auto
  qed
  have eight: "m = 8" if "unat m = 8" for m :: uintn using that by (simp add: word_unat_eq_iff)
  note find = CoreLocateHandle_finds [OF demo_asserts demo_one(2,3) demo_one_requests,
      where NC = "\<lambda>_ _ _ _. Some" and f = 0 and E = demo_henv and g = 5 and k = 0]
  have l: "length (gHandleList (Ctx demo_one)) < 2 ^ 61" using demo_one_eval by simp
  have "\<exists>u. CoreLocateHandle demo_platform demo_R demo_henv ByProtocolSearch (Some 5) 0 (Some n) bp demo_one =
      Some (if 8 \<le> unat n then EFI_SUCCESS else EFI_BUFFER_TOO_SMALL, Some 8, take (unat n div 8) [130], u)"
    if n: "n > 0 \<longrightarrow> bp" for n bp
  proof -
    obtain st m L d u where run: "CoreLocateHandle demo_platform demo_R demo_henv ByProtocolSearch (Some 5) 0 (Some n) bp demo_one =
        Some (st, Some m, take (unat n div 8) L, u)"
      and L: "distinct L" "set L = {h. \<exists>i. (h, 5 :: EFI_GUID, i) \<in> installed (Ctx demo_one)}"
      and st: "if L = [] then st = EFI_NOT_FOUND \<and> m = n
        else unat m = 8 * length L \<and> st = (if 8 * length L \<le> unat n then EFI_SUCCESS else EFI_BUFFER_TOO_SMALL)"
      using find [OF l n] by (elim exE conjE) (rule that)
    have "L = [130]" by (rule one [OF L])
    then show ?thesis using run st eight [of m] by (simp del: CoreRestoreTpl.simps)
  qed
  from this [of 8 True] this [of 0 False] show ?thesis by (simp del: CoreRestoreTpl.simps)
qed

text \<open>C23. What opening a protocol \<open>BY_DRIVER\<close> returns, on every branch, and what it changes.
  \<open>EFI_INVALID_PARAMETER\<close> without a GUID or a place for the interface, and then if one of the three handles is
  not in the database; \<open>EFI_UNSUPPORTED\<close> if the handle has no such protocol; \<open>EFI_ALREADY_STARTED\<close> if this
  driver manages this controller already; \<open>EFI_ACCESS_DENIED\<close> if another driver or an exclusive opener has the
  protocol open; \<open>EFI_OUT_OF_RESOURCES\<close> if the pool has no memory for the open record, where nothing but the
  pool differs; and otherwise success, the one case in which the database is changed, by one new open record
  at the end of the list of the interface.\<close>

theorem CoreOpenProtocol_by_driver:
  assumes "Asserts P" "ready s" "hinv (Ctx s)"
  shows "\<exists>a st out d u. CoreAcquireProtocolLock P s = Some a \<and>
    CoreOpenProtocol P (CoreRestoreTpl P NC (Suc f)) E h G ib ih ch EFI_OPEN_PROTOCOL_BY_DRIVER s = Some (st, out, u) \<and>
    after s d u \<and> hinv d \<and>
    (if G = None \<or> \<not> ib then st = EFI_INVALID_PARAMETER \<and> out = None \<and> d = Ctx s
     else if \<exists>k \<in> {h, ih, ch}. Handles (Ctx s) k = None then st = EFI_INVALID_PARAMETER \<and> out = Some 0 \<and> d = Ctx s
     else if \<forall>i. (h, the G, i) \<notin> installed (Ctx s) then st = EFI_UNSUPPORTED \<and> out = Some 0 \<and> d = Ctx s
     else \<exists>p J. Interfaces (Ctx s) p = Some J \<and> Handle J = h \<and>
       map_option ProtocolID (Entries (Ctx s) (Protocol J)) = G \<and> out = Some (Interface J) \<and>
       driver_opens ih ch (fst (PoolAllocate E sizeof_OPEN_PROTOCOL_DATA a)) p J (Ctx s) st d)"
  by (rule CoreOpenProtocol_by_driver_ready) (rule assms)+

theorem CoreOpenProtocol_by_driver_witness:
  "\<exists>u a. CoreOpenProtocol demo_platform demo_R demo_henv 130 (Some 5) True 130 130 EFI_OPEN_PROTOCOL_BY_DRIVER demo_one =
       Some (EFI_SUCCESS, Some 100, u) \<and>
     map_option OpenList (Interfaces (Ctx u) 162) = Some [\<lparr>OpenAddress = a, AgentHandle = 130, ControllerHandle = 130,
       Attributes = EFI_OPEN_PROTOCOL_BY_DRIVER, OpenCount = 1\<rparr>]"
proof -
  have h: "Handles (Ctx demo_one) 130 \<noteq> None" using demo_one_eval by simp
  obtain a st out d u where run: "CoreOpenProtocol demo_platform demo_R demo_henv 130 (Some 5) True 130 130
      EFI_OPEN_PROTOCOL_BY_DRIVER demo_one = Some (st, out, u)" and u: "after demo_one d u" and
    post: "\<exists>p J. Interfaces (Ctx demo_one) p = Some J \<and> Handle J = 130 \<and> out = Some (Interface J) \<and>
       driver_opens 130 130 (fst (PoolAllocate demo_henv sizeof_OPEN_PROTOCOL_DATA a)) p J (Ctx demo_one) st d"
    using CoreOpenProtocol_by_driver [OF demo_asserts demo_one(2,3), of "\<lambda>_ _ _ _. Some" 0 demo_henv 130 "Some 5"
        True 130 130] h demo_one(5)
    by (elim exE conjE) (fastforce simp del: CoreRestoreTpl.simps intro: that)
  obtain p J where J: "Interfaces (Ctx demo_one) p = Some J" "Handle J = 130" "out = Some (Interface J)"
    "driver_opens 130 130 (fst (PoolAllocate demo_henv sizeof_OPEN_PROTOCOL_DATA a)) p J (Ctx demo_one) st d"
    using post by blast
  have p: "p = 162" "OpenList J = []" using demo_one_interface [OF J(1,2)] by auto
  have "J = \<lparr>Handle = 130, Protocol = 73, Interface = 100, OpenList = [], OpenListCount = 0\<rparr>"
    using J(1) demo_one_eval unfolding p(1) by simp
  then have "Interface J = 100" by simp
  moreover have "fst (PoolAllocate demo_henv sizeof_OPEN_PROTOCOL_DATA a) \<noteq> 0"
    using demo_pool(1) by (simp add: pool_works_def)
  ultimately show ?thesis using run J(3,4) p u
    by (auto simp: driver_opens_def after_def simp del: CoreRestoreTpl.simps)
qed

text \<open>C24. Uninstalling several interfaces at once is not undone after an error when the last interface of the handle was
  among those removed before: the handle is freed with it, and the installation that should bring it back
  fails, so that an error is returned and the handle and the interface are gone.\<close>

theorem CoreUninstallMultiple_loses_handle:
  assumes A: "Asserts P" and s: "ready s" and I: "hinv (Ctx s)" and U: "one_per_handle (Ctx s)" and E: "pool_works E"
    and inst: "(h, g, i) \<in> installed (Ctx s)" and only: "\<And>g' i'. (h, g', i') \<in> installed (Ctx s) \<Longrightarrow> (g', i') = (g, i)"
    and r: "\<And>p J. Interfaces (Ctx s) p = Some J \<Longrightarrow> Handle J = h \<Longrightarrow> Interface J = i \<Longrightarrow> removable J"
  shows "\<exists>u. CoreUninstallMultipleProtocolInterfaces P (CoreRestoreTpl P NC (Suc n)) E h [(g, i), (g2, i2)] s =
      Some (EFI_INVALID_PARAMETER, u) \<and> ready u \<and> hinv (Ctx u) \<and> Handles (Ctx u) h = None \<and>
      installed (Ctx u) = installed (Ctx s) - {(h, g, i)}"
proof -
  let ?R = "CoreRestoreTpl P NC (Suc n)"
  obtain d u where u: "CoreUninstallProtocolInterface P ?R E h (Some g) i s = Some (EFI_SUCCESS, u)" "after s d u"
    "hinv d" "installed d = installed (Ctx s) - {(h, g, i)}"
    "Handles d h = None \<longleftrightarrow> (\<forall>g' i'. (h, g', i') \<in> installed (Ctx s) \<longrightarrow> (g', i') = (g, i))"
  proof -
    have "\<exists>d u. CoreUninstallProtocolInterface P ?R E h (Some g) i s = Some (EFI_SUCCESS, u) \<and> after s d u \<and> hinv d \<and>
      one_per_handle d \<and> installed d = installed (Ctx s) - {(h, g, i)} \<and>
      (Handles d h = None \<longleftrightarrow> (\<forall>g' i'. (h, g', i') \<in> installed (Ctx s) \<longrightarrow> (g', i') = (g, i)))"
      by (rule CoreUninstall_ready [OF A s I U inst]) (rule r)
    then show thesis by (elim exE conjE) (rule that)
  qed
  have gone: "Handles (Ctx u) h = None" and cu: "Ctx u = d" "ready u" using u(2,5) only by (auto simp: after_def)
  have h0: "h \<noteq> 0" using inst hinv_interfaceD(2) [OF I] hinv_handleD(1) [OF I] unfolding installed_def by blast
  have second: "CoreUninstallProtocolInterface P ?R E h (Some g2) i2 u = Some (EFI_INVALID_PARAMETER, u)"
    using gone h0 by (simp add: CoreUninstallProtocolInterface_def CoreValidateHandle_def del: CoreRestoreTpl.simps)
  obtain d' v where v: "CoreInstallProtocolInterfaceNotify P ?R E (Some h) (Some g) EFI_NATIVE_INTERFACE i True u =
      Some (EFI_INVALID_PARAMETER, Some h, v)" "after u d' v" "hinv d'" "installed d' = installed d" "Handles d' = Handles d"
    using CoreInstall_dead [OF A cu(2) u(3) [folded cu(1)] E h0 gone, of NC n g i True] unfolding cu(1)
    by (elim exE conjE) (rule that)
  have "CoreUninstallMultipleProtocolInterfaces P ?R E h [(g, i), (g2, i2)] s = Some (EFI_INVALID_PARAMETER, v)"
    using u(1) second v(1)
    by (simp add: CoreUninstallMultipleProtocolInterfaces_def CoreInstallProtocolInterface_def del: CoreRestoreTpl.simps)
  with v(2-5) u(4) gone cu(1) show ?thesis by (auto simp: after_def)
qed

theorem CoreUninstallMultiple_loses_handle_witness:
  "\<exists>u. CoreUninstallMultipleProtocolInterfaces demo_platform demo_R demo_henv 130 [(5, 100), (6, 200)] demo_one =
      Some (EFI_INVALID_PARAMETER, u) \<and> Handles (Ctx u) 130 = None \<and> installed (Ctx u) = {}"
proof -
  have "removable J" if "Interfaces (Ctx demo_one) p = Some J" "Handle J = 130" for p J
    using demo_one_interface [OF that] by (simp add: removable_def)
  then have "\<exists>u. CoreUninstallMultipleProtocolInterfaces demo_platform demo_R demo_henv 130 [(5, 100), (6, 200)] demo_one =
      Some (EFI_INVALID_PARAMETER, u) \<and> ready u \<and> hinv (Ctx u) \<and> Handles (Ctx u) 130 = None \<and>
      installed (Ctx u) = installed (Ctx demo_one) - {(130, 5, 100)}"
    by (intro CoreUninstallMultiple_loses_handle demo_asserts demo_one(2-4) demo_pool(1)) (simp_all add: demo_one(5))
  then show ?thesis by (simp add: demo_one(5) del: CoreRestoreTpl.simps) blast
qed

end
