(* ===== verification/Dispatcher.thy ===== *)
theory Dispatcher
  imports Dependency LinkedList
begin

unbundle bit_operations_syntax

section \<open>The DXE dispatcher\<close>

text \<open>
  Model of \<^verbatim>\<open>MdeModulePkg/Core/Dxe/Dispatcher/Dispatcher.c\<close>: the discovery of drivers in firmware volumes, the
  queue of scheduled drivers with the \<open>BEFORE\<close> and \<open>AFTER\<close> dependencies, and the loop that loads and starts
  drivers.

  The global variables are the fields of \<open>disp\<close>. Drivers are found by their address (0 is NULL); the lists of
  discovered drivers and of known firmware volumes hold addresses. The queue of scheduled drivers is kept in its
  links, because the code links entries without looking whether they are linked already: \<open>ScheduledLinks\<close> is the
  store of \<^verbatim>\<open>mScheduledQueue\<close> and of the \<^verbatim>\<open>ScheduledLink\<close> fields, and the queue is changed by \<open>InsertTailList\<close> and
  \<open>RemoveEntryList\<close> only, whatever that makes of it. \<open>World\<close> is the rest of the core. While
  \<open>mDispatcherLock\<close> is held no event is signalled, so releasing it runs no notification function.

  \<open>denv\<close> holds what the file calls elsewhere. Loading and starting an image and signalling an event may run
  drivers, and those any service of the dispatcher; these functions change the whole state. The firmware
  volume protocols, the pool and the security protocol are functions of the world.
\<close>

subsection \<open>Data\<close>

record 'w disp =
  mDiscoveredList :: "nat list"
  ScheduledLinks :: heap
  mFvHandleList :: "nat list"
  mDispatcherLock :: EFI_LOCK_STATE
  gDispatcherRunning :: bool
  Drivers :: "nat \<rightharpoonup> EFI_CORE_DRIVER_ENTRY"
  EvaluationStack :: depex_stack
  CoreFilePath :: nat
  CoreDeviceHandle :: nat
  World :: 'w

record 'w denv =
  Pcd :: PCD
  AllocBools :: "'w \<Rightarrow> alloc_bools"
  LocateProtocol :: "'w \<Rightarrow> EFI_GUID \<Rightarrow> EFI_STATUS"
  AllEfiServicesAvailable :: "'w \<Rightarrow> EFI_STATUS"
  CreateDispatchEvent :: "'w \<Rightarrow> EFI_STATUS \<times> 'w"
  SignalDispatchEvent :: "'w disp \<Rightarrow> 'w disp option"
  CloseDispatchEvent :: "'w \<Rightarrow> 'w"
  LoadImage :: "nat \<Rightarrow> 'w disp \<Rightarrow> (EFI_STATUS \<times> nat \<times> 'w disp) option"
  StartImage :: "nat \<Rightarrow> 'w disp \<Rightarrow> 'w disp option"
  AllocateDriver :: "'w disp \<Rightarrow> nat \<times> 'w"
  AllocateKnownHandle :: "'w \<Rightarrow> bool \<times> 'w"
  ReadDepex :: "nat \<Rightarrow> EFI_GUID \<Rightarrow> 'w \<Rightarrow> EFI_STATUS \<times> uint8 list \<times> nat \<times> 'w"
  HandleDevicePath :: "nat \<Rightarrow> 'w \<Rightarrow> EFI_STATUS \<times> nat \<times> 'w"
  HandleFv2 :: "nat \<Rightarrow> 'w \<Rightarrow> EFI_STATUS \<times> nat \<times> 'w"
  FileDevicePath :: "nat option \<Rightarrow> EFI_GUID \<Rightarrow> 'w \<Rightarrow> nat \<times> 'w"
  NextFvHandle :: "'w \<Rightarrow> EFI_STATUS \<times> nat \<times> 'w"
  Security :: "(nat \<Rightarrow> 'w \<Rightarrow> EFI_STATUS) option"
  FilesOfType :: "nat \<Rightarrow> nat \<Rightarrow> 'w \<Rightarrow> EFI_GUID list"
  ReadApriori :: "nat \<Rightarrow> 'w \<Rightarrow> EFI_STATUS \<times> EFI_GUID list \<times> 'w"
  FreeApriori :: "'w \<Rightarrow> 'w"
  gDxeCoreFileName :: EFI_GUID
  HobFv2Files :: "EFI_GUID list"
  ReadFvImage :: "nat \<Rightarrow> EFI_GUID \<Rightarrow> 'w \<Rightarrow> EFI_STATUS \<times> nat \<times> uint32 \<times> nat \<times> 'w"
  AllocateAlignedPages :: "nat \<Rightarrow> nat \<Rightarrow> 'w \<Rightarrow> nat \<times> 'w"
  FreeBuffer :: "nat \<Rightarrow> 'w \<Rightarrow> 'w"
  FreeAlignedPages :: "nat \<Rightarrow> nat \<Rightarrow> 'w \<Rightarrow> 'w"
  ProduceFVBProtocolOnBuffer :: "nat \<Rightarrow> nat \<Rightarrow> nat \<Rightarrow> 'w \<Rightarrow> EFI_STATUS \<times> 'w"

abbreviation Debugging :: "'w denv \<Rightarrow> bool" where
  "Debugging E \<equiv> DebugAssertEnabled (Pcd E)"

text \<open>File types of \<^verbatim>\<open>MdePkg/Include/Pi/PiFirmwareFile.h\<close>.\<close>

abbreviation (input) "EFI_FV_FILETYPE_DXE_CORE \<equiv> 0x05 :: nat"
abbreviation (input) "EFI_FV_FILETYPE_DRIVER \<equiv> 0x07 :: nat"
abbreviation (input) "EFI_FV_FILETYPE_COMBINED_PEIM_DRIVER \<equiv> 0x08 :: nat"
abbreviation (input) "EFI_FV_FILETYPE_FIRMWARE_VOLUME_IMAGE \<equiv> 0x0B :: nat"
abbreviation (input) "EFI_FV_FILETYPE_COMBINED_SMM_DXE \<equiv> 0x0C :: nat"

definition mDxeFileTypes :: "nat list" where
  "mDxeFileTypes = [EFI_FV_FILETYPE_DRIVER, EFI_FV_FILETYPE_COMBINED_SMM_DXE,
     EFI_FV_FILETYPE_COMBINED_PEIM_DRIVER, EFI_FV_FILETYPE_DXE_CORE, EFI_FV_FILETYPE_FIRMWARE_VOLUME_IMAGE]"

definition upd_driver :: "nat \<Rightarrow> (EFI_CORE_DRIVER_ENTRY \<Rightarrow> EFI_CORE_DRIVER_ENTRY) \<Rightarrow> 'w disp \<Rightarrow> 'w disp" where
  "upd_driver d f s = s\<lparr>Drivers := (Drivers s)(d := map_option f (Drivers s d))\<rparr>"

subsection \<open>Lock and queue\<close>

definition CoreAcquireDispatcherLock :: "bool \<Rightarrow> 'w disp \<Rightarrow> 'w disp option" where
  "CoreAcquireDispatcherLock en s = do {
     ASSERT en (Some (mDispatcherLock s = EfiLockReleased));
     Some (s\<lparr>mDispatcherLock := EfiLockAcquired\<rparr>)
   }"

definition CoreReleaseDispatcherLock :: "bool \<Rightarrow> 'w disp \<Rightarrow> 'w disp option" where
  "CoreReleaseDispatcherLock en s = do {
     ASSERT en (Some (mDispatcherLock s = EfiLockAcquired));
     Some (s\<lparr>mDispatcherLock := EfiLockReleased\<rparr>)
   }"

text \<open>The list entries of the queue, by their places in the store of the links: its head, and the link of a driver.\<close>

definition mScheduledQueue :: ptr where
  "mScheduledQueue = 1"

definition ScheduledLink :: "nat \<Rightarrow> ptr" where
  "ScheduledLink d = d + 2"

definition enqueue_driver :: "PCD \<Rightarrow> nat \<Rightarrow> 'w disp \<Rightarrow> 'w disp option" where
  "enqueue_driver cfg d s = map_option (\<lambda>(_, links). s\<lparr>ScheduledLinks := links\<rparr>)
     (InsertTailList cfg (ScheduledLinks s) mScheduledQueue (ScheduledLink d))"

definition dequeue_driver :: "PCD \<Rightarrow> nat \<Rightarrow> 'w disp \<Rightarrow> 'w disp option" where
  "dequeue_driver cfg d s = map_option (\<lambda>(_, links). s\<lparr>ScheduledLinks := links\<rparr>)
     (RemoveEntryList cfg (ScheduledLinks s) (ScheduledLink d))"

subsection \<open>Dependency sections, Schedule and Trust\<close>

definition CoreGetDepexSectionAndPreProccess :: "'w denv \<Rightarrow> nat \<Rightarrow> 'w disp \<Rightarrow> (EFI_STATUS \<times> 'w disp) option" where
  "CoreGetDepexSectionAndPreProccess E d s = do {
     DriverEntry \<leftarrow> Drivers s d;
     let (Status, section, n, w) = ReadDepex E (Fv DriverEntry) (FileName DriverEntry) (World s);
     let s = s\<lparr>World := w\<rparr>;
     if EFI_ERROR Status then
       Some (Status, upd_driver d
         (if Status = EFI_PROTOCOL_ERROR then DepexProtocolError_update (\<lambda>_. True)
          else (\<lambda>e. e\<lparr>Depex := None, Dependent := True, DepexProtocolError := False\<rparr>)) s)
     else do {
       (_, e) \<leftarrow> CorePreProcessDepex (DriverEntry\<lparr>Depex := Some section, DepexSize := n\<rparr>);
       Some (Status, upd_driver d (\<lambda>_. e\<lparr>DepexProtocolError := False\<rparr>) s)
     }
   }"

text \<open>The first driver of a list that a condition holds of, 0 if there is none.\<close>

primrec find_driver :: "(nat \<rightharpoonup> EFI_CORE_DRIVER_ENTRY) \<Rightarrow> (EFI_CORE_DRIVER_ENTRY \<Rightarrow> bool) \<Rightarrow> nat list \<Rightarrow> nat option" where
  "find_driver ds c [] = Some 0"
| "find_driver ds c (d # l) = do {
     DriverEntry \<leftarrow> ds d;
     if c DriverEntry then Some d else find_driver ds c l
   }"

definition CoreSchedule :: "'w denv \<Rightarrow> nat \<Rightarrow> EFI_GUID \<Rightarrow> 'w disp \<Rightarrow> (EFI_STATUS \<times> 'w disp) option" where
  "CoreSchedule E FirmwareVolumeHandle DriverName s = do {
     d \<leftarrow> find_driver (Drivers s) (\<lambda>e. FvHandle e = FirmwareVolumeHandle \<and> Unrequested e \<and> FileName e = DriverName)
       (mDiscoveredList s);
     if d = 0 then Some (EFI_NOT_FOUND, s)
     else do {
       s \<leftarrow> CoreAcquireDispatcherLock (Debugging E) s;
       s \<leftarrow> CoreReleaseDispatcherLock (Debugging E) (upd_driver d (\<lambda>e. e\<lparr>Unrequested := False, Dependent := True\<rparr>) s);
       Some (EFI_SUCCESS, s)
     }
   }"

definition CoreTrust :: "'w denv \<Rightarrow> nat \<Rightarrow> EFI_GUID \<Rightarrow> 'w disp \<Rightarrow> (EFI_STATUS \<times> 'w disp) option" where
  "CoreTrust E FirmwareVolumeHandle DriverName s = do {
     d \<leftarrow> find_driver (Drivers s) (\<lambda>e. FvHandle e = FirmwareVolumeHandle \<and> Untrusted e \<and> FileName e = DriverName)
       (mDiscoveredList s);
     if d = 0 then Some (EFI_NOT_FOUND, s)
     else do {
       s \<leftarrow> CoreAcquireDispatcherLock (Debugging E) s;
       s \<leftarrow> enqueue_driver (Pcd E) d (upd_driver d (\<lambda>e. e\<lparr>Untrusted := False, Scheduled := True\<rparr>) s);
       s \<leftarrow> CoreReleaseDispatcherLock (Debugging E) s;
       Some (EFI_SUCCESS, s)
     }
   }"

subsection \<open>Scheduling with BEFORE and AFTER\<close>

text \<open>The state change in the middle of \<open>CoreInsertOnScheduledQueueWhileProcessingBeforeAndAfter\<close>.\<close>

definition schedule_driver :: "PCD \<Rightarrow> nat \<Rightarrow> 'w disp \<Rightarrow> 'w disp option" where
  "schedule_driver cfg d s = do {
     s \<leftarrow> CoreAcquireDispatcherLock (DebugAssertEnabled cfg) s;
     s \<leftarrow> enqueue_driver cfg d (upd_driver d (\<lambda>e. e\<lparr>Dependent := False, Scheduled := True\<rparr>) s);
     CoreReleaseDispatcherLock (DebugAssertEnabled cfg) s
   }"

text \<open>The loop over the discovered drivers; \<open>sel\<close> is \<open>Before\<close> or \<open>After\<close>, \<open>rec\<close> the recursive call.\<close>

primrec related_loop ::
    "(nat \<Rightarrow> 'w disp \<Rightarrow> 'w disp option) \<Rightarrow> (EFI_CORE_DRIVER_ENTRY \<Rightarrow> bool) \<Rightarrow> nat \<Rightarrow> nat list \<Rightarrow> 'w disp \<Rightarrow> 'w disp option" where
  "related_loop rec sel d [] s = Some s"
| "related_loop rec sel d (l # ls) s = do {
     DriverEntry \<leftarrow> Drivers s l;
     InsertedDriverEntry \<leftarrow> Drivers s d;
     s \<leftarrow> (if sel DriverEntry \<and> Dependent DriverEntry \<and>
              FileName InsertedDriverEntry = BeforeAfterGuid DriverEntry
           then rec l s else Some s);
     related_loop rec sel d ls s
   }"

text \<open>
  The recursion with the depth of the calls as the first argument. Calls are nested for drivers that are
  \<open>Dependent\<close>, and scheduling a driver clears that. With \<open>n\<close> drivers, calls nested more than \<open>n * (n + 1)\<close> deep have
  entered some driver twice with no driver scheduled in between (the set of dependent drivers shrinks at most
  \<open>n\<close> times). Which calls are made depends on nothing else that changes, so such a recursion never ends.
\<close>

primrec insert_driver :: "nat \<Rightarrow> PCD \<Rightarrow> nat \<Rightarrow> 'w disp \<Rightarrow> 'w disp option" where
  "insert_driver 0 cfg d s = None"
| "insert_driver (Suc n) cfg d s = do {
     s \<leftarrow> related_loop (insert_driver n cfg) Before d (mDiscoveredList s) s;
     s \<leftarrow> schedule_driver cfg d s;
     related_loop (insert_driver n cfg) After d (mDiscoveredList s) s
   }"

definition CoreInsertOnScheduledQueueWhileProcessingBeforeAndAfter ::
    "'w denv \<Rightarrow> nat \<Rightarrow> 'w disp \<Rightarrow> 'w disp option" where
  "CoreInsertOnScheduledQueueWhileProcessingBeforeAndAfter E d s =
     (let n = length (mDiscoveredList s) in insert_driver (n * (n + 1) + 1) (Pcd E) d s)"

subsection \<open>The dispatch loop\<close>

text \<open>One turn of the loop that drains the queue: whether a driver was started.\<close>

definition unschedule_driver ::
    "PCD \<Rightarrow> (EFI_CORE_DRIVER_ENTRY \<Rightarrow> EFI_CORE_DRIVER_ENTRY) \<Rightarrow> nat \<Rightarrow> 'w disp \<Rightarrow> 'w disp option" where
  "unschedule_driver cfg f d s = do {
     s \<leftarrow> CoreAcquireDispatcherLock (DebugAssertEnabled cfg) s;
     s \<leftarrow> dequeue_driver cfg d (upd_driver d (\<lambda>e. (f e)\<lparr>Scheduled := False\<rparr>) s);
     CoreReleaseDispatcherLock (DebugAssertEnabled cfg) s
   }"

definition dispatch_driver :: "'w denv \<Rightarrow> nat \<Rightarrow> 'w disp \<Rightarrow> (bool \<times> 'w disp) option" where
  "dispatch_driver E d s = do {
     DriverEntry \<leftarrow> Drivers s d;
     (Status, s) \<leftarrow>
       (if ImageHandle DriverEntry = 0 then do {
          (Status, h, s) \<leftarrow> LoadImage E (FvFileDevicePath DriverEntry) s;
          Some (Status, upd_driver d (ImageHandle_update (\<lambda>_. h)) s)
        }
        else Some (EFI_SUCCESS, s));
     if EFI_ERROR Status then do {
       s \<leftarrow> unschedule_driver (Pcd E) (if Status = EFI_SECURITY_VIOLATION then Untrusted_update (\<lambda>_. True)
         else Initialized_update (\<lambda>_. True)) d s;
       Some (False, s)
     }
     else do {
       s \<leftarrow> unschedule_driver (Pcd E) (Initialized_update (\<lambda>_. True)) d s;
       DriverEntry \<leftarrow> Drivers s d;
       s \<leftarrow> StartImage E (ImageHandle DriverEntry) s;
       Some (True, s)
     }
   }"

text \<open>\<^verbatim>\<open>CR (mScheduledQueue.ForwardLink, ...)\<close>: the driver whose link comes first.\<close>

definition first_scheduled :: "'w disp \<Rightarrow> nat option" where
  "first_scheduled s = do {
     l \<leftarrow> fwd (ScheduledLinks s) mScheduledQueue;
     if l < ScheduledLink 0 then None else Some (l - ScheduledLink 0)
   }"

partial_function (option) drain_queue :: "'w denv \<Rightarrow> EFI_STATUS \<Rightarrow> 'w disp \<Rightarrow> (EFI_STATUS \<times> 'w disp) option" where
  "drain_queue E ReturnStatus s =
     Option.bind (IsListEmpty (Pcd E) (ScheduledLinks s) mScheduledQueue) (\<lambda>empty.
       if empty then Some (ReturnStatus, s)
       else Option.bind (first_scheduled s) (\<lambda>d. Option.bind (dispatch_driver E d s) (\<lambda>(started, s).
         drain_queue E (if started then EFI_SUCCESS else ReturnStatus) s)))"

declare drain_queue.simps [code]

text \<open>The search for drivers to schedule: \<open>ReadyToRun\<close> and the state.\<close>

definition search_driver :: "'w denv \<Rightarrow> nat \<Rightarrow> 'w disp \<Rightarrow> (bool \<times> 'w disp) option" where
  "search_driver E d s = do {
     DriverEntry \<leftarrow> Drivers s d;
     s \<leftarrow> (if DepexProtocolError DriverEntry then map_option snd (CoreGetDepexSectionAndPreProccess E d s) else Some s);
     DriverEntry \<leftarrow> Drivers s d;
     if Dependent DriverEntry then do {
       (b, e, st) \<leftarrow> CoreIsSchedulable (Debugging E) (AllocBools E (World s)) (LocateProtocol E (World s))
         (AllEfiServicesAvailable E (World s)) DriverEntry (EvaluationStack s);
       let s = upd_driver d (\<lambda>_. e) (s\<lparr>EvaluationStack := st\<rparr>);
       if b then do {
         s \<leftarrow> CoreInsertOnScheduledQueueWhileProcessingBeforeAndAfter E d s;
         Some (True, s)
       }
       else Some (False, s)
     }
     else Some (False, s)
   }"

primrec search_loop :: "'w denv \<Rightarrow> nat list \<Rightarrow> bool \<Rightarrow> 'w disp \<Rightarrow> (bool \<times> 'w disp) option" where
  "search_loop E [] ReadyToRun s = Some (ReadyToRun, s)"
| "search_loop E (d # ds) ReadyToRun s = do {
     (b, s) \<leftarrow> search_driver E d s;
     search_loop E ds (ReadyToRun \<or> b) s
   }"

partial_function (option) dispatch_rounds :: "'w denv \<Rightarrow> EFI_STATUS \<Rightarrow> 'w disp \<Rightarrow> (EFI_STATUS \<times> 'w disp) option" where
  "dispatch_rounds E ReturnStatus s =
     Option.bind (drain_queue E ReturnStatus s) (\<lambda>(ReturnStatus, s).
     Option.bind (if \<not> EFI_ERROR ReturnStatus then SignalDispatchEvent E s else Some s) (\<lambda>s.
     Option.bind (search_loop E (mDiscoveredList s) False s) (\<lambda>(ReadyToRun, s).
       if ReadyToRun then dispatch_rounds E ReturnStatus s else Some (ReturnStatus, s))))"

declare dispatch_rounds.simps [code]

definition CoreDispatcher :: "'w denv \<Rightarrow> 'w disp \<Rightarrow> (EFI_STATUS \<times> 'w disp) option" where
  "CoreDispatcher E s =
     (if gDispatcherRunning s then Some (EFI_ALREADY_STARTED, s)
      else
        let s = s\<lparr>gDispatcherRunning := True\<rparr>;
            (Status, w) = CreateDispatchEvent E (World s);
            s = s\<lparr>World := w\<rparr>
        in if EFI_ERROR Status then Some (Status, s)
        else do {
          (ReturnStatus, s) \<leftarrow> dispatch_rounds E EFI_NOT_FOUND s;
          let s = s\<lparr>World := CloseDispatchEvent E (World s)\<rparr>;
          Some (ReturnStatus, s\<lparr>gDispatcherRunning := False\<rparr>)
        })"

subsection \<open>Discovery of drivers\<close>

definition FvHasBeenProcessed :: "nat \<Rightarrow> 'w disp \<Rightarrow> bool" where
  "FvHasBeenProcessed h s \<longleftrightarrow> h \<in> set (mFvHandleList s)"

definition FvIsBeingProcesssed :: "'w denv \<Rightarrow> nat \<Rightarrow> 'w disp \<Rightarrow> 'w disp option" where
  "FvIsBeingProcesssed E h s = do {
     let (ok, w) = AllocateKnownHandle E (World s);
     if ok then Some (s\<lparr>World := w, mFvHandleList := mFvHandleList s @ [h]\<rparr>) else None
   }"

definition CoreFvToDevicePath :: "'w denv \<Rightarrow> nat \<Rightarrow> EFI_GUID \<Rightarrow> 'w \<Rightarrow> nat \<times> 'w" where
  "CoreFvToDevicePath E h DriverName w =
     (let (Status, FvDevicePath, w) = HandleDevicePath E h w in
      if EFI_ERROR Status then (0, w) else FileDevicePath E (Some FvDevicePath) DriverName w)"

definition zero_driver :: EFI_CORE_DRIVER_ENTRY where
  "zero_driver = \<lparr>FvHandle = 0, FileName = 0, FvFileDevicePath = 0, Fv = 0, Depex = None, DepexSize = 0,
     Before = False, After = False, BeforeAfterGuid = 0, Dependent = False, Unrequested = False,
     Scheduled = False, Untrusted = False, Initialized = False, DepexProtocolError = False, ImageHandle = 0\<rparr>"

definition CoreAddToDriverList :: "'w denv \<Rightarrow> nat \<Rightarrow> nat \<Rightarrow> EFI_GUID \<Rightarrow> 'w disp \<Rightarrow> 'w disp option" where
  "CoreAddToDriverList E fv h DriverName s = do {
     let (d, w) = AllocateDriver E s;
     if d = 0 then None
     else do {
       let (path, w) = CoreFvToDevicePath E h DriverName w;
       let s = s\<lparr>World := w, Drivers := (Drivers s)(d \<mapsto> zero_driver
         \<lparr>FileName := DriverName, FvHandle := h, Fv := fv, FvFileDevicePath := path\<rparr>),
         ScheduledLinks := (ScheduledLinks s)(ScheduledLink d \<mapsto> \<lparr>ForwardLink = 0, BackLink = 0\<rparr>)\<rparr>;
       (_, s) \<leftarrow> CoreGetDepexSectionAndPreProccess E d s;
       s \<leftarrow> CoreAcquireDispatcherLock (Debugging E) s;
       CoreReleaseDispatcherLock (Debugging E) (s\<lparr>mDiscoveredList := mDiscoveredList s @ [d]\<rparr>)
     }
   }"

definition FvFoundInHobFv2 :: "'w denv \<Rightarrow> EFI_GUID \<Rightarrow> bool" where
  "FvFoundInHobFv2 E DriverName \<longleftrightarrow> DriverName \<in> set (HobFv2Files E)"

text \<open>The alignment that a firmware volume image asks for; the shift is one of 32-bit \<open>int\<close>.\<close>

definition FvAlignment :: "uint32 \<Rightarrow> nat" where
  "FvAlignment attr = (let a = push_bit (unat (drop_bit 16 (attr AND 0x001F0000))) (1 :: uint32)
     in if a < 8 then 8 else unat a)"

definition CoreProcessFvImageFile :: "'w denv \<Rightarrow> nat \<Rightarrow> nat \<Rightarrow> EFI_GUID \<Rightarrow> 'w \<Rightarrow> EFI_STATUS \<times> 'w" where
  "CoreProcessFvImageFile E fv h DriverName w =
     (let (Status, Buffer, attr, BufferSize, w) = ReadFvImage E fv DriverName w in
      if EFI_ERROR Status then (Status, if Buffer \<noteq> 0 then FreeBuffer E Buffer w else w)
      else
        let (AlignedBuffer, w) = AllocateAlignedPages E ((BufferSize + 0xFFF) div 0x1000) (FvAlignment attr) w in
        if AlignedBuffer = 0 then (EFI_OUT_OF_RESOURCES, if Buffer \<noteq> 0 then FreeBuffer E Buffer w else w)
        else
          let w = FreeBuffer E Buffer w;
              (Status, w) = ProduceFVBProtocolOnBuffer E AlignedBuffer BufferSize h w
          in (Status, if EFI_ERROR Status then FreeAlignedPages E AlignedBuffer ((BufferSize + 0xFFF) div 0x1000) w else w))"

text \<open>What is done with one file of a firmware volume.\<close>

definition add_file :: "'w denv \<Rightarrow> nat \<Rightarrow> nat \<Rightarrow> nat \<Rightarrow> EFI_GUID \<Rightarrow> 'w disp \<Rightarrow> 'w disp option" where
  "add_file E fv h ty NameGuid s =
     (if ty = EFI_FV_FILETYPE_DXE_CORE then
        Some (if CoreFilePath s = 0 \<and> NameGuid = gDxeCoreFileName E then
            let (path, w) = FileDevicePath E None NameGuid (World s)
            in s\<lparr>World := w, CoreFilePath := path, CoreDeviceHandle := h\<rparr>
          else s)
      else if ty = EFI_FV_FILETYPE_FIRMWARE_VOLUME_IMAGE then
        Some (if FvFoundInHobFv2 E NameGuid then s
          else s\<lparr>World := snd (CoreProcessFvImageFile E fv h NameGuid (World s))\<rparr>)
      else CoreAddToDriverList E fv h NameGuid s)"

primrec add_files :: "'w denv \<Rightarrow> nat \<Rightarrow> nat \<Rightarrow> nat \<Rightarrow> EFI_GUID list \<Rightarrow> 'w disp \<Rightarrow> 'w disp option" where
  "add_files E fv h ty [] s = Some s"
| "add_files E fv h ty (g # gs) s = do { s \<leftarrow> add_file E fv h ty g s; add_files E fv h ty gs s }"

primrec discover_files :: "'w denv \<Rightarrow> nat \<Rightarrow> nat \<Rightarrow> nat list \<Rightarrow> 'w disp \<Rightarrow> 'w disp option" where
  "discover_files E fv h [] s = Some s"
| "discover_files E fv h (ty # tys) s = do {
     s \<leftarrow> add_files E fv h ty (FilesOfType E fv ty (World s)) s;
     discover_files E fv h tys s
   }"

text \<open>The a priori file: each of its drivers is put on the queue.\<close>

primrec schedule_apriori :: "PCD \<Rightarrow> nat \<Rightarrow> EFI_GUID list \<Rightarrow> 'w disp \<Rightarrow> 'w disp option" where
  "schedule_apriori cfg h [] s = Some s"
| "schedule_apriori cfg h (g # gs) s = do {
     d \<leftarrow> find_driver (Drivers s) (\<lambda>e. FileName e = g \<and> h = FvHandle e) (mDiscoveredList s);
     s \<leftarrow> (if d = 0 then Some s
           else enqueue_driver cfg d (upd_driver d (\<lambda>e. e\<lparr>Dependent := False, Scheduled := True\<rparr>) s));
     schedule_apriori cfg h gs s
   }"

definition process_apriori :: "'w denv \<Rightarrow> nat \<Rightarrow> nat \<Rightarrow> 'w disp \<Rightarrow> 'w disp option" where
  "process_apriori E fv h s = do {
     let (Status, AprioriFile, w) = ReadApriori E fv (World s);
     s \<leftarrow> CoreAcquireDispatcherLock (Debugging E) (s\<lparr>World := w\<rparr>);
     s \<leftarrow> schedule_apriori (Pcd E) h (if EFI_ERROR Status then [] else AprioriFile) s;
     s \<leftarrow> CoreReleaseDispatcherLock (Debugging E) s;
     Some (s\<lparr>World := FreeApriori E (World s)\<rparr>)
   }"

text \<open>One firmware volume, after it has been located.\<close>

definition process_fv :: "'w denv \<Rightarrow> nat \<Rightarrow> 'w disp \<Rightarrow> 'w disp option" where
  "process_fv E h s =
     (if FvHasBeenProcessed h s then Some s
      else do {
        s \<leftarrow> FvIsBeingProcesssed E h s;
        let (Status, fv, w) = HandleFv2 E h (World s);
        let s = s\<lparr>World := w\<rparr>;
        if EFI_ERROR Status \<or> fv = 0 then do {
          ASSERT (Debugging E) (Some False);
          Some s
        }
        else do {
          let (Status, FvDevicePath, w) = HandleDevicePath E h (World s);
          let s = s\<lparr>World := w\<rparr>;
          if EFI_ERROR Status then Some s
          else if (case Security E of None \<Rightarrow> False | Some f \<Rightarrow> f FvDevicePath (World s) \<noteq> EFI_SUCCESS) then Some s
          else do {
            s \<leftarrow> discover_files E fv h mDxeFileTypes s;
            process_apriori E fv h s
          }
        }
      })"

partial_function (option) CoreFwVolEventProtocolNotify :: "'w denv \<Rightarrow> 'w disp \<Rightarrow> 'w disp option" where
  "CoreFwVolEventProtocolNotify E s =
     (let (Status, h, w) = NextFvHandle E (World s); s = s\<lparr>World := w\<rparr> in
      if EFI_ERROR Status then Some s
      else Option.bind (process_fv E h s) (CoreFwVolEventProtocolNotify E))"

declare CoreFwVolEventProtocolNotify.simps [code]

text \<open>The names that the debug output lists as discovered and not dispatched.\<close>

definition CoreDisplayDiscoveredNotDispatched :: "'w disp \<Rightarrow> EFI_GUID list option" where
  "CoreDisplayDiscoveredNotDispatched s =
     map_option (map FileName \<circ> filter Dependent) (those (map (Drivers s) (mDiscoveredList s)))"

end
