(* ===== verification/DispatcherSched.thy ===== *)
theory DispatcherSched
  imports Dispatcher
begin

section \<open>Scheduling with BEFORE and AFTER\<close>

text \<open>
  What \<open>CoreInsertOnScheduledQueueWhileProcessingBeforeAndAfter\<close> does: it links a list of drivers at the end of the
  queue and marks them as scheduled. When no two drivers have the same file name and the queue is a proper list, the
  recursion ends, the drivers are new on the queue, and they are exactly those that depend on the given one, in
  the order that their \<open>BEFORE\<close> and \<open>AFTER\<close> sections ask for.
\<close>

subsection \<open>The queue and its links\<close>

text \<open>\<open>queued s q\<close>: the links of the queue are a proper list, of the drivers \<open>q\<close>.\<close>

definition queued :: "'w disp \<Rightarrow> nat list \<Rightarrow> bool" where
  "queued s q \<longleftrightarrow> is_list (ScheduledLinks s) mScheduledQueue (map ScheduledLink q)"

text \<open>The store has the head of the queue and the links of all drivers.\<close>

definition links_mapped :: "'w disp \<Rightarrow> bool" where
  "links_mapped s \<longleftrightarrow> mapped (ScheduledLinks s) mScheduledQueue \<and>
     (\<forall>d \<in> dom (Drivers s). mapped (ScheduledLinks s) (ScheduledLink d))"

lemma ScheduledLink_inj [simp]: "ScheduledLink c = ScheduledLink d \<longleftrightarrow> c = d" "ScheduledLink d \<noteq> mScheduledQueue"
    "mScheduledQueue \<noteq> ScheduledLink d" "ScheduledLink d \<noteq> 0"
  by (simp_all add: ScheduledLink_def mScheduledQueue_def)

lemma ScheduledLink_mem [simp]: "ScheduledLink d \<in> ScheduledLink ` A \<longleftrightarrow> d \<in> A"
  by auto

lemma queued_unique: "queued s q \<Longrightarrow> queued s q' \<Longrightarrow> q = q'"
  unfolding queued_def using is_list_unique inj_map_eq_map [of ScheduledLink q q'] by (metis ScheduledLink_inj(1) injI)

lemma queued_distinct: "queued s q \<Longrightarrow> distinct q"
  by (simp add: queued_def is_list_def distinct_map)

text \<open>Checks of a debug build only decide whether an operation returns. \<open>room\<close>: they let a list of \<open>n\<close> entries pass.\<close>

definition release_pcd :: PCD where
  "release_pcd = \<lparr>DebugAssertEnabled = False, PcdVerifyNodeInList = False, PcdMaximumLinkedListLength = 0\<rparr>"

definition room :: "PCD \<Rightarrow> nat \<Rightarrow> bool" where
  "room cfg n \<longleftrightarrow> DebugAssertEnabled cfg \<longrightarrow> fits cfg n"

lemma release_pcd_simps [simp]: "DebugAssertEnabled release_pcd = False" "fits release_pcd n" "room release_pcd n"
  by (simp_all add: release_pcd_def fits_def room_def)

lemma ASSERT_SomeD: "ASSERT en c = Some u \<Longrightarrow> ASSERT False c = Some u"
  by (auto simp: ASSERT_def split: if_splits)

lemma InsertTailList_release: "InsertTailList cfg h l e = Some r \<Longrightarrow> InsertTailList release_pcd h l e = Some r"
  by (auto simp: InsertTailList_def bind_eq_Some_conv)

lemma RemoveEntryList_release: "RemoveEntryList cfg h e = Some r \<Longrightarrow> RemoveEntryList release_pcd h e = Some r"
  by (auto simp: RemoveEntryList_def bind_eq_Some_conv)

lemma IsListEmpty_release: "IsListEmpty cfg h l = Some b \<Longrightarrow> IsListEmpty release_pcd h l = Some b"
  by (auto simp: IsListEmpty_def bind_eq_Some_conv)

lemma no_asserts:
  assumes "\<not> DebugAssertEnabled cfg"
  shows "InsertTailList cfg = InsertTailList release_pcd" "RemoveEntryList cfg = RemoveEntryList release_pcd"
    "IsListEmpty cfg = IsListEmpty release_pcd"
  using assms by (simp_all add: fun_eq_iff InsertTailList_def RemoveEntryList_def IsListEmpty_def)

lemma set_link_dom: "set_fwd h p v = Some h' \<Longrightarrow> dom h' = dom h" "set_bwd h p v = Some h' \<Longrightarrow> dom h' = dom h"
  by (auto simp: set_fwd_def set_bwd_def split: if_splits option.splits)

lemma InsertTailList_dom: "InsertTailList cfg h l e = Some (r, h') \<Longrightarrow> dom h' = dom h"
  by (clarsimp simp: InsertTailList_def bind_eq_Some_conv dest!: set_link_dom)

lemma RemoveEntryList_dom: "RemoveEntryList cfg h e = Some (r, h') \<Longrightarrow> dom h' = dom h"
  by (clarsimp simp: RemoveEntryList_def bind_eq_Some_conv dest!: set_link_dom)

text \<open>The links after \<open>d\<close> has been put at the end of the queue, proper or not.\<close>

definition link_tail :: "nat \<Rightarrow> heap \<Rightarrow> heap" where
  "link_tail d h = (case InsertTailList release_pcd h mScheduledQueue (ScheduledLink d) of
     Some (_, h') \<Rightarrow> h' | None \<Rightarrow> h)"

lemma enqueue_driver_Some:
  "enqueue_driver cfg d s = Some t \<Longrightarrow> t = s\<lparr>ScheduledLinks := link_tail d (ScheduledLinks s)\<rparr>"
  by (auto simp: enqueue_driver_def link_tail_def dest: InsertTailList_release)

lemma enqueue_driver_release: "enqueue_driver cfg d s = Some t \<Longrightarrow> enqueue_driver release_pcd d s = Some t"
proof -
  assume "enqueue_driver cfg d s = Some t"
  then obtain r where r: "InsertTailList cfg (ScheduledLinks s) mScheduledQueue (ScheduledLink d) = Some r"
    and t: "t = s\<lparr>ScheduledLinks := snd r\<rparr>" by (auto simp: enqueue_driver_def)
  show ?thesis using InsertTailList_release [OF r] by (simp add: enqueue_driver_def t split_beta)
qed

lemma dom_link_tail [simp]: "dom (link_tail d h) = dom h"
  by (auto simp: link_tail_def InsertTailList_dom split: option.split)

lemma mapped_link_tail [simp]: "mapped (link_tail d h) p = mapped h p"
  by (simp add: mapped_def)

lemma link_tail_list:
  assumes "is_list h mScheduledQueue (map ScheduledLink q)" "d \<notin> set q" "mapped h (ScheduledLink d)"
  shows "is_list (link_tail d h) mScheduledQueue (map ScheduledLink (q @ [d]))"
  using InsertTailList_list [OF assms(1,3), of release_pcd] assms(2) by (auto simp: link_tail_def)

lemma enqueue_driver_runs:
  assumes "queued s q" "d \<notin> set q" "mapped (ScheduledLinks s) (ScheduledLink d)" "room cfg (Suc (length q))"
  shows "enqueue_driver cfg d s = Some (s\<lparr>ScheduledLinks := link_tail d (ScheduledLinks s)\<rparr>)"
proof -
  let ?run = "\<lambda>c. InsertTailList c (ScheduledLinks s) mScheduledQueue (ScheduledLink d)"
  have runs: "\<exists>h'. ?run c = Some (mScheduledQueue, h')" if "fits c (Suc (length q))" for c
    using InsertTailList_list [of "ScheduledLinks s" mScheduledQueue "map ScheduledLink q" "ScheduledLink d" c] assms(1-3) that
    by (auto simp: queued_def)
  have "\<exists>h'. ?run cfg = Some (mScheduledQueue, h')"
  proof (cases "DebugAssertEnabled cfg")
    case True
    then show ?thesis using runs assms(4) by (simp add: room_def)
  next
    case False
    then show ?thesis using runs [of release_pcd] by (simp add: no_asserts [OF False])
  qed
  then obtain h' where h': "?run cfg = Some (mScheduledQueue, h')" by blast
  then show ?thesis using InsertTailList_release [OF h'] by (simp add: enqueue_driver_def link_tail_def)
qed

text \<open>Taking a driver off a proper queue.\<close>

lemma RemoveEntryList_queued:
  assumes "queued s (us @ d # vs)"
  shows "\<exists>r h. RemoveEntryList release_pcd (ScheduledLinks s) (ScheduledLink d) = Some (r, h) \<and>
    is_list h mScheduledQueue (map ScheduledLink (us @ vs))"
proof -
  have "is_list (ScheduledLinks s) mScheduledQueue (map ScheduledLink us @ ScheduledLink d # map ScheduledLink vs)"
    using assms by (simp add: queued_def)
  from RemoveEntryList_list [OF this, of release_pcd] show ?thesis by auto
qed

lemma dequeue_driver_Some:
  assumes "dequeue_driver cfg d s = Some t"
  shows "\<exists>h. t = s\<lparr>ScheduledLinks := h\<rparr> \<and> dom h = dom (ScheduledLinks s) \<and>
    (\<forall>us vs. queued s (us @ d # vs) \<longrightarrow> queued t (us @ vs))"
proof -
  obtain r h where h: "RemoveEntryList cfg (ScheduledLinks s) (ScheduledLink d) = Some (r, h)"
    and t: "t = s\<lparr>ScheduledLinks := h\<rparr>" using assms by (auto simp: dequeue_driver_def)
  have "queued t (us @ vs)" if "queued s (us @ d # vs)" for us vs
    using RemoveEntryList_queued [OF that] RemoveEntryList_release [OF h] by (simp add: queued_def t)
  with t RemoveEntryList_dom [OF h] show ?thesis by blast
qed

lemma dequeue_driver_runs:
  assumes "queued s (us @ d # vs)" "\<not> DebugAssertEnabled cfg"
  shows "\<exists>h. dequeue_driver cfg d s = Some (s\<lparr>ScheduledLinks := h\<rparr>)"
  using RemoveEntryList_queued [OF assms(1)] by (auto simp: dequeue_driver_def no_asserts [OF assms(2)])

text \<open>Looking at a proper queue.\<close>

lemma queue_first:
  assumes "queued s q" "IsListEmpty cfg (ScheduledLinks s) mScheduledQueue = Some b"
  shows "b \<longleftrightarrow> q = []" "q = d # q' \<Longrightarrow> first_scheduled s = Some d"
proof -
  show "b \<longleftrightarrow> q = []" using IsListEmpty_release [OF assms(2)] assms(1)
      IsListEmpty_list [of "ScheduledLinks s" mScheduledQueue "map ScheduledLink q" release_pcd] by (simp add: queued_def)
  show "first_scheduled s = Some d" if "q = d # q'"
    using assms(1) that by (simp add: queued_def is_list_def first_scheduled_def ScheduledLink_def)
qed

lemma queue_empty_runs:
  assumes "queued s q" "\<not> DebugAssertEnabled cfg"
  shows "IsListEmpty cfg (ScheduledLinks s) mScheduledQueue = Some (q = [])"
  using assms(1) IsListEmpty_list [of "ScheduledLinks s" mScheduledQueue "map ScheduledLink q" release_pcd]
  by (simp add: queued_def no_asserts [OF assms(2)])

subsection \<open>The effect: drivers put at the end of the queue\<close>

abbreviation to_scheduled :: "EFI_CORE_DRIVER_ENTRY \<Rightarrow> EFI_CORE_DRIVER_ENTRY" where
  "to_scheduled e \<equiv> e\<lparr>Dependent := False, Scheduled := True\<rparr>"

definition sched :: "nat list \<Rightarrow> 'w disp \<Rightarrow> 'w disp" where
  "sched B s = s\<lparr>ScheduledLinks := fold link_tail B (ScheduledLinks s),
     Drivers := (\<lambda>k. if k \<in> set B then map_option to_scheduled (Drivers s k) else Drivers s k)\<rparr>"

lemma sched_Nil [simp]: "sched [] s = s"
  by (simp add: sched_def)

lemma sched_simps [simp]:
  "mDiscoveredList (sched B s) = mDiscoveredList s" "ScheduledLinks (sched B s) = fold link_tail B (ScheduledLinks s)"
  "mDispatcherLock (sched B s) = mDispatcherLock s" "mFvHandleList (sched B s) = mFvHandleList s"
  "World (sched B s) = World s" "gDispatcherRunning (sched B s) = gDispatcherRunning s"
  "EvaluationStack (sched B s) = EvaluationStack s"
  by (simp_all add: sched_def)

lemma Drivers_sched: "Drivers (sched B s) k = (if k \<in> set B then map_option to_scheduled (Drivers s k) else Drivers s k)"
  by (simp add: sched_def)

lemma sched_sched [simp]: "sched C (sched B s) = sched (B @ C) s"
  by (auto simp: sched_def fun_eq_iff option.map_comp comp_def)

lemma dom_sched [simp]: "dom (Drivers (sched B s)) = dom (Drivers s)"
  by (auto simp: dom_def Drivers_sched)

lemma mapped_links_sched [simp]: "mapped (fold link_tail B h) p = mapped h p"
  by (induction B arbitrary: h) simp_all

lemma links_mapped_sched [simp]: "links_mapped (sched B s) = links_mapped s"
  by (simp add: links_mapped_def)

text \<open>Drivers that are not on the queue yet leave it proper.\<close>

lemma queued_sched:
  assumes "queued s q" "links_mapped s"
  shows "distinct B \<Longrightarrow> set B \<inter> set q = {} \<Longrightarrow> set B \<subseteq> dom (Drivers s) \<Longrightarrow> queued (sched B s) (q @ B)"
proof (induction B rule: rev_induct)
  case (snoc d B)
  have "mapped (fold link_tail B (ScheduledLinks s)) (ScheduledLink d)"
    using assms(2) snoc.prems(3) by (auto simp: links_mapped_def)
  moreover have "queued (sched B s) (q @ B)" using snoc by auto
  ultimately show ?case
    using link_tail_list [of "fold link_tail B (ScheduledLinks s)" "q @ B" d] snoc.prems by (auto simp: queued_def)
qed (use assms in simp)

lemma schedule_driver_Some:
  assumes "schedule_driver cfg d s = Some t" "mDispatcherLock s = EfiLockReleased"
  shows "t = sched [d] s"
proof -
  obtain u where u: "enqueue_driver cfg d (upd_driver d to_scheduled (s\<lparr>mDispatcherLock := EfiLockAcquired\<rparr>)) = Some u"
    and t: "t = u\<lparr>mDispatcherLock := EfiLockReleased\<rparr>"
    using assms(1) by (auto simp: schedule_driver_def CoreAcquireDispatcherLock_def CoreReleaseDispatcherLock_def bind_eq_Some_conv)
  show ?thesis
    using assms(2) unfolding t enqueue_driver_Some [OF u] by (simp add: upd_driver_def sched_def fun_upd_def fun_eq_iff)
qed

lemma schedule_driver_runs:
  assumes "mDispatcherLock s = EfiLockReleased" "queued s q" "d \<notin> set q" "mapped (ScheduledLinks s) (ScheduledLink d)"
    and "room cfg (Suc (length q))"
  shows "schedule_driver cfg d s = Some (sched [d] s)"
proof -
  let ?u = "upd_driver d to_scheduled (s\<lparr>mDispatcherLock := EfiLockAcquired\<rparr>)"
  have "queued ?u q" "mapped (ScheduledLinks ?u) (ScheduledLink d)" using assms(2,4) by (simp_all add: queued_def upd_driver_def)
  from enqueue_driver_runs [OF this(1) assms(3) this(2) assms(5)] have "schedule_driver cfg d s \<noteq> None"
    using assms(1) by (simp add: schedule_driver_def CoreAcquireDispatcherLock_def CoreReleaseDispatcherLock_def upd_driver_def)
  then show ?thesis using schedule_driver_Some [OF _ assms(1)] by auto
qed

subsection \<open>Whatever returns has put dependent drivers on the queue\<close>

definition appended :: "(nat \<Rightarrow> bool) \<Rightarrow> nat list \<Rightarrow> 'w disp \<Rightarrow> 'w disp \<Rightarrow> bool" where
  "appended P B s t \<longleftrightarrow> t = sched B s \<and> (\<forall>l \<in> set B. P l)"

definition dependent_in :: "'w disp \<Rightarrow> nat \<Rightarrow> bool" where
  "dependent_in s l \<longleftrightarrow> (\<exists>e. Drivers s l = Some e \<and> Dependent e)"

lemma appended_Nil: "appended P [] s s"
  by (simp add: appended_def)

lemma appended_append:
  "appended P B s t \<Longrightarrow> appended P C t u \<Longrightarrow> appended P (B @ C) s u"
  by (auto simp: appended_def)

lemma dependent_in_sched: "dependent_in (sched B s) l \<Longrightarrow> dependent_in s l"
  by (auto simp: dependent_in_def Drivers_sched split: if_splits)

lemma related_loop_appended:
  assumes rec: "\<And>l s t. mDispatcherLock s = EfiLockReleased \<Longrightarrow> dependent_in s l \<Longrightarrow> r l s = Some t \<Longrightarrow>
      \<exists>B. appended (dependent_in s) B s t"
    and "mDispatcherLock s = EfiLockReleased" "related_loop r sel d ls s = Some t"
  shows "\<exists>B. appended (dependent_in s) B s t"
  using assms(2,3)
proof (induction ls arbitrary: s)
  case Nil
  then show ?case by (auto intro: appended_Nil)
next
  case (Cons l ls)
  then obtain e e' u where e: "Drivers s l = Some e" "Drivers s d = Some e'"
    and u: "(if sel e \<and> Dependent e \<and> FileName e' = BeforeAfterGuid e then r l s else Some s) = Some u"
    and t: "related_loop r sel d ls u = Some t" by (auto simp: bind_eq_Some_conv)
  have "\<exists>B. appended (dependent_in s) B s u"
  proof (cases "sel e \<and> Dependent e \<and> FileName e' = BeforeAfterGuid e")
    case True
    then show ?thesis using u e by (intro rec [OF Cons.prems(1)]) (auto simp: dependent_in_def)
  next
    case False
    then have "u = s" using u by auto
    then show ?thesis using appended_Nil by blast
  qed
  then obtain B where B: "appended (dependent_in s) B s u" ..
  then have "mDispatcherLock u = EfiLockReleased" using Cons.prems(1) by (simp add: appended_def)
  from Cons.IH [OF this t] obtain C where "appended (dependent_in u) C u t" ..
  then have "appended (dependent_in s) C u t" using B dependent_in_sched by (fastforce simp: appended_def)
  with B show ?case by (blast intro: appended_append)
qed

lemma insert_driver_appended:
  "insert_driver n cfg d (s :: 'w disp) = Some t \<Longrightarrow> mDispatcherLock s = EfiLockReleased \<Longrightarrow> dependent_in s d \<Longrightarrow>
   \<exists>B. appended (dependent_in s) B s t"
proof (induction n arbitrary: d s t)
  case (Suc n)
  have rec: "\<And>l (s :: 'w disp) t. mDispatcherLock s = EfiLockReleased \<Longrightarrow> dependent_in s l \<Longrightarrow> insert_driver n cfg l s = Some t \<Longrightarrow>
      \<exists>B. appended (dependent_in s) B s t" using Suc.IH by blast
  obtain u v where u: "related_loop (insert_driver n cfg) Before d (mDiscoveredList s) s = Some u"
    and v: "schedule_driver cfg d u = Some v" and t: "related_loop (insert_driver n cfg) After d (mDiscoveredList v) v = Some t"
    using Suc.prems(1) by (auto simp: bind_eq_Some_conv)
  have "\<exists>B. appended (dependent_in s) B s u" by (rule related_loop_appended [OF _ Suc.prems(2) u]) (rule rec)
  then obtain B where B: "appended (dependent_in s) B s u" ..
  have lu: "mDispatcherLock u = EfiLockReleased" using B Suc.prems(2) by (simp add: appended_def)
  have v': "appended (dependent_in s) [d] u v" using schedule_driver_Some [OF v lu] Suc.prems(3) by (simp add: appended_def)
  then have lv: "mDispatcherLock v = EfiLockReleased" using lu by (simp add: appended_def)
  have "\<exists>C. appended (dependent_in v) C v t" by (rule related_loop_appended [OF _ lv t]) (rule rec)
  then obtain C where "appended (dependent_in v) C v t" ..
  moreover have "dependent_in s l" if "dependent_in v l" for l
    using that B v' dependent_in_sched by (metis appended_def)
  ultimately have "appended (dependent_in s) C v t" by (auto simp: appended_def)
  with B v' have "appended (dependent_in s) (B @ [d] @ C) s t" by (blast intro: appended_append)
  then show ?case by auto
qed simp

text \<open>A run with the checks of a debug build is one without them.\<close>

lemma related_loop_mono:
  assumes "\<And>l s t. r l s = Some t \<Longrightarrow> r' l s = Some t"
  shows "related_loop r sel d ls s = Some t \<Longrightarrow> related_loop r' sel d ls s = Some t"
  by (induction ls arbitrary: s) (auto simp: bind_eq_Some_conv assms split: if_splits)

lemma schedule_driver_release: "schedule_driver cfg d s = Some t \<Longrightarrow> schedule_driver release_pcd d s = Some t"
  using enqueue_driver_release [of cfg d]
  by (auto simp: schedule_driver_def CoreAcquireDispatcherLock_def CoreReleaseDispatcherLock_def bind_eq_Some_conv)

lemma insert_driver_release: "insert_driver n cfg d s = Some t \<Longrightarrow> insert_driver n release_pcd d s = Some t"
proof (induction n arbitrary: d s t)
  case (Suc n)
  then obtain u v where "related_loop (insert_driver n cfg) Before d (mDiscoveredList s) s = Some u"
    "schedule_driver cfg d u = Some v" "related_loop (insert_driver n cfg) After d (mDiscoveredList v) v = Some t"
    by (auto simp: bind_eq_Some_conv)
  with related_loop_mono [of "insert_driver n cfg" "insert_driver n release_pcd", OF Suc.IH] schedule_driver_release
  show ?case by (simp add: bind_eq_Some_conv) blast
qed simp

subsection \<open>Who is scheduled along\<close>

text \<open>\<open>l\<close> follows \<open>k\<close>: it waits for nothing but \<open>k\<close>, to be put before or after it.\<close>

definition follows :: "'w disp \<Rightarrow> (nat \<times> nat) set" where
  "follows s = {(l, k). \<exists>e e'. Drivers s l = Some e \<and> Drivers s k = Some e' \<and> Dependent e \<and> (Before e \<or> After e) \<and>
     BeforeAfterGuid e = FileName e'}"

definition dependants :: "'w disp \<Rightarrow> nat \<Rightarrow> nat set" where
  "dependants s d = {l. (l, d) \<in> (follows s)\<^sup>*}"

definition precedes :: "'b \<Rightarrow> 'b \<Rightarrow> 'b list \<Rightarrow> bool" where
  "precedes x y zs \<longleftrightarrow> (\<exists>us vs ws. zs = us @ x # vs @ y # ws)"

text \<open>Everybody who follows a member of the list is on it, at the side asked for.\<close>

definition in_order :: "'w disp \<Rightarrow> nat list \<Rightarrow> bool" where
  "in_order s C \<longleftrightarrow> (\<forall>(l, k) \<in> follows s. k \<in> set C \<longrightarrow>
     (if Before (the (Drivers s l)) then precedes l k C else precedes k l C))"

definition unique_names :: "'w disp \<Rightarrow> bool" where
  "unique_names s \<longleftrightarrow> (\<forall>k l e f. Drivers s k = Some e \<longrightarrow> Drivers s l = Some f \<longrightarrow> FileName e = FileName f \<longrightarrow> k = l)"

text \<open>The hypotheses about the state: the list of discovered drivers, a queue that is a proper list of drivers none
  of which is dependent, and unique file names.\<close>

definition ready_state :: "'w disp \<Rightarrow> bool" where
  "ready_state s \<longleftrightarrow> distinct (mDiscoveredList s) \<and> set (mDiscoveredList s) = dom (Drivers s) \<and>
     mDispatcherLock s = EfiLockReleased \<and> links_mapped s \<and> unique_names s \<and>
     (\<exists>q. queued s q \<and> set q \<subseteq> dom (Drivers s) \<and> (\<forall>d. dependent_in s d \<longrightarrow> d \<notin> set q))"

lemma precedes_append: "precedes x y zs \<Longrightarrow> precedes x y (us @ zs @ vs)"
  unfolding precedes_def by (metis append.assoc append_Cons)

lemma precedes_appendI: "x \<in> set us \<Longrightarrow> y \<in> set vs \<Longrightarrow> precedes x y (us @ vs)"
  unfolding precedes_def by (metis append.assoc append_Cons split_list)

lemma in_order_Nil: "in_order s []"
  by (simp add: in_order_def)

lemma in_order_append:
  assumes "in_order s B" "in_order s C"
  shows "in_order s (B @ C)"
  using assms precedes_append [of _ _ B "[]" C] precedes_append [of _ _ C B "[]"]
  unfolding in_order_def by (fastforce split: if_splits)

lemma self_dependant [simp]: "d \<in> dependants s d"
  by (simp add: dependants_def)

lemma dependants_unfold: "dependants s d = insert d (\<Union>l \<in> {l. (l, d) \<in> follows s}. dependants s l)"
  unfolding dependants_def by (auto elim: rtranclE)

lemma single_valued_follows: "unique_names s \<Longrightarrow> single_valued (follows s)"
  by (fastforce simp: single_valued_def follows_def unique_names_def)

lemma follows_dependent: "(l, k) \<in> follows s \<Longrightarrow> dependent_in s l"
  by (auto simp: follows_def dependent_in_def)

lemma dependants_dom: "ready_state s \<Longrightarrow> dependent_in s d \<Longrightarrow> dependants s d \<subseteq> set (mDiscoveredList s)"
  by (fastforce simp: dependants_def ready_state_def follows_def dependent_in_def elim: converse_rtranclE)

lemma acyclic_child: "(l, d) \<in> follows s \<Longrightarrow> (d, d) \<notin> (follows s)\<^sup>+ \<Longrightarrow> d \<notin> dependants s l"
  unfolding dependants_def by (auto simp: rtrancl_into_trancl1)

lemma acyclic_down:
  assumes "unique_names s" "(l, d) \<in> follows s" "(d, d) \<notin> (follows s)\<^sup>+"
  shows "(l, l) \<notin> (follows s)\<^sup>+"
proof
  assume "(l, l) \<in> (follows s)\<^sup>+"
  then obtain k where "(l, k) \<in> follows s" "(k, l) \<in> (follows s)\<^sup>*" by (blast dest: tranclD)
  moreover have "k = d" if "(l, k) \<in> follows s" for k
    using that assms(2) single_valued_follows [OF assms(1)] by (auto dest: single_valuedD)
  ultimately have "(d, l) \<in> (follows s)\<^sup>*" by blast
  with assms(2,3) show False by (simp add: rtrancl_into_trancl1)
qed

lemma dependants_disjoint:
  assumes "unique_names s" "(d, d) \<notin> (follows s)\<^sup>+" "(l, d) \<in> follows s" "(l', d) \<in> follows s" "l \<noteq> l'"
  shows "dependants s l \<inter> dependants s l' = {}"
proof -
  note sv = single_valued_follows [OF assms(1)]
  have no: False if "(a, b) \<in> (follows s)\<^sup>*" "a \<noteq> b" "(a, d) \<in> follows s" "(b, d) \<in> follows s" for a b
  proof -
    note ab = that
    obtain k where k: "(a, k) \<in> follows s" "(k, b) \<in> (follows s)\<^sup>*" using ab(1,2) by (blast elim: converse_rtranclE)
    have "k = d" by (rule single_valuedD [OF sv k(1) ab(3)])
    with k(2) ab(4) assms(2) show False by (simp add: rtrancl_into_trancl1)
  qed
  show ?thesis
  proof (rule ccontr)
    assume "\<not> ?thesis"
    then obtain x where "(x, l) \<in> (follows s)\<^sup>*" "(x, l') \<in> (follows s)\<^sup>*" by (auto simp: dependants_def)
    from single_valued_confluent [OF sv this] assms(3,4,5) no show False by blast
  qed
qed

subsection \<open>The recursion ends, and the order is right\<close>

text \<open>What a call for \<open>d\<close> does in a state in which the drivers \<open>B\<close> have been scheduled already.\<close>

definition new_drivers :: "'w disp \<Rightarrow> nat list \<Rightarrow> bool" where
  "new_drivers s B \<longleftrightarrow> distinct B \<and> (\<forall>l \<in> set B. dependent_in s l)"

definition inserts :: "nat \<Rightarrow> PCD \<Rightarrow> 'w disp \<Rightarrow> nat \<Rightarrow> bool" where
  "inserts n cfg s d \<longleftrightarrow> (\<forall>B. new_drivers s B \<longrightarrow> dependants s d \<inter> set B = {} \<longrightarrow>
     (\<exists>C. insert_driver n cfg d (sched B s) = Some (sched (B @ C) s) \<and>
       set C = dependants s d \<and> distinct C \<and> in_order s C))"

lemma dependants_dependent: "dependent_in s d \<Longrightarrow> l \<in> dependants s d \<Longrightarrow> dependent_in s l"
  by (auto simp: dependants_def elim: converse_rtranclE dest: follows_dependent)

lemma new_drivers_append:
  assumes "new_drivers s B" "set C \<subseteq> {l. dependent_in s l}" "distinct C" "set C \<inter> set B = {}"
  shows "new_drivers s (B @ C)"
  using assms by (auto simp: new_drivers_def)

text \<open>The driver called for can be scheduled after those that have been before it.\<close>

lemma schedule_next:
  assumes s: "ready_state s" and B: "new_drivers s (B @ [d])" and cfg: "room cfg (length (mDiscoveredList s))"
  shows "schedule_driver cfg d (sched B s) = Some (sched (B @ [d]) s)"
proof -
  obtain q where q: "queued s q" "set q \<subseteq> dom (Drivers s)" "\<And>l. dependent_in s l \<Longrightarrow> l \<notin> set q"
    using s unfolding ready_state_def by blast
  have lm: "links_mapped s" and dl: "set (mDiscoveredList s) = dom (Drivers s)" and lock: "mDispatcherLock s = EfiLockReleased"
    using s unfolding ready_state_def by blast+
  have dB: "set (B @ [d]) \<subseteq> dom (Drivers s)" "distinct (B @ [d])" "set (B @ [d]) \<inter> set q = {}"
    using B q(3) by (auto simp: new_drivers_def dependent_in_def)
  have "distinct (q @ B @ [d])" using queued_distinct [OF q(1)] dB(2,3) by auto
  moreover have "set (q @ B @ [d]) \<subseteq> set (mDiscoveredList s)" using q(2) dB(1) dl by auto
  ultimately have "Suc (length (q @ B)) \<le> length (mDiscoveredList s)"
    using card_mono [of "set (mDiscoveredList s)" "set (q @ B @ [d])"] distinct_card [of "q @ B @ [d]"]
      card_length [of "mDiscoveredList s"] by (metis List.finite_set append.assoc length_append_singleton order_trans)
  then have r: "room cfg (Suc (length (q @ B)))" using cfg is_list_fits_mono by (auto simp: room_def)
  have qB: "queued (sched B s) (q @ B)" by (rule queued_sched [OF q(1) lm]) (use dB in auto)
  have m: "mapped (ScheduledLinks (sched B s)) (ScheduledLink d)" using lm dB(1) by (auto simp: links_mapped_def)
  have "d \<notin> set (q @ B)" using dB by auto
  then show ?thesis using schedule_driver_runs [OF _ qB _ m r] lock by simp
qed

lemma related_loop_step:
  assumes "(l, d) \<in> follows s" "sel (the (Drivers s l))" "l \<notin> set B" "sel = Before \<or> sel = After"
  shows "related_loop r sel d (l # ls) (sched B s) = Option.bind (r l (sched B s)) (related_loop r sel d ls)"
  using assms by (auto simp: follows_def Drivers_sched)

lemma related_loop_skip:
  assumes "Drivers s l = Some e" "Drivers s d = Some e'" "sel = Before \<or> sel = After"
    and "\<not> ((l, d) \<in> follows s \<and> sel e \<and> l \<notin> set B)"
  shows "related_loop r sel d (l # ls) (sched B s) = related_loop r sel d ls (sched B s)"
  using assms by (auto simp: follows_def Drivers_sched)

lemma related_loop_inserts:
  assumes s: "unique_names s" "(d, d) \<notin> (follows s)\<^sup>+" "Drivers s d = Some e'" "sel = Before \<or> sel = After"
    and ls: "distinct ls" "set ls \<subseteq> dom (Drivers s)"
    and IH: "\<And>l. (l, d) \<in> follows s \<Longrightarrow> inserts n cfg s l" and N: "new_drivers s B"
    and B: "\<And>l. l \<in> set ls \<Longrightarrow> (l, d) \<in> follows s \<Longrightarrow> l \<notin> set B \<Longrightarrow> dependants s l \<inter> set B = {}"
  shows "\<exists>C. related_loop (insert_driver n cfg) sel d ls (sched B s) = Some (sched (B @ C) s) \<and>
    set C = (\<Union>l \<in> {l \<in> set ls. (l, d) \<in> follows s \<and> sel (the (Drivers s l)) \<and> l \<notin> set B}. dependants s l) \<and>
    distinct C \<and> in_order s C"
  using ls N B
proof (induction ls arbitrary: B)
  case Nil
  then show ?case by (auto simp: in_order_Nil)
next
  case (Cons l ls)
  obtain e where e: "Drivers s l = Some e" using Cons.prems(2) by auto
  show ?case
  proof (cases "(l, d) \<in> follows s \<and> sel e \<and> l \<notin> set B")
    case False
    have "\<exists>C. related_loop (insert_driver n cfg) sel d ls (sched B s) = Some (sched (B @ C) s) \<and>
      set C = (\<Union>l \<in> {l \<in> set ls. (l, d) \<in> follows s \<and> sel (the (Drivers s l)) \<and> l \<notin> set B}. dependants s l) \<and>
      distinct C \<and> in_order s C"
      using Cons.prems by (intro Cons.IH) auto
    moreover have "{l' \<in> set (l # ls). (l', d) \<in> follows s \<and> sel (the (Drivers s l')) \<and> l' \<notin> set B} =
        {l \<in> set ls. (l, d) \<in> follows s \<and> sel (the (Drivers s l)) \<and> l \<notin> set B}" using False e by auto
    ultimately show ?thesis using related_loop_skip [OF e s(3,4) False] by simp
  next
    case True
    then obtain C where C: "insert_driver n cfg l (sched B s) = Some (sched (B @ C) s)" "set C = dependants s l" "distinct C"
        "in_order s C"
      using IH [of l] Cons.prems(3) Cons.prems(4) [of l] by (auto simp: inserts_def)
    have N': "new_drivers s (B @ C)"
    proof (rule new_drivers_append [OF Cons.prems(3) _ C(3)])
      show "set C \<subseteq> {l. dependent_in s l}" using True C(2) follows_dependent dependants_dependent by blast
      show "set C \<inter> set B = {}" using True C(2) Cons.prems(4) [of l] by simp
    qed
    have disj: "dependants s l' \<inter> set C = {}" if "l' \<in> set ls" "(l', d) \<in> follows s" for l'
      using dependants_disjoint [OF s(1,2) that(2)] True that(1) Cons.prems(1) C(2) by auto
    then have new: "l' \<notin> set C" if "l' \<in> set ls" "(l', d) \<in> follows s" for l' using that self_dependant by blast
    have "\<exists>C'. related_loop (insert_driver n cfg) sel d ls (sched (B @ C) s) = Some (sched ((B @ C) @ C') s) \<and>
      set C' = (\<Union>l \<in> {l \<in> set ls. (l, d) \<in> follows s \<and> sel (the (Drivers s l)) \<and> l \<notin> set (B @ C)}. dependants s l) \<and>
      distinct C' \<and> in_order s C'"
      using Cons.prems disj N' by (intro Cons.IH) (auto simp: Int_Un_distrib)
    then obtain C' where C': "related_loop (insert_driver n cfg) sel d ls (sched (B @ C) s) = Some (sched ((B @ C) @ C') s)"
      "set C' = (\<Union>l \<in> {l \<in> set ls. (l, d) \<in> follows s \<and> sel (the (Drivers s l)) \<and> l \<notin> set (B @ C)}. dependants s l)"
      "distinct C'" "in_order s C'" by blast
    have "related_loop (insert_driver n cfg) sel d (l # ls) (sched B s) = Some (sched (B @ C @ C') s)"
      using related_loop_step [of l d s sel B "insert_driver n cfg" ls] True e s(4) C(1) C'(1) by simp
    moreover have "set (C @ C') = (\<Union>l \<in> {l' \<in> set (l # ls). (l', d) \<in> follows s \<and> sel (the (Drivers s l')) \<and> l' \<notin> set B}.
        dependants s l)" using C(2) C'(2) True e new by auto
    moreover have "distinct (C @ C')" using C(3) C'(2,3) disj by auto
    ultimately show ?thesis using in_order_append [OF C(4) C'(4)] by blast
  qed
qed

text \<open>The followers of \<open>d\<close> that go before it (\<open>b\<close>) or after it.\<close>

abbreviation side :: "'w disp \<Rightarrow> nat \<Rightarrow> bool \<Rightarrow> nat set" where
  "side s d b \<equiv> {l. (l, d) \<in> follows s \<and> Before (the (Drivers s l)) = b}"

lemma dependants_sides:
  "dependants s d = (\<Union>l \<in> side s d True. dependants s l) \<union> {d} \<union> (\<Union>l \<in> side s d False. dependants s l)"
  by (subst dependants_unfold) auto

lemma in_order_around:
  assumes "in_order s C" "in_order s D" "side s d True \<subseteq> set C" "side s d False \<subseteq> set D"
  shows "in_order s (C @ d # D)"
proof -
  have "if Before (the (Drivers s l)) then precedes l k (C @ d # D) else precedes k l (C @ d # D)"
    if l: "(l, k) \<in> follows s" and k: "k \<in> set (C @ d # D)" for l k
  proof (cases "k = d")
    case True
    then have "if Before (the (Drivers s l)) then l \<in> set C else l \<in> set D" using l assms(3,4) by auto
    then show ?thesis using True precedes_appendI [of l C d "d # D"] precedes_appendI [of d "C @ [d]" l D] by auto
  next
    case False
    then have "k \<in> set C \<or> k \<in> set D" using k by auto
    then show ?thesis
      using l assms(1,2) precedes_append [of _ _ C "[]" "d # D"] precedes_append [of _ _ D "C @ [d]" "[]"]
      unfolding in_order_def by (fastforce split: if_splits)
  qed
  then show ?thesis by (auto simp: in_order_def)
qed

lemma before_done:
  assumes "unique_names s" "(d, d) \<notin> (follows s)\<^sup>+" "set C = (\<Union>l \<in> side s d True. dependants s l)" "(l, d) \<in> follows s"
  shows "l \<in> set (C @ [d]) \<longleftrightarrow> Before (the (Drivers s l))"
    and "\<not> Before (the (Drivers s l)) \<Longrightarrow> dependants s l \<inter> set (C @ [d]) = {}"
proof -
  have l: "l \<noteq> d" using assms(2,4) by blast
  have disj: "dependants s l \<inter> dependants s k = {}" if "(k, d) \<in> follows s" "k \<noteq> l" for k
    using dependants_disjoint [OF assms(1,2,4) that(1)] that(2) by blast
  show "l \<in> set (C @ [d]) \<longleftrightarrow> Before (the (Drivers s l))"
  proof
    assume "l \<in> set (C @ [d])"
    then obtain k where k: "k \<in> side s d True" "l \<in> dependants s k" using l assms(3) by auto
    then have "k = l" using disj [of k] self_dependant [of l s] by blast
    with k(1) show "Before (the (Drivers s l))" by simp
  next
    assume "Before (the (Drivers s l))"
    then have "l \<in> side s d True" using assms(4) by simp
    then show "l \<in> set (C @ [d])" using assms(3) self_dependant [of l s] by auto
  qed
  show "dependants s l \<inter> set (C @ [d]) = {}" if b: "\<not> Before (the (Drivers s l))"
  proof -
    have "dependants s l \<inter> dependants s k = {}" if "k \<in> side s d True" for k
      using b that by (intro disj) auto
    then have "dependants s l \<inter> set C = {}" using assms(3) by auto
    then show ?thesis using acyclic_child [OF assms(4,2)] by auto
  qed
qed

lemma insert_driver_Suc:
  assumes s: "ready_state s" "dependent_in s d" "(d, d) \<notin> (follows s)\<^sup>+"
    and "\<forall>l. (l, d) \<in> follows s \<longrightarrow> inserts n cfg s l" and N: "new_drivers s B" and B: "dependants s d \<inter> set B = {}"
    and cfg: "room cfg (length (mDiscoveredList s))"
  shows "\<exists>C D. insert_driver (Suc n) cfg d (sched B s) = Some (sched (B @ C @ d # D) s) \<and>
    set C = (\<Union>l \<in> side s d True. dependants s l) \<and> set D = (\<Union>l \<in> side s d False. dependants s l) \<and>
    distinct (C @ d # D) \<and> in_order s C \<and> in_order s D"
proof -
  have IH: "\<And>l. (l, d) \<in> follows s \<Longrightarrow> inserts n cfg s l" using assms(4) by blast
  have u: "unique_names s" "distinct (mDiscoveredList s)" "set (mDiscoveredList s) \<subseteq> dom (Drivers s)"
    using s by (auto simp: ready_state_def)
  obtain e where e: "Drivers s d = Some e" using s(2) by (auto simp: dependent_in_def)
  have on_list: "l \<in> set (mDiscoveredList s)" if "(l, d) \<in> follows s" for l
    using that s(1) by (auto simp: ready_state_def follows_def)
  have notB: "d \<notin> set B" "\<And>l. (l, d) \<in> follows s \<Longrightarrow> l \<notin> set B \<and> dependants s l \<inter> set B = {}"
    using B dependants_unfold [of s d] self_dependant by blast+
  have "\<exists>C. related_loop (insert_driver n cfg) Before d (mDiscoveredList s) (sched B s) = Some (sched (B @ C) s) \<and>
    set C = (\<Union>l \<in> {l \<in> set (mDiscoveredList s). (l, d) \<in> follows s \<and> Before (the (Drivers s l)) \<and> l \<notin> set B}.
      dependants s l) \<and> distinct C \<and> in_order s C"
    using related_loop_inserts [OF u(1) s(3) e _ u(2,3) IH, where sel = Before and B = B] N notB by simp
  moreover have "{l \<in> set (mDiscoveredList s). (l, d) \<in> follows s \<and> Before (the (Drivers s l)) \<and> l \<notin> set B} = side s d True"
    using on_list notB by auto
  ultimately obtain C where C: "related_loop (insert_driver n cfg) Before d (mDiscoveredList s) (sched B s) =
      Some (sched (B @ C) s)" "set C = (\<Union>l \<in> side s d True. dependants s l)" "distinct C" "in_order s C" by metis
  note bd = before_done [OF u(1) s(3) C(2)]
  have dC: "d \<notin> set C" using C(2) acyclic_child s(3) by blast
  have sub: "dependants s l \<subseteq> {l. dependent_in s l}" if "(l, d) \<in> follows s" for l
    using dependants_dependent follows_dependent [OF that] by blast
  have "set C \<subseteq> {l. dependent_in s l}" unfolding C(2) using sub by blast
  moreover have "set C \<inter> set B = {}" unfolding C(2) using notB(2) by blast
  ultimately have N1: "new_drivers s (B @ C @ [d])"
    using N C(3) dC notB(1) s(2) by (auto simp: new_drivers_def)
  have mid: "schedule_driver cfg d (sched (B @ C) s) = Some (sched (B @ C @ [d]) s)"
    using schedule_next [OF s(1), of "B @ C" d cfg] N1 cfg by simp
  have disj: "dependants s l \<inter> set (B @ C @ [d]) = {}" if "(l, d) \<in> follows s" "l \<notin> set (B @ C @ [d])" for l
    using bd [OF that(1)] that(2) notB(2) [OF that(1)] by auto
  have "\<exists>D. related_loop (insert_driver n cfg) After d (mDiscoveredList s) (sched (B @ C @ [d]) s) =
      Some (sched ((B @ C @ [d]) @ D) s) \<and>
    set D = (\<Union>l \<in> {l \<in> set (mDiscoveredList s). (l, d) \<in> follows s \<and> After (the (Drivers s l)) \<and> l \<notin> set (B @ C @ [d])}.
      dependants s l) \<and> distinct D \<and> in_order s D"
    using related_loop_inserts [OF u(1) s(3) e _ u(2,3) IH, where sel = After and B = "B @ C @ [d]"] N1 disj by simp
  moreover have "{l \<in> set (mDiscoveredList s). (l, d) \<in> follows s \<and> After (the (Drivers s l)) \<and> l \<notin> set (B @ C @ [d])} =
      side s d False"
  proof -
    have "After (the (Drivers s l)) \<and> l \<notin> set (B @ C @ [d]) \<longleftrightarrow> \<not> Before (the (Drivers s l))" if "(l, d) \<in> follows s" for l
      using bd(1) [OF that] notB(2) [OF that] that by (auto simp: follows_def)
    then show ?thesis using on_list by blast
  qed
  ultimately obtain D where D: "related_loop (insert_driver n cfg) After d (mDiscoveredList s) (sched (B @ C @ [d]) s) =
      Some (sched ((B @ C @ [d]) @ D) s)" "set D = (\<Union>l \<in> side s d False. dependants s l)" "distinct D" "in_order s D" by metis
  have run: "insert_driver (Suc n) cfg d (sched B s) = Some (sched (B @ C @ d # D) s)" using C(1) mid D(1) by simp
  have "set (C @ [d]) \<inter> set D = {}"
  proof -
    have "dependants s l \<inter> set (C @ [d]) = {}" if "l \<in> side s d False" for l using that by (intro bd(2)) auto
    then show ?thesis unfolding D(2) by blast
  qed
  then have "distinct (C @ d # D)" using C(3) D(3) dC by auto
  then show ?thesis using run C(2,4) D(2,4) by (intro exI [of _ C] exI [of _ D] conjI)
qed

lemma insert_driver_inserts:
  assumes s: "ready_state s" and cfg: "room cfg (length (mDiscoveredList s))"
  shows "card (dependants s d) \<le> n \<Longrightarrow> (d, d) \<notin> (follows s)\<^sup>+ \<Longrightarrow> dependent_in s d \<Longrightarrow> inserts n cfg s d"
proof (induction n arbitrary: d)
  case 0
  then show ?case using dependants_dom [OF s 0(3)] self_dependant [of d s]
    by (metis List.finite_set card_0_eq empty_iff finite_subset le_zero_eq)
next
  case (Suc n)
  have fin: "finite (dependants s d)" using dependants_dom [OF s Suc.prems(3)] by (rule finite_subset) simp
  have "inserts n cfg s l" if l: "(l, d) \<in> follows s" for l
  proof (rule Suc.IH)
    have "dependants s l \<subseteq> dependants s d - {d}"
      using acyclic_child [OF l Suc.prems(2)] l by (auto simp: dependants_def)
    then have "card (dependants s l) \<le> card (dependants s d - {d})" using fin by (intro card_mono) auto
    also have "\<dots> \<le> n" using Suc.prems(1) fin by (simp add: card_Diff_singleton)
    finally show "card (dependants s l) \<le> n" .
    show "(l, l) \<notin> (follows s)\<^sup>+"
      using s by (intro acyclic_down [OF _ l Suc.prems(2)]) (simp add: ready_state_def)
    show "dependent_in s l" by (rule follows_dependent [OF l])
  qed
  then have IH: "\<forall>l. (l, d) \<in> follows s \<longrightarrow> inserts n cfg s l" by blast
  show ?case unfolding inserts_def
  proof (intro allI impI)
    fix B :: "nat list"
    assume B: "new_drivers s B" "dependants s d \<inter> set B = {}"
    from insert_driver_Suc [OF s Suc.prems(3,2) IH B cfg] obtain C D where CD: "insert_driver (Suc n) cfg d (sched B s) = Some (sched (B @ C @ d # D) s)"
        "set C = (\<Union>l \<in> side s d True. dependants s l)" "set D = (\<Union>l \<in> side s d False. dependants s l)"
        "distinct (C @ d # D)" "in_order s C" "in_order s D" by (elim exE conjE) (rule that)
    have "set (C @ d # D) = dependants s d" using CD(2,3) dependants_sides [of s d] by auto
    moreover have "in_order s (C @ d # D)"
    proof (rule in_order_around [OF CD(5,6)])
      show "side s d True \<subseteq> set C" unfolding CD(2) using self_dependant by fast
      show "side s d False \<subseteq> set D" unfolding CD(3) using self_dependant by fast
    qed
    ultimately show "\<exists>C. insert_driver (Suc n) cfg d (sched B s) = Some (sched (B @ C) s) \<and> set C = dependants s d \<and>
        distinct C \<and> in_order s C" using CD(1,4) by blast
  qed
qed

lemma insert_before_after:
  assumes s: "ready_state s" and d: "Drivers s d = Some e" "Dependent e" "\<not> Before e" "\<not> After e"
    and cfg: "room cfg (length (mDiscoveredList s))" and n: "length (mDiscoveredList s) \<le> n"
  shows "\<exists>B. insert_driver n cfg d s = Some (sched B s) \<and> set B = dependants s d \<and> distinct B \<and> in_order s B"
proof -
  have "(d, d) \<notin> (follows s)\<^sup>+" using d by (auto simp: follows_def dest!: tranclD)
  moreover have dd: "dependent_in s d" using d by (auto simp: dependent_in_def)
  moreover have "card (dependants s d) \<le> n"
    using card_mono [OF _ dependants_dom [OF s dd]] card_length [of "mDiscoveredList s"] n by (meson List.finite_set order_trans)
  ultimately have "inserts n cfg s d" by (intro insert_driver_inserts [OF s cfg])
  moreover have "new_drivers s []" by (simp add: new_drivers_def)
  ultimately show ?thesis unfolding inserts_def by (metis Int_empty_right append_Nil empty_set sched_Nil)
qed

lemma insert_before_after_queue:
  assumes s: "ready_state s" and d: "Drivers s d = Some e" "Dependent e" "\<not> Before e" "\<not> After e"
    and cfg: "room (Pcd E) (length (mDiscoveredList s))"
  shows "\<exists>B. CoreInsertOnScheduledQueueWhileProcessingBeforeAndAfter E d s = Some (sched B s) \<and>
    set B = dependants s d \<and> distinct B \<and> in_order s B \<and> (\<forall>q. queued s q \<longrightarrow> queued (sched B s) (q @ B))"
proof -
  have "length (mDiscoveredList s) \<le> length (mDiscoveredList s) * (length (mDiscoveredList s) + 1) + 1" by simp
  from insert_before_after [OF s d cfg this] obtain B where
    B: "CoreInsertOnScheduledQueueWhileProcessingBeforeAndAfter E d s = Some (sched B s)"
      "set B = dependants s d" "distinct B" "in_order s B"
    unfolding CoreInsertOnScheduledQueueWhileProcessingBeforeAndAfter_def Let_def by blast
  have new: "set B \<subseteq> {l. dependent_in s l}" using B(2) d dependants_dependent [of s d] by (auto simp: dependent_in_def)
  have "queued (sched B s) (q @ B)" if q: "queued s q" for q
  proof (rule queued_sched [OF q _ B(3)])
    obtain q' where q': "queued s q'" "\<And>l. dependent_in s l \<Longrightarrow> l \<notin> set q'" using s unfolding ready_state_def by blast
    then show "set B \<inter> set q = {}" using queued_unique [OF q q'(1)] new by auto
    show "set B \<subseteq> dom (Drivers s)" using new by (auto simp: dependent_in_def)
  qed (use s in \<open>simp add: ready_state_def\<close>)
  with B show ?thesis by blast
qed

end
