(* ===== verification/DispatcherInv.thy ===== *)
theory DispatcherInv
  imports DispatcherSched
begin

section \<open>The invariant of the dispatcher\<close>

text \<open>
  The queue links entries without looking whether they are linked, so its invariant depends on what the code is
  given. \<open>dbase\<close> holds of every state between calls: the discovered drivers, a store that has their links, the
  lock free. \<open>dqueue\<close>: the queue is a proper list of exactly the drivers marked as scheduled. \<open>strict\<close>: a driver
  is in at most one of the states Dependent, Scheduled, Untrusted, Initialized. The last two are kept on
  \<open>sound_volumes\<close>, as long as no two drivers have the same file name. \<open>later\<close>: drivers are never forgotten, and what
  was initialized stays so. Every operation keeps them (\<open>dstep\<close>), provided that loading and starting images and
  signalling do, and leave the drivers on the queue where they are while the dispatcher runs (\<open>cstep\<close>).
\<close>

subsection \<open>Invariants\<close>

definition dbase :: "'w disp \<Rightarrow> bool" where
  "dbase s \<longleftrightarrow> distinct (mDiscoveredList s) \<and> set (mDiscoveredList s) = dom (Drivers s) \<and> Drivers s 0 = None \<and>
     links_mapped s \<and> mDispatcherLock s = EfiLockReleased"

definition scheduled_in :: "'w disp \<Rightarrow> nat \<Rightarrow> bool" where
  "scheduled_in s d \<longleftrightarrow> (\<exists>e. Drivers s d = Some e \<and> Scheduled e)"

definition dqueue :: "'w disp \<Rightarrow> bool" where
  "dqueue s \<longleftrightarrow> (\<exists>q. queued s q \<and> (\<forall>d. d \<in> set q \<longleftrightarrow> scheduled_in s d))"

definition dinv :: "'w disp \<Rightarrow> bool" where
  "dinv s \<longleftrightarrow> dbase s \<and> dqueue s"

definition one_state :: "EFI_CORE_DRIVER_ENTRY \<Rightarrow> bool" where
  "one_state e \<longleftrightarrow> \<not> Unrequested e \<and> \<not> DepexProtocolError e \<and>
     (Dependent e \<longrightarrow> \<not> Scheduled e \<and> \<not> Untrusted e \<and> \<not> Initialized e) \<and>
     (Scheduled e \<longrightarrow> \<not> Untrusted e \<and> \<not> Initialized e) \<and> (Untrusted e \<longrightarrow> \<not> Initialized e)"

definition strict :: "'w disp \<Rightarrow> bool" where
  "strict s \<longleftrightarrow> (\<forall>d e. Drivers s d = Some e \<longrightarrow> one_state e \<and> FvHandle e \<in> set (mFvHandleList s))"

text \<open>\<open>sound_volumes\<close>: no driver is scheduled on request only or has a dependency section that cannot be read at
  first, and no a priori file lists a file twice.\<close>

definition plain_drivers :: "'w denv \<Rightarrow> bool" where
  "plain_drivers E \<longleftrightarrow> (\<forall>fv g w st m n w'. ReadDepex E fv g w = (st, m, n, w') \<longrightarrow>
     st \<noteq> EFI_PROTOCOL_ERROR \<and> (\<not> EFI_ERROR st \<longrightarrow> read_byte m 0 \<noteq> Some EFI_DEP_SOR))"

definition distinct_apriori :: "'w denv \<Rightarrow> bool" where
  "distinct_apriori E \<longleftrightarrow> (\<forall>fv w st gs w'. ReadApriori E fv w = (st, gs, w') \<longrightarrow> \<not> EFI_ERROR st \<longrightarrow> distinct gs)"

definition sound_volumes :: "'w denv \<Rightarrow> bool" where
  "sound_volumes E \<longleftrightarrow> plain_drivers E \<and> distinct_apriori E"

definition later :: "'w disp \<Rightarrow> 'w disp \<Rightarrow> bool" where
  "later s t \<longleftrightarrow> (\<forall>d e. Drivers s d = Some e \<longrightarrow> (\<exists>e'. Drivers t d = Some e' \<and> (Initialized e \<longrightarrow> Initialized e') \<and>
     FileName e' = FileName e \<and> FvHandle e' = FvHandle e))"

definition dgood :: "'w disp \<Rightarrow> bool" where
  "dgood s \<longleftrightarrow> dqueue s \<and> strict s"

text \<open>A step, and one that keeps the queue under a condition \<open>C\<close> only.\<close>

definition gstep :: "bool \<Rightarrow> 'w denv \<Rightarrow> 'w disp \<Rightarrow> 'w disp \<Rightarrow> bool" where
  "gstep C E s t \<longleftrightarrow> (dbase s \<longrightarrow> dbase t \<and> later s t \<and>
     (sound_volumes E \<longrightarrow> unique_names t \<longrightarrow> C \<longrightarrow> dgood s \<longrightarrow> dgood t))"

abbreviation dstep :: "'w denv \<Rightarrow> 'w disp \<Rightarrow> 'w disp \<Rightarrow> bool" where
  "dstep \<equiv> gstep True"

text \<open>Nothing is taken off the queue.\<close>

definition still_scheduled :: "'w disp \<Rightarrow> 'w disp \<Rightarrow> bool" where
  "still_scheduled s t \<longleftrightarrow> gDispatcherRunning t = gDispatcherRunning s \<and> (\<forall>d. scheduled_in s d \<longrightarrow> scheduled_in t d)"

text \<open>A call of a service, by anybody.\<close>

definition cstep :: "'w denv \<Rightarrow> 'w disp \<Rightarrow> 'w disp \<Rightarrow> bool" where
  "cstep E s t \<longleftrightarrow> dstep E s t \<and> (dbase s \<longrightarrow> gDispatcherRunning s \<longrightarrow> still_scheduled s t)"

lemma later_refl [simp]: "later s s"
  by (simp add: later_def)

lemma later_trans [trans]: "later s t \<Longrightarrow> later t u \<Longrightarrow> later s u"
  unfolding later_def by (metis (no_types, lifting))

lemma later_unique:
  assumes "later s t" "unique_names t"
  shows "unique_names s"
  using assms unfolding later_def unique_names_def by metis

lemma gstep_refl [simp]: "gstep C E s s"
  by (simp add: gstep_def)

lemma gstep_trans [trans]: "gstep C E s t \<Longrightarrow> gstep C E t u \<Longrightarrow> gstep C E s u"
  unfolding gstep_def by (blast intro: later_trans later_unique)

lemma gstep_cond: "gstep C' E s t \<Longrightarrow> (dbase s \<Longrightarrow> dgood s \<Longrightarrow> C \<Longrightarrow> C') \<Longrightarrow> gstep C E s t"
  unfolding gstep_def by blast

lemma still_scheduled_refl [simp]: "still_scheduled s s"
  by (simp add: still_scheduled_def)

lemma still_scheduled_trans: "still_scheduled s t \<Longrightarrow> still_scheduled t u \<Longrightarrow> still_scheduled s u"
  by (simp add: still_scheduled_def)

lemma cstep_refl [simp]: "cstep E s s"
  by (simp add: cstep_def)

lemma cstep_trans [trans]: "cstep E s t \<Longrightarrow> cstep E t u \<Longrightarrow> cstep E s u"
  unfolding cstep_def by (metis gstep_def gstep_trans still_scheduled_def still_scheduled_trans)

lemma cstepI: "dstep E s t \<Longrightarrow> still_scheduled s t \<Longrightarrow> cstep E s t"
  by (simp add: cstep_def)

lemma cstep_dstep: "cstep E s t \<Longrightarrow> dstep E s t"
  by (simp add: cstep_def)

text \<open>A change of fields that the invariants do not speak of.\<close>

definition same_drivers :: "'w disp \<Rightarrow> 'w disp \<Rightarrow> bool" where
  "same_drivers s t \<longleftrightarrow> mDiscoveredList t = mDiscoveredList s \<and> ScheduledLinks t = ScheduledLinks s \<and>
     mDispatcherLock t = mDispatcherLock s \<and> Drivers t = Drivers s \<and> set (mFvHandleList s) \<subseteq> set (mFvHandleList t)"

lemma same_drivers_dstep: "same_drivers s t \<Longrightarrow> dstep E s t"
  unfolding same_drivers_def gstep_def dgood_def dbase_def strict_def later_def dqueue_def queued_def links_mapped_def
    scheduled_in_def by auto

lemma same_drivers_cstep: "same_drivers s t \<Longrightarrow> gDispatcherRunning t = gDispatcherRunning s \<Longrightarrow> cstep E s t"
  by (rule cstepI [OF same_drivers_dstep]) (simp_all add: still_scheduled_def same_drivers_def scheduled_in_def)

lemma step_fields [simp]:
  "cstep E s (s\<lparr>World := w\<rparr>)" "cstep E s (s\<lparr>EvaluationStack := st\<rparr>)"
  "cstep E s (s\<lparr>World := w, mFvHandleList := mFvHandleList s @ [h]\<rparr>)"
  "cstep E s (s\<lparr>World := w, CoreFilePath := p, CoreDeviceHandle := h\<rparr>)"
  by (rule same_drivers_cstep; auto simp: same_drivers_def)+

lemma upd_driver_simps [simp]:
  "mDiscoveredList (upd_driver d f s) = mDiscoveredList s" "ScheduledLinks (upd_driver d f s) = ScheduledLinks s"
  "mFvHandleList (upd_driver d f s) = mFvHandleList s" "mDispatcherLock (upd_driver d f s) = mDispatcherLock s"
  "World (upd_driver d f s) = World s" "gDispatcherRunning (upd_driver d f s) = gDispatcherRunning s"
  "EvaluationStack (upd_driver d f s) = EvaluationStack s"
  by (simp_all add: upd_driver_def)

lemma Drivers_upd_driver: "Drivers (upd_driver d f s) k = (if k = d then map_option f (Drivers s d) else Drivers s k)"
  by (simp add: upd_driver_def)

lemma dom_upd_driver [simp]: "dom (Drivers (upd_driver d f s)) = dom (Drivers s)"
  by (auto simp: dom_def Drivers_upd_driver)

lemma queued_upd_driver [simp]: "queued (upd_driver d f s) = queued s" "links_mapped (upd_driver d f s) = links_mapped s"
  by (simp_all add: fun_eq_iff queued_def links_mapped_def)

lemma dbase_upd_driver [simp]: "dbase (upd_driver d f s) = dbase s"
  by (simp add: dbase_def Drivers_upd_driver)

text \<open>A change of one driver that does not touch \<open>Scheduled\<close>.\<close>

lemma step_upd_driver:
  assumes "\<And>e. Drivers s d = Some e \<Longrightarrow> Scheduled (f e) = Scheduled e \<and> (Initialized e \<longrightarrow> Initialized (f e)) \<and>
      FileName (f e) = FileName e \<and> FvHandle (f e) = FvHandle e"
    and "\<And>e. Drivers s d = Some e \<Longrightarrow> plain_drivers E \<Longrightarrow> one_state e \<Longrightarrow> one_state (f e)"
  shows "cstep E s (upd_driver d f s)"
proof (rule cstepI)
  let ?t = "upd_driver d f s"
  have sc: "scheduled_in ?t k \<longleftrightarrow> scheduled_in s k" for k using assms(1) by (auto simp: scheduled_in_def Drivers_upd_driver)
  have "later s ?t" using assms(1) unfolding later_def by (auto simp: Drivers_upd_driver)
  moreover have "dqueue ?t" if "dqueue s" using that by (simp add: dqueue_def sc)
  moreover have "strict ?t" if "strict s" "plain_drivers E"
    using that assms unfolding strict_def by (auto simp: Drivers_upd_driver split: if_splits)
  ultimately show "dstep E s ?t" unfolding gstep_def dgood_def sound_volumes_def by simp
  show "still_scheduled s ?t" by (simp add: still_scheduled_def sc)
qed

lemma find_driver_Some:
  "find_driver ds c l = Some d \<Longrightarrow> d \<noteq> 0 \<Longrightarrow> d \<in> set l \<and> (\<exists>e. ds d = Some e \<and> c e)"
  by (induction l) (auto simp: bind_eq_Some_conv split: if_splits)

subsection \<open>The lock and the queue\<close>

text \<open>The three operations that hold the lock have the form: take the lock, change one driver, change the queue,
  release the lock.\<close>

lemmas lock_defs = CoreAcquireDispatcherLock_def CoreReleaseDispatcherLock_def

lemma enqueue_step:
  assumes d: "Drivers s d = Some e" and f: "\<And>e. Scheduled (f e) \<and> Initialized (f e) = Initialized e \<and>
      FileName (f e) = FileName e \<and> FvHandle (f e) = FvHandle e"
    and q: "enqueue_driver cfg d (upd_driver d f s) = Some t"
  shows "dbase s \<Longrightarrow> dbase t" "later s t" "still_scheduled s t"
    and "dbase s \<Longrightarrow> dgood s \<Longrightarrow> \<not> Scheduled e \<Longrightarrow> one_state (f e) \<Longrightarrow> dgood t"
proof -
  have t: "t = (upd_driver d f s)\<lparr>ScheduledLinks := link_tail d (ScheduledLinks s)\<rparr>"
    using enqueue_driver_Some [OF q] by simp
  have dt: "Drivers t k = (if k = d then Some (f e) else Drivers s k)" for k
    using d by (simp add: t Drivers_upd_driver)
  have sc: "scheduled_in t k \<longleftrightarrow> k = d \<or> scheduled_in s k" for k using f by (simp add: scheduled_in_def dt)
  show "later s t" using f d unfolding later_def dt by auto
  show "dbase t" if "dbase s"
  proof -
    have "dom (Drivers t) = dom (Drivers s)" using d by (auto simp: dom_def dt)
    then show ?thesis using that d unfolding dbase_def by (auto simp: t links_mapped_def Drivers_upd_driver)
  qed
  show "still_scheduled s t" by (simp add: still_scheduled_def sc) (simp add: t)
  have "dqueue t" if b: "dbase s" "dqueue s" "\<not> Scheduled e"
  proof -
    obtain q where q: "queued s q" "\<And>k. k \<in> set q \<longleftrightarrow> scheduled_in s k" using b(2) unfolding dqueue_def by blast
    have "d \<notin> set q" using q(2) b(3) d by (simp add: scheduled_in_def)
    moreover have "mapped (ScheduledLinks s) (ScheduledLink d)" using b(1) d by (auto simp: dbase_def links_mapped_def)
    ultimately have "queued t (q @ [d])" using link_tail_list q(1) by (simp add: queued_def t)
    then show ?thesis unfolding dqueue_def by (rule exI [of _ "q @ [d]", OF conjI]) (auto simp: q(2) sc)
  qed
  moreover have "strict t" if "strict s" "one_state (f e)"
    using that f d unfolding strict_def dt by (auto simp: t split: if_splits)
  ultimately show "dbase s \<Longrightarrow> dgood s \<Longrightarrow> \<not> Scheduled e \<Longrightarrow> one_state (f e) \<Longrightarrow> dgood t"
    unfolding dgood_def by blast
qed

lemma enqueue_driver_lock: "enqueue_driver cfg d (upd_driver d f (s\<lparr>mDispatcherLock := l\<rparr>)) =
    map_option (mDispatcherLock_update (\<lambda>_. l)) (enqueue_driver cfg d (upd_driver d f s))"
  by (cases "InsertTailList cfg (ScheduledLinks s) mScheduledQueue (ScheduledLink d)")
    (auto simp: enqueue_driver_def upd_driver_def)

lemma lock_cycle_step:
  assumes a: "CoreAcquireDispatcherLock en s = Some s1" and r: "CoreReleaseDispatcherLock en s2 = Some t"
    and b: "gstep C E (s\<lparr>mDispatcherLock := EfiLockReleased\<rparr>) (s2\<lparr>mDispatcherLock := EfiLockReleased\<rparr>)"
  shows "gstep C E s t"
proof -
  have t: "t = s2\<lparr>mDispatcherLock := EfiLockReleased\<rparr>" using r by (auto simp: lock_defs bind_eq_Some_conv)
  have "s\<lparr>mDispatcherLock := EfiLockReleased\<rparr> = s" if "dbase s" using that by (simp add: dbase_def)
  then show ?thesis using b t unfolding gstep_def by auto
qed

lemma still_scheduled_lock [simp]:
  "still_scheduled (s\<lparr>mDispatcherLock := l\<rparr>) t = still_scheduled s t" "still_scheduled s (t\<lparr>mDispatcherLock := l\<rparr>) = still_scheduled s t"
  by (simp_all add: still_scheduled_def scheduled_in_def)

lemma dependent_ready:
  assumes "dbase s" "dgood s" "unique_names s"
  shows "ready_state s"
proof -
  obtain q where q: "queued s q" "\<And>k. k \<in> set q \<longleftrightarrow> scheduled_in s k" using assms(2) unfolding dgood_def dqueue_def by blast
  have "l \<notin> set q" if "dependent_in s l" for l
    using that assms(2) q(2) by (auto simp: dependent_in_def scheduled_in_def dgood_def strict_def one_state_def)
  moreover have "set q \<subseteq> dom (Drivers s)" using q(2) by (auto simp: scheduled_in_def)
  ultimately show ?thesis using assms(1,3) q(1) unfolding ready_state_def dbase_def by blast
qed

text \<open>Dependent drivers that are scheduled.\<close>

lemma sched_base:
  assumes B: "\<And>k. k \<in> set B \<Longrightarrow> dependent_in s k"
  shows "dbase s \<Longrightarrow> dbase (sched B s)" "later s (sched B s)" "still_scheduled s (sched B s)"
    "strict s \<Longrightarrow> strict (sched B s)" "scheduled_in (sched B s) k \<longleftrightarrow> k \<in> set B \<or> scheduled_in s k"
proof -
  show sc: "scheduled_in (sched B s) k \<longleftrightarrow> k \<in> set B \<or> scheduled_in s k" for k
    using B [of k] by (cases "k \<in> set B") (auto simp: scheduled_in_def Drivers_sched dependent_in_def)
  show "dbase s \<Longrightarrow> dbase (sched B s)" by (auto simp: dbase_def Drivers_sched)
  show "later s (sched B s)" by (auto simp: later_def Drivers_sched)
  show "still_scheduled s (sched B s)" by (simp add: still_scheduled_def sc)
  show "strict s \<Longrightarrow> strict (sched B s)"
    using B unfolding strict_def by (fastforce simp: Drivers_sched one_state_def dependent_in_def split: if_splits)
qed

lemma CoreInsert_step:
  assumes run: "CoreInsertOnScheduledQueueWhileProcessingBeforeAndAfter E d s = Some t"
    and d: "Drivers s d = Some e" "Dependent e" "\<not> Before e" "\<not> After e"
  shows "dstep E s t" "dbase s \<Longrightarrow> still_scheduled s t"
proof -
  define n where "n = length (mDiscoveredList s) * (length (mDiscoveredList s) + 1) + 1"
  have run': "insert_driver n (Pcd E) d s = Some t"
    using run by (simp add: CoreInsertOnScheduledQueueWhileProcessingBeforeAndAfter_def Let_def n_def)
  have dd: "dependent_in s d" using d by (simp add: dependent_in_def)
  have B: "\<exists>B. t = sched B s \<and> (\<forall>l \<in> set B. dependent_in s l)" if "dbase s"
    using insert_driver_appended [OF run' _ dd] that by (auto simp: dbase_def appended_def)
  then show "dbase s \<Longrightarrow> still_scheduled s t" using sched_base(3) by blast
  have "dgood t" if s: "dbase s" "dgood s" and u: "unique_names t"
  proof -
    have "later s t" using B [OF s(1)] sched_base(2) by blast
    then have r: "ready_state s" using dependent_ready [OF s] later_unique u by blast
    obtain C where C: "insert_driver n release_pcd d s = Some (sched C s)" "set C = dependants s d" "distinct C"
      using insert_before_after [OF r d, of release_pcd n] by (auto simp: n_def)
    then have t: "t = sched C s" using insert_driver_release [OF run'] by simp
    have dep: "\<And>k. k \<in> set C \<Longrightarrow> dependent_in s k" using C(2) dependants_dependent [OF dd] by blast
    obtain q where q: "queued s q" "\<And>k. k \<in> set q \<longleftrightarrow> scheduled_in s k" using s(2) unfolding dgood_def dqueue_def by blast
    have "k \<notin> set q" if "dependent_in s k" for k
      using that s(2) q(2) by (auto simp: dependent_in_def scheduled_in_def dgood_def strict_def one_state_def)
    moreover have "set C \<subseteq> dom (Drivers s)" using dep unfolding dependent_in_def by blast
    ultimately have "queued t (q @ C)" unfolding t
      using s(1) dep by (intro queued_sched [OF q(1)] C(3)) (auto simp: dbase_def)
    then have "dqueue t" unfolding dqueue_def
      by (rule exI [of _ "q @ C", OF conjI]) (auto simp: q(2) t sched_base(5) [OF dep])
    then show ?thesis using sched_base(4) [OF dep] s(2) by (simp add: dgood_def t)
  qed
  then show "dstep E s t" using B sched_base(1,2) unfolding gstep_def by blast
qed

lemma unschedule_driver_step:
  assumes run: "unschedule_driver cfg f d s = Some t"
    and f: "\<And>e. (Initialized e \<longrightarrow> Initialized (f e)) \<and> FileName (f e) = FileName e \<and> FvHandle (f e) = FvHandle e"
    and o: "\<And>e. one_state e \<Longrightarrow> Scheduled e \<Longrightarrow> one_state ((f e)\<lparr>Scheduled := False\<rparr>)"
  shows "gstep (scheduled_in s d) E s t" "gDispatcherRunning t = gDispatcherRunning s"
proof -
  let ?f = "\<lambda>e. (f e)\<lparr>Scheduled := False\<rparr>"
  obtain s1 s2 where s1: "CoreAcquireDispatcherLock (DebugAssertEnabled cfg) s = Some s1"
    and s2: "dequeue_driver cfg d (upd_driver d ?f s1) = Some s2"
    and t: "CoreReleaseDispatcherLock (DebugAssertEnabled cfg) s2 = Some t"
    using run unfolding unschedule_driver_def by (auto simp: bind_eq_Some_conv)
  let ?s = "s\<lparr>mDispatcherLock := EfiLockReleased\<rparr>"
  have s1': "s1 = s\<lparr>mDispatcherLock := EfiLockAcquired\<rparr>" using s1 by (auto simp: lock_defs bind_eq_Some_conv)
  obtain h where h: "s2 = (upd_driver d ?f s1)\<lparr>ScheduledLinks := h\<rparr>" "dom h = dom (ScheduledLinks s)"
    and qd: "\<And>us vs. queued s (us @ d # vs) \<Longrightarrow> queued s2 (us @ vs)"
    using dequeue_driver_Some [OF s2] by (auto simp: s1' queued_def)
  let ?t = "s2\<lparr>mDispatcherLock := EfiLockReleased\<rparr>"
  show "gDispatcherRunning t = gDispatcherRunning s" using t h(1) s1' by (auto simp: lock_defs bind_eq_Some_conv)
  have dt: "Drivers ?t k = (if k = d then map_option ?f (Drivers s d) else Drivers s k)" for k
    by (simp add: h(1) s1' Drivers_upd_driver)
  have sc: "scheduled_in ?t k \<longleftrightarrow> k \<noteq> d \<and> scheduled_in s k" for k unfolding scheduled_in_def dt by auto
  have "later ?s ?t" using f unfolding later_def dt by auto
  moreover have "dbase ?t" if "dbase ?s"
  proof -
    have "dom (Drivers ?t) = dom (Drivers s)" by (simp add: h(1) s1')
    moreover have "mapped h p = mapped (ScheduledLinks s) p" for p by (simp add: mapped_def h(2))
    ultimately show ?thesis using that unfolding dbase_def dt by (simp add: links_mapped_def h(1) s1')
  qed
  moreover have "dqueue ?t" if q: "dqueue ?s" "scheduled_in s d"
  proof -
    obtain q where q: "queued s q" "\<And>k. k \<in> set q \<longleftrightarrow> scheduled_in s k"
      using q(1) by (auto simp: dqueue_def queued_def scheduled_in_def)
    then obtain us vs where uv: "q = us @ d # vs" using \<open>scheduled_in s d\<close> split_list by metis
    have "queued ?t (us @ vs)" using qd q(1) uv by (simp add: queued_def)
    moreover have "k \<in> set (us @ vs) \<longleftrightarrow> scheduled_in ?t k" for k
      using q(2) [of k] queued_distinct [OF q(1)] by (auto simp: uv sc)
    ultimately show ?thesis unfolding dqueue_def by blast
  qed
  moreover have "strict ?t" if "strict ?s" "scheduled_in s d"
  proof -
    have "FvHandle (?f e) = FvHandle e" for e using f by simp
    then show ?thesis using that o unfolding strict_def dt scheduled_in_def by (auto simp: h(1) s1')
  qed
  ultimately have "gstep (scheduled_in s d) E ?s ?t" unfolding gstep_def dgood_def by blast
  with s1 t show "gstep (scheduled_in s d) E s t" by (rule lock_cycle_step)
qed

subsection \<open>Schedule and Trust\<close>

lemma CoreSchedule_step:
  assumes "CoreSchedule E h g s = Some (st, t)"
  shows "cstep E s t"
proof -
  from assms obtain d where d: "find_driver (Drivers s) (\<lambda>e. FvHandle e = h \<and> Unrequested e \<and> FileName e = g)
      (mDiscoveredList s) = Some d" by (auto simp: CoreSchedule_def bind_eq_Some_conv)
  show ?thesis
  proof (cases "d = 0")
    case True
    then show ?thesis using assms d by (simp add: CoreSchedule_def)
  next
    case False
    let ?f = "\<lambda>e. e\<lparr>Unrequested := False, Dependent := True\<rparr>" and ?s = "s\<lparr>mDispatcherLock := EfiLockReleased\<rparr>"
    from find_driver_Some [OF d False] obtain e where e: "Drivers s d = Some e" "Unrequested e" by blast
    obtain s1 where s1: "CoreAcquireDispatcherLock (Debugging E) s = Some s1"
      and t: "CoreReleaseDispatcherLock (Debugging E) (upd_driver d ?f s1) = Some t"
      using assms d False by (auto simp: CoreSchedule_def bind_eq_Some_conv)
    have t': "(upd_driver d ?f s1)\<lparr>mDispatcherLock := EfiLockReleased\<rparr> = upd_driver d ?f ?s"
      "t = upd_driver d ?f ?s"
      using s1 t by (auto simp: lock_defs upd_driver_def bind_eq_Some_conv)
    have c: "cstep E ?s (upd_driver d ?f ?s)"
      using e by (intro step_upd_driver) (auto simp: one_state_def)
    then have "dstep E s t" by (intro lock_cycle_step [OF s1 t]) (simp add: t' cstep_def)
    moreover have "still_scheduled s t" using e by (auto simp: t'(2) still_scheduled_def scheduled_in_def Drivers_upd_driver)
    ultimately show ?thesis by (rule cstepI)
  qed
qed

lemma CoreTrust_step:
  assumes "CoreTrust E h g s = Some (st, t)"
  shows "cstep E s t"
proof -
  from assms obtain d where d: "find_driver (Drivers s) (\<lambda>e. FvHandle e = h \<and> Untrusted e \<and> FileName e = g)
      (mDiscoveredList s) = Some d" by (auto simp: CoreTrust_def bind_eq_Some_conv)
  show ?thesis
  proof (cases "d = 0")
    case True
    then show ?thesis using assms d by (simp add: CoreTrust_def)
  next
    case False
    let ?f = "\<lambda>e. e\<lparr>Untrusted := False, Scheduled := True\<rparr>" and ?s = "s\<lparr>mDispatcherLock := EfiLockReleased\<rparr>"
    from find_driver_Some [OF d False] obtain e where e: "Drivers s d = Some e" "Untrusted e" by blast
    obtain s1 s2 where s1: "CoreAcquireDispatcherLock (Debugging E) s = Some s1"
      and s2: "enqueue_driver (Pcd E) d (upd_driver d ?f s1) = Some s2" and t: "CoreReleaseDispatcherLock (Debugging E) s2 = Some t"
      using assms d False by (auto simp: CoreTrust_def bind_eq_Some_conv)
    have t': "t = s2\<lparr>mDispatcherLock := EfiLockReleased\<rparr>" using t by (auto simp: lock_defs bind_eq_Some_conv)
    have q: "enqueue_driver (Pcd E) d (upd_driver d ?f ?s) = Some t"
      using s1 s2 by (auto simp: lock_defs bind_eq_Some_conv enqueue_driver_lock t')
    have "Drivers ?s d = Some e" using e(1) by simp
    note st = enqueue_step [OF this _ q, simplified]
    have k: "still_scheduled ?s t" using st(3) by simp
    have "\<not> Scheduled e \<and> one_state (?f e)" if "dgood ?s"
      using that e by (auto simp: dgood_def strict_def one_state_def)
    then have "dstep E ?s t" using st(1,2,4) unfolding gstep_def by blast
    then have "dstep E s t" by (intro lock_cycle_step [OF s1 t]) (simp add: t')
    then show ?thesis using k by (simp add: cstepI)
  qed
qed

subsection \<open>The dispatch loop\<close>

text \<open>What the surroundings must keep: images and notification functions call the services only, and the pool
  hands out free memory.\<close>

definition denv_ok :: "'w denv \<Rightarrow> bool" where
  "denv_ok E \<longleftrightarrow> (\<forall>p s st h t. LoadImage E p s = Some (st, h, t) \<longrightarrow> cstep E s t) \<and>
     (\<forall>h s t. StartImage E h s = Some t \<longrightarrow> cstep E s t) \<and>
     (\<forall>s t. SignalDispatchEvent E s = Some t \<longrightarrow> cstep E s t) \<and>
     (\<forall>s d w. dbase s \<longrightarrow> AllocateDriver E s = (d, w) \<longrightarrow> Drivers s d = None)"

text \<open>A step inside the dispatcher, which is running: it keeps running.\<close>

definition rstep :: "'w denv \<Rightarrow> 'w disp \<Rightarrow> 'w disp \<Rightarrow> bool" where
  "rstep E s t \<longleftrightarrow> dstep E s t \<and> (dbase s \<longrightarrow> gDispatcherRunning s \<longrightarrow> gDispatcherRunning t)"

lemma rstep_refl [simp]: "rstep E s s"
  by (simp add: rstep_def)

lemma rstep_trans [trans]: "rstep E s t \<Longrightarrow> rstep E t u \<Longrightarrow> rstep E s u"
  unfolding rstep_def by (metis gstep_def gstep_trans)

lemma cstep_rstep: "cstep E s t \<Longrightarrow> rstep E s t"
  by (auto simp: cstep_def rstep_def still_scheduled_def)

text \<open>While an image is loaded its driver stays on the queue, since the dispatcher does not start anew.\<close>

lemma dispatch_driver_step:
  assumes ok: "denv_ok E" and run: "dispatch_driver E d s = Some (b, t)" and r: "gDispatcherRunning s" and B: "dbase s"
  shows "gstep (scheduled_in s d) E s t" "gDispatcherRunning t"
proof -
  obtain e st s1 where e: "Drivers s d = Some e"
    and load: "(if ImageHandle e = 0 then Option.bind (LoadImage E (FvFileDevicePath e) s)
        (\<lambda>(Status, h, s). Some (Status, upd_driver d (ImageHandle_update (\<lambda>_. h)) s)) else Some (EFI_SUCCESS, s)) = Some (st, s1)"
    and rest: "(if EFI_ERROR st then Option.bind (unschedule_driver (Pcd E)
          (if st = EFI_SECURITY_VIOLATION then Untrusted_update (\<lambda>_. True) else Initialized_update (\<lambda>_. True)) d s1)
          (\<lambda>s. Some (False, s))
        else Option.bind (unschedule_driver (Pcd E) (Initialized_update (\<lambda>_. True)) d s1)
          (\<lambda>s. Option.bind (Drivers s d) (\<lambda>e. Option.bind (StartImage E (ImageHandle e) s) (\<lambda>s. Some (True, s))))) = Some (b, t)"
    using run unfolding dispatch_driver_def by (auto simp: bind_eq_Some_conv)
  have upd: "cstep E u (upd_driver d (ImageHandle_update (\<lambda>_. h)) u)" for h u
    by (rule step_upd_driver) (auto simp: one_state_def)
  have 1: "cstep E s s1"
    using load ok upd by (auto simp: bind_eq_Some_conv denv_ok_def split: if_splits intro: cstep_trans [OF _ upd])
  then have k: "still_scheduled s s1" and B1: "dbase s1" using B r by (simp_all add: cstep_def gstep_def)
  have un: "gstep (scheduled_in s d) E s1 u" "gDispatcherRunning u = gDispatcherRunning s1"
    if "unschedule_driver (Pcd E) f d s1 = Some u" "f = Untrusted_update (\<lambda>_. True) \<or> f = Initialized_update (\<lambda>_. True)" for f u
  proof -
    have "gstep (scheduled_in s1 d) E s1 u"
      using that by (intro unschedule_driver_step(1) [OF that(1)]) (auto simp: one_state_def)
    then show "gstep (scheduled_in s d) E s1 u" by (rule gstep_cond) (use k in \<open>simp add: still_scheduled_def\<close>)
    show "gDispatcherRunning u = gDispatcherRunning s1"
      using that by (intro unschedule_driver_step(2) [OF that(1)]) (auto simp: one_state_def)
  qed
  have r1: "gDispatcherRunning s1" using k r by (simp add: still_scheduled_def)
  have "gstep (scheduled_in s d) E s1 t \<and> gDispatcherRunning t"
  proof (cases "EFI_ERROR st")
    case True
    then obtain f where "unschedule_driver (Pcd E) f d s1 = Some t"
      "f = Untrusted_update (\<lambda>_. True) \<or> f = Initialized_update (\<lambda>_. True)" using rest by (auto simp: bind_eq_Some_conv)
    with un [OF this] r1 show ?thesis by blast
  next
    case False
    then obtain u and e :: EFI_CORE_DRIVER_ENTRY where u:
      "unschedule_driver (Pcd E) (Initialized_update (\<lambda>_. True)) d s1 = Some u"
      "StartImage E (ImageHandle e) u = Some t" using rest by (simp add: bind_eq_Some_conv) blast
    note uu = un [OF u(1) disjI2 [OF refl]]
    have Bu: "dbase u" using uu(1) B1 by (simp add: gstep_def)
    have c: "cstep E u t" using ok u(2) by (auto simp: denv_ok_def)
    then have "gstep (scheduled_in s d) E u t" using gstep_cond cstep_dstep by blast
    moreover have "gDispatcherRunning t" using c Bu uu(2) r1 by (simp add: cstep_def still_scheduled_def)
    ultimately show ?thesis using gstep_trans [OF uu(1)] by blast
  qed
  moreover have "gstep (scheduled_in s d) E s s1" using 1 gstep_cond cstep_dstep by blast
  ultimately show "gstep (scheduled_in s d) E s t" "gDispatcherRunning t" using gstep_trans by blast+
qed

lemma drain_queue_step:
  assumes ok: "denv_ok E" and run: "drain_queue E rs s = Some (rs', t)" and r: "gDispatcherRunning s"
  shows "rstep E s t"
proof -
  have "E' = E \<longrightarrow> gDispatcherRunning s \<longrightarrow> rstep E s (snd x)" if "drain_queue E' rs s = Some x"
    for E' rs s and x :: "EFI_STATUS \<times> 'a disp"
  proof (rule drain_queue.raw_induct [where P = "\<lambda>E' rs s x. E' = E \<longrightarrow> gDispatcherRunning s \<longrightarrow> rstep E s (snd x)", OF _ that])
    fix f and E' :: "'a denv" and rs s and x :: "EFI_STATUS \<times> 'a disp"
    assume IH: "\<And>E' rs s x. f E' rs s = Some x \<Longrightarrow> E' = E \<longrightarrow> gDispatcherRunning s \<longrightarrow> rstep E s (snd x)"
      and eq: "Option.bind (IsListEmpty (Pcd E') (ScheduledLinks s) mScheduledQueue) (\<lambda>empty.
        if empty then Some (rs, s)
        else Option.bind (first_scheduled s) (\<lambda>d. Option.bind (dispatch_driver E' d s) (\<lambda>(started, s).
          f E' (if started then EFI_SUCCESS else rs) s))) = Some x"
    show "E' = E \<longrightarrow> gDispatcherRunning s \<longrightarrow> rstep E s (snd x)"
    proof (intro impI)
      assume E': "E' = E" and r: "gDispatcherRunning s"
      obtain b where b: "IsListEmpty (Pcd E) (ScheduledLinks s) mScheduledQueue = Some b"
        and next_step: "(if b then Some (rs, s) else Option.bind (first_scheduled s) (\<lambda>d. Option.bind (dispatch_driver E d s)
          (\<lambda>(started, s). f E (if started then EFI_SUCCESS else rs) s))) = Some x" using eq E' by (auto simp: bind_eq_Some_conv)
      show "rstep E s (snd x)"
      proof (cases "b \<or> \<not> dbase s")
        case True
        then show ?thesis using next_step by (auto simp: rstep_def gstep_def)
      next
        case False
        then obtain d c u where d: "first_scheduled s = Some d" and u: "dispatch_driver E d s = Some (c, u)"
          "f E (if c then EFI_SUCCESS else rs) u = Some x" using next_step by (auto simp: bind_eq_Some_conv)
        note du = dispatch_driver_step [OF ok u(1) r]
        have "scheduled_in s d" if g: "dgood s"
        proof -
          obtain q where q: "queued s q" "\<And>k. k \<in> set q \<longleftrightarrow> scheduled_in s k" using g unfolding dgood_def dqueue_def by blast
          then obtain d' q' where "q = d' # q'" using queue_first(1) [OF q(1) b] False by (cases q) auto
          then show ?thesis using queue_first(2) [OF q(1) b] q(2) d by fastforce
        qed
        then have "dstep E s u" using False du(1) by (intro gstep_cond [OF du(1)]) auto
        then have "rstep E s u" using du(2) False by (simp add: rstep_def)
        also have "rstep E u (snd x)" using IH [OF u(2)] du(2) False by simp
        finally show ?thesis .
      qed
    qed
  qed
  from this [OF run] r show ?thesis by simp
qed

text \<open>Reading a dependency section again is harmless for the strict invariant: no driver is in that state.\<close>

lemma CorePreProcessDepex_frame:
  assumes "CorePreProcessDepex e = Some (st, e')"
  shows "Scheduled e' = Scheduled e" "Initialized e' = Initialized e" "FileName e' = FileName e" "FvHandle e' = FvHandle e"
    "Untrusted e' = Untrusted e" "read_byte (the (Depex e)) 0 \<noteq> Some EFI_DEP_SOR \<Longrightarrow> Dependent e' \<and> Unrequested e' = Unrequested e"
proof -
  obtain m op where m: "Depex e = Some m" and op: "read_byte m 0 = Some op"
    using assms by (auto simp: CorePreProcessDepex_def bind_eq_Some_conv)
  have e': "\<exists>a b g. e' = (if op = EFI_DEP_SOR then e\<lparr>Unrequested := True\<rparr> else e\<lparr>Dependent := True\<rparr>)
      \<lparr>Before := a, After := b, BeforeAfterGuid := g\<rparr>"
  proof -
    define e1 where "e1 = (if op = EFI_DEP_SOR then e\<lparr>Unrequested := True\<rparr> else e\<lparr>Dependent := True\<rparr>)"
    define e2 where "e2 = (if op = EFI_DEP_BEFORE then e1\<lparr>Before := True\<rparr> else if op = EFI_DEP_AFTER then e1\<lparr>After := True\<rparr> else e1)"
    have "(if Before e2 \<or> After e2 then Option.bind (read_guid m 1) (\<lambda>g. Some (EFI_SUCCESS, e2\<lparr>BeforeAfterGuid := g\<rparr>))
        else Some (EFI_SUCCESS, e2)) = Some (st, e')"
      using assms by (simp only: CorePreProcessDepex_def m op bind.bind_lunit e1_def e2_def Let_def)
    then have "e' = e2 \<or> (\<exists>g. e' = e2\<lparr>BeforeAfterGuid := g\<rparr>)" by (auto simp: bind_eq_Some_conv split: if_splits)
    moreover have "e2 = e2\<lparr>BeforeAfterGuid := BeforeAfterGuid e2\<rparr>" by simp
    ultimately have "\<exists>g. e' = e2\<lparr>BeforeAfterGuid := g\<rparr>" by blast
    moreover have "\<exists>a b. e2 = e1\<lparr>Before := a, After := b\<rparr>"
      by (rule exI [of _ "Before e2"], rule exI [of _ "After e2"]) (simp add: e2_def)
    ultimately show ?thesis unfolding e1_def by blast
  qed
  then obtain a b g where "e' = (if op = EFI_DEP_SOR then e\<lparr>Unrequested := True\<rparr> else e\<lparr>Dependent := True\<rparr>)
      \<lparr>Before := a, After := b, BeforeAfterGuid := g\<rparr>" by blast
  then show "Scheduled e' = Scheduled e" "Initialized e' = Initialized e" "FileName e' = FileName e" "FvHandle e' = FvHandle e"
    "Untrusted e' = Untrusted e" "read_byte (the (Depex e)) 0 \<noteq> Some EFI_DEP_SOR \<Longrightarrow> Dependent e' \<and> Unrequested e' = Unrequested e"
    using m op by simp_all
qed

lemma CoreGetDepex_upd:
  assumes "CoreGetDepexSectionAndPreProccess E d s = Some (st, t)"
  obtains e e' w where "Drivers s d = Some e" "t = upd_driver d (\<lambda>_. e') (s\<lparr>World := w\<rparr>)" "Scheduled e' = Scheduled e"
    "Initialized e' = Initialized e" "FileName e' = FileName e" "FvHandle e' = FvHandle e" "Untrusted e' = Untrusted e"
    "plain_drivers E \<Longrightarrow> Dependent e' \<and> Unrequested e' = Unrequested e \<and> \<not> DepexProtocolError e'"
proof -
  obtain e where e: "Drivers s d = Some e" using assms by (auto simp: CoreGetDepexSectionAndPreProccess_def bind_eq_Some_conv)
  obtain st m n w where rd: "ReadDepex E (Fv e) (FileName e) (World s) = (st, m, n, w)" by (rule prod_cases4)
  then have pl: "plain_drivers E \<Longrightarrow> st \<noteq> EFI_PROTOCOL_ERROR \<and> (\<not> EFI_ERROR st \<longrightarrow> read_byte m 0 \<noteq> Some EFI_DEP_SOR)"
    unfolding plain_drivers_def by blast
  show ?thesis
  proof (cases "EFI_ERROR st")
    case True
    define f :: "EFI_CORE_DRIVER_ENTRY \<Rightarrow> EFI_CORE_DRIVER_ENTRY" where "f = (if st = EFI_PROTOCOL_ERROR then DepexProtocolError_update (\<lambda>_. True)
      else (\<lambda>e. e\<lparr>Depex := None, Dependent := True, DepexProtocolError := False\<rparr>))"
    have "t = upd_driver d f (s\<lparr>World := w\<rparr>)"
      using assms e rd True by (auto simp: CoreGetDepexSectionAndPreProccess_def f_def)
    also have "\<dots> = upd_driver d (\<lambda>_. f e) (s\<lparr>World := w\<rparr>)" using e by (simp add: upd_driver_def)
    finally show ?thesis by (rule that [OF e]) (use pl in \<open>auto simp: f_def\<close>)
  next
    case False
    then obtain st' e' where e': "CorePreProcessDepex (e\<lparr>Depex := Some m, DepexSize := n\<rparr>) = Some (st', e')"
      and t: "t = upd_driver d (\<lambda>_. e'\<lparr>DepexProtocolError := False\<rparr>) (s\<lparr>World := w\<rparr>)"
      using assms e rd by (auto simp: CoreGetDepexSectionAndPreProccess_def bind_eq_Some_conv)
    show ?thesis
      by (rule that [OF e t]) (use CorePreProcessDepex_frame [OF e'] pl False in simp_all)
  qed
qed

lemma CoreGetDepex_step:
  assumes "CoreGetDepexSectionAndPreProccess E d s = Some (st, t)" "\<And>e. Drivers s d = Some e \<Longrightarrow> DepexProtocolError e"
  shows "cstep E s t"
proof -
  obtain e e' w where e: "Drivers s d = Some e" "t = upd_driver d (\<lambda>_. e') (s\<lparr>World := w\<rparr>)" "Scheduled e' = Scheduled e"
    "Initialized e' = Initialized e" "FileName e' = FileName e" "FvHandle e' = FvHandle e"
    by (rule CoreGetDepex_upd [OF assms(1)])
  have "cstep E s (s\<lparr>World := w\<rparr>)" by simp
  also have "cstep E (s\<lparr>World := w\<rparr>) t"
    unfolding e(2) by (rule step_upd_driver) (use e assms(2) in \<open>auto simp: one_state_def\<close>)
  finally show ?thesis .
qed

lemma CoreIsSchedulable_depex:
  assumes "CoreIsSchedulable en al lo sv e st = Some (b, e', st')"
  shows "\<exists>m. e' = e\<lparr>Depex := m\<rparr>" "b \<Longrightarrow> \<not> Before e \<and> \<not> After e"
  using assms by (auto simp: CoreIsSchedulable_def bind_eq_Some_conv split: if_splits option.splits)
    (metis EFI_CORE_DRIVER_ENTRY.surjective EFI_CORE_DRIVER_ENTRY.update_convs(5))+

lemma search_driver_step:
  assumes run: "search_driver E d s = Some (b, t)"
  shows "cstep E s t"
proof -
  obtain e s1 e1 where e: "Drivers s d = Some e"
    and s1: "(if DepexProtocolError e then map_option snd (CoreGetDepexSectionAndPreProccess E d s) else Some s) = Some s1"
    and e1: "Drivers s1 d = Some e1"
    and rest: "(if Dependent e1 then Option.bind (CoreIsSchedulable (Debugging E) (AllocBools E (World s1)) (LocateProtocol E (World s1))
          (AllEfiServicesAvailable E (World s1)) e1 (EvaluationStack s1)) (\<lambda>(b, e, st).
          let s = upd_driver d (\<lambda>_. e) (s1\<lparr>EvaluationStack := st\<rparr>) in
          if b then Option.bind (CoreInsertOnScheduledQueueWhileProcessingBeforeAndAfter E d s) (\<lambda>s. Some (True, s))
          else Some (False, s)) else Some (False, s1)) = Some (b, t)"
    using run unfolding search_driver_def by (auto simp: bind_eq_Some_conv Let_def)
  have "cstep E s s1" using s1 e by (auto split: if_splits intro: CoreGetDepex_step)
  also have "cstep E s1 t"
  proof (cases "Dependent e1")
    case True
    then obtain b' e2 st where c: "CoreIsSchedulable (Debugging E) (AllocBools E (World s1)) (LocateProtocol E (World s1))
        (AllEfiServicesAvailable E (World s1)) e1 (EvaluationStack s1) = Some (b', e2, st)"
      and t: "(let s = upd_driver d (\<lambda>_. e2) (s1\<lparr>EvaluationStack := st\<rparr>) in
          if b' then Option.bind (CoreInsertOnScheduledQueueWhileProcessingBeforeAndAfter E d s) (\<lambda>s. Some (True, s))
          else Some (False, s)) = Some (b, t)" using rest by (auto simp: bind_eq_Some_conv)
    let ?u = "upd_driver d (\<lambda>_. e2) (s1\<lparr>EvaluationStack := st\<rparr>)"
    from CoreIsSchedulable_depex(1) [OF c] obtain m where m: "e2 = e1\<lparr>Depex := m\<rparr>" ..
    have "cstep E s1 (s1\<lparr>EvaluationStack := st\<rparr>)" by simp
    also have "cstep E (s1\<lparr>EvaluationStack := st\<rparr>) ?u"
      by (rule step_upd_driver) (use e1 m in \<open>auto simp: one_state_def\<close>)
    also have "cstep E ?u t"
    proof (cases b')
      case b: True
      have ud: "Drivers ?u d = Some e2" using e1 by (simp add: Drivers_upd_driver)
      have ne: "Dependent e2" "\<not> Before e2" "\<not> After e2" using CoreIsSchedulable_depex(2) [OF c b] True by (simp_all add: m)
      have "CoreInsertOnScheduledQueueWhileProcessingBeforeAndAfter E d ?u = Some t"
        using t b by (auto simp: Let_def bind_eq_Some_conv)
      from CoreInsert_step [OF this ud ne] show ?thesis by (simp add: cstep_def)
    qed (use t in \<open>simp add: Let_def\<close>)
    finally show ?thesis .
  qed (use rest in auto)
  finally show ?thesis .
qed

lemma search_loop_step: "search_loop E ds r s = Some (r', t) \<Longrightarrow> cstep E s t"
proof (induction ds arbitrary: r s)
  case (Cons d ds)
  then obtain b u where "search_driver E d s = Some (b, u)" "search_loop E ds (r \<or> b) u = Some (r', t)"
    by (auto simp: bind_eq_Some_conv)
  with Cons.IH show ?case by (blast intro: cstep_trans search_driver_step)
qed simp

lemma dispatch_rounds_step:
  assumes ok: "denv_ok E" and run: "dispatch_rounds E rs s = Some (rs', t)" and r: "gDispatcherRunning s"
  shows "rstep E s t"
proof -
  have "E' = E \<longrightarrow> gDispatcherRunning s \<longrightarrow> rstep E s (snd x)" if "dispatch_rounds E' rs s = Some x" for E' rs s and x :: "EFI_STATUS \<times> 'a disp"
  proof (rule dispatch_rounds.raw_induct [where P = "\<lambda>E' rs s x. E' = E \<longrightarrow> gDispatcherRunning s \<longrightarrow> rstep E s (snd x)", OF _ that])
    fix f and E' :: "'a denv" and rs s and x :: "EFI_STATUS \<times> 'a disp"
    assume IH: "\<And>E' rs s x. f E' rs s = Some x \<Longrightarrow> E' = E \<longrightarrow> gDispatcherRunning s \<longrightarrow> rstep E s (snd x)"
      and eq: "Option.bind (drain_queue E' rs s) (\<lambda>(rs, s).
        Option.bind (if \<not> EFI_ERROR rs then SignalDispatchEvent E' s else Some s) (\<lambda>s.
        Option.bind (search_loop E' (mDiscoveredList s) False s) (\<lambda>(r, s).
          if r then f E' rs s else Some (rs, s)))) = Some x"
    show "E' = E \<longrightarrow> gDispatcherRunning s \<longrightarrow> rstep E s (snd x)"
    proof (intro impI)
      assume E': "E' = E" and r: "gDispatcherRunning s"
      obtain rs1 s1 s2 r s3 where s1: "drain_queue E rs s = Some (rs1, s1)"
        and s2: "(if \<not> EFI_ERROR rs1 then SignalDispatchEvent E s1 else Some s1) = Some s2"
        and s3: "search_loop E (mDiscoveredList s2) False s2 = Some (r, s3)"
        and x: "(if r then f E rs1 s3 else Some (rs1, s3)) = Some x" using eq unfolding E' by (auto simp: bind_eq_Some_conv)
      show "rstep E s (snd x)"
      proof (cases "dbase s")
        case False
        then show ?thesis by (simp add: rstep_def gstep_def)
      next
        case True
        have "rstep E s s1" by (rule drain_queue_step [OF ok s1 r])
        also have "rstep E s1 s2" using s2 ok by (auto simp: denv_ok_def intro: cstep_rstep split: if_splits)
        also have "rstep E s2 s3" by (rule cstep_rstep [OF search_loop_step [OF s3]])
        finally have 3: "rstep E s s3" .
        then have "gDispatcherRunning s3" using True r by (simp add: rstep_def)
        then have "rstep E s3 (snd x)" using x IH [of E rs1 s3 x] by (auto split: if_splits)
        with 3 show ?thesis by (rule rstep_trans)
      qed
    qed
  qed
  from this [OF run] r show ?thesis by simp
qed

lemma CoreDispatcher_step:
  assumes ok: "denv_ok E" and run: "CoreDispatcher E s = Some (st, t)"
  shows "cstep E s t"
proof (cases "gDispatcherRunning s")
  case True
  then show ?thesis using run by (simp add: CoreDispatcher_def)
next
  case False
  obtain st1 w where w: "CreateDispatchEvent E (World s) = (st1, w)" by fastforce
  let ?s = "s\<lparr>gDispatcherRunning := True, World := w\<rparr>"
  have s: "dstep E s ?s" by (rule same_drivers_dstep) (simp add: same_drivers_def)
  have "dstep E s t"
  proof (cases "EFI_ERROR st1")
    case True
    then show ?thesis using run False w s by (auto simp: CoreDispatcher_def)
  next
    case ok1: False
    then obtain rs u where u: "dispatch_rounds E EFI_NOT_FOUND ?s = Some (rs, u)"
      and t: "t = u\<lparr>World := CloseDispatchEvent E (World u), gDispatcherRunning := False\<rparr>"
      using run False w by (auto simp: CoreDispatcher_def Let_def bind_eq_Some_conv)
    note s
    also have "dstep E ?s u" using dispatch_rounds_step [OF ok u] by (simp add: rstep_def)
    also have "dstep E u t" unfolding t by (rule same_drivers_dstep) (simp add: same_drivers_def)
    finally show ?thesis .
  qed
  then show ?thesis using False by (simp add: cstep_def)
qed

subsection \<open>Discovery\<close>

text \<open>\<open>fresh_fv h G s\<close>: the drivers found so far in the firmware volume \<open>h\<close> with a name in \<open>G\<close> wait for their
  dependencies. This holds of all names from the moment the volume is marked as processed, and of the names that are
  left in the a priori file; it is why a driver of the a priori file is not on the queue when it is put there.\<close>

definition fresh_fv :: "nat \<Rightarrow> EFI_GUID set \<Rightarrow> 'w disp \<Rightarrow> bool" where
  "fresh_fv h G s \<longleftrightarrow> h \<in> set (mFvHandleList s) \<and>
     (\<forall>d e. Drivers s d = Some e \<longrightarrow> FvHandle e = h \<longrightarrow> FileName e \<in> G \<longrightarrow> Dependent e)"

definition fstep :: "'w denv \<Rightarrow> nat \<Rightarrow> EFI_GUID set \<Rightarrow> EFI_GUID set \<Rightarrow> 'w disp \<Rightarrow> 'w disp \<Rightarrow> bool" where
  "fstep E h G G' s t \<longleftrightarrow> (dbase s \<longrightarrow> dbase t \<and> later s t \<and> still_scheduled s t \<and>
     (sound_volumes E \<longrightarrow> dgood s \<longrightarrow> fresh_fv h G s \<longrightarrow> dgood t \<and> fresh_fv h G' t))"

lemma fstep_refl [simp]: "fstep E h G G s s"
  by (simp add: fstep_def)

lemma fstep_trans [trans]: "fstep E h F G s t \<Longrightarrow> fstep E h G H t u \<Longrightarrow> fstep E h F H s u"
  unfolding fstep_def by (blast intro: later_trans still_scheduled_trans)

lemma same_drivers_fstep:
  assumes "same_drivers s t" "gDispatcherRunning t = gDispatcherRunning s"
  shows "fstep E h G G s t"
proof -
  have "dgood t" if "dgood s"
    using that assms(1) unfolding dgood_def strict_def dqueue_def queued_def scheduled_in_def same_drivers_def by auto
  moreover have "fresh_fv h G t" if "fresh_fv h G s" using that assms(1) by (auto simp: fresh_fv_def same_drivers_def)
  moreover have "dbase s \<Longrightarrow> dbase t" "later s t" "still_scheduled s t"
    using assms by (auto simp: same_drivers_def dbase_def links_mapped_def later_def still_scheduled_def scheduled_in_def)
  ultimately show ?thesis unfolding fstep_def by blast
qed

lemma fstep_cstep: "fstep E h G G' s t \<Longrightarrow> (sound_volumes E \<Longrightarrow> dgood s \<Longrightarrow> fresh_fv h G s) \<Longrightarrow> cstep E s t"
  unfolding fstep_def cstep_def gstep_def by blast

lemma CoreAddToDriverList_result:
  assumes "CoreAddToDriverList E fv h g s = Some t"
  obtains d w e w' where "AllocateDriver E s = (d, w)" "d \<noteq> 0" "t = s\<lparr>World := w', Drivers := (Drivers s)(d \<mapsto> e),
      ScheduledLinks := (ScheduledLinks s)(ScheduledLink d \<mapsto> \<lparr>ForwardLink = 0, BackLink = 0\<rparr>),
      mDiscoveredList := mDiscoveredList s @ [d], mDispatcherLock := EfiLockReleased\<rparr>"
    "\<not> Scheduled e" "\<not> Initialized e" "\<not> Untrusted e" "FileName e = g" "FvHandle e = h" "plain_drivers E \<Longrightarrow> Dependent e \<and> one_state e"
proof -
  obtain d w where al: "AllocateDriver E s = (d, w)" by fastforce
  obtain path w1 where p: "CoreFvToDevicePath E h g w = (path, w1)" by fastforce
  let ?e = "zero_driver\<lparr>FileName := g, FvHandle := h, Fv := fv, FvFileDevicePath := path\<rparr>"
  let ?s = "s\<lparr>World := w1, Drivers := (Drivers s)(d \<mapsto> ?e),
    ScheduledLinks := (ScheduledLinks s)(ScheduledLink d \<mapsto> \<lparr>ForwardLink = 0, BackLink = 0\<rparr>)\<rparr>"
  have d: "d \<noteq> 0" using assms al by (cases "d = 0") (simp_all add: CoreAddToDriverList_def)
  then obtain st u where u: "CoreGetDepexSectionAndPreProccess E d ?s = Some (st, u)"
    and t: "t = u\<lparr>mDiscoveredList := mDiscoveredList u @ [d], mDispatcherLock := EfiLockReleased\<rparr>"
    using assms al p by (auto simp: CoreAddToDriverList_def Let_def bind_eq_Some_conv lock_defs)
  obtain e e' w' where e: "Drivers ?s d = Some e" "u = upd_driver d (\<lambda>_. e') (?s\<lparr>World := w'\<rparr>)" "Scheduled e' = Scheduled e"
    "Initialized e' = Initialized e" "FileName e' = FileName e" "FvHandle e' = FvHandle e" "Untrusted e' = Untrusted e"
    "plain_drivers E \<Longrightarrow> Dependent e' \<and> Unrequested e' = Unrequested e \<and> \<not> DepexProtocolError e'"
    by (rule CoreGetDepex_upd [OF u]) (rule that)
  have ee: "e = ?e" using e(1) by simp
  show ?thesis
    by (rule that [of d w e' w', OF al d]) (use e(2-) in \<open>auto simp: ee t zero_driver_def upd_driver_def one_state_def\<close>)
qed

lemma CoreAddToDriverList_fstep:
  assumes ok: "denv_ok E" and run: "CoreAddToDriverList E fv h g s = Some t"
  shows "fstep E h UNIV UNIV s t"
  unfolding fstep_def
proof (intro impI)
  assume s: "dbase s"
  obtain d w e w' where al: "AllocateDriver E s = (d, w)" "d \<noteq> 0" and t: "t = s\<lparr>World := w', Drivers := (Drivers s)(d \<mapsto> e),
      ScheduledLinks := (ScheduledLinks s)(ScheduledLink d \<mapsto> \<lparr>ForwardLink = 0, BackLink = 0\<rparr>),
      mDiscoveredList := mDiscoveredList s @ [d], mDispatcherLock := EfiLockReleased\<rparr>"
    and e: "\<not> Scheduled e" "FvHandle e = h" "plain_drivers E \<Longrightarrow> Dependent e \<and> one_state e"
    by (rule CoreAddToDriverList_result [OF run]) (rule that)
  have new: "Drivers s d = None" using ok s al by (auto simp: denv_ok_def)
  have "dbase t" using s new al(2) unfolding dbase_def t by (auto simp: links_mapped_def mapped_def)
  moreover have "later s t" unfolding later_def t using new by auto
  moreover have sc: "scheduled_in t k \<longleftrightarrow> scheduled_in s k" for k using new e(1) by (auto simp: scheduled_in_def t)
  then have "still_scheduled s t" unfolding still_scheduled_def sc by (simp add: t)
  moreover have "dgood t \<and> fresh_fv h UNIV t" if g: "sound_volumes E" "dgood s" "fresh_fv h UNIV s"
  proof -
    obtain q where q: "queued s q" "\<And>k. k \<in> set q \<longleftrightarrow> scheduled_in s k" using g(2) unfolding dgood_def dqueue_def by blast
    have "d \<notin> set q" using q(2) new by (simp add: scheduled_in_def)
    then have "queued t q" using q(1) unfolding queued_def t by (auto intro!: is_list_frame [OF q(1) [unfolded queued_def]])
    then have "dqueue t" using q(2) sc unfolding dqueue_def by blast
    moreover have "strict t" using g e(2,3) unfolding sound_volumes_def dgood_def strict_def fresh_fv_def t by auto
    moreover have "fresh_fv h UNIV t" using g e(2,3) unfolding sound_volumes_def fresh_fv_def t by auto
    ultimately show ?thesis by (simp add: dgood_def)
  qed
  ultimately show "dbase t \<and> later s t \<and> still_scheduled s t \<and>
      (sound_volumes E \<longrightarrow> dgood s \<longrightarrow> fresh_fv h UNIV s \<longrightarrow> dgood t \<and> fresh_fv h UNIV t)" by blast
qed

lemma add_file_fstep: "denv_ok E \<Longrightarrow> add_file E fv h ty g s = Some t \<Longrightarrow> fstep E h UNIV UNIV s t"
  by (auto simp: add_file_def Let_def same_drivers_def split: if_splits prod.splits
      intro: CoreAddToDriverList_fstep same_drivers_fstep)

lemma add_files_fstep: "denv_ok E \<Longrightarrow> add_files E fv h ty gs s = Some t \<Longrightarrow> fstep E h UNIV UNIV s t"
  by (induction gs arbitrary: s) (auto simp: bind_eq_Some_conv intro: fstep_trans [OF add_file_fstep])

lemma discover_files_fstep: "denv_ok E \<Longrightarrow> discover_files E fv h tys s = Some t \<Longrightarrow> fstep E h UNIV UNIV s t"
  by (induction tys arbitrary: s) (auto simp: bind_eq_Some_conv intro: fstep_trans [OF add_files_fstep])

text \<open>The loop over the a priori file runs with the lock held; here with the lock left aside.\<close>

lemma enqueue_apriori_fstep:
  assumes d: "Drivers s d = Some e" "FvHandle e = h" "FileName e = g" and gs: "g \<notin> G"
    and q: "enqueue_driver cfg d (upd_driver d to_scheduled s) = Some t"
  shows "fstep E h (insert g G) G s t"
proof -
  note st = enqueue_step [OF d(1) _ q, simplified]
  have "\<not> Scheduled e \<and> one_state (to_scheduled e)" if "dgood s" "fresh_fv h (insert g G) s"
    using that d by (auto simp: fresh_fv_def dgood_def strict_def one_state_def)
  moreover have "t = (upd_driver d to_scheduled s)\<lparr>ScheduledLinks := link_tail d (ScheduledLinks s)\<rparr>"
    using enqueue_driver_Some [OF q] by simp
  then have "fresh_fv h G t" if "fresh_fv h (insert g G) s"
    using that d gs by (auto simp: fresh_fv_def Drivers_upd_driver)
  ultimately show ?thesis using st unfolding fstep_def by blast
qed

lemma schedule_apriori_lock: "schedule_apriori cfg h gs (s\<lparr>mDispatcherLock := l\<rparr>) =
    map_option (mDispatcherLock_update (\<lambda>_. l)) (schedule_apriori cfg h gs s)"
proof (induction gs arbitrary: s)
  case (Cons g gs)
  show ?case
  proof (cases "find_driver (Drivers s) (\<lambda>e. FileName e = g \<and> h = FvHandle e) (mDiscoveredList s)")
    case (Some d)
    then show ?thesis using Cons.IH
      by (cases "enqueue_driver cfg d (upd_driver d to_scheduled s)") (simp_all add: enqueue_driver_lock)
  qed simp
qed simp

text \<open>With a file listed twice the steps keep the base invariant only.\<close>

lemma fstep_weaken: "fstep E h G G' s t \<Longrightarrow> F \<supseteq> G \<Longrightarrow> fstep E h F G' s t"
  unfolding fstep_def fresh_fv_def by blast

lemma schedule_apriori_fstep:
  "schedule_apriori cfg h gs s = Some t \<Longrightarrow> distinct gs \<Longrightarrow> fstep E h (set gs) {} s t"
proof (induction gs arbitrary: s)
  case (Cons g gs)
  then obtain d u where d: "find_driver (Drivers s) (\<lambda>e. FileName e = g \<and> h = FvHandle e) (mDiscoveredList s) = Some d"
    and u: "(if d = 0 then Some s else enqueue_driver cfg d (upd_driver d to_scheduled s)) = Some u"
    and t: "schedule_apriori cfg h gs u = Some t" by (auto simp: bind_eq_Some_conv)
  have "fstep E h (set (g # gs)) (set gs) s u"
  proof (cases "d = 0")
    case False
    from find_driver_Some [OF d False] obtain e where "Drivers s d = Some e" "FvHandle e = h" "FileName e = g" by blast
    then show ?thesis using u False Cons.prems(2) enqueue_apriori_fstep [of s d e h g "set gs"] by simp
  qed (use u fstep_weaken [OF fstep_refl, of "set gs" "set (g # gs)"] in auto)
  then show ?case using Cons.IH [OF t] Cons.prems(2) by (auto intro: fstep_trans)
qed simp

lemma schedule_apriori_base:
  assumes "schedule_apriori cfg h gs s = Some t" "dbase s"
  shows "dbase t \<and> later s t \<and> still_scheduled s t"
  using assms
proof (induction gs arbitrary: s)
  case (Cons g gs)
  then obtain d u where d: "find_driver (Drivers s) (\<lambda>e. FileName e = g \<and> h = FvHandle e) (mDiscoveredList s) = Some d"
    and u: "(if d = 0 then Some s else enqueue_driver cfg d (upd_driver d to_scheduled s)) = Some u"
    and t: "schedule_apriori cfg h gs u = Some t" by (auto simp: bind_eq_Some_conv)
  have "dbase u \<and> later s u \<and> still_scheduled s u"
  proof (cases "d = 0")
    case False
    from find_driver_Some [OF d False] obtain e where "Drivers s d = Some e" by blast
    with u False Cons.prems(2) enqueue_step(1-3) [of s d e to_scheduled cfg u] show ?thesis by simp
  qed (use u Cons.prems(2) in simp)
  with Cons.IH [OF t] show ?case using later_trans still_scheduled_trans by blast
qed simp

lemma process_apriori_fstep:
  assumes "process_apriori E fv h s = Some t"
  shows "fstep E h UNIV {} s t"
proof -
  obtain st gs w where r: "ReadApriori E fv (World s) = (st, gs, w)" by (rule prod_cases3)
  let ?gs = "if EFI_ERROR st then [] else gs" and ?s = "s\<lparr>World := w, mDispatcherLock := EfiLockReleased\<rparr>"
  obtain u where u: "schedule_apriori (Pcd E) h ?gs (s\<lparr>World := w, mDispatcherLock := EfiLockAcquired\<rparr>) = Some u"
    and t: "t = u\<lparr>mDispatcherLock := EfiLockReleased, World := FreeApriori E (World u)\<rparr>"
    using assms r by (auto simp: process_apriori_def lock_defs bind_eq_Some_conv)
  let ?u = "u\<lparr>mDispatcherLock := EfiLockReleased\<rparr>"
  have run: "schedule_apriori (Pcd E) h ?gs ?s = Some ?u"
    using schedule_apriori_lock [where s = "s\<lparr>World := w, mDispatcherLock := EfiLockAcquired\<rparr>" and l = EfiLockReleased] u
    by simp
  have "distinct ?gs" if "sound_volumes E"
  proof (cases "EFI_ERROR st")
    case False
    then have "distinct gs" using that r unfolding sound_volumes_def distinct_apriori_def by blast
    with False show ?thesis by simp
  qed simp
  then have "sound_volumes E \<Longrightarrow> fstep E h (set ?gs) {} ?s ?u" using schedule_apriori_fstep [OF run] by blast
  then have "fstep E h UNIV {} ?s ?u"
    using schedule_apriori_base [OF run] fstep_weaken [of E h "set ?gs" "{}" ?s ?u UNIV] unfolding fstep_def by blast
  moreover have "fstep E h {} {} ?u t" unfolding t by (rule same_drivers_fstep) (simp_all add: same_drivers_def)
  ultimately have "fstep E h UNIV {} ?s t" by (rule fstep_trans)
  moreover have "fstep E h UNIV UNIV s ?s" if "dbase s"
    using that by (intro same_drivers_fstep) (simp_all add: same_drivers_def dbase_def)
  ultimately show ?thesis using fstep_trans by (metis fstep_def)
qed

lemma process_fv_step:
  assumes ok: "denv_ok E" and run: "process_fv E h s = Some t"
  shows "cstep E s t"
proof (cases "h \<in> set (mFvHandleList s)")
  case True
  then show ?thesis using run by (simp add: process_fv_def FvHasBeenProcessed_def)
next
  case False
  obtain al w where al: "AllocateKnownHandle E (World s) = (al, w)" by fastforce
  obtain st fv w1 where fv: "HandleFv2 E h w = (st, fv, w1)" by (rule prod_cases3)
  obtain st' p w2 where p: "HandleDevicePath E h w1 = (st', p, w2)" by (rule prod_cases3)
  define s1 where "s1 = s\<lparr>World := w, mFvHandleList := mFvHandleList s @ [h]\<rparr>"
  have w: "World s1 = w" by (simp add: s1_def)
  have 1: "cstep E s (s1\<lparr>World := w'\<rparr>)" for w'
    unfolding s1_def by (rule same_drivers_cstep) (auto simp: same_drivers_def)
  have fresh: "fresh_fv h UNIV (s1\<lparr>World := w'\<rparr>)" if "dgood s" for w'
    using that False unfolding fresh_fv_def dgood_def strict_def s1_def by fastforce
  have body: "cstep E s t" if d: "discover_files E fv h mDxeFileTypes (s1\<lparr>World := w2\<rparr>) = Some u"
    and a: "process_apriori E fv h u = Some t" for u
  proof -
    have f: "fstep E h UNIV {} (s1\<lparr>World := w2\<rparr>) t"
      by (rule fstep_trans [OF discover_files_fstep [OF ok d] process_apriori_fstep [OF a]])
    have still: "still_scheduled s (s1\<lparr>World := w2\<rparr>)" by (simp add: s1_def still_scheduled_def scheduled_in_def)
    show ?thesis using 1 [of w2] f fresh [of w2] still unfolding cstep_def fstep_def gstep_def
      by (meson later_trans later_unique still_scheduled_trans)
  qed
  show ?thesis
    using run False al fv p w 1 [of w1] 1 [of w2]
    by (auto simp: process_fv_def FvHasBeenProcessed_def FvIsBeingProcesssed_def Let_def bind_eq_Some_conv s1_def [symmetric]
        split: if_splits option.splits intro: body)
qed

lemma CoreFwVolEventProtocolNotify_step:
  assumes ok: "denv_ok E" and run: "CoreFwVolEventProtocolNotify E s = Some t"
  shows "cstep E s t"
proof -
  have "E' = E \<longrightarrow> cstep E s x" if "CoreFwVolEventProtocolNotify E' s = Some x" for E' s and x :: "'a disp"
  proof (rule CoreFwVolEventProtocolNotify.raw_induct [where P = "\<lambda>E' s x. E' = E \<longrightarrow> cstep E s x", OF _ that])
    fix f and E' :: "'a denv" and s and x :: "'a disp"
    assume IH: "\<And>E' s x. f E' s = Some x \<Longrightarrow> E' = E \<longrightarrow> cstep E s x"
      and eq: "(let (Status, h, w) = NextFvHandle E' (World s); s = s\<lparr>World := w\<rparr> in
        if EFI_ERROR Status then Some s else Option.bind (process_fv E' h s) (f E')) = Some x"
    show "E' = E \<longrightarrow> cstep E s x"
    proof
      assume E': "E' = E"
      obtain st h w where n: "NextFvHandle E (World s) = (st, h, w)" by (rule prod_cases3)
      have 1: "cstep E s (s\<lparr>World := w\<rparr>)" by simp
      show "cstep E s x"
      proof (cases "EFI_ERROR st")
        case True
        then show ?thesis using eq n 1 E' by auto
      next
        case False
        then obtain u where u: "process_fv E h (s\<lparr>World := w\<rparr>) = Some u" "f E u = Some x"
          using eq n E' by (auto simp: bind_eq_Some_conv)
        from 1 process_fv_step [OF ok u(1)] have "cstep E s u" by (rule cstep_trans)
        then show ?thesis using IH [OF u(2)] by (blast intro: cstep_trans)
      qed
    qed
  qed
  from this [OF run] show ?thesis by simp
qed

end
