(* ===== verification/DispatcherSystem.thy ===== *)
theory DispatcherSystem
  imports DispatcherInv
begin

section \<open>Systems of drivers over the dispatcher\<close>

text \<open>
  What images and notification functions do: programs over the services of the dispatcher. While such a program
  runs, further images may be loaded and started, to any depth of nesting \<open>n\<close>; a system that nests deeper does not
  return in the model. The reachable states of every such system satisfy the invariant.
\<close>

subsection \<open>Programs\<close>

text \<open>\<open>FvAdded\<close>: a firmware volume protocol has been installed, which signals the event of the dispatcher.\<close>

datatype dcall =
    ScheduleFile nat EFI_GUID
  | TrustFile nat EFI_GUID
  | CallDispatcher
  | FvAdded

fun run_dcall :: "'w denv \<Rightarrow> dcall \<Rightarrow> 'w disp \<Rightarrow> 'w disp option" where
  "run_dcall E (ScheduleFile h g) s = map_option snd (CoreSchedule E h g s)"
| "run_dcall E (TrustFile h g) s = map_option snd (CoreTrust E h g s)"
| "run_dcall E CallDispatcher s = map_option snd (CoreDispatcher E s)"
| "run_dcall E FvAdded s = CoreFwVolEventProtocolNotify E s"

primrec run_dcalls :: "'w denv \<Rightarrow> dcall list \<Rightarrow> 'w disp \<Rightarrow> 'w disp option" where
  "run_dcalls E [] s = Some s"
| "run_dcalls E (c # cs) s = Option.bind (run_dcall E c s) (run_dcalls E cs)"

text \<open>Images: the result of loading one, and what runs while it is loaded or started; and the notification functions
  of the event that the dispatcher signals after each round. The rest of what they do is a change of the world.\<close>

record 'w images =
  Loading :: "nat \<Rightarrow> 'w \<Rightarrow> EFI_STATUS \<times> nat \<times> dcall list \<times> 'w"
  Starting :: "nat \<Rightarrow> 'w \<Rightarrow> dcall list \<times> 'w"
  Notifying :: "'w \<Rightarrow> dcall list \<times> 'w"

primrec images_env :: "'w images \<Rightarrow> 'w denv \<Rightarrow> nat \<Rightarrow> 'w denv" where
  "images_env I B 0 = B\<lparr>LoadImage := (\<lambda>_ _. None), StartImage := (\<lambda>_ _. None), SignalDispatchEvent := (\<lambda>_. None)\<rparr>"
| "images_env I B (Suc n) = B\<lparr>
     LoadImage := (\<lambda>p s. let (st, h, cs, w) = Loading I p (World s)
       in map_option (\<lambda>t. (st, h, t)) (run_dcalls (images_env I B n) cs (s\<lparr>World := w\<rparr>))),
     StartImage := (\<lambda>h s. let (cs, w) = Starting I h (World s) in run_dcalls (images_env I B n) cs (s\<lparr>World := w\<rparr>)),
     SignalDispatchEvent := (\<lambda>s. let (cs, w) = Notifying I (World s) in run_dcalls (images_env I B n) cs (s\<lparr>World := w\<rparr>))\<rparr>"

definition fresh_drivers :: "'w denv \<Rightarrow> bool" where
  "fresh_drivers B \<longleftrightarrow> (\<forall>s d w. dbase s \<longrightarrow> AllocateDriver B s = (d, w) \<longrightarrow> Drivers s d = None)"

subsection \<open>Programs keep the invariant\<close>

lemma run_dcall_step: "denv_ok E \<Longrightarrow> run_dcall E c s = Some t \<Longrightarrow> cstep E s t"
  by (cases c) (auto intro: CoreSchedule_step CoreTrust_step CoreDispatcher_step CoreFwVolEventProtocolNotify_step)

lemma run_dcalls_step: "denv_ok E \<Longrightarrow> run_dcalls E cs s = Some t \<Longrightarrow> cstep E s t"
  by (induction cs arbitrary: s) (auto simp: bind_eq_Some_conv intro: cstep_trans [OF run_dcall_step])

lemma sound_images_env [simp]: "sound_volumes (images_env I B n) = sound_volumes B"
  by (cases n) (simp_all add: sound_volumes_def plain_drivers_def distinct_apriori_def)

lemma steps_images_env [simp]: "gstep C (images_env I B n) = gstep C B" "cstep (images_env I B n) = cstep B"
  by (simp_all add: fun_eq_iff gstep_def cstep_def)

lemma images_env_ok: "fresh_drivers B \<Longrightarrow> denv_ok (images_env I B n)"
proof (induction n)
  case 0
  then show ?case by (simp add: denv_ok_def fresh_drivers_def)
next
  case (Suc n)
  then have ok: "denv_ok (images_env I B n)" by simp
  have run: "cstep B s t" if "run_dcalls (images_env I B n) cs (s\<lparr>World := w\<rparr>) = Some t" for cs s t w
  proof -
    have "cstep B s (s\<lparr>World := w\<rparr>)" by simp
    also have "cstep B (s\<lparr>World := w\<rparr>) t" using run_dcalls_step [OF ok that] by simp
    finally show ?thesis .
  qed
  have "AllocateDriver (images_env I B (Suc n)) = AllocateDriver B" by simp
  then show ?case
    using Suc.prems unfolding denv_ok_def steps_images_env
    by (auto simp: fresh_drivers_def split_beta Let_def intro: run)
qed

subsection \<open>Reachable states\<close>

definition dboot :: "'w disp \<Rightarrow> bool" where
  "dboot s \<longleftrightarrow> mDiscoveredList s = [] \<and> queued s [] \<and> mFvHandleList s = [] \<and>
     mDispatcherLock s = EfiLockReleased \<and> \<not> gDispatcherRunning s \<and> Drivers s = (\<lambda>_. None)"

text \<open>One call of a service by anybody, or a change of the world.\<close>

inductive dsystem_step :: "'w images \<Rightarrow> 'w denv \<Rightarrow> nat \<Rightarrow> 'w disp \<Rightarrow> 'w disp \<Rightarrow> bool"
  for I :: "'w images" and B :: "'w denv" and n :: nat where
  call: "run_dcall (images_env I B n) c s = Some t \<Longrightarrow> dsystem_step I B n s t"
| other: "dsystem_step I B n s (s\<lparr>World := w\<rparr>)"

inductive_cases dsystem_stepE: "dsystem_step I B n s t"

lemma dsystem_step_dstep:
  assumes "fresh_drivers B" "dsystem_step I B n s t"
  shows "dstep B s t"
  using assms(2)
proof (cases rule: dsystem_step.cases)
  case (call c)
  then show ?thesis using run_dcall_step [OF images_env_ok [OF assms(1)] call] by (simp add: cstep_def)
next
  case (other w)
  have "cstep B s (s\<lparr>World := w\<rparr>)" by simp
  then show ?thesis unfolding other by (rule cstep_dstep)
qed

lemma dsystem_steps_dstep:
  assumes "fresh_drivers B" "(dsystem_step I B n)\<^sup>*\<^sup>* s t"
  shows "dstep B s t"
  using assms(2) by (induction rule: rtranclp_induct) (auto intro: gstep_trans dsystem_step_dstep [OF assms(1)])

text \<open>What holds of every reachable state.\<close>

definition dsafe :: "'w denv \<Rightarrow> 'w disp \<Rightarrow> bool" where
  "dsafe B s \<longleftrightarrow> dbase s \<and> (sound_volumes B \<longrightarrow> unique_names s \<longrightarrow> dgood s)"

lemma dsafe_step: "dsafe B s \<Longrightarrow> dstep B s t \<Longrightarrow> dsafe B t"
  unfolding dsafe_def gstep_def using later_unique by blast

lemma dboot_safe: "dboot s \<Longrightarrow> dsafe B s"
  by (auto simp: dboot_def dsafe_def dbase_def dgood_def strict_def dqueue_def scheduled_in_def links_mapped_def queued_def
      intro: is_list_mapped)

interpretation dsys: step_system dboot "dsystem_step I B n" "\<lambda>s. fresh_drivers B \<longrightarrow> dsafe B s" for I B n
proof unfold_locales
  fix s t :: "'a disp"
  assume "fresh_drivers B \<longrightarrow> dsafe B s" "dsystem_step I B n s t"
  then show "fresh_drivers B \<longrightarrow> dsafe B t" using dsystem_step_dstep dsafe_step by blast
qed (use dboot_safe in blast)

end
