(* ===== verification/DispatcherLive.thy ===== *)
theory DispatcherLive
  imports DispatcherSystem
begin

section \<open>Completion of the dispatcher\<close>

text \<open>
  When images and notification functions do not call the services of the dispatcher, \<open>CoreDispatcher\<close> returns:
  every round schedules a driver that waited, and nothing makes a driver wait again. At the end nothing is left on
  the queue, and no driver that still waits has its dependencies met.
\<close>

definition calm :: "'w denv \<Rightarrow> bool" where
  "calm E \<longleftrightarrow> \<not> Debugging E \<and> (\<forall>w. \<not> EFI_ERROR (fst (CreateDispatchEvent E w))) \<and>
     (\<forall>p s. \<exists>st h w. LoadImage E p s = Some (st, h, s\<lparr>World := w\<rparr>)) \<and>
     (\<forall>h s. \<exists>w. StartImage E h s = Some (s\<lparr>World := w\<rparr>)) \<and> (\<forall>s. \<exists>w. SignalDispatchEvent E s = Some (s\<lparr>World := w\<rparr>))"

text \<open>Sixteen bytes after a dependency section can be read, as in \<open>CoreIsSchedulable_terminates\<close>.\<close>

definition entry_ok :: "EFI_CORE_DRIVER_ENTRY \<Rightarrow> bool" where
  "entry_ok e \<longleftrightarrow> \<not> DepexProtocolError e \<and> (Dependent e \<longrightarrow> \<not> Scheduled e) \<and>
     (\<forall>m. Depex e = Some m \<longrightarrow> DepexSize e + 16 \<le> length m)"

definition calm_state :: "'w disp \<Rightarrow> bool" where
  "calm_state s \<longleftrightarrow> dinv s \<and> unique_names s \<and> (\<forall>d e. Drivers s d = Some e \<longrightarrow> entry_ok e)"

abbreviation active :: "EFI_CORE_DRIVER_ENTRY \<Rightarrow> bool" where
  "active e \<equiv> Dependent e \<or> Scheduled e \<or> Initialized e \<or> Untrusted e"

text \<open>How drivers change: they keep their names and places, and whoever takes part still does.\<close>

definition same_files :: "'w disp \<Rightarrow> 'w disp \<Rightarrow> bool" where
  "same_files s t \<longleftrightarrow> mDiscoveredList t = mDiscoveredList s \<and> dom (Drivers t) = dom (Drivers s) \<and>
     (\<forall>d e e'. Drivers s d = Some e \<longrightarrow> Drivers t d = Some e' \<longrightarrow> FileName e' = FileName e \<and> (active e \<longrightarrow> active e'))"

definition waiting :: "'w disp \<Rightarrow> nat set" where
  "waiting s = {d. dependent_in s d}"

lemma same_files_refl [simp]: "same_files s s"
  by (simp add: same_files_def)

lemma same_files_trans [trans]:
  assumes "same_files s t" "same_files t u"
  shows "same_files s u"
proof -
  have "FileName e' = FileName e \<and> (active e \<longrightarrow> active e')" if "Drivers s d = Some e" "Drivers u d = Some e'" for d e e'
  proof -
    have "d \<in> dom (Drivers t)" using that(1) assms(1) by (auto simp: same_files_def)
    then obtain e'' where "Drivers t d = Some e''" by blast
    with that assms show ?thesis unfolding same_files_def by metis
  qed
  with assms show ?thesis by (simp add: same_files_def)
qed

lemma same_files_unique:
  assumes "same_files s t" "unique_names s"
  shows "unique_names t"
proof -
  have "\<exists>e. Drivers s d = Some e \<and> FileName e' = FileName e" if "Drivers t d = Some e'" for d e'
    using that assms(1) unfolding same_files_def by (metis domD domI)
  then show ?thesis using assms(2) unfolding unique_names_def by metis
qed

lemma same_files_upd:
  "Drivers s d = Some e \<Longrightarrow> FileName e' = FileName e \<Longrightarrow> (active e \<longrightarrow> active e') \<Longrightarrow> same_files s (upd_driver d (\<lambda>_. e') s)"
  by (auto simp: same_files_def Drivers_upd_driver)

lemma same_files_fields [simp]:
  "same_files s (t\<lparr>World := w\<rparr>) = same_files s t" "same_files s (t\<lparr>ScheduledLinks := h\<rparr>) = same_files s t"
  "same_files s (t\<lparr>EvaluationStack := st\<rparr>) = same_files s t" "same_files s (t\<lparr>gDispatcherRunning := b\<rparr>) = same_files s t"
  "same_files (s\<lparr>World := w\<rparr>) t = same_files s t" "same_files (s\<lparr>EvaluationStack := st\<rparr>) t = same_files s t"
  "same_files (s\<lparr>gDispatcherRunning := b\<rparr>) t = same_files s t"
  by (simp_all add: same_files_def)

lemma same_files_sched: "same_files s (sched B s)"
  by (auto simp: same_files_def Drivers_sched)

lemma finite_waiting:
  assumes "calm_state s"
  shows "finite (waiting s)"
proof (rule finite_subset)
  show "waiting s \<subseteq> set (mDiscoveredList s)"
    using assms by (auto simp: waiting_def dependent_in_def calm_state_def dinv_def dbase_def)
qed simp

lemma calm_stateD:
  assumes "calm_state s"
  shows "dbase s" "dqueue s" "unique_names s" "Drivers s d = Some e \<Longrightarrow> entry_ok e"
    "queued s q \<Longrightarrow> k \<in> set q \<longleftrightarrow> scheduled_in s k"
proof -
  show "dbase s" "dqueue s" "unique_names s" "Drivers s d = Some e \<Longrightarrow> entry_ok e"
    using assms by (auto simp: calm_state_def dinv_def)
  show "k \<in> set q \<longleftrightarrow> scheduled_in s k" if "queued s q"
    using \<open>dqueue s\<close> queued_unique [OF that] unfolding dqueue_def by blast
qed

lemma waiting_not_scheduled:
  assumes "calm_state s" "dependent_in s k"
  shows "\<not> scheduled_in s k"
  using assms calm_stateD(4) by (fastforce simp: dependent_in_def scheduled_in_def entry_ok_def)

lemma calm_ready:
  assumes s: "calm_state s"
  shows "ready_state s"
proof -
  obtain q where q: "queued s q" using calm_stateD(2) [OF s] by (auto simp: dqueue_def)
  have "k \<notin> set q" if "dependent_in s k" for k using waiting_not_scheduled [OF s that] calm_stateD(5) [OF s q] by simp
  moreover have "set q \<subseteq> dom (Drivers s)" using calm_stateD(5) [OF s q] by (auto simp: scheduled_in_def)
  ultimately show ?thesis using q calm_stateD(1,3) [OF s] unfolding ready_state_def dbase_def by blast
qed

lemma calm_fields [simp]:
  "calm_state (s\<lparr>World := w\<rparr>) = calm_state s" "calm_state (s\<lparr>EvaluationStack := st\<rparr>) = calm_state s"
  "calm_state (s\<lparr>gDispatcherRunning := b\<rparr>) = calm_state s"
  by (simp_all add: calm_state_def dinv_def dbase_def dqueue_def queued_def links_mapped_def scheduled_in_def unique_names_def)

lemma waiting_fields [simp]:
  "waiting (s\<lparr>World := w\<rparr>) = waiting s" "waiting (s\<lparr>EvaluationStack := st\<rparr>) = waiting s"
  "waiting (s\<lparr>gDispatcherRunning := b\<rparr>) = waiting s" "waiting (s\<lparr>ScheduledLinks := h\<rparr>) = waiting s"
  by (simp_all add: waiting_def dependent_in_def)

subsection \<open>Draining the queue\<close>

lemma dispatch_driver_calm:
  assumes E: "calm E" and s: "calm_state s" and q: "queued s (d # q)"
  shows "\<exists>b t. dispatch_driver E d s = Some (b, t) \<and> calm_state t \<and> queued t q \<and> waiting t = waiting s \<and>
    same_files s t \<and> gDispatcherRunning t = gDispatcherRunning s"
proof -
  have "scheduled_in s d" using calm_stateD(5) [OF s q, of d] by simp
  then obtain e where e: "Drivers s d = Some e" "Scheduled e" by (auto simp: scheduled_in_def)
  have dq: "d \<notin> set q" using queued_distinct [OF q] by simp
  have nd: "\<not> Dependent e" using e calm_stateD(4) [OF s e(1)] by (auto simp: entry_ok_def)
  have lock: "mDispatcherLock s = EfiLockReleased" and d0: "0 < d"
    using calm_stateD(1) [OF s] e(1) by (auto simp: dbase_def intro!: gr0I)
  have rel: "\<not> Debugging E" using E by (simp add: calm_def)
  obtain r links where links: "RemoveEntryList (Pcd E) (ScheduledLinks s) (ScheduledLink d) = Some (r, links)"
    "is_list links mScheduledQueue (map ScheduledLink q)" "dom links = dom (ScheduledLinks s)"
    using RemoveEntryList_queued [of s "[]" d q] q RemoveEntryList_dom [of release_pcd] by (auto simp: no_asserts [OF rel])
  define result where "result h f w = (upd_driver d (\<lambda>_. (f (e\<lparr>ImageHandle := h\<rparr>))\<lparr>Scheduled := False\<rparr>) s)
    \<lparr>ScheduledLinks := links, World := w\<rparr>" for h f w
  have good: "calm_state (result h f w) \<and> queued (result h f w) q \<and> waiting (result h f w) = waiting s \<and>
      same_files s (result h f w) \<and> gDispatcherRunning (result h f w) = gDispatcherRunning s"
    if f: "f = Untrusted_update (\<lambda>_. True) \<or> f = Initialized_update (\<lambda>_. True)" for h f w
  proof -
    let ?e = "(f (e\<lparr>ImageHandle := h\<rparr>))\<lparr>Scheduled := False\<rparr>"
    have dr: "Drivers (result h f w) k = (if k = d then Some ?e else Drivers s k)" for k
      using e by (simp add: result_def Drivers_upd_driver)
    have fe: "FileName ?e = FileName e" "active ?e" "\<not> Dependent ?e" "\<not> Scheduled ?e" "entry_ok ?e"
      using f nd e calm_stateD(4) [OF s e(1)] by (auto simp: entry_ok_def)
    have sf: "same_files s (result h f w)"
      unfolding result_def using same_files_upd [OF e(1) fe(1)] fe(2) by simp
    have qr: "queued (result h f w) q" using links(2) by (simp add: queued_def result_def)
    have mapped: "mapped links p = mapped (ScheduledLinks s) p" for p by (simp add: mapped_def links(3))
    have dom: "dom (Drivers (result h f w)) = dom (Drivers s)" "Drivers (result h f w) 0 = Drivers s 0"
      using sf d0 by (simp_all add: same_files_def dr)
    have fields: "mDiscoveredList (result h f w) = mDiscoveredList s" "ScheduledLinks (result h f w) = links"
      "mDispatcherLock (result h f w) = mDispatcherLock s" by (simp_all add: result_def upd_driver_def)
    have "dbase (result h f w)"
      using calm_stateD(1) [OF s] unfolding dbase_def links_mapped_def dom fields mapped .
    moreover have "k \<in> set q \<longleftrightarrow> scheduled_in (result h f w) k" for k
      using calm_stateD(5) [OF s q, of k] dq fe(4) by (auto simp: scheduled_in_def dr)
    then have "dqueue (result h f w)" using qr by (auto simp: dqueue_def)
    ultimately have "calm_state (result h f w)"
      using s fe(5) same_files_unique [OF sf] unfolding calm_state_def dinv_def by (auto simp: dr)
    moreover have "waiting (result h f w) = waiting s"
      using nd fe(3) e by (auto simp: waiting_def dependent_in_def dr)
    ultimately show ?thesis using sf qr by (simp add: result_def)
  qed
  have un: "unschedule_driver (Pcd E) f d ((upd_driver d (ImageHandle_update (\<lambda>_. h)) s)\<lparr>World := w\<rparr>) = Some (result h f w)"
    for f h w
    using lock e links(1) by (simp add: unschedule_driver_def CoreAcquireDispatcherLock_def CoreReleaseDispatcherLock_def
        dequeue_driver_def upd_driver_def result_def ASSERT_def)
  have "\<exists>st h w. (if ImageHandle e = 0 then Option.bind (LoadImage E (FvFileDevicePath e) s)
        (\<lambda>(Status, h, s). Some (Status, upd_driver d (ImageHandle_update (\<lambda>_. h)) s)) else Some (EFI_SUCCESS, s)) =
      Some (st, (upd_driver d (ImageHandle_update (\<lambda>_. h)) s)\<lparr>World := w\<rparr>)"
  proof (cases "ImageHandle e = 0")
    case True
    obtain st h w where "LoadImage E (FvFileDevicePath e) s = Some (st, h, s\<lparr>World := w\<rparr>)" using E unfolding calm_def by blast
    with True show ?thesis by (intro exI [of _ st] exI [of _ h] exI [of _ w]) (simp add: upd_driver_def)
  next
    case False
    have "s = (upd_driver d (ImageHandle_update (\<lambda>_. ImageHandle e)) s)\<lparr>World := World s\<rparr>"
      using e(1) by (simp add: upd_driver_def fun_upd_idem)
    with False show ?thesis by (metis (no_types))
  qed
  then obtain st h w where load: "(if ImageHandle e = 0 then Option.bind (LoadImage E (FvFileDevicePath e) s)
        (\<lambda>(Status, h, s). Some (Status, upd_driver d (ImageHandle_update (\<lambda>_. h)) s)) else Some (EFI_SUCCESS, s)) =
      Some (st, (upd_driver d (ImageHandle_update (\<lambda>_. h)) s)\<lparr>World := w\<rparr>)" by blast
  have "\<exists>b f w. dispatch_driver E d s = Some (b, result h f w) \<and> (f = Untrusted_update (\<lambda>_. True) \<or> f = Initialized_update (\<lambda>_. True))"
  proof (cases "EFI_ERROR st")
    case True
    then show ?thesis using load un by (simp add: dispatch_driver_def e(1)) blast
  next
    case False
    obtain x where x: "Drivers (result h (Initialized_update (\<lambda>_. True)) w) d = Some x"
      using e(1) by (simp add: result_def Drivers_upd_driver)
    obtain w' where "StartImage E (ImageHandle x) (result h (Initialized_update (\<lambda>_. True)) w) =
        Some ((result h (Initialized_update (\<lambda>_. True)) w)\<lparr>World := w'\<rparr>)" using E unfolding calm_def by blast
    then have "dispatch_driver E d s = Some (True, result h (Initialized_update (\<lambda>_. True)) w')"
      using load un False x by (simp add: dispatch_driver_def e(1)) (simp add: result_def)
    then show ?thesis by blast
  qed
  then show ?thesis using good by blast
qed

lemma drain_queue_calm:
  assumes E: "calm E"
  shows "calm_state s \<Longrightarrow> queued s q \<Longrightarrow> \<exists>rs' t. drain_queue E rs s = Some (rs', t) \<and> calm_state t \<and> queued t [] \<and>
    waiting t = waiting s \<and> same_files s t"
proof (induction q arbitrary: s rs)
  case Nil
  then show ?case using queue_empty_runs [OF Nil.prems(2), of "Pcd E"] E by (subst drain_queue.simps) (auto simp: calm_def)
next
  case (Cons d q)
  have emp: "IsListEmpty (Pcd E) (ScheduledLinks s) mScheduledQueue = Some False"
    using queue_empty_runs [OF Cons.prems(2), of "Pcd E"] E by (simp add: calm_def)
  have first: "first_scheduled s = Some d" using queue_first(2) [OF Cons.prems(2) emp] by simp
  obtain b u where u: "dispatch_driver E d s = Some (b, u)" "calm_state u" "queued u q" "waiting u = waiting s"
    "same_files s u" using dispatch_driver_calm [OF E Cons.prems] by blast
  obtain rs' t where "drain_queue E (if b then EFI_SUCCESS else rs) u = Some (rs', t)" "calm_state t" "queued t []"
    "waiting t = waiting u" "same_files u t" using Cons.IH [OF u(2,3)] by blast
  with u emp first show ?case by (subst drain_queue.simps) (auto intro: same_files_trans)
qed

subsection \<open>The search for drivers to schedule\<close>

text \<open>The evaluation of the dependency section of \<open>e\<close>, up to the memory of the section, was false in world \<open>w\<close>.\<close>

definition not_ready :: "'w denv \<Rightarrow> 'w \<Rightarrow> EFI_CORE_DRIVER_ENTRY \<Rightarrow> bool" where
  "not_ready E w e \<longleftrightarrow> (\<exists>m st st'. CoreIsSchedulable (Debugging E) (AllocBools E w) (LocateProtocol E w) (AllEfiServicesAvailable E w)
     (e\<lparr>Depex := m\<rparr>) st = Some (False, e, st'))"

lemma calm_state_upd_depex:
  assumes "calm_state s" "Drivers s d = Some e" "\<forall>m. m' = Some m \<longrightarrow> DepexSize e + 16 \<le> length m"
  shows "calm_state (upd_driver d (\<lambda>_. e\<lparr>Depex := m'\<rparr>) s)" "waiting (upd_driver d (\<lambda>_. e\<lparr>Depex := m'\<rparr>) s) = waiting s"
    "same_files s (upd_driver d (\<lambda>_. e\<lparr>Depex := m'\<rparr>) s)"
proof -
  let ?t = "upd_driver d (\<lambda>_. e\<lparr>Depex := m'\<rparr>) s"
  have dr: "Drivers ?t k = (if k = d then Some (e\<lparr>Depex := m'\<rparr>) else Drivers s k)" for k
    using assms(2) by (simp add: Drivers_upd_driver)
  show sf: "same_files s ?t" by (rule same_files_upd [OF assms(2)]) simp_all
  show "waiting ?t = waiting s" using assms(2) by (auto simp: waiting_def dependent_in_def dr)
  have "scheduled_in ?t k \<longleftrightarrow> scheduled_in s k" for k using assms(2) by (simp add: scheduled_in_def dr)
  then have "dinv ?t" using assms(1) by (simp add: calm_state_def dinv_def dqueue_def)
  then show "calm_state ?t"
    using assms same_files_unique [OF sf] unfolding calm_state_def by (auto simp: dr entry_ok_def)
qed

lemma calm_state_sched:
  assumes s: "calm_state s" and B: "set B \<subseteq> waiting s" "distinct B"
  shows "calm_state (sched B s)" "waiting (sched B s) = waiting s - set B"
proof -
  have e: "\<exists>e. Drivers s k = Some e \<and> Dependent e" if "k \<in> set B" for k
    using B(1) that by (auto simp: waiting_def dependent_in_def)
  have dep: "\<And>k. k \<in> set B \<Longrightarrow> dependent_in s k" using B(1) by (auto simp: waiting_def)
  obtain q where q: "queued s q" using calm_stateD(2) [OF s] by (auto simp: dqueue_def)
  show "waiting (sched B s) = waiting s - set B"
    by (auto simp: waiting_def dependent_in_def Drivers_sched split: if_splits)
  have "queued (sched B s) (q @ B)"
  proof (rule queued_sched [OF q _ B(2)])
    show "set B \<inter> set q = {}" using dep waiting_not_scheduled [OF s] calm_stateD(5) [OF s q] by blast
    show "set B \<subseteq> dom (Drivers s)" using e by blast
  qed (use calm_stateD(1) [OF s] in \<open>simp add: dbase_def\<close>)
  moreover have "k \<in> set (q @ B) \<longleftrightarrow> scheduled_in (sched B s) k" for k
    using sched_base(5) [of B s k, OF dep] calm_stateD(5) [OF s q, of k] by auto
  ultimately have "dinv (sched B s)"
    using sched_base(1) [of B s, OF dep] calm_stateD(1) [OF s] unfolding dinv_def dqueue_def by blast
  moreover have "entry_ok e" if "Drivers (sched B s) d = Some e" for d e
    using that s by (auto simp: Drivers_sched calm_state_def entry_ok_def split: if_splits)
  ultimately show "calm_state (sched B s)"
    using s same_files_unique [OF same_files_sched, of s B] by (simp add: calm_state_def)
qed

lemma dependants_waiting: "dependent_in s d \<Longrightarrow> dependants s d \<subseteq> waiting s"
  by (auto simp: dependants_def waiting_def elim: converse_rtranclE dest: follows_dependent)

lemma search_driver_calm:
  assumes E: "calm E" and s: "calm_state s" and d: "d \<in> set (mDiscoveredList s)"
  shows "\<exists>b t. search_driver E d s = Some (b, t) \<and> calm_state t \<and> same_files s t \<and> World t = World s \<and>
    (if b then waiting t \<subset> waiting s
     else waiting t = waiting s \<and> ScheduledLinks t = ScheduledLinks s \<and> (\<forall>k. k \<noteq> d \<longrightarrow> Drivers t k = Drivers s k) \<and>
       (\<forall>e. Drivers t d = Some e \<longrightarrow> Dependent e \<longrightarrow> not_ready E (World s) e))"
proof -
  obtain e where e: "Drivers s d = Some e" "entry_ok e" using s d unfolding calm_state_def dinv_def dbase_def by blast
  show ?thesis
  proof (cases "Dependent e")
    case False
    then show ?thesis using e s
      by (intro exI [of _ False] exI [of _ s]) (simp add: search_driver_def entry_ok_def)
  next
    case True
    obtain b m' st' where c: "CoreIsSchedulable False (AllocBools E (World s)) (LocateProtocol E (World s))
        (AllEfiServicesAvailable E (World s)) e (EvaluationStack s) = Some (b, e\<lparr>Depex := m'\<rparr>, st')"
      and m': "\<forall>m. m' = Some m \<longrightarrow> DepexSize e + 16 \<le> length m"
      using CoreIsSchedulable_returns [of e] e(2) unfolding entry_ok_def by meson
    have dbg: "Debugging E = False" using E by (simp add: calm_def)
    let ?u = "upd_driver d (\<lambda>_. e\<lparr>Depex := m'\<rparr>) (s\<lparr>EvaluationStack := st'\<rparr>)"
    have u: "calm_state ?u" "waiting ?u = waiting s" "same_files s ?u"
      using calm_state_upd_depex [of "s\<lparr>EvaluationStack := st'\<rparr>" d e m'] s e(1) m' by simp_all
    have ud: "Drivers ?u d = Some (e\<lparr>Depex := m'\<rparr>)" using e(1) by (simp add: Drivers_upd_driver)
    have run: "search_driver E d s = (if b then Option.bind (CoreInsertOnScheduledQueueWhileProcessingBeforeAndAfter E d ?u)
        (\<lambda>s. Some (True, s)) else Some (False, ?u))"
      using e True c dbg by (simp add: search_driver_def entry_ok_def)
    show ?thesis
    proof (cases b)
      case False
      have "not_ready E (World s) (e\<lparr>Depex := m'\<rparr>)"
        unfolding not_ready_def dbg using c False
        by (intro exI [of _ "Depex e"] exI [of _ "EvaluationStack s"] exI [of _ st']) simp
      then show ?thesis using run False u ud by (auto simp: Drivers_upd_driver)
    next
      case b: True
      have "\<not> Before e \<and> \<not> After e" using CoreIsSchedulable_depex(2) [OF c b] .
      then obtain B where B: "CoreInsertOnScheduledQueueWhileProcessingBeforeAndAfter E d ?u = Some (sched B ?u)"
          "set B = dependants ?u d" "distinct B"
        using insert_before_after_queue [OF calm_ready [OF u(1)] ud, of E] True dbg by (auto simp: room_def)
      have "dependent_in ?u d" using ud True by (simp add: dependent_in_def)
      then have Bw: "set B \<subseteq> waiting ?u" unfolding B(2) by (rule dependants_waiting)
      have "d \<in> set B" using B(2) self_dependant by blast
      then have "waiting (sched B ?u) \<subset> waiting s"
        using calm_state_sched(2) [OF u(1) Bw B(3)] u(2) Bw by blast
      then show ?thesis
        using run b B(1) calm_state_sched(1) [OF u(1) Bw B(3)] same_files_trans [OF u(3) same_files_sched]
        by (intro exI [of _ True] exI [of _ "sched B ?u"]) simp
    qed
  qed
qed

lemma search_loop_calm:
  assumes E: "calm E"
  shows "calm_state s \<Longrightarrow> set ds \<subseteq> set (mDiscoveredList s) \<Longrightarrow> distinct ds \<Longrightarrow>
    \<exists>r' t. search_loop E ds r s = Some (r', t) \<and> calm_state t \<and> same_files s t \<and> World t = World s \<and> (r \<longrightarrow> r') \<and>
      waiting t \<subseteq> waiting s \<and> (r' \<longrightarrow> r \<or> waiting t \<subset> waiting s) \<and>
      (\<not> r' \<longrightarrow> ScheduledLinks t = ScheduledLinks s \<and> waiting t = waiting s \<and> (\<forall>k. k \<notin> set ds \<longrightarrow> Drivers t k = Drivers s k) \<and>
        (\<forall>d \<in> set ds. \<forall>e. Drivers t d = Some e \<longrightarrow> Dependent e \<longrightarrow> not_ready E (World s) e))"
proof (induction ds arbitrary: r s)
  case Nil
  then show ?case by auto
next
  case (Cons d ds)
  obtain b u where u: "search_driver E d s = Some (b, u)" "calm_state u" "same_files s u" "World u = World s"
    and b: "if b then waiting u \<subset> waiting s
     else waiting u = waiting s \<and> ScheduledLinks u = ScheduledLinks s \<and> (\<forall>k. k \<noteq> d \<longrightarrow> Drivers u k = Drivers s k) \<and>
       (\<forall>e. Drivers u d = Some e \<longrightarrow> Dependent e \<longrightarrow> not_ready E (World s) e)"
    using search_driver_calm [OF E Cons.prems(1), of d] Cons.prems(2) by auto
  have "set ds \<subseteq> set (mDiscoveredList u)" "distinct ds" using Cons.prems(2,3) u(3) by (auto simp: same_files_def)
  from Cons.IH [OF u(2) this, of "r \<or> b"] obtain r' t where t: "search_loop E ds (r \<or> b) u = Some (r', t)" "calm_state t"
      "same_files u t" "World t = World u" "r \<or> b \<longrightarrow> r'" "waiting t \<subseteq> waiting u" "r' \<longrightarrow> (r \<or> b) \<or> waiting t \<subset> waiting u"
    and n: "\<not> r' \<longrightarrow> ScheduledLinks t = ScheduledLinks u \<and> waiting t = waiting u \<and> (\<forall>k. k \<notin> set ds \<longrightarrow> Drivers t k = Drivers u k) \<and>
        (\<forall>d \<in> set ds. \<forall>e. Drivers t d = Some e \<longrightarrow> Dependent e \<longrightarrow> not_ready E (World u) e)"
    by (elim exE conjE) (rule that)
  have run: "search_loop E (d # ds) r s = Some (r', t)" using u(1) t(1) by simp
  have sub: "waiting t \<subseteq> waiting s" "r' \<longrightarrow> r \<or> waiting t \<subset> waiting s" using b t(6,7) by (auto split: if_splits)
  have last: "ScheduledLinks t = ScheduledLinks s \<and> waiting t = waiting s \<and> (\<forall>k. k \<notin> set (d # ds) \<longrightarrow> Drivers t k = Drivers s k) \<and>
      (\<forall>d \<in> set (d # ds). \<forall>e. Drivers t d = Some e \<longrightarrow> Dependent e \<longrightarrow> not_ready E (World s) e)" if "\<not> r'"
    using that b n t(5) u(4) Cons.prems(3) by auto
  show ?case
    using run t(2,4,5) u(4) same_files_trans [OF u(3) t(3)] sub last
    by (intro exI [of _ r'] exI [of _ t] conjI) simp_all
qed

subsection \<open>The whole dispatcher\<close>

lemma dispatch_rounds_calm:
  assumes E: "calm E"
  shows "calm_state s \<Longrightarrow> \<exists>rs' t. dispatch_rounds E rs s = Some (rs', t) \<and> calm_state t \<and> same_files s t \<and>
    queued t [] \<and> (\<forall>d e. Drivers t d = Some e \<longrightarrow> Dependent e \<longrightarrow> not_ready E (World t) e)"
proof (induction "card (waiting s)" arbitrary: s rs rule: less_induct)
  case less
  obtain rs1 s1 where s1: "drain_queue E rs s = Some (rs1, s1)" "calm_state s1" "queued s1 []"
    "waiting s1 = waiting s" "same_files s s1" using drain_queue_calm [OF E less.prems] calm_stateD(2) [OF less.prems] unfolding dqueue_def by blast
  obtain w where w: "(if \<not> EFI_ERROR rs1 then SignalDispatchEvent E s1 else Some s1) = Some (s1\<lparr>World := w\<rparr>)"
  proof (cases "EFI_ERROR rs1")
    case True
    then show ?thesis using that [of "World s1"] by simp
  next
    case False
    then show ?thesis using that E unfolding calm_def by (metis (full_types))
  qed
  let ?s = "s1\<lparr>World := w\<rparr>"
  have s2: "calm_state ?s" "set (mDiscoveredList ?s) \<subseteq> set (mDiscoveredList ?s)" "distinct (mDiscoveredList ?s)"
    using s1(2) by simp_all (simp add: calm_state_def dinv_def dbase_def)
  from search_loop_calm [OF E s2, of False] obtain r t where T: "search_loop E (mDiscoveredList ?s) False ?s = Some (r, t) \<and>
      calm_state t \<and> same_files ?s t \<and> World t = World ?s \<and> (False \<longrightarrow> r) \<and>
      waiting t \<subseteq> waiting ?s \<and> (r \<longrightarrow> False \<or> waiting t \<subset> waiting ?s) \<and>
      (\<not> r \<longrightarrow> ScheduledLinks t = ScheduledLinks ?s \<and> waiting t = waiting ?s \<and>
        (\<forall>k. k \<notin> set (mDiscoveredList ?s) \<longrightarrow> Drivers t k = Drivers ?s k) \<and>
        (\<forall>d \<in> set (mDiscoveredList ?s). \<forall>e. Drivers t d = Some e \<longrightarrow> Dependent e \<longrightarrow> not_ready E (World ?s) e))"
    by (elim exE) (rule that)
  then have t: "search_loop E (mDiscoveredList ?s) False ?s = Some (r, t)" "calm_state t" "same_files ?s t" "World t = w"
      "r \<longrightarrow> waiting t \<subset> waiting ?s"
    and n: "\<not> r \<longrightarrow> ScheduledLinks t = ScheduledLinks ?s \<and>
        (\<forall>d \<in> set (mDiscoveredList ?s). \<forall>e. Drivers t d = Some e \<longrightarrow> Dependent e \<longrightarrow> not_ready E w e)" by simp_all
  have sf: "same_files s t" using s1(5) t(3) by (auto intro: same_files_trans)
  have run: "dispatch_rounds E rs s = (if r then dispatch_rounds E rs1 t else Some (rs1, t))"
    by (subst dispatch_rounds.simps) (simp add: s1(1) w t(1) [simplified])
  show ?case
  proof (cases r)
    case True
    then have "card (waiting t) < card (waiting s)"
      using t(5) s1(4) finite_waiting [OF less.prems] by (simp add: psubset_card_mono)
    from less.hyps [OF this t(2), of rs1] obtain rs' u where "dispatch_rounds E rs1 t = Some (rs', u)" "calm_state u"
      "same_files t u" "queued u []" "\<forall>d e. Drivers u d = Some e \<longrightarrow> Dependent e \<longrightarrow> not_ready E (World u) e" by blast
    then show ?thesis using run True same_files_trans [OF sf] by auto
  next
    case False
    have "d \<in> set (mDiscoveredList ?s)" if "Drivers t d = Some e" for d e
      using that t(2,3) by (auto simp: calm_state_def dinv_def dbase_def same_files_def)
    then show ?thesis using run False t(2,4) sf n s1(3) unfolding queued_def by (intro exI [of _ rs1] exI [of _ t]) auto
  qed
qed

lemma CoreDispatcher_calm:
  assumes E: "calm E" and s: "calm_state s" "\<not> gDispatcherRunning s"
  shows "\<exists>st t w. CoreDispatcher E s = Some (st, t) \<and> calm_state t \<and> same_files s t \<and> \<not> gDispatcherRunning t \<and>
    queued t [] \<and> World t = CloseDispatchEvent E w \<and> (\<forall>d e. Drivers t d = Some e \<longrightarrow> Dependent e \<longrightarrow> not_ready E w e)"
proof -
  obtain st w where w: "CreateDispatchEvent E (World s) = (st, w)" "\<not> EFI_ERROR st"
    using E unfolding calm_def by (metis prod.collapse)
  have "calm_state (s\<lparr>gDispatcherRunning := True, World := w\<rparr>)" using s(1) by simp
  from dispatch_rounds_calm [OF E this, of EFI_NOT_FOUND] obtain rs t where
    t: "dispatch_rounds E EFI_NOT_FOUND (s\<lparr>gDispatcherRunning := True, World := w\<rparr>) = Some (rs, t)" "calm_state t"
      "same_files s t" "queued t []" "\<forall>d e. Drivers t d = Some e \<longrightarrow> Dependent e \<longrightarrow> not_ready E (World t) e" by auto
  then show ?thesis using s(2) w
    by (intro exI [of _ rs] exI [of _ "t\<lparr>World := CloseDispatchEvent E (World t), gDispatcherRunning := False\<rparr>"]
        exI [of _ "World t"]) (simp add: CoreDispatcher_def queued_def)
qed

end
