(* ===== verification/DispatcherProps.thy ===== *)
theory DispatcherProps
  imports DispatcherLive
begin

section \<open>Properties of the dispatcher\<close>

text \<open>
  A small machine for the witnesses: one firmware volume (handle 5) with given driver files, and images that note
  that they have been started. The world is whether the volume is still to be announced, and the handles of the
  images started so far.
\<close>

definition next_driver :: "'w disp \<Rightarrow> nat" where
  "next_driver s = Suc (fold max (mDiscoveredList s) 0)"

definition demo_volume :: "(EFI_GUID \<times> uint8 list option) list \<Rightarrow> EFI_GUID list \<Rightarrow> (bool \<times> nat list) denv" where
  "demo_volume files apriori = \<lparr>Pcd = release_pcd, AllocBools = (\<lambda>_ n. Some (replicate n False)),
     LocateProtocol = (\<lambda>_ _. EFI_NOT_FOUND), AllEfiServicesAvailable = (\<lambda>_. EFI_SUCCESS),
     CreateDispatchEvent = (\<lambda>w. (EFI_SUCCESS, w)), SignalDispatchEvent = (\<lambda>_. None), CloseDispatchEvent = (\<lambda>w. w),
     LoadImage = (\<lambda>_ _. None), StartImage = (\<lambda>_ _. None), AllocateDriver = (\<lambda>s. (next_driver s, World s)),
     AllocateKnownHandle = (\<lambda>w. (True, w)),
     ReadDepex = (\<lambda>_ g w. case map_of files g of Some (Some m) \<Rightarrow> (EFI_SUCCESS, m @ replicate 16 0, length m, w)
       | _ \<Rightarrow> (EFI_NOT_FOUND, [], 0, w)),
     HandleDevicePath = (\<lambda>_ w. (EFI_SUCCESS, 7, w)), HandleFv2 = (\<lambda>_ w. (EFI_SUCCESS, 6, w)),
     FileDevicePath = (\<lambda>_ g w. (unat g, w)),
     NextFvHandle = (\<lambda>(b, l). if b then (EFI_SUCCESS, 5, (False, l)) else (EFI_NOT_FOUND, 0, (b, l))),
     Security = None, FilesOfType = (\<lambda>_ ty _. if ty = 7 then map fst files else []),
     ReadApriori = (\<lambda>_ w. (EFI_SUCCESS, apriori, w)), FreeApriori = (\<lambda>w. w), gDxeCoreFileName = 0, HobFv2Files = [],
     ReadFvImage = (\<lambda>_ _ w. (EFI_NOT_FOUND, 0, 0, 0, w)), AllocateAlignedPages = (\<lambda>_ _ w. (0, w)),
     FreeBuffer = (\<lambda>_ w. w), FreeAlignedPages = (\<lambda>_ _ w. w), ProduceFVBProtocolOnBuffer = (\<lambda>_ _ _ w. (EFI_NOT_FOUND, w))\<rparr>"

definition demo_images :: "(bool \<times> nat list) images" where
  "demo_images = \<lparr>Loading = (\<lambda>p w. (EFI_SUCCESS, p + 1000, [], w)), Starting = (\<lambda>h (b, l). ([], (b, l @ [h]))),
     Notifying = (\<lambda>w. ([], w))\<rparr>"

definition demo_disp :: "(bool \<times> nat list) disp" where
  "demo_disp = \<lparr>mDiscoveredList = [], ScheduledLinks = [1 \<mapsto> \<lparr>ForwardLink = 1, BackLink = 1\<rparr>], mFvHandleList = [], mDispatcherLock = EfiLockReleased,
     gDispatcherRunning = False, Drivers = (\<lambda>_. None),
     EvaluationStack = \<lparr>mDepexEvaluationStack = None, mDepexEvaluationStackPointer = 0\<rparr>,
     CoreFilePath = 0, CoreDeviceHandle = 0, World = (True, [])\<rparr>"

text \<open>Two drivers, the first after the second; and one that waits for \<open>Schedule\<close> and is listed a priori.\<close>

definition demo_fv_after :: "(bool \<times> nat list) denv" where
  "demo_fv_after = demo_volume [(1, Some (1 # 2 # replicate 15 0 @ [8])), (2, None)] []"

definition demo_after :: "(bool \<times> nat list) denv" where
  "demo_after = images_env demo_images demo_fv_after 1"

definition demo_sor :: "(bool \<times> nat list) denv" where
  "demo_sor = images_env demo_images (demo_volume [(3, Some [9, 6, 8])] [3]) 1"

lemma next_driver_fresh: "next_driver s \<notin> set (mDiscoveredList s)"
proof -
  have "\<forall>x \<in> set l. x \<le> fold max l a" and "a \<le> fold max l a" for l :: "nat list" and a
    by (induction l arbitrary: a) (auto intro: order_trans [OF max.cobounded1] order_trans [OF max.cobounded2])
  then show ?thesis unfolding next_driver_def by (metis Suc_n_not_le_n)
qed

lemma demo_fresh: "fresh_drivers (demo_volume files apriori)"
  using next_driver_fresh by (auto simp: fresh_drivers_def demo_volume_def dbase_def)

lemma demo_disp_boot: "dboot demo_disp"
  by (simp add: dboot_def demo_disp_def queued_def is_list_def mScheduledQueue_def fwd_def bwd_def)

lemma demo_sound: "sound_volumes demo_fv_after"
  by (auto simp: sound_volumes_def distinct_apriori_def plain_drivers_def demo_fv_after_def demo_volume_def read_byte_def split: if_splits)

lemma run_dcalls_steps:
  "run_dcalls (images_env I B n) cs s = Some t \<Longrightarrow> (dsystem_step I B n)\<^sup>*\<^sup>* s t"
  by (induction cs arbitrary: s) (auto simp: bind_eq_Some_conv intro: converse_rtranclp_into_rtranclp dsystem_step.call)

text \<open>The state after discovery, and the one after dispatching.\<close>

definition demo_found :: "(bool \<times> nat list) disp" where
  "demo_found = the (run_dcalls demo_after [FvAdded] demo_disp)"

lemma demo_found:
  "run_dcalls demo_after [FvAdded] demo_disp = Some demo_found"
proof -
  have "run_dcalls demo_after [FvAdded] demo_disp \<noteq> None" by code_simp
  then show ?thesis by (auto simp: demo_found_def)
qed

lemma demo_found_facts:
  "mDiscoveredList demo_found = [1, 2]" "\<not> gDispatcherRunning demo_found"
  "map_option FileName (Drivers demo_found 1) = Some 1" "map_option FileName (Drivers demo_found 2) = Some 2"
  "map_option After (Drivers demo_found 1) = Some True" "map_option BeforeAfterGuid (Drivers demo_found 1) = Some 2"
  by code_simp+

lemma demo_found_step: "(dsystem_step demo_images demo_fv_after 1)\<^sup>*\<^sup>* demo_disp demo_found"
  using demo_found run_dcalls_steps unfolding demo_after_def by blast

lemma demo_base:
  assumes "(dsystem_step demo_images demo_fv_after 1)\<^sup>*\<^sup>* demo_disp t"
  shows "dsafe demo_fv_after t"
  using dsys.inv_reachable [OF demo_disp_boot assms] demo_fresh [folded demo_fv_after_def] by (simp add: demo_fv_after_def demo_fresh)

lemma demo_unique:
  assumes "(dsystem_step demo_images demo_fv_after 1)\<^sup>*\<^sup>* demo_disp t" "mDiscoveredList t = [1, 2]"
    and "map_option FileName (Drivers t 1) = Some 1" "map_option FileName (Drivers t 2) = Some 2"
  shows "unique_names t"
proof -
  have "d = 1 \<or> d = 2" if "Drivers t d = Some e" for d e
    using demo_base [OF assms(1)] that assms(2) by (auto simp: dsafe_def dbase_def dest: domI)
  then have names: "(d = 1 \<and> FileName e = 1) \<or> (d = 2 \<and> FileName e = 2)" if "Drivers t d = Some e" for d e
    using that assms(3,4) by fastforce
  show ?thesis unfolding unique_names_def
  proof (intro allI impI)
    fix k l e f
    assume "Drivers t k = Some e" "Drivers t l = Some f" "FileName e = FileName f"
    then show "k = l" using names [of k e] names [of l f] by auto
  qed
qed

lemma demo_found_good: "unique_names demo_found" "dinv demo_found"
proof -
  show u: "unique_names demo_found" by (rule demo_unique [OF demo_found_step]) (rule demo_found_facts)+
  show "dinv demo_found" using demo_base [OF demo_found_step] demo_sound u by (simp add: dsafe_def dgood_def dinv_def)
qed

lemma demo_found_drivers: "Drivers demo_found d = Some e \<Longrightarrow> d = 1 \<or> d = 2"
  using demo_found_good(2) demo_found_facts(1) by (auto simp: dinv_def dbase_def dest: domI)

lemma demo_found_calm: "calm_state demo_found"
proof -
  let ?f = "\<lambda>e. (DepexProtocolError e, Scheduled e, map_option length (Depex e), DepexSize e)"
  have "map_option ?f (Drivers demo_found 1) = Some (False, False, Some 34, 18)"
    "map_option ?f (Drivers demo_found 2) = Some (False, False, None, 0)" by code_simp+
  then have ok: "?f e = (False, False, Some 34, 18) \<or> ?f e = (False, False, None, 0)" if "Drivers demo_found d = Some e" for d e
    using that demo_found_drivers [OF that] by (elim disjE) simp_all
  have "entry_ok e" if "Drivers demo_found d = Some e" for d e
    using ok [OF that] by (auto simp: entry_ok_def)
  then show ?thesis using demo_found_good by (simp add: calm_state_def)
qed

lemma World_pair: "\<exists>a b. (s :: ('a \<times> 'b) disp) = s\<lparr>World := (a, b)\<rparr>" "\<exists>a b. (s :: ('a \<times> 'b) disp)\<lparr>World := w\<rparr> = s\<lparr>World := (a, b)\<rparr>"
  by (rule exI [of _ "fst (World s)"], rule exI [of _ "snd (World s)"], simp)
    (rule exI [of _ "fst w"], rule exI [of _ "snd w"], simp)


subsection \<open>The invariant\<close>

text \<open>C25. Whatever services drivers call, and however loading and starting of images nests, in every state between
  services the discovered drivers are listed once each, the links of all of them are in the store, and the lock is free.
  On volumes without drivers that are scheduled on request or whose dependency section cannot be read at first, and
  without a name listed twice in an a priori file, as long as no two discovered drivers have the same file name: the
  queue is a proper doubly linked list that holds exactly the drivers marked as scheduled, once each; no driver is in two
  of the states dependent, scheduled, untrusted and initialized; and each comes from a volume that has been processed.
  (Elsewhere the code may link an entry that is linked already, see \<open>apriori_twice_hangs\<close> and
  \<open>apriori_sor_started_twice\<close>.)\<close>

theorem dispatcher_invariant:
  assumes "fresh_drivers B" "dboot s" "(dsystem_step I B n)\<^sup>*\<^sup>* s t"
  shows "dbase t \<and> (sound_volumes B \<longrightarrow> unique_names t \<longrightarrow> dinv t \<and> strict t)"
  using dsys.inv_reachable [OF assms(2,3)] assms(1) by (auto simp: dsafe_def dgood_def dinv_def)

theorem dispatcher_invariant_witness:
  "\<exists>t. (dsystem_step demo_images demo_fv_after 1)\<^sup>*\<^sup>* demo_disp t \<and> mDiscoveredList t = [1, 2] \<and>
     World t = (False, [1002, 1001]) \<and> dinv t \<and> strict t"
proof -
  have "map_option (\<lambda>t. (mDiscoveredList t, World t, map_option FileName (Drivers t 1), map_option FileName (Drivers t 2)))
      (run_dcalls demo_after [FvAdded, CallDispatcher] demo_disp) = Some ([1, 2], (False, [1002, 1001]), Some 1, Some 2)"
    by code_simp
  then obtain t where t: "run_dcalls demo_after [FvAdded, CallDispatcher] demo_disp = Some t" "mDiscoveredList t = [1, 2]"
    "World t = (False, [1002, 1001])" "map_option FileName (Drivers t 1) = Some 1" "map_option FileName (Drivers t 2) = Some 2"
    by auto
  have steps: "(dsystem_step demo_images demo_fv_after 1)\<^sup>*\<^sup>* demo_disp t"
    using t(1) run_dcalls_steps unfolding demo_after_def by blast
  have "fresh_drivers demo_fv_after" unfolding demo_fv_after_def by (rule demo_fresh)
  from dispatcher_invariant [OF this demo_disp_boot steps] demo_sound demo_unique [OF steps t(2,4,5)] t(2,3) steps
  show ?thesis by blast
qed

text \<open>C26. On such volumes, as long as no two discovered drivers have the same file name, a driver whose image has been
  started (or could not be loaded) is never put on the queue again, whatever services are called later: the queue stays a
  proper list without it, so the dispatcher never starts it a second time.\<close>

theorem initialized_not_queued:
  assumes "fresh_drivers B" "sound_volumes B" "dboot s" "(dsystem_step I B n)\<^sup>*\<^sup>* s t" "(dsystem_step I B n)\<^sup>*\<^sup>* t u"
    and "unique_names u" "Drivers t d = Some e" "Initialized e"
  shows "(\<exists>q. queued u q \<and> d \<notin> set q) \<and>
    (\<exists>e'. Drivers u d = Some e' \<and> Initialized e' \<and> \<not> Dependent e' \<and> \<not> Scheduled e')"
proof -
  have t: "dbase t" using dsys.inv_reachable [OF assms(3,4)] assms(1) by (simp add: dsafe_def)
  have "(dsystem_step I B n)\<^sup>*\<^sup>* s u" using assms(4,5) by simp
  then have "dsafe B u" using dsys.inv_reachable [OF assms(3)] assms(1) by blast
  then have u: "dqueue u" "strict u" using assms(2,6) by (simp_all add: dsafe_def dgood_def)
  have "later t u" using dsystem_steps_dstep [OF assms(1,5)] t by (simp add: gstep_def)
  then obtain e' where e': "Drivers u d = Some e'" "Initialized e'" using assms(7,8) unfolding later_def by blast
  moreover have "one_state e'" using u(2) e'(1) by (auto simp: strict_def)
  ultimately have "\<not> Dependent e' \<and> \<not> Scheduled e'" by (auto simp: one_state_def)
  then show ?thesis using u(1) e' by (auto simp: dqueue_def scheduled_in_def)
qed

theorem initialized_not_queued_witness:
  "\<exists>t u. (dsystem_step demo_images demo_fv_after 1)\<^sup>*\<^sup>* demo_disp t \<and> World t = (False, [1002, 1001]) \<and>
     CoreDispatcher demo_after t = Some (EFI_NOT_FOUND, u) \<and> (\<exists>q. queued u q \<and> 1 \<notin> set q)"
proof -
  let ?names = "\<lambda>u. (mDiscoveredList u, map_option FileName (Drivers u 1), map_option FileName (Drivers u 2))"
  have "map_option (\<lambda>t. (map_option Initialized (Drivers t 1), World t,
      map_option (\<lambda>(st, u). (st, ?names u)) (CoreDispatcher demo_after t)))
      (run_dcalls demo_after [FvAdded, CallDispatcher] demo_disp) =
      Some (Some True, (False, [1002, 1001]), Some (EFI_NOT_FOUND, [1, 2], Some 1, Some 2))"
    by code_simp
  then obtain t e u where t: "run_dcalls demo_after [FvAdded, CallDispatcher] demo_disp = Some t" "Drivers t 1 = Some e"
    "Initialized e" "World t = (False, [1002, 1001])" "CoreDispatcher demo_after t = Some (EFI_NOT_FOUND, u)"
    and u: "?names u = ([1, 2], Some 1, Some 2)" by auto
  have steps: "(dsystem_step demo_images demo_fv_after 1)\<^sup>*\<^sup>* demo_disp t"
    using t(1) run_dcalls_steps unfolding demo_after_def by blast
  have fresh: "fresh_drivers demo_fv_after" unfolding demo_fv_after_def by (rule demo_fresh)
  have "run_dcall (images_env demo_images demo_fv_after 1) CallDispatcher t = Some u" using t(5) by (simp add: demo_after_def)
  then have more: "(dsystem_step demo_images demo_fv_after 1)\<^sup>*\<^sup>* t u" by (blast intro: dsystem_step.call)
  then have "(dsystem_step demo_images demo_fv_after 1)\<^sup>*\<^sup>* demo_disp u" using steps by simp
  then have "unique_names u" using u by (intro demo_unique) simp_all
  from initialized_not_queued [OF fresh demo_sound demo_disp_boot steps more this t(2,3)]
  show ?thesis using t(4,5) steps by blast
qed

subsection \<open>Scheduling\<close>

lemma queue_step:
  "seg F G a (map ScheduledLink q) b \<Longrightarrow> F a = Some c \<Longrightarrow>
    q = [] \<and> c = b \<or> (\<exists>d q'. q = d # q' \<and> c = d + 2 \<and> seg F G c (map ScheduledLink q') b)"
  by (cases q) (auto simp: ScheduledLink_def)

text \<open>C27. When no two drivers have the same file name, scheduling a driver whose dependencies are met returns,
  and appends to the queue that driver and, once each, all drivers that wait to go before or after it, or before or after one
  of those, in an order in which every one of them is at the side of its target that it asked for: a queue that was a
  proper list is one afterwards, longer by these drivers. (In a debug build, when the drivers do not exceed
  \<open>PcdMaximumLinkedListLength\<close>.)\<close>

theorem CoreInsertOnScheduledQueue_order:
  assumes "ready_state s" "Drivers s d = Some e" "Dependent e" "\<not> Before e" "\<not> After e"
    and "room (Pcd E) (length (mDiscoveredList s))"
  shows "\<exists>B. CoreInsertOnScheduledQueueWhileProcessingBeforeAndAfter E d s = Some (sched B s) \<and>
    set B = dependants s d \<and> distinct B \<and> in_order s B \<and> (\<forall>q. queued s q \<longrightarrow> queued (sched B s) (q @ B))"
  by (rule insert_before_after_queue) (rule assms)+

theorem CoreInsertOnScheduledQueue_order_witness:
  "\<exists>t. CoreInsertOnScheduledQueueWhileProcessingBeforeAndAfter demo_after 2 demo_found = Some t \<and> queued t [2, 1]"
proof -
  have "map_option (\<lambda>e. (Dependent e, Before e, After e)) (Drivers demo_found 2) = Some (True, False, False)" by code_simp
  then obtain e where e: "Drivers demo_found 2 = Some e" "Dependent e" "\<not> Before e" "\<not> After e" by auto
  have room: "room (Pcd demo_after) n" for n by (simp add: demo_after_def demo_fv_after_def demo_volume_def)
  obtain q where q: "queued demo_found q" "\<And>d. d \<in> set q \<longleftrightarrow> scheduled_in demo_found d"
    using demo_found_good(2) unfolding dinv_def dqueue_def by blast
  have "map_option Scheduled (Drivers demo_found 1) = Some False" "map_option Scheduled (Drivers demo_found 2) = Some False"
    by code_simp+
  then have "\<not> scheduled_in demo_found d" for d using demo_found_drivers [of d] by (auto simp: scheduled_in_def)
  then have "queued demo_found []" using q by (metis equals0I set_empty)
  with CoreInsertOnScheduledQueue_order [OF calm_ready [OF demo_found_calm] e room] obtain B where
    B: "CoreInsertOnScheduledQueueWhileProcessingBeforeAndAfter demo_after 2 demo_found = Some (sched B demo_found)"
      "queued (sched B demo_found) B" by fastforce
  let ?t = "sched B demo_found"
  have "map_option (\<lambda>t. (fwd (ScheduledLinks t) 1, fwd (ScheduledLinks t) 4, fwd (ScheduledLinks t) 3))
      (CoreInsertOnScheduledQueueWhileProcessingBeforeAndAfter demo_after 2 demo_found) = Some (Some 4, Some 3, Some 1)" by code_simp
  then have l: "fwd (ScheduledLinks ?t) 1 = Some 4" "fwd (ScheduledLinks ?t) 4 = Some 3" "fwd (ScheduledLinks ?t) 3 = Some 1"
    unfolding B(1) by simp_all
  have "B = [2, 1]" if "is_list h 1 (map ScheduledLink B)" and l: "fwd h 1 = Some 4" "fwd h 4 = Some 3" "fwd h 3 = Some 1" for h
  proof -
    have "seg (fwd h) (bwd h) 1 (map ScheduledLink B) 1" using that(1) by (simp add: is_list_def)
    from queue_step [OF this l(1)] obtain C where C: "B = 2 # C" "seg (fwd h) (bwd h) 4 (map ScheduledLink C) 1" by auto
    from queue_step [OF C(2) l(2)] obtain D where D: "C = 1 # D" "seg (fwd h) (bwd h) 3 (map ScheduledLink D) 1"
      by (auto simp: eval_nat_numeral)
    from queue_step [OF D(2) l(3)] C(1) D(1) show ?thesis by auto
  qed
  from this [OF _ l] have "B = [2, 1]" using B(2) by (simp add: queued_def mScheduledQueue_def)
  with B show ?thesis by blast
qed

subsection \<open>The dispatch loop\<close>



text \<open>A file name that occurs twice in the a priori file links the entry of its driver to itself, behind the head of the
  queue. Taking the entry off then changes nothing, and the dispatcher starts that driver over and over.\<close>

definition circular :: "'w disp \<Rightarrow> nat \<Rightarrow> bool" where
  "circular s d \<longleftrightarrow> mDispatcherLock s = EfiLockReleased \<and> d \<in> dom (Drivers s) \<and>
     fwd (ScheduledLinks s) mScheduledQueue = Some (ScheduledLink d) \<and>
     ScheduledLinks s (ScheduledLink d) = Some \<lparr>ForwardLink = ScheduledLink d, BackLink = ScheduledLink d\<rparr>"

lemma circular_fields [simp]: "circular (s\<lparr>World := w\<rparr>) d = circular s d" "circular (s\<lparr>gDispatcherRunning := b\<rparr>) d = circular s d"
  by (simp_all add: circular_def)

lemma circular_upd [simp]: "circular (upd_driver k f s) d = circular s d"
  by (auto simp: circular_def upd_driver_def)

lemma unschedule_circular:
  assumes "\<not> DebugAssertEnabled cfg" "circular s d" "unschedule_driver cfg f d s = Some t"
  shows "circular t d"
proof -
  obtain u where u: "RemoveEntryList cfg (ScheduledLinks s) (ScheduledLink d) = Some (ScheduledLink d, ScheduledLinks s)"
    using assms(1,2) by (simp add: circular_def RemoveEntryList_def fwd_def bwd_def set_bwd_def set_fwd_def fun_upd_idem)
  have "circular (upd_driver d (\<lambda>e. (f e)\<lparr>Scheduled := False\<rparr>) s) d" using assms(2) by simp
  then show ?thesis using assms u
    by (auto simp: unschedule_driver_def CoreAcquireDispatcherLock_def CoreReleaseDispatcherLock_def
        dequeue_driver_def circular_def ASSERT_def upd_driver_def)
qed

lemma dispatch_circular:
  assumes E: "calm E" and s: "circular s d" and run: "dispatch_driver E d s = Some (b, t)"
  shows "circular t d"
proof -
  have dbg: "\<not> DebugAssertEnabled (Pcd E)" using E by (simp add: calm_def)
  have load: "circular u d" if "LoadImage E p s = Some (st, h, u)" for p st h u
    using E that s unfolding calm_def by (metis circular_fields(1) option.inject prod.inject)
  have start: "circular v d" if "StartImage E h u = Some v" "circular u d" for h u v
    using E that unfolding calm_def by (metis circular_fields(1) option.inject)
  show ?thesis using run s unfolding dispatch_driver_def
    by (auto simp: bind_eq_Some_conv split: if_splits prod.splits dest!: unschedule_circular [OF dbg, rotated] load
        intro: start)
qed

lemma drain_circular:
  assumes E: "calm E"
  shows "circular s d \<Longrightarrow> drain_queue E rs s = None"
proof -
  have "calm E \<longrightarrow> \<not> circular s d" if "drain_queue E rs s = Some r" for r
  proof (rule drain_queue.raw_induct [where P = "\<lambda>E rs s r. calm E \<longrightarrow> \<not> circular s d", OF _ that])
    fix drain :: "'a denv \<Rightarrow> EFI_STATUS \<Rightarrow> 'a disp \<Rightarrow> (EFI_STATUS \<times> 'a disp) option" and E rs s r
    assume IH: "\<And>E rs s r. drain E rs s = Some r \<Longrightarrow> calm E \<longrightarrow> \<not> circular s d"
      and run: "Option.bind (IsListEmpty (Pcd E) (ScheduledLinks s) mScheduledQueue) (\<lambda>empty.
        if empty then Some (rs, s)
        else Option.bind (first_scheduled s) (\<lambda>d. Option.bind (dispatch_driver E d s) (\<lambda>(started, s).
          drain E (if started then EFI_SUCCESS else rs) s))) = Some r"
    show "calm E \<longrightarrow> \<not> circular s d"
    proof (intro impI notI)
      assume E: "calm E" and s: "circular s d"
      then have "IsListEmpty (Pcd E) (ScheduledLinks s) mScheduledQueue = Some False" "first_scheduled s = Some d"
        using E by (simp_all add: circular_def calm_def IsListEmpty_def first_scheduled_def ScheduledLink_def mScheduledQueue_def)
      with run obtain b t where "dispatch_driver E d s = Some (b, t)" "drain E (if b then EFI_SUCCESS else rs) t = Some r"
        by (auto simp: bind_eq_Some_conv split: prod.splits)
      with IH E dispatch_circular [OF E s] show False by blast
    qed
  qed
  then show "circular s d \<Longrightarrow> drain_queue E rs s = None" by (cases "drain_queue E rs s") (use E in auto)
qed

definition demo_twice :: "(bool \<times> nat list) denv" where
  "demo_twice = images_env demo_images (demo_volume [(3, None)] [3, 3]) 1"

theorem apriori_twice_hangs:
  "\<exists>t. run_dcalls demo_twice [FvAdded] demo_disp = Some t \<and> CoreDispatcher demo_twice t = None"
proof -
  have "map_option (\<lambda>t. (fwd (ScheduledLinks t) 1, fwd (ScheduledLinks t) 3, bwd (ScheduledLinks t) 3, mDispatcherLock t,
      map_option FileName (Drivers t 1), gDispatcherRunning t)) (run_dcalls demo_twice [FvAdded] demo_disp) =
      Some (Some 3, Some 3, Some 3, EfiLockReleased, Some 3, False)" by code_simp
  then obtain t where t: "run_dcalls demo_twice [FvAdded] demo_disp = Some t" "\<not> gDispatcherRunning t"
    "fwd (ScheduledLinks t) 1 = Some 3" "fwd (ScheduledLinks t) 3 = Some 3" "bwd (ScheduledLinks t) 3 = Some 3"
    "mDispatcherLock t = EfiLockReleased" "Drivers t 1 \<noteq> None" by auto
  have calm: "calm demo_twice"
    by (simp add: calm_def demo_twice_def demo_volume_def demo_images_def split: prod.splits) (use World_pair in blast)
  have "ScheduledLinks t 3 = Some \<lparr>ForwardLink = 3, BackLink = 3\<rparr>"
    using t(4,5) by (auto simp: fwd_def bwd_def intro!: LIST_ENTRY.equality)
  moreover have "mScheduledQueue = 1" "ScheduledLink 1 = 3" by (simp_all add: mScheduledQueue_def ScheduledLink_def)
  ultimately have "circular t 1" using t(3,6,7) unfolding circular_def by auto
  then have "dispatch_rounds demo_twice rs (t\<lparr>gDispatcherRunning := True\<rparr>) = None" for rs
    using drain_circular [OF calm] by (subst dispatch_rounds.simps) simp
  moreover have "CreateDispatchEvent demo_twice w = (EFI_SUCCESS, w)" for w by (simp add: demo_twice_def demo_volume_def)
  ultimately have "CoreDispatcher demo_twice t = None" using t(2) by (simp add: CoreDispatcher_def)
  with t(1) show ?thesis by blast
qed

text \<open>The state \<open>strict\<close> excludes is reached when the a priori file lists a driver that waits to be scheduled on request:
  it is dispatched, and a later \<open>Schedule\<close> makes it wait for its dependencies, so that its image is started again.\<close>

theorem apriori_sor_started_twice:
  "\<exists>t. run_dcalls demo_sor [FvAdded, CallDispatcher, ScheduleFile 5 3, CallDispatcher] demo_disp = Some t \<and>
     World t = (False, [1003, 1003])"
proof -
  have "map_option World (run_dcalls demo_sor [FvAdded, CallDispatcher, ScheduleFile 5 3, CallDispatcher] demo_disp) =
    Some (False, [1003, 1003])" by code_simp
  then show ?thesis by auto
qed

text \<open>When the event that ends a round cannot be created, \<open>gDispatcherRunning\<close> stays set: every later call of the
  dispatcher does nothing.\<close>

theorem CoreDispatcher_event_failure:
  assumes "\<not> gDispatcherRunning s" "EFI_ERROR (fst (CreateDispatchEvent E (World s)))"
  shows "\<exists>st t. CoreDispatcher E s = Some (st, t) \<and> EFI_ERROR st \<and> (\<forall>E'. CoreDispatcher E' t = Some (EFI_ALREADY_STARTED, t))"
  using assms by (auto simp: CoreDispatcher_def split: prod.splits)

end
