(* ===== verification/Spec2Isabelle.thy ===== *)
theory Spec2Isabelle
  imports LinkedList EventProps Dependency GcdProps PageProps HandleProps DispatcherProps
begin

text \<open>
  Verification of the DXE core of the UDK2010 firmware (EDK II), \<^verbatim>\<open>MdeModulePkg/Core/Dxe\<close>, and of the base
  library routines under it. All paths below are under \<^verbatim>\<open>src/\<close>; file names without a directory are in
  \<^verbatim>\<open>MdeModulePkg/Core/Dxe\<close>. Numbers C1, C2, ... stand in front of the properties.

  \<^bold>\<open>The program.\<close> The DXE core is the kernel of the firmware between the initialisation of memory and the
  start of the operating system. It runs one thread at task priority levels; raising and restoring the
  level is the only mutual exclusion, and restoring it runs the notification functions of events that
  became due. On the events rests the handle database, through which drivers publish and find
  interfaces: its lock raises the level, and installing an interface signals events. The dispatcher reads
  the database to decide by dependency expressions which driver may start. The global coherency domain
  keeps the maps of the memory and I/O address spaces; the page allocator keeps the map of the memory in use,
  which it hands to the operating system, and takes untested memory from the global coherency domain when it runs out.

  \<^bold>\<open>Conventions.\<close> Machine integers are words of their width in an X64 build, or \<open>nat\<close> where the code
  never computes with them (priority levels, pointers). A structure is a record with the field names of
  the source, pointers are addresses with 0 for NULL, and what the code reaches through pointers are maps
  from addresses. A function that may fail to return (an assertion in a debug build, following a pointer
  to nothing, an endless loop) returns an \<open>option\<close>; \<open>None\<close> is that failure, never an error status. Loops
  without an obvious bound are \<open>partial_function (option)\<close>; theorems that say what a service returns show
  that it returns. Functions of other parts of the system are arguments: the pool, the CPU protocol,
  connecting and disconnecting of controllers, the memory with device paths.

  \<^bold>\<open>Theories.\<close>
  \<^item> \<open>DxePrelude\<close>: integer types, \<open>EFI_STATUS\<close> and \<open>EFI_ERROR\<close>, assertions, \<open>while_opt\<close>, the locale
    \<open>step_system\<close> of invariants of step relations. \<open>DxeWord\<close>: alignment by masks, ranges of words.
  \<^item> \<open>LinkedList\<close>: \<^verbatim>\<open>MdePkg/Library/BaseLib/LinkedList.c\<close> over an explicit store of nodes, its assertions
    and the optional membership check included. Each operation refines one on lists.
  \<^item> \<open>HighBit\<close>: \<^verbatim>\<open>HighBitSet32.c\<close>, \<^verbatim>\<open>HighBitSet64.c\<close>.
  \<^item> \<open>EventTpl\<close>: \<^verbatim>\<open>Event/Event.c\<close>, \<^verbatim>\<open>Event/Timer.c\<close>, \<^verbatim>\<open>Event/Tpl.c\<close>, the locks of \<^verbatim>\<open>Library/Library.c\<close>.
    The global variables are the fields of \<open>event_db\<close> and \<open>dxe\<close>; \<open>Ctx\<close> is the rest of the system.
    \<open>CoreRestoreTpl\<close> and the services call each other through notification functions: the services take
    the restore function as an argument and \<open>CoreRestoreTpl\<close> closes the cycle with the depth of nesting as
    fuel. Depth 1 suffices when nothing pending is above the level to restore; a program that nests
    deeper than its fuel does not return, and no theorem claims that it does.
    \<open>EventInv\<close>, \<open>EventTimer\<close>, \<open>EventDispatch\<close>, \<open>EventSystem\<close>: the invariant \<open>dxe_inv\<close> (queues, pending mask,
    signal queue, timer list, locks) and that every service keeps it whatever programs the notification
    functions are. \<open>EventOrder\<close>, \<open>EventLive\<close>: the order of notifications, progress of the timer check.
    \<open>EventCtx\<close>: the event services touch the rest of the system only through notification functions.
    \<open>EventProps\<close>: the properties.
  \<^item> \<open>Dependency\<close>: \<^verbatim>\<open>Dispatcher/Dependency.c\<close>, the evaluation stack and the evaluator, against the value of
    expressions as trees.
  \<^item> \<open>Gcd\<close>: \<^verbatim>\<open>Gcd/Gcd.c\<close>. The maps are lists of entries \<open>EFI_GCD_MAP_ENTRY\<close>; \<open>GcdMap\<close> gives a map its meaning,
    the attributes of every address, and its invariant (sorted, without gap or overlap); \<open>GcdConvert\<close>
    refines the conversion of a range, \<open>GcdAlloc\<close> proves the search for free ranges, \<open>GcdSystem\<close> the
    invariant under all calls and the initialisation from hand-off blocks, \<open>GcdProps\<close> the properties.
  \<^item> \<open>Page\<close>: \<^verbatim>\<open>Mem/Page.c\<close>. The state extends that of \<open>Gcd\<close>. The map describes the memory that its own descriptors lie in:
    new descriptors are made in the array \<open>mMapStack\<close> and moved to memory by \<open>CoreFreeMemoryMapStack\<close>, which may allocate a page, which
    makes descriptors. That recursion has a depth as fuel, of which 1 is enough, since \<open>mFreeMapStack\<close> ends it there.
    \<open>PageInv\<close>: the bytes that a map describes (\<open>cells\<close>) and its invariant; \<open>PageConvert\<close>, \<open>PageKeeps\<close>: what the conversion of a range
    does to them (\<open>turned\<close>), inside the locale \<open>descriptor_store\<close>, the contract of \<open>CoreFreeMemoryMapStack\<close>; \<open>PageFind\<close>: the search for free pages;
    \<open>PageStore\<close>: the storage of descriptors over the locale \<open>page_supply\<close>, and the interpretation of both locales on the code, by
    induction on the depth; \<open>PageServices\<close>: allocation and freeing; \<open>PageSystem\<close>: adding of memory with the bins
    of the memory types, and sequences of calls; \<open>PageReport\<close>: the map for the caller; \<open>PageLive\<close>: that the services return; \<open>PageProps\<close>: the properties.
  \<^item> \<open>DevicePath\<close>: the accessors of device paths of \<^verbatim>\<open>MdePkg/Library/UefiDevicePathLib\<close>.
  \<^item> \<open>HandleDb\<close>, \<open>HandleServices\<close>, \<open>HandleLocate\<close>: \<^verbatim>\<open>Hand/Handle.c\<close>, \<^verbatim>\<open>Hand/Notify.c\<close>, \<^verbatim>\<open>Hand/Locate.c\<close>. The database
    \<open>hdb\<close> is the context of the event state, so that its lock, its notification events and the
    notification functions that run when the lock is released are those of \<open>EventTpl\<close>.
    \<open>HandleInv\<close>: the invariant \<open>hinv\<close> and the elementary changes that keep it. \<open>HandleKeeps\<close>: every service
    keeps it, whatever the notification functions and drivers do in between. \<open>HandleSystem\<close>: programs over
    all services, nested to any depth, and the reachable states. \<open>HandleSpec\<close>: the relation of the
    installed interfaces as the abstract view, and how the services change it; \<open>HandleFind\<close>: the searches;
    \<open>HandleProps\<close>: the properties.
  \<^item> \<open>Dispatcher\<close>: \<^verbatim>\<open>Dispatcher/Dispatcher.c\<close>, with the evaluator of \<open>Dependency\<close> and the drivers as a map from
    addresses. The queue \<open>mScheduledQueue\<close> is kept as links in a store, changed by the operations of \<open>LinkedList\<close> only, since the
    code may link an entry that is linked already; \<open>queued s q\<close> says that it is a proper list of the drivers \<open>q\<close>.
    The recursion over \<open>BEFORE\<close> and \<open>AFTER\<close> among \<open>n\<close> drivers has \<open>n * (n + 1) + 1\<close> as fuel: a call nested deeper has
    entered a driver twice with none scheduled in between. \<open>DispatcherSched\<close>: what that recursion appends to the queue, and that it ends.
    \<open>DispatcherInv\<close>: what holds always (\<open>dbase\<close>), the queue (\<open>dqueue\<close>) and the states of drivers (\<open>strict\<close>), kept by every
    operation under the conditions below. \<open>DispatcherSystem\<close>: images and
    notification functions as programs over the dispatcher, nested to any depth. \<open>DispatcherLive\<close>: termination of
    the dispatch loop. \<open>DispatcherProps\<close>: the properties.

  \<^bold>\<open>Interfaces.\<close> The locale \<open>list_store\<close> states what clients of linked lists use, \<open>bool_stack\<close> what the evaluator
  uses of its stack; both are interpreted on the models of the code. \<open>step_system\<close> is interpreted on the services of the events, of the global coherency domain,
  of the page allocator, of the handle database and of the dispatcher. The contract of restore functions (\<open>restore_ok\<close>, \<open>restore_ctx\<close>) connects
  events and handles: it is proved of \<open>CoreRestoreTpl\<close> and assumed by the services' lemmas.

  \<^bold>\<open>Hypotheses.\<close> The invariants hold with assertions enabled (\<open>Asserts P\<close>), as in the debug build the
  source is written for. A pool may run out of memory, but does not hand out memory that is in use
  (\<open>pool_ok\<close>). The lemmas on results of protocol services are on states that are \<open>ready\<close>: at most at
  \<open>TPL_NOTIFY\<close> with the database lock free and no notification pending above the level.
  The page allocator frees only memory that its caller owns (\<open>owned\<close>), and memory is added that is not there yet
  (\<open>addable\<close>). The number of pages is below \<open>2\<^sup>5\<^sup>2\<close> where the properties say so; above, it wraps.
  Drivers are allocated at fresh addresses (\<open>fresh_drivers\<close>). That the queue of the dispatcher is a proper list, and that
  the states of a driver exclude each other, is shown for \<open>sound_volumes\<close>, volumes without sections \<open>SOR\<close>, without sections
  that cannot be read at first and without a name listed twice in an a priori file, and while file names are
  unique (\<open>unique_names\<close>); without these it fails (\<open>apriori_sor_started_twice\<close>, \<open>apriori_twice_hangs\<close>). The termination of the dispatch loop
  (\<open>calm\<close>) and of the evaluator of dependencies is shown for a release build.

  \<^bold>\<open>Not modelled.\<close> Interrupts between two steps of a service: calls are sequential, the timer interrupt is a
  call of its own. Memory contents: a freed structure is gone from its map. Of \<^verbatim>\<open>Gcd.c\<close> the choice of the
  first memory region from raw hand-off blocks (\<open>CoreInitializeMemoryServices\<close>). Of \<^verbatim>\<open>Mem\<close> the pool (\<^verbatim>\<open>Pool.c\<close>), which the other components take as an argument. Images, firmware volumes,
  sections, driver binding, runtime and SMM services, drivers, libraries with assembly or hardware access,
  the compatibility packages, build tools and vendored code.
\<close>

end
